(* ===== verification/Prelude.thy ===== *)
theory Prelude
  imports Main "HOL-Library.AList"
begin

text \<open>
  Shared vocabulary of the development: Python dictionaries as insertion-ordered association
  lists, Python exceptions as values, and the two storage contracts every in-memory store of
  the program implements (a store keyed by an object's own fields, and an append-only
  journal), stated as locales with the lemmas their clients use.
\<close>

section \<open>Collections of facts\<close>

named_theorems store_defs \<open>definitions of the in-memory stores\<close>
named_theorems op_defs \<open>definitions of the engines' operations\<close>

section \<open>Values\<close>

text \<open>
  A Python string is a list of code points below 256 (Latin-1), which holds every literal of
  the modelled code. A \<open>datetime\<close> is the number of microseconds since the epoch in UTC, a
  \<open>timedelta\<close> a number of microseconds; both are unbounded integers here.
\<close>

type_synonym pystr = string
type_synonym datetime = int
type_synonym timedelta = int

abbreviation seconds :: "int \<Rightarrow> timedelta" where
  "seconds n \<equiv> n * 1000000"

abbreviation minutes :: "int \<Rightarrow> timedelta" where
  "minutes n \<equiv> n * 60000000"

abbreviation hours :: "int \<Rightarrow> timedelta" where
  "hours n \<equiv> n * 3600000000"

abbreviation days :: "int \<Rightarrow> timedelta" where
  "days n \<equiv> n * 86400000000"

text \<open>
  Exceptions: the built-in ones the code raises or lets through, the program's own classes,
  and \<open>Foreign\<close> for an exception raised by a plugged-in handler, of which the program only
  reads the class name and \<open>str()\<close>.
\<close>

datatype pyexn =
    KeyError pystr
  | ValueError pystr
  | RuntimeError pystr
  | AssertionError
  | RecursionError
  | TimeoutError
  | ZeroDivisionError
  | OverflowError pystr
  | UnknownExpressionError pystr
  | UnknownActionTypeError pystr
  | UnknownIntegrationError pystr
  | WorkflowExecutionError pystr
  | FloatingPoolExhaustedError pystr
  | ModuleNotAvailableError pystr
  | TypeError pystr
  | OAuth2Error pystr
  | TenantAccessError pystr
  | HTTPException int pystr
  | Foreign pystr pystr

text \<open>The result of a computation that may raise, and the sequencing of such computations.\<close>

type_synonym 'a result = "pyexn + 'a"

fun res_bind :: "'a result \<Rightarrow> ('a \<Rightarrow> 'b result) \<Rightarrow> 'b result" where
  "res_bind (Inl e) f = Inl e"
| "res_bind (Inr x) f = f x"

lemma res_bind_Inr_iff: "res_bind r f = Inr y \<longleftrightarrow> (\<exists>x. r = Inr x \<and> f x = Inr y)"
  by (cases r) auto

lemma res_bind_Inl_iff: "res_bind r f = Inl e \<longleftrightarrow> r = Inl e \<or> (\<exists>x. r = Inr x \<and> f x = Inl e)"
  by (cases r) auto

lemma res_bind_cong [fundef_cong]:
  "r = r' \<Longrightarrow> (\<And>x. r' = Inr x \<Longrightarrow> f x = g x) \<Longrightarrow> res_bind r f = res_bind r' g"
  by (cases r') auto

text \<open>\<open>all(p(x) for x in xs)\<close> and \<open>any(...)\<close>: left to right, stopping at the first answer or exception.\<close>

fun all_res :: "('a \<Rightarrow> bool result) \<Rightarrow> 'a list \<Rightarrow> bool result" where
  "all_res p [] = Inr True"
| "all_res p (x # xs) = res_bind (p x) (\<lambda>b. if b then all_res p xs else Inr False)"

fun any_res :: "('a \<Rightarrow> bool result) \<Rightarrow> 'a list \<Rightarrow> bool result" where
  "any_res p [] = Inr False"
| "any_res p (x # xs) = res_bind (p x) (\<lambda>b. if b then Inr True else any_res p xs)"

text \<open>A comprehension with a filter that may raise.\<close>

fun filter_res :: "('a \<Rightarrow> bool result) \<Rightarrow> 'a list \<Rightarrow> 'a list result" where
  "filter_res p [] = Inr []"
| "filter_res p (x # xs) =
     res_bind (p x) (\<lambda>b. res_bind (filter_res p xs) (\<lambda>ys. Inr (if b then x # ys else ys)))"

lemma all_res_total: "(\<And>x. x \<in> set xs \<Longrightarrow> p x = Inr (q x)) \<Longrightarrow> all_res p xs = Inr (\<forall>x \<in> set xs. q x)"
  by (induction xs) auto

lemma any_res_total: "(\<And>x. x \<in> set xs \<Longrightarrow> p x = Inr (q x)) \<Longrightarrow> any_res p xs = Inr (\<exists>x \<in> set xs. q x)"
  by (induction xs) auto

lemma filter_res_total: "(\<And>x. x \<in> set xs \<Longrightarrow> p x = Inr (q x)) \<Longrightarrow> filter_res p xs = Inr (filter q xs)"
  by (induction xs) auto

lemma all_res_Inl: "all_res p xs = Inl e \<Longrightarrow> \<exists>x \<in> set xs. p x = Inl e"
  by (induction xs) (auto elim!: res_bind.elims split: if_splits)

lemma any_res_Inl: "any_res p xs = Inl e \<Longrightarrow> \<exists>x \<in> set xs. p x = Inl e"
  by (induction xs) (auto elim!: res_bind.elims split: if_splits)

lemma all_res_refine:
  "(\<And>x. x \<in> set xs \<Longrightarrow> p x \<noteq> Inl e \<Longrightarrow> q x = p x) \<Longrightarrow> all_res p xs \<noteq> Inl e \<Longrightarrow> all_res q xs = all_res p xs"
proof (induction xs)
  case (Cons x xs)
  then have "p x \<noteq> Inl e" by auto
  with Cons show ?case by (cases "p x") auto
qed simp

lemma any_res_refine:
  "(\<And>x. x \<in> set xs \<Longrightarrow> p x \<noteq> Inl e \<Longrightarrow> q x = p x) \<Longrightarrow> any_res p xs \<noteq> Inl e \<Longrightarrow> any_res q xs = any_res p xs"
proof (induction xs)
  case (Cons x xs)
  then have "p x \<noteq> Inl e" by auto
  with Cons show ?case by (cases "p x") auto
qed simp

lemma all_res_cong: "(\<And>x. x \<in> set xs \<Longrightarrow> p x = q x) \<Longrightarrow> all_res p xs = all_res q xs"
  by (induction xs) (auto cong: if_cong)

lemma any_res_cong: "(\<And>x. x \<in> set xs \<Longrightarrow> p x = q x) \<Longrightarrow> any_res p xs = any_res q xs"
  by (induction xs) (auto cong: if_cong)

section \<open>Dictionaries\<close>

text \<open>
  A \<open>dict\<close> keeps its insertion order: assigning to a new key appends, assigning to an old
  key replaces in place, which is exactly \<^const>\<open>AList.update\<close>.
\<close>

type_synonym ('k, 'v) dict = "('k \<times> 'v) list"

abbreviation dict_get :: "('k, 'v) dict \<Rightarrow> 'k \<Rightarrow> 'v option" where
  "dict_get d k \<equiv> map_of d k"

abbreviation dict_set :: "'k \<Rightarrow> 'v \<Rightarrow> ('k, 'v) dict \<Rightarrow> ('k, 'v) dict" where
  "dict_set k v d \<equiv> AList.update k v d"

abbreviation dict_pop :: "'k \<Rightarrow> ('k, 'v) dict \<Rightarrow> ('k, 'v) dict" where
  "dict_pop k d \<equiv> AList.delete k d"

abbreviation dict_keys :: "('k, 'v) dict \<Rightarrow> 'k list" where
  "dict_keys d \<equiv> map fst d"

abbreviation dict_values :: "('k, 'v) dict \<Rightarrow> 'v list" where
  "dict_values d \<equiv> map snd d"

text \<open>\<open>d.update(m)\<close>: the entries of \<open>m\<close> are assigned in order.\<close>

definition dict_update :: "('k, 'v) dict \<Rightarrow> ('k, 'v) dict \<Rightarrow> ('k, 'v) dict" where
  "dict_update m d = fold (\<lambda>(k, v). AList.update k v) m d"

lemma dict_update_get:
  "distinct (map fst m) \<Longrightarrow> map_of (dict_update m d) k = (map_of d ++ map_of m) k"
proof (induction m arbitrary: d)
  case (Cons p m)
  then have "map_of m (fst p) = None" by (simp add: map_of_eq_None_iff)
  with Cons show ?case
    by (cases p) (auto simp: dict_update_def update_conv' map_add_def split: option.splits)
qed (simp add: dict_update_def)

text \<open>\<open>keyed key d\<close>: every object sits under its own key, and no key occurs twice.\<close>

definition keyed :: "('v \<Rightarrow> 'k) \<Rightarrow> ('k, 'v) dict \<Rightarrow> bool" where
  "keyed key d \<longleftrightarrow> distinct (map fst d) \<and> (\<forall>(k, v) \<in> set d. k = key v)"

lemma keyed_Nil [simp]: "keyed key []"
  by (simp add: keyed_def)

lemma keyed_distinct [intro]: "keyed key d \<Longrightarrow> distinct (map fst d)"
  by (simp add: keyed_def)

lemma keyed_member: "keyed key d \<Longrightarrow> (k, v) \<in> set d \<Longrightarrow> k = key v"
  by (auto simp: keyed_def)

lemma keyed_get: "keyed key d \<Longrightarrow> map_of d k = Some v \<Longrightarrow> key v = k"
  by (auto dest: map_of_SomeD keyed_member)

lemma keyed_get_iff: "keyed key d \<Longrightarrow> map_of d (key v) = Some v \<longleftrightarrow> v \<in> snd ` set d"
  by (force simp: keyed_def)

lemma keyed_set [intro]:
  assumes "keyed key d" and "k = key v"
  shows "keyed key (dict_set k v d)"
proof -
  have "distinct (map fst (dict_set k v d))"
    using assms by (simp add: keyed_def distinct_update)
  moreover have "(k', v') \<in> set (dict_set k v d) \<Longrightarrow> k' = key v'" for k' v'
    using assms by (induction d) (auto simp: keyed_def split: if_splits)
  ultimately show ?thesis by (auto simp: keyed_def)
qed

lemma dict_set_fresh: "map_of d k = None \<Longrightarrow> dict_set k v d = d @ [(k, v)]"
  by (induction d) (auto split: if_splits)

lemma dict_set_last: "map_of d k = None \<Longrightarrow> dict_set k v (d @ [(k, u)]) = d @ [(k, v)]"
  by (induction d) (auto split: if_splits)

lemma dict_set_same: "map_of d k = Some v \<Longrightarrow> dict_set k v d = d"
  by (induction d) (auto split: if_splits)

lemma dict_set_twice [simp]: "dict_set k v (dict_set k u d) = dict_set k v d"
  by (induction d) auto

lemma dict_set_present:
  "distinct (map fst d) \<Longrightarrow> map_of d k = Some u \<Longrightarrow>
     dict_set k v d = map (\<lambda>(k', v'). if k' = k then (k, v) else (k', v')) d"
proof (induction d)
  case Nil
  then show ?case by simp
next
  case (Cons p d)
  show ?case
  proof (cases "fst p = k")
    case True
    with Cons.prems have "k \<notin> fst ` set d" by auto
    then have "map (\<lambda>(k', v'). if k' = k then (k, v) else (k', v')) d = d"
      by (intro map_idI) force
    with True show ?thesis by (cases p) simp
  next
    case False
    with Cons show ?thesis by (cases p) auto
  qed
qed

text \<open>Replacing an object in place, read off the values.\<close>

lemma dict_values_replace:
  assumes k: "keyed key d" and g: "map_of d k = Some u"
  shows "dict_values (dict_set k v d) = map (\<lambda>x. if key x = k then v else x) (dict_values d)"
proof -
  have "dict_set k v d = map (\<lambda>(k', v'). if k' = k then (k, v) else (k', v')) d"
    by (rule dict_set_present [OF _ g]) (use k in \<open>simp add: keyed_def\<close>)
  also have "map snd \<dots> = map (\<lambda>x. if key x = k then v else x) (map snd d)"
    using k by (auto simp: keyed_def)
  finally show ?thesis .
qed

lemma dict_values_modify:
  assumes k: "keyed key d" and g: "map_of d k = Some u"
  shows "dict_values (dict_set k (f u) d) = map (\<lambda>x. if key x = k then f x else x) (dict_values d)"
proof -
  have "x = u" if "x \<in> set (dict_values d)" "key x = k" for x
    using keyed_get_iff [OF k, of x] that g by simp
  then show ?thesis unfolding dict_values_replace [OF k g] by (intro map_cong) auto
qed

lemma filter_dict_set_other:
  "\<not> P k \<Longrightarrow> filter (\<lambda>(k', v'). P k') (dict_set k v d) = filter (\<lambda>(k', v'). P k') d"
  by (induction d) auto


section \<open>Lists\<close>

lemma length_filter_mono:
  "(\<And>x. x \<in> set xs \<Longrightarrow> P x \<Longrightarrow> Q x) \<Longrightarrow> length (filter P xs) \<le> length (filter Q xs)"
  by (induction xs) auto

lemma length_filter_less:
  "(\<And>x. x \<in> set xs \<Longrightarrow> P x \<Longrightarrow> Q x) \<Longrightarrow> u \<in> set xs \<Longrightarrow> Q u \<Longrightarrow> \<not> P u \<Longrightarrow>
     length (filter P xs) < length (filter Q xs)"
proof (induction xs)
  case (Cons x xs)
  show ?case
  proof (cases "x = u")
    case True
    have "length (filter P xs) \<le> length (filter Q xs)" by (rule length_filter_mono) (use Cons.prems in simp)
    then show ?thesis using True Cons.prems by simp
  next
    case False
    then have "length (filter P xs) < length (filter Q xs)" using Cons by simp
    then show ?thesis using Cons.prems(1) [of x] by auto
  qed
qed simp

text \<open>Sorting by a number: relabelling and appending a greatest element.\<close>

lemma insort_key_map:
  "(\<And>x. f (g x) = f x) \<Longrightarrow> insort_key f (g x) (map g xs) = map g (insort_key f x xs)"
  by (induction xs) auto

lemma sort_key_map_same:
  "(\<And>x. f (g x) = f x) \<Longrightarrow> sort_key f (map g xs) = map g (sort_key f xs)"
  by (induction xs) (auto simp: insort_key_map)

lemma insort_key_append_max:
  "(\<And>x. x \<in> set xs \<Longrightarrow> f x \<le> f v) \<Longrightarrow> f u \<le> f v \<Longrightarrow> insort_key f u (xs @ [v]) = insort_key f u xs @ [v]"
  by (induction xs) auto

lemma sort_key_append_max:
  "(\<And>x. x \<in> set xs \<Longrightarrow> f x \<le> f v) \<Longrightarrow> sort_key f (xs @ [v]) = sort_key f xs @ [v]"
  by (induction xs) (auto intro!: insort_key_append_max)

text \<open>A list numbered \<open>1, 2, ..., n\<close> by \<open>num\<close>.\<close>

definition numbered :: "('a \<Rightarrow> int) \<Rightarrow> 'a list \<Rightarrow> bool" where
  "numbered num xs \<longleftrightarrow> map num xs = map int [1..<Suc (length xs)]"

lemma numbered_Nil [simp]: "numbered num []"
  by (simp add: numbered_def)

lemma numbered_snoc: "numbered num xs \<Longrightarrow> num x = int (length xs) + 1 \<Longrightarrow> numbered num (xs @ [x])"
  by (simp add: numbered_def)

lemma numbered_last:
  assumes "numbered num xs" and "xs \<noteq> []"
  shows "num (last xs) = int (length xs)"
proof -
  have eq: "map num xs = map int [1..<Suc (length xs)]" using assms(1) by (simp only: numbered_def)
  have "num (last xs) = last (map num xs)" using assms(2) by (simp add: last_map)
  also have "\<dots> = int (length xs)" unfolding eq using assms(2) by (simp add: last_map Suc_le_eq)
  finally show ?thesis .
qed

lemma numbered_le: "numbered num xs \<Longrightarrow> x \<in> set xs \<Longrightarrow> 1 \<le> num x \<and> num x \<le> int (length xs)"
proof -
  assume n: "numbered num xs" and x: "x \<in> set xs"
  have "num x \<in> set (map num xs)" using x by simp
  also have "set (map num xs) = set (map int [1..<Suc (length xs)])" using n by (simp only: numbered_def)
  finally show ?thesis by auto
qed

section \<open>The contract of a keyed store\<close>

text \<open>
  \<open>put\<close> files an object under the key it carries itself, \<open>get\<close> reads it back. Every engine
  that looks an object up, changes a field that is not part of the key and leaves the object
  in the store relies on these laws only.
\<close>

locale keyed_store =
  fixes key :: "'v \<Rightarrow> 'k"
    and put :: "'v \<Rightarrow> 's \<Rightarrow> 's"
    and get :: "'s \<Rightarrow> 'k \<Rightarrow> 'v option"
    and wf :: "'s \<Rightarrow> bool"
  assumes get_put: "get (put v s) k = (if k = key v then Some v else get s k)"
    and wf_put: "wf s \<Longrightarrow> wf (put v s)"
    and get_key: "wf s \<Longrightarrow> get s k = Some v \<Longrightarrow> key v = k"
begin

lemma get_put_same: "get (put v s) (key v) = Some v"
  by (simp add: get_put)

lemma get_put_other: "k \<noteq> key v \<Longrightarrow> get (put v s) k = get s k"
  by (simp add: get_put)

lemma modify_same:
  "wf s \<Longrightarrow> get s k = Some v \<Longrightarrow> key (f v) = key v \<Longrightarrow> get (put (f v) s) k = Some (f v)"
  by (simp add: get_put get_key)

lemma modify_frame:
  "wf s \<Longrightarrow> get s k = Some v \<Longrightarrow> key (f v) = key v \<Longrightarrow> k' \<noteq> k \<Longrightarrow>
     get (put (f v) s) k' = get s k'"
  by (auto simp: get_put dest: get_key)

lemma put_put: "key v = key w \<Longrightarrow> get (put w (put v s)) = get (put w s)"
  by (rule ext) (simp add: get_put)

lemma put_commute:
  "key v \<noteq> key w \<Longrightarrow> get (put w (put v s)) = get (put v (put w s))"
  by (rule ext) (simp add: get_put)

lemma wf_fold_put: "wf s \<Longrightarrow> wf (fold put vs s)"
  by (induction vs arbitrary: s) (auto intro: wf_put)

lemma get_fold_put_frame: "k \<notin> key ` set vs \<Longrightarrow> get (fold put vs s) k = get s k"
  by (induction vs arbitrary: s) (auto simp: get_put)

end

text \<open>
  A tenant store is a keyed store whose key starts with the firm, with the listing of one
  firm's objects in insertion order. The laws say what a listing is before and after a
  \<open>put\<close>; the isolation of tenants and the counting arguments are lemmas.
\<close>

locale tenant_store = keyed_store key put get wf
  for key :: "'v \<Rightarrow> 'f \<times> 'i"
    and put :: "'v \<Rightarrow> 's \<Rightarrow> 's"
    and get :: "'s \<Rightarrow> 'f \<times> 'i \<Rightarrow> 'v option"
    and wf :: "'s \<Rightarrow> bool" +
  fixes rows :: "'s \<Rightarrow> 'f \<Rightarrow> 'v list"
  assumes rows_iff: "wf s \<Longrightarrow> v \<in> set (rows s f) \<longleftrightarrow> fst (key v) = f \<and> get s (key v) = Some v"
    and rows_distinct: "wf s \<Longrightarrow> distinct (map key (rows s f))"
    and rows_put_other: "wf s \<Longrightarrow> fst (key v) \<noteq> f \<Longrightarrow> rows (put v s) f = rows s f"
    and rows_put_new: "wf s \<Longrightarrow> get s (key v) = None \<Longrightarrow>
          rows (put v s) (fst (key v)) = rows s (fst (key v)) @ [v]"
    and rows_put_old: "wf s \<Longrightarrow> get s (key v) = Some u \<Longrightarrow>
          rows (put v s) (fst (key v)) =
            map (\<lambda>x. if key x = key v then v else x) (rows s (fst (key v)))"
begin

lemma rows_unique:
  "wf s \<Longrightarrow> v \<in> set (rows s f) \<Longrightarrow> w \<in> set (rows s f) \<Longrightarrow> key v = key w \<Longrightarrow> v = w"
  by (simp add: rows_iff)

lemma rows_member_put:
  "wf s \<Longrightarrow> x \<in> set (rows (put v s) f) \<longleftrightarrow>
     fst (key x) = f \<and> (if key x = key v then x = v else x \<in> set (rows s f))"
  by (auto simp: rows_iff wf_put get_put)

lemma tenant_isolation_fold:
  "wf s \<Longrightarrow> \<forall>v\<in>set vs. fst (key v) \<noteq> f \<Longrightarrow> rows (fold put vs s) f = rows s f"
  by (induction vs arbitrary: s) (auto simp: rows_put_other wf_put)

lemma get_isolation: "fst (key v) \<noteq> f \<Longrightarrow> get (put v s) (f, i) = get s (f, i)"
  by (metis fst_conv get_put_other)

lemma count_put_new:
  "wf s \<Longrightarrow> get s (key v) = None \<Longrightarrow>
     length (filter P (rows (put v s) (fst (key v)))) =
       length (filter P (rows s (fst (key v)))) + (if P v then 1 else 0)"
  by (simp add: rows_put_new)

lemma filter_put_old:
  assumes "wf s" and "get s (key v) = Some u"
  shows "length (filter P (rows (put v s) (fst (key v)))) =
     length (filter (\<lambda>x. P (if key x = key v then v else x)) (rows s (fst (key v))))"
  using assms by (simp add: rows_put_old filter_map comp_def)

lemma count_put_old_le:
  assumes "wf s" and "get s (key v) = Some u" and "P v \<Longrightarrow> P u"
  shows "length (filter P (rows (put v s) (fst (key v)))) \<le> length (filter P (rows s (fst (key v))))"
  unfolding filter_put_old [OF assms(1,2)]
  by (rule length_filter_mono) (use assms in \<open>auto simp: rows_iff split: if_splits\<close>)

lemma count_put_old_less:
  assumes "wf s" and "get s (key v) = Some u" and "key u = key v" and "P u" and "\<not> P v"
  shows "length (filter P (rows (put v s) (fst (key v)))) < length (filter P (rows s (fst (key v))))"
  unfolding filter_put_old [OF assms(1,2)]
  by (rule length_filter_less [where u = u]) (use assms in \<open>auto simp: rows_iff split: if_splits\<close>)

end

section \<open>The contract of an append-only journal\<close>

locale journal =
  fixes append_entry :: "'e \<Rightarrow> 'j \<Rightarrow> 'j"
    and entries :: "'j \<Rightarrow> 'e list"
    and firm_of :: "'e \<Rightarrow> 'f"
    and rows :: "'j \<Rightarrow> 'f \<Rightarrow> 'e list"
  assumes entries_append: "entries (append_entry e j) = entries j @ [e]"
    and rows_eq: "rows j f = filter (\<lambda>e. firm_of e = f) (entries j)"
begin

lemma entries_fold: "entries (fold append_entry es j) = entries j @ es"
  by (induction es arbitrary: j) (auto simp: entries_append)

lemma history_prefix: "\<exists>tail. entries (fold append_entry es j) = entries j @ tail"
  by (auto simp: entries_fold)

lemma rows_append:
  "rows (append_entry e j) f = rows j f @ (if firm_of e = f then [e] else [])"
  by (simp add: rows_eq entries_append)

lemma rows_only_firm: "e \<in> set (rows j f) \<Longrightarrow> firm_of e = f"
  by (simp add: rows_eq)

end

section \<open>Dictionary stores satisfy the contracts\<close>

text \<open>
  The stores of the program are all a dictionary with one of two listings: by the firm in the
  dictionary's key, or by the firm field of the object. Both are listings in the sense of
  \<open>tenant_store\<close>; each component's interpretation uses these two facts.
\<close>

definition rows_by_key :: "('f \<times> 'i, 'v) dict \<Rightarrow> 'f \<Rightarrow> 'v list" where
  "rows_by_key d f = dict_values (filter (\<lambda>p. fst (fst p) = f) d)"

definition rows_by_value :: "('v \<Rightarrow> 'f) \<Rightarrow> ('k, 'v) dict \<Rightarrow> 'f \<Rightarrow> 'v list" where
  "rows_by_value firm d f = filter (\<lambda>v. firm v = f) (dict_values d)"

lemma rows_by_value_eq:
  assumes "keyed key d" and "\<And>v. firm v = fst (key v)"
  shows "rows_by_value firm d f = rows_by_key d f"
proof -
  have "filter (\<lambda>p. firm (snd p) = f) d = filter (\<lambda>p. fst (fst p) = f) d"
    by (rule filter_cong) (use assms in \<open>auto dest: keyed_member\<close>)
  then show ?thesis by (simp add: rows_by_value_def rows_by_key_def filter_map comp_def)
qed

lemma keyed_store_dict: "keyed_store key (\<lambda>v. dict_set (key v) v) dict_get (keyed key)"
  by unfold_locales (auto simp: update_conv' dest: keyed_get)

lemma rows_by_key_iff:
  assumes k: "keyed key d"
  shows "v \<in> set (rows_by_key d f) \<longleftrightarrow> fst (key v) = f \<and> dict_get d (key v) = Some v"
proof -
  have "v \<in> set (rows_by_key d f) \<longleftrightarrow> (\<exists>i. ((f, i), v) \<in> set d)"
    by (force simp: rows_by_key_def)
  also have "\<dots> \<longleftrightarrow> fst (key v) = f \<and> (key v, v) \<in> set d"
    using k by (cases "key v") (auto dest: keyed_member)
  finally show ?thesis using k by (simp add: keyed_def)
qed

lemma rows_by_key_distinct: "keyed key d \<Longrightarrow> distinct (map key (rows_by_key d f))"
proof -
  assume k: "keyed key d"
  let ?r = "filter (\<lambda>p. fst (fst p) = f) d"
  have "map key (map snd ?r) = map fst ?r"
    using k by (auto simp: keyed_def)
  moreover have "distinct (map fst ?r)"
    using k by (simp add: keyed_def distinct_map_filter)
  ultimately have "distinct (map key (map snd ?r))" by (rule ssubst)
  then show ?thesis by (simp only: rows_by_key_def)
qed

lemma rows_by_key_other:
  "fst k \<noteq> f \<Longrightarrow> rows_by_key (dict_set k v d) f = rows_by_key d f"
  by (induction d) (auto simp: rows_by_key_def)

lemma rows_by_key_new:
  "dict_get d k = None \<Longrightarrow> rows_by_key (dict_set k v d) (fst k) = rows_by_key d (fst k) @ [v]"
  by (simp add: dict_set_fresh rows_by_key_def)

lemma rows_by_key_old:
  assumes k: "keyed key d" and "dict_get d (key v) = Some u"
  shows "rows_by_key (dict_set (key v) v d) f = map (\<lambda>x. if key x = key v then v else x) (rows_by_key d f)"
proof -
  have "distinct (map fst d)" using k by (simp add: keyed_def)
  moreover have "\<forall>p \<in> set d. fst p = key (snd p)" using k by (auto simp: keyed_def)
  ultimately show ?thesis using assms(2)
  proof (induction d)
    case Nil
    then show ?case by simp
  next
    case (Cons p d)
    have notin: "fst p = key v \<Longrightarrow> \<forall>q \<in> set d. key (snd q) \<noteq> key v"
      using Cons.prems by force
    show ?case
    proof (cases "fst p = key v")
      case True
      with Cons.prems notin show ?thesis
        by (cases p) (auto simp: rows_by_key_def intro!: map_cong)
    next
      case False
      with Cons show ?thesis by (cases p) (auto simp: rows_by_key_def)
    qed
  qed
qed

lemma tenant_store_dict:
  "tenant_store key (\<lambda>v. dict_set (key v) v) dict_get (keyed key) rows_by_key"
  by (rule tenant_store.intro [OF keyed_store_dict], unfold_locales)
     (auto simp: rows_by_key_iff rows_by_key_distinct rows_by_key_other rows_by_key_new rows_by_key_old)

lemma tenant_store_dict_value:
  assumes "\<And>v. firm v = fst (key v)"
  shows "tenant_store key (\<lambda>v. dict_set (key v) v) dict_get (keyed key) (rows_by_value firm)"
  by (rule tenant_store.intro [OF keyed_store_dict], unfold_locales)
     (auto simp: rows_by_value_eq [OF _ assms] keyed_set rows_by_key_iff rows_by_key_distinct
        rows_by_key_other rows_by_key_new rows_by_key_old)

end
