(* ===== verification/PyText.thy ===== *)
theory PyText
  imports Prelude "HOL-Library.List_Lexorder" "HOL-Library.Char_ord"
begin

text \<open>
  What the program uses of Python's \<open>str\<close>: \<open>repr\<close>, the decimal form of an integer, \<open>int(s)\<close>,
  \<open>str(exc)\<close> and \<open>type(exc).__name__\<close>. The order on strings is the code point order
  (the library theories List\_Lexorder over Char\_ord), as in Python.
\<close>

section \<open>Characters\<close>

definition code :: "char \<Rightarrow> nat" where
  "code c = of_char c"

definition is_digit :: "char \<Rightarrow> bool" where
  "is_digit c \<longleftrightarrow> 48 \<le> code c \<and> code c \<le> 57"

definition digit_val :: "char \<Rightarrow> nat" where
  "digit_val c = code c - 48"

definition digit_char :: "nat \<Rightarrow> char" where
  "digit_char n = char_of (48 + n)"

text \<open>The characters \<open>int()\<close> and \<open>float()\<close> strip, and those \<open>repr\<close> escapes.\<close>

definition is_space :: "char \<Rightarrow> bool" where
  "is_space c \<longleftrightarrow> 9 \<le> code c \<and> code c \<le> 13 \<or> code c = 32 \<or> code c = 133 \<or> code c = 160"

definition is_printable :: "char \<Rightarrow> bool" where
  "is_printable c \<longleftrightarrow> 32 \<le> code c \<and> code c < 127 \<or> 161 \<le> code c \<and> code c \<noteq> 173"

lemma digit_char_inverse [simp]:
  assumes "n < 10"
  shows "is_digit (digit_char n)" and "digit_val (digit_char n) = n"
  using assms by (simp_all add: is_digit_def digit_val_def digit_char_def code_def)

section \<open>Decimal numbers\<close>

fun dec_nat :: "nat \<Rightarrow> pystr" where
  "dec_nat n = (if n < 10 then [digit_char n] else dec_nat (n div 10) @ [digit_char (n mod 10)])"

declare dec_nat.simps [simp del]

definition dec_int :: "int \<Rightarrow> pystr" where
  "dec_int i = (if i < 0 then CHR ''-'' # dec_nat (nat (- i)) else dec_nat (nat i))"

fun digits_val :: "int \<Rightarrow> pystr \<Rightarrow> int" where
  "digits_val acc [] = acc"
| "digits_val acc (c # cs) = digits_val (10 * acc + int (digit_val c)) cs"

lemma digits_val_append: "digits_val acc (xs @ ys) = digits_val (digits_val acc xs) ys"
  by (induction xs arbitrary: acc) auto

lemma dec_nat_digits: "list_all is_digit (dec_nat n)"
proof (induction n rule: dec_nat.induct)
  case (1 n)
  then show ?case by (cases "n < 10") (simp_all add: dec_nat.simps [of n])
qed

lemma dec_nat_nonempty [simp]: "dec_nat n \<noteq> []"
  by (subst dec_nat.simps) simp

lemma digits_val_dec_nat: "digits_val 0 (dec_nat n) = int n"
proof (induction n rule: dec_nat.induct)
  case (1 n)
  show ?case
  proof (cases "n < 10")
    case True
    then show ?thesis by (simp add: dec_nat.simps [of n])
  next
    case False
    have "10 * (int n div 10) + int n mod 10 = int n" by simp
    with 1 False show ?thesis
      by (simp add: dec_nat.simps [of n] digits_val_append of_nat_div of_nat_mod)
  qed
qed

lemma dec_nat_inject [simp]: "dec_nat m = dec_nat n \<longleftrightarrow> m = n"
  by (metis digits_val_dec_nat of_nat_eq_iff)

lemma dec_nat_no_minus: "dec_nat n \<noteq> CHR ''-'' # cs"
  using dec_nat_digits [of n] by (auto simp: is_digit_def code_def)

lemma dec_int_inject [simp]: "dec_int i = dec_int j \<longleftrightarrow> i = j"
  by (auto simp: dec_int_def dec_nat_no_minus dec_nat_no_minus [symmetric])

section \<open>repr\<close>

definition hex_digit :: "nat \<Rightarrow> char" where
  "hex_digit n = char_of (if n < 10 then 48 + n else 87 + n)"

definition repr_char :: "char \<Rightarrow> char \<Rightarrow> pystr" where
  "repr_char q c =
     (if c = q \<or> c = CHR 0x5C then [CHR 0x5C, c]
      else if c = CHR 0x09 then [CHR 0x5C, CHR ''t'']
      else if c = CHR 0x0A then [CHR 0x5C, CHR ''n'']
      else if c = CHR 0x0D then [CHR 0x5C, CHR ''r'']
      else if is_printable c then [c]
      else [CHR 0x5C, CHR ''x'', hex_digit (code c div 16), hex_digit (code c mod 16)])"

definition py_repr :: "pystr \<Rightarrow> pystr" where
  "py_repr s =
     (let q = (if CHR 0x27 \<in> set s \<and> CHR 0x22 \<notin> set s then CHR 0x22 else CHR 0x27)
      in [q] @ concat (map (repr_char q) s) @ [q])"

lemma py_repr_nonempty [simp]: "py_repr s \<noteq> []"
  by (simp add: py_repr_def Let_def)

section \<open>int(s)\<close>

definition strip :: "pystr \<Rightarrow> pystr" where
  "strip s = rev (dropWhile is_space (rev (dropWhile is_space s)))"

text \<open>Underscores are accepted between two digits and dropped.\<close>

fun strip_underscores :: "bool \<Rightarrow> pystr \<Rightarrow> pystr option" where
  "strip_underscores prev [] = Some []"
| "strip_underscores prev (c # cs) =
     (if c = CHR ''_''
      then (if prev \<and> (case cs of [] \<Rightarrow> False | d # _ \<Rightarrow> is_digit d)
            then strip_underscores False cs else None)
      else map_option (Cons c) (strip_underscores (is_digit c) cs))"

definition split_sign :: "pystr \<Rightarrow> int \<times> pystr" where
  "split_sign s =
     (case s of
        [] \<Rightarrow> (1, [])
      | c # cs \<Rightarrow> if c = CHR ''-'' then (- 1, cs) else if c = CHR ''+'' then (1, cs) else (1, s))"

definition int_max_str_digits :: nat where
  "int_max_str_digits = 4300"

definition py_int :: "pystr \<Rightarrow> int result" where
  "py_int s =
     (let bad = Inl (ValueError (''invalid literal for int() with base 10: '' @ take 200 (py_repr s)))
      in case strip_underscores False (strip s) of
           None \<Rightarrow> bad
         | Some t \<Rightarrow>
             (let (sign, ds) = split_sign t
              in if ds = [] \<or> \<not> list_all is_digit ds then bad
                 else if int_max_str_digits < length ds
                 then Inl (ValueError (''Exceeds the limit (4300 digits) for integer string conversion: value has ''
                        @ dec_nat (length ds)
                        @ '' digits; use sys.set_int_max_str_digits() to increase the limit''))
                 else Inr (sign * digits_val 0 ds)))"

lemma strip_digits [simp]: "list_all is_digit ds \<Longrightarrow> strip ds = ds"
proof -
  assume d: "list_all is_digit ds"
  have ns: "is_digit c \<Longrightarrow> \<not> is_space c" for c by (auto simp: is_digit_def is_space_def)
  have "list_all is_digit xs \<Longrightarrow> dropWhile is_space xs = xs" for xs
    by (cases xs) (auto simp: ns)
  with d show ?thesis by (simp add: strip_def list.pred_set)
qed

lemma strip_underscores_digits [simp]: "list_all is_digit ds \<Longrightarrow> strip_underscores p ds = Some ds"
  by (induction ds arbitrary: p) (auto simp: is_digit_def code_def)

lemma split_sign_digits [simp]: "list_all is_digit ds \<Longrightarrow> split_sign ds = (1, ds)"
  by (cases ds) (auto simp: split_sign_def is_digit_def code_def)

lemma py_int_dec_nat:
  "length (dec_nat n) \<le> 4300 \<Longrightarrow> py_int (dec_nat n) = Inr (int n)"
  by (simp add: py_int_def dec_nat_digits digits_val_dec_nat int_max_str_digits_def)

section \<open>Exceptions as text\<close>

text \<open>\<open>str(exc)\<close>; a \<open>KeyError\<close> (and the program's subclasses of it) shows the \<open>repr\<close> of its argument.\<close>

fun exn_str :: "pyexn \<Rightarrow> pystr" where
  "exn_str (KeyError k) = py_repr k"
| "exn_str (ValueError m) = m"
| "exn_str (RuntimeError m) = m"
| "exn_str AssertionError = []"
| "exn_str RecursionError = ''maximum recursion depth exceeded''"
| "exn_str TimeoutError = []"
| "exn_str ZeroDivisionError = ''float division by zero''"
| "exn_str (OverflowError m) = m"
| "exn_str (UnknownExpressionError k) = py_repr k"
| "exn_str (UnknownActionTypeError k) = py_repr k"
| "exn_str (UnknownIntegrationError k) = py_repr k"
| "exn_str (WorkflowExecutionError m) = m"
| "exn_str (FloatingPoolExhaustedError m) = m"
| "exn_str (ModuleNotAvailableError m) = m"
| "exn_str (TypeError m) = m"
| "exn_str (OAuth2Error m) = m"
| "exn_str (TenantAccessError m) = m"
| "exn_str (HTTPException n m) = dec_int n @ '': '' @ m"
| "exn_str (Foreign _ m) = m"

fun exn_name :: "pyexn \<Rightarrow> pystr" where
  "exn_name (KeyError _) = ''KeyError''"
| "exn_name (ValueError _) = ''ValueError''"
| "exn_name (RuntimeError _) = ''RuntimeError''"
| "exn_name AssertionError = ''AssertionError''"
| "exn_name RecursionError = ''RecursionError''"
| "exn_name TimeoutError = ''TimeoutError''"
| "exn_name ZeroDivisionError = ''ZeroDivisionError''"
| "exn_name (OverflowError _) = ''OverflowError''"
| "exn_name (UnknownExpressionError _) = ''UnknownExpressionError''"
| "exn_name (UnknownActionTypeError _) = ''UnknownActionTypeError''"
| "exn_name (UnknownIntegrationError _) = ''UnknownIntegrationError''"
| "exn_name (WorkflowExecutionError _) = ''WorkflowExecutionError''"
| "exn_name (FloatingPoolExhaustedError _) = ''FloatingPoolExhaustedError''"
| "exn_name (ModuleNotAvailableError _) = ''ModuleNotAvailableError''"
| "exn_name (TypeError _) = ''TypeError''"
| "exn_name (OAuth2Error _) = ''OAuth2Error''"
| "exn_name (TenantAccessError _) = ''TenantAccessError''"
| "exn_name (HTTPException _ _) = ''HTTPException''"
| "exn_name (Foreign n _) = n"

section \<open>Searching text\<close>

text \<open>\<open>str.lower\<close> on Latin-1, and \<open>needle in text\<close>.\<close>

definition latin1_lower :: "char \<Rightarrow> char" where
  "latin1_lower c =
     (if (65 \<le> code c \<and> code c \<le> 90) \<or> (192 \<le> code c \<and> code c \<le> 222 \<and> code c \<noteq> 215)
      then char_of (code c + 32) else c)"

fun text_within :: "pystr \<Rightarrow> pystr \<Rightarrow> bool" where
  "text_within needle [] = (needle = [])"
| "text_within needle (c # cs) = (take (length needle) (c # cs) = needle \<or> text_within needle cs)"

end
