(* ===== verification/PyFloat.thy ===== *)
theory PyFloat
  imports Complex_Main PyText "HOL-Library.Log_Nat"
begin

text \<open>
  Python's \<open>float\<close> is an IEEE 754 binary64 number. A finite value is the rational it stands
  for (the sign of a zero is not kept: no modelled code can tell the two zeros apart);
  \<open>round64\<close> rounds an exact rational to the nearest representable one, ties to even, with
  gradual underflow and overflow to infinity. Every operation is the exact one followed by
  \<open>round64\<close>. The lemmas show that rounding is monotone and exact on integers up to
  \<open>2 ^ 53\<close>.
\<close>

datatype pyfloat = Fin rat | Inf bool | NaN

section \<open>Powers of two and the binary exponent\<close>

definition pow2 :: "int \<Rightarrow> rat" where
  "pow2 e = (if 0 \<le> e then 2 ^ nat e else 1 / 2 ^ nat (- e))"

lemma pow2_pos [simp]: "0 < pow2 e"
  by (simp add: pow2_def)

lemma pow2_nonzero [simp]: "pow2 e \<noteq> 0"
  by (simp add: pow2_def)

lemma pow2_powi: "pow2 e = 2 powi e"
  by (simp add: pow2_def power_int_def field_simps)

lemma pow2_add: "pow2 (a + b) = pow2 a * pow2 b"
  by (simp add: pow2_powi power_int_add)

lemma pow2_diff: "pow2 (a - b) = pow2 a / pow2 b"
  by (simp add: pow2_powi power_int_diff)

lemma pow2_mono: "a \<le> b \<Longrightarrow> pow2 a \<le> pow2 b"
  by (simp add: pow2_powi power_int_increasing)

lemma pow2_less_cancel: "pow2 a < pow2 b \<Longrightarrow> a < b"
  by (meson leD le_less_linear pow2_mono)

lemma pow2_nat: "0 \<le> e \<Longrightarrow> pow2 e = of_int (2 ^ nat e)"
  by (simp add: pow2_def)

definition flog2 :: "rat \<Rightarrow> int" where
  "flog2 q =
     (let (n, d) = quotient_of q; k = bitlen n - bitlen d
      in if pow2 k \<le> q then k else k - 1)"

lemma bitlen_between:
  assumes "0 < n"
  shows "pow2 (bitlen n - 1) \<le> of_int n" and "of_int n < pow2 (bitlen n)"
proof -
  from assms have b: "2 ^ nat (bitlen n - 1) \<le> n" "n < 2 ^ nat (bitlen n)"
    using bitlen_bounds by auto
  have "0 < bitlen n" using b assms by (cases "bitlen n \<le> 0") auto
  then have "pow2 (bitlen n - 1) = of_int (2 ^ nat (bitlen n - 1))"
    and "pow2 (bitlen n) = of_int (2 ^ nat (bitlen n))"
    by (simp_all add: pow2_nat)
  then show "pow2 (bitlen n - 1) \<le> of_int n" and "of_int n < pow2 (bitlen n)"
    using b by (simp_all only: of_int_le_iff of_int_less_iff)
qed

lemma flog2_bounds:
  assumes "0 < q"
  shows "pow2 (flog2 q) \<le> q" and "q < pow2 (flog2 q + 1)"
proof -
  obtain n d where nd: "quotient_of q = (n, d)" by (cases "quotient_of q")
  have d: "0 < d" using nd quotient_of_denom_pos by blast
  have q: "q = of_int n / of_int d" using nd by (rule quotient_of_div)
  have n: "0 < n" using assms d by (simp add: q zero_less_divide_iff)
  let ?k = "bitlen n - bitlen d"
  have low: "pow2 (?k - 1) \<le> q"
  proof -
    have "pow2 (?k - 1) = pow2 (bitlen n - 1) / pow2 (bitlen d)"
      using pow2_diff [of "bitlen n - 1" "bitlen d"] by (simp add: algebra_simps)
    also have "\<dots> \<le> of_int n / of_int d"
      by (rule frac_le) (use bitlen_between [OF n] bitlen_between [OF d] d n in auto)
    finally show ?thesis by (simp add: q)
  qed
  have high: "q < pow2 (?k + 1)"
  proof -
    have "of_int n / of_int d < pow2 (bitlen n) / pow2 (bitlen d - 1)"
      by (rule frac_less) (use bitlen_between [OF n] bitlen_between [OF d] d n in auto)
    also have "\<dots> = pow2 (?k + 1)"
      using pow2_diff [of "bitlen n" "bitlen d - 1"] by (simp add: algebra_simps)
    finally show ?thesis by (simp add: q)
  qed
  show "pow2 (flog2 q) \<le> q" and "q < pow2 (flog2 q + 1)"
    using low high by (auto simp: flog2_def nd Let_def)
qed

lemma flog2_unique:
  assumes "pow2 k \<le> q" and "q < pow2 (k + 1)"
  shows "flog2 q = k"
proof -
  have "0 < q" using assms(1) pow2_pos [of k] by linarith
  note b = flog2_bounds [OF this]
  have "pow2 k < pow2 (flog2 q + 1)" "pow2 (flog2 q) < pow2 (k + 1)"
    using assms b by linarith+
  then have "k < flog2 q + 1" "flog2 q < k + 1"
    by (auto dest: pow2_less_cancel)
  then show ?thesis by linarith
qed

lemma flog2_mono:
  assumes "0 < p" and "p \<le> q"
  shows "flog2 p \<le> flog2 q"
proof -
  have "0 < q" using assms by linarith
  then have "pow2 (flog2 p) < pow2 (flog2 q + 1)"
    using flog2_bounds(1) [OF assms(1)] flog2_bounds(2) [of q] assms(2) by linarith
  then show ?thesis by (auto dest: pow2_less_cancel)
qed

section \<open>Rounding to nearest, ties to even\<close>

lemma floor_rat_numeral [simp]:
  "\<lfloor>(numeral a :: rat) / numeral b\<rfloor> = numeral a div numeral b"
  "\<lfloor>(1 :: rat) / numeral b\<rfloor> = 1 div numeral b"
  using floor_divide_of_int_eq [of "numeral a" "numeral b", where ?'a = rat]
    floor_divide_of_int_eq [of 1 "numeral b", where ?'a = rat] by simp_all

definition rne :: "rat \<Rightarrow> int" where
  "rne x = (let f = \<lfloor>x\<rfloor>; r = x - of_int f
            in if r < 1 / 2 \<or> r = 1 / 2 \<and> even f then f else f + 1)"

lemma rne_of_int [simp]: "rne (of_int i) = i"
  by (simp add: rne_def)

lemma rne_bounds:
  shows "\<lfloor>x\<rfloor> \<le> rne x" and "rne x \<le> \<lfloor>x\<rfloor> + 1"
  by (auto simp: rne_def Let_def)

lemma rne_mono: "x \<le> y \<Longrightarrow> rne x \<le> rne y"
proof -
  assume xy: "x \<le> y"
  then have fl: "\<lfloor>x\<rfloor> \<le> \<lfloor>y\<rfloor>" by (rule floor_mono)
  show ?thesis
  proof (cases "\<lfloor>x\<rfloor> = \<lfloor>y\<rfloor>")
    case True
    with xy show ?thesis by (auto simp: rne_def Let_def)
  next
    case False
    with fl have "\<lfloor>x\<rfloor> + 1 \<le> \<lfloor>y\<rfloor>" by simp
    then show ?thesis using rne_bounds(2) [of x] rne_bounds(1) [of y] by linarith
  qed
qed

definition ulp_exp :: "rat \<Rightarrow> int" where
  "ulp_exp q = max (flog2 q - 52) (- 1074)"

definition round_pos :: "rat \<Rightarrow> rat" where
  "round_pos q = of_int (rne (q / pow2 (ulp_exp q))) * pow2 (ulp_exp q)"

definition round64 :: "rat \<Rightarrow> pyfloat" where
  "round64 q =
     (if q = 0 then Fin 0
      else let v = round_pos \<bar>q\<bar>
           in if pow2 1024 \<le> v then Inf (q < 0) else Fin (if q < 0 then - v else v))"

lemma round_pos_pow2_le:
  assumes "0 < q" and "q \<le> pow2 k" and "ulp_exp q \<le> k"
  shows "round_pos q \<le> pow2 k"
proof -
  let ?e = "ulp_exp q"
  have "pow2 k / pow2 ?e = of_int (2 ^ nat (k - ?e))"
    using assms(3) by (simp add: pow2_diff [symmetric] pow2_nat)
  moreover have "q / pow2 ?e \<le> pow2 k / pow2 ?e"
    using assms(2) by (simp add: divide_right_mono less_imp_le)
  ultimately have "rne (q / pow2 ?e) \<le> 2 ^ nat (k - ?e)"
    by (metis rne_mono rne_of_int)
  then have "of_int (rne (q / pow2 ?e)) \<le> (of_int (2 ^ nat (k - ?e)) :: rat)"
    by (simp only: of_int_le_iff)
  then have "round_pos q \<le> of_int (2 ^ nat (k - ?e)) * pow2 ?e"
    by (simp add: round_pos_def)
  also have "\<dots> = pow2 k"
    using \<open>pow2 k / pow2 ?e = _\<close> by (simp add: field_simps)
  finally show ?thesis .
qed

lemma round_pos_pow2_ge:
  assumes "0 < q" and "pow2 k \<le> q" and "ulp_exp q \<le> k"
  shows "pow2 k \<le> round_pos q"
proof -
  let ?e = "ulp_exp q"
  have eq: "pow2 k / pow2 ?e = of_int (2 ^ nat (k - ?e))"
    using assms(3) by (simp add: pow2_diff [symmetric] pow2_nat)
  have "pow2 k / pow2 ?e \<le> q / pow2 ?e"
    using assms(2) by (simp add: divide_right_mono less_imp_le)
  then have "2 ^ nat (k - ?e) \<le> rne (q / pow2 ?e)"
    by (metis eq rne_mono rne_of_int)
  then have "(of_int (2 ^ nat (k - ?e)) :: rat) \<le> of_int (rne (q / pow2 ?e))"
    by (simp only: of_int_le_iff)
  then have "of_int (2 ^ nat (k - ?e)) * pow2 ?e \<le> round_pos q"
    by (simp add: round_pos_def)
  then show ?thesis using eq by (simp add: field_simps)
qed

lemma round_pos_mono:
  assumes "0 < p" and "p \<le> q"
  shows "round_pos p \<le> round_pos q"
proof (cases "ulp_exp p = ulp_exp q")
  case True
  have "rne (p / pow2 (ulp_exp q)) \<le> rne (q / pow2 (ulp_exp q))"
    by (rule rne_mono) (use assms in \<open>simp add: divide_right_mono less_imp_le\<close>)
  then show ?thesis using True by (simp add: round_pos_def)
next
  case False
  have q: "0 < q" using assms by linarith
  have "flog2 p \<le> flog2 q" using assms by (rule flog2_mono)
  with False have lt: "flog2 p < flog2 q" and eq: "ulp_exp q = flog2 q - 52" "- 1074 < ulp_exp q"
    by (auto simp: ulp_exp_def max_def split: if_splits)
  have "round_pos p \<le> pow2 (flog2 q)"
  proof (rule round_pos_pow2_le [OF assms(1)])
    show "p \<le> pow2 (flog2 q)"
      using flog2_bounds(2) [OF assms(1)] pow2_mono [of "flog2 p + 1" "flog2 q"] lt by linarith
    show "ulp_exp p \<le> flog2 q" using lt eq by (auto simp: ulp_exp_def)
  qed
  also have "\<dots> \<le> round_pos q"
    by (rule round_pos_pow2_ge [OF q]) (use flog2_bounds(1) [OF q] eq in auto)
  finally show ?thesis .
qed

lemma round_pos_nonneg: "0 < q \<Longrightarrow> 0 \<le> round_pos q"
proof -
  assume "0 < q"
  then have "rne (0::rat) \<le> rne (q / pow2 (ulp_exp q))" by (intro rne_mono) (simp add: less_imp_le)
  then have "0 \<le> rne (q / pow2 (ulp_exp q))" using rne_of_int [of 0] by simp
  then show ?thesis by (simp add: round_pos_def less_imp_le)
qed

text \<open>A value that is an integer multiple of its unit in the last place is representable.\<close>

lemma round_pos_exact: "q = of_int m * pow2 (ulp_exp q) \<Longrightarrow> round_pos q = q"
  by (simp add: round_pos_def) (metis nonzero_mult_div_cancel_right pow2_nonzero rne_of_int)

lemma round64_int:
  assumes "\<bar>n\<bar> \<le> 2 ^ 53"
  shows "round64 (of_int n) = Fin (of_int n)"
proof (cases "n = 0")
  case True
  then show ?thesis by (simp add: round64_def)
next
  case False
  let ?q = "of_int \<bar>n\<bar> :: rat"
  have q: "0 < ?q" using False by simp
  have le: "?q \<le> pow2 53"
    using assms by (simp add: pow2_def flip: of_int_abs)
  have exact: "round_pos ?q = ?q"
  proof (cases "\<bar>n\<bar> = 2 ^ 53")
    case True
    then have q53: "?q = pow2 53" by (simp add: pow2_def)
    then have "flog2 ?q = 53" by (intro flog2_unique) (simp_all add: pow2_def)
    then have u: "ulp_exp ?q = 1" by (simp add: ulp_exp_def)
    have "pow2 53 = of_int (2 ^ 52) * pow2 1" by (simp add: pow2_def)
    then have "?q = of_int (2 ^ 52) * pow2 (ulp_exp ?q)"
      unfolding u unfolding q53 .
    then show ?thesis by (rule round_pos_exact)
  next
    case False
    with assms have lt: "?q < pow2 53" by (simp add: pow2_def flip: of_int_abs)
    then have "pow2 (flog2 ?q) < pow2 53" using flog2_bounds(1) [OF q] by linarith
    then have "ulp_exp ?q \<le> 0" by (auto simp: ulp_exp_def dest: pow2_less_cancel)
    then have "pow2 (- ulp_exp ?q) = of_int (2 ^ nat (- ulp_exp ?q))" by (simp add: pow2_nat)
    then have "?q = of_int (\<bar>n\<bar> * 2 ^ nat (- ulp_exp ?q)) * pow2 (ulp_exp ?q)"
      using pow2_add [of "- ulp_exp ?q" "ulp_exp ?q"] by (simp add: pow2_def [of 0] mult.assoc)
    then show ?thesis by (rule round_pos_exact)
  qed
  have "pow2 53 < pow2 1024" by (simp add: pow2_def)
  with le have "\<not> pow2 1024 \<le> ?q" by linarith
  with exact False show ?thesis by (auto simp: round64_def Let_def abs_if simp flip: of_int_abs)
qed

lemma round64_pow2:
  assumes "- 1022 \<le> k" and "k < 1024"
  shows "round64 (pow2 k) = Fin (pow2 k)"
proof -
  have "pow2 k < pow2 (k + 1)" using pow2_add [of k 1] by (simp add: pow2_def [of 1])
  then have "flog2 (pow2 k) = k" by (intro flog2_unique) simp_all
  then have "ulp_exp (pow2 k) = k - 52" using assms(1) by (simp add: ulp_exp_def)
  then have "pow2 k = of_int (2 ^ 52) * pow2 (ulp_exp (pow2 k))"
    using pow2_add [of 52 "k - 52"] by (simp add: pow2_def [of 52])
  then have "round_pos (pow2 k) = pow2 k" by (rule round_pos_exact)
  moreover have "pow2 k < pow2 1024"
  proof -
    have "pow2 k \<le> pow2 1023" using assms(2) by (intro pow2_mono) simp
    also have "\<dots> < pow2 1024" using pow2_add [of 1023 1] by (simp add: pow2_def [of 1])
    finally show ?thesis .
  qed
  moreover have "\<not> pow2 k < 0" using pow2_pos [of k] by linarith
  ultimately show ?thesis by (simp add: round64_def Let_def not_le less_imp_le)
qed

text \<open>Evaluation of a normal number: give the exponent, compute the rounded mantissa.\<close>

lemma round64_normal:
  assumes "pow2 k \<le> q" and "q < pow2 (k + 1)" and "- 1022 \<le> k" and "k < 1023"
    and m: "rne (q / pow2 (k - 52)) = m"
  shows "round64 q = Fin (of_int m * pow2 (k - 52))"
proof -
  have q: "0 < q" using assms(1) pow2_pos [of k] by linarith
  have "flog2 q = k" using assms(1,2) by (rule flog2_unique)
  then have u: "ulp_exp q = k - 52" using assms(3) by (simp add: ulp_exp_def)
  then have "round_pos q \<le> pow2 (k + 1)"
    using q assms(2) by (intro round_pos_pow2_le) auto
  also have "\<dots> \<le> pow2 1023" using assms(4) by (intro pow2_mono) simp
  also have "\<dots> < pow2 1024" using pow2_add [of 1023 1] by (simp add: pow2_def [of 1])
  finally have "round_pos q < pow2 1024" .
  moreover have "round_pos q = of_int m * pow2 (k - 52)" by (simp add: round_pos_def u m)
  ultimately show ?thesis using q by (simp add: round64_def Let_def)
qed

section \<open>Comparisons\<close>

text \<open>\<open>Inf True\<close> is minus infinity; a NaN is unordered and unequal to everything, itself included.\<close>

fun flt_less :: "pyfloat \<Rightarrow> pyfloat \<Rightarrow> bool" where
  "flt_less (Fin a) (Fin b) = (a < b)"
| "flt_less (Fin _) (Inf neg) = (\<not> neg)"
| "flt_less (Inf neg) (Fin _) = neg"
| "flt_less (Inf n1) (Inf n2) = (n1 \<and> \<not> n2)"
| "flt_less _ _ = False"

fun flt_eq :: "pyfloat \<Rightarrow> pyfloat \<Rightarrow> bool" where
  "flt_eq (Fin a) (Fin b) = (a = b)"
| "flt_eq (Inf n1) (Inf n2) = (n1 = n2)"
| "flt_eq _ _ = False"

definition flt_le :: "pyfloat \<Rightarrow> pyfloat \<Rightarrow> bool" where
  "flt_le x y \<longleftrightarrow> flt_less x y \<or> flt_eq x y"

lemma round64_nonneg_cases:
  assumes "0 \<le> q"
  obtains "q = 0" "round64 q = Fin 0"
  | "0 < q" "round64 q = Fin (round_pos q)" "round_pos q < pow2 1024"
  | "0 < q" "round64 q = Inf False" "pow2 1024 \<le> round_pos q"
  using assms that
  by (cases "q = 0"; cases "pow2 1024 \<le> round_pos q") (auto simp: round64_def Let_def)

lemma round64_mono_nonneg: "0 \<le> p \<Longrightarrow> p \<le> q \<Longrightarrow> flt_le (round64 p) (round64 q)"
proof -
  assume p: "0 \<le> p" and pq: "p \<le> q"
  then have q: "0 \<le> q" by simp
  have m: "0 < p \<Longrightarrow> round_pos p \<le> round_pos q" using pq by (intro round_pos_mono)
  show ?thesis
    by (rule round64_nonneg_cases [OF p]; rule round64_nonneg_cases [OF q])
       (use m pq round_pos_nonneg in \<open>auto simp: flt_le_def order_le_less\<close>)
qed

text \<open>Rounding does not leave the interval from 0 to a number that is not too large.\<close>

lemma round64_upto:
  assumes "0 \<le> x" and "x \<le> of_int n" and "n \<le> 2 ^ 53"
  shows "\<exists>y. round64 x = Fin y \<and> 0 \<le> y \<and> y \<le> of_int n"
proof -
  have "(0 :: rat) \<le> of_int n" using assms(1,2) by linarith
  then have "0 \<le> n" by simp
  then have "round64 (of_int n) = Fin (of_int n)" using assms(3) by (intro round64_int) simp
  then have "flt_le (round64 x) (Fin (of_int n))" using round64_mono_nonneg [OF assms(1,2)] by simp
  then show ?thesis
    by - (rule round64_nonneg_cases [OF assms(1)], auto simp: flt_le_def intro: round_pos_nonneg)
qed

section \<open>Arithmetic\<close>

definition flt_of_int :: "int \<Rightarrow> pyfloat result" where
  "flt_of_int n = (case round64 (of_int n) of Inf _ \<Rightarrow> Inl (OverflowError ''int too large to convert to float'') | x \<Rightarrow> Inr x)"

lemma flt_of_int_pow2: "n < 1024 \<Longrightarrow> flt_of_int (2 ^ n) = Inr (Fin (2 ^ n))"
  using round64_pow2 [of "int n"] pow2_nat [of "int n"] by (simp add: flt_of_int_def)

fun flt_add :: "pyfloat \<Rightarrow> pyfloat \<Rightarrow> pyfloat" where
  "flt_add (Fin a) (Fin b) = round64 (a + b)"
| "flt_add (Inf n) (Fin _) = Inf n"
| "flt_add (Fin _) (Inf n) = Inf n"
| "flt_add (Inf n1) (Inf n2) = (if n1 = n2 then Inf n1 else NaN)"
| "flt_add _ _ = NaN"

fun flt_neg :: "pyfloat \<Rightarrow> pyfloat" where
  "flt_neg (Fin a) = Fin (- a)"
| "flt_neg (Inf n) = Inf (\<not> n)"
| "flt_neg NaN = NaN"

definition flt_sub :: "pyfloat \<Rightarrow> pyfloat \<Rightarrow> pyfloat" where
  "flt_sub x y = flt_add x (flt_neg y)"

fun flt_mul :: "pyfloat \<Rightarrow> pyfloat \<Rightarrow> pyfloat" where
  "flt_mul (Fin a) (Fin b) = round64 (a * b)"
| "flt_mul (Inf n) (Fin b) = (if b = 0 then NaN else Inf (n \<noteq> (b < 0)))"
| "flt_mul (Fin a) (Inf n) = (if a = 0 then NaN else Inf (n \<noteq> (a < 0)))"
| "flt_mul (Inf n1) (Inf n2) = Inf (n1 \<noteq> n2)"
| "flt_mul _ _ = NaN"

text \<open>Python's \<open>/\<close> raises on a zero divisor instead of returning an infinity.\<close>

definition flt_div :: "pyfloat \<Rightarrow> pyfloat \<Rightarrow> pyfloat result" where
  "flt_div x y =
     (if y = Fin 0 then Inl ZeroDivisionError
      else Inr (case (x, y) of
          (Fin a, Fin b) \<Rightarrow> round64 (a / b)
        | (Fin _, Inf _) \<Rightarrow> Fin 0
        | (Inf n, Fin b) \<Rightarrow> Inf (n \<noteq> (b < 0))
        | _ \<Rightarrow> NaN))"

text \<open>\<open>sum()\<close> of floats adds them one by one from 0, as Python 3.11 does.\<close>

definition flt_sum :: "pyfloat list \<Rightarrow> pyfloat" where
  "flt_sum xs = foldl flt_add (Fin 0) xs"

lemma flt_sum_snoc: "flt_sum (xs @ [x]) = flt_add (flt_sum xs) x"
  by (simp add: flt_sum_def)

text \<open>\<open>round(x, n)\<close>: the decimal nearest to the exact value, ties to even, read back as a float.\<close>

definition py_round :: "pyfloat \<Rightarrow> nat \<Rightarrow> pyfloat" where
  "py_round x n =
     (case x of Fin r \<Rightarrow> round64 (of_int (rne (r * 10 ^ n)) / 10 ^ n) | _ \<Rightarrow> x)"

text \<open>\<open>int(x)\<close> truncates; it raises on infinities and NaN.\<close>

definition py_trunc :: "pyfloat \<Rightarrow> int result" where
  "py_trunc x =
     (case x of
        Fin r \<Rightarrow> Inr (if r < 0 then \<lceil>r\<rceil> else \<lfloor>r\<rfloor>)
      | Inf _ \<Rightarrow> Inl (OverflowError ''cannot convert float infinity to integer'')
      | NaN \<Rightarrow> Inl (ValueError ''cannot convert float NaN to integer''))"

text \<open>\<open>a / b\<close> of integers is the correctly rounded quotient.\<close>

definition int_truediv :: "int \<Rightarrow> int \<Rightarrow> pyfloat result" where
  "int_truediv a b =
     (if b = 0 then Inl ZeroDivisionError
      else case round64 (of_int a / of_int b) of
             Inf _ \<Rightarrow> Inl (OverflowError ''integer division result too large for a float'')
           | x \<Rightarrow> Inr x)"

section \<open>float(s)\<close>

definition lower :: "char \<Rightarrow> char" where
  "lower c = (if 65 \<le> code c \<and> code c \<le> 90 then char_of (code c + 32) else c)"

definition pow10 :: "int \<Rightarrow> rat" where
  "pow10 e = (if 0 \<le> e then 10 ^ nat e else 1 / 10 ^ nat (- e))"

text \<open>An unsigned decimal literal: digits, a fraction, an exponent.\<close>

definition decimal_value :: "pystr \<Rightarrow> rat option" where
  "decimal_value s =
     (let ds = takeWhile is_digit s; r = dropWhile is_digit s;
          (fs, r') = (case r of
              [] \<Rightarrow> ([], [])
            | c # t \<Rightarrow> if c = CHR ''.'' then (takeWhile is_digit t, dropWhile is_digit t) else ([], r));
          m = of_int (digits_val 0 (ds @ fs)); shift = int (length fs)
      in if ds @ fs = [] then None
         else case r' of
             [] \<Rightarrow> Some (m * pow10 (- shift))
           | c # t \<Rightarrow>
               (let (sign, es) = split_sign t
                in if lower c = CHR ''e'' \<and> es \<noteq> [] \<and> list_all is_digit es
                   then Some (m * pow10 (sign * digits_val 0 es - shift)) else None))"

definition py_float :: "pystr \<Rightarrow> pyfloat result" where
  "py_float s =
     (let bad = Inl (ValueError (''could not convert string to float: '' @ py_repr s))
      in case strip_underscores False (strip s) of
           None \<Rightarrow> bad
         | Some t \<Rightarrow>
             (let (sign, u) = split_sign t; w = map lower u
              in if w = ''inf'' \<or> w = ''infinity'' then Inr (Inf (sign < 0))
                 else if w = ''nan'' then Inr NaN
                 else case decimal_value u of
                     None \<Rightarrow> bad
                   | Some q \<Rightarrow> Inr (round64 (of_int sign * q))))"

lemma decimal_value_digits:
  assumes d: "list_all is_digit ds" and ne: "ds \<noteq> []"
  shows "decimal_value ds = Some (of_int (digits_val 0 ds))"
proof -
  have t: "takeWhile is_digit ds = ds" "dropWhile is_digit ds = []"
    using d by (simp_all add: list.pred_set)
  show ?thesis unfolding decimal_value_def Let_def t using ne by (simp add: pow10_def)
qed

lemma py_float_digits:
  assumes d: "list_all is_digit ds" and ne: "ds \<noteq> []"
  shows "py_float ds = Inr (round64 (of_int (digits_val 0 ds)))"
proof -
  obtain c cs where ds: "ds = c # cs" using ne by (cases ds) auto
  have c: "is_digit c" using d ds by simp
  then have "lower c = c" by (auto simp: lower_def is_digit_def)
  then have "map lower ds \<noteq> ''inf''" "map lower ds \<noteq> ''infinity''" "map lower ds \<noteq> ''nan''"
    using c ds by (auto simp: is_digit_def code_def)
  then show ?thesis
    using d ne by (simp add: py_float_def decimal_value_digits)
qed

lemma py_float_dec_nat:
  "n \<le> 2 ^ 53 \<Longrightarrow> py_float (dec_nat n) = Inr (Fin (of_nat n))"
proof -
  assume "n \<le> 2 ^ 53"
  then have "\<bar>int n\<bar> \<le> 2 ^ 53" by (metis abs_of_nat of_nat_le_iff of_nat_numeral of_nat_power)
  from round64_int [OF this] show ?thesis
    by (simp add: py_float_digits dec_nat_digits digits_val_dec_nat)
qed

end
