(* ===== verification/PyDate.thy ===== *)
theory PyDate
  imports PyText
begin

text \<open>
  Calendar dates as CPython 3.11 parses and orders them: \<open>date.fromisoformat\<close> accepts
  \<open>YYYY-MM-DD\<close>, \<open>YYYYMMDD\<close> and the ISO week forms, rejects everything else with \<open>ValueError\<close>,
  and dates compare by year, month, day.
\<close>

type_synonym pydate = "int \<times> int \<times> int"

definition date_less :: "pydate \<Rightarrow> pydate \<Rightarrow> bool" where
  "date_less = (\<lambda>(y1, m1, d1) (y2, m2, d2).
     y1 < y2 \<or> y1 = y2 \<and> (m1 < m2 \<or> m1 = m2 \<and> d1 < d2))"

lemma date_less_irrefl [simp]: "\<not> date_less d d"
  by (simp add: date_less_def split: prod.split)

lemma date_less_trans: "date_less a b \<Longrightarrow> date_less b c \<Longrightarrow> date_less a c"
  by (auto simp: date_less_def)

lemma date_less_linear: "date_less a b \<or> a = b \<or> date_less b a"
  by (auto simp: date_less_def split: prod.splits)

section \<open>The proleptic Gregorian calendar\<close>

definition is_leap :: "int \<Rightarrow> bool" where
  "is_leap y \<longleftrightarrow> y mod 4 = 0 \<and> (y mod 100 \<noteq> 0 \<or> y mod 400 = 0)"

definition days_in_month :: "int \<Rightarrow> int \<Rightarrow> int" where
  "days_in_month y m =
     (if m = 2 then (if is_leap y then 29 else 28) else if m \<in> {4, 6, 9, 11} then 30 else 31)"

definition days_before_month :: "int \<Rightarrow> int \<Rightarrow> int" where
  "days_before_month y m = (\<Sum>k \<leftarrow> [1..m - 1]. days_in_month y k)"

definition days_before_year :: "int \<Rightarrow> int" where
  "days_before_year y = (let p = y - 1 in p * 365 + p div 4 - p div 100 + p div 400)"

definition ymd_to_ord :: "pydate \<Rightarrow> int" where
  "ymd_to_ord = (\<lambda>(y, m, d). days_before_year y + days_before_month y m + d)"

definition ord_to_ymd :: "int \<Rightarrow> pydate" where
  "ord_to_ymd ordinal =
     (let n = ordinal - 1;
          n400 = n div 146097; n = n mod 146097;
          n100 = n div 36524; n = n mod 36524;
          n4 = n div 1461; n = n mod 1461;
          n1 = n div 365; n = n mod 365;
          y = n400 * 400 + n100 * 100 + n4 * 4 + n1 + 1
      in if n1 = 4 \<or> n100 = 4 then (y - 1, 12, 31)
         else let m = (n + 50) div 32
              in if n < days_before_month y m then (y, m - 1, n - days_before_month y (m - 1) + 1)
                 else (y, m, n - days_before_month y m + 1))"

definition weekday_of_jan1 :: "int \<Rightarrow> int" where
  "weekday_of_jan1 y = (ymd_to_ord (y, 1, 1) + 6) mod 7"

definition iso_week1_monday :: "int \<Rightarrow> int" where
  "iso_week1_monday y =
     ymd_to_ord (y, 1, 1) - weekday_of_jan1 y + (if 3 < weekday_of_jan1 y then 7 else 0)"

section \<open>fromisoformat\<close>

fun take_digits :: "nat \<Rightarrow> int \<Rightarrow> pystr \<Rightarrow> (int \<times> pystr) option" where
  "take_digits 0 acc s = Some (acc, s)"
| "take_digits (Suc n) acc [] = None"
| "take_digits (Suc n) acc (c # cs) =
     (if is_digit c then take_digits n (10 * acc + int (digit_val c)) cs else None)"

definition utf8_length :: "pystr \<Rightarrow> nat" where
  "utf8_length s = sum_list (map (\<lambda>c. if code c < 128 then 1 else 2) s)"

definition drop_char :: "char \<Rightarrow> pystr \<Rightarrow> pystr option" where
  "drop_char c s = (case s of [] \<Rightarrow> None | x # xs \<Rightarrow> if x = c then Some xs else None)"

text \<open>The calendar date of an ISO week; a week of the year 0 comes out as a date no month of which exists.\<close>

definition iso_week_date :: "int \<Rightarrow> int \<Rightarrow> int \<Rightarrow> pydate option" where
  "iso_week_date y w d =
     (let long = (weekday_of_jan1 y = 3 \<or> weekday_of_jan1 y = 2 \<and> is_leap y)
      in if w \<le> 0 \<or> 53 < w \<or> w = 53 \<and> \<not> (long \<and> y \<noteq> 0) then None
         else if d \<le> 0 \<or> 8 \<le> d then None
         else if y = 0 then Some (1, 0, 0)
         else Some (ord_to_ymd (iso_week1_monday y + (w - 1) * 7 + d - 1)))"

text \<open>
  The fields of a date string. The week form reads one day digit if anything follows the week
  and ignores what follows that digit; the month form must end after the day.
\<close>

definition parse_isoformat_date :: "pystr \<Rightarrow> pydate option" where
  "parse_isoformat_date s =
     Option.bind (take_digits 4 0 s) (\<lambda>(y, r).
       let sep = (drop_char (CHR ''-'') r \<noteq> None);
           r = (case drop_char (CHR ''-'') r of Some t \<Rightarrow> t | None \<Rightarrow> r);
           skip = (\<lambda>t. if sep then drop_char (CHR ''-'') t else Some t)
       in case drop_char (CHR ''W'') r of
            Some r \<Rightarrow>
              Option.bind (take_digits 2 0 r) (\<lambda>(w, r).
                if r = [] then iso_week_date y w 1
                else Option.bind (skip r) (\<lambda>r. Option.bind (take_digits 1 0 r)
                       (\<lambda>(d, _). iso_week_date y w d)))
          | None \<Rightarrow>
              Option.bind (take_digits 2 0 r) (\<lambda>(m, r).
                Option.bind (skip r) (\<lambda>r. Option.bind (take_digits 2 0 r)
                  (\<lambda>(d, r). if r = [] then Some (y, m, d) else None))))"

definition fromisoformat :: "pystr \<Rightarrow> pydate result" where
  "fromisoformat s =
     (case (if utf8_length s \<in> {7, 8, 10} then parse_isoformat_date s else None) of
        None \<Rightarrow> Inl (ValueError (''Invalid isoformat string: '' @ py_repr s))
      | Some (y, m, d) \<Rightarrow>
          if \<not> (1 \<le> y \<and> y \<le> 9999)
          then Inl (ValueError (''year '' @ dec_int y @ '' is out of range''))
          else if \<not> (1 \<le> m \<and> m \<le> 12) then Inl (ValueError ''month must be in 1..12'')
          else if \<not> (1 \<le> d \<and> d \<le> days_in_month y m)
          then Inl (ValueError ''day is out of range for month'')
          else Inr (y, m, d))"

text \<open>Every date that is returned exists.\<close>

definition valid_date :: "pydate \<Rightarrow> bool" where
  "valid_date = (\<lambda>(y, m, d). 1 \<le> y \<and> y \<le> 9999 \<and> 1 \<le> m \<and> m \<le> 12 \<and> 1 \<le> d \<and> d \<le> days_in_month y m)"

lemma fromisoformat_valid: "fromisoformat s = Inr d \<Longrightarrow> valid_date d"
  by (auto simp: fromisoformat_def valid_date_def split: option.splits if_splits)

lemma fromisoformat_error: "fromisoformat s = Inl e \<Longrightarrow> \<exists>m. e = ValueError m"
  by (auto simp: fromisoformat_def split: option.splits if_splits)

end
