(* ===== verification/Conditions.thy ===== *)
theory Conditions
  imports PyFloat PyDate
begin

text \<open>
  \<^verbatim>\<open>workflow_automation/condition_engine\<close>: the condition tree, its constructors and its
  evaluator with the library of named expressions. A tree is a value of the dataclass as it
  is, optional fields included, so that ill-formed nodes reach the evaluator's assertions.
  \<open>evaluate\<close> takes the number of nested activations of itself the interpreter still allows; running
  out of it is Python's \<open>RecursionError\<close>. Only these activations are counted: the frames that the
  generators inside \<open>all\<close> and \<open>any\<close> and the helpers take besides, which the interpreter's limit counts
  too, are not, so a limit on frames allows fewer activations, by a constant factor.
\<close>

section \<open>Schemas\<close>

datatype comparator = EQ | NEQ | GT | GTE | LT | LTE

datatype condition_kind =
  CK_AND | CK_OR | CK_NOT | CK_COMPARE | CK_ROLE_IS | CK_DATE_BEFORE | CK_DATE_AFTER | CK_REF

datatype condition = Condition
  (c_kind: condition_kind)
  (c_children: "condition list")
  (c_operand: "condition option")
  (c_field: "pystr option")
  (c_comparator: "comparator option")
  (c_value: "pystr option")
  (c_ref_name: "pystr option")

definition cond_and :: "condition list \<Rightarrow> condition" where
  "cond_and children = Condition CK_AND children None None None None None"

definition cond_or :: "condition list \<Rightarrow> condition" where
  "cond_or children = Condition CK_OR children None None None None None"

definition cond_not :: "condition \<Rightarrow> condition" where
  "cond_not operand = Condition CK_NOT [] (Some operand) None None None None"

definition cond_compare :: "pystr \<Rightarrow> comparator \<Rightarrow> pystr \<Rightarrow> condition" where
  "cond_compare field_name comparator value =
     Condition CK_COMPARE [] None (Some field_name) (Some comparator) (Some value) None"

definition cond_role_is :: "pystr \<Rightarrow> condition" where
  "cond_role_is role = Condition CK_ROLE_IS [] None None None (Some role) None"

definition cond_date_before :: "pystr \<Rightarrow> pystr \<Rightarrow> condition" where
  "cond_date_before field_name value =
     Condition CK_DATE_BEFORE [] None (Some field_name) None (Some value) None"

definition cond_date_after :: "pystr \<Rightarrow> pystr \<Rightarrow> condition" where
  "cond_date_after field_name value =
     Condition CK_DATE_AFTER [] None (Some field_name) None (Some value) None"

definition cond_ref :: "pystr \<Rightarrow> condition" where
  "cond_ref name = Condition CK_REF [] None None None None (Some name)"

lemmas cond_defs = cond_and_def cond_or_def cond_not_def cond_compare_def cond_role_is_def
  cond_date_before_def cond_date_after_def cond_ref_def

section \<open>The engine\<close>

type_synonym context_map = "(pystr, pystr) dict"

record condition_engine =
  ce_library :: "(pystr, condition) dict"

definition condition_engine_init :: condition_engine where
  "condition_engine_init = \<lparr>ce_library = []\<rparr>"

definition register_expression :: "pystr \<Rightarrow> condition \<Rightarrow> condition_engine \<Rightarrow> condition_engine" where
  "register_expression name c e = e\<lparr>ce_library := dict_set name c (ce_library e)\<rparr>"

fun compare_numeric :: "pyfloat \<Rightarrow> pyfloat \<Rightarrow> comparator \<Rightarrow> bool" where
  "compare_numeric actual expected EQ = flt_eq actual expected"
| "compare_numeric actual expected NEQ = (\<not> flt_eq actual expected)"
| "compare_numeric actual expected GT = flt_less expected actual"
| "compare_numeric actual expected GTE = flt_le expected actual"
| "compare_numeric actual expected LT = flt_less actual expected"
| "compare_numeric actual expected LTE = flt_le actual expected"

fun compare_text :: "pystr \<Rightarrow> pystr \<Rightarrow> comparator \<Rightarrow> bool" where
  "compare_text actual expected EQ = (actual = expected)"
| "compare_text actual expected NEQ = (actual \<noteq> expected)"
| "compare_text actual expected GT = (expected < actual)"
| "compare_text actual expected GTE = (expected \<le> actual)"
| "compare_text actual expected LT = (actual < expected)"
| "compare_text actual expected LTE = (actual \<le> expected)"

text \<open>Both texts are read as numbers; if either is not one, they are compared as texts.\<close>

definition evaluate_compare :: "condition \<Rightarrow> context_map \<Rightarrow> bool result" where
  "evaluate_compare c ctx =
     (case (c_field c, c_comparator c) of
        (Some field, Some comparator) \<Rightarrow>
          (case dict_get ctx field of
             None \<Rightarrow> Inr False
           | Some actual \<Rightarrow>
               (let expected = (case c_value c of None \<Rightarrow> [] | Some v \<Rightarrow> v)
                in case (py_float actual, py_float expected) of
                     (Inr x, Inr y) \<Rightarrow> Inr (compare_numeric x y comparator)
                   | _ \<Rightarrow> Inr (compare_text actual expected comparator)))
      | _ \<Rightarrow> Inl AssertionError)"

definition evaluate_date :: "condition \<Rightarrow> context_map \<Rightarrow> bool \<Rightarrow> bool result" where
  "evaluate_date c ctx before =
     (case (c_field c, c_value c) of
        (Some field, Some value) \<Rightarrow>
          (case dict_get ctx field of
             None \<Rightarrow> Inr False
           | Some actual \<Rightarrow>
               res_bind (fromisoformat actual) (\<lambda>actual_date.
               res_bind (fromisoformat value) (\<lambda>reference_date.
               Inr (if before then date_less actual_date reference_date
                    else date_less reference_date actual_date))))
      | _ \<Rightarrow> Inl AssertionError)"

fun evaluate :: "nat \<Rightarrow> condition_engine \<Rightarrow> condition \<Rightarrow> context_map \<Rightarrow> bool result" where
  "evaluate 0 e c ctx = Inl RecursionError"
| "evaluate (Suc n) e c ctx =
     (case c_kind c of
        CK_AND \<Rightarrow> all_res (\<lambda>child. evaluate n e child ctx) (c_children c)
      | CK_OR \<Rightarrow> any_res (\<lambda>child. evaluate n e child ctx) (c_children c)
      | CK_NOT \<Rightarrow>
          (case c_operand c of
             None \<Rightarrow> Inl AssertionError
           | Some operand \<Rightarrow> res_bind (evaluate n e operand ctx) (\<lambda>b. Inr (\<not> b)))
      | CK_COMPARE \<Rightarrow> evaluate_compare c ctx
      | CK_ROLE_IS \<Rightarrow> Inr (dict_get ctx ''role'' = c_value c)
      | CK_DATE_BEFORE \<Rightarrow> evaluate_date c ctx True
      | CK_DATE_AFTER \<Rightarrow> evaluate_date c ctx False
      | CK_REF \<Rightarrow>
          (case c_ref_name c of
             None \<Rightarrow> Inl AssertionError
           | Some name \<Rightarrow>
               (case dict_get (ce_library e) name of
                  None \<Rightarrow> Inl (UnknownExpressionError name)
                | Some referenced \<Rightarrow> evaluate n e referenced ctx)))"

section \<open>Errors and recursion depth\<close>

lemma evaluate_compare_no_recursion [simp]: "evaluate_compare c ctx \<noteq> Inl RecursionError"
  by (auto simp: evaluate_compare_def Let_def split: option.splits sum.splits)

lemma evaluate_date_no_recursion [simp]: "evaluate_date c ctx b \<noteq> Inl RecursionError"
  by (auto simp: evaluate_date_def res_bind_Inl_iff split: option.splits dest: fromisoformat_error)

text \<open>The names a tree refers to, and its height.\<close>

fun cond_refs :: "condition \<Rightarrow> pystr list" where
  "cond_refs (Condition k cs op f cmp v r) =
     (case r of Some name \<Rightarrow> [name] | None \<Rightarrow> []) @ concat (map cond_refs cs) @
     (case op of None \<Rightarrow> [] | Some c \<Rightarrow> cond_refs c)"

fun cond_height :: "condition \<Rightarrow> nat" where
  "cond_height (Condition k cs op f cmp v r) =
     Suc (max (foldr max (map cond_height cs) 0) (case op of None \<Rightarrow> 0 | Some c \<Rightarrow> cond_height c))"

lemma foldr_max_ge: "x \<in> set xs \<Longrightarrow> f x \<le> foldr max (map f xs) (0::nat)"
  by (induction xs) auto

lemma child_height: "child \<in> set (c_children c) \<Longrightarrow> cond_height child < cond_height c"
  by (cases c) (auto simp: less_Suc_eq_le le_max_iff_disj intro: foldr_max_ge)

lemma operand_height: "c_operand c = Some o' \<Longrightarrow> cond_height o' < cond_height c"
  by (cases c) auto

lemma height_pos [simp]: "0 < cond_height c"
  by (cases c) simp

lemma child_refs: "child \<in> set (c_children c) \<Longrightarrow> set (cond_refs child) \<subseteq> set (cond_refs c)"
  by (cases c) auto

lemma operand_refs: "c_operand c = Some o' \<Longrightarrow> set (cond_refs o') \<subseteq> set (cond_refs c)"
  by (cases c) auto

lemma ref_name_refs: "c_ref_name c = Some r \<Longrightarrow> r \<in> set (cond_refs c)"
  by (cases c) auto

text \<open>
  \<open>rank_below e rank k c\<close>: the references of \<open>c\<close> stay below rank \<open>k\<close>; \<open>ranked_library\<close>: the
  references of every named expression stay below the rank of its own name, so following them
  must end; \<open>H\<close> bounds the heights of the named expressions.
\<close>

definition rank_below :: "(pystr \<Rightarrow> nat) \<Rightarrow> nat \<Rightarrow> condition \<Rightarrow> bool" where
  "rank_below rank k c \<longleftrightarrow> (\<forall>r \<in> set (cond_refs c). rank r < k)"

definition ranked_library :: "condition_engine \<Rightarrow> (pystr \<Rightarrow> nat) \<Rightarrow> nat \<Rightarrow> bool" where
  "ranked_library e rank H \<longleftrightarrow>
     (\<forall>(name, body) \<in> set (ce_library e). rank_below rank (rank name) body \<and> cond_height body \<le> H)"

lemma rank_below_mono: "rank_below rank k c \<Longrightarrow> k \<le> k' \<Longrightarrow> rank_below rank k' c"
  by (auto simp: rank_below_def)

lemma evaluate_depth_bound:
  assumes "ranked_library e rank H"
  shows "rank_below rank k c \<Longrightarrow> cond_height c + H * k \<le> n \<Longrightarrow> evaluate n e c ctx \<noteq> Inl RecursionError"
proof (induction n arbitrary: c k)
  case 0
  then show ?case using height_pos [of c] by simp
next
  case (Suc n)
  have children: "evaluate n e child ctx \<noteq> Inl RecursionError" if "child \<in> set (c_children c)" for child
    using Suc.prems child_height [OF that] child_refs [OF that]
    by (intro Suc.IH [of k]) (auto simp: rank_below_def)
  have operand: "evaluate n e o' ctx \<noteq> Inl RecursionError" if "c_operand c = Some o'" for o'
    using Suc.prems operand_height [OF that] operand_refs [OF that]
    by (intro Suc.IH [of k]) (auto simp: rank_below_def)
  have referenced: "evaluate n e body ctx \<noteq> Inl RecursionError"
    if "c_ref_name c = Some name" and "dict_get (ce_library e) name = Some body" for name body
  proof -
    have "(name, body) \<in> set (ce_library e)" using that(2) by (rule map_of_SomeD)
    then have below: "rank_below rank (rank name) body" and h: "cond_height body \<le> H"
      using assms by (auto simp: ranked_library_def)
    have lt: "rank name < k"
      using Suc.prems(1) ref_name_refs [OF that(1)] by (simp add: rank_below_def)
    have "cond_height body + H * rank name \<le> H * Suc (rank name)" using h by simp
    also have "\<dots> \<le> H * k" using lt by (intro mult_le_mono2) simp
    also have "\<dots> \<le> n" using Suc.prems(2) height_pos [of c] by linarith
    finally show ?thesis using below by (intro Suc.IH)
  qed
  show ?case
    using children operand referenced
    by (auto simp: res_bind_Inl_iff dest!: all_res_Inl any_res_Inl
        split: condition_kind.splits option.splits)
qed

text \<open>A deeper stack never changes an answer or another error.\<close>

lemma evaluate_Suc:
  "evaluate n e c ctx \<noteq> Inl RecursionError \<Longrightarrow> evaluate (Suc n) e c ctx = evaluate n e c ctx"
proof (induction n arbitrary: c)
  case 0
  then show ?case by simp
next
  case (Suc n)
  note outer = evaluate.simps(2) [of "Suc n" e c ctx]
  note inner = evaluate.simps(2) [of n e c ctx]
  show ?case
  proof (cases "c_kind c")
    case CK_AND
    with Suc.prems have "all_res (\<lambda>child. evaluate n e child ctx) (c_children c) \<noteq> Inl RecursionError"
      unfolding inner by simp
    then have "all_res (\<lambda>child. evaluate (Suc n) e child ctx) (c_children c) =
        all_res (\<lambda>child. evaluate n e child ctx) (c_children c)"
      by (intro all_res_refine [where e = RecursionError] Suc.IH)
    with CK_AND show ?thesis unfolding outer inner by simp
  next
    case CK_OR
    with Suc.prems have "any_res (\<lambda>child. evaluate n e child ctx) (c_children c) \<noteq> Inl RecursionError"
      unfolding inner by simp
    then have "any_res (\<lambda>child. evaluate (Suc n) e child ctx) (c_children c) =
        any_res (\<lambda>child. evaluate n e child ctx) (c_children c)"
      by (intro any_res_refine [where e = RecursionError] Suc.IH)
    with CK_OR show ?thesis unfolding outer inner by simp
  next
    case CK_NOT
    with Suc.prems show ?thesis unfolding outer inner
      by (auto simp: Suc.IH res_bind_Inl_iff simp del: evaluate.simps split: option.splits)
  next
    case CK_REF
    with Suc.prems show ?thesis unfolding outer inner
      by (auto simp: Suc.IH simp del: evaluate.simps split: option.splits)
  qed (use Suc.prems in \<open>simp_all\<close>)
qed

lemma evaluate_mono:
  "evaluate n e c ctx \<noteq> Inl RecursionError \<Longrightarrow> n \<le> m \<Longrightarrow> evaluate m e c ctx = evaluate n e c ctx"
  by (induction m) (auto simp: le_Suc_eq evaluate_Suc simp del: evaluate.simps)

section \<open>Reference semantics of well-formed trees\<close>

text \<open>
  A tree is well formed in a context when every node has the fields its kind needs, the dates
  it compares parse, and it refers to no named expression. \<open>holds\<close> is its meaning without
  order of evaluation, short-circuiting or errors.
\<close>

definition date_of :: "pystr \<Rightarrow> pydate" where
  "date_of s = (case fromisoformat s of Inr d \<Rightarrow> d | Inl _ \<Rightarrow> (0, 0, 0))"

definition parses_date :: "pystr \<Rightarrow> bool" where
  "parses_date s \<longleftrightarrow> (case fromisoformat s of Inr _ \<Rightarrow> True | Inl _ \<Rightarrow> False)"

fun holds :: "context_map \<Rightarrow> condition \<Rightarrow> bool" where
  "holds ctx (Condition CK_AND cs op f cmp v r) = (\<forall>c \<in> set cs. holds ctx c)"
| "holds ctx (Condition CK_OR cs op f cmp v r) = (\<exists>c \<in> set cs. holds ctx c)"
| "holds ctx (Condition CK_NOT cs (Some c) f cmp v r) = (\<not> holds ctx c)"
| "holds ctx (Condition CK_ROLE_IS cs op f cmp v r) = (dict_get ctx ''role'' = v)"
| "holds ctx (Condition CK_DATE_BEFORE cs op (Some f) cmp (Some v) r) =
     (\<exists>a. dict_get ctx f = Some a \<and> date_less (date_of a) (date_of v))"
| "holds ctx (Condition CK_DATE_AFTER cs op (Some f) cmp (Some v) r) =
     (\<exists>a. dict_get ctx f = Some a \<and> date_less (date_of v) (date_of a))"
| "holds ctx c = (evaluate_compare c ctx = Inr True)"

fun well_formed :: "context_map \<Rightarrow> condition \<Rightarrow> bool" where
  "well_formed ctx (Condition CK_AND cs op f cmp v r) = (\<forall>c \<in> set cs. well_formed ctx c)"
| "well_formed ctx (Condition CK_OR cs op f cmp v r) = (\<forall>c \<in> set cs. well_formed ctx c)"
| "well_formed ctx (Condition CK_NOT cs (Some c) f cmp v r) = well_formed ctx c"
| "well_formed ctx (Condition CK_ROLE_IS cs op f cmp v r) = True"
| "well_formed ctx (Condition CK_COMPARE cs op (Some f) (Some cmp) v r) = True"
| "well_formed ctx (Condition CK_DATE_BEFORE cs op (Some f) cmp (Some v) r) =
     (parses_date v \<and> (\<forall>a. dict_get ctx f = Some a \<longrightarrow> parses_date a))"
| "well_formed ctx (Condition CK_DATE_AFTER cs op (Some f) cmp (Some v) r) =
     (parses_date v \<and> (\<forall>a. dict_get ctx f = Some a \<longrightarrow> parses_date a))"
| "well_formed ctx c = False"

lemma evaluate_date_total:
  assumes "parses_date v" and "\<And>a. dict_get ctx f = Some a \<Longrightarrow> parses_date a"
  shows "evaluate_date (Condition k cs op (Some f) cmp (Some v) r) ctx b =
     Inr (\<exists>a. dict_get ctx f = Some a \<and>
        (if b then date_less (date_of a) (date_of v) else date_less (date_of v) (date_of a)))"
proof (cases "dict_get ctx f")
  case None
  then show ?thesis by (simp add: evaluate_date_def)
next
  case (Some a)
  have parsed: "parses_date x \<Longrightarrow> fromisoformat x = Inr (date_of x)" for x
    by (simp add: parses_date_def date_of_def split: sum.splits)
  show ?thesis
    using assms Some by (simp add: evaluate_date_def parsed)
qed

lemma evaluate_compare_total:
  "evaluate_compare (Condition k cs op (Some f) (Some cmp) v r) ctx =
     Inr (evaluate_compare (Condition k cs op (Some f) (Some cmp) v r) ctx = Inr True)"
  by (simp add: evaluate_compare_def Let_def split: option.splits sum.splits)

lemma evaluate_holds:
  "well_formed ctx c \<Longrightarrow> cond_height c \<le> n \<Longrightarrow> evaluate n e c ctx = Inr (holds ctx c)"
proof (induction n arbitrary: c)
  case 0
  then show ?case using height_pos [of c] by simp
next
  case (Suc n)
  have children: "well_formed ctx child \<Longrightarrow> evaluate n e child ctx = Inr (holds ctx child)"
    if "child \<in> set (c_children c)" for child
    using Suc.prems child_height [OF that] by (intro Suc.IH) auto
  have operand: "well_formed ctx o' \<Longrightarrow> evaluate n e o' ctx = Inr (holds ctx o')"
    if "c_operand c = Some o'" for o'
    using Suc.prems operand_height [OF that] by (intro Suc.IH) auto
  show ?case
    using Suc.prems(1) children operand
    by (cases "(ctx, c)" rule: well_formed.cases)
       (auto simp: evaluate_date_total intro!: all_res_total any_res_total
          intro: evaluate_compare_total)
qed

section \<open>Properties\<close>

text \<open>
  C16. Evaluation terminates on every library whose references are acyclic: when the names can be
  ranked so that each named expression refers to lower names only, a stack as deep as the
  condition's height plus the library's height for every rank is enough (no \<open>RecursionError\<close>),
  and any deeper stack gives the same answer or the same exception.
\<close>
theorem acyclic_library_terminates:
  assumes "ranked_library e rank H" and "rank_below rank k c" and "cond_height c + H * k \<le> n" and "n \<le> m"
  shows "evaluate m e c ctx = evaluate n e c ctx \<and> evaluate n e c ctx \<noteq> Inl RecursionError"
  using evaluate_depth_bound [OF assms(1-3)] assms(4) by (simp add: evaluate_mono)

definition demo_library :: condition_engine where
  "demo_library = register_expression ''urgent'' (cond_not (cond_ref ''calm''))
     (register_expression ''calm'' (cond_compare ''priority'' LT ''3'') condition_engine_init)"

theorem acyclic_library_terminates_witness:
  "evaluate 9 demo_library (cond_ref ''urgent'') [] = evaluate 5 demo_library (cond_ref ''urgent'') [] \<and>
   evaluate 5 demo_library (cond_ref ''urgent'') [] \<noteq> Inl RecursionError"
  by (rule acyclic_library_terminates [where rank = "\<lambda>r. if r = ''urgent'' then 1 else 0" and H = 2 and k = 2])
     (simp_all add: demo_library_def register_expression_def condition_engine_init_def ranked_library_def
        rank_below_def cond_defs)

text \<open>
  A named expression means what it was registered as: after registering a well-formed tree
  under a name, evaluating a reference to that name answers exactly whether the tree holds (its
  reference meaning, without order of evaluation, short-circuiting or errors), on any stack
  deeper than the tree; the other names still mean what they did.
\<close>
theorem named_expression_holds:
  assumes "well_formed ctx c" and "cond_height c < n"
  shows "evaluate n (register_expression name c e) (cond_ref name) ctx = Inr (holds ctx c) \<and>
     (\<forall>other. other \<noteq> name \<longrightarrow>
        dict_get (ce_library (register_expression name c e)) other = dict_get (ce_library e) other)"
proof
  obtain k where n: "n = Suc k" "cond_height c \<le> k" using assms(2) by (cases n) auto
  show "evaluate n (register_expression name c e) (cond_ref name) ctx = Inr (holds ctx c)"
    unfolding n(1) evaluate.simps(2)
    by (simp add: cond_ref_def register_expression_def update_conv' evaluate_holds [OF assms(1) n(2)])
qed (simp add: register_expression_def update_conv')

theorem named_expression_holds_witness:
  "evaluate 3 (register_expression ''lead'' (cond_not (cond_role_is ''intern'')) demo_library)
     (cond_ref ''lead'') [(''role'', ''partner'')] = Inr True"
  using named_expression_holds [of "[(''role'', ''partner'')]" "cond_not (cond_role_is ''intern'')" 3 "''lead''" demo_library]
  by (simp add: cond_defs)

text \<open>
  Named expressions that only refer to one another, in a cycle of any length, have no value:
  evaluating any of them exhausts every stack with \<open>RecursionError\<close>, whatever the context.
  Nothing prevents such expressions from being registered.
\<close>
theorem cyclic_references_recurse:
  assumes "\<forall>name \<in> names. \<exists>next \<in> names. dict_get (ce_library e) name = Some (cond_ref next)"
  shows "\<forall>name \<in> names. evaluate n e (cond_ref name) ctx = Inl RecursionError"
proof (induction n)
  case (Suc n)
  show ?case
  proof
    fix name assume name: "name \<in> names"
    obtain "next" where next': "next \<in> names" "dict_get (ce_library e) name = Some (cond_ref next)"
      using assms name by blast
    have "evaluate (Suc n) e (cond_ref name) ctx = evaluate n e (cond_ref next) ctx"
      unfolding evaluate.simps(2) using next'(2) by (simp add: cond_ref_def)
    then show "evaluate (Suc n) e (cond_ref name) ctx = Inl RecursionError" using Suc next'(1) by simp
  qed
qed simp

theorem cyclic_references_recurse_witness:
  "evaluate 1000 (register_expression ''a'' (cond_ref ''b'')
     (register_expression ''b'' (cond_ref ''a'') condition_engine_init)) (cond_ref ''a'') [] = Inl RecursionError"
  using cyclic_references_recurse [of "{''a'', ''b''}" "register_expression ''a'' (cond_ref ''b'')
     (register_expression ''b'' (cond_ref ''a'') condition_engine_init)" 1000 "[]"]
  by (simp add: register_expression_def condition_engine_init_def del: evaluate.simps)

end
