(* ===== verification/Rules.thy ===== *)
theory Rules
  imports Conditions
begin

text \<open>
  \<^verbatim>\<open>workflow_automation/rule_engine\<close>: the rules of a firm, their store and the engine that
  creates, lists, deactivates and evaluates them over the condition engine. Fresh identifiers
  (\<open>uuid4\<close>) and clock readings are arguments of the operations. The argument \<open>depth\<close> is the
  number of nested activations the interpreter allows the condition evaluator.
\<close>

section \<open>Rules and their store\<close>

record rule =
  rl_id :: pystr
  rl_firm_id :: pystr
  rl_name :: pystr
  rl_condition :: condition
  rl_description :: pystr
  rl_active :: bool
  rl_created_at :: datetime

definition rule_key :: "rule \<Rightarrow> pystr \<times> pystr" where
  "rule_key r = (rl_firm_id r, rl_id r)"

type_synonym rule_store = "(pystr \<times> pystr, rule) dict"

definition rule_store_add :: "rule \<Rightarrow> rule_store \<Rightarrow> rule_store" where
  [store_defs]: "rule_store_add r s = dict_set (rule_key r) r s"

definition rule_store_get :: "rule_store \<Rightarrow> pystr \<times> pystr \<Rightarrow> rule option" where
  [store_defs]: "rule_store_get s k = dict_get s k"

definition rule_store_list_for_firm :: "rule_store \<Rightarrow> pystr \<Rightarrow> rule list" where
  [store_defs]: "rule_store_list_for_firm s firm = rows_by_key s firm"

definition rule_store_ok :: "rule_store \<Rightarrow> bool" where
  [store_defs]: "rule_store_ok = keyed rule_key"

interpretation rule_rows: tenant_store rule_key rule_store_add rule_store_get rule_store_ok
    rule_store_list_for_firm
  using tenant_store_dict [of rule_key]
  by (simp add: store_defs rule_store_add_def [abs_def] rule_store_get_def [abs_def]
      rule_store_list_for_firm_def [abs_def])

section \<open>The engine\<close>

record rule_engine =
  re_store :: rule_store
  re_condition_engine :: condition_engine

definition create_rule ::
  "pystr \<Rightarrow> datetime \<Rightarrow> pystr \<Rightarrow> pystr \<Rightarrow> condition \<Rightarrow> pystr \<Rightarrow> rule_engine \<Rightarrow> rule \<times> rule_engine" where
  "create_rule new_id now firm name cond description e =
     (let r = \<lparr>rl_id = new_id, rl_firm_id = firm, rl_name = name, rl_condition = cond,
               rl_description = description, rl_active = True, rl_created_at = now\<rparr>
      in (r, e\<lparr>re_store := rule_store_add r (re_store e)\<rparr>))"

definition get_rule :: "pystr \<Rightarrow> pystr \<Rightarrow> rule_engine \<Rightarrow> rule result" where
  "get_rule firm rule_id e =
     (case rule_store_get (re_store e) (firm, rule_id) of
        None \<Rightarrow> Inl (KeyError rule_id)
      | Some r \<Rightarrow> Inr r)"

definition list_rules :: "pystr \<Rightarrow> bool \<Rightarrow> rule_engine \<Rightarrow> rule list" where
  "list_rules firm active_only e =
     (let rules = rule_store_list_for_firm (re_store e) firm
      in if active_only then filter rl_active rules else rules)"

definition deactivate_rule :: "pystr \<Rightarrow> pystr \<Rightarrow> rule_engine \<Rightarrow> (rule \<times> rule_engine) result" where
  "deactivate_rule firm rule_id e =
     res_bind (get_rule firm rule_id e) (\<lambda>r.
       let r' = r\<lparr>rl_active := False\<rparr>
       in Inr (r', e\<lparr>re_store := rule_store_add r' (re_store e)\<rparr>))"

definition evaluate_rule ::
  "nat \<Rightarrow> pystr \<Rightarrow> pystr \<Rightarrow> context_map \<Rightarrow> rule_engine \<Rightarrow> bool result" where
  "evaluate_rule depth firm rule_id ctx e =
     res_bind (get_rule firm rule_id e) (\<lambda>r.
       if \<not> rl_active r then Inr False
       else evaluate depth (re_condition_engine e) (rl_condition r) ctx)"

definition evaluate_all_rules ::
  "nat \<Rightarrow> pystr \<Rightarrow> context_map \<Rightarrow> rule_engine \<Rightarrow> rule list result" where
  "evaluate_all_rules depth firm ctx e =
     filter_res (\<lambda>r. evaluate depth (re_condition_engine e) (rl_condition r) ctx)
       (list_rules firm True e)"

lemmas rule_op_defs = create_rule_def get_rule_def list_rules_def deactivate_rule_def
  evaluate_rule_def evaluate_all_rules_def

section \<open>Lemmas\<close>

definition rule_engine_ok :: "rule_engine \<Rightarrow> bool" where
  "rule_engine_ok e \<longleftrightarrow> rule_store_ok (re_store e)"

lemma create_rule_ok: "rule_engine_ok e \<Longrightarrow> rule_engine_ok (snd (create_rule i t f n c d e))"
  by (simp add: rule_engine_ok_def create_rule_def Let_def rule_rows.wf_put)

lemma deactivate_rule_cases:
  assumes "rule_engine_ok e"
  shows "deactivate_rule f i e = Inr (r', e') \<longleftrightarrow>
     (\<exists>r. rule_store_get (re_store e) (f, i) = Some r \<and> r' = r\<lparr>rl_active := False\<rparr> \<and>
          e' = e\<lparr>re_store := rule_store_add r' (re_store e)\<rparr>)"
  by (auto simp: deactivate_rule_def get_rule_def res_bind_Inr_iff Let_def split: option.splits)

lemma get_rule_key:
  "rule_engine_ok e \<Longrightarrow> rule_store_get (re_store e) (f, i) = Some r \<Longrightarrow> rl_firm_id r = f \<and> rl_id r = i"
  using rule_rows.get_key [of "re_store e" "(f, i)" r] by (auto simp: rule_engine_ok_def rule_key_def)

lemma deactivate_rule_ok:
  "rule_engine_ok e \<Longrightarrow> deactivate_rule f i e = Inr (r', e') \<Longrightarrow> rule_engine_ok e'"
  by (auto simp: deactivate_rule_cases rule_engine_ok_def rule_rows.wf_put)

lemma list_rules_iff:
  assumes "rule_engine_ok e"
  shows "r \<in> set (list_rules f b e) \<longleftrightarrow>
     rl_firm_id r = f \<and> rule_store_get (re_store e) (f, rl_id r) = Some r \<and> (b \<longrightarrow> rl_active r)"
  using assms rule_rows.rows_iff [of "re_store e" r f]
  by (auto simp: list_rules_def Let_def rule_engine_ok_def rule_key_def)

section \<open>Properties\<close>

text \<open>
  Evaluating all rules of a firm is exact: when every active rule of the firm is well
  formed for the context and the stack is deep enough, the answer is the list of the active
  rules whose condition holds, in the order they were created, and a rule is in it exactly
  when evaluating that rule by its identifier answers True.
\<close>

theorem evaluate_all_exact:
  assumes ok: "rule_engine_ok e"
    and wf: "\<forall>r \<in> set (list_rules firm True e).
               well_formed ctx (rl_condition r) \<and> cond_height (rl_condition r) \<le> depth"
  shows "evaluate_all_rules depth firm ctx e =
           Inr (filter (\<lambda>r. rl_active r \<and> holds ctx (rl_condition r)) (list_rules firm False e)) \<and>
         (\<forall>r \<in> set (list_rules firm False e).
            evaluate_rule depth firm (rl_id r) ctx e = Inr (rl_active r \<and> holds ctx (rl_condition r)))"
proof
  have active: "list_rules firm True e = filter rl_active (list_rules firm False e)"
    by (simp add: list_rules_def Let_def)
  have each: "r \<in> set (list_rules firm True e) \<Longrightarrow>
      evaluate depth (re_condition_engine e) (rl_condition r) ctx = Inr (holds ctx (rl_condition r))" for r
    using wf by (simp add: evaluate_holds)
  then have "evaluate_all_rules depth firm ctx e =
      Inr (filter (\<lambda>r. holds ctx (rl_condition r)) (list_rules firm True e))"
    unfolding evaluate_all_rules_def by (rule filter_res_total)
  then show "evaluate_all_rules depth firm ctx e =
      Inr (filter (\<lambda>r. rl_active r \<and> holds ctx (rl_condition r)) (list_rules firm False e))"
    by (simp add: active filter_filter conj_commute)
  show "\<forall>r \<in> set (list_rules firm False e).
      evaluate_rule depth firm (rl_id r) ctx e = Inr (rl_active r \<and> holds ctx (rl_condition r))"
  proof
    fix r assume "r \<in> set (list_rules firm False e)"
    then have "rule_store_get (re_store e) (firm, rl_id r) = Some r"
      and "rl_active r \<Longrightarrow> r \<in> set (list_rules firm True e)"
      using ok by (auto simp: list_rules_iff)
    then show "evaluate_rule depth firm (rl_id r) ctx e = Inr (rl_active r \<and> holds ctx (rl_condition r))"
      by (auto simp: evaluate_rule_def get_rule_def each)
  qed
qed

definition demo_rule_engine :: rule_engine where
  "demo_rule_engine =
     snd (create_rule ''rule-2'' 0 ''f'' ''b'' (cond_not (cond_role_is ''admin'')) []
       (snd (create_rule ''rule-1'' 0 ''f'' ''a'' (cond_role_is ''admin'') []
          \<lparr>re_store = [], re_condition_engine = condition_engine_init\<rparr>)))"

lemma evaluate_all_exact_witness:
  "evaluate_all_rules 2 ''f'' [(''role'', ''admin'')] demo_rule_engine =
     Inr (filter (\<lambda>r. rl_active r \<and> holds [(''role'', ''admin'')] (rl_condition r))
       (list_rules ''f'' False demo_rule_engine))"
proof -
  have "rule_engine_ok demo_rule_engine"
    unfolding demo_rule_engine_def
    by (intro create_rule_ok) (simp add: rule_engine_ok_def rule_store_ok_def)
  moreover have "\<forall>r \<in> set (list_rules ''f'' True demo_rule_engine).
       well_formed [(''role'', ''admin'')] (rl_condition r) \<and> cond_height (rl_condition r) \<le> 2"
    by (simp add: demo_rule_engine_def create_rule_def list_rules_def rule_key_def store_defs
        rows_by_key_def cond_role_is_def cond_not_def Let_def)
  ultimately show ?thesis using evaluate_all_exact [of demo_rule_engine "''f''" _ 2] by blast
qed

text \<open>
  Deactivating a rule is final for evaluation and touches nothing else: evaluating the
  deactivated rule answers False in every context and at every depth, whatever its condition
  (no error of the condition can surface), every other rule of every firm reads back as
  before, and the firm's other rules are listed as before.
\<close>

theorem deactivate_rule_frame:
  assumes ok: "rule_engine_ok e" and d: "deactivate_rule firm rule_id e = Inr (r', e')"
  shows "(\<forall>depth ctx. evaluate_rule depth firm rule_id ctx e' = Inr False) \<and>
         (\<forall>f i. (f, i) \<noteq> (firm, rule_id) \<longrightarrow> get_rule f i e' = get_rule f i e) \<and>
         list_rules firm False e' =
           map (\<lambda>r. if rl_id r = rule_id then r' else r) (list_rules firm False e)"
proof -
  from d ok obtain r where r: "rule_store_get (re_store e) (firm, rule_id) = Some r"
    and r': "r' = r\<lparr>rl_active := False\<rparr>" and e': "e' = e\<lparr>re_store := rule_store_add r' (re_store e)\<rparr>"
    by (auto simp: deactivate_rule_cases)
  have key: "rule_key r' = (firm, rule_id)"
    using get_rule_key [OF ok r] by (simp add: r' rule_key_def)
  have rows: "list_rules firm False e' =
      map (\<lambda>x. if rule_key x = rule_key r' then r' else x) (list_rules firm False e)"
    using rule_rows.rows_put_old [of "re_store e" r' r] ok r key
    by (simp add: list_rules_def Let_def e' rule_engine_ok_def)
  moreover have "rl_firm_id x = firm" if "x \<in> set (list_rules firm False e)" for x
    using that ok by (simp add: list_rules_iff)
  ultimately have "list_rules firm False e' =
      map (\<lambda>x. if rl_id x = rule_id then r' else x) (list_rules firm False e)"
    using key by (auto simp: rule_key_def)
  then show ?thesis
    using key by (auto simp: evaluate_rule_def get_rule_def e' rule_rows.get_put r' split: option.splits)
qed

lemma deactivate_rule_frame_witness:
  "\<exists>r' e'. deactivate_rule ''f'' ''rule-1'' demo_rule_engine = Inr (r', e') \<and>
     evaluate_rule 0 ''f'' ''rule-1'' [] e' = Inr False"
proof -
  have "rule_engine_ok demo_rule_engine"
    unfolding demo_rule_engine_def
    by (intro create_rule_ok) (simp add: rule_engine_ok_def rule_store_ok_def)
  moreover obtain r' e' where "deactivate_rule ''f'' ''rule-1'' demo_rule_engine = Inr (r', e')"
    by (simp add: demo_rule_engine_def create_rule_def deactivate_rule_def get_rule_def rule_key_def
        store_defs Let_def)
  ultimately show ?thesis using deactivate_rule_frame by blast
qed

end
