(* ===== verification/Triggers.thy ===== *)
theory Triggers
  imports PyText
begin

text \<open>
  What makes a workflow fire: the event classes and the bus of
  \<^verbatim>\<open>workflow_automation/event_bus\<close>, the triggers and matchers of \<open>trigger_engine\<close>, and the
  time-based triggers of \<open>scheduler\<close>.
\<close>

section \<open>Events\<close>

datatype workflow_event =
    BusinessEventOccurred (ev_firm_id: pystr) (ev_id: pystr) (ev_occurred_at: datetime)
      (ev_source: pystr) (ev_label: pystr) (ev_payload: "(pystr, pystr) dict")
  | DeadlineApproaching (ev_firm_id: pystr) (ev_id: pystr) (ev_occurred_at: datetime)
      (ev_case_id: pystr) (ev_deadline_label: pystr) (ev_days_remaining: int)
  | DocumentCreated (ev_firm_id: pystr) (ev_id: pystr) (ev_occurred_at: datetime)
      (ev_case_id: pystr) (ev_document_id: pystr) (ev_document_type: pystr)
  | CaseUpdated (ev_firm_id: pystr) (ev_id: pystr) (ev_occurred_at: datetime)
      (ev_case_id: pystr) (ev_field_changed: pystr)
  | ValidationCompleted (ev_firm_id: pystr) (ev_id: pystr) (ev_occurred_at: datetime)
      (ev_target_type: pystr) (ev_target_id: pystr) (ev_approved: bool)
  | IntegrationEventReceived (ev_firm_id: pystr) (ev_id: pystr) (ev_occurred_at: datetime)
      (ev_integration_name: pystr) (ev_label: pystr) (ev_payload: "(pystr, pystr) dict")
  | WorkflowExecutionStarted (ev_firm_id: pystr) (ev_id: pystr) (ev_occurred_at: datetime)
      (ev_workflow_id: pystr) (ev_execution_id: pystr)
  | WorkflowExecutionCompleted (ev_firm_id: pystr) (ev_id: pystr) (ev_occurred_at: datetime)
      (ev_workflow_id: pystr) (ev_execution_id: pystr)
  | WorkflowExecutionFailed (ev_firm_id: pystr) (ev_id: pystr) (ev_occurred_at: datetime)
      (ev_workflow_id: pystr) (ev_execution_id: pystr) (ev_reason: pystr)

text \<open>The class of an event, the key under which handlers subscribe.\<close>

fun event_type :: "workflow_event \<Rightarrow> pystr" where
  "event_type (BusinessEventOccurred _ _ _ _ _ _) = ''BusinessEventOccurred''"
| "event_type (DeadlineApproaching _ _ _ _ _ _) = ''DeadlineApproaching''"
| "event_type (DocumentCreated _ _ _ _ _ _) = ''DocumentCreated''"
| "event_type (CaseUpdated _ _ _ _ _) = ''CaseUpdated''"
| "event_type (ValidationCompleted _ _ _ _ _ _) = ''ValidationCompleted''"
| "event_type (IntegrationEventReceived _ _ _ _ _ _) = ''IntegrationEventReceived''"
| "event_type (WorkflowExecutionStarted _ _ _ _ _) = ''WorkflowExecutionStarted''"
| "event_type (WorkflowExecutionCompleted _ _ _ _ _) = ''WorkflowExecutionCompleted''"
| "event_type (WorkflowExecutionFailed _ _ _ _ _ _) = ''WorkflowExecutionFailed''"

section \<open>The bus\<close>

text \<open>
  Handlers are values of an arbitrary type \<open>'h\<close> compared by identity; what awaiting one does
  to the rest of the world is the argument \<open>await_handler\<close>. Reading the \<open>defaultdict\<close> for a
  class nobody subscribed to leaves an empty entry behind.
\<close>

record 'h event_bus =
  eb_subscribers :: "(pystr, 'h list) dict"
  eb_history :: "workflow_event list"

definition event_bus_init :: "'h event_bus" where
  "event_bus_init = \<lparr>eb_subscribers = [], eb_history = []\<rparr>"

definition subscribers_of :: "pystr \<Rightarrow> 'h event_bus \<Rightarrow> 'h list" where
  "subscribers_of cls b = (case dict_get (eb_subscribers b) cls of None \<Rightarrow> [] | Some hs \<Rightarrow> hs)"

definition subscribe :: "pystr \<Rightarrow> 'h \<Rightarrow> 'h event_bus \<Rightarrow> 'h event_bus" where
  "subscribe cls h b = b\<lparr>eb_subscribers := dict_set cls (subscribers_of cls b @ [h]) (eb_subscribers b)\<rparr>"

definition unsubscribe :: "pystr \<Rightarrow> 'h \<Rightarrow> 'h event_bus \<Rightarrow> unit result \<times> 'h event_bus" where
  "unsubscribe cls h b =
     (let hs = subscribers_of cls b
      in if h \<in> set hs
         then (Inr (), b\<lparr>eb_subscribers := dict_set cls (remove1 h hs) (eb_subscribers b)\<rparr>)
         else (Inl (ValueError ''list.remove(x): x not in list''),
               b\<lparr>eb_subscribers := dict_set cls hs (eb_subscribers b)\<rparr>))"

fun await_all :: "('h \<Rightarrow> workflow_event \<Rightarrow> 'w \<Rightarrow> unit result \<times> 'w) \<Rightarrow> workflow_event \<Rightarrow> 'h list \<Rightarrow> 'w
    \<Rightarrow> unit result \<times> 'w" where
  "await_all await_handler ev [] w = (Inr (), w)"
| "await_all await_handler ev (h # hs) w =
     (case await_handler h ev w of
        (Inl exc, w') \<Rightarrow> (Inl exc, w')
      | (Inr _, w') \<Rightarrow> await_all await_handler ev hs w')"

definition publish ::
  "('h \<Rightarrow> workflow_event \<Rightarrow> 'w \<Rightarrow> unit result \<times> 'w) \<Rightarrow> workflow_event \<Rightarrow> 'h event_bus \<Rightarrow> 'w
     \<Rightarrow> unit result \<times> 'h event_bus \<times> 'w" where
  "publish await_handler ev b w =
     (let hs = subscribers_of (event_type ev) b;
          b' = b\<lparr>eb_subscribers := dict_set (event_type ev) hs (eb_subscribers b),
                 eb_history := eb_history b @ [ev]\<rparr>;
          (res, w') = await_all await_handler ev hs w
      in (res, b', w'))"

definition bus_record :: "workflow_event \<Rightarrow> 'h event_bus \<Rightarrow> 'h event_bus" where
  "bus_record ev b = fst (snd (publish (\<lambda>h e w. (Inr (), w)) ev b ()))"

interpretation bus_log: journal bus_record eb_history ev_firm_id
    "\<lambda>b firm. filter (\<lambda>e. ev_firm_id e = firm) (eb_history b)"
  by unfold_locales (simp_all add: bus_record_def publish_def Let_def split: prod.splits)

lemma subscribers_of_update [simp]:
  "subscribers_of cls (b\<lparr>eb_subscribers := dict_set cls' hs (eb_subscribers b)\<rparr>) =
     (if cls = cls' then hs else subscribers_of cls b)"
  by (simp add: subscribers_of_def update_conv')

lemma subscribers_of_history [simp]: "subscribers_of cls (b\<lparr>eb_history := hist\<rparr>) = subscribers_of cls b"
  by (simp add: subscribers_of_def)

lemma subscribers_of_publish [simp]:
  "subscribers_of cls (fst (snd (publish run ev b w))) = subscribers_of cls b"
  by (simp add: publish_def Let_def subscribers_of_def update_conv' split: prod.splits)

lemma history_publish [simp]: "eb_history (fst (snd (publish run ev b w))) = eb_history b @ [ev]"
  by (simp add: publish_def Let_def split: prod.splits)

lemma await_all_append:
  "await_all run ev (xs @ ys) w =
     (case await_all run ev xs w of
        (Inl exc, w') \<Rightarrow> (Inl exc, w')
      | (Inr _, w') \<Rightarrow> await_all run ev ys w')"
  by (induction xs arbitrary: w) (auto split: prod.splits sum.splits)

lemma await_all_ok:
  "(\<And>h w. h \<in> set hs \<Longrightarrow> fst (run h ev w) = Inr ()) \<Longrightarrow>
     await_all run ev hs w = (Inr (), fold (\<lambda>h. snd \<circ> run h ev) hs w)"
proof (induction hs arbitrary: w)
  case (Cons h hs)
  obtain w' where "run h ev w = (Inr (), w')"
    using Cons.prems [of h w] by (cases "run h ev w") auto
  with Cons show ?case by simp
qed simp

section \<open>Triggers and matchers\<close>

datatype trigger_type =
    TT_BUSINESS_EVENT | TT_SCHEDULE | TT_DEADLINE | TT_DOCUMENT_CREATED | TT_CASE_UPDATED
  | TT_VALIDATION | TT_INTEGRATION_EVENT

record trigger =
  tg_id :: pystr
  tg_workflow_id :: pystr
  tg_trigger_type :: trigger_type
  tg_config :: "(pystr, pystr) dict"

text \<open>A matcher object: its class attribute \<open>trigger_type\<close> and its method \<open>matches\<close>.\<close>

type_synonym matcher = "trigger_type \<times> (trigger \<Rightarrow> workflow_event \<Rightarrow> bool result)"

fun business_event_matches :: "trigger \<Rightarrow> workflow_event \<Rightarrow> bool result" where
  "business_event_matches t (BusinessEventOccurred _ _ _ source label _) =
     Inr (dict_get (tg_config t) ''source'' = Some source \<and> dict_get (tg_config t) ''label'' = Some label)"
| "business_event_matches t _ = Inr False"

fun deadline_matches :: "trigger \<Rightarrow> workflow_event \<Rightarrow> bool result" where
  "deadline_matches t (DeadlineApproaching _ _ _ _ _ days_remaining) =
     (case dict_get (tg_config t) ''days_remaining_at_or_below'' of
        None \<Rightarrow> Inr True
      | Some threshold \<Rightarrow> res_bind (py_int threshold) (\<lambda>n. Inr (days_remaining \<le> n)))"
| "deadline_matches t _ = Inr False"

fun document_created_matches :: "trigger \<Rightarrow> workflow_event \<Rightarrow> bool result" where
  "document_created_matches t (DocumentCreated _ _ _ _ _ document_type) =
     Inr (case dict_get (tg_config t) ''document_type'' of None \<Rightarrow> True | Some d \<Rightarrow> document_type = d)"
| "document_created_matches t _ = Inr False"

fun case_updated_matches :: "trigger \<Rightarrow> workflow_event \<Rightarrow> bool result" where
  "case_updated_matches t (CaseUpdated _ _ _ _ field_changed) =
     Inr (case dict_get (tg_config t) ''field'' of None \<Rightarrow> True | Some f \<Rightarrow> field_changed = f)"
| "case_updated_matches t _ = Inr False"

fun validation_matches :: "trigger \<Rightarrow> workflow_event \<Rightarrow> bool result" where
  "validation_matches t (ValidationCompleted _ _ _ target_type _ approved) =
     Inr (approved \<and> (case dict_get (tg_config t) ''target_type'' of None \<Rightarrow> True | Some d \<Rightarrow> target_type = d))"
| "validation_matches t _ = Inr False"

fun integration_event_matches :: "trigger \<Rightarrow> workflow_event \<Rightarrow> bool result" where
  "integration_event_matches t (IntegrationEventReceived _ _ _ integration_name _ _) =
     Inr (case dict_get (tg_config t) ''integration_name'' of None \<Rightarrow> True | Some d \<Rightarrow> integration_name = d)"
| "integration_event_matches t _ = Inr False"

definition default_matchers :: "matcher list" where
  "default_matchers =
     [(TT_BUSINESS_EVENT, business_event_matches), (TT_DEADLINE, deadline_matches),
      (TT_DOCUMENT_CREATED, document_created_matches), (TT_CASE_UPDATED, case_updated_matches),
      (TT_VALIDATION, validation_matches), (TT_INTEGRATION_EVENT, integration_event_matches)]"

record trigger_engine =
  te_matchers :: "(trigger_type, matcher) dict"

text \<open>\<open>matchers or {...}\<close>: an empty dictionary is replaced by the default matchers too.\<close>

definition trigger_engine_init :: "(trigger_type, matcher) dict option \<Rightarrow> trigger_engine" where
  "trigger_engine_init matchers =
     \<lparr>te_matchers = (case matchers of
        None \<Rightarrow> map (\<lambda>m. (fst m, m)) default_matchers
      | Some ms \<Rightarrow> if ms = [] then map (\<lambda>m. (fst m, m)) default_matchers else ms)\<rparr>"

definition register_matcher :: "matcher \<Rightarrow> trigger_engine \<Rightarrow> trigger_engine" where
  "register_matcher m e = e\<lparr>te_matchers := dict_set (fst m) m (te_matchers e)\<rparr>"

definition trigger_matches :: "trigger_engine \<Rightarrow> trigger \<Rightarrow> workflow_event \<Rightarrow> bool result" where
  "trigger_matches e t ev =
     (case dict_get (te_matchers e) (tg_trigger_type t) of
        None \<Rightarrow> Inr False
      | Some m \<Rightarrow> snd m t ev)"

definition find_matching_triggers ::
  "trigger_engine \<Rightarrow> trigger list \<Rightarrow> workflow_event \<Rightarrow> trigger list result" where
  "find_matching_triggers e triggers ev = filter_res (\<lambda>t. trigger_matches e t ev) triggers"

section \<open>What a trigger asks for\<close>

text \<open>
  The contract the matchers implement: an event interests a trigger when it is of the class
  the trigger's type names and every setting of the configuration that concerns the type and
  is present agrees with the event. The two settings of a business trigger are mandatory.
\<close>

definition opt_agrees :: "trigger \<Rightarrow> pystr \<Rightarrow> pystr \<Rightarrow> bool" where
  "opt_agrees t setting x \<longleftrightarrow> dict_get (tg_config t) setting \<in> {None, Some x}"

fun interests :: "trigger \<Rightarrow> workflow_event \<Rightarrow> bool" where
  "interests t (BusinessEventOccurred _ _ _ source label _) =
     (tg_trigger_type t = TT_BUSINESS_EVENT \<and> dict_get (tg_config t) ''source'' = Some source
      \<and> dict_get (tg_config t) ''label'' = Some label)"
| "interests t (DeadlineApproaching _ _ _ _ _ d) =
     (tg_trigger_type t = TT_DEADLINE \<and>
      (case dict_get (tg_config t) ''days_remaining_at_or_below'' of
         None \<Rightarrow> True
       | Some s \<Rightarrow> (case py_int s of Inr n \<Rightarrow> d \<le> n | Inl _ \<Rightarrow> False)))"
| "interests t (DocumentCreated _ _ _ _ _ d) =
     (tg_trigger_type t = TT_DOCUMENT_CREATED \<and> opt_agrees t ''document_type'' d)"
| "interests t (CaseUpdated _ _ _ _ f) =
     (tg_trigger_type t = TT_CASE_UPDATED \<and> opt_agrees t ''field'' f)"
| "interests t (ValidationCompleted _ _ _ ty _ ok) =
     (tg_trigger_type t = TT_VALIDATION \<and> ok \<and> opt_agrees t ''target_type'' ty)"
| "interests t (IntegrationEventReceived _ _ _ n _ _) =
     (tg_trigger_type t = TT_INTEGRATION_EVENT \<and> opt_agrees t ''integration_name'' n)"
| "interests t _ = False"

definition threshold_ok :: "trigger \<Rightarrow> bool" where
  "threshold_ok t \<longleftrightarrow>
     (case dict_get (tg_config t) ''days_remaining_at_or_below'' of
        None \<Rightarrow> True
      | Some s \<Rightarrow> (case py_int s of Inr _ \<Rightarrow> True | Inl _ \<Rightarrow> False))"

lemmas matcher_simps = trigger_matches_def trigger_engine_init_def default_matchers_def opt_agrees_def
  threshold_ok_def

lemma default_matches:
  "tg_trigger_type t = TT_DEADLINE \<Longrightarrow> threshold_ok t \<Longrightarrow>
     trigger_matches (trigger_engine_init None) t ev = Inr (interests t ev)"
  "tg_trigger_type t \<noteq> TT_DEADLINE \<Longrightarrow>
     trigger_matches (trigger_engine_init None) t ev = Inr (interests t ev)"
  subgoal by (cases ev) (auto simp: matcher_simps split: option.splits sum.splits)
  subgoal
    by (cases ev; cases "tg_trigger_type t") (auto simp: matcher_simps split: option.splits)
  done

section \<open>The scheduler\<close>

record scheduled_trigger =
  sc_id :: pystr
  sc_firm_id :: pystr
  sc_workflow_id :: pystr
  sc_trigger_id :: pystr
  sc_next_fire_at :: datetime
  sc_interval :: "timedelta option"

definition scheduled_key :: "scheduled_trigger \<Rightarrow> pystr \<times> pystr" where
  "scheduled_key s = (sc_firm_id s, sc_id s)"

type_synonym scheduler_store = "(pystr \<times> pystr, scheduled_trigger) dict"

definition scheduler_store_add :: "scheduled_trigger \<Rightarrow> scheduler_store \<Rightarrow> scheduler_store" where
  [store_defs]: "scheduler_store_add s d = dict_set (scheduled_key s) s d"

definition scheduler_store_list_for_firm :: "scheduler_store \<Rightarrow> pystr \<Rightarrow> scheduled_trigger list" where
  [store_defs]: "scheduler_store_list_for_firm d firm = rows_by_key d firm"

interpretation scheduler_rows: tenant_store scheduled_key scheduler_store_add dict_get
    "keyed scheduled_key" scheduler_store_list_for_firm
  using tenant_store_dict [of scheduled_key]
  by (simp add: scheduler_store_add_def [abs_def] scheduler_store_list_for_firm_def [abs_def])

definition schedule_trigger ::
  "pystr \<Rightarrow> pystr \<Rightarrow> pystr \<Rightarrow> pystr \<Rightarrow> datetime \<Rightarrow> timedelta option \<Rightarrow> scheduler_store
     \<Rightarrow> scheduled_trigger \<times> scheduler_store" where
  "schedule_trigger new_id firm workflow_id trigger_id next_fire_at interval d =
     (let s = \<lparr>sc_id = new_id, sc_firm_id = firm, sc_workflow_id = workflow_id,
               sc_trigger_id = trigger_id, sc_next_fire_at = next_fire_at, sc_interval = interval\<rparr>
      in (s, scheduler_store_add s d))"

definition due :: "pystr \<Rightarrow> datetime \<Rightarrow> scheduler_store \<Rightarrow> scheduled_trigger list" where
  "due firm now d = filter (\<lambda>s. sc_next_fire_at s \<le> now) (scheduler_store_list_for_firm d firm)"

text \<open>\<open>mark_fired\<close> mutates the object it is given, which is the object the store holds.\<close>

definition mark_fired ::
  "scheduled_trigger \<Rightarrow> datetime \<Rightarrow> scheduler_store \<Rightarrow> scheduled_trigger \<times> scheduler_store" where
  "mark_fired s now d =
     (case sc_interval s of
        None \<Rightarrow> (s, d)
      | Some interval \<Rightarrow>
          (let s' = s\<lparr>sc_next_fire_at := now + interval\<rparr> in (s', scheduler_store_add s' d)))"

lemma due_iff:
  "keyed scheduled_key d \<Longrightarrow> s \<in> set (due firm now d) \<longleftrightarrow>
     sc_firm_id s = firm \<and> dict_get d (firm, sc_id s) = Some s \<and> sc_next_fire_at s \<le> now"
  by (auto simp: due_def scheduler_rows.rows_iff scheduled_key_def)

text \<open>A poll dispatches every due trigger and marks it as fired at the time of the poll.\<close>

definition mark_all_fired :: "datetime \<Rightarrow> scheduled_trigger list \<Rightarrow> scheduler_store \<Rightarrow> scheduler_store" where
  "mark_all_fired now ss d = fold (\<lambda>s. snd \<circ> mark_fired s now) ss d"

lemma mark_all_fired_Nil [simp]: "mark_all_fired now [] d = d"
  by (simp add: mark_all_fired_def)

lemma mark_all_fired_Cons [simp]:
  "mark_all_fired now (s # ss) d = mark_all_fired now ss (snd (mark_fired s now d))"
  by (simp add: mark_all_fired_def)

lemma mark_fired_ok: "keyed scheduled_key d \<Longrightarrow> keyed scheduled_key (snd (mark_fired s now d))"
  by (auto simp: mark_fired_def Let_def scheduler_rows.wf_put split: option.splits)

lemma mark_fired_get:
  "dict_get (snd (mark_fired s now d)) k =
     (if k = scheduled_key s \<and> sc_interval s \<noteq> None
      then Some (s\<lparr>sc_next_fire_at := now + the (sc_interval s)\<rparr>) else dict_get d k)"
  by (auto simp: mark_fired_def Let_def scheduler_rows.get_put scheduled_key_def split: option.splits)

lemma mark_all_fired_get:
  "distinct (map scheduled_key ss) \<Longrightarrow>
   dict_get (mark_all_fired now ss d) k =
     (case List.find (\<lambda>s. scheduled_key s = k \<and> sc_interval s \<noteq> None) ss of
        Some s \<Rightarrow> Some (s\<lparr>sc_next_fire_at := now + the (sc_interval s)\<rparr>)
      | None \<Rightarrow> dict_get d k)"
proof (induction ss arbitrary: d)
  case (Cons s ss)
  have "scheduled_key s = k \<Longrightarrow> List.find (\<lambda>s. scheduled_key s = k \<and> sc_interval s \<noteq> None) ss = None"
    using Cons.prems by (auto simp: find_None_iff) (metis image_eqI)
  with Cons show ?case by (auto simp: mark_fired_get split: option.split)
qed simp

lemma mark_all_fired_ok: "keyed scheduled_key d \<Longrightarrow> keyed scheduled_key (mark_all_fired now ss d)"
  by (induction ss arbitrary: d) (auto intro: mark_fired_ok)

section \<open>Properties\<close>

text \<open>
  The default trigger engine implements the contract \<open>interests\<close>: over triggers whose
  deadline thresholds are readable integers, looking up the triggers for an event returns
  exactly the interested ones, in their order, whatever the event; a trigger of type
  \<open>SCHEDULE\<close> is never among them.
\<close>

theorem find_matching_triggers_refines:
  assumes "\<forall>t \<in> set triggers. tg_trigger_type t = TT_DEADLINE \<longrightarrow> threshold_ok t"
  shows "find_matching_triggers (trigger_engine_init None) triggers ev = Inr (filter (\<lambda>t. interests t ev) triggers)
     \<and> (\<forall>t \<in> set (filter (\<lambda>t. interests t ev) triggers). tg_trigger_type t \<noteq> TT_SCHEDULE)"
proof
  show "find_matching_triggers (trigger_engine_init None) triggers ev = Inr (filter (\<lambda>t. interests t ev) triggers)"
    unfolding find_matching_triggers_def
    by (rule filter_res_total) (use assms default_matches in blast)
  show "\<forall>t \<in> set (filter (\<lambda>t. interests t ev) triggers). tg_trigger_type t \<noteq> TT_SCHEDULE"
    by (cases ev) auto
qed

lemma find_matching_triggers_refines_witness:
  "find_matching_triggers (trigger_engine_init None)
     [\<lparr>tg_id = ''t1'', tg_workflow_id = ''w'', tg_trigger_type = TT_CASE_UPDATED, tg_config = [(''field'', ''status'')]\<rparr>,
      \<lparr>tg_id = ''t2'', tg_workflow_id = ''w'', tg_trigger_type = TT_DEADLINE, tg_config = []\<rparr>]
     (DeadlineApproaching ''f'' ''e'' 0 ''c'' ''l'' 3) =
   Inr [\<lparr>tg_id = ''t2'', tg_workflow_id = ''w'', tg_trigger_type = TT_DEADLINE, tg_config = []\<rparr>]"
  by (subst find_matching_triggers_refines [THEN conjunct1]) (simp_all add: threshold_ok_def)

text \<open>
  Polling the scheduler: after every due trigger of a firm has been marked as fired at the
  time of the poll, the triggers still due at any later moment \<open>t\<close> are exactly those that
  were not due at the poll and have come due since, the one-shot triggers that were due (a
  one-shot trigger is never disarmed), and the recurring ones whose interval has elapsed. With
  positive intervals no recurring trigger is due again at the time of the poll itself.
\<close>

theorem poll_exact:
  assumes ok: "keyed scheduled_key d"
    and d': "d' = mark_all_fired now (due firm now d) d" and later: "now \<le> t"
  shows "s' \<in> set (due firm t d') \<longleftrightarrow>
     (\<exists>s. sc_firm_id s = firm \<and> dict_get d (firm, sc_id s) = Some s \<and>
        (if now < sc_next_fire_at s then s' = s \<and> sc_next_fire_at s \<le> t
         else (case sc_interval s of
                 None \<Rightarrow> s' = s
               | Some i \<Rightarrow> s' = s\<lparr>sc_next_fire_at := now + i\<rparr> \<and> now + i \<le> t)))"
    (is "_ \<longleftrightarrow> (\<exists>s. ?R s)")
proof -
  define fired where "fired s = (if now < sc_next_fire_at s then s else
      (case sc_interval s of None \<Rightarrow> s | Some i \<Rightarrow> s\<lparr>sc_next_fire_at := now + i\<rparr>))" for s :: scheduled_trigger
  have "distinct (map scheduled_key (due firm now d))"
    using scheduler_rows.rows_distinct [OF ok, of firm] by (simp add: due_def distinct_map_filter)
  note get = mark_all_fired_get [OF this, where d = d and now = now]
  have stored: "sc_firm_id s = f \<and> sc_id s = i" if "dict_get d (f, i) = Some s" for f i s
    using keyed_get [OF ok that] by (simp add: scheduled_key_def)
  have get': "dict_get d' (firm, i) = map_option fired (dict_get d (firm, i))" for i
  proof (cases "List.find (\<lambda>s. scheduled_key s = (firm, i) \<and> sc_interval s \<noteq> None) (due firm now d)")
    case None
    then have none: "sc_interval s = None" if "s \<in> set (due firm now d)" "scheduled_key s = (firm, i)" for s
      using that by (auto simp: find_None_iff)
    have "fired s = s" if s: "dict_get d (firm, i) = Some s" for s
      using none [of s] stored [OF s] s by (simp add: due_iff [OF ok] scheduled_key_def not_less fired_def)
    with None show ?thesis by (cases "dict_get d (firm, i)") (simp_all add: d' get)
  next
    case (Some s)
    then have s: "s \<in> set (due firm now d)" "scheduled_key s = (firm, i)" "sc_interval s \<noteq> None"
      by (auto simp: find_Some_iff)
    then have "dict_get d (firm, i) = Some s" and "\<not> now < sc_next_fire_at s"
      by (auto simp: due_iff [OF ok] scheduled_key_def)
    with s(3) Some show ?thesis by (auto simp: d' get fired_def)
  qed
  have keys: "sc_firm_id (fired s) = sc_firm_id s \<and> sc_id (fired s) = sc_id s" for s
    by (simp add: fired_def split: option.splits)
  have ok': "keyed scheduled_key d'" by (simp add: d' mark_all_fired_ok ok)
  have "s' \<in> set (due firm t d') \<longleftrightarrow>
      sc_firm_id s' = firm \<and> (\<exists>s. dict_get d (firm, sc_id s') = Some s \<and> s' = fired s) \<and> sc_next_fire_at s' \<le> t"
    unfolding due_iff [OF ok'] get' map_option_eq_Some by blast
  also have "\<dots> \<longleftrightarrow>
      (\<exists>s. sc_firm_id s = firm \<and> dict_get d (firm, sc_id s) = Some s \<and> s' = fired s \<and> sc_next_fire_at s' \<le> t)"
    (is "?L \<longleftrightarrow> ?R'")
  proof
    assume ?L
    then obtain s where s: "dict_get d (firm, sc_id s') = Some s" and "s' = fired s" "sc_next_fire_at s' \<le> t"
      by blast
    with stored [OF s] show ?R' by (intro exI [of _ s]) simp
  next
    assume ?R'
    then show ?L using keys by auto
  qed
  also have "\<dots> \<longleftrightarrow> (\<exists>s. ?R s)"
    using later by (intro ex_cong1) (auto simp: fired_def split: option.splits)
  finally show ?thesis .
qed

lemma poll_exact_witness:
  "\<exists>d d'. d' = mark_all_fired 10 (due ''f'' 10 d) d \<and> map sc_id (due ''f'' 10 d) = [''a'', ''b''] \<and>
     (\<forall>s'. s' \<in> set (due ''f'' 12 d') \<longrightarrow> sc_interval s' = None)"
proof -
  let ?a = "\<lparr>sc_id = ''a'', sc_firm_id = ''f'', sc_workflow_id = ''w'', sc_trigger_id = ''t'',
             sc_next_fire_at = 9, sc_interval = None\<rparr>"
  let ?b = "\<lparr>sc_id = ''b'', sc_firm_id = ''f'', sc_workflow_id = ''w'', sc_trigger_id = ''t'',
             sc_next_fire_at = 10, sc_interval = Some 5\<rparr>"
  let ?d = "[((''f'', ''a''), ?a), ((''f'', ''b''), ?b)]"
  have ok: "keyed scheduled_key ?d" by (simp add: keyed_def scheduled_key_def)
  have two: "map sc_id (due ''f'' 10 ?d) = [''a'', ''b'']"
    by (simp add: due_def store_defs rows_by_key_def)
  have once: "sc_interval s' = None" if "s' \<in> set (due ''f'' 12 (mark_all_fired 10 (due ''f'' 10 ?d) ?d))" for s'
  proof -
    have "(10::int) \<le> 12" by simp
    from poll_exact [OF ok refl this, THEN iffD1, OF that] obtain s
      where "dict_get ?d (''f'', sc_id s) = Some s"
        and "if 10 < sc_next_fire_at s then s' = s \<and> sc_next_fire_at s \<le> 12
             else (case sc_interval s of None \<Rightarrow> s' = s
                   | Some i \<Rightarrow> s' = s\<lparr>sc_next_fire_at := 10 + i\<rparr> \<and> 10 + i \<le> 12)"
      by (elim exE conjE) (rule that)
    then show ?thesis by (cases "sc_id s = ''a''"; cases "sc_id s = ''b''") auto
  qed
  show ?thesis
    by (rule exI [of _ ?d], rule exI, rule conjI [OF refl], rule conjI [OF two]) (intro allI impI once)
qed

text \<open>
  Publishing an event records it before any handler runs and delivers it to the handlers
  subscribed to exactly its class, in subscription order: once the handlers before \<open>h\<close> have
  returned, \<open>h\<close> runs in the state they left; when it raises, its exception reaches the
  publisher and the handlers after it are not run; when it returns, the remaining handlers run
  on. In both cases the history keeps the event and the subscriptions are unchanged.
\<close>

theorem publish_delivers:
  assumes subs: "subscribers_of (event_type ev) b = before @ h # after"
    and quiet: "\<forall>g \<in> set before. \<forall>v. fst (run g ev v) = Inr ()"
    and reached: "w1 = fold (\<lambda>g. snd \<circ> run g ev) before w"
    and published: "publish run ev b w = (res, b', w')"
  shows "eb_history b' = eb_history b @ [ev] \<and> subscribers_of cls b' = subscribers_of cls b \<and>
     (case run h ev w1 of
        (Inl exc, w2) \<Rightarrow> res = Inl exc \<and> w' = w2
      | (Inr _, w2) \<Rightarrow> (res, w') = await_all run ev after w2)"
proof -
  have "await_all run ev before w = (Inr (), w1)"
    unfolding reached by (rule await_all_ok) (use quiet in blast)
  then have "await_all run ev (before @ h # after) w = await_all run ev (h # after) w1"
    by (simp add: await_all_append)
  then show ?thesis
    using published history_publish [of run ev b w] subscribers_of_publish [of cls run ev b w]
    by (cases "run h ev w1"; cases "fst (run h ev w1)")
       (auto simp: publish_def Let_def subs split_beta prod_eq_iff)
qed

definition demo_handler :: "nat \<Rightarrow> workflow_event \<Rightarrow> nat list \<Rightarrow> unit result \<times> nat list" where
  "demo_handler h ev w = (if h = 7 then (Inl TimeoutError, w) else (Inr (), w @ [h]))"

lemma publish_delivers_witness:
  "\<exists>b res b' w'. publish demo_handler (CaseUpdated [] [] 0 [] []) b [] = (res, b', w') \<and>
      res = Inl TimeoutError \<and> w' = [3]"
proof -
  let ?ev = "CaseUpdated [] [] 0 [] []"
  let ?b = "\<lparr>eb_subscribers = [(''CaseUpdated'', [3, 7, 9])], eb_history = []\<rparr>"
  have subs: "subscribers_of (event_type ?ev) ?b = [3] @ 7 # [9]"
    by (simp add: subscribers_of_def)
  have quiet: "\<forall>g \<in> set [3::nat]. \<forall>v. fst (demo_handler g ?ev v) = Inr ()"
    by (simp add: demo_handler_def)
  have w1: "[3] = fold (\<lambda>g. snd \<circ> demo_handler g ?ev) [3::nat] []"
    by (simp add: demo_handler_def)
  obtain res b' w' where p: "publish demo_handler ?ev ?b [] = (res, b', w')" by (rule prod_cases3)
  from publish_delivers [OF subs quiet w1 p] have "res = Inl TimeoutError \<and> w' = [3]"
    by (simp add: demo_handler_def)
  with p show ?thesis by blast
qed

end
