(* ===== verification/Actions.thy ===== *)
theory Actions
  imports PyFloat
begin

text \<open>
  Acting on the world: \<^verbatim>\<open>workflow_automation/action_engine\<close> (actions, handlers, the action
  log), \<open>rollback\<close> (compensation handlers and their log), \<open>retry\<close> (the retry policy) and
  \<open>integrations\<close> (the connector registry). Handlers are plug-ins: a handler is an argument, a
  function of the state \<open>'w\<close> of everything outside the platform, which it may change, and it
  either returns a result or raises.
\<close>

section \<open>Actions and their log\<close>

type_synonym string_map = "(pystr, pystr) dict"

record action =
  ac_id :: pystr
  ac_workflow_id :: pystr
  ac_action_type :: pystr
  ac_config :: string_map
  ac_requires_approval :: bool

record action_result =
  ar_success :: bool
  ar_detail :: pystr
  ar_output :: string_map

record action_log_entry =
  al_id :: pystr
  al_firm_id :: pystr
  al_execution_id :: pystr
  al_action_id :: pystr
  al_action_type :: pystr
  al_result :: action_result
  al_executed_at :: datetime

definition action_log_add :: "action_log_entry \<Rightarrow> action_log_entry list \<Rightarrow> action_log_entry list" where
  [store_defs]: "action_log_add entry entries = entries @ [entry]"

definition action_log_list_for_execution ::
  "action_log_entry list \<Rightarrow> pystr \<times> pystr \<Rightarrow> action_log_entry list" where
  [store_defs]: "action_log_list_for_execution entries k =
     filter (\<lambda>e. (al_firm_id e, al_execution_id e) = k) entries"

interpretation action_log: journal action_log_add id "\<lambda>e. (al_firm_id e, al_execution_id e)"
    action_log_list_for_execution
  by unfold_locales (simp_all add: store_defs)

type_synonym 'w action_handler = "action \<Rightarrow> string_map \<Rightarrow> 'w \<Rightarrow> action_result result \<times> 'w"

record 'w action_engine =
  ae_entries :: "action_log_entry list"
  ae_handlers :: "(pystr, 'w action_handler) dict"

definition action_engine_init :: "(pystr \<times> 'w action_handler) list \<Rightarrow> 'w action_engine" where
  "action_engine_init handlers =
     \<lparr>ae_entries = [], ae_handlers = fold (\<lambda>(ty, h). dict_set ty h) handlers []\<rparr>"

definition register_action_handler :: "pystr \<Rightarrow> 'w action_handler \<Rightarrow> 'w action_engine \<Rightarrow> 'w action_engine" where
  "register_action_handler ty h e = e\<lparr>ae_handlers := dict_set ty h (ae_handlers e)\<rparr>"

text \<open>What the engine reports for the outcome of a handler: an exception is a failed result.\<close>

fun handler_result :: "action_result result \<Rightarrow> action_result" where
  "handler_result (Inr r) = r"
| "handler_result (Inl exc) = \<lparr>ar_success = False, ar_detail = exn_str exc, ar_output = []\<rparr>"

definition execute_action ::
  "pystr \<Rightarrow> datetime \<Rightarrow> pystr \<Rightarrow> pystr \<Rightarrow> action \<Rightarrow> string_map \<Rightarrow> 'w action_engine \<Rightarrow> 'w
     \<Rightarrow> action_result result \<times> 'w action_engine \<times> 'w" where
  "execute_action new_id now firm execution_id act ctx e w =
     (case dict_get (ae_handlers e) (ac_action_type act) of
        None \<Rightarrow> (Inl (UnknownActionTypeError (ac_action_type act)), e, w)
      | Some handler \<Rightarrow>
          (let (outcome, w') = handler act ctx w;
               res = handler_result outcome;
               entry = \<lparr>al_id = new_id, al_firm_id = firm, al_execution_id = execution_id,
                        al_action_id = ac_id act, al_action_type = ac_action_type act,
                        al_result = res, al_executed_at = now\<rparr>
           in (Inr res, e\<lparr>ae_entries := action_log_add entry (ae_entries e)\<rparr>, w')))"

definition action_history_for_execution :: "pystr \<Rightarrow> pystr \<Rightarrow> 'w action_engine \<Rightarrow> action_log_entry list" where
  "action_history_for_execution firm execution_id e =
     action_log_list_for_execution (ae_entries e) (firm, execution_id)"

lemma execute_action_handlers [simp]:
  "ae_handlers (fst (snd (execute_action i t f x a c e w))) = ae_handlers e"
  by (simp add: execute_action_def Let_def split: option.splits prod.splits)

lemma execute_action_unknown:
  "dict_get (ae_handlers e) (ac_action_type a) = None \<Longrightarrow>
     execute_action i t f x a c e w = (Inl (UnknownActionTypeError (ac_action_type a)), e, w)"
  by (simp add: execute_action_def)

lemma execute_action_known:
  "dict_get (ae_handlers e) (ac_action_type a) = Some h \<Longrightarrow> execute_action i t f x a c e w =
      (Inr (handler_result (fst (h a c w))), e\<lparr>ae_entries := ae_entries e @
         [\<lparr>al_id = i, al_firm_id = f, al_execution_id = x, al_action_id = ac_id a,
           al_action_type = ac_action_type a, al_result = handler_result (fst (h a c w)),
           al_executed_at = t\<rparr>]\<rparr>, snd (h a c w))"
  by (simp add: execute_action_def action_log_add_def split_beta Let_def)

section \<open>Rollback\<close>

record rollback_result =
  rr_compensated :: bool
  rr_detail :: pystr

record rollback_log_entry =
  rb_id :: pystr
  rb_firm_id :: pystr
  rb_execution_id :: pystr
  rb_action_id :: pystr
  rb_action_type :: pystr
  rb_result :: rollback_result
  rb_executed_at :: datetime

definition rollback_log_add :: "rollback_log_entry \<Rightarrow> rollback_log_entry list \<Rightarrow> rollback_log_entry list" where
  [store_defs]: "rollback_log_add entry entries = entries @ [entry]"

definition rollback_log_list_for_execution ::
  "rollback_log_entry list \<Rightarrow> pystr \<times> pystr \<Rightarrow> rollback_log_entry list" where
  [store_defs]: "rollback_log_list_for_execution entries k =
     filter (\<lambda>e. (rb_firm_id e, rb_execution_id e) = k) entries"

interpretation rollback_log: journal rollback_log_add id "\<lambda>e. (rb_firm_id e, rb_execution_id e)"
    rollback_log_list_for_execution
  by unfold_locales (simp_all add: store_defs)

type_synonym 'w rollback_handler = "action \<Rightarrow> string_map \<Rightarrow> 'w \<Rightarrow> rollback_result result \<times> 'w"

record 'w rollback_engine =
  rbe_entries :: "rollback_log_entry list"
  rbe_handlers :: "(pystr, 'w rollback_handler) dict"

definition rollback_engine_init :: "(pystr \<times> 'w rollback_handler) list \<Rightarrow> 'w rollback_engine" where
  "rollback_engine_init handlers =
     \<lparr>rbe_entries = [], rbe_handlers = fold (\<lambda>(ty, h). dict_set ty h) handlers []\<rparr>"

definition register_rollback_handler ::
  "pystr \<Rightarrow> 'w rollback_handler \<Rightarrow> 'w rollback_engine \<Rightarrow> 'w rollback_engine" where
  "register_rollback_handler ty h e = e\<lparr>rbe_handlers := dict_set ty h (rbe_handlers e)\<rparr>"

definition rollback_action ::
  "pystr \<Rightarrow> datetime \<Rightarrow> pystr \<Rightarrow> pystr \<Rightarrow> action \<Rightarrow> string_map \<Rightarrow> 'w rollback_engine \<Rightarrow> 'w
     \<Rightarrow> rollback_result \<times> 'w rollback_engine \<times> 'w" where
  "rollback_action new_id now firm execution_id act ctx e w =
     (let (res, w') =
            (case dict_get (rbe_handlers e) (ac_action_type act) of
               None \<Rightarrow> (\<lparr>rr_compensated = False,
                         rr_detail = ''No rollback handler registered for '' @ py_repr (ac_action_type act)\<rparr>, w)
             | Some handler \<Rightarrow>
                 (case handler act ctx w of
                    (Inr r, v) \<Rightarrow> (r, v)
                  | (Inl exc, v) \<Rightarrow> (\<lparr>rr_compensated = False, rr_detail = exn_str exc\<rparr>, v)));
          entry = \<lparr>rb_id = new_id, rb_firm_id = firm, rb_execution_id = execution_id,
                   rb_action_id = ac_id act, rb_action_type = ac_action_type act,
                   rb_result = res, rb_executed_at = now\<rparr>
      in (res, e\<lparr>rbe_entries := rollback_log_add entry (rbe_entries e)\<rparr>, w'))"

definition rollback_history_for_execution :: "pystr \<Rightarrow> pystr \<Rightarrow> 'w rollback_engine \<Rightarrow> rollback_log_entry list" where
  "rollback_history_for_execution firm execution_id e =
     rollback_log_list_for_execution (rbe_entries e) (firm, execution_id)"

section \<open>Retry\<close>

text \<open>
  The policy awaits an operation, a computation over a state \<open>'s\<close> that may raise, until it
  returns or the attempts are used up. \<open>retry_loop\<close> is the loop from attempt number \<open>attempt\<close>
  with \<open>left\<close> attempts to go; besides the outcome it returns the delays it slept, in seconds.
\<close>

record retry_policy =
  rp_max_attempts :: int
  rp_base_delay_seconds :: pyfloat

definition default_retry_policy :: retry_policy where
  "default_retry_policy = \<lparr>rp_max_attempts = 3, rp_base_delay_seconds = round64 (1 / 10)\<rparr>"

fun retry_loop ::
  "retry_policy \<Rightarrow> ('s \<Rightarrow> 'a result \<times> 's) \<Rightarrow> nat \<Rightarrow> nat \<Rightarrow> pyexn option \<Rightarrow> 's
     \<Rightarrow> 'a result \<times> pyfloat list \<times> 's" where
  "retry_loop p operation attempt 0 last_error s =
     ((case last_error of None \<Rightarrow> Inl AssertionError | Some exc \<Rightarrow> Inl exc), [], s)"
| "retry_loop p operation attempt (Suc left) last_error s =
     (case operation s of
        (Inr x, s') \<Rightarrow> (Inr x, [], s')
      | (Inl exc, s') \<Rightarrow>
          (if int attempt < rp_max_attempts p - 1
           then (case flt_of_int (2 ^ attempt) of
                   Inl overflow \<Rightarrow> (Inl overflow, [], s')
                 | Inr factor \<Rightarrow>
                     (let (res, delays, s'') = retry_loop p operation (Suc attempt) left (Some exc) s'
                      in (res, flt_mul (rp_base_delay_seconds p) factor # delays, s'')))
           else retry_loop p operation (Suc attempt) left (Some exc) s'))"

definition retry_run ::
  "retry_policy \<Rightarrow> ('s \<Rightarrow> 'a result \<times> 's) \<Rightarrow> 's \<Rightarrow> 'a result \<times> pyfloat list \<times> 's" where
  "retry_run p operation s = retry_loop p operation 0 (nat (rp_max_attempts p)) None s"

text \<open>The state before the \<open>n\<close>-th attempt (from 0), had all the attempts before it been made.\<close>

fun before_attempt :: "('s \<Rightarrow> 'a result \<times> 's) \<Rightarrow> nat \<Rightarrow> 's \<Rightarrow> 's" where
  "before_attempt operation 0 s = s"
| "before_attempt operation (Suc n) s = before_attempt operation n (snd (operation s))"

lemma before_attempt_Suc_right:
  "before_attempt operation (Suc n) s = snd (operation (before_attempt operation n s))"
  by (induction n arbitrary: s) simp_all

definition backoff :: "retry_policy \<Rightarrow> nat \<Rightarrow> nat \<Rightarrow> pyfloat list" where
  "backoff p from n = map (\<lambda>k. flt_mul (rp_base_delay_seconds p) (Fin (2 ^ k))) [from..<from + n]"

lemma backoff_Suc:
  "backoff p a (Suc n) = flt_mul (rp_base_delay_seconds p) (Fin (2 ^ a)) # backoff p (Suc a) n"
  by (simp add: backoff_def upt_conv_Cons del: upt_Suc)

lemma retry_loop_success:
  assumes "int (attempt + left) = rp_max_attempts p" and "n < left" and "attempt + n \<le> 1024"
    and "\<forall>k < n. isl (fst (operation (before_attempt operation k s)))"
    and "operation (before_attempt operation n s) = (Inr x, s')"
  shows "retry_loop p operation attempt left e s = (Inr x, backoff p attempt n, s')"
  using assms
proof (induction left arbitrary: attempt n e s)
  case (Suc left)
  show ?case
  proof (cases n)
    case 0
    with Suc.prems show ?thesis by (simp add: backoff_def)
  next
    case (Suc m)
    with Suc.prems(4) obtain exc s1 where op: "operation s = (Inl exc, s1)"
      by (cases "operation s"; cases "fst (operation s)") force+
    have "retry_loop p operation (Suc attempt) left (Some exc) s1 = (Inr x, backoff p (Suc attempt) m, s')"
    proof (rule Suc.IH)
      show "int (Suc attempt + left) = rp_max_attempts p" using Suc.prems(1) by simp
      show "m < left" using Suc.prems(2) Suc by simp
      show "Suc attempt + m \<le> 1024" using Suc.prems(3) Suc by simp
      show "\<forall>k<m. isl (fst (operation (before_attempt operation k s1)))"
        using Suc.prems(4) op Suc by (metis Suc_less_eq before_attempt.simps(2) snd_conv)
      show "operation (before_attempt operation m s1) = (Inr x, s')" using Suc.prems(5) op Suc by simp
    qed
    moreover have "int attempt < rp_max_attempts p - 1" using Suc.prems(1,2) Suc by linarith
    moreover have "attempt < 1024" using Suc.prems(3) Suc by simp
    ultimately show ?thesis using op Suc by (simp add: backoff_Suc flt_of_int_pow2)
  qed
qed simp

lemma retry_loop_failure:
  assumes "int (attempt + Suc left) = rp_max_attempts p" and "attempt + left \<le> 1024"
    and "\<forall>k \<le> left. isl (fst (operation (before_attempt operation k s)))"
    and "operation (before_attempt operation left s) = (Inl exc, s')"
  shows "retry_loop p operation attempt (Suc left) e s = (Inl exc, backoff p attempt left, s')"
  using assms
proof (induction left arbitrary: attempt e s)
  case 0
  then show ?case by (simp add: backoff_def)
next
  case (Suc left)
  from Suc.prems(3) obtain exc1 s1 where op: "operation s = (Inl exc1, s1)"
    by (cases "operation s"; cases "fst (operation s)") force+
  have "retry_loop p operation (Suc attempt) (Suc left) (Some exc1) s1 = (Inl exc, backoff p (Suc attempt) left, s')"
  proof (rule Suc.IH)
    show "Suc attempt + left \<le> 1024" using Suc.prems(2) by simp
    show "int (Suc attempt + Suc left) = rp_max_attempts p" using Suc.prems(1) by simp
    show "\<forall>k\<le>left. isl (fst (operation (before_attempt operation k s1)))"
      using Suc.prems(3) op by (metis Suc_le_mono before_attempt.simps(2) snd_conv)
    show "operation (before_attempt operation left s1) = (Inl exc, s')" using Suc.prems(4) op by simp
  qed
  moreover have "int attempt < rp_max_attempts p - 1" using Suc.prems(1) by linarith
  moreover have "attempt < 1024" using Suc.prems(2) by simp
  ultimately show ?case using op by (simp add: backoff_Suc flt_of_int_pow2)
qed

text \<open>A property of the state that every attempt keeps is kept by the whole run.\<close>

lemma retry_loop_invariant:
  assumes "\<And>s. I s \<Longrightarrow> I (snd (operation s))" and "I s"
  shows "I (snd (snd (retry_loop p operation attempt left e s)))"
  using assms(2)
proof (induction left arbitrary: attempt e s)
  case (Suc left)
  obtain res s' where op: "operation s = (res, s')" by (cases "operation s")
  then have "I s'" using assms(1) [OF Suc.prems] by simp
  from Suc.IH [OF this] show ?case
    using \<open>I s'\<close> op by (cases res) (auto simp: split_beta split: sum.split)
qed simp

lemma retry_loop_result:
  assumes "\<And>s x s'. operation s = (Inr x, s') \<Longrightarrow> I s \<Longrightarrow> Q x s'" and "\<And>s. I s \<Longrightarrow> I (snd (operation s))" and "I s"
    and "retry_loop p operation attempt left e s = (Inr x, delays, s')"
  shows "Q x s'"
  using assms(3,4)
proof (induction left arbitrary: attempt e s delays)
  case 0
  then show ?case by (cases e) simp_all
next
  case (Suc left)
  obtain res s1 where op: "operation s = (res, s1)" by (cases "operation s")
  then have I: "I s1" using assms(2) [OF Suc.prems(1)] by simp
  show ?case
  proof (cases res)
    case (Inl exc)
    obtain r ds s2 where rec: "retry_loop p operation (Suc attempt) left (Some exc) s1 = (r, ds, s2)"
      by (rule prod_cases3)
    have "r = Inr x \<and> s2 = s'"
      using Suc.prems(2) op Inl rec by (auto split: if_splits sum.splits)
    with Suc.IH [OF I] rec show ?thesis by blast
  next
    case (Inr y)
    with Suc.prems op assms(1) show ?thesis by simp
  qed
qed

section \<open>Integrations\<close>

record integration_result =
  ir_success :: bool
  ir_detail :: pystr
  ir_output :: string_map

type_synonym 'c integration_registry = "(pystr, 'c) dict"

definition register_integration :: "pystr \<Rightarrow> 'c \<Rightarrow> 'c integration_registry \<Rightarrow> 'c integration_registry" where
  "register_integration name connector r = dict_set name connector r"

definition get_integration :: "pystr \<Rightarrow> 'c integration_registry \<Rightarrow> 'c result" where
  "get_integration name r =
     (case dict_get r name of None \<Rightarrow> Inl (UnknownIntegrationError name) | Some c \<Rightarrow> Inr c)"

definition list_integration_names :: "'c integration_registry \<Rightarrow> pystr list" where
  "list_integration_names r = dict_keys r"

lemma register_integration_order:
  "list_integration_names (register_integration name c r) =
     (if name \<in> set (list_integration_names r) then list_integration_names r
      else list_integration_names r @ [name])"
  by (induction r) (auto simp: register_integration_def list_integration_names_def)

section \<open>Properties\<close>

text \<open>
  Every execution of an action is journaled, success or failure: with a handler for its
  type, executing never raises, appends exactly one entry, for this firm, execution and action,
  whose result is the one returned, and an exception of the handler is reported in it as a
  failure carrying its text; the firm's history of the execution grows by that entry and every
  other history is unchanged. Without a handler it raises, runs nothing and journals nothing.
\<close>

theorem execute_action_journaled:
  "case dict_get (ae_handlers e) (ac_action_type act) of
     None \<Rightarrow> execute_action i t firm x act ctx e w = (Inl (UnknownActionTypeError (ac_action_type act)), e, w)
   | Some handler \<Rightarrow>
       (\<exists>r entry e'. execute_action i t firm x act ctx e w = (Inr r, e', snd (handler act ctx w)) \<and>
          (case fst (handler act ctx w) of
             Inr r' \<Rightarrow> r = r' | Inl exc \<Rightarrow> \<not> ar_success r \<and> ar_detail r = exn_str exc) \<and>
          al_result entry = r \<and> al_action_id entry = ac_id act \<and>
          (\<forall>f y. action_history_for_execution f y e' =
             action_history_for_execution f y e @ (if (f, y) = (firm, x) then [entry] else [])))"
proof (cases "dict_get (ae_handlers e) (ac_action_type act)")
  case None
  then show ?thesis by (simp add: execute_action_unknown)
next
  case (Some handler)
  let ?r = "handler_result (fst (handler act ctx w))"
  let ?entry = "\<lparr>al_id = i, al_firm_id = firm, al_execution_id = x, al_action_id = ac_id act,
           al_action_type = ac_action_type act, al_result = ?r, al_executed_at = t\<rparr>"
  let ?e = "e\<lparr>ae_entries := ae_entries e @ [?entry]\<rparr>"
  have "action_history_for_execution f y ?e =
      action_history_for_execution f y e @ (if (f, y) = (firm, x) then [?entry] else [])" for f y
    by (auto simp: action_history_for_execution_def action_log_list_for_execution_def)
  moreover have "case fst (handler act ctx w) of
      Inr r' \<Rightarrow> ?r = r' | Inl exc \<Rightarrow> \<not> ar_success ?r \<and> ar_detail ?r = exn_str exc"
    by (cases "fst (handler act ctx w)") simp_all
  ultimately show ?thesis
    unfolding Some option.case execute_action_known [OF Some]
    by (intro exI [of _ ?r] exI [of _ ?entry] exI [of _ ?e] conjI allI refl) simp_all
qed

text \<open>
  A rollback never fails silently: it always returns and always appends exactly one entry
  to the log of this firm and execution, holding the result returned; with no handler for the
  action's type the result says so, nothing outside is touched and the action counts as not
  compensated, and an exception of the handler is an uncompensated result with its text.
\<close>

theorem rollback_journaled:
  "\<exists>r entry e' w'. rollback_action i t firm x act ctx e w = (r, e', w') \<and>
     rb_result entry = r \<and> rb_action_id entry = ac_id act \<and> rb_action_type entry = ac_action_type act \<and>
     (\<forall>f y. rollback_history_for_execution f y e' =
        rollback_history_for_execution f y e @ (if (f, y) = (firm, x) then [entry] else [])) \<and>
     (case dict_get (rbe_handlers e) (ac_action_type act) of
        None \<Rightarrow> \<not> rr_compensated r \<and> w' = w \<and> rr_detail r \<noteq> []
      | Some handler \<Rightarrow> w' = snd (handler act ctx w) \<and>
          (case fst (handler act ctx w) of
             Inr r' \<Rightarrow> r = r' | Inl exc \<Rightarrow> \<not> rr_compensated r \<and> rr_detail r = exn_str exc))"
proof -
  obtain r w' where res: "(case dict_get (rbe_handlers e) (ac_action_type act) of
               None \<Rightarrow> (\<lparr>rr_compensated = False,
                         rr_detail = ''No rollback handler registered for '' @ py_repr (ac_action_type act)\<rparr>, w)
             | Some handler \<Rightarrow>
                 (case handler act ctx w of
                    (Inr r, v) \<Rightarrow> (r, v)
                  | (Inl exc, v) \<Rightarrow> (\<lparr>rr_compensated = False, rr_detail = exn_str exc\<rparr>, v))) = (r, w')"
    (is "?run = _") by (cases ?run)
  let ?entry = "\<lparr>rb_id = i, rb_firm_id = firm, rb_execution_id = x, rb_action_id = ac_id act,
      rb_action_type = ac_action_type act, rb_result = r, rb_executed_at = t\<rparr>"
  have "rollback_action i t firm x act ctx e w = (r, e\<lparr>rbe_entries := rbe_entries e @ [?entry]\<rparr>, w')"
    by (simp add: rollback_action_def res rollback_log_add_def)
  moreover have "rollback_history_for_execution f y (e\<lparr>rbe_entries := rbe_entries e @ [?entry]\<rparr>) =
      rollback_history_for_execution f y e @ (if (f, y) = (firm, x) then [?entry] else [])" for f y
    by (auto simp: rollback_history_for_execution_def rollback_log_list_for_execution_def)
  moreover have "case dict_get (rbe_handlers e) (ac_action_type act) of
        None \<Rightarrow> \<not> rr_compensated r \<and> w' = w \<and> rr_detail r \<noteq> []
      | Some handler \<Rightarrow> w' = snd (handler act ctx w) \<and>
          (case fst (handler act ctx w) of
             Inr r' \<Rightarrow> r = r' | Inl exc \<Rightarrow> \<not> rr_compensated r \<and> rr_detail r = exn_str exc)"
    using res by (auto split: option.splits prod.splits sum.splits)
  ultimately show ?thesis
    by (intro exI [of _ r] exI [of _ ?entry] exI [of _ "e\<lparr>rbe_entries := rbe_entries e @ [?entry]\<rparr>"]
          exI [of _ w'] conjI allI) simp_all
qed

text \<open>
  The retry policy is exact. If the attempt number \<open>n\<close> (from 0, below the maximum) is the
  first that returns, its value is the result, the operation was called \<open>n + 1\<close> times and the
  policy slept \<open>base * 2^k\<close> seconds after each failure \<open>k < n\<close>. If all attempts fail (and there
  is at least one), the error of the last one is raised after one sleep fewer than attempts.
  (Beyond 1024 failures the factor \<open>2^k\<close> no longer fits a float.)
  With a maximum below one the operation is never called and the policy's own assertion fails.
\<close>

theorem retry_run_exact:
  "(\<forall>n x s'. int n < rp_max_attempts p \<and> n \<le> 1024 \<and>
      (\<forall>k < n. isl (fst (operation (before_attempt operation k s)))) \<and>
      operation (before_attempt operation n s) = (Inr x, s') \<longrightarrow>
        retry_run p operation s = (Inr x, backoff p 0 n, s')) \<and>
   (\<forall>n exc s'. rp_max_attempts p = int n + 1 \<and> n \<le> 1024 \<and>
      (\<forall>k \<le> n. isl (fst (operation (before_attempt operation k s)))) \<and>
      operation (before_attempt operation n s) = (Inl exc, s') \<longrightarrow>
        retry_run p operation s = (Inl exc, backoff p 0 n, s')) \<and>
   (rp_max_attempts p \<le> 0 \<longrightarrow> retry_run p operation s = (Inl AssertionError, [], s))"
proof (intro conjI allI impI; (elim conjE)?)
  fix n x s'
  assume "int n < rp_max_attempts p" "n \<le> 1024" "\<forall>k < n. isl (fst (operation (before_attempt operation k s)))"
    "operation (before_attempt operation n s) = (Inr x, s')"
  then show "retry_run p operation s = (Inr x, backoff p 0 n, s')"
    unfolding retry_run_def by (intro retry_loop_success) auto
next
  fix n exc s'
  assume max: "rp_max_attempts p = int n + 1" "n \<le> 1024"
    and fails: "\<forall>k \<le> n. isl (fst (operation (before_attempt operation k s)))"
      "operation (before_attempt operation n s) = (Inl exc, s')"
  have "nat (rp_max_attempts p) = Suc n" using max(1) by simp
  then show "retry_run p operation s = (Inl exc, backoff p 0 n, s')"
    unfolding retry_run_def using max fails by (simp only:) (rule retry_loop_failure, simp_all)
qed (simp add: retry_run_def)

lemma retry_run_exact_witness:
  "retry_run \<lparr>rp_max_attempts = 3, rp_base_delay_seconds = Fin 0\<rparr>
      (\<lambda>n::nat. (if n < 2 then Inl TimeoutError else Inr n, Suc n)) 0 =
     (Inr 2, backoff \<lparr>rp_max_attempts = 3, rp_base_delay_seconds = Fin 0\<rparr> 0 2, 3)"
proof (rule retry_run_exact [THEN conjunct1, rule_format], intro conjI allI impI)
  fix k :: nat assume "k < 2"
  then have "k = 0 \<or> k = 1" by linarith
  then show "isl (fst ((\<lambda>n::nat. (if n < 2 then Inl TimeoutError else Inr n, Suc n))
      (before_attempt (\<lambda>n::nat. (if n < 2 then Inl TimeoutError else Inr n, Suc n)) k 0)))"
    by auto
qed (simp_all add: eval_nat_numeral)

end
