(* ===== verification/Workflows.thy ===== *)
theory Workflows
  imports Conditions Triggers Actions
begin

text \<open>
  \<^verbatim>\<open>workflow_automation/workflow_engine\<close>: the versioned workflow definitions, their store and
  the engine that creates, versions, activates and archives them. Fresh identifiers and the
  clock reading of \<open>created_at\<close> are arguments; an operation that changes an object the store
  holds writes the changed object back under the same key.
\<close>

section \<open>Workflows\<close>

datatype workflow_status = WS_DRAFT | WS_ACTIVE | WS_ARCHIVED

record workflow_step =
  st_order :: int
  st_name :: pystr
  st_action :: action
  st_condition :: "condition option"
  st_parallel_group :: "pystr option"

record workflow =
  wk_id :: pystr
  wk_workflow_key :: pystr
  wk_firm_id :: pystr
  wk_name :: pystr
  wk_version :: int
  wk_owner :: pystr
  wk_description :: pystr
  wk_triggers :: "trigger list"
  wk_conditions :: "condition list"
  wk_steps :: "workflow_step list"
  wk_status :: workflow_status
  wk_created_at :: datetime

definition workflow_row_key :: "workflow \<Rightarrow> pystr \<times> pystr" where
  "workflow_row_key v = (wk_firm_id v, wk_id v)"

type_synonym workflow_store = "(pystr \<times> pystr, workflow) dict"

definition workflow_store_add :: "workflow \<Rightarrow> workflow_store \<Rightarrow> workflow_store" where
  [store_defs]: "workflow_store_add v s = dict_set (workflow_row_key v) v s"

definition workflow_store_get :: "workflow_store \<Rightarrow> pystr \<times> pystr \<Rightarrow> workflow option" where
  [store_defs]: "workflow_store_get s k = dict_get s k"

definition workflow_store_list_for_firm :: "workflow_store \<Rightarrow> pystr \<Rightarrow> workflow list" where
  [store_defs]: "workflow_store_list_for_firm s firm = rows_by_key s firm"

definition workflow_store_list_versions :: "workflow_store \<Rightarrow> pystr \<Rightarrow> pystr \<Rightarrow> workflow list" where
  "workflow_store_list_versions s firm key =
     sort_key wk_version (filter (\<lambda>v. wk_workflow_key v = key) (workflow_store_list_for_firm s firm))"

definition workflow_store_ok :: "workflow_store \<Rightarrow> bool" where
  [store_defs]: "workflow_store_ok = keyed workflow_row_key"

interpretation workflow_rows: tenant_store workflow_row_key workflow_store_add workflow_store_get
    workflow_store_ok workflow_store_list_for_firm
  using tenant_store_dict [of workflow_row_key]
  by (simp add: store_defs workflow_store_add_def [abs_def] workflow_store_get_def [abs_def]
      workflow_store_list_for_firm_def [abs_def])

section \<open>The engine\<close>

definition create_workflow ::
  "pystr \<Rightarrow> pystr \<Rightarrow> datetime \<Rightarrow> pystr \<Rightarrow> pystr \<Rightarrow> pystr \<Rightarrow> pystr \<Rightarrow> trigger list \<Rightarrow> condition list
     \<Rightarrow> workflow_step list \<Rightarrow> workflow_store \<Rightarrow> workflow \<times> workflow_store" where
  "create_workflow new_id new_key now firm name owner description triggers conditions steps s =
     (let v = \<lparr>wk_id = new_id, wk_workflow_key = new_key, wk_firm_id = firm, wk_name = name,
               wk_version = 1, wk_owner = owner, wk_description = description,
               wk_triggers = triggers, wk_conditions = conditions, wk_steps = steps,
               wk_status = WS_DRAFT, wk_created_at = now\<rparr>
      in (v, workflow_store_add v s))"

fun default_to :: "'a option \<Rightarrow> 'a \<Rightarrow> 'a" where
  "default_to None d = d"
| "default_to (Some x) d = x"

definition new_workflow_version ::
  "pystr \<Rightarrow> datetime \<Rightarrow> pystr \<Rightarrow> pystr \<Rightarrow> pystr \<Rightarrow> pystr option \<Rightarrow> trigger list option
     \<Rightarrow> condition list option \<Rightarrow> workflow_step list option \<Rightarrow> workflow_store
     \<Rightarrow> (workflow \<times> workflow_store) result" where
  "new_workflow_version new_id now firm key owner description triggers conditions steps s =
     (let versions = workflow_store_list_versions s firm key
      in if versions = [] then Inl (KeyError key)
         else
           (let latest = last versions;
                v = \<lparr>wk_id = new_id, wk_workflow_key = key, wk_firm_id = firm, wk_name = wk_name latest,
                     wk_version = wk_version latest + 1, wk_owner = owner,
                     wk_description = default_to description (wk_description latest),
                     wk_triggers = default_to triggers (wk_triggers latest),
                     wk_conditions = default_to conditions (wk_conditions latest),
                     wk_steps = default_to steps (wk_steps latest),
                     wk_status = WS_DRAFT, wk_created_at = now\<rparr>
            in Inr (v, workflow_store_add v s)))"

definition get_workflow :: "pystr \<Rightarrow> pystr \<Rightarrow> workflow_store \<Rightarrow> workflow result" where
  "get_workflow firm workflow_id s =
     (case workflow_store_get s (firm, workflow_id) of
        None \<Rightarrow> Inl (KeyError workflow_id)
      | Some v \<Rightarrow> Inr v)"

definition list_workflow_versions :: "pystr \<Rightarrow> pystr \<Rightarrow> workflow_store \<Rightarrow> workflow list" where
  "list_workflow_versions firm key s = workflow_store_list_versions s firm key"

definition get_active_workflow :: "pystr \<Rightarrow> pystr \<Rightarrow> workflow_store \<Rightarrow> workflow option" where
  "get_active_workflow firm key s =
     List.find (\<lambda>v. wk_status v = WS_ACTIVE) (workflow_store_list_versions s firm key)"

definition activate_workflow ::
  "pystr \<Rightarrow> pystr \<Rightarrow> workflow_store \<Rightarrow> (workflow \<times> workflow_store) result" where
  "activate_workflow firm workflow_id s =
     res_bind (get_workflow firm workflow_id s) (\<lambda>v.
       let previous_active = get_active_workflow firm (wk_workflow_key v) s;
           s1 = (case previous_active of
                   Some p \<Rightarrow> if wk_id p \<noteq> wk_id v
                             then workflow_store_add (p\<lparr>wk_status := WS_ARCHIVED\<rparr>) s else s
                 | None \<Rightarrow> s);
           v' = v\<lparr>wk_status := WS_ACTIVE\<rparr>
       in Inr (v', workflow_store_add v' s1))"

definition archive_workflow ::
  "pystr \<Rightarrow> pystr \<Rightarrow> workflow_store \<Rightarrow> (workflow \<times> workflow_store) result" where
  "archive_workflow firm workflow_id s =
     res_bind (get_workflow firm workflow_id s) (\<lambda>v.
       let v' = v\<lparr>wk_status := WS_ARCHIVED\<rparr> in Inr (v', workflow_store_add v' s))"

section \<open>The invariant\<close>

text \<open>
  Every reachable store is keyed, numbers the versions of each workflow \<open>1, 2, ..., n\<close>, and
  holds at most one active version of each workflow.
\<close>

definition versions_numbered :: "workflow_store \<Rightarrow> bool" where
  "versions_numbered s \<longleftrightarrow>
     (\<forall>f k. numbered wk_version (list_workflow_versions f k s))"

definition one_active :: "workflow_store \<Rightarrow> bool" where
  "one_active s \<longleftrightarrow>
     (\<forall>f. \<forall>v \<in> set (workflow_store_list_for_firm s f). \<forall>u \<in> set (workflow_store_list_for_firm s f).
        wk_workflow_key v = wk_workflow_key u \<and> wk_status v = WS_ACTIVE \<and> wk_status u = WS_ACTIVE \<longrightarrow> v = u)"

definition workflows_ok :: "workflow_store \<Rightarrow> bool" where
  "workflows_ok s \<longleftrightarrow> workflow_store_ok s \<and> versions_numbered s \<and> one_active s"

lemma versions_iff:
  "v \<in> set (list_workflow_versions f k s) \<longleftrightarrow> v \<in> set (workflow_store_list_for_firm s f) \<and> wk_workflow_key v = k"
  by (auto simp: list_workflow_versions_def workflow_store_list_versions_def)

lemma workflow_rows_iff:
  "workflow_store_ok s \<Longrightarrow> v \<in> set (workflow_store_list_for_firm s f) \<longleftrightarrow>
     wk_firm_id v = f \<and> workflow_store_get s (f, wk_id v) = Some v"
  by (auto simp: workflow_rows.rows_iff workflow_row_key_def)

lemma workflow_get_key:
  "workflow_store_ok s \<Longrightarrow> workflow_store_get s (f, i) = Some v \<Longrightarrow> wk_firm_id v = f \<and> wk_id v = i"
  using workflow_rows.get_key [of s "(f, i)" v] by (auto simp: workflow_row_key_def)

text \<open>Adding a new object and replacing an old one by one that only changes status.\<close>

lemma versions_add_new:
  assumes ok: "workflow_store_ok s" and fresh: "workflow_store_get s (workflow_row_key v) = None"
    and newest: "\<And>u. u \<in> set (list_workflow_versions (wk_firm_id v) (wk_workflow_key v) s) \<Longrightarrow> wk_version u \<le> wk_version v"
  shows "list_workflow_versions f k (workflow_store_add v s) =
     list_workflow_versions f k s @ (if f = wk_firm_id v \<and> k = wk_workflow_key v then [v] else [])"
proof (cases "f = wk_firm_id v")
  case True
  have "workflow_store_list_for_firm (workflow_store_add v s) f = workflow_store_list_for_firm s f @ [v]"
    using workflow_rows.rows_put_new [OF ok fresh] by (simp add: True workflow_row_key_def)
  then show ?thesis
    using newest True
    by (auto simp: list_workflow_versions_def workflow_store_list_versions_def intro!: sort_key_append_max)
next
  case False
  then show ?thesis
    using workflow_rows.rows_put_other [OF ok, of v f]
    by (simp add: list_workflow_versions_def workflow_store_list_versions_def workflow_row_key_def)
qed

lemma versions_restatus:
  assumes ok: "workflow_store_ok s" and old: "workflow_store_get s (f, i) = Some v"
  shows "list_workflow_versions f' k (workflow_store_add (v\<lparr>wk_status := st\<rparr>) s) =
     map (\<lambda>u. if u = v then v\<lparr>wk_status := st\<rparr> else u) (list_workflow_versions f' k s)"
proof -
  let ?v' = "v\<lparr>wk_status := st\<rparr>"
  have key: "workflow_row_key ?v' = (f, i)" and v: "wk_firm_id v = f" "wk_id v = i"
    using workflow_get_key [OF ok old] by (auto simp: workflow_row_key_def)
  have rows: "workflow_store_list_for_firm (workflow_store_add ?v' s) f' =
      map (\<lambda>u. if u = v then ?v' else u) (workflow_store_list_for_firm s f')"
  proof (cases "f' = f")
    case True
    have "workflow_store_list_for_firm (workflow_store_add ?v' s) f =
        map (\<lambda>u. if workflow_row_key u = (f, i) then ?v' else u) (workflow_store_list_for_firm s f)"
      using workflow_rows.rows_put_old [OF ok, of ?v' v] old key by simp
    also have "\<dots> = map (\<lambda>u. if u = v then ?v' else u) (workflow_store_list_for_firm s f)"
      using old v by (auto simp: workflow_rows_iff [OF ok] workflow_row_key_def)
    finally show ?thesis using True by simp
  next
    case False
    then have "workflow_store_list_for_firm (workflow_store_add ?v' s) f' = workflow_store_list_for_firm s f'"
      using workflow_rows.rows_put_other [OF ok, of ?v' f'] key by simp
    moreover have "u \<noteq> v" if "u \<in> set (workflow_store_list_for_firm s f')" for u
      using that False v by (auto simp: workflow_rows_iff [OF ok])
    ultimately show ?thesis by (simp add: map_idI)
  qed
  have "filter (\<lambda>u. wk_workflow_key u = k) (map (\<lambda>u. if u = v then ?v' else u) us) =
      map (\<lambda>u. if u = v then ?v' else u) (filter (\<lambda>u. wk_workflow_key u = k) us)" for us
    by (induction us) auto
  then show ?thesis
    unfolding list_workflow_versions_def workflow_store_list_versions_def rows
    by (simp add: sort_key_map_same)
qed

lemma restatus_numbered:
  assumes "workflow_store_ok s" and "workflow_store_get s (f, i) = Some v" and "versions_numbered s"
  shows "versions_numbered (workflow_store_add (v\<lparr>wk_status := st\<rparr>) s)"
proof -
  let ?g = "\<lambda>u. if u = v then v\<lparr>wk_status := st\<rparr> else u"
  have same: "map wk_version (map ?g us) = map wk_version us" for us by simp
  show ?thesis
    unfolding versions_numbered_def numbered_def versions_restatus [OF assms(1,2)] length_map same
    using assms(3) unfolding versions_numbered_def numbered_def .
qed

lemma rows_restatus_iff:
  assumes "workflow_store_ok s" and "workflow_store_get s (f, i) = Some v"
  shows "x \<in> set (workflow_store_list_for_firm (workflow_store_add (v\<lparr>wk_status := st\<rparr>) s) f') \<longleftrightarrow>
     (if f' = f \<and> wk_firm_id x = f \<and> wk_id x = i then x = v\<lparr>wk_status := st\<rparr>
      else x \<in> set (workflow_store_list_for_firm s f'))"
  using workflow_rows.rows_member_put [OF assms(1), of x "v\<lparr>wk_status := st\<rparr>" f']
    workflow_get_key [OF assms]
  by (auto simp: workflow_row_key_def workflow_rows_iff [OF assms(1)] split: if_splits)

lemma last_version:
  assumes "versions_numbered s" and "list_workflow_versions f k s \<noteq> []"
  shows "wk_version (last (list_workflow_versions f k s)) = int (length (list_workflow_versions f k s))"
    and "u \<in> set (list_workflow_versions f k s) \<Longrightarrow> wk_version u \<le> int (length (list_workflow_versions f k s))"
  using assms numbered_last numbered_le [of wk_version "list_workflow_versions f k s" u]
  by (auto simp: versions_numbered_def)

lemma add_draft_ok:
  assumes "workflows_ok s" and "workflow_store_get s (workflow_row_key v) = None"
    and "wk_status v = WS_DRAFT"
    and "wk_version v = int (length (list_workflow_versions (wk_firm_id v) (wk_workflow_key v) s)) + 1"
  shows "workflows_ok (workflow_store_add v s)"
proof -
  have ok: "workflow_store_ok s" and num: "versions_numbered s" and one: "one_active s"
    using assms(1) by (auto simp: workflows_ok_def)
  have newest: "wk_version u \<le> wk_version v"
    if "u \<in> set (list_workflow_versions (wk_firm_id v) (wk_workflow_key v) s)" for u
  proof -
    from that have "list_workflow_versions (wk_firm_id v) (wk_workflow_key v) s \<noteq> []" by auto
    from last_version(2) [OF num this that] show ?thesis using assms(4) by simp
  qed
  have "versions_numbered (workflow_store_add v s)"
    using num assms(4)
    by (auto simp: versions_numbered_def versions_add_new [OF ok assms(2) newest] intro!: numbered_snoc)
  moreover have "one_active (workflow_store_add v s)"
    using one assms(3)
    by (auto simp: one_active_def workflow_rows.rows_member_put [OF ok] split: if_splits)
  ultimately show ?thesis by (simp add: workflows_ok_def workflow_rows.wf_put ok)
qed

lemma restatus_inactive_ok:
  assumes "workflows_ok s" and "workflow_store_get s (f, i) = Some v" and "st \<noteq> WS_ACTIVE"
  shows "workflows_ok (workflow_store_add (v\<lparr>wk_status := st\<rparr>) s)"
proof -
  have ok: "workflow_store_ok s" and num: "versions_numbered s" and one: "one_active s"
    using assms(1) by (auto simp: workflows_ok_def)
  have "one_active (workflow_store_add (v\<lparr>wk_status := st\<rparr>) s)"
    using one assms(3) by (auto simp: one_active_def rows_restatus_iff [OF ok assms(2)] split: if_splits)
  then show ?thesis
    by (simp add: workflows_ok_def workflow_rows.wf_put ok restatus_numbered [OF ok assms(2) num])
qed

lemma get_active_iff:
  assumes "workflows_ok s"
  shows "get_active_workflow f k s = Some p \<longleftrightarrow>
     p \<in> set (list_workflow_versions f k s) \<and> wk_status p = WS_ACTIVE"
proof
  assume "get_active_workflow f k s = Some p"
  then show "p \<in> set (list_workflow_versions f k s) \<and> wk_status p = WS_ACTIVE"
    by (auto simp: get_active_workflow_def list_workflow_versions_def find_Some_iff)
next
  assume p: "p \<in> set (list_workflow_versions f k s) \<and> wk_status p = WS_ACTIVE"
  then obtain q where q: "get_active_workflow f k s = Some q"
    by (cases "get_active_workflow f k s")
       (auto simp: get_active_workflow_def list_workflow_versions_def find_None_iff)
  then have "q \<in> set (list_workflow_versions f k s) \<and> wk_status q = WS_ACTIVE"
    by (auto simp: get_active_workflow_def list_workflow_versions_def find_Some_iff)
  with p assms have "q = p" by (auto simp: workflows_ok_def one_active_def versions_iff)
  with q show "get_active_workflow f k s = Some p" by simp
qed

section \<open>Activation\<close>

text \<open>What activating stores: the version that was active, if another one, archived; this one active.\<close>

definition after_archiving_active :: "pystr \<Rightarrow> workflow \<Rightarrow> workflow_store \<Rightarrow> workflow_store" where
  "after_archiving_active firm v s =
     (case get_active_workflow firm (wk_workflow_key v) s of
        Some p \<Rightarrow> if wk_id p \<noteq> wk_id v then workflow_store_add (p\<lparr>wk_status := WS_ARCHIVED\<rparr>) s else s
      | None \<Rightarrow> s)"

lemma activate_cases:
  "activate_workflow f i s = Inr (v', s') \<longleftrightarrow>
     (\<exists>v. workflow_store_get s (f, i) = Some v \<and> v' = v\<lparr>wk_status := WS_ACTIVE\<rparr> \<and>
          s' = workflow_store_add v' (after_archiving_active f v s))"
  by (auto simp: activate_workflow_def get_workflow_def after_archiving_active_def Let_def
      res_bind_Inr_iff split: option.splits)

lemma active_stored:
  assumes "workflows_ok s" and "get_active_workflow f k s = Some p"
  shows "workflow_store_get s (f, wk_id p) = Some p" and "wk_firm_id p = f" and "wk_workflow_key p = k"
    and "wk_status p = WS_ACTIVE"
  using assms
  by (auto simp: get_active_iff versions_iff workflows_ok_def workflow_rows_iff)

lemma archiving_active:
  assumes ok: "workflows_ok s" and v: "workflow_store_get s (f, i) = Some v"
  shows "workflows_ok (after_archiving_active f v s)"
    and "workflow_store_get (after_archiving_active f v s) (f, i) = Some v"
    and "x \<in> set (workflow_store_list_for_firm (after_archiving_active f v s) f) \<Longrightarrow>
           wk_workflow_key x = wk_workflow_key v \<Longrightarrow> wk_status x = WS_ACTIVE \<Longrightarrow> x = v"
proof -
  let ?s = "after_archiving_active f v s"
  have sok: "workflow_store_ok s" using ok by (simp add: workflows_ok_def)
  have vk: "wk_firm_id v = f" "wk_id v = i" using workflow_get_key [OF sok v] by auto
  have "workflows_ok ?s \<and> workflow_store_get ?s (f, i) = Some v \<and>
    (\<forall>x \<in> set (workflow_store_list_for_firm ?s f).
       wk_workflow_key x = wk_workflow_key v \<and> wk_status x = WS_ACTIVE \<longrightarrow> x = v)"
  proof (cases "get_active_workflow f (wk_workflow_key v) s")
    case None
    then have "\<forall>x \<in> set (workflow_store_list_for_firm s f).
        wk_workflow_key x = wk_workflow_key v \<longrightarrow> wk_status x \<noteq> WS_ACTIVE"
      by (auto simp: get_active_workflow_def find_None_iff workflow_store_list_versions_def)
    with None ok v show ?thesis by (auto simp: after_archiving_active_def)
  next
    case (Some p)
    note p = active_stored [OF ok Some]
    have only: "x = p" if "x \<in> set (workflow_store_list_for_firm s f)" "wk_workflow_key x = wk_workflow_key v"
      "wk_status x = WS_ACTIVE" for x
      using get_active_iff [OF ok, of f "wk_workflow_key v" x] Some that by (simp add: versions_iff)
    show ?thesis
    proof (cases "wk_id p = i")
      case True
      with p(1) v have "p = v" by simp
      with Some True vk ok v only show ?thesis by (auto simp: after_archiving_active_def)
    next
      case False
      then have s: "?s = workflow_store_add (p\<lparr>wk_status := WS_ARCHIVED\<rparr>) s"
        by (simp add: after_archiving_active_def Some vk)
      have "workflow_store_get ?s (f, i) = Some v"
        using False v unfolding s by (simp add: workflow_rows.get_put workflow_row_key_def)
      moreover have "x = v" if "x \<in> set (workflow_store_list_for_firm ?s f)"
        "wk_workflow_key x = wk_workflow_key v" "wk_status x = WS_ACTIVE" for x
        using that only [of x] p
        by (auto simp: s rows_restatus_iff [OF sok p(1)] split: if_splits)
      ultimately show ?thesis
        using restatus_inactive_ok [OF ok p(1), of WS_ARCHIVED] s by auto
    qed
  qed
  then show "workflows_ok ?s" "workflow_store_get ?s (f, i) = Some v"
    "x \<in> set (workflow_store_list_for_firm ?s f) \<Longrightarrow>
       wk_workflow_key x = wk_workflow_key v \<Longrightarrow> wk_status x = WS_ACTIVE \<Longrightarrow> x = v"
    by blast+
qed

lemma activate_ok:
  assumes "workflows_ok s" and "activate_workflow f i s = Inr (v', s')"
  shows "workflows_ok s'"
proof -
  from assms(2) obtain v where v: "workflow_store_get s (f, i) = Some v"
    and s': "s' = workflow_store_add (v\<lparr>wk_status := WS_ACTIVE\<rparr>) (after_archiving_active f v s)"
    by (auto simp: activate_cases)
  let ?s = "after_archiving_active f v s"
  note a = archiving_active [OF assms(1) v]
  have sok: "workflow_store_ok ?s" "versions_numbered ?s" and one: "one_active ?s"
    using a(1) by (auto simp: workflows_ok_def)
  have vk: "wk_firm_id v = f" "wk_id v = i" using workflow_get_key [OF sok(1) a(2)] by auto
  have "one_active s'"
    unfolding one_active_def
  proof (intro allI ballI impI)
    fix g x y
    assume xy: "x \<in> set (workflow_store_list_for_firm s' g)" "y \<in> set (workflow_store_list_for_firm s' g)"
      "wk_workflow_key x = wk_workflow_key y \<and> wk_status x = WS_ACTIVE \<and> wk_status y = WS_ACTIVE"
    note row = rows_restatus_iff [OF sok(1) a(2), of _ WS_ACTIVE g, folded s']
    have new: "z = v\<lparr>wk_status := WS_ACTIVE\<rparr>"
      if "z \<in> set (workflow_store_list_for_firm s' g)" "wk_status z = WS_ACTIVE"
         "wk_workflow_key z = wk_workflow_key v" "g = f" for z
    proof (rule ccontr)
      assume n: "z \<noteq> v\<lparr>wk_status := WS_ACTIVE\<rparr>"
      then have old: "z \<in> set (workflow_store_list_for_firm ?s f)" and "\<not> (wk_firm_id z = f \<and> wk_id z = i)"
        using that row [of z] by (auto split: if_splits)
      moreover have "z = v" using a(3) [OF old that(3,2)] .
      ultimately show False using vk by simp
    qed
    show "x = y"
    proof (cases "g = f \<and> (x = v\<lparr>wk_status := WS_ACTIVE\<rparr> \<or> y = v\<lparr>wk_status := WS_ACTIVE\<rparr>)")
      case True
      then have "wk_workflow_key x = wk_workflow_key v" "wk_workflow_key y = wk_workflow_key v"
        using xy(3) by auto
      with new [of x] new [of y] xy True show ?thesis by simp
    next
      case False
      then have "x \<in> set (workflow_store_list_for_firm ?s g)" "y \<in> set (workflow_store_list_for_firm ?s g)"
        using xy row [of x] row [of y] by (auto split: if_splits)
      with one xy(3) show ?thesis unfolding one_active_def by blast
    qed
  qed
  then show ?thesis
    using restatus_numbered [OF sok(1) a(2) sok(2)]
    by (simp add: workflows_ok_def s' workflow_rows.wf_put sok)
qed

section \<open>Reachable stores\<close>

inductive workflow_trans :: "workflow_store \<Rightarrow> workflow_store \<Rightarrow> bool" where
  Create: "workflow_store_get s (firm, i) = None \<Longrightarrow> list_workflow_versions firm key s = [] \<Longrightarrow>
    create_workflow i key now firm name owner d ts cs sts s = (v, s') \<Longrightarrow> workflow_trans s s'"
| New_version: "workflow_store_get s (firm, i) = None \<Longrightarrow>
    new_workflow_version i now firm key owner d ts cs sts s = Inr (v, s') \<Longrightarrow> workflow_trans s s'"
| Activate: "activate_workflow firm i s = Inr (v, s') \<Longrightarrow> workflow_trans s s'"
| Archive: "archive_workflow firm i s = Inr (v, s') \<Longrightarrow> workflow_trans s s'"

inductive workflow_reachable :: "workflow_store \<Rightarrow> bool" where
  Empty: "workflow_reachable []"
| Trans: "workflow_reachable s \<Longrightarrow> workflow_trans s s' \<Longrightarrow> workflow_reachable s'"

lemma workflows_ok_empty: "workflows_ok []"
  by (simp add: workflows_ok_def versions_numbered_def one_active_def list_workflow_versions_def
      workflow_store_list_versions_def store_defs rows_by_key_def)

lemma workflow_trans_ok: "workflow_trans s s' \<Longrightarrow> workflows_ok s \<Longrightarrow> workflows_ok s'"
proof (induction rule: workflow_trans.induct)
  case (Create s firm i key now name owner d ts cs sts v s')
  then have "s' = workflow_store_add v s" "wk_version v = 1" "wk_status v = WS_DRAFT"
    "workflow_row_key v = (firm, i)" "wk_firm_id v = firm" "wk_workflow_key v = key"
    by (auto simp: create_workflow_def Let_def workflow_row_key_def)
  with Create show ?case by (auto intro!: add_draft_ok)
next
  case (New_version s firm i now key owner d ts cs sts v s')
  from New_version(2) have ne: "list_workflow_versions firm key s \<noteq> []"
    by (auto simp: new_workflow_version_def list_workflow_versions_def Let_def)
  have "versions_numbered s" using New_version.prems by (simp add: workflows_ok_def)
  note last_version(1) [OF this ne]
  moreover from New_version(2) ne have "s' = workflow_store_add v s" "wk_status v = WS_DRAFT"
    "workflow_row_key v = (firm, i)" "wk_firm_id v = firm" "wk_workflow_key v = key"
    "wk_version v = wk_version (last (list_workflow_versions firm key s)) + 1"
    by (auto simp: new_workflow_version_def list_workflow_versions_def Let_def workflow_row_key_def)
  ultimately show ?case using New_version by (auto intro!: add_draft_ok)
next
  case (Activate firm i s v s')
  then show ?case by (blast intro: activate_ok)
next
  case (Archive firm i s v s')
  then obtain u where "workflow_store_get s (firm, i) = Some u"
    and "s' = workflow_store_add (u\<lparr>wk_status := WS_ARCHIVED\<rparr>) s"
    by (auto simp: archive_workflow_def get_workflow_def res_bind_Inr_iff Let_def split: option.splits)
  with Archive.prems show ?case by (auto intro: restatus_inactive_ok)
qed

section \<open>Properties\<close>

text \<open>
  C11. In every store reached from the empty one by creating workflows and versions (with fresh
  identifiers and keys), activating and archiving, the versions of each workflow of each firm
  are numbered 1, 2, ..., n in the order they are listed, and at most one of them is active:
  \<open>get_active\<close> returns exactly it.
\<close>

theorem reachable_versions:
  assumes "workflow_reachable s"
  shows "map wk_version (list_workflow_versions firm key s) =
           map int [1..<Suc (length (list_workflow_versions firm key s))] \<and>
         (\<forall>v. get_active_workflow firm key s = Some v \<longleftrightarrow>
            v \<in> set (list_workflow_versions firm key s) \<and> wk_status v = WS_ACTIVE)"
proof -
  from assms have "workflows_ok s"
    by (induction rule: workflow_reachable.induct) (auto intro: workflows_ok_empty workflow_trans_ok)
  moreover from this have "map wk_version (list_workflow_versions firm key s) =
           map int [1..<Suc (length (list_workflow_versions firm key s))]"
    unfolding workflows_ok_def versions_numbered_def numbered_def by blast
  ultimately show ?thesis using get_active_iff by blast
qed

definition demo_workflows :: workflow_store where
  "demo_workflows =
     snd (projr (activate_workflow ''f'' ''w2''
       (snd (projr (new_workflow_version ''w2'' 1 ''f'' ''k'' ''o'' None None None None
         (snd (projr (activate_workflow ''f'' ''w1''
           (snd (create_workflow ''w1'' ''k'' 0 ''f'' ''n'' ''o'' [] [] [] [] [])))))))))) "

lemma reachable_versions_witness:
  "workflow_reachable demo_workflows \<and>
   map (\<lambda>v. (wk_version v, wk_status v)) (list_workflow_versions ''f'' ''k'' demo_workflows) =
     [(1, WS_ARCHIVED), (2, WS_ACTIVE)] \<and>
   map wk_version (list_workflow_versions ''f'' ''k'' demo_workflows) = map int [1..<3]"
proof -
  note ev = create_workflow_def new_workflow_version_def activate_workflow_def get_workflow_def
    get_active_workflow_def list_workflow_versions_def workflow_store_list_versions_def store_defs
    workflow_row_key_def rows_by_key_def Let_def
  let ?s1 = "snd (create_workflow ''w1'' ''k'' 0 ''f'' ''n'' ''o'' [] [] [] [] [])"
  let ?s2 = "snd (projr (activate_workflow ''f'' ''w1'' ?s1))"
  let ?s3 = "snd (projr (new_workflow_version ''w2'' 1 ''f'' ''k'' ''o'' None None None None ?s2))"
  have t1: "workflow_trans [] ?s1"
    by (rule workflow_trans.Create [of _ "''f''" "''w1''" "''k''" 0 "''n''" "''o''" "[]" "[]" "[]" "[]"])
       (simp_all add: ev)
  have t2: "workflow_trans ?s1 ?s2"
    by (rule workflow_trans.Activate [of "''f''" "''w1''"]) (simp add: ev)
  have t3: "workflow_trans ?s2 ?s3"
    by (rule workflow_trans.New_version [of _ "''f''" "''w2''" 1 "''k''" "''o''" None None None None])
       (simp_all add: ev)
  have t4: "workflow_trans ?s3 demo_workflows"
    by (rule workflow_trans.Activate [of "''f''" "''w2''"]) (simp add: ev demo_workflows_def)
  note trans = workflow_reachable.Trans
  have r: "workflow_reachable demo_workflows"
    by (rule trans [OF trans [OF trans [OF trans [OF workflow_reachable.Empty t1] t2] t3] t4])
  have l: "map (\<lambda>v. (wk_version v, wk_status v)) (list_workflow_versions ''f'' ''k'' demo_workflows) =
      [(1, WS_ARCHIVED), (2, WS_ACTIVE)]"
    by (simp add: demo_workflows_def ev)
  then have "length (list_workflow_versions ''f'' ''k'' demo_workflows) = 2"
    by (metis length_map length_Cons list.size(3) numeral_2_eq_2)
  then show ?thesis
    using r l reachable_versions [OF r, THEN conjunct1, of "''f''" "''k''"] by simp
qed

text \<open>
  Activating a version makes it the active one of its workflow and archives the version
  that was active before it, if there was another; the versions of every other workflow and of
  every other firm are untouched, and no version is lost or renumbered.
\<close>

theorem activate_exact:
  assumes ok: "workflows_ok s" and act: "activate_workflow firm i s = Inr (v, s')"
  shows "get_active_workflow firm (wk_workflow_key v) s' = Some v \<and>
     list_workflow_versions firm (wk_workflow_key v) s' =
       map (\<lambda>u. if wk_id u = i then v
                else if wk_status u = WS_ACTIVE then u\<lparr>wk_status := WS_ARCHIVED\<rparr> else u)
         (list_workflow_versions firm (wk_workflow_key v) s) \<and>
     (\<forall>f k. (f, k) \<noteq> (firm, wk_workflow_key v) \<longrightarrow> list_workflow_versions f k s' = list_workflow_versions f k s)"
proof -
  from act obtain w where w: "workflow_store_get s (firm, i) = Some w" and v: "v = w\<lparr>wk_status := WS_ACTIVE\<rparr>"
    and s': "s' = workflow_store_add (w\<lparr>wk_status := WS_ACTIVE\<rparr>) (after_archiving_active firm w s)"
    by (auto simp: activate_cases)
  let ?s = "after_archiving_active firm w s"
  note a = archiving_active [OF ok w]
  have sok: "workflow_store_ok s" "workflow_store_ok ?s" using ok a(1) by (auto simp: workflows_ok_def)
  have wk: "wk_firm_id w = firm" "wk_id w = i" using workflow_get_key [OF sok(1) w] by auto
  let ?g = "\<lambda>u. if u \<noteq> w \<and> wk_firm_id u = firm \<and> wk_workflow_key u = wk_workflow_key w \<and> wk_status u = WS_ACTIVE
      then u\<lparr>wk_status := WS_ARCHIVED\<rparr> else u"
  have rows_s: "wk_firm_id u = f \<and> workflow_store_get s (f, wk_id u) = Some u \<and> wk_workflow_key u = k"
    if "u \<in> set (list_workflow_versions f k s)" for u f k
    using that by (auto simp: versions_iff workflow_rows_iff [OF sok(1)])
  have step1: "list_workflow_versions f k ?s = map ?g (list_workflow_versions f k s)" for f k
  proof (cases "\<exists>p. get_active_workflow firm (wk_workflow_key w) s = Some p \<and> wk_id p \<noteq> i")
    case True
    then obtain p where p: "get_active_workflow firm (wk_workflow_key w) s = Some p" "wk_id p \<noteq> i" by blast
    note st = active_stored [OF ok p(1)]
    have "list_workflow_versions f k ?s =
        map (\<lambda>u. if u = p then p\<lparr>wk_status := WS_ARCHIVED\<rparr> else u) (list_workflow_versions f k s)"
      using versions_restatus [OF sok(1) st(1)] p wk by (simp add: after_archiving_active_def)
    also have "\<dots> = map ?g (list_workflow_versions f k s)"
    proof (rule map_cong [OF refl])
      fix u assume u: "u \<in> set (list_workflow_versions f k s)"
      have "u = p" if "wk_firm_id u = firm" "wk_workflow_key u = wk_workflow_key w" "wk_status u = WS_ACTIVE"
        using get_active_iff [OF ok, of firm "wk_workflow_key w" u] p(1) u that rows_s [OF u] by simp
      moreover have "p \<noteq> w" using p(2) wk by auto
      ultimately show "(if u = p then p\<lparr>wk_status := WS_ARCHIVED\<rparr> else u) = ?g u"
        using st(2-4) by (cases "u = p") auto
    qed
    finally show ?thesis .
  next
    case False
    then have same: "?s = s" using wk by (auto simp: after_archiving_active_def split: option.splits)
    have "?g u = u" if u: "u \<in> set (list_workflow_versions f k s)" for u
    proof -
      have "u = w" if "wk_firm_id u = firm" "wk_workflow_key u = wk_workflow_key w" "wk_status u = WS_ACTIVE"
      proof -
        have "get_active_workflow firm (wk_workflow_key w) s = Some u"
          using get_active_iff [OF ok] u that rows_s [OF u] by simp
        with False have "wk_id u = i" by auto
        with rows_s [OF u] w that show ?thesis by simp
      qed
      then show ?thesis by auto
    qed
    then show ?thesis unfolding same by (simp add: map_idI)
  qed
  have step2: "list_workflow_versions f k s' =
      map (\<lambda>u. if u = w then v else u) (map ?g (list_workflow_versions f k s))" for f k
    using versions_restatus [OF sok(2) a(2), of f k WS_ACTIVE] step1 by (simp add: s' v)
  have same: "list_workflow_versions f k s' = list_workflow_versions f k s"
    if "(f, k) \<noteq> (firm, wk_workflow_key v)" for f k
    unfolding step2 map_map
  proof (rule map_idI)
    fix u assume "u \<in> set (list_workflow_versions f k s)"
    from rows_s [OF this] that have "\<not> (wk_firm_id u = firm \<and> wk_workflow_key u = wk_workflow_key w)"
      by (auto simp: v)
    with wk(1) have "u \<noteq> w" "?g u = u" by auto
    then show "((\<lambda>u. if u = w then v else u) \<circ> ?g) u = u" by simp
  qed
  have mine: "list_workflow_versions firm (wk_workflow_key v) s' =
       map (\<lambda>u. if wk_id u = i then v
                else if wk_status u = WS_ACTIVE then u\<lparr>wk_status := WS_ARCHIVED\<rparr> else u)
         (list_workflow_versions firm (wk_workflow_key v) s)"
    unfolding step2 map_map
  proof (rule map_cong [OF refl])
    fix u assume "u \<in> set (list_workflow_versions firm (wk_workflow_key v) s)"
    note r = rows_s [OF this]
    have "u = w" if "wk_id u = i" using r w that by simp
    with wk(2) have "wk_id u = i \<longleftrightarrow> u = w" by blast
    moreover have "u\<lparr>wk_status := WS_ARCHIVED\<rparr> \<noteq> w" if "u \<noteq> w"
    proof
      assume "u\<lparr>wk_status := WS_ARCHIVED\<rparr> = w"
      then have "wk_id u = i" using wk by auto
      with that calculation show False by simp
    qed
    moreover have "wk_firm_id u = firm" "wk_workflow_key u = wk_workflow_key w"
      using r by (simp_all add: v)
    ultimately show "((\<lambda>u. if u = w then v else u) \<circ> ?g) u =
        (if wk_id u = i then v else if wk_status u = WS_ACTIVE then u\<lparr>wk_status := WS_ARCHIVED\<rparr> else u)"
      by (cases "u = w") simp_all
  qed
  have "w \<in> set (list_workflow_versions firm (wk_workflow_key v) s)"
    using w wk by (simp add: versions_iff workflow_rows_iff [OF sok(1)] v)
  then have "v \<in> set (list_workflow_versions firm (wk_workflow_key v) s')"
    unfolding mine using wk by force
  then have "get_active_workflow firm (wk_workflow_key v) s' = Some v"
    using get_active_iff [OF activate_ok [OF ok act]] by (simp add: v)
  with mine same show ?thesis by blast
qed

lemma activate_exact_witness:
  "\<exists>v s'. activate_workflow ''f'' ''w'' (snd (create_workflow ''w'' ''k'' 0 ''f'' ''n'' ''o'' [] [] [] [] [])) = Inr (v, s')
      \<and> get_active_workflow ''f'' (wk_workflow_key v) s' = Some v"
proof -
  let ?s = "snd (create_workflow ''w'' ''k'' 0 ''f'' ''n'' ''o'' [] [] [] [] [])"
  have "workflow_trans [] ?s"
    by (rule workflow_trans.Create [of _ "''f''" "''w''" "''k''" 0 "''n''" "''o''" "[]" "[]" "[]" "[]"])
       (simp_all add: create_workflow_def list_workflow_versions_def workflow_store_list_versions_def
          store_defs rows_by_key_def Let_def)
  then have ok: "workflows_ok ?s" using workflow_trans_ok workflows_ok_empty by blast
  have "\<exists>v s'. activate_workflow ''f'' ''w'' ?s = Inr (v, s')"
    by (simp add: activate_cases create_workflow_def workflow_row_key_def store_defs Let_def)
  then show ?thesis using activate_exact [OF ok] by blast
qed

end
