(* ===== verification/Templates.thy ===== *)
theory Templates
  imports Workflows
begin

text \<open>
  \<^verbatim>\<open>workflow_automation/template_library\<close> (templates, their instantiation through the workflow
  engine, the six default templates) and \<open>workflow_designer\<close> (the graph of a workflow for a
  visual editor).
\<close>

section \<open>Action types\<close>

definition action_create_task :: pystr where "action_create_task = ''create_task''"
definition action_notify :: pystr where "action_notify = ''notify''"
definition action_launch_ai_analysis :: pystr where "action_launch_ai_analysis = ''launch_ai_analysis''"
definition action_generate_draft :: pystr where "action_generate_draft = ''generate_draft''"
definition action_enrich_knowledge :: pystr where "action_enrich_knowledge = ''enrich_knowledge''"
definition action_create_reminder :: pystr where "action_create_reminder = ''create_reminder''"
definition action_call_integration :: pystr where "action_call_integration = ''call_integration''"

lemmas action_type_defs = action_create_task_def action_notify_def action_launch_ai_analysis_def
  action_generate_draft_def action_enrich_knowledge_def action_create_reminder_def
  action_call_integration_def

section \<open>Templates\<close>

record template_trigger_spec =
  tt_trigger_type :: trigger_type
  tt_config :: string_map

record template_step_spec =
  ts_order :: int
  ts_name :: pystr
  ts_action_type :: pystr
  ts_action_config :: string_map
  ts_condition :: "condition option"
  ts_parallel_group :: "pystr option"

record workflow_template =
  tp_id :: pystr
  tp_name :: pystr
  tp_case_type :: pystr
  tp_description :: pystr
  tp_trigger_specs :: "template_trigger_spec list"
  tp_step_specs :: "template_step_spec list"
  tp_customizable :: bool

type_synonym template_library = "(pystr, workflow_template) dict"

definition register_template :: "workflow_template \<Rightarrow> template_library \<Rightarrow> template_library" where
  "register_template t lib = dict_set (tp_id t) t lib"

definition get_template :: "pystr \<Rightarrow> template_library \<Rightarrow> workflow_template result" where
  "get_template template_id lib =
     (case dict_get lib template_id of None \<Rightarrow> Inl (KeyError template_id) | Some t \<Rightarrow> Inr t)"

definition list_templates :: "pystr option \<Rightarrow> template_library \<Rightarrow> workflow_template list" where
  "list_templates case_type lib =
     (case case_type of
        None \<Rightarrow> dict_values lib
      | Some c \<Rightarrow> filter (\<lambda>t. tp_case_type t = c) (dict_values lib))"

definition template_trigger :: "(nat \<Rightarrow> pystr) \<Rightarrow> nat \<times> template_trigger_spec \<Rightarrow> trigger" where
  "template_trigger new_trigger_id p =
     \<lparr>tg_id = new_trigger_id (fst p), tg_workflow_id = [], tg_trigger_type = tt_trigger_type (snd p),
      tg_config = tt_config (snd p)\<rparr>"

definition step_config :: "(int, string_map) dict option \<Rightarrow> template_step_spec \<Rightarrow> string_map" where
  "step_config overrides spec =
     (case overrides of
        None \<Rightarrow> ts_action_config spec
      | Some ov \<Rightarrow>
          (case dict_get ov (ts_order spec) of
             None \<Rightarrow> ts_action_config spec
           | Some m \<Rightarrow> dict_update m (ts_action_config spec)))"

definition template_workflow_step ::
  "(nat \<Rightarrow> pystr) \<Rightarrow> (int, string_map) dict option \<Rightarrow> nat \<times> template_step_spec \<Rightarrow> workflow_step" where
  "template_workflow_step new_action_id overrides p =
     \<lparr>st_order = ts_order (snd p), st_name = ts_name (snd p),
      st_action = \<lparr>ac_id = new_action_id (fst p), ac_workflow_id = [],
                   ac_action_type = ts_action_type (snd p), ac_config = step_config overrides (snd p),
                   ac_requires_approval = False\<rparr>,
      st_condition = ts_condition (snd p), st_parallel_group = ts_parallel_group (snd p)\<rparr>"

text \<open>The workflow is created first; its identifier is then written into its triggers and actions.\<close>

definition instantiate_template ::
  "pystr \<Rightarrow> pystr \<Rightarrow> datetime \<Rightarrow> (nat \<Rightarrow> pystr) \<Rightarrow> (nat \<Rightarrow> pystr) \<Rightarrow> pystr \<Rightarrow> pystr \<Rightarrow> pystr
     \<Rightarrow> (int, string_map) dict option \<Rightarrow> template_library \<Rightarrow> workflow_store
     \<Rightarrow> (workflow \<times> workflow_store) result" where
  "instantiate_template new_id new_key now new_trigger_id new_action_id template_id firm owner overrides lib s =
     res_bind (get_template template_id lib) (\<lambda>template.
       let triggers = map (template_trigger new_trigger_id) (List.enumerate 0 (tp_trigger_specs template));
           steps = map (template_workflow_step new_action_id overrides) (List.enumerate 0 (tp_step_specs template));
           (v, s1) = create_workflow new_id new_key now firm (tp_name template) owner
                       (tp_description template) triggers [] steps s;
           v' = v\<lparr>wk_triggers := map (\<lambda>t. t\<lparr>tg_workflow_id := wk_id v\<rparr>) (wk_triggers v),
                  wk_steps := map (\<lambda>st. st\<lparr>st_action := (st_action st)\<lparr>ac_workflow_id := wk_id v\<rparr>\<rparr>) (wk_steps v)\<rparr>
       in Inr (v', workflow_store_add v' s1))"

section \<open>The default templates\<close>

definition template_step :: "int \<Rightarrow> pystr \<Rightarrow> pystr \<Rightarrow> template_step_spec" where
  "template_step order name action_type =
     \<lparr>ts_order = order, ts_name = name, ts_action_type = action_type, ts_action_config = [],
      ts_condition = None, ts_parallel_group = None\<rparr>"

definition build_default_templates :: "(nat \<Rightarrow> pystr) \<Rightarrow> workflow_template list" where
  "build_default_templates new_id =
    [
     \<lparr>tp_id = new_id 0, tp_name = ''Ouverture d'un dossier'', tp_case_type = ''ouverture_dossier'',
        tp_description = (''Cr'' @ [CHR 0xE9] @ ''e les t'' @ [CHR 0xE2] @ ''ches et notifications d'ouverture d'un nouveau dossier.''),
        tp_trigger_specs = [\<lparr>tt_trigger_type = TT_CASE_UPDATED, tt_config = [(''field'', ''status'')]\<rparr>],
        tp_step_specs =
         [template_step 0 (''Cr'' @ [CHR 0xE9] @ ''er la t'' @ [CHR 0xE2] @ ''che d'accueil'') action_create_task,
          template_step 1 (''Notifier l'' @ [CHR 0x27, CHR 0xE9] @ ''quipe'') action_notify],
        tp_customizable = True\<rparr>,
     \<lparr>tp_id = new_id 1, tp_name = (''Pr'' @ [CHR 0xE9] @ ''paration d'une audience''), tp_case_type = ''preparation_audience'',
        tp_description = (''G'' @ [CHR 0xE9] @ ''n'' @ [CHR 0xE8] @ ''re la checklist de pr'' @ [CHR 0xE9] @ ''paration d'' @ [CHR 0xE8] @ ''s la cr'' @ [CHR 0xE9] @ ''ation d'une audience.''),
        tp_trigger_specs = [\<lparr>tt_trigger_type = TT_BUSINESS_EVENT, tt_config = [(''source'', ''cabinet_os.hearings''), (''label'', ''hearing_created'')]\<rparr>],
        tp_step_specs =
         [template_step 0 (''Cr'' @ [CHR 0xE9] @ ''er la checklist'') action_create_task,
          template_step 1 (''Cr'' @ [CHR 0xE9] @ ''er un rappel J-3'') action_create_reminder,
          template_step 2 ''Notifier l'avocat responsable'' action_notify],
        tp_customizable = True\<rparr>,
     \<lparr>tp_id = new_id 2, tp_name = (''Cl'' @ [CHR 0xF4] @ ''ture d'un dossier''), tp_case_type = ''cloture_dossier'',
        tp_description = (''V'' @ [CHR 0xE9] @ ''rifications et notifications de cl'' @ [CHR 0xF4] @ ''ture d'un dossier.''),
        tp_trigger_specs = [\<lparr>tt_trigger_type = TT_CASE_UPDATED, tt_config = [(''field'', ''status'')]\<rparr>],
        tp_step_specs =
         [template_step 0 (''Cr'' @ [CHR 0xE9] @ ''er la t'' @ [CHR 0xE2] @ ''che de v'' @ [CHR 0xE9] @ ''rification finale'') action_create_task,
          template_step 1 ''Notifier le client'' action_notify],
        tp_customizable = True\<rparr>,
     \<lparr>tp_id = new_id 3, tp_name = ''Validation d'un brouillon'', tp_case_type = ''validation_brouillon'',
        tp_description = (''Pr'' @ [CHR 0xE9] @ ''pare le circuit de signature apr'' @ [CHR 0xE8] @ ''s validation d'un brouillon.''),
        tp_trigger_specs = [\<lparr>tt_trigger_type = TT_VALIDATION, tt_config = [(''target_type'', ''draft'')]\<rparr>],
        tp_step_specs =
         [template_step 0 (''Pr'' @ [CHR 0xE9] @ ''parer le circuit de signature'') action_create_task,
          template_step 1 ''Notifier les signataires'' action_notify],
        tp_customizable = True\<rparr>,
     \<lparr>tp_id = new_id 4, tp_name = ''Gestion d'une mise en demeure'', tp_case_type = ''mise_en_demeure'',
        tp_description = (''G'' @ [CHR 0xE9] @ ''n'' @ [CHR 0xE8] @ ''re et notifie une mise en demeure '' @ [CHR 0xE0] @ '' partir d'un mod'' @ [CHR 0xE8] @ ''le.''),
        tp_trigger_specs = [\<lparr>tt_trigger_type = TT_BUSINESS_EVENT, tt_config = [(''source'', ''case_intelligence''), (''label'', ''deadline_missed'')]\<rparr>],
        tp_step_specs =
         [template_step 0 (''G'' @ [CHR 0xE9] @ ''n'' @ [CHR 0xE9] @ ''rer le brouillon de mise en demeure'') action_generate_draft,
          template_step 1 ''Notifier l'avocat responsable'' action_notify],
        tp_customizable = True\<rparr>,
     \<lparr>tp_id = new_id 5, tp_name = ''Revue contractuelle'', tp_case_type = ''revue_contractuelle'',
        tp_description = (''Lance l'analyse IA d'un contrat import'' @ [CHR 0xE9] @ '' puis enrichit le Knowledge Engine.''),
        tp_trigger_specs = [\<lparr>tt_trigger_type = TT_DOCUMENT_CREATED, tt_config = [(''document_type'', ''contrat'')]\<rparr>],
        tp_step_specs =
         [template_step 0 ''Lancer l'analyse IA du contrat'' action_launch_ai_analysis,
          template_step 1 ''Enrichir le Knowledge Engine'' action_enrich_knowledge],
        tp_customizable = True\<rparr>
    ]"

section \<open>The designer's graph\<close>

datatype designer_node_kind = DN_TRIGGER | DN_CONDITION | DN_ACTION | DN_VALIDATION | DN_BRANCH

record designer_node =
  dn_id :: pystr
  dn_kind :: designer_node_kind
  dn_label :: pystr
  dn_config :: string_map

record designer_edge =
  de_from :: pystr
  de_to :: pystr
  de_label :: pystr

record workflow_graph =
  wg_workflow_id :: pystr
  wg_nodes :: "designer_node list"
  wg_edges :: "designer_edge list"

fun trigger_type_value :: "trigger_type \<Rightarrow> pystr" where
  "trigger_type_value TT_BUSINESS_EVENT = ''business_event''"
| "trigger_type_value TT_SCHEDULE = ''schedule''"
| "trigger_type_value TT_DEADLINE = ''deadline''"
| "trigger_type_value TT_DOCUMENT_CREATED = ''document_created''"
| "trigger_type_value TT_CASE_UPDATED = ''case_updated''"
| "trigger_type_value TT_VALIDATION = ''validation''"
| "trigger_type_value TT_INTEGRATION_EVENT = ''integration_event''"

definition edge :: "pystr \<Rightarrow> pystr \<Rightarrow> designer_edge" where
  "edge from to = \<lparr>de_from = from, de_to = to, de_label = []\<rparr>"

definition trigger_node_id :: "trigger \<Rightarrow> pystr" where
  "trigger_node_id t = ''trigger-'' @ tg_id t"

definition step_node_id :: "workflow_step \<Rightarrow> pystr" where
  "step_node_id st = ''step-'' @ dec_int (st_order st)"

definition condition_node_id :: "workflow_step \<Rightarrow> pystr" where
  "condition_node_id st = ''condition-'' @ dec_int (st_order st)"

definition gate_node_id :: "workflow_step \<Rightarrow> pystr" where
  "gate_node_id st = (if st_condition st \<noteq> None then condition_node_id st else step_node_id st)"

definition trigger_node :: "trigger \<Rightarrow> designer_node" where
  "trigger_node t = \<lparr>dn_id = trigger_node_id t, dn_kind = DN_TRIGGER,
     dn_label = trigger_type_value (tg_trigger_type t), dn_config = tg_config t\<rparr>"

definition step_nodes :: "workflow_step \<Rightarrow> designer_node list" where
  "step_nodes st =
     (if st_condition st \<noteq> None
      then [\<lparr>dn_id = condition_node_id st, dn_kind = DN_CONDITION,
             dn_label = ''condition('' @ st_name st @ '')'', dn_config = []\<rparr>] else []) @
     [\<lparr>dn_id = step_node_id st, dn_kind = DN_ACTION, dn_label = st_name st,
       dn_config = ac_config (st_action st)\<rparr>]"

text \<open>The loop over the sorted steps; \<open>previous\<close> is the node of the step before, if any.\<close>

fun graph_steps ::
  "pystr list \<Rightarrow> pystr option \<Rightarrow> workflow_step list \<Rightarrow> designer_node list \<times> designer_edge list" where
  "graph_steps trigger_ids previous [] = ([], [])"
| "graph_steps trigger_ids previous (st # sts) =
     (let inner = (if st_condition st \<noteq> None then [edge (condition_node_id st) (step_node_id st)] else []);
          incoming = (case previous of
                        Some p \<Rightarrow> [edge p (gate_node_id st)]
                      | None \<Rightarrow> map (\<lambda>t. edge t (gate_node_id st)) trigger_ids);
          (nodes, edges) = graph_steps trigger_ids (Some (step_node_id st)) sts
      in (step_nodes st @ nodes, inner @ incoming @ edges))"

definition sorted_steps :: "workflow \<Rightarrow> workflow_step list" where
  "sorted_steps v = sort_key st_order (wk_steps v)"

definition workflow_to_graph :: "workflow \<Rightarrow> workflow_graph" where
  "workflow_to_graph v =
     (let (nodes, edges) = graph_steps (map trigger_node_id (wk_triggers v)) None (sorted_steps v)
      in \<lparr>wg_workflow_id = wk_id v, wg_nodes = map trigger_node (wk_triggers v) @ nodes, wg_edges = edges\<rparr>)"

section \<open>Lemmas\<close>

lemma step_nodes_ids:
  "dn_id ` set (step_nodes st) =
     insert (step_node_id st) (if st_condition st \<noteq> None then {condition_node_id st} else {})"
  by (auto simp: step_nodes_def)

lemma gate_in_nodes: "gate_node_id st \<in> dn_id ` set (step_nodes st)"
  by (simp add: step_nodes_ids gate_node_id_def)

lemma step_in_nodes: "step_node_id st \<in> dn_id ` set (step_nodes st)"
  by (simp add: step_nodes_ids)

lemma graph_steps_nodes: "fst (graph_steps ts prev sts) = concat (map step_nodes sts)"
  by (induction ts prev sts rule: graph_steps.induct) (simp_all add: split_beta Let_def)

lemma graph_steps_endpoints:
  assumes "e \<in> set (snd (graph_steps ts prev sts))"
  shows "de_to e \<in> dn_id ` set (concat (map step_nodes sts)) \<and>
         (de_from e \<in> dn_id ` set (concat (map step_nodes sts)) \<or> de_from e \<in> set ts \<or> Some (de_from e) = prev)"
  using assms
proof (induction ts prev sts rule: graph_steps.induct)
  case (2 ts prev st sts)
  let ?rest = "graph_steps ts (Some (step_node_id st)) sts"
  from 2(2) consider (inner) "st_condition st \<noteq> None" "e = edge (condition_node_id st) (step_node_id st)"
    | (incoming) "de_to e = gate_node_id st" "de_from e \<in> set ts \<or> Some (de_from e) = prev"
    | (rest) "e \<in> set (snd ?rest)"
    by (auto simp: split_beta Let_def edge_def split: option.splits if_splits)
  then show ?case
  proof cases
    case inner
    then show ?thesis by (simp add: image_Un step_nodes_ids edge_def)
  next
    case incoming
    then show ?thesis using gate_in_nodes [of st] by (auto simp: image_Un)
  next
    case rest
    from 2(1) [OF refl refl rest] show ?thesis
      using step_in_nodes [of st] by (auto simp: image_Un)
  qed
qed simp

text \<open>The edges exactly: the condition of each conditional step, the way into the first gate, and the
  link from each step to the gate of the next; and their number, so that none is repeated for nothing.\<close>

lemma chain_shift:
  "{f (xs ! i) (xs ! Suc i) | i. Suc i < length xs} \<union> (case xs of [] \<Rightarrow> {} | y # _ \<Rightarrow> {f x y}) =
     {f ((x # xs) ! i) ((x # xs) ! Suc i) | i. Suc i < length (x # xs)}"
proof (intro equalityI subsetI)
  fix e assume "e \<in> {f (xs ! i) (xs ! Suc i) | i. Suc i < length xs} \<union> (case xs of [] \<Rightarrow> {} | y # _ \<Rightarrow> {f x y})"
  then consider (chain) i where "Suc i < length xs" "e = f (xs ! i) (xs ! Suc i)"
    | (first) y ys where "xs = y # ys" "e = f x y"
    by (auto split: list.splits)
  then show "e \<in> {f ((x # xs) ! i) ((x # xs) ! Suc i) | i. Suc i < length (x # xs)}"
  proof cases
    case chain
    then show ?thesis by (intro CollectI exI [of _ "Suc i"]) simp
  next
    case first
    then show ?thesis by (intro CollectI exI [of _ 0]) simp
  qed
next
  fix e assume "e \<in> {f ((x # xs) ! i) ((x # xs) ! Suc i) | i. Suc i < length (x # xs)}"
  then obtain i where i: "Suc i < length (x # xs)" "e = f ((x # xs) ! i) ((x # xs) ! Suc i)" by blast
  show "e \<in> {f (xs ! i) (xs ! Suc i) | i. Suc i < length xs} \<union> (case xs of [] \<Rightarrow> {} | y # _ \<Rightarrow> {f x y})"
  proof (cases i)
    case 0
    with i obtain y ys where "xs = y # ys" by (cases xs) auto
    with i 0 show ?thesis by simp
  next
    case (Suc j)
    with i show ?thesis by (intro UnI1 CollectI exI [of _ j]) simp
  qed
qed

lemma graph_steps_edges:
  "set (snd (graph_steps ts prev sts)) =
     {edge (condition_node_id st) (step_node_id st) | st. st \<in> set sts \<and> st_condition st \<noteq> None} \<union>
     (case sts of [] \<Rightarrow> {} | st # _ \<Rightarrow>
        (case prev of Some p \<Rightarrow> {edge p (gate_node_id st)} | None \<Rightarrow> (\<lambda>t. edge t (gate_node_id st)) ` set ts)) \<union>
     {edge (step_node_id (sts ! i)) (gate_node_id (sts ! Suc i)) | i. Suc i < length sts}"
proof (induction ts prev sts rule: graph_steps.induct)
  case (2 ts prev st sts)
  let ?rest = "graph_steps ts (Some (step_node_id st)) sts"
  let ?conds = "\<lambda>sts. {edge (condition_node_id st) (step_node_id st) | st. st \<in> set sts \<and> st_condition st \<noteq> None}"
  let ?into = "case prev of Some p \<Rightarrow> {edge p (gate_node_id st)} | None \<Rightarrow> (\<lambda>t. edge t (gate_node_id st)) ` set ts"
  let ?first = "case sts of [] \<Rightarrow> {} | st' # _ \<Rightarrow> {edge (step_node_id st) (gate_node_id st')}"
  let ?chain = "\<lambda>sts. {edge (step_node_id (sts ! i)) (gate_node_id (sts ! Suc i)) | i. Suc i < length sts}"
  have ih: "set (snd ?rest) = ?conds sts \<union> ?first \<union> ?chain sts"
    using 2 by (simp cong: list.case_cong)
  have conds: "?conds (st # sts) =
      (if st_condition st \<noteq> None then {edge (condition_node_id st) (step_node_id st)} else {}) \<union> ?conds sts"
    by auto
  have chain: "?chain (st # sts) = ?chain sts \<union> ?first"
    by (rule chain_shift [of "\<lambda>a b. edge (step_node_id a) (gate_node_id b)", symmetric])
  have step: "set (snd (graph_steps ts prev (st # sts))) =
      (if st_condition st \<noteq> None then {edge (condition_node_id st) (step_node_id st)} else {}) \<union> ?into \<union> set (snd ?rest)"
    by (auto simp: split_beta Let_def split: option.splits)
  show ?case unfolding step ih conds chain list.case by (simp only: Un_ac)
qed simp

lemma graph_steps_edge_count:
  "length (snd (graph_steps ts prev sts)) =
     length (filter (\<lambda>st. st_condition st \<noteq> None) sts) +
     (if sts = [] then 0 else (case prev of Some p \<Rightarrow> 1 | None \<Rightarrow> length ts) + (length sts - 1))"
  by (induction ts prev sts rule: graph_steps.induct) (auto simp: split_beta Let_def split: option.splits)

lemma node_ids_differ [simp]:
  "trigger_node_id t \<noteq> step_node_id st" "trigger_node_id t \<noteq> condition_node_id st"
  "step_node_id st \<noteq> condition_node_id st'" "step_node_id st \<noteq> trigger_node_id t"
  "condition_node_id st \<noteq> trigger_node_id t" "condition_node_id st \<noteq> step_node_id st'"
  by (simp_all add: trigger_node_id_def step_node_id_def condition_node_id_def)

lemma node_ids_inject [simp]:
  "trigger_node_id t = trigger_node_id t' \<longleftrightarrow> tg_id t = tg_id t'"
  "step_node_id st = step_node_id st' \<longleftrightarrow> st_order st = st_order st'"
  "condition_node_id st = condition_node_id st' \<longleftrightarrow> st_order st = st_order st'"
  by (simp_all add: trigger_node_id_def step_node_id_def condition_node_id_def)

lemma step_nodes_distinct:
  "distinct (map st_order sts) \<Longrightarrow> distinct (map dn_id (concat (map step_nodes sts)))"
proof (induction sts)
  case (Cons st sts)
  have "distinct (map dn_id (step_nodes st))" by (simp add: step_nodes_def)
  moreover have "dn_id ` set (step_nodes st) \<inter> dn_id ` set (concat (map step_nodes sts)) = {}"
  proof -
    have "x \<notin> dn_id ` set (step_nodes st')" if "x \<in> dn_id ` set (step_nodes st)" "st' \<in> set sts" for x st'
    proof -
      from Cons.prems that(2) have "st_order st' \<noteq> st_order st" by (auto simp: image_iff)
      with that(1) show ?thesis by (auto simp: step_nodes_ids split: if_splits)
    qed
    then show ?thesis by fastforce
  qed
  ultimately show ?case using Cons by simp
qed simp

lemma sorted_steps_orders: "distinct (map st_order (wk_steps v)) \<Longrightarrow> distinct (map st_order (sorted_steps v))"
  by (simp add: sorted_steps_def distinct_map)

text \<open>The workflow an instantiation builds.\<close>

definition template_workflow ::
  "pystr \<Rightarrow> pystr \<Rightarrow> datetime \<Rightarrow> (nat \<Rightarrow> pystr) \<Rightarrow> (nat \<Rightarrow> pystr) \<Rightarrow> pystr \<Rightarrow> pystr
     \<Rightarrow> (int, string_map) dict option \<Rightarrow> workflow_template \<Rightarrow> workflow" where
  "template_workflow new_id new_key now tid aid firm owner overrides t =
     \<lparr>wk_id = new_id, wk_workflow_key = new_key, wk_firm_id = firm, wk_name = tp_name t, wk_version = 1,
      wk_owner = owner, wk_description = tp_description t,
      wk_triggers = map (\<lambda>p. (template_trigger tid p)\<lparr>tg_workflow_id := new_id\<rparr>)
        (List.enumerate 0 (tp_trigger_specs t)),
      wk_conditions = [],
      wk_steps = map (\<lambda>p. let st = template_workflow_step aid overrides p
                         in st\<lparr>st_action := (st_action st)\<lparr>ac_workflow_id := new_id\<rparr>\<rparr>)
        (List.enumerate 0 (tp_step_specs t)),
      wk_status = WS_DRAFT, wk_created_at = now\<rparr>"

lemma instantiate_template_eq:
  assumes "dict_get lib template_id = Some t"
  shows "instantiate_template i k now tid aid template_id firm owner ov lib s =
     Inr (template_workflow i k now tid aid firm owner ov t,
          workflow_store_add (template_workflow i k now tid aid firm owner ov t)
            (snd (create_workflow i k now firm (tp_name t) owner (tp_description t)
               (map (template_trigger tid) (List.enumerate 0 (tp_trigger_specs t))) []
               (map (template_workflow_step aid ov) (List.enumerate 0 (tp_step_specs t))) s)))"
  by (simp add: assms instantiate_template_def get_template_def create_workflow_def template_workflow_def
      Let_def comp_def)

section \<open>Properties\<close>

text \<open>
  Instantiating a template under a fresh identifier and key stores one new workflow, a
  draft numbered 1 whose triggers and actions all carry its identifier, with a trigger for each
  trigger specification and a step for each step specification in order; each action's
  configuration is the template's with the overrides for that step's order laid over it. The
  invariant of the workflow store is kept and every other workflow lists as before.
\<close>

theorem instantiate_template_exact:
  assumes ok: "workflows_ok s" and t: "dict_get lib template_id = Some t"
    and fresh: "workflow_store_get s (firm, i) = None" "list_workflow_versions firm k s = []"
    and ov: "\<forall>n m. dict_get (default_to ov []) n = Some m \<longrightarrow> distinct (map fst m)"
  shows "\<exists>v s'. instantiate_template i k now tid aid template_id firm owner ov lib s = Inr (v, s') \<and>
     workflows_ok s' \<and> list_workflow_versions firm k s' = [v] \<and> wk_version v = 1 \<and> wk_status v = WS_DRAFT \<and>
     (\<forall>f' k'. (f', k') \<noteq> (firm, k) \<longrightarrow> list_workflow_versions f' k' s' = list_workflow_versions f' k' s) \<and>
     map (\<lambda>tr. (tg_workflow_id tr, tg_trigger_type tr, tg_config tr)) (wk_triggers v) =
       map (\<lambda>sp. (i, tt_trigger_type sp, tt_config sp)) (tp_trigger_specs t) \<and>
     map (\<lambda>st. (st_order st, st_name st, ac_workflow_id (st_action st), ac_action_type (st_action st),
                map_of (ac_config (st_action st)))) (wk_steps v) =
       map (\<lambda>sp. (ts_order sp, ts_name sp, i, ts_action_type sp,
                  map_of (ts_action_config sp) ++
                    map_of (default_to (dict_get (default_to ov []) (ts_order sp)) []))) (tp_step_specs t)"
proof -
  let ?v = "template_workflow i k now tid aid firm owner ov t"
  let ?u = "?v\<lparr>wk_triggers := map (template_trigger tid) (List.enumerate 0 (tp_trigger_specs t)),
               wk_steps := map (template_workflow_step aid ov) (List.enumerate 0 (tp_step_specs t))\<rparr>"
  let ?s' = "workflow_store_add ?v (workflow_store_add ?u s)"
  have sok: "workflow_store_ok s" using ok by (simp add: workflows_ok_def)
  have key: "workflow_row_key ?v = (firm, i)" "workflow_row_key ?u = (firm, i)"
    by (simp_all add: workflow_row_key_def template_workflow_def)
  have run: "instantiate_template i k now tid aid template_id firm owner ov lib s = Inr (?v, ?s')"
    by (simp add: instantiate_template_eq [OF t] create_workflow_def template_workflow_def Let_def)
  have "dict_get s (firm, i) = None" using fresh(1) by (simp add: workflow_store_get_def)
  then have s': "?s' = workflow_store_add ?v s"
    by (simp add: workflow_store_add_def key dict_set_twice)
  have v: "wk_firm_id ?v = firm" "wk_workflow_key ?v = k" "wk_version ?v = 1" "wk_status ?v = WS_DRAFT"
    by (simp_all add: template_workflow_def)
  have "workflows_ok ?s'"
    unfolding s' using ok fresh v key by (intro add_draft_ok) simp_all
  moreover have versions: "list_workflow_versions f' k' ?s' =
      list_workflow_versions f' k' s @ (if f' = firm \<and> k' = k then [?v] else [])" for f' k'
    unfolding s' using versions_add_new [OF sok, of ?v f' k'] fresh v key by simp
  moreover have "map (\<lambda>tr. (tg_workflow_id tr, tg_trigger_type tr, tg_config tr)) (wk_triggers ?v) =
       map (\<lambda>sp. (i, tt_trigger_type sp, tt_config sp)) (map snd (List.enumerate 0 (tp_trigger_specs t)))"
    by (simp add: template_workflow_def template_trigger_def comp_def del: map_snd_enumerate)
  moreover have config: "map_of (step_config ov sp) = map_of (ts_action_config sp) ++
      map_of (default_to (dict_get (default_to ov []) (ts_order sp)) [])" for sp
  proof (cases ov)
    case (Some d)
    show ?thesis
    proof (cases "dict_get d (ts_order sp)")
      case (Some m)
      with ov \<open>ov = Some d\<close> have "distinct (map fst m)" by auto
      with Some \<open>ov = Some d\<close> show ?thesis by (auto simp: step_config_def dict_update_get)
    qed (simp add: step_config_def Some)
  qed (simp add: step_config_def)
  moreover have "map (\<lambda>st. (st_order st, st_name st, ac_workflow_id (st_action st), ac_action_type (st_action st),
                map_of (ac_config (st_action st)))) (wk_steps ?v) =
       map (\<lambda>sp. (ts_order sp, ts_name sp, i, ts_action_type sp,
                  map_of (ts_action_config sp) ++
                    map_of (default_to (dict_get (default_to ov []) (ts_order sp)) [])))
         (map snd (List.enumerate 0 (tp_step_specs t)))"
    by (simp add: template_workflow_def template_workflow_step_def Let_def config comp_def
        del: map_snd_enumerate)
  ultimately show ?thesis
    using run fresh(2) v(3,4) by (intro exI [of _ ?v] exI [of _ ?s'] conjI) simp_all
qed

lemma instantiate_template_exact_witness:
  "\<exists>v s'. instantiate_template ''w'' ''k'' 0 (\<lambda>n. ''t'') (\<lambda>n. ''a'') ''tpl'' ''f'' ''o''
      (Some [(0, [(''title'', ''x'')])])
      [(''tpl'', build_default_templates (\<lambda>n. ''tpl'') ! 0)] [] = Inr (v, s') \<and>
     workflows_ok s' \<and> length (wk_steps v) = 2"
proof -
  let ?t = "build_default_templates (\<lambda>n. ''tpl'') ! 0"
  have ov: "\<forall>n m. dict_get (default_to (Some [(0::int, [(''title'', ''x'')])]) []) n = Some m \<longrightarrow> distinct (map fst m)"
    by simp
  have fresh: "workflow_store_get [] (''f'', ''w'') = None" "list_workflow_versions ''f'' ''k'' [] = []"
    by (simp_all add: store_defs list_workflow_versions_def workflow_store_list_versions_def rows_by_key_def)
  have lookup: "dict_get [(''tpl'', ?t)] ''tpl'' = Some ?t" by simp
  have len: "length (tp_step_specs ?t) = 2" by (simp add: build_default_templates_def)
  show ?thesis
    using instantiate_template_exact [OF workflows_ok_empty lookup fresh ov,
        where now = 0 and tid = "\<lambda>n. ''t''" and aid = "\<lambda>n. ''a''" and owner = "''o''"]
    by - (elim exE conjE, intro exI conjI, assumption, assumption,
        drule map_eq_imp_length_eq, drule map_eq_imp_length_eq, simp only: len)
qed

text \<open>
  The default templates are live and well numbered: every trigger of every default
  template is matched by the default trigger engine on some event, every step has one of the
  built-in action types, and the orders of the steps are 0, 1, 2, ... The template for opening
  a case and the one for closing it react to exactly the same events.
\<close>

theorem default_templates_live:
  "(\<forall>t \<in> set (build_default_templates new_id).
      (\<forall>sp \<in> set (tp_trigger_specs t). \<exists>ev.
         trigger_matches (trigger_engine_init None) (template_trigger tid (n, sp)) ev = Inr True) \<and>
      map ts_order (tp_step_specs t) = map int [0..<length (tp_step_specs t)] \<and>
      (\<forall>sp \<in> set (tp_step_specs t). ts_action_type sp \<in>
         {action_create_task, action_notify, action_launch_ai_analysis, action_generate_draft,
          action_enrich_knowledge, action_create_reminder, action_call_integration})) \<and>
   tp_trigger_specs (build_default_templates new_id ! 0) = tp_trigger_specs (build_default_templates new_id ! 2)"
proof -
  have live: "\<exists>ev. trigger_matches (trigger_engine_init None) (template_trigger tid (n, sp)) ev = Inr True"
    if "\<exists>ev. interests (template_trigger tid (n, sp)) ev" "tt_trigger_type sp \<noteq> TT_DEADLINE" for sp
    using that default_matches(2) [of "template_trigger tid (n, sp)"]
    by (auto simp: template_trigger_def)
  have "\<exists>ev. interests (template_trigger tid (n, \<lparr>tt_trigger_type = TT_CASE_UPDATED, tt_config = [(''field'', x)]\<rparr>)) ev" for x
    by (rule exI [of _ "CaseUpdated [] [] 0 [] x"]) (simp add: template_trigger_def opt_agrees_def)
  moreover have "\<exists>ev. interests (template_trigger tid (n, \<lparr>tt_trigger_type = TT_BUSINESS_EVENT,
      tt_config = [(''source'', x), (''label'', y)]\<rparr>)) ev" for x y
    by (rule exI [of _ "BusinessEventOccurred [] [] 0 x y []"]) (simp add: template_trigger_def)
  moreover have "\<exists>ev. interests (template_trigger tid (n, \<lparr>tt_trigger_type = TT_VALIDATION,
      tt_config = [(''target_type'', x)]\<rparr>)) ev" for x
    by (rule exI [of _ "ValidationCompleted [] [] 0 x [] True"]) (simp add: template_trigger_def opt_agrees_def)
  moreover have "\<exists>ev. interests (template_trigger tid (n, \<lparr>tt_trigger_type = TT_DOCUMENT_CREATED,
      tt_config = [(''document_type'', x)]\<rparr>)) ev" for x
    by (rule exI [of _ "DocumentCreated [] [] 0 [] [] x"]) (simp add: template_trigger_def opt_agrees_def)
  ultimately show ?thesis
    by (simp add: build_default_templates_def template_step_def live)
qed

lemma default_templates_live_witness:
  "\<exists>ev. trigger_matches (trigger_engine_init None) (template_trigger (\<lambda>_. ''t'')
     (0, hd (tp_trigger_specs (build_default_templates (\<lambda>_. ''i'') ! 3)))) ev = Inr True"
proof -
  have "build_default_templates (\<lambda>_. ''i'') ! 3 \<in> set (build_default_templates (\<lambda>_. ''i''))"
    by (intro nth_mem) (simp add: build_default_templates_def)
  moreover have "hd (tp_trigger_specs (build_default_templates (\<lambda>_. ''i'') ! 3)) \<in>
      set (tp_trigger_specs (build_default_templates (\<lambda>_. ''i'') ! 3))"
    by (simp add: build_default_templates_def)
  ultimately show ?thesis using default_templates_live [THEN conjunct1] by blast
qed

lemma graph_workflow_id: "wg_workflow_id (workflow_to_graph v) = wk_id v"
  by (simp add: workflow_to_graph_def split_beta)

lemma graph_nodes: "wg_nodes (workflow_to_graph v) = map trigger_node (wk_triggers v) @ concat (map step_nodes (sorted_steps v))"
  by (simp add: workflow_to_graph_def split_beta graph_steps_nodes)

lemma graph_edges:
  "wg_edges (workflow_to_graph v) = snd (graph_steps (map trigger_node_id (wk_triggers v)) None (sorted_steps v))"
  by (simp add: workflow_to_graph_def split_beta)

lemma gate_text:
  "(if st_condition st = None then ''step-'' else ''condition-'') @ dec_int (st_order st) = gate_node_id st"
  by (simp add: gate_node_id_def step_node_id_def condition_node_id_def)

lemma graph_nodes_exact:
  "wg_nodes (workflow_to_graph v) =
     map (\<lambda>t. \<lparr>dn_id = ''trigger-'' @ tg_id t, dn_kind = DN_TRIGGER,
                dn_label = trigger_type_value (tg_trigger_type t), dn_config = tg_config t\<rparr>) (wk_triggers v) @
     concat (map (\<lambda>st.
       (if st_condition st = None then []
        else [\<lparr>dn_id = ''condition-'' @ dec_int (st_order st), dn_kind = DN_CONDITION,
                dn_label = ''condition('' @ st_name st @ '')'', dn_config = []\<rparr>]) @
       [\<lparr>dn_id = ''step-'' @ dec_int (st_order st), dn_kind = DN_ACTION, dn_label = st_name st,
          dn_config = ac_config (st_action st)\<rparr>]) (sort_key st_order (wk_steps v)))"
proof -
  have "trigger_node = (\<lambda>t. \<lparr>dn_id = ''trigger-'' @ tg_id t, dn_kind = DN_TRIGGER,
      dn_label = trigger_type_value (tg_trigger_type t), dn_config = tg_config t\<rparr>)"
    by (simp add: trigger_node_def trigger_node_id_def fun_eq_iff)
  moreover have "step_nodes = (\<lambda>st. (if st_condition st = None then []
      else [\<lparr>dn_id = ''condition-'' @ dec_int (st_order st), dn_kind = DN_CONDITION,
              dn_label = ''condition('' @ st_name st @ '')'', dn_config = []\<rparr>]) @
      [\<lparr>dn_id = ''step-'' @ dec_int (st_order st), dn_kind = DN_ACTION, dn_label = st_name st,
         dn_config = ac_config (st_action st)\<rparr>])"
    by (simp add: step_nodes_def step_node_id_def condition_node_id_def fun_eq_iff)
  ultimately show ?thesis unfolding graph_nodes sorted_steps_def by simp
qed

lemma graph_edges_exact:
  "set (wg_edges (workflow_to_graph v)) =
     {\<lparr>de_from = ''trigger-'' @ tg_id t,
        de_to = (if st_condition (hd (sort_key st_order (wk_steps v))) = None then ''step-'' else ''condition-'') @
                dec_int (st_order (hd (sort_key st_order (wk_steps v)))), de_label = []\<rparr> | t.
        t \<in> set (wk_triggers v) \<and> sort_key st_order (wk_steps v) \<noteq> []} \<union>
     {\<lparr>de_from = ''step-'' @ dec_int (st_order (sort_key st_order (wk_steps v) ! i)),
        de_to = (if st_condition (sort_key st_order (wk_steps v) ! Suc i) = None then ''step-'' else ''condition-'') @
                dec_int (st_order (sort_key st_order (wk_steps v) ! Suc i)), de_label = []\<rparr> | i.
        Suc i < length (sort_key st_order (wk_steps v))} \<union>
     {\<lparr>de_from = ''condition-'' @ dec_int (st_order st), de_to = ''step-'' @ dec_int (st_order st), de_label = []\<rparr> | st.
        st \<in> set (wk_steps v) \<and> st_condition st \<noteq> None}"
proof -
  let ?ss = "sort_key st_order (wk_steps v)"
  have "(case ?ss of [] \<Rightarrow> {} | st # _ \<Rightarrow> (\<lambda>t. edge t (gate_node_id st)) ` set (map trigger_node_id (wk_triggers v))) =
      {edge (trigger_node_id t) (gate_node_id (hd ?ss)) | t. t \<in> set (wk_triggers v) \<and> ?ss \<noteq> []}"
    by (cases ?ss) auto
  then have "set (wg_edges (workflow_to_graph v)) =
      {edge (trigger_node_id t) (gate_node_id (hd ?ss)) | t. t \<in> set (wk_triggers v) \<and> ?ss \<noteq> []} \<union>
      {edge (step_node_id (?ss ! i)) (gate_node_id (?ss ! Suc i)) | i. Suc i < length ?ss} \<union>
      {edge (condition_node_id st) (step_node_id st) | st. st \<in> set (wk_steps v) \<and> st_condition st \<noteq> None}"
    unfolding graph_edges graph_steps_edges sorted_steps_def by (simp add: Un_ac cong: list.case_cong)
  then show ?thesis
    unfolding gate_text by (simp add: edge_def trigger_node_id_def step_node_id_def condition_node_id_def)
qed

lemma graph_edge_count:
  "length (wg_edges (workflow_to_graph v)) =
     length (filter (\<lambda>st. st_condition st \<noteq> None) (wk_steps v)) +
     (if wk_steps v = [] then 0 else length (wk_triggers v) + (length (wk_steps v) - 1))"
proof -
  have "length (filter P (sorted_steps v)) = length (filter P (wk_steps v))" for P
    unfolding sorted_steps_def filter_sort by (rule length_sort)
  moreover have "sorted_steps v = [] \<longleftrightarrow> wk_steps v = []" "length (sorted_steps v) = length (wk_steps v)"
    by (simp_all add: sorted_steps_def flip: length_0_conv)
  ultimately show ?thesis unfolding graph_edges graph_steps_edge_count by simp
qed

lemma trigger_node_ids: "dn_id ` set (map trigger_node (wk_triggers v)) = set (map trigger_node_id (wk_triggers v))"
  by (force simp: trigger_node_def)

lemma graph_edges_closed:
  "\<forall>e \<in> set (wg_edges (workflow_to_graph v)). {de_from e, de_to e} \<subseteq> dn_id ` set (wg_nodes (workflow_to_graph v))"
proof
  fix e assume "e \<in> set (wg_edges (workflow_to_graph v))"
  then show "{de_from e, de_to e} \<subseteq> dn_id ` set (wg_nodes (workflow_to_graph v))"
    using graph_steps_endpoints [of e "map trigger_node_id (wk_triggers v)" None "sorted_steps v"] trigger_node_ids [of v]
    by (auto simp: graph_nodes graph_edges image_Un)
qed

text \<open>Passing a step's gate: straight to the step, or through its condition.\<close>

lemma gate_reaches_step:
  assumes "st \<in> set sts" and "(a, gate_node_id st) \<in> (\<lambda>e. (de_from e, de_to e)) ` set (snd (graph_steps ts prev sts))"
  shows "(a, step_node_id st) \<in> ((\<lambda>e. (de_from e, de_to e)) ` set (snd (graph_steps ts prev sts)))\<^sup>+"
proof (cases "st_condition st")
  case None
  with assms(2) show ?thesis by (simp add: gate_node_id_def r_into_trancl')
next
  case (Some c)
  with assms(1) have "edge (condition_node_id st) (step_node_id st) \<in> set (snd (graph_steps ts prev sts))"
    unfolding graph_steps_edges by (intro UnI1 CollectI exI [of _ st]) simp
  then have "(condition_node_id st, step_node_id st) \<in> (\<lambda>e. (de_from e, de_to e)) ` set (snd (graph_steps ts prev sts))"
    by (rule image_eqI [rotated]) (simp add: edge_def)
  with Some assms(2) show ?thesis by (intro trancl_into_trancl [OF r_into_trancl]) (simp_all add: gate_node_id_def)
qed

lemma chain_reaches:
  assumes "t \<in> set ts" and "i < length sts"
  shows "(t, step_node_id (sts ! i)) \<in> ((\<lambda>e. (de_from e, de_to e)) ` set (snd (graph_steps ts None sts)))\<^sup>+"
  using assms(2)
proof (induction i)
  case 0
  then obtain st rest where sts: "sts = st # rest" by (cases sts) auto
  have "edge t (gate_node_id st) \<in> set (snd (graph_steps ts None sts))"
    using assms(1) by (simp add: sts split_beta Let_def)
  then have "(t, gate_node_id st) \<in> (\<lambda>e. (de_from e, de_to e)) ` set (snd (graph_steps ts None sts))"
    by (rule image_eqI [rotated]) (simp add: edge_def)
  moreover have "st \<in> set sts" and first: "sts ! 0 = st" by (simp_all add: sts)
  ultimately show ?case unfolding first by (intro gate_reaches_step)
next
  case (Suc i)
  then have "edge (step_node_id (sts ! i)) (gate_node_id (sts ! Suc i)) \<in> set (snd (graph_steps ts None sts))"
    unfolding graph_steps_edges by (intro UnI2 CollectI exI [of _ i]) simp
  then have "(step_node_id (sts ! i), gate_node_id (sts ! Suc i)) \<in>
      (\<lambda>e. (de_from e, de_to e)) ` set (snd (graph_steps ts None sts))"
    by (rule image_eqI [rotated]) (simp add: edge_def)
  moreover have "sts ! Suc i \<in> set sts" using Suc.prems by (rule nth_mem)
  ultimately have "(step_node_id (sts ! i), step_node_id (sts ! Suc i)) \<in>
      ((\<lambda>e. (de_from e, de_to e)) ` set (snd (graph_steps ts None sts)))\<^sup>+"
    by (intro gate_reaches_step)
  with Suc.IH [OF Suc_lessD [OF Suc.prems]] show ?case by (rule trancl_trans)
qed

lemma graph_reaches:
  "\<forall>t \<in> set (wk_triggers v). \<forall>st \<in> set (wk_steps v). (''trigger-'' @ tg_id t, ''step-'' @ dec_int (st_order st)) \<in>
     ((\<lambda>e. (de_from e, de_to e)) ` set (wg_edges (workflow_to_graph v)))\<^sup>+"
proof (intro ballI)
  fix t st assume t: "t \<in> set (wk_triggers v)" and "st \<in> set (wk_steps v)"
  then have "st \<in> set (sorted_steps v)" by (simp add: sorted_steps_def)
  then obtain i where i: "i < length (sorted_steps v)" "sorted_steps v ! i = st" by (auto simp: in_set_conv_nth)
  have "trigger_node_id t \<in> set (map trigger_node_id (wk_triggers v))" using t by simp
  from chain_reaches [OF this i(1)]
  show "(''trigger-'' @ tg_id t, ''step-'' @ dec_int (st_order st)) \<in>
     ((\<lambda>e. (de_from e, de_to e)) ` set (wg_edges (workflow_to_graph v)))\<^sup>+"
    unfolding i(2) graph_edges trigger_node_id_def step_node_id_def .
qed

lemma graph_ids_distinct:
  "distinct (map tg_id (wk_triggers v)) \<and> distinct (map st_order (wk_steps v)) \<longrightarrow>
     distinct (map dn_id (wg_nodes (workflow_to_graph v)))"
proof
  assume d: "distinct (map tg_id (wk_triggers v)) \<and> distinct (map st_order (wk_steps v))"
  have "distinct (map dn_id (map trigger_node (wk_triggers v)))"
    using d by (auto simp: distinct_map inj_on_def trigger_node_def)
  moreover have "distinct (map dn_id (concat (map step_nodes (sorted_steps v))))"
    using d by (intro step_nodes_distinct sorted_steps_orders) simp
  moreover have "dn_id ` set (map trigger_node (wk_triggers v)) \<inter> dn_id ` set (concat (map step_nodes (sorted_steps v))) = {}"
  proof -
    have "trigger_node_id t \<notin> dn_id ` set (step_nodes st)" for t st
      by (auto simp: step_nodes_ids split: if_splits)
    then show ?thesis by (fastforce simp: trigger_node_def)
  qed
  ultimately show "distinct (map dn_id (wg_nodes (workflow_to_graph v)))"
    by (simp add: graph_nodes distinct_append image_image)
qed



end
