(* ===== verification/Executions.thy ===== *)
theory Executions
  imports Workflows
begin

text \<open>
  \<^verbatim>\<open>workflow_automation/execution_engine\<close>: running a workflow's steps, with retries, time-outs
  and parallel groups, and resuming an interrupted run; the metrics of
  \<open>workflow_automation/metrics\<close> it feeds and the calls it makes to the telemetry engines of
  \<open>cloud_operations\<close>, which are recorded as a list of effects.
\<close>

section \<open>Executions\<close>

datatype execution_status = ES_PENDING | ES_RUNNING | ES_PAUSED | ES_COMPLETED | ES_FAILED | ES_CANCELLED

fun execution_status_value :: "execution_status \<Rightarrow> pystr" where
  "execution_status_value ES_PENDING = ''pending''"
| "execution_status_value ES_RUNNING = ''running''"
| "execution_status_value ES_PAUSED = ''paused''"
| "execution_status_value ES_COMPLETED = ''completed''"
| "execution_status_value ES_FAILED = ''failed''"
| "execution_status_value ES_CANCELLED = ''cancelled''"

record step_execution_result =
  sx_step_order :: int
  sx_skipped :: bool
  sx_action_result :: "action_result option"

record workflow_execution =
  we_id :: pystr
  we_firm_id :: pystr
  we_workflow_id :: pystr
  we_status :: execution_status
  we_current_step_index :: nat
  we_step_results :: "step_execution_result list"
  we_failure_reason :: "pystr option"
  we_started_at :: "datetime option"
  we_completed_at :: "datetime option"
  we_telemetry_span_id :: "pystr option"

definition execution_key :: "workflow_execution \<Rightarrow> pystr \<times> pystr" where
  "execution_key x = (we_firm_id x, we_id x)"

type_synonym execution_store = "(pystr \<times> pystr, workflow_execution) dict"

definition execution_store_add :: "workflow_execution \<Rightarrow> execution_store \<Rightarrow> execution_store" where
  [store_defs]: "execution_store_add x s = dict_set (execution_key x) x s"

definition execution_store_get :: "execution_store \<Rightarrow> pystr \<times> pystr \<Rightarrow> workflow_execution option" where
  [store_defs]: "execution_store_get s k = dict_get s k"

definition execution_store_list_for_workflow ::
  "execution_store \<Rightarrow> pystr \<Rightarrow> pystr \<Rightarrow> workflow_execution list" where
  [store_defs]: "execution_store_list_for_workflow s firm workflow_id =
     filter (\<lambda>x. we_workflow_id x = workflow_id) (rows_by_key s firm)"

interpretation execution_rows: tenant_store execution_key execution_store_add execution_store_get
    "keyed execution_key" rows_by_key
  using tenant_store_dict [of execution_key]
  by (simp add: execution_store_add_def [abs_def] execution_store_get_def [abs_def])

section \<open>Metrics and telemetry\<close>

record workflow_run_metrics =
  wm_workflow_id :: pystr
  wm_execution_id :: pystr
  wm_duration_ms :: pyfloat
  wm_step_count :: nat
  wm_error_count :: nat
  wm_validation_count :: nat
  wm_cancellation_count :: nat
  wm_retry_count :: nat
  wm_ai_automations_triggered :: nat
  wm_recorded_at :: datetime

text \<open>The metrics engine fans a reading out to every registered sink, each a growing list.\<close>

definition metrics_sink_record :: "workflow_run_metrics \<Rightarrow> workflow_run_metrics list \<Rightarrow> workflow_run_metrics list" where
  "metrics_sink_record m sink = sink @ [m]"

definition metrics_record ::
  "workflow_run_metrics \<Rightarrow> workflow_run_metrics list list \<Rightarrow> workflow_run_metrics list list" where
  "metrics_record m sinks = map (metrics_sink_record m) sinks"

datatype telemetry =
    Workflow_counted pystr pystr
  | Span_started pystr pystr pystr
  | Span_ended pystr bool
  | Error_recorded pystr pystr pystr

section \<open>The engine\<close>

text \<open>
  What the platform does not determine: the clock and the fresh identifiers (by the number of
  draws made so far), how a handler's thread compares with the time-out, the depth of the
  interpreter's stack, and in which order the attempts of a parallel group interleave. A
  handler whose thread times out still runs to its end (\<open>Late\<close>) or never ends (\<open>Never\<close>).
\<close>

datatype pace = In_time | Late | Never

record 'w environment =
  en_clock :: "nat \<Rightarrow> datetime"
  en_uuid :: "nat \<Rightarrow> pystr"
  en_pace :: "action \<Rightarrow> 'w \<Rightarrow> pace"
  en_depth :: nat
  en_schedule :: "nat \<Rightarrow> nat list"

record 'w platform =
  pf_executions :: execution_store
  pf_action_engine :: "'w action_engine"
  pf_condition_engine :: condition_engine
  pf_retry_policy :: retry_policy
  pf_metrics_sinks :: "workflow_run_metrics list list"
  pf_telemetry :: "telemetry list"
  pf_draws :: nat
  pf_world :: 'w

definition draw_time :: "'w environment \<Rightarrow> 'w platform \<Rightarrow> datetime \<times> 'w platform" where
  "draw_time en p = (en_clock en (pf_draws p), p\<lparr>pf_draws := Suc (pf_draws p)\<rparr>)"

definition draw_id :: "'w environment \<Rightarrow> 'w platform \<Rightarrow> pystr \<times> 'w platform" where
  "draw_id en p = (en_uuid en (pf_draws p), p\<lparr>pf_draws := Suc (pf_draws p)\<rparr>)"

definition emit :: "telemetry \<Rightarrow> 'w platform \<Rightarrow> 'w platform" where
  "emit t p = p\<lparr>pf_telemetry := pf_telemetry p @ [t]\<rparr>"

text \<open>One attempt: the handler in its thread under the time-out; an unsuccessful result raises.\<close>

definition run_attempt ::
  "'w environment \<Rightarrow> workflow_execution \<Rightarrow> workflow_step \<Rightarrow> context_map \<Rightarrow> 'w platform
     \<Rightarrow> action_result result \<times> 'w platform" where
  "run_attempt en ex st ctx p =
     (let act = st_action st;
          pace = (if dict_get (ae_handlers (pf_action_engine p)) (ac_action_type act) = None
                  then In_time else en_pace en act (pf_world p))
      in if pace = Never then (Inl TimeoutError, p)
         else
           (let (res, e', w') =
                  execute_action (en_uuid en (pf_draws p)) (en_clock en (pf_draws p)) (we_firm_id ex) (we_id ex)
                    act ctx (pf_action_engine p) (pf_world p);
                p' = p\<lparr>pf_action_engine := e', pf_world := w', pf_draws := Suc (pf_draws p)\<rparr>
            in if pace = Late then (Inl TimeoutError, p')
               else (case res of
                       Inl exc \<Rightarrow> (Inl exc, p')
                     | Inr r \<Rightarrow>
                         if \<not> ar_success r then (Inl (WorkflowExecutionError (ar_detail r)), p')
                         else (Inr r, p'))))"

definition step_runs :: "'w environment \<Rightarrow> condition_engine \<Rightarrow> workflow_step \<Rightarrow> context_map \<Rightarrow> bool result" where
  "step_runs en ce st ctx =
     (case st_condition st of
        None \<Rightarrow> Inr True
      | Some c \<Rightarrow> evaluate (en_depth en) ce c ctx)"

definition skipped_result :: "workflow_step \<Rightarrow> step_execution_result" where
  "skipped_result st = \<lparr>sx_step_order = st_order st, sx_skipped = True, sx_action_result = None\<rparr>"

definition done_result :: "workflow_step \<Rightarrow> action_result \<Rightarrow> step_execution_result" where
  "done_result st r = \<lparr>sx_step_order = st_order st, sx_skipped = False, sx_action_result = Some r\<rparr>"

definition run_step ::
  "'w environment \<Rightarrow> workflow_execution \<Rightarrow> workflow_step \<Rightarrow> context_map \<Rightarrow> 'w platform
     \<Rightarrow> step_execution_result result \<times> 'w platform" where
  "run_step en ex st ctx p =
     (case step_runs en (pf_condition_engine p) st ctx of
        Inl exc \<Rightarrow> (Inl exc, p)
      | Inr False \<Rightarrow> (Inr (skipped_result st), p)
      | Inr True \<Rightarrow>
          (let (res, delays, p') = retry_run (pf_retry_policy p) (run_attempt en ex st ctx) p
           in (res_bind res (\<lambda>r. Inr (done_result st r)), p')))"

subsection \<open>Parallel groups\<close>

text \<open>
  The tasks of a group under \<open>asyncio.gather\<close>: each task is at one of these points, and the
  event loop lets one task make its next attempt at a time, in the order the environment's
  schedule gives (an index of a settled task is passed over; when the schedule is used up the
  tasks left make their attempts in turn). The first task to raise decides the outcome; the
  others are not cancelled, so their attempts still happen.
\<close>

datatype progress =
    Not_started
  | Retrying nat pyexn
  | Finished step_execution_result
  | Raised pyexn

fun settled :: "progress \<Rightarrow> bool" where
  "settled (Finished _) = True"
| "settled (Raised _) = True"
| "settled _ = False"

definition attempt_step ::
  "'w environment \<Rightarrow> workflow_execution \<Rightarrow> workflow_step \<Rightarrow> context_map \<Rightarrow> nat \<Rightarrow> 'w platform
     \<Rightarrow> progress \<times> 'w platform" where
  "attempt_step en ex st ctx attempt p =
     (case run_attempt en ex st ctx p of
        (Inr r, p') \<Rightarrow> (Finished (done_result st r), p')
      | (Inl exc, p') \<Rightarrow>
          (if int attempt < rp_max_attempts (pf_retry_policy p) - 1
           then (case flt_of_int (2 ^ attempt) of
                   Inl overflow \<Rightarrow> (Raised overflow, p')
                 | Inr _ \<Rightarrow> (Retrying (Suc attempt) exc, p'))
           else (Raised exc, p')))"

fun advance ::
  "'w environment \<Rightarrow> workflow_execution \<Rightarrow> workflow_step \<Rightarrow> context_map \<Rightarrow> progress \<Rightarrow> 'w platform
     \<Rightarrow> progress \<times> 'w platform" where
  "advance en ex st ctx Not_started p =
     (case step_runs en (pf_condition_engine p) st ctx of
        Inl exc \<Rightarrow> (Raised exc, p)
      | Inr False \<Rightarrow> (Finished (skipped_result st), p)
      | Inr True \<Rightarrow>
          (if rp_max_attempts (pf_retry_policy p) \<le> 0 then (Raised AssertionError, p)
           else attempt_step en ex st ctx 0 p))"
| "advance en ex st ctx (Retrying attempt _) p = attempt_step en ex st ctx attempt p"
| "advance en ex st ctx settled_task p = (settled_task, p)"

fun gather_loop ::
  "'w environment \<Rightarrow> workflow_execution \<Rightarrow> context_map \<Rightarrow> workflow_step list \<Rightarrow> nat list
     \<Rightarrow> progress list \<Rightarrow> pyexn option \<Rightarrow> 'w platform \<Rightarrow> progress list \<times> pyexn option \<times> 'w platform" where
  "gather_loop en ex ctx members [] tasks first p = (tasks, first, p)"
| "gather_loop en ex ctx members (k # schedule) tasks first p =
     (if k < length tasks \<and> \<not> settled (tasks ! k)
      then (let (task, p') = advance en ex (members ! k) ctx (tasks ! k) p;
                first' = (case (first, task) of (None, Raised exc) \<Rightarrow> Some exc | _ \<Rightarrow> first)
            in gather_loop en ex ctx members schedule (tasks[k := task]) first' p')
      else gather_loop en ex ctx members schedule tasks first p)"

definition in_turn :: "nat \<Rightarrow> nat \<Rightarrow> nat list" where
  "in_turn rounds n = concat (replicate rounds [0..<n])"

fun task_result :: "progress \<Rightarrow> step_execution_result" where
  "task_result (Finished r) = r"
| "task_result _ = \<lparr>sx_step_order = 0, sx_skipped = False, sx_action_result = None\<rparr>"

definition gather_steps ::
  "'w environment \<Rightarrow> workflow_execution \<Rightarrow> workflow_step list \<Rightarrow> context_map \<Rightarrow> 'w platform
     \<Rightarrow> step_execution_result list result \<times> 'w platform" where
  "gather_steps en ex members ctx p =
     (let schedule = en_schedule en (pf_draws p) @
            in_turn (Suc (nat (rp_max_attempts (pf_retry_policy p)))) (length members);
          (tasks, first, p') = gather_loop en ex ctx members schedule (map (\<lambda>_. Not_started) members) None p
      in (case first of None \<Rightarrow> Inr (map task_result tasks) | Some exc \<Rightarrow> Inl exc, p'))"

subsection \<open>The run\<close>

definition record_results :: "step_execution_result list \<Rightarrow> workflow_execution \<Rightarrow> workflow_execution" where
  "record_results rs ex =
     ex\<lparr>we_step_results := we_step_results ex @ rs,
        we_current_step_index := we_current_step_index ex + length rs\<rparr>"

definition same_group :: "pystr option \<Rightarrow> workflow_step \<Rightarrow> bool" where
  "same_group g st \<longleftrightarrow> st_parallel_group st = g"

function run_steps ::
  "'w environment \<Rightarrow> context_map \<Rightarrow> workflow_step list \<Rightarrow> workflow_execution \<Rightarrow> 'w platform
     \<Rightarrow> unit result \<times> workflow_execution \<times> 'w platform" where
  "run_steps en ctx [] ex p = (Inr (), ex, p)"
| "run_steps en ctx (st # sts) ex p =
     (if st_parallel_group st \<noteq> None
      then (let members = st # takeWhile (same_group (st_parallel_group st)) sts
            in case gather_steps en ex members ctx p of
                 (Inl exc, p') \<Rightarrow> (Inl exc, ex, p')
               | (Inr rs, p') \<Rightarrow>
                   run_steps en ctx (dropWhile (same_group (st_parallel_group st)) sts) (record_results rs ex) p')
      else (case run_step en ex st ctx p of
              (Inl exc, p') \<Rightarrow> (Inl exc, ex, p')
            | (Inr r, p') \<Rightarrow> run_steps en ctx sts (record_results [r] ex) p'))"
  by pat_completeness auto
termination
  by (relation "measure (\<lambda>(en, ctx, sts, ex, p). length sts)")
     (auto simp: less_Suc_eq_le length_dropWhile_le)

text \<open>\<open>_close_span\<close>, \<open>_record_failure\<close> and \<open>_record_workflow_metrics\<close>.\<close>

definition close_span :: "workflow_execution \<Rightarrow> 'w platform \<Rightarrow> 'w platform" where
  "close_span ex p =
     (case we_telemetry_span_id ex of
        None \<Rightarrow> p
      | Some span_id \<Rightarrow> emit (Span_ended span_id (we_status ex = ES_FAILED)) p)"

definition record_failure :: "workflow_execution \<Rightarrow> pyexn \<Rightarrow> 'w platform \<Rightarrow> 'w platform" where
  "record_failure ex exc p = emit (Error_recorded (exn_name exc) (exn_str exc) (we_firm_id ex)) p"

definition duration_ms :: "workflow_execution \<Rightarrow> pyfloat" where
  "duration_ms ex =
     (case we_completed_at ex of
        None \<Rightarrow> Fin 0
      | Some completed \<Rightarrow>
          (let started = (case we_started_at ex of None \<Rightarrow> completed | Some t \<Rightarrow> t)
           in flt_mul (round64 (of_int (completed - started) / 1000000)) (Fin 1000)))"

definition record_workflow_metrics ::
  "'w environment \<Rightarrow> workflow_execution \<Rightarrow> 'w platform \<Rightarrow> 'w platform" where
  "record_workflow_metrics en ex p =
     (let (now, p') = draw_time en p
      in p'\<lparr>pf_metrics_sinks := metrics_record
           \<lparr>wm_workflow_id = we_workflow_id ex, wm_execution_id = we_id ex, wm_duration_ms = duration_ms ex,
            wm_step_count = length (we_step_results ex),
            wm_error_count = (if we_status ex = ES_FAILED then 1 else 0), wm_validation_count = 0,
            wm_cancellation_count = (if we_status ex = ES_CANCELLED then 1 else 0), wm_retry_count = 0,
            wm_ai_automations_triggered = 0, wm_recorded_at = now\<rparr> (pf_metrics_sinks p')\<rparr>)"

definition save_execution :: "workflow_execution \<Rightarrow> 'w platform \<Rightarrow> 'w platform" where
  "save_execution ex p = p\<lparr>pf_executions := execution_store_add ex (pf_executions p)\<rparr>"

text \<open>
  The execution object is the one the store holds, so every operation leaves its final value
  there. \<open>sorted_workflow_steps\<close> is \<open>sorted(workflow.steps, key=order)\<close>.
\<close>

definition sorted_workflow_steps :: "workflow \<Rightarrow> workflow_step list" where
  "sorted_workflow_steps v = sort_key st_order (wk_steps v)"

definition run_from ::
  "'w environment \<Rightarrow> workflow_execution \<Rightarrow> workflow \<Rightarrow> context_map \<Rightarrow> 'w platform
     \<Rightarrow> workflow_execution \<times> 'w platform" where
  "run_from en ex v ctx p =
     (let remaining = drop (we_current_step_index ex) (sorted_workflow_steps v);
          (res, ex1, p1) = run_steps en ctx remaining ex p;
          (now, p2) = draw_time en p1;
          (ex2, p3) =
            (case res of
               Inr _ \<Rightarrow> (ex1\<lparr>we_status := ES_COMPLETED, we_completed_at := Some now\<rparr>, p2)
             | Inl exc \<Rightarrow>
                 (let ex' = ex1\<lparr>we_status := ES_FAILED, we_failure_reason := Some (exn_str exc),
                                we_completed_at := Some now\<rparr>
                  in (ex', record_failure ex' exc p2)))
      in (ex2, save_execution ex2 (record_workflow_metrics en ex2 (close_span ex2 p3))))"

definition record_started ::
  "'w environment \<Rightarrow> workflow_execution \<Rightarrow> workflow \<Rightarrow> context_map \<Rightarrow> 'w platform
     \<Rightarrow> workflow_execution \<times> 'w platform" where
  "record_started en ex v ctx p =
     (let p1 = emit (Workflow_counted (wk_name v) (we_firm_id ex)) p
      in case dict_get ctx ''trace_id'' of
           None \<Rightarrow> (ex, p1)
         | Some trace_id \<Rightarrow>
             (let (span_id, p2) = draw_id en p1;
                  ex' = ex\<lparr>we_telemetry_span_id := Some span_id\<rparr>
              in (ex', save_execution ex' (emit (Span_started trace_id span_id (wk_name v)) p2))))"

text \<open>\<open>start\<close> creates, stores and announces the execution, then checks the workflow's conditions.\<close>

definition begin_execution ::
  "'w environment \<Rightarrow> workflow \<Rightarrow> context_map \<Rightarrow> 'w platform \<Rightarrow> workflow_execution \<times> 'w platform" where
  "begin_execution en v ctx p =
     (let (new_id, p1) = draw_id en p;
          (started, p2) = draw_time en p1;
          ex = \<lparr>we_id = new_id, we_firm_id = wk_firm_id v, we_workflow_id = wk_id v,
                we_status = ES_RUNNING, we_current_step_index = 0, we_step_results = [],
                we_failure_reason = None, we_started_at = Some started, we_completed_at = None,
                we_telemetry_span_id = None\<rparr>
      in record_started en ex v ctx (save_execution ex p2))"

definition start_execution ::
  "'w environment \<Rightarrow> workflow \<Rightarrow> context_map \<Rightarrow> 'w platform \<Rightarrow> workflow_execution result \<times> 'w platform" where
  "start_execution en v ctx p =
     (let (ex1, p3) = begin_execution en v ctx p
      in case all_res (\<lambda>c. evaluate (en_depth en) (pf_condition_engine p3) c ctx) (wk_conditions v) of
           Inl exc \<Rightarrow> (Inl exc, p3)
         | Inr False \<Rightarrow>
             (let (now, p4) = draw_time en p3;
                  ex2 = ex1\<lparr>we_status := ES_CANCELLED,
                            we_failure_reason := Some ''Workflow-level conditions not satisfied'',
                            we_completed_at := Some now\<rparr>
              in (Inr ex2, save_execution ex2 p4))
         | Inr True \<Rightarrow> (let (ex2, p4) = run_from en ex1 v ctx p3 in (Inr ex2, p4)))"

definition get_execution :: "pystr \<Rightarrow> pystr \<Rightarrow> 'w platform \<Rightarrow> workflow_execution result" where
  "get_execution firm execution_id p =
     (case execution_store_get (pf_executions p) (firm, execution_id) of
        None \<Rightarrow> Inl (KeyError execution_id)
      | Some ex \<Rightarrow> Inr ex)"

definition resume_execution ::
  "'w environment \<Rightarrow> workflow_execution \<Rightarrow> workflow \<Rightarrow> context_map \<Rightarrow> 'w platform
     \<Rightarrow> workflow_execution result \<times> 'w platform" where
  "resume_execution en ex v ctx p =
     (if we_status ex \<notin> {ES_FAILED, ES_PAUSED}
      then (Inl (WorkflowExecutionError (''Cannot resume execution in status '' @ execution_status_value (we_status ex))), p)
      else (let (ex', p') = run_from en (ex\<lparr>we_status := ES_RUNNING, we_failure_reason := None\<rparr>) v ctx p
            in (Inr ex', p')))"

section \<open>Frames\<close>

text \<open>
  Running steps leaves alone everything but the action log, the world and the draws, and only
  appends to the action log.
\<close>

definition frame_of :: "'w platform \<Rightarrow> _" where
  "frame_of p = (pf_executions p, pf_condition_engine p, pf_retry_policy p, pf_metrics_sinks p,
     pf_telemetry p, ae_handlers (pf_action_engine p))"

definition extends :: "'w platform \<Rightarrow> 'w platform \<Rightarrow> bool" where
  "extends p p' \<longleftrightarrow> frame_of p' = frame_of p \<and>
     (\<exists>tail. ae_entries (pf_action_engine p') = ae_entries (pf_action_engine p) @ tail)"

lemma extends_refl [simp, intro]: "extends p p"
  by (simp add: extends_def)

lemma extends_trans [trans]: "extends p q \<Longrightarrow> extends q r \<Longrightarrow> extends p r"
  by (auto simp: extends_def)

lemma extends_entries: "extends p p' \<Longrightarrow> set (ae_entries (pf_action_engine p)) \<subseteq> set (ae_entries (pf_action_engine p'))"
  by (auto simp: extends_def)

lemma extends_conditions: "extends p p' \<Longrightarrow> pf_condition_engine p' = pf_condition_engine p"
  by (simp add: extends_def frame_of_def)

lemma extends_policy: "extends p p' \<Longrightarrow> pf_retry_policy p' = pf_retry_policy p"
  by (simp add: extends_def frame_of_def)

text \<open>The log holds an entry for this execution and action with result \<open>r\<close>.\<close>

definition journaled :: "workflow_execution \<Rightarrow> action \<Rightarrow> action_result \<Rightarrow> 'w platform \<Rightarrow> bool" where
  "journaled ex act r p \<longleftrightarrow>
     (\<exists>entry \<in> set (ae_entries (pf_action_engine p)). al_firm_id entry = we_firm_id ex \<and>
        al_execution_id entry = we_id ex \<and> al_action_id entry = ac_id act \<and>
        al_action_type entry = ac_action_type act \<and> al_result entry = r)"

lemma journaled_extends: "journaled ex act r p \<Longrightarrow> extends p p' \<Longrightarrow> journaled ex act r p'"
  using extends_entries by (fastforce simp: journaled_def)

text \<open>The call of one attempt: the outcome of the action and the platform it leaves.\<close>

definition attempt_call ::
  "'w environment \<Rightarrow> workflow_execution \<Rightarrow> action \<Rightarrow> context_map \<Rightarrow> 'w platform
     \<Rightarrow> action_result result \<times> 'w platform" where
  "attempt_call en ex act ctx p =
     (let (res, e', w') =
            execute_action (en_uuid en (pf_draws p)) (en_clock en (pf_draws p)) (we_firm_id ex) (we_id ex)
              act ctx (pf_action_engine p) (pf_world p)
      in (res, p\<lparr>pf_action_engine := e', pf_world := w', pf_draws := Suc (pf_draws p)\<rparr>))"

definition attempt_outcome :: "pace \<Rightarrow> action_result result \<Rightarrow> action_result result" where
  "attempt_outcome pace res =
     (if pace = Late then Inl TimeoutError
      else res_bind res (\<lambda>r. if ar_success r then Inr r else Inl (WorkflowExecutionError (ar_detail r))))"

lemma run_attempt_cases:
  obtains "run_attempt en ex st ctx p = (Inl TimeoutError, p)"
  | pace where "run_attempt en ex st ctx p =
      (attempt_outcome pace (fst (attempt_call en ex (st_action st) ctx p)), snd (attempt_call en ex (st_action st) ctx p))"
proof -
  let ?pace = "if dict_get (ae_handlers (pf_action_engine p)) (ac_action_type (st_action st)) = None
                  then In_time else en_pace en (st_action st) (pf_world p)"
  obtain res e' w' where call: "execute_action (en_uuid en (pf_draws p)) (en_clock en (pf_draws p)) (we_firm_id ex)
      (we_id ex) (st_action st) ctx (pf_action_engine p) (pf_world p) = (res, e', w')"
    by (rule prod_cases3)
  show ?thesis
  proof (cases "?pace = Never")
    case True
    then show ?thesis by (intro that(1)) (simp add: run_attempt_def Let_def)
  next
    case False
    then have "run_attempt en ex st ctx p =
      (attempt_outcome ?pace (fst (attempt_call en ex (st_action st) ctx p)), snd (attempt_call en ex (st_action st) ctx p))"
      by (cases res) (auto simp: run_attempt_def Let_def attempt_call_def attempt_outcome_def call)
    then show ?thesis by (rule that(2))
  qed
qed

lemma attempt_call_extends: "extends p (snd (attempt_call en ex act ctx p))"
  by (cases "dict_get (ae_handlers (pf_action_engine p)) (ac_action_type act)")
     (simp_all add: attempt_call_def execute_action_unknown execute_action_known extends_def frame_of_def)

lemma attempt_call_journaled:
  "attempt_call en ex act ctx p = (Inr r, p') \<Longrightarrow> journaled ex act r p'"
  by (cases "dict_get (ae_handlers (pf_action_engine p)) (ac_action_type act)")
     (auto simp: attempt_call_def execute_action_unknown execute_action_known journaled_def)

lemma run_attempt_extends: "extends p (snd (run_attempt en ex st ctx p))"
  by (rule run_attempt_cases [of en ex st ctx p]) (simp_all add: attempt_call_extends)

lemma run_attempt_success:
  assumes "run_attempt en ex st ctx p = (Inr r, p')"
  shows "ar_success r \<and> journaled ex (st_action st) r p'"
proof (rule run_attempt_cases [of en ex st ctx p])
  fix pace
  assume "run_attempt en ex st ctx p =
    (attempt_outcome pace (fst (attempt_call en ex (st_action st) ctx p)), snd (attempt_call en ex (st_action st) ctx p))"
  with assms have out: "attempt_outcome pace (fst (attempt_call en ex (st_action st) ctx p)) = Inr r"
    and p': "p' = snd (attempt_call en ex (st_action st) ctx p)" by simp_all
  then have "fst (attempt_call en ex (st_action st) ctx p) = Inr r \<and> ar_success r"
    by (auto simp: attempt_outcome_def res_bind_Inr_iff split: if_splits)
  then show ?thesis using attempt_call_journaled [of en ex "st_action st" ctx p r p'] p' by (simp add: prod_eq_iff)
qed (use assms in simp)

section \<open>What the result of a step says\<close>

definition step_ok ::
  "'w environment \<Rightarrow> condition_engine \<Rightarrow> context_map \<Rightarrow> workflow_execution \<Rightarrow> 'w platform
     \<Rightarrow> workflow_step \<Rightarrow> step_execution_result \<Rightarrow> bool" where
  "step_ok en ce ctx ex p st r \<longleftrightarrow> sx_step_order r = st_order st \<and>
     (if sx_skipped r
      then step_runs en ce st ctx = Inr False \<and> sx_action_result r = None
      else step_runs en ce st ctx = Inr True \<and>
           (\<exists>a. sx_action_result r = Some a \<and> ar_success a \<and> journaled ex (st_action st) a p))"

lemma step_ok_extends: "step_ok en ce ctx ex p st r \<Longrightarrow> extends p p' \<Longrightarrow> step_ok en ce ctx ex p' st r"
  using journaled_extends [of ex "st_action st" _ p p'] by (auto simp: step_ok_def)

lemma step_ok_skipped: "step_runs en ce st ctx = Inr False \<Longrightarrow> step_ok en ce ctx ex p st (skipped_result st)"
  by (simp add: step_ok_def skipped_result_def)

lemma step_ok_done:
  "step_runs en ce st ctx = Inr True \<Longrightarrow> ar_success a \<Longrightarrow> journaled ex (st_action st) a p \<Longrightarrow>
     step_ok en ce ctx ex p st (done_result st a)"
  by (simp add: step_ok_def done_result_def)

lemma retry_run_extends: "extends p (snd (snd (retry_run pol (run_attempt en ex st ctx) p)))"
  unfolding retry_run_def
  by (rule retry_loop_invariant [where I = "extends p"]) (auto intro: extends_trans run_attempt_extends)

lemma retry_run_result:
  "retry_run pol (run_attempt en ex st ctx) p = (Inr r, delays, p') \<Longrightarrow> ar_success r \<and> journaled ex (st_action st) r p'"
  unfolding retry_run_def
  by (rule retry_loop_result [where I = "\<lambda>_. True" and Q = "\<lambda>r p'. ar_success r \<and> journaled ex (st_action st) r p'"])
     (auto dest: run_attempt_success)

lemma run_step_sound:
  assumes "run_step en ex st ctx p = (res, p')"
  shows "extends p p'" and "res = Inr r \<Longrightarrow> step_ok en (pf_condition_engine p) ctx ex p' st r"
proof -
  obtain res0 ds p0 where retry: "retry_run (pf_retry_policy p) (run_attempt en ex st ctx) p = (res0, ds, p0)"
    by (rule prod_cases3)
  have ext: "extends p p0"
    using retry_run_extends [of p "pf_retry_policy p" en ex st ctx] retry by simp
  show "extends p p'"
    using assms ext retry by (auto simp: run_step_def split: sum.splits bool.splits)
  show "step_ok en (pf_condition_engine p) ctx ex p' st r" if "res = Inr r"
    using assms that retry
    by (auto simp: run_step_def res_bind_Inr_iff split: sum.splits bool.splits
        intro: step_ok_skipped step_ok_done dest: retry_run_result)
qed

section \<open>Groups\<close>

definition attempts_left :: "retry_policy \<Rightarrow> progress \<Rightarrow> nat" where
  "attempts_left pol t =
     (case t of Not_started \<Rightarrow> Suc (nat (rp_max_attempts pol))
      | Retrying k _ \<Rightarrow> nat (rp_max_attempts pol) - k | _ \<Rightarrow> 0)"

definition task_ok ::
  "'w environment \<Rightarrow> condition_engine \<Rightarrow> context_map \<Rightarrow> workflow_execution \<Rightarrow> retry_policy \<Rightarrow> 'w platform
     \<Rightarrow> workflow_step \<Rightarrow> progress \<Rightarrow> bool" where
  "task_ok en ce ctx ex pol p st t \<longleftrightarrow>
     (case t of
        Finished r \<Rightarrow> step_ok en ce ctx ex p st r
      | Retrying k _ \<Rightarrow> int k < rp_max_attempts pol \<and> step_runs en ce st ctx = Inr True
      | _ \<Rightarrow> True)"

lemma task_ok_extends: "task_ok en ce ctx ex pol p st t \<Longrightarrow> extends p p' \<Longrightarrow> task_ok en ce ctx ex pol p' st t"
  by (auto simp: task_ok_def intro: step_ok_extends split: progress.splits)

lemma attempts_left_zero: "task_ok en ce ctx ex pol p st t \<Longrightarrow> attempts_left pol t = 0 \<Longrightarrow> settled t"
  by (auto simp: attempts_left_def task_ok_def split: progress.splits)

lemma attempt_step_ok:
  assumes "step_runs en (pf_condition_engine p) st ctx = Inr True" and "int k < rp_max_attempts (pf_retry_policy p)"
    and "attempt_step en ex st ctx k p = (t', p')"
  shows "extends p p' \<and> task_ok en (pf_condition_engine p) ctx ex (pf_retry_policy p) p' st t' \<and>
     attempts_left (pf_retry_policy p) t' \<le> nat (rp_max_attempts (pf_retry_policy p)) - Suc k"
proof -
  obtain res p0 where run: "run_attempt en ex st ctx p = (res, p0)" by (cases "run_attempt en ex st ctx p")
  have "extends p p0" using run_attempt_extends [of p en ex st ctx] run by simp
  then show ?thesis
    using assms run run_attempt_success
    by (cases res)
       (auto simp: attempt_step_def task_ok_def attempts_left_def split: if_splits sum.splits
         intro!: step_ok_done dest: run_attempt_success)
qed

lemma advance_ok:
  assumes "task_ok en (pf_condition_engine p) ctx ex (pf_retry_policy p) p st t" and "advance en ex st ctx t p = (t', p')"
  shows "extends p p' \<and> task_ok en (pf_condition_engine p) ctx ex (pf_retry_policy p) p' st t' \<and>
     attempts_left (pf_retry_policy p) t' \<le> attempts_left (pf_retry_policy p) t - 1"
proof (cases t)
  case Not_started
  show ?thesis
  proof (cases "step_runs en (pf_condition_engine p) st ctx = Inr True \<and> 0 < rp_max_attempts (pf_retry_policy p)")
    case True
    then have "attempt_step en ex st ctx 0 p = (t', p')" using assms(2) Not_started by auto
    with True attempt_step_ok [of en p st ctx 0 ex t' p'] Not_started show ?thesis
      by (auto simp: attempts_left_def)
  next
    case False
    with assms(2) Not_started show ?thesis
      by (auto simp: task_ok_def attempts_left_def intro: step_ok_skipped split: sum.splits bool.splits if_splits)
  qed
next
  case (Retrying k exc)
  with assms attempt_step_ok [of en p st ctx k ex t' p'] show ?thesis
    by (auto simp: task_ok_def attempts_left_def)
qed (use assms in \<open>auto simp: attempts_left_def\<close>)

definition tasks_ok ::
  "'w environment \<Rightarrow> context_map \<Rightarrow> workflow_execution \<Rightarrow> workflow_step list \<Rightarrow> progress list \<Rightarrow> pyexn option
     \<Rightarrow> 'w platform \<Rightarrow> bool" where
  "tasks_ok en ctx ex members tasks first p \<longleftrightarrow>
     list_all2 (task_ok en (pf_condition_engine p) ctx ex (pf_retry_policy p) p) members tasks \<and>
     (first = None \<longrightarrow> (\<forall>exc. Raised exc \<notin> set tasks))"

lemma gather_loop_ok:
  assumes "tasks_ok en ctx ex members tasks first p"
    and "gather_loop en ex ctx members schedule tasks first p = (tasks', first', p')"
  shows "extends p p' \<and> tasks_ok en ctx ex members tasks' first' p' \<and>
     (\<forall>k < length tasks. attempts_left (pf_retry_policy p) (tasks' ! k) \<le>
        attempts_left (pf_retry_policy p) (tasks ! k) - (if k \<in> set schedule then 1 else 0)) \<and>
     (first \<noteq> None \<longrightarrow> first' = first)"
  using assms
proof (induction schedule arbitrary: tasks first p)
  case Nil
  then show ?case by simp
next
  case (Cons k schedule)
  have len: "length tasks = length members"
    using Cons.prems(1) by (auto simp: tasks_ok_def dest: list_all2_lengthD)
  show ?case
  proof (cases "k < length tasks \<and> \<not> settled (tasks ! k)")
    case True
    obtain t p1 where adv: "advance en ex (members ! k) ctx (tasks ! k) p = (t, p1)"
      by (cases "advance en ex (members ! k) ctx (tasks ! k) p")
    let ?first = "case (first, t) of (None, Raised exc) \<Rightarrow> Some exc | _ \<Rightarrow> first"
    have loop: "gather_loop en ex ctx members schedule (tasks[k := t]) ?first p1 = (tasks', first', p')"
      using Cons.prems(2) True adv by simp
    have "task_ok en (pf_condition_engine p) ctx ex (pf_retry_policy p) p (members ! k) (tasks ! k)"
      using Cons.prems(1) True len by (auto simp: tasks_ok_def list_all2_conv_all_nth)
    note step = advance_ok [OF this adv]
    then have ext: "extends p p1" by simp
    have pol: "pf_retry_policy p1 = pf_retry_policy p" using ext by (rule extends_policy)
    have "task_ok en (pf_condition_engine p) ctx ex (pf_retry_policy p) p1 (members ! j) (tasks[k := t] ! j)"
      if "j < length members" for j
    proof (cases "j = k")
      case True
      then show ?thesis using step that len by simp
    next
      case False
      have "task_ok en (pf_condition_engine p) ctx ex (pf_retry_policy p) p (members ! j) (tasks ! j)"
        using Cons.prems(1) that by (simp add: tasks_ok_def list_all2_conv_all_nth)
      then show ?thesis using False task_ok_extends [OF _ ext] by simp
    qed
    then have "list_all2 (task_ok en (pf_condition_engine p) ctx ex (pf_retry_policy p) p1) members (tasks[k := t])"
      using len by (simp add: list_all2_conv_all_nth)
    moreover have "?first = None \<longrightarrow> (\<forall>exc. Raised exc \<notin> set (tasks[k := t]))"
      using Cons.prems(1) by (auto simp: tasks_ok_def split: option.splits progress.splits dest!: set_update_subset_insert [THEN subsetD])
    ultimately have "tasks_ok en ctx ex members (tasks[k := t]) ?first p1"
      using ext pol extends_conditions [OF ext] by (simp add: tasks_ok_def)
    from Cons.IH [OF this loop] pol ext
    have rest: "extends p p'" "tasks_ok en ctx ex members tasks' first' p'"
      "?first \<noteq> None \<longrightarrow> first' = ?first"
      and left: "j < length tasks \<Longrightarrow> attempts_left (pf_retry_policy p) (tasks' ! j) \<le>
        attempts_left (pf_retry_policy p) (tasks[k := t] ! j) - (if j \<in> set schedule then 1 else 0)" for j
      using extends_trans [of p p1 p'] by auto
    have "attempts_left (pf_retry_policy p) (tasks' ! j) \<le>
        attempts_left (pf_retry_policy p) (tasks ! j) - (if j \<in> set (k # schedule) then 1 else 0)"
      if "j < length tasks" for j
      using left [OF that] step that by (cases "j = k") (auto split: if_splits)
    then show ?thesis using rest by (auto split: option.splits progress.splits)
  next
    case False
    then have loop: "gather_loop en ex ctx members schedule tasks first p = (tasks', first', p')"
      using Cons.prems(2) by (simp only: gather_loop.simps if_False)
    note ih = Cons.IH [OF Cons.prems(1) loop]
    have "attempts_left (pf_retry_policy p) (tasks ! k) = 0" if "k < length tasks"
      using False that by (cases "tasks ! k") (auto simp: attempts_left_def)
    with ih show ?thesis by fastforce
  qed
qed

lemma gather_loop_append:
  "gather_loop en ex ctx members (xs @ ys) tasks first p =
     (let (tasks1, first1, p1) = gather_loop en ex ctx members xs tasks first p
      in gather_loop en ex ctx members ys tasks1 first1 p1)"
  by (induction xs arbitrary: tasks first p) (simp_all add: split_beta Let_def)

lemma gather_loop_rounds:
  assumes "tasks_ok en ctx ex members tasks first p"
    and "gather_loop en ex ctx members (in_turn rounds (length tasks)) tasks first p = (tasks', first', p')"
  shows "extends p p' \<and> tasks_ok en ctx ex members tasks' first' p' \<and> length tasks' = length tasks \<and>
     (\<forall>k < length tasks. attempts_left (pf_retry_policy p) (tasks' ! k) \<le>
        attempts_left (pf_retry_policy p) (tasks ! k) - rounds)"
  using assms
proof (induction rounds arbitrary: tasks first p)
  case 0
  then show ?case by (simp add: in_turn_def)
next
  case (Suc rounds)
  obtain tasks1 first1 p1 where one: "gather_loop en ex ctx members [0..<length tasks] tasks first p = (tasks1, first1, p1)"
    by (rule prod_cases3)
  note a = gather_loop_ok [OF Suc.prems(1) one]
  have len: "length tasks1 = length tasks"
    using a Suc.prems(1) by (auto simp: tasks_ok_def dest!: list_all2_lengthD)
  have "gather_loop en ex ctx members (in_turn rounds (length tasks1)) tasks1 first1 p1 = (tasks', first', p')"
    using Suc.prems(2) one len by (simp add: in_turn_def gather_loop_append)
  from Suc.IH [OF _ this] a
  have b: "extends p1 p'" "tasks_ok en ctx ex members tasks' first' p'" "length tasks' = length tasks"
    "\<forall>k < length tasks. attempts_left (pf_retry_policy p) (tasks' ! k) \<le> attempts_left (pf_retry_policy p) (tasks1 ! k) - rounds"
    using len extends_policy [of p p1] extends_conditions [of p p1] by auto
  have "attempts_left (pf_retry_policy p) (tasks' ! k) \<le> attempts_left (pf_retry_policy p) (tasks ! k) - Suc rounds"
    if "k < length tasks" for k
  proof -
    have "attempts_left (pf_retry_policy p) (tasks' ! k) \<le> attempts_left (pf_retry_policy p) (tasks1 ! k) - rounds"
      using b(4) that by blast
    moreover have "attempts_left (pf_retry_policy p) (tasks1 ! k) \<le> attempts_left (pf_retry_policy p) (tasks ! k) - 1"
      using a that by fastforce
    ultimately show ?thesis by linarith
  qed
  then show ?case using a b extends_trans by blast
qed

lemma gather_steps_sound:
  assumes "gather_steps en ex members ctx p = (res, p')"
  shows "extends p p'" and "res = Inr rs \<Longrightarrow> list_all2 (step_ok en (pf_condition_engine p) ctx ex p') members rs"
proof -
  let ?tasks = "map (\<lambda>_. Not_started) members"
  obtain tasks1 first1 p1 where
    free: "gather_loop en ex ctx members (en_schedule en (pf_draws p)) ?tasks None p = (tasks1, first1, p1)"
    by (rule prod_cases3)
  have "tasks_ok en ctx ex members ?tasks None p"
    by (auto simp: tasks_ok_def task_ok_def list_all2_conv_all_nth)
  note a = gather_loop_ok [OF this free]
  have len: "length tasks1 = length members" using a by (auto simp: tasks_ok_def dest!: list_all2_lengthD)
  obtain tasks2 first2 p2 where rounds: "gather_loop en ex ctx members
      (in_turn (Suc (nat (rp_max_attempts (pf_retry_policy p)))) (length tasks1)) tasks1 first1 p1 = (tasks2, first2, p2)"
    by (rule prod_cases3)
  note b = gather_loop_rounds [OF _ rounds]
  have b: "extends p1 p2" "tasks_ok en ctx ex members tasks2 first2 p2" "length tasks2 = length members"
    "k < length members \<Longrightarrow> attempts_left (pf_retry_policy p) (tasks2 ! k) \<le>
       attempts_left (pf_retry_policy p) (tasks1 ! k) - Suc (nat (rp_max_attempts (pf_retry_policy p)))" for k
    using b a len extends_policy [of p p1] extends_conditions [of p p1] by auto
  have ext: "extends p p2" using a b(1) extends_trans by blast
  have res: "p' = p2" "res = (case first2 of None \<Rightarrow> Inr (map task_result tasks2) | Some exc \<Rightarrow> Inl exc)"
    using assms free rounds len by (auto simp: gather_steps_def gather_loop_append Let_def)
  show "extends p p'" using ext res by simp
  assume rs: "res = Inr rs"
  then have none: "first2 = None" and rs': "rs = map task_result tasks2" using res by (auto split: option.splits)
  have "step_ok en (pf_condition_engine p) ctx ex p2 (members ! k) (task_result (tasks2 ! k))"
    if k: "k < length members" for k
  proof -
    have "attempts_left (pf_retry_policy p) (tasks1 ! k) \<le> Suc (nat (rp_max_attempts (pf_retry_policy p)))"
      by (auto simp: attempts_left_def split: progress.splits)
    then have "attempts_left (pf_retry_policy p) (tasks2 ! k) = 0" using b(4) [OF k] by linarith
    moreover have ok: "task_ok en (pf_condition_engine p) ctx ex (pf_retry_policy p) p2 (members ! k) (tasks2 ! k)"
      using b(2) k extends_policy [OF ext] extends_conditions [OF ext] by (auto simp: tasks_ok_def list_all2_conv_all_nth)
    ultimately have "settled (tasks2 ! k)" by (rule attempts_left_zero [rotated])
    moreover have "tasks2 ! k \<noteq> Raised exc" for exc
      using b(2,3) none k nth_mem [of k tasks2] by (metis tasks_ok_def)
    ultimately show ?thesis using ok by (cases "tasks2 ! k") (auto simp: task_ok_def)
  qed
  then show "list_all2 (step_ok en (pf_condition_engine p) ctx ex p') members rs"
    using b(3) by (simp add: rs' res list_all2_conv_all_nth)
qed

section \<open>Runs\<close>

lemma record_results_simps [simp]:
  "we_firm_id (record_results rs ex) = we_firm_id ex" "we_id (record_results rs ex) = we_id ex"
  "we_step_results (record_results rs ex) = we_step_results ex @ rs"
  "we_current_step_index (record_results rs ex) = we_current_step_index ex + length rs"
  "we_telemetry_span_id (record_results rs ex) = we_telemetry_span_id ex"
  "we_workflow_id (record_results rs ex) = we_workflow_id ex"
  "we_status (record_results rs ex) = we_status ex"
  "we_started_at (record_results rs ex) = we_started_at ex"
  by (simp_all add: record_results_def)

lemma record_results_append: "record_results qs (record_results rs ex) = record_results (rs @ qs) ex"
  by (simp add: record_results_def)

lemma record_results_Nil [simp]: "record_results [] ex = ex"
  by (simp add: record_results_def)

lemma step_ok_same:
  "we_id ex' = we_id ex \<Longrightarrow> we_firm_id ex' = we_firm_id ex \<Longrightarrow> step_ok en ce ctx ex' p = step_ok en ce ctx ex p"
  by (intro ext) (simp add: step_ok_def journaled_def)

lemma steps_ok_extends:
  "list_all2 (step_ok en ce ctx ex p) sts rs \<Longrightarrow> extends p p' \<Longrightarrow> list_all2 (step_ok en ce ctx ex p') sts rs"
  by (rule list_all2_mono, assumption) (rule step_ok_extends)

lemma run_steps_sound:
  assumes "run_steps en ctx sts ex p = (res, ex', p')"
  shows "\<exists>front todo rs. sts = front @ todo \<and> ex' = record_results rs ex \<and> extends p p' \<and>
     list_all2 (step_ok en (pf_condition_engine p) ctx ex p') front rs \<and> (res = Inr () \<longleftrightarrow> todo = [])"
  using assms
proof (induction en ctx sts ex p rule: run_steps.induct)
  case (1 en ctx ex p)
  then show ?case by (intro exI [of _ "[]"]) simp
next
  case (2 en ctx st sts ex p)
  let ?g = "same_group (st_parallel_group st)"
  note IH_group = 2(1) [OF _ refl sym refl] and IH_step = 2(2) [OF _ sym refl]
  define head where "head = (if st_parallel_group st \<noteq> None then st # takeWhile ?g sts else [st])"
  define tail where "tail = (if st_parallel_group st \<noteq> None then dropWhile ?g sts else sts)"
  have split: "st # sts = head @ tail" by (simp add: head_def tail_def)
  show ?case
  proof (cases "\<exists>rs p1. extends p p1 \<and> list_all2 (step_ok en (pf_condition_engine p) ctx ex p1) head rs \<and>
      run_steps en ctx tail (record_results rs ex) p1 = (res, ex', p') \<and>
      (st_parallel_group st \<noteq> None \<longrightarrow> gather_steps en ex head ctx p = (Inr rs, p1)) \<and>
      (st_parallel_group st = None \<longrightarrow> (\<exists>r. run_step en ex st ctx p = (Inr r, p1) \<and> rs = [r]))")
    case True
    then obtain rs p1 where ext: "extends p p1" and ok: "list_all2 (step_ok en (pf_condition_engine p) ctx ex p1) head rs"
      and run: "run_steps en ctx tail (record_results rs ex) p1 = (res, ex', p')"
      and gathered: "st_parallel_group st \<noteq> None \<longrightarrow> gather_steps en ex head ctx p = (Inr rs, p1)"
      and stepped: "st_parallel_group st = None \<longrightarrow> (\<exists>r. run_step en ex st ctx p = (Inr r, p1) \<and> rs = [r])"
      by (elim exE conjE) (rule that)
    have "\<exists>front todo qs. tail = front @ todo \<and> ex' = record_results qs (record_results rs ex) \<and> extends p1 p' \<and>
        list_all2 (step_ok en (pf_condition_engine p1) ctx (record_results rs ex) p') front qs \<and> (res = Inr () \<longleftrightarrow> todo = [])"
    proof (cases "st_parallel_group st = None")
      case True
      then obtain r where "run_step en ex st ctx p = (Inr r, p1)" "rs = [r]" using stepped by blast
      with IH_step [of r p1] True run show ?thesis by (simp add: tail_def)
    next
      case False
      with IH_group [of rs p1] gathered run show ?thesis by (simp add: tail_def head_def)
    qed
    then obtain front todo qs where rest: "tail = front @ todo" "ex' = record_results qs (record_results rs ex)" "extends p1 p'"
      "list_all2 (step_ok en (pf_condition_engine p1) ctx (record_results rs ex) p') front qs" "res = Inr () \<longleftrightarrow> todo = []"
      by blast
    have same: "step_ok en (pf_condition_engine p1) ctx (record_results rs ex) p' = step_ok en (pf_condition_engine p) ctx ex p'"
      unfolding extends_conditions [OF ext] by (rule step_ok_same) simp_all
    have "list_all2 (step_ok en (pf_condition_engine p) ctx ex p') (head @ front) (rs @ qs)"
      using steps_ok_extends [OF ok rest(3)] rest(4) unfolding same by (rule list_all2_appendI)
    then show ?thesis
      using rest(1,2,5) split extends_trans [OF ext rest(3)]
      by (intro exI [of _ "head @ front"] exI [of _ todo] exI [of _ "rs @ qs"]) (simp add: record_results_append)
  next
    case False
    note none = False [unfolded not_ex, rule_format]
    have "isl res \<and> ex' = ex \<and> extends p p'"
    proof (cases "st_parallel_group st = None")
      case True
      obtain r1 p1 where step: "run_step en ex st ctx p = (r1, p1)" by (cases "run_step en ex st ctx p")
      note sound = run_step_sound [OF step]
      show ?thesis
      proof (cases r1)
        case (Inl exc)
        with True step sound(1) 2(3) show ?thesis by auto
      next
        case (Inr r)
        with True step 2(3) have "run_steps en ctx tail (record_results [r] ex) p1 = (res, ex', p')"
          by (simp add: tail_def)
        moreover have "extends p p1" "list_all2 (step_ok en (pf_condition_engine p) ctx ex p1) head [r]"
          using True sound Inr by (auto simp: head_def)
        moreover have "run_step en ex st ctx p = (Inr r, p1) \<and> [r] = [r]" using step Inr by simp
        ultimately show ?thesis using none [of p1 "[r]"] True by simp
      qed
    next
      case grouped: False
      obtain r1 p1 where step: "gather_steps en ex head ctx p = (r1, p1)" by (cases "gather_steps en ex head ctx p")
      note sound = gather_steps_sound [OF step]
      show ?thesis
      proof (cases r1)
        case (Inl exc)
        with grouped step sound(1) 2(3) show ?thesis by (auto simp: head_def)
      next
        case (Inr rs)
        with grouped step 2(3) have "run_steps en ctx tail (record_results rs ex) p1 = (res, ex', p')"
          by (simp add: tail_def head_def)
        moreover have "extends p p1" "list_all2 (step_ok en (pf_condition_engine p) ctx ex p1) head rs"
          using sound Inr by auto
        moreover have "st_parallel_group st \<noteq> None \<longrightarrow> gather_steps en ex head ctx p = (Inr rs, p1)"
          using step Inr by simp
        ultimately show ?thesis using none [of p1 rs] grouped by simp
      qed
    qed
    then have a: "isl res" and b: "ex' = ex" and c: "extends p p'" by simp_all
    from a have "res \<noteq> Inr ()" by (cases res) simp_all
    with b c have "st # sts = [] @ (st # sts) \<and> ex' = record_results [] ex \<and> extends p p' \<and>
       list_all2 (step_ok en (pf_condition_engine p) ctx ex p') [] [] \<and> (res = Inr () \<longleftrightarrow> st # sts = [])"
      by simp
    then show ?thesis by (intro exI)
  qed
qed

text \<open>The platform outside the action log, the world, the metrics, the telemetry and the saved execution.\<close>

definition saved :: "workflow_execution \<Rightarrow> 'w platform \<Rightarrow> bool" where
  "saved ex p \<longleftrightarrow> get_execution (we_firm_id ex) (we_id ex) p = Inr ex"

lemma saved_save [simp]: "saved ex (save_execution ex p)"
  by (simp add: saved_def get_execution_def save_execution_def execution_store_add_def execution_store_get_def
      execution_key_def update_conv')

lemma finish_simps [simp]:
  "pf_action_engine (save_execution ex p) = pf_action_engine p"
  "pf_action_engine (record_workflow_metrics en ex p) = pf_action_engine p"
  "pf_action_engine (close_span ex p) = pf_action_engine p"
  "pf_action_engine (record_failure ex exc p) = pf_action_engine p"
  "pf_action_engine (emit t p) = pf_action_engine p"
  "pf_condition_engine (save_execution ex p) = pf_condition_engine p"
  "pf_condition_engine (emit t p) = pf_condition_engine p"
  "pf_metrics_sinks (save_execution ex p) = pf_metrics_sinks p"
  "pf_metrics_sinks (emit t p) = pf_metrics_sinks p"
  "pf_metrics_sinks (close_span ex p) = pf_metrics_sinks p"
  "pf_metrics_sinks (record_failure ex exc p) = pf_metrics_sinks p"
  by (simp_all add: save_execution_def record_workflow_metrics_def close_span_def record_failure_def emit_def
      draw_time_def split: option.split)

text \<open>What a run from the current index on does to the execution and the platform.\<close>

definition ran ::
  "'w environment \<Rightarrow> workflow \<Rightarrow> context_map \<Rightarrow> 'w platform \<Rightarrow> workflow_execution \<Rightarrow> workflow_execution
     \<Rightarrow> 'w platform \<Rightarrow> step_execution_result list \<Rightarrow> bool" where
  "ran en v ctx p ex ex' p' rs \<longleftrightarrow>
     we_id ex' = we_id ex \<and> we_firm_id ex' = we_firm_id ex \<and> we_workflow_id ex' = we_workflow_id ex \<and>
     we_step_results ex' = we_step_results ex @ rs \<and>
     we_current_step_index ex' = we_current_step_index ex + length rs \<and>
     list_all2 (step_ok en (pf_condition_engine p) ctx ex' p')
       (take (length rs) (drop (we_current_step_index ex) (sorted_workflow_steps v))) rs \<and>
     (if length rs = length (sorted_workflow_steps v) - we_current_step_index ex
      then we_status ex' = ES_COMPLETED
      else we_status ex' = ES_FAILED \<and> we_failure_reason ex' \<noteq> None) \<and>
     length rs \<le> length (sorted_workflow_steps v) - we_current_step_index ex \<and>
     we_completed_at ex' \<noteq> None \<and> saved ex' p'"

lemma run_from_ran:
  assumes "run_from en ex v ctx p = (ex', p')"
  shows "\<exists>rs. ran en v ctx p ex ex' p' rs"
proof -
  let ?remaining = "drop (we_current_step_index ex) (sorted_workflow_steps v)"
  obtain res ex1 p1 where run: "run_steps en ctx ?remaining ex p = (res, ex1, p1)" by (rule prod_cases3)
  from run_steps_sound [OF run] obtain front todo rs where split: "?remaining = front @ todo"
    and ex1: "ex1 = record_results rs ex" and ok: "list_all2 (step_ok en (pf_condition_engine p) ctx ex p1) front rs"
    and res: "res = Inr () \<longleftrightarrow> todo = []" by blast
  have len: "length rs = length front" using ok by (simp add: list_all2_lengthD)
  then have taken: "take (length rs) ?remaining = front" by (simp add: split)
  have total: "length (sorted_workflow_steps v) - we_current_step_index ex = length front + length todo"
    using split by (metis length_append length_drop)
  have p': "pf_action_engine p' = pf_action_engine p1"
    using assms run by (auto simp: run_from_def Let_def draw_time_def split: sum.splits)
  have ids: "we_id ex' = we_id ex" "we_firm_id ex' = we_firm_id ex"
    using assms run ex1 by (auto simp: run_from_def Let_def draw_time_def split: sum.splits)
  have "step_ok en (pf_condition_engine p) ctx ex' p' = step_ok en (pf_condition_engine p) ctx ex p1"
    using ids p' by (intro ext) (simp add: step_ok_def journaled_def)
  with ok taken have "list_all2 (step_ok en (pf_condition_engine p) ctx ex' p') (take (length rs) ?remaining) rs"
    by simp
  moreover have "we_workflow_id ex' = we_workflow_id ex \<and> we_step_results ex' = we_step_results ex @ rs \<and>
      we_current_step_index ex' = we_current_step_index ex + length rs \<and> we_completed_at ex' \<noteq> None \<and> saved ex' p' \<and>
      (if res = Inr () then we_status ex' = ES_COMPLETED else we_status ex' = ES_FAILED \<and> we_failure_reason ex' \<noteq> None)"
    using assms run ex1 by (cases res) (auto simp: run_from_def Let_def draw_time_def)
  ultimately show ?thesis
    using ids res len total by (intro exI [of _ rs]) (auto simp: ran_def)
qed

lemma run_from_metrics:
  assumes "run_from en ex v ctx p = (ex', p')"
  shows "\<exists>m. pf_metrics_sinks p' = map (\<lambda>sink. sink @ [m]) (pf_metrics_sinks p) \<and> wm_cancellation_count m = 0 \<and>
     wm_step_count m = length (we_step_results ex') \<and> wm_execution_id m = we_id ex \<and>
     (wm_error_count m = 1 \<longleftrightarrow> we_status ex' = ES_FAILED)"
proof -
  obtain res ex1 p1 where run: "run_steps en ctx (drop (we_current_step_index ex) (sorted_workflow_steps v)) ex p = (res, ex1, p1)"
    by (rule prod_cases3)
  from run_steps_sound [OF run] have "pf_metrics_sinks p1 = pf_metrics_sinks p" and "we_id ex1 = we_id ex"
    by (auto simp: extends_def frame_of_def)
  with assms run show ?thesis
    by (cases res)
       (auto simp: run_from_def Let_def draw_time_def record_workflow_metrics_def metrics_record_def
         metrics_sink_record_def [abs_def])
qed

section \<open>A group of one\<close>

text \<open>What a settled outcome of a sequential step is as the state of a task.\<close>

definition task_of :: "step_execution_result result \<Rightarrow> progress" where
  "task_of res = (case res of Inr r \<Rightarrow> Finished r | Inl exc \<Rightarrow> Raised exc)"

definition raised_of :: "step_execution_result result \<Rightarrow> pyexn option" where
  "raised_of res = (case res of Inr r \<Rightarrow> None | Inl exc \<Rightarrow> Some exc)"

lemma gather_loop_settled:
  "settled t \<Longrightarrow> gather_loop en ex ctx [st] schedule [t] first p = ([t], first, p)"
  by (induction schedule) auto

lemma gather_loop_pass:
  "0 < k \<Longrightarrow> gather_loop en ex ctx [st] (k # schedule) [t] first p = gather_loop en ex ctx [st] schedule [t] first p"
  by simp

definition retry_rest ::
  "'w environment \<Rightarrow> workflow_execution \<Rightarrow> workflow_step \<Rightarrow> context_map \<Rightarrow> nat \<Rightarrow> pyexn option \<Rightarrow> 'w platform
     \<Rightarrow> step_execution_result result \<times> 'w platform" where
  "retry_rest en ex st ctx k e p =
     (let (res, delays, p') = retry_loop (pf_retry_policy p) (run_attempt en ex st ctx) k
            (nat (rp_max_attempts (pf_retry_policy p)) - k) e p
      in (res_bind res (\<lambda>r. Inr (done_result st r)), p'))"

lemma retry_rest_step:
  assumes "int k < rp_max_attempts (pf_retry_policy p)"
  shows "retry_rest en ex st ctx k e p =
     (case attempt_step en ex st ctx k p of
        (Finished r, p') \<Rightarrow> (Inr r, p')
      | (Raised exc, p') \<Rightarrow> (Inl exc, p')
      | (Retrying j exc, p') \<Rightarrow> retry_rest en ex st ctx j (Some exc) p'
      | (Not_started, p') \<Rightarrow> (Inl AssertionError, p'))"
proof -
  let ?pol = "pf_retry_policy p"
  obtain left where left: "nat (rp_max_attempts ?pol) - k = Suc left"
    using assms by (cases "nat (rp_max_attempts ?pol) - k") auto
  have left': "nat (rp_max_attempts ?pol) - Suc k = left" using left by simp
  obtain res p1 where run: "run_attempt en ex st ctx p = (res, p1)" by (cases "run_attempt en ex st ctx p")
  have pol: "pf_retry_policy p1 = ?pol"
    using run_attempt_extends [of p en ex st ctx] run by (intro extends_policy) simp
  show ?thesis
  proof (cases res)
    case (Inr r)
    with run show ?thesis by (simp add: retry_rest_def left attempt_step_def)
  next
    case (Inl exc)
    show ?thesis
    proof (cases "int k < rp_max_attempts ?pol - 1")
      case True
      with run Inl show ?thesis
        by (cases "flt_of_int (2 ^ k)") (simp_all add: retry_rest_def left attempt_step_def pol left' split_beta Let_def)
    next
      case False
      then have "left = 0" using left by linarith
      with False run Inl show ?thesis by (simp add: retry_rest_def left attempt_step_def)
    qed
  qed
qed

lemma attempt_step_retrying:
  "attempt_step en ex st ctx k p = (Retrying j exc, p') \<Longrightarrow>
     j = Suc k \<and> int j < rp_max_attempts (pf_retry_policy p) \<and> pf_retry_policy p' = pf_retry_policy p"
  using run_attempt_extends [of p en ex st ctx]
  by (auto simp: attempt_step_def extends_policy split: prod.splits sum.splits if_splits)

lemma attempt_step_not_started: "attempt_step en ex st ctx k p \<noteq> (Not_started, p')"
  by (auto simp: attempt_step_def split: prod.splits sum.splits if_splits)

lemma gather_loop_retrying:
  assumes "int k < rp_max_attempts (pf_retry_policy p)"
    and "nat (rp_max_attempts (pf_retry_policy p)) - k \<le> count_list schedule 0"
    and "retry_rest en ex st ctx k (Some exc) p = (res, p')"
  shows "gather_loop en ex ctx [st] schedule [Retrying k exc] None p = ([task_of res], raised_of res, p')"
  using assms
proof (induction schedule arbitrary: k exc p)
  case Nil
  then show ?case by simp
next
  case (Cons i schedule)
  show ?case
  proof (cases "i = 0")
    case False
    with Cons show ?thesis by simp
  next
    case True
    obtain t p1 where step: "attempt_step en ex st ctx k p = (t, p1)" by (cases "attempt_step en ex st ctx k p")
    note rest = retry_rest_step [OF Cons.prems(1), of en ex st ctx "Some exc", unfolded Cons.prems(3) step]
    show ?thesis
    proof (cases t)
      case Not_started
      then show ?thesis using step attempt_step_not_started by blast
    next
      case (Retrying j exc')
      note r = attempt_step_retrying [OF step [unfolded Retrying]]
      have "gather_loop en ex ctx [st] schedule [Retrying j exc'] None p1 = ([task_of res], raised_of res, p')"
        using r Cons.prems(2) True rest Retrying by (intro Cons.IH) auto
      with True step Retrying show ?thesis by simp
    qed (use True step rest in \<open>simp_all add: gather_loop_settled task_of_def raised_of_def\<close>)
  qed
qed

lemma count_in_turn_one: "count_list (in_turn rounds 1) 0 = rounds"
  by (induction rounds) (simp_all add: in_turn_def)

lemma gather_loop_fresh:
  assumes "Suc (nat (rp_max_attempts (pf_retry_policy p))) \<le> count_list schedule 0"
    and "run_step en ex st ctx p = (res, p')"
  shows "gather_loop en ex ctx [st] schedule [Not_started] None p = ([task_of res], raised_of res, p')"
  using assms(1)
proof (induction schedule)
  case Nil
  then show ?case by simp
next
  case (Cons i schedule)
  show ?case
  proof (cases "i = 0")
    case False
    with Cons show ?thesis by simp
  next
    case True
    show ?thesis
    proof (cases "step_runs en (pf_condition_engine p) st ctx = Inr True")
      case False
      with assms(2) True show ?thesis
        by (auto simp: run_step_def gather_loop_settled task_of_def raised_of_def split: sum.splits bool.splits)
    next
      case runs: True
      then have res: "retry_rest en ex st ctx 0 None p = (res, p')"
        using assms(2) by (simp add: run_step_def retry_rest_def retry_run_def)
      show ?thesis
      proof (cases "0 < rp_max_attempts (pf_retry_policy p)")
        case False
        with runs res True show ?thesis
          by (auto simp: retry_rest_def gather_loop_settled task_of_def raised_of_def)
      next
        case pos: True
        obtain t p1 where step: "attempt_step en ex st ctx 0 p = (t, p1)" by (cases "attempt_step en ex st ctx 0 p")
        have k: "int 0 < rp_max_attempts (pf_retry_policy p)" using pos by simp
        note rest = retry_rest_step [OF k, of en ex st ctx None, unfolded res step]
        have adv: "advance en ex st ctx Not_started p = (t, p1)" using runs pos step by simp
        show ?thesis
        proof (cases t)
          case Not_started
          then show ?thesis using step attempt_step_not_started by blast
        next
          case (Retrying j exc')
          note r = attempt_step_retrying [OF step [unfolded Retrying]]
          have "gather_loop en ex ctx [st] schedule [Retrying j exc'] None p1 = ([task_of res], raised_of res, p')"
            using r Cons.prems True rest Retrying by (intro gather_loop_retrying) auto
          with True adv Retrying show ?thesis by simp
        qed (use True adv rest in \<open>simp_all add: gather_loop_settled task_of_def raised_of_def\<close>)
      qed
    qed
  qed
qed

lemma begin_execution_facts:
  assumes "begin_execution en v ctx p = (ex, p')"
  shows "we_id ex = en_uuid en (pf_draws p)" "we_firm_id ex = wk_firm_id v" "we_status ex = ES_RUNNING"
    "we_step_results ex = []" "we_current_step_index ex = 0"
    "pf_condition_engine p' = pf_condition_engine p" "pf_action_engine p' = pf_action_engine p"
    "pf_world p' = pf_world p" "pf_metrics_sinks p' = pf_metrics_sinks p" "saved ex p'"
    "\<forall>trace_id. dict_get ctx ''trace_id'' = Some trace_id \<longrightarrow>
        (\<exists>span_id. we_telemetry_span_id ex = Some span_id \<and>
           pf_telemetry p' = pf_telemetry p @
             [Workflow_counted (wk_name v) (wk_firm_id v), Span_started trace_id span_id (wk_name v)])"
  using assms
  by (auto simp: begin_execution_def record_started_def draw_id_def draw_time_def Let_def save_execution_def
      emit_def saved_def get_execution_def store_defs execution_key_def update_conv' split: option.splits)

lemma start_cases:
  obtains ex1 p3 ex2 p4 where "start_execution en v ctx p = (Inr ex2, p4)" "run_from en ex1 v ctx p3 = (ex2, p4)"
      "pf_metrics_sinks p3 = pf_metrics_sinks p"
  | "pf_metrics_sinks (snd (start_execution en v ctx p)) = pf_metrics_sinks p"
proof -
  obtain ex1 p3 where begun: "begin_execution en v ctx p = (ex1, p3)" by (cases "begin_execution en v ctx p")
  note sinks = begin_execution_facts(9) [OF begun]
  show ?thesis
  proof (cases "all_res (\<lambda>c. evaluate (en_depth en) (pf_condition_engine p3) c ctx) (wk_conditions v) = Inr True")
    case True
    then show ?thesis using that(1) sinks begun by (cases "run_from en ex1 v ctx p3") (simp add: start_execution_def)
  next
    case False
    then have "pf_metrics_sinks (snd (start_execution en v ctx p)) = pf_metrics_sinks p"
      using sinks begun by (auto simp: start_execution_def draw_time_def Let_def split: sum.split bool.split)
    then show ?thesis by (rule that(2))
  qed
qed

lemma start_true:
  assumes "all_res (\<lambda>c. evaluate (en_depth en) (pf_condition_engine p) c ctx) (wk_conditions v) = Inr True"
  shows "\<exists>ex1 p3 ex p' rs. start_execution en v ctx p = (Inr ex, p') \<and> ran en v ctx p3 ex1 ex p' rs \<and>
     pf_condition_engine p3 = pf_condition_engine p \<and>
     we_step_results ex1 = [] \<and> we_current_step_index ex1 = 0 \<and> we_firm_id ex1 = wk_firm_id v"
proof -
  obtain ex1 p3 where begun: "begin_execution en v ctx p = (ex1, p3)" by (cases "begin_execution en v ctx p")
  note facts = begin_execution_facts [OF begun]
  obtain ex p' where run: "run_from en ex1 v ctx p3 = (ex, p')" by (cases "run_from en ex1 v ctx p3")
  from run_from_ran [OF run] obtain rs where "ran en v ctx p3 ex1 ex p' rs" by blast
  moreover have "start_execution en v ctx p = (Inr ex, p')"
    using begun run assms facts(6) by (simp add: start_execution_def)
  ultimately show ?thesis using facts by blast
qed

section \<open>A small platform\<close>

text \<open>One handler that succeeds, a clock that counts, and a workflow of one conditional step.\<close>

definition demo_environment :: "unit environment" where
  "demo_environment = \<lparr>en_clock = int, en_uuid = (\<lambda>n. replicate n CHR ''u''), en_pace = (\<lambda>_ _. In_time),
     en_depth = 4, en_schedule = (\<lambda>_. [])\<rparr>"

definition demo_platform :: "unit platform" where
  "demo_platform = \<lparr>pf_executions = [],
     pf_action_engine = action_engine_init
       [(''ok'', \<lambda>_ _ w. (Inr \<lparr>ar_success = True, ar_detail = [], ar_output = []\<rparr>, w))],
     pf_condition_engine = condition_engine_init, pf_retry_policy = default_retry_policy,
     pf_metrics_sinks = [[]], pf_telemetry = [], pf_draws = 0, pf_world = ()\<rparr>"

definition demo_step :: workflow_step where
  "demo_step = \<lparr>st_order = 0, st_name = [],
     st_action = \<lparr>ac_id = ''a'', ac_workflow_id = ''w'', ac_action_type = ''ok'', ac_config = [],
                  ac_requires_approval = False\<rparr>,
     st_condition = None, st_parallel_group = None\<rparr>"

definition demo_workflow :: workflow where
  "demo_workflow = \<lparr>wk_id = ''w'', wk_workflow_key = ''k'', wk_firm_id = ''f'', wk_name = ''n'', wk_version = 1,
     wk_owner = [], wk_description = [], wk_triggers = [], wk_conditions = [cond_role_is ''admin''],
     wk_steps = [demo_step], wk_status = WS_ACTIVE, wk_created_at = 0\<rparr>"

lemmas demo_defs = demo_environment_def demo_platform_def demo_workflow_def condition_engine_init_def

section \<open>Properties\<close>

text \<open>
  A parallel group of a single step runs exactly as the step alone would: whatever the
  schedule of the event loop, gathering it makes the same attempts, leaves the same platform
  and yields the same result or raises the same exception.
\<close>

lemma gather_single:
  "gather_steps en ex [st] ctx p =
     (case run_step en ex st ctx p of (res, p') \<Rightarrow> (res_bind res (\<lambda>r. Inr [r]), p'))"
proof -
  obtain res p' where run: "run_step en ex st ctx p = (res, p')" by (cases "run_step en ex st ctx p")
  let ?schedule = "en_schedule en (pf_draws p) @ in_turn (Suc (nat (rp_max_attempts (pf_retry_policy p)))) 1"
  have "count_list xs 0 + Suc (nat (rp_max_attempts (pf_retry_policy p))) \<le>
      count_list (xs @ in_turn (Suc (nat (rp_max_attempts (pf_retry_policy p)))) 1) 0" for xs
    by (simp only: count_list_append count_in_turn_one)
  then have "Suc (nat (rp_max_attempts (pf_retry_policy p))) \<le> count_list ?schedule 0"
    by (meson le_add2 le_trans)
  from gather_loop_fresh [OF this run] show ?thesis
    using run by (cases res) (simp_all add: gather_steps_def task_of_def raised_of_def)
qed

text \<open>
  The units a run is made of: a step outside every group by itself, and the longest stretches of
  steps sharing a group.
\<close>

definition unit_of_steps :: "workflow_step list \<Rightarrow> bool" where
  "unit_of_steps u \<longleftrightarrow> u \<noteq> [] \<and> (\<forall>st \<in> set u. st_parallel_group st = st_parallel_group (hd u)) \<and>
     (st_parallel_group (hd u) = None \<longrightarrow> length u = 1)"

fun units_apart :: "workflow_step list list \<Rightarrow> bool" where
  "units_apart (u # w # us) \<longleftrightarrow>
     (st_parallel_group (hd u) = None \<or> st_parallel_group (hd w) \<noteq> st_parallel_group (hd u)) \<and> units_apart (w # us)"
| "units_apart us \<longleftrightarrow> True"

definition units_of :: "workflow_step list \<Rightarrow> workflow_step list list \<Rightarrow> bool" where
  "units_of sts us \<longleftrightarrow> concat us = sts \<and> (\<forall>u \<in> set us. unit_of_steps u) \<and> units_apart us"

text \<open>
  A run of units one after the other on the platform: each starts where the one before ended, and
  the first that raises is the last one to run.
\<close>

definition run_unit ::
  "'w environment \<Rightarrow> context_map \<Rightarrow> workflow_execution \<Rightarrow> workflow_step list \<Rightarrow> 'w platform
     \<Rightarrow> step_execution_result list result \<times> 'w platform" where
  "run_unit en ctx ex u p =
     (if st_parallel_group (hd u) = None
      then (case run_step en ex (hd u) ctx p of (res, p') \<Rightarrow> (res_bind res (\<lambda>r. Inr [r]), p'))
      else gather_steps en ex u ctx p)"

inductive units_run ::
  "'w environment \<Rightarrow> context_map \<Rightarrow> workflow_execution \<Rightarrow> workflow_step list list \<Rightarrow> 'w platform
     \<Rightarrow> step_execution_result list \<Rightarrow> pyexn option \<Rightarrow> 'w platform \<Rightarrow> bool" for en ctx ex where
  all_ran: "units_run en ctx ex [] p [] None p"
| unit_raised: "run_unit en ctx ex u p = (Inl exc, p') \<Longrightarrow> units_run en ctx ex (u # us) p [] (Some exc) p'"
| unit_ran: "run_unit en ctx ex u p = (Inr rs, p1) \<Longrightarrow> units_run en ctx ex us p1 qs stop p' \<Longrightarrow>
     units_run en ctx ex (u # us) p (rs @ qs) stop p'"

text \<open>
  Why a step raises: evaluating its condition raised, or the condition holds and some attempt of
  its action failed with that exception - it ran into the time-out, raised, or gave an unsuccessful
  result - or the policy allows no attempt at all, or the delay before a retry is too large a float.
\<close>

definition attempt_raises ::
  "'w environment \<Rightarrow> workflow_execution \<Rightarrow> action \<Rightarrow> context_map \<Rightarrow> 'w platform \<Rightarrow> pyexn \<Rightarrow> bool" where
  "attempt_raises en ex act ctx q exc \<longleftrightarrow>
     exc = TimeoutError \<and> dict_get (ae_handlers (pf_action_engine q)) (ac_action_type act) \<noteq> None \<and>
       en_pace en act (pf_world q) \<noteq> In_time \<or>
     (case fst (execute_action (en_uuid en (pf_draws q)) (en_clock en (pf_draws q)) (we_firm_id ex) (we_id ex)
              act ctx (pf_action_engine q) (pf_world q)) of
        Inl e \<Rightarrow> exc = e
      | Inr r \<Rightarrow> \<not> ar_success r \<and> exc = WorkflowExecutionError (ar_detail r))"

definition step_raises ::
  "'w environment \<Rightarrow> context_map \<Rightarrow> workflow_execution \<Rightarrow> 'w platform \<Rightarrow> workflow_step \<Rightarrow> pyexn \<Rightarrow> bool" where
  "step_raises en ctx ex p st exc \<longleftrightarrow>
     step_runs en (pf_condition_engine p) st ctx = Inl exc \<or>
     step_runs en (pf_condition_engine p) st ctx = Inr True \<and>
       ((\<exists>q. extends p q \<and> attempt_raises en ex (st_action st) ctx q exc) \<or>
        rp_max_attempts (pf_retry_policy p) \<le> 0 \<and> exc = AssertionError \<or>
        (\<exists>k. int k < rp_max_attempts (pf_retry_policy p) - 1 \<and> flt_of_int (2 ^ k) = Inl exc))"

lemma run_attempt_raises:
  "run_attempt en ex st ctx p = (Inl exc, p') \<Longrightarrow> attempt_raises en ex (st_action st) ctx p exc"
  unfolding run_attempt_def attempt_raises_def Let_def
  by (auto split: if_splits prod.splits sum.splits)

lemma attempt_step_raises:
  assumes "extends p0 p" and "step_runs en (pf_condition_engine p0) st ctx = Inr True"
    and "attempt_step en ex st ctx k p = (Raised exc, p')"
  shows "step_raises en ctx ex p0 st exc"
proof -
  have pol: "pf_retry_policy p = pf_retry_policy p0" using assms(1) by (rule extends_policy)
  obtain res p1 where run: "run_attempt en ex st ctx p = (res, p1)" by (rule prod.exhaust)
  have "(\<exists>q. extends p0 q \<and> attempt_raises en ex (st_action st) ctx q exc) \<or>
      (\<exists>k. int k < rp_max_attempts (pf_retry_policy p0) - 1 \<and> flt_of_int (2 ^ k) = Inl exc)"
  proof (cases res)
    case (Inl e)
    with run have "attempt_raises en ex (st_action st) ctx p e" by (simp add: run_attempt_raises)
    with assms(1) have at: "\<exists>q. extends p0 q \<and> attempt_raises en ex (st_action st) ctx q e" by blast
    show ?thesis
    proof (cases "int k < rp_max_attempts (pf_retry_policy p) - 1")
      case True
      with assms(3) run Inl have "flt_of_int (2 ^ k) = Inl exc"
        by (cases "flt_of_int (2 ^ k)") (simp_all add: attempt_step_def)
      with True pol show ?thesis by auto
    next
      case False
      with assms(3) run Inl at show ?thesis by (simp add: attempt_step_def)
    qed
  next
    case (Inr r)
    with assms(3) run show ?thesis by (simp add: attempt_step_def)
  qed
  with assms(2) show ?thesis by (auto simp: step_raises_def)
qed

lemma advance_raises:
  assumes ext: "extends p0 p" and ok: "task_ok en (pf_condition_engine p) ctx ex (pf_retry_policy p) p st t"
    and "\<not> settled t" and adv: "advance en ex st ctx t p = (Raised exc, p')"
  shows "step_raises en ctx ex p0 st exc"
proof -
  have ce: "pf_condition_engine p = pf_condition_engine p0" and pol: "pf_retry_policy p = pf_retry_policy p0"
    using ext by (simp_all add: extends_conditions extends_policy)
  show ?thesis
  proof (cases t)
    case Not_started
    show ?thesis
    proof (cases "step_runs en (pf_condition_engine p0) st ctx = Inr True \<and> 0 < rp_max_attempts (pf_retry_policy p0)")
      case True
      with adv Not_started have "attempt_step en ex st ctx 0 p = (Raised exc, p')" by (simp add: ce pol)
      with True ext show ?thesis by (auto intro: attempt_step_raises)
    next
      case False
      with adv Not_started show ?thesis
        by (auto simp: step_raises_def ce pol split: sum.splits bool.splits if_splits)
    qed
  next
    case (Retrying k e)
    then have "step_runs en (pf_condition_engine p0) st ctx = Inr True" using ok by (simp add: task_ok_def ce)
    with adv Retrying ext show ?thesis by (auto intro: attempt_step_raises)
  qed (use assms(3) in simp_all)
qed

lemma gather_loop_raises:
  assumes "extends p0 p" and "tasks_ok en ctx ex members tasks first p"
    and "first = None \<or> (\<exists>st \<in> set members. \<exists>e. first = Some e \<and> step_raises en ctx ex p0 st e)"
    and "gather_loop en ex ctx members schedule tasks first p = (tasks', Some exc, p')"
  shows "\<exists>st \<in> set members. step_raises en ctx ex p0 st exc"
  using assms
proof (induction schedule arbitrary: tasks first p)
  case (Cons k schedule)
  have len: "length tasks = length members" using Cons.prems(2) by (auto simp: tasks_ok_def dest: list_all2_lengthD)
  show ?case
  proof (cases "k < length tasks \<and> \<not> settled (tasks ! k)")
    case True
    obtain t p1 where adv: "advance en ex (members ! k) ctx (tasks ! k) p = (t, p1)" by (rule prod.exhaust)
    let ?first = "case (first, t) of (None, Raised exc) \<Rightarrow> Some exc | _ \<Rightarrow> first"
    have one: "gather_loop en ex ctx members [k] tasks first p = (tasks[k := t], ?first, p1)" using True adv by simp
    have k: "task_ok en (pf_condition_engine p) ctx ex (pf_retry_policy p) p (members ! k) (tasks ! k)"
      using Cons.prems(2) True len by (auto simp: tasks_ok_def list_all2_conv_all_nth)
    have r: "\<exists>st \<in> set members. step_raises en ctx ex p0 st e" if "t = Raised e" for e
      using advance_raises [OF Cons.prems(1) k _ adv [unfolded that]] True len by (auto simp: that)
    have "?first = None \<or> (\<exists>st \<in> set members. \<exists>e. ?first = Some e \<and> step_raises en ctx ex p0 st e)"
      using Cons.prems(3) r by (cases first; cases t) auto
    moreover note ok = gather_loop_ok [OF Cons.prems(2) one]
    moreover have "extends p0 p1" using Cons.prems(1) ok extends_trans by blast
    ultimately show ?thesis using Cons.prems(4) True adv by (intro Cons.IH [of p1 "tasks[k := t]" ?first]) auto
  next
    case False
    then have "gather_loop en ex ctx members schedule tasks first p = (tasks', Some exc, p')"
      using Cons.prems(4) by (simp only: gather_loop.simps if_False)
    then show ?thesis by (rule Cons.IH [OF Cons.prems(1-3)])
  qed
qed auto

lemma gather_steps_raises:
  assumes "gather_steps en ex members ctx p = (Inl exc, p')"
  shows "\<exists>st \<in> set members. step_raises en ctx ex p st exc"
proof -
  let ?schedule = "en_schedule en (pf_draws p) @ in_turn (Suc (nat (rp_max_attempts (pf_retry_policy p)))) (length members)"
  obtain tasks where "gather_loop en ex ctx members ?schedule (map (\<lambda>_. Not_started) members) None p = (tasks, Some exc, p')"
    using assms by (auto simp: gather_steps_def Let_def split: prod.splits option.splits)
  moreover have "tasks_ok en ctx ex members (map (\<lambda>_. Not_started) members) None p"
    by (auto simp: tasks_ok_def task_ok_def list_all2_conv_all_nth)
  ultimately show ?thesis by (intro gather_loop_raises [OF extends_refl]) simp_all
qed

text \<open>A unit is gathered, be it a group or a step alone.\<close>

lemma run_unit_gathers:
  assumes "unit_of_steps u"
  shows "run_unit en ctx ex u p = gather_steps en ex u ctx p"
proof (cases "st_parallel_group (hd u) = None")
  case True
  then obtain st where "u = [st]" using assms by (cases u) (auto simp: unit_of_steps_def)
  with True show ?thesis by (simp add: run_unit_def gather_single)
next
  case False
  then show ?thesis unfolding run_unit_def by (rule if_not_P)
qed

lemma units_run_facts:
  assumes "units_run en ctx ex us p rs stop p'" and "\<forall>u \<in> set us. unit_of_steps u"
  shows "extends p p' \<and> (case stop of
      None \<Rightarrow> length rs = length (concat us)
    | Some exc \<Rightarrow> \<exists>front u rear. us = front @ u # rear \<and> length rs = length (concat front) \<and>
        (\<exists>q. extends p q \<and> (\<exists>st \<in> set u. step_raises en ctx ex q st exc)))"
  using assms
proof (induction rule: units_run.induct)
  case (unit_raised u p exc p' us)
  then have g: "gather_steps en ex u ctx p = (Inl exc, p')" by (simp add: run_unit_gathers)
  then have "u # us = [] @ u # us \<and> length ([] :: step_execution_result list) = length (concat ([] :: workflow_step list list)) \<and>
      (\<exists>q. extends p q \<and> (\<exists>st \<in> set u. step_raises en ctx ex q st exc))"
    using gather_steps_raises [OF g] extends_refl [of p] by auto
  with gather_steps_sound(1) [OF g] show ?case unfolding option.case by blast
next
  case (unit_ran u p rs p1 us qs stop p')
  then have g: "gather_steps en ex u ctx p = (Inr rs, p1)" by (simp add: run_unit_gathers)
  have ext: "extends p p1" and len: "length rs = length u"
    using gather_steps_sound [OF g] by (simp_all add: list_all2_lengthD)
  have later: "\<forall>u \<in> set us. unit_of_steps u" using unit_ran.prems by simp
  show ?case
  proof (cases stop)
    case None
    then show ?thesis using unit_ran ext len extends_trans by auto
  next
    case (Some exc)
    then obtain front w rear q where w: "us = front @ w # rear" "length qs = length (concat front)"
      and q: "extends p1 q" "\<exists>st \<in> set w. step_raises en ctx ex q st exc"
      using unit_ran.IH [OF later] unfolding Some option.case by blast
    have "extends p q" using ext q(1) by (rule extends_trans)
    with q(2) w len have "u # us = (u # front) @ w # rear \<and> length (rs @ qs) = length (concat (u # front)) \<and>
        (\<exists>q. extends p q \<and> (\<exists>st \<in> set w. step_raises en ctx ex q st exc))" by auto
    moreover have "extends p p'" using ext unit_ran extends_trans by auto
    ultimately show ?thesis unfolding Some option.case by blast
  qed
qed simp

text \<open>Only the firm and the id of the execution reach the steps.\<close>

definition same_execution :: "workflow_execution \<Rightarrow> workflow_execution \<Rightarrow> bool" where
  "same_execution ex ex' \<longleftrightarrow> we_id ex' = we_id ex \<and> we_firm_id ex' = we_firm_id ex"

lemma run_attempt_same: "same_execution ex ex' \<Longrightarrow> run_attempt en ex' = run_attempt en ex"
  by (intro ext) (simp add: run_attempt_def same_execution_def Let_def)

lemma attempt_step_same: "same_execution ex ex' \<Longrightarrow> attempt_step en ex' = attempt_step en ex"
  by (intro ext) (simp add: attempt_step_def run_attempt_same)

lemma advance_same: "same_execution ex ex' \<Longrightarrow> advance en ex' st ctx t p = advance en ex st ctx t p"
  by (cases t) (simp_all add: attempt_step_same split: sum.split bool.split)

lemma gather_loop_same:
  "same_execution ex ex' \<Longrightarrow> gather_loop en ex' ctx members schedule tasks first p = gather_loop en ex ctx members schedule tasks first p"
  by (induction schedule arbitrary: tasks first p) (simp_all add: advance_same split: prod.split)

lemma run_unit_same:
  "same_execution ex ex' \<Longrightarrow> unit_of_steps u \<Longrightarrow> run_unit en ctx ex' u p = run_unit en ctx ex u p"
  by (simp add: run_unit_gathers gather_steps_def gather_loop_same)

lemma units_run_same:
  "units_run en ctx ex' us p rs stop p' \<Longrightarrow> \<forall>u \<in> set us. unit_of_steps u \<Longrightarrow> same_execution ex ex' \<Longrightarrow>
     units_run en ctx ex us p rs stop p'"
  by (induction rule: units_run.induct) (auto intro: units_run.intros simp: run_unit_same)

lemma units_of_Nil: "units_of [] []"
  by (simp add: units_of_def)

lemma units_of_Cons:
  assumes "units_of sts us" and "unit_of_steps u"
    and "st_parallel_group (hd u) = None \<or> sts = [] \<or> st_parallel_group (hd sts) \<noteq> st_parallel_group (hd u)"
  shows "units_of (u @ sts) (u # us)"
proof (cases us)
  case (Cons w ws)
  then have "w \<noteq> []" using assms(1) by (simp add: units_of_def unit_of_steps_def)
  then have "hd w = hd sts" "sts \<noteq> []" using assms(1) Cons by (auto simp: units_of_def)
  then show ?thesis using assms Cons by (auto simp: units_of_def)
qed (use assms in \<open>auto simp: units_of_def\<close>)

lemma units_exist: "\<exists>us. units_of sts us"
proof (induction sts rule: length_induct)
  case (1 sts)
  show ?case
  proof (cases sts)
    case (Cons st rest)
    let ?g = "same_group (st_parallel_group st)"
    define u where "u = (if st_parallel_group st \<noteq> None then st # takeWhile ?g rest else [st])"
    define tail where "tail = (if st_parallel_group st \<noteq> None then dropWhile ?g rest else rest)"
    have split: "sts = u @ tail" by (simp add: Cons u_def tail_def)
    have unit: "unit_of_steps u" by (auto simp: u_def unit_of_steps_def same_group_def dest: set_takeWhileD)
    have apart: "st_parallel_group (hd u) = None \<or> tail = [] \<or> st_parallel_group (hd tail) \<noteq> st_parallel_group (hd u)"
      using hd_dropWhile [of ?g rest] by (auto simp: u_def tail_def same_group_def)
    have "length tail < length sts" by (simp add: Cons tail_def length_dropWhile_le less_Suc_eq_le)
    with 1 obtain us where "units_of tail us" by blast
    then show ?thesis unfolding split using units_of_Cons unit apart by blast
  qed (auto intro: units_of_Nil)
qed

text \<open>A run of the steps is a run of their units; \<open>ex\<close> ends with the results of the units that ended.\<close>

lemma run_steps_units:
  assumes "run_steps en ctx sts ex p = (res, ex', p')"
  shows "\<exists>us rs stop. units_of sts us \<and> units_run en ctx ex us p rs stop p' \<and> ex' = record_results rs ex \<and>
     res = (case stop of None \<Rightarrow> Inr () | Some exc \<Rightarrow> Inl exc)"
  using assms
proof (induction en ctx sts ex p rule: run_steps.induct)
  case (1 en ctx ex p)
  then have "units_of [] [] \<and> units_run en ctx ex [] p [] None p' \<and> ex' = record_results [] ex \<and> res = Inr ()"
    by (auto intro: units_run.all_ran simp: units_of_Nil)
  then show ?case by (intro exI [of _ "[]"] exI [of _ None]) simp
next
  case (2 en ctx st sts ex p)
  let ?g = "same_group (st_parallel_group st)"
  note IH_group = 2(1) [OF _ refl sym refl] and IH_step = 2(2) [OF _ sym refl]
  define u where "u = (if st_parallel_group st \<noteq> None then st # takeWhile ?g sts else [st])"
  define tail where "tail = (if st_parallel_group st \<noteq> None then dropWhile ?g sts else sts)"
  have split: "st # sts = u @ tail" by (simp add: u_def tail_def)
  have unit: "unit_of_steps u" by (auto simp: u_def unit_of_steps_def same_group_def dest: set_takeWhileD)
  have apart: "st_parallel_group (hd u) = None \<or> tail = [] \<or> st_parallel_group (hd tail) \<noteq> st_parallel_group (hd u)"
    using hd_dropWhile [of ?g sts] by (auto simp: u_def tail_def same_group_def)
  obtain res1 p1 where run: "run_unit en ctx ex u p = (res1, p1)" by (rule prod.exhaust)
  have eq: "run_steps en ctx (st # sts) ex p =
      (case res1 of Inl exc \<Rightarrow> (Inl exc, ex, p1) | Inr rs \<Rightarrow> run_steps en ctx tail (record_results rs ex) p1)"
    using run by (cases "run_step en ex st ctx p") (auto simp: run_unit_def u_def tail_def split: sum.splits prod.splits if_splits)
  show ?case
  proof (cases res1)
    case (Inl exc)
    then have ended: "res = Inl exc" "ex' = ex" "p' = p1" using 2(3) eq by simp_all
    obtain us where us: "units_of tail us" using units_exist by blast
    have "units_run en ctx ex (u # us) p [] (Some exc) p'"
      using run Inl ended by (auto intro: units_run.unit_raised)
    with ended units_of_Cons [OF us unit apart] show ?thesis
      unfolding split by (intro exI [of _ "u # us"] exI [of _ "[]"] exI [of _ "Some exc"]) simp
  next
    case (Inr rs)
    then have rest: "run_steps en ctx tail (record_results rs ex) p1 = (res, ex', p')" using 2(3) eq by simp
    have "\<exists>us qs stop. units_of tail us \<and> units_run en ctx (record_results rs ex) us p1 qs stop p' \<and>
        ex' = record_results qs (record_results rs ex) \<and> res = (case stop of None \<Rightarrow> Inr () | Some exc \<Rightarrow> Inl exc)"
    proof (cases "st_parallel_group st = None")
      case True
      with run Inr obtain r where "run_step en ex st ctx p = (Inr r, p1)" "rs = [r]"
        by (cases "run_step en ex st ctx p") (auto simp: run_unit_def u_def res_bind_Inr_iff)
      with IH_step [of r p1] True rest show ?thesis by (simp add: tail_def)
    next
      case False
      then have "gather_steps en ex u ctx p = (Inr rs, p1)" using run Inr by (auto simp: run_unit_def u_def)
      with IH_group [of rs p1] False rest show ?thesis by (simp add: tail_def u_def)
    qed
    then obtain us qs stop where us: "units_of tail us"
      and qs: "units_run en ctx (record_results rs ex) us p1 qs stop p'"
      and ex': "ex' = record_results qs (record_results rs ex)"
      and res: "res = (case stop of None \<Rightarrow> Inr () | Some exc \<Rightarrow> Inl exc)" by blast
    have "units_run en ctx ex us p1 qs stop p'"
      by (rule units_run_same [OF qs]) (use us in \<open>simp_all add: units_of_def same_execution_def\<close>)
    then have "units_run en ctx ex (u # us) p (rs @ qs) stop p'" using run Inr by (auto intro: units_run.unit_ran)
    with ex' res units_of_Cons [OF us unit apart] show ?thesis
      unfolding split by (intro exI [of _ "u # us"] exI [of _ "rs @ qs"] exI [of _ stop]) (simp add: record_results_append)
  qed
qed

lemma run_from_units:
  assumes "run_from en ex v ctx p = (ex', p')"
  shows "\<exists>us rs stop p1. units_of (drop (we_current_step_index ex) (sorted_workflow_steps v)) us \<and>
     units_run en ctx ex us p rs stop p1 \<and> we_step_results ex' = we_step_results ex @ rs \<and>
     pf_world p' = pf_world p1 \<and> pf_action_engine p' = pf_action_engine p1 \<and>
     (case stop of None \<Rightarrow> we_status ex' = ES_COMPLETED
      | Some exc \<Rightarrow> we_status ex' = ES_FAILED \<and> we_failure_reason ex' = Some (exn_str exc))"
proof -
  obtain res ex1 p1 where run: "run_steps en ctx (drop (we_current_step_index ex) (sorted_workflow_steps v)) ex p = (res, ex1, p1)"
    by (rule prod_cases3)
  from run_steps_units [OF run] obtain us rs stop
    where us: "units_of (drop (we_current_step_index ex) (sorted_workflow_steps v)) us"
      and rs: "units_run en ctx ex us p rs stop p1" and ex1: "ex1 = record_results rs ex"
      and res: "res = (case stop of None \<Rightarrow> Inr () | Some exc \<Rightarrow> Inl exc)" by blast
  have "pf_world (save_execution x q) = pf_world q" "pf_world (record_workflow_metrics en x q) = pf_world q"
    "pf_world (close_span x q) = pf_world q" "pf_world (record_failure x exc q) = pf_world q" for x q exc
    by (simp_all add: save_execution_def record_workflow_metrics_def close_span_def record_failure_def emit_def
        draw_time_def split: option.split)
  then have "we_step_results ex' = we_step_results ex @ rs \<and> pf_world p' = pf_world p1 \<and>
      pf_action_engine p' = pf_action_engine p1 \<and>
      (case stop of None \<Rightarrow> we_status ex' = ES_COMPLETED
       | Some exc \<Rightarrow> we_status ex' = ES_FAILED \<and> we_failure_reason ex' = Some (exn_str exc))"
    using assms run unfolding run_from_def res
    by (cases stop) (auto simp: draw_time_def Let_def ex1)
  with us rs show ?thesis by blast
qed

text \<open>
  C3. Starting a workflow whose workflow-level conditions hold runs the units of its steps - a step
  outside every group alone, neighbours sharing a group together - one after the other in the order
  of the \<open>order\<close> field, each on the platform the one before left, and stops at the first that raises:
  nothing runs after it. The results recorded are those of the units that ended, one for each of
  their steps, a step being skipped exactly when its condition is false and otherwise having a
  successful result that the action log also holds. The execution is completed exactly when no unit
  raised; otherwise it is failed with the text of the exception, which a step of that unit raised
  for a reason of its own: its condition could not be evaluated, or an attempt of its action timed
  out, raised or was unsuccessful (or the retry policy allowed no attempt, or its delay overflowed).
  Either way it is the object \<open>get\<close> returns.
\<close>

theorem start_runs_prefix:
  assumes "all_res (\<lambda>c. evaluate (en_depth en) (pf_condition_engine p) c ctx) (wk_conditions v) = Inr True"
  shows "\<exists>ex p' units stop p0 p1. start_execution en v ctx p = (Inr ex, p') \<and>
     units_of (sort_key st_order (wk_steps v)) units \<and>
     pf_world p0 = pf_world p \<and> pf_action_engine p0 = pf_action_engine p \<and>
     units_run en ctx ex units p0 (we_step_results ex) stop p1 \<and>
     pf_world p' = pf_world p1 \<and> pf_action_engine p' = pf_action_engine p1 \<and>
     we_current_step_index ex = length (we_step_results ex) \<and>
     list_all2 (step_ok en (pf_condition_engine p) ctx ex p')
       (take (length (we_step_results ex)) (sort_key st_order (wk_steps v))) (we_step_results ex) \<and>
     (case stop of
        None \<Rightarrow> we_status ex = ES_COMPLETED \<and> length (we_step_results ex) = length (wk_steps v)
      | Some exc \<Rightarrow> we_status ex = ES_FAILED \<and> we_failure_reason ex = Some (exn_str exc) \<and>
          (\<exists>front u rear q. units = front @ u # rear \<and> length (we_step_results ex) = length (concat front) \<and>
             extends p0 q \<and> (\<exists>st \<in> set u. step_raises en ctx ex q st exc))) \<and>
     get_execution (wk_firm_id v) (we_id ex) p' = Inr ex"
proof -
  obtain ex1 p3 where begun: "begin_execution en v ctx p = (ex1, p3)" by (rule prod.exhaust)
  note facts = begin_execution_facts [OF begun]
  obtain ex p' where run: "run_from en ex1 v ctx p3 = (ex, p')" by (rule prod.exhaust)
  have start: "start_execution en v ctx p = (Inr ex, p')"
    using begun run assms facts(6) by (simp add: start_execution_def)
  from run_from_ran [OF run] obtain rs where ran: "ran en v ctx p3 ex1 ex p' rs" by blast
  from run_from_units [OF run] obtain us qs stop p1
    where us: "units_of (sort_key st_order (wk_steps v)) us" and qs: "units_run en ctx ex1 us p3 qs stop p1"
      and res: "we_step_results ex = qs" and same: "pf_world p' = pf_world p1" "pf_action_engine p' = pf_action_engine p1"
      and stop: "case stop of None \<Rightarrow> we_status ex = ES_COMPLETED
        | Some exc \<Rightarrow> we_status ex = ES_FAILED \<and> we_failure_reason ex = Some (exn_str exc)"
    using facts by (auto simp: sorted_workflow_steps_def)
  have units: "\<forall>u \<in> set us. unit_of_steps u" using us by (simp add: units_of_def)
  have chain: "units_run en ctx ex us p3 (we_step_results ex) stop p1"
    unfolding res by (rule units_run_same [OF qs units]) (use ran in \<open>simp add: ran_def same_execution_def\<close>)
  have all: "length (concat us) = length (wk_steps v)" using us by (simp add: units_of_def)
  have ending: "case stop of
        None \<Rightarrow> we_status ex = ES_COMPLETED \<and> length (we_step_results ex) = length (wk_steps v)
      | Some exc \<Rightarrow> we_status ex = ES_FAILED \<and> we_failure_reason ex = Some (exn_str exc) \<and>
          (\<exists>front u rear q. us = front @ u # rear \<and> length (we_step_results ex) = length (concat front) \<and>
             extends p3 q \<and> (\<exists>st \<in> set u. step_raises en ctx ex q st exc))"
  proof (cases stop)
    case None
    then show ?thesis using units_run_facts [OF chain units] stop all by simp
  next
    case (Some exc)
    then show ?thesis using units_run_facts [OF chain units] stop unfolding Some option.case by blast
  qed
  have "we_current_step_index ex = length (we_step_results ex) \<and>
     list_all2 (step_ok en (pf_condition_engine p) ctx ex p')
       (take (length (we_step_results ex)) (sort_key st_order (wk_steps v))) (we_step_results ex) \<and>
     get_execution (we_firm_id ex) (we_id ex) p' = Inr ex \<and> we_firm_id ex = wk_firm_id v"
    using ran facts(2,4,5,6) by (auto simp: ran_def saved_def sorted_workflow_steps_def)
  then have "we_current_step_index ex = length (we_step_results ex) \<and>
     list_all2 (step_ok en (pf_condition_engine p) ctx ex p')
       (take (length (we_step_results ex)) (sort_key st_order (wk_steps v))) (we_step_results ex) \<and>
     get_execution (wk_firm_id v) (we_id ex) p' = Inr ex" by (elim conjE) simp
  with start us facts(7,8) chain same ending show ?thesis by blast
qed

lemma start_runs_prefix_witness:
  "\<exists>ex p'. start_execution demo_environment demo_workflow [(''role'', ''admin'')] demo_platform = (Inr ex, p') \<and>
     get_execution ''f'' (we_id ex) p' = Inr ex \<and>
     (we_status ex = ES_COMPLETED \<longrightarrow> we_current_step_index ex = 1)"
proof -
  have "all_res (\<lambda>c. evaluate (en_depth demo_environment) (pf_condition_engine (demo_platform :: unit platform)) c
      [(''role'', ''admin'')]) (wk_conditions demo_workflow) = Inr True"
    by (simp add: demo_defs cond_role_is_def eval_nat_numeral)
  from start_runs_prefix [OF this] show ?thesis
    by (auto simp: demo_defs split: option.splits)
qed

text \<open>An execution of a workflow: its results are those of the steps before its index.\<close>

definition execution_ok :: "workflow \<Rightarrow> workflow_execution \<Rightarrow> bool" where
  "execution_ok v ex \<longleftrightarrow> we_current_step_index ex \<le> length (sorted_workflow_steps v) \<and>
     map sx_step_order (we_step_results ex) =
       map st_order (take (we_current_step_index ex) (sorted_workflow_steps v)) \<and>
     (we_status ex = ES_COMPLETED \<longrightarrow> we_current_step_index ex = length (sorted_workflow_steps v))"

lemma ran_ok:
  assumes "ran en v ctx p ex ex' p' rs" and "execution_ok v ex"
  shows "execution_ok v ex'"
proof -
  let ?sts = "sorted_workflow_steps v" and ?i = "we_current_step_index ex"
  have "map sx_step_order rs = map st_order (take (length rs) (drop ?i ?sts))"
    using assms(1) by (auto simp: ran_def step_ok_def list_eq_iff_nth_eq list_all2_conv_all_nth)
  moreover have "map st_order (take (?i + length rs) ?sts) =
      map st_order (take ?i ?sts) @ map st_order (take (length rs) (drop ?i ?sts))"
    by (simp add: take_add)
  ultimately show ?thesis
    using assms by (auto simp: ran_def execution_ok_def split: if_splits)
qed

text \<open>
  C4. Resuming a failed or paused execution continues exactly where it stopped: the results
  recorded before are kept, the new ones are those of a run of the steps from the current index
  on, no step of the workflow is recorded twice or left out, and every step before the index is
  not run again. In any other status it raises and changes nothing.
\<close>

theorem resume_continues:
  assumes ok: "execution_ok v ex"
  shows "if we_status ex \<in> {ES_FAILED, ES_PAUSED}
     then \<exists>ex' p' rs. resume_execution en ex v ctx p = (Inr ex', p') \<and> execution_ok v ex' \<and>
        we_step_results ex' = we_step_results ex @ rs \<and>
        list_all2 (step_ok en (pf_condition_engine p) ctx ex' p')
          (take (length rs) (drop (we_current_step_index ex) (sorted_workflow_steps v))) rs \<and>
        (we_status ex' = ES_COMPLETED \<longleftrightarrow>
           map sx_step_order (we_step_results ex') = map st_order (sorted_workflow_steps v)) \<and>
        get_execution (we_firm_id ex) (we_id ex) p' = Inr ex'
     else \<exists>message. resume_execution en ex v ctx p = (Inl (WorkflowExecutionError message), p)"
proof (cases "we_status ex \<in> {ES_FAILED, ES_PAUSED}")
  case True
  let ?ex = "ex\<lparr>we_status := ES_RUNNING, we_failure_reason := None\<rparr>"
  obtain ex' p' where run: "run_from en ?ex v ctx p = (ex', p')" by (cases "run_from en ?ex v ctx p")
  from run_from_ran [OF run] obtain rs where r: "ran en v ctx p ?ex ex' p' rs" by blast
  have "execution_ok v ?ex" using ok by (simp add: execution_ok_def)
  with r have ok': "execution_ok v ex'" by (rule ran_ok)
  have "we_status ex' = ES_COMPLETED \<longleftrightarrow>
      map sx_step_order (we_step_results ex') = map st_order (sorted_workflow_steps v)"
  proof
    assume "we_status ex' = ES_COMPLETED"
    then show "map sx_step_order (we_step_results ex') = map st_order (sorted_workflow_steps v)"
      using ok' by (simp add: execution_ok_def)
  next
    assume "map sx_step_order (we_step_results ex') = map st_order (sorted_workflow_steps v)"
    then have "length (we_step_results ex') = length (sorted_workflow_steps v)" by (rule map_eq_imp_length_eq)
    moreover have "length (we_step_results ex') = we_current_step_index ex'"
      using ok' map_eq_imp_length_eq by (fastforce simp: execution_ok_def)
    ultimately show "we_status ex' = ES_COMPLETED"
      using r by (auto simp: ran_def split: if_splits)
  qed
  then show ?thesis
    using True run r ok' by (auto simp: resume_execution_def ran_def saved_def)
next
  case False
  then show ?thesis by (simp add: resume_execution_def)
qed

lemma resume_continues_witness:
  "\<exists>ex' p' rs. resume_execution demo_environment
      \<lparr>we_id = ''e'', we_firm_id = ''f'', we_workflow_id = ''w'', we_status = ES_FAILED, we_current_step_index = 0,
       we_step_results = [], we_failure_reason = Some [], we_started_at = None, we_completed_at = None,
       we_telemetry_span_id = None\<rparr> demo_workflow [] demo_platform = (Inr ex', p') \<and> execution_ok demo_workflow ex'"
proof -
  let ?ex = "\<lparr>we_id = ''e'', we_firm_id = ''f'', we_workflow_id = ''w'', we_status = ES_FAILED, we_current_step_index = 0,
       we_step_results = [], we_failure_reason = Some [], we_started_at = None, we_completed_at = None,
       we_telemetry_span_id = None\<rparr>"
  have "execution_ok demo_workflow ?ex" by (simp add: execution_ok_def)
  from resume_continues [OF this, of demo_environment "[]" demo_platform] show ?thesis by auto
qed

text \<open>
  A workflow whose workflow-level conditions do not hold is cancelled without running
  anything: no handler is called, nothing is journaled. But the cancelled execution is not
  closed like a run: no metrics are recorded for it, and when the caller passed a trace
  identifier the span opened for it is never ended.
\<close>

theorem cancelled_not_closed:
  assumes "all_res (\<lambda>c. evaluate (en_depth en) (pf_condition_engine p) c ctx) (wk_conditions v) = Inr False"
  shows "\<exists>ex p'. start_execution en v ctx p = (Inr ex, p') \<and> we_status ex = ES_CANCELLED \<and>
     pf_action_engine p' = pf_action_engine p \<and> pf_world p' = pf_world p \<and>
     pf_metrics_sinks p' = pf_metrics_sinks p \<and>
     (\<forall>trace_id. dict_get ctx ''trace_id'' = Some trace_id \<longrightarrow>
        (\<exists>span_id. we_telemetry_span_id ex = Some span_id \<and>
           pf_telemetry p' = pf_telemetry p @
             [Workflow_counted (wk_name v) (wk_firm_id v), Span_started trace_id span_id (wk_name v)]))"
proof -
  obtain ex1 p3 where begun: "begin_execution en v ctx p = (ex1, p3)" by (cases "begin_execution en v ctx p")
  note facts = begin_execution_facts [OF begun]
  show ?thesis
    using begun assms facts(6-9,11)
    by (auto simp: start_execution_def draw_time_def Let_def save_execution_def)
qed

lemma cancelled_not_closed_witness:
  "\<exists>ex p'. start_execution demo_environment demo_workflow [(''trace_id'', ''t'')] demo_platform = (Inr ex, p') \<and>
     we_status ex = ES_CANCELLED \<and> pf_metrics_sinks p' = [[]]"
proof -
  have "all_res (\<lambda>c. evaluate (en_depth demo_environment) (pf_condition_engine (demo_platform :: unit platform)) c
      [(''trace_id'', ''t'')]) (wk_conditions demo_workflow) = Inr False"
    by (simp add: demo_defs cond_role_is_def eval_nat_numeral)
  from cancelled_not_closed [OF this] show ?thesis
    by (elim exE conjE) (intro exI conjI, assumption, assumption, simp add: demo_platform_def)
qed

text \<open>
  When a workflow-level condition raises while it is evaluated (an unknown expression, an
  unreadable date), \<open>start\<close> raises too, but the execution it has already stored stays in status
  \<open>RUNNING\<close> with no step run, and can never be resumed: resuming it raises and changes nothing.
\<close>

theorem start_raises_leaves_running:
  assumes "all_res (\<lambda>c. evaluate (en_depth en) (pf_condition_engine p) c ctx) (wk_conditions v) = Inl exc"
  shows "\<exists>ex p'. start_execution en v ctx p = (Inl exc, p') \<and>
     get_execution (wk_firm_id v) (en_uuid en (pf_draws p)) p' = Inr ex \<and>
     we_status ex = ES_RUNNING \<and> we_current_step_index ex = 0 \<and>
     pf_metrics_sinks p' = pf_metrics_sinks p \<and> pf_world p' = pf_world p \<and>
     (\<forall>en' v' ctx' q. \<exists>message. resume_execution en' ex v' ctx' q = (Inl (WorkflowExecutionError message), q))"
proof -
  obtain ex p' where begun: "begin_execution en v ctx p = (ex, p')" by (cases "begin_execution en v ctx p")
  note facts = begin_execution_facts [OF begun]
  have "start_execution en v ctx p = (Inl exc, p')"
    using begun assms facts(6) by (simp add: start_execution_def)
  then show ?thesis
    using facts(1-3,5,8-10) by (auto simp: resume_execution_def saved_def)
qed

lemma start_raises_leaves_running_witness:
  "\<exists>ex p'. start_execution demo_environment (demo_workflow\<lparr>wk_conditions := [cond_ref ''x'']\<rparr>) [] demo_platform =
     (Inl (UnknownExpressionError ''x''), p') \<and> get_execution ''f'' [] p' = Inr ex \<and> we_status ex = ES_RUNNING"
proof -
  have "all_res (\<lambda>c. evaluate (en_depth demo_environment) (pf_condition_engine (demo_platform :: unit platform)) c [])
      (wk_conditions (demo_workflow\<lparr>wk_conditions := [cond_ref ''x'']\<rparr>)) = Inl (UnknownExpressionError ''x'')"
    by (simp add: demo_defs cond_ref_def eval_nat_numeral)
  moreover have "wk_firm_id (demo_workflow\<lparr>wk_conditions := [cond_ref ''x'']\<rparr>) = ''f''"
    "en_uuid demo_environment (pf_draws (demo_platform :: unit platform)) = []"
    by (simp_all add: demo_defs)
  ultimately show ?thesis using start_raises_leaves_running by metis
qed

text \<open>
  Every metrics reading that starting or resuming an execution ever records reports zero
  cancellations: what is appended to each sink is at most one reading, the same for all sinks,
  with the number of recorded step results and an error exactly for a failed run.
\<close>

theorem metrics_never_count_cancellations:
  assumes "start_execution en v ctx p = (res, p') \<or> resume_execution en ex v ctx p = (res, p')"
  shows "\<exists>ms. length ms \<le> 1 \<and> pf_metrics_sinks p' = map (\<lambda>sink. sink @ ms) (pf_metrics_sinks p) \<and>
     (\<forall>m \<in> set ms. wm_cancellation_count m = 0 \<and>
        (\<exists>ex'. res = Inr ex' \<and> wm_step_count m = length (we_step_results ex') \<and>
           (wm_error_count m = 1 \<longleftrightarrow> we_status ex' = ES_FAILED)))"
proof -
  have "(\<exists>ex0 p0 ex'. pf_metrics_sinks p0 = pf_metrics_sinks p \<and> run_from en ex0 v ctx p0 = (ex', p') \<and> res = Inr ex')
      \<or> pf_metrics_sinks p' = pf_metrics_sinks p" (is "?ran \<or> ?same")
    using assms
  proof
    assume start: "start_execution en v ctx p = (res, p')"
    show ?thesis
    proof (rule start_cases [of en v ctx p])
      fix ex1 p3 ex2 p4
      assume "start_execution en v ctx p = (Inr ex2, p4)" "run_from en ex1 v ctx p3 = (ex2, p4)"
        and "pf_metrics_sinks p3 = pf_metrics_sinks p"
      with start show ?thesis by (intro disjI1 exI [of _ ex1] exI [of _ p3] exI [of _ ex2]) simp
    next
      assume "pf_metrics_sinks (snd (start_execution en v ctx p)) = pf_metrics_sinks p"
      with start show ?thesis by simp
    qed
  next
    assume resume: "resume_execution en ex v ctx p = (res, p')"
    let ?ex = "ex\<lparr>we_status := ES_RUNNING, we_failure_reason := None\<rparr>"
    obtain ex' p4 where run: "run_from en ?ex v ctx p = (ex', p4)" by (cases "run_from en ?ex v ctx p")
    show ?thesis
    proof (cases "we_status ex \<in> {ES_FAILED, ES_PAUSED}")
      case True
      with resume run have "res = Inr ex'" "p' = p4" by (auto simp: resume_execution_def)
      with run show ?thesis by (intro disjI1 exI [of _ ?ex] exI [of _ p] exI [of _ ex']) simp
    next
      case False
      with resume show ?thesis by (simp add: resume_execution_def)
    qed
  qed
  then show ?thesis
  proof
    assume "\<exists>ex0 p0 ex'. pf_metrics_sinks p0 = pf_metrics_sinks p \<and> run_from en ex0 v ctx p0 = (ex', p') \<and> res = Inr ex'"
    then obtain ex0 p0 ex' where "pf_metrics_sinks p0 = pf_metrics_sinks p" "run_from en ex0 v ctx p0 = (ex', p')" "res = Inr ex'"
      by blast
    with run_from_metrics [of en ex0 v ctx p0 ex' p'] obtain m where
      "pf_metrics_sinks p' = map (\<lambda>sink. sink @ [m]) (pf_metrics_sinks p)" "wm_cancellation_count m = 0"
      "wm_step_count m = length (we_step_results ex')" "wm_error_count m = 1 \<longleftrightarrow> we_status ex' = ES_FAILED"
      by auto
    with \<open>res = Inr ex'\<close> show ?thesis by (intro exI [of _ "[m]"]) simp
  qed (intro exI [of _ "[]"], simp)
qed

lemma metrics_never_count_cancellations_witness:
  "\<exists>ms. length ms \<le> 1 \<and> (\<forall>m \<in> set ms. wm_cancellation_count m = 0) \<and>
     pf_metrics_sinks (snd (start_execution demo_environment demo_workflow [] demo_platform)) = [ms]"
proof -
  have "start_execution demo_environment demo_workflow [] demo_platform =
      (fst (start_execution demo_environment demo_workflow [] demo_platform),
       snd (start_execution demo_environment demo_workflow [] demo_platform))" by simp
  from metrics_never_count_cancellations [OF disjI1, OF this]
  obtain ms where "length ms \<le> 1" "\<forall>m \<in> set ms. wm_cancellation_count m = 0"
    "pf_metrics_sinks (snd (start_execution demo_environment demo_workflow [] demo_platform)) =
       map (\<lambda>sink. sink @ ms) (pf_metrics_sinks demo_platform)" by blast
  then show ?thesis by (intro exI [of _ ms]) (simp add: demo_platform_def)
qed

end
