(* ===== verification/Simulations.thy ===== *)
theory Simulations
  imports Executions
begin

text \<open>
  \<^verbatim>\<open>workflow_automation/simulation\<close>: the dry run of a workflow over a fictional context, and
  how it relates to a real execution in the same context.
\<close>

record simulated_step_outcome =
  so_step_order :: int
  so_name :: pystr
  so_would_run :: bool
  so_skip_reason :: "pystr option"

record simulation_report =
  sr_workflow_id :: pystr
  sr_would_complete :: bool
  sr_steps :: "simulated_step_outcome list"
  sr_workflow_condition_failure :: "pystr option"

definition workflow_condition_failure :: pystr where
  "workflow_condition_failure =
     (''Une condition de niveau workflow n'' @ [CHR 0x27] @ ''est pas satisfaite par le contexte fourni.'')"

definition step_condition_failure :: pystr where
  "step_condition_failure = (''Condition de l'' @ [CHR 0x27] @ [CHR 0xE9] @ ''tape non satisfaite.'')"

text \<open>The loop over the sorted steps; the first condition to raise ends the simulation.\<close>

fun simulate_steps ::
  "nat \<Rightarrow> condition_engine \<Rightarrow> context_map \<Rightarrow> workflow_step list \<Rightarrow> simulated_step_outcome list result" where
  "simulate_steps depth ce ctx [] = Inr []"
| "simulate_steps depth ce ctx (st # sts) =
     (case st_condition st of
        None \<Rightarrow>
          res_bind (simulate_steps depth ce ctx sts) (\<lambda>rest.
            Inr (\<lparr>so_step_order = st_order st, so_name = st_name st, so_would_run = True, so_skip_reason = None\<rparr> # rest))
      | Some c \<Rightarrow>
          res_bind (evaluate depth ce c ctx) (\<lambda>would_run.
          res_bind (simulate_steps depth ce ctx sts) (\<lambda>rest.
            Inr (\<lparr>so_step_order = st_order st, so_name = st_name st, so_would_run = would_run,
                  so_skip_reason = (if would_run then None else Some step_condition_failure)\<rparr> # rest))))"

fun all_conditions :: "nat \<Rightarrow> condition_engine \<Rightarrow> context_map \<Rightarrow> condition list \<Rightarrow> bool result" where
  "all_conditions depth ce ctx [] = Inr True"
| "all_conditions depth ce ctx (c # cs) =
     res_bind (evaluate depth ce c ctx) (\<lambda>b. if \<not> b then Inr False else all_conditions depth ce ctx cs)"

definition simulate :: "nat \<Rightarrow> condition_engine \<Rightarrow> workflow \<Rightarrow> context_map \<Rightarrow> simulation_report result" where
  "simulate depth ce v ctx =
     res_bind (all_conditions depth ce ctx (wk_conditions v)) (\<lambda>satisfied.
       if \<not> satisfied
       then Inr \<lparr>sr_workflow_id = wk_id v, sr_would_complete = False, sr_steps = [],
                 sr_workflow_condition_failure = Some workflow_condition_failure\<rparr>
       else res_bind (simulate_steps depth ce ctx (sorted_workflow_steps v)) (\<lambda>outcomes.
         Inr \<lparr>sr_workflow_id = wk_id v, sr_would_complete = True, sr_steps = outcomes,
              sr_workflow_condition_failure = None\<rparr>))"

lemma all_conditions_all_res: "all_conditions depth ce ctx cs = all_res (\<lambda>c. evaluate depth ce c ctx) cs"
  by (induction cs) (auto intro!: arg_cong2 [where f = res_bind])

lemma simulate_steps_runs:
  "simulate_steps (en_depth en) ce ctx sts = Inr outs \<Longrightarrow>
     list_all2 (\<lambda>st out. so_step_order out = st_order st \<and> so_name out = st_name st \<and>
        step_runs en ce st ctx = Inr (so_would_run out)) sts outs"
proof (induction sts arbitrary: outs)
  case (Cons st sts)
  then show ?case
    by (cases "st_condition st") (auto simp: res_bind_Inr_iff step_runs_def)
qed simp

lemma simulate_cases:
  assumes "simulate depth ce v ctx = Inr report"
  shows "if sr_would_complete report
     then all_res (\<lambda>c. evaluate depth ce c ctx) (wk_conditions v) = Inr True \<and>
          simulate_steps depth ce ctx (sorted_workflow_steps v) = Inr (sr_steps report)
     else all_res (\<lambda>c. evaluate depth ce c ctx) (wk_conditions v) = Inr False"
  using assms
  by (auto simp: simulate_def all_conditions_all_res res_bind_Inr_iff split: if_splits)

section \<open>Property\<close>

text \<open>
  C12. A simulation predicts the execution: with the same conditions, context and stack, a
  report that the workflow would not complete means that starting it cancels it; otherwise the
  execution's results, as far as they go, are for the simulated steps in order, and a step is
  skipped exactly when the report says it would not run. A completed execution has a result for
  every simulated step.
\<close>

theorem simulation_predicts:
  assumes sim: "simulate (en_depth en) (pf_condition_engine p) v ctx = Inr report"
  shows "\<exists>ex p'. start_execution en v ctx p = (Inr ex, p') \<and>
     (if sr_would_complete report
      then length (we_step_results ex) \<le> length (sr_steps report) \<and>
           map (\<lambda>r. (sx_step_order r, sx_skipped r)) (we_step_results ex) =
             map (\<lambda>out. (so_step_order out, \<not> so_would_run out))
               (take (length (we_step_results ex)) (sr_steps report)) \<and>
           (we_status ex = ES_COMPLETED \<longleftrightarrow> length (we_step_results ex) = length (sr_steps report))
      else we_status ex = ES_CANCELLED \<and> we_step_results ex = [])"
proof (cases "sr_would_complete report")
  case False
  then have c: "all_res (\<lambda>c. evaluate (en_depth en) (pf_condition_engine p) c ctx) (wk_conditions v) = Inr False"
    using simulate_cases [OF sim] by simp
  obtain ex p' where begun: "begin_execution en v ctx p = (ex, p')" by (cases "begin_execution en v ctx p")
  note facts = begin_execution_facts(4,6) [OF begun]
  show ?thesis
    using False begun c facts by (auto simp: start_execution_def draw_time_def Let_def)
next
  case True
  then have c: "all_res (\<lambda>c. evaluate (en_depth en) (pf_condition_engine p) c ctx) (wk_conditions v) = Inr True"
    and s: "simulate_steps (en_depth en) (pf_condition_engine p) ctx (sorted_workflow_steps v) = Inr (sr_steps report)"
    using simulate_cases [OF sim] by simp_all
  from start_true [OF c] obtain ex1 p3 ex p' rs where start: "start_execution en v ctx p = (Inr ex, p')"
    and r: "ran en v ctx p3 ex1 ex p' rs" and ce: "pf_condition_engine p3 = pf_condition_engine p"
    and ex1: "we_step_results ex1 = []" "we_current_step_index ex1 = 0"
    by blast
  let ?sts = "sorted_workflow_steps v" and ?outs = "sr_steps report"
  note outs = simulate_steps_runs [OF s]
  then have len: "length ?outs = length ?sts" by (simp add: list_all2_lengthD)
  have ok: "list_all2 (step_ok en (pf_condition_engine p) ctx ex p') (take (length rs) ?sts) rs"
    and le: "length rs \<le> length ?sts" and rs: "we_step_results ex = rs"
    using r ex1 by (auto simp: ran_def ce)
  have "(sx_step_order (rs ! i), sx_skipped (rs ! i)) = (so_step_order (?outs ! i), \<not> so_would_run (?outs ! i))"
    if "i < length rs" for i
  proof -
    have "step_ok en (pf_condition_engine p) ctx ex p' (?sts ! i) (rs ! i)"
      using ok that le by (auto simp: list_all2_conv_all_nth)
    moreover have "so_step_order (?outs ! i) = st_order (?sts ! i)"
      "step_runs en (pf_condition_engine p) (?sts ! i) ctx = Inr (so_would_run (?outs ! i))"
      using outs that le by (auto simp: list_all2_conv_all_nth)
    ultimately show ?thesis by (auto simp: step_ok_def split: if_splits)
  qed
  then have "map (\<lambda>r. (sx_step_order r, sx_skipped r)) rs =
      map (\<lambda>out. (so_step_order out, \<not> so_would_run out)) (take (length rs) ?outs)"
    using le len by (intro nth_equalityI) simp_all
  moreover have "we_status ex = ES_COMPLETED \<longleftrightarrow> length rs = length ?outs"
    using r ex1 len by (auto simp: ran_def split: if_splits)
  ultimately show ?thesis using True start rs le len by simp
qed

lemma simulation_predicts_witness:
  "\<exists>ex p'. start_execution demo_environment demo_workflow [(''role'', ''clerk'')] demo_platform = (Inr ex, p') \<and>
     we_status ex = ES_CANCELLED"
proof -
  have "simulate (en_depth demo_environment) (pf_condition_engine (demo_platform :: unit platform)) demo_workflow
      [(''role'', ''clerk'')] = Inr \<lparr>sr_workflow_id = ''w'', sr_would_complete = False, sr_steps = [],
        sr_workflow_condition_failure = Some workflow_condition_failure\<rparr>"
    by (simp add: simulate_def demo_defs cond_role_is_def eval_nat_numeral)
  from simulation_predicts [OF this] show ?thesis by auto
qed

end
