(* ===== verification/Validations.thy ===== *)
theory Validations
  imports Actions
begin

text \<open>
  \<^verbatim>\<open>ai_governance/human_validation\<close>: validation requests with simple, multiple and
  hierarchical approval, and \<open>workflow_automation/approval_gateway\<close>, which puts actions of a
  workflow behind such a request.
\<close>

section \<open>Requests\<close>

datatype validation_mode = VM_SIMPLE | VM_MULTIPLE | VM_HIERARCHICAL

datatype validation_status = VS_PENDING | VS_APPROVED | VS_REJECTED | VS_REVISION_REQUESTED

datatype validation_decision = VD_APPROVE | VD_REJECT | VD_REQUEST_REVISION

record validation_entry =
  vn_approver_id :: pystr
  vn_decision :: validation_decision
  vn_tier :: nat
  vn_comment :: "pystr option"
  vn_decided_at :: datetime

record validation_request =
  vr_id :: pystr
  vr_firm_id :: pystr
  vr_production_id :: pystr
  vr_requested_by :: pystr
  vr_approver_tiers :: "pystr list list"
  vr_mode :: validation_mode
  vr_status :: validation_status
  vr_history :: "validation_entry list"
  vr_created_at :: datetime

type_synonym validation_store = "(pystr, validation_request) dict"

definition validation_store_save :: "validation_request \<Rightarrow> validation_store \<Rightarrow> validation_store" where
  [store_defs]: "validation_store_save r s = dict_set (vr_id r) r s"

definition validation_store_get :: "pystr \<Rightarrow> pystr \<Rightarrow> validation_store \<Rightarrow> validation_request option" where
  "validation_store_get firm request_id s =
     (case dict_get s request_id of
        None \<Rightarrow> None
      | Some r \<Rightarrow> if vr_firm_id r \<noteq> firm then None else Some r)"

definition validation_store_list_for_production ::
  "pystr \<Rightarrow> pystr \<Rightarrow> validation_store \<Rightarrow> validation_request list" where
  "validation_store_list_for_production firm production_id s =
     filter (\<lambda>r. vr_firm_id r = firm \<and> vr_production_id r = production_id) (dict_values s)"

interpretation validation_rows: keyed_store vr_id validation_store_save dict_get "keyed vr_id"
  using keyed_store_dict [of vr_id] by (simp add: validation_store_save_def [abs_def])

section \<open>Deciding\<close>

definition tier_approvals :: "nat \<Rightarrow> validation_entry list \<Rightarrow> pystr set" where
  "tier_approvals tier_index history =
     set (map vn_approver_id (filter (\<lambda>e. vn_tier e = tier_index \<and> vn_decision e = VD_APPROVE) history))"

definition tier_is_approved :: "pystr list \<Rightarrow> nat \<Rightarrow> validation_entry list \<Rightarrow> validation_mode \<Rightarrow> bool" where
  "tier_is_approved approver_ids tier_index history mode =
     (if mode = VM_MULTIPLE then set approver_ids \<subseteq> tier_approvals tier_index history
      else tier_approvals tier_index history \<noteq> {})"

text \<open>The loop over \<open>enumerate(approver_tiers)\<close>: the first tier not approved yet.\<close>

fun first_open_tier :: "nat \<Rightarrow> pystr list list \<Rightarrow> validation_entry list \<Rightarrow> validation_mode \<Rightarrow> nat option" where
  "first_open_tier i [] history mode = None"
| "first_open_tier i (tier # tiers) history mode =
     (if \<not> tier_is_approved tier i history mode then Some i else first_open_tier (Suc i) tiers history mode)"

definition recompute_status :: "validation_request \<Rightarrow> validation_status" where
  "recompute_status r =
     (if \<exists>e \<in> set (vr_history r). vn_decision e = VD_REJECT then VS_REJECTED
      else if \<exists>e \<in> set (vr_history r). vn_decision e = VD_REQUEST_REVISION then VS_REVISION_REQUESTED
      else (case first_open_tier 0 (vr_approver_tiers r) (vr_history r) (vr_mode r) of
              Some _ \<Rightarrow> VS_PENDING
            | None \<Rightarrow> VS_APPROVED))"

definition current_tier_index :: "validation_request \<Rightarrow> nat" where
  "current_tier_index r =
     (case first_open_tier 0 (vr_approver_tiers r) (vr_history r) (vr_mode r) of
        Some i \<Rightarrow> i
      | None \<Rightarrow> max 0 (length (vr_approver_tiers r) - 1))"

definition new_validation_request ::
  "pystr \<Rightarrow> datetime \<Rightarrow> pystr \<Rightarrow> pystr \<Rightarrow> pystr \<Rightarrow> pystr list list \<Rightarrow> validation_mode \<Rightarrow> validation_store
     \<Rightarrow> validation_request \<times> validation_store" where
  "new_validation_request new_id now firm production_id requested_by tiers mode s =
     (let r = \<lparr>vr_id = new_id, vr_firm_id = firm, vr_production_id = production_id,
               vr_requested_by = requested_by, vr_approver_tiers = tiers, vr_mode = mode,
               vr_status = VS_PENDING, vr_history = [], vr_created_at = now\<rparr>
      in (r, validation_store_save r s))"

definition request_simple ::
  "pystr \<Rightarrow> datetime \<Rightarrow> pystr \<Rightarrow> pystr \<Rightarrow> pystr \<Rightarrow> pystr list \<Rightarrow> validation_store
     \<Rightarrow> validation_request \<times> validation_store" where
  "request_simple new_id now firm production_id requested_by approver_ids s =
     new_validation_request new_id now firm production_id requested_by [approver_ids] VM_SIMPLE s"

definition request_multiple ::
  "pystr \<Rightarrow> datetime \<Rightarrow> pystr \<Rightarrow> pystr \<Rightarrow> pystr \<Rightarrow> pystr list \<Rightarrow> validation_store
     \<Rightarrow> validation_request \<times> validation_store" where
  "request_multiple new_id now firm production_id requested_by approver_ids s =
     new_validation_request new_id now firm production_id requested_by [approver_ids] VM_MULTIPLE s"

definition request_hierarchical ::
  "pystr \<Rightarrow> datetime \<Rightarrow> pystr \<Rightarrow> pystr \<Rightarrow> pystr \<Rightarrow> pystr list list \<Rightarrow> validation_store
     \<Rightarrow> validation_request \<times> validation_store" where
  "request_hierarchical new_id now firm production_id requested_by tiers s =
     new_validation_request new_id now firm production_id requested_by tiers VM_HIERARCHICAL s"

text \<open>The new value of a request after a decision, and the operation on the store.\<close>

definition decided ::
  "datetime \<Rightarrow> pystr \<Rightarrow> validation_decision \<Rightarrow> pystr option \<Rightarrow> validation_request \<Rightarrow> validation_request" where
  "decided now approver_id decision comment r =
     (let entry = \<lparr>vn_approver_id = approver_id, vn_decision = decision, vn_tier = current_tier_index r,
                   vn_comment = comment, vn_decided_at = now\<rparr>;
          r1 = r\<lparr>vr_history := vr_history r @ [entry]\<rparr>
      in r1\<lparr>vr_status := recompute_status r1\<rparr>)"

definition decide_validation ::
  "datetime \<Rightarrow> pystr \<Rightarrow> pystr \<Rightarrow> pystr \<Rightarrow> validation_decision \<Rightarrow> pystr option \<Rightarrow> validation_store
     \<Rightarrow> (validation_request \<times> validation_store) result" where
  "decide_validation now firm request_id approver_id decision comment s =
     (case validation_store_get firm request_id s of
        None \<Rightarrow> Inl (KeyError (''validation request '' @ request_id @ '' not found for firm '' @ firm))
      | Some r \<Rightarrow>
          (let r' = decided now approver_id decision comment r
           in Inr (r', validation_store_save r' s)))"

definition validation_history :: "pystr \<Rightarrow> pystr \<Rightarrow> validation_store \<Rightarrow> validation_request list" where
  "validation_history firm production_id s = validation_store_list_for_production firm production_id s"

definition is_validated :: "pystr \<Rightarrow> pystr \<Rightarrow> validation_store \<Rightarrow> bool" where
  "is_validated firm production_id s =
     (\<exists>r \<in> set (validation_history firm production_id s). vr_status r = VS_APPROVED)"

section \<open>The approval gateway\<close>

record approval_policy =
  ap_firm_id :: pystr
  ap_action_type :: pystr
  ap_required :: bool

record approval_gateway =
  ag_human_validation :: validation_store
  ag_policies :: "(pystr \<times> pystr, approval_policy) dict"

definition approval_policy_set ::
  "approval_policy \<Rightarrow> (pystr \<times> pystr, approval_policy) dict \<Rightarrow> (pystr \<times> pystr, approval_policy) dict" where
  "approval_policy_set pol s = dict_set (ap_firm_id pol, ap_action_type pol) pol s"

definition configure_approval :: "pystr \<Rightarrow> pystr \<Rightarrow> bool \<Rightarrow> approval_gateway \<Rightarrow> approval_policy \<times> approval_gateway" where
  "configure_approval firm action_type required g =
     (let pol = \<lparr>ap_firm_id = firm, ap_action_type = action_type, ap_required = required\<rparr>
      in (pol, g\<lparr>ag_policies := approval_policy_set pol (ag_policies g)\<rparr>))"

definition requires_approval :: "pystr \<Rightarrow> pystr \<Rightarrow> approval_gateway \<Rightarrow> bool" where
  "requires_approval firm action_type g =
     (case dict_get (ag_policies g) (firm, action_type) of None \<Rightarrow> False | Some pol \<Rightarrow> ap_required pol)"

definition request_approval ::
  "pystr \<Rightarrow> datetime \<Rightarrow> pystr \<Rightarrow> pystr \<Rightarrow> pystr \<Rightarrow> pystr list \<Rightarrow> approval_gateway
     \<Rightarrow> validation_request \<times> approval_gateway" where
  "request_approval new_id now firm action_id requested_by approver_ids g =
     (let (r, s) = request_simple new_id now firm action_id requested_by approver_ids (ag_human_validation g)
      in (r, g\<lparr>ag_human_validation := s\<rparr>))"

definition decide_approval ::
  "datetime \<Rightarrow> pystr \<Rightarrow> pystr \<Rightarrow> pystr \<Rightarrow> validation_decision \<Rightarrow> pystr option \<Rightarrow> approval_gateway
     \<Rightarrow> (validation_request \<times> approval_gateway) result" where
  "decide_approval now firm request_id approver_id decision comment g =
     res_bind (decide_validation now firm request_id approver_id decision comment (ag_human_validation g))
       (\<lambda>(r, s). Inr (r, g\<lparr>ag_human_validation := s\<rparr>))"

definition is_action_approved :: "pystr \<Rightarrow> pystr \<Rightarrow> approval_gateway \<Rightarrow> bool" where
  "is_action_approved firm action_id g = is_validated firm action_id (ag_human_validation g)"

section \<open>Lemmas\<close>

lemma first_open_tier_None:
  "first_open_tier i tiers h m = None \<longleftrightarrow> (\<forall>k < length tiers. tier_is_approved (tiers ! k) (i + k) h m)"
proof (induction tiers arbitrary: i)
  case (Cons tier tiers)
  then show ?case
    by (auto simp: less_Suc_eq_0_disj)
qed simp

lemma first_open_tier_Some:
  "first_open_tier i tiers h m = Some j \<Longrightarrow> \<exists>k < length tiers. j = i + k \<and> \<not> tier_is_approved (tiers ! k) j h m \<and>
     (\<forall>l < k. tier_is_approved (tiers ! l) (i + l) h m)"
proof (induction tiers arbitrary: i)
  case (Cons tier tiers)
  show ?case
  proof (cases "tier_is_approved tier i h m")
    case True
    with Cons.prems have "first_open_tier (Suc i) tiers h m = Some j" by simp
    from Cons.IH [OF this] obtain k where k: "k < length tiers" "j = Suc i + k" "\<not> tier_is_approved (tiers ! k) j h m"
      "\<forall>l < k. tier_is_approved (tiers ! l) (Suc i + l) h m" by auto
    have "tier_is_approved ((tier # tiers) ! l) (i + l) h m" if "l < Suc k" for l
      using that True k(4) by (cases l) auto
    with k show ?thesis by (intro exI [of _ "Suc k"]) auto
  next
    case False
    with Cons.prems show ?thesis by (intro exI [of _ 0]) simp
  qed
qed simp

lemma tier_is_approved_mono:
  "tier_is_approved a i h m \<Longrightarrow> tier_is_approved a i (h @ h') m"
  by (auto simp: tier_is_approved_def tier_approvals_def split: if_splits)

text \<open>
  \<open>tiers_in_order\<close>: every decision of the history was taken at the tier that was the first
  open one at that moment, so no approval of a tier precedes the approval of the tiers before it.
\<close>

definition tiers_in_order :: "validation_request \<Rightarrow> bool" where
  "tiers_in_order r \<longleftrightarrow>
     (\<forall>k < length (vr_history r). \<forall>l < vn_tier (vr_history r ! k). l < length (vr_approver_tiers r) \<longrightarrow>
        tier_is_approved (vr_approver_tiers r ! l) l (take k (vr_history r)) (vr_mode r))"

lemma current_tier_before_approved:
  assumes "l < current_tier_index r" and "l < length (vr_approver_tiers r)"
  shows "tier_is_approved (vr_approver_tiers r ! l) l (vr_history r) (vr_mode r)"
proof (cases "first_open_tier 0 (vr_approver_tiers r) (vr_history r) (vr_mode r)")
  case None
  then show ?thesis using assms(2) by (simp add: first_open_tier_None)
next
  case (Some j)
  from first_open_tier_Some [OF Some] Some show ?thesis
    using assms by (auto simp: current_tier_index_def)
qed

lemma decided_in_order:
  assumes "tiers_in_order r"
  shows "tiers_in_order (decided now approver d comment r)"
  unfolding tiers_in_order_def
proof (intro allI impI)
  fix k l
  let ?r = "decided now approver d comment r"
  assume k: "k < length (vr_history ?r)" and l: "l < vn_tier (vr_history ?r ! k)" "l < length (vr_approver_tiers ?r)"
  show "tier_is_approved (vr_approver_tiers ?r ! l) l (take k (vr_history ?r)) (vr_mode ?r)"
  proof (cases "k < length (vr_history r)")
    case True
    with k l assms show ?thesis
      by (simp add: decided_def Let_def tiers_in_order_def nth_append)
  next
    case False
    with k have "k = length (vr_history r)" by (simp add: decided_def Let_def)
    with l show ?thesis by (simp add: decided_def Let_def current_tier_before_approved)
  qed
qed

section \<open>Reachable requests\<close>

inductive request_reachable :: "validation_request \<Rightarrow> bool" where
  New: "vr_status r = VS_PENDING \<Longrightarrow> vr_history r = [] \<Longrightarrow> request_reachable r"
| Decided: "request_reachable r \<Longrightarrow> request_reachable (decided now approver d comment r)"

inductive_cases request_reachableE: "request_reachable r"

lemma reachable_in_order: "request_reachable r \<Longrightarrow> tiers_in_order r"
  by (induction rule: request_reachable.induct) (simp add: tiers_in_order_def, rule decided_in_order)

lemma decided_status: "vr_status (decided now approver d comment r) = recompute_status (decided now approver d comment r)"
  by (simp add: decided_def Let_def recompute_status_def)

lemma reachable_status:
  "request_reachable r \<Longrightarrow> vr_history r \<noteq> [] \<Longrightarrow> vr_status r = recompute_status r"
  by (erule request_reachableE) (auto simp: decided_status)

lemma reachable_approved:
  assumes "request_reachable r" and "vr_status r = VS_APPROVED"
  shows "\<forall>k < length (vr_approver_tiers r). tier_is_approved (vr_approver_tiers r ! k) k (vr_history r) (vr_mode r)"
    and "\<forall>e \<in> set (vr_history r). vn_decision e = VD_APPROVE"
proof -
  have "vr_history r \<noteq> []"
    using assms(1)
  proof (cases rule: request_reachable.cases)
    case New
    with assms(2) show ?thesis by simp
  next
    case (Decided r0 now approver d comment)
    then show ?thesis by (simp add: decided_def Let_def)
  qed
  with assms have a: "recompute_status r = VS_APPROVED" using reachable_status by metis
  then show "\<forall>k < length (vr_approver_tiers r). tier_is_approved (vr_approver_tiers r ! k) k (vr_history r) (vr_mode r)"
    by (auto simp: recompute_status_def first_open_tier_None split: if_splits option.splits)
  show "\<forall>e \<in> set (vr_history r). vn_decision e = VD_APPROVE"
  proof
    fix e assume "e \<in> set (vr_history r)"
    with a have "vn_decision e \<noteq> VD_REJECT" "vn_decision e \<noteq> VD_REQUEST_REVISION"
      by (auto simp: recompute_status_def split: if_splits)
    then show "vn_decision e = VD_APPROVE" by (cases "vn_decision e") auto
  qed
qed

section \<open>Properties\<close>

text \<open>
  C5. What an approval stands for. In a request reached by decisions from a new one, approved
  means that nobody rejected it or asked for a revision and every tier is approved: in multiple
  mode each of its approvers approved it at that tier, in the other modes somebody did; and
  tiers are approved in order: whoever approved at a tier did so when every lower tier already
  was approved.
\<close>

theorem approved_means:
  assumes reach: "request_reachable r" and approved: "vr_status r = VS_APPROVED"
  shows "(\<forall>e \<in> set (vr_history r). vn_decision e = VD_APPROVE) \<and>
     (\<forall>k < length (vr_approver_tiers r).
        (if vr_mode r = VM_MULTIPLE
         then \<forall>a \<in> set (vr_approver_tiers r ! k). \<exists>e \<in> set (vr_history r). vn_approver_id e = a \<and> vn_tier e = k
         else \<exists>e \<in> set (vr_history r). vn_tier e = k)) \<and>
     (\<forall>i < length (vr_history r). \<forall>k < vn_tier (vr_history r ! i). k < length (vr_approver_tiers r) \<longrightarrow>
        tier_is_approved (vr_approver_tiers r ! k) k (take i (vr_history r)) (vr_mode r))"
proof (intro conjI)
  note all = reachable_approved [OF reach approved]
  show "\<forall>e \<in> set (vr_history r). vn_decision e = VD_APPROVE" by (rule all(2))
  show "\<forall>k < length (vr_approver_tiers r).
        (if vr_mode r = VM_MULTIPLE
         then \<forall>a \<in> set (vr_approver_tiers r ! k). \<exists>e \<in> set (vr_history r). vn_approver_id e = a \<and> vn_tier e = k
         else \<exists>e \<in> set (vr_history r). vn_tier e = k)"
    using all(1) by (fastforce simp: tier_is_approved_def tier_approvals_def split: if_splits)
  show "\<forall>i < length (vr_history r). \<forall>k < vn_tier (vr_history r ! i). k < length (vr_approver_tiers r) \<longrightarrow>
        tier_is_approved (vr_approver_tiers r ! k) k (take i (vr_history r)) (vr_mode r)"
    using reachable_in_order [OF reach] by (simp add: tiers_in_order_def)
qed

definition demo_request :: "validation_mode \<Rightarrow> pystr list list \<Rightarrow> validation_request" where
  "demo_request mode tiers = \<lparr>vr_id = ''r'', vr_firm_id = ''f'', vr_production_id = ''p'', vr_requested_by = ''u'',
     vr_approver_tiers = tiers, vr_mode = mode, vr_status = VS_PENDING, vr_history = [], vr_created_at = 0\<rparr>"

lemma demo_request_reachable: "request_reachable (demo_request mode tiers)"
  by (rule request_reachable.New) (simp_all add: demo_request_def)

lemma approved_means_witness:
  "\<exists>r :: validation_request. vr_status r = VS_APPROVED \<and> length (vr_history r) = 2 \<and> (\<exists>e \<in> set (vr_history r). vn_tier e = 1)"
proof -
  let ?r = "decided 2 ''b'' VD_APPROVE None (decided 1 ''a'' VD_APPROVE None
      (demo_request VM_HIERARCHICAL [[''a''], [''b'']]))"
  have reach: "request_reachable ?r"
    by (intro request_reachable.Decided demo_request_reachable)
  have ok: "vr_status ?r = VS_APPROVED" and len: "length (vr_history ?r) = 2"
    and one: "1 < length (vr_approver_tiers ?r)" and mode: "vr_mode ?r \<noteq> VM_MULTIPLE"
    by (simp_all add: demo_request_def decided_def recompute_status_def current_tier_index_def
        tier_is_approved_def tier_approvals_def)
  from approved_means [OF reach ok] one mode have tier: "\<exists>e \<in> set (vr_history ?r). vn_tier e = 1" by auto
  show ?thesis by (intro exI [of _ ?r] conjI ok len tier)
qed

text \<open>
  A decision only adds to the record, and a negative one is final: deciding appends one
  entry for that approver and decision to the history and changes neither the approvers nor the
  mode; once somebody has rejected a request every later status is rejected, and once somebody
  has asked for a revision it never becomes approved or pending again. Other requests are untouched.
\<close>

theorem decide_appends:
  assumes store: "keyed vr_id s"
    and decide: "decide_validation now firm request_id approver d comment s = Inr (r', s')"
  shows "\<exists>r entry. dict_get s request_id = Some r \<and> vr_firm_id r = firm \<and>
     vr_history r' = vr_history r @ [entry] \<and> vn_approver_id entry = approver \<and> vn_decision entry = d \<and>
     vr_approver_tiers r' = vr_approver_tiers r \<and> vr_mode r' = vr_mode r \<and>
     ((\<exists>e \<in> set (vr_history r). vn_decision e = VD_REJECT) \<longrightarrow> vr_status r' = VS_REJECTED) \<and>
     ((\<exists>e \<in> set (vr_history r). vn_decision e = VD_REQUEST_REVISION) \<longrightarrow>
        vr_status r' \<in> {VS_REJECTED, VS_REVISION_REQUESTED}) \<and>
     keyed vr_id s' \<and> dict_get s' request_id = Some r' \<and>
     (\<forall>other. other \<noteq> request_id \<longrightarrow> dict_get s' other = dict_get s other)"
proof -
  from decide obtain r where r: "dict_get s request_id = Some r" "vr_firm_id r = firm"
    and r': "r' = decided now approver d comment r" and s': "s' = validation_store_save r' s"
    by (auto simp: decide_validation_def validation_store_get_def Let_def split: option.splits if_splits)
  have id: "vr_id r' = request_id"
    using keyed_get [OF store r(1)] by (simp add: r' decided_def Let_def)
  have "keyed vr_id s'" using store by (simp add: s' validation_rows.wf_put)
  moreover have "dict_get s' k = (if k = request_id then Some r' else dict_get s k)" for k
    by (simp add: s' validation_rows.get_put id)
  moreover have "vr_status r' = recompute_status r'" by (simp add: r' decided_status)
  ultimately show ?thesis
    using r by (auto simp: r' decided_def Let_def recompute_status_def split: option.splits)
qed

lemma decide_appends_witness:
  "\<exists>r' s'. decide_validation 1 ''f'' ''r'' ''a'' VD_APPROVE None
       [(''r'', decided 0 ''b'' VD_REJECT None (demo_request VM_SIMPLE [[''a'']]))] = Inr (r', s') \<and>
     vr_status r' = VS_REJECTED"
proof -
  let ?r = "decided 0 ''b'' VD_REJECT None (demo_request VM_SIMPLE [[''a'']])"
  have key: "vr_id ?r = ''r''" "vr_firm_id ?r = ''f''" and rejected: "\<exists>e \<in> set (vr_history ?r). vn_decision e = VD_REJECT"
    by (simp_all add: decided_def demo_request_def Let_def)
  then have store: "keyed vr_id [(''r'', ?r)]" by (simp add: keyed_def)
  have "decide_validation 1 ''f'' ''r'' ''a'' VD_APPROVE None [(''r'', ?r)] =
      Inr (decided 1 ''a'' VD_APPROVE None ?r, validation_store_save (decided 1 ''a'' VD_APPROVE None ?r) [(''r'', ?r)])"
    using key by (simp add: decide_validation_def validation_store_get_def Let_def)
  from this decide_appends [OF store this] rejected show ?thesis by auto
qed

text \<open>
  The approvers named in a simple or hierarchical request are not checked: anybody's first
  approval of a simple request approves it, be it the requester's own or that of a user who is
  not among the approvers. In multiple mode an outsider's approval never approves a request that
  names an approver who has not approved it.
\<close>

theorem outsider_approval:
  assumes fresh: "vr_history r = []" and one: "vr_approver_tiers r = [approvers]"
  shows "(vr_mode r = VM_SIMPLE \<longrightarrow> vr_status (decided now outsider VD_APPROVE comment r) = VS_APPROVED) \<and>
     (vr_mode r = VM_MULTIPLE \<and> \<not> set approvers \<subseteq> {outsider} \<longrightarrow>
        vr_status (decided now outsider VD_APPROVE comment r) = VS_PENDING)"
  using assms
  by (auto simp: decided_def Let_def recompute_status_def current_tier_index_def tier_is_approved_def
      tier_approvals_def)

lemma outsider_approval_witness:
  "vr_status (decided 0 ''stranger'' VD_APPROVE None (demo_request VM_SIMPLE [[''partner'']])) = VS_APPROVED"
  using outsider_approval [of "demo_request VM_SIMPLE [[''partner'']]" "[''partner'']" 0 "''stranger''" None]
  by (simp add: demo_request_def)

text \<open>
  The gateway asks for approval exactly where the cabinet last said so: configuring a
  policy decides the answer for that firm and action type and no other, and without a policy no
  approval is required.
\<close>

lemma configure_approval_exact:
  "requires_approval f a (snd (configure_approval firm action_type required g)) =
     (if (f, a) = (firm, action_type) then required else requires_approval f a g) \<and>
   is_action_approved f x (snd (configure_approval firm action_type required g)) = is_action_approved f x g \<and>
   \<not> requires_approval f a \<lparr>ag_human_validation = [], ag_policies = []\<rparr>"
  by (auto simp: configure_approval_def approval_policy_set_def requires_approval_def is_action_approved_def
      update_conv' Let_def)

end
