(* ===== verification/Journals.thy ===== *)
theory Journals
  imports PyText PyDate
begin

text \<open>
  The audit journal of \<^verbatim>\<open>workflow_automation/audit\<close> with its CSV export, and the notifications of
  \<open>collaboration/notifications\<close> with the adapter \<open>workflow_automation/notifications\<close> puts before
  them. The CSV writer is Python's \<open>csv.DictWriter\<close> with its default dialect; the reader it is
  checked against follows the same dialect.
\<close>

section \<open>The audit journal\<close>

record audit_entry =
  au_id :: pystr
  au_firm_id :: pystr
  au_workflow_id :: pystr
  au_execution_id :: "pystr option"
  au_actor_id :: pystr
  au_action :: pystr
  au_detail :: pystr
  au_metadata :: "(pystr, pystr) dict"
  au_recorded_at :: datetime

type_synonym audit_store = "audit_entry list"

definition audit_store_add :: "audit_entry \<Rightarrow> audit_store \<Rightarrow> audit_store" where
  [store_defs]: "audit_store_add entry s = s @ [entry]"

definition audit_list_for_firm :: "audit_store \<Rightarrow> pystr \<Rightarrow> audit_entry list" where
  [store_defs]: "audit_list_for_firm s firm = filter (\<lambda>e. au_firm_id e = firm) s"

definition audit_list_for_workflow :: "audit_store \<Rightarrow> pystr \<Rightarrow> pystr \<Rightarrow> audit_entry list" where
  "audit_list_for_workflow s firm workflow_id =
     filter (\<lambda>e. au_firm_id e = firm \<and> au_workflow_id e = workflow_id) s"

interpretation audit_log: journal audit_store_add id au_firm_id audit_list_for_firm
  by unfold_locales (simp_all add: store_defs)

definition record_audit ::
  "pystr \<Rightarrow> datetime \<Rightarrow> pystr \<Rightarrow> pystr \<Rightarrow> pystr \<Rightarrow> pystr \<Rightarrow> pystr option \<Rightarrow> pystr
     \<Rightarrow> (pystr, pystr) dict option \<Rightarrow> audit_store \<Rightarrow> audit_entry \<times> audit_store" where
  "record_audit new_id now firm workflow_id actor_id action execution_id detail metadata s =
     (let entry = \<lparr>au_id = new_id, au_firm_id = firm, au_workflow_id = workflow_id,
                   au_execution_id = execution_id, au_actor_id = actor_id, au_action = action,
                   au_detail = detail, au_metadata = (case metadata of None \<Rightarrow> [] | Some m \<Rightarrow> m),
                   au_recorded_at = now\<rparr>
      in (entry, audit_store_add entry s))"

section \<open>Date and time as text\<close>

text \<open>\<open>datetime.isoformat()\<close> of a UTC datetime; 719163 is the ordinal of 1970-01-01.\<close>

definition pad :: "nat \<Rightarrow> int \<Rightarrow> pystr" where
  "pad width n = (let s = dec_nat (nat n) in replicate (width - length s) CHR ''0'' @ s)"

definition isoformat_utc :: "datetime \<Rightarrow> pystr" where
  "isoformat_utc t =
     (let (y, m, d) = ord_to_ymd (t div 86400000000 + 719163);
          us = t mod 86400000000;
          micro = us mod 1000000;
          secs = us div 1000000
      in pad 4 y @ ''-'' @ pad 2 m @ ''-'' @ pad 2 d @ ''T'' @ pad 2 (secs div 3600) @ '':'' @
         pad 2 (secs div 60 mod 60) @ '':'' @ pad 2 (secs mod 60) @
         (if micro = 0 then [] else ''.'' @ pad 6 micro) @ ''+00:00'')"

section \<open>CSV\<close>

definition csv_quotes :: "char \<Rightarrow> bool" where
  "csv_quotes c \<longleftrightarrow> c = CHR '','' \<or> c = CHR 0x22 \<or> c = CHR 0x0D \<or> c = CHR 0x0A"

definition csv_double :: "char \<Rightarrow> pystr" where
  "csv_double c = (if c = CHR 0x22 then [CHR 0x22, CHR 0x22] else [c])"

definition csv_field :: "pystr \<Rightarrow> pystr" where
  "csv_field f =
     (if \<exists>c \<in> set f. csv_quotes c then [CHR 0x22] @ concat (map csv_double f) @ [CHR 0x22] else f)"

fun csv_join :: "pystr list \<Rightarrow> pystr" where
  "csv_join [] = []"
| "csv_join [f] = f"
| "csv_join (f # fs) = f @ [CHR '',''] @ csv_join fs"

definition csv_row :: "pystr list \<Rightarrow> pystr" where
  "csv_row cells = csv_join (map csv_field cells) @ [CHR 0x0D, CHR 0x0A]"

definition csv_fields :: "pystr list" where
  "csv_fields = [''id'', ''workflow_id'', ''execution_id'', ''actor_id'', ''action'', ''detail'', ''recorded_at'']"

definition audit_row :: "audit_entry \<Rightarrow> pystr list" where
  "audit_row e = [au_id e, au_workflow_id e, (case au_execution_id e of None \<Rightarrow> [] | Some x \<Rightarrow> x),
     au_actor_id e, au_action e, au_detail e, isoformat_utc (au_recorded_at e)]"

definition export_csv :: "pystr \<Rightarrow> audit_store \<Rightarrow> pystr" where
  "export_csv firm s = concat (map csv_row (csv_fields # map audit_row (audit_list_for_firm s firm)))"

text \<open>
  The reader: at the start of a field, in a plain or a quoted field, after a quote inside a
  quoted field, or after a carriage return that ended a row. Field and rows read so far are
  accumulated in reverse.
\<close>

datatype csv_mode = At_start | In_plain | In_quoted | After_quote | After_return

fun csv_read :: "csv_mode \<Rightarrow> pystr \<Rightarrow> pystr list \<Rightarrow> pystr list list \<Rightarrow> pystr \<Rightarrow> pystr list list" where
  "csv_read mode field row rows [] =
     (if mode = After_return \<or> mode = At_start \<and> row = [] \<and> field = [] then rev rows
      else rev (rev (rev field # row) # rows))"
| "csv_read mode field row rows (c # cs) =
     (case mode of
        After_return \<Rightarrow>
          if c = CHR 0x0A then csv_read At_start [] [] rows cs
          else if c = CHR 0x22 then csv_read In_quoted [] [] rows cs
          else csv_read In_plain [c] [] rows cs
      | In_quoted \<Rightarrow>
          if c = CHR 0x22 then csv_read After_quote field row rows cs
          else csv_read In_quoted (c # field) row rows cs
      | _ \<Rightarrow>
          if c = CHR '','' then csv_read At_start [] (rev field # row) rows cs
          else if c = CHR 0x0D then csv_read After_return [] [] (rev (rev field # row) # rows) cs
          else if c = CHR 0x0A then csv_read At_start [] [] (rev (rev field # row) # rows) cs
          else if c = CHR 0x22 \<and> mode = At_start then csv_read In_quoted field row rows cs
          else if c = CHR 0x22 \<and> mode = After_quote then csv_read In_quoted (c # field) row rows cs
          else csv_read In_plain (c # field) row rows cs)"

definition csv_parse :: "pystr \<Rightarrow> pystr list list" where
  "csv_parse s = csv_read At_start [] [] [] s"

lemma csv_read_plain:
  "\<forall>c \<in> set f. \<not> csv_quotes c \<Longrightarrow> csv_read In_plain field row rows (f @ rest) = csv_read In_plain (rev f @ field) row rows rest"
  by (induction f arbitrary: field) (auto simp: csv_quotes_def)

lemma csv_read_quoted:
  "csv_read In_quoted field row rows (concat (map csv_double f) @ [CHR 0x22] @ rest) =
     csv_read After_quote (rev f @ field) row rows rest"
  by (induction f arbitrary: field) (auto simp: csv_double_def)

lemma csv_read_field_comma:
  "csv_read At_start [] row rows (csv_field f @ CHR '','' # rest) = csv_read At_start [] (f # row) rows rest"
proof (cases "\<exists>c \<in> set f. csv_quotes c")
  case True
  have "csv_read At_start [] row rows (csv_field f @ CHR '','' # rest) =
      csv_read In_quoted [] row rows (concat (map csv_double f) @ [CHR 0x22] @ CHR '','' # rest)"
    using True by (simp add: csv_field_def)
  also have "\<dots> = csv_read At_start [] (f # row) rows rest"
    unfolding csv_read_quoted by simp
  finally show ?thesis .
next
  case False
  then show ?thesis
  proof (cases f)
    case (Cons c cs)
    with False csv_read_plain [of cs "[c]" row rows "CHR '','' # rest"]
    show ?thesis by (auto simp: csv_field_def csv_quotes_def)
  qed (simp add: csv_field_def)
qed

lemma csv_read_field_end:
  "csv_read At_start [] row rows (csv_field f @ CHR 0x0D # CHR 0x0A # rest) =
     csv_read At_start [] [] (rev (f # row) # rows) rest"
proof (cases "\<exists>c \<in> set f. csv_quotes c")
  case True
  have "csv_read At_start [] row rows (csv_field f @ CHR 0x0D # CHR 0x0A # rest) =
      csv_read In_quoted [] row rows (concat (map csv_double f) @ [CHR 0x22] @ CHR 0x0D # CHR 0x0A # rest)"
    using True by (simp add: csv_field_def)
  also have "\<dots> = csv_read At_start [] [] (rev (f # row) # rows) rest"
    unfolding csv_read_quoted by simp
  finally show ?thesis .
next
  case False
  then show ?thesis
  proof (cases f)
    case (Cons c cs)
    with False csv_read_plain [of cs "[c]" row rows "CHR 0x0D # CHR 0x0A # rest"]
    show ?thesis by (auto simp: csv_field_def csv_quotes_def)
  qed (simp add: csv_field_def)
qed

lemma csv_read_row:
  "cells \<noteq> [] \<Longrightarrow> csv_read At_start [] row rows (csv_join (map csv_field cells) @ CHR 0x0D # CHR 0x0A # rest) =
     csv_read At_start [] [] ((rev row @ cells) # rows) rest"
proof (induction cells arbitrary: row)
  case (Cons f fs)
  show ?case
  proof (cases fs)
    case Nil
    then show ?thesis by (simp add: csv_read_field_end)
  next
    case (Cons g gs)
    with Cons.IH [of "f # row"] show ?thesis by (simp add: csv_read_field_comma)
  qed
qed simp

lemma csv_parse_rows:
  "\<forall>r \<in> set table. r \<noteq> [] \<Longrightarrow> csv_read At_start [] [] rows (concat (map csv_row table)) = rev rows @ table"
proof (induction table arbitrary: rows)
  case (Cons r table)
  then have "csv_read At_start [] [] rows (concat (map csv_row (r # table))) =
      csv_read At_start [] [] (r # rows) (concat (map csv_row table))"
    using csv_read_row [of r "[]" rows "concat (map csv_row table)"] by (simp add: csv_row_def)
  with Cons show ?case by simp
qed simp

section \<open>Notifications\<close>

datatype notification_channel = NC_IN_APP | NC_EMAIL | NC_WEBHOOK

record notification =
  nt_id :: pystr
  nt_workspace_id :: pystr
  nt_recipient_id :: pystr
  nt_channel :: notification_channel
  nt_type :: pystr
  nt_payload :: "(pystr, pystr) dict"
  nt_created_at :: "datetime option"
  nt_read_at :: "datetime option"

text \<open>A channel: the in-app marker, or a stub that records what it would send.\<close>

datatype channel_impl = In_app_channel | Email_channel "notification list" | Webhook_channel "notification list"

fun channel_send :: "notification \<Rightarrow> channel_impl \<Rightarrow> channel_impl" where
  "channel_send n In_app_channel = In_app_channel"
| "channel_send n (Email_channel sent) = Email_channel (sent @ [n])"
| "channel_send n (Webhook_channel sent) = Webhook_channel (sent @ [n])"

record notification_engine =
  ne_channels :: "(notification_channel, channel_impl) dict"
  ne_notifications :: "(pystr, notification) dict"

definition notification_engine_init :: "(notification_channel, channel_impl) dict option \<Rightarrow> notification_engine" where
  "notification_engine_init channels =
     \<lparr>ne_channels = (case channels of Some cs \<Rightarrow> cs
        | None \<Rightarrow> [(NC_IN_APP, In_app_channel), (NC_EMAIL, Email_channel []), (NC_WEBHOOK, Webhook_channel [])]),
      ne_notifications = []\<rparr>"

interpretation notification_rows: keyed_store nt_id "\<lambda>n. dict_set (nt_id n) n" dict_get "keyed nt_id"
  by (rule keyed_store_dict)

text \<open>The loop over the channels; \<open>draws\<close> are the fresh identifier and the clock of each turn.\<close>

fun dispatch_notifications ::
  "pystr \<Rightarrow> pystr \<Rightarrow> pystr \<Rightarrow> (pystr, pystr) dict \<Rightarrow> (notification_channel \<times> pystr \<times> datetime) list
     \<Rightarrow> notification_engine \<Rightarrow> notification list \<times> notification_engine" where
  "dispatch_notifications workspace_id recipient_id ty payload [] e = ([], e)"
| "dispatch_notifications workspace_id recipient_id ty payload ((channel, new_id, now) # turns) e =
     (let n = \<lparr>nt_id = new_id, nt_workspace_id = workspace_id, nt_recipient_id = recipient_id,
               nt_channel = channel, nt_type = ty, nt_payload = payload, nt_created_at = Some now,
               nt_read_at = None\<rparr>;
          e1 = e\<lparr>ne_notifications := dict_set new_id n (ne_notifications e)\<rparr>;
          e2 = (case dict_get (ne_channels e1) channel of
                  None \<Rightarrow> e1
                | Some impl \<Rightarrow> e1\<lparr>ne_channels := dict_set channel (channel_send n impl) (ne_channels e1)\<rparr>);
          (created, e3) = dispatch_notifications workspace_id recipient_id ty payload turns e2
      in (n # created, e3))"

definition mark_notification_read ::
  "datetime \<Rightarrow> pystr \<Rightarrow> notification_engine \<Rightarrow> (notification \<times> notification_engine) result" where
  "mark_notification_read now notification_id e =
     (case dict_get (ne_notifications e) notification_id of
        None \<Rightarrow> Inl (ValueError (''Unknown notification '' @ py_repr notification_id))
      | Some n \<Rightarrow>
          (let n' = n\<lparr>nt_read_at := Some now\<rparr>
           in Inr (n', e\<lparr>ne_notifications := dict_set (nt_id n') n' (ne_notifications e)\<rparr>)))"

definition list_for_recipient :: "pystr \<Rightarrow> notification_engine \<Rightarrow> notification list" where
  "list_for_recipient recipient_id e =
     filter (\<lambda>n. nt_recipient_id n = recipient_id) (dict_values (ne_notifications e))"

definition list_for_workspace :: "pystr \<Rightarrow> notification_engine \<Rightarrow> notification list" where
  "list_for_workspace workspace_id e =
     filter (\<lambda>n. nt_workspace_id n = workspace_id) (dict_values (ne_notifications e))"

text \<open>The adapter: a firm is the workspace, and no or an empty list of channels means in-app.\<close>

definition notify_channels :: "notification_channel list option \<Rightarrow> notification_channel list" where
  "notify_channels channels =
     (case channels of None \<Rightarrow> [NC_IN_APP] | Some cs \<Rightarrow> if cs = [] then [NC_IN_APP] else cs)"

definition workflow_notify ::
  "(nat \<Rightarrow> pystr) \<Rightarrow> (nat \<Rightarrow> datetime) \<Rightarrow> pystr \<Rightarrow> pystr \<Rightarrow> pystr \<Rightarrow> (pystr, pystr) dict
     \<Rightarrow> notification_channel list option \<Rightarrow> notification_engine \<Rightarrow> notification list \<times> notification_engine" where
  "workflow_notify new_id clock firm recipient_id ty payload channels e =
     dispatch_notifications firm recipient_id ty payload
       (map (\<lambda>(i, c). (c, new_id i, clock i)) (List.enumerate 0 (notify_channels channels))) e"

lemma dispatch_facts:
  assumes "dispatch_notifications ws rc ty payload turns e = (created, e')"
    and "distinct (map (fst \<circ> snd) turns)" and "\<forall>t \<in> set turns. dict_get (ne_notifications e) (fst (snd t)) = None"
  shows "map (\<lambda>n. (nt_channel n, nt_id n, nt_created_at n)) created = map (\<lambda>(c, i, t). (c, i, Some t)) turns \<and>
     (\<forall>n \<in> set created. nt_workspace_id n = ws \<and> nt_recipient_id n = rc \<and> nt_type n = ty \<and>
        nt_payload n = payload \<and> nt_read_at n = None) \<and>
     ne_notifications e' = ne_notifications e @ map (\<lambda>n. (nt_id n, n)) created"
  using assms
proof (induction turns arbitrary: e created)
  case (Cons t turns)
  obtain c i now where t: "t = (c, i, now)" by (rule prod_cases3)
  let ?n = "\<lparr>nt_id = i, nt_workspace_id = ws, nt_recipient_id = rc, nt_channel = c, nt_type = ty, nt_payload = payload,
      nt_created_at = Some now, nt_read_at = None\<rparr>"
  let ?e1 = "e\<lparr>ne_notifications := dict_set i ?n (ne_notifications e)\<rparr>"
  define e2 where "e2 = (case dict_get (ne_channels ?e1) c of
                  None \<Rightarrow> ?e1
                | Some impl \<Rightarrow> ?e1\<lparr>ne_channels := dict_set c (channel_send ?n impl) (ne_channels ?e1)\<rparr>)"
  obtain rest e3 where rest: "dispatch_notifications ws rc ty payload turns e2 = (rest, e3)"
    by (cases "dispatch_notifications ws rc ty payload turns e2") 
  have res: "created = ?n # rest" "e' = e3"
    using Cons.prems(1) rest unfolding t e2_def by (simp_all add: Let_def)
  have "dict_get (ne_notifications e) i = None" using Cons.prems(3) t by simp
  then have stored: "ne_notifications e2 = ne_notifications e @ [(i, ?n)]"
    by (simp add: e2_def dict_set_fresh split: option.split)
  have "\<forall>u \<in> set turns. dict_get (ne_notifications e2) (fst (snd u)) = None"
    using Cons.prems(2,3) t by (auto simp: stored map_add_def image_iff split: option.split) 
  from Cons.IH [OF rest [folded res(2)] _ this] Cons.prems(2) res stored show ?case by (auto simp: t)
qed simp

section \<open>Properties\<close>

text \<open>
  C29. The CSV export of a firm's audit journal loses nothing: read back with the same dialect it is
  the header followed by one row for each entry of that firm and no other, in the order they were
  recorded, a row being the entry's identifier, workflow, execution (empty when there is none),
  actor, action, detail and time of recording, whatever separators, quotes or line ends they
  contain. Recording an event adds the one row of its own arguments to its firm's export and
  leaves every other firm's as it was.
\<close>

theorem export_csv_roundtrip:
  "csv_parse (export_csv firm s) =
     [''id'', ''workflow_id'', ''execution_id'', ''actor_id'', ''action'', ''detail'', ''recorded_at''] #
     map (\<lambda>e. [au_id e, au_workflow_id e, (case au_execution_id e of None \<Rightarrow> [] | Some x \<Rightarrow> x), au_actor_id e,
              au_action e, au_detail e, isoformat_utc (au_recorded_at e)])
       (filter (\<lambda>e. au_firm_id e = firm) s) \<and>
   csv_parse (export_csv firm (snd (record_audit i t f w actor action x detail md s))) =
     csv_parse (export_csv firm s) @
     (if f = firm
      then [[i, w, (case x of None \<Rightarrow> [] | Some y \<Rightarrow> y), actor, action, detail, isoformat_utc t]] else [])"
proof -
  have "csv_parse (export_csv firm s) = csv_fields # map audit_row (audit_list_for_firm s firm)" for s
    unfolding csv_parse_def export_csv_def by (subst csv_parse_rows) (auto simp: csv_fields_def audit_row_def)
  then show ?thesis
    by (simp add: csv_fields_def audit_row_def audit_list_for_firm_def record_audit_def audit_store_add_def Let_def)
qed

text \<open>The times are written the way Python's \<open>isoformat\<close> writes them, the microseconds only when there are some.\<close>

lemma isoformat_examples:
  "isoformat_utc 0 = ''1970-01-01T00:00:00+00:00''"
  "isoformat_utc 1709210096000007 = ''2024-02-29T12:34:56.000007+00:00''"
  by code_simp+

text \<open>
  The audit journal is append-only and isolates firms: recording an event appends it to the
  listing of its firm, and to the listing of its workflow in that firm, and leaves every other
  firm's listing, and so its export, as it was.
\<close>

theorem record_audit_appends:
  assumes "record_audit i t firm w actor action x detail md s = (entry, s')"
  shows "s' = s @ [entry] \<and> au_firm_id entry = firm \<and> au_workflow_id entry = w \<and>
     audit_list_for_firm s' firm = audit_list_for_firm s firm @ [entry] \<and>
     audit_list_for_workflow s' firm w = audit_list_for_workflow s firm w @ [entry] \<and>
     (\<forall>other. other \<noteq> firm \<longrightarrow> audit_list_for_firm s' other = audit_list_for_firm s other \<and>
        export_csv other s' = export_csv other s)"
proof -
  from assms have s': "s' = audit_store_add entry s" and entry: "au_firm_id entry = firm" "au_workflow_id entry = w"
    by (auto simp: record_audit_def Let_def)
  then show ?thesis
    using audit_log.rows_append [of entry s]
    by (auto simp: export_csv_def audit_list_for_workflow_def audit_store_add_def)
qed

lemma record_audit_appends_witness:
  "audit_list_for_firm (snd (record_audit ''i'' 0 ''f'' ''w'' ''u'' ''start'' None [] None [])) ''g'' = []"
  using record_audit_appends [of "''i''" 0 "''f''" "''w''" "''u''" "''start''" None "[]" None "[]"
      "fst (record_audit ''i'' 0 ''f'' ''w'' ''u'' ''start'' None [] None [])"
      "snd (record_audit ''i'' 0 ''f'' ''w'' ''u'' ''start'' None [] None [])"]
  by (simp add: audit_list_for_firm_def)

text \<open>
  Notifying through the adapter creates exactly one unread notification per channel, in the
  order of the channels (a single in-app one when none is given), all for the firm, the
  recipient, the type and the payload given; with fresh identifiers they are appended to the
  recipient's and the firm's listings and no earlier notification is touched.
\<close>

theorem workflow_notify_exact:
  assumes run: "workflow_notify new_id clock firm rc ty payload channels e = (created, e')"
    and fresh: "inj new_id" "\<forall>i. dict_get (ne_notifications e) (new_id i) = None"
  shows "map nt_channel created = notify_channels channels \<and> created \<noteq> [] \<and>
     (\<forall>n \<in> set created. nt_workspace_id n = firm \<and> nt_recipient_id n = rc \<and> nt_type n = ty \<and>
        nt_payload n = payload \<and> nt_read_at n = None) \<and>
     list_for_workspace firm e' = list_for_workspace firm e @ created \<and>
     list_for_recipient rc e' = list_for_recipient rc e @ created \<and>
     (\<forall>other. other \<noteq> firm \<longrightarrow> list_for_workspace other e' = list_for_workspace other e)"
proof -
  let ?turns = "map (\<lambda>(i, c). (c, new_id i, clock i)) (List.enumerate 0 (notify_channels channels))"
  have "distinct (map (new_id \<circ> fst) (List.enumerate 0 (notify_channels channels)))"
    unfolding map_map [symmetric] map_fst_enumerate
    by (rule distinct_map [THEN iffD2]) (use fresh(1) in \<open>auto intro: inj_on_subset\<close>)
  moreover have "map (fst \<circ> snd) ?turns = map (new_id \<circ> fst) (List.enumerate 0 (notify_channels channels))"
    by (simp add: case_prod_beta)
  ultimately have distinct: "distinct (map (fst \<circ> snd) ?turns)" by (simp only:)
  have "\<forall>t \<in> set ?turns. dict_get (ne_notifications e) (fst (snd t)) = None"
    using fresh(2) by auto
  note facts = dispatch_facts [OF run [unfolded workflow_notify_def] distinct this]
  have "map nt_channel created = map fst (map (\<lambda>n. (nt_channel n, nt_id n, nt_created_at n)) created)" by simp
  also have "\<dots> = map fst (map (\<lambda>(c, i, t). (c, i, Some t)) ?turns)" using facts by metis
  also have "\<dots> = map snd (List.enumerate 0 (notify_channels channels))"
    unfolding map_map by (rule map_cong) (auto simp: comp_def)
  also have "\<dots> = notify_channels channels" by simp
  finally have ch: "map nt_channel created = notify_channels channels" .
  moreover from this have "created \<noteq> []" by (auto simp: notify_channels_def split: option.splits if_splits)
  moreover have "filter (\<lambda>n. nt_workspace_id n = firm) created = created"
    "filter (\<lambda>n. nt_recipient_id n = rc) created = created"
    "other \<noteq> firm \<Longrightarrow> filter (\<lambda>n. nt_workspace_id n = other) created = []" for other
    using facts by (auto simp: filter_empty_conv)
  ultimately show ?thesis
    using facts by (simp add: list_for_workspace_def list_for_recipient_def comp_def)
qed

lemma workflow_notify_exact_witness:
  "map nt_channel (fst (workflow_notify dec_nat int ''f'' ''u'' ''t'' [] None (notification_engine_init None))) = [NC_IN_APP]"
proof -
  obtain created e' where run: "workflow_notify dec_nat int ''f'' ''u'' ''t'' [] None (notification_engine_init None) = (created, e')"
    by (cases "workflow_notify dec_nat int ''f'' ''u'' ''t'' [] None (notification_engine_init None)")
  have "inj dec_nat" by (simp add: inj_def)
  moreover have "\<forall>i. dict_get (ne_notifications (notification_engine_init None)) (dec_nat i) = None"
    by (simp add: notification_engine_init_def)
  ultimately have "map nt_channel created = notify_channels None"
    using workflow_notify_exact [OF run] by blast
  then show ?thesis by (simp add: run notify_channels_def)
qed

text \<open>
  Marking a notification as read changes that one's read time and nothing else; an unknown
  identifier raises. The engine does not ask who reads: a notification of any firm is marked.
\<close>

theorem mark_read_exact:
  assumes "keyed nt_id (ne_notifications e)"
  shows "case dict_get (ne_notifications e) i of
      None \<Rightarrow> mark_notification_read now i e = Inl (ValueError (''Unknown notification '' @ py_repr i))
    | Some n \<Rightarrow> \<exists>e'. mark_notification_read now i e = Inr (n\<lparr>nt_read_at := Some now\<rparr>, e') \<and>
        ne_channels e' = ne_channels e \<and> keyed nt_id (ne_notifications e') \<and>
        dict_get (ne_notifications e') i = Some (n\<lparr>nt_read_at := Some now\<rparr>) \<and>
        (\<forall>j. j \<noteq> i \<longrightarrow> dict_get (ne_notifications e') j = dict_get (ne_notifications e) j)"
proof (cases "dict_get (ne_notifications e) i")
  case None
  then show ?thesis by (simp add: mark_notification_read_def)
next
  case (Some n)
  then have "nt_id n = i" using keyed_get [OF assms] by simp
  with Some show ?thesis
    using notification_rows.wf_put [OF assms, of "n\<lparr>nt_read_at := Some now\<rparr>"]
    by (simp add: mark_notification_read_def Let_def update_conv')
qed

lemma mark_read_exact_witness:
  "mark_notification_read 0 ''x'' (notification_engine_init None) = Inl (ValueError (''Unknown notification '' @ py_repr ''x''))"
proof -
  have k: "keyed nt_id (ne_notifications (notification_engine_init None))" by (simp add: notification_engine_init_def)
  show ?thesis using mark_read_exact [OF k, of 0 "''x''"] by (simp add: notification_engine_init_def)
qed

end
