(* ===== verification/Plans.thy ===== *)
theory Plans
  imports PyFloat
begin

text \<open>
  The commercial side of a cabinet's account: the versioned plan catalogue of
  \<^verbatim>\<open>business_platform/plans\<close>, the subscriptions of \<open>subscriptions\<close> with the trial facade of
  \<open>trial\<close>, and the prices of \<open>pricing\<close>. A \<open>datetime.now()\<close> of an operation is its argument
  \<open>now\<close>.
\<close>

section \<open>Plans\<close>

datatype plan_name = PN_TRIAL | PN_BASIC | PN_PROFESSIONAL | PN_BUSINESS | PN_ENTERPRISE

fun plan_name_value :: "plan_name \<Rightarrow> pystr" where
  "plan_name_value PN_TRIAL = ''trial''"
| "plan_name_value PN_BASIC = ''basic''"
| "plan_name_value PN_PROFESSIONAL = ''professional''"
| "plan_name_value PN_BUSINESS = ''business''"
| "plan_name_value PN_ENTERPRISE = ''enterprise''"

definition plan_names :: "plan_name list" where
  "plan_names = [PN_TRIAL, PN_BASIC, PN_PROFESSIONAL, PN_BUSINESS, PN_ENTERPRISE]"

record plan_limits =
  lm_max_users :: int
  lm_max_storage_gb :: pyfloat
  lm_max_ai_calls_per_month :: int
  lm_max_cases :: int
  lm_max_workflows :: int
  lm_max_agents :: int
  lm_allowed_ai_models :: "pystr set"
  lm_available_connectors :: "pystr set"

definition new_plan_id :: "plan_name \<Rightarrow> int \<Rightarrow> pystr" where
  "new_plan_id name version = ''plan-'' @ plan_name_value name @ ''-v'' @ dec_int version"

record plan =
  pl_id :: pystr
  pl_name :: plan_name
  pl_version :: int
  pl_limits :: plan_limits
  pl_features :: "pystr set"
  pl_monthly_price_usd :: pyfloat
  pl_annual_price_usd :: pyfloat
  pl_active :: bool
  pl_created_at :: datetime

type_synonym plan_store = "(pystr, plan) dict"

definition plan_store_save :: "plan \<Rightarrow> plan_store \<Rightarrow> plan_store" where
  [store_defs]: "plan_store_save p s = dict_set (pl_id p) p s"

definition plan_store_get :: "plan_store \<Rightarrow> pystr \<Rightarrow> plan option" where
  [store_defs]: "plan_store_get s plan_id = dict_get s plan_id"

definition plan_store_list_versions :: "plan_name \<Rightarrow> plan_store \<Rightarrow> plan list" where
  "plan_store_list_versions name s = sort_key pl_version (filter (\<lambda>p. pl_name p = name) (dict_values s))"

fun latest_by_name :: "plan list \<Rightarrow> (plan_name, plan) dict \<Rightarrow> (plan_name, plan) dict" where
  "latest_by_name [] latest = latest"
| "latest_by_name (p # ps) latest =
     (if \<not> pl_active p then latest_by_name ps latest
      else (case dict_get latest (pl_name p) of
              None \<Rightarrow> latest_by_name ps (dict_set (pl_name p) p latest)
            | Some current \<Rightarrow>
                if pl_version current < pl_version p then latest_by_name ps (dict_set (pl_name p) p latest)
                else latest_by_name ps latest))"

definition plan_store_list_latest :: "plan_store \<Rightarrow> plan list" where
  "plan_store_list_latest s = dict_values (latest_by_name (dict_values s) [])"

interpretation plan_rows: keyed_store pl_id plan_store_save plan_store_get "keyed pl_id"
  using keyed_store_dict [of pl_id]
  by (simp add: plan_store_save_def [abs_def] plan_store_get_def [abs_def])

section \<open>The catalogue\<close>

definition publish_plan ::
  "datetime \<Rightarrow> plan_name \<Rightarrow> plan_limits \<Rightarrow> pystr set \<Rightarrow> pyfloat \<Rightarrow> pyfloat \<Rightarrow> plan_store \<Rightarrow> plan \<times> plan_store" where
  "publish_plan now name limits features monthly annual s =
     (let existing_versions = plan_store_list_versions name s;
          next_version = (if existing_versions = [] then 1 else pl_version (last existing_versions) + 1);
          p = \<lparr>pl_id = new_plan_id name next_version, pl_name = name, pl_version = next_version,
               pl_limits = limits, pl_features = features, pl_monthly_price_usd = monthly,
               pl_annual_price_usd = annual, pl_active = True, pl_created_at = now\<rparr>
      in (p, plan_store_save p s))"

definition get_plan :: "pystr \<Rightarrow> plan_store \<Rightarrow> plan result" where
  "get_plan plan_id s = (case plan_store_get s plan_id of None \<Rightarrow> Inl (KeyError plan_id) | Some p \<Rightarrow> Inr p)"

definition latest_plan :: "plan_name \<Rightarrow> plan_store \<Rightarrow> plan result" where
  "latest_plan name s =
     (let versions = plan_store_list_versions name s
      in if versions = [] then Inl (KeyError (plan_name_value name)) else Inr (last versions))"

definition list_plan_versions :: "plan_name \<Rightarrow> plan_store \<Rightarrow> plan list" where
  "list_plan_versions name s = plan_store_list_versions name s"

definition list_current_catalog :: "plan_store \<Rightarrow> plan list" where
  "list_current_catalog s = plan_store_list_latest s"

definition deactivate_plan :: "pystr \<Rightarrow> plan_store \<Rightarrow> (plan \<times> plan_store) result" where
  "deactivate_plan plan_id s =
     res_bind (get_plan plan_id s) (\<lambda>p.
       let updated = p\<lparr>pl_active := False\<rparr> in Inr (updated, plan_store_save updated s))"

section \<open>The default catalogue\<close>

fun default_limits :: "plan_name \<Rightarrow> plan_limits" where
  "default_limits PN_TRIAL =
     \<lparr>lm_max_users = 3, lm_max_storage_gb = Fin 5, lm_max_ai_calls_per_month = 200,
      lm_max_cases = 10, lm_max_workflows = 5, lm_max_agents = 2,
      lm_allowed_ai_models = {''gpt-4o-mini''},
      lm_available_connectors = {}\<rparr>"
| "default_limits PN_BASIC =
     \<lparr>lm_max_users = 5, lm_max_storage_gb = Fin 20, lm_max_ai_calls_per_month = 1000,
      lm_max_cases = 50, lm_max_workflows = 20, lm_max_agents = 3,
      lm_allowed_ai_models = {''gpt-4o-mini''},
      lm_available_connectors = {}\<rparr>"
| "default_limits PN_PROFESSIONAL =
     \<lparr>lm_max_users = 25, lm_max_storage_gb = Fin 100, lm_max_ai_calls_per_month = 10000,
      lm_max_cases = 500, lm_max_workflows = 100, lm_max_agents = 8,
      lm_allowed_ai_models = {''gpt-4o-mini'', ''gpt-4o'', ''claude-sonnet''},
      lm_available_connectors = {''calendar'', ''messaging'', ''billing''}\<rparr>"
| "default_limits PN_BUSINESS =
     \<lparr>lm_max_users = 100, lm_max_storage_gb = Fin 500, lm_max_ai_calls_per_month = 50000,
      lm_max_cases = 5000, lm_max_workflows = 500, lm_max_agents = 20,
      lm_allowed_ai_models = {''gpt-4o-mini'', ''gpt-4o'', ''claude-sonnet'', ''claude-opus''},
      lm_available_connectors = {''calendar'', ''messaging'', ''billing'', ''crm'', ''document_storage'', ''esignature''}\<rparr>"
| "default_limits PN_ENTERPRISE =
     \<lparr>lm_max_users = 10000, lm_max_storage_gb = Fin 10000, lm_max_ai_calls_per_month = 1000000,
      lm_max_cases = 1000000, lm_max_workflows = 100000, lm_max_agents = 1000,
      lm_allowed_ai_models = {''gpt-4o-mini'', ''gpt-4o'', ''claude-sonnet'', ''claude-opus'', ''claude-fable''},
      lm_available_connectors = {''calendar'', ''messaging'', ''billing'', ''crm'', ''document_storage'', ''esignature'', ''dms''}\<rparr>"

fun default_features :: "plan_name \<Rightarrow> pystr set" where
  "default_features PN_TRIAL =
     {''cases'', ''documents'', ''ai_assist''}"
| "default_features PN_BASIC =
     {''cases'', ''documents'', ''ai_assist''}"
| "default_features PN_PROFESSIONAL =
     {''cases'', ''documents'', ''ai_assist'', ''collaboration'', ''billing'', ''workflow_automation''}"
| "default_features PN_BUSINESS =
     {''cases'', ''documents'', ''ai_assist'', ''collaboration'', ''billing'', ''workflow_automation'', ''integration_hub'', ''advanced_analytics''}"
| "default_features PN_ENTERPRISE =
     {''cases'', ''documents'', ''ai_assist'', ''collaboration'', ''billing'', ''workflow_automation'', ''integration_hub'', ''advanced_analytics'', ''sso'', ''audit_export'', ''public_api''}"

fun default_monthly_price_usd :: "plan_name \<Rightarrow> pyfloat" where
  "default_monthly_price_usd PN_TRIAL = Fin 0"
| "default_monthly_price_usd PN_BASIC = Fin 49"
| "default_monthly_price_usd PN_PROFESSIONAL = Fin 199"
| "default_monthly_price_usd PN_BUSINESS = Fin 599"
| "default_monthly_price_usd PN_ENTERPRISE = Fin 1999"


definition default_annual_price_usd :: "plan_name \<Rightarrow> pyfloat" where
  "default_annual_price_usd name = flt_mul (default_monthly_price_usd name) (Fin 10)"

fun seed_plans :: "(plan_name \<Rightarrow> datetime) \<Rightarrow> plan_name list \<Rightarrow> plan_store \<Rightarrow> plan list \<times> plan_store" where
  "seed_plans clock [] s = ([], s)"
| "seed_plans clock (name # names) s =
     (let (p, s1) = publish_plan (clock name) name (default_limits name) (default_features name)
                      (default_monthly_price_usd name) (default_annual_price_usd name) s;
          (ps, s2) = seed_plans clock names s1
      in (p # ps, s2))"

definition seed_default_catalog :: "(plan_name \<Rightarrow> datetime) \<Rightarrow> plan_store \<Rightarrow> plan list \<times> plan_store" where
  "seed_default_catalog clock s = seed_plans clock plan_names s"

section \<open>Subscriptions\<close>

datatype subscription_status = SS_TRIAL | SS_ACTIVE | SS_PAST_DUE | SS_CANCELLED | SS_EXPIRED

datatype billing_cycle = BC_MONTHLY | BC_ANNUAL

record subscription =
  sb_id :: pystr
  sb_firm_id :: pystr
  sb_plan_id :: pystr
  sb_billing_cycle :: billing_cycle
  sb_status :: subscription_status
  sb_started_at :: datetime
  sb_trial_ends_at :: "datetime option"
  sb_current_period_end :: "datetime option"
  sb_cancelled_at :: "datetime option"

type_synonym subscription_store = "(pystr, subscription) dict"

definition default_trial_end :: "datetime \<Rightarrow> datetime" where
  "default_trial_end now = now + days 14"

definition period_end_for_cycle :: "billing_cycle \<Rightarrow> datetime \<Rightarrow> datetime" where
  "period_end_for_cycle cycle start = start + (if cycle = BC_ANNUAL then days 365 else days 30)"

definition subscription_store_save :: "subscription \<Rightarrow> subscription_store \<Rightarrow> subscription_store" where
  [store_defs]: "subscription_store_save sub s = dict_set (sb_firm_id sub) sub s"

interpretation subscription_rows: keyed_store sb_firm_id subscription_store_save dict_get "keyed sb_firm_id"
  using keyed_store_dict [of sb_firm_id] by (simp add: subscription_store_save_def [abs_def])

definition require_subscription :: "pystr \<Rightarrow> subscription_store \<Rightarrow> subscription result" where
  "require_subscription firm s = (case dict_get s firm of None \<Rightarrow> Inl (KeyError firm) | Some sub \<Rightarrow> Inr sub)"

definition start_trial ::
  "pystr \<Rightarrow> datetime \<Rightarrow> pystr \<Rightarrow> pystr \<Rightarrow> plan_store \<Rightarrow> subscription_store
     \<Rightarrow> (subscription \<times> subscription_store) result" where
  "start_trial new_id now firm plan_id plans s =
     res_bind (get_plan plan_id plans) (\<lambda>_.
       let sub = \<lparr>sb_id = new_id, sb_firm_id = firm, sb_plan_id = plan_id, sb_billing_cycle = BC_MONTHLY,
                  sb_status = SS_TRIAL, sb_started_at = now, sb_trial_ends_at = Some (default_trial_end now),
                  sb_current_period_end = None, sb_cancelled_at = None\<rparr>
       in Inr (sub, subscription_store_save sub s))"

text \<open>Every other operation requires the firm's subscription, changes it and saves it.\<close>

definition modify_subscription ::
  "pystr \<Rightarrow> (subscription \<Rightarrow> subscription) \<Rightarrow> subscription_store \<Rightarrow> (subscription \<times> subscription_store) result" where
  "modify_subscription firm f s =
     res_bind (require_subscription firm s) (\<lambda>sub. Inr (f sub, subscription_store_save (f sub) s))"

definition activate_subscription ::
  "datetime \<Rightarrow> pystr \<Rightarrow> billing_cycle \<Rightarrow> subscription_store \<Rightarrow> (subscription \<times> subscription_store) result" where
  "activate_subscription now firm cycle = modify_subscription firm (\<lambda>sub.
     sub\<lparr>sb_status := SS_ACTIVE, sb_billing_cycle := cycle,
         sb_current_period_end := Some (period_end_for_cycle cycle now)\<rparr>)"

definition change_plan ::
  "pystr \<Rightarrow> pystr \<Rightarrow> plan_store \<Rightarrow> subscription_store \<Rightarrow> (subscription \<times> subscription_store) result" where
  "change_plan firm plan_id plans s =
     res_bind (get_plan plan_id plans) (\<lambda>_. modify_subscription firm (\<lambda>sub. sub\<lparr>sb_plan_id := plan_id\<rparr>) s)"

definition mark_past_due :: "pystr \<Rightarrow> subscription_store \<Rightarrow> (subscription \<times> subscription_store) result" where
  "mark_past_due firm = modify_subscription firm (\<lambda>sub. sub\<lparr>sb_status := SS_PAST_DUE\<rparr>)"

definition cancel_subscription ::
  "datetime \<Rightarrow> pystr \<Rightarrow> subscription_store \<Rightarrow> (subscription \<times> subscription_store) result" where
  "cancel_subscription now firm =
     modify_subscription firm (\<lambda>sub. sub\<lparr>sb_status := SS_CANCELLED, sb_cancelled_at := Some now\<rparr>)"

definition expire_subscription :: "pystr \<Rightarrow> subscription_store \<Rightarrow> (subscription \<times> subscription_store) result" where
  "expire_subscription firm = modify_subscription firm (\<lambda>sub. sub\<lparr>sb_status := SS_EXPIRED\<rparr>)"

definition extend_trial ::
  "datetime \<Rightarrow> pystr \<Rightarrow> int \<Rightarrow> subscription_store \<Rightarrow> (subscription \<times> subscription_store) result" where
  "extend_trial now firm extra_days = modify_subscription firm (\<lambda>sub.
     let base = (case sb_trial_ends_at sub of None \<Rightarrow> now | Some t \<Rightarrow> t)
     in sub\<lparr>sb_trial_ends_at := Some (base + days extra_days)\<rparr>)"

definition advance_period ::
  "datetime \<Rightarrow> pystr \<Rightarrow> subscription_store \<Rightarrow> (subscription \<times> subscription_store) result" where
  "advance_period now firm = modify_subscription firm (\<lambda>sub.
     sub\<lparr>sb_current_period_end := Some (period_end_for_cycle (sb_billing_cycle sub) now)\<rparr>)"

definition is_trial_expired :: "datetime \<Rightarrow> pystr \<Rightarrow> subscription_store \<Rightarrow> bool result" where
  "is_trial_expired now firm s =
     res_bind (require_subscription firm s) (\<lambda>sub.
       if sb_status sub \<noteq> SS_TRIAL then Inr False
       else (case sb_trial_ends_at sub of None \<Rightarrow> Inr False | Some t \<Rightarrow> Inr (t < now)))"

definition list_all_subscriptions :: "subscription_store \<Rightarrow> subscription list" where
  "list_all_subscriptions s = dict_values s"

section \<open>The trial facade\<close>

definition trial_start ::
  "pystr \<Rightarrow> datetime \<Rightarrow> pystr \<Rightarrow> pystr \<Rightarrow> plan_store \<Rightarrow> subscription_store
     \<Rightarrow> (subscription \<times> subscription_store) result" where
  "trial_start = start_trial"

definition trial_extend ::
  "datetime \<Rightarrow> pystr \<Rightarrow> int \<Rightarrow> subscription_store \<Rightarrow> (subscription \<times> subscription_store) result" where
  "trial_extend = extend_trial"

definition convert_to_paid ::
  "datetime \<Rightarrow> pystr \<Rightarrow> billing_cycle \<Rightarrow> subscription_store \<Rightarrow> (subscription \<times> subscription_store) result" where
  "convert_to_paid = activate_subscription"

definition expire_if_needed ::
  "datetime \<Rightarrow> pystr \<Rightarrow> subscription_store \<Rightarrow> (subscription option \<times> subscription_store) result" where
  "expire_if_needed now firm s =
     res_bind (is_trial_expired now firm s) (\<lambda>expired.
       if expired
       then res_bind (expire_subscription firm s) (\<lambda>(sub, s'). Inr (Some sub, s'))
       else Inr (None, s))"

section \<open>Prices\<close>

record price_quote =
  pq_plan_id :: pystr
  pq_billing_cycle :: billing_cycle
  pq_base_amount :: pyfloat
  pq_discount_percent :: pyfloat
  pq_final_amount :: pyfloat
  pq_currency :: pystr

text \<open>\<open>amount * (1 - percent / 100)\<close> in floating point, the form every discount takes.\<close>

definition discounted :: "pyfloat \<Rightarrow> pyfloat \<Rightarrow> pyfloat" where
  "discounted amount percent =
     (case flt_div percent (Fin 100) of
        Inr q \<Rightarrow> flt_mul amount (flt_sub (Fin 1) q)
      | Inl _ \<Rightarrow> NaN)"

definition price_for :: "plan \<Rightarrow> billing_cycle \<Rightarrow> pyfloat \<Rightarrow> price_quote" where
  "price_for p cycle discount_percent =
     (let base_amount = (if cycle = BC_ANNUAL then pl_annual_price_usd p else pl_monthly_price_usd p)
      in \<lparr>pq_plan_id = pl_id p, pq_billing_cycle = cycle, pq_base_amount = base_amount,
          pq_discount_percent = discount_percent, pq_final_amount = discounted base_amount discount_percent,
          pq_currency = ''USD''\<rparr>)"

section \<open>Lemmas on the catalogue\<close>

lemma new_plan_id_inject [simp]: "new_plan_id n v = new_plan_id n' v' \<longleftrightarrow> n = n' \<and> v = v'"
  by (cases n; cases n') (auto simp: new_plan_id_def)

text \<open>
  The invariant of a catalogue: every plan is filed under its identifier, which is made of its
  name and version, and the versions of each name are numbered 1, 2, ..., n.
\<close>

definition catalog_ok :: "plan_store \<Rightarrow> bool" where
  "catalog_ok s \<longleftrightarrow> keyed pl_id s \<and>
     (\<forall>p \<in> set (dict_values s). pl_id p = new_plan_id (pl_name p) (pl_version p)) \<and>
     (\<forall>name. numbered pl_version (list_plan_versions name s))"

lemma plan_versions_iff: "p \<in> set (list_plan_versions name s) \<longleftrightarrow> p \<in> set (dict_values s) \<and> pl_name p = name"
  by (auto simp: list_plan_versions_def plan_store_list_versions_def)

lemma plan_values_get: "keyed pl_id s \<Longrightarrow> p \<in> set (dict_values s) \<longleftrightarrow> plan_store_get s (pl_id p) = Some p"
  by (simp add: plan_store_get_def keyed_get_iff)

lemma publish_fresh:
  assumes "catalog_ok s" and "publish_plan now name l f m a s = (p, s')"
  shows "plan_store_get s (pl_id p) = None" and "s' = s @ [(pl_id p, p)]"
    and "list_plan_versions n s' = list_plan_versions n s @ (if n = name then [p] else [])"
    and "pl_version p = int (length (list_plan_versions name s)) + 1" and "pl_name p = name"
proof -
  have num: "numbered pl_version (list_plan_versions name s)" using assms(1) by (simp add: catalog_ok_def)
  have p: "pl_name p = name" "pl_id p = new_plan_id name (pl_version p)"
    and v: "pl_version p = (if list_plan_versions name s = [] then 1 else pl_version (last (list_plan_versions name s)) + 1)"
    and s': "s' = plan_store_save p s"
    using assms(2) by (auto simp: publish_plan_def list_plan_versions_def Let_def)
  show ver: "pl_version p = int (length (list_plan_versions name s)) + 1"
    using v numbered_last [OF num] by auto
  show name: "pl_name p = name" by (rule p)
  show fresh: "plan_store_get s (pl_id p) = None"
  proof (rule ccontr)
    assume "plan_store_get s (pl_id p) \<noteq> None"
    then obtain q where q: "plan_store_get s (pl_id p) = Some q" by auto
    have "keyed pl_id s" using assms(1) by (simp add: catalog_ok_def)
    then have "pl_id q = pl_id p" using q by (rule plan_rows.get_key)
    then have "q \<in> set (dict_values s)" using q assms(1) plan_values_get by (simp add: catalog_ok_def)
    moreover from this have "pl_id q = new_plan_id (pl_name q) (pl_version q)"
      using assms(1) unfolding catalog_ok_def by blast
    ultimately have "q \<in> set (list_plan_versions name s)" "pl_version q = pl_version p"
      using \<open>pl_id q = pl_id p\<close> p by (simp_all add: plan_versions_iff)
    with numbered_le [OF num] ver show False by fastforce
  qed
  then show s'': "s' = s @ [(pl_id p, p)]"
    by (simp add: s' plan_store_save_def plan_store_get_def dict_set_fresh)
  have "u \<in> set (list_plan_versions name s) \<Longrightarrow> pl_version u \<le> pl_version p" for u
    using numbered_le [OF num] ver by fastforce
  then show "list_plan_versions n s' = list_plan_versions n s @ (if n = name then [p] else [])"
    using p(1) by (auto simp: s'' list_plan_versions_def plan_store_list_versions_def intro!: sort_key_append_max)
qed

lemma publish_ok:
  assumes "catalog_ok s" and "publish_plan now name l f m a s = (p, s')"
  shows "catalog_ok s'"
proof -
  note fresh = publish_fresh [OF assms]
  have "keyed pl_id s'"
    using assms(1) keyed_set [of pl_id s "pl_id p" p] fresh(1,2)
    by (simp add: catalog_ok_def plan_store_get_def dict_set_fresh)
  moreover have "pl_id p = new_plan_id (pl_name p) (pl_version p)"
    using assms(2) by (auto simp: publish_plan_def Let_def)
  moreover have "numbered pl_version (list_plan_versions n s')" for n
    using assms(1) fresh(4) by (auto simp: fresh(3) catalog_ok_def intro: numbered_snoc)
  ultimately show ?thesis using assms(1) fresh(2) by (auto simp: catalog_ok_def)
qed

definition switched_off :: "pystr \<Rightarrow> plan \<Rightarrow> plan" where
  "switched_off i p = (if pl_id p = i then p\<lparr>pl_active := False\<rparr> else p)"

lemma switched_off_fields [simp]:
  "pl_id (switched_off i p) = pl_id p" "pl_name (switched_off i p) = pl_name p"
  "pl_version (switched_off i p) = pl_version p" "pl_limits (switched_off i p) = pl_limits p"
  "pl_features (switched_off i p) = pl_features p"
  "pl_active (switched_off i p) \<longleftrightarrow> pl_active p \<and> pl_id p \<noteq> i"
  by (simp_all add: switched_off_def)

lemma deactivate_cases:
  assumes "deactivate_plan i s = Inr (p', s')"
  obtains p where "plan_store_get s i = Some p" and "p' = p\<lparr>pl_active := False\<rparr>" and "s' = plan_store_save p' s"
  using assms by (auto simp: deactivate_plan_def get_plan_def Let_def split: option.splits)

lemma deactivate_values:
  assumes k: "keyed pl_id s" and "deactivate_plan i s = Inr (p', s')"
  shows "dict_values s' = map (switched_off i) (dict_values s)"
proof -
  obtain p where p: "plan_store_get s i = Some p" and p': "p' = p\<lparr>pl_active := False\<rparr>"
    and s': "s' = plan_store_save p' s" by (rule deactivate_cases [OF assms(2)])
  have "pl_id p = i" by (rule plan_rows.get_key [OF k p])
  then have "s' = dict_set i (p\<lparr>pl_active := False\<rparr>) s" by (simp add: s' p' plan_store_save_def)
  then show ?thesis
    using dict_values_modify [OF k, of i p "\<lambda>p. p\<lparr>pl_active := False\<rparr>"] p
    by (simp add: plan_store_get_def switched_off_def)
qed

lemma deactivate_versions:
  assumes "keyed pl_id s" and "deactivate_plan i s = Inr (p', s')"
  shows "list_plan_versions n s' = map (switched_off i) (list_plan_versions n s)"
proof -
  have filtered: "filter (\<lambda>p. pl_name p = n) (map (switched_off i) us) =
        map (switched_off i) (filter (\<lambda>p. pl_name p = n) us)" for us
    by (induction us) auto
  show ?thesis
    unfolding list_plan_versions_def plan_store_list_versions_def deactivate_values [OF assms] filtered
    by (rule sort_key_map_same) simp
qed

lemma deactivate_ok:
  assumes ok: "catalog_ok s" and d: "deactivate_plan i s = Inr (p', s')"
  shows "catalog_ok s'"
proof -
  have k: "keyed pl_id s" using ok by (simp add: catalog_ok_def)
  obtain p where s': "s' = plan_store_save p' s" by (rule deactivate_cases [OF d])
  have "numbered pl_version (list_plan_versions n s')" for n
    using ok by (simp add: catalog_ok_def deactivate_versions [OF k d] numbered_def comp_def)
  moreover have "\<forall>p \<in> set (dict_values s'). pl_id p = new_plan_id (pl_name p) (pl_version p)"
    using ok unfolding deactivate_values [OF k d] by (auto simp: catalog_ok_def)
  moreover have "keyed pl_id s'" unfolding s' by (rule plan_rows.wf_put [OF k])
  ultimately show ?thesis by (simp add: catalog_ok_def)
qed

section \<open>Operations on the catalogue\<close>

datatype catalog_op =
    Publish datetime plan_name plan_limits "pystr set" pyfloat pyfloat
  | Deactivate pystr

fun catalog_step :: "catalog_op \<Rightarrow> plan_store \<Rightarrow> plan_store" where
  "catalog_step (Publish now name l f m a) s = snd (publish_plan now name l f m a s)"
| "catalog_step (Deactivate i) s = (case deactivate_plan i s of Inl _ \<Rightarrow> s | Inr (_, s') \<Rightarrow> s')"

text \<open>\<open>same_offer q p\<close>: \<open>q\<close> is the plan \<open>p\<close>, possibly switched off since.\<close>

definition same_offer :: "plan \<Rightarrow> plan \<Rightarrow> bool" where
  "same_offer q p \<longleftrightarrow> q\<lparr>pl_active := True\<rparr> = p\<lparr>pl_active := True\<rparr> \<and> (pl_active q \<longrightarrow> pl_active p)"

lemma same_offer_refl [simp]: "same_offer p p"
  by (simp add: same_offer_def)

lemma same_offer_trans: "same_offer r q \<Longrightarrow> same_offer q p \<Longrightarrow> same_offer r p"
  by (simp add: same_offer_def)

lemma same_offer_off [simp]: "same_offer (p\<lparr>pl_active := False\<rparr>) p"
  by (simp add: same_offer_def)

lemma catalog_step_ok: "catalog_ok s \<Longrightarrow> catalog_ok (catalog_step op s)"
proof (cases op)
  case (Publish now name l f m a)
  then show "catalog_ok s \<Longrightarrow> ?thesis"
    using publish_ok [of s now name l f m a] by (cases "publish_plan now name l f m a s") auto
qed (auto split: sum.split intro: deactivate_ok)

lemma catalog_step_keeps:
  assumes ok: "catalog_ok s" and p: "plan_store_get s i = Some p"
  shows "\<exists>q. plan_store_get (catalog_step op s) i = Some q \<and> same_offer q p"
proof (cases op)
  case (Publish now name l f m a)
  obtain r s' where run: "publish_plan now name l f m a s = (r, s')" by fastforce
  note fresh = publish_fresh [OF ok run]
  then have "plan_store_get s' i = Some p"
    using p by (auto simp: plan_store_get_def map_add_def split: option.split)
  then show ?thesis using Publish run by simp
next
  case (Deactivate j)
  show ?thesis
  proof (cases "deactivate_plan j s")
    case Inl
    then show ?thesis using Deactivate p by simp
  next
    case (Inr r)
    obtain q s' where r: "r = (q, s')" by fastforce
    obtain u where u: "plan_store_get s j = Some u" "q = u\<lparr>pl_active := False\<rparr>" "s' = plan_store_save q s"
      using Inr r deactivate_cases by metis
    have "pl_id q = j" using plan_rows.get_key [OF _ u(1)] ok u(2) by (simp add: catalog_ok_def)
    then show ?thesis using Deactivate Inr r u p by (auto simp: plan_rows.get_put)
  qed
qed

lemma catalog_run_ok: "catalog_ok s \<Longrightarrow> catalog_ok (fold catalog_step ops s)"
  by (induction ops arbitrary: s) (auto intro: catalog_step_ok)

lemma catalog_run_keeps:
  "catalog_ok s \<Longrightarrow> plan_store_get s i = Some p \<Longrightarrow>
     \<exists>q. plan_store_get (fold catalog_step ops s) i = Some q \<and> same_offer q p"
proof (induction ops arbitrary: s p)
  case (Cons op ops)
  obtain q where q: "plan_store_get (catalog_step op s) i = Some q" "same_offer q p"
    using catalog_step_keeps [OF Cons.prems] by blast
  obtain r where "plan_store_get (fold catalog_step ops (catalog_step op s)) i = Some r" "same_offer r q"
    using Cons.IH [OF catalog_step_ok [OF Cons.prems(1)] q(1)] by blast
  then show ?case using same_offer_trans [OF _ q(2)] by auto
qed simp

lemma catalog_ok_Nil [simp]: "catalog_ok []"
  by (simp add: catalog_ok_def list_plan_versions_def plan_store_list_versions_def)

text \<open>The current catalogue keeps, for each name, the greatest active version met so far.\<close>

lemma latest_by_name_spec:
  assumes "keyed pl_name l"
  shows "keyed pl_name (latest_by_name ps l) \<and>
     (case dict_get (latest_by_name ps l) n of
        None \<Rightarrow> dict_get l n = None \<and> (\<forall>p \<in> set ps. pl_name p = n \<longrightarrow> \<not> pl_active p)
      | Some q \<Rightarrow> (q \<in> set ps \<and> pl_active q \<and> pl_name q = n \<or> dict_get l n = Some q) \<and>
          (\<forall>p \<in> set ps. pl_name p = n \<and> pl_active p \<longrightarrow> pl_version p \<le> pl_version q) \<and>
          (\<forall>u. dict_get l n = Some u \<longrightarrow> pl_version u \<le> pl_version q))"
  using assms
proof (induction ps l rule: latest_by_name.induct)
  case (2 p ps l)
  let ?put = "dict_set (pl_name p) p l"
  have put: "keyed pl_name ?put" using 2(5) by (intro keyed_set) simp_all
  consider (off) "\<not> pl_active p" | (fresh) "pl_active p" "dict_get l (pl_name p) = None"
    | (better) u where "pl_active p" "dict_get l (pl_name p) = Some u" "pl_version u < pl_version p"
    | (worse) u where "pl_active p" "dict_get l (pl_name p) = Some u" "\<not> pl_version u < pl_version p"
    by (cases "dict_get l (pl_name p)") auto
  then show ?case
  proof cases
    case off
    with 2 show ?thesis by (auto split: option.splits)
  next
    case fresh
    with 2(2) [OF _ _ put] show ?thesis by (auto simp: update_conv' split: option.splits if_splits)
  next
    case better
    with 2(3) [OF _ _ _ put] show ?thesis
      by (auto simp: update_conv' split: option.splits if_splits) (force+)?
  next
    case worse
    with 2(4) [OF _ _ _ 2(5)] show ?thesis by (auto split: option.splits if_splits) (force+)?
  qed
qed (auto split: option.split)

lemma catalog_unique:
  assumes ok: "catalog_ok s" and "p \<in> set (dict_values s)" "q \<in> set (dict_values s)"
    and "pl_name p = pl_name q" "pl_version p = pl_version q"
  shows "p = q"
proof -
  have k: "keyed pl_id s" using ok by (simp add: catalog_ok_def)
  have "pl_id p = pl_id q" using ok assms(2-5) unfolding catalog_ok_def by metis
  then show ?thesis using plan_values_get [OF k] assms(2,3) by (metis option.inject)
qed

lemma current_catalog_iff:
  assumes ok: "catalog_ok s"
  shows "q \<in> set (list_current_catalog s) \<longleftrightarrow> q \<in> set (dict_values s) \<and> pl_active q \<and>
     (\<forall>p \<in> set (dict_values s). pl_name p = pl_name q \<and> pl_active p \<longrightarrow> pl_version p \<le> pl_version q)"
    (is "_ \<longleftrightarrow> ?best q")
proof -
  let ?l = "latest_by_name (dict_values s) []"
  note spec = latest_by_name_spec [OF keyed_Nil, of "dict_values s" "pl_name q"]
  have listed: "q \<in> set (list_current_catalog s) \<longleftrightarrow> dict_get ?l (pl_name q) = Some q"
    using keyed_get_iff [of pl_name ?l q] spec by (simp add: list_current_catalog_def plan_store_list_latest_def)
  show ?thesis
  proof
    assume "?best q"
    then obtain u where u: "dict_get ?l (pl_name q) = Some u" using spec by (cases "dict_get ?l (pl_name q)") auto
    then have "u \<in> set (dict_values s)" "pl_name u = pl_name q" "pl_active u" "pl_version q \<le> pl_version u"
      using spec \<open>?best q\<close> by auto
    moreover from this have "pl_version u = pl_version q" using \<open>?best q\<close> by (meson order_antisym)
    ultimately have "u = q" using catalog_unique [OF ok, of u q] \<open>?best q\<close> by blast
    with u listed show "q \<in> set (list_current_catalog s)" by simp
  qed (use listed spec in auto)
qed

lemma latest_plan_last:
  "latest_plan name s = (if list_plan_versions name s = [] then Inl (KeyError (plan_name_value name))
     else Inr (last (list_plan_versions name s)))"
  by (simp add: latest_plan_def list_plan_versions_def)

lemma latest_plan_max:
  assumes ok: "catalog_ok s" and "latest_plan name s = Inr p"
  shows "p \<in> set (dict_values s) \<and> pl_name p = name \<and>
     (\<forall>q \<in> set (dict_values s). pl_name q = name \<longrightarrow> pl_version q \<le> pl_version p)"
proof -
  have p: "list_plan_versions name s \<noteq> []" "p = last (list_plan_versions name s)"
    using assms(2) by (auto simp: latest_plan_last split: if_splits)
  have num: "numbered pl_version (list_plan_versions name s)" using ok by (simp add: catalog_ok_def)
  have "p \<in> set (list_plan_versions name s)" using p by simp
  moreover have "pl_version p = int (length (list_plan_versions name s))"
    using numbered_last [OF num p(1)] p(2) by simp
  ultimately show ?thesis using numbered_le [OF num] by (auto simp: plan_versions_iff)
qed

lemma seed_ok: "catalog_ok s \<Longrightarrow> catalog_ok (snd (seed_plans clock names s))"
proof (induction names arbitrary: s)
  case (Cons name names)
  obtain p s1 where run: "publish_plan (clock name) name (default_limits name) (default_features name)
      (default_monthly_price_usd name) (default_annual_price_usd name) s = (p, s1)" by fastforce
  show ?case using Cons.IH [OF publish_ok [OF Cons.prems run]] run by (simp add: split_beta Let_def)
qed simp

section \<open>Properties of the catalogue\<close>

text \<open>
  The catalogue never rewrites what was sold: whatever is published or deactivated later, a
  plan stays under its identifier with its limits, features and prices, and can only be switched
  off, never on again; and the versions of every name stay numbered 1, 2, ..., n.
\<close>
theorem published_plans_permanent:
  assumes "catalog_ok s" and "plan_store_get s i = Some p"
  shows "(\<exists>q. get_plan i (fold catalog_step ops s) = Inr q \<and> q\<lparr>pl_active := True\<rparr> = p\<lparr>pl_active := True\<rparr> \<and>
        (pl_active q \<longrightarrow> pl_active p)) \<and>
     map pl_version (list_plan_versions n (fold catalog_step ops s)) =
       map int [1..<Suc (length (list_plan_versions n (fold catalog_step ops s)))]"
proof
  obtain q where q: "plan_store_get (fold catalog_step ops s) i = Some q" "same_offer q p"
    using catalog_run_keeps [OF assms] by blast
  then show "\<exists>q. get_plan i (fold catalog_step ops s) = Inr q \<and>
      q\<lparr>pl_active := True\<rparr> = p\<lparr>pl_active := True\<rparr> \<and> (pl_active q \<longrightarrow> pl_active p)"
    by (intro exI [of _ q]) (simp add: get_plan_def same_offer_def)
  show "map pl_version (list_plan_versions n (fold catalog_step ops s)) =
      map int [1..<Suc (length (list_plan_versions n (fold catalog_step ops s)))]"
    using catalog_run_ok [OF assms(1), of ops] by (simp add: catalog_ok_def numbered_def)
qed

definition demo_catalog :: plan_store where
  "demo_catalog = catalog_step (Publish 0 PN_BASIC (default_limits PN_BASIC) {} (Fin 49) (Fin 490)) []"

lemma demo_catalog_ok: "catalog_ok demo_catalog"
  unfolding demo_catalog_def by (intro catalog_step_ok catalog_ok_Nil)

lemma basic_v1: "new_plan_id PN_BASIC 1 = ''plan-basic-v1''"
  by code_simp

lemma demo_catalog_basic:
  "plan_store_get demo_catalog ''plan-basic-v1'' =
     Some \<lparr>pl_id = ''plan-basic-v1'', pl_name = PN_BASIC, pl_version = 1, pl_limits = default_limits PN_BASIC,
        pl_features = {}, pl_monthly_price_usd = Fin 49, pl_annual_price_usd = Fin 490, pl_active = True,
        pl_created_at = 0\<rparr>"
  by (simp add: demo_catalog_def publish_plan_def plan_store_list_versions_def plan_store_save_def
      plan_store_get_def basic_v1 Let_def)

theorem published_plans_permanent_witness:
  "\<exists>q. get_plan ''plan-basic-v1'' (fold catalog_step
     [Publish 9 PN_BASIC (default_limits PN_TRIAL) {} (Fin 59) (Fin 590), Deactivate ''plan-basic-v1''] demo_catalog) =
     Inr q \<and> pl_monthly_price_usd q = Fin 49"
proof -
  obtain p where p: "plan_store_get demo_catalog ''plan-basic-v1'' = Some p" "pl_monthly_price_usd p = Fin 49"
    using demo_catalog_basic by simp
  obtain q where "get_plan ''plan-basic-v1'' (fold catalog_step
     [Publish 9 PN_BASIC (default_limits PN_TRIAL) {} (Fin 59) (Fin 590), Deactivate ''plan-basic-v1''] demo_catalog) =
     Inr q" and eq: "q\<lparr>pl_active := True\<rparr> = p\<lparr>pl_active := True\<rparr>"
    using published_plans_permanent [OF demo_catalog_ok p(1)] by blast
  moreover have "pl_monthly_price_usd q = Fin 49"
    using arg_cong [OF eq, of pl_monthly_price_usd] p(2) by simp
  ultimately show ?thesis by blast
qed

text \<open>
  What is on sale: the current catalogue lists exactly the plans that are the highest active
  version of their name. The \<open>latest\<close> plan of a name is its highest version whether active or not:
  it is on sale exactly when it has not been deactivated.
\<close>
theorem current_catalog_exact:
  assumes ok: "catalog_ok s"
  shows "(q \<in> set (list_current_catalog s) \<longleftrightarrow> q \<in> set (dict_values s) \<and> pl_active q \<and>
       (\<forall>p \<in> set (dict_values s). pl_name p = pl_name q \<and> pl_active p \<longrightarrow> pl_version p \<le> pl_version q)) \<and>
     (\<forall>p. latest_plan name s = Inr p \<longrightarrow>
        (\<forall>r \<in> set (dict_values s). pl_name r = name \<longrightarrow> pl_version r \<le> pl_version p) \<and>
        (p \<in> set (list_current_catalog s) \<longleftrightarrow> pl_active p))"
  using latest_plan_max [OF ok, of name] current_catalog_iff [OF ok] by auto

theorem current_catalog_exact_witness:
  "\<exists>p. latest_plan PN_BASIC (catalog_step (Deactivate ''plan-basic-v1'') demo_catalog) = Inr p \<and>
     p \<notin> set (list_current_catalog (catalog_step (Deactivate ''plan-basic-v1'') demo_catalog))"
proof -
  let ?s = "catalog_step (Deactivate ''plan-basic-v1'') demo_catalog"
  have "deactivate_plan ''plan-basic-v1'' demo_catalog = Inr (p', s') \<Longrightarrow> list_plan_versions PN_BASIC s' =
      map (switched_off ''plan-basic-v1'') (list_plan_versions PN_BASIC demo_catalog)" for p' s'
    using demo_catalog_ok by (intro deactivate_versions) (simp_all add: catalog_ok_def)
  then have "list_plan_versions PN_BASIC ?s = map (switched_off ''plan-basic-v1'') (list_plan_versions PN_BASIC demo_catalog)"
    using demo_catalog_basic by (simp add: deactivate_plan_def get_plan_def Let_def)
  moreover have "list_plan_versions PN_BASIC demo_catalog = [the (plan_store_get demo_catalog ''plan-basic-v1'')]"
    unfolding demo_catalog_basic
    by (simp add: demo_catalog_def publish_plan_def list_plan_versions_def plan_store_list_versions_def
        plan_store_save_def basic_v1 Let_def)
  ultimately obtain p where p: "latest_plan PN_BASIC ?s = Inr p" "\<not> pl_active p"
    using demo_catalog_basic by (simp add: latest_plan_last)
  have "p \<notin> set (list_current_catalog ?s)"
    using current_catalog_exact [OF catalog_step_ok [OF demo_catalog_ok]] p by blast
  with p show ?thesis by blast
qed

section \<open>Subscriptions against the catalogue\<close>

lemma modify_subscription_cases:
  assumes "modify_subscription firm f s = Inr (sub', s')"
  obtains sub where "dict_get s firm = Some sub" and "sub' = f sub" and "s' = subscription_store_save (f sub) s"
  using assms by (auto simp: modify_subscription_def require_subscription_def split: option.splits)

datatype subscription_op =
    Start_trial pystr datetime pystr
  | Activate datetime billing_cycle
  | Change_plan pystr
  | Past_due
  | Cancel datetime
  | Expire
  | Extend datetime int
  | Advance datetime
  | Expire_if_needed datetime

fun subscription_step :: "plan_store \<Rightarrow> pystr \<Rightarrow> subscription_op \<Rightarrow> subscription_store \<Rightarrow> subscription_store result" where
  "subscription_step plans firm (Start_trial i now plan) s = res_bind (start_trial i now firm plan plans s) (Inr \<circ> snd)"
| "subscription_step plans firm (Activate now cycle) s = res_bind (activate_subscription now firm cycle s) (Inr \<circ> snd)"
| "subscription_step plans firm (Change_plan plan) s = res_bind (change_plan firm plan plans s) (Inr \<circ> snd)"
| "subscription_step plans firm Past_due s = res_bind (mark_past_due firm s) (Inr \<circ> snd)"
| "subscription_step plans firm (Cancel now) s = res_bind (cancel_subscription now firm s) (Inr \<circ> snd)"
| "subscription_step plans firm Expire s = res_bind (expire_subscription firm s) (Inr \<circ> snd)"
| "subscription_step plans firm (Extend now n) s = res_bind (extend_trial now firm n s) (Inr \<circ> snd)"
| "subscription_step plans firm (Advance now) s = res_bind (advance_period now firm s) (Inr \<circ> snd)"
| "subscription_step plans firm (Expire_if_needed now) s = res_bind (expire_if_needed now firm s) (Inr \<circ> snd)"

text \<open>What is true of every stored subscription: its plan resolves and its status has its dates.\<close>

definition subscription_ok :: "plan_store \<Rightarrow> subscription \<Rightarrow> bool" where
  "subscription_ok plans sub \<longleftrightarrow> plan_store_get plans (sb_plan_id sub) \<noteq> None \<and>
     (sb_status sub = SS_TRIAL \<longrightarrow> sb_trial_ends_at sub \<noteq> None) \<and>
     (sb_status sub = SS_ACTIVE \<longrightarrow> sb_current_period_end sub \<noteq> None) \<and>
     (sb_status sub = SS_CANCELLED \<longrightarrow> sb_cancelled_at sub \<noteq> None)"

inductive commerce_reachable :: "plan_store \<Rightarrow> subscription_store \<Rightarrow> bool" where
  nothing_sold: "commerce_reachable [] []"
| catalog_changed: "commerce_reachable plans s \<Longrightarrow> commerce_reachable (catalog_step op plans) s"
| subscription_changed: "commerce_reachable plans s \<Longrightarrow> subscription_step plans firm sop s = Inr s' \<Longrightarrow>
    commerce_reachable plans s'"

text \<open>Every operation saves one subscription of the firm, or nothing.\<close>

lemma subscription_step_saves:
  assumes "subscription_step plans firm sop s = Inr s'"
    and k: "keyed sb_firm_id s"
  shows "s' = s \<or> (\<exists>sub'. s' = subscription_store_save sub' s \<and> sb_firm_id sub' = firm \<and>
     ((\<forall>sub. dict_get s firm = Some sub \<longrightarrow> subscription_ok plans sub) \<longrightarrow> subscription_ok plans sub'))"
proof -
  have key: "dict_get s firm = Some sub \<Longrightarrow> sb_firm_id sub = firm" for sub by (rule keyed_get [OF k])
  show ?thesis
    using assms(1) key
    by (cases sop)
       (auto simp: res_bind_Inr_iff start_trial_def activate_subscription_def change_plan_def mark_past_due_def
          cancel_subscription_def expire_subscription_def extend_trial_def advance_period_def expire_if_needed_def
          is_trial_expired_def modify_subscription_def require_subscription_def get_plan_def Let_def
          subscription_ok_def split: option.splits if_splits intro!: exI)
qed

lemma commerce_invariant:
  assumes "commerce_reachable plans s"
  shows "catalog_ok plans \<and> keyed sb_firm_id s \<and> (\<forall>firm sub. dict_get s firm = Some sub \<longrightarrow> subscription_ok plans sub)"
  using assms
proof induction
  case (catalog_changed plans s op)
  have "subscription_ok (catalog_step op plans) sub" if "subscription_ok plans sub" for sub
    using that catalog_step_keeps [of plans "sb_plan_id sub" _ op] catalog_changed.IH
    by (auto simp: subscription_ok_def)
  with catalog_changed.IH show ?case by (blast intro: catalog_step_ok)
next
  case (subscription_changed plans s firm sop s')
  then have k: "keyed sb_firm_id s" by blast
  from subscription_step_saves [OF subscription_changed.hyps(2) k]
  show ?case
  proof (elim disjE exE conjE)
    fix sub' assume s': "s' = subscription_store_save sub' s" and firm: "sb_firm_id sub' = firm"
      and ok: "(\<forall>sub. dict_get s firm = Some sub \<longrightarrow> subscription_ok plans sub) \<longrightarrow> subscription_ok plans sub'"
    have "subscription_ok plans sub'" using ok subscription_changed.IH by blast
    with s' show ?case
      using subscription_changed.IH subscription_rows.wf_put [OF k, of sub']
      by (auto simp: subscription_rows.get_put)
  qed (use subscription_changed.IH in simp)
qed simp

section \<open>Properties of subscriptions and prices\<close>

text \<open>
  In every state the catalogue and the subscriptions can reach together, a firm's subscription
  is its own, its plan resolves in the catalogue, a trial has an end, an active subscription has
  an end of its period and a cancelled one its cancellation time.
\<close>
theorem reachable_subscriptions_resolve:
  assumes "commerce_reachable plans s" and "require_subscription firm s = Inr sub"
  shows "sb_firm_id sub = firm \<and> (\<exists>p. get_plan (sb_plan_id sub) plans = Inr p \<and> pl_id p = sb_plan_id sub) \<and>
     (sb_status sub = SS_TRIAL \<longrightarrow> sb_trial_ends_at sub \<noteq> None) \<and>
     (sb_status sub = SS_ACTIVE \<longrightarrow> sb_current_period_end sub \<noteq> None) \<and>
     (sb_status sub = SS_CANCELLED \<longrightarrow> sb_cancelled_at sub \<noteq> None)"
proof -
  have sub: "dict_get s firm = Some sub"
    using assms(2) by (simp add: require_subscription_def split: option.splits)
  note inv = commerce_invariant [OF assms(1)]
  then have ok: "subscription_ok plans sub" using sub by blast
  then obtain p where p: "plan_store_get plans (sb_plan_id sub) = Some p" by (auto simp: subscription_ok_def)
  have "keyed pl_id plans" using inv by (simp add: catalog_ok_def)
  then have "pl_id p = sb_plan_id sub" using p by (rule plan_rows.get_key)
  then show ?thesis
    using ok p subscription_rows.get_key [of s firm sub] inv sub by (simp add: subscription_ok_def get_plan_def)
qed

lemma demo_trial:
  "subscription_step demo_catalog ''firm'' (Start_trial ''sub-1'' 5 ''plan-basic-v1'') [] =
     Inr [(''firm'', \<lparr>sb_id = ''sub-1'', sb_firm_id = ''firm'', sb_plan_id = ''plan-basic-v1'',
        sb_billing_cycle = BC_MONTHLY, sb_status = SS_TRIAL, sb_started_at = 5,
        sb_trial_ends_at = Some (5 + days 14), sb_current_period_end = None, sb_cancelled_at = None\<rparr>)]"
  by (simp add: start_trial_def get_plan_def demo_catalog_basic default_trial_end_def Let_def
      subscription_store_save_def)

theorem reachable_subscriptions_resolve_witness:
  "\<exists>p. get_plan ''plan-basic-v1'' demo_catalog = Inr p \<and> pl_id p = ''plan-basic-v1''"
proof -
  have "commerce_reachable demo_catalog []"
    unfolding demo_catalog_def by (intro catalog_changed nothing_sold)
  note reach = subscription_changed [OF this demo_trial]
  show ?thesis
    using reachable_subscriptions_resolve [OF reach, of "''firm''"] by (simp add: require_subscription_def)
qed

text \<open>
  Trials end once: a trial is expired by the check exactly when its end lies strictly in the
  past, a subscription that is not a trial never is, and nothing else of any subscription changes.
  Starting a trial, though, replaces whatever subscription the firm has by a new fourteen-day
  trial, paid or expired ones included.
\<close>
theorem trial_expiry_exact:
  assumes ok: "keyed sb_firm_id s" and sub: "dict_get s firm = Some sub"
    and trial: "sb_status sub = SS_TRIAL \<longrightarrow> sb_trial_ends_at sub = Some t"
  shows "(\<exists>s'. (if sb_status sub = SS_TRIAL \<and> t < now
         then expire_if_needed now firm s = Inr (Some (sub\<lparr>sb_status := SS_EXPIRED\<rparr>), s') \<and>
              dict_get s' firm = Some (sub\<lparr>sb_status := SS_EXPIRED\<rparr>) \<and>
              (\<forall>other. other \<noteq> firm \<longrightarrow> dict_get s' other = dict_get s other)
         else expire_if_needed now firm s = Inr (None, s') \<and> s' = s)) \<and>
     (\<forall>p. get_plan plan plans = Inr p \<longrightarrow>
        (\<exists>sub' s'. start_trial i now firm plan plans s = Inr (sub', s') \<and> dict_get s' firm = Some sub' \<and>
           sb_status sub' = SS_TRIAL \<and> sb_trial_ends_at sub' = Some (now + days 14)))"
proof -
  have key: "sb_firm_id sub = firm" by (rule keyed_get [OF ok sub])
  show ?thesis
    using trial sub key
    by (cases "t < now"; cases "sb_status sub = SS_TRIAL") (auto simp: expire_if_needed_def is_trial_expired_def require_subscription_def expire_subscription_def
        modify_subscription_def start_trial_def default_trial_end_def Let_def subscription_store_save_def update_conv')
qed

theorem trial_expiry_exact_witness:
  "\<exists>sub s'. expire_if_needed (6 + days 14) ''firm''
     (case subscription_step demo_catalog ''firm'' (Start_trial ''sub-1'' 5 ''plan-basic-v1'') [] of Inr s \<Rightarrow> s | Inl _ \<Rightarrow> []) =
     Inr (Some sub, s') \<and> sb_status sub = SS_EXPIRED"
proof -
  let ?sub = "\<lparr>sb_id = ''sub-1'', sb_firm_id = ''firm'', sb_plan_id = ''plan-basic-v1'',
        sb_billing_cycle = BC_MONTHLY, sb_status = SS_TRIAL, sb_started_at = 5,
        sb_trial_ends_at = Some (5 + days 14), sb_current_period_end = None, sb_cancelled_at = None\<rparr>"
  have "\<exists>s'. expire_if_needed (6 + days 14) ''firm'' [(''firm'', ?sub)] = Inr (Some (?sub\<lparr>sb_status := SS_EXPIRED\<rparr>), s')"
    using conjunct1 [OF trial_expiry_exact [of "[(''firm'', ?sub)]" "''firm''" ?sub "5 + days 14" "6 + days 14"]]
    by (simp add: keyed_def) blast
  then show ?thesis unfolding demo_trial by auto
qed

lemma round64_unit: "0 \<le> x \<Longrightarrow> x \<le> 1 \<Longrightarrow> \<exists>y. round64 x = Fin y \<and> 0 \<le> y \<and> y \<le> 1"
  using round64_upto [of x 1] by simp

text \<open>
  A discount between 0 and 100 percent never makes a price negative or higher than the plan's
  own: in the code's floating-point arithmetic the final amount lies between 0 and the base
  amount, whatever the rounding; without a discount it is the base amount, at 100 percent it is 0.
\<close>
theorem price_within_base:
  assumes base: "(if cycle = BC_ANNUAL then pl_annual_price_usd p else pl_monthly_price_usd p) = Fin b"
    and float: "round64 b = Fin b" "0 \<le> b" and percent: "0 \<le> d" "d \<le> 100"
  shows "\<exists>f. pq_base_amount (price_for p cycle (Fin d)) = Fin b \<and> pq_final_amount (price_for p cycle (Fin d)) = Fin f \<and>
     0 \<le> f \<and> f \<le> b \<and> (d = 0 \<longrightarrow> f = b) \<and> (d = 100 \<longrightarrow> f = 0)"
proof -
  obtain q where q: "round64 (d / 100) = Fin q" "0 \<le> q" "q \<le> 1"
    using round64_unit [of "d / 100"] percent by auto
  obtain r where r: "round64 (1 - q) = Fin r" "0 \<le> r" "r \<le> 1"
    using round64_unit [of "1 - q"] q by auto
  have "b * r \<le> b" using r(3) float(2) by (simp add: mult_left_le)
  then have "flt_le (round64 (b * r)) (Fin b)"
    using round64_mono_nonneg [of "b * r" b] float r(2) by simp
  then obtain f where f: "round64 (b * r) = Fin f" "0 \<le> f" "f \<le> b"
    by - (rule round64_nonneg_cases [of "b * r"],
       use float(2) r(2) in \<open>auto simp: flt_le_def dest: round_pos_nonneg\<close>)
  have one: "round64 1 = Fin 1" and zero: "round64 0 = Fin 0"
    using round64_int [of 1] round64_int [of 0] by simp_all
  have "d = 0 \<Longrightarrow> f = b" using q r f float(1) one zero by simp
  moreover have "d = 100 \<Longrightarrow> f = 0" using q r f one zero by simp
  ultimately show ?thesis
    using q r f base
    by (intro exI [of _ f]) (simp add: price_for_def discounted_def flt_div_def flt_sub_def Let_def)
qed

theorem price_within_base_witness:
  "\<exists>f p. pq_final_amount (price_for p BC_MONTHLY (Fin 15)) = Fin f \<and> 0 \<le> f \<and> f \<le> 49"
proof -
  obtain p :: plan where p: "pl_monthly_price_usd p = Fin 49"
    by (rule that [of "the (plan_store_get demo_catalog ''plan-basic-v1'')"]) (simp add: demo_catalog_basic)
  show ?thesis
    using price_within_base [of BC_MONTHLY p 49 15] p round64_int [of 49] by auto
qed

end
