(* ===== verification/Billing.thy ===== *)
theory Billing
  imports Plans
begin

text \<open>
  Invoicing: the ledger of \<^verbatim>\<open>cabinet_os/billing\<close> (quotes, invoices, credit notes and payments)
  and, composed with it, the subscription invoices of \<^verbatim>\<open>business_platform/billing\<close>,
  \<open>invoicing\<close> and \<open>payments\<close>. Amounts are Python floats; \<open>sum()\<close> adds them one by one from 0, as
  Python 3.11 does. A stored object that is handed out is the stored one, so the accounting
  export, a list of invoice objects, is modelled by the list of their identifiers.
\<close>

section \<open>Documents\<close>

datatype fee_type = FT_HOURLY | FT_FLAT_FEE | FT_SUCCESS_FEE | FT_OTHER

datatype quote_status = QS_DRAFT | QS_SENT | QS_ACCEPTED | QS_REJECTED | QS_EXPIRED

datatype invoice_status = IS_DRAFT | IS_SENT | IS_PARTIALLY_PAID | IS_PAID | IS_OVERDUE | IS_CANCELLED

datatype payment_method = PM_BANK_TRANSFER | PM_CARD | PM_CHECK | PM_CASH | PM_OTHER

record line_item =
  li_id :: pystr
  li_description :: pystr
  li_quantity :: pyfloat
  li_unit_price :: pyfloat
  li_fee_type :: fee_type
  li_discount_percent :: pyfloat

definition line_total :: "line_item \<Rightarrow> pyfloat" where
  "line_total item = discounted (flt_mul (li_quantity item) (li_unit_price item)) (li_discount_percent item)"

record quote =
  qt_id :: pystr
  qt_firm_id :: pystr
  qt_client_id :: pystr
  qt_case_id :: "pystr option"
  qt_status :: quote_status
  qt_line_items :: "line_item list"
  qt_global_discount_percent :: pyfloat
  qt_currency :: pystr
  qt_valid_until :: "datetime option"
  qt_accepted_at :: "datetime option"
  qt_created_at :: "datetime option"

record invoice =
  iv_id :: pystr
  iv_firm_id :: pystr
  iv_client_id :: pystr
  iv_case_id :: "pystr option"
  iv_quote_id :: "pystr option"
  iv_status :: invoice_status
  iv_line_items :: "line_item list"
  iv_global_discount_percent :: pyfloat
  iv_currency :: pystr
  iv_issued_at :: "datetime option"
  iv_due_at :: "datetime option"
  iv_credit_note_ids :: "pystr set"
  iv_payment_ids :: "pystr set"
  iv_created_at :: "datetime option"

record credit_note =
  cn_id :: pystr
  cn_firm_id :: pystr
  cn_invoice_id :: pystr
  cn_amount :: pyfloat
  cn_reason :: pystr
  cn_created_at :: "datetime option"

record payment =
  py_id :: pystr
  py_firm_id :: pystr
  py_invoice_id :: pystr
  py_amount :: pyfloat
  py_method :: payment_method
  py_reference :: pystr
  py_paid_at :: "datetime option"
  py_created_at :: "datetime option"

section \<open>The stores\<close>

definition quote_store_save :: "quote \<Rightarrow> (pystr, quote) dict \<Rightarrow> (pystr, quote) dict" where
  [store_defs]: "quote_store_save q s = dict_set (qt_id q) q s"

definition invoice_store_save :: "invoice \<Rightarrow> (pystr, invoice) dict \<Rightarrow> (pystr, invoice) dict" where
  [store_defs]: "invoice_store_save v s = dict_set (iv_id v) v s"

definition quotes_for_firm :: "pystr \<Rightarrow> (pystr, quote) dict \<Rightarrow> quote list" where
  "quotes_for_firm firm s = filter (\<lambda>q. qt_firm_id q = firm) (dict_values s)"

definition invoices_for_firm :: "pystr \<Rightarrow> (pystr, invoice) dict \<Rightarrow> invoice list" where
  "invoices_for_firm firm s = filter (\<lambda>v. iv_firm_id v = firm) (dict_values s)"

definition invoices_for_client :: "pystr \<Rightarrow> (pystr, invoice) dict \<Rightarrow> invoice list" where
  "invoices_for_client client s = filter (\<lambda>v. iv_client_id v = client) (dict_values s)"

definition credit_note_store_save :: "credit_note \<Rightarrow> credit_note list \<Rightarrow> credit_note list" where
  [store_defs]: "credit_note_store_save c s = s @ [c]"

definition credit_notes_for_invoice :: "credit_note list \<Rightarrow> pystr \<Rightarrow> credit_note list" where
  [store_defs]: "credit_notes_for_invoice s invoice_id = filter (\<lambda>c. cn_invoice_id c = invoice_id) s"

definition payment_store_save :: "payment \<Rightarrow> payment list \<Rightarrow> payment list" where
  [store_defs]: "payment_store_save p s = s @ [p]"

definition payments_for_invoice :: "payment list \<Rightarrow> pystr \<Rightarrow> payment list" where
  [store_defs]: "payments_for_invoice s invoice_id = filter (\<lambda>p. py_invoice_id p = invoice_id) s"

definition payments_for_firm :: "payment list \<Rightarrow> pystr \<Rightarrow> payment list" where
  [store_defs]: "payments_for_firm s firm = filter (\<lambda>p. py_firm_id p = firm) s"

interpretation quote_rows: keyed_store qt_id quote_store_save dict_get "keyed qt_id"
  using keyed_store_dict [of qt_id] by (simp add: quote_store_save_def [abs_def])

interpretation invoice_rows: keyed_store iv_id invoice_store_save dict_get "keyed iv_id"
  using keyed_store_dict [of iv_id] by (simp add: invoice_store_save_def [abs_def])

interpretation credit_log: journal credit_note_store_save "\<lambda>s. s" cn_invoice_id credit_notes_for_invoice
  by unfold_locales (simp_all add: store_defs)

interpretation payment_log: journal payment_store_save "\<lambda>s. s" py_invoice_id payments_for_invoice
  by unfold_locales (simp_all add: store_defs)

interpretation firm_payment_log: journal payment_store_save "\<lambda>s. s" py_firm_id payments_for_firm
  by unfold_locales (simp_all add: store_defs)

section \<open>The ledger\<close>

record ledger =
  lg_quotes :: "(pystr, quote) dict"
  lg_invoices :: "(pystr, invoice) dict"
  lg_credit_notes :: "credit_note list"
  lg_payments :: "payment list"
  lg_recorded :: "(pystr \<times> pyfloat \<times> payment_method \<times> pystr) list"
  lg_exported :: "pystr list"

definition empty_ledger :: ledger where
  "empty_ledger = \<lparr>lg_quotes = [], lg_invoices = [], lg_credit_notes = [], lg_payments = [], lg_recorded = [],
     lg_exported = []\<rparr>"

definition document_total :: "line_item list \<Rightarrow> pyfloat \<Rightarrow> pyfloat" where
  "document_total items global_discount_percent =
     discounted (flt_sum (map line_total items)) global_discount_percent"

definition require_quote :: "pystr \<Rightarrow> ledger \<Rightarrow> quote result" where
  "require_quote quote_id g =
     (case dict_get (lg_quotes g) quote_id of
        None \<Rightarrow> Inl (ValueError (''Unknown quote '' @ py_repr quote_id))
      | Some q \<Rightarrow> Inr q)"

definition require_invoice :: "pystr \<Rightarrow> ledger \<Rightarrow> invoice result" where
  "require_invoice invoice_id g =
     (case dict_get (lg_invoices g) invoice_id of
        None \<Rightarrow> Inl (ValueError (''Unknown invoice '' @ py_repr invoice_id))
      | Some v \<Rightarrow> Inr v)"

abbreviation save_quote :: "quote \<Rightarrow> ledger \<Rightarrow> ledger" where
  "save_quote q g \<equiv> g\<lparr>lg_quotes := quote_store_save q (lg_quotes g)\<rparr>"

abbreviation save_invoice :: "invoice \<Rightarrow> ledger \<Rightarrow> ledger" where
  "save_invoice v g \<equiv> g\<lparr>lg_invoices := invoice_store_save v (lg_invoices g)\<rparr>"

definition create_quote ::
  "pystr \<Rightarrow> datetime \<Rightarrow> pystr \<Rightarrow> pystr \<Rightarrow> pystr option \<Rightarrow> ledger \<Rightarrow> quote \<times> ledger" where
  "create_quote new_id now firm client case_id g =
     (let q = \<lparr>qt_id = new_id, qt_firm_id = firm, qt_client_id = client, qt_case_id = case_id,
               qt_status = QS_DRAFT, qt_line_items = [], qt_global_discount_percent = Fin 0,
               qt_currency = ''EUR'', qt_valid_until = None, qt_accepted_at = None, qt_created_at = Some now\<rparr>
      in (q, save_quote q g))"

definition add_quote_line :: "pystr \<Rightarrow> line_item \<Rightarrow> ledger \<Rightarrow> (quote \<times> ledger) result" where
  "add_quote_line quote_id item g =
     res_bind (require_quote quote_id g) (\<lambda>q.
       let q' = q\<lparr>qt_line_items := qt_line_items q @ [item]\<rparr> in Inr (q', save_quote q' g))"

definition send_quote :: "pystr \<Rightarrow> ledger \<Rightarrow> (quote \<times> ledger) result" where
  "send_quote quote_id g =
     res_bind (require_quote quote_id g) (\<lambda>q.
       let q' = q\<lparr>qt_status := QS_SENT\<rparr> in Inr (q', save_quote q' g))"

definition accept_quote :: "datetime \<Rightarrow> pystr \<Rightarrow> ledger \<Rightarrow> (quote \<times> ledger) result" where
  "accept_quote now quote_id g =
     res_bind (require_quote quote_id g) (\<lambda>q.
       let q' = q\<lparr>qt_status := QS_ACCEPTED, qt_accepted_at := Some now\<rparr> in Inr (q', save_quote q' g))"

definition create_invoice ::
  "pystr \<Rightarrow> datetime \<Rightarrow> pystr \<Rightarrow> pystr \<Rightarrow> pystr option \<Rightarrow> ledger \<Rightarrow> invoice \<times> ledger" where
  "create_invoice new_id now firm client case_id g =
     (let v = \<lparr>iv_id = new_id, iv_firm_id = firm, iv_client_id = client, iv_case_id = case_id,
               iv_quote_id = None, iv_status = IS_DRAFT, iv_line_items = [],
               iv_global_discount_percent = Fin 0, iv_currency = ''EUR'', iv_issued_at = None,
               iv_due_at = None, iv_credit_note_ids = {}, iv_payment_ids = {}, iv_created_at = Some now\<rparr>
      in (v, save_invoice v g))"

definition add_invoice_line :: "pystr \<Rightarrow> line_item \<Rightarrow> ledger \<Rightarrow> (invoice \<times> ledger) result" where
  "add_invoice_line invoice_id item g =
     res_bind (require_invoice invoice_id g) (\<lambda>v.
       let v' = v\<lparr>iv_line_items := iv_line_items v @ [item]\<rparr> in Inr (v', save_invoice v' g))"

definition issue_invoice :: "datetime \<Rightarrow> pystr \<Rightarrow> datetime option \<Rightarrow> ledger \<Rightarrow> (invoice \<times> ledger) result" where
  "issue_invoice now invoice_id due_at g =
     res_bind (require_invoice invoice_id g) (\<lambda>v.
       let v' = v\<lparr>iv_status := IS_SENT, iv_issued_at := Some now,
                  iv_due_at := Some (case due_at of None \<Rightarrow> now + days 30 | Some t \<Rightarrow> t)\<rparr>;
           g' = save_invoice v' g
       in Inr (v', g'\<lparr>lg_exported := lg_exported g' @ [iv_id v']\<rparr>))"

definition convert_quote_to_invoice ::
  "pystr \<Rightarrow> datetime \<Rightarrow> datetime \<Rightarrow> pystr \<Rightarrow> datetime option \<Rightarrow> ledger \<Rightarrow> (invoice \<times> ledger) result" where
  "convert_quote_to_invoice new_id created issued quote_id due_at g =
     res_bind (require_quote quote_id g) (\<lambda>q.
       if qt_status q \<noteq> QS_ACCEPTED
       then Inl (ValueError (''Quote '' @ py_repr quote_id @ '' must be accepted before invoicing''))
       else (let v = \<lparr>iv_id = new_id, iv_firm_id = qt_firm_id q, iv_client_id = qt_client_id q,
                      iv_case_id = qt_case_id q, iv_quote_id = Some (qt_id q), iv_status = IS_DRAFT,
                      iv_line_items = qt_line_items q,
                      iv_global_discount_percent = qt_global_discount_percent q,
                      iv_currency = qt_currency q, iv_issued_at = None, iv_due_at = None,
                      iv_credit_note_ids = {}, iv_payment_ids = {}, iv_created_at = Some created\<rparr>
             in issue_invoice issued (iv_id v) due_at (save_invoice v g)))"

definition total_due :: "pystr \<Rightarrow> ledger \<Rightarrow> pyfloat result" where
  "total_due invoice_id g =
     res_bind (require_invoice invoice_id g) (\<lambda>v.
       let gross = document_total (iv_line_items v) (iv_global_discount_percent v);
           credited = flt_sum (map cn_amount (credit_notes_for_invoice (lg_credit_notes g) invoice_id));
           paid = flt_sum (map py_amount (payments_for_invoice (lg_payments g) invoice_id))
       in Inr (flt_sub (flt_sub gross credited) paid))"

definition record_payment ::
  "pystr \<Rightarrow> datetime \<Rightarrow> datetime \<Rightarrow> pystr \<Rightarrow> pyfloat \<Rightarrow> payment_method \<Rightarrow> pystr \<Rightarrow> ledger
     \<Rightarrow> (payment \<times> ledger) result" where
  "record_payment new_id paid_at created_at invoice_id amount meth reference g =
     res_bind (require_invoice invoice_id g) (\<lambda>v.
       let p = \<lparr>py_id = new_id, py_firm_id = iv_firm_id v, py_invoice_id = invoice_id, py_amount = amount,
                py_method = meth, py_reference = reference, py_paid_at = Some paid_at,
                py_created_at = Some created_at\<rparr>;
           g1 = g\<lparr>lg_payments := payment_store_save p (lg_payments g),
                  lg_recorded := lg_recorded g @ [(invoice_id, amount, meth, reference)]\<rparr>;
           v1 = v\<lparr>iv_payment_ids := insert (py_id p) (iv_payment_ids v)\<rparr>
       in res_bind (total_due invoice_id (save_invoice v1 g1)) (\<lambda>remaining.
            let v2 = v1\<lparr>iv_status := if flt_le remaining (Fin 0) then IS_PAID else IS_PARTIALLY_PAID\<rparr>
            in Inr (p, save_invoice v2 g1)))"

definition issue_credit_note ::
  "pystr \<Rightarrow> datetime \<Rightarrow> pystr \<Rightarrow> pyfloat \<Rightarrow> pystr \<Rightarrow> ledger \<Rightarrow> (credit_note \<times> ledger) result" where
  "issue_credit_note new_id now invoice_id amount reason g =
     res_bind (require_invoice invoice_id g) (\<lambda>v.
       let c = \<lparr>cn_id = new_id, cn_firm_id = iv_firm_id v, cn_invoice_id = invoice_id, cn_amount = amount,
                cn_reason = reason, cn_created_at = Some now\<rparr>;
           v' = v\<lparr>iv_credit_note_ids := insert (cn_id c) (iv_credit_note_ids v)\<rparr>;
           g' = g\<lparr>lg_credit_notes := credit_note_store_save c (lg_credit_notes g)\<rparr>
       in Inr (c, save_invoice v' g'))"

definition get_invoice :: "pystr \<Rightarrow> ledger \<Rightarrow> invoice result" where
  "get_invoice = require_invoice"

section \<open>Subscription invoices\<close>

fun billing_cycle_value :: "billing_cycle \<Rightarrow> pystr" where
  "billing_cycle_value BC_MONTHLY = ''monthly''"
| "billing_cycle_value BC_ANNUAL = ''annual''"

text \<open>The draws of a run: \<open>clock 0\<close> is the check, then creation, issue and the new period; two identifiers.\<close>

definition invoice_for_subscription ::
  "(nat \<Rightarrow> pystr) \<Rightarrow> (nat \<Rightarrow> datetime) \<Rightarrow> pyfloat \<Rightarrow> pystr \<Rightarrow> plan_store \<Rightarrow> subscription_store \<Rightarrow> ledger
     \<Rightarrow> (invoice \<times> ledger) result" where
  "invoice_for_subscription ids clock discount_percent firm plans subs g =
     res_bind (require_subscription firm subs) (\<lambda>sub.
     res_bind (get_plan (sb_plan_id sub) plans) (\<lambda>p.
       let price = price_for p (sb_billing_cycle sub) discount_percent;
           (v, g1) = create_invoice (ids 0) (clock 1) firm firm None g;
           item = \<lparr>li_id = ids 1,
                   li_description = ''Abonnement '' @ plan_name_value (pl_name p) @ '' ('' @
                      billing_cycle_value (sb_billing_cycle sub) @ '')'',
                   li_quantity = Fin 1, li_unit_price = pq_final_amount price, li_fee_type = FT_FLAT_FEE,
                   li_discount_percent = Fin 0\<rparr>
       in res_bind (add_invoice_line (iv_id v) item g1) (\<lambda>(_, g2).
          issue_invoice (clock 2) (iv_id v) None g2)))"

definition billing_is_due :: "datetime \<Rightarrow> pystr \<Rightarrow> subscription_store \<Rightarrow> bool result" where
  "billing_is_due now firm subs =
     res_bind (require_subscription firm subs) (\<lambda>sub.
       if sb_status sub \<noteq> SS_ACTIVE then Inr False
       else (case sb_current_period_end sub of None \<Rightarrow> Inr False | Some t \<Rightarrow> Inr (t \<le> now)))"

definition run_billing_cycle ::
  "(nat \<Rightarrow> pystr) \<Rightarrow> (nat \<Rightarrow> datetime) \<Rightarrow> pyfloat \<Rightarrow> pystr \<Rightarrow> plan_store \<Rightarrow> subscription_store \<Rightarrow> ledger
     \<Rightarrow> (invoice option \<times> subscription_store \<times> ledger) result" where
  "run_billing_cycle ids clock discount_percent firm plans subs g =
     res_bind (billing_is_due (clock 0) firm subs) (\<lambda>is_due.
       if \<not> is_due then Inr (None, subs, g)
       else res_bind (invoice_for_subscription ids clock discount_percent firm plans subs g) (\<lambda>(v, g').
            res_bind (advance_period (clock 3) firm subs) (\<lambda>(_, subs'). Inr (Some v, subs', g'))))"

definition pay_invoice ::
  "pystr \<Rightarrow> datetime \<Rightarrow> datetime \<Rightarrow> pystr \<Rightarrow> pyfloat \<Rightarrow> payment_method \<Rightarrow> pystr \<Rightarrow> ledger
     \<Rightarrow> (payment \<times> ledger) result" where
  "pay_invoice = record_payment"

definition invoice_balance :: "pystr \<Rightarrow> ledger \<Rightarrow> pyfloat result" where
  "invoice_balance = total_due"

section \<open>The invariant of the ledger\<close>

text \<open>
  \<open>invoice_ok\<close>: an invoice names exactly the credit notes and payments recorded against it, all of
  its own firm, and is paid or partially paid only if there is a payment.
\<close>

definition invoice_ok :: "credit_note list \<Rightarrow> payment list \<Rightarrow> invoice \<Rightarrow> bool" where
  "invoice_ok cs ps v \<longleftrightarrow>
     iv_payment_ids v = py_id ` set (payments_for_invoice ps (iv_id v)) \<and>
     iv_credit_note_ids v = cn_id ` set (credit_notes_for_invoice cs (iv_id v)) \<and>
     (\<forall>p \<in> set (payments_for_invoice ps (iv_id v)). py_firm_id p = iv_firm_id v) \<and>
     (\<forall>c \<in> set (credit_notes_for_invoice cs (iv_id v)). cn_firm_id c = iv_firm_id v) \<and>
     (iv_status v \<in> {IS_PAID, IS_PARTIALLY_PAID} \<longrightarrow> iv_payment_ids v \<noteq> {})"

definition ledger_ok :: "ledger \<Rightarrow> bool" where
  "ledger_ok g \<longleftrightarrow> keyed qt_id (lg_quotes g) \<and> keyed iv_id (lg_invoices g) \<and>
     (\<forall>i v. dict_get (lg_invoices g) i = Some v \<longrightarrow> invoice_ok (lg_credit_notes g) (lg_payments g) v) \<and>
     (\<forall>p \<in> set (lg_payments g). dict_get (lg_invoices g) (py_invoice_id p) \<noteq> None) \<and>
     (\<forall>c \<in> set (lg_credit_notes g). dict_get (lg_invoices g) (cn_invoice_id c) \<noteq> None) \<and>
     lg_recorded g = map (\<lambda>p. (py_invoice_id p, py_amount p, py_method p, py_reference p)) (lg_payments g)"

lemma ledger_ok_empty [simp]: "ledger_ok empty_ledger"
  by (simp add: ledger_ok_def empty_ledger_def)

lemma ledger_invoice:
  "ledger_ok g \<Longrightarrow> dict_get (lg_invoices g) i = Some v \<Longrightarrow>
     iv_id v = i \<and> invoice_ok (lg_credit_notes g) (lg_payments g) v"
  unfolding ledger_ok_def using invoice_rows.get_key by blast

text \<open>Saving an invoice that is itself in order keeps the ledger in order.\<close>

lemma save_invoice_ok:
  assumes "ledger_ok g" and "invoice_ok (lg_credit_notes g) (lg_payments g) v"
  shows "ledger_ok (save_invoice v g)"
  using assms invoice_rows.wf_put by (auto simp: ledger_ok_def invoice_rows.get_put)

lemma save_quote_ok: "ledger_ok g \<Longrightarrow> ledger_ok (save_quote q g)"
  using quote_rows.wf_put by (auto simp: ledger_ok_def)

lemma invoice_ok_fresh:
  assumes "ledger_ok g" and "dict_get (lg_invoices g) (iv_id v) = None"
    and "iv_payment_ids v = {}" "iv_credit_note_ids v = {}" "iv_status v \<notin> {IS_PAID, IS_PARTIALLY_PAID}"
  shows "invoice_ok (lg_credit_notes g) (lg_payments g) v"
proof -
  have "payments_for_invoice (lg_payments g) (iv_id v) = []"
    using assms(1,2) by (auto simp: ledger_ok_def payments_for_invoice_def filter_empty_conv)
  moreover have "credit_notes_for_invoice (lg_credit_notes g) (iv_id v) = []"
    using assms(1,2) by (auto simp: ledger_ok_def credit_notes_for_invoice_def filter_empty_conv)
  ultimately show ?thesis using assms(3-5) by (simp add: invoice_ok_def)
qed

text \<open>A new payment or credit note concerns its own invoice only.\<close>

lemma invoice_ok_payment:
  "invoice_ok cs ps v \<Longrightarrow> py_invoice_id p \<noteq> iv_id v \<Longrightarrow> invoice_ok cs (payment_store_save p ps) v"
  by (auto simp: invoice_ok_def payment_log.rows_append)

lemma invoice_ok_credit:
  "invoice_ok cs ps v \<Longrightarrow> cn_invoice_id c \<noteq> iv_id v \<Longrightarrow> invoice_ok (credit_note_store_save c cs) ps v"
  by (auto simp: invoice_ok_def credit_log.rows_append)

lemma issue_invoice_cases:
  assumes "issue_invoice now i due_at g = Inr (v', g')"
  obtains v where "dict_get (lg_invoices g) i = Some v"
    and "v' = v\<lparr>iv_status := IS_SENT, iv_issued_at := Some now,
            iv_due_at := Some (case due_at of None \<Rightarrow> now + days 30 | Some t \<Rightarrow> t)\<rparr>"
    and "g' = (save_invoice v' g)\<lparr>lg_exported := lg_exported g @ [iv_id v']\<rparr>"
  using assms by (auto simp: issue_invoice_def require_invoice_def Let_def split: option.splits)

lemma ledger_ok_exported [simp]: "ledger_ok (g\<lparr>lg_exported := xs\<rparr>) = ledger_ok g"
  by (simp add: ledger_ok_def)

lemma issue_invoice_ok:
  assumes ok: "ledger_ok g" and run: "issue_invoice now i due_at g = Inr (v', g')"
  shows "ledger_ok g'"
proof -
  obtain v where v: "dict_get (lg_invoices g) i = Some v"
    and v': "v' = v\<lparr>iv_status := IS_SENT, iv_issued_at := Some now,
            iv_due_at := Some (case due_at of None \<Rightarrow> now + days 30 | Some t \<Rightarrow> t)\<rparr>"
    and g': "g' = (save_invoice v' g)\<lparr>lg_exported := lg_exported g @ [iv_id v']\<rparr>"
    by (rule issue_invoice_cases [OF run])
  have "invoice_ok (lg_credit_notes g) (lg_payments g) v'"
    using ledger_invoice [OF ok v] by (auto simp: invoice_ok_def v')
  then show ?thesis unfolding g' ledger_ok_exported by (rule save_invoice_ok [OF ok])
qed

lemma record_payment_cases:
  assumes "record_payment i t t' invoice_id amount meth reference g = Inr (p, g')"
  obtains v remaining where "dict_get (lg_invoices g) invoice_id = Some v"
    and "p = \<lparr>py_id = i, py_firm_id = iv_firm_id v, py_invoice_id = invoice_id, py_amount = amount,
              py_method = meth, py_reference = reference, py_paid_at = Some t, py_created_at = Some t'\<rparr>"
    and "g' = save_invoice
          (v\<lparr>iv_payment_ids := insert i (iv_payment_ids v),
             iv_status := if flt_le remaining (Fin 0) then IS_PAID else IS_PARTIALLY_PAID\<rparr>)
          (g\<lparr>lg_payments := payment_store_save p (lg_payments g),
             lg_recorded := lg_recorded g @ [(invoice_id, amount, meth, reference)]\<rparr>)"
    and "total_due invoice_id (save_invoice (v\<lparr>iv_payment_ids := insert i (iv_payment_ids v)\<rparr>)
           (g\<lparr>lg_payments := payment_store_save p (lg_payments g),
              lg_recorded := lg_recorded g @ [(invoice_id, amount, meth, reference)]\<rparr>)) = Inr remaining"
  using assms by (auto simp: record_payment_def require_invoice_def [of invoice_id g] Let_def res_bind_Inr_iff split: option.splits)

lemma record_payment_ok:
  assumes ok: "ledger_ok g" and run: "record_payment i t t' invoice_id amount meth reference g = Inr (p, g')"
  shows "ledger_ok g'"
proof -
  obtain v remaining where v: "dict_get (lg_invoices g) invoice_id = Some v"
    and p: "p = \<lparr>py_id = i, py_firm_id = iv_firm_id v, py_invoice_id = invoice_id, py_amount = amount,
              py_method = meth, py_reference = reference, py_paid_at = Some t, py_created_at = Some t'\<rparr>"
    and g': "g' = save_invoice
          (v\<lparr>iv_payment_ids := insert i (iv_payment_ids v),
             iv_status := if flt_le remaining (Fin 0) then IS_PAID else IS_PARTIALLY_PAID\<rparr>)
          (g\<lparr>lg_payments := payment_store_save p (lg_payments g),
             lg_recorded := lg_recorded g @ [(invoice_id, amount, meth, reference)]\<rparr>)"
    by (rule record_payment_cases [OF run])
  have id: "iv_id v = invoice_id" and vok: "invoice_ok (lg_credit_notes g) (lg_payments g) v"
    using ledger_invoice [OF ok v] by simp_all
  let ?v = "v\<lparr>iv_payment_ids := insert i (iv_payment_ids v),
      iv_status := if flt_le remaining (Fin 0) then IS_PAID else IS_PARTIALLY_PAID\<rparr>"
  have "invoice_ok (lg_credit_notes g) (payment_store_save p (lg_payments g)) ?v"
    using vok id by (auto simp: invoice_ok_def payment_log.rows_append p)
  moreover have "invoice_ok (lg_credit_notes g) (payment_store_save p (lg_payments g)) w"
    if "dict_get (lg_invoices g) j = Some w" "j \<noteq> invoice_id" for j w
    using ledger_invoice [OF ok that(1)] that(2) by (intro invoice_ok_payment) (auto simp: p)
  ultimately show ?thesis
    using ok id invoice_rows.wf_put [of "lg_invoices g" ?v] unfolding g' ledger_ok_def
    by (auto simp: invoice_rows.get_put payment_log.entries_append p)
qed

lemma issue_credit_note_ok:
  assumes ok: "ledger_ok g" and run: "issue_credit_note i t invoice_id amount reason g = Inr (c, g')"
  shows "ledger_ok g'"
proof -
  obtain v where v: "dict_get (lg_invoices g) invoice_id = Some v"
    and c: "c = \<lparr>cn_id = i, cn_firm_id = iv_firm_id v, cn_invoice_id = invoice_id, cn_amount = amount,
              cn_reason = reason, cn_created_at = Some t\<rparr>"
    and g': "g' = save_invoice (v\<lparr>iv_credit_note_ids := insert i (iv_credit_note_ids v)\<rparr>)
          (g\<lparr>lg_credit_notes := credit_note_store_save c (lg_credit_notes g)\<rparr>)"
    using run by (auto simp: issue_credit_note_def require_invoice_def Let_def split: option.splits)
  have id: "iv_id v = invoice_id" and vok: "invoice_ok (lg_credit_notes g) (lg_payments g) v"
    using ledger_invoice [OF ok v] by simp_all
  let ?v = "v\<lparr>iv_credit_note_ids := insert i (iv_credit_note_ids v)\<rparr>"
  have "invoice_ok (credit_note_store_save c (lg_credit_notes g)) (lg_payments g) ?v"
    using vok id by (auto simp: invoice_ok_def credit_log.rows_append c)
  moreover have "invoice_ok (credit_note_store_save c (lg_credit_notes g)) (lg_payments g) w"
    if "dict_get (lg_invoices g) j = Some w" "j \<noteq> invoice_id" for j w
    using ledger_invoice [OF ok that(1)] that(2) by (intro invoice_ok_credit) (auto simp: c)
  ultimately show ?thesis
    using ok id invoice_rows.wf_put [of "lg_invoices g" ?v] unfolding g' ledger_ok_def
    by (auto simp: invoice_rows.get_put credit_log.entries_append c)
qed

text \<open>The operations as steps; a step that raises leaves the ledger alone.\<close>

inductive ledger_trans :: "ledger \<Rightarrow> ledger \<Rightarrow> bool" where
  quote_created: "create_quote i t firm client case_id g = (q, g') \<Longrightarrow> ledger_trans g g'"
| quote_line: "add_quote_line quote_id item g = Inr (q, g') \<Longrightarrow> ledger_trans g g'"
| quote_sent: "send_quote quote_id g = Inr (q, g') \<Longrightarrow> ledger_trans g g'"
| quote_accepted: "accept_quote t quote_id g = Inr (q, g') \<Longrightarrow> ledger_trans g g'"
| quote_converted: "dict_get (lg_invoices g) i = None \<Longrightarrow>
    convert_quote_to_invoice i t t' quote_id due_at g = Inr (v, g') \<Longrightarrow> ledger_trans g g'"
| invoice_created: "dict_get (lg_invoices g) i = None \<Longrightarrow> create_invoice i t firm client case_id g = (v, g') \<Longrightarrow>
    ledger_trans g g'"
| invoice_line: "add_invoice_line invoice_id item g = Inr (v, g') \<Longrightarrow> ledger_trans g g'"
| invoice_issued: "issue_invoice t invoice_id due_at g = Inr (v, g') \<Longrightarrow> ledger_trans g g'"
| invoice_paid: "record_payment i t t' invoice_id amount meth reference g = Inr (p, g') \<Longrightarrow> ledger_trans g g'"
| invoice_credited: "issue_credit_note i t invoice_id amount reason g = Inr (c, g') \<Longrightarrow> ledger_trans g g'"

inductive ledger_reachable :: "ledger \<Rightarrow> bool" where
  ledger_opened: "ledger_reachable empty_ledger"
| ledger_moved: "ledger_reachable g \<Longrightarrow> ledger_trans g g' \<Longrightarrow> ledger_reachable g'"

lemma create_invoice_ok:
  assumes "ledger_ok g" and "dict_get (lg_invoices g) i = None" and "create_invoice i t firm client case_id g = (v, g')"
  shows "ledger_ok g'"
proof -
  have v: "iv_id v = i" "iv_payment_ids v = {}" "iv_credit_note_ids v = {}" "iv_status v = IS_DRAFT"
    and g': "g' = save_invoice v g"
    using assms(3) by (auto simp: create_invoice_def Let_def)
  show ?thesis unfolding g'
    by (rule save_invoice_ok [OF assms(1) invoice_ok_fresh [OF assms(1)]]) (use assms(2) v in simp_all)
qed

lemma convert_quote_cases:
  assumes "convert_quote_to_invoice i t t' quote_id due_at g = Inr (v', g')"
  obtains q v where "dict_get (lg_quotes g) quote_id = Some q" and "qt_status q = QS_ACCEPTED"
    and "v = \<lparr>iv_id = i, iv_firm_id = qt_firm_id q, iv_client_id = qt_client_id q,
              iv_case_id = qt_case_id q, iv_quote_id = Some (qt_id q), iv_status = IS_DRAFT,
              iv_line_items = qt_line_items q, iv_global_discount_percent = qt_global_discount_percent q,
              iv_currency = qt_currency q, iv_issued_at = None, iv_due_at = None,
              iv_credit_note_ids = {}, iv_payment_ids = {}, iv_created_at = Some t\<rparr>"
    and "issue_invoice t' i due_at (save_invoice v g) = Inr (v', g')"
  using assms by (auto simp: convert_quote_to_invoice_def require_quote_def Let_def split: option.splits if_splits)

lemma ledger_trans_ok:
  assumes "ledger_trans g g'" and ok: "ledger_ok g"
  shows "ledger_ok g'"
  using assms(1)
proof cases
  case (quote_converted i t t' quote_id due_at v')
  obtain q v where "dict_get (lg_quotes g) quote_id = Some q" and "qt_status q = QS_ACCEPTED"
    and v: "v = \<lparr>iv_id = i, iv_firm_id = qt_firm_id q, iv_client_id = qt_client_id q,
              iv_case_id = qt_case_id q, iv_quote_id = Some (qt_id q), iv_status = IS_DRAFT,
              iv_line_items = qt_line_items q, iv_global_discount_percent = qt_global_discount_percent q,
              iv_currency = qt_currency q, iv_issued_at = None, iv_due_at = None,
              iv_credit_note_ids = {}, iv_payment_ids = {}, iv_created_at = Some t\<rparr>"
    and issue: "issue_invoice t' i due_at (save_invoice v g) = Inr (v', g')"
    by (rule convert_quote_cases [OF quote_converted(2)])
  have "ledger_ok (save_invoice v g)"
    by (rule save_invoice_ok [OF ok invoice_ok_fresh [OF ok]]) (use quote_converted(1) v in simp_all)
  then show ?thesis using issue by (rule issue_invoice_ok)
next
  case (invoice_line invoice_id item v')
  then obtain v where v: "dict_get (lg_invoices g) invoice_id = Some v"
    and v': "v' = v\<lparr>iv_line_items := iv_line_items v @ [item]\<rparr>" and g': "g' = save_invoice v' g"
    by (auto simp: add_invoice_line_def require_invoice_def Let_def split: option.splits)
  have "invoice_ok (lg_credit_notes g) (lg_payments g) v'"
    using ledger_invoice [OF ok v] by (auto simp: invoice_ok_def v')
  then show ?thesis unfolding g' by (rule save_invoice_ok [OF ok])
next
  case invoice_issued
  then show ?thesis using ok by (blast intro: issue_invoice_ok)
next
  case invoice_paid
  then show ?thesis using ok by (blast intro: record_payment_ok)
next
  case invoice_credited
  then show ?thesis using ok by (blast intro: issue_credit_note_ok)
next
  case invoice_created
  then show ?thesis using ok by (blast intro: create_invoice_ok)
qed (use ok in \<open>auto simp: create_quote_def add_quote_line_def send_quote_def accept_quote_def require_quote_def
       Let_def intro: save_quote_ok split: option.splits\<close>)

lemma ledger_reachable_ok: "ledger_reachable g \<Longrightarrow> ledger_ok g"
  by (induction rule: ledger_reachable.induct) (auto intro: ledger_trans_ok)

section \<open>Properties\<close>

text \<open>
  C15. The ledger is consistent in every state its operations reach (with fresh identifiers for new
  invoices): an invoice's payment and credit-note identifiers are exactly those of the payments and
  credit notes kept against it, every one of the invoice's own firm; no payment and no credit note
  is kept against an unknown invoice; no invoice counts as paid or partially paid without a
  payment; and the payment gateway has seen exactly the recorded payments, in order.
\<close>
theorem ledger_consistent:
  assumes "ledger_reachable g"
  shows "(\<forall>i v. get_invoice i g = Inr v \<longrightarrow> iv_id v = i \<and>
        iv_payment_ids v = py_id ` {p \<in> set (lg_payments g). py_invoice_id p = i} \<and>
        iv_credit_note_ids v = cn_id ` {c \<in> set (lg_credit_notes g). cn_invoice_id c = i} \<and>
        (\<forall>p \<in> set (lg_payments g). py_invoice_id p = i \<longrightarrow> py_firm_id p = iv_firm_id v) \<and>
        (\<forall>c \<in> set (lg_credit_notes g). cn_invoice_id c = i \<longrightarrow> cn_firm_id c = iv_firm_id v) \<and>
        (iv_status v \<in> {IS_PAID, IS_PARTIALLY_PAID} \<longrightarrow> (\<exists>p \<in> set (lg_payments g). py_invoice_id p = i))) \<and>
     (\<forall>p \<in> set (lg_payments g). \<exists>v. get_invoice (py_invoice_id p) g = Inr v) \<and>
     (\<forall>c \<in> set (lg_credit_notes g). \<exists>v. get_invoice (cn_invoice_id c) g = Inr v) \<and>
     lg_recorded g = map (\<lambda>p. (py_invoice_id p, py_amount p, py_method p, py_reference p)) (lg_payments g)"
proof (intro conjI allI impI)
  have ok: "ledger_ok g" using assms by (rule ledger_reachable_ok)
  {
    fix i v assume "get_invoice i g = Inr v"
    then have "dict_get (lg_invoices g) i = Some v"
      by (simp add: get_invoice_def require_invoice_def split: option.splits)
    from ledger_invoice [OF ok this] have id: "iv_id v = i" and v: "invoice_ok (lg_credit_notes g) (lg_payments g) v" by simp_all
    show "iv_id v = i" by (rule id)
    show "iv_payment_ids v = py_id ` {p \<in> set (lg_payments g). py_invoice_id p = i}"
      using v id by (simp add: invoice_ok_def payments_for_invoice_def)
    show "iv_credit_note_ids v = cn_id ` {c \<in> set (lg_credit_notes g). cn_invoice_id c = i}"
      using v id by (simp add: invoice_ok_def credit_notes_for_invoice_def)
    show "\<forall>p \<in> set (lg_payments g). py_invoice_id p = i \<longrightarrow> py_firm_id p = iv_firm_id v"
      using v id by (simp add: invoice_ok_def payments_for_invoice_def)
    show "\<forall>c \<in> set (lg_credit_notes g). cn_invoice_id c = i \<longrightarrow> cn_firm_id c = iv_firm_id v"
      using v id by (simp add: invoice_ok_def credit_notes_for_invoice_def)
    show "\<exists>p \<in> set (lg_payments g). py_invoice_id p = i" if "iv_status v \<in> {IS_PAID, IS_PARTIALLY_PAID}"
      using v id that by (auto simp: invoice_ok_def payments_for_invoice_def)
  }
  show "\<forall>p \<in> set (lg_payments g). \<exists>v. get_invoice (py_invoice_id p) g = Inr v"
    and "\<forall>c \<in> set (lg_credit_notes g). \<exists>v. get_invoice (cn_invoice_id c) g = Inr v"
    using ok by (auto simp: ledger_ok_def get_invoice_def require_invoice_def)
  show "lg_recorded g = map (\<lambda>p. (py_invoice_id p, py_amount p, py_method p, py_reference p)) (lg_payments g)"
    using ok by (simp add: ledger_ok_def)
qed

definition demo_ledger :: ledger where
  "demo_ledger = snd (create_invoice ''inv'' 0 ''firm'' ''client'' None empty_ledger)"

lemma demo_ledger_reachable: "ledger_reachable demo_ledger"
  unfolding demo_ledger_def
  by (rule ledger_moved [OF ledger_opened], rule invoice_created [of _ "''inv''", OF _ surjective_pairing])
     (simp add: empty_ledger_def)

definition demo_invoice :: invoice where
  "demo_invoice = \<lparr>iv_id = ''inv'', iv_firm_id = ''firm'', iv_client_id = ''client'', iv_case_id = None,
     iv_quote_id = None, iv_status = IS_DRAFT, iv_line_items = [], iv_global_discount_percent = Fin 0,
     iv_currency = ''EUR'', iv_issued_at = None, iv_due_at = None, iv_credit_note_ids = {}, iv_payment_ids = {},
     iv_created_at = Some 0\<rparr>"

lemma demo_ledger_invoices:
  "lg_invoices demo_ledger = [(''inv'', demo_invoice)]" "lg_payments demo_ledger = []" "lg_credit_notes demo_ledger = []"
  by (simp_all add: demo_ledger_def demo_invoice_def empty_ledger_def create_invoice_def invoice_store_save_def Let_def)

text \<open>The invoice of the demonstration ledger, paid and credited.\<close>

theorem ledger_consistent_witness:
  "\<exists>g v p c. ledger_reachable g \<and> get_invoice ''inv'' g = Inr v \<and> lg_payments g = [p] \<and> lg_credit_notes g = [c] \<and>
     iv_payment_ids v = {''p1''} \<and> iv_credit_note_ids v = {''c1''} \<and> py_firm_id p = iv_firm_id v \<and> cn_firm_id c = iv_firm_id v"
proof -
  obtain p g1 where pay: "record_payment ''p1'' 1 1 ''inv'' (Fin 10) PM_CARD [] demo_ledger = Inr (p, g1)"
    by (fastforce simp: record_payment_def require_invoice_def demo_ledger_invoices total_due_def demo_invoice_def
        invoice_store_save_def Let_def)
  have "ledger_reachable g1" by (rule ledger_moved [OF demo_ledger_reachable invoice_paid [OF pay]])
  have p: "py_id p = ''p1''" "py_invoice_id p = ''inv''" and g1: "lg_payments g1 = [p]" "lg_credit_notes g1 = []"
    by (rule record_payment_cases [OF pay]; simp add: demo_ledger_invoices payment_store_save_def)+
  obtain v1 where v1: "dict_get (lg_invoices g1) ''inv'' = Some v1"
    using ledger_reachable_ok [OF \<open>ledger_reachable g1\<close>] g1 p by (auto simp: ledger_ok_def)
  obtain c g2 where credit: "issue_credit_note ''c1'' 2 ''inv'' (Fin 3) ''r'' g1 = Inr (c, g2)"
    and c: "cn_id c = ''c1''" "cn_invoice_id c = ''inv''" and g2: "lg_payments g2 = [p]" "lg_credit_notes g2 = [c]"
    using g1 v1 by (auto simp: issue_credit_note_def require_invoice_def credit_note_store_save_def Let_def)
  from \<open>ledger_reachable g1\<close> have reach: "ledger_reachable g2" by (rule ledger_moved [OF _ invoice_credited [OF credit]])
  note consistent = ledger_consistent [OF reach]
  obtain v where v: "get_invoice ''inv'' g2 = Inr v" using consistent g2 p by auto
  have "iv_payment_ids v = py_id ` {p}" "iv_credit_note_ids v = cn_id ` {c}" "py_firm_id p = iv_firm_id v" "cn_firm_id c = iv_firm_id v"
    using conjunct1 [OF consistent, rule_format, OF v] p c unfolding g2 by (auto simp: Collect_conv_if)
  then show ?thesis using reach v g2 p c by auto
qed

text \<open>What is due on an invoice depends on its lines, its discount and the two logs only.\<close>

lemma total_due_eq:
  "dict_get (lg_invoices g) i = Some v \<Longrightarrow> total_due i g = Inr (flt_sub (flt_sub
     (document_total (iv_line_items v) (iv_global_discount_percent v))
     (flt_sum (map cn_amount (credit_notes_for_invoice (lg_credit_notes g) i))))
     (flt_sum (map py_amount (payments_for_invoice (lg_payments g) i))))"
  by (simp add: total_due_def require_invoice_def Let_def)

text \<open>
  Recording a payment counts it exactly once: the balance afterwards is what was billed less
  the credits less the earlier payments plus this one, the invoice is paid exactly when that
  balance is not positive and partially paid otherwise, and no other invoice, no other balance and
  no quote changes.
\<close>
theorem payment_settles_exactly:
  assumes ok: "ledger_ok g" and run: "record_payment i t t' invoice_id amount meth reference g = Inr (p, g')"
  shows "\<exists>v v' balance. get_invoice invoice_id g = Inr v \<and> get_invoice invoice_id g' = Inr v' \<and>
     total_due invoice_id g' = Inr balance \<and>
     balance = flt_sub (flt_sub (document_total (iv_line_items v) (iv_global_discount_percent v))
         (flt_sum (map cn_amount (credit_notes_for_invoice (lg_credit_notes g) invoice_id))))
         (flt_add (flt_sum (map py_amount (payments_for_invoice (lg_payments g) invoice_id))) amount) \<and>
     iv_status v' = (if flt_le balance (Fin 0) then IS_PAID else IS_PARTIALLY_PAID) \<and>
     iv_line_items v' = iv_line_items v \<and> lg_quotes g' = lg_quotes g \<and>
     (\<forall>j. j \<noteq> invoice_id \<longrightarrow> get_invoice j g' = get_invoice j g \<and> total_due j g' = total_due j g)"
proof -
  obtain v remaining where v: "dict_get (lg_invoices g) invoice_id = Some v"
    and p: "p = \<lparr>py_id = i, py_firm_id = iv_firm_id v, py_invoice_id = invoice_id, py_amount = amount,
              py_method = meth, py_reference = reference, py_paid_at = Some t, py_created_at = Some t'\<rparr>"
    and g': "g' = save_invoice
          (v\<lparr>iv_payment_ids := insert i (iv_payment_ids v),
             iv_status := if flt_le remaining (Fin 0) then IS_PAID else IS_PARTIALLY_PAID\<rparr>)
          (g\<lparr>lg_payments := payment_store_save p (lg_payments g),
             lg_recorded := lg_recorded g @ [(invoice_id, amount, meth, reference)]\<rparr>)"
    and remaining: "total_due invoice_id (save_invoice (v\<lparr>iv_payment_ids := insert i (iv_payment_ids v)\<rparr>)
           (g\<lparr>lg_payments := payment_store_save p (lg_payments g),
              lg_recorded := lg_recorded g @ [(invoice_id, amount, meth, reference)]\<rparr>)) = Inr remaining"
    by (rule record_payment_cases [OF run])
  let ?v = "v\<lparr>iv_payment_ids := insert i (iv_payment_ids v),
      iv_status := if flt_le remaining (Fin 0) then IS_PAID else IS_PARTIALLY_PAID\<rparr>"
  have id: "iv_id v = invoice_id" using ledger_invoice [OF ok v] by simp
  then have get: "dict_get (lg_invoices g') j = (if j = invoice_id then Some ?v else dict_get (lg_invoices g) j)" for j
    by (simp add: g' invoice_rows.get_put)
  have paid: "payments_for_invoice (lg_payments g') j =
      payments_for_invoice (lg_payments g) j @ (if j = invoice_id then [p] else [])" for j
    by (simp add: g' payment_log.rows_append p)
  have credit: "lg_credit_notes g' = lg_credit_notes g" by (simp add: g')
  have rest: "get_invoice j g' = get_invoice j g \<and> total_due j g' = total_due j g" if "j \<noteq> invoice_id" for j
    using that by (simp add: get_invoice_def require_invoice_def total_due_def get paid credit split: option.split)
  have due: "total_due invoice_id g' = Inr remaining"
    using remaining total_due_eq [of g' invoice_id ?v] id
    by (simp add: get paid credit total_due_eq invoice_rows.get_put payment_log.rows_append p)
  have amount: "py_amount p = amount" by (simp add: p)
  have balance: "remaining = flt_sub (flt_sub (document_total (iv_line_items v) (iv_global_discount_percent v))
         (flt_sum (map cn_amount (credit_notes_for_invoice (lg_credit_notes g) invoice_id))))
         (flt_add (flt_sum (map py_amount (payments_for_invoice (lg_payments g) invoice_id))) amount)"
    using due total_due_eq [of g' invoice_id ?v] by (simp add: get paid credit flt_sum_snoc amount)
  have before: "get_invoice invoice_id g = Inr v" and after: "get_invoice invoice_id g' = Inr ?v"
    using v by (simp_all add: get_invoice_def require_invoice_def get)
  have quotes: "lg_quotes g' = lg_quotes g" by (simp add: g')
  show ?thesis
    by (intro exI [of _ v] exI [of _ ?v] exI [of _ remaining] conjI before after due balance quotes)
       (use rest in simp_all)
qed

theorem payment_settles_exactly_witness:
  "\<exists>p g' v. record_payment ''p1'' 1 1 ''inv'' (Fin 10) PM_CARD [] demo_ledger = Inr (p, g') \<and>
     get_invoice ''inv'' g' = Inr v \<and> iv_line_items v = []"
proof -
  obtain p g' where run: "record_payment ''p1'' 1 1 ''inv'' (Fin 10) PM_CARD [] demo_ledger = Inr (p, g')"
    by (fastforce simp: record_payment_def require_invoice_def demo_ledger_invoices total_due_def demo_invoice_def
        invoice_store_save_def Let_def)
  have "get_invoice ''inv'' demo_ledger = Inr demo_invoice"
    by (simp add: get_invoice_def require_invoice_def demo_ledger_invoices)
  then show ?thesis
    using payment_settles_exactly [OF ledger_reachable_ok [OF demo_ledger_reachable] run] run
    by (auto simp: demo_invoice_def)
qed

text \<open>
  Only an accepted quote is invoiced: converting it under a fresh identifier issues one sent
  invoice for the quote's client and case with the quote's lines, discount and currency, due in
  thirty days unless another date is given, exported once to accounting, owing the quote's total;
  any other quote raises. Nothing marks the quote as invoiced: converting it again issues it again.
\<close>
theorem accepted_quote_invoiced:
  assumes ok: "ledger_ok g" and q: "dict_get (lg_quotes g) quote_id = Some q"
    and fresh: "dict_get (lg_invoices g) i = None"
  shows "if qt_status q = QS_ACCEPTED
     then \<exists>v g'. convert_quote_to_invoice i t t' quote_id due_at g = Inr (v, g') \<and> get_invoice i g' = Inr v \<and>
       iv_status v = IS_SENT \<and> iv_quote_id v = Some quote_id \<and> iv_firm_id v = qt_firm_id q \<and>
       iv_client_id v = qt_client_id q \<and> iv_case_id v = qt_case_id q \<and> iv_line_items v = qt_line_items q \<and>
       iv_due_at v = Some (case due_at of None \<Rightarrow> t' + days 30 | Some d \<Rightarrow> d) \<and>
       lg_exported g' = lg_exported g @ [i] \<and>
       total_due i g' = Inr (flt_sub (flt_sub
         (document_total (qt_line_items q) (qt_global_discount_percent q)) (Fin 0)) (Fin 0)) \<and>
       (\<forall>j u u'. dict_get (lg_invoices g') j = None \<longrightarrow>
          (\<exists>again. convert_quote_to_invoice j u u' quote_id due_at g' = Inr again))
     else \<exists>message. convert_quote_to_invoice i t t' quote_id due_at g = Inl (ValueError message)"
proof (cases "qt_status q = QS_ACCEPTED")
  case True
  have id: "qt_id q = quote_id" using ok quote_rows.get_key [OF _ q] by (simp add: ledger_ok_def)
  have none: "payments_for_invoice (lg_payments g) i = []" "credit_notes_for_invoice (lg_credit_notes g) i = []"
    using ok fresh by (auto simp: ledger_ok_def payments_for_invoice_def credit_notes_for_invoice_def filter_empty_conv)
  show ?thesis
    using True q id none
    by (auto simp: convert_quote_to_invoice_def require_quote_def issue_invoice_def require_invoice_def get_invoice_def
        total_due_def invoice_store_save_def update_conv' flt_sum_def Let_def)
next
  case False
  then show ?thesis using q by (simp add: convert_quote_to_invoice_def require_quote_def)
qed

definition demo_quote_ledger :: ledger where
  "demo_quote_ledger = snd (create_quote ''q'' 0 ''firm'' ''client'' None demo_ledger)"

theorem accepted_quote_invoiced_witness:
  "\<exists>message. convert_quote_to_invoice ''i2'' 1 2 ''q'' None demo_quote_ledger = Inl (ValueError message)"
proof -
  have "ledger_ok demo_quote_ledger"
    unfolding demo_quote_ledger_def
    by (rule ledger_trans_ok [OF _ ledger_reachable_ok [OF demo_ledger_reachable]], rule quote_created, rule surjective_pairing)
  moreover have "dict_get (lg_invoices demo_quote_ledger) ''i2'' = None"
    by (simp add: demo_quote_ledger_def create_quote_def demo_ledger_invoices Let_def)
  moreover have "dict_get (lg_quotes demo_quote_ledger) ''q'' = Some (fst (create_quote ''q'' 0 ''firm'' ''client'' None demo_ledger))"
    by (simp add: demo_quote_ledger_def create_quote_def quote_store_save_def update_conv' Let_def)
  ultimately show ?thesis
    using accepted_quote_invoiced [of demo_quote_ledger "''q''" _ "''i2''" 1 2 None]
    by (simp add: create_quote_def Let_def)
qed

text \<open>The invoice of a subscription, once the plan is found and the identifier is fresh.\<close>

definition subscription_item :: "(nat \<Rightarrow> pystr) \<Rightarrow> pyfloat \<Rightarrow> subscription \<Rightarrow> plan \<Rightarrow> line_item" where
  "subscription_item ids discount_percent sub p =
     \<lparr>li_id = ids 1,
      li_description = ''Abonnement '' @ plan_name_value (pl_name p) @ '' ('' @
        billing_cycle_value (sb_billing_cycle sub) @ '')'',
      li_quantity = Fin 1,
      li_unit_price = pq_final_amount (price_for p (sb_billing_cycle sub) discount_percent),
      li_fee_type = FT_FLAT_FEE, li_discount_percent = Fin 0\<rparr>"

definition subscription_invoice ::
  "(nat \<Rightarrow> pystr) \<Rightarrow> (nat \<Rightarrow> datetime) \<Rightarrow> pyfloat \<Rightarrow> pystr \<Rightarrow> subscription \<Rightarrow> plan \<Rightarrow> invoice" where
  "subscription_invoice ids clock discount_percent firm sub p =
     \<lparr>iv_id = ids 0, iv_firm_id = firm, iv_client_id = firm, iv_case_id = None, iv_quote_id = None,
      iv_status = IS_SENT, iv_line_items = [subscription_item ids discount_percent sub p],
      iv_global_discount_percent = Fin 0, iv_currency = ''EUR'', iv_issued_at = Some (clock 2),
      iv_due_at = Some (clock 2 + days 30), iv_credit_note_ids = {}, iv_payment_ids = {},
      iv_created_at = Some (clock 1)\<rparr>"

lemma invoice_for_subscription_run:
  assumes "require_subscription firm subs = Inr sub" and "get_plan (sb_plan_id sub) plans = Inr p"
    and "dict_get (lg_invoices g) (ids 0) = None"
  shows "invoice_for_subscription ids clock discount firm plans subs g =
     Inr (subscription_invoice ids clock discount firm sub p,
          g\<lparr>lg_invoices := lg_invoices g @ [(ids 0, subscription_invoice ids clock discount firm sub p)],
            lg_exported := lg_exported g @ [ids 0]\<rparr>)"
  using assms
  by (simp add: invoice_for_subscription_def create_invoice_def add_invoice_line_def issue_invoice_def
      require_invoice_def invoice_store_save_def dict_set_fresh dict_set_last map_add_def
      subscription_invoice_def subscription_item_def Let_def)

text \<open>
  C31. A billing cycle bills exactly what is due, once. Exactly when the firm's subscription is active
  and the end of its period has come by the time of the run, it issues one invoice to the firm with
  one line, the plan's annual or monthly price less the discount, and rolls the period forward 365
  or 30 days from the moment of the run, so that no further run bills the firm before that new
  period ends; in any other case it changes nothing. The invoice is in euros whatever the price is in.
\<close>
theorem billing_cycle_bills_once:
  assumes reach: "commerce_reachable plans subs" and sub: "require_subscription firm subs = Inr sub"
    and fresh: "dict_get (lg_invoices g) (ids 0) = None"
    and rolled: "rolled = clock 3 + (if sb_billing_cycle sub = BC_ANNUAL then days 365 else days 30)"
  shows "if sb_status sub = SS_ACTIVE \<and> (\<exists>t. sb_current_period_end sub = Some t \<and> t \<le> clock 0)
     then \<exists>p v subs' g' item q. get_plan (sb_plan_id sub) plans = Inr p \<and>
       run_billing_cycle ids clock discount firm plans subs g = Inr (Some v, subs', g') \<and>
       lg_invoices g' = lg_invoices g @ [(ids 0, v)] \<and> iv_status v = IS_SENT \<and> iv_firm_id v = firm \<and> iv_client_id v = firm \<and>
       iv_line_items v = [item] \<and> li_quantity item = Fin 1 \<and> li_discount_percent item = Fin 0 \<and>
       iv_global_discount_percent v = Fin 0 \<and> iv_currency v = ''EUR'' \<and>
       flt_div discount (Fin 100) = Inr q \<and>
       li_unit_price item =
         flt_mul (if sb_billing_cycle sub = BC_ANNUAL then pl_annual_price_usd p else pl_monthly_price_usd p) (flt_sub (Fin 1) q) \<and>
       dict_get subs' firm = Some (sub\<lparr>sb_current_period_end := Some rolled\<rparr>) \<and>
       (\<forall>other. other \<noteq> firm \<longrightarrow> dict_get subs' other = dict_get subs other) \<and>
       (\<forall>ids' clock' discount' plans' g''. clock' 0 < rolled \<longrightarrow>
          run_billing_cycle ids' clock' discount' firm plans' subs' g'' = Inr (None, subs', g''))
     else run_billing_cycle ids clock discount firm plans subs g = Inr (None, subs, g)"
proof (cases "sb_status sub = SS_ACTIVE \<and> (\<exists>t. sb_current_period_end sub = Some t \<and> t \<le> clock 0)")
  case True
  have get: "dict_get subs firm = Some sub"
    using sub by (simp add: require_subscription_def split: option.splits)
  note inv = commerce_invariant [OF reach]
  then have key: "sb_firm_id sub = firm" using keyed_get [of sb_firm_id subs firm sub] get by simp
  have "subscription_ok plans sub" using inv get by blast
  then obtain p where p: "get_plan (sb_plan_id sub) plans = Inr p"
    by (auto simp: subscription_ok_def get_plan_def)
  have is_due: "billing_is_due (clock 0) firm subs = Inr True" using True sub by (auto simp: billing_is_due_def)
  let ?sub = "sub\<lparr>sb_current_period_end := Some rolled\<rparr>"
  let ?subs = "dict_set firm ?sub subs"
  let ?v = "subscription_invoice ids clock discount firm sub p"
  let ?item = "subscription_item ids discount sub p"
  have advance: "advance_period (clock 3) firm subs = Inr (?sub, ?subs)"
    using sub key by (simp add: advance_period_def modify_subscription_def subscription_store_save_def
        period_end_for_cycle_def rolled)
  have run: "run_billing_cycle ids clock discount firm plans subs g = Inr (Some ?v, ?subs,
      g\<lparr>lg_invoices := lg_invoices g @ [(ids 0, ?v)], lg_exported := lg_exported g @ [ids 0]\<rparr>)"
    using is_due invoice_for_subscription_run [of firm subs sub plans p g ids, OF sub p fresh] advance by (simp add: run_billing_cycle_def)
  have again: "run_billing_cycle ids' clock' discount' firm plans' ?subs g'' = Inr (None, ?subs, g'')"
    if "clock' 0 < rolled" for ids' clock' discount' plans' g''
    using that True by (simp add: run_billing_cycle_def billing_is_due_def require_subscription_def update_conv')
  obtain q where q: "flt_div discount (Fin 100) = Inr q" by (cases discount) (auto simp: flt_div_def)
  have "li_unit_price ?item =
      flt_mul (if sb_billing_cycle sub = BC_ANNUAL then pl_annual_price_usd p else pl_monthly_price_usd p) (flt_sub (Fin 1) q)"
    by (simp add: subscription_item_def price_for_def discounted_def q Let_def)
  then show ?thesis
    unfolding if_P [OF True] using p run q again
    by (intro exI [of _ p] exI [of _ ?v] exI [of _ ?subs] exI [of _ ?item] exI [of _ q]
        exI [of _ "g\<lparr>lg_invoices := lg_invoices g @ [(ids 0, ?v)], lg_exported := lg_exported g @ [ids 0]\<rparr>"] conjI)
      (simp_all add: subscription_invoice_def subscription_item_def update_conv')
next
  case False
  then have "billing_is_due (clock 0) firm subs = Inr False"
    using sub by (auto simp: billing_is_due_def split: option.splits)
  then show ?thesis unfolding if_not_P [OF False] by (simp add: run_billing_cycle_def)
qed

definition demo_subscription :: subscription where
  "demo_subscription = \<lparr>sb_id = ''sub-1'', sb_firm_id = ''firm'', sb_plan_id = ''plan-basic-v1'',
     sb_billing_cycle = BC_MONTHLY, sb_status = SS_ACTIVE, sb_started_at = 5, sb_trial_ends_at = Some (5 + days 14),
     sb_current_period_end = Some (9 + days 30), sb_cancelled_at = None\<rparr>"

lemma demo_subscription_reachable: "commerce_reachable demo_catalog [(''firm'', demo_subscription)]"
proof -
  have "commerce_reachable demo_catalog []"
    unfolding demo_catalog_def by (intro catalog_changed nothing_sold)
  note trial = subscription_changed [OF this demo_trial]
  show ?thesis
    by (rule subscription_changed [OF trial, of "''firm''" "Activate 9 BC_MONTHLY"])
       (simp add: activate_subscription_def modify_subscription_def require_subscription_def
          subscription_store_save_def period_end_for_cycle_def demo_subscription_def)
qed

theorem billing_cycle_bills_once_witness:
  "\<exists>v subs' g'. run_billing_cycle (\<lambda>n. replicate n CHR ''i'') (\<lambda>_. 10 + days 30) (Fin 0) ''firm'' demo_catalog
     [(''firm'', demo_subscription)] empty_ledger = Inr (Some v, subs', g') \<and> iv_firm_id v = ''firm''"
proof -
  have sub: "require_subscription ''firm'' [(''firm'', demo_subscription)] = Inr demo_subscription"
    by (simp add: require_subscription_def)
  have due: "sb_status demo_subscription = SS_ACTIVE \<and>
      (\<exists>t. sb_current_period_end demo_subscription = Some t \<and> t \<le> 10 + days 30)"
    by (simp add: demo_subscription_def)
  note bills = billing_cycle_bills_once [OF demo_subscription_reachable sub, of empty_ledger "\<lambda>n. replicate n CHR ''i''" _
      "\<lambda>_. 10 + days 30" "Fin 0", OF _ refl, unfolded if_P [OF due]]
  have "dict_get (lg_invoices empty_ledger) (replicate 0 CHR ''i'') = None" by (simp add: empty_ledger_def)
  from bills [OF this] show ?thesis by (elim exE conjE) (intro exI conjI)
qed

end
