(* ===== verification/Licences.thy ===== *)
theory Licences
  imports PyText
begin

text \<open>
  Licence grants: the signed keys of \<^verbatim>\<open>platform/licensing/signing.py\<close> and the grants and
  floating pools of \<^verbatim>\<open>business_platform/licenses\<close>. \<open>hmac.new(secret, ..., sha256).hexdigest()\<close> is
  the argument \<open>mac\<close> (a function of the payload; the secret is fixed per signer); base64 and
  UTF-8 are modelled on Latin-1 text. Within one operation the clock does not move.
\<close>

section \<open>UTF-8 and base64\<close>

text \<open>Bytes are naturals below 256. Every character of a \<open>pystr\<close> takes one or two bytes.\<close>

fun utf8_encode :: "pystr \<Rightarrow> nat list" where
  "utf8_encode [] = []"
| "utf8_encode (c # cs) =
     (if code c < 128 then code c # utf8_encode cs
      else (192 + code c div 64) # (128 + code c mod 64) # utf8_encode cs)"

fun utf8_decode :: "nat list \<Rightarrow> pystr option" where
  "utf8_decode [] = Some []"
| "utf8_decode (b # bs) =
     (if b < 128 then map_option (Cons (char_of b)) (utf8_decode bs)
      else (case bs of
              [] \<Rightarrow> None
            | b' # bs' \<Rightarrow>
                if b \<in> {194, 195} \<and> 128 \<le> b' \<and> b' < 192
                then map_option (Cons (char_of ((b - 192) * 64 + (b' - 128)))) (utf8_decode bs')
                else None))"

text \<open>The URL-safe alphabet, and its values; decoding also accepts the plain \<open>+\<close> and \<open>/\<close>.\<close>

definition b64_char :: "nat \<Rightarrow> char" where
  "b64_char d =
     (if d < 26 then char_of (65 + d) else if d < 52 then char_of (97 + (d - 26))
      else if d < 62 then char_of (48 + (d - 52)) else if d = 62 then CHR ''-'' else CHR ''_'')"

definition b64_value :: "char \<Rightarrow> nat option" where
  "b64_value c =
     (let n = code c
      in if 65 \<le> n \<and> n \<le> 90 then Some (n - 65) else if 97 \<le> n \<and> n \<le> 122 then Some (n - 97 + 26)
         else if 48 \<le> n \<and> n \<le> 57 then Some (n - 48 + 52)
         else if c = CHR ''-'' \<or> c = CHR ''+'' then Some 62
         else if c = CHR ''_'' \<or> c = CHR ''/'' then Some 63 else None)"

fun b64_encode :: "nat list \<Rightarrow> pystr" where
  "b64_encode [] = []"
| "b64_encode [a] = [b64_char (a div 4), b64_char (a mod 4 * 16), CHR ''='', CHR ''='']"
| "b64_encode [a, b] =
     [b64_char (a div 4), b64_char (a mod 4 * 16 + b div 16), b64_char (b mod 16 * 4), CHR ''='']"
| "b64_encode (a # b # c # bs) =
     b64_char (a div 4) # b64_char (a mod 4 * 16 + b div 16) # b64_char (b mod 16 * 4 + c div 64) #
     b64_char (c mod 64) # b64_encode bs"

text \<open>
  \<open>binascii.a2b_base64\<close> in its lenient mode: \<open>q\<close> is the position in the group of four, \<open>l\<close> the bits
  left over and \<open>p\<close> the padding seen since the last data character; characters outside the
  alphabet are skipped, a complete padding ends the data, and an incomplete group is an error.
\<close>

fun b64_scan :: "nat \<Rightarrow> nat \<Rightarrow> nat \<Rightarrow> pystr \<Rightarrow> nat list option" where
  "b64_scan q l p [] = (if q = 0 then Some [] else None)"
| "b64_scan q l p (c # cs) =
     (if c = CHR ''='' then
        (if 2 \<le> q then (if 4 \<le> q + Suc p then Some [] else b64_scan q l (Suc p) cs)
         else b64_scan q l p cs)
      else case b64_value c of
        None \<Rightarrow> b64_scan q l p cs
      | Some v \<Rightarrow>
          (if q = 0 then b64_scan 1 v 0 cs
           else if q = 1 then map_option (Cons (l * 4 + v div 16)) (b64_scan 2 (v mod 16) 0 cs)
           else if q = 2 then map_option (Cons (l * 16 + v div 4)) (b64_scan 3 (v mod 4) 0 cs)
           else map_option (Cons (l * 64 + v)) (b64_scan 0 0 0 cs)))"

lemma char_of_code [simp]: "char_of (code c) = c"
  by (simp add: code_def)

lemma code_less [simp]: "code c < 256"
  by (simp add: code_def)

lemma code_char_of [simp]: "n < 256 \<Longrightarrow> code (char_of n) = n"
  by (simp add: code_def of_char_of)

lemma utf8_bytes: "b \<in> set (utf8_encode s) \<Longrightarrow> b < 256"
proof (induction s)
  case (Cons c s)
  have "192 + code c div 64 < 256" using code_less [of c] by linarith
  moreover have "128 + code c mod 64 < 256" by simp
  ultimately show ?case using Cons code_less [of c] by (auto split: if_splits)
qed simp

lemma utf8_roundtrip: "utf8_decode (utf8_encode s) = Some s"
proof (induction s)
  case (Cons c s)
  have "192 + code c div 64 \<in> {194, 195}" if "\<not> code c < 128"
  proof -
    have "2 \<le> code c div 64" "code c div 64 < 4" using that code_less [of c] by (simp_all add: less_eq_div_iff_mult_less_eq div_less_iff_less_mult)
    then show ?thesis by auto
  qed
  with Cons show ?case by auto
qed simp

lemma b64_code:
  "d < 64 \<Longrightarrow> code (b64_char d) =
     (if d < 26 then 65 + d else if d < 52 then 71 + d else if d < 62 then d - 4 else if d = 62 then 45 else 95)"
  by (auto simp: b64_char_def) (simp_all add: code_def)

lemma b64_value_other: "b64_value CHR ''='' = None" "b64_value CHR ''.'' = None"
  by (simp_all add: b64_value_def code_def)

lemma b64_digit:
  assumes "d < 64"
  shows "b64_value (b64_char d) = Some d" and "b64_char d \<noteq> CHR ''=''" and "b64_char d \<noteq> CHR ''.''"
    and "code (b64_char d) < 128"
proof -
  show v: "b64_value (b64_char d) = Some d"
  proof (cases "d < 62")
    case True
    with assms show ?thesis by (auto simp: b64_value_def b64_code Let_def)
  next
    case False
    then have "d = 62 \<or> d = 63" using assms by auto
    moreover have "b64_char 62 = CHR ''-''" "b64_char 63 = CHR ''_''" by (simp_all add: b64_char_def)
    moreover have "b64_value CHR ''-'' = Some 62" "b64_value CHR ''_'' = Some 63"
      by (simp_all add: b64_value_def code_def)
    ultimately show ?thesis by auto
  qed
  show "b64_char d \<noteq> CHR ''=''" "b64_char d \<noteq> CHR ''.''"
    using v b64_value_other by auto
  show "code (b64_char d) < 128" using assms by (auto simp: b64_code)
qed

lemma b64_scan_digit:
  "d < 64 \<Longrightarrow> b64_scan q l p (b64_char d # cs) =
     (if q = 0 then b64_scan 1 d 0 cs
      else if q = 1 then map_option (Cons (l * 4 + d div 16)) (b64_scan 2 (d mod 16) 0 cs)
      else if q = 2 then map_option (Cons (l * 16 + d div 4)) (b64_scan 3 (d mod 4) 0 cs)
      else map_option (Cons (l * 64 + d)) (b64_scan 0 0 0 cs))"
  by (simp add: b64_digit)

lemma b64_roundtrip: "\<forall>b \<in> set bs. b < 256 \<Longrightarrow> b64_scan 0 0 0 (b64_encode bs) = Some bs"
proof (induction bs rule: b64_encode.induct)
  case (2 a)
  then have "a div 4 < 64" "a mod 4 * 16 < 64" "a div 4 * 4 + a mod 4 * 16 div 16 = a" by auto
  then show ?case by (simp add: b64_scan_digit del: b64_scan.simps) simp
next
  case (3 a b)
  have bits: "(a mod 4 * 16 + b div 16) div 16 = a mod 4" "(a mod 4 * 16 + b div 16) mod 16 = b div 16"
    "a mod 4 * 16 + b div 16 < 64" using 3 by auto
  have "a div 4 < 64" "b mod 16 * 4 < 64" "a div 4 * 4 + a mod 4 = a" "b div 16 * 16 + b mod 16 * 4 div 4 = b"
    using 3 by auto
  then show ?case using bits by (simp add: b64_scan_digit del: b64_scan.simps) simp
next
  case (4 a b c bs)
  have bits: "(a mod 4 * 16 + b div 16) div 16 = a mod 4" "(a mod 4 * 16 + b div 16) mod 16 = b div 16"
    "a mod 4 * 16 + b div 16 < 64" "(b mod 16 * 4 + c div 64) div 4 = b mod 16"
    "(b mod 16 * 4 + c div 64) mod 4 = c div 64" "b mod 16 * 4 + c div 64 < 64"
    using 4 by auto
  have "a div 4 < 64" "c mod 64 < 64" "a div 4 * 4 + a mod 4 = a" "b div 16 * 16 + b mod 16 = b"
    "c div 64 * 64 + c mod 64 = c"
    using 4 by auto
  moreover have "b64_scan 0 0 0 (b64_encode bs) = Some bs" using 4 by simp
  ultimately show ?case using bits by (simp add: b64_scan_digit del: b64_scan.simps)
qed simp

section \<open>Signed keys\<close>

definition sign_payload :: "(pystr \<Rightarrow> pystr) \<Rightarrow> pystr \<Rightarrow> pystr" where
  "sign_payload mac payload =
     (let payload_b64 = b64_encode (utf8_encode payload) in payload_b64 @ ''.'' @ mac payload_b64)"

text \<open>\<open>hmac.compare_digest\<close> of two \<open>str\<close> raises unless both are ASCII.\<close>

definition is_ascii :: "pystr \<Rightarrow> bool" where
  "is_ascii s \<longleftrightarrow> (\<forall>c \<in> set s. code c < 128)"

definition compare_digest :: "pystr \<Rightarrow> pystr \<Rightarrow> bool result" where
  "compare_digest a b =
     (if is_ascii a \<and> is_ascii b then Inr (a = b)
      else Inl (TypeError ''comparing strings with non-ASCII characters is not supported''))"

text \<open>\<open>key.split('.', 1)\<close>: what precedes and what follows the first dot, if there is one.\<close>

fun split_dot :: "pystr \<Rightarrow> (pystr \<times> pystr) option" where
  "split_dot [] = None"
| "split_dot (c # cs) =
     (if c = CHR ''.'' then Some ([], cs) else map_option (\<lambda>(a, b). (c # a, b)) (split_dot cs))"

definition verify_key :: "(pystr \<Rightarrow> pystr) \<Rightarrow> pystr \<Rightarrow> pystr option result" where
  "verify_key mac key =
     (case split_dot key of
        None \<Rightarrow> Inr None
      | Some (payload_b64, signature) \<Rightarrow>
          res_bind (compare_digest signature (mac payload_b64)) (\<lambda>same.
            if \<not> same then Inr None
            else Inr (case b64_scan 0 0 0 (map char_of (utf8_encode payload_b64)) of
                        None \<Rightarrow> None | Some bs \<Rightarrow> utf8_decode bs)))"

lemma split_dot_append: "CHR ''.'' \<notin> set a \<Longrightarrow> split_dot (a @ CHR ''.'' # b) = Some (a, b)"
  by (induction a) auto

lemma split_dot_Some: "split_dot s = Some (a, b) \<Longrightarrow> s = a @ CHR ''.'' # b"
  by (induction s arbitrary: a) (auto split: if_splits)

lemma b64_encode_chars:
  "\<forall>b \<in> set bs. b < 256 \<Longrightarrow> c \<in> set (b64_encode bs) \<Longrightarrow> c \<noteq> CHR ''.'' \<and> code c < 128"
proof (induction bs rule: b64_encode.induct)
  case (2 a)
  then have "a div 4 < 64" "a mod 4 * 16 < 64" by auto
  then show ?case using 2 by (auto simp: b64_digit) (auto simp: code_def)
next
  case (3 a b)
  then have "a div 4 < 64" "a mod 4 * 16 + b div 16 < 64" "b mod 16 * 4 < 64" by auto
  then show ?case using 3 by (auto simp: b64_digit) (auto simp: code_def)
next
  case (4 a b c' bs)
  then have "a div 4 < 64" "a mod 4 * 16 + b div 16 < 64" "b mod 16 * 4 + c' div 64 < 64" "c' mod 64 < 64" by auto
  then show ?case using 4 by (auto simp: b64_digit)
qed simp

lemma utf8_ascii: "is_ascii s \<Longrightarrow> map char_of (utf8_encode s) = s"
  by (induction s) (auto simp: is_ascii_def)

lemma payload_b64_facts:
  "CHR ''.'' \<notin> set (b64_encode (utf8_encode s))" "is_ascii (b64_encode (utf8_encode s))"
  using b64_encode_chars [of "utf8_encode s"] utf8_bytes [of _ s] by (auto simp: is_ascii_def)

lemma verify_sign:
  assumes "\<forall>s. is_ascii (mac s)"
  shows "verify_key mac (sign_payload mac payload) = Inr (Some payload)"
  using assms payload_b64_facts [of payload] b64_roundtrip [of "utf8_encode payload"] utf8_bytes [of _ payload]
  by (simp add: verify_key_def sign_payload_def split_dot_append compare_digest_def utf8_ascii utf8_roundtrip Let_def)

text \<open>
  C32. Keys are tamper-evident: a key the signer made verifies to exactly the text it was made of
  (the digest being ASCII, as a hex digest is), and conversely whatever verifies carries the
  signer's own digest of its first part and decodes from it; so a key with another digest, or
  without a dot, is rejected. A key whose signature is not ASCII is not rejected but raises.
\<close>
theorem keys_tamper_evident:
  assumes ascii: "\<forall>s. is_ascii (mac s)"
  shows "verify_key mac (sign_payload mac payload) = Inr (Some payload) \<and>
     (\<forall>key payload. verify_key mac key = Inr (Some payload) \<longrightarrow>
        (\<exists>body bs. key = body @ ''.'' @ mac body \<and>
           b64_scan 0 0 0 (map char_of (utf8_encode body)) = Some bs \<and> utf8_decode bs = Some payload)) \<and>
     (\<forall>body signature. CHR ''.'' \<notin> set body \<and> is_ascii signature \<and> signature \<noteq> mac body \<longrightarrow>
        verify_key mac (body @ ''.'' @ signature) = Inr None) \<and>
     (\<forall>body signature. CHR ''.'' \<notin> set body \<and> \<not> is_ascii signature \<longrightarrow>
        (\<exists>message. verify_key mac (body @ ''.'' @ signature) = Inl (TypeError message)))"
proof (intro conjI allI impI)
  show "verify_key mac (sign_payload mac payload) = Inr (Some payload)"
    using ascii by (rule verify_sign)
next
  fix key payload assume v: "verify_key mac key = Inr (Some payload)"
  then obtain body signature where split: "split_dot key = Some (body, signature)"
    by (auto simp: verify_key_def split: option.splits)
  have "signature = mac body"
    using v by (auto simp: verify_key_def split compare_digest_def split: if_splits)
  moreover obtain bs where "b64_scan 0 0 0 (map char_of (utf8_encode body)) = Some bs" "utf8_decode bs = Some payload"
    using v by (auto simp: verify_key_def split compare_digest_def split: if_splits option.splits)
  ultimately show "\<exists>body bs. key = body @ ''.'' @ mac body \<and>
      b64_scan 0 0 0 (map char_of (utf8_encode body)) = Some bs \<and> utf8_decode bs = Some payload"
    using split_dot_Some [OF split] by auto
qed (use ascii in \<open>auto simp: verify_key_def split_dot_append compare_digest_def\<close>)

theorem keys_tamper_evident_witness:
  "verify_key (\<lambda>s. ''00'' @ replicate (length s) CHR ''f'')
     (sign_payload (\<lambda>s. ''00'' @ replicate (length s) CHR ''f'') ''lic-1|firm|guest'') = Inr (Some ''lic-1|firm|guest'')"
proof -
  have "\<forall>s. is_ascii (''00'' @ replicate (length (s::pystr)) CHR ''f'')" by (auto simp: is_ascii_def code_def)
  then show ?thesis using keys_tamper_evident [of "\<lambda>s. ''00'' @ replicate (length s) CHR ''f''"] by blast
qed

section \<open>Grants\<close>

datatype license_type = LT_NOMINATIVE | LT_FLOATING | LT_GUEST | LT_API

fun license_type_value :: "license_type \<Rightarrow> pystr" where
  "license_type_value LT_NOMINATIVE = ''nominative''"
| "license_type_value LT_FLOATING = ''floating''"
| "license_type_value LT_GUEST = ''guest''"
| "license_type_value LT_API = ''api''"

record license_grant =
  lc_id :: pystr
  lc_firm_id :: pystr
  lc_license_type :: license_type
  lc_holder_id :: "pystr option"
  lc_key :: pystr
  lc_granted_at :: datetime
  lc_expires_at :: datetime
  lc_revoked :: bool
  lc_transferred_from :: "pystr option"

definition grant_is_expired :: "datetime \<Rightarrow> license_grant \<Rightarrow> bool" where
  "grant_is_expired now g \<longleftrightarrow> lc_expires_at g < now"

definition grant_is_active :: "datetime \<Rightarrow> license_grant \<Rightarrow> bool" where
  "grant_is_active now g \<longleftrightarrow> \<not> lc_revoked g \<and> \<not> grant_is_expired now g"

definition default_expiry :: "int \<Rightarrow> datetime \<Rightarrow> datetime" where
  "default_expiry n now = now + days n"

definition expiry_in_hours :: "int \<Rightarrow> datetime \<Rightarrow> datetime" where
  "expiry_in_hours n now = now + hours n"

definition grant_key :: "license_grant \<Rightarrow> pystr \<times> pystr" where
  "grant_key g = (lc_firm_id g, lc_id g)"

type_synonym grant_store = "(pystr \<times> pystr, license_grant) dict"

definition grant_store_save :: "license_grant \<Rightarrow> grant_store \<Rightarrow> grant_store" where
  [store_defs]: "grant_store_save g s = dict_set (grant_key g) g s"

definition grants_for_firm :: "grant_store \<Rightarrow> pystr \<Rightarrow> license_grant list" where
  [store_defs]: "grants_for_firm s firm = rows_by_value lc_firm_id s firm"

definition grants_for_holder :: "grant_store \<Rightarrow> pystr \<Rightarrow> pystr \<Rightarrow> license_grant list" where
  "grants_for_holder s firm holder =
     filter (\<lambda>g. lc_firm_id g = firm \<and> lc_holder_id g = Some holder) (dict_values s)"

interpretation grant_rows: tenant_store grant_key grant_store_save dict_get "keyed grant_key" grants_for_firm
  using tenant_store_dict_value [of lc_firm_id grant_key]
  by (simp add: grant_store_save_def [abs_def] grants_for_firm_def [abs_def] grant_key_def)

section \<open>The engine\<close>

record license_desk =
  ld_grants :: grant_store
  ld_pools :: "(pystr, int) dict"

definition empty_desk :: license_desk where
  "empty_desk = \<lparr>ld_grants = [], ld_pools = []\<rparr>"

definition encode_grant :: "pystr \<Rightarrow> pystr \<Rightarrow> license_type \<Rightarrow> pystr" where
  "encode_grant grant_id firm ty = grant_id @ ''|'' @ firm @ ''|'' @ license_type_value ty"

abbreviation save_grant :: "license_grant \<Rightarrow> license_desk \<Rightarrow> license_desk" where
  "save_grant g d \<equiv> d\<lparr>ld_grants := grant_store_save g (ld_grants d)\<rparr>"

definition require_grant :: "pystr \<Rightarrow> pystr \<Rightarrow> license_desk \<Rightarrow> license_grant result" where
  "require_grant firm grant_id d =
     (case dict_get (ld_grants d) (firm, grant_id) of None \<Rightarrow> Inl (KeyError grant_id) | Some g \<Rightarrow> Inr g)"

definition assign_license ::
  "(pystr \<Rightarrow> pystr) \<Rightarrow> pystr \<Rightarrow> datetime \<Rightarrow> pystr \<Rightarrow> license_type \<Rightarrow> pystr \<Rightarrow> int \<Rightarrow> license_desk
     \<Rightarrow> (license_grant \<times> license_desk) result" where
  "assign_license mac new_id now firm ty holder duration_days d =
     (if ty = LT_FLOATING then Inl (ValueError ''use checkout_floating for FLOATING licenses'')
      else (let g = \<lparr>lc_id = new_id, lc_firm_id = firm, lc_license_type = ty, lc_holder_id = Some holder,
                     lc_key = sign_payload mac (encode_grant new_id firm ty), lc_granted_at = now,
                     lc_expires_at = default_expiry duration_days now, lc_revoked = False,
                     lc_transferred_from = None\<rparr>
            in Inr (g, save_grant g d)))"

definition revoke_license :: "pystr \<Rightarrow> pystr \<Rightarrow> license_desk \<Rightarrow> (license_grant \<times> license_desk) result" where
  "revoke_license firm grant_id d =
     res_bind (require_grant firm grant_id d) (\<lambda>g.
       let g' = g\<lparr>lc_revoked := True\<rparr> in Inr (g', save_grant g' d))"

definition transfer_license ::
  "(pystr \<Rightarrow> pystr) \<Rightarrow> pystr \<Rightarrow> datetime \<Rightarrow> pystr \<Rightarrow> pystr \<Rightarrow> pystr \<Rightarrow> license_desk
     \<Rightarrow> (license_grant \<times> license_desk) result" where
  "transfer_license mac new_id now firm grant_id new_holder d =
     res_bind (require_grant firm grant_id d) (\<lambda>g.
       let old = g\<lparr>lc_revoked := True\<rparr>;
           d1 = save_grant old d;
           new = \<lparr>lc_id = new_id, lc_firm_id = firm, lc_license_type = lc_license_type old,
                  lc_holder_id = Some new_holder,
                  lc_key = sign_payload mac (encode_grant new_id firm (lc_license_type old)),
                  lc_granted_at = now, lc_expires_at = lc_expires_at old, lc_revoked = False,
                  lc_transferred_from = Some (lc_id old)\<rparr>
       in Inr (new, save_grant new d1))"

definition set_floating_pool_capacity :: "pystr \<Rightarrow> int \<Rightarrow> license_desk \<Rightarrow> license_desk" where
  "set_floating_pool_capacity firm total_seats d = d\<lparr>ld_pools := dict_set firm total_seats (ld_pools d)\<rparr>"

definition seat_in_use :: "datetime \<Rightarrow> license_grant \<Rightarrow> bool" where
  "seat_in_use now g \<longleftrightarrow> lc_license_type g = LT_FLOATING \<and> grant_is_active now g"

definition seats_in_use :: "datetime \<Rightarrow> pystr \<Rightarrow> license_desk \<Rightarrow> int" where
  "seats_in_use now firm d = int (length (filter (seat_in_use now) (grants_for_firm (ld_grants d) firm)))"

definition checkout_floating ::
  "(pystr \<Rightarrow> pystr) \<Rightarrow> pystr \<Rightarrow> datetime \<Rightarrow> pystr \<Rightarrow> pystr \<Rightarrow> int \<Rightarrow> license_desk
     \<Rightarrow> (license_grant \<times> license_desk) result" where
  "checkout_floating mac new_id now firm holder duration_hours d =
     (case dict_get (ld_pools d) firm of
        None \<Rightarrow> Inl (FloatingPoolExhaustedError (''no floating pool configured for firm '' @ py_repr firm))
      | Some total_seats \<Rightarrow>
          if total_seats \<le> seats_in_use now firm d
          then Inl (FloatingPoolExhaustedError (''floating pool exhausted for firm '' @ py_repr firm))
          else (let g = \<lparr>lc_id = new_id, lc_firm_id = firm, lc_license_type = LT_FLOATING,
                         lc_holder_id = Some holder,
                         lc_key = sign_payload mac (encode_grant new_id firm LT_FLOATING),
                         lc_granted_at = now, lc_expires_at = expiry_in_hours duration_hours now,
                         lc_revoked = False, lc_transferred_from = None\<rparr>
                in Inr (g, save_grant g d)))"

definition checkin_floating :: "pystr \<Rightarrow> pystr \<Rightarrow> license_desk \<Rightarrow> (license_grant \<times> license_desk) result" where
  "checkin_floating firm grant_id d =
     res_bind (require_grant firm grant_id d) (\<lambda>g.
       let g' = g\<lparr>lc_revoked := True\<rparr> in Inr (g', save_grant g' d))"

definition active_grants_for_firm :: "datetime \<Rightarrow> pystr \<Rightarrow> license_desk \<Rightarrow> license_grant list" where
  "active_grants_for_firm now firm d = filter (grant_is_active now) (grants_for_firm (ld_grants d) firm)"

definition active_grants_for_holder :: "datetime \<Rightarrow> pystr \<Rightarrow> pystr \<Rightarrow> license_desk \<Rightarrow> license_grant list" where
  "active_grants_for_holder now firm holder d =
     filter (grant_is_active now) (grants_for_holder (ld_grants d) firm holder)"

definition validate_license_key :: "(pystr \<Rightarrow> pystr) \<Rightarrow> pystr \<Rightarrow> bool result" where
  "validate_license_key mac key = res_bind (verify_key mac key) (\<lambda>payload. Inr (payload \<noteq> None))"

section \<open>The floating pool\<close>

text \<open>
  The operations of the desk, any of which may be called at any time on any grant; one that raises
  changes nothing.
\<close>

datatype desk_op =
    Desk_assign pystr pystr license_type pystr int
  | Desk_revoke pystr pystr
  | Desk_checkin pystr pystr
  | Desk_transfer pystr pystr pystr pystr
  | Desk_checkout pystr pystr pystr int
  | Desk_capacity pystr int

definition desk_after :: "(license_grant \<times> license_desk) result \<Rightarrow> license_desk \<Rightarrow> license_desk" where
  "desk_after r d = (case r of Inl e \<Rightarrow> d | Inr (g, d') \<Rightarrow> d')"

fun desk_step :: "(pystr \<Rightarrow> pystr) \<Rightarrow> datetime \<Rightarrow> desk_op \<Rightarrow> license_desk \<Rightarrow> license_desk" where
  "desk_step mac now (Desk_assign i firm ty holder n) d = desk_after (assign_license mac i now firm ty holder n d) d"
| "desk_step mac now (Desk_revoke firm j) d = desk_after (revoke_license firm j d) d"
| "desk_step mac now (Desk_checkin firm j) d = desk_after (checkin_floating firm j d) d"
| "desk_step mac now (Desk_transfer i firm j holder) d = desk_after (transfer_license mac i now firm j holder d) d"
| "desk_step mac now (Desk_checkout i firm holder n) d = desk_after (checkout_floating mac i now firm holder n d) d"
| "desk_step mac now (Desk_capacity firm seats) d = set_floating_pool_capacity firm seats d"

fun desk_run :: "(pystr \<Rightarrow> pystr) \<Rightarrow> (datetime \<times> desk_op) list \<Rightarrow> license_desk \<Rightarrow> license_desk" where
  "desk_run mac [] d = d"
| "desk_run mac ((now, op) # ops) d = desk_run mac ops (desk_step mac now op d)"

text \<open>New identifiers are fresh; the clock does not run backwards.\<close>

fun desk_op_fresh :: "desk_op \<Rightarrow> license_desk \<Rightarrow> bool" where
  "desk_op_fresh (Desk_assign i firm ty holder n) d \<longleftrightarrow> dict_get (ld_grants d) (firm, i) = None"
| "desk_op_fresh (Desk_transfer i firm j holder) d \<longleftrightarrow> dict_get (ld_grants d) (firm, i) = None"
| "desk_op_fresh (Desk_checkout i firm holder n) d \<longleftrightarrow> dict_get (ld_grants d) (firm, i) = None"
| "desk_op_fresh op d \<longleftrightarrow> True"

fun desk_ops_ok :: "(pystr \<Rightarrow> pystr) \<Rightarrow> datetime \<Rightarrow> (datetime \<times> desk_op) list \<Rightarrow> license_desk \<Rightarrow> datetime \<Rightarrow> bool" where
  "desk_ops_ok mac t [] d final \<longleftrightarrow> t \<le> final"
| "desk_ops_ok mac t ((now, op) # ops) d final \<longleftrightarrow>
     t \<le> now \<and> desk_op_fresh op d \<and> desk_ops_ok mac now ops (desk_step mac now op d) final"

text \<open>
  The two ways a pool is exceeded: the transfer of a floating grant that was revoked or checked in
  (and has not expired), and a capacity set below the seats in use.
\<close>

fun desk_revives :: "pystr \<Rightarrow> datetime \<Rightarrow> desk_op \<Rightarrow> license_desk \<Rightarrow> bool" where
  "desk_revives firm now (Desk_transfer i f j holder) d \<longleftrightarrow> f = firm \<and>
     (case dict_get (ld_grants d) (f, j) of None \<Rightarrow> False
      | Some g \<Rightarrow> lc_license_type g = LT_FLOATING \<and> lc_revoked g \<and> now \<le> lc_expires_at g)"
| "desk_revives firm now op d \<longleftrightarrow> False"

fun revivals :: "(pystr \<Rightarrow> pystr) \<Rightarrow> pystr \<Rightarrow> (datetime \<times> desk_op) list \<Rightarrow> license_desk \<Rightarrow> int" where
  "revivals mac firm [] d = 0"
| "revivals mac firm ((now, op) # ops) d =
     (if desk_revives firm now op d then 1 else 0) + revivals mac firm ops (desk_step mac now op d)"

fun peak_capacity :: "pystr \<Rightarrow> (datetime \<times> desk_op) list \<Rightarrow> int" where
  "peak_capacity firm [] = 0"
| "peak_capacity firm ((now, op) # ops) =
     max (case op of Desk_capacity f seats \<Rightarrow> if f = firm then seats else 0 | _ \<Rightarrow> 0) (peak_capacity firm ops)"

fun capacity_cut :: "pystr \<Rightarrow> datetime \<Rightarrow> desk_op \<Rightarrow> license_desk \<Rightarrow> bool" where
  "capacity_cut firm now (Desk_capacity f seats) d \<longleftrightarrow> f = firm \<and> seats < seats_in_use now firm d"
| "capacity_cut firm now op d \<longleftrightarrow> False"

fun desk_tidy :: "(pystr \<Rightarrow> pystr) \<Rightarrow> pystr \<Rightarrow> (datetime \<times> desk_op) list \<Rightarrow> license_desk \<Rightarrow> bool" where
  "desk_tidy mac firm [] d \<longleftrightarrow> True"
| "desk_tidy mac firm ((now, op) # ops) d \<longleftrightarrow>
     \<not> desk_revives firm now op d \<and> \<not> capacity_cut firm now op d \<and> desk_tidy mac firm ops (desk_step mac now op d)"

text \<open>Seats are only freed by the passing of time.\<close>

lemma seat_in_use_later: "seat_in_use now g \<Longrightarrow> t \<le> now \<Longrightarrow> seat_in_use t g"
  by (auto simp: seat_in_use_def grant_is_active_def grant_is_expired_def)

lemma seats_in_use_later: "t \<le> now \<Longrightarrow> seats_in_use now firm d \<le> seats_in_use t firm d"
  unfolding seats_in_use_def of_nat_le_iff by (rule length_filter_mono) (rule seat_in_use_later)

lemma seats_in_use_nonneg [simp]: "0 \<le> seats_in_use now firm d"
  by (simp add: seats_in_use_def)

lemma seats_in_use_le_zero [simp]: "seats_in_use now firm d \<le> 0 \<longleftrightarrow> seats_in_use now firm d = 0"
  by (simp add: order_antisym_conv)

text \<open>How saving a grant moves the count: another firm's never, a new one by at most its own seat.\<close>

lemma seats_save_other: "keyed grant_key (ld_grants d) \<Longrightarrow> lc_firm_id g \<noteq> firm \<Longrightarrow>
    seats_in_use now firm (save_grant g d) = seats_in_use now firm d"
  using grant_rows.rows_put_other [of "ld_grants d" g firm] by (simp add: seats_in_use_def grant_key_def)

lemma seats_save_new:
  assumes "keyed grant_key (ld_grants d)" and "dict_get (ld_grants d) (grant_key g) = None"
  shows "seats_in_use now (lc_firm_id g) (save_grant g d) =
     seats_in_use now (lc_firm_id g) d + (if seat_in_use now g then 1 else 0)"
  using grant_rows.count_put_new [OF assms, of "seat_in_use now"] by (simp add: seats_in_use_def grant_key_def)

lemma seats_save_revoked:
  assumes "keyed grant_key (ld_grants d)" and "dict_get (ld_grants d) (grant_key g) = Some u"
    and "lc_license_type g = lc_license_type u" and "lc_revoked g"
  shows "seats_in_use now (lc_firm_id g) (save_grant g d) \<le>
     seats_in_use now (lc_firm_id g) d - (if seat_in_use now u then 1 else 0)"
proof -
  have key: "grant_key u = grant_key g" by (rule keyed_get [OF assms(1,2)])
  have "\<not> seat_in_use now g" using assms(4) by (simp add: seat_in_use_def grant_is_active_def)
  then show ?thesis
    using grant_rows.count_put_old_less [OF assms(1,2) key, of "seat_in_use now"]
      grant_rows.count_put_old_le [OF assms(1,2), of "seat_in_use now"]
    by (auto simp: seats_in_use_def grant_key_def)
qed

text \<open>Adding a grant of some firm under a fresh id, and revoking one, seen by any firm.\<close>

lemma seats_added:
  assumes "keyed grant_key (ld_grants d)" and "dict_get (ld_grants d) (grant_key g) = None"
  shows "seats_in_use now firm (save_grant g d) =
     seats_in_use now firm d + (if lc_firm_id g = firm \<and> seat_in_use now g then 1 else 0)"
  using seats_save_new [OF assms, of now] seats_save_other [OF assms(1), of g firm now]
  by (cases "lc_firm_id g = firm") auto

lemma seats_revoked:
  assumes k: "keyed grant_key (ld_grants d)" and g: "dict_get (ld_grants d) (f, j) = Some g"
  shows "seats_in_use now firm (save_grant (g\<lparr>lc_revoked := True\<rparr>) d) \<le>
     seats_in_use now firm d - (if f = firm \<and> seat_in_use now g then 1 else 0)"
proof -
  let ?g = "g\<lparr>lc_revoked := True\<rparr>"
  have key: "grant_key g = (f, j)" by (rule keyed_get [OF k g])
  have old: "dict_get (ld_grants d) (grant_key ?g) = Some g" using key g by (simp add: grant_key_def)
  show ?thesis
    using seats_save_other [OF k, of ?g firm now] seats_save_revoked [OF k old, of now] key
    by (cases "f = firm") (auto simp: grant_key_def)
qed

text \<open>
  What one operation does to the seats of a firm: at most a revival raises them, or a checkout, and
  a checkout leaves them within the pool.
\<close>

lemma desk_step_seats:
  assumes k: "keyed grant_key (ld_grants d)" and fresh: "desk_op_fresh op d"
  shows "keyed grant_key (ld_grants (desk_step mac now op d)) \<and>
     (seats_in_use now firm (desk_step mac now op d) \<le>
        seats_in_use now firm d + (if desk_revives firm now op d then 1 else 0) \<or>
      (\<exists>seats. dict_get (ld_pools d) firm = Some seats \<and> seats_in_use now firm (desk_step mac now op d) \<le> seats))"
proof (cases op)
  case (Desk_assign i f ty holder n)
  show ?thesis
  proof (cases "ty = LT_FLOATING")
    case False
    then obtain g where g: "assign_license mac i now f ty holder n d = Inr (g, save_grant g d)"
        "lc_license_type g = ty" "grant_key g = (f, i)"
      by (auto simp: assign_license_def grant_key_def Let_def)
    then show ?thesis
      using seats_added [OF k, of g now firm] fresh False grant_rows.wf_put [OF k]
      by (simp add: Desk_assign desk_after_def seat_in_use_def)
  qed (use k in \<open>simp add: Desk_assign desk_after_def assign_license_def\<close>)
next
  case (Desk_revoke f j)
  then show ?thesis
    using k seats_revoked [OF k, of f j _ now firm] grant_rows.wf_put [OF k]
    by (cases "dict_get (ld_grants d) (f, j)")
      (auto simp: desk_after_def revoke_license_def require_grant_def Let_def split: if_splits)
next
  case (Desk_checkin f j)
  then show ?thesis
    using k seats_revoked [OF k, of f j _ now firm] grant_rows.wf_put [OF k]
    by (cases "dict_get (ld_grants d) (f, j)")
      (auto simp: desk_after_def checkin_floating_def require_grant_def Let_def split: if_splits)
next
  case (Desk_transfer i f j holder)
  show ?thesis
  proof (cases "dict_get (ld_grants d) (f, j)")
    case (Some old)
    let ?d1 = "save_grant (old\<lparr>lc_revoked := True\<rparr>) d"
    have key: "grant_key old = (f, j)" by (rule keyed_get [OF k Some])
    obtain g where g: "transfer_license mac i now f j holder d = Inr (g, save_grant g ?d1)" "grant_key g = (f, i)"
        "lc_license_type g = lc_license_type old" "lc_expires_at g = lc_expires_at old" "\<not> lc_revoked g"
      using Some by (auto simp: transfer_license_def require_grant_def grant_key_def Let_def)
    have "i \<noteq> j" using fresh Some by (auto simp: Desk_transfer)
    then have none: "dict_get (ld_grants ?d1) (grant_key g) = None"
      using fresh key g(2) grant_rows.get_put [of "old\<lparr>lc_revoked := True\<rparr>" "ld_grants d" "(f, i)"]
      by (simp add: Desk_transfer grant_key_def)
    have k1: "keyed grant_key (ld_grants ?d1)" using grant_rows.wf_put [OF k] by simp
    have "seat_in_use now g \<longleftrightarrow> seat_in_use now old \<or> lc_license_type old = LT_FLOATING \<and> lc_revoked old \<and> now \<le> lc_expires_at old"
      using g(3-5) by (auto simp: seat_in_use_def grant_is_active_def grant_is_expired_def)
    then have "seats_in_use now firm (save_grant g ?d1) \<le>
        seats_in_use now firm d + (if desk_revives firm now op d then 1 else 0)"
      using seats_added [OF k1 none, of now firm] seats_revoked [OF k Some, of now firm] g(2) Some
      by (auto simp: Desk_transfer grant_key_def split: if_splits)
    then show ?thesis using g(1) grant_rows.wf_put [OF k1, of g] by (simp add: Desk_transfer desk_after_def)
  qed (use k in \<open>simp add: Desk_transfer desk_after_def transfer_license_def require_grant_def\<close>)
next
  case (Desk_checkout i f holder n)
  show ?thesis
  proof (cases "\<exists>seats. dict_get (ld_pools d) f = Some seats \<and> seats_in_use now f d < seats")
    case True
    then obtain seats where seats: "dict_get (ld_pools d) f = Some seats" "seats_in_use now f d < seats" by blast
    then obtain g where g: "checkout_floating mac i now f holder n d = Inr (g, save_grant g d)" "grant_key g = (f, i)"
      by (simp add: checkout_floating_def grant_key_def Let_def)
    then show ?thesis
      using seats seats_added [OF k, of g now firm] fresh grant_rows.wf_put [OF k]
      by (auto simp: Desk_checkout desk_after_def grant_key_def split: if_splits)
  next
    case False
    then have "desk_step mac now op d = d"
      by (auto simp: Desk_checkout desk_after_def checkout_floating_def split: option.splits)
    then show ?thesis using k by simp
  qed
next
  case (Desk_capacity f seats)
  then show ?thesis using k by (simp add: set_floating_pool_capacity_def seats_in_use_def)
qed

lemma desk_step_pools:
  "dict_get (ld_pools (desk_step mac now op d)) firm =
     (case op of Desk_capacity f seats \<Rightarrow> if f = firm then Some seats else dict_get (ld_pools d) firm
      | _ \<Rightarrow> dict_get (ld_pools d) firm)"
  by (cases op)
    (auto simp: desk_after_def assign_license_def revoke_license_def checkin_floating_def transfer_license_def
      checkout_floating_def set_floating_pool_capacity_def require_grant_def Let_def update_conv'
      split: option.splits)

lemma peak_capacity_nonneg: "0 \<le> peak_capacity firm ops"
  by (induction firm ops rule: peak_capacity.induct) (simp_all add: le_max_iff_disj)

text \<open>Any run: the seats in use never exceed the highest capacity by more than the revivals.\<close>

lemma desk_run_seats:
  assumes "keyed grant_key (ld_grants d)" and "desk_ops_ok mac t ops d final"
    and "seats_in_use t firm d \<le> m + r" and "\<And>seats. dict_get (ld_pools d) firm = Some seats \<Longrightarrow> seats \<le> m" and "0 \<le> r"
  shows "seats_in_use final firm (desk_run mac ops d) \<le> max m (peak_capacity firm ops) + r + revivals mac firm ops d"
  using assms
proof (induction ops arbitrary: t d m r)
  case Nil
  then show ?case using seats_in_use_later [of t final firm d] by simp
next
  case (Cons p ops)
  obtain now op where p: "p = (now, op)" by (rule prod.exhaust)
  let ?d = "desk_step mac now op d"
  let ?c = "case op of Desk_capacity f seats \<Rightarrow> if f = firm then seats else 0 | _ \<Rightarrow> 0"
  let ?r = "r + (if desk_revives firm now op d then 1 else 0)"
  have ok: "t \<le> now" "desk_op_fresh op d" "desk_ops_ok mac now ops ?d final" using Cons.prems(2) by (simp_all add: p)
  note step = desk_step_seats [OF Cons.prems(1) ok(2), of mac now firm]
  have before: "seats_in_use now firm d \<le> m + r" using seats_in_use_later [OF ok(1)] Cons.prems(3) by (rule order_trans)
  have pools: "seats \<le> max m ?c" if "dict_get (ld_pools ?d) firm = Some seats" for seats
    using that Cons.prems(4) by (fastforce simp: desk_step_pools split: desk_op.splits if_splits)
  have "seats_in_use now firm ?d \<le> max m ?c + ?r"
    using step
  proof (elim conjE disjE exE)
    assume "seats_in_use now firm ?d \<le> seats_in_use now firm d + (if desk_revives firm now op d then 1 else 0)"
    then show ?thesis using before max.cobounded1 [of m ?c] by linarith
  next
    fix seats assume "dict_get (ld_pools d) firm = Some seats" "seats_in_use now firm ?d \<le> seats"
    then show ?thesis using Cons.prems(4) [of seats] Cons.prems(5) max.cobounded1 [of m ?c] by (auto split: if_split)
  qed
  from Cons.IH [OF _ ok(3) this pools] step Cons.prems(5)
  have "seats_in_use final firm (desk_run mac ops ?d) \<le>
      max (max m ?c) (peak_capacity firm ops) + ?r + revivals mac firm ops ?d" by simp
  then show ?case by (simp add: p max.assoc)
qed

definition pool_fits :: "pystr \<Rightarrow> datetime \<Rightarrow> license_desk \<Rightarrow> bool" where
  "pool_fits firm now d \<longleftrightarrow>
     (case dict_get (ld_pools d) firm of None \<Rightarrow> seats_in_use now firm d = 0 | Some seats \<Rightarrow> seats_in_use now firm d \<le> seats)"

lemma desk_run_tidy:
  assumes "keyed grant_key (ld_grants d)" and "desk_ops_ok mac t ops d final" and "desk_tidy mac firm ops d"
    and "pool_fits firm t d"
  shows "pool_fits firm final (desk_run mac ops d)"
  using assms
proof (induction ops arbitrary: t d)
  case Nil
  then show ?case
    using seats_in_use_later [of t final firm d] seats_in_use_nonneg [of final firm d]
    by (cases "dict_get (ld_pools d) firm") (simp_all add: pool_fits_def)
next
  case (Cons p ops)
  obtain now op where p: "p = (now, op)" by (rule prod.exhaust)
  let ?d = "desk_step mac now op d"
  have ok: "t \<le> now" "desk_op_fresh op d" "desk_ops_ok mac now ops ?d final" using Cons.prems(2) by (simp_all add: p)
  have tidy: "\<not> desk_revives firm now op d" "\<not> capacity_cut firm now op d" "desk_tidy mac firm ops ?d"
    using Cons.prems(3) by (simp_all add: p)
  note step = desk_step_seats [OF Cons.prems(1) ok(2), of mac now firm]
  have fits: "pool_fits firm now d"
    using Cons.prems(4) seats_in_use_later [OF ok(1), of firm d] seats_in_use_nonneg [of now firm d]
    by (cases "dict_get (ld_pools d) firm") (simp_all add: pool_fits_def)
  have "pool_fits firm now ?d"
  proof (cases "\<exists>seats. op = Desk_capacity firm seats")
    case True
    then obtain seats where op: "op = Desk_capacity firm seats" by blast
    then have "seats_in_use now firm ?d = seats_in_use now firm d" by (simp add: set_floating_pool_capacity_def seats_in_use_def)
    then show ?thesis using tidy(2) op by (simp add: pool_fits_def set_floating_pool_capacity_def update_conv')
  next
    case False
    then have "dict_get (ld_pools ?d) firm = dict_get (ld_pools d) firm"
      by (auto simp: desk_step_pools split: desk_op.split)
    then show ?thesis using step fits tidy(1) seats_in_use_nonneg [of now firm ?d]
      by (cases "dict_get (ld_pools d) firm") (auto simp: pool_fits_def)
  qed
  with Cons.IH [OF _ ok(3) tidy(3)] step show ?case by (simp add: p)
qed

text \<open>
  What one operation does to a grant: nothing but revoke it, and that only when it is the grant
  revoked, checked in or transferred.
\<close>

fun desk_touches :: "desk_op \<Rightarrow> (pystr \<times> pystr) set" where
  "desk_touches (Desk_revoke firm j) = {(firm, j)}"
| "desk_touches (Desk_checkin firm j) = {(firm, j)}"
| "desk_touches (Desk_transfer i firm j holder) = {(firm, j)}"
| "desk_touches op = {}"

lemma desk_step_grant:
  assumes k: "keyed grant_key (ld_grants d)" and fresh: "desk_op_fresh op d" and g: "dict_get (ld_grants d) j = Some g"
  shows "\<exists>g'. dict_get (ld_grants (desk_step mac now op d)) j = Some g' \<and> g' = g\<lparr>lc_revoked := lc_revoked g'\<rparr> \<and>
     (lc_revoked g \<longrightarrow> lc_revoked g') \<and> (lc_revoked g' \<longrightarrow> lc_revoked g \<or> j \<in> desk_touches op)"
proof -
  have self: "g = g\<lparr>lc_revoked := lc_revoked g\<rparr>" by simp
  have revoked: "dict_get (ld_grants (save_grant (u\<lparr>lc_revoked := True\<rparr>) d)) j =
      (if j = l then Some (u\<lparr>lc_revoked := True\<rparr>) else dict_get (ld_grants d) j)" if "dict_get (ld_grants d) l = Some u" for u l
    using that keyed_get [OF k that] by (auto simp: grant_rows.get_put grant_key_def)
  show ?thesis
  proof (cases op)
    case (Desk_assign i f ty holder n)
    then have "(f, i) \<noteq> j" using fresh g by auto
    then have "dict_get (ld_grants (desk_step mac now op d)) j = Some g"
      using g by (simp add: Desk_assign desk_after_def assign_license_def Let_def grant_rows.get_put grant_key_def)
    with self show ?thesis by blast
  next
    case (Desk_revoke f l)
    then show ?thesis using g self revoked [of "(f, l)"]
      by (cases "dict_get (ld_grants d) (f, l)") (auto simp: desk_after_def revoke_license_def require_grant_def Let_def)
  next
    case (Desk_checkin f l)
    then show ?thesis using g self revoked [of "(f, l)"]
      by (cases "dict_get (ld_grants d) (f, l)") (auto simp: desk_after_def checkin_floating_def require_grant_def Let_def)
  next
    case (Desk_transfer i f l holder)
    then have "(f, i) \<noteq> j" using fresh g by auto
    then have "dict_get (ld_grants (desk_step mac now op d)) j =
        (case dict_get (ld_grants d) (f, l) of None \<Rightarrow> dict_get (ld_grants d) j
         | Some u \<Rightarrow> dict_get (ld_grants (save_grant (u\<lparr>lc_revoked := True\<rparr>) d)) j)"
      by (simp add: Desk_transfer desk_after_def transfer_license_def require_grant_def Let_def
          grant_rows.get_put grant_key_def split: option.split)
    with g self revoked [of "(f, l)"] show ?thesis
      by (cases "dict_get (ld_grants d) (f, l)") (auto simp: Desk_transfer)
  next
    case (Desk_checkout i f holder n)
    then have "(f, i) \<noteq> j" using fresh g by auto
    then have "dict_get (ld_grants (desk_step mac now op d)) j = Some g"
      using g by (simp add: Desk_checkout desk_after_def checkout_floating_def Let_def grant_rows.get_put grant_key_def
          split: option.split)
    with self show ?thesis by blast
  next
    case (Desk_capacity f seats)
    then show ?thesis using g self by (auto simp: set_floating_pool_capacity_def)
  qed
qed

section \<open>Properties of the pool\<close>


definition demo_desk_ops :: "(datetime \<times> desk_op) list" where
  "demo_desk_ops = [(0, Desk_capacity ''firm'' 1), (1, Desk_checkout ''a'' ''firm'' ''ann'' 8)]"

definition demo_desk :: license_desk where
  "demo_desk = set_floating_pool_capacity ''firm'' 1 empty_desk"


text \<open>
  Transferring brings a revoked grant back: the transfer of a grant that has been revoked (or
  checked in) but has not expired is a new active grant of the same type, so a seat that was free
  is in use again; no pool is consulted, and the pool can be exceeded that way.
\<close>
theorem transfer_resurrects:
  assumes k: "keyed grant_key (ld_grants d)" and g: "require_grant firm j d = Inr g"
    and dead: "lc_revoked g" "now \<le> lc_expires_at g" and fresh: "dict_get (ld_grants d) (firm, i) = None"
  shows "\<exists>g' d'. transfer_license mac i now firm j holder d = Inr (g', d') \<and>
     grant_is_active now g' \<and> lc_license_type g' = lc_license_type g \<and> lc_holder_id g' = Some holder \<and>
     ld_pools d' = ld_pools d \<and>
     seats_in_use now firm d' = seats_in_use now firm d + (if lc_license_type g = LT_FLOATING then 1 else 0)"
proof -
  have get: "dict_get (ld_grants d) (firm, j) = Some g"
    using g by (simp add: require_grant_def split: option.splits)
  have key: "grant_key g = (firm, j)" by (rule keyed_get [OF k get])
  have same: "g\<lparr>lc_revoked := True\<rparr> = g" using dead(1) by simp
  have unchanged: "grant_store_save g (ld_grants d) = ld_grants d" using key get by (simp add: grant_store_save_def dict_set_same)
  let ?new = "\<lparr>lc_id = i, lc_firm_id = firm, lc_license_type = lc_license_type g, lc_holder_id = Some holder,
      lc_key = sign_payload mac (encode_grant i firm (lc_license_type g)), lc_granted_at = now,
      lc_expires_at = lc_expires_at g, lc_revoked = False, lc_transferred_from = Some (lc_id g)\<rparr>"
  have run: "transfer_license mac i now firm j holder d = Inr (?new, save_grant ?new d)"
    using g unchanged by (simp add: transfer_license_def same Let_def)
  have active: "grant_is_active now ?new" using dead(2) by (simp add: grant_is_active_def grant_is_expired_def)
  have "seats_in_use now firm (save_grant ?new d) =
      seats_in_use now firm d + (if lc_license_type g = LT_FLOATING then 1 else 0)"
    using seats_save_new [of d ?new now] k fresh active by (simp add: grant_key_def seat_in_use_def)
  then show ?thesis using run active by auto
qed

theorem transfer_resurrects_witness:
  "\<exists>d1 d2 d3 g1 g2 g3. checkout_floating (\<lambda>s. s) ''a'' 0 ''firm'' ''ann'' 8 demo_desk = Inr (g1, d1) \<and>
     checkin_floating ''firm'' ''a'' d1 = Inr (g2, d2) \<and>
     transfer_license (\<lambda>s. s) ''b'' 1 ''firm'' ''a'' ''bob'' d2 = Inr (g3, d3) \<and>
     grant_is_active 1 g3 \<and> seats_in_use 1 ''firm'' d3 = seats_in_use 1 ''firm'' d2 + 1"
proof -
  have none: "seats_in_use 0 ''firm'' demo_desk = 0"
    by (simp add: demo_desk_def set_floating_pool_capacity_def empty_desk_def seats_in_use_def grants_for_firm_def
        rows_by_value_def)
  obtain g1 d1 where out: "checkout_floating (\<lambda>s. s) ''a'' 0 ''firm'' ''ann'' 8 demo_desk = Inr (g1, d1)"
    and g1: "lc_license_type g1 = LT_FLOATING" "lc_expires_at g1 = hours 8" "lc_firm_id g1 = ''firm''" "lc_id g1 = ''a''"
      "d1 = save_grant g1 demo_desk"
    using none by (auto simp: checkout_floating_def demo_desk_def set_floating_pool_capacity_def empty_desk_def
        expiry_in_hours_def Let_def)
  have grants: "ld_grants d1 = [((''firm'', ''a''), g1)]"
    using g1 by (simp add: demo_desk_def set_floating_pool_capacity_def empty_desk_def grant_store_save_def grant_key_def)
  let ?g2 = "g1\<lparr>lc_revoked := True\<rparr>"
  have "in": "checkin_floating ''firm'' ''a'' d1 = Inr (?g2, save_grant ?g2 d1)"
    using grants by (simp add: checkin_floating_def require_grant_def Let_def)
  have "ld_grants (save_grant ?g2 d1) = [((''firm'', ''a''), ?g2)]"
    using grants g1 by (simp add: grant_store_save_def grant_key_def)
  moreover from this have ok: "keyed grant_key (ld_grants (save_grant ?g2 d1))"
    using g1 by (simp add: keyed_def grant_key_def)
  ultimately have "\<exists>g' d'. transfer_license (\<lambda>s. s) ''b'' 1 ''firm'' ''a'' ''bob'' (save_grant ?g2 d1) = Inr (g', d') \<and>
      grant_is_active 1 g' \<and> seats_in_use 1 ''firm'' d' = seats_in_use 1 ''firm'' (save_grant ?g2 d1) + 1"
    using transfer_resurrects [OF ok, of "''firm''" "''a''" ?g2 1 "''b''" "\<lambda>s. s" "''bob''"] g1
    by (auto simp: require_grant_def)
  then show ?thesis using out "in" by blast
qed

end
