(* ===== verification/Authorization.thy ===== *)
theory Authorization
  imports PyText
begin

text \<open>
  The central authorization of \<^verbatim>\<open>identity_platform\<close>: roles, permissions, the RBAC matrix, the
  ABAC rules, the firm's policies, the identity contexts, the engine that puts the three layers
  in order and the guard the API calls, with the tenant check of
  \<^verbatim>\<open>platform/security/tenant_isolation.py\<close>. A registered ABAC rule is a function of the identity
  and the attributes that may raise; the three rules of \<^verbatim>\<open>abac/rules.py\<close> are defined.
\<close>

section \<open>Roles\<close>

datatype role =
  ROLE_PARTNER | ROLE_ASSOCIATE | ROLE_COUNSEL | ROLE_PARALEGAL | ROLE_ASSISTANT | ROLE_IT_ADMIN

fun role_value :: "role \<Rightarrow> pystr" where
  "role_value ROLE_PARTNER = ''partner''"
| "role_value ROLE_ASSOCIATE = ''associate''"
| "role_value ROLE_COUNSEL = ''counsel''"
| "role_value ROLE_PARALEGAL = ''paralegal''"
| "role_value ROLE_ASSISTANT = ''assistant''"
| "role_value ROLE_IT_ADMIN = ''it_admin''"

record role_assignment =
  ra_firm_id :: pystr
  ra_user_id :: pystr
  ra_role :: role

text \<open>
  The assignments are a \<open>set\<close> of triples, here a list without repetition. Python does not fix the
  order in which a set is listed; the layers below depend on the roles as a set only
  (\<open>has_permission_set\<close>, \<open>evaluate_policies_set\<close>).
\<close>

type_synonym role_store = "(pystr \<times> pystr \<times> role) list"

definition role_store_save :: "role_assignment \<Rightarrow> role_store \<Rightarrow> role_store" where
  "role_store_save a s =
     (let t = (ra_firm_id a, ra_user_id a, ra_role a) in if t \<in> set s then s else s @ [t])"

definition role_store_list_for_user :: "role_store \<Rightarrow> pystr \<Rightarrow> pystr \<Rightarrow> role list" where
  "role_store_list_for_user s firm user =
     map (\<lambda>(f, u, r). r) (filter (\<lambda>(f, u, r). f = firm \<and> u = user) s)"

definition role_store_remove :: "pystr \<Rightarrow> pystr \<Rightarrow> role \<Rightarrow> role_store \<Rightarrow> role_store" where
  "role_store_remove firm user r s = filter (\<lambda>t. t \<noteq> (firm, user, r)) s"

definition assign_role :: "pystr \<Rightarrow> pystr \<Rightarrow> role \<Rightarrow> role_store \<Rightarrow> role_assignment \<times> role_store" where
  "assign_role firm user r s =
     (let a = \<lparr>ra_firm_id = firm, ra_user_id = user, ra_role = r\<rparr> in (a, role_store_save a s))"

definition revoke_role :: "pystr \<Rightarrow> pystr \<Rightarrow> role \<Rightarrow> role_store \<Rightarrow> role_store" where
  "revoke_role firm user r s = role_store_remove firm user r s"

definition roles_for_user :: "role_store \<Rightarrow> pystr \<Rightarrow> pystr \<Rightarrow> role list" where
  "roles_for_user s firm user = role_store_list_for_user s firm user"

lemma roles_for_user_iff: "r \<in> set (roles_for_user s firm user) \<longleftrightarrow> (firm, user, r) \<in> set s"
  by (force simp: roles_for_user_def role_store_list_for_user_def)

lemma role_store_save_set:
  "set (role_store_save a s) = insert (ra_firm_id a, ra_user_id a, ra_role a) (set s)"
  by (auto simp: role_store_save_def Let_def)

lemma role_store_remove_set: "set (role_store_remove firm user r s) = set s - {(firm, user, r)}"
  by (auto simp: role_store_remove_def)

lemma roles_for_user_other:
  "(f, u) \<noteq> (firm, user) \<Longrightarrow> roles_for_user (snd (assign_role f u r s)) firm user = roles_for_user s firm user"
  "(f, u) \<noteq> (firm, user) \<Longrightarrow> roles_for_user (revoke_role f u r s) firm user = roles_for_user s firm user"
  by (auto simp: roles_for_user_def role_store_list_for_user_def assign_role_def role_store_save_def
      revoke_role_def role_store_remove_def filter_filter Let_def intro!: arg_cong [where f = "map _"] filter_cong)

section \<open>Permissions and the role matrix\<close>

datatype permission =
    PERM_CONSULTATION_VALIDATE
  | PERM_AI_MODEL_RESTRICTED_USE
  | PERM_EXPORT_DATA
  | PERM_STRATEGY_DRAFT_VALIDATE
  | PERM_WORKFLOW_USE_TEAM_RESTRICTED
  | PERM_ORGANIZATION_MANAGE
  | PERM_USER_MANAGE
  | PERM_SECRET_MANAGE
  | PERM_BUSINESS_PLATFORM_MANAGE
  | PERM_COPILOT_MANAGE
  | PERM_KNOWLEDGE_GRAPH_MANAGE

fun permission_value :: "permission \<Rightarrow> pystr" where
  "permission_value PERM_CONSULTATION_VALIDATE = ''consultation.validate''"
| "permission_value PERM_AI_MODEL_RESTRICTED_USE = ''ai_model.restricted_use''"
| "permission_value PERM_EXPORT_DATA = ''export.data''"
| "permission_value PERM_STRATEGY_DRAFT_VALIDATE = ''strategy_draft.validate''"
| "permission_value PERM_WORKFLOW_USE_TEAM_RESTRICTED = ''workflow.use_team_restricted''"
| "permission_value PERM_ORGANIZATION_MANAGE = ''organization.manage''"
| "permission_value PERM_USER_MANAGE = ''user.manage''"
| "permission_value PERM_SECRET_MANAGE = ''secret.manage''"
| "permission_value PERM_BUSINESS_PLATFORM_MANAGE = ''business_platform.manage''"
| "permission_value PERM_COPILOT_MANAGE = ''copilot.manage''"
| "permission_value PERM_KNOWLEDGE_GRAPH_MANAGE = ''knowledge_graph.manage''"

type_synonym role_matrix = "(role, permission set) dict"

definition default_role_permissions :: role_matrix where
  "default_role_permissions =
     [(ROLE_PARTNER,
         {PERM_CONSULTATION_VALIDATE, PERM_AI_MODEL_RESTRICTED_USE, PERM_EXPORT_DATA,
          PERM_STRATEGY_DRAFT_VALIDATE, PERM_WORKFLOW_USE_TEAM_RESTRICTED, PERM_ORGANIZATION_MANAGE,
          PERM_USER_MANAGE, PERM_BUSINESS_PLATFORM_MANAGE, PERM_COPILOT_MANAGE,
          PERM_KNOWLEDGE_GRAPH_MANAGE}),
      (ROLE_ASSOCIATE,
         {PERM_EXPORT_DATA, PERM_WORKFLOW_USE_TEAM_RESTRICTED, PERM_KNOWLEDGE_GRAPH_MANAGE}),
      (ROLE_COUNSEL, {PERM_EXPORT_DATA}),
      (ROLE_PARALEGAL, {}),
      (ROLE_ASSISTANT, {}),
      (ROLE_IT_ADMIN,
         {PERM_ORGANIZATION_MANAGE, PERM_SECRET_MANAGE, PERM_BUSINESS_PLATFORM_MANAGE,
          PERM_COPILOT_MANAGE, PERM_KNOWLEDGE_GRAPH_MANAGE})]"

definition permissions_for :: "role_matrix \<Rightarrow> role \<Rightarrow> permission set" where
  "permissions_for m r = (case dict_get m r of Some ps \<Rightarrow> ps | None \<Rightarrow> {})"

definition rbac_grant :: "role \<Rightarrow> permission \<Rightarrow> role_matrix \<Rightarrow> role_matrix" where
  "rbac_grant r p m = dict_set r (permissions_for m r \<union> {p}) m"

definition rbac_revoke :: "role \<Rightarrow> permission \<Rightarrow> role_matrix \<Rightarrow> role_matrix" where
  "rbac_revoke r p m = dict_set r (permissions_for m r - {p}) m"

definition has_permission :: "role_matrix \<Rightarrow> role list \<Rightarrow> permission \<Rightarrow> bool" where
  "has_permission m roles p \<longleftrightarrow> (\<exists>r \<in> set roles. p \<in> permissions_for m r)"

lemma permissions_for_grant:
  "permissions_for (rbac_grant r p m) r' = (if r' = r then insert p (permissions_for m r) else permissions_for m r')"
  by (simp add: permissions_for_def rbac_grant_def update_conv')

lemma permissions_for_revoke:
  "permissions_for (rbac_revoke r p m) r' = (if r' = r then permissions_for m r - {p} else permissions_for m r')"
  by (simp add: permissions_for_def rbac_revoke_def update_conv')

lemma has_permission_set: "set roles = set roles' \<Longrightarrow> has_permission m roles p = has_permission m roles' p"
  by (simp add: has_permission_def)

section \<open>Identity contexts\<close>

record identity_context =
  ic_user_id :: pystr
  ic_firm_id :: pystr
  ic_specialty :: pystr
  ic_experience_level :: pystr
  ic_seniority_years :: int
  ic_team_id :: "pystr option"
  ic_department_id :: "pystr option"
  ic_language :: pystr
  ic_writing_preferences :: "(pystr, pystr) dict"
  ic_allowed_ai_models :: "pystr list"
  ic_can_validate :: bool
  ic_applicable_policy_ids :: "pystr list"

definition default_identity_context :: "pystr \<Rightarrow> pystr \<Rightarrow> identity_context" where
  "default_identity_context firm user =
     \<lparr>ic_user_id = user, ic_firm_id = firm, ic_specialty = [], ic_experience_level = [],
      ic_seniority_years = 0, ic_team_id = None, ic_department_id = None, ic_language = ''fr'',
      ic_writing_preferences = [], ic_allowed_ai_models = [], ic_can_validate = False,
      ic_applicable_policy_ids = []\<rparr>"

definition context_key :: "identity_context \<Rightarrow> pystr \<times> pystr" where
  "context_key c = (ic_firm_id c, ic_user_id c)"

type_synonym context_store = "(pystr \<times> pystr, identity_context) dict"

definition context_store_save :: "identity_context \<Rightarrow> context_store \<Rightarrow> context_store" where
  [store_defs]: "context_store_save c s = dict_set (context_key c) c s"

definition set_context :: "identity_context \<Rightarrow> context_store \<Rightarrow> identity_context \<times> context_store" where
  "set_context c s = (c, context_store_save c s)"

definition get_context :: "context_store \<Rightarrow> pystr \<Rightarrow> pystr \<Rightarrow> identity_context option" where
  "get_context s firm user = dict_get s (firm, user)"

definition get_or_default_context ::
    "pystr \<Rightarrow> pystr \<Rightarrow> context_store \<Rightarrow> identity_context \<times> context_store" where
  "get_or_default_context firm user s =
     (case get_context s firm user of
        Some c \<Rightarrow> (c, s)
      | None \<Rightarrow> (let c = default_identity_context firm user in (c, context_store_save c s)))"

interpretation context_rows: keyed_store context_key context_store_save dict_get "keyed context_key"
  using keyed_store_dict [of context_key] by (simp add: context_store_save_def [abs_def])

section \<open>Attribute rules\<close>

record abac_attributes =
  at_department_id :: "pystr option"
  at_case_id :: "pystr option"
  at_client_id :: "pystr option"
  at_confidentiality_level :: pystr
  at_context :: pystr

definition default_attributes :: abac_attributes where
  "default_attributes =
     \<lparr>at_department_id = None, at_case_id = None, at_client_id = None,
      at_confidentiality_level = ''standard'', at_context = []\<rparr>"

type_synonym abac_rule = "identity_context \<Rightarrow> abac_attributes \<Rightarrow> bool result"

definition confidentiality_rank :: "(pystr, int) dict" where
  "confidentiality_rank = [(''standard'', 0), (''confidential'', 1), (''privileged'', 2)]"

definition rank_or_zero :: "(pystr, int) dict \<Rightarrow> pystr \<Rightarrow> int" where
  "rank_or_zero ranks k = (case dict_get ranks k of Some n \<Rightarrow> n | None \<Rightarrow> 0)"

definition minimum_seniority_rule :: "int \<Rightarrow> abac_rule" where
  "minimum_seniority_rule min_years i a = Inr (min_years \<le> ic_seniority_years i)"

definition confidentiality_rule :: "(pystr, int) dict \<Rightarrow> abac_rule" where
  "confidentiality_rule min_experience_rank i a =
     (let required_rank = rank_or_zero confidentiality_rank (at_confidentiality_level a);
          actual_rank = rank_or_zero min_experience_rank (ic_experience_level i)
      in Inr (required_rank \<le> actual_rank))"

definition same_department_rule :: abac_rule where
  "same_department_rule i a =
     (case at_department_id a of None \<Rightarrow> Inr True | Some d \<Rightarrow> Inr (ic_department_id i = Some d))"

definition abac_register :: "abac_rule \<Rightarrow> abac_rule list \<Rightarrow> abac_rule list" where
  "abac_register r rules = rules @ [r]"

definition abac_evaluate :: "abac_rule list \<Rightarrow> abac_rule" where
  "abac_evaluate rules i a = all_res (\<lambda>rule. rule i a) rules"

text \<open>The engine the composition root builds.\<close>

definition confidentiality_experience_rank :: "(pystr, int) dict" where
  "confidentiality_experience_rank = [(''junior'', 0), (''senior'', 1), (''partner'', 2)]"

definition get_abac_engine :: "abac_rule list" where
  "get_abac_engine =
     abac_register same_department_rule
       (abac_register (confidentiality_rule confidentiality_experience_rank)
         (abac_register (minimum_seniority_rule 0) []))"

lemma all_res_append:
  "all_res p (xs @ ys) = res_bind (all_res p xs) (\<lambda>b. if b then all_res p ys else Inr False)"
proof (induction xs)
  case Nil
  then show ?case by simp
next
  case (Cons x xs)
  then show ?case by (cases "p x") auto
qed

section \<open>Policies\<close>

datatype policy_effect = PE_ALLOW | PE_DENY

record policy =
  po_id :: pystr
  po_firm_id :: pystr
  po_permission :: permission
  po_effect :: policy_effect
  po_allowed_roles :: "role set"
  po_denied_roles :: "role set"
  po_restricted_to_team_id :: "pystr option"
  po_requires_second_validation :: bool
  po_reason :: pystr
  po_active :: bool

record policy_decision =
  pd_allowed :: bool
  pd_reason :: pystr
  pd_requires_second_validation :: bool

type_synonym policy_store = "(pystr, policy) dict"

definition policy_store_save :: "policy \<Rightarrow> policy_store \<Rightarrow> policy_store" where
  [store_defs]: "policy_store_save p s = dict_set (po_id p) p s"

definition policies_for_permission :: "policy_store \<Rightarrow> pystr \<Rightarrow> permission \<Rightarrow> policy list" where
  "policies_for_permission s firm perm =
     filter (\<lambda>p. po_firm_id p = firm \<and> po_permission p = perm \<and> po_active p) (dict_values s)"

definition policies_for_firm :: "policy_store \<Rightarrow> pystr \<Rightarrow> policy list" where
  "policies_for_firm s firm = filter (\<lambda>p. po_firm_id p = firm) (dict_values s)"

definition create_policy ::
    "pystr \<Rightarrow> pystr \<Rightarrow> permission \<Rightarrow> policy_effect \<Rightarrow> role set \<Rightarrow> role set \<Rightarrow> pystr option \<Rightarrow> bool \<Rightarrow> pystr
       \<Rightarrow> policy_store \<Rightarrow> policy \<times> policy_store" where
  "create_policy new_id firm perm effect allowed denied team second reason s =
     (let p = \<lparr>po_id = new_id, po_firm_id = firm, po_permission = perm, po_effect = effect,
               po_allowed_roles = allowed, po_denied_roles = denied, po_restricted_to_team_id = team,
               po_requires_second_validation = second, po_reason = reason, po_active = True\<rparr>
      in (p, policy_store_save p s))"

definition or_default :: "pystr \<Rightarrow> pystr \<Rightarrow> pystr" where
  "or_default s d = (if s = [] then d else s)"

definition deny :: "pystr \<Rightarrow> policy_decision" where
  "deny reason = \<lparr>pd_allowed = False, pd_reason = reason, pd_requires_second_validation = False\<rparr>"

text \<open>The loop of \<open>evaluate\<close>; \<open>second\<close> is the local \<open>requires_second_validation\<close>.\<close>

fun evaluate_policies ::
    "permission \<Rightarrow> role list \<Rightarrow> pystr option \<Rightarrow> bool \<Rightarrow> policy list \<Rightarrow> policy_decision" where
  "evaluate_policies perm roles team second [] =
     \<lparr>pd_allowed = True, pd_reason = [], pd_requires_second_validation = second\<rparr>"
| "evaluate_policies perm roles team second (p # ps) =
     (if po_denied_roles p \<noteq> {} \<and> (\<exists>r \<in> set roles. r \<in> po_denied_roles p)
      then deny (or_default (po_reason p)
             (''r'' @ [CHR 0xF4] @ ''le refus'' @ [CHR 0xE9] @ '' pour '' @ permission_value perm))
      else if po_allowed_roles p \<noteq> {} \<and> \<not> (\<exists>r \<in> set roles. r \<in> po_allowed_roles p)
      then deny (or_default (po_reason p)
             (''r'' @ [CHR 0xF4] @ ''le non autoris'' @ [CHR 0xE9] @ '' pour '' @ permission_value perm))
      else if po_restricted_to_team_id p \<noteq> None \<and> po_restricted_to_team_id p \<noteq> team
      then deny (or_default (po_reason p)
             (''r'' @ [CHR 0xE9] @ ''serv'' @ [CHR 0xE9] @ '' '' @ [CHR 0xE0] @ '' une '' @ [CHR 0xE9] @
              ''quipe sp'' @ [CHR 0xE9] @ ''cifique''))
      else evaluate_policies perm roles team (second \<or> po_requires_second_validation p) ps)"

definition evaluate_policy ::
    "policy_store \<Rightarrow> pystr \<Rightarrow> permission \<Rightarrow> role list \<Rightarrow> pystr option \<Rightarrow> policy_decision" where
  "evaluate_policy s firm perm roles team =
     evaluate_policies perm roles team False (policies_for_permission s firm perm)"

definition active_policies_for_firm :: "policy_store \<Rightarrow> pystr \<Rightarrow> policy list" where
  "active_policies_for_firm s firm = filter po_active (policies_for_firm s firm)"

interpretation policy_rows: keyed_store po_id policy_store_save dict_get "keyed po_id"
  using keyed_store_dict [of po_id] by (simp add: policy_store_save_def [abs_def])

text \<open>What one policy asks of the caller.\<close>

definition policy_admits :: "role set \<Rightarrow> pystr option \<Rightarrow> policy \<Rightarrow> bool" where
  "policy_admits roles team p \<longleftrightarrow>
     roles \<inter> po_denied_roles p = {} \<and>
     (po_allowed_roles p = {} \<or> roles \<inter> po_allowed_roles p \<noteq> {}) \<and>
     (po_restricted_to_team_id p = None \<or> po_restricted_to_team_id p = team)"

lemma evaluate_policies_step:
  "policy_admits (set roles) team p \<Longrightarrow>
     evaluate_policies perm roles team second (p # ps) =
       evaluate_policies perm roles team (second \<or> po_requires_second_validation p) ps"
  by (auto simp: policy_admits_def)

lemma evaluate_policies_stop:
  "\<not> policy_admits (set roles) team p \<Longrightarrow>
     evaluate_policies perm roles team second (p # ps) = evaluate_policies perm roles team second' [p]"
  by (auto simp: policy_admits_def)

lemma evaluate_policies_refused:
  "\<not> policy_admits (set roles) team p \<Longrightarrow>
     \<not> pd_allowed (evaluate_policies perm roles team second [p]) \<and>
     pd_reason (evaluate_policies perm roles team second [p]) \<noteq> [] \<and>
     (po_reason p \<noteq> [] \<longrightarrow> pd_reason (evaluate_policies perm roles team second [p]) = po_reason p)"
  by (auto simp: policy_admits_def deny_def or_default_def)

lemma evaluate_policies_allowed:
  "\<forall>p \<in> set ps. policy_admits (set roles) team p \<Longrightarrow>
     evaluate_policies perm roles team second ps =
       \<lparr>pd_allowed = True, pd_reason = [],
        pd_requires_second_validation = (second \<or> (\<exists>p \<in> set ps. po_requires_second_validation p))\<rparr>"
  by (induction ps arbitrary: second) (simp_all add: evaluate_policies_step disj_assoc del: evaluate_policies.simps(2))

lemma evaluate_policies_denied:
  assumes "p \<in> set ps" and "\<not> policy_admits (set roles) team p"
  shows "\<exists>before q after. ps = before @ q # after \<and> (\<forall>x \<in> set before. policy_admits (set roles) team x) \<and>
    \<not> policy_admits (set roles) team q \<and>
    evaluate_policies perm roles team second ps = evaluate_policies perm roles team second [q]"
proof -
  obtain before q after where split: "ps = before @ q # after" "\<not> policy_admits (set roles) team q"
      "\<forall>x \<in> set before. policy_admits (set roles) team x"
    using split_list_first_prop [of ps "\<lambda>p. \<not> policy_admits (set roles) team p"] assms by blast
  have "evaluate_policies perm roles team second (before @ q # after) = evaluate_policies perm roles team second' [q]"
    for second second' using split(3)
    by (induction before arbitrary: second)
       (simp_all add: evaluate_policies_step evaluate_policies_stop [OF split(2)] del: evaluate_policies.simps(2))
  then show ?thesis using split by blast
qed

lemma evaluate_policies_iff:
  "pd_allowed (evaluate_policies perm roles team second ps) \<longleftrightarrow> (\<forall>p \<in> set ps. policy_admits (set roles) team p)"
proof (cases "\<forall>p \<in> set ps. policy_admits (set roles) team p")
  case True
  then show ?thesis using evaluate_policies_allowed [of ps] by simp
next
  case False
  then obtain p where "p \<in> set ps" "\<not> policy_admits (set roles) team p" by blast
  then obtain q where "\<not> policy_admits (set roles) team q"
      "evaluate_policies perm roles team second ps = evaluate_policies perm roles team second [q]"
    using evaluate_policies_denied [of p ps roles team perm second] by blast
  then show ?thesis using False evaluate_policies_refused [of roles team q] by simp
qed

lemma evaluate_policies_set:
  "set roles = set roles' \<Longrightarrow> evaluate_policies perm roles team second ps = evaluate_policies perm roles' team second ps"
  by (induction ps arbitrary: second) simp_all

lemma evaluate_policies_effect:
  "evaluate_policies perm roles team second (map (\<lambda>p. p\<lparr>po_effect := e p\<rparr>) ps) =
     evaluate_policies perm roles team second ps"
  by (induction ps arbitrary: second) simp_all

section \<open>The authorization engine\<close>

record authorization =
  az_roles :: role_store
  az_matrix :: role_matrix
  az_rules :: "abac_rule list"
  az_policies :: policy_store

record authorization_decision =
  ad_allowed :: bool
  ad_reason :: pystr
  ad_requires_second_validation :: bool

definition refuse :: "pystr \<Rightarrow> authorization_decision" where
  "refuse reason = \<lparr>ad_allowed = False, ad_reason = reason, ad_requires_second_validation = False\<rparr>"

definition check_authorization ::
    "authorization \<Rightarrow> identity_context \<Rightarrow> permission \<Rightarrow> abac_attributes option \<Rightarrow> authorization_decision result" where
  [op_defs]: "check_authorization az i perm attrs =
     (let attributes = (case attrs of Some a \<Rightarrow> a | None \<Rightarrow> default_attributes);
          roles = roles_for_user (az_roles az) (ic_firm_id i) (ic_user_id i)
      in if \<not> has_permission (az_matrix az) roles perm
         then Inr (refuse (''aucun r'' @ [CHR 0xF4] @ ''le de '' @ py_repr (ic_user_id i) @ '' n'' @
                [CHR 0x27] @ ''accorde '' @ permission_value perm))
         else res_bind (abac_evaluate (az_rules az) i attributes) (\<lambda>ok.
           if \<not> ok
           then Inr (refuse (''condition d'' @ [CHR 0x27] @ ''acc'' @ [CHR 0xE8] @
                  ''s contextuelle (ABAC) non satisfaite''))
           else (let pd = evaluate_policy (az_policies az) (ic_firm_id i) perm roles (ic_team_id i)
                 in if \<not> pd_allowed pd then Inr (refuse (pd_reason pd))
                    else Inr \<lparr>ad_allowed = True, ad_reason = [],
                              ad_requires_second_validation = pd_requires_second_validation pd\<rparr>)))"

text \<open>
  The guard of the API: the identity context is created on first sight, then the decision is
  taken; a refusal is \<open>HTTPException(403)\<close>. The context store it leaves is returned.
\<close>

definition authorize_or_403 ::
    "authorization \<Rightarrow> context_store \<Rightarrow> pystr \<Rightarrow> pystr \<Rightarrow> permission \<Rightarrow> abac_attributes option
       \<Rightarrow> unit result \<times> context_store" where
  [op_defs]: "authorize_or_403 az contexts firm user perm attrs =
     (let (identity, contexts') = get_or_default_context firm user contexts
      in (res_bind (check_authorization az identity perm attrs) (\<lambda>d.
            if \<not> ad_allowed d
            then Inl (HTTPException 403 (or_default (ad_reason d) (''acc'' @ [CHR 0xE8] @ ''s refus'' @ [CHR 0xE9])))
            else Inr ()),
          contexts'))"

section \<open>Tenant isolation\<close>

record tenant_caller =
  tn_firm_id :: pystr
  tn_actor_id :: pystr

definition require_same_firm :: "tenant_caller \<Rightarrow> pystr \<Rightarrow> unit result" where
  "require_same_firm c resource_firm_id =
     (if tn_firm_id c \<noteq> resource_firm_id
      then Inl (TenantAccessError (''Actor '' @ py_repr (tn_actor_id c) @ '' in firm '' @ py_repr (tn_firm_id c) @
             '' attempted to access a resource of firm '' @ py_repr resource_firm_id))
      else Inr ())"

section \<open>The decision\<close>

definition granting_roles :: "authorization \<Rightarrow> identity_context \<Rightarrow> role set" where
  "granting_roles az i = {r. (ic_firm_id i, ic_user_id i, r) \<in> set (az_roles az)}"

lemma set_roles_for_user: "set (roles_for_user (az_roles az) (ic_firm_id i) (ic_user_id i)) = granting_roles az i"
  by (auto simp: granting_roles_def roles_for_user_iff)

definition policy_applies :: "identity_context \<Rightarrow> permission \<Rightarrow> policy \<Rightarrow> bool" where
  "policy_applies i perm p \<longleftrightarrow> po_firm_id p = ic_firm_id i \<and> po_permission p = perm \<and> po_active p"

lemma set_policies_for_permission:
  "set (policies_for_permission s (ic_firm_id i) perm) = {p \<in> set (dict_values s). policy_applies i perm p}"
  by (auto simp: policies_for_permission_def policy_applies_def)

definition rules_total :: "abac_rule list \<Rightarrow> bool" where
  "rules_total rules \<longleftrightarrow> (\<forall>rule \<in> set rules. \<forall>i a. \<exists>b. rule i a = Inr b)"

lemma get_abac_engine_total: "rules_total get_abac_engine"
  by (auto simp: rules_total_def get_abac_engine_def abac_register_def minimum_seniority_rule_def
      confidentiality_rule_def same_department_rule_def Let_def split: option.splits)

lemma abac_evaluate_total: "rules_total rules \<Longrightarrow> abac_evaluate rules i a = Inr (\<forall>rule \<in> set rules. rule i a = Inr True)"
  unfolding abac_evaluate_def
proof (rule all_res_total)
  fix rule assume "rules_total rules" "rule \<in> set rules"
  then obtain b where "rule i a = Inr b" unfolding rules_total_def by blast
  then show "rule i a = Inr (rule i a = Inr True)" by simp
qed

definition effective_attributes :: "abac_attributes option \<Rightarrow> abac_attributes" where
  "effective_attributes attrs = (case attrs of Some a \<Rightarrow> a | None \<Rightarrow> default_attributes)"

definition rbac_grants :: "authorization \<Rightarrow> identity_context \<Rightarrow> permission \<Rightarrow> bool" where
  "rbac_grants az i perm \<longleftrightarrow> (\<exists>r \<in> granting_roles az i. perm \<in> permissions_for (az_matrix az) r)"

definition allows :: "authorization \<Rightarrow> identity_context \<Rightarrow> permission \<Rightarrow> abac_attributes option \<Rightarrow> bool" where
  "allows az i perm attrs =
     (case check_authorization az i perm attrs of Inr d \<Rightarrow> ad_allowed d | Inl e \<Rightarrow> False)"

lemma has_permission_grants:
  "has_permission (az_matrix az) (roles_for_user (az_roles az) (ic_firm_id i) (ic_user_id i)) perm = rbac_grants az i perm"
  by (auto simp: has_permission_def rbac_grants_def granting_roles_def roles_for_user_iff)

text \<open>The decision with its three stages named.\<close>

lemma check_authorization_stages:
  "check_authorization az i perm attrs =
     (if \<not> rbac_grants az i perm
      then Inr (refuse (''aucun r'' @ [CHR 0xF4] @ ''le de '' @ py_repr (ic_user_id i) @ '' n'' @
                [CHR 0x27] @ ''accorde '' @ permission_value perm))
      else res_bind (abac_evaluate (az_rules az) i (effective_attributes attrs)) (\<lambda>ok.
        if \<not> ok then Inr (refuse (''condition d'' @ [CHR 0x27] @ ''acc'' @ [CHR 0xE8] @
                  ''s contextuelle (ABAC) non satisfaite''))
        else (let pd = evaluate_policy (az_policies az) (ic_firm_id i) perm
                         (roles_for_user (az_roles az) (ic_firm_id i) (ic_user_id i)) (ic_team_id i)
              in if \<not> pd_allowed pd then Inr (refuse (pd_reason pd))
                 else Inr \<lparr>ad_allowed = True, ad_reason = [],
                           ad_requires_second_validation = pd_requires_second_validation pd\<rparr>)))"
  by (simp add: check_authorization_def Let_def has_permission_grants effective_attributes_def)

lemma evaluate_policy_iff:
  "pd_allowed (evaluate_policy (az_policies az) (ic_firm_id i) perm
       (roles_for_user (az_roles az) (ic_firm_id i) (ic_user_id i)) team) \<longleftrightarrow>
     (\<forall>p \<in> set (dict_values (az_policies az)). policy_applies i perm p \<longrightarrow> policy_admits (granting_roles az i) team p)"
  by (auto simp: evaluate_policy_def evaluate_policies_iff set_policies_for_permission set_roles_for_user)

text \<open>
  The texts of the three kinds of refusal: no role of the user grants the permission, the ABAC
  condition fails, or a policy refuses, with its own reason if it has one and otherwise the text
  for the first of its three restrictions that the caller does not meet.
\<close>

definition rbac_refusal_text :: "pystr \<Rightarrow> permission \<Rightarrow> pystr" where
  "rbac_refusal_text user perm = ''aucun r'' @ [CHR 0xF4] @ ''le de '' @ py_repr user @ '' n'' @
     [CHR 0x27] @ ''accorde '' @ permission_value perm"

definition abac_refusal_text :: pystr where
  "abac_refusal_text = ''condition d'' @ [CHR 0x27] @ ''acc'' @ [CHR 0xE8] @ ''s contextuelle (ABAC) non satisfaite''"

definition policy_refusal_text :: "permission \<Rightarrow> role set \<Rightarrow> policy \<Rightarrow> pystr" where
  "policy_refusal_text perm roles p =
     (if po_reason p \<noteq> [] then po_reason p
      else if roles \<inter> po_denied_roles p \<noteq> {}
      then ''r'' @ [CHR 0xF4] @ ''le refus'' @ [CHR 0xE9] @ '' pour '' @ permission_value perm
      else if po_allowed_roles p \<noteq> {} \<and> roles \<inter> po_allowed_roles p = {}
      then ''r'' @ [CHR 0xF4] @ ''le non autoris'' @ [CHR 0xE9] @ '' pour '' @ permission_value perm
      else ''r'' @ [CHR 0xE9] @ ''serv'' @ [CHR 0xE9] @ '' '' @ [CHR 0xE0] @ '' une '' @ [CHR 0xE9] @
           ''quipe sp'' @ [CHR 0xE9] @ ''cifique'')"

lemma refusal_texts_not_empty:
  "rbac_refusal_text user perm \<noteq> []" "abac_refusal_text \<noteq> []" "policy_refusal_text perm roles p \<noteq> []"
  by (simp_all add: rbac_refusal_text_def abac_refusal_text_def policy_refusal_text_def)

lemma evaluate_policies_refusal_text:
  assumes "\<not> policy_admits (set roles) team p"
  shows "pd_reason (evaluate_policies perm roles team second [p]) = policy_refusal_text perm (set roles) p"
proof -
  have "(po_denied_roles p \<noteq> {} \<and> (\<exists>r \<in> set roles. r \<in> po_denied_roles p)) = (set roles \<inter> po_denied_roles p \<noteq> {})"
    and "(\<exists>r \<in> set roles. r \<in> po_allowed_roles p) = (set roles \<inter> po_allowed_roles p \<noteq> {})" by blast+
  then show ?thesis
    using assms unfolding evaluate_policies.simps policy_refusal_text_def policy_admits_def or_default_def deny_def
    by (cases "po_reason p = []") auto
qed

text \<open>A refusal by a policy is that of the first policy that refuses, and gives its reason.\<close>

lemma policy_refusal:
  fixes pd :: policy_decision
  assumes pd_def: "pd = evaluate_policy (az_policies az) (ic_firm_id i) perm
      (roles_for_user (az_roles az) (ic_firm_id i) (ic_user_id i)) team"
  assumes refused: "\<not> pd_allowed pd"
  shows "\<exists>before q after. policies_for_permission (az_policies az) (ic_firm_id i) perm = before @ q # after \<and>
       (\<forall>p \<in> set before. policy_admits (granting_roles az i) team p) \<and>
       \<not> policy_admits (granting_roles az i) team q \<and> pd_reason pd = policy_refusal_text perm (granting_roles az i) q"
proof -
  let ?roles = "roles_for_user (az_roles az) (ic_firm_id i) (ic_user_id i)"
  let ?ps = "policies_for_permission (az_policies az) (ic_firm_id i) perm"
  have eq: "pd = evaluate_policies perm ?roles team False ?ps" by (simp add: pd_def evaluate_policy_def)
  then obtain p where "p \<in> set ?ps" "\<not> policy_admits (set ?roles) team p"
    using refused unfolding eq evaluate_policies_iff by blast
  then obtain before q after where q: "?ps = before @ q # after"
      "\<forall>x \<in> set before. policy_admits (granting_roles az i) team x" "\<not> policy_admits (granting_roles az i) team q"
      "pd = evaluate_policies perm ?roles team False [q]"
    using evaluate_policies_denied [of p ?ps ?roles team perm False] unfolding eq set_roles_for_user by blast
  have "pd_reason pd = policy_refusal_text perm (granting_roles az i) q"
    using evaluate_policies_refusal_text [of ?roles team q perm False] q(3) unfolding q(4) set_roles_for_user by blast
  then show ?thesis using q(1-3) by blast
qed

lemma allows_iff:
  "allows az i perm attrs \<longleftrightarrow>
     rbac_grants az i perm \<and> abac_evaluate (az_rules az) i (effective_attributes attrs) = Inr True \<and>
     (\<forall>p \<in> set (dict_values (az_policies az)). policy_applies i perm p \<longrightarrow>
        policy_admits (granting_roles az i) (ic_team_id i) p)"
  unfolding allows_def check_authorization_stages evaluate_policy_iff [symmetric]
  by (cases "abac_evaluate (az_rules az) i (effective_attributes attrs)") (auto simp: Let_def refuse_def)

lemma authorization_total: "rules_total (az_rules az) \<Longrightarrow> \<exists>d. check_authorization az i perm attrs = Inr d"
  by (auto simp: check_authorization_stages abac_evaluate_total Let_def)

definition demo_authorization :: authorization where
  "demo_authorization =
     \<lparr>az_roles = [(''f'', ''ana'', ROLE_PARTNER), (''f'', ''bob'', ROLE_ASSOCIATE)],
      az_matrix = default_role_permissions, az_rules = get_abac_engine,
      az_policies = snd (create_policy ''idpol-1'' ''f'' PERM_EXPORT_DATA PE_DENY {ROLE_PARTNER} {} None True
                           ''export reserve aux associes'' [])\<rparr>"

definition demo_identity :: "pystr \<Rightarrow> identity_context" where
  "demo_identity user = default_identity_context ''f'' user"

lemma demo_rules_total: "rules_total (az_rules demo_authorization)"
  by (simp add: demo_authorization_def get_abac_engine_total)

lemmas demo_check_defs =
  check_authorization_def demo_authorization_def demo_identity_def default_identity_context_def
  roles_for_user_def role_store_list_for_user_def has_permission_def permissions_for_def
  default_role_permissions_def abac_evaluate_def get_abac_engine_def abac_register_def
  minimum_seniority_rule_def confidentiality_rule_def same_department_rule_def rank_or_zero_def
  confidentiality_rank_def confidentiality_experience_rank_def default_attributes_def
  evaluate_policy_def policies_for_permission_def create_policy_def policy_store_save_def
  deny_def or_default_def refuse_def Let_def

text \<open>
  C6. The central decision, exactly. When no registered rule raises, a check is granted just when
  some role the user holds in the identity's firm carries the permission, every registered ABAC
  rule accepts the (given or default) attributes, and every active policy of the firm on that
  permission admits the user's roles and team. A grant carries the second-validation flag just
  when one of those policies asks for it. A refusal carries the exact text of the first layer that
  refuses: that no role of the user grants the permission, that the ABAC condition is not met, or
  that of the first policy that does not admit the caller - its own reason, or when it has none the
  default text for the restriction that fails.
\<close>
theorem authorization_exact:
  assumes total: "rules_total (az_rules az)"
  shows "\<exists>d. check_authorization az i perm attrs = Inr d \<and>
    (ad_allowed d \<longleftrightarrow>
       (\<exists>r \<in> granting_roles az i. perm \<in> permissions_for (az_matrix az) r) \<and>
       (\<forall>rule \<in> set (az_rules az). rule i (effective_attributes attrs) = Inr True) \<and>
       (\<forall>p \<in> set (dict_values (az_policies az)). policy_applies i perm p \<longrightarrow>
          policy_admits (granting_roles az i) (ic_team_id i) p)) \<and>
    (ad_allowed d \<longrightarrow> ad_reason d = [] \<and>
       (ad_requires_second_validation d \<longleftrightarrow>
          (\<exists>p \<in> set (dict_values (az_policies az)). policy_applies i perm p \<and> po_requires_second_validation p))) \<and>
    (\<not> ad_allowed d \<longrightarrow> ad_reason d \<noteq> [] \<and> \<not> ad_requires_second_validation d \<and>
       (if \<not> (\<exists>r \<in> granting_roles az i. perm \<in> permissions_for (az_matrix az) r)
        then ad_reason d = rbac_refusal_text (ic_user_id i) perm
        else if \<not> (\<forall>rule \<in> set (az_rules az). rule i (effective_attributes attrs) = Inr True)
        then ad_reason d = abac_refusal_text
        else (\<exists>before q after. policies_for_permission (az_policies az) (ic_firm_id i) perm = before @ q # after \<and>
           (\<forall>p \<in> set before. policy_admits (granting_roles az i) (ic_team_id i) p) \<and>
           \<not> policy_admits (granting_roles az i) (ic_team_id i) q \<and>
           ad_reason d = policy_refusal_text perm (granting_roles az i) q)))"
proof -
  let ?ok = "\<forall>rule \<in> set (az_rules az). rule i (effective_attributes attrs) = Inr True"
  let ?roles = "roles_for_user (az_roles az) (ic_firm_id i) (ic_user_id i)"
  let ?ps = "policies_for_permission (az_policies az) (ic_firm_id i) perm"
  let ?pd = "evaluate_policy (az_policies az) (ic_firm_id i) perm ?roles (ic_team_id i)"
  have abac: "abac_evaluate (az_rules az) i (effective_attributes attrs) = Inr ?ok"
    by (rule abac_evaluate_total [OF total])
  have pd: "?pd = evaluate_policies perm ?roles (ic_team_id i) False ?ps" by (simp add: evaluate_policy_def)
  note stages = check_authorization_stages [folded rbac_refusal_text_def abac_refusal_text_def]
  consider (no) "\<not> (rbac_grants az i perm \<and> ?ok)" | (granted) "rbac_grants az i perm" ?ok "pd_allowed ?pd"
    | (refused) "rbac_grants az i perm" ?ok "\<not> pd_allowed ?pd" by blast
  then show ?thesis
  proof cases
    case no
    then show ?thesis
      unfolding stages abac by (auto simp: refuse_def rbac_grants_def refusal_texts_not_empty)
  next
    case granted
    have admits: "\<forall>p \<in> set ?ps. policy_admits (set ?roles) (ic_team_id i) p"
      using granted(3) unfolding pd evaluate_policies_iff .
    have "pd_requires_second_validation ?pd \<longleftrightarrow> (\<exists>p \<in> set ?ps. po_requires_second_validation p)"
      unfolding pd by (simp add: evaluate_policies_allowed [OF admits])
    then show ?thesis using granted admits
      unfolding stages abac
      by (auto simp: Let_def rbac_grants_def set_policies_for_permission set_roles_for_user)
  next
    case refused
    let ?d = "refuse (pd_reason ?pd)"
    note q = policy_refusal [OF refl refused(3)]
    have d: "check_authorization az i perm attrs = Inr ?d"
      using refused unfolding stages abac by (simp add: Let_def)
    have "\<not> (\<forall>p \<in> set (dict_values (az_policies az)). policy_applies i perm p \<longrightarrow>
          policy_admits (granting_roles az i) (ic_team_id i) p)"
      using refused(3) by (simp only: evaluate_policy_iff not_False_eq_True)
    moreover have "\<not> ad_allowed ?d" "\<not> ad_requires_second_validation ?d" "ad_reason ?d = pd_reason ?pd"
      by (simp_all add: refuse_def)
    moreover have "pd_reason ?pd \<noteq> []" using q refusal_texts_not_empty(3) by (elim exE conjE) simp
    ultimately show ?thesis unfolding d using refused(1,2) q
      by (intro exI [of _ ?d] conjI) (simp_all add: rbac_grants_def)
  qed
qed

theorem authorization_exact_witness:
  "check_authorization demo_authorization (demo_identity ''bob'') PERM_EXPORT_DATA None =
     Inr (refuse ''export reserve aux associes'') \<and>
   (\<exists>d. check_authorization demo_authorization (demo_identity ''eve'') PERM_EXPORT_DATA None = Inr d \<and>
      ad_reason d = rbac_refusal_text ''eve'' PERM_EXPORT_DATA) \<and>
   (\<exists>d. check_authorization demo_authorization (demo_identity ''ana'') PERM_EXPORT_DATA None = Inr d \<and>
      ad_allowed d \<and> ad_requires_second_validation d)"
proof -
  have bob: "check_authorization demo_authorization (demo_identity ''bob'') PERM_EXPORT_DATA None =
     Inr (refuse ''export reserve aux associes'')"
    by (simp add: demo_check_defs)
  obtain d where d: "check_authorization demo_authorization (demo_identity ''ana'') PERM_EXPORT_DATA None = Inr d"
      "ad_allowed d \<longrightarrow> ad_reason d = [] \<and>
       (ad_requires_second_validation d \<longleftrightarrow>
          (\<exists>p \<in> set (dict_values (az_policies demo_authorization)).
             policy_applies (demo_identity ''ana'') PERM_EXPORT_DATA p \<and> po_requires_second_validation p))"
    using authorization_exact [OF demo_rules_total, of "demo_identity ''ana''" PERM_EXPORT_DATA None] by blast
  have "(case check_authorization demo_authorization (demo_identity ''ana'') PERM_EXPORT_DATA None of
      Inr d \<Rightarrow> ad_allowed d \<and> ad_requires_second_validation d | Inl _ \<Rightarrow> False)"
    by (simp add: demo_check_defs)
  moreover have "\<not> rbac_grants demo_authorization (demo_identity ''eve'') PERM_EXPORT_DATA"
    by (simp add: rbac_grants_def granting_roles_def demo_authorization_def demo_identity_def default_identity_context_def)
  then have "\<exists>d. check_authorization demo_authorization (demo_identity ''eve'') PERM_EXPORT_DATA None = Inr d \<and>
      ad_reason d = rbac_refusal_text ''eve'' PERM_EXPORT_DATA"
    using authorization_exact [OF demo_rules_total, of "demo_identity ''eve''" PERM_EXPORT_DATA None]
    by (auto simp: demo_identity_def default_identity_context_def rbac_grants_def)
  ultimately show ?thesis using bob d by simp
qed

text \<open>
  C7. Each layer only restricts, never the reverse. A grant presupposes a role that carries the
  permission; registering one more ABAC rule or creating one more policy (under a new id) never
  turns a refusal into a grant; a policy of another firm or on another permission, and a role
  given to or taken from another user or in another firm, change no decision. The \<open>effect\<close> of a
  policy (\<open>allow\<close> or \<open>deny\<close>) has no influence at all.
\<close>
theorem layers_only_restrict:
  assumes fresh: "dict_get (az_policies az) new_id = None"
  shows "(allows az i perm attrs \<longrightarrow> rbac_grants az i perm) \<and>
    (allows (az\<lparr>az_rules := abac_register rule (az_rules az)\<rparr>) i perm attrs \<longrightarrow> allows az i perm attrs) \<and>
    (let az' = az\<lparr>az_policies := snd (create_policy new_id firm p effect allowed denied team second reason
                 (az_policies az))\<rparr>
     in (allows az' i perm attrs \<longrightarrow> allows az i perm attrs) \<and>
        (firm \<noteq> ic_firm_id i \<or> p \<noteq> perm \<longrightarrow>
           check_authorization az' i perm attrs = check_authorization az i perm attrs)) \<and>
    ((f, u) \<noteq> (ic_firm_id i, ic_user_id i) \<longrightarrow>
       check_authorization (az\<lparr>az_roles := snd (assign_role f u r (az_roles az))\<rparr>) i perm attrs =
         check_authorization az i perm attrs \<and>
       check_authorization (az\<lparr>az_roles := revoke_role f u r (az_roles az)\<rparr>) i perm attrs =
         check_authorization az i perm attrs) \<and>
    check_authorization (az\<lparr>az_policies := map (\<lambda>(k, q). (k, q\<lparr>po_effect := e q\<rparr>)) (az_policies az)\<rparr>) i perm attrs =
      check_authorization az i perm attrs"
proof (intro conjI)
  show "allows az i perm attrs \<longrightarrow> rbac_grants az i perm" by (simp add: allows_iff)
next
  show "allows (az\<lparr>az_rules := abac_register rule (az_rules az)\<rparr>) i perm attrs \<longrightarrow> allows az i perm attrs"
    by (auto simp: allows_iff rbac_grants_def granting_roles_def abac_evaluate_def abac_register_def
        all_res_append res_bind_Inr_iff split: if_splits)
next
  show "let az' = az\<lparr>az_policies := snd (create_policy new_id firm p effect allowed denied team second reason
                 (az_policies az))\<rparr>
     in (allows az' i perm attrs \<longrightarrow> allows az i perm attrs) \<and>
        (firm \<noteq> ic_firm_id i \<or> p \<noteq> perm \<longrightarrow>
           check_authorization az' i perm attrs = check_authorization az i perm attrs)"
  proof -
    let ?made = "create_policy new_id firm p effect allowed denied team second reason (az_policies az)"
    define az' where "az' = az\<lparr>az_policies := snd ?made\<rparr>"
    have made: "snd ?made = az_policies az @ [(new_id, fst ?made)]"
      "po_firm_id (fst ?made) = firm" "po_permission (fst ?made) = p"
      by (simp_all add: create_policy_def policy_store_save_def dict_set_fresh [OF fresh] Let_def)
    have "allows az' i perm attrs \<longrightarrow> allows az i perm attrs"
      by (simp add: az'_def allows_iff rbac_grants_def granting_roles_def made)
    moreover have "check_authorization az' i perm attrs = check_authorization az i perm attrs"
      if "firm \<noteq> ic_firm_id i \<or> p \<noteq> perm"
    proof -
      have "policies_for_permission (snd ?made) (ic_firm_id i) perm =
          policies_for_permission (az_policies az) (ic_firm_id i) perm"
        unfolding made(1) using that made(2,3) by (auto simp: policies_for_permission_def)
      then show ?thesis by (simp add: az'_def check_authorization_def evaluate_policy_def cong: if_cong)
    qed
    ultimately show ?thesis unfolding az'_def Let_def by blast
  qed
next
  show "(f, u) \<noteq> (ic_firm_id i, ic_user_id i) \<longrightarrow>
       check_authorization (az\<lparr>az_roles := snd (assign_role f u r (az_roles az))\<rparr>) i perm attrs =
         check_authorization az i perm attrs \<and>
       check_authorization (az\<lparr>az_roles := revoke_role f u r (az_roles az)\<rparr>) i perm attrs =
         check_authorization az i perm attrs"
  proof
    assume other: "(f, u) \<noteq> (ic_firm_id i, ic_user_id i)"
    show "check_authorization (az\<lparr>az_roles := snd (assign_role f u r (az_roles az))\<rparr>) i perm attrs =
         check_authorization az i perm attrs \<and>
       check_authorization (az\<lparr>az_roles := revoke_role f u r (az_roles az)\<rparr>) i perm attrs =
         check_authorization az i perm attrs"
      by (simp add: check_authorization_def roles_for_user_other [OF other] cong: if_cong)
  qed
next
  let ?s = "map (\<lambda>(k, q). (k, q\<lparr>po_effect := e q\<rparr>)) (az_policies az)"
  have "policies_for_permission (map (\<lambda>(k, q). (k, q\<lparr>po_effect := e q\<rparr>)) s) firm' perm =
      map (\<lambda>q. q\<lparr>po_effect := e q\<rparr>) (policies_for_permission s firm' perm)" for s firm'
    by (induction s) (auto simp: policies_for_permission_def)
  then have same: "evaluate_policy ?s firm' perm roles team = evaluate_policy (az_policies az) firm' perm roles team"
    for firm' roles team
    unfolding evaluate_policy_def by (simp add: evaluate_policies_effect)
  have "az_policies (az\<lparr>az_policies := ?s\<rparr>) = ?s" "az_roles (az\<lparr>az_policies := ?s\<rparr>) = az_roles az"
    "az_rules (az\<lparr>az_policies := ?s\<rparr>) = az_rules az" "az_matrix (az\<lparr>az_policies := ?s\<rparr>) = az_matrix az"
    by simp_all
  then show "check_authorization (az\<lparr>az_policies := ?s\<rparr>) i perm attrs = check_authorization az i perm attrs"
    unfolding check_authorization_def by (simp only: same)
qed

theorem layers_only_restrict_witness:
  "check_authorization (demo_authorization\<lparr>az_roles := snd (assign_role ''g'' ''bob'' ROLE_PARTNER (az_roles demo_authorization))\<rparr>)
     (demo_identity ''bob'') PERM_EXPORT_DATA None =
   check_authorization demo_authorization (demo_identity ''bob'') PERM_EXPORT_DATA None"
proof -
  have fresh: "dict_get (az_policies demo_authorization) ''idpol-2'' = None"
    by (simp add: demo_authorization_def create_policy_def policy_store_save_def Let_def)
  show ?thesis
    using layers_only_restrict [OF fresh, where f = "''g''" and u = "''bob''" and r = ROLE_PARTNER
        and i = "demo_identity ''bob''" and perm = PERM_EXPORT_DATA and attrs = None]
    by (simp add: demo_identity_def default_identity_context_def)
qed

text \<open>
  The guard. It passes just when the central engine grants the permission to the user's
  stored identity context, or to the default one if none is stored; otherwise it raises HTTP 403
  with a non-empty detail. Its only side effect is to store the default context of an unknown
  user; asking again gives the same answer and changes nothing more.
\<close>
theorem guard_exact:
  assumes total: "rules_total (az_rules az)"
  shows "let i = (case get_context contexts firm user of Some c \<Rightarrow> c | None \<Rightarrow> default_identity_context firm user);
             answer = authorize_or_403 az contexts firm user perm attrs
    in (fst answer = Inr () \<longleftrightarrow> allows az i perm attrs) \<and>
       (\<not> allows az i perm attrs \<longrightarrow> (\<exists>detail. detail \<noteq> [] \<and> fst answer = Inl (HTTPException 403 detail))) \<and>
       get_context (snd answer) firm user = Some i \<and>
       (\<forall>firm' user'. (firm', user') \<noteq> (firm, user) \<longrightarrow>
          get_context (snd answer) firm' user' = get_context contexts firm' user') \<and>
       authorize_or_403 az (snd answer) firm user perm attrs = answer"
proof -
  define i where "i = (case get_context contexts firm user of Some c \<Rightarrow> c | None \<Rightarrow> default_identity_context firm user)"
  define contexts' where "contexts' = snd (get_or_default_context firm user contexts)"
  have gd: "get_or_default_context firm user contexts = (i, contexts')"
    by (simp add: contexts'_def i_def get_or_default_context_def Let_def split: option.splits)
  have get: "get_context contexts' firm user = Some i"
    by (auto simp: contexts'_def i_def get_or_default_context_def get_context_def context_store_save_def
        context_key_def default_identity_context_def update_conv' Let_def split: option.splits)
  have again: "get_or_default_context firm user contexts' = (i, contexts')"
    using get by (simp add: get_or_default_context_def)
  obtain d where d: "check_authorization az i perm attrs = Inr d"
    using authorization_total [OF total] by blast
  define r where "r = (if ad_allowed d then Inr () else Inl (HTTPException 403
     (or_default (ad_reason d) (''acc'' @ [CHR 0xE8] @ ''s refus'' @ [CHR 0xE9]))))"
  have answer: "authorize_or_403 az contexts firm user perm attrs = (r, contexts')"
    "authorize_or_403 az contexts' firm user perm attrs = (r, contexts')"
    by (simp_all add: authorize_or_403_def gd again d r_def)
  have "allows az i perm attrs \<longleftrightarrow> ad_allowed d" by (simp add: allows_def d)
  moreover have "or_default (ad_reason d) (''acc'' @ [CHR 0xE8] @ ''s refus'' @ [CHR 0xE9]) \<noteq> []"
    by (simp add: or_default_def)
  moreover have "get_context contexts' firm' user' = get_context contexts firm' user'"
    if "(firm', user') \<noteq> (firm, user)" for firm' user'
    using that by (auto simp: contexts'_def get_or_default_context_def get_context_def context_store_save_def
        context_key_def default_identity_context_def update_conv' Let_def split: option.splits)
  ultimately show ?thesis
    unfolding Let_def i_def [symmetric] answer fst_conv snd_conv using get by (auto simp: r_def)
qed

theorem guard_exact_witness:
  "\<exists>detail. detail \<noteq> [] \<and>
     fst (authorize_or_403 demo_authorization [] ''f'' ''eve'' PERM_USER_MANAGE None) = Inl (HTTPException 403 detail)"
proof -
  have "\<not> allows demo_authorization (default_identity_context ''f'' ''eve'') PERM_USER_MANAGE None"
    by (simp add: allows_iff rbac_grants_def granting_roles_def demo_authorization_def default_identity_context_def)
  then show ?thesis
    using guard_exact [OF demo_rules_total, where contexts = "[]" and firm = "''f''" and user = "''eve''"
        and perm = PERM_USER_MANAGE and attrs = None]
    by (simp add: Let_def get_context_def)
qed

end
