(* ===== verification/Tenants.thy ===== *)
theory Tenants
  imports PyText
begin

text \<open>
  The tenants of \<^verbatim>\<open>identity_platform\<close>: organizations, departments, teams, users and tenant
  profiles, each an in-memory store with its engine, and the onboarding and hierarchy facade of
  \<^verbatim>\<open>tenant_management\<close> over the five. New ids and the clock are arguments.
\<close>

section \<open>Organizations\<close>

datatype organization_status = OS_ACTIVE | OS_SUSPENDED | OS_ARCHIVED

record organization =
  og_firm_id :: pystr
  og_legal_name :: pystr
  og_status :: organization_status
  og_created_at :: datetime

type_synonym organization_store = "(pystr, organization) dict"

definition organization_store_save :: "organization \<Rightarrow> organization_store \<Rightarrow> organization_store" where
  [store_defs]: "organization_store_save g s = dict_set (og_firm_id g) g s"

definition create_organization ::
    "datetime \<Rightarrow> pystr \<Rightarrow> pystr \<Rightarrow> organization_store \<Rightarrow> organization \<times> organization_store" where
  [op_defs]: "create_organization now firm legal_name s =
     (let g = \<lparr>og_firm_id = firm, og_legal_name = legal_name, og_status = OS_ACTIVE, og_created_at = now\<rparr>
      in (g, organization_store_save g s))"

definition get_organization :: "pystr \<Rightarrow> organization_store \<Rightarrow> organization result" where
  [op_defs]: "get_organization firm s =
     (case dict_get s firm of None \<Rightarrow> Inl (KeyError firm) | Some g \<Rightarrow> Inr g)"

definition set_organization_status ::
    "pystr \<Rightarrow> organization_status \<Rightarrow> organization_store \<Rightarrow> organization result \<times> organization_store" where
  [op_defs]: "set_organization_status firm status s =
     (case get_organization firm s of
        Inl e \<Rightarrow> (Inl e, s)
      | Inr g \<Rightarrow> (let g' = g\<lparr>og_status := status\<rparr> in (Inr g', organization_store_save g' s)))"

definition all_organizations :: "organization_store \<Rightarrow> organization list" where
  "all_organizations s = dict_values s"

interpretation organization_rows: keyed_store og_firm_id organization_store_save dict_get "keyed og_firm_id"
  using keyed_store_dict [of og_firm_id] by (simp add: organization_store_save_def [abs_def])

section \<open>Departments, teams and users\<close>

text \<open>
  These three stores are keyed by the object's id alone, whatever its firm; a lookup with another
  firm finds nothing.
\<close>

record department =
  dp_id :: pystr
  dp_firm_id :: pystr
  dp_name :: pystr

type_synonym department_store = "(pystr, department) dict"

definition department_store_save :: "department \<Rightarrow> department_store \<Rightarrow> department_store" where
  [store_defs]: "department_store_save d s = dict_set (dp_id d) d s"

definition department_store_get :: "department_store \<Rightarrow> pystr \<Rightarrow> pystr \<Rightarrow> department option" where
  "department_store_get s firm i =
     (case dict_get s i of None \<Rightarrow> None | Some d \<Rightarrow> if dp_firm_id d \<noteq> firm then None else Some d)"

definition departments_for_firm :: "department_store \<Rightarrow> pystr \<Rightarrow> department list" where
  "departments_for_firm s firm = rows_by_value dp_firm_id s firm"

definition create_department ::
    "pystr \<Rightarrow> pystr \<Rightarrow> pystr \<Rightarrow> department_store \<Rightarrow> department \<times> department_store" where
  [op_defs]: "create_department new_id firm name s =
     (let d = \<lparr>dp_id = new_id, dp_firm_id = firm, dp_name = name\<rparr> in (d, department_store_save d s))"

definition get_department :: "pystr \<Rightarrow> pystr \<Rightarrow> department_store \<Rightarrow> department result" where
  [op_defs]: "get_department firm i s =
     (case department_store_get s firm i of None \<Rightarrow> Inl (KeyError i) | Some d \<Rightarrow> Inr d)"

record team =
  tm_id :: pystr
  tm_firm_id :: pystr
  tm_department_id :: pystr
  tm_name :: pystr

type_synonym team_store = "(pystr, team) dict"

definition team_store_save :: "team \<Rightarrow> team_store \<Rightarrow> team_store" where
  [store_defs]: "team_store_save t s = dict_set (tm_id t) t s"

definition team_store_get :: "team_store \<Rightarrow> pystr \<Rightarrow> pystr \<Rightarrow> team option" where
  "team_store_get s firm i =
     (case dict_get s i of None \<Rightarrow> None | Some t \<Rightarrow> if tm_firm_id t \<noteq> firm then None else Some t)"

definition teams_for_department :: "team_store \<Rightarrow> pystr \<Rightarrow> pystr \<Rightarrow> team list" where
  "teams_for_department s firm department =
     filter (\<lambda>t. tm_firm_id t = firm \<and> tm_department_id t = department) (dict_values s)"

definition create_team :: "pystr \<Rightarrow> pystr \<Rightarrow> pystr \<Rightarrow> pystr \<Rightarrow> team_store \<Rightarrow> team \<times> team_store" where
  [op_defs]: "create_team new_id firm department name s =
     (let t = \<lparr>tm_id = new_id, tm_firm_id = firm, tm_department_id = department, tm_name = name\<rparr>
      in (t, team_store_save t s))"

definition get_team :: "pystr \<Rightarrow> pystr \<Rightarrow> team_store \<Rightarrow> team result" where
  [op_defs]: "get_team firm i s = (case team_store_get s firm i of None \<Rightarrow> Inl (KeyError i) | Some t \<Rightarrow> Inr t)"

datatype user_status = US_ACTIVE | US_SUSPENDED | US_DEACTIVATED

record user =
  us_id :: pystr
  us_firm_id :: pystr
  us_email :: pystr
  us_display_name :: pystr
  us_team_id :: "pystr option"
  us_department_id :: "pystr option"
  us_status :: user_status

type_synonym user_store = "(pystr, user) dict"

definition user_store_save :: "user \<Rightarrow> user_store \<Rightarrow> user_store" where
  [store_defs]: "user_store_save u s = dict_set (us_id u) u s"

definition user_store_get :: "user_store \<Rightarrow> pystr \<Rightarrow> pystr \<Rightarrow> user option" where
  "user_store_get s firm i =
     (case dict_get s i of None \<Rightarrow> None | Some u \<Rightarrow> if us_firm_id u \<noteq> firm then None else Some u)"

definition user_store_get_by_email :: "user_store \<Rightarrow> pystr \<Rightarrow> pystr \<Rightarrow> user option" where
  "user_store_get_by_email s firm email = find (\<lambda>u. us_firm_id u = firm \<and> us_email u = email) (dict_values s)"

definition users_for_firm :: "user_store \<Rightarrow> pystr \<Rightarrow> user list" where
  "users_for_firm s firm = rows_by_value us_firm_id s firm"

definition create_user ::
    "pystr \<Rightarrow> pystr \<Rightarrow> pystr \<Rightarrow> pystr \<Rightarrow> pystr option \<Rightarrow> pystr option \<Rightarrow> user_store \<Rightarrow> user \<times> user_store" where
  [op_defs]: "create_user new_id firm email display_name tid did s =
     (let u = \<lparr>us_id = new_id, us_firm_id = firm, us_email = email, us_display_name = display_name,
               us_team_id = tid, us_department_id = did, us_status = US_ACTIVE\<rparr>
      in (u, user_store_save u s))"

definition get_user :: "pystr \<Rightarrow> pystr \<Rightarrow> user_store \<Rightarrow> user result" where
  [op_defs]: "get_user firm i s = (case user_store_get s firm i of None \<Rightarrow> Inl (KeyError i) | Some u \<Rightarrow> Inr u)"

definition set_user_status ::
    "pystr \<Rightarrow> pystr \<Rightarrow> user_status \<Rightarrow> user_store \<Rightarrow> user result \<times> user_store" where
  [op_defs]: "set_user_status firm i status s =
     (case get_user firm i s of
        Inl e \<Rightarrow> (Inl e, s)
      | Inr u \<Rightarrow> (let u' = u\<lparr>us_status := status\<rparr> in (Inr u', user_store_save u' s)))"

interpretation department_rows: keyed_store dp_id department_store_save dict_get "keyed dp_id"
  using keyed_store_dict [of dp_id] by (simp add: department_store_save_def [abs_def])

interpretation team_rows: keyed_store tm_id team_store_save dict_get "keyed tm_id"
  using keyed_store_dict [of tm_id] by (simp add: team_store_save_def [abs_def])

interpretation user_rows: keyed_store us_id user_store_save dict_get "keyed us_id"
  using keyed_store_dict [of us_id] by (simp add: user_store_save_def [abs_def])

section \<open>Tenant profiles\<close>

record tenant_quota =
  tq_max_users :: int
  tq_max_storage_gb :: int
  tq_max_ai_requests_per_day :: int

definition default_tenant_quota :: tenant_quota where
  "default_tenant_quota = \<lparr>tq_max_users = 500, tq_max_storage_gb = 1000, tq_max_ai_requests_per_day = 10000\<rparr>"

record tenant_branding =
  br_display_name :: pystr
  br_logo_url :: pystr
  br_primary_color :: pystr

record tenant_profile =
  pf_firm_id :: pystr
  pf_quota :: tenant_quota
  pf_branding :: "tenant_branding option"
  pf_is_active :: bool
  pf_created_at :: datetime

type_synonym profile_store = "(pystr, tenant_profile) dict"

definition profile_store_save :: "tenant_profile \<Rightarrow> profile_store \<Rightarrow> profile_store" where
  [store_defs]: "profile_store_save p s = dict_set (pf_firm_id p) p s"

definition provision_tenant ::
    "datetime \<Rightarrow> pystr \<Rightarrow> tenant_quota option \<Rightarrow> tenant_branding option \<Rightarrow> profile_store
       \<Rightarrow> tenant_profile \<times> profile_store" where
  [op_defs]: "provision_tenant now firm quota branding s =
     (let p = \<lparr>pf_firm_id = firm, pf_quota = (case quota of Some q \<Rightarrow> q | None \<Rightarrow> default_tenant_quota),
               pf_branding = branding, pf_is_active = True, pf_created_at = now\<rparr>
      in (p, profile_store_save p s))"

definition set_tenant_active :: "bool \<Rightarrow> pystr \<Rightarrow> profile_store \<Rightarrow> tenant_profile result \<times> profile_store" where
  [op_defs]: "set_tenant_active active firm s =
     (case dict_get s firm of
        None \<Rightarrow> (Inl (KeyError firm), s)
      | Some p \<Rightarrow> (let p' = p\<lparr>pf_is_active := active\<rparr> in (Inr p', profile_store_save p' s)))"

definition deactivate_tenant :: "pystr \<Rightarrow> profile_store \<Rightarrow> tenant_profile result \<times> profile_store" where
  "deactivate_tenant firm s = set_tenant_active False firm s"

definition activate_tenant :: "pystr \<Rightarrow> profile_store \<Rightarrow> tenant_profile result \<times> profile_store" where
  "activate_tenant firm s = set_tenant_active True firm s"

interpretation profile_rows: keyed_store pf_firm_id profile_store_save dict_get "keyed pf_firm_id"
  using keyed_store_dict [of pf_firm_id] by (simp add: profile_store_save_def [abs_def])

section \<open>Onboarding and the hierarchy\<close>

record tenants =
  tt_organizations :: organization_store
  tt_departments :: department_store
  tt_teams :: team_store
  tt_users :: user_store
  tt_profiles :: profile_store

record tenant_hierarchy_view =
  hv_organization :: organization
  hv_tenant_profile :: tenant_profile
  hv_departments :: "department list"
  hv_teams :: "team list"
  hv_users :: "user list"

definition onboard_firm ::
    "datetime \<Rightarrow> pystr \<Rightarrow> pystr \<Rightarrow> tenant_quota option \<Rightarrow> tenant_branding option \<Rightarrow> tenants
       \<Rightarrow> organization \<times> tenants" where
  [op_defs]: "onboard_firm now firm legal_name quota branding t =
     (let (profile, profiles) = provision_tenant now firm quota branding (tt_profiles t);
          (g, organizations) = create_organization now firm legal_name (tt_organizations t)
      in (g, t\<lparr>tt_profiles := profiles, tt_organizations := organizations\<rparr>))"

definition hierarchy :: "pystr \<Rightarrow> tenants \<Rightarrow> tenant_hierarchy_view result" where
  [op_defs]: "hierarchy firm t =
     res_bind (get_organization firm (tt_organizations t)) (\<lambda>g.
       case dict_get (tt_profiles t) firm of
         None \<Rightarrow> Inl (KeyError (''tenant profile not provisioned for firm '' @ py_repr firm))
       | Some p \<Rightarrow>
           (let departments = departments_for_firm (tt_departments t) firm
            in Inr \<lparr>hv_organization = g, hv_tenant_profile = p, hv_departments = departments,
                    hv_teams = concat (map (\<lambda>d. teams_for_department (tt_teams t) firm (dp_id d)) departments),
                    hv_users = users_for_firm (tt_users t) firm\<rparr>))"

text \<open>The directory a sequence of engine calls can build: every object sits under its own id.\<close>

definition tenants_ok :: "tenants \<Rightarrow> bool" where
  "tenants_ok t \<longleftrightarrow> keyed og_firm_id (tt_organizations t) \<and> keyed dp_id (tt_departments t) \<and>
     keyed tm_id (tt_teams t) \<and> keyed us_id (tt_users t) \<and> keyed pf_firm_id (tt_profiles t)"

lemma rows_by_value_member:
  "keyed key d \<Longrightarrow> v \<in> set (rows_by_value firm d f) \<longleftrightarrow> firm v = f \<and> dict_get d (key v) = Some v"
  by (auto simp: rows_by_value_def keyed_get_iff)

lemma dict_values_distinct: "keyed key d \<Longrightarrow> distinct (map key (dict_values d))"
proof -
  assume k: "keyed key d"
  then have "map key (dict_values d) = map fst d" by (auto simp: keyed_def)
  then show ?thesis using k by (simp only: keyed_def)
qed

lemma rows_by_value_distinct: "keyed key d \<Longrightarrow> distinct (map key (rows_by_value firm d f))"
  unfolding rows_by_value_def by (rule distinct_map_filter) (rule dict_values_distinct)

lemma teams_for_department_member:
  "keyed tm_id s \<Longrightarrow> x \<in> set (teams_for_department s firm i) \<longleftrightarrow>
     tm_firm_id x = firm \<and> tm_department_id x = i \<and> dict_get s (tm_id x) = Some x"
  by (auto simp: teams_for_department_def keyed_get_iff)

lemma teams_of_departments_distinct:
  assumes k: "keyed tm_id s" and d: "distinct (map dp_id ds)"
  shows "distinct (map tm_id (concat (map (\<lambda>d. teams_for_department s firm (dp_id d)) ds)))"
  using d
proof (induction ds)
  case (Cons d ds)
  have "distinct (map tm_id (teams_for_department s firm (dp_id d)))"
    unfolding teams_for_department_def by (rule distinct_map_filter [OF dict_values_distinct [OF k]])
  moreover have "set (map tm_id (teams_for_department s firm (dp_id d))) \<inter>
      set (map tm_id (concat (map (\<lambda>d. teams_for_department s firm (dp_id d)) ds))) = {}"
  proof (rule ccontr)
    assume "\<not> ?thesis"
    then obtain x y e where "x \<in> set (teams_for_department s firm (dp_id d))" "e \<in> set ds"
        "y \<in> set (teams_for_department s firm (dp_id e))" "tm_id x = tm_id y" by auto
    then have "dp_id d = dp_id e" by (simp add: teams_for_department_member [OF k])
    then show False using Cons.prems \<open>e \<in> set ds\<close> by force
  qed
  ultimately show ?case using Cons by simp
qed simp

text \<open>
  The hierarchy of a firm. It raises \<open>KeyError\<close> just when the firm has no organization or no
  profile; otherwise it shows them with exactly the firm's departments and users, each once, and
  exactly those of the firm's teams whose department is a department of the firm, each once. A
  team created under an unknown department (which \<open>create\<close> accepts) therefore exists in the
  store but is missing from the hierarchy.
\<close>
theorem hierarchy_exact:
  assumes ok: "tenants_ok t"
  shows "case hierarchy firm t of
      Inl e \<Rightarrow> (dict_get (tt_organizations t) firm = None \<and> e = KeyError firm) \<or>
        (dict_get (tt_organizations t) firm \<noteq> None \<and> dict_get (tt_profiles t) firm = None \<and>
         e = KeyError (''tenant profile not provisioned for firm '' @ py_repr firm))
    | Inr v \<Rightarrow>
        dict_get (tt_organizations t) firm = Some (hv_organization v) \<and>
        dict_get (tt_profiles t) firm = Some (hv_tenant_profile v) \<and>
        set (hv_departments v) = {d. dp_firm_id d = firm \<and> dict_get (tt_departments t) (dp_id d) = Some d} \<and>
        set (hv_users v) = {u. us_firm_id u = firm \<and> dict_get (tt_users t) (us_id u) = Some u} \<and>
        set (hv_teams v) = {x. tm_firm_id x = firm \<and> dict_get (tt_teams t) (tm_id x) = Some x \<and>
           department_store_get (tt_departments t) firm (tm_department_id x) \<noteq> None} \<and>
        distinct (map dp_id (hv_departments v)) \<and> distinct (map tm_id (hv_teams v)) \<and>
        distinct (map us_id (hv_users v))"
proof (cases "hierarchy firm t")
  case (Inl e)
  then show ?thesis
    by (auto simp: hierarchy_def get_organization_def Let_def split: option.splits)
next
  case (Inr v)
  let ?ds = "departments_for_firm (tt_departments t) firm"
  obtain g p where gp: "dict_get (tt_organizations t) firm = Some g" "dict_get (tt_profiles t) firm = Some p"
    and v: "v = \<lparr>hv_organization = g, hv_tenant_profile = p, hv_departments = ?ds,
        hv_teams = concat (map (\<lambda>d. teams_for_department (tt_teams t) firm (dp_id d)) ?ds),
        hv_users = users_for_firm (tt_users t) firm\<rparr>"
    using Inr by (auto simp: hierarchy_def get_organization_def Let_def split: option.splits)
  have k: "keyed dp_id (tt_departments t)" "keyed tm_id (tt_teams t)" "keyed us_id (tt_users t)"
    using ok by (simp_all add: tenants_ok_def)
  have ds: "d \<in> set ?ds \<longleftrightarrow> dp_firm_id d = firm \<and> dict_get (tt_departments t) (dp_id d) = Some d" for d
    by (simp add: departments_for_firm_def rows_by_value_member [OF k(1)])
  have dept: "(\<exists>d \<in> set ?ds. dp_id d = i) \<longleftrightarrow> department_store_get (tt_departments t) firm i \<noteq> None" for i
    unfolding ds Bex_def department_store_get_def
    by (auto split: option.splits dest: keyed_get [OF k(1)])
  have teams: "x \<in> set (hv_teams v) \<longleftrightarrow> tm_firm_id x = firm \<and> dict_get (tt_teams t) (tm_id x) = Some x \<and>
           department_store_get (tt_departments t) firm (tm_department_id x) \<noteq> None" for x
    unfolding v dept [symmetric] by (auto simp: teams_for_department_member [OF k(2)])
       (metis (no_types))
  have dist: "distinct (map dp_id ?ds)"
    unfolding departments_for_firm_def by (rule rows_by_value_distinct [OF k(1)])
  have "set (hv_teams v) = {x. tm_firm_id x = firm \<and> dict_get (tt_teams t) (tm_id x) = Some x \<and>
           department_store_get (tt_departments t) firm (tm_department_id x) \<noteq> None}"
    using teams by blast
  moreover have "distinct (map tm_id (hv_teams v))"
    unfolding v using teams_of_departments_distinct [OF k(2) dist] by simp
  moreover have "set (hv_departments v) = {d. dp_firm_id d = firm \<and> dict_get (tt_departments t) (dp_id d) = Some d}"
    unfolding v using ds by auto
  moreover have "set (hv_users v) = {u. us_firm_id u = firm \<and> dict_get (tt_users t) (us_id u) = Some u}"
    "distinct (map us_id (hv_users v))"
    unfolding v by (auto simp: users_for_firm_def rows_by_value_member [OF k(3)] intro: rows_by_value_distinct [OF k(3)])
  ultimately show ?thesis unfolding Inr using gp dist by (simp add: v)
qed

text \<open>
  Onboarding a firm again, a suspended one for instance, is not refused: it overwrites the
  organization and the profile, so the firm is active again with the default quota.
\<close>

lemma onboarding_reactivates:
  assumes ok: "tenants_ok t"
  shows "\<exists>v. hierarchy firm (snd (onboard_firm now firm legal_name quota branding t)) = Inr v \<and>
     og_status (hv_organization v) = OS_ACTIVE \<and> pf_is_active (hv_tenant_profile v) \<and>
     pf_quota (hv_tenant_profile v) = (case quota of Some q \<Rightarrow> q | None \<Rightarrow> default_tenant_quota) \<and>
     hv_users v = users_for_firm (tt_users t) firm"
  by (simp add: hierarchy_def onboard_firm_def provision_tenant_def create_organization_def get_organization_def
      organization_store_save_def profile_store_save_def update_conv' Let_def)

lemma tenants_ok_onboard: "tenants_ok t \<Longrightarrow> tenants_ok (snd (onboard_firm now firm legal_name quota branding t))"
  by (auto simp: tenants_ok_def onboard_firm_def provision_tenant_def create_organization_def Let_def
      intro: profile_rows.wf_put organization_rows.wf_put)

definition no_tenants :: tenants where
  "no_tenants = \<lparr>tt_organizations = [], tt_departments = [], tt_teams = [], tt_users = [], tt_profiles = []\<rparr>"

definition demo_tenants :: tenants where
  "demo_tenants =
     (let t = snd (onboard_firm 0 ''f'' ''Cabinet F'' None None no_tenants)
      in t\<lparr>tt_departments := snd (create_department ''dept-1'' ''f'' ''Social'' []),
           tt_teams := snd (create_team ''team-2'' ''f'' ''dept-9'' ''Orpheline''
                         (snd (create_team ''team-1'' ''f'' ''dept-1'' ''Prud'' [])))\<rparr>)"

theorem hierarchy_exact_witness:
  "case hierarchy ''f'' demo_tenants of
     Inl e \<Rightarrow> False
   | Inr v \<Rightarrow> map tm_id (hv_teams v) = [''team-1''] \<and> distinct (map us_id (hv_users v))"
proof -
  have ok: "tenants_ok demo_tenants"
    using tenants_ok_onboard [of no_tenants]
    by (auto simp: demo_tenants_def tenants_ok_def no_tenants_def create_department_def create_team_def Let_def
        intro!: department_rows.wf_put team_rows.wf_put)
  obtain v where v: "hierarchy ''f'' demo_tenants = Inr v" "map tm_id (hv_teams v) = [''team-1'']"
    by (simp add: demo_tenants_def no_tenants_def onboard_firm_def provision_tenant_def create_organization_def
        create_department_def create_team_def hierarchy_def get_organization_def store_defs
        departments_for_firm_def rows_by_value_def teams_for_department_def Let_def)
  then show ?thesis using hierarchy_exact [OF ok, of "''f''"] by simp
qed

end
