(* ===== verification/Sessions.thy ===== *)
theory Sessions
  imports Authorization
begin

text \<open>
  What \<^verbatim>\<open>identity_platform\<close> keeps about a signed-in user: sessions (\<^verbatim>\<open>session_manager\<close>), devices
  (\<^verbatim>\<open>device_trust\<close>), delegated permissions (\<^verbatim>\<open>delegation\<close>) and support impersonation
  (\<^verbatim>\<open>impersonation\<close>). The four stores are dictionaries keyed by firm and id. New ids, tokens and
  the clock are arguments; within one operation the clock does not move.
\<close>

context keyed_store
begin

text \<open>A loop that saves each object of a listing again, changed but under its own key.\<close>

lemma get_fold_modify:
  assumes "distinct (map key vs)" and "\<And>v. key (f v) = key v" and "\<forall>v \<in> set vs. get s (key v) = Some v"
  shows "get (fold (\<lambda>v. put (f v)) vs s) k = (if k \<in> key ` set vs then map_option f (get s k) else get s k)"
  using assms
proof (induction vs arbitrary: s)
  case (Cons v vs)
  have "\<forall>w \<in> set vs. get (put (f v) s) (key w) = Some w"
  proof
    fix w assume w: "w \<in> set vs"
    then have "key w \<noteq> key v" using Cons.prems(1) by (metis distinct.simps(2) image_eqI list.set_map list.simps(9))
    then show "get (put (f v) s) (key w) = Some w" using Cons.prems w by (simp add: get_put)
  qed
  then have "get (fold (\<lambda>v. put (f v)) vs (put (f v) s)) k =
      (if k \<in> key ` set vs then map_option f (get (put (f v) s) k) else get (put (f v) s) k)"
    using Cons by simp
  then show ?case using Cons.prems by (auto simp: get_put)
qed simp

lemma wf_fold_modify: "wf s \<Longrightarrow> wf (fold (\<lambda>v. put (f v)) vs s)"
  by (induction vs arbitrary: s) (auto intro: wf_put)

end

section \<open>Sessions\<close>

record session =
  sn_id :: pystr
  sn_firm_id :: pystr
  sn_user_id :: pystr
  sn_device_id :: "pystr option"
  sn_refresh_token :: pystr
  sn_created_at :: datetime
  sn_expires_at :: datetime
  sn_revoked :: bool

definition default_session_ttl :: timedelta where
  "default_session_ttl = hours 8"

definition default_session_expiry :: "datetime \<Rightarrow> datetime" where
  "default_session_expiry now = now + default_session_ttl"

definition session_key :: "session \<Rightarrow> pystr \<times> pystr" where
  "session_key x = (sn_firm_id x, sn_id x)"

type_synonym session_store = "(pystr \<times> pystr, session) dict"

definition session_store_save :: "session \<Rightarrow> session_store \<Rightarrow> session_store" where
  [store_defs]: "session_store_save x s = dict_set (session_key x) x s"

definition sessions_for_user :: "session_store \<Rightarrow> pystr \<Rightarrow> pystr \<Rightarrow> session list" where
  "sessions_for_user s firm user =
     filter (\<lambda>x. sn_firm_id x = firm \<and> sn_user_id x = user) (dict_values s)"

definition sessions_for_firm :: "session_store \<Rightarrow> pystr \<Rightarrow> session list" where
  [store_defs]: "sessions_for_firm s firm = rows_by_value sn_firm_id s firm"

interpretation session_rows: tenant_store session_key session_store_save dict_get "keyed session_key" sessions_for_firm
  using tenant_store_dict_value [of sn_firm_id session_key]
  by (simp add: session_store_save_def [abs_def] sessions_for_firm_def [abs_def] session_key_def)

definition create_session ::
    "datetime \<Rightarrow> pystr \<Rightarrow> pystr \<Rightarrow> pystr \<Rightarrow> pystr \<Rightarrow> pystr option \<Rightarrow> session_store \<Rightarrow> session \<times> session_store" where
  [op_defs]: "create_session now new_id token firm user device s =
     (let x = \<lparr>sn_id = new_id, sn_firm_id = firm, sn_user_id = user, sn_device_id = device,
               sn_refresh_token = token, sn_created_at = now,
               sn_expires_at = default_session_expiry now, sn_revoked = False\<rparr>
      in (x, session_store_save x s))"

definition session_is_active :: "datetime \<Rightarrow> session_store \<Rightarrow> pystr \<Rightarrow> pystr \<Rightarrow> bool" where
  "session_is_active now s firm i =
     (case dict_get s (firm, i) of
        None \<Rightarrow> False
      | Some x \<Rightarrow> if sn_revoked x then False else now < sn_expires_at x)"

definition require_session :: "session_store \<Rightarrow> pystr \<Rightarrow> pystr \<Rightarrow> session result" where
  "require_session s firm i = (case dict_get s (firm, i) of None \<Rightarrow> Inl (KeyError i) | Some x \<Rightarrow> Inr x)"

definition revoke_session :: "pystr \<Rightarrow> pystr \<Rightarrow> session_store \<Rightarrow> session result \<times> session_store" where
  [op_defs]: "revoke_session firm i s =
     (case require_session s firm i of
        Inl e \<Rightarrow> (Inl e, s)
      | Inr x \<Rightarrow> (let x' = x\<lparr>sn_revoked := True\<rparr> in (Inr x', session_store_save x' s)))"

definition revoke_all_sessions :: "pystr \<Rightarrow> pystr \<Rightarrow> session_store \<Rightarrow> session list \<times> session_store" where
  [op_defs]: "revoke_all_sessions firm user s =
     (let xs = sessions_for_user s firm user
      in (map (sn_revoked_update (\<lambda>_. True)) xs,
          fold (\<lambda>x. session_store_save (x\<lparr>sn_revoked := True\<rparr>)) xs s))"

definition rotate_refresh_token ::
    "pystr \<Rightarrow> pystr \<Rightarrow> pystr \<Rightarrow> session_store \<Rightarrow> pystr result \<times> session_store" where
  [op_defs]: "rotate_refresh_token token firm i s =
     (case require_session s firm i of
        Inl e \<Rightarrow> (Inl e, s)
      | Inr x \<Rightarrow> (Inr token, session_store_save (x\<lparr>sn_refresh_token := token\<rparr>) s))"

text \<open>The operations that change the store, and a run of them; \<open>uuid4\<close> never repeats an id.\<close>

datatype session_op =
    Create_session datetime pystr pystr pystr pystr "pystr option"
  | Revoke_session pystr pystr
  | Revoke_all_sessions pystr pystr
  | Rotate_token pystr pystr pystr

fun session_step :: "session_op \<Rightarrow> session_store \<Rightarrow> session_store" where
  "session_step (Create_session now new_id token firm user device) s =
     snd (create_session now new_id token firm user device s)"
| "session_step (Revoke_session firm i) s = snd (revoke_session firm i s)"
| "session_step (Revoke_all_sessions firm user) s = snd (revoke_all_sessions firm user s)"
| "session_step (Rotate_token token firm i) s = snd (rotate_refresh_token token firm i s)"

fun session_op_fresh :: "session_op \<Rightarrow> session_store \<Rightarrow> bool" where
  "session_op_fresh (Create_session _ new_id _ firm _ _) s \<longleftrightarrow> dict_get s (firm, new_id) = None"
| "session_op_fresh _ s \<longleftrightarrow> True"

fun session_run :: "session_op list \<Rightarrow> session_store \<Rightarrow> session_store" where
  "session_run [] s = s"
| "session_run (op # ops) s = session_run ops (session_step op s)"

fun session_ops_fresh :: "session_op list \<Rightarrow> session_store \<Rightarrow> bool" where
  "session_ops_fresh [] s \<longleftrightarrow> True"
| "session_ops_fresh (op # ops) s \<longleftrightarrow> session_op_fresh op s \<and> session_ops_fresh ops (session_step op s)"

lemma sessions_for_user_rows:
  "sessions_for_user s firm user = filter (\<lambda>x. sn_user_id x = user) (sessions_for_firm s firm)"
  by (simp add: sessions_for_user_def sessions_for_firm_def rows_by_value_def conj_commute)

lemma sessions_for_user_iff:
  "keyed session_key s \<Longrightarrow> x \<in> set (sessions_for_user s firm user) \<longleftrightarrow>
     sn_firm_id x = firm \<and> sn_user_id x = user \<and> dict_get s (session_key x) = Some x"
  by (auto simp: sessions_for_user_rows session_rows.rows_iff session_key_def)

lemma session_get: "keyed session_key s \<Longrightarrow> dict_get s (firm, i) = Some x \<Longrightarrow> sn_firm_id x = firm \<and> sn_id x = i"
  by (drule (1) session_rows.get_key) (simp add: session_key_def)

text \<open>Revoking all sessions of a user, read through a lookup.\<close>

lemma revoke_all_get:
  assumes k: "keyed session_key s"
  shows "dict_get (snd (revoke_all_sessions firm user s)) (f, i) =
     map_option (\<lambda>x. if f = firm \<and> sn_user_id x = user then x\<lparr>sn_revoked := True\<rparr> else x) (dict_get s (f, i))"
proof -
  let ?xs = "sessions_for_user s firm user"
  have "distinct (map session_key ?xs)"
    unfolding sessions_for_user_rows by (rule distinct_map_filter [OF session_rows.rows_distinct [OF k]])
  moreover have "\<forall>v \<in> set ?xs. dict_get s (session_key v) = Some v" using sessions_for_user_iff [OF k] by blast
  ultimately have "dict_get (snd (revoke_all_sessions firm user s)) (f, i) =
      (if (f, i) \<in> session_key ` set ?xs then map_option (sn_revoked_update (\<lambda>_. True)) (dict_get s (f, i)) else dict_get s (f, i))"
    unfolding revoke_all_sessions_def Let_def snd_conv
    by (intro session_rows.get_fold_modify) (simp_all add: session_key_def)
  moreover have "(f, i) \<in> session_key ` set ?xs \<longleftrightarrow>
      (case dict_get s (f, i) of None \<Rightarrow> False | Some x \<Rightarrow> f = firm \<and> sn_user_id x = user)"
  proof (cases "dict_get s (f, i)")
    case None
    then show ?thesis using sessions_for_user_iff [OF k] by (auto simp: session_key_def image_iff)
  next
    case (Some x)
    have x: "sn_firm_id x = f" "sn_id x = i" using session_get [OF k Some] by auto
    have "(f, i) \<in> session_key ` set ?xs \<longleftrightarrow> x \<in> set ?xs"
    proof
      assume "(f, i) \<in> session_key ` set ?xs"
      then obtain y where y: "y \<in> set ?xs" "session_key y = (f, i)" by (metis imageE)
      then have "dict_get s (f, i) = Some y" by (simp add: sessions_for_user_iff [OF k])
      then show "x \<in> set ?xs" using y(1) Some by simp
    next
      assume "x \<in> set ?xs"
      moreover have "session_key x = (f, i)" using x by (simp add: session_key_def)
      ultimately show "(f, i) \<in> session_key ` set ?xs" by (metis imageI)
    qed
    also have "x \<in> set ?xs \<longleftrightarrow> f = firm \<and> sn_user_id x = user"
      using x Some by (auto simp: sessions_for_user_iff [OF k] session_key_def)
    finally show ?thesis using Some by simp
  qed
  ultimately show ?thesis by (auto split: option.splits)
qed

lemma session_step_keyed: "keyed session_key s \<Longrightarrow> keyed session_key (session_step op s)"
proof (cases op)
  case (Revoke_all_sessions firm user)
  assume "keyed session_key s"
  then show ?thesis
    using session_rows.wf_fold_modify [of s "sn_revoked_update (\<lambda>_. True)" "sessions_for_user s firm user"]
    by (simp add: Revoke_all_sessions revoke_all_sessions_def Let_def)
qed (simp_all add: create_session_def revoke_session_def rotate_refresh_token_def require_session_def Let_def
      session_rows.wf_put split: option.split)

text \<open>One operation keeps a session's owner and expiry, and never clears \<open>revoked\<close>.\<close>

lemma session_step_keeps:
  assumes k: "keyed session_key s" and fresh: "session_op_fresh op s" and x: "dict_get s (firm, i) = Some x"
  obtains x' where "dict_get (session_step op s) (firm, i) = Some x'" "sn_expires_at x' = sn_expires_at x"
    "sn_user_id x' = sn_user_id x" "sn_revoked x \<Longrightarrow> sn_revoked x'"
proof (cases op)
  case (Create_session now new_id token f user device)
  then have "dict_get (session_step op s) (firm, i) = Some x"
    using fresh x by (auto simp: create_session_def session_store_save_def session_key_def update_conv' Let_def)
  then show thesis using that by blast
next
  case (Revoke_session f j)
  show thesis
  proof (cases "dict_get s (f, j)")
    case None
    then show thesis using that x Revoke_session by (simp add: revoke_session_def require_session_def)
  next
    case (Some y)
    have y: "sn_firm_id y = f" "sn_id y = j" using session_get [OF k Some] by auto
    have get: "dict_get (session_step op s) (firm, i) =
        (if (firm, i) = (f, j) then Some (y\<lparr>sn_revoked := True\<rparr>) else dict_get s (firm, i))"
      using Some y by (simp add: Revoke_session revoke_session_def require_session_def session_store_save_def
          session_key_def update_conv' Let_def)
    show thesis
    proof (cases "(firm, i) = (f, j)")
      case True
      then have "x = y" using x Some by simp
      then show thesis using that [OF get [unfolded if_P [OF True]]] by simp
    next
      case False
      then show thesis using that x by (simp add: get del: prod.inject)
    qed
  qed
next
  case (Revoke_all_sessions f user)
  then show thesis
    using that [of "if firm = f \<and> sn_user_id x = user then x\<lparr>sn_revoked := True\<rparr> else x"] x
    by (simp add: revoke_all_get [OF k])
next
  case (Rotate_token token f j)
  show thesis
  proof (cases "dict_get s (f, j)")
    case None
    then show thesis using that x Rotate_token by (simp add: rotate_refresh_token_def require_session_def)
  next
    case (Some y)
    have y: "sn_firm_id y = f" "sn_id y = j" using session_get [OF k Some] by auto
    have get: "dict_get (session_step op s) (firm, i) =
        (if (firm, i) = (f, j) then Some (y\<lparr>sn_refresh_token := token\<rparr>) else dict_get s (firm, i))"
      using Some y by (simp add: Rotate_token rotate_refresh_token_def require_session_def session_store_save_def
          session_key_def update_conv')
    show thesis
    proof (cases "(firm, i) = (f, j)")
      case True
      then have "x = y" using x Some by simp
      then show thesis using that [OF get [unfolded if_P [OF True]]] by simp
    next
      case False
      then show thesis using that x by (simp add: get del: prod.inject)
    qed
  qed
qed

text \<open>A session that is revoked, or whose expiry has come, stays so through any run.\<close>

lemma session_run_ended:
  assumes "keyed session_key s" and "session_ops_fresh ops s" and "dict_get s (firm, i) = Some x"
    and "sn_revoked x \<or> sn_expires_at x \<le> now" and "now \<le> later"
  shows "\<not> session_is_active later (session_run ops s) firm i"
  using assms
proof (induction ops arbitrary: s x)
  case Nil
  then show ?case by (auto simp: session_is_active_def)
next
  case (Cons op ops)
  obtain x' where x': "dict_get (session_step op s) (firm, i) = Some x'" "sn_expires_at x' = sn_expires_at x"
    "sn_revoked x \<Longrightarrow> sn_revoked x'"
    using session_step_keeps [OF Cons.prems(1) _ Cons.prems(3)] Cons.prems(2) by auto
  then have "sn_revoked x' \<or> sn_expires_at x' \<le> now" using Cons.prems(4) by auto
  then show ?case using Cons.IH [OF session_step_keyed [OF Cons.prems(1)] _ x'(1)] Cons.prems by simp
qed

text \<open>
  C14. An ended session stays ended. A session is active exactly while it is stored, not revoked
  and its expiry lies ahead. A session that has been revoked, or whose expiry has come, is inactive
  after any further creations, revocations and token rotations and at any later time. Revoking all
  sessions of a user leaves none of them active, whatever happens next, returns every one of them,
  and leaves each session of other users and firms exactly as it was.
\<close>
theorem ended_sessions_stay_ended:
  assumes k: "keyed session_key s"
  shows "(\<forall>now firm i. session_is_active now s firm i \<longleftrightarrow>
        (\<exists>x. dict_get s (firm, i) = Some x \<and> \<not> sn_revoked x \<and> now < sn_expires_at x)) \<and>
    (\<forall>ops firm i x now later. session_ops_fresh ops s \<and> dict_get s (firm, i) = Some x \<and>
        (sn_revoked x \<or> sn_expires_at x \<le> now) \<and> now \<le> later \<longrightarrow>
        \<not> session_is_active later (session_run ops s) firm i) \<and>
    (\<forall>ops firm user now. let (revoked, s') = revoke_all_sessions firm user s in
        map session_key revoked = map session_key (sessions_for_user s firm user) \<and>
        (\<forall>x \<in> set revoked. sn_revoked x) \<and>
        (\<forall>f i x. dict_get s (f, i) = Some x \<and> (f, sn_user_id x) \<noteq> (firm, user) \<longrightarrow> dict_get s' (f, i) = Some x) \<and>
        (session_ops_fresh ops s' \<longrightarrow>
           (\<forall>x \<in> set (sessions_for_user s firm user).
              \<not> session_is_active now (session_run ops s') firm (sn_id x))))"
proof (intro conjI allI impI)
  fix now firm i
  show "session_is_active now s firm i \<longleftrightarrow>
      (\<exists>x. dict_get s (firm, i) = Some x \<and> \<not> sn_revoked x \<and> now < sn_expires_at x)"
    by (auto simp: session_is_active_def split: option.split)
next
  fix ops firm i x now later
  assume "session_ops_fresh ops s \<and> dict_get s (firm, i) = Some x \<and> (sn_revoked x \<or> sn_expires_at x \<le> now) \<and> now \<le> later"
  then show "\<not> session_is_active later (session_run ops s) firm i"
    using session_run_ended [OF k] by blast
next
  fix ops firm user now
  define s' where "s' = snd (revoke_all_sessions firm user s)"
  have k': "keyed session_key s'" using session_step_keyed [OF k, of "Revoke_all_sessions firm user"] by (simp add: s'_def)
  have after: "\<not> session_is_active now (session_run ops s') firm (sn_id x)"
    if fresh: "session_ops_fresh ops s'" and x: "x \<in> set (sessions_for_user s firm user)" for x
  proof -
    have "dict_get s (firm, sn_id x) = Some x" "sn_user_id x = user"
      using x by (auto simp: sessions_for_user_iff [OF k] session_key_def)
    then have get: "dict_get s' (firm, sn_id x) = Some (x\<lparr>sn_revoked := True\<rparr>)"
      unfolding s'_def by (simp add: revoke_all_get [OF k])
    show ?thesis by (rule session_run_ended [OF k' fresh get _ order_refl]) simp
  qed
  have "revoke_all_sessions firm user s = (map (sn_revoked_update (\<lambda>_. True)) (sessions_for_user s firm user), s')"
    by (simp add: s'_def revoke_all_sessions_def Let_def)
  then show "let (revoked, s') = revoke_all_sessions firm user s in
        map session_key revoked = map session_key (sessions_for_user s firm user) \<and>
        (\<forall>x \<in> set revoked. sn_revoked x) \<and>
        (\<forall>f i x. dict_get s (f, i) = Some x \<and> (f, sn_user_id x) \<noteq> (firm, user) \<longrightarrow> dict_get s' (f, i) = Some x) \<and>
        (session_ops_fresh ops s' \<longrightarrow>
           (\<forall>x \<in> set (sessions_for_user s firm user).
              \<not> session_is_active now (session_run ops s') firm (sn_id x)))"
    using after by (auto simp: session_key_def) (auto simp: s'_def revoke_all_get [OF k])
qed

definition demo_sessions :: session_store where
  "demo_sessions =
     snd (create_session 0 ''sess-2'' ''tok-2'' ''f'' ''bob'' None
       (snd (create_session 0 ''sess-1'' ''tok-1'' ''f'' ''ana'' None [])))"

theorem ended_sessions_stay_ended_witness:
  "session_is_active 5 demo_sessions ''f'' ''sess-1'' \<and>
   \<not> session_is_active (hours 9) (session_run [Rotate_token ''tok-3'' ''f'' ''sess-1''] demo_sessions) ''f'' ''sess-1'' \<and>
   \<not> session_is_active 5 (session_run [Rotate_token ''tok-3'' ''f'' ''sess-1'']
       (snd (revoke_all_sessions ''f'' ''ana'' demo_sessions))) ''f'' ''sess-1''"
proof (intro conjI)
  let ?all = "snd (revoke_all_sessions ''f'' ''ana'' demo_sessions)"
  let ?ops = "[Rotate_token ''tok-3'' ''f'' ''sess-1'']"
  have k: "keyed session_key demo_sessions" and k': "keyed session_key ?all"
    by (simp_all add: keyed_def demo_sessions_def create_session_def revoke_all_sessions_def sessions_for_user_def
        session_store_save_def session_key_def Let_def)
  show "session_is_active 5 demo_sessions ''f'' ''sess-1''"
    unfolding ended_sessions_stay_ended [OF k, THEN conjunct1, rule_format]
    by (simp add: demo_sessions_def create_session_def session_store_save_def session_key_def
        default_session_expiry_def default_session_ttl_def Let_def)
  show "\<not> session_is_active (hours 9) (session_run ?ops demo_sessions) ''f'' ''sess-1''"
    by (rule ended_sessions_stay_ended [OF k, THEN conjunct2, THEN conjunct1, rule_format,
          where now = "hours 8" and x = "the (dict_get demo_sessions (''f'', ''sess-1''))"])
      (simp add: demo_sessions_def create_session_def session_store_save_def session_key_def
        default_session_expiry_def default_session_ttl_def Let_def)
  show "\<not> session_is_active 5 (session_run ?ops ?all) ''f'' ''sess-1''"
    by (rule ended_sessions_stay_ended [OF k', THEN conjunct2, THEN conjunct1, rule_format,
          where now = 0 and x = "the (dict_get ?all (''f'', ''sess-1''))"])
      (simp add: demo_sessions_def create_session_def revoke_all_sessions_def sessions_for_user_def
        session_store_save_def session_key_def Let_def)
qed

section \<open>Devices\<close>

datatype device_trust_level = DT_UNKNOWN | DT_TRUSTED | DT_REVOKED

record device =
  dv_id :: pystr
  dv_firm_id :: pystr
  dv_user_id :: pystr
  dv_label :: pystr
  dv_trust_level :: device_trust_level
  dv_first_seen_at :: datetime
  dv_last_seen_at :: datetime

definition device_key :: "device \<Rightarrow> pystr \<times> pystr" where
  "device_key d = (dv_firm_id d, dv_id d)"

type_synonym device_store = "(pystr \<times> pystr, device) dict"

definition device_store_save :: "device \<Rightarrow> device_store \<Rightarrow> device_store" where
  [store_defs]: "device_store_save d s = dict_set (device_key d) d s"

definition devices_for_user :: "device_store \<Rightarrow> pystr \<Rightarrow> pystr \<Rightarrow> device list" where
  "devices_for_user s firm user = filter (\<lambda>d. dv_firm_id d = firm \<and> dv_user_id d = user) (dict_values s)"

definition devices_for_firm :: "device_store \<Rightarrow> pystr \<Rightarrow> device list" where
  [store_defs]: "devices_for_firm s firm = rows_by_value dv_firm_id s firm"

interpretation device_rows: tenant_store device_key device_store_save dict_get "keyed device_key" devices_for_firm
  using tenant_store_dict_value [of dv_firm_id device_key]
  by (simp add: device_store_save_def [abs_def] devices_for_firm_def [abs_def] device_key_def)

definition register_device ::
    "datetime \<Rightarrow> pystr \<Rightarrow> pystr \<Rightarrow> pystr \<Rightarrow> pystr \<Rightarrow> device_store \<Rightarrow> device \<times> device_store" where
  [op_defs]: "register_device now new_id firm user label s =
     (let d = \<lparr>dv_id = new_id, dv_firm_id = firm, dv_user_id = user, dv_label = label,
               dv_trust_level = DT_UNKNOWN, dv_first_seen_at = now, dv_last_seen_at = now\<rparr>
      in (d, device_store_save d s))"

definition require_device :: "device_store \<Rightarrow> pystr \<Rightarrow> pystr \<Rightarrow> device result" where
  "require_device s firm i = (case dict_get s (firm, i) of None \<Rightarrow> Inl (KeyError i) | Some d \<Rightarrow> Inr d)"

definition trust_device :: "pystr \<Rightarrow> pystr \<Rightarrow> device_store \<Rightarrow> device result \<times> device_store" where
  [op_defs]: "trust_device firm i s =
     (case require_device s firm i of
        Inl e \<Rightarrow> (Inl e, s)
      | Inr d \<Rightarrow> (let d' = d\<lparr>dv_trust_level := DT_TRUSTED\<rparr> in (Inr d', device_store_save d' s)))"

definition revoke_device :: "pystr \<Rightarrow> pystr \<Rightarrow> device_store \<Rightarrow> device result \<times> device_store" where
  [op_defs]: "revoke_device firm i s =
     (case require_device s firm i of
        Inl e \<Rightarrow> (Inl e, s)
      | Inr d \<Rightarrow> (let d' = d\<lparr>dv_trust_level := DT_REVOKED\<rparr> in (Inr d', device_store_save d' s)))"

definition touch_device :: "datetime \<Rightarrow> pystr \<Rightarrow> pystr \<Rightarrow> device_store \<Rightarrow> device result \<times> device_store" where
  [op_defs]: "touch_device now firm i s =
     (case require_device s firm i of
        Inl e \<Rightarrow> (Inl e, s)
      | Inr d \<Rightarrow> (let d' = d\<lparr>dv_last_seen_at := now\<rparr> in (Inr d', device_store_save d' s)))"

definition device_is_trusted :: "device_store \<Rightarrow> pystr \<Rightarrow> pystr \<Rightarrow> bool" where
  "device_is_trusted s firm i =
     (case dict_get s (firm, i) of None \<Rightarrow> False | Some d \<Rightarrow> dv_trust_level d = DT_TRUSTED)"

lemma trusted_after:
  assumes k: "keyed device_key s" and new: "dict_get s (f, new_id) = None"
  shows "device_is_trusted (snd (register_device now new_id f user label s)) firm i \<longleftrightarrow> device_is_trusted s firm i"
    and "device_is_trusted (snd (trust_device f j s)) firm i \<longleftrightarrow>
      (if (firm, i) = (f, j) then dict_get s (f, j) \<noteq> None else device_is_trusted s firm i)"
    and "device_is_trusted (snd (revoke_device f j s)) firm i \<longleftrightarrow> (firm, i) \<noteq> (f, j) \<and> device_is_trusted s firm i"
    and "device_is_trusted (snd (touch_device now f j s)) firm i \<longleftrightarrow> device_is_trusted s firm i"
proof -
  show "device_is_trusted (snd (register_device now new_id f user label s)) firm i \<longleftrightarrow> device_is_trusted s firm i"
    using new by (auto simp: register_device_def device_is_trusted_def device_rows.get_put device_key_def Let_def)
  have modify: "device_is_trusted (device_store_save d' s) firm i \<longleftrightarrow>
      (if (firm, i) = (f, j) then dv_trust_level d' = DT_TRUSTED else device_is_trusted s firm i)"
    if "dict_get s (f, j) = Some d" "device_key d' = device_key d" for d d'
    using device_rows.get_key [OF k that(1)] that(2) by (auto simp: device_is_trusted_def device_rows.get_put)
  show "device_is_trusted (snd (trust_device f j s)) firm i \<longleftrightarrow>
      (if (firm, i) = (f, j) then dict_get s (f, j) \<noteq> None else device_is_trusted s firm i)"
  proof (cases "dict_get s (f, j)")
    case (Some d)
    show ?thesis using modify [OF Some, of "d\<lparr>dv_trust_level := DT_TRUSTED\<rparr>"]
      by (simp add: Some trust_device_def require_device_def device_key_def Let_def)
  qed (auto simp: trust_device_def require_device_def device_is_trusted_def)
  show "device_is_trusted (snd (revoke_device f j s)) firm i \<longleftrightarrow> (firm, i) \<noteq> (f, j) \<and> device_is_trusted s firm i"
  proof (cases "dict_get s (f, j)")
    case (Some d)
    show ?thesis using modify [OF Some, of "d\<lparr>dv_trust_level := DT_REVOKED\<rparr>"]
      by (simp add: Some revoke_device_def require_device_def device_key_def Let_def)
  qed (auto simp: revoke_device_def require_device_def device_is_trusted_def)
  show "device_is_trusted (snd (touch_device now f j s)) firm i \<longleftrightarrow> device_is_trusted s firm i"
  proof (cases "dict_get s (f, j)")
    case (Some d)
    show ?thesis using modify [OF Some, of "d\<lparr>dv_last_seen_at := now\<rparr>"] Some
      by (auto simp: touch_device_def require_device_def device_key_def device_is_trusted_def [of s] Let_def)
  qed (simp add: touch_device_def require_device_def)
qed

section \<open>Delegations\<close>

text \<open>
  The end of a delegation comes from the caller (\<open>datetime.fromisoformat\<close> of the request), so it may
  carry no time zone; comparing such a naive value with an aware one raises \<open>TypeError\<close>. The start
  and the clock are always aware.
\<close>

datatype py_datetime = Aware datetime | Naive datetime

fun datetime_le :: "py_datetime \<Rightarrow> py_datetime \<Rightarrow> bool result" where
  "datetime_le (Aware a) (Aware b) = Inr (a \<le> b)"
| "datetime_le (Naive a) (Naive b) = Inr (a \<le> b)"
| "datetime_le _ _ = Inl (TypeError ''can't compare offset-naive and offset-aware datetimes'')"

record delegation =
  dg_id :: pystr
  dg_firm_id :: pystr
  dg_delegator_id :: pystr
  dg_delegate_id :: pystr
  dg_permissions :: "permission set"
  dg_ends_at :: py_datetime
  dg_starts_at :: datetime
  dg_revoked :: bool

definition delegation_key :: "delegation \<Rightarrow> pystr \<times> pystr" where
  "delegation_key d = (dg_firm_id d, dg_id d)"

type_synonym delegation_store = "(pystr \<times> pystr, delegation) dict"

definition delegation_store_save :: "delegation \<Rightarrow> delegation_store \<Rightarrow> delegation_store" where
  [store_defs]: "delegation_store_save d s = dict_set (delegation_key d) d s"

definition delegations_for_delegate :: "delegation_store \<Rightarrow> pystr \<Rightarrow> pystr \<Rightarrow> delegation list" where
  "delegations_for_delegate s firm delegate =
     filter (\<lambda>d. dg_firm_id d = firm \<and> dg_delegate_id d = delegate) (dict_values s)"

definition delegations_for_firm :: "delegation_store \<Rightarrow> pystr \<Rightarrow> delegation list" where
  [store_defs]: "delegations_for_firm s firm = rows_by_value dg_firm_id s firm"

interpretation delegation_rows: tenant_store delegation_key delegation_store_save dict_get "keyed delegation_key"
    delegations_for_firm
  using tenant_store_dict_value [of dg_firm_id delegation_key]
  by (simp add: delegation_store_save_def [abs_def] delegations_for_firm_def [abs_def] delegation_key_def)

definition grant_delegation ::
    "datetime \<Rightarrow> pystr \<Rightarrow> pystr \<Rightarrow> pystr \<Rightarrow> pystr \<Rightarrow> permission set \<Rightarrow> py_datetime
       \<Rightarrow> delegation_store \<Rightarrow> delegation \<times> delegation_store" where
  [op_defs]: "grant_delegation now new_id firm delegator delegate permissions ends_at s =
     (let d = \<lparr>dg_id = new_id, dg_firm_id = firm, dg_delegator_id = delegator, dg_delegate_id = delegate,
               dg_permissions = permissions, dg_ends_at = ends_at, dg_starts_at = now, dg_revoked = False\<rparr>
      in (d, delegation_store_save d s))"

definition revoke_delegation ::
    "pystr \<Rightarrow> pystr \<Rightarrow> delegation_store \<Rightarrow> delegation result \<times> delegation_store" where
  [op_defs]: "revoke_delegation firm i s =
     (case dict_get s (firm, i) of
        None \<Rightarrow> (Inl (KeyError i), s)
      | Some d \<Rightarrow> (let d' = d\<lparr>dg_revoked := True\<rparr> in (Inr d', delegation_store_save d' s)))"

text \<open>\<open>not d.revoked and d.starts_at <= now <= d.ends_at\<close>, left to right.\<close>

definition delegation_is_active :: "datetime \<Rightarrow> delegation \<Rightarrow> bool result" where
  "delegation_is_active now d =
     (if dg_revoked d then Inr False
      else if dg_starts_at d \<le> now then datetime_le (Aware now) (dg_ends_at d) else Inr False)"

definition active_delegations_for :: "datetime \<Rightarrow> delegation_store \<Rightarrow> pystr \<Rightarrow> pystr \<Rightarrow> delegation list result" where
  "active_delegations_for now s firm delegate =
     filter_res (delegation_is_active now) (delegations_for_delegate s firm delegate)"

definition has_delegated_permission ::
    "datetime \<Rightarrow> delegation_store \<Rightarrow> pystr \<Rightarrow> pystr \<Rightarrow> permission \<Rightarrow> bool result" where
  "has_delegated_permission now s firm delegate p =
     res_bind (active_delegations_for now s firm delegate) (\<lambda>ds. Inr (\<exists>d \<in> set ds. p \<in> dg_permissions d))"

definition active_delegations_for_firm :: "datetime \<Rightarrow> delegation_store \<Rightarrow> pystr \<Rightarrow> delegation list result" where
  "active_delegations_for_firm now s firm = filter_res (delegation_is_active now) (delegations_for_firm s firm)"

section \<open>Impersonation\<close>

record impersonation =
  im_id :: pystr
  im_firm_id :: pystr
  im_admin_id :: pystr
  im_target_user_id :: pystr
  im_reason :: pystr
  im_started_at :: datetime
  im_ended_at :: "datetime option"

definition impersonation_key :: "impersonation \<Rightarrow> pystr \<times> pystr" where
  "impersonation_key m = (im_firm_id m, im_id m)"

type_synonym impersonation_store = "(pystr \<times> pystr, impersonation) dict"

definition impersonation_store_save :: "impersonation \<Rightarrow> impersonation_store \<Rightarrow> impersonation_store" where
  [store_defs]: "impersonation_store_save m s = dict_set (impersonation_key m) m s"

definition active_for_admin :: "impersonation_store \<Rightarrow> pystr \<Rightarrow> pystr \<Rightarrow> impersonation option" where
  "active_for_admin s firm admin =
     find (\<lambda>m. im_firm_id m = firm \<and> im_admin_id m = admin \<and> im_ended_at m = None) (dict_values s)"

definition impersonations_for_firm :: "impersonation_store \<Rightarrow> pystr \<Rightarrow> impersonation list" where
  [store_defs]: "impersonations_for_firm s firm = rows_by_value im_firm_id s firm"

interpretation impersonation_rows: tenant_store impersonation_key impersonation_store_save dict_get
    "keyed impersonation_key" impersonations_for_firm
  using tenant_store_dict_value [of im_firm_id impersonation_key]
  by (simp add: impersonation_store_save_def [abs_def] impersonations_for_firm_def [abs_def] impersonation_key_def)

definition start_impersonation ::
    "datetime \<Rightarrow> pystr \<Rightarrow> pystr \<Rightarrow> pystr \<Rightarrow> pystr \<Rightarrow> pystr \<Rightarrow> impersonation_store
       \<Rightarrow> impersonation result \<times> impersonation_store" where
  [op_defs]: "start_impersonation now new_id firm admin target reason s =
     (if active_for_admin s firm admin \<noteq> None
      then (Inl (RuntimeError (''admin '' @ py_repr admin @ '' already has an active impersonation session'')), s)
      else (let m = \<lparr>im_id = new_id, im_firm_id = firm, im_admin_id = admin, im_target_user_id = target,
                     im_reason = reason, im_started_at = now, im_ended_at = None\<rparr>
            in (Inr m, impersonation_store_save m s)))"

definition end_impersonation ::
    "datetime \<Rightarrow> pystr \<Rightarrow> pystr \<Rightarrow> impersonation_store \<Rightarrow> impersonation result \<times> impersonation_store" where
  [op_defs]: "end_impersonation now firm i s =
     (case dict_get s (firm, i) of
        None \<Rightarrow> (Inl (KeyError i), s)
      | Some m \<Rightarrow> (let m' = m\<lparr>im_ended_at := Some now\<rparr> in (Inr m', impersonation_store_save m' s)))"

definition impersonation_history :: "impersonation_store \<Rightarrow> pystr \<Rightarrow> impersonation list" where
  "impersonation_history s firm = impersonations_for_firm s firm"

section \<open>Delegations are time-bound\<close>

abbreviation naive_comparison :: pyexn where
  "naive_comparison \<equiv> TypeError ''can't compare offset-naive and offset-aware datetimes''"

lemma filter_res_Inr: "filter_res p xs = Inr ys \<Longrightarrow> ys = filter (\<lambda>x. p x = Inr True) xs"
  by (induction xs arbitrary: ys) (auto simp: res_bind_Inr_iff split: if_splits)

lemma filter_res_raises:
  "(\<And>x e'. x \<in> set xs \<Longrightarrow> p x = Inl e' \<Longrightarrow> e' = e) \<Longrightarrow> x \<in> set xs \<Longrightarrow> p x = Inl e \<Longrightarrow> filter_res p xs = Inl e"
proof (induction xs)
  case Nil
  then show ?case by simp
next
  case (Cons y ys)
  show ?case
  proof (cases "p y")
    case (Inl e')
    have "e' = e" by (rule Cons.prems(1) [OF _ Inl]) simp
    then show ?thesis using Inl by simp
  next
    case (Inr b)
    have "x \<in> set ys" using Cons.prems(2,3) Inr by auto
    then have "filter_res p ys = Inl e"
      using Cons.prems(1,3) by (intro Cons.IH) (auto intro: list.set_intros)
    then show ?thesis using Inr by simp
  qed
qed

lemma delegation_is_active_aware:
  "dg_ends_at d = Aware e \<Longrightarrow>
     delegation_is_active now d = Inr (\<not> dg_revoked d \<and> dg_starts_at d \<le> now \<and> now \<le> e)"
  by (simp add: delegation_is_active_def)

lemma delegation_is_active_naive:
  "dg_ends_at d = Naive e \<Longrightarrow> \<not> dg_revoked d \<Longrightarrow> dg_starts_at d \<le> now \<Longrightarrow>
     delegation_is_active now d = Inl naive_comparison"
  by (simp add: delegation_is_active_def)

lemma delegation_is_active_Inl: "delegation_is_active now d = Inl e \<Longrightarrow> e = naive_comparison"
  unfolding delegation_is_active_def by (cases "dg_ends_at d") (simp_all split: if_splits)

lemma delegations_for_delegate_rows:
  "delegations_for_delegate s firm user = filter (\<lambda>d. dg_delegate_id d = user) (delegations_for_firm s firm)"
  by (simp add: delegations_for_delegate_def delegations_for_firm_def rows_by_value_def conj_commute)

definition delegation_open :: "datetime \<Rightarrow> delegation \<Rightarrow> bool" where
  "delegation_open now d \<longleftrightarrow> \<not> dg_revoked d \<and> dg_starts_at d \<le> now \<and>
     (case dg_ends_at d of Aware e \<Rightarrow> now \<le> e | Naive _ \<Rightarrow> False)"

text \<open>
  Delegations. When every end date of the firm's delegations carries a time zone, a user holds
  a delegated permission just when a delegation of that firm to that user lists it, is not
  revoked, has started and has not ended; a revoked delegation is never listed again. But one
  unrevoked, started delegation whose end has no time zone makes every listing of the firm's
  delegations, and every check for its delegate, raise \<open>TypeError\<close>.
\<close>
theorem delegation_window:
  assumes k: "keyed delegation_key s"
  shows "((\<forall>d \<in> set (delegations_for_firm s firm). \<exists>e. dg_ends_at d = Aware e) \<longrightarrow>
       has_delegated_permission now s firm user p =
         Inr (\<exists>i d. dict_get s (firm, i) = Some d \<and> dg_delegate_id d = user \<and> p \<in> dg_permissions d \<and> delegation_open now d)) \<and>
    (\<forall>i d e. dict_get s (firm, i) = Some d \<and> \<not> dg_revoked d \<and> dg_starts_at d \<le> now \<and> dg_ends_at d = Naive e \<longrightarrow>
       active_delegations_for_firm now s firm = Inl naive_comparison \<and>
       has_delegated_permission now s firm (dg_delegate_id d) p = Inl naive_comparison) \<and>
    (\<forall>i ds. active_delegations_for_firm now (snd (revoke_delegation firm i s)) firm = Inr ds \<longrightarrow> i \<notin> dg_id ` set ds)"
proof (intro conjI allI impI)
  have rows: "d \<in> set (delegations_for_firm s firm) \<longleftrightarrow> (\<exists>i. dict_get s (firm, i) = Some d)" for d
  proof
    assume "d \<in> set (delegations_for_firm s firm)"
    then have "dict_get s (firm, dg_id d) = Some d"
      using delegation_rows.rows_iff [OF k, of d firm] by (auto simp: delegation_key_def)
    then show "\<exists>i. dict_get s (firm, i) = Some d" ..
  next
    assume "\<exists>i. dict_get s (firm, i) = Some d"
    then obtain i where i: "dict_get s (firm, i) = Some d" ..
    then have "delegation_key d = (firm, i)" by (rule delegation_rows.get_key [OF k])
    then show "d \<in> set (delegations_for_firm s firm)"
      using delegation_rows.rows_iff [OF k, of d firm] i by simp
  qed
  {
    assume aware: "\<forall>d \<in> set (delegations_for_firm s firm). \<exists>e. dg_ends_at d = Aware e"
    have "active_delegations_for now s firm user = Inr (filter (delegation_open now) (delegations_for_delegate s firm user))"
      unfolding active_delegations_for_def
    proof (rule filter_res_total)
      fix d assume "d \<in> set (delegations_for_delegate s firm user)"
      then obtain e where "dg_ends_at d = Aware e" using aware by (auto simp: delegations_for_delegate_rows)
      then show "delegation_is_active now d = Inr (delegation_open now d)"
        by (simp add: delegation_is_active_aware delegation_open_def)
    qed
    then show "has_delegated_permission now s firm user p =
         Inr (\<exists>i d. dict_get s (firm, i) = Some d \<and> dg_delegate_id d = user \<and> p \<in> dg_permissions d \<and> delegation_open now d)"
      by (auto simp: has_delegated_permission_def delegations_for_delegate_rows rows)
  }
  {
    fix i d e
    assume d: "dict_get s (firm, i) = Some d \<and> \<not> dg_revoked d \<and> dg_starts_at d \<le> now \<and> dg_ends_at d = Naive e"
    then have bad: "delegation_is_active now d = Inl naive_comparison"
      using delegation_is_active_naive by blast
    have "d \<in> set (delegations_for_firm s firm)" using d rows by blast
    then show "active_delegations_for_firm now s firm = Inl naive_comparison"
      unfolding active_delegations_for_firm_def
      by (intro filter_res_raises [where x = d]) (auto simp: bad dest: delegation_is_active_Inl)
    have "d \<in> set (delegations_for_delegate s firm (dg_delegate_id d))"
      using \<open>d \<in> set (delegations_for_firm s firm)\<close> by (simp add: delegations_for_delegate_rows)
    then have "active_delegations_for now s firm (dg_delegate_id d) = Inl naive_comparison"
      unfolding active_delegations_for_def
      by (intro filter_res_raises [where x = d]) (auto simp: bad dest: delegation_is_active_Inl)
    then show "has_delegated_permission now s firm (dg_delegate_id d) p = Inl naive_comparison"
      by (simp add: has_delegated_permission_def)
  }
  fix i ds
  let ?s = "snd (revoke_delegation firm i s)"
  assume "active_delegations_for_firm now ?s firm = Inr ds"
  then have ds: "ds = filter (\<lambda>d. delegation_is_active now d = Inr True) (delegations_for_firm ?s firm)"
    unfolding active_delegations_for_firm_def by (rule filter_res_Inr)
  have k': "keyed delegation_key ?s"
    using k by (auto simp: revoke_delegation_def Let_def intro: delegation_rows.wf_put split: option.split)
  have "dg_revoked d" if "d \<in> set (delegations_for_firm ?s firm)" "dg_id d = i" for d
  proof -
    have g: "dict_get ?s (firm, i) = Some d"
      using that delegation_rows.rows_iff [OF k'] by (auto simp: delegation_key_def)
    show ?thesis
    proof (cases "dict_get s (firm, i)")
      case None
      then show ?thesis using g by (simp add: revoke_delegation_def)
    next
      case (Some d0)
      then show ?thesis using g delegation_rows.get_key [OF k Some]
        by (auto simp: revoke_delegation_def delegation_rows.get_put delegation_key_def Let_def)
    qed
  qed
  then show "i \<notin> dg_id ` set ds" unfolding ds by (auto simp: delegation_is_active_def)
qed

definition demo_delegations :: delegation_store where
  "demo_delegations =
     snd (grant_delegation 0 ''deleg-2'' ''g'' ''eve'' ''eve'' {PERM_SECRET_MANAGE} (Naive 50)
       (snd (grant_delegation 0 ''deleg-1'' ''f'' ''ana'' ''bob'' {PERM_EXPORT_DATA} (Aware 50) [])))"

theorem delegation_window_witness:
  "has_delegated_permission 7 demo_delegations ''f'' ''bob'' PERM_EXPORT_DATA = Inr True \<and>
   active_delegations_for_firm 7 demo_delegations ''g'' = Inl naive_comparison"
proof -
  have k: "keyed delegation_key demo_delegations"
    by (auto simp: demo_delegations_def grant_delegation_def Let_def intro!: delegation_rows.wf_put)
  have f: "delegations_for_firm demo_delegations ''f'' = [fst (grant_delegation 0 ''deleg-1'' ''f'' ''ana'' ''bob'' {PERM_EXPORT_DATA} (Aware 50) [])]"
    by (simp add: demo_delegations_def grant_delegation_def store_defs rows_by_value_def delegation_key_def Let_def)
  have "dict_get demo_delegations (''f'', ''deleg-1'') = Some (fst (grant_delegation 0 ''deleg-1'' ''f'' ''ana'' ''bob'' {PERM_EXPORT_DATA} (Aware 50) []))"
    by (simp add: demo_delegations_def grant_delegation_def store_defs delegation_key_def Let_def)
  then have "\<exists>i d. dict_get demo_delegations (''f'', i) = Some d \<and> dg_delegate_id d = ''bob'' \<and>
      PERM_EXPORT_DATA \<in> dg_permissions d \<and> delegation_open 7 d"
    by (intro exI conjI) (auto simp: grant_delegation_def delegation_open_def Let_def)
  then have "has_delegated_permission 7 demo_delegations ''f'' ''bob'' PERM_EXPORT_DATA = Inr True"
    using conjunct1 [OF delegation_window [OF k], of "''f''" 7 "''bob''" PERM_EXPORT_DATA] f
    by (simp add: grant_delegation_def Let_def)
  moreover have "active_delegations_for_firm 7 demo_delegations ''g'' = Inl naive_comparison"
    by (simp add: active_delegations_for_firm_def demo_delegations_def grant_delegation_def store_defs
        rows_by_value_def delegation_key_def delegation_is_active_def Let_def)
  ultimately show ?thesis by simp
qed

section \<open>One impersonation at a time\<close>

datatype impersonation_op =
    Start_impersonation datetime pystr pystr pystr pystr pystr
  | End_impersonation datetime pystr pystr

fun impersonation_step :: "impersonation_op \<Rightarrow> impersonation_store \<Rightarrow> impersonation_store" where
  "impersonation_step (Start_impersonation now new_id firm admin target reason) s =
     snd (start_impersonation now new_id firm admin target reason s)"
| "impersonation_step (End_impersonation now firm i) s = snd (end_impersonation now firm i s)"

fun impersonation_op_fresh :: "impersonation_op \<Rightarrow> impersonation_store \<Rightarrow> bool" where
  "impersonation_op_fresh (Start_impersonation _ new_id firm _ _ _) s \<longleftrightarrow> dict_get s (firm, new_id) = None"
| "impersonation_op_fresh _ s \<longleftrightarrow> True"

inductive impersonation_reachable :: "impersonation_store \<Rightarrow> bool" where
  impersonation_start: "impersonation_reachable []"
| impersonation_next: "impersonation_reachable s \<Longrightarrow> impersonation_op_fresh op s \<Longrightarrow>
     impersonation_reachable (impersonation_step op s)"

definition open_impersonations :: "impersonation_store \<Rightarrow> pystr \<Rightarrow> pystr \<Rightarrow> impersonation list" where
  "open_impersonations s firm admin =
     filter (\<lambda>m. im_admin_id m = admin \<and> im_ended_at m = None) (impersonations_for_firm s firm)"

lemma find_first_filter: "find P xs = (case filter P xs of [] \<Rightarrow> None | x # _ \<Rightarrow> Some x)"
  by (induction xs) auto

lemma active_for_admin_open:
  "active_for_admin s firm admin = (case open_impersonations s firm admin of [] \<Rightarrow> None | m # _ \<Rightarrow> Some m)"
  by (auto simp: active_for_admin_def open_impersonations_def impersonations_for_firm_def rows_by_value_def
      find_first_filter filter_filter conj_commute)

definition impersonation_ok :: "impersonation_store \<Rightarrow> bool" where
  "impersonation_ok s \<longleftrightarrow> keyed impersonation_key s \<and> (\<forall>firm admin. length (open_impersonations s firm admin) \<le> 1)"

lemma impersonation_step_ok:
  assumes ok: "impersonation_ok s" and fresh: "impersonation_op_fresh op s"
  shows "impersonation_ok (impersonation_step op s)"
proof -
  have k: "keyed impersonation_key s" and one: "\<And>firm admin. length (open_impersonations s firm admin) \<le> 1"
    using ok by (auto simp: impersonation_ok_def)
  show ?thesis
  proof (cases op)
    case (Start_impersonation now new_id firm admin target reason)
    show ?thesis
    proof (cases "active_for_admin s firm admin")
      case (Some m)
      then show ?thesis using ok Start_impersonation by (simp add: start_impersonation_def)
    next
      case None
      define m where "m = \<lparr>im_id = new_id, im_firm_id = firm, im_admin_id = admin, im_target_user_id = target,
                     im_reason = reason, im_started_at = now, im_ended_at = (None :: datetime option)\<rparr>"
      have step: "impersonation_step op s = impersonation_store_save m s"
        using None Start_impersonation by (simp add: start_impersonation_def m_def Let_def)
      have key: "impersonation_key m = (firm, new_id)" by (simp add: m_def impersonation_key_def)
      have new: "dict_get s (impersonation_key m) = None" using fresh Start_impersonation key by simp
      have none: "open_impersonations s firm admin = []"
        using None by (auto simp: active_for_admin_open split: list.splits)
      have "length (open_impersonations (impersonation_store_save m s) f a) \<le> 1" for f a
      proof (cases "f = firm")
        case True
        have "length (open_impersonations (impersonation_store_save m s) f a) =
            length (open_impersonations s f a) + (if im_admin_id m = a \<and> im_ended_at m = None then 1 else 0)"
          using impersonation_rows.count_put_new [OF k new, of "\<lambda>m. im_admin_id m = a \<and> im_ended_at m = None"] True key
          by (simp add: open_impersonations_def)
        then show ?thesis using one [of f a] none True by (cases "a = admin") (simp_all add: m_def)
      next
        case False
        then have "impersonations_for_firm (impersonation_store_save m s) f = impersonations_for_firm s f"
          by (intro impersonation_rows.rows_put_other [OF k]) (simp add: key)
        then show ?thesis using one [of f a] by (simp add: open_impersonations_def)
      qed
      then show ?thesis unfolding step impersonation_ok_def using impersonation_rows.wf_put [OF k] by blast
    qed
  next
    case (End_impersonation now firm i)
    show ?thesis
    proof (cases "dict_get s (firm, i)")
      case None
      then show ?thesis using ok End_impersonation by (simp add: end_impersonation_def)
    next
      case (Some m)
      define m' where "m' = m\<lparr>im_ended_at := Some now\<rparr>"
      have step: "impersonation_step op s = impersonation_store_save m' s"
        using Some End_impersonation by (simp add: end_impersonation_def m'_def Let_def)
      have key: "impersonation_key m' = (firm, i)"
        using impersonation_rows.get_key [OF k Some] by (simp add: m'_def impersonation_key_def)
      have "length (open_impersonations (impersonation_store_save m' s) f a) \<le> length (open_impersonations s f a)" for f a
      proof (cases "f = firm")
        case True
        have "dict_get s (impersonation_key m') = Some m" using Some key by simp
        from impersonation_rows.count_put_old_le [OF k this, of "\<lambda>m. im_admin_id m = a \<and> im_ended_at m = None"]
        show ?thesis using True key by (simp add: open_impersonations_def m'_def)
      next
        case False
        then have "impersonations_for_firm (impersonation_store_save m' s) f = impersonations_for_firm s f"
          by (intro impersonation_rows.rows_put_other [OF k]) (simp add: key)
        then show ?thesis by (simp add: open_impersonations_def)
      qed
      then show ?thesis unfolding step impersonation_ok_def
        using impersonation_rows.wf_put [OF k] one le_trans by blast
    qed
  qed
qed

lemma impersonation_reachable_ok: "impersonation_reachable s \<Longrightarrow> impersonation_ok s"
proof (induction rule: impersonation_reachable.induct)
  case impersonation_start
  then show ?case
    by (simp add: impersonation_ok_def open_impersonations_def impersonations_for_firm_def rows_by_value_def)
next
  case (impersonation_next s op)
  then show ?case by (intro impersonation_step_ok)
qed

text \<open>
  Impersonation is limited to one at a time. In every reachable store an administrator has at
  most one open session per firm, which \<open>active_for_admin\<close> returns; \<open>start\<close> raises just when there is
  one and otherwise opens one; ending it lets the administrator start again. No operation makes a
  record disappear from a firm's history or changes its parties.
\<close>
theorem impersonation_exclusive:
  assumes reach: "impersonation_reachable s"
  shows "length (open_impersonations s firm admin) \<le> 1 \<and>
    (active_for_admin s firm admin = None \<longleftrightarrow> open_impersonations s firm admin = []) \<and>
    ((\<exists>e. fst (start_impersonation now new_id firm admin target reason s) = Inl e) \<longleftrightarrow>
       open_impersonations s firm admin \<noteq> []) \<and>
    (\<forall>m. active_for_admin s firm admin = Some m \<longrightarrow>
       active_for_admin (snd (end_impersonation now firm (im_id m) s)) firm admin = None) \<and>
    (\<forall>op. impersonation_op_fresh op s \<longrightarrow>
       (\<exists>more. map (\<lambda>m. (im_id m, im_admin_id m, im_target_user_id m, im_reason m, im_started_at m))
            (impersonation_history (impersonation_step op s) firm) =
          map (\<lambda>m. (im_id m, im_admin_id m, im_target_user_id m, im_reason m, im_started_at m))
            (impersonation_history s firm) @ more))"
proof (intro conjI allI impI)
  have ok: "impersonation_ok s" by (rule impersonation_reachable_ok [OF reach])
  then have k: "keyed impersonation_key s" and one: "\<And>firm admin. length (open_impersonations s firm admin) \<le> 1"
    by (auto simp: impersonation_ok_def)
  show "length (open_impersonations s firm admin) \<le> 1" by (rule one)
  show none: "active_for_admin s firm admin = None \<longleftrightarrow> open_impersonations s firm admin = []"
    by (auto simp: active_for_admin_open split: list.splits)
  show "(\<exists>e. fst (start_impersonation now new_id firm admin target reason s) = Inl e) \<longleftrightarrow>
       open_impersonations s firm admin \<noteq> []"
    using none by (auto simp: start_impersonation_def Let_def)
  {
    fix m assume active: "active_for_admin s firm admin = Some m"
    then have m: "open_impersonations s firm admin = [m]"
      using one [of firm admin] by (auto simp: active_for_admin_open split: list.splits)
    then have "m \<in> set (open_impersonations s firm admin)" by simp
    then have mem: "m \<in> set (impersonations_for_firm s firm)" "im_admin_id m = admin" "im_ended_at m = None"
      by (auto simp: open_impersonations_def)
    then have g: "dict_get s (impersonation_key m) = Some m" "im_firm_id m = firm"
      using impersonation_rows.rows_iff [OF k] by (auto simp: impersonation_key_def)
    define m' where "m' = m\<lparr>im_ended_at := Some now\<rparr>"
    have key: "impersonation_key m' = impersonation_key m" by (simp add: m'_def impersonation_key_def)
    have step: "snd (end_impersonation now firm (im_id m) s) = impersonation_store_save m' s"
      using g by (simp add: end_impersonation_def impersonation_key_def m'_def Let_def)
    have "length (open_impersonations (impersonation_store_save m' s) firm admin) < length (open_impersonations s firm admin)"
    proof -
      have "dict_get s (impersonation_key m') = Some m" using g(1) key by simp
      from impersonation_rows.count_put_old_less [OF k this key [symmetric],
          where P = "\<lambda>m. im_admin_id m = admin \<and> im_ended_at m = None"]
      show ?thesis using mem g(2) key by (simp add: open_impersonations_def m'_def impersonation_key_def)
    qed
    then show "active_for_admin (snd (end_impersonation now firm (im_id m) s)) firm admin = None"
      unfolding step active_for_admin_open using m by simp
  }
  fix op assume fresh: "impersonation_op_fresh op s"
  let ?info = "\<lambda>m. (im_id m, im_admin_id m, im_target_user_id m, im_reason m, im_started_at m)"
  show "\<exists>more. map ?info (impersonation_history (impersonation_step op s) firm) =
      map ?info (impersonation_history s firm) @ more"
  proof (cases op)
    case (Start_impersonation now' new_id' f admin' target' reason')
    then show ?thesis
      using fresh dict_set_fresh [of s "(f, new_id')"]
      by (auto simp: start_impersonation_def impersonation_history_def impersonations_for_firm_def rows_by_value_def
          impersonation_store_save_def impersonation_key_def Let_def)
  next
    case (End_impersonation now' f i)
    show ?thesis
    proof (cases "dict_get s (f, i)")
      case None
      then show ?thesis using End_impersonation by (simp add: end_impersonation_def)
    next
      case (Some m)
      have key: "impersonation_key m = (f, i)" by (rule impersonation_rows.get_key [OF k Some])
      let ?m = "m\<lparr>im_ended_at := Some now'\<rparr>"
      have step: "impersonation_step op s = impersonation_store_save ?m s"
        using End_impersonation Some by (simp add: end_impersonation_def Let_def)
      have mkey: "impersonation_key ?m = (f, i)" using key by (simp add: impersonation_key_def)
      show ?thesis
      proof (cases "f = firm")
        case True
        have "impersonations_for_firm (impersonation_store_save ?m s) firm =
            map (\<lambda>x. if impersonation_key x = (f, i) then ?m else x) (impersonations_for_firm s firm)"
          using impersonation_rows.rows_put_old [OF k, of ?m m] Some mkey True by simp
        moreover have "?info (if impersonation_key x = (f, i) then ?m else x) = ?info x"
          if "x \<in> set (impersonations_for_firm s firm)" for x
        proof (cases "impersonation_key x = (f, i)")
          case True
          then have "x = m" using that impersonation_rows.rows_iff [OF k] Some by auto
          then show ?thesis by simp
        qed simp
        ultimately have "map ?info (impersonations_for_firm (impersonation_store_save ?m s) firm) =
            map ?info (impersonations_for_firm s firm)" by simp
        then show ?thesis unfolding step impersonation_history_def by simp
      next
        case False
        then have "impersonations_for_firm (impersonation_store_save ?m s) firm = impersonations_for_firm s firm"
          by (intro impersonation_rows.rows_put_other [OF k]) (simp add: mkey)
        then show ?thesis unfolding step impersonation_history_def by simp
      qed
    qed
  qed
qed

definition demo_impersonation :: impersonation_store where
  "demo_impersonation = impersonation_step (Start_impersonation 0 ''imp-1'' ''f'' ''adm'' ''ana'' ''aide'') []"

theorem impersonation_exclusive_witness:
  "length (open_impersonations demo_impersonation ''f'' ''adm'') \<le> 1 \<and>
   fst (start_impersonation 5 ''imp-2'' ''f'' ''adm'' ''bob'' ''x'' demo_impersonation) =
     Inl (RuntimeError (''admin '' @ py_repr ''adm'' @ '' already has an active impersonation session''))"
proof -
  have "impersonation_reachable demo_impersonation"
    unfolding demo_impersonation_def by (rule impersonation_next [OF impersonation_start]) simp
  then have "length (open_impersonations demo_impersonation ''f'' ''adm'') \<le> 1"
    using impersonation_exclusive [of demo_impersonation "''f''" "''adm''"] by blast
  then show ?thesis
    by (simp add: demo_impersonation_def start_impersonation_def active_for_admin_def
        impersonation_store_save_def impersonation_key_def Let_def)
qed

text \<open>Ending an ended session again is accepted and moves its recorded end.\<close>

lemma ending_again_moves_end:
  assumes "keyed impersonation_key s" and "dict_get s (firm, i) = Some m"
  shows "dict_get (snd (end_impersonation now firm i s)) (firm, i) = Some (m\<lparr>im_ended_at := Some now\<rparr>)"
  using impersonation_rows.get_key [OF assms] assms(2)
  by (simp add: end_impersonation_def impersonation_rows.get_put impersonation_key_def Let_def)

end
