(* ===== verification/RateLimits.thy ===== *)
theory RateLimits
  imports PyFloat Sessions
begin

text \<open>
  The rate limiters and the brute-force protection of \<^verbatim>\<open>platform/rate_limiting\<close> (and the earlier
  limiter of \<^verbatim>\<open>cabinet_os/public_api\<close>), and the login risk assessment of
  \<^verbatim>\<open>identity_platform/risk_engine\<close> on top of them. The clock is an argument of each operation.
\<close>

section \<open>Fixed-window limits\<close>

record rate_limit_policy =
  rq_requests_per_window :: int
  rq_window_seconds :: int
  rq_burst :: int

record rate_limit_result =
  rs_allowed :: bool
  rs_remaining :: int
  rs_retry_after_seconds :: pyfloat
  rs_limit :: int

type_synonym rate_windows = "(pystr, datetime \<times> int) dict"

text \<open>\<open>timedelta.total_seconds()\<close> is a correctly rounded division; \<open>max(0.0, x)\<close> keeps \<open>0.0\<close> unless \<open>x\<close> is greater.\<close>

definition total_seconds :: "timedelta \<Rightarrow> pyfloat" where
  "total_seconds d = round64 (of_int d / 1000000)"

definition max_zero :: "pyfloat \<Rightarrow> pyfloat" where
  "max_zero x = (if flt_less (Fin 0) x then x else Fin 0)"

definition check_rate_limit ::
    "rate_limit_policy \<Rightarrow> datetime \<Rightarrow> pystr \<Rightarrow> rate_windows \<Rightarrow> rate_limit_result \<times> rate_windows" where
  [op_defs]: "check_rate_limit p now identity w =
     (let window = seconds (rq_window_seconds p);
          (start0, count0) = (case dict_get w identity of Some x \<Rightarrow> x | None \<Rightarrow> (now, 0));
          (window_start, count1) = (if window \<le> now - start0 then (now, 0) else (start0, count0));
          count = count1 + 1;
          w' = dict_set identity (window_start, count) w;
          limit = rq_requests_per_window p + rq_burst p
      in if limit < count
         then (\<lparr>rs_allowed = False, rs_remaining = 0,
                rs_retry_after_seconds = max_zero (total_seconds (window_start + window - now)),
                rs_limit = limit\<rparr>, w')
         else (\<lparr>rs_allowed = True, rs_remaining = limit - count, rs_retry_after_seconds = Fin 0,
                rs_limit = limit\<rparr>, w'))"

text \<open>The limiter of the public API has the window fixed to one minute.\<close>

record public_rate_policy =
  pr_requests_per_minute :: int
  pr_burst :: int

definition public_check_rate_limit ::
    "public_rate_policy \<Rightarrow> datetime \<Rightarrow> pystr \<Rightarrow> rate_windows \<Rightarrow> rate_limit_result \<times> rate_windows" where
  [op_defs]: "public_check_rate_limit p now identity w =
     (let (start0, count0) = (case dict_get w identity of Some x \<Rightarrow> x | None \<Rightarrow> (now, 0));
          (window_start, count1) = (if minutes 1 \<le> now - start0 then (now, 0) else (start0, count0));
          count = count1 + 1;
          w' = dict_set identity (window_start, count) w;
          limit = pr_requests_per_minute p + pr_burst p
      in if limit < count
         then (\<lparr>rs_allowed = False, rs_remaining = 0,
                rs_retry_after_seconds = max_zero (total_seconds (window_start + minutes 1 - now)),
                rs_limit = limit\<rparr>, w')
         else (\<lparr>rs_allowed = True, rs_remaining = limit - count, rs_retry_after_seconds = Fin 0,
                rs_limit = limit\<rparr>, w'))"

lemma public_limiter_is_instance:
  "public_check_rate_limit p =
     check_rate_limit \<lparr>rq_requests_per_window = pr_requests_per_minute p, rq_window_seconds = 60, rq_burst = pr_burst p\<rparr>"
proof (intro ext)
  have minute: "seconds 60 = minutes 1" by simp
  show "public_check_rate_limit p now identity w = check_rate_limit
      \<lparr>rq_requests_per_window = pr_requests_per_minute p, rq_window_seconds = 60, rq_burst = pr_burst p\<rparr> now identity w"
    for now identity w
    unfolding public_check_rate_limit_def check_rate_limit_def Let_def rate_limit_policy.simps minute ..
qed

definition policy_limit :: "rate_limit_policy \<Rightarrow> int" where
  "policy_limit p = rq_requests_per_window p + rq_burst p"

text \<open>A sequence of requests, each with its time and identity: the windows after it, and how many of one identity's were allowed.\<close>

fun windows_after :: "rate_limit_policy \<Rightarrow> (datetime \<times> pystr) list \<Rightarrow> rate_windows \<Rightarrow> rate_windows" where
  "windows_after p [] w = w"
| "windows_after p ((now, j) # rs) w = windows_after p rs (snd (check_rate_limit p now j w))"

fun allowed_count :: "rate_limit_policy \<Rightarrow> pystr \<Rightarrow> (datetime \<times> pystr) list \<Rightarrow> rate_windows \<Rightarrow> int" where
  "allowed_count p i [] w = 0"
| "allowed_count p i ((now, j) # rs) w =
     (if j = i \<and> rs_allowed (fst (check_rate_limit p now j w)) then 1 else 0) +
     allowed_count p i rs (snd (check_rate_limit p now j w))"

text \<open>What one check does to the window of each identity, and when it allows.\<close>

definition window_next :: "rate_limit_policy \<Rightarrow> datetime \<Rightarrow> (datetime \<times> int) option \<Rightarrow> datetime \<times> int" where
  "window_next p now x =
     (case x of None \<Rightarrow> (now, 1)
      | Some (start, count) \<Rightarrow>
          if seconds (rq_window_seconds p) \<le> now - start then (now, 1) else (start, count + 1))"

lemma check_windows:
  "dict_get (snd (check_rate_limit p now j w)) i =
     (if i = j then Some (window_next p now (dict_get w j)) else dict_get w i)"
  by (auto simp: check_rate_limit_def window_next_def update_conv' Let_def split: option.splits prod.splits)

lemma check_allowed:
  "rs_allowed (fst (check_rate_limit p now j w)) \<longleftrightarrow> snd (window_next p now (dict_get w j)) \<le> policy_limit p"
  by (auto simp: check_rate_limit_def window_next_def policy_limit_def Let_def split: option.splits prod.splits)

lemma windows_counts:
  "\<forall>i x. dict_get w i = Some x \<longrightarrow> 1 \<le> snd x \<Longrightarrow> dict_get (windows_after p rs w) i = Some x \<Longrightarrow> 1 \<le> snd x"
proof (induction rs arbitrary: w)
  case (Cons r rs)
  obtain now j where r: "r = (now, j)" by (cases r)
  have "1 \<le> snd (window_next p now (dict_get w j))"
  proof (cases "dict_get w j")
    case (Some y)
    then have "1 \<le> snd y" using Cons.prems(1) by blast
    then show ?thesis using Some by (cases y) (simp add: window_next_def)
  qed (simp add: window_next_def)
  then have "\<forall>i x. dict_get (snd (check_rate_limit p now j w)) i = Some x \<longrightarrow> 1 \<le> snd x"
    unfolding check_windows using Cons.prems(1) by (metis option.inject)
  then show ?case using Cons.IH [of "snd (check_rate_limit p now j w)"] Cons.prems(2) by (simp add: r)
qed (cases x, auto)

text \<open>Once the window started inside the interval it is not renewed there: the count only goes up.\<close>

lemma allowed_count_in_window:
  assumes "\<forall>(now, j) \<in> set rs. now < start + seconds (rq_window_seconds p)" and "dict_get w i = Some (start, count)"
  shows "allowed_count p i rs w =
    max 0 (min (int (length (filter (\<lambda>r. snd r = i) rs))) (policy_limit p - count))"
  using assms
proof (induction rs arbitrary: w count)
  case (Cons r rs)
  obtain now j where r: "r = (now, j)" by (cases r)
  show ?case
  proof (cases "j = i")
    case True
    have next': "window_next p now (dict_get w j) = (start, count + 1)"
      using Cons.prems True by (auto simp: r window_next_def)
    have "allowed_count p i rs (snd (check_rate_limit p now j w)) =
        max 0 (min (int (length (filter (\<lambda>r. snd r = i) rs))) (policy_limit p - (count + 1)))"
      by (rule Cons.IH) (use Cons.prems True next' in \<open>auto simp: check_windows\<close>)
    then show ?thesis using True next' by (simp add: r check_allowed) linarith
  next
    case False
    have "allowed_count p i rs (snd (check_rate_limit p now j w)) =
        max 0 (min (int (length (filter (\<lambda>r. snd r = i) rs))) (policy_limit p - count))"
      by (rule Cons.IH) (use Cons.prems False in \<open>auto simp: check_windows\<close>)
    then show ?thesis using False by (simp add: r)
  qed
qed simp

lemma allowed_count_fresh:
  assumes "\<forall>(now, j) \<in> set rs. t \<le> now \<and> now < t + seconds (rq_window_seconds p)"
    and "dict_get w i = None" and "0 \<le> policy_limit p"
  shows "allowed_count p i rs w = min (int (length (filter (\<lambda>r. snd r = i) rs))) (policy_limit p)"
  using assms
proof (induction rs arbitrary: w)
  case (Cons r rs)
  obtain now j where r: "r = (now, j)" by (cases r)
  show ?case
  proof (cases "j = i")
    case True
    have "allowed_count p i rs (snd (check_rate_limit p now j w)) =
        max 0 (min (int (length (filter (\<lambda>r. snd r = i) rs))) (policy_limit p - 1))"
      by (rule allowed_count_in_window [where start = now])
         (use Cons.prems True in \<open>auto simp: r check_windows window_next_def\<close>)
    then show ?thesis using True Cons.prems by (simp add: r check_allowed window_next_def) linarith
  next
    case False
    then show ?thesis using Cons by (simp add: r check_windows)
  qed
qed simp

lemma allowed_count_general:
  assumes "\<forall>(now, j) \<in> set rs. t \<le> now \<and> now < t + seconds (rq_window_seconds p)"
    and "dict_get w i = Some (start, count)" and "1 \<le> count" and "0 \<le> policy_limit p"
  shows "allowed_count p i rs w \<le> max 0 (policy_limit p - count) + policy_limit p"
  using assms
proof (induction rs arbitrary: w count)
  case (Cons r rs)
  obtain now j where r: "r = (now, j)" by (cases r)
  show ?case
  proof (cases "j = i")
    case False
    have "allowed_count p i rs (snd (check_rate_limit p now j w)) \<le> max 0 (policy_limit p - count) + policy_limit p"
      by (rule Cons.IH) (use Cons.prems False in \<open>auto simp: check_windows\<close>)
    then show ?thesis using False by (simp add: r)
  next
    case True
    show ?thesis
    proof (cases "seconds (rq_window_seconds p) \<le> now - start")
      case reset: True
      have "allowed_count p i rs (snd (check_rate_limit p now j w)) =
          max 0 (min (int (length (filter (\<lambda>r. snd r = i) rs))) (policy_limit p - 1))"
        by (rule allowed_count_in_window [where start = now])
           (use Cons.prems True reset in \<open>auto simp: r check_windows window_next_def\<close>)
      then show ?thesis using True Cons.prems reset by (simp add: r check_allowed window_next_def) linarith
    next
      case same: False
      have next': "window_next p now (dict_get w j) = (start, count + 1)"
        using Cons.prems True same by (simp add: window_next_def)
      have "allowed_count p i rs (snd (check_rate_limit p now j w)) \<le> max 0 (policy_limit p - (count + 1)) + policy_limit p"
        by (rule Cons.IH) (use Cons.prems True next' in \<open>auto simp: check_windows\<close>)
      then show ?thesis using True next' by (simp add: r check_allowed) linarith
    qed
  qed
qed simp

text \<open>
  C30. The rate limit. Whatever requests came before, the requests of one identity in an interval
  no longer than the window are allowed at most \<open>2 * limit - 1\<close> times (\<open>limit\<close> being the
  requests per window plus the burst), and an identity the limiter has not seen yet is allowed
  exactly its first \<open>limit\<close> requests there; other identities do not count.
\<close>
theorem rate_limit_bound:
  assumes limit: "0 \<le> policy_limit p"
    and interval: "\<forall>(now, j) \<in> set rs. t \<le> now \<and> now < t + seconds (rq_window_seconds p)"
  shows "allowed_count p i rs (windows_after p earlier []) \<le> policy_limit p + max 0 (policy_limit p - 1) \<and>
    (dict_get (windows_after p earlier []) i = None \<longrightarrow>
       allowed_count p i rs (windows_after p earlier []) =
         min (int (length (filter (\<lambda>r. snd r = i) rs))) (policy_limit p))"
proof (cases "dict_get (windows_after p earlier []) i")
  case None
  then show ?thesis using allowed_count_fresh [OF interval None limit] limit by simp
next
  case (Some x)
  obtain start count where x: "x = (start, count)" by (cases x)
  have "1 \<le> count" using windows_counts [of "[]" p earlier i x] Some by (simp add: x)
  then show ?thesis using allowed_count_general [OF interval Some [unfolded x] _ limit] Some by simp
qed

definition demo_rate_policy :: rate_limit_policy where
  "demo_rate_policy = \<lparr>rq_requests_per_window = 2, rq_window_seconds = 60, rq_burst = 0\<rparr>"

theorem rate_limit_bound_witness:
  "let w = windows_after demo_rate_policy [(0, ''ana'')] [];
       rs = [(seconds 59, ''ana''), (seconds 60, ''ana''), (seconds 61, ''ana''), (seconds 62, ''ana'')]
   in allowed_count demo_rate_policy ''ana'' rs w = 3 \<and>
      allowed_count demo_rate_policy ''ana'' rs w \<le> policy_limit demo_rate_policy + max 0 (policy_limit demo_rate_policy - 1)"
proof -
  let ?rs = "[(seconds 59, ''ana''), (seconds 60, ''ana''), (seconds 61, ''ana''), (seconds 62, ''ana'')]"
  have l: "0 \<le> policy_limit demo_rate_policy" by (simp add: policy_limit_def demo_rate_policy_def)
  have r: "\<forall>(now, j) \<in> set ?rs. seconds 59 \<le> now \<and> now < seconds 59 + seconds (rq_window_seconds demo_rate_policy)"
    by (simp add: demo_rate_policy_def)
  have "allowed_count demo_rate_policy ''ana'' ?rs (windows_after demo_rate_policy [(0, ''ana'')] []) = 3"
    by (simp add: check_windows check_allowed window_next_def demo_rate_policy_def policy_limit_def)
  moreover note conjunct1 [OF rate_limit_bound [OF l r, of "''ana''" "[(0, ''ana'')]"]]
  ultimately show ?thesis unfolding Let_def by simp
qed

section \<open>Lockout\<close>

record lockout_policy =
  lk_max_failed_attempts :: int
  lk_window_seconds :: int
  lk_lockout_seconds :: int

definition default_lockout_policy :: lockout_policy where
  "default_lockout_policy = \<lparr>lk_max_failed_attempts = 5, lk_window_seconds = 300, lk_lockout_seconds = 900\<rparr>"

record lockout_status =
  ls_locked :: bool
  ls_remaining_attempts :: int
  ls_retry_after_seconds :: pyfloat

record attempt_window =
  aw_window_start :: datetime
  aw_failures :: int
  aw_locked_until :: "datetime option"

type_synonym attempts = "(pystr, attempt_window) dict"

definition lock_holds :: "datetime \<Rightarrow> attempt_window \<Rightarrow> bool" where
  "lock_holds now e = (case aw_locked_until e of None \<Rightarrow> False | Some t \<Rightarrow> now < t)"

definition still_locked :: "datetime \<Rightarrow> attempt_window \<Rightarrow> lockout_status" where
  "still_locked now e =
     \<lparr>ls_locked = True, ls_remaining_attempts = 0,
      ls_retry_after_seconds = total_seconds (the (aw_locked_until e) - now)\<rparr>"

definition record_login_failure ::
    "lockout_policy \<Rightarrow> datetime \<Rightarrow> pystr \<Rightarrow> attempts \<Rightarrow> lockout_status \<times> attempts" where
  [op_defs]: "record_login_failure p now identity s =
     (let entry = dict_get s identity
      in if (case entry of None \<Rightarrow> False | Some e \<Rightarrow> lock_holds now e)
         then (still_locked now (the entry), s)
         else (let window = seconds (lk_window_seconds p);
                   e0 = (case entry of
                           None \<Rightarrow> \<lparr>aw_window_start = now, aw_failures = 0, aw_locked_until = None\<rparr>
                         | Some e \<Rightarrow> if window \<le> now - aw_window_start e
                                   then \<lparr>aw_window_start = now, aw_failures = 0, aw_locked_until = None\<rparr> else e);
                   e = e0\<lparr>aw_failures := aw_failures e0 + 1\<rparr>
               in if lk_max_failed_attempts p \<le> aw_failures e
                  then (\<lparr>ls_locked = True, ls_remaining_attempts = 0,
                         ls_retry_after_seconds = Fin (of_int (lk_lockout_seconds p))\<rparr>,
                        dict_set identity (e\<lparr>aw_locked_until := Some (now + seconds (lk_lockout_seconds p))\<rparr>) s)
                  else (\<lparr>ls_locked = False, ls_remaining_attempts = lk_max_failed_attempts p - aw_failures e,
                         ls_retry_after_seconds = Fin 0\<rparr>,
                        dict_set identity e s)))"

definition record_success :: "pystr \<Rightarrow> attempts \<Rightarrow> attempts" where
  [op_defs]: "record_success identity s = dict_pop identity s"

definition lockout_status_of :: "lockout_policy \<Rightarrow> datetime \<Rightarrow> pystr \<Rightarrow> attempts \<Rightarrow> lockout_status" where
  "lockout_status_of p now identity s =
     (case dict_get s identity of
        None \<Rightarrow> \<lparr>ls_locked = False, ls_remaining_attempts = lk_max_failed_attempts p, ls_retry_after_seconds = Fin 0\<rparr>
      | Some e \<Rightarrow>
          if lock_holds now e then still_locked now e
          else \<lparr>ls_locked = False, ls_remaining_attempts = max 0 (lk_max_failed_attempts p - aw_failures e),
                ls_retry_after_seconds = Fin 0\<rparr>)"

fun record_failures :: "lockout_policy \<Rightarrow> datetime list \<Rightarrow> pystr \<Rightarrow> attempts \<Rightarrow> attempts" where
  "record_failures p [] identity s = s"
| "record_failures p (now # ts) identity s =
     record_failures p ts identity (snd (record_login_failure p now identity s))"

lemma record_failure_other: "j \<noteq> i \<Longrightarrow> dict_get (snd (record_login_failure p now i s)) j = dict_get s j"
  by (auto simp: record_login_failure_def update_conv' Let_def split: option.splits)

lemma record_failures_other: "j \<noteq> i \<Longrightarrow> dict_get (record_failures p ts i s) j = dict_get s j"
  by (induction ts arbitrary: s) (simp_all add: record_failure_other)

lemma record_failure_first:
  assumes "dict_get s i = None" and "1 < lk_max_failed_attempts p"
  shows "record_login_failure p now i s =
    (\<lparr>ls_locked = False, ls_remaining_attempts = lk_max_failed_attempts p - 1, ls_retry_after_seconds = Fin 0\<rparr>,
     dict_set i \<lparr>aw_window_start = now, aw_failures = 1, aw_locked_until = None\<rparr> s)"
  using assms by (simp add: record_login_failure_def Let_def)

lemma record_failure_counts:
  assumes "dict_get s i = Some \<lparr>aw_window_start = start, aw_failures = n, aw_locked_until = None\<rparr>"
    and "now < start + seconds (lk_window_seconds p)" and "n + 1 < lk_max_failed_attempts p"
  shows "snd (record_login_failure p now i s) =
     dict_set i \<lparr>aw_window_start = start, aw_failures = n + 1, aw_locked_until = None\<rparr> s"
  using assms by (simp add: record_login_failure_def lock_holds_def Let_def)

lemma record_failures_count:
  assumes "dict_get s i = Some \<lparr>aw_window_start = start, aw_failures = n, aw_locked_until = None\<rparr>"
    and "\<forall>now \<in> set ts. now < start + seconds (lk_window_seconds p)"
    and "n + int (length ts) < lk_max_failed_attempts p"
  shows "dict_get (record_failures p ts i s) i =
     Some \<lparr>aw_window_start = start, aw_failures = n + int (length ts), aw_locked_until = None\<rparr>"
  using assms
proof (induction ts arbitrary: s n)
  case (Cons now ts)
  have "snd (record_login_failure p now i s) =
     dict_set i \<lparr>aw_window_start = start, aw_failures = n + 1, aw_locked_until = None\<rparr> s"
    using Cons.prems by (intro record_failure_counts) auto
  then have "dict_get (record_failures p ts i (snd (record_login_failure p now i s))) i =
     Some \<lparr>aw_window_start = start, aw_failures = (n + 1) + int (length ts), aw_locked_until = None\<rparr>"
    using Cons.prems by (intro Cons.IH) (auto simp: update_conv')
  then show ?case by (simp add: algebra_simps)
qed simp

lemma record_failures_append:
  "record_failures p (xs @ ys) i s = record_failures p ys i (record_failures p xs i s)"
  by (induction xs arbitrary: s) simp_all

lemma record_failures_below:
  assumes "dict_get s i = None" and "ts \<noteq> []"
    and "\<forall>now \<in> set ts. now < hd ts + seconds (lk_window_seconds p)"
    and "int (length ts) < lk_max_failed_attempts p"
  shows "dict_get (record_failures p ts i s) i =
     Some \<lparr>aw_window_start = hd ts, aw_failures = int (length ts), aw_locked_until = None\<rparr>"
proof -
  obtain now rest where t: "ts = now # rest" using assms(2) by (cases ts) auto
  have "dict_get (record_failures p rest i (snd (record_login_failure p now i s))) i =
     Some \<lparr>aw_window_start = now, aw_failures = 1 + int (length rest), aw_locked_until = None\<rparr>"
    using assms by (intro record_failures_count) (auto simp: t record_failure_first update_conv')
  then show ?thesis by (simp add: t)
qed

lemma record_failures_reach:
  assumes new: "dict_get s i = None" and ne: "ts \<noteq> []"
    and w: "\<forall>now \<in> set ts. now < hd ts + seconds (lk_window_seconds p)"
    and len: "int (length ts) = lk_max_failed_attempts p"
  shows "dict_get (record_failures p ts i s) i =
     Some \<lparr>aw_window_start = hd ts, aw_failures = lk_max_failed_attempts p,
           aw_locked_until = Some (last ts + seconds (lk_lockout_seconds p))\<rparr>"
proof (cases "butlast ts = []")
  case True
  then obtain now where t: "ts = [now]" using ne by (cases ts) (auto split: if_splits)
  then show ?thesis using new len by (simp add: record_login_failure_def update_conv' Let_def)
next
  case False
  have t: "ts = butlast ts @ [last ts]" using ne by simp
  have hd: "hd (butlast ts) = hd ts" using False by (metis append_butlast_last_id hd_append2 ne)
  have shorter: "length ts = Suc (length (butlast ts))" using ne by (cases ts) auto
  have "dict_get (record_failures p (butlast ts) i s) i =
     Some \<lparr>aw_window_start = hd (butlast ts), aw_failures = int (length (butlast ts)), aw_locked_until = None\<rparr>"
  proof (rule record_failures_below [OF new False])
    show "\<forall>now \<in> set (butlast ts). now < hd (butlast ts) + seconds (lk_window_seconds p)"
      unfolding hd using w by (meson in_set_butlastD)
    show "int (length (butlast ts)) < lk_max_failed_attempts p" using len shorter by linarith
  qed
  then have "dict_get (record_failures p (butlast ts) i s) i =
     Some \<lparr>aw_window_start = hd ts, aw_failures = int (length (butlast ts)), aw_locked_until = None\<rparr>"
    by (simp only: hd)
  moreover have "last ts < hd ts + seconds (lk_window_seconds p)" using w last_in_set [OF ne] by blast
  moreover have "int (length (butlast ts)) + 1 = lk_max_failed_attempts p" using len shorter by linarith
  ultimately have "dict_get (snd (record_login_failure p (last ts) i (record_failures p (butlast ts) i s))) i =
     Some \<lparr>aw_window_start = hd ts, aw_failures = lk_max_failed_attempts p,
           aw_locked_until = Some (last ts + seconds (lk_lockout_seconds p))\<rparr>"
    by (simp add: record_login_failure_def lock_holds_def update_conv' Let_def)
  then show ?thesis by (subst t) (simp add: record_failures_append)
qed

text \<open>
  The lockout. Failures of an identity that had none, all within one window of the first, leave
  it unlocked with the rest of its attempts while they are fewer than the maximum. The failure that
  reaches the maximum locks it: until the lockout has passed every query says so and a further
  failure changes nothing, and from then on it is unlocked. A success clears the count; no other
  identity is touched. Once the lockout and the window have passed, \<open>status\<close> still reports no
  attempt left, although the next failure is counted as the first of a new window.
\<close>
theorem lockout_exact:
  assumes new: "dict_get s i = None" and ne: "ts \<noteq> []"
    and w: "\<forall>now \<in> set ts. now < hd ts + seconds (lk_window_seconds p)"
  defines "s' \<equiv> record_failures p ts i s" and "until \<equiv> last ts + seconds (lk_lockout_seconds p)"
  shows "(int (length ts) < lk_max_failed_attempts p \<longrightarrow>
       (\<forall>now. lockout_status_of p now i s' =
          \<lparr>ls_locked = False, ls_remaining_attempts = lk_max_failed_attempts p - int (length ts),
           ls_retry_after_seconds = Fin 0\<rparr>)) \<and>
    (int (length ts) = lk_max_failed_attempts p \<longrightarrow>
       (\<forall>now. ls_locked (lockout_status_of p now i s') \<longleftrightarrow> now < until) \<and>
       (\<forall>now < until. ls_locked (fst (record_login_failure p now i s')) \<and> snd (record_login_failure p now i s') = s') \<and>
       (\<forall>now \<ge> until. hd ts + seconds (lk_window_seconds p) \<le> now \<and> 1 < lk_max_failed_attempts p \<longrightarrow>
          ls_remaining_attempts (lockout_status_of p now i s') = 0 \<and>
          ls_remaining_attempts (fst (record_login_failure p now i s')) = lk_max_failed_attempts p - 1)) \<and>
    (\<forall>now. lockout_status_of p now i (record_success i s') =
       \<lparr>ls_locked = False, ls_remaining_attempts = lk_max_failed_attempts p, ls_retry_after_seconds = Fin 0\<rparr>) \<and>
    (\<forall>now j. j \<noteq> i \<longrightarrow> lockout_status_of p now j s' = lockout_status_of p now j s)"
proof (intro conjI)
  show "int (length ts) < lk_max_failed_attempts p \<longrightarrow>
       (\<forall>now. lockout_status_of p now i s' =
          \<lparr>ls_locked = False, ls_remaining_attempts = lk_max_failed_attempts p - int (length ts),
           ls_retry_after_seconds = Fin 0\<rparr>)"
    using record_failures_below [OF new ne w] by (simp add: s'_def lockout_status_of_def lock_holds_def)
  show "int (length ts) = lk_max_failed_attempts p \<longrightarrow>
       (\<forall>now. ls_locked (lockout_status_of p now i s') \<longleftrightarrow> now < until) \<and>
       (\<forall>now < until. ls_locked (fst (record_login_failure p now i s')) \<and> snd (record_login_failure p now i s') = s') \<and>
       (\<forall>now \<ge> until. hd ts + seconds (lk_window_seconds p) \<le> now \<and> 1 < lk_max_failed_attempts p \<longrightarrow>
          ls_remaining_attempts (lockout_status_of p now i s') = 0 \<and>
          ls_remaining_attempts (fst (record_login_failure p now i s')) = lk_max_failed_attempts p - 1)"
  proof
    assume "int (length ts) = lk_max_failed_attempts p"
    then have e: "dict_get s' i = Some \<lparr>aw_window_start = hd ts, aw_failures = lk_max_failed_attempts p,
           aw_locked_until = Some until\<rparr>"
      unfolding s'_def until_def by (rule record_failures_reach [OF new ne w])
    show "(\<forall>now. ls_locked (lockout_status_of p now i s') \<longleftrightarrow> now < until) \<and>
       (\<forall>now < until. ls_locked (fst (record_login_failure p now i s')) \<and> snd (record_login_failure p now i s') = s') \<and>
       (\<forall>now \<ge> until. hd ts + seconds (lk_window_seconds p) \<le> now \<and> 1 < lk_max_failed_attempts p \<longrightarrow>
          ls_remaining_attempts (lockout_status_of p now i s') = 0 \<and>
          ls_remaining_attempts (fst (record_login_failure p now i s')) = lk_max_failed_attempts p - 1)"
      by (simp add: e lockout_status_of_def record_login_failure_def lock_holds_def still_locked_def Let_def)
  qed
  show "\<forall>now. lockout_status_of p now i (record_success i s') =
       \<lparr>ls_locked = False, ls_remaining_attempts = lk_max_failed_attempts p, ls_retry_after_seconds = Fin 0\<rparr>"
    by (simp add: lockout_status_of_def record_success_def delete_conv')
  show "\<forall>now j. j \<noteq> i \<longrightarrow> lockout_status_of p now j s' = lockout_status_of p now j s"
    by (simp add: lockout_status_of_def s'_def record_failures_other)
qed

theorem lockout_exact_witness:
  "ls_locked (lockout_status_of default_lockout_policy (seconds 100) ''f:ana''
      (record_failures default_lockout_policy [0, 1, 2, 3, 4] ''f:ana'' [])) \<and>
   \<not> ls_locked (lockout_status_of default_lockout_policy (seconds 901) ''f:ana''
      (record_failures default_lockout_policy [0, 1, 2, 3, 4] ''f:ana'' []))"
proof -
  have w: "\<forall>now \<in> set [0, 1, 2, 3, 4]. now < hd [0, 1, 2, 3, 4] + seconds (lk_window_seconds default_lockout_policy)"
    by (simp add: default_lockout_policy_def)
  have new: "dict_get [] ''f:ana'' = (None :: attempt_window option)" by simp
  show ?thesis
    using lockout_exact [OF new _ w, THEN conjunct2, THEN conjunct1, THEN mp, THEN conjunct1, rule_format]
    by (simp add: default_lockout_policy_def)
qed

section \<open>Login risk\<close>

datatype risk_level = RISK_LOW | RISK_MEDIUM | RISK_HIGH

record risk_assessment =
  rk_level :: risk_level
  rk_reasons :: "pystr list"
  rk_requires_step_up_mfa :: bool

definition identity_key :: "pystr \<Rightarrow> pystr \<Rightarrow> pystr" where
  "identity_key firm user = firm @ '':'' @ user"

definition reason_locked :: pystr where
  "reason_locked = (''verrouillage actif suite '' @ [CHR 0xE0] @ '' des tentatives r'' @ [CHR 0xE9] @ ''p'' @
     [CHR 0xE9] @ ''t'' @ [CHR 0xE9] @ ''es'')"

definition reason_device :: pystr where
  "reason_device = (''appareil inconnu ou non approuv'' @ [CHR 0xE9])"

definition assess_login ::
    "lockout_policy \<Rightarrow> device_store \<Rightarrow> attempts \<Rightarrow> datetime \<Rightarrow> pystr \<Rightarrow> pystr \<Rightarrow> pystr option \<Rightarrow> risk_assessment" where
  [op_defs]: "assess_login p devices s now firm user device =
     (let status = lockout_status_of p now (identity_key firm user) s;
          reasons1 = (if ls_locked status then [reason_locked] else []);
          reasons = (if (case device of None \<Rightarrow> True | Some d \<Rightarrow> \<not> device_is_trusted devices firm d)
                     then reasons1 @ [reason_device] else reasons1)
      in if reasons = [] then \<lparr>rk_level = RISK_LOW, rk_reasons = [], rk_requires_step_up_mfa = False\<rparr>
         else (let level = (if ls_locked status then RISK_HIGH else RISK_MEDIUM)
               in \<lparr>rk_level = level, rk_reasons = reasons, rk_requires_step_up_mfa = (level \<noteq> RISK_LOW)\<rparr>))"

definition risk_record_failure ::
    "lockout_policy \<Rightarrow> datetime \<Rightarrow> pystr \<Rightarrow> pystr \<Rightarrow> attempts \<Rightarrow> lockout_status \<times> attempts" where
  "risk_record_failure p now firm user s = record_login_failure p now (identity_key firm user) s"

definition risk_record_success :: "pystr \<Rightarrow> pystr \<Rightarrow> attempts \<Rightarrow> attempts" where
  "risk_record_success firm user s = record_success (identity_key firm user) s"

lemma identity_key_inject:
  "CHR '':'' \<notin> set f \<Longrightarrow> CHR '':'' \<notin> set g \<Longrightarrow> identity_key f u = identity_key g v \<longleftrightarrow> f = g \<and> u = v"
proof -
  assume f: "CHR '':'' \<notin> set f" and g: "CHR '':'' \<notin> set g"
  have firm: "takeWhile (\<lambda>c. c \<noteq> CHR '':'') (identity_key h w) = h" if "CHR '':'' \<notin> set h" for h w
    using that by (simp add: identity_key_def takeWhile_append)
  show ?thesis
  proof
    assume eq: "identity_key f u = identity_key g v"
    then have "f = g" using firm [OF f, of u] firm [OF g, of v] by simp
    then show "f = g \<and> u = v" using eq by (simp add: identity_key_def)
  qed simp
qed

text \<open>
  Login risk. The level is high just when the identity is locked out, low just when it is not
  and the device is trusted in that firm, medium otherwise; step-up MFA is required unless it is
  low, and the reasons name exactly the signals present. Failures recorded for one user change the
  assessment of no other as long as firm ids contain no colon; with a colon two users of different
  firms can share one lockout.
\<close>
theorem login_risk_exact:
  fixes p :: lockout_policy and devices :: device_store and s :: attempts
  defines "locked now firm user \<equiv> ls_locked (lockout_status_of p now (identity_key firm user) s)"
    and "trusted firm device \<equiv> (case device of None \<Rightarrow> False | Some d \<Rightarrow> device_is_trusted devices firm d)"
  shows "(\<forall>now firm user device. let r = assess_login p devices s now firm user device in
       (rk_level r = RISK_HIGH \<longleftrightarrow> locked now firm user) \<and>
       (rk_level r = RISK_LOW \<longleftrightarrow> \<not> locked now firm user \<and> trusted firm device) \<and>
       (rk_requires_step_up_mfa r \<longleftrightarrow> rk_level r \<noteq> RISK_LOW) \<and>
       (reason_locked \<in> set (rk_reasons r) \<longleftrightarrow> locked now firm user) \<and>
       (reason_device \<in> set (rk_reasons r) \<longleftrightarrow> \<not> trusted firm device)) \<and>
    (\<forall>now later firm user firm' user' device.
       CHR '':'' \<notin> set firm \<and> CHR '':'' \<notin> set firm' \<and> (firm, user) \<noteq> (firm', user') \<longrightarrow>
       assess_login p devices (snd (risk_record_failure p now firm user s)) later firm' user' device =
         assess_login p devices s later firm' user' device) \<and>
    (\<forall>now. risk_record_failure p now ''a:b'' ''c'' s = risk_record_failure p now ''a'' ''b:c'' s)"
proof (intro conjI allI impI)
  have reasons: "reason_locked \<noteq> reason_device" by (simp add: reason_locked_def reason_device_def)
  fix now firm user device
  show "let r = assess_login p devices s now firm user device in
       (rk_level r = RISK_HIGH \<longleftrightarrow> locked now firm user) \<and>
       (rk_level r = RISK_LOW \<longleftrightarrow> \<not> locked now firm user \<and> trusted firm device) \<and>
       (rk_requires_step_up_mfa r \<longleftrightarrow> rk_level r \<noteq> RISK_LOW) \<and>
       (reason_locked \<in> set (rk_reasons r) \<longleftrightarrow> locked now firm user) \<and>
       (reason_device \<in> set (rk_reasons r) \<longleftrightarrow> \<not> trusted firm device)"
    using reasons
    by (cases device) (auto simp: assess_login_def locked_def trusted_def Let_def)
next
  fix now later :: datetime and firm user firm' user' :: pystr and device
  assume "CHR '':'' \<notin> set firm \<and> CHR '':'' \<notin> set firm' \<and> (firm, user) \<noteq> (firm', user')"
  then have "identity_key firm' user' \<noteq> identity_key firm user" using identity_key_inject [of firm' firm] by auto
  then have "lockout_status_of p later (identity_key firm' user') (snd (risk_record_failure p now firm user s)) =
      lockout_status_of p later (identity_key firm' user') s"
    by (simp add: lockout_status_of_def risk_record_failure_def record_failure_other)
  then show "assess_login p devices (snd (risk_record_failure p now firm user s)) later firm' user' device =
         assess_login p devices s later firm' user' device"
    by (simp add: assess_login_def)
qed (simp add: risk_record_failure_def identity_key_def)

theorem login_risk_exact_witness:
  "rk_level (assess_login default_lockout_policy [] [] 0 ''f'' ''ana'' None) \<noteq> RISK_LOW \<and>
   assess_login default_lockout_policy [] (snd (risk_record_failure default_lockout_policy 0 ''f'' ''ana'' [])) 1 ''g'' ''ana'' None =
     assess_login default_lockout_policy [] [] 1 ''g'' ''ana'' None"
  using login_risk_exact [where p = default_lockout_policy and devices = "[]" and s = "[]",
      THEN conjunct2, THEN conjunct1, rule_format, of "''f''" "''g''" "''ana''" "''ana''" 0 1 None]
  by (simp add: assess_login_def lockout_status_of_def Let_def)

end
