(* ===== verification/Credentials.thy ===== *)
theory Credentials
  imports PyFloat Licences Sessions
begin

text \<open>
  The ways to prove an identity: the authorization-code grant of \<^verbatim>\<open>identity_platform/oauth2\<close> (and
  OpenID Connect on top of it), one-time codes (\<^verbatim>\<open>passwordless\<close>), login links (\<^verbatim>\<open>magic_links\<close>), TOTP
  (\<^verbatim>\<open>mfa\<close>), WebAuthn and passkeys, and the API keys and client-credentials tokens of
  \<^verbatim>\<open>cabinet_os/public_api\<close>. Random ids, codes and tokens and the clock are arguments; SHA-256 is the
  argument \<open>hash\<close> (a function to text), HMAC-SHA1 the argument \<open>hmac_sha1\<close> (key and message to
  bytes), the JWT library the arguments \<open>mint\<close> and \<open>decode\<close>.
\<close>

section \<open>Authorization codes\<close>

record oauth2_client =
  oc_client_id :: pystr
  oc_firm_id :: pystr
  oc_redirect_uris :: "pystr list"
  oc_client_secret_hash :: pystr

record authorization_code =
  ao_code :: pystr
  ao_client_id :: pystr
  ao_user_id :: pystr
  ao_firm_id :: pystr
  ao_redirect_uri :: pystr
  ao_expires_at :: datetime
  ao_used :: bool

definition new_authorization_code_expiry :: "datetime \<Rightarrow> datetime" where
  "new_authorization_code_expiry now = now + minutes 5"

record token_pair =
  tk_access_token :: pystr
  tk_refresh_token :: pystr
  tk_user_id :: pystr
  tk_firm_id :: pystr
  tk_token_type :: pystr
  tk_expires_in :: int

record oauth2_engine =
  oe_clients :: "(pystr, oauth2_client) dict"
  oe_codes :: "(pystr, authorization_code) dict"

definition client_store_save :: "oauth2_client \<Rightarrow> (pystr, oauth2_client) dict \<Rightarrow> (pystr, oauth2_client) dict" where
  [store_defs]: "client_store_save c s = dict_set (oc_client_id c) c s"

definition code_store_save ::
    "authorization_code \<Rightarrow> (pystr, authorization_code) dict \<Rightarrow> (pystr, authorization_code) dict" where
  [store_defs]: "code_store_save r s = dict_set (ao_code r) r s"

interpretation code_rows: keyed_store ao_code code_store_save dict_get "keyed ao_code"
  using keyed_store_dict [of ao_code] by (simp add: code_store_save_def [abs_def])

interpretation client_rows: keyed_store oc_client_id client_store_save dict_get "keyed oc_client_id"
  using keyed_store_dict [of oc_client_id] by (simp add: client_store_save_def [abs_def])

definition register_client ::
    "(pystr \<Rightarrow> pystr) \<Rightarrow> pystr \<Rightarrow> pystr \<Rightarrow> pystr \<Rightarrow> pystr list \<Rightarrow> oauth2_engine
       \<Rightarrow> (oauth2_client \<times> pystr) \<times> oauth2_engine" where
  [op_defs]: "register_client hash new_id secret firm redirect_uris e =
     (let c = \<lparr>oc_client_id = new_id, oc_firm_id = firm, oc_redirect_uris = redirect_uris,
               oc_client_secret_hash = hash secret\<rparr>
      in ((c, secret), e\<lparr>oe_clients := client_store_save c (oe_clients e)\<rparr>))"

definition issue_authorization_code ::
    "datetime \<Rightarrow> pystr \<Rightarrow> pystr \<Rightarrow> pystr \<Rightarrow> pystr \<Rightarrow> pystr \<Rightarrow> oauth2_engine \<Rightarrow> pystr result \<times> oauth2_engine" where
  [op_defs]: "issue_authorization_code now new_code client_id user firm redirect_uri e =
     (if (case dict_get (oe_clients e) client_id of
            None \<Rightarrow> True | Some c \<Rightarrow> redirect_uri \<notin> set (oc_redirect_uris c))
      then (Inl (OAuth2Error ''invalid_client_or_redirect_uri''), e)
      else (Inr new_code,
            e\<lparr>oe_codes := code_store_save
                 \<lparr>ao_code = new_code, ao_client_id = client_id, ao_user_id = user, ao_firm_id = firm,
                  ao_redirect_uri = redirect_uri, ao_expires_at = new_authorization_code_expiry now,
                  ao_used = False\<rparr> (oe_codes e)\<rparr>))"

text \<open>The stored record is marked used in place.\<close>

definition exchange_code ::
    "(pystr \<Rightarrow> pystr) \<Rightarrow> (pystr \<Rightarrow> (pystr, pystr) dict \<Rightarrow> pystr) \<Rightarrow> datetime \<Rightarrow> pystr \<Rightarrow> pystr \<Rightarrow> pystr \<Rightarrow> pystr \<Rightarrow> pystr
       \<Rightarrow> oauth2_engine \<Rightarrow> token_pair result \<times> oauth2_engine" where
  [op_defs]: "exchange_code hash mint now new_refresh client_id client_secret cd redirect_uri e =
     (case (case dict_get (oe_clients e) client_id of
              None \<Rightarrow> Inr False
            | Some c \<Rightarrow> compare_digest (hash client_secret) (oc_client_secret_hash c)) of
        Inl exn \<Rightarrow> (Inl exn, e)
      | Inr False \<Rightarrow> (Inl (OAuth2Error ''invalid_client''), e)
      | Inr True \<Rightarrow>
          (case dict_get (oe_codes e) cd of
             None \<Rightarrow> (Inl (OAuth2Error ''invalid_grant''), e)
           | Some r \<Rightarrow>
               if ao_used r \<or> ao_client_id r \<noteq> client_id \<or> ao_redirect_uri r \<noteq> redirect_uri \<or> ao_expires_at r < now
               then (Inl (OAuth2Error ''invalid_grant''), e)
               else (Inr \<lparr>tk_access_token = mint (ao_user_id r) [(''firm_id'', ao_firm_id r)],
                          tk_refresh_token = new_refresh, tk_user_id = ao_user_id r, tk_firm_id = ao_firm_id r,
                          tk_token_type = ''Bearer'', tk_expires_in = 3600\<rparr>,
                     e\<lparr>oe_codes := dict_set cd (r\<lparr>ao_used := True\<rparr>) (oe_codes e)\<rparr>)))"

record oidc_token_response =
  ot_access_token :: pystr
  ot_refresh_token :: pystr
  ot_id_token :: pystr

definition oidc_exchange_code ::
    "(pystr \<Rightarrow> pystr) \<Rightarrow> (pystr \<Rightarrow> (pystr, pystr) dict \<Rightarrow> pystr) \<Rightarrow> datetime \<Rightarrow> pystr \<Rightarrow> pystr \<Rightarrow> pystr \<Rightarrow> pystr \<Rightarrow> pystr
       \<Rightarrow> pystr \<Rightarrow> pystr \<Rightarrow> oauth2_engine \<Rightarrow> oidc_token_response result \<times> oauth2_engine" where
  [op_defs]: "oidc_exchange_code hash mint now new_refresh client_id client_secret cd redirect_uri email display_name e =
     (case exchange_code hash mint now new_refresh client_id client_secret cd redirect_uri e of
        (Inl exn, e') \<Rightarrow> (Inl exn, e')
      | (Inr t, e') \<Rightarrow>
          (Inr \<lparr>ot_access_token = tk_access_token t, ot_refresh_token = tk_refresh_token t,
                ot_id_token = mint (tk_user_id t)
                  [(''firm_id'', tk_firm_id t), (''email'', email), (''name'', display_name)]\<rparr>, e'))"

datatype oauth2_op =
    Register_client pystr pystr pystr "pystr list"
  | Issue_code datetime pystr pystr pystr pystr pystr
  | Exchange_code datetime pystr pystr pystr pystr pystr

fun oauth2_step ::
    "(pystr \<Rightarrow> pystr) \<Rightarrow> (pystr \<Rightarrow> (pystr, pystr) dict \<Rightarrow> pystr) \<Rightarrow> oauth2_op \<Rightarrow> oauth2_engine \<Rightarrow> oauth2_engine" where
  "oauth2_step hash mint (Register_client new_id secret firm uris) e = snd (register_client hash new_id secret firm uris e)"
| "oauth2_step hash mint (Issue_code now new_code client_id user firm uri) e =
     snd (issue_authorization_code now new_code client_id user firm uri e)"
| "oauth2_step hash mint (Exchange_code now new_refresh client_id secret cd uri) e =
     snd (exchange_code hash mint now new_refresh client_id secret cd uri e)"

text \<open>\<open>secrets.token_urlsafe\<close> never repeats a code.\<close>

fun oauth2_op_fresh :: "oauth2_op \<Rightarrow> oauth2_engine \<Rightarrow> bool" where
  "oauth2_op_fresh (Issue_code _ new_code _ _ _ _) e \<longleftrightarrow> dict_get (oe_codes e) new_code = None"
| "oauth2_op_fresh _ e \<longleftrightarrow> True"

inductive oauth2_run ::
    "(pystr \<Rightarrow> pystr) \<Rightarrow> (pystr \<Rightarrow> (pystr, pystr) dict \<Rightarrow> pystr) \<Rightarrow> oauth2_engine \<Rightarrow> oauth2_engine \<Rightarrow> bool"
  for hash mint where
  oauth2_stop: "oauth2_run hash mint e e"
| oauth2_next: "oauth2_run hash mint e e' \<Longrightarrow> oauth2_op_fresh op e' \<Longrightarrow> oauth2_run hash mint e (oauth2_step hash mint op e')"

lemma exchange_code_Inr:
  assumes "exchange_code hash mint now nr client_id secret cd uri e = (Inr t, e')"
  obtains c r where "dict_get (oe_clients e) client_id = Some c" "hash secret = oc_client_secret_hash c"
    "dict_get (oe_codes e) cd = Some r" "\<not> ao_used r" "ao_client_id r = client_id" "ao_redirect_uri r = uri"
    "now \<le> ao_expires_at r" "tk_user_id t = ao_user_id r" "tk_firm_id t = ao_firm_id r"
    "tk_access_token t = mint (ao_user_id r) [(''firm_id'', ao_firm_id r)]"
    "e' = e\<lparr>oe_codes := dict_set cd (r\<lparr>ao_used := True\<rparr>) (oe_codes e)\<rparr>"
  using assms unfolding exchange_code_def compare_digest_def
  by (auto split: option.splits if_splits bool.splits)

lemma exchange_code_Inl:
  "exchange_code hash mint now nr client_id secret cd uri e = (Inl x, e') \<Longrightarrow> e' = e"
  unfolding exchange_code_def by (auto split: option.splits if_splits bool.splits sum.splits)

lemma exchange_used:
  assumes "dict_get (oe_codes e) cd = Some r" and "ao_used r"
  shows "\<exists>x. exchange_code hash mint now nr client_id secret cd uri e = (Inl x, e)"
proof (cases "exchange_code hash mint now nr client_id secret cd uri e")
  case (Pair a e')
  show ?thesis
  proof (cases a)
    case (Inl x)
    then show ?thesis using Pair exchange_code_Inl by blast
  next
    case (Inr t)
    then show ?thesis using Pair assms by (auto elim!: exchange_code_Inr)
  qed
qed

lemma oauth2_step_used:
  assumes used: "dict_get (oe_codes e) cd = Some r" "ao_used r" and fresh: "oauth2_op_fresh op e"
  shows "\<exists>r'. dict_get (oe_codes (oauth2_step hash mint op e)) cd = Some r' \<and> ao_used r'"
proof (cases op)
  case (Register_client new_id secret firm uris)
  then show ?thesis using used by (simp add: register_client_def Let_def)
next
  case (Issue_code now new_code client_id user firm uri)
  then have "new_code \<noteq> cd" using fresh used by auto
  then show ?thesis using used Issue_code
    by (auto simp: issue_authorization_code_def code_store_save_def update_conv')
next
  case (Exchange_code now nr client_id secret cd' uri)
  show ?thesis
  proof (cases "exchange_code hash mint now nr client_id secret cd' uri e")
    case (Pair a e')
    show ?thesis
    proof (cases a)
      case (Inl x)
      then show ?thesis using used Pair exchange_code_Inl [of hash mint now nr client_id secret cd' uri e x e']
        by (simp add: Exchange_code)
    next
      case (Inr t)
      then show ?thesis using used Pair
        by (auto simp: Exchange_code update_conv' elim!: exchange_code_Inr)
    qed
  qed
qed

lemma oauth2_run_used:
  "oauth2_run hash mint e e' \<Longrightarrow> dict_get (oe_codes e) cd = Some r \<Longrightarrow> ao_used r \<Longrightarrow>
     \<exists>r'. dict_get (oe_codes e') cd = Some r' \<and> ao_used r'"
proof (induction rule: oauth2_run.induct)
  case (oauth2_next e e' op)
  then show ?case using oauth2_step_used by blast
qed blast

text \<open>
  C13. An authorization code buys tokens once. A successful exchange presented the secret of the
  registered client the code was issued to, the redirect URI it was issued for and an unused,
  unexpired code, and the tokens are for the user and firm of that code (whatever the firm of the
  client); from then on, whatever clients, codes and exchanges follow, every exchange of that code
  fails. A failing exchange changes nothing.
\<close>
theorem authorization_code_single_use:
  assumes exchange: "exchange_code hash mint now new_refresh client_id secret cd uri e = (answer, e')"
  shows "case answer of
      Inl x \<Rightarrow> e' = e
    | Inr t \<Rightarrow>
        (\<exists>c r. dict_get (oe_clients e) client_id = Some c \<and> hash secret = oc_client_secret_hash c \<and>
           dict_get (oe_codes e) cd = Some r \<and> \<not> ao_used r \<and> ao_client_id r = client_id \<and>
           ao_redirect_uri r = uri \<and> now \<le> ao_expires_at r \<and>
           tk_user_id t = ao_user_id r \<and> tk_firm_id t = ao_firm_id r) \<and>
        (\<forall>e'' now' nr' client' secret' uri'. oauth2_run hash mint e' e'' \<longrightarrow>
           (\<exists>x. exchange_code hash mint now' nr' client' secret' cd uri' e'' = (Inl x, e'')))"
proof (cases answer)
  case (Inl x)
  then show ?thesis using exchange exchange_code_Inl by auto
next
  case (Inr t)
  with exchange have ex: "exchange_code hash mint now new_refresh client_id secret cd uri e = (Inr t, e')" by simp
  obtain c r where cr: "dict_get (oe_clients e) client_id = Some c" "hash secret = oc_client_secret_hash c"
    "dict_get (oe_codes e) cd = Some r" "\<not> ao_used r" "ao_client_id r = client_id" "ao_redirect_uri r = uri"
    "now \<le> ao_expires_at r" "tk_user_id t = ao_user_id r" "tk_firm_id t = ao_firm_id r"
    "e' = e\<lparr>oe_codes := dict_set cd (r\<lparr>ao_used := True\<rparr>) (oe_codes e)\<rparr>"
    by (rule exchange_code_Inr [OF ex])
  have used: "dict_get (oe_codes e') cd = Some (r\<lparr>ao_used := True\<rparr>)" by (simp add: cr(10) update_conv')
  have "\<exists>x. exchange_code hash mint now' nr' client' secret' cd uri' e'' = (Inl x, e'')"
    if "oauth2_run hash mint e' e''" for e'' now' nr' client' secret' uri'
    using oauth2_run_used [OF that used] exchange_used by auto
  then show ?thesis using cr(1-9) Inr by auto
qed

definition demo_oauth2 :: oauth2_engine where
  "demo_oauth2 =
     snd (issue_authorization_code 0 ''code-1'' ''client-1'' ''ana'' ''g'' ''https://x/cb''
       (snd (register_client (\<lambda>s. ''h'' @ s) ''client-1'' ''s3cret'' ''f'' [''https://x/cb'']
         \<lparr>oe_clients = [], oe_codes = []\<rparr>)))"

theorem authorization_code_single_use_witness:
  "case exchange_code (\<lambda>s. ''h'' @ s) (\<lambda>u c. u) 5 ''r'' ''client-1'' ''s3cret'' ''code-1'' ''https://x/cb'' demo_oauth2 of
     (Inl x, e') \<Rightarrow> False
   | (Inr t, e') \<Rightarrow> tk_firm_id t = ''g'' \<and>
       (\<exists>x. exchange_code (\<lambda>s. ''h'' @ s) (\<lambda>u c. u) 6 ''r'' ''client-1'' ''s3cret'' ''code-1'' ''https://x/cb'' e' = (Inl x, e'))"
proof -
  obtain t e' where ex: "exchange_code (\<lambda>s. ''h'' @ s) (\<lambda>u c. u) 5 ''r'' ''client-1'' ''s3cret'' ''code-1'' ''https://x/cb'' demo_oauth2 = (Inr t, e')"
      "tk_firm_id t = ''g''"
    by (simp add: exchange_code_def demo_oauth2_def issue_authorization_code_def register_client_def store_defs
        compare_digest_def is_ascii_def code_def new_authorization_code_expiry_def Let_def)
  have "\<exists>x. exchange_code (\<lambda>s. ''h'' @ s) (\<lambda>u c. u) 6 ''r'' ''client-1'' ''s3cret'' ''code-1'' ''https://x/cb'' e' = (Inl x, e')"
    using authorization_code_single_use [OF ex(1)] oauth2_stop by (simp only: sum.case)
  then show ?thesis unfolding ex(1) using ex(2) by (simp only: prod.case sum.case simp_thms)
qed

section \<open>One-time codes\<close>

record passwordless_challenge =
  pc_id :: pystr
  pc_firm_id :: pystr
  pc_user_id :: pystr
  pc_code :: pystr
  pc_expires_at :: datetime
  pc_used :: bool

definition new_challenge_expiry :: "datetime \<Rightarrow> datetime" where
  "new_challenge_expiry now = now + minutes 10"

text \<open>\<open>f"{n:06d}"\<close> of a number below a million.\<close>

definition zfill :: "nat \<Rightarrow> pystr \<Rightarrow> pystr" where
  "zfill width s = replicate (width - length s) CHR ''0'' @ s"

definition generate_code :: "nat \<Rightarrow> pystr" where
  "generate_code n = zfill 6 (dec_nat n)"

definition challenge_key :: "passwordless_challenge \<Rightarrow> pystr \<times> pystr" where
  "challenge_key c = (pc_firm_id c, pc_id c)"

type_synonym challenge_store = "(pystr \<times> pystr, passwordless_challenge) dict"

definition challenge_store_save :: "passwordless_challenge \<Rightarrow> challenge_store \<Rightarrow> challenge_store" where
  [store_defs]: "challenge_store_save c s = dict_set (challenge_key c) c s"

interpretation challenge_rows: keyed_store challenge_key challenge_store_save dict_get "keyed challenge_key"
  using keyed_store_dict [of challenge_key] by (simp add: challenge_store_save_def [abs_def])

definition request_challenge ::
    "datetime \<Rightarrow> pystr \<Rightarrow> nat \<Rightarrow> pystr \<Rightarrow> pystr \<Rightarrow> challenge_store \<Rightarrow> passwordless_challenge \<times> challenge_store" where
  [op_defs]: "request_challenge now new_id random firm user s =
     (let c = \<lparr>pc_id = new_id, pc_firm_id = firm, pc_user_id = user, pc_code = generate_code random,
               pc_expires_at = new_challenge_expiry now, pc_used = False\<rparr>
      in (c, challenge_store_save c s))"

definition verify_challenge ::
    "datetime \<Rightarrow> pystr \<Rightarrow> pystr \<Rightarrow> pystr \<Rightarrow> challenge_store \<Rightarrow> pystr option \<times> challenge_store" where
  [op_defs]: "verify_challenge now firm i guess s =
     (case dict_get s (firm, i) of
        None \<Rightarrow> (None, s)
      | Some c \<Rightarrow>
          if pc_used c \<or> pc_code c \<noteq> guess \<or> pc_expires_at c < now then (None, s)
          else (Some (pc_user_id c), challenge_store_save (c\<lparr>pc_used := True\<rparr>) s))"

text \<open>
  A challenge is consumed by the first right code; wrong guesses change nothing and are not
  counted, so any number of them may precede it.
\<close>

fun wrong_guesses :: "datetime \<Rightarrow> pystr \<Rightarrow> pystr \<Rightarrow> pystr list \<Rightarrow> challenge_store \<Rightarrow> challenge_store" where
  "wrong_guesses now firm i [] s = s"
| "wrong_guesses now firm i (g # gs) s = wrong_guesses now firm i gs (snd (verify_challenge now firm i g s))"

lemma wrong_guesses_free:
  "dict_get s (firm, i) = Some c \<Longrightarrow> pc_code c \<notin> set gs \<Longrightarrow> wrong_guesses now firm i gs s = s"
  by (induction gs) (auto simp: verify_challenge_def)

lemma challenge_single_use:
  assumes k: "keyed challenge_key s" and v: "verify_challenge now firm i guess s = (Some user, s')"
  shows "(\<exists>c. dict_get s (firm, i) = Some c \<and> \<not> pc_used c \<and> pc_code c = guess \<and> now \<le> pc_expires_at c \<and>
      user = pc_user_id c) \<and> verify_challenge later firm i guess' s' = (None, s')"
proof -
  obtain c where c: "dict_get s (firm, i) = Some c" "\<not> pc_used c" "pc_code c = guess" "\<not> pc_expires_at c < now"
      "user = pc_user_id c" "s' = challenge_store_save (c\<lparr>pc_used := True\<rparr>) s"
    using v by (auto simp: verify_challenge_def split: option.splits if_splits)
  have "dict_get s' (firm, i) = Some (c\<lparr>pc_used := True\<rparr>)"
    using challenge_rows.get_key [OF k c(1)] by (simp add: c(6) challenge_rows.get_put challenge_key_def)
  then show ?thesis using c by (auto simp: verify_challenge_def)
qed

section \<open>Login links\<close>

text \<open>
  \<open>decode\<close> gives the claims of a token or nothing when the JWT library refuses it. The link is
  marked used before the subject is read; a token without a subject raises \<open>KeyError\<close>.
\<close>

definition issue_magic_link :: "(pystr \<Rightarrow> (pystr, pystr) dict \<Rightarrow> pystr) \<Rightarrow> pystr \<Rightarrow> pystr \<Rightarrow> pystr" where
  "issue_magic_link mint firm user = mint user [(''firm_id'', firm), (''purpose'', ''magic_link'')]"

definition consume_magic_link ::
    "(pystr \<Rightarrow> (pystr, pystr) dict option) \<Rightarrow> pystr \<Rightarrow> pystr set \<Rightarrow> pystr option result \<times> pystr set" where
  [op_defs]: "consume_magic_link decode token used =
     (if token \<in> used then (Inr None, used)
      else (case decode token of
              None \<Rightarrow> (Inr None, used)
            | Some claims \<Rightarrow>
                if dict_get claims ''purpose'' \<noteq> Some ''magic_link'' then (Inr None, used)
                else ((case dict_get claims ''sub'' of None \<Rightarrow> Inl (KeyError ''sub'') | Some u \<Rightarrow> Inr (Some u)),
                      insert token used)))"

fun consume_links ::
    "(pystr \<Rightarrow> (pystr, pystr) dict option) \<Rightarrow> pystr list \<Rightarrow> pystr set \<Rightarrow> pystr set" where
  "consume_links decode [] used = used"
| "consume_links decode (t # ts) used = consume_links decode ts (snd (consume_magic_link decode t used))"

lemma consume_links_mono: "used \<subseteq> consume_links decode ts used"
proof (induction ts arbitrary: used)
  case (Cons t ts)
  have "used \<subseteq> snd (consume_magic_link decode t used)"
    by (auto simp: consume_magic_link_def split: option.splits)
  then show ?case using Cons.IH [of "snd (consume_magic_link decode t used)"] by simp
qed simp

lemma magic_link_single_use:
  assumes "fst (consume_magic_link decode token used) = Inr (Some user)"
  shows "token \<notin> used \<and>
    consume_magic_link decode token (consume_links decode ts (snd (consume_magic_link decode token used))) =
      (Inr None, consume_links decode ts (snd (consume_magic_link decode token used)))"
proof -
  have "token \<notin> used" "token \<in> snd (consume_magic_link decode token used)"
    using assms by (auto simp: consume_magic_link_def split: option.splits if_splits)
  then show ?thesis using consume_links_mono [of "snd (consume_magic_link decode token used)" decode ts]
    by (auto simp: consume_magic_link_def [of _ _ "consume_links decode ts _"])
qed

section \<open>WebAuthn and passkeys\<close>

record webauthn_credential =
  wa_id :: pystr
  wa_firm_id :: pystr
  wa_user_id :: pystr
  wa_public_key :: pystr
  wa_sign_count :: int

definition credential_key :: "webauthn_credential \<Rightarrow> pystr \<times> pystr" where
  "credential_key c = (wa_firm_id c, wa_id c)"

type_synonym credential_store = "(pystr \<times> pystr, webauthn_credential) dict"

definition credential_store_save :: "webauthn_credential \<Rightarrow> credential_store \<Rightarrow> credential_store" where
  [store_defs]: "credential_store_save c s = dict_set (credential_key c) c s"

interpretation credential_rows: keyed_store credential_key credential_store_save dict_get "keyed credential_key"
  using keyed_store_dict [of credential_key] by (simp add: credential_store_save_def [abs_def])

definition register_credential ::
    "pystr \<Rightarrow> pystr \<Rightarrow> pystr \<Rightarrow> pystr \<Rightarrow> credential_store \<Rightarrow> webauthn_credential \<times> credential_store" where
  [op_defs]: "register_credential firm user credential_id public_key s =
     (let c = \<lparr>wa_id = credential_id, wa_firm_id = firm, wa_user_id = user, wa_public_key = public_key,
               wa_sign_count = 0\<rparr>
      in (c, credential_store_save c s))"

definition verify_assertion ::
    "pystr \<Rightarrow> pystr \<Rightarrow> int \<Rightarrow> credential_store \<Rightarrow> bool \<times> credential_store" where
  [op_defs]: "verify_assertion firm credential_id signature_counter s =
     (case dict_get s (firm, credential_id) of
        None \<Rightarrow> (False, s)
      | Some c \<Rightarrow>
          if signature_counter \<le> wa_sign_count c then (False, s)
          else (True, credential_store_save (c\<lparr>wa_sign_count := signature_counter\<rparr>) s))"

definition passkey_authenticate ::
    "pystr \<Rightarrow> pystr \<Rightarrow> int \<Rightarrow> credential_store \<Rightarrow> pystr option \<times> credential_store" where
  [op_defs]: "passkey_authenticate firm credential_id signature_counter s =
     (case verify_assertion firm credential_id signature_counter s of
        (False, s') \<Rightarrow> (None, s')
      | (True, s') \<Rightarrow> (map_option wa_user_id (dict_get s' (firm, credential_id)), s'))"

text \<open>The answers to a sequence of assertions of one credential, and the counters that were accepted.\<close>

fun accepted_counters :: "pystr \<Rightarrow> pystr \<Rightarrow> int list \<Rightarrow> credential_store \<Rightarrow> int list" where
  "accepted_counters firm i [] s = []"
| "accepted_counters firm i (n # ns) s =
     (case verify_assertion firm i n s of
        (ok, s') \<Rightarrow> (if ok then [n] else []) @ accepted_counters firm i ns s')"

lemma verify_assertion_get:
  assumes "keyed credential_key s" and "dict_get s (firm, i) = Some c"
  shows "verify_assertion firm i n s =
     (if n \<le> wa_sign_count c then (False, s) else (True, credential_store_save (c\<lparr>wa_sign_count := n\<rparr>) s))"
    and "dict_get (credential_store_save (c\<lparr>wa_sign_count := n\<rparr>) s) (firm, i) = Some (c\<lparr>wa_sign_count := n\<rparr>)"
  using assms(2) credential_rows.get_key [OF assms]
  by (simp_all add: verify_assertion_def credential_rows.get_put credential_key_def)

lemma accepted_counters_increase:
  assumes "keyed credential_key s" and "dict_get s (firm, i) = Some c"
  shows "sorted_wrt (<) (wa_sign_count c # accepted_counters firm i ns s)"
  using assms
proof (induction ns arbitrary: s c)
  case (Cons n ns)
  show ?case
  proof (cases "n \<le> wa_sign_count c")
    case True
    then show ?thesis using Cons.IH [OF Cons.prems] by (simp add: verify_assertion_get [OF Cons.prems])
  next
    case False
    let ?s = "credential_store_save (c\<lparr>wa_sign_count := n\<rparr>) s"
    have "sorted_wrt (<) (n # accepted_counters firm i ns ?s)"
      using Cons.IH [OF credential_rows.wf_put [OF Cons.prems(1)] verify_assertion_get(2) [OF Cons.prems]] by simp
    then show ?thesis using False by (auto simp: verify_assertion_get [OF Cons.prems])
  qed
qed simp

text \<open>
  WebAuthn replay protection. The counters accepted for a credential over any sequence of
  assertions are strictly increasing and above its stored count, so no counter is accepted twice;
  a passkey login succeeds just when its assertion does, for the credential's user. But registering
  a credential id again, by any user of the firm, hands it to that user and sets the count to
  zero, so every positive counter is accepted again.
\<close>
theorem webauthn_no_replay:
  assumes k: "keyed credential_key s" and c: "dict_get s (firm, i) = Some c"
  shows "sorted_wrt (<) (wa_sign_count c # accepted_counters firm i ns s) \<and>
    distinct (accepted_counters firm i ns s) \<and>
    fst (passkey_authenticate firm i n s) = (if n \<le> wa_sign_count c then None else Some (wa_user_id c)) \<and>
    (let s' = snd (register_credential firm user i public_key s)
     in 0 < n \<longrightarrow> fst (passkey_authenticate firm i n s') = Some user)"
proof (intro conjI)
  show inc: "sorted_wrt (<) (wa_sign_count c # accepted_counters firm i ns s)"
    by (rule accepted_counters_increase [OF k c])
  then show "distinct (accepted_counters firm i ns s)"
    by (simp add: strict_sorted_iff)
  show "fst (passkey_authenticate firm i n s) = (if n \<le> wa_sign_count c then None else Some (wa_user_id c))"
    using verify_assertion_get [OF k c, of n] by (simp add: passkey_authenticate_def)
  show "let s' = snd (register_credential firm user i public_key s)
     in 0 < n \<longrightarrow> fst (passkey_authenticate firm i n s') = Some user"
    by (simp add: register_credential_def passkey_authenticate_def verify_assertion_def
        credential_rows.get_put credential_key_def Let_def)
qed

theorem webauthn_no_replay_witness:
  "let s = snd (register_credential ''f'' ''ana'' ''cred-1'' ''pk'' [])
   in distinct (accepted_counters ''f'' ''cred-1'' [1, 1, 3, 2, 4] s) \<and>
      fst (passkey_authenticate ''f'' ''cred-1'' 2 (snd (register_credential ''f'' ''eve'' ''cred-1'' ''pk2'' s))) = Some ''eve''"
proof -
  let ?s = "snd (register_credential ''f'' ''ana'' ''cred-1'' ''pk'' [])"
  have k: "keyed credential_key ?s"
    by (auto simp: register_credential_def Let_def intro: credential_rows.wf_put)
  have c: "dict_get ?s (''f'', ''cred-1'') = Some (fst (register_credential ''f'' ''ana'' ''cred-1'' ''pk'' []))"
    by (simp add: register_credential_def credential_rows.get_put credential_key_def Let_def)
  show ?thesis
    using webauthn_no_replay [OF k c, of "[1, 1, 3, 2, 4]" 2 "''eve''" "''pk2''"] by (simp add: Let_def)
qed

section \<open>TOTP\<close>

text \<open>
  \<open>base64.b32decode\<close> of a padded secret: groups of eight characters to five bytes, the last group
  padded; a wrong length, character or padding is an error (\<open>binascii.Error\<close>, a \<open>ValueError\<close>).
\<close>

definition b32_value :: "char \<Rightarrow> nat option" where
  "b32_value c =
     (let n = code c in if 65 \<le> n \<and> n \<le> 90 then Some (n - 65) else if 50 \<le> n \<and> n \<le> 55 then Some (n - 50 + 26) else None)"

fun b32_acc :: "nat \<Rightarrow> pystr \<Rightarrow> nat option" where
  "b32_acc acc [] = Some acc"
| "b32_acc acc (c # cs) = (case b32_value c of None \<Rightarrow> None | Some v \<Rightarrow> b32_acc (acc * 32 + v) cs)"

fun to_bytes :: "nat \<Rightarrow> nat \<Rightarrow> nat list" where
  "to_bytes 0 n = []"
| "to_bytes (Suc k) n = n div 256 ^ k mod 256 # to_bytes k n"

fun b32_groups :: "nat \<Rightarrow> pystr \<Rightarrow> nat list option" where
  "b32_groups pad s =
     (if s = [] then Some []
      else case b32_acc 0 (take 8 s) of
        None \<Rightarrow> None
      | Some acc \<Rightarrow>
          if length s \<le> 8 then Some (if pad = 0 then to_bytes 5 acc
                                     else take ((43 - 5 * pad) div 8) (to_bytes 5 (acc * 2 ^ (5 * pad))))
          else map_option ((@) (to_bytes 5 acc)) (b32_groups pad (drop 8 s)))"

declare b32_groups.simps [simp del]

definition b32decode :: "pystr \<Rightarrow> nat list result" where
  "b32decode s =
     (let body = rev (dropWhile (\<lambda>c. c = CHR ''='') (rev s)); pad = length s - length body
      in if \<not> is_ascii s then Inl (ValueError ''string argument should contain only ASCII characters'')
         else if length s mod 8 \<noteq> 0 then Inl (ValueError ''Incorrect padding'')
         else case b32_groups pad body of
           None \<Rightarrow> Inl (ValueError ''Non-base32 digit found'')
         | Some bs \<Rightarrow> if pad \<notin> {0, 1, 3, 4, 6} then Inl (ValueError ''Incorrect padding'') else Inr bs)"

text \<open>\<open>struct.pack(">Q", counter)\<close> raises outside 64 bits.\<close>

definition pack_counter :: "int \<Rightarrow> nat list result" where
  "pack_counter n =
     (if 0 \<le> n \<and> n < 2 ^ 64 then Inr (to_bytes 8 (nat n))
      else Inl (Foreign ''error'' ''argument out of range''))"

fun big_endian :: "nat list \<Rightarrow> nat" where
  "big_endian bs = foldl (\<lambda>acc b. acc * 256 + b) 0 bs"

definition hotp_of_digest :: "nat list \<Rightarrow> nat \<Rightarrow> pystr" where
  "hotp_of_digest digest digits =
     (let offset = last digest mod 16;
          code_int = big_endian (take 4 (drop offset digest)) mod 2 ^ 31 mod 10 ^ digits
      in zfill digits (dec_nat code_int))"

definition hotp :: "(nat list \<Rightarrow> nat list \<Rightarrow> nat list) \<Rightarrow> pystr \<Rightarrow> int \<Rightarrow> nat \<Rightarrow> pystr result" where
  "hotp hmac_sha1 secret counter digits =
     (let padding = replicate ((8 - length secret mod 8) mod 8) CHR ''=''
      in res_bind (b32decode (secret @ padding)) (\<lambda>key.
           res_bind (pack_counter counter) (\<lambda>message. Inr (hotp_of_digest (hmac_sha1 key message) digits))))"

text \<open>Times are seconds, as rational numbers; \<open>int(at // timestep)\<close> is the floor of the quotient.\<close>

definition totp_counter :: "int \<Rightarrow> rat \<Rightarrow> int" where
  "totp_counter timestep clk = \<lfloor>clk / of_int timestep\<rfloor>"

definition generate_totp :: "(nat list \<Rightarrow> nat list \<Rightarrow> nat list) \<Rightarrow> pystr \<Rightarrow> int \<Rightarrow> nat \<Rightarrow> rat \<Rightarrow> pystr result" where
  "generate_totp hmac_sha1 secret timestep digits clk = hotp hmac_sha1 secret (totp_counter timestep clk) digits"

definition verify_totp ::
    "(nat list \<Rightarrow> nat list \<Rightarrow> nat list) \<Rightarrow> pystr \<Rightarrow> pystr \<Rightarrow> int \<Rightarrow> nat \<Rightarrow> int \<Rightarrow> rat \<Rightarrow> bool result" where
  "verify_totp hmac_sha1 secret guess timestep digits window clk =
     (let counter = totp_counter timestep clk
      in any_res (\<lambda>offset. res_bind (hotp hmac_sha1 secret (counter + offset) digits) (\<lambda>h. compare_digest h guess))
           [-window..window])"

record totp_enrollment =
  te_firm_id :: pystr
  te_user_id :: pystr
  te_secret :: pystr
  te_confirmed :: bool

definition enrollment_key :: "totp_enrollment \<Rightarrow> pystr \<times> pystr" where
  "enrollment_key x = (te_firm_id x, te_user_id x)"

type_synonym enrollment_store = "(pystr \<times> pystr, totp_enrollment) dict"

definition enrollment_store_save :: "totp_enrollment \<Rightarrow> enrollment_store \<Rightarrow> enrollment_store" where
  [store_defs]: "enrollment_store_save x s = dict_set (enrollment_key x) x s"

definition enrollments_for_firm :: "enrollment_store \<Rightarrow> pystr \<Rightarrow> totp_enrollment list" where
  [store_defs]: "enrollments_for_firm s firm = rows_by_key s firm"

interpretation enrollment_rows: tenant_store enrollment_key enrollment_store_save dict_get "keyed enrollment_key"
    enrollments_for_firm
  using tenant_store_dict [of enrollment_key]
  by (simp add: enrollment_store_save_def [abs_def] enrollments_for_firm_def [abs_def])

definition enroll_mfa :: "pystr \<Rightarrow> pystr \<Rightarrow> pystr \<Rightarrow> enrollment_store \<Rightarrow> totp_enrollment \<times> enrollment_store" where
  [op_defs]: "enroll_mfa new_secret firm user s =
     (let x = \<lparr>te_firm_id = firm, te_user_id = user, te_secret = new_secret, te_confirmed = False\<rparr>
      in (x, enrollment_store_save x s))"

definition confirm_mfa ::
    "(nat list \<Rightarrow> nat list \<Rightarrow> nat list) \<Rightarrow> rat \<Rightarrow> pystr \<Rightarrow> pystr \<Rightarrow> pystr \<Rightarrow> enrollment_store
       \<Rightarrow> bool result \<times> enrollment_store" where
  [op_defs]: "confirm_mfa hmac_sha1 clk firm user guess s =
     (case dict_get s (firm, user) of
        None \<Rightarrow> (Inr False, s)
      | Some x \<Rightarrow>
          (case verify_totp hmac_sha1 (te_secret x) guess 30 6 1 clk of
             Inl e \<Rightarrow> (Inl e, s)
           | Inr False \<Rightarrow> (Inr False, s)
           | Inr True \<Rightarrow> (Inr True, enrollment_store_save (x\<lparr>te_confirmed := True\<rparr>) s)))"

definition verify_mfa ::
    "(nat list \<Rightarrow> nat list \<Rightarrow> nat list) \<Rightarrow> rat \<Rightarrow> pystr \<Rightarrow> pystr \<Rightarrow> pystr \<Rightarrow> enrollment_store \<Rightarrow> bool result" where
  "verify_mfa hmac_sha1 clk firm user guess s =
     (case dict_get s (firm, user) of
        None \<Rightarrow> Inr False
      | Some x \<Rightarrow> if \<not> te_confirmed x then Inr False else verify_totp hmac_sha1 (te_secret x) guess 30 6 1 clk)"

definition count_confirmed_for_firm :: "enrollment_store \<Rightarrow> pystr \<Rightarrow> nat" where
  "count_confirmed_for_firm s firm = length (filter te_confirmed (enrollments_for_firm s firm))"

lemma length_dec_nat: "n < 10 ^ Suc d \<Longrightarrow> length (dec_nat n) \<le> Suc d"
proof (induction n arbitrary: d rule: dec_nat.induct)
  case (1 n)
  show ?case
  proof (cases "n < 10")
    case False
    then obtain d' where d: "d = Suc d'" using "1.prems" by (cases d) auto
    have "n div 10 < 10 ^ Suc d'" using "1.prems" by (simp add: d less_mult_imp_div_less mult.commute)
    then show ?thesis using "1.IH" [OF False, of d'] False by (subst dec_nat.simps) (simp add: d)
  qed (subst dec_nat.simps, simp)
qed

lemma hotp_digits:
  "length (hotp_of_digest bs (Suc d)) = Suc d" "is_ascii (hotp_of_digest bs (Suc d))"
proof -
  let ?n = "big_endian (take 4 (drop (last bs mod 16) bs)) mod 2 ^ 31 mod 10 ^ Suc d"
  have "length (dec_nat ?n) \<le> Suc d" by (rule length_dec_nat) simp
  then show "length (hotp_of_digest bs (Suc d)) = Suc d" by (simp add: hotp_of_digest_def zfill_def Let_def)
  have "list_all is_digit (dec_nat ?n)" by (rule dec_nat_digits)
  then show "is_ascii (hotp_of_digest bs (Suc d))"
    by (auto simp: hotp_of_digest_def zfill_def is_ascii_def list_all_iff is_digit_def Let_def code_def)
qed

lemma hotp_six: "length (hotp_of_digest bs 6) = 6" "is_ascii (hotp_of_digest bs 6)"
proof -
  have six: "Suc 5 = 6" by simp
  show "length (hotp_of_digest bs 6) = 6" "is_ascii (hotp_of_digest bs 6)"
    using hotp_digits [of bs 5] unfolding six by blast+
qed

definition padded :: "pystr \<Rightarrow> pystr" where
  "padded secret = secret @ replicate ((8 - length secret mod 8) mod 8) CHR ''=''"

lemma hotp_total:
  "b32decode (padded secret) = Inr key \<Longrightarrow> 0 \<le> n \<Longrightarrow> n < 2 ^ 64 \<Longrightarrow>
     hotp hmac_sha1 secret n digits = Inr (hotp_of_digest (hmac_sha1 key (to_bytes 8 (nat n))) digits)"
  by (simp add: hotp_def padded_def pack_counter_def Let_def)

text \<open>
  TOTP. With a decodable secret and an ASCII guess, verification at a time from the second step
  on accepts exactly the codes of the current, the previous and the next step. A generated code has
  six digits and is accepted at every time within thirty seconds of its generation, as often as it
  is presented (verification changes no state). An enrolment that is not confirmed never verifies,
  and enrolling again discards the confirmation.
\<close>
theorem totp_window:
  assumes key: "b32decode (padded secret) = Inr key" and guess: "is_ascii guess"
    and early: "30 \<le> clk" and late: "clk < 30 * (2 ^ 64 - 1)"
  shows "verify_totp hmac_sha1 secret guess 30 6 1 clk =
      Inr (\<exists>k \<in> {-1, 0, 1}. hotp hmac_sha1 secret (totp_counter 30 clk + k) 6 = Inr guess) \<and>
    (\<forall>a. \<bar>a - clk\<bar> \<le> 30 \<and> 0 \<le> a \<longrightarrow>
       (\<exists>h. generate_totp hmac_sha1 secret 30 6 a = Inr h \<and> length h = 6 \<and>
          verify_totp hmac_sha1 secret h 30 6 1 clk = Inr True)) \<and>
    (\<forall>x s. dict_get s (firm, user) = Some x \<and> \<not> te_confirmed x \<longrightarrow>
       verify_mfa hmac_sha1 clk firm user guess s = Inr False) \<and>
    (\<forall>s new. verify_mfa hmac_sha1 clk firm user guess (snd (enroll_mfa new firm user s)) = Inr False)"
proof -
  let ?c = "totp_counter 30 clk"
  have q: "1 \<le> clk / 30" "clk / 30 < 2 ^ 64 - 1" using early late by simp_all
  then have c: "1 \<le> ?c" "?c < 2 ^ 64 - 1"
    unfolding totp_counter_def by (simp_all add: le_floor_iff floor_less_iff)
  have range: "0 \<le> ?c + k \<and> ?c + k < 2 ^ 64" if "k \<in> {-1, 0, 1}" for k using c that by auto
  define h where "h k = hotp_of_digest (hmac_sha1 key (to_bytes 8 (nat (?c + k)))) 6" for k
  have hotp: "hotp hmac_sha1 secret (?c + k) 6 = Inr (h k)" if "k \<in> {-1, 0, 1}" for k
    unfolding h_def using range [OF that] by (intro hotp_total [OF key]) auto
  have steps: "[-1..1] = [-1, 0, 1::int]" by (simp add: upto.simps)
  have verify: "verify_totp hmac_sha1 secret g 30 6 1 clk = Inr (\<exists>k \<in> {-1, 0, 1}. hotp hmac_sha1 secret (?c + k) 6 = Inr g)"
    if g: "is_ascii g" for g
  proof -
    have "any_res (\<lambda>offset. res_bind (hotp hmac_sha1 secret (?c + offset) 6) (\<lambda>h. compare_digest h g)) [-1, 0, 1] =
        Inr (\<exists>k \<in> set [-1, 0, 1]. hotp hmac_sha1 secret (?c + k) 6 = Inr g)"
    proof (rule any_res_total)
      fix k :: int assume "k \<in> set [-1, 0, 1]"
      then have k: "k \<in> {-1, 0, 1}" by simp
      have "is_ascii (h k)" unfolding h_def by (rule hotp_six)
      then show "res_bind (hotp hmac_sha1 secret (?c + k) 6) (\<lambda>h. compare_digest h g) =
          Inr (hotp hmac_sha1 secret (?c + k) 6 = Inr g)"
        unfolding hotp [OF k] using g by (simp add: compare_digest_def)
    qed
    then show ?thesis by (simp add: verify_totp_def steps Let_def)
  qed
  have near: "\<exists>x. generate_totp hmac_sha1 secret 30 6 a = Inr x \<and> length x = 6 \<and>
          verify_totp hmac_sha1 secret x 30 6 1 clk = Inr True"
    if a: "\<bar>a - clk\<bar> \<le> 30" for a
  proof -
    have "a / 30 \<le> clk / 30 + 1" "clk / 30 - 1 \<le> a / 30" using a by (simp_all add: abs_le_iff)
    then have "\<lfloor>a / 30\<rfloor> \<le> \<lfloor>clk / 30 + 1\<rfloor>" "\<lfloor>clk / 30 - 1\<rfloor> \<le> \<lfloor>a / 30\<rfloor>" by (simp_all only: floor_mono)
    then have "totp_counter 30 a - ?c \<in> {-1, 0, 1}" by (auto simp: totp_counter_def)
    then obtain k where k: "k \<in> {-1, 0, 1}" "totp_counter 30 a = ?c + k" by (metis add_diff_cancel_left' diff_add_cancel add.commute)
    have len: "length (h k) = 6" "is_ascii (h k)"
      unfolding h_def by (rule hotp_six)+
    have "\<exists>j \<in> {-1, 0, 1}. hotp hmac_sha1 secret (?c + j) 6 = Inr (h k)" using hotp [OF k(1)] k(1) by blast
    then have "verify_totp hmac_sha1 secret (h k) 30 6 1 clk = Inr True" using verify [OF len(2)] by simp
    then show ?thesis
      using hotp [OF k(1)] len(1) unfolding generate_totp_def k(2) by (intro exI [of _ "h k"] conjI)
  qed
  have "verify_mfa hmac_sha1 clk firm user guess (snd (enroll_mfa new firm user s)) = Inr False" for s new
    by (simp add: verify_mfa_def enroll_mfa_def enrollment_rows.get_put enrollment_key_def Let_def)
  moreover have "verify_mfa hmac_sha1 clk firm user guess s = Inr False"
    if "dict_get s (firm, user) = Some x \<and> \<not> te_confirmed x" for s x
    using that by (simp add: verify_mfa_def)
  ultimately show ?thesis using verify [OF guess] near by blast
qed

text \<open>A keyed digest of twenty bytes that depends on the last byte of the counter only.\<close>

definition demo_hmac :: "nat list \<Rightarrow> nat list \<Rightarrow> nat list" where
  "demo_hmac key message = replicate 16 (last message) @ [1, 2, 3, 0]"

theorem totp_window_witness:
  "verify_totp demo_hmac ''JBSWY3DP'' ''000000'' 30 6 1 100 =
     Inr (\<exists>k \<in> {-1, 0, 1}. hotp demo_hmac ''JBSWY3DP'' (totp_counter 30 100 + k) 6 = Inr ''000000'')"
proof -
  have "b32_acc 0 ''JBSWY3DP'' = Some 310939249775"
    by (simp add: b32_value_def code_def Let_def)
  then have "b32_groups 0 ''JBSWY3DP'' = Some (to_bytes 5 310939249775)"
    by (subst b32_groups.simps) simp
  then have key: "b32decode (padded ''JBSWY3DP'') = Inr (to_bytes 5 310939249775)"
    by (simp add: padded_def b32decode_def is_ascii_def code_def Let_def)
  have "is_ascii ''000000''" by (simp add: is_ascii_def code_def)
  then show ?thesis using totp_window [OF key, of "''000000''" 100 demo_hmac "''f''" "''ana''"] by simp
qed

end
