(* ===== verification/PublicApi.thy ===== *)
theory PublicApi
  imports PyText
begin

text \<open>
  The public API of \<^verbatim>\<open>cabinet_os/public_api\<close>: API keys of which only a hash is stored, the
  client-credentials grant and its bearer tokens, and scopes. SHA-256 is the argument \<open>hash\<close>; new
  ids and secrets and the clock are arguments. (Its rate limiter is in the theory of rate limits.)
\<close>

datatype api_scope =
    SC_READ_CLIENTS | SC_WRITE_CLIENTS | SC_READ_CASES | SC_WRITE_CASES | SC_READ_BILLING
  | SC_WRITE_BILLING | SC_READ_DOCUMENTS | SC_WRITE_DOCUMENTS | SC_ADMIN

record api_key =
  ak_id :: pystr
  ak_firm_id :: pystr
  ak_name :: pystr
  ak_key_hash :: pystr
  ak_prefix :: pystr
  ak_scopes :: "api_scope set"
  ak_created_at :: datetime
  ak_revoked_at :: "datetime option"
  ak_last_used_at :: "datetime option"

type_synonym api_key_store = "(pystr, api_key) dict"

definition api_key_store_save :: "api_key \<Rightarrow> api_key_store \<Rightarrow> api_key_store" where
  [store_defs]: "api_key_store_save k s = dict_set (ak_id k) k s"

definition api_key_by_hash :: "api_key_store \<Rightarrow> pystr \<Rightarrow> api_key option" where
  "api_key_by_hash s h = find (\<lambda>k. ak_key_hash k = h) (dict_values s)"

definition api_keys_for_firm :: "api_key_store \<Rightarrow> pystr \<Rightarrow> api_key list" where
  "api_keys_for_firm s firm = filter (\<lambda>k. ak_firm_id k = firm) (dict_values s)"

interpretation api_key_rows: keyed_store ak_id api_key_store_save dict_get "keyed ak_id"
  using keyed_store_dict [of ak_id] by (simp add: api_key_store_save_def [abs_def])

definition key_prefix :: "pystr \<Rightarrow> pystr" where
  "key_prefix raw = take 8 raw"

definition issue_api_key ::
    "(pystr \<Rightarrow> pystr) \<Rightarrow> datetime \<Rightarrow> pystr \<Rightarrow> pystr \<Rightarrow> pystr \<Rightarrow> pystr \<Rightarrow> api_scope set \<Rightarrow> api_key_store
       \<Rightarrow> (api_key \<times> pystr) \<times> api_key_store" where
  [op_defs]: "issue_api_key hash now new_id raw firm name scopes s =
     (let k = \<lparr>ak_id = new_id, ak_firm_id = firm, ak_name = name, ak_key_hash = hash raw,
               ak_prefix = key_prefix raw, ak_scopes = scopes, ak_created_at = now,
               ak_revoked_at = None, ak_last_used_at = None\<rparr>
      in ((k, raw), api_key_store_save k s))"

definition revoke_api_key :: "datetime \<Rightarrow> pystr \<Rightarrow> api_key_store \<Rightarrow> api_key result \<times> api_key_store" where
  [op_defs]: "revoke_api_key now i s =
     (case dict_get s i of
        None \<Rightarrow> (Inl (ValueError (''Unknown API key '' @ py_repr i)), s)
      | Some k \<Rightarrow> (let k' = k\<lparr>ak_revoked_at := Some now\<rparr> in (Inr k', api_key_store_save k' s)))"

definition authenticate_api_key ::
    "(pystr \<Rightarrow> pystr) \<Rightarrow> datetime \<Rightarrow> pystr \<Rightarrow> api_key_store \<Rightarrow> api_key option \<times> api_key_store" where
  [op_defs]: "authenticate_api_key hash now raw s =
     (case api_key_by_hash s (hash raw) of
        None \<Rightarrow> (None, s)
      | Some k \<Rightarrow>
          if ak_revoked_at k \<noteq> None then (None, s)
          else (let k' = k\<lparr>ak_last_used_at := Some now\<rparr> in (Some k', api_key_store_save k' s)))"

record api_oauth_client =
  cl_id :: pystr
  cl_firm_id :: pystr
  cl_client_id :: pystr
  cl_client_secret_hash :: pystr
  cl_redirect_uris :: "pystr list"
  cl_scopes :: "api_scope set"
  cl_created_at :: datetime

record api_oauth_token =
  to_token :: pystr
  to_client_id :: pystr
  to_firm_id :: pystr
  to_scopes :: "api_scope set"
  to_issued_at :: datetime
  to_expires_at :: datetime

definition register_oauth_client ::
    "(pystr \<Rightarrow> pystr) \<Rightarrow> datetime \<Rightarrow> pystr \<Rightarrow> pystr \<Rightarrow> pystr \<Rightarrow> pystr \<Rightarrow> pystr list \<Rightarrow> api_scope set
       \<Rightarrow> (pystr, api_oauth_client) dict \<Rightarrow> (api_oauth_client \<times> pystr) \<times> (pystr, api_oauth_client) dict" where
  [op_defs]: "register_oauth_client hash now new_id new_client_id secret firm uris scopes s =
     (let c = \<lparr>cl_id = new_id, cl_firm_id = firm, cl_client_id = new_client_id,
               cl_client_secret_hash = hash secret, cl_redirect_uris = uris, cl_scopes = scopes,
               cl_created_at = now\<rparr>
      in ((c, secret), dict_set (cl_client_id c) c s))"

definition issue_oauth_token ::
    "(pystr \<Rightarrow> pystr) \<Rightarrow> datetime \<Rightarrow> pystr \<Rightarrow> pystr \<Rightarrow> pystr \<Rightarrow> (pystr, api_oauth_client) dict
       \<Rightarrow> (pystr, api_oauth_token) dict \<Rightarrow> api_oauth_token result \<times> (pystr, api_oauth_token) dict" where
  [op_defs]: "issue_oauth_token hash now new_token client_id secret clients tokens =
     (case dict_get clients client_id of
        None \<Rightarrow> (Inl (ValueError ''Invalid OAuth client credentials''), tokens)
      | Some c \<Rightarrow>
          if cl_client_secret_hash c \<noteq> hash secret
          then (Inl (ValueError ''Invalid OAuth client credentials''), tokens)
          else (let t = \<lparr>to_token = new_token, to_client_id = client_id, to_firm_id = cl_firm_id c,
                         to_scopes = cl_scopes c, to_issued_at = now, to_expires_at = now + hours 1\<rparr>
                in (Inr t, dict_set (to_token t) t tokens)))"

definition authenticate_oauth_token ::
    "datetime \<Rightarrow> pystr \<Rightarrow> (pystr, api_oauth_token) dict \<Rightarrow> api_oauth_token option" where
  [op_defs]: "authenticate_oauth_token now token tokens =
     (case dict_get tokens token of
        None \<Rightarrow> None
      | Some t \<Rightarrow> if to_expires_at t < now then None else Some t)"

definition has_scope :: "api_scope set \<Rightarrow> api_scope \<Rightarrow> bool" where
  "has_scope granted required \<longleftrightarrow> required \<in> granted \<or> SC_ADMIN \<in> granted"

text \<open>
  Issued tokens carry the firm and the scopes of the client whose secret was presented, and
  authenticate for one hour, the last instant included.
\<close>

lemma oauth_token_lifetime:
  assumes "issue_oauth_token hash now new_token client_id secret clients tokens = (Inr t, tokens')"
  shows "\<exists>c. dict_get clients client_id = Some c \<and> hash secret = cl_client_secret_hash c \<and>
     to_firm_id t = cl_firm_id c \<and> to_scopes t = cl_scopes c \<and>
     authenticate_oauth_token later new_token tokens' = (if later \<le> now + hours 1 then Some t else None) \<and>
     (\<forall>other. other \<noteq> new_token \<longrightarrow>
        authenticate_oauth_token later other tokens' = authenticate_oauth_token later other tokens)"
  using assms
  by (auto simp: issue_oauth_token_def authenticate_oauth_token_def update_conv' Let_def split: option.splits if_splits)

section \<open>Revoked keys\<close>

datatype api_key_op =
    Issue_key datetime pystr pystr pystr pystr "api_scope set"
  | Revoke_key datetime pystr
  | Authenticate_key datetime pystr

fun api_key_step :: "(pystr \<Rightarrow> pystr) \<Rightarrow> api_key_op \<Rightarrow> api_key_store \<Rightarrow> api_key_store" where
  "api_key_step hash (Issue_key now new_id raw firm name scopes) s = snd (issue_api_key hash now new_id raw firm name scopes s)"
| "api_key_step hash (Revoke_key now i) s = snd (revoke_api_key now i s)"
| "api_key_step hash (Authenticate_key now raw) s = snd (authenticate_api_key hash now raw s)"

text \<open>A new key has a new id and a secret whose hash is new.\<close>

fun api_key_op_fresh :: "(pystr \<Rightarrow> pystr) \<Rightarrow> api_key_op \<Rightarrow> api_key_store \<Rightarrow> bool" where
  "api_key_op_fresh hash (Issue_key _ new_id raw _ _ _) s \<longleftrightarrow>
     dict_get s new_id = None \<and> api_key_by_hash s (hash raw) = None"
| "api_key_op_fresh hash _ s \<longleftrightarrow> True"

inductive api_keys_reach :: "(pystr \<Rightarrow> pystr) \<Rightarrow> api_key_store \<Rightarrow> api_key_store \<Rightarrow> bool" for hash where
  api_keys_stay: "api_keys_reach hash s s"
| api_keys_more: "api_keys_reach hash s s' \<Longrightarrow> api_key_op_fresh hash op s' \<Longrightarrow>
     api_keys_reach hash s (api_key_step hash op s')"

definition api_keys_ok :: "api_key_store \<Rightarrow> bool" where
  "api_keys_ok s \<longleftrightarrow> keyed ak_id s \<and> distinct (map ak_key_hash (dict_values s))"

lemma api_key_by_hash_iff:
  assumes ok: "api_keys_ok s"
  shows "api_key_by_hash s h = Some k \<longleftrightarrow> ak_key_hash k = h \<and> dict_get s (ak_id k) = Some k"
proof -
  have keyed: "keyed ak_id s" and dist: "distinct (map ak_key_hash (dict_values s))"
    using ok by (auto simp: api_keys_ok_def)
  have mem: "dict_get s (ak_id k) = Some k \<longleftrightarrow> k \<in> set (dict_values s)"
    using keyed_get_iff [OF keyed] by simp
  show ?thesis unfolding mem
  proof
    assume "api_key_by_hash s h = Some k"
    then show "ak_key_hash k = h \<and> k \<in> set (dict_values s)"
      by (auto simp: api_key_by_hash_def find_Some_iff)
  next
    assume k: "ak_key_hash k = h \<and> k \<in> set (dict_values s)"
    then obtain k' where k': "api_key_by_hash s h = Some k'"
      by (cases "api_key_by_hash s h") (auto simp: api_key_by_hash_def find_None_iff)
    then have "ak_key_hash k' = h" "k' \<in> set (dict_values s)" by (auto simp: api_key_by_hash_def find_Some_iff)
    then show "api_key_by_hash s h = Some k" using k k' dist by (auto simp: distinct_map inj_on_def)
  qed
qed

text \<open>Saving a key again with the hash it had keeps the hashes apart.\<close>

lemma api_keys_ok_modify:
  assumes ok: "api_keys_ok s" and k: "dict_get s (ak_id k') = Some k" and same: "ak_key_hash k' = ak_key_hash k"
  shows "api_keys_ok (api_key_store_save k' s)"
proof -
  have keyed: "keyed ak_id s" using ok by (simp add: api_keys_ok_def)
  have "map ak_key_hash (dict_values (api_key_store_save k' s)) = map ak_key_hash (dict_values s)"
  proof -
    have eq: "dict_values (api_key_store_save k' s) = map (\<lambda>x. if ak_id x = ak_id k' then k' else x) (dict_values s)"
      unfolding api_key_store_save_def by (rule dict_values_replace [OF keyed k])
    have "ak_key_hash (if ak_id x = ak_id k' then k' else x) = ak_key_hash x" if "x \<in> set (dict_values s)" for x
      using keyed_get_iff [OF keyed, of x] that k same by auto
    then show ?thesis unfolding eq by simp
  qed
  then show ?thesis using ok api_key_rows.wf_put [OF keyed] by (simp only: api_keys_ok_def)
qed

lemma api_key_step_ok:
  assumes ok: "api_keys_ok s" and fresh: "api_key_op_fresh hash op s"
  shows "api_keys_ok (api_key_step hash op s)"
proof (cases op)
  case (Issue_key now new_id raw firm name scopes)
  then have new: "dict_get s new_id = None" "api_key_by_hash s (hash raw) = None" using fresh by auto
  then have "hash raw \<notin> set (map ak_key_hash (dict_values s))"
    by (auto simp: api_key_by_hash_def find_None_iff)
  moreover obtain k where k: "api_key_step hash op s = api_key_store_save k s" "ak_id k = new_id" "ak_key_hash k = hash raw"
    by (simp add: Issue_key issue_api_key_def Let_def)
  ultimately show ?thesis using ok api_key_rows.wf_put [of s k] dict_set_fresh [OF new(1)]
    by (simp add: api_keys_ok_def api_key_store_save_def)
next
  case (Revoke_key now i)
  show ?thesis
  proof (cases "dict_get s i")
    case (Some k)
    have "ak_id k = i" using api_key_rows.get_key [OF _ Some] ok by (simp add: api_keys_ok_def)
    then have "api_keys_ok (api_key_store_save (k\<lparr>ak_revoked_at := Some now\<rparr>) s)"
      using Some by (intro api_keys_ok_modify [OF ok]) auto
    then show ?thesis using Some by (simp add: Revoke_key revoke_api_key_def Let_def)
  qed (use ok Revoke_key in \<open>simp add: revoke_api_key_def\<close>)
next
  case (Authenticate_key now raw)
  show ?thesis
  proof (cases "api_key_by_hash s (hash raw)")
    case (Some k)
    have "dict_get s (ak_id k) = Some k" using Some api_key_by_hash_iff [OF ok] by blast
    then have "api_keys_ok (api_key_store_save (k\<lparr>ak_last_used_at := Some now\<rparr>) s)"
      by (intro api_keys_ok_modify [OF ok]) auto
    then show ?thesis using ok Some by (simp add: Authenticate_key authenticate_api_key_def Let_def)
  qed (use ok Authenticate_key in \<open>simp add: authenticate_api_key_def\<close>)
qed

definition key_revoked :: "api_key_store \<Rightarrow> pystr \<Rightarrow> pystr \<Rightarrow> bool" where
  "key_revoked s i h \<longleftrightarrow>
     (case dict_get s i of None \<Rightarrow> False | Some k \<Rightarrow> ak_key_hash k = h \<and> ak_revoked_at k \<noteq> None)"

lemma api_key_step_revoked:
  assumes ok: "api_keys_ok s" and fresh: "api_key_op_fresh hash op s" and revoked: "key_revoked s i h"
  shows "key_revoked (api_key_step hash op s) i h"
proof -
  obtain k where k: "dict_get s i = Some k" "ak_key_hash k = h" "ak_revoked_at k \<noteq> None"
    using revoked by (auto simp: key_revoked_def split: option.splits)
  have keyed: "keyed ak_id s" using ok by (simp add: api_keys_ok_def)
  have put: "key_revoked (api_key_store_save x s) i h" if "ak_id x = i \<Longrightarrow> ak_key_hash x = h \<and> ak_revoked_at x \<noteq> None" for x
    using that k by (auto simp: key_revoked_def api_key_rows.get_put)
  show ?thesis
  proof (cases op)
    case (Issue_key now new_id raw firm name scopes)
    then have "new_id \<noteq> i" using fresh k by auto
    then show ?thesis unfolding Issue_key api_key_step.simps issue_api_key_def Let_def snd_conv
      by (intro put) simp
  next
    case (Revoke_key now j)
    show ?thesis
    proof (cases "dict_get s j")
      case (Some x)
      have "ak_id x = j" by (rule api_key_rows.get_key [OF keyed Some])
      then have "key_revoked (api_key_store_save (x\<lparr>ak_revoked_at := Some now\<rparr>) s) i h"
        using Some k by (intro put) auto
      then show ?thesis using Some by (simp add: Revoke_key revoke_api_key_def Let_def)
    qed (use revoked Revoke_key in \<open>simp add: revoke_api_key_def\<close>)
  next
    case (Authenticate_key now raw)
    show ?thesis
    proof (cases "api_key_by_hash s (hash raw)")
      case (Some x)
      have "dict_get s (ak_id x) = Some x" using Some api_key_by_hash_iff [OF ok] by blast
      then have "key_revoked (api_key_store_save (x\<lparr>ak_last_used_at := Some now\<rparr>) s) i h"
        using k by (intro put) auto
      then show ?thesis using Some revoked by (simp add: Authenticate_key authenticate_api_key_def Let_def)
    qed (use revoked Authenticate_key in \<open>simp add: authenticate_api_key_def\<close>)
  qed
qed

lemma api_keys_reach_revoked:
  "api_keys_reach hash s s' \<Longrightarrow> api_keys_ok s \<Longrightarrow> key_revoked s i h \<Longrightarrow> api_keys_ok s' \<and> key_revoked s' i h"
  by (induction rule: api_keys_reach.induct) (auto intro: api_key_step_ok api_key_step_revoked)

text \<open>
  An issued key authenticates as itself until it is revoked, and from its revocation on its
  secret never authenticates again, whatever is issued, revoked and authenticated afterwards.
\<close>
theorem revoked_key_never_authenticates:
  assumes ok: "api_keys_ok s" and fresh: "api_key_op_fresh hash (Issue_key now i raw firm name scopes) s"
  defines "issued \<equiv> snd (issue_api_key hash now i raw firm name scopes s)"
  shows "(case fst (authenticate_api_key hash later raw issued) of
        None \<Rightarrow> False | Some k \<Rightarrow> ak_id k = i \<and> ak_firm_id k = firm \<and> ak_scopes k = scopes) \<and>
    (\<forall>s'. api_keys_reach hash (snd (revoke_api_key then_at i issued)) s' \<longrightarrow>
       authenticate_api_key hash later raw s' = (None, s'))"
proof (intro conjI allI impI)
  have ok': "api_keys_ok issued" using api_key_step_ok [OF ok fresh] by (simp add: issued_def)
  have get: "\<exists>k. dict_get issued i = Some k \<and> ak_id k = i \<and> ak_key_hash k = hash raw \<and> ak_firm_id k = firm \<and>
      ak_scopes k = scopes \<and> ak_revoked_at k = None"
    by (simp add: issued_def issue_api_key_def api_key_rows.get_put Let_def)
  then obtain k where k: "dict_get issued i = Some k" "ak_id k = i" "ak_key_hash k = hash raw" "ak_firm_id k = firm"
      "ak_scopes k = scopes" "ak_revoked_at k = None" by blast
  have "api_key_by_hash issued (hash raw) = Some k" using api_key_by_hash_iff [OF ok'] k by simp
  then show "case fst (authenticate_api_key hash later raw issued) of
        None \<Rightarrow> False | Some k \<Rightarrow> ak_id k = i \<and> ak_firm_id k = firm \<and> ak_scopes k = scopes"
    using k by (simp add: authenticate_api_key_def Let_def)
  fix s' assume reach: "api_keys_reach hash (snd (revoke_api_key then_at i issued)) s'"
  have "api_keys_ok (snd (revoke_api_key then_at i issued))"
    using api_key_step_ok [OF ok', of hash "Revoke_key then_at i"] by simp
  moreover have "key_revoked (snd (revoke_api_key then_at i issued)) i (hash raw)"
    using k by (simp add: revoke_api_key_def key_revoked_def api_key_rows.get_put Let_def)
  ultimately have "api_keys_ok s'" "key_revoked s' i (hash raw)" using api_keys_reach_revoked [OF reach] by blast+
  then obtain x where x: "dict_get s' i = Some x" "ak_key_hash x = hash raw" "ak_revoked_at x \<noteq> None"
    by (auto simp: key_revoked_def split: option.splits)
  moreover have "ak_id x = i"
    using api_key_rows.get_key [OF _ x(1)] \<open>api_keys_ok s'\<close> by (simp add: api_keys_ok_def)
  ultimately have "api_key_by_hash s' (hash raw) = Some x" using api_key_by_hash_iff [OF \<open>api_keys_ok s'\<close>] by simp
  then show "authenticate_api_key hash later raw s' = (None, s')" using x by (simp add: authenticate_api_key_def)
qed

theorem revoked_key_never_authenticates_witness:
  "let s = snd (issue_api_key (\<lambda>r. ''h'' @ r) 0 ''k1'' ''raw-secret'' ''f'' ''ci'' {SC_READ_CASES} [])
   in fst (authenticate_api_key (\<lambda>r. ''h'' @ r) 5 ''raw-secret'' s) \<noteq> None \<and>
      fst (authenticate_api_key (\<lambda>r. ''h'' @ r) 5 ''raw-secret'' (snd (revoke_api_key 3 ''k1'' s))) = None"
proof -
  let ?h = "\<lambda>r::pystr. ''h'' @ r"
  have ok: "api_keys_ok []" by (simp add: api_keys_ok_def)
  have fresh: "api_key_op_fresh ?h (Issue_key 0 ''k1'' ''raw-secret'' ''f'' ''ci'' {SC_READ_CASES}) []"
    by (simp add: api_key_by_hash_def)
  have all: "fst (authenticate_api_key ?h 5 ''raw-secret'' (snd (issue_api_key ?h 0 ''k1'' ''raw-secret'' ''f'' ''ci'' {SC_READ_CASES} []))) \<noteq> None"
    using conjunct1 [OF revoked_key_never_authenticates [OF ok fresh, of 5 3]] by (auto split: option.splits)
  have "authenticate_api_key ?h 5 ''raw-secret'' (snd (revoke_api_key 3 ''k1''
      (snd (issue_api_key ?h 0 ''k1'' ''raw-secret'' ''f'' ''ci'' {SC_READ_CASES} [])))) =
    (None, snd (revoke_api_key 3 ''k1'' (snd (issue_api_key ?h 0 ''k1'' ''raw-secret'' ''f'' ''ci'' {SC_READ_CASES} []))))"
    using conjunct2 [OF revoked_key_never_authenticates [OF ok fresh, of 5 3], rule_format, OF api_keys_stay] .
  then show ?thesis using all by (simp only: Let_def fst_conv simp_thms)
qed

end
