(* ===== verification/SecurityAudit.thy ===== *)
theory SecurityAudit
  imports Credentials
begin

text \<open>
  The security events of \<^verbatim>\<open>identity_platform\<close>: the events and their bus (\<^verbatim>\<open>security_events\<close>), the audit
  trail that subscribes to all of them (\<^verbatim>\<open>audit\<close>), and the dashboard that counts over the other
  engines (\<^verbatim>\<open>monitoring\<close>). A subscriber other than the audit is a function of the event and of a
  state of its own that may raise.
\<close>

section \<open>Events\<close>

datatype security_body =
    LoginSucceeded pystr pystr
  | LoginFailed pystr pystr
  | LogoutOccurred pystr
  | MfaChallengeFailed pystr
  | RoleChanged pystr pystr pystr
  | DelegationCreated pystr pystr
  | NewDeviceDetected pystr pystr
  | SessionRevoked pystr pystr

record security_event =
  se_firm_id :: pystr
  se_event_id :: pystr
  se_occurred_at :: datetime
  se_body :: security_body

fun body_type :: "security_body \<Rightarrow> pystr" where
  "body_type (LoginSucceeded _ _) = ''LoginSucceeded''"
| "body_type (LoginFailed _ _) = ''LoginFailed''"
| "body_type (LogoutOccurred _) = ''LogoutOccurred''"
| "body_type (MfaChallengeFailed _) = ''MfaChallengeFailed''"
| "body_type (RoleChanged _ _ _) = ''RoleChanged''"
| "body_type (DelegationCreated _ _) = ''DelegationCreated''"
| "body_type (NewDeviceDetected _ _) = ''NewDeviceDetected''"
| "body_type (SessionRevoked _ _) = ''SessionRevoked''"

definition security_event_type :: "security_event \<Rightarrow> pystr" where
  "security_event_type ev = body_type (se_body ev)"

text \<open>\<open>dataclasses.asdict\<close> less the common fields: the event's own fields in declaration order.\<close>

fun body_fields :: "security_body \<Rightarrow> (pystr, pystr) dict" where
  "body_fields (LoginSucceeded user m) = [(''user_id'', user), (''method'', m)]"
| "body_fields (LoginFailed i r) = [(''identity'', i), (''reason'', r)]"
| "body_fields (LogoutOccurred user) = [(''user_id'', user)]"
| "body_fields (MfaChallengeFailed user) = [(''user_id'', user)]"
| "body_fields (RoleChanged user r a) = [(''user_id'', user), (''role'', r), (''action'', a)]"
| "body_fields (DelegationCreated d e) = [(''delegator_id'', d), (''delegate_id'', e)]"
| "body_fields (NewDeviceDetected user d) = [(''user_id'', user), (''device_id'', d)]"
| "body_fields (SessionRevoked user s) = [(''user_id'', user), (''session_id'', s)]"

fun join_commas :: "pystr list \<Rightarrow> pystr" where
  "join_commas [] = []"
| "join_commas [x] = x"
| "join_commas (x # xs) = x @ '', '' @ join_commas xs"

definition summarize_event :: "security_event \<Rightarrow> pystr" where
  "summarize_event ev = join_commas (map (\<lambda>(k, v). k @ ''='' @ v) (body_fields (se_body ev)))"

record security_audit_entry =
  sa_firm_id :: pystr
  sa_event_type :: pystr
  sa_summary :: pystr
  sa_occurred_at :: datetime

definition audit_entry_of :: "security_event \<Rightarrow> security_audit_entry" where
  "audit_entry_of ev =
     \<lparr>sa_firm_id = se_firm_id ev, sa_event_type = security_event_type ev, sa_summary = summarize_event ev,
      sa_occurred_at = se_occurred_at ev\<rparr>"

definition security_audit_append :: "security_audit_entry \<Rightarrow> security_audit_entry list \<Rightarrow> security_audit_entry list" where
  [store_defs]: "security_audit_append x trail = trail @ [x]"

definition security_audit_for_firm :: "security_audit_entry list \<Rightarrow> pystr \<Rightarrow> security_audit_entry list" where
  [store_defs]: "security_audit_for_firm trail firm = filter (\<lambda>x. sa_firm_id x = firm) trail"

interpretation security_audit_log: journal security_audit_append "\<lambda>trail. trail" sa_firm_id security_audit_for_firm
  by unfold_locales (simp_all add: security_audit_append_def security_audit_for_firm_def)

section \<open>The bus\<close>

datatype 'w security_handler = Plugin "security_event \<Rightarrow> 'w \<Rightarrow> unit result \<times> 'w" | Audit_handler

record 'w security_bus =
  bs_subscribers :: "(pystr, 'w security_handler list) dict"
  bs_global_subscribers :: "'w security_handler list"
  bs_history :: "security_event list"

definition security_subscribers :: "'w security_bus \<Rightarrow> pystr \<Rightarrow> 'w security_handler list" where
  "security_subscribers b t = (case dict_get (bs_subscribers b) t of None \<Rightarrow> [] | Some hs \<Rightarrow> hs)"

definition security_subscribe :: "pystr \<Rightarrow> 'w security_handler \<Rightarrow> 'w security_bus \<Rightarrow> 'w security_bus" where
  "security_subscribe t h b = b\<lparr>bs_subscribers := dict_set t (security_subscribers b t @ [h]) (bs_subscribers b)\<rparr>"

definition security_subscribe_all :: "'w security_handler \<Rightarrow> 'w security_bus \<Rightarrow> 'w security_bus" where
  "security_subscribe_all h b = b\<lparr>bs_global_subscribers := bs_global_subscribers b @ [h]\<rparr>"

text \<open>The state of a publication: the audit log and the plug-ins' own state.\<close>

fun run_security_handler ::
    "'w security_handler \<Rightarrow> security_event \<Rightarrow> security_audit_entry list \<times> 'w
       \<Rightarrow> unit result \<times> (security_audit_entry list \<times> 'w)" where
  "run_security_handler (Plugin h) ev (trail, w) = (let (r, w') = h ev w in (r, (trail, w')))"
| "run_security_handler Audit_handler ev (trail, w) = (Inr (), (security_audit_append (audit_entry_of ev) trail, w))"

fun await_handlers ::
    "'w security_handler list \<Rightarrow> security_event \<Rightarrow> security_audit_entry list \<times> 'w
       \<Rightarrow> unit result \<times> (security_audit_entry list \<times> 'w)" where
  "await_handlers [] ev s = (Inr (), s)"
| "await_handlers (h # hs) ev s =
     (case run_security_handler h ev s of
        (Inl e, s') \<Rightarrow> (Inl e, s')
      | (Inr _, s') \<Rightarrow> await_handlers hs ev s')"

text \<open>Looking up the subscribers of a type in the \<open>defaultdict\<close> inserts an empty list for a new type.\<close>

definition publish_security_event ::
    "security_event \<Rightarrow> 'w security_bus \<Rightarrow> security_audit_entry list \<times> 'w
       \<Rightarrow> unit result \<times> 'w security_bus \<times> (security_audit_entry list \<times> 'w)" where
  [op_defs]: "publish_security_event ev b s =
     (let hs = security_subscribers b (security_event_type ev);
          b' = b\<lparr>bs_history := bs_history b @ [ev],
                 bs_subscribers := dict_set (security_event_type ev) hs (bs_subscribers b)\<rparr>
      in case await_handlers hs ev s of
           (Inl e, s') \<Rightarrow> (Inl e, b', s')
         | (Inr _, s') \<Rightarrow> (case await_handlers (bs_global_subscribers b) ev s' of (r, s'') \<Rightarrow> (r, b', s'')))"

lemma await_handlers_append:
  "await_handlers (hs @ ks) ev s =
     (case await_handlers hs ev s of (Inl e, s') \<Rightarrow> (Inl e, s') | (Inr _, s') \<Rightarrow> await_handlers ks ev s')"
  by (induction hs arbitrary: s) (auto split: prod.splits sum.splits)

lemma plugins_keep_log:
  "\<forall>h \<in> set hs. h \<noteq> Audit_handler \<Longrightarrow> fst (snd (await_handlers hs ev (trail, w))) = trail"
proof (induction hs arbitrary: w)
  case (Cons h hs)
  obtain f where h: "h = Plugin f" using Cons.prems by (cases h) auto
  obtain r w' where f: "f ev w = (r, w')" by fastforce
  show ?case
  proof (cases r)
    case (Inl e)
    then show ?thesis by (simp add: h f)
  next
    case (Inr u)
    then show ?thesis using Cons by (simp add: h f)
  qed
qed simp

lemma dict_set_members: "x \<in> set (dict_set k v d) \<Longrightarrow> x = (k, v) \<or> x \<in> set d"
  by (induction d) (auto split: if_splits)

text \<open>A bus as the composition root builds it: the audit is the only subscriber to all events.\<close>

definition audited_bus :: "'w security_bus \<Rightarrow> bool" where
  "audited_bus b \<longleftrightarrow> bs_global_subscribers b = [Audit_handler] \<and>
     (\<forall>(t, hs) \<in> set (bs_subscribers b). Audit_handler \<notin> set hs)"

lemma audited_subscribers: "audited_bus b \<Longrightarrow> Audit_handler \<notin> set (security_subscribers b t)"
proof (cases "dict_get (bs_subscribers b) t")
  case (Some hs)
  assume "audited_bus b"
  then show ?thesis using map_of_SomeD [OF Some] by (auto simp: audited_bus_def security_subscribers_def Some)
qed (simp add: security_subscribers_def)

fun publish_all ::
    "security_event list \<Rightarrow> 'w security_bus \<Rightarrow> security_audit_entry list \<times> 'w
       \<Rightarrow> 'w security_bus \<times> (security_audit_entry list \<times> 'w)" where
  "publish_all [] b s = (b, s)"
| "publish_all (ev # evs) b s = (case publish_security_event ev b s of (_, b', s') \<Rightarrow> publish_all evs b' s')"

lemma publish_audited:
  assumes b: "audited_bus b"
  shows "case publish_security_event ev b (trail, w) of (r, b', (trail', w')) \<Rightarrow>
    audited_bus b' \<and> bs_history b' = bs_history b @ [ev] \<and>
    security_subscribers b' = security_subscribers b \<and>
    r = fst (await_handlers (security_subscribers b (security_event_type ev)) ev (trail, w)) \<and>
    trail' = (case r of Inl _ \<Rightarrow> trail | Inr _ \<Rightarrow> trail @ [audit_entry_of ev])"
proof -
  let ?t = "security_event_type ev"
  let ?hs = "security_subscribers b ?t"
  obtain r trail1 w1 where run: "await_handlers ?hs ev (trail, w) = (r, (trail1, w1))" by (metis prod.exhaust)
  have "\<forall>h \<in> set ?hs. h \<noteq> Audit_handler" using audited_subscribers [OF b, of ?t] by auto
  then have trail1: "trail1 = trail" using plugins_keep_log [of ?hs ev trail w] by (simp add: run)
  let ?b = "b\<lparr>bs_history := bs_history b @ [ev], bs_subscribers := dict_set ?t ?hs (bs_subscribers b)\<rparr>"
  have "audited_bus ?b"
  proof -
    have "Audit_handler \<notin> set hs" if "(t, hs) \<in> set (dict_set ?t ?hs (bs_subscribers b))" for t hs
    proof -
      have "(t, hs) = (?t, ?hs) \<or> (t, hs) \<in> set (bs_subscribers b)"
        using dict_set_members [OF that] by simp
      then show ?thesis using audited_subscribers [OF b, of ?t] b by (auto simp: audited_bus_def)
    qed
    then show ?thesis using b by (auto simp: audited_bus_def)
  qed
  moreover have "security_subscribers ?b = security_subscribers b"
    by (rule ext) (simp add: security_subscribers_def update_conv' split: option.splits)
  moreover have "bs_global_subscribers b = [Audit_handler]" using b by (simp add: audited_bus_def)
  ultimately show ?thesis
    using trail1 by (cases r) (simp_all add: publish_security_event_def run security_audit_append_def Let_def)
qed

text \<open>
  The audit trail mirrors the history, as far as subscribers let it. On the bus the composition
  root builds, every published event enters the history, and it enters the audit trail, once and
  with its firm, type, summary and time, unless a subscriber of its type raises, in which case the
  publisher gets the exception and the trail is unchanged. So when no subscriber of a published
  event raises, publishing any sequence appends exactly its audit entries, in order.
\<close>
theorem audit_trail_mirrors_history:
  assumes b: "audited_bus b"
  shows "(case publish_security_event ev b (trail, w) of (r, b', (trail', w')) \<Rightarrow>
      bs_history b' = bs_history b @ [ev] \<and>
      r = fst (await_handlers (security_subscribers b (security_event_type ev)) ev (trail, w)) \<and>
      trail' = (case r of Inl _ \<Rightarrow> trail | Inr _ \<Rightarrow> trail @ [audit_entry_of ev])) \<and>
    (\<forall>evs. (\<forall>ev \<in> set evs. \<forall>s. fst (await_handlers (security_subscribers b (security_event_type ev)) ev s) = Inr ()) \<longrightarrow>
       (case publish_all evs b (trail, w) of (b', (trail', w')) \<Rightarrow>
          bs_history b' = bs_history b @ evs \<and> trail' = trail @ map audit_entry_of evs \<and>
          security_audit_for_firm trail' firm =
            security_audit_for_firm trail firm @ map audit_entry_of (filter (\<lambda>ev. se_firm_id ev = firm) evs)))"
proof (intro conjI allI impI)
  show "case publish_security_event ev b (trail, w) of (r, b', (trail', w')) \<Rightarrow>
      bs_history b' = bs_history b @ [ev] \<and>
      r = fst (await_handlers (security_subscribers b (security_event_type ev)) ev (trail, w)) \<and>
      trail' = (case r of Inl _ \<Rightarrow> trail | Inr _ \<Rightarrow> trail @ [audit_entry_of ev])"
    using publish_audited [OF b, of ev trail w] by (auto split: prod.splits)
next
  fix evs assume quiet: "\<forall>ev \<in> set evs. \<forall>s. fst (await_handlers (security_subscribers b (security_event_type ev)) ev s) = Inr ()"
  have "case publish_all evs b (trail, w) of (b', (trail', w')) \<Rightarrow>
      bs_history b' = bs_history b @ evs \<and> trail' = trail @ map audit_entry_of evs"
    using b quiet
  proof (induction evs arbitrary: b trail w)
    case (Cons ev evs)
    obtain r b' trail' w' where p: "publish_security_event ev b (trail, w) = (r, b', (trail', w'))"
      by (metis prod.exhaust)
    have step: "audited_bus b'" "bs_history b' = bs_history b @ [ev]" "security_subscribers b' = security_subscribers b"
        "r = Inr ()" "trail' = trail @ [audit_entry_of ev]"
      using publish_audited [OF Cons.prems(1), of ev trail w] Cons.prems(2) by (auto simp: p)
    have "case publish_all evs b' (trail', w') of (b'', (trail'', w'')) \<Rightarrow>
        bs_history b'' = bs_history b' @ evs \<and> trail'' = trail' @ map audit_entry_of evs"
      by (rule Cons.IH [OF step(1)]) (use Cons.prems(2) step(3) in simp)
    then show ?case using step by (auto simp: p split: prod.splits)
  qed simp
  moreover have "filter (\<lambda>x. sa_firm_id x = firm) (map audit_entry_of evs) =
      map audit_entry_of (filter (\<lambda>ev. se_firm_id ev = firm) evs)"
    by (induction evs) (simp_all add: audit_entry_of_def)
  ultimately show "case publish_all evs b (trail, w) of (b', (trail', w')) \<Rightarrow>
          bs_history b' = bs_history b @ evs \<and> trail' = trail @ map audit_entry_of evs \<and>
          security_audit_for_firm trail' firm =
            security_audit_for_firm trail firm @ map audit_entry_of (filter (\<lambda>ev. se_firm_id ev = firm) evs)"
    by (auto simp: security_audit_for_firm_def split: prod.splits)
qed

definition demo_security_bus :: "nat security_bus" where
  "demo_security_bus =
     security_subscribe ''LogoutOccurred'' (Plugin (\<lambda>ev n. (Inl (RuntimeError ''down''), n + 1)))
       (security_subscribe_all Audit_handler \<lparr>bs_subscribers = [], bs_global_subscribers = [], bs_history = []\<rparr>)"

definition demo_event :: "security_body \<Rightarrow> security_event" where
  "demo_event body = \<lparr>se_firm_id = ''f'', se_event_id = ''e'', se_occurred_at = 0, se_body = body\<rparr>"

theorem audit_trail_mirrors_history_witness:
  "(case publish_all [demo_event (LoginFailed ''ana'' ''mdp'')] demo_security_bus ([], 0) of (b', (trail', w')) \<Rightarrow>
      map sa_summary trail' = [''identity=ana, reason=mdp'']) \<and>
   (case publish_security_event (demo_event (LogoutOccurred ''ana'')) demo_security_bus ([], 0) of
      (r, b', (trail', w')) \<Rightarrow> r = Inl (RuntimeError ''down'') \<and> trail' = [] \<and> w' = 1)"
proof -
  have b: "audited_bus demo_security_bus"
    by (simp add: audited_bus_def demo_security_bus_def security_subscribe_def security_subscribe_all_def
        security_subscribers_def)
  have quiet: "\<forall>ev \<in> set [demo_event (LoginFailed ''ana'' ''mdp'')]. \<forall>s.
      fst (await_handlers (security_subscribers demo_security_bus (security_event_type ev)) ev s) = Inr ()"
    by (simp add: demo_security_bus_def security_subscribe_def security_subscribe_all_def security_subscribers_def
        security_event_type_def demo_event_def)
  have "case publish_all [demo_event (LoginFailed ''ana'' ''mdp'')] demo_security_bus ([], 0) of (b', (trail', w')) \<Rightarrow>
      map sa_summary trail' = [''identity=ana, reason=mdp'']"
    using conjunct2 [OF audit_trail_mirrors_history [OF b, where trail = "[]" and w = 0 and firm = "''f''"],
        THEN spec, THEN mp, OF quiet]
    by (auto simp: audit_entry_of_def summarize_event_def demo_event_def split: prod.splits)
  moreover have "case publish_security_event (demo_event (LogoutOccurred ''ana'')) demo_security_bus ([], 0) of
      (r, b', (trail', w')) \<Rightarrow> r = Inl (RuntimeError ''down'') \<and> trail' = [] \<and> w' = 1"
    by (simp add: publish_security_event_def demo_security_bus_def security_subscribe_def security_subscribe_all_def
        security_subscribers_def security_event_type_def demo_event_def Let_def)
  ultimately show ?thesis by simp
qed

section \<open>The dashboard\<close>

record identity_dashboard =
  ib_firm_id :: pystr
  ib_active_sessions :: nat
  ib_mfa_enrolled_users :: nat
  ib_trusted_devices :: nat
  ib_active_delegations :: nat
  ib_active_policies :: nat
  ib_security_events_total :: nat
  ib_high_risk_events_last_24h :: nat
  ib_computed_at :: datetime

fun risk_flavored :: "security_body \<Rightarrow> bool" where
  "risk_flavored (LoginFailed _ _) = True"
| "risk_flavored (MfaChallengeFailed _) = True"
| "risk_flavored _ = False"

definition identity_dashboard_of ::
    "datetime \<Rightarrow> session_store \<Rightarrow> enrollment_store \<Rightarrow> device_store \<Rightarrow> delegation_store \<Rightarrow> policy_store
       \<Rightarrow> 'w security_bus \<Rightarrow> pystr \<Rightarrow> identity_dashboard result" where
  [op_defs]: "identity_dashboard_of now sessions mfa devices delegations policies events firm =
     (let cutoff = now - hours 24;
          firm_events = filter (\<lambda>ev. se_firm_id ev = firm) (bs_history events);
          high_risk = filter (\<lambda>ev. risk_flavored (se_body ev) \<and> cutoff \<le> se_occurred_at ev) firm_events;
          active_sessions = filter (\<lambda>x. now < sn_expires_at x) (sessions_for_firm sessions firm);
          trusted = filter (\<lambda>d. dv_trust_level d = DT_TRUSTED) (devices_for_firm devices firm)
      in res_bind (active_delegations_for_firm now delegations firm) (\<lambda>ds.
           Inr \<lparr>ib_firm_id = firm, ib_active_sessions = length active_sessions,
                ib_mfa_enrolled_users = count_confirmed_for_firm mfa firm,
                ib_trusted_devices = length trusted, ib_active_delegations = length ds,
                ib_active_policies = length (active_policies_for_firm policies firm),
                ib_security_events_total = length firm_events,
                ib_high_risk_events_last_24h = length high_risk, ib_computed_at = now\<rparr>))"

text \<open>
  The dashboard counts revoked sessions as active: its figure is the number of sessions
  \<open>is_active\<close> accepts plus the number of revoked sessions that have not expired. The devices it
  counts are exactly those \<open>is_trusted\<close> accepts. It fails with \<open>TypeError\<close> as soon as one started,
  unrevoked delegation of the firm ends at a time without a zone.
\<close>
theorem dashboard_counts_revoked:
  assumes ks: "keyed session_key sessions" and kd: "keyed device_key devices"
  shows "case identity_dashboard_of now sessions mfa devices delegations policies events firm of
      Inl e \<Rightarrow> e = naive_comparison
    | Inr d \<Rightarrow>
        ib_active_sessions d =
          length (filter (\<lambda>x. session_is_active now sessions firm (sn_id x)) (sessions_for_firm sessions firm)) +
          length (filter (\<lambda>x. sn_revoked x \<and> now < sn_expires_at x) (sessions_for_firm sessions firm)) \<and>
        ib_trusted_devices d =
          length (filter (\<lambda>x. device_is_trusted devices firm (dv_id x)) (devices_for_firm devices firm))"
proof (cases "active_delegations_for_firm now delegations firm")
  case (Inl e)
  have "filter_res (delegation_is_active now) xs = Inl e \<Longrightarrow> e = naive_comparison" for xs
    by (induction xs) (auto simp: res_bind_Inl_iff dest: delegation_is_active_Inl)
  then have "e = naive_comparison" using Inl by (simp add: active_delegations_for_firm_def)
  then show ?thesis using Inl by (simp add: identity_dashboard_of_def Let_def)
next
  case (Inr ds)
  let ?xs = "sessions_for_firm sessions firm"
  have active: "session_is_active now sessions firm (sn_id x) \<longleftrightarrow> \<not> sn_revoked x \<and> now < sn_expires_at x"
    if "x \<in> set ?xs" for x
  proof -
    have "dict_get sessions (firm, sn_id x) = Some x"
      using that session_rows.rows_iff [OF ks] by (auto simp: session_key_def)
    then show ?thesis by (simp add: session_is_active_def)
  qed
  have split: "length (filter P xs) = length (filter (\<lambda>x. \<not> Q x \<and> P x) xs) + length (filter (\<lambda>x. Q x \<and> P x) xs)"
    for P Q :: "session \<Rightarrow> bool" and xs by (induction xs) auto
  have "length (filter (\<lambda>x. now < sn_expires_at x) ?xs) =
      length (filter (\<lambda>x. \<not> sn_revoked x \<and> now < sn_expires_at x) ?xs) +
      length (filter (\<lambda>x. sn_revoked x \<and> now < sn_expires_at x) ?xs)" by (rule split)
  also have "filter (\<lambda>x. \<not> sn_revoked x \<and> now < sn_expires_at x) ?xs =
      filter (\<lambda>x. session_is_active now sessions firm (sn_id x)) ?xs"
    by (rule filter_cong) (simp_all add: active)
  finally have sessions: "length (filter (\<lambda>x. now < sn_expires_at x) ?xs) =
      length (filter (\<lambda>x. session_is_active now sessions firm (sn_id x)) ?xs) +
      length (filter (\<lambda>x. sn_revoked x \<and> now < sn_expires_at x) ?xs)" .
  have "filter (\<lambda>d. dv_trust_level d = DT_TRUSTED) (devices_for_firm devices firm) =
      filter (\<lambda>x. device_is_trusted devices firm (dv_id x)) (devices_for_firm devices firm)"
  proof (rule filter_cong)
    fix d assume "d \<in> set (devices_for_firm devices firm)"
    then have "dict_get devices (firm, dv_id d) = Some d"
      using device_rows.rows_iff [OF kd] by (auto simp: device_key_def)
    then show "dv_trust_level d = DT_TRUSTED \<longleftrightarrow> device_is_trusted devices firm (dv_id d)"
      by (simp add: device_is_trusted_def)
  qed simp
  then show ?thesis using sessions Inr by (simp add: identity_dashboard_of_def Let_def)
qed

theorem dashboard_counts_revoked_witness:
  "let s = snd (revoke_all_sessions ''f'' ''ana'' demo_sessions)
   in (case identity_dashboard_of 5 s [] [] [] [] demo_security_bus ''f'' of
         Inl e \<Rightarrow> False | Inr d \<Rightarrow> ib_active_sessions d = 2 \<and>
           ib_active_sessions d = length (filter (\<lambda>x. session_is_active 5 s ''f'' (sn_id x)) (sessions_for_firm s ''f'')) + 1)"
proof -
  define s where "s = snd (revoke_all_sessions ''f'' ''ana'' demo_sessions)"
  have eq: "s = [((''f'', ''sess-1''), \<lparr>sn_id = ''sess-1'', sn_firm_id = ''f'', sn_user_id = ''ana'', sn_device_id = None,
        sn_refresh_token = ''tok-1'', sn_created_at = 0, sn_expires_at = hours 8, sn_revoked = True\<rparr>),
      ((''f'', ''sess-2''), \<lparr>sn_id = ''sess-2'', sn_firm_id = ''f'', sn_user_id = ''bob'', sn_device_id = None,
        sn_refresh_token = ''tok-2'', sn_created_at = 0, sn_expires_at = hours 8, sn_revoked = False\<rparr>)]"
    by (simp add: s_def demo_sessions_def create_session_def revoke_all_sessions_def sessions_for_user_def
        session_store_save_def session_key_def default_session_expiry_def default_session_ttl_def Let_def)
  have ks: "keyed session_key s" by (simp add: keyed_def eq session_key_def)
  obtain d where d: "identity_dashboard_of 5 s [] [] [] [] demo_security_bus ''f'' = Inr d" "ib_active_sessions d = 2"
    by (simp add: identity_dashboard_of_def eq sessions_for_firm_def rows_by_value_def
        active_delegations_for_firm_def delegations_for_firm_def Let_def)
  have "length (filter (\<lambda>x. sn_revoked x \<and> 5 < sn_expires_at x) (sessions_for_firm s ''f'')) = 1"
    by (simp add: eq sessions_for_firm_def rows_by_value_def)
  then show ?thesis
    using dashboard_counts_revoked [OF ks, where devices = "[]" and now = 5 and mfa = "[]" and delegations = "[]"
        and policies = "[]" and events = demo_security_bus and firm = "''f''"] d
    unfolding s_def [symmetric] Let_def by simp
qed

end
