(* ===== verification/Windows.thy ===== *)
theory Windows
  imports Prelude
begin

text \<open>
  Sliding windows: the argument behind every limiter that looks back over a fixed span of time
  before it lets a call through (the call quotas of \<^verbatim>\<open>ai_fabric\<close>, the sandbox of \<^verbatim>\<open>platform_sdk\<close>).
\<close>

definition calls_between :: "datetime \<Rightarrow> datetime \<Rightarrow> datetime list \<Rightarrow> int" where
  "calls_between a b ts = int (length (filter (\<lambda>t. a \<le> t \<and> t \<le> b) ts))"

text \<open>No interval of the given width, wherever it lies, holds more than \<open>n\<close> of the calls.\<close>

definition windows_bounded :: "timedelta \<Rightarrow> int \<Rightarrow> datetime list \<Rightarrow> bool" where
  "windows_bounded width n ts \<longleftrightarrow> (\<forall>a. calls_between a (a + width) ts \<le> max 0 n)"

lemma windows_bounded_Nil [simp]: "windows_bounded width n []"
  by (simp add: windows_bounded_def calls_between_def)

text \<open>A call checked at one time and recorded at a later one keeps the bound.\<close>

lemma windows_bounded_snoc:
  assumes w: "windows_bounded width n ts"
    and free: "int (length (filter (\<lambda>t. t_check - width \<le> t) ts)) < n"
    and le: "t_check \<le> t_record"
  shows "windows_bounded width n (ts @ [t_record])"
  unfolding windows_bounded_def
proof
  fix a
  show "calls_between a (a + width) (ts @ [t_record]) \<le> max 0 n"
  proof (cases "a \<le> t_record \<and> t_record \<le> a + width")
    case True
    have "length (filter (\<lambda>t. a \<le> t \<and> t \<le> a + width) ts) \<le> length (filter (\<lambda>t. t_check - width \<le> t) ts)"
      by (rule length_filter_mono) (use True le in linarith)
    then show ?thesis using free True by (simp add: calls_between_def)
  next
    case False
    then have "calls_between a (a + width) (ts @ [t_record]) = calls_between a (a + width) ts"
      by (auto simp: calls_between_def)
    then show ?thesis using w by (simp add: windows_bounded_def)
  qed
qed

end
