(* ===== verification/Quotas.thy ===== *)
theory Quotas
  imports Plans Windows
begin

text \<open>
  What a firm may consume and what it has consumed: the call quotas of \<^verbatim>\<open>ai_fabric/quotas\<close>, the
  costs of \<^verbatim>\<open>platform/cost_control\<close> with the token estimate of \<^verbatim>\<open>ai_fabric/token_manager\<close>, and the
  \<open>quotas\<close>, \<open>metering\<close>, \<open>usage\<close> and \<open>modules\<close> of \<^verbatim>\<open>business_platform\<close>. A reading of
  \<open>time.monotonic()\<close> is a number of microseconds, like a \<open>datetime\<close>.
\<close>

section \<open>Call quotas\<close>

record fabric_quota =
  fq_scope :: pystr
  fq_scope_id :: pystr
  fq_max_calls_per_period :: int
  fq_period_days :: int

record call_store =
  cs_quotas :: "(pystr \<times> pystr, fabric_quota) dict"
  cs_calls :: "(pystr \<times> pystr, datetime list) dict"

definition empty_call_store :: call_store where
  "empty_call_store = \<lparr>cs_quotas = [], cs_calls = []\<rparr>"

definition call_store_set_quota :: "fabric_quota \<Rightarrow> call_store \<Rightarrow> call_store" where
  [store_defs]: "call_store_set_quota q s =
     s\<lparr>cs_quotas := dict_set (fq_scope q, fq_scope_id q) q (cs_quotas s)\<rparr>"

definition call_store_get_quota :: "call_store \<Rightarrow> pystr \<times> pystr \<Rightarrow> fabric_quota option" where
  [store_defs]: "call_store_get_quota s k = dict_get (cs_quotas s) k"

definition call_times :: "call_store \<Rightarrow> pystr \<Rightarrow> pystr \<Rightarrow> datetime list" where
  "call_times s scope scope_id = (case dict_get (cs_calls s) (scope, scope_id) of None \<Rightarrow> [] | Some ts \<Rightarrow> ts)"

definition call_store_record_call :: "datetime \<Rightarrow> pystr \<Rightarrow> pystr \<Rightarrow> call_store \<Rightarrow> call_store" where
  [store_defs]: "call_store_record_call now scope scope_id s =
     s\<lparr>cs_calls := dict_set (scope, scope_id) (call_times s scope scope_id @ [now]) (cs_calls s)\<rparr>"

definition calls_in_period :: "datetime \<Rightarrow> pystr \<Rightarrow> pystr \<Rightarrow> int \<Rightarrow> call_store \<Rightarrow> int" where
  "calls_in_period now scope scope_id period_days s =
     (let cutoff = now - days period_days
      in int (length (filter (\<lambda>t. cutoff \<le> t) (call_times s scope scope_id))))"

interpretation quota_rows: keyed_store "\<lambda>q. (fq_scope q, fq_scope_id q)" call_store_set_quota call_store_get_quota
    "\<lambda>s. keyed (\<lambda>q. (fq_scope q, fq_scope_id q)) (cs_quotas s)"
  by unfold_locales (auto simp: store_defs update_conv' dest: keyed_get)

definition set_call_quota ::
    "pystr \<Rightarrow> pystr \<Rightarrow> int \<Rightarrow> int \<Rightarrow> call_store \<Rightarrow> fabric_quota \<times> call_store" where
  "set_call_quota scope scope_id max_calls period_days s =
     (let quota = \<lparr>fq_scope = scope, fq_scope_id = scope_id, fq_max_calls_per_period = max_calls,
                   fq_period_days = period_days\<rparr>
      in (quota, call_store_set_quota quota s))"

definition check_call_quota :: "datetime \<Rightarrow> pystr \<Rightarrow> pystr \<Rightarrow> call_store \<Rightarrow> bool" where
  "check_call_quota now scope scope_id s =
     (case call_store_get_quota s (scope, scope_id) of
        None \<Rightarrow> True
      | Some quota \<Rightarrow> calls_in_period now scope scope_id (fq_period_days quota) s < fq_max_calls_per_period quota)"

definition record_quota_call :: "datetime \<Rightarrow> pystr \<Rightarrow> pystr \<Rightarrow> call_store \<Rightarrow> call_store" where
  "record_quota_call now scope scope_id s = call_store_record_call now scope scope_id s"

section \<open>Costs\<close>

definition cost_per_1k_tokens_usd :: "pystr \<Rightarrow> pyfloat" where
  "cost_per_1k_tokens_usd provider =
     (if provider = ''openai'' then round64 (5 / 1000)
      else if provider = ''anthropic'' then round64 (6 / 1000)
      else if provider = ''mistral'' then round64 (2 / 1000)
      else if provider = ''local'' then Fin 0
      else round64 (5 / 1000))"

definition estimate_cost :: "pystr \<Rightarrow> int \<Rightarrow> pyfloat result" where
  "estimate_cost provider token_count =
     res_bind (int_truediv token_count 1000)
       (\<lambda>thousands. Inr (py_round (flt_mul thousands (cost_per_1k_tokens_usd provider)) 6))"

record cost_entry =
  ce_id :: pystr
  ce_firm_id :: pystr
  ce_user_id :: pystr
  ce_case_id :: "pystr option"
  ce_workflow_id :: "pystr option"
  ce_provider :: pystr
  ce_model :: pystr
  ce_token_count :: int
  ce_cost_usd :: pyfloat
  ce_cache_hit :: bool
  ce_recorded_at :: datetime

record alert_threshold =
  at_scope :: pystr
  at_scope_id :: pystr
  at_max_cost_usd :: pyfloat
  at_period_days :: int

record cost_breach =
  cb_threshold :: alert_threshold
  cb_current_cost_usd :: pyfloat
  cb_checked_at :: datetime

record cost_tracker =
  ct_entries :: "cost_entry list"
  ct_thresholds :: "(pystr \<times> pystr, alert_threshold) dict"

definition cost_save :: "cost_entry \<Rightarrow> cost_tracker \<Rightarrow> cost_tracker" where
  [store_defs]: "cost_save e c = c\<lparr>ct_entries := ct_entries c @ [e]\<rparr>"

definition costs_for_firm :: "cost_tracker \<Rightarrow> pystr \<Rightarrow> cost_entry list" where
  [store_defs]: "costs_for_firm c firm = filter (\<lambda>e. ce_firm_id e = firm) (ct_entries c)"

definition costs_for_user :: "cost_tracker \<Rightarrow> pystr \<Rightarrow> cost_entry list" where
  [store_defs]: "costs_for_user c user = filter (\<lambda>e. ce_user_id e = user) (ct_entries c)"

definition costs_for_case :: "cost_tracker \<Rightarrow> pystr \<Rightarrow> cost_entry list" where
  [store_defs]: "costs_for_case c case_id = filter (\<lambda>e. ce_case_id e = Some case_id) (ct_entries c)"

definition costs_for_workflow :: "cost_tracker \<Rightarrow> pystr \<Rightarrow> cost_entry list" where
  [store_defs]: "costs_for_workflow c workflow_id = filter (\<lambda>e. ce_workflow_id e = Some workflow_id) (ct_entries c)"

interpretation cost_journal: journal cost_save ct_entries ce_firm_id costs_for_firm
  by unfold_locales (auto simp: store_defs)

definition record_cost ::
    "pystr \<Rightarrow> datetime \<Rightarrow> pystr \<Rightarrow> pystr \<Rightarrow> pystr \<Rightarrow> pystr \<Rightarrow> int \<Rightarrow> pystr option \<Rightarrow> pystr option \<Rightarrow> bool
       \<Rightarrow> cost_tracker \<Rightarrow> (cost_entry \<times> cost_tracker) result" where
  "record_cost new_id now firm user provider model token_count case_id workflow_id cache_hit c =
     res_bind (if cache_hit then Inr (Fin 0) else estimate_cost provider token_count) (\<lambda>cost.
       let entry = \<lparr>ce_id = new_id, ce_firm_id = firm, ce_user_id = user, ce_case_id = case_id,
                    ce_workflow_id = workflow_id, ce_provider = provider, ce_model = model,
                    ce_token_count = token_count, ce_cost_usd = cost, ce_cache_hit = cache_hit,
                    ce_recorded_at = now\<rparr>
       in Inr (entry, cost_save entry c))"

definition cost_by_user :: "pystr \<Rightarrow> cost_tracker \<Rightarrow> pyfloat" where
  "cost_by_user user c = flt_sum (map ce_cost_usd (costs_for_user c user))"

definition cost_by_case :: "pystr \<Rightarrow> cost_tracker \<Rightarrow> pyfloat" where
  "cost_by_case case_id c = flt_sum (map ce_cost_usd (costs_for_case c case_id))"

definition cost_by_workflow :: "pystr \<Rightarrow> cost_tracker \<Rightarrow> pyfloat" where
  "cost_by_workflow workflow_id c = flt_sum (map ce_cost_usd (costs_for_workflow c workflow_id))"

definition cost_by_provider :: "pystr \<Rightarrow> pystr \<Rightarrow> cost_tracker \<Rightarrow> pyfloat" where
  "cost_by_provider firm provider c =
     flt_sum (map ce_cost_usd (filter (\<lambda>e. ce_provider e = provider) (costs_for_firm c firm)))"

definition total_cost_usd :: "cost_tracker \<Rightarrow> pyfloat" where
  "total_cost_usd c = flt_sum (map ce_cost_usd (ct_entries c))"

definition cache_hit_rate :: "pystr \<Rightarrow> cost_tracker \<Rightarrow> pyfloat result" where
  "cache_hit_rate firm c =
     (let entries = costs_for_firm c firm
      in if entries = [] then Inr (Fin 0)
         else int_truediv (int (length (filter ce_cache_hit entries))) (int (length entries)))"

definition set_alert_threshold ::
    "pystr \<Rightarrow> pystr \<Rightarrow> pyfloat \<Rightarrow> int \<Rightarrow> cost_tracker \<Rightarrow> alert_threshold \<times> cost_tracker" where
  "set_alert_threshold scope scope_id max_cost period_days c =
     (let threshold = \<lparr>at_scope = scope, at_scope_id = scope_id, at_max_cost_usd = max_cost, at_period_days = period_days\<rparr>
      in (threshold, c\<lparr>ct_thresholds := dict_set (scope, scope_id) threshold (ct_thresholds c)\<rparr>))"

text \<open>One turn of the loop of \<open>check_thresholds\<close>: \<open>continue\<close> is an empty list.\<close>

definition check_threshold :: "datetime \<Rightarrow> pystr \<Rightarrow> cost_tracker \<Rightarrow> alert_threshold \<Rightarrow> cost_breach list" where
  "check_threshold now firm c t =
     (let breach_of = (\<lambda>entries.
            let cutoff = now - days (at_period_days t);
                current_cost = flt_sum (map ce_cost_usd (filter (\<lambda>e. cutoff \<le> ce_recorded_at e) entries))
            in if flt_less (at_max_cost_usd t) current_cost
               then [\<lparr>cb_threshold = t, cb_current_cost_usd = current_cost, cb_checked_at = now\<rparr>] else [])
      in if at_scope t = ''firm'' \<and> at_scope_id t = firm then breach_of (costs_for_firm c firm)
         else if at_scope t = ''user'' then breach_of (costs_for_user c (at_scope_id t))
         else [])"

definition check_thresholds :: "datetime \<Rightarrow> pystr \<Rightarrow> cost_tracker \<Rightarrow> cost_breach list" where
  "check_thresholds now firm c = concat (map (check_threshold now firm c) (dict_values (ct_thresholds c)))"

section \<open>Tokens\<close>

text \<open>The number of words \<open>str.split()\<close> finds; unlike \<open>int()\<close> it also splits at the separators 28 to 31.\<close>

fun word_count :: "bool \<Rightarrow> pystr \<Rightarrow> int" where
  "word_count inside [] = 0"
| "word_count inside (ch # s) =
     (if is_space ch \<or> 28 \<le> code ch \<and> code ch \<le> 31 then word_count False s else (if inside then 0 else 1) + word_count True s)"

definition estimate_tokens :: "pystr \<Rightarrow> int" where
  "estimate_tokens txt = max 1 (word_count False txt)"

definition record_usage ::
    "pystr \<Rightarrow> datetime \<Rightarrow> pystr \<Rightarrow> pystr \<Rightarrow> pystr \<Rightarrow> pystr \<Rightarrow> pystr \<Rightarrow> pystr \<Rightarrow> bool \<Rightarrow> pystr option \<Rightarrow> pystr option
       \<Rightarrow> cost_tracker \<Rightarrow> (cost_entry \<times> cost_tracker) result" where
  "record_usage new_id now firm user provider model prompt response_text cache_hit case_id workflow_id c =
     (let token_count = estimate_tokens prompt + estimate_tokens response_text
      in record_cost new_id now firm user provider model token_count case_id workflow_id cache_hit c)"

section \<open>Quotas of a plan\<close>

datatype quota_dimension =
  QD_USERS | QD_STORAGE_GB | QD_AI_CALLS | QD_GPU_MINUTES | QD_CASES | QD_WORKFLOWS | QD_AGENTS

record quota_override =
  qo_firm_id :: pystr
  qo_dimension :: quota_dimension
  qo_extra_amount :: int

record quota_check_result =
  qr_dimension :: quota_dimension
  qr_limit :: int
  qr_used :: int
  qr_allowed :: bool

definition override_key :: "quota_override \<Rightarrow> pystr \<times> quota_dimension" where
  "override_key q = (qo_firm_id q, qo_dimension q)"

type_synonym override_store = "(pystr \<times> quota_dimension, quota_override) dict"

definition override_save :: "quota_override \<Rightarrow> override_store \<Rightarrow> override_store" where
  [store_defs]: "override_save q s = dict_set (override_key q) q s"

definition overrides_for_firm :: "override_store \<Rightarrow> pystr \<Rightarrow> quota_override list" where
  "overrides_for_firm s firm = rows_by_key s firm"

interpretation override_rows: tenant_store override_key override_save dict_get "keyed override_key" overrides_for_firm
  using tenant_store_dict [of override_key]
  by (simp add: override_save_def [abs_def] overrides_for_firm_def [abs_def])

definition base_limit :: "plan_limits \<Rightarrow> quota_dimension \<Rightarrow> int result" where
  "base_limit limits dm =
     (case dm of
        QD_USERS \<Rightarrow> Inr (lm_max_users limits)
      | QD_STORAGE_GB \<Rightarrow> py_trunc (lm_max_storage_gb limits)
      | QD_AI_CALLS \<Rightarrow> Inr (lm_max_ai_calls_per_month limits)
      | QD_CASES \<Rightarrow> Inr (lm_max_cases limits)
      | QD_WORKFLOWS \<Rightarrow> Inr (lm_max_workflows limits)
      | QD_AGENTS \<Rightarrow> Inr (lm_max_agents limits)
      | QD_GPU_MINUTES \<Rightarrow> Inr 0)"

text \<open>
  What the engines of this section read of the shop: the catalogue, the subscriptions, the
  overrides. The AI call quotas are a store of their own, since an operation writes it.
\<close>

record shop =
  sh_plans :: plan_store
  sh_subscriptions :: subscription_store
  sh_overrides :: override_store

definition plan_of_firm :: "pystr \<Rightarrow> shop \<Rightarrow> plan result" where
  "plan_of_firm firm sh =
     res_bind (require_subscription firm (sh_subscriptions sh)) (\<lambda>sub. get_plan (sb_plan_id sub) (sh_plans sh))"

definition limit_for :: "pystr \<Rightarrow> quota_dimension \<Rightarrow> shop \<Rightarrow> int result" where
  "limit_for firm dm sh =
     res_bind (plan_of_firm firm sh) (\<lambda>p.
       res_bind (base_limit (pl_limits p) dm) (\<lambda>base.
         Inr (base + (case dict_get (sh_overrides sh) (firm, dm) of
                        Some q \<Rightarrow> qo_extra_amount q | None \<Rightarrow> 0))))"

definition set_quota_override :: "pystr \<Rightarrow> quota_dimension \<Rightarrow> int \<Rightarrow> shop \<Rightarrow> quota_override \<times> shop" where
  "set_quota_override firm dm extra sh =
     (let q = \<lparr>qo_firm_id = firm, qo_dimension = dm, qo_extra_amount = extra\<rparr>
      in (q, sh\<lparr>sh_overrides := override_save q (sh_overrides sh)\<rparr>))"

definition check_quota :: "pystr \<Rightarrow> quota_dimension \<Rightarrow> int \<Rightarrow> shop \<Rightarrow> quota_check_result result" where
  "check_quota firm dm current_usage sh =
     res_bind (limit_for firm dm sh) (\<lambda>limit.
       Inr \<lparr>qr_dimension = dm, qr_limit = limit, qr_used = current_usage, qr_allowed = (current_usage < limit)\<rparr>)"

definition check_ai_calls :: "datetime \<Rightarrow> pystr \<Rightarrow> shop \<Rightarrow> call_store \<Rightarrow> (bool \<times> call_store) result" where
  "check_ai_calls now firm sh s =
     res_bind (limit_for firm QD_AI_CALLS sh) (\<lambda>limit.
       let (_, s') = set_call_quota ''firm'' firm limit 30 s
       in Inr (check_call_quota now ''firm'' firm s', s'))"

definition record_ai_quota_call :: "datetime \<Rightarrow> pystr \<Rightarrow> call_store \<Rightarrow> call_store" where
  "record_ai_quota_call now firm s = record_quota_call now ''firm'' firm s"

section \<open>Metering\<close>

datatype metered_dimension =
  MD_AI_CALLS | MD_TOKENS | MD_STORAGE_GB | MD_DOCUMENTS_GENERATED | MD_WORKFLOWS_EXECUTED | MD_SEARCHES
| MD_ACTIVE_CONNECTORS

definition metered_dimensions :: "metered_dimension list" where
  "metered_dimensions = [MD_AI_CALLS, MD_TOKENS, MD_STORAGE_GB, MD_DOCUMENTS_GENERATED, MD_WORKFLOWS_EXECUTED,
     MD_SEARCHES, MD_ACTIVE_CONNECTORS]"

text \<open>
  A quantity is declared a \<open>float\<close>, but the callers pass integers, which Python adds exactly; it
  becomes a float when a float is added.
\<close>

datatype quantity = QInt int | QFlt pyfloat

fun qty_add :: "quantity \<Rightarrow> quantity \<Rightarrow> quantity result" where
  "qty_add (QInt a) (QInt b) = Inr (QInt (a + b))"
| "qty_add (QFlt x) (QFlt y) = Inr (QFlt (flt_add x y))"
| "qty_add (QInt a) (QFlt y) = res_bind (flt_of_int a) (\<lambda>x. Inr (QFlt (flt_add x y)))"
| "qty_add (QFlt x) (QInt b) = res_bind (flt_of_int b) (\<lambda>y. Inr (QFlt (flt_add x y)))"

fun qty_sum :: "quantity \<Rightarrow> quantity list \<Rightarrow> quantity result" where
  "qty_sum acc [] = Inr acc"
| "qty_sum acc (q # qs) = res_bind (qty_add acc q) (\<lambda>acc'. qty_sum acc' qs)"

fun qty_div :: "quantity \<Rightarrow> int \<Rightarrow> pyfloat result" where
  "qty_div (QInt a) b = int_truediv a b"
| "qty_div (QFlt x) b = res_bind (flt_of_int b) (flt_div x)"

fun qty_int :: "quantity \<Rightarrow> int result" where
  "qty_int (QInt a) = Inr a"
| "qty_int (QFlt x) = py_trunc x"

record metering_event =
  me_id :: pystr
  me_firm_id :: pystr
  me_dimension :: metered_dimension
  me_quantity :: quantity
  me_recorded_at :: datetime
  me_metadata :: "(pystr, pystr) dict"

type_synonym metering_log = "metering_event list"

definition metering_save :: "metering_event \<Rightarrow> metering_log \<Rightarrow> metering_log" where
  [store_defs]: "metering_save e mlog = mlog @ [e]"

definition metering_for_firm :: "pystr \<Rightarrow> metered_dimension option \<Rightarrow> metering_log \<Rightarrow> metering_event list" where
  [store_defs]: "metering_for_firm firm dm mlog =
     filter (\<lambda>e. me_firm_id e = firm \<and> (dm = None \<or> dm = Some (me_dimension e))) mlog"

interpretation metering_journal: journal metering_save "\<lambda>l. l" me_firm_id "\<lambda>mlog firm. metering_for_firm firm None mlog"
  by unfold_locales (auto simp: store_defs)

definition record_metering ::
    "pystr \<Rightarrow> datetime \<Rightarrow> pystr \<Rightarrow> metered_dimension \<Rightarrow> quantity \<Rightarrow> (pystr, pystr) dict \<Rightarrow> metering_log
       \<Rightarrow> metering_event \<times> metering_log" where
  "record_metering new_id now firm dm qty metadata mlog =
     (let event = \<lparr>me_id = new_id, me_firm_id = firm, me_dimension = dm, me_quantity = qty,
                   me_recorded_at = now, me_metadata = metadata\<rparr>
      in (event, metering_save event mlog))"

definition meter_ai_call ::
    "(pystr \<times> datetime) \<times> (pystr \<times> datetime) \<times> (pystr \<times> datetime) \<Rightarrow> pystr \<Rightarrow> pystr \<Rightarrow> pystr \<Rightarrow> pystr \<Rightarrow> pystr \<Rightarrow> pystr \<Rightarrow> bool
       \<Rightarrow> pystr option \<Rightarrow> pystr option \<Rightarrow> metering_log \<times> cost_tracker
       \<Rightarrow> (metering_event \<times> metering_log \<times> cost_tracker) result" where
  "meter_ai_call fresh firm user provider model prompt response_text cache_hit case_id workflow_id st =
     (let ((cost_id, cost_now), (call_id, call_now), (tok_id, tok_now)) = fresh; (mlog, c) = st in
      res_bind (record_usage cost_id cost_now firm user provider model prompt response_text cache_hit
                  case_id workflow_id c) (\<lambda>(cost_entry, c').
        let metadata = [(''provider'', provider), (''model'', model)];
            (_, log1) = record_metering call_id call_now firm MD_AI_CALLS (QInt 1) metadata mlog;
            (event, log2) = record_metering tok_id tok_now firm MD_TOKENS (QInt (ce_token_count cost_entry)) metadata log1
        in Inr (event, log2, c')))"

definition total_for_dimension :: "pystr \<Rightarrow> metered_dimension \<Rightarrow> metering_log \<Rightarrow> quantity result" where
  "total_for_dimension firm dm mlog =
     qty_sum (QInt 0) (map me_quantity (metering_for_firm firm (Some dm) mlog))"

definition metering_history :: "pystr \<Rightarrow> metering_log \<Rightarrow> metering_event list" where
  "metering_history firm mlog = metering_for_firm firm None mlog"

section \<open>Usage against the quota\<close>

record usage_snapshot =
  ug_firm_id :: pystr
  ug_dimension :: metered_dimension
  ug_used :: quantity
  ug_limit :: "int option"
  ug_percent_used :: "pyfloat option"

fun quota_mapping :: "metered_dimension \<Rightarrow> quota_dimension option" where
  "quota_mapping MD_AI_CALLS = Some QD_AI_CALLS"
| "quota_mapping MD_STORAGE_GB = Some QD_STORAGE_GB"
| "quota_mapping MD_WORKFLOWS_EXECUTED = Some QD_WORKFLOWS"
| "quota_mapping _ = None"

definition usage_of :: "pystr \<Rightarrow> metered_dimension \<Rightarrow> metering_log \<Rightarrow> shop \<Rightarrow> usage_snapshot result" where
  "usage_of firm dm mlog sh =
     res_bind (total_for_dimension firm dm mlog) (\<lambda>used.
     res_bind (case quota_mapping dm of
                 None \<Rightarrow> Inr None | Some qd \<Rightarrow> res_bind (limit_for firm qd sh) (Inr \<circ> Some)) (\<lambda>limit.
     res_bind (case limit of
                 None \<Rightarrow> Inr None
               | Some n \<Rightarrow> if n = 0 then Inr None
                           else res_bind (qty_div used n) (\<lambda>q. Inr (Some (flt_mul q (Fin 100))))) (\<lambda>percent_used.
       Inr \<lparr>ug_firm_id = firm, ug_dimension = dm, ug_used = used, ug_limit = limit,
            ug_percent_used = percent_used\<rparr>)))"

fun snapshots :: "pystr \<Rightarrow> metered_dimension list \<Rightarrow> metering_log \<Rightarrow> shop \<Rightarrow> usage_snapshot list result" where
  "snapshots firm [] mlog sh = Inr []"
| "snapshots firm (dm # dms) mlog sh =
     res_bind (usage_of firm dm mlog sh) (\<lambda>u. res_bind (snapshots firm dms mlog sh) (\<lambda>us. Inr (u # us)))"

definition full_usage :: "pystr \<Rightarrow> metering_log \<Rightarrow> shop \<Rightarrow> usage_snapshot list result" where
  "full_usage firm mlog sh = snapshots firm metered_dimensions mlog sh"

section \<open>The quota at the start of a workflow\<close>

text \<open>
  The route that starts an execution: the executions metered so far against the plan's number of
  workflows; a firm without a subscription is not gated. \<open>workflow_started\<close> is what it records
  once the execution has run.
\<close>

definition workflow_quota_exceeded :: pyexn where
  "workflow_quota_exceeded =
     HTTPException 429 (''workflow execution quota exceeded for this firm'' @ [CHR 0x27] @ ''s plan'')"

definition workflow_gate :: "pystr \<Rightarrow> metering_log \<Rightarrow> shop \<Rightarrow> unit result" where
  "workflow_gate firm mlog sh =
     (case res_bind (total_for_dimension firm MD_WORKFLOWS_EXECUTED mlog) (\<lambda>used.
             res_bind (qty_int used) (\<lambda>n.
               res_bind (check_quota firm QD_WORKFLOWS n sh) (\<lambda>r.
                 if \<not> qr_allowed r
                 then Inl workflow_quota_exceeded
                 else Inr ()))) of
        Inl (KeyError _) \<Rightarrow> Inr ()
      | r \<Rightarrow> r)"

definition workflow_started :: "pystr \<Rightarrow> datetime \<Rightarrow> pystr \<Rightarrow> metering_log \<Rightarrow> metering_log" where
  "workflow_started new_id now firm mlog = snd (record_metering new_id now firm MD_WORKFLOWS_EXECUTED (QInt 1) [] mlog)"

section \<open>Modules\<close>

datatype tmis_module =
  TM_DOCUMENT_INTELLIGENCE | TM_CASE_INTELLIGENCE | TM_LEGAL_RESEARCH | TM_LEGAL_REASONING | TM_LEGAL_DRAFTING
| TM_COLLABORATION | TM_CABINET_OS | TM_AI_TEAM | TM_CABINET_KNOWLEDGE | TM_PLATFORM_SDK | TM_AI_FABRIC
| TM_AI_GOVERNANCE | TM_STRATEGIC_INTELLIGENCE | TM_WORKFLOW_AUTOMATION | TM_INTEGRATION_HUB | TM_IDENTITY_PLATFORM
| TM_LEGAL_COPILOT_FRAMEWORK

definition tmis_modules :: "tmis_module list" where
  "tmis_modules = [TM_DOCUMENT_INTELLIGENCE, TM_CASE_INTELLIGENCE, TM_LEGAL_RESEARCH, TM_LEGAL_REASONING,
     TM_LEGAL_DRAFTING, TM_COLLABORATION, TM_CABINET_OS, TM_AI_TEAM, TM_CABINET_KNOWLEDGE, TM_PLATFORM_SDK,
     TM_AI_FABRIC, TM_AI_GOVERNANCE, TM_STRATEGIC_INTELLIGENCE, TM_WORKFLOW_AUTOMATION, TM_INTEGRATION_HUB,
     TM_IDENTITY_PLATFORM, TM_LEGAL_COPILOT_FRAMEWORK]"

fun tmis_module_value :: "tmis_module \<Rightarrow> pystr" where
  "tmis_module_value TM_DOCUMENT_INTELLIGENCE = ''document_intelligence''"
| "tmis_module_value TM_CASE_INTELLIGENCE = ''case_intelligence''"
| "tmis_module_value TM_LEGAL_RESEARCH = ''legal_research''"
| "tmis_module_value TM_LEGAL_REASONING = ''legal_reasoning''"
| "tmis_module_value TM_LEGAL_DRAFTING = ''legal_drafting''"
| "tmis_module_value TM_COLLABORATION = ''collaboration''"
| "tmis_module_value TM_CABINET_OS = ''cabinet_os''"
| "tmis_module_value TM_AI_TEAM = ''ai_team''"
| "tmis_module_value TM_CABINET_KNOWLEDGE = ''cabinet_knowledge''"
| "tmis_module_value TM_PLATFORM_SDK = ''platform_sdk''"
| "tmis_module_value TM_AI_FABRIC = ''ai_fabric''"
| "tmis_module_value TM_AI_GOVERNANCE = ''ai_governance''"
| "tmis_module_value TM_STRATEGIC_INTELLIGENCE = ''strategic_intelligence''"
| "tmis_module_value TM_WORKFLOW_AUTOMATION = ''workflow_automation''"
| "tmis_module_value TM_INTEGRATION_HUB = ''integration_hub''"
| "tmis_module_value TM_IDENTITY_PLATFORM = ''identity_platform''"
| "tmis_module_value TM_LEGAL_COPILOT_FRAMEWORK = ''legal_copilot_framework''"

fun module_feature :: "tmis_module \<Rightarrow> pystr option" where
  "module_feature TM_DOCUMENT_INTELLIGENCE = Some ''documents''"
| "module_feature TM_CASE_INTELLIGENCE = Some ''cases''"
| "module_feature TM_LEGAL_RESEARCH = Some ''ai_assist''"
| "module_feature TM_LEGAL_REASONING = Some ''ai_assist''"
| "module_feature TM_LEGAL_DRAFTING = Some ''ai_assist''"
| "module_feature TM_AI_TEAM = Some ''ai_assist''"
| "module_feature TM_AI_FABRIC = Some ''ai_assist''"
| "module_feature TM_AI_GOVERNANCE = Some ''ai_assist''"
| "module_feature TM_COLLABORATION = Some ''collaboration''"
| "module_feature TM_WORKFLOW_AUTOMATION = Some ''workflow_automation''"
| "module_feature TM_INTEGRATION_HUB = Some ''integration_hub''"
| "module_feature TM_STRATEGIC_INTELLIGENCE = Some ''advanced_analytics''"
| "module_feature TM_PLATFORM_SDK = Some ''public_api''"
| "module_feature TM_LEGAL_COPILOT_FRAMEWORK = Some ''ai_assist''"
| "module_feature _ = None"

record module_activation =
  ma_firm_id :: pystr
  ma_module :: tmis_module
  ma_active :: bool
  ma_updated_at :: datetime

definition activation_key :: "module_activation \<Rightarrow> pystr \<times> tmis_module" where
  "activation_key a = (ma_firm_id a, ma_module a)"

type_synonym activation_store = "(pystr \<times> tmis_module, module_activation) dict"

definition activation_save :: "module_activation \<Rightarrow> activation_store \<Rightarrow> activation_store" where
  [store_defs]: "activation_save a s = dict_set (activation_key a) a s"

definition activations_for_firm :: "activation_store \<Rightarrow> pystr \<Rightarrow> module_activation list" where
  "activations_for_firm s firm = rows_by_key s firm"

interpretation activation_rows: tenant_store activation_key activation_save dict_get "keyed activation_key"
    activations_for_firm
  using tenant_store_dict [of activation_key]
  by (simp add: activation_save_def [abs_def] activations_for_firm_def [abs_def])

definition module_is_available :: "pystr \<Rightarrow> tmis_module \<Rightarrow> shop \<Rightarrow> bool result" where
  "module_is_available firm m sh =
     (case module_feature m of
        None \<Rightarrow> Inr True
      | Some feature \<Rightarrow> res_bind (plan_of_firm firm sh) (\<lambda>p. Inr (feature \<in> pl_features p)))"

definition activate_module ::
    "datetime \<Rightarrow> pystr \<Rightarrow> tmis_module \<Rightarrow> shop \<Rightarrow> activation_store \<Rightarrow> (module_activation \<times> activation_store) result" where
  "activate_module now firm m sh s =
     res_bind (module_is_available firm m sh) (\<lambda>available.
       if \<not> available
       then Inl (ModuleNotAvailableError
              (tmis_module_value m @ '' is not included in firm '' @ firm @ [CHR 0x27] @ ''s plan''))
       else let a = \<lparr>ma_firm_id = firm, ma_module = m, ma_active = True, ma_updated_at = now\<rparr>
            in Inr (a, activation_save a s))"

definition deactivate_module ::
    "datetime \<Rightarrow> pystr \<Rightarrow> tmis_module \<Rightarrow> activation_store \<Rightarrow> module_activation \<times> activation_store" where
  "deactivate_module now firm m s =
     (let a = \<lparr>ma_firm_id = firm, ma_module = m, ma_active = False, ma_updated_at = now\<rparr>
      in (a, activation_save a s))"

definition module_is_active :: "pystr \<Rightarrow> tmis_module \<Rightarrow> shop \<Rightarrow> activation_store \<Rightarrow> bool result" where
  "module_is_active firm m sh s =
     (case dict_get s (firm, m) of
        Some override \<Rightarrow> Inr (ma_active override)
      | None \<Rightarrow> module_is_available firm m sh)"

definition active_modules :: "pystr \<Rightarrow> shop \<Rightarrow> activation_store \<Rightarrow> tmis_module list result" where
  "active_modules firm sh s = filter_res (\<lambda>m. module_is_active firm m sh s) tmis_modules"

section \<open>Lemmas\<close>

lemma call_times_record [simp]:
  "call_times (record_quota_call now sc i s) sc' i' =
     (if (sc', i') = (sc, i) then call_times s sc i @ [now] else call_times s sc' i')"
  by (simp add: record_quota_call_def store_defs call_times_def update_conv')

lemma call_times_set_quota [simp]: "call_times (call_store_set_quota q s) sc i = call_times s sc i"
  by (simp add: store_defs call_times_def)

lemma get_quota_record [simp]: "call_store_get_quota (record_quota_call now sc i s) k = call_store_get_quota s k"
  by (simp add: record_quota_call_def store_defs)

text \<open>A call that passed the check leaves every window within the quota it was checked against.\<close>

lemma gated_call_bounded:
  assumes "call_store_get_quota s (sc, i) = Some q"
    and "windows_bounded (days (fq_period_days q)) (fq_max_calls_per_period q) (call_times s sc i)"
    and "check_call_quota now sc i s"
  shows "windows_bounded (days (fq_period_days q)) (fq_max_calls_per_period q)
           (call_times (record_quota_call now sc i s) sc i)"
  using assms
  by (simp add: check_call_quota_def calls_in_period_def Let_def windows_bounded_snoc [of _ _ _ now now])

lemma limit_for_plan:
  "plan_of_firm firm sh = Inr p \<Longrightarrow> limit_for firm dm sh =
     res_bind (base_limit (pl_limits p) dm) (\<lambda>base.
       Inr (base + (case dict_get (sh_overrides sh) (firm, dm) of Some q \<Rightarrow> qo_extra_amount q | None \<Rightarrow> 0)))"
  by (simp add: limit_for_def)

lemma limit_ai_calls:
  "plan_of_firm firm sh = Inr p \<Longrightarrow> limit_for firm QD_AI_CALLS sh =
     Inr (lm_max_ai_calls_per_month (pl_limits p) +
       (case dict_get (sh_overrides sh) (firm, QD_AI_CALLS) of Some q \<Rightarrow> qo_extra_amount q | None \<Rightarrow> 0))"
  by (simp add: limit_for_plan base_limit_def)

text \<open>Integers are added exactly.\<close>

definition int_amounts :: "pystr \<Rightarrow> metered_dimension \<Rightarrow> metering_log \<Rightarrow> bool" where
  "int_amounts firm dm mlog \<longleftrightarrow> (\<forall>e \<in> set (metering_for_firm firm (Some dm) mlog). \<exists>n. me_quantity e = QInt n)"

fun qty_amount :: "quantity \<Rightarrow> int" where
  "qty_amount (QInt n) = n"
| "qty_amount (QFlt x) = 0"

lemma qty_sum_ints:
  "\<forall>q \<in> set qs. \<exists>n. q = QInt n \<Longrightarrow> qty_sum (QInt a) qs = Inr (QInt (a + sum_list (map qty_amount qs)))"
  by (induction qs arbitrary: a) (auto simp: add.assoc)

lemma total_ints:
  assumes "int_amounts firm dm mlog"
  shows "total_for_dimension firm dm mlog =
     Inr (QInt (sum_list (map (\<lambda>e. qty_amount (me_quantity e)) (metering_for_firm firm (Some dm) mlog))))"
  unfolding total_for_dimension_def
  by (subst qty_sum_ints) (use assms in \<open>auto simp: int_amounts_def comp_def\<close>)

lemma qty_sum_append:
  "qty_sum a (xs @ ys) = res_bind (qty_sum a xs) (\<lambda>b. qty_sum b ys)"
proof (induction xs arbitrary: a)
  case (Cons x xs)
  then show ?case by (cases "qty_add a x") auto
qed simp

lemma total_record:
  "total_for_dimension firm dm (snd (record_metering i now firm' dm' q md mlog)) =
     (if firm = firm' \<and> dm = dm' then res_bind (total_for_dimension firm dm mlog) (\<lambda>t. qty_add t q)
      else total_for_dimension firm dm mlog)"
proof (cases "firm = firm' \<and> dm = dm'")
  case True
  have one: "qty_sum b [q] = qty_add b q" for b by (cases "qty_add b q") simp_all
  from True show ?thesis
    by (simp add: total_for_dimension_def record_metering_def store_defs qty_sum_append Let_def one del: qty_sum.simps)
qed (auto simp: total_for_dimension_def record_metering_def store_defs Let_def)

section \<open>Properties\<close>

lemma plan_of_firm_frame [simp]: "plan_of_firm firm (sh\<lparr>sh_overrides := x\<rparr>) = plan_of_firm firm sh"
  by (simp add: plan_of_firm_def)

text \<open>
  An override is filed for its firm and dimension only: there the limit becomes the base of the
  plan plus the amount, whatever override there was; every other limit is what it was. A negative
  amount is accepted and lowers what the plan grants.
\<close>
theorem override_exact:
  "limit_for firm dm (snd (set_quota_override firm' dm' extra sh)) =
     (if firm = firm' \<and> dm = dm'
      then res_bind (plan_of_firm firm sh) (\<lambda>p. res_bind (base_limit (pl_limits p) dm) (\<lambda>base. Inr (base + extra)))
      else limit_for firm dm sh)"
proof -
  have "dict_get (override_save \<lparr>qo_firm_id = firm', qo_dimension = dm', qo_extra_amount = extra\<rparr> (sh_overrides sh)) (firm, dm) =
     (if firm = firm' \<and> dm = dm' then Some \<lparr>qo_firm_id = firm', qo_dimension = dm', qo_extra_amount = extra\<rparr>
      else dict_get (sh_overrides sh) (firm, dm))"
    by (simp add: override_rows.get_put override_key_def)
  then show ?thesis by (simp add: limit_for_def set_quota_override_def Let_def)
qed

text \<open>A run of requests to start a workflow of one firm: how many pass the gate, and the log after it.\<close>

fun gated_starts :: "pystr \<Rightarrow> shop \<Rightarrow> (pystr \<times> datetime) list \<Rightarrow> metering_log \<Rightarrow> nat \<times> metering_log" where
  "gated_starts firm sh [] mlog = (0, mlog)"
| "gated_starts firm sh ((i, now) # rs) mlog =
     (case workflow_gate firm mlog sh of
        Inl _ \<Rightarrow> gated_starts firm sh rs mlog
      | Inr _ \<Rightarrow> (let (n, mlog') = gated_starts firm sh rs (workflow_started i now firm mlog) in (Suc n, mlog')))"

lemma started_total:
  "total_for_dimension firm MD_WORKFLOWS_EXECUTED mlog = Inr (QInt k) \<Longrightarrow>
     total_for_dimension firm MD_WORKFLOWS_EXECUTED (workflow_started i now firm mlog) = Inr (QInt (k + 1))"
  by (simp add: workflow_started_def total_record)

lemma workflow_gate_limit:
  assumes "total_for_dimension firm MD_WORKFLOWS_EXECUTED mlog = Inr (QInt k)"
    and "limit_for firm QD_WORKFLOWS sh = Inr n"
  shows "workflow_gate firm mlog sh =
     (if k < n then Inr ()
      else Inl workflow_quota_exceeded)"
  using assms by (simp add: workflow_gate_def check_quota_def workflow_quota_exceeded_def)

lemma gated_starts_count:
  assumes "total_for_dimension firm MD_WORKFLOWS_EXECUTED mlog = Inr (QInt k)"
    and "limit_for firm QD_WORKFLOWS sh = Inr n"
  shows "fst (gated_starts firm sh rs mlog) = min (length rs) (nat (n - k)) \<and>
     total_for_dimension firm MD_WORKFLOWS_EXECUTED (snd (gated_starts firm sh rs mlog)) =
       Inr (QInt (k + int (min (length rs) (nat (n - k)))))"
  using assms(1)
proof (induction rs arbitrary: mlog k)
  case (Cons r rs)
  obtain i now where r: "r = (i, now)" by (cases r)
  note gate = workflow_gate_limit [OF Cons.prems assms(2)]
  show ?case
  proof (cases "k < n")
    case True
    note Cons.IH [OF started_total [OF Cons.prems], of i now]
    then show ?thesis using True
      by (auto simp: r gate min_def nat_le_iff nat_diff_distrib split: prod.splits)
  next
    case False
    then show ?thesis using Cons.IH [OF Cons.prems] by (simp add: r gate)
  qed
qed simp

lemma workflow_gate_ungated:
  "plan_of_firm firm sh = Inl (KeyError m) \<Longrightarrow>
     total_for_dimension firm MD_WORKFLOWS_EXECUTED mlog = Inr (QInt k) \<Longrightarrow> workflow_gate firm mlog sh = Inr ()"
  by (simp add: workflow_gate_def check_quota_def limit_for_def)

lemma gated_starts_all:
  assumes "plan_of_firm firm sh = Inl (KeyError m)"
    and "total_for_dimension firm MD_WORKFLOWS_EXECUTED mlog = Inr (QInt k)"
  shows "fst (gated_starts firm sh rs mlog) = length rs"
  using assms(2)
proof (induction rs arbitrary: mlog k)
  case (Cons r rs)
  obtain i now where r: "r = (i, now)" by (cases r)
  show ?case
    using Cons.IH [OF started_total [OF Cons.prems], of i now] workflow_gate_ungated [OF assms(1) Cons.prems]
    by (cases "gated_starts firm sh rs (workflow_started i now firm mlog)") (simp add: r)
qed simp

text \<open>
  C34. The quota on workflows counts executions over the firm's whole life and never resets: of the
  requests of a firm that has executed nothing yet, exactly the first \<open>n\<close> start, \<open>n\<close> the limit of
  its plan with its override, and once those are used up every later request is refused with 429.
  A firm without a subscription starts all of them.
\<close>
theorem workflow_quota_lifetime:
  assumes new: "metering_for_firm firm (Some MD_WORKFLOWS_EXECUTED) mlog = []"
    and run: "gated_starts firm sh rs mlog = (started, mlog')"
  shows "(\<forall>n. limit_for firm QD_WORKFLOWS sh = Inr n \<longrightarrow> started = min (length rs) (nat n) \<and>
      (nat n \<le> length rs \<longrightarrow> workflow_gate firm mlog' sh = Inl workflow_quota_exceeded)) \<and>
    (\<forall>m. plan_of_firm firm sh = Inl (KeyError m) \<longrightarrow> started = length rs)"
proof (intro conjI allI impI)
  have zero: "total_for_dimension firm MD_WORKFLOWS_EXECUTED mlog = Inr (QInt 0)"
    using new by (simp add: total_for_dimension_def)
  fix n assume lim: "limit_for firm QD_WORKFLOWS sh = Inr n"
  note count = gated_starts_count [OF zero lim, of rs]
  show "started = min (length rs) (nat n)" using count run by simp
  assume "nat n \<le> length rs"
  then show "workflow_gate firm mlog' sh = Inl workflow_quota_exceeded"
    using workflow_gate_limit [OF conjunct2 [OF count] lim] run by simp
next
  fix m assume "plan_of_firm firm sh = Inl (KeyError m)"
  from gated_starts_all [OF this, of mlog 0 rs] show "started = length rs"
    using new run by (simp add: total_for_dimension_def)
qed

definition demo_shop :: shop where
  "demo_shop = \<lparr>sh_plans = demo_catalog,
     sh_subscriptions = [(''firm'', \<lparr>sb_id = ''sub-1'', sb_firm_id = ''firm'', sb_plan_id = ''plan-basic-v1'',
        sb_billing_cycle = BC_MONTHLY, sb_status = SS_TRIAL, sb_started_at = 5,
        sb_trial_ends_at = Some (5 + days 14), sb_current_period_end = None, sb_cancelled_at = None\<rparr>)],
     sh_overrides = [((''firm'', QD_WORKFLOWS), \<lparr>qo_firm_id = ''firm'', qo_dimension = QD_WORKFLOWS, qo_extra_amount = - 19\<rparr>)]\<rparr>"

lemma demo_shop_plan: "plan_of_firm ''firm'' demo_shop = get_plan ''plan-basic-v1'' demo_catalog"
  by (simp add: plan_of_firm_def demo_shop_def require_subscription_def)

lemma demo_shop_limit: "limit_for ''firm'' QD_WORKFLOWS demo_shop = Inr 1"
  unfolding limit_for_def demo_shop_plan
  by (simp add: get_plan_def demo_catalog_basic base_limit_def demo_shop_def)

theorem workflow_quota_lifetime_witness:
  "workflow_gate ''firm'' (workflow_started ''e1'' 10 ''firm'' []) demo_shop = Inl workflow_quota_exceeded"
proof -
  have zero: "total_for_dimension ''firm'' MD_WORKFLOWS_EXECUTED [] = Inr (QInt 0)"
    by (simp add: total_for_dimension_def store_defs)
  have run: "gated_starts ''firm'' demo_shop [(''e1'', 10)] [] = (1, workflow_started ''e1'' 10 ''firm'' [])"
    using workflow_gate_limit [OF zero demo_shop_limit] by simp
  show ?thesis
    using workflow_quota_lifetime [OF _ run] demo_shop_limit by (simp add: store_defs)
qed

text \<open>
  Metering an AI call that is costed adds one to the firm's calls and the estimated tokens, at least
  two, to its tokens; no other total of any firm changes, the events recorded before stay in place,
  and exactly one cost entry is added, free of charge on a cache hit.
\<close>
theorem meter_ai_call_exact:
  assumes run: "meter_ai_call fresh firm user provider model prompt response_text cache_hit case_id workflow_id (mlog, c) =
      Inr (event, mlog', c')"
    and calls: "total_for_dimension firm MD_AI_CALLS mlog = Inr (QInt k)"
    and toks: "total_for_dimension firm MD_TOKENS mlog = Inr (QInt t)"
  shows "total_for_dimension firm MD_AI_CALLS mlog' = Inr (QInt (k + 1)) \<and>
    total_for_dimension firm MD_TOKENS mlog' =
      Inr (QInt (t + estimate_tokens prompt + estimate_tokens response_text)) \<and>
    2 \<le> estimate_tokens prompt + estimate_tokens response_text \<and>
    (\<forall>f dm. f \<noteq> firm \<or> dm \<noteq> MD_AI_CALLS \<and> dm \<noteq> MD_TOKENS \<longrightarrow>
       total_for_dimension f dm mlog' = total_for_dimension f dm mlog) \<and>
    (\<exists>a b. mlog' = mlog @ [a, b] \<and> event = b) \<and>
    (\<exists>e. ct_entries c' = ct_entries c @ [e] \<and> ce_firm_id e = firm \<and>
       ce_token_count e = estimate_tokens prompt + estimate_tokens response_text \<and>
       (if cache_hit then Inr (Fin 0) else estimate_cost provider (ce_token_count e)) = Inr (ce_cost_usd e))"
proof -
  obtain ci cn ai an ti tn where fresh: "fresh = ((ci, cn), (ai, an), (ti, tn))" by (metis surj_pair)
  let ?n = "estimate_tokens prompt + estimate_tokens response_text"
  obtain cost where cost: "(if cache_hit then Inr (Fin 0) else estimate_cost provider ?n) = Inr cost"
    using run by (cases "if cache_hit then Inr (Fin 0) else estimate_cost provider ?n")
      (simp_all add: fresh meter_ai_call_def record_usage_def record_cost_def)
  let ?e = "\<lparr>ce_id = ci, ce_firm_id = firm, ce_user_id = user, ce_case_id = case_id, ce_workflow_id = workflow_id,
    ce_provider = provider, ce_model = model, ce_token_count = ?n, ce_cost_usd = cost, ce_cache_hit = cache_hit,
    ce_recorded_at = cn\<rparr>"
  let ?md = "[(''provider'', provider), (''model'', model)]"
  let ?l1 = "snd (record_metering ai an firm MD_AI_CALLS (QInt 1) ?md mlog)"
  have mlog': "mlog' = snd (record_metering ti tn firm MD_TOKENS (QInt ?n) ?md ?l1)"
    and event: "event = fst (record_metering ti tn firm MD_TOKENS (QInt ?n) ?md ?l1)" and c': "c' = cost_save ?e c"
    using run cost by (auto simp: fresh meter_ai_call_def record_usage_def record_cost_def record_metering_def Let_def)
  have "\<exists>a b. mlog' = mlog @ [a, b] \<and> event = b"
    by (simp add: mlog' event record_metering_def store_defs Let_def)
  moreover have "2 \<le> ?n" by (simp add: estimate_tokens_def max_def)
  moreover have "ct_entries c' = ct_entries c @ [?e]" by (simp add: c' store_defs)
  ultimately show ?thesis using calls toks cost
    by (auto simp: mlog' total_record add.assoc simp del: One_nat_def)
qed

theorem meter_ai_call_exact_witness:
  "\<exists>e l c'. meter_ai_call ((''c'', 1), (''a'', 2), (''t'', 3)) ''firm'' ''u'' ''openai'' ''m'' ''hello world'' ''ok'' True
       None None ([], \<lparr>ct_entries = [], ct_thresholds = []\<rparr>) = Inr (e, l, c') \<and>
     total_for_dimension ''firm'' MD_AI_CALLS l = Inr (QInt 1) \<and> total_for_dimension ''firm'' MD_TOKENS l = Inr (QInt 3)"
proof -
  let ?c = "\<lparr>ct_entries = [], ct_thresholds = []\<rparr>"
  have words: "estimate_tokens ''hello world'' = 2" "estimate_tokens ''ok'' = 1"
    by (simp_all add: estimate_tokens_def is_space_def code_def)
  obtain e l c' where run: "meter_ai_call ((''c'', 1), (''a'', 2), (''t'', 3)) ''firm'' ''u'' ''openai'' ''m'' ''hello world'' ''ok'' True
       None None ([], ?c) = Inr (e, l, c')"
    by (simp add: meter_ai_call_def record_usage_def record_cost_def record_metering_def store_defs Let_def)
  have none: "total_for_dimension ''firm'' dm [] = Inr (QInt 0)" for dm
    by (simp add: total_for_dimension_def store_defs)
  show ?thesis
    using run meter_ai_call_exact [OF run none none] by (intro exI [of _ e] exI [of _ l] exI [of _ c'] conjI) (simp_all add: words)
qed

lemma check_threshold_iff:
  "b \<in> set (check_threshold now firm c t) \<longleftrightarrow>
     (at_scope t = ''firm'' \<and> at_scope_id t = firm \<or> at_scope t = ''user'') \<and>
     cb_threshold b = t \<and> cb_checked_at b = now \<and> flt_less (at_max_cost_usd t) (cb_current_cost_usd b) \<and>
     cb_current_cost_usd b = flt_sum (map ce_cost_usd (filter (\<lambda>e. now - days (at_period_days t) \<le> ce_recorded_at e)
       (if at_scope t = ''firm'' then costs_for_firm c firm else costs_for_user c (at_scope_id t))))"
  by (cases b) (auto simp: check_threshold_def Let_def)

text \<open>
  A breach is reported for exactly the thresholds of the firm, and of any user, whose entries of the
  period sum above the ceiling. The thresholds of users are checked whatever firm is asked for: two
  firms are told the same breaches of users, of their own or not.
\<close>
theorem cost_breaches_exact:
  "(b \<in> set (check_thresholds now firm c) \<longleftrightarrow>
     (let t = cb_threshold b;
          scoped = (if at_scope t = ''firm'' then costs_for_firm c firm else costs_for_user c (at_scope_id t))
      in t \<in> set (dict_values (ct_thresholds c)) \<and>
         (at_scope t = ''firm'' \<and> at_scope_id t = firm \<or> at_scope t = ''user'') \<and> cb_checked_at b = now \<and>
         flt_less (at_max_cost_usd t) (cb_current_cost_usd b) \<and>
         cb_current_cost_usd b =
           flt_sum (map ce_cost_usd (filter (\<lambda>e. now - days (at_period_days t) \<le> ce_recorded_at e) scoped)))) \<and>
   filter (\<lambda>b. at_scope (cb_threshold b) = ''user'') (check_thresholds now firm c) =
     filter (\<lambda>b. at_scope (cb_threshold b) = ''user'') (check_thresholds now firm' c)"
proof
  have user: "filter (\<lambda>b. at_scope (cb_threshold b) = ''user'') (check_threshold now firm c t) =
      filter (\<lambda>b. at_scope (cb_threshold b) = ''user'') (check_threshold now firm' c t)" for t
    by (simp add: check_threshold_def Let_def)
  show "filter (\<lambda>b. at_scope (cb_threshold b) = ''user'') (check_thresholds now firm c) =
     filter (\<lambda>b. at_scope (cb_threshold b) = ''user'') (check_thresholds now firm' c)"
    by (simp add: check_thresholds_def filter_concat comp_def user)
  have "b \<in> set (check_thresholds now firm c) \<longleftrightarrow>
      (\<exists>t \<in> set (dict_values (ct_thresholds c)). b \<in> set (check_threshold now firm c t))"
    by (simp add: check_thresholds_def)
  also have "\<dots> \<longleftrightarrow> cb_threshold b \<in> set (dict_values (ct_thresholds c)) \<and>
      b \<in> set (check_threshold now firm c (cb_threshold b))"
    unfolding check_threshold_iff by blast
  finally show "b \<in> set (check_thresholds now firm c) \<longleftrightarrow>
     (let t = cb_threshold b;
          scoped = (if at_scope t = ''firm'' then costs_for_firm c firm else costs_for_user c (at_scope_id t))
      in t \<in> set (dict_values (ct_thresholds c)) \<and>
         (at_scope t = ''firm'' \<and> at_scope_id t = firm \<or> at_scope t = ''user'') \<and> cb_checked_at b = now \<and>
         flt_less (at_max_cost_usd t) (cb_current_cost_usd b) \<and>
         cb_current_cost_usd b =
           flt_sum (map ce_cost_usd (filter (\<lambda>e. now - days (at_period_days t) \<le> ce_recorded_at e) scoped)))"
    by (simp only: check_threshold_iff Let_def simp_thms conj_ac)
qed

text \<open>
  A module is activated only when the firm's plan offers it; it is then active until it is
  deactivated, whatever becomes of the plan: after a downgrade it stays active although it is no
  longer available. Deactivating always works, and no other module or firm is affected.
\<close>
theorem module_activation_exact:
  assumes "activate_module now firm m sh s = Inr (a, s')"
  shows "module_is_available firm m sh = Inr True \<and>
    (\<forall>sh'. module_is_active firm m sh' s' = Inr True) \<and>
    (\<forall>sh' t. module_is_active firm m sh' (snd (deactivate_module t firm m s')) = Inr False) \<and>
    (\<forall>sh' f m'. (f, m') \<noteq> (firm, m) \<longrightarrow>
       module_is_active f m' sh' s' = module_is_active f m' sh' s \<and>
       (\<forall>t. module_is_active f m' sh' (snd (deactivate_module t firm m s)) = module_is_active f m' sh' s))"
proof -
  have avail: "module_is_available firm m sh = Inr True"
    and s': "s' = activation_save \<lparr>ma_firm_id = firm, ma_module = m, ma_active = True, ma_updated_at = now\<rparr> s"
    using assms by (auto simp: activate_module_def res_bind_Inr_iff Let_def split: if_splits)
  show ?thesis
    by (auto simp: avail s' module_is_active_def deactivate_module_def Let_def activation_rows.get_put activation_key_def)
qed

definition documents_shop :: shop where
  "documents_shop = demo_shop\<lparr>sh_plans := [(''plan-basic-v1'', \<lparr>pl_id = ''plan-basic-v1'', pl_name = PN_BASIC, pl_version = 1,
     pl_limits = default_limits PN_BASIC, pl_features = {''documents''}, pl_monthly_price_usd = Fin 49,
     pl_annual_price_usd = Fin 490, pl_active = True, pl_created_at = 0\<rparr>)]\<rparr>"

theorem module_activation_exact_witness:
  "module_is_available ''firm'' TM_DOCUMENT_INTELLIGENCE demo_shop = Inr False \<and>
   module_is_active ''firm'' TM_DOCUMENT_INTELLIGENCE demo_shop
     (activation_save \<lparr>ma_firm_id = ''firm'', ma_module = TM_DOCUMENT_INTELLIGENCE, ma_active = True, ma_updated_at = 7\<rparr> []) =
     Inr True"
proof -
  have plan: "plan_of_firm ''firm'' documents_shop = get_plan ''plan-basic-v1'' (sh_plans documents_shop)"
    by (simp add: plan_of_firm_def documents_shop_def demo_shop_def require_subscription_def)
  have "module_is_available ''firm'' TM_DOCUMENT_INTELLIGENCE documents_shop = Inr True"
    by (simp add: module_is_available_def plan) (simp add: get_plan_def documents_shop_def plan_store_get_def)
  then have run: "\<exists>a. activate_module 7 ''firm'' TM_DOCUMENT_INTELLIGENCE documents_shop [] = Inr (a,
      activation_save \<lparr>ma_firm_id = ''firm'', ma_module = TM_DOCUMENT_INTELLIGENCE, ma_active = True, ma_updated_at = 7\<rparr> [])"
    by (simp add: activate_module_def Let_def)
  have "module_is_available ''firm'' TM_DOCUMENT_INTELLIGENCE demo_shop = Inr False"
    by (simp add: module_is_available_def demo_shop_plan get_plan_def demo_catalog_basic)
  moreover obtain a where "activate_module 7 ''firm'' TM_DOCUMENT_INTELLIGENCE documents_shop [] = Inr (a,
      activation_save \<lparr>ma_firm_id = ''firm'', ma_module = TM_DOCUMENT_INTELLIGENCE, ma_active = True, ma_updated_at = 7\<rparr> [])"
    using run by blast
  note module_activation_exact [OF this]
  ultimately show ?thesis by blast
qed

end
