(* ===== verification/Licensing.thy ===== *)
theory Licensing
  imports Licences Journals
begin

text \<open>
  The licence of a firm, \<^verbatim>\<open>platform/licensing\<close>: issued and renewed as a signed key, and asked for
  features and seats. The signer is that of \<open>Licences\<close>. Validation of a key presented by a client,
  which parses a time of any ISO 8601 form, is left out.
\<close>

section \<open>Licences of a firm\<close>

datatype plan_tier = PT_SOLO | PT_CABINET | PT_ENTERPRISE

fun plan_tier_value :: "plan_tier \<Rightarrow> pystr" where
  "plan_tier_value PT_SOLO = ''solo''"
| "plan_tier_value PT_CABINET = ''cabinet''"
| "plan_tier_value PT_ENTERPRISE = ''enterprise''"

fun features_for_plan :: "plan_tier \<Rightarrow> pystr set" where
  "features_for_plan PT_SOLO = {''cases'', ''documents'', ''ai_assist''}"
| "features_for_plan PT_CABINET = {''cases'', ''documents'', ''ai_assist'', ''collaboration'', ''billing''}"
| "features_for_plan PT_ENTERPRISE =
     {''cases'', ''documents'', ''ai_assist'', ''collaboration'', ''billing'', ''sso'', ''advanced_reporting'', ''audit_export''}"

fun default_seats_for_plan :: "plan_tier \<Rightarrow> int" where
  "default_seats_for_plan PT_SOLO = 1"
| "default_seats_for_plan PT_CABINET = 10"
| "default_seats_for_plan PT_ENTERPRISE = 100"

record firm_license =
  fl_id :: pystr
  fl_firm_id :: pystr
  fl_plan :: plan_tier
  fl_seats :: int
  fl_features :: "pystr set"
  fl_issued_at :: datetime
  fl_expires_at :: datetime
  fl_key :: pystr
  fl_renewed_at :: "datetime option"

definition license_is_expired :: "datetime \<Rightarrow> firm_license \<Rightarrow> bool" where
  "license_is_expired now l \<longleftrightarrow> fl_expires_at l < now"

type_synonym license_store = "(pystr, firm_license) dict"

definition license_save :: "firm_license \<Rightarrow> license_store \<Rightarrow> license_store" where
  [store_defs]: "license_save l s = dict_set (fl_id l) l s"

definition license_for_firm :: "pystr \<Rightarrow> license_store \<Rightarrow> firm_license option" where
  "license_for_firm firm s = List.find (\<lambda>l. fl_firm_id l = firm) (dict_values s)"

interpretation license_rows: keyed_store fl_id license_save dict_get "keyed fl_id"
  using keyed_store_dict [of fl_id] by (simp add: license_save_def [abs_def])

definition encode_license :: "pystr \<Rightarrow> pystr \<Rightarrow> plan_tier \<Rightarrow> datetime \<Rightarrow> pystr" where
  "encode_license license_id firm tier expires_at =
     license_id @ ''|'' @ firm @ ''|'' @ plan_tier_value tier @ ''|'' @ isoformat_utc expires_at"

definition issue_license ::
    "(pystr \<Rightarrow> pystr) \<Rightarrow> pystr \<Rightarrow> datetime \<Rightarrow> pystr \<Rightarrow> plan_tier \<Rightarrow> int \<Rightarrow> license_store \<Rightarrow> firm_license \<times> license_store" where
  "issue_license mac license_id issued_at firm tier duration_days s =
     (let expires_at = issued_at + days duration_days;
          l = \<lparr>fl_id = license_id, fl_firm_id = firm, fl_plan = tier, fl_seats = default_seats_for_plan tier,
               fl_features = features_for_plan tier, fl_issued_at = issued_at, fl_expires_at = expires_at,
               fl_key = sign_payload mac (encode_license license_id firm tier expires_at), fl_renewed_at = None\<rparr>
      in (l, license_save l s))"

definition renew_license ::
    "(pystr \<Rightarrow> pystr) \<Rightarrow> datetime \<Rightarrow> pystr \<Rightarrow> int \<Rightarrow> license_store \<Rightarrow> (firm_license \<times> license_store) result" where
  "renew_license mac now firm extension_days s =
     (case license_for_firm firm s of
        None \<Rightarrow> Inl (ValueError (''no license on file for firm '' @ firm))
      | Some l \<Rightarrow>
          let new_expiry = max (fl_expires_at l) now + days extension_days;
              renewed = l\<lparr>fl_expires_at := new_expiry,
                          fl_key := sign_payload mac (encode_license (fl_id l) firm (fl_plan l) new_expiry),
                          fl_renewed_at := Some now\<rparr>
          in Inr (renewed, license_save renewed s))"

definition license_has_feature :: "pystr \<Rightarrow> pystr \<Rightarrow> license_store \<Rightarrow> bool" where
  "license_has_feature firm feature s =
     (case license_for_firm firm s of None \<Rightarrow> False | Some l \<Rightarrow> feature \<in> fl_features l)"

definition seats_remaining :: "pystr \<Rightarrow> int \<Rightarrow> license_store \<Rightarrow> int" where
  "seats_remaining firm in_use s =
     (case license_for_firm firm s of None \<Rightarrow> 0 | Some l \<Rightarrow> max 0 (fl_seats l - in_use))"

section \<open>Reachable licence files\<close>

inductive license_reachable :: "(pystr \<Rightarrow> pystr) \<Rightarrow> license_store \<Rightarrow> bool" for mac where
  no_license: "license_reachable mac []"
| license_issued: "license_reachable mac s \<Longrightarrow> issue_license mac i now firm tier n s = (l, s') \<Longrightarrow> license_reachable mac s'"
| license_renewed: "license_reachable mac s \<Longrightarrow> renew_license mac now firm n s = Inr (l, s') \<Longrightarrow> license_reachable mac s'"

definition license_ok :: "(pystr \<Rightarrow> pystr) \<Rightarrow> firm_license \<Rightarrow> bool" where
  "license_ok mac l \<longleftrightarrow> fl_seats l = default_seats_for_plan (fl_plan l) \<and> fl_features l = features_for_plan (fl_plan l) \<and>
     fl_key l = sign_payload mac (encode_license (fl_id l) (fl_firm_id l) (fl_plan l) (fl_expires_at l))"

lemma find_member: "List.find P xs = Some x \<Longrightarrow> x \<in> set xs \<and> P x"
  by (induction xs) (auto split: if_splits)

lemma license_for_firm_member: "license_for_firm firm s = Some l \<Longrightarrow> l \<in> set (dict_values s) \<and> fl_firm_id l = firm"
  unfolding license_for_firm_def by (rule find_member)

lemma dict_set_values: "x \<in> set (dict_values (dict_set k v d)) \<Longrightarrow> x = v \<or> x \<in> set (dict_values d)"
  by (induction d) (auto split: if_splits)

lemma license_values_save: "x \<in> set (dict_values (license_save l s)) \<Longrightarrow> x = l \<or> x \<in> set (dict_values s)"
  unfolding license_save_def by (rule dict_set_values)

lemma license_reachable_ok:
  "license_reachable mac s \<Longrightarrow> keyed fl_id s \<and> (\<forall>l \<in> set (dict_values s). license_ok mac l)"
proof (induction rule: license_reachable.induct)
  case (license_issued s i now firm tier n l s')
  then have "license_ok mac l" and "s' = license_save l s"
    by (auto simp: issue_license_def license_ok_def Let_def)
  then show ?case
    using license_issued.IH license_values_save license_rows.wf_put by metis
next
  case (license_renewed s now firm n l s')
  obtain old where old: "license_for_firm firm s = Some old"
    using license_renewed.hyps(2) by (auto simp: renew_license_def split: option.splits)
  then have "license_ok mac old" and "fl_firm_id old = firm"
    using license_renewed.IH license_for_firm_member by blast+
  then have "license_ok mac l" and "s' = license_save l s"
    using license_renewed.hyps(2) old by (auto simp: renew_license_def license_ok_def Let_def)
  then show ?case
    using license_renewed.IH license_values_save license_rows.wf_put by metis
qed simp

lemma find_append_Some: "List.find P xs = Some x \<Longrightarrow> List.find P (xs @ ys) = Some x"
  by (induction xs) (auto split: if_splits)

lemma license_reachable_no_enterprise:
  assumes "license_reachable mac s"
  shows "\<not> license_has_feature firm ''enterprise_ai_models'' s"
proof (cases "license_for_firm firm s")
  case (Some l)
  then have "license_ok mac l" using license_reachable_ok [OF assms] license_for_firm_member by blast
  moreover have "''enterprise_ai_models'' \<notin> features_for_plan (fl_plan l)" by (cases "fl_plan l") simp_all
  ultimately show ?thesis by (simp add: license_has_feature_def license_ok_def Some)
qed (simp add: license_has_feature_def)

text \<open>
  In every reachable file a licence has the seats and features of its plan and its key signs its own
  data. A firm is served by its oldest licence: a licence issued to a firm that has one, of a higher
  plan for instance, changes neither its features nor its seats. No plan has the feature
  \<open>enterprise_ai_models\<close>, which the governance of models asks for.
\<close>
theorem license_features_exact:
  assumes "license_reachable mac s"
  shows "(\<forall>firm l. license_for_firm firm s = Some l \<longrightarrow>
      fl_key l = sign_payload mac (encode_license (fl_id l) firm (fl_plan l) (fl_expires_at l)) \<and>
      (\<forall>f. license_has_feature firm f s \<longleftrightarrow> f \<in> features_for_plan (fl_plan l)) \<and>
      (\<forall>n. seats_remaining firm n s = max 0 (default_seats_for_plan (fl_plan l) - n)) \<and>
      (\<forall>i now tier n. dict_get s i = None \<longrightarrow>
         license_for_firm firm (snd (issue_license mac i now firm tier n s)) = Some l)) \<and>
    (\<forall>firm. \<not> license_has_feature firm ''enterprise_ai_models'' s)"
proof -
  note ok = license_reachable_ok [OF assms]
  have "license_has_feature firm f s \<longleftrightarrow> f \<in> features_for_plan (fl_plan l)"
    "seats_remaining firm n s = max 0 (default_seats_for_plan (fl_plan l) - n)"
    "fl_key l = sign_payload mac (encode_license (fl_id l) firm (fl_plan l) (fl_expires_at l))"
    if l: "license_for_firm firm s = Some l" for firm l f n
  proof -
    have "license_ok mac l" and "fl_firm_id l = firm" using ok license_for_firm_member [OF l] by blast+
    then show "license_has_feature firm f s \<longleftrightarrow> f \<in> features_for_plan (fl_plan l)"
      "seats_remaining firm n s = max 0 (default_seats_for_plan (fl_plan l) - n)"
      "fl_key l = sign_payload mac (encode_license (fl_id l) firm (fl_plan l) (fl_expires_at l))"
      using l by (simp_all add: license_has_feature_def seats_remaining_def license_ok_def)
  qed
  moreover have "license_for_firm firm (snd (issue_license mac i now firm tier n s)) = Some l"
    if "license_for_firm firm s = Some l" and fresh: "dict_get s i = None" for firm l i now tier n
    using that(1)
    by (simp add: issue_license_def Let_def license_save_def dict_set_fresh [OF fresh] license_for_firm_def find_append_Some)
  moreover note license_reachable_no_enterprise [OF assms]
  ultimately show ?thesis by blast
qed

theorem license_features_exact_witness:
  "license_for_firm ''f'' (snd (issue_license (\<lambda>x. x) ''l2'' 9 ''f'' PT_ENTERPRISE 365
      (snd (issue_license (\<lambda>x. x) ''l1'' 5 ''f'' PT_SOLO 365 [])))) =
     Some (fst (issue_license (\<lambda>x. x) ''l1'' 5 ''f'' PT_SOLO 365 [])) \<and>
   \<not> license_has_feature ''f'' ''enterprise_ai_models'' (snd (issue_license (\<lambda>x. x) ''l1'' 5 ''f'' PT_SOLO 365 []))"
proof -
  let ?i = "issue_license (\<lambda>x. x) ''l1'' 5 ''f'' PT_SOLO 365 []"
  have "license_reachable (\<lambda>x. x) (snd ?i)"
    by (rule license_issued [OF no_license, of _ "''l1''" 5 "''f''" PT_SOLO 365 "fst ?i"]) simp
  from license_features_exact [OF this] show ?thesis
    by (simp add: issue_license_def license_for_firm_def license_save_def Let_def)
qed

end
