(* ===== verification/Fabric.thy ===== *)
theory Fabric
  imports Quotas Licensing "HOL-Library.Product_Lexorder"
begin

text \<open>
  The model fabric of \<^verbatim>\<open>ai_fabric\<close>: the registry of models, the governance policies, the router
  with its quota, the planner, and the selections of the fallback, cost and latency optimisers. The
  French sentences of a \<open>reasons\<close> list are values that name the sentence and carry what is
  formatted into it.
\<close>

section \<open>Models\<close>

datatype capability =
  CA_TEXT_COMPLETION | CA_EMBEDDINGS | CA_OCR | CA_VISION | CA_STREAMING | CA_FUNCTION_CALLING | CA_LONG_CONTEXT

datatype model_profile =
  MP_REASONING | MP_DRAFTING | MP_TRANSLATION | MP_SYNTHESIS | MP_CODE | MP_OCR | MP_VISION | MP_EMBEDDINGS
| MP_CLASSIFICATION

fun default_capabilities_for_profile :: "model_profile \<Rightarrow> capability set" where
  "default_capabilities_for_profile MP_REASONING = {CA_TEXT_COMPLETION, CA_LONG_CONTEXT}"
| "default_capabilities_for_profile MP_DRAFTING = {CA_TEXT_COMPLETION}"
| "default_capabilities_for_profile MP_TRANSLATION = {CA_TEXT_COMPLETION}"
| "default_capabilities_for_profile MP_SYNTHESIS = {CA_TEXT_COMPLETION, CA_LONG_CONTEXT}"
| "default_capabilities_for_profile MP_CODE = {CA_TEXT_COMPLETION, CA_FUNCTION_CALLING}"
| "default_capabilities_for_profile MP_OCR = {CA_OCR}"
| "default_capabilities_for_profile MP_VISION = {CA_VISION}"
| "default_capabilities_for_profile MP_EMBEDDINGS = {CA_EMBEDDINGS}"
| "default_capabilities_for_profile MP_CLASSIFICATION = {CA_TEXT_COMPLETION}"

record model_descriptor =
  mo_name :: pystr
  mo_version :: pystr
  mo_provider :: pystr
  mo_cost_per_1k_tokens_usd :: pyfloat
  mo_avg_latency_ms :: pyfloat
  mo_max_context_tokens :: int
  mo_capabilities :: "capability set"
  mo_profiles :: "model_profile set"
  mo_availability :: bool
  mo_quality_score :: pyfloat
  mo_legal_score :: pyfloat
  mo_drafting_score :: pyfloat
  mo_research_score :: pyfloat
  mo_reasoning_score :: pyfloat

type_synonym model_registry = "(pystr, model_descriptor) dict"

definition register_model :: "model_descriptor \<Rightarrow> model_registry \<Rightarrow> model_registry" where
  [store_defs]: "register_model m r = dict_set (mo_name m) m r"

definition get_model :: "model_registry \<Rightarrow> pystr \<Rightarrow> model_descriptor option" where
  [store_defs]: "get_model r name = dict_get r name"

definition list_models :: "model_registry \<Rightarrow> model_descriptor list" where
  "list_models r = dict_values r"

definition models_by_capability :: "capability \<Rightarrow> model_registry \<Rightarrow> model_descriptor list" where
  "models_by_capability ca r = filter (\<lambda>m. ca \<in> mo_capabilities m) (dict_values r)"

definition models_by_profile :: "model_profile \<Rightarrow> model_registry \<Rightarrow> model_descriptor list" where
  "models_by_profile pr r = filter (\<lambda>m. pr \<in> mo_profiles m) (dict_values r)"

definition set_availability :: "pystr \<Rightarrow> bool \<Rightarrow> model_registry \<Rightarrow> model_registry" where
  "set_availability name available r =
     (case get_model r name of
        None \<Rightarrow> r
      | Some m \<Rightarrow> dict_set name (m\<lparr>mo_availability := available\<rparr>) r)"

interpretation model_rows: keyed_store mo_name register_model get_model "keyed mo_name"
  using keyed_store_dict [of mo_name] by (simp add: register_model_def [abs_def] get_model_def [abs_def])

abbreviation hundredths :: "rat \<Rightarrow> pyfloat" where
  "hundredths n \<equiv> round64 (n / 100)"

definition default_models :: "model_descriptor list" where
  "default_models =
   [\<lparr>mo_name = ''gpt-4-legal'', mo_version = ''2024-08'', mo_provider = ''openai'',
     mo_cost_per_1k_tokens_usd = hundredths 3, mo_avg_latency_ms = Fin 1200, mo_max_context_tokens = 128000,
     mo_capabilities = {CA_TEXT_COMPLETION, CA_FUNCTION_CALLING, CA_LONG_CONTEXT},
     mo_profiles = {MP_REASONING, MP_DRAFTING, MP_SYNTHESIS}, mo_availability = True,
     mo_quality_score = hundredths 90, mo_legal_score = hundredths 85, mo_drafting_score = hundredths 88,
     mo_research_score = hundredths 80, mo_reasoning_score = hundredths 87\<rparr>,
    \<lparr>mo_name = ''claude-legal'', mo_version = ''4.5'', mo_provider = ''anthropic'',
     mo_cost_per_1k_tokens_usd = round64 (24 / 1000), mo_avg_latency_ms = Fin 1000, mo_max_context_tokens = 200000,
     mo_capabilities = {CA_TEXT_COMPLETION, CA_LONG_CONTEXT, CA_STREAMING},
     mo_profiles = {MP_REASONING, MP_DRAFTING, MP_SYNTHESIS}, mo_availability = True,
     mo_quality_score = hundredths 91, mo_legal_score = hundredths 88, mo_drafting_score = hundredths 90,
     mo_research_score = hundredths 82, mo_reasoning_score = hundredths 90\<rparr>,
    \<lparr>mo_name = ''mistral-fast'', mo_version = ''large-2'', mo_provider = ''mistral'',
     mo_cost_per_1k_tokens_usd = round64 (2 / 1000), mo_avg_latency_ms = Fin 400, mo_max_context_tokens = 32000,
     mo_capabilities = {CA_TEXT_COMPLETION}, mo_profiles = {MP_CLASSIFICATION, MP_TRANSLATION}, mo_availability = True,
     mo_quality_score = hundredths 65, mo_legal_score = hundredths 55, mo_drafting_score = hundredths 55,
     mo_research_score = hundredths 55, mo_reasoning_score = hundredths 55\<rparr>,
    \<lparr>mo_name = ''local-ocr'', mo_version = ''1.0'', mo_provider = ''local'',
     mo_cost_per_1k_tokens_usd = Fin 0, mo_avg_latency_ms = Fin 2000, mo_max_context_tokens = 4000,
     mo_capabilities = {CA_OCR}, mo_profiles = {MP_OCR}, mo_availability = True,
     mo_quality_score = hundredths 70, mo_legal_score = hundredths 50, mo_drafting_score = hundredths 30,
     mo_research_score = hundredths 40, mo_reasoning_score = hundredths 30\<rparr>,
    \<lparr>mo_name = ''local-vision'', mo_version = ''1.0'', mo_provider = ''local'',
     mo_cost_per_1k_tokens_usd = Fin 0, mo_avg_latency_ms = Fin 2500, mo_max_context_tokens = 4000,
     mo_capabilities = {CA_VISION}, mo_profiles = {MP_VISION}, mo_availability = True,
     mo_quality_score = hundredths 68, mo_legal_score = hundredths 45, mo_drafting_score = hundredths 30,
     mo_research_score = hundredths 40, mo_reasoning_score = hundredths 30\<rparr>,
    \<lparr>mo_name = ''embed-small'', mo_version = ''3-small'', mo_provider = ''openai'',
     mo_cost_per_1k_tokens_usd = round64 (1 / 10000), mo_avg_latency_ms = Fin 200, mo_max_context_tokens = 8000,
     mo_capabilities = {CA_EMBEDDINGS}, mo_profiles = {MP_EMBEDDINGS}, mo_availability = True,
     mo_quality_score = hundredths 75, mo_legal_score = hundredths 50, mo_drafting_score = hundredths 20,
     mo_research_score = hundredths 60, mo_reasoning_score = hundredths 20\<rparr>]"

definition seed_default_models :: "model_registry \<Rightarrow> model_registry" where
  "seed_default_models r = fold register_model default_models r"

section \<open>Governance\<close>

datatype policy_type = PY_MODEL_FORBIDDEN | PY_ENTERPRISE_ONLY | PY_COUNTRY_RESTRICTED | PY_DATA_TYPE_RESTRICTED

record model_policy =
  mp_id :: pystr
  mp_type :: policy_type
  mp_model_name :: pystr
  mp_reason :: pystr
  mp_allowed_countries :: "pystr set option"
  mp_allowed_data_types :: "pystr set option"
  mp_active :: bool

type_synonym model_policies = "(pystr, model_policy) dict"

definition add_model_policy :: "model_policy \<Rightarrow> model_policies \<Rightarrow> model_policies" where
  [store_defs]: "add_model_policy p ps = dict_set (mp_id p) p ps"

definition policies_for_model :: "pystr \<Rightarrow> model_policies \<Rightarrow> model_policy list" where
  "policies_for_model name ps =
     filter (\<lambda>p. mp_active p \<and> (mp_model_name p = name \<or> mp_model_name p = ''*'')) (dict_values ps)"

definition list_model_policies :: "model_policies \<Rightarrow> model_policy list" where
  "list_model_policies ps = dict_values ps"

definition deactivate_model_policy :: "pystr \<Rightarrow> model_policies \<Rightarrow> model_policies" where
  "deactivate_model_policy i ps =
     (case dict_get ps i of None \<Rightarrow> ps | Some p \<Rightarrow> dict_set i (p\<lparr>mp_active := False\<rparr>) ps)"

interpretation model_policy_rows: keyed_store mp_id add_model_policy dict_get "keyed mp_id"
  using keyed_store_dict [of mp_id] by (simp add: add_model_policy_def [abs_def])

datatype governance_reason =
    Modele_interdit pystr
  | Reserve_enterprise pystr
  | Pays_non_autorise "pystr option" pystr
  | Donnees_non_autorisees "pystr option" pystr
  | Aucune_politique

record model_decision =
  gd_id :: pystr
  gd_firm_id :: pystr
  gd_model_name :: pystr
  gd_allowed :: bool
  gd_reasons :: "governance_reason list"
  gd_created_at :: datetime

type_synonym decision_log = "model_decision list"

definition decision_append :: "model_decision \<Rightarrow> decision_log \<Rightarrow> decision_log" where
  [store_defs]: "decision_append d ds = ds @ [d]"

definition decision_history :: "pystr \<times> pystr \<Rightarrow> decision_log \<Rightarrow> model_decision list" where
  [store_defs]: "decision_history k ds = filter (\<lambda>d. (gd_firm_id d, gd_model_name d) = k) ds"

interpretation decision_journal: journal decision_append "\<lambda>ds. ds" "\<lambda>d. (gd_firm_id d, gd_model_name d)"
    "\<lambda>ds k. decision_history k ds"
  by unfold_locales (auto simp: store_defs)

definition in_option :: "pystr option \<Rightarrow> pystr set option \<Rightarrow> bool" where
  "in_option x A = (case x of None \<Rightarrow> False | Some v \<Rightarrow> v \<in> (case A of None \<Rightarrow> {} | Some B \<Rightarrow> B))"

fun apply_policies ::
    "pystr \<Rightarrow> pystr option \<Rightarrow> pystr option \<Rightarrow> license_store \<Rightarrow> model_policy list \<Rightarrow> bool \<times> governance_reason list
       \<Rightarrow> bool \<times> governance_reason list" where
  "apply_policies firm country data_type lics [] (allowed, reasons) = (allowed, reasons)"
| "apply_policies firm country data_type lics (p # ps) (allowed, reasons) =
     apply_policies firm country data_type lics ps
       (case mp_type p of
          PY_MODEL_FORBIDDEN \<Rightarrow> (False, reasons @ [Modele_interdit (mp_reason p)])
        | PY_ENTERPRISE_ONLY \<Rightarrow>
            if \<not> license_has_feature firm ''enterprise_ai_models'' lics
            then (False, reasons @ [Reserve_enterprise (mp_reason p)]) else (allowed, reasons)
        | PY_COUNTRY_RESTRICTED \<Rightarrow>
            if \<not> in_option country (mp_allowed_countries p)
            then (False, reasons @ [Pays_non_autorise country (mp_reason p)]) else (allowed, reasons)
        | PY_DATA_TYPE_RESTRICTED \<Rightarrow>
            if \<not> in_option data_type (mp_allowed_data_types p)
            then (False, reasons @ [Donnees_non_autorisees data_type (mp_reason p)]) else (allowed, reasons))"

text \<open>The decision, and the journal with the decision unless \<open>record\<close> is false.\<close>

definition evaluate_governance ::
    "pystr \<Rightarrow> datetime \<Rightarrow> pystr \<Rightarrow> pystr \<Rightarrow> pystr option \<Rightarrow> pystr option \<Rightarrow> bool \<Rightarrow> model_policies \<Rightarrow> license_store
       \<Rightarrow> decision_log \<Rightarrow> model_decision \<times> decision_log" where
  "evaluate_governance new_id now firm name country data_type recorded ps lics ds =
     (let (allowed, reasons0) = apply_policies firm country data_type lics (policies_for_model name ps) (True, []);
          reasons = (if reasons0 = [] then [Aucune_politique] else reasons0);
          d = \<lparr>gd_id = new_id, gd_firm_id = firm, gd_model_name = name, gd_allowed = allowed,
               gd_reasons = reasons, gd_created_at = now\<rparr>
      in (d, if recorded then decision_append d ds else ds))"

section \<open>The router\<close>

record routing_request =
  rr_firm_id :: pystr
  rr_task_type :: pystr
  rr_prompt :: pystr
  rr_profile :: "model_profile option"
  rr_target_cost_usd :: "pyfloat option"
  rr_max_latency_ms :: "pyfloat option"
  rr_min_quality_score :: pyfloat
  rr_country :: "pystr option"
  rr_data_type :: "pystr option"

datatype routing_reason =
    Associes_au_profil nat "model_profile option"
  | Disponibles nat
  | Au_dessus_qualite nat pyfloat
  | Sous_cout_cible nat pyfloat
  | Sous_temps_maximal nat pyfloat
  | Exclu_par_gouvernance pystr "governance_reason list"
  | Modele_retenu pystr pyfloat pyfloat pyfloat

record routing_decision =
  rd_model :: model_descriptor
  rd_reasons :: "routing_reason list"

datatype routing_error = NoEligibleModelError routing_request "routing_reason list" | QuotaExceededError pystr

definition filter_available :: "model_descriptor list \<Rightarrow> routing_reason list \<Rightarrow> model_descriptor list \<times> routing_reason list" where
  "filter_available cs rs =
     (let fs = filter mo_availability cs in (fs, rs @ [Disponibles (length fs)]))"

definition filter_quality ::
    "pyfloat \<Rightarrow> model_descriptor list \<Rightarrow> routing_reason list \<Rightarrow> model_descriptor list \<times> routing_reason list" where
  "filter_quality q cs rs =
     (if flt_le q (Fin 0) then (cs, rs)
      else let fs = filter (\<lambda>m. flt_le q (mo_quality_score m)) cs in (fs, rs @ [Au_dessus_qualite (length fs) q]))"

definition filter_cost ::
    "pyfloat option \<Rightarrow> model_descriptor list \<Rightarrow> routing_reason list \<Rightarrow> model_descriptor list \<times> routing_reason list" where
  "filter_cost target cs rs =
     (case target of
        None \<Rightarrow> (cs, rs)
      | Some x \<Rightarrow>
          let fs = filter (\<lambda>m. flt_le (mo_cost_per_1k_tokens_usd m) x) cs in (fs, rs @ [Sous_cout_cible (length fs) x]))"

definition filter_latency ::
    "pyfloat option \<Rightarrow> model_descriptor list \<Rightarrow> routing_reason list \<Rightarrow> model_descriptor list \<times> routing_reason list" where
  "filter_latency limit cs rs =
     (case limit of
        None \<Rightarrow> (cs, rs)
      | Some x \<Rightarrow>
          let fs = filter (\<lambda>m. flt_le (mo_avg_latency_ms m) x) cs in (fs, rs @ [Sous_temps_maximal (length fs) x]))"

text \<open>The router asks for decisions that are not recorded, so neither identifier nor time of them is kept.\<close>

definition governance_of :: "routing_request \<Rightarrow> model_policies \<Rightarrow> license_store \<Rightarrow> model_descriptor \<Rightarrow> model_decision" where
  "governance_of req ps lics m =
     fst (evaluate_governance [] 0 (rr_firm_id req) (mo_name m) (rr_country req) (rr_data_type req) False ps lics [])"

fun filter_governance ::
    "routing_request \<Rightarrow> model_policies \<Rightarrow> license_store \<Rightarrow> model_descriptor list \<Rightarrow> routing_reason list
       \<Rightarrow> model_descriptor list \<times> routing_reason list" where
  "filter_governance req ps lics [] rs = ([], rs)"
| "filter_governance req ps lics (m # cs) rs =
     (let d = governance_of req ps lics m
      in if gd_allowed d
         then (let (allowed, rs') = filter_governance req ps lics cs rs in (m # allowed, rs'))
         else filter_governance req ps lics cs (rs @ [Exclu_par_gouvernance (mo_name m) (gd_reasons d)]))"

text \<open>
  \<open>max\<close> with a key keeps the first of the greatest: tuples compare by the first component that
  differs; the negated cost and latency prefer the smaller.
\<close>

definition ranks_above :: "model_descriptor \<Rightarrow> model_descriptor \<Rightarrow> bool" where
  "ranks_above x y =
     (if \<not> flt_eq (mo_quality_score x) (mo_quality_score y) then flt_less (mo_quality_score y) (mo_quality_score x)
      else if \<not> flt_eq (flt_neg (mo_cost_per_1k_tokens_usd x)) (flt_neg (mo_cost_per_1k_tokens_usd y))
      then flt_less (flt_neg (mo_cost_per_1k_tokens_usd y)) (flt_neg (mo_cost_per_1k_tokens_usd x))
      else if \<not> flt_eq (flt_neg (mo_avg_latency_ms x)) (flt_neg (mo_avg_latency_ms y))
      then flt_less (flt_neg (mo_avg_latency_ms y)) (flt_neg (mo_avg_latency_ms x))
      else False)"

fun first_max :: "('a \<Rightarrow> 'a \<Rightarrow> bool) \<Rightarrow> 'a \<Rightarrow> 'a list \<Rightarrow> 'a" where
  "first_max gt b [] = b"
| "first_max gt b (x # xs) = first_max gt (if gt x b then x else b) xs"

record fabric_state =
  fa_models :: model_registry
  fa_policies :: model_policies
  fa_licenses :: license_store
  fa_calls :: call_store

definition route_candidates :: "routing_request \<Rightarrow> fabric_state \<Rightarrow> model_descriptor list \<times> routing_reason list" where
  "route_candidates req st =
     (let c0 = (case rr_profile req of None \<Rightarrow> list_models (fa_models st) | Some pr \<Rightarrow> models_by_profile pr (fa_models st));
          r0 = [Associes_au_profil (length c0) (rr_profile req)];
          (c1, r1) = filter_available c0 r0;
          (c2, r2) = filter_quality (rr_min_quality_score req) c1 r1;
          (c3, r3) = filter_cost (rr_target_cost_usd req) c2 r2;
          (c4, r4) = filter_latency (rr_max_latency_ms req) c3 r3
      in filter_governance req (fa_policies st) (fa_licenses st) c4 r4)"

definition select_model :: "datetime \<Rightarrow> datetime \<Rightarrow> routing_request \<Rightarrow> fabric_state \<Rightarrow> (routing_error + routing_decision) \<times> fabric_state" where
  "select_model t_check t_record req st =
     (let (candidates, reasons) = route_candidates req st in
      case candidates of
        [] \<Rightarrow> (Inl (NoEligibleModelError req reasons), st)
      | c # cs \<Rightarrow>
          if \<not> check_call_quota t_check ''firm'' (rr_firm_id req) (fa_calls st)
          then (Inl (QuotaExceededError (rr_firm_id req)), st)
          else let best = first_max ranks_above c cs;
                   reasons' = reasons @ [Modele_retenu (mo_name best) (mo_quality_score best)
                                (mo_cost_per_1k_tokens_usd best) (mo_avg_latency_ms best)]
               in (Inr \<lparr>rd_model = best, rd_reasons = reasons'\<rparr>,
                   st\<lparr>fa_calls := record_quota_call t_record ''firm'' (rr_firm_id req) (fa_calls st)\<rparr>))"

text \<open>\<open>route\<close> adds the telemetry: an error, if there is one, and the duration in every case.\<close>

datatype fabric_event = Routing_failed pystr routing_error | Routing_took pystr pyfloat

definition route ::
    "datetime \<Rightarrow> datetime \<Rightarrow> pyfloat \<Rightarrow> routing_request \<Rightarrow> fabric_state
       \<Rightarrow> (routing_error + routing_decision) \<times> fabric_state \<times> fabric_event list" where
  "route t_check t_record duration req st =
     (let (outcome, st') = select_model t_check t_record req st
      in (outcome, st',
          (case outcome of Inl e \<Rightarrow> [Routing_failed (rr_firm_id req) e] | Inr _ \<Rightarrow> []) @
          [Routing_took (rr_firm_id req) duration]))"

text \<open>
  The route of the API: the plan's quota is set on the call store and checked first; a firm
  without a subscription is not gated. The texts of the refusals are left out.
\<close>

datatype 'a answer = Answered 'a | Refused int | Crashed pyexn

definition api_route ::
    "datetime \<Rightarrow> datetime \<Rightarrow> datetime \<Rightarrow> pyfloat \<Rightarrow> routing_request \<Rightarrow> shop \<Rightarrow> fabric_state
       \<Rightarrow> routing_decision answer \<times> fabric_state" where
  "api_route t_gate t_check t_record duration req sh st =
     (let proceed = (\<lambda>st'. case route t_check t_record duration req st' of
              (Inr d, st'', _) \<Rightarrow> (Answered d, st'')
            | (Inl (NoEligibleModelError _ _), st'', _) \<Rightarrow> (Refused 400, st'')
            | (Inl (QuotaExceededError _), st'', _) \<Rightarrow> (Refused 429, st''))
      in case check_ai_calls t_gate (rr_firm_id req) sh (fa_calls st) of
           Inl (KeyError _) \<Rightarrow> proceed st
         | Inl e \<Rightarrow> (Crashed e, st)
         | Inr (allowed, calls') \<Rightarrow>
             if \<not> allowed then (Refused 429, st\<lparr>fa_calls := calls'\<rparr>) else proceed (st\<lparr>fa_calls := calls'\<rparr>))"

section \<open>The planner\<close>

datatype plan_step_kind = SK_ROUTE | SK_CRITIQUE

record sub_task =
  sk_name :: pystr
  sk_kind :: plan_step_kind
  sk_profile :: "model_profile option"

record planned_step =
  ps_sub_task :: sub_task
  ps_decision :: "routing_decision option"

record execution_plan =
  ep_task_description :: pystr
  ep_steps :: "planned_step list"

definition default_pipeline :: "sub_task list" where
  "default_pipeline =
     [\<lparr>sk_name = ''Analyse documentaire'', sk_kind = SK_ROUTE, sk_profile = Some MP_VISION\<rparr>,
      \<lparr>sk_name = ''Extraction'', sk_kind = SK_ROUTE, sk_profile = Some MP_OCR\<rparr>,
      \<lparr>sk_name = ''Recherche'', sk_kind = SK_ROUTE, sk_profile = Some MP_SYNTHESIS\<rparr>,
      \<lparr>sk_name = ''Raisonnement'', sk_kind = SK_ROUTE, sk_profile = Some MP_REASONING\<rparr>,
      \<lparr>sk_name = ''R'' @ [CHR 0xE9] @ ''daction'', sk_kind = SK_ROUTE, sk_profile = Some MP_DRAFTING\<rparr>,
      \<lparr>sk_name = ''Contr'' @ [CHR 0xF4] @ ''le'', sk_kind = SK_CRITIQUE, sk_profile = None\<rparr>]"

definition request_of_task :: "pystr \<Rightarrow> pystr \<Rightarrow> sub_task \<Rightarrow> routing_request" where
  "request_of_task firm description sub =
     \<lparr>rr_firm_id = firm, rr_task_type = sk_name sub, rr_prompt = description, rr_profile = sk_profile sub,
      rr_target_cost_usd = None, rr_max_latency_ms = None, rr_min_quality_score = Fin 0, rr_country = None,
      rr_data_type = None\<rparr>"

text \<open>The loop, with the two clock readings and the duration of each turn; the first error ends it.\<close>

fun plan_steps ::
    "pystr \<Rightarrow> pystr \<Rightarrow> (sub_task \<times> datetime \<times> datetime \<times> pyfloat) list \<Rightarrow> fabric_state
       \<Rightarrow> (routing_error + planned_step list) \<times> fabric_state" where
  "plan_steps firm description [] st = (Inr [], st)"
| "plan_steps firm description ((sub, t_check, t_record, duration) # turns) st =
     (if sk_kind sub = SK_CRITIQUE
      then (case plan_steps firm description turns st of
              (Inr steps, st') \<Rightarrow> (Inr (\<lparr>ps_sub_task = sub, ps_decision = None\<rparr> # steps), st')
            | (Inl e, st') \<Rightarrow> (Inl e, st'))
      else (case route t_check t_record duration (request_of_task firm description sub) st of
              (Inl e, st', _) \<Rightarrow> (Inl e, st')
            | (Inr d, st', _) \<Rightarrow>
                (case plan_steps firm description turns st' of
                   (Inr steps, st'') \<Rightarrow> (Inr (\<lparr>ps_sub_task = sub, ps_decision = Some d\<rparr> # steps), st'')
                 | (Inl e, st'') \<Rightarrow> (Inl e, st''))))"

definition plan_task ::
    "pystr \<Rightarrow> pystr \<Rightarrow> (sub_task \<times> datetime \<times> datetime \<times> pyfloat) list \<Rightarrow> fabric_state
       \<Rightarrow> (routing_error + execution_plan) \<times> fabric_state" where
  "plan_task firm description turns st =
     (case plan_steps firm description turns st of
        (Inl e, st') \<Rightarrow> (Inl e, st')
      | (Inr steps, st') \<Rightarrow> (Inr \<lparr>ep_task_description = description, ep_steps = steps\<rparr>, st'))"

section \<open>Fallback and optimisers\<close>

record fallback_state =
  fb_total :: int
  fb_fallbacks :: int

fun walk_chain :: "model_registry \<Rightarrow> nat \<Rightarrow> pystr list \<Rightarrow> fallback_state \<Rightarrow> model_descriptor option \<times> fallback_state" where
  "walk_chain r index [] fb = (None, fb)"
| "walk_chain r index (name # names) fb =
     (case get_model r name of
        Some m \<Rightarrow>
          if mo_availability m
          then (Some m, if 0 < index then fb\<lparr>fb_fallbacks := fb_fallbacks fb + 1\<rparr> else fb)
          else walk_chain r (Suc index) names fb
      | None \<Rightarrow> walk_chain r (Suc index) names fb)"

text \<open>\<open>Inl\<close> is \<open>NoAvailableModelError\<close> with the names attempted.\<close>

definition resolve_model ::
    "pystr \<Rightarrow> pystr list \<Rightarrow> model_registry \<Rightarrow> fallback_state \<Rightarrow> (pystr list + model_descriptor) \<times> fallback_state" where
  "resolve_model primary fallbacks r fb =
     (let attempted = primary # fallbacks in
      case walk_chain r 0 attempted (fb\<lparr>fb_total := fb_total fb + 1\<rparr>) of
        (None, fb') \<Rightarrow> (Inl attempted, fb')
      | (Some m, fb') \<Rightarrow> (Inr m, fb'))"

definition fallback_rate :: "fallback_state \<Rightarrow> pyfloat result" where
  "fallback_rate fb = (if fb_total fb = 0 then Inr (Fin 0) else int_truediv (fb_fallbacks fb) (fb_total fb))"

fun first_min :: "('a \<Rightarrow> pyfloat) \<Rightarrow> 'a \<Rightarrow> 'a list \<Rightarrow> 'a" where
  "first_min key b [] = b"
| "first_min key b (x # xs) = first_min key (if flt_less (key x) (key b) then x else b) xs"

definition cheapest_meeting_quality :: "model_descriptor list \<Rightarrow> pyfloat \<Rightarrow> model_descriptor option" where
  "cheapest_meeting_quality candidates min_quality =
     (case filter (\<lambda>m. mo_availability m \<and> flt_le min_quality (mo_quality_score m)) candidates of
        [] \<Rightarrow> None
      | m # ms \<Rightarrow> Some (first_min mo_cost_per_1k_tokens_usd m ms))"

definition fastest_available :: "model_descriptor list \<Rightarrow> model_descriptor option" where
  "fastest_available candidates =
     (case filter mo_availability candidates of
        [] \<Rightarrow> None
      | m # ms \<Rightarrow> Some (first_min mo_avg_latency_ms m ms))"

record model_quality_stats =
  qs_model_name :: pystr
  qs_total_calls :: int
  qs_error_count :: int
  qs_feedback_scores :: "pyfloat list"

type_synonym quality_store = "(pystr, model_quality_stats) dict"

text \<open>\<open>setdefault\<close>: the statistics of the model, and the store with them in it.\<close>

definition stats_of :: "pystr \<Rightarrow> quality_store \<Rightarrow> model_quality_stats \<times> quality_store" where
  "stats_of name s =
     (case dict_get s name of
        Some st \<Rightarrow> (st, s)
      | None \<Rightarrow> (let st = \<lparr>qs_model_name = name, qs_total_calls = 0, qs_error_count = 0, qs_feedback_scores = []\<rparr>
                 in (st, dict_set name st s)))"

definition record_model_call :: "pystr \<Rightarrow> bool \<Rightarrow> quality_store \<Rightarrow> quality_store" where
  "record_model_call name success s =
     (let (st, s') = stats_of name s;
          st1 = st\<lparr>qs_total_calls := qs_total_calls st + 1\<rparr>;
          st2 = (if \<not> success then st1\<lparr>qs_error_count := qs_error_count st1 + 1\<rparr> else st1)
      in dict_set name st2 s')"

definition record_feedback :: "pystr \<Rightarrow> pyfloat \<Rightarrow> quality_store \<Rightarrow> quality_store" where
  "record_feedback name score s =
     (let (st, s') = stats_of name s
      in dict_set name (st\<lparr>qs_feedback_scores := qs_feedback_scores st @ [score]\<rparr>) s')"

definition error_rate :: "model_quality_stats \<Rightarrow> pyfloat result" where
  "error_rate st =
     (if qs_total_calls st \<noteq> 0 then int_truediv (qs_error_count st) (qs_total_calls st) else Inr (Fin 0))"

definition average_feedback :: "model_quality_stats \<Rightarrow> pyfloat result" where
  "average_feedback st =
     (if qs_feedback_scores st = [] then Inr (Fin (1 / 2))
      else res_bind (flt_of_int (int (length (qs_feedback_scores st))))
             (\<lambda>n. flt_div (flt_sum (qs_feedback_scores st)) n))"

text \<open>\<open>max(0.0, 1.0 - error_rate)\<close>.\<close>

definition stability_score :: "model_quality_stats \<Rightarrow> pyfloat result" where
  "stability_score st =
     res_bind (error_rate st) (\<lambda>e. Inr (let x = flt_sub (Fin 1) e in if flt_less (Fin 0) x then x else Fin 0))"

section \<open>What governance and the filters let through\<close>

definition policy_refusals ::
    "pystr \<Rightarrow> pystr option \<Rightarrow> pystr option \<Rightarrow> license_store \<Rightarrow> model_policy \<Rightarrow> governance_reason list" where
  "policy_refusals firm country data_type lics p =
     (case mp_type p of
        PY_MODEL_FORBIDDEN \<Rightarrow> [Modele_interdit (mp_reason p)]
      | PY_ENTERPRISE_ONLY \<Rightarrow>
          if license_has_feature firm ''enterprise_ai_models'' lics then [] else [Reserve_enterprise (mp_reason p)]
      | PY_COUNTRY_RESTRICTED \<Rightarrow>
          if in_option country (mp_allowed_countries p) then [] else [Pays_non_autorise country (mp_reason p)]
      | PY_DATA_TYPE_RESTRICTED \<Rightarrow>
          if in_option data_type (mp_allowed_data_types p) then [] else [Donnees_non_autorisees data_type (mp_reason p)])"

lemma apply_policies_eq:
  "apply_policies firm country data_type lics ps (allowed, reasons) =
     (allowed \<and> (\<forall>p \<in> set ps. policy_refusals firm country data_type lics p = []),
      reasons @ concat (map (policy_refusals firm country data_type lics) ps))"
  by (induction ps arbitrary: allowed reasons)
     (auto simp: policy_refusals_def split: policy_type.splits)

lemma evaluate_governance_eq:
  "evaluate_governance i now firm name country data_type recorded ps lics ds =
     (let refusals = concat (map (policy_refusals firm country data_type lics) (policies_for_model name ps));
          d = \<lparr>gd_id = i, gd_firm_id = firm, gd_model_name = name, gd_allowed = (refusals = []),
               gd_reasons = (if refusals = [] then [Aucune_politique] else refusals), gd_created_at = now\<rparr>
      in (d, if recorded then ds @ [d] else ds))"
  by (simp add: evaluate_governance_def apply_policies_eq Let_def decision_append_def)

lemma governance_of_allowed:
  "gd_allowed (governance_of req ps lics m) \<longleftrightarrow>
     (\<forall>p \<in> set (policies_for_model (mo_name m) ps).
        policy_refusals (rr_firm_id req) (rr_country req) (rr_data_type req) lics p = [])"
  by (simp add: governance_of_def evaluate_governance_eq Let_def)

text \<open>A model a request may be routed to.\<close>

definition eligible :: "routing_request \<Rightarrow> fabric_state \<Rightarrow> model_descriptor \<Rightarrow> bool" where
  "eligible req st m \<longleftrightarrow>
     (\<forall>pr. rr_profile req = Some pr \<longrightarrow> pr \<in> mo_profiles m) \<and> mo_availability m \<and>
     (flt_le (rr_min_quality_score req) (Fin 0) \<or> flt_le (rr_min_quality_score req) (mo_quality_score m)) \<and>
     (\<forall>x. rr_target_cost_usd req = Some x \<longrightarrow> flt_le (mo_cost_per_1k_tokens_usd m) x) \<and>
     (\<forall>x. rr_max_latency_ms req = Some x \<longrightarrow> flt_le (mo_avg_latency_ms m) x) \<and>
     gd_allowed (governance_of req (fa_policies st) (fa_licenses st) m)"

lemma filter_governance_fst:
  "fst (filter_governance req ps lics cs rs) = filter (\<lambda>m. gd_allowed (governance_of req ps lics m)) cs"
  by (induction cs arbitrary: rs) (simp_all add: Let_def case_prod_beta)

lemma filters_fst:
  "fst (filter_available cs rs) = filter mo_availability cs"
  "fst (filter_quality q cs rs) = filter (\<lambda>m. flt_le q (Fin 0) \<or> flt_le q (mo_quality_score m)) cs"
  "fst (filter_cost target cs rs) = filter (\<lambda>m. \<forall>x. target = Some x \<longrightarrow> flt_le (mo_cost_per_1k_tokens_usd m) x) cs"
  "fst (filter_latency limit cs rs) = filter (\<lambda>m. \<forall>x. limit = Some x \<longrightarrow> flt_le (mo_avg_latency_ms m) x) cs"
  by (auto simp: filter_available_def filter_quality_def filter_cost_def filter_latency_def Let_def split: option.splits)

lemma route_candidates_fst: "fst (route_candidates req st) = filter (eligible req st) (list_models (fa_models st))"
proof -
  have c0: "(case rr_profile req of None \<Rightarrow> list_models r | Some pr \<Rightarrow> models_by_profile pr r) =
      filter (\<lambda>m. \<forall>pr. rr_profile req = Some pr \<longrightarrow> pr \<in> mo_profiles m) (list_models r)" for r
    by (simp add: models_by_profile_def list_models_def split: option.splits)
  show ?thesis
    unfolding route_candidates_def Let_def case_prod_beta filter_governance_fst filters_fst c0 filter_filter
    by (rule filter_cong) (auto simp: eligible_def)
qed

section \<open>The best candidate\<close>

definition finite_scores :: "model_registry \<Rightarrow> bool" where
  "finite_scores r \<longleftrightarrow> (\<forall>m \<in> set (list_models r). \<exists>q c l. mo_quality_score m = Fin q \<and>
     mo_cost_per_1k_tokens_usd m = Fin c \<and> mo_avg_latency_ms m = Fin l)"

fun rat_of :: "pyfloat \<Rightarrow> rat" where
  "rat_of (Fin q) = q"
| "rat_of _ = 0"

definition model_rank :: "model_descriptor \<Rightarrow> rat \<times> rat \<times> rat" where
  "model_rank m = (rat_of (mo_quality_score m), - rat_of (mo_cost_per_1k_tokens_usd m), - rat_of (mo_avg_latency_ms m))"

lemma ranks_above_finite:
  assumes "finite_scores r" and "x \<in> set (list_models r)" and "y \<in> set (list_models r)"
  shows "ranks_above x y \<longleftrightarrow> model_rank y < model_rank x"
proof -
  obtain q c l where "mo_quality_score x = Fin q" "mo_cost_per_1k_tokens_usd x = Fin c" "mo_avg_latency_ms x = Fin l"
    using assms by (meson finite_scores_def)
  moreover obtain q' c' l' where "mo_quality_score y = Fin q'" "mo_cost_per_1k_tokens_usd y = Fin c'"
      "mo_avg_latency_ms y = Fin l'"
    using assms by (meson finite_scores_def)
  ultimately show ?thesis
    by (auto simp: ranks_above_def model_rank_def less_prod_def)
qed

lemma first_max_key:
  fixes key :: "'a \<Rightarrow> 'b :: linorder"
  assumes "\<And>x y. x \<in> set (b # xs) \<Longrightarrow> y \<in> set (b # xs) \<Longrightarrow> gt x y \<longleftrightarrow> key y < key x"
  shows "first_max gt b xs \<in> set (b # xs) \<and> (\<forall>x \<in> set (b # xs). key x \<le> key (first_max gt b xs)) \<and>
     (\<exists>us vs. b # xs = us @ first_max gt b xs # vs \<and> (\<forall>u \<in> set us. key u < key (first_max gt b xs)))"
  using assms
proof (induction xs arbitrary: b)
  case Nil
  then show ?case by (auto intro: exI [of _ "[]"])
next
  case (Cons x xs)
  let ?c = "if gt x b then x else b"
  have gt: "gt x b \<longleftrightarrow> key b < key x" by (rule Cons.prems) simp_all
  have IH: "first_max gt ?c xs \<in> set (?c # xs) \<and> (\<forall>x \<in> set (?c # xs). key x \<le> key (first_max gt ?c xs)) \<and>
     (\<exists>us vs. ?c # xs = us @ first_max gt ?c xs # vs \<and> (\<forall>u \<in> set us. key u < key (first_max gt ?c xs)))"
    by (rule Cons.IH) (auto intro!: Cons.prems split: if_splits)
  then obtain us vs where split: "?c # xs = us @ first_max gt ?c xs # vs"
    and below: "\<forall>u \<in> set us. key u < key (first_max gt ?c xs)" by blast
  have "\<exists>us vs. b # x # xs = us @ first_max gt ?c xs # vs \<and> (\<forall>u \<in> set us. key u < key (first_max gt ?c xs))"
  proof (cases "gt x b")
    case True
    then have "b # x # xs = (b # us) @ first_max gt ?c xs # vs" using split by simp
    moreover have "key b < key (first_max gt ?c xs)" using IH True gt by (auto intro: less_le_trans)
    ultimately show ?thesis using below by (intro exI [of _ "b # us"] exI [of _ vs]) simp
  next
    case False
    show ?thesis
    proof (cases us)
      case Nil
      then have "first_max gt ?c xs = ?c" using split by (metis append_Nil list.inject)
      then have "b # x # xs = [] @ first_max gt ?c xs # (x # xs) \<and> (\<forall>u \<in> set []. key u < key (first_max gt ?c xs))"
        using False by simp
      then show ?thesis by blast
    next
      case (Cons u us')
      then have "u = b" "xs = us' @ first_max gt ?c xs # vs" using split False by auto
      moreover have "key x < key (first_max gt ?c xs)"
      proof (rule le_less_trans)
        show "key x \<le> key b" using gt False by (simp add: not_less)
        show "key b < key (first_max gt ?c xs)" using below Cons \<open>u = b\<close> by (simp del: if_split)
      qed
      ultimately show ?thesis using below Cons by (intro exI [of _ "b # x # us'"] exI [of _ vs]) simp
    qed
  qed
  moreover have "key b \<le> key (first_max gt ?c xs) \<and> key x \<le> key (first_max gt ?c xs)"
    using IH gt by (auto split: if_splits)
  then have "\<forall>y \<in> set (b # x # xs). key y \<le> key (first_max gt ?c xs)" using IH by simp
  moreover have "first_max gt ?c xs \<in> set (b # x # xs)" using IH by (auto split: if_splits)
  ultimately show ?case by (simp only: first_max.simps simp_thms)
qed

section \<open>Routing\<close>

text \<open>
  C9. The router picks an eligible model and, among the finite scores of the registry, one that no
  eligible model ranks above: the highest quality, then the lowest cost, then the lowest latency,
  the first registered of equals. It fails with \<open>NoEligibleModelError\<close> exactly when no registered
  model is eligible and with \<open>QuotaExceededError\<close> exactly when one is and the firm's quota is used up.
  A success records one call of the firm; a failure changes nothing; every call emits its duration
  and a failure its error.
\<close>
theorem route_exact:
  assumes fin: "finite_scores (fa_models st)"
    and run: "route t_check t_record duration req st = (outcome, st', events)"
  shows "(case outcome of
      Inr d \<Rightarrow> rd_model d \<in> set (list_models (fa_models st)) \<and> eligible req st (rd_model d) \<and>
        (\<exists>us vs. filter (eligible req st) (list_models (fa_models st)) = us @ rd_model d # vs \<and>
           (\<forall>m \<in> set us. model_rank m < model_rank (rd_model d)) \<and>
           (\<forall>m \<in> set vs. model_rank m \<le> model_rank (rd_model d))) \<and>
        check_call_quota t_check ''firm'' (rr_firm_id req) (fa_calls st) \<and>
        st' = st\<lparr>fa_calls := record_quota_call t_record ''firm'' (rr_firm_id req) (fa_calls st)\<rparr>
    | Inl (NoEligibleModelError r reasons) \<Rightarrow>
        r = req \<and> st' = st \<and> (\<forall>m \<in> set (list_models (fa_models st)). \<not> eligible req st m)
    | Inl (QuotaExceededError firm) \<Rightarrow>
        firm = rr_firm_id req \<and> st' = st \<and> \<not> check_call_quota t_check ''firm'' firm (fa_calls st) \<and>
        (\<exists>m \<in> set (list_models (fa_models st)). eligible req st m)) \<and>
    events = (case outcome of Inl e \<Rightarrow> [Routing_failed (rr_firm_id req) e] | Inr _ \<Rightarrow> []) @
      [Routing_took (rr_firm_id req) duration]"
proof -
  obtain cands reasons where rc: "route_candidates req st = (cands, reasons)" by (cases "route_candidates req st")
  have cands: "cands = filter (eligible req st) (list_models (fa_models st))"
    using route_candidates_fst [of req st] by (simp add: rc)
  have sel: "select_model t_check t_record req st = (outcome, st')"
    and ev: "events = (case outcome of Inl e \<Rightarrow> [Routing_failed (rr_firm_id req) e] | Inr _ \<Rightarrow> []) @
      [Routing_took (rr_firm_id req) duration]"
    using run by (auto simp: route_def split: prod.splits)
  show ?thesis
  proof (cases cands)
    case Nil
    then have "\<forall>m \<in> set (list_models (fa_models st)). \<not> eligible req st m"
      using cands by (simp add: filter_empty_conv)
    then show ?thesis using sel ev by (auto simp: select_model_def rc Nil)
  next
    case (Cons c cs)
    have mem: "m \<in> set (c # cs) \<longleftrightarrow> m \<in> set (list_models (fa_models st)) \<and> eligible req st m" for m
      using cands Cons by auto
    then have some: "\<exists>m \<in> set (list_models (fa_models st)). eligible req st m" by (meson list.set_intros(1))
    let ?best = "first_max ranks_above c cs"
    have "?best \<in> set (c # cs) \<and> (\<forall>x \<in> set (c # cs). model_rank x \<le> model_rank ?best) \<and>
       (\<exists>us vs. c # cs = us @ ?best # vs \<and> (\<forall>u \<in> set us. model_rank u < model_rank ?best))"
      by (rule first_max_key) (use mem ranks_above_finite [OF fin] in blast)
    then obtain us vs where best: "?best \<in> set (c # cs)" and split: "c # cs = us @ ?best # vs"
      and below: "\<forall>u \<in> set us. model_rank u < model_rank ?best"
      and le: "\<forall>x \<in> set (c # cs). model_rank x \<le> model_rank ?best" by blast
    have "set vs \<subseteq> set (c # cs)" by (subst split) auto
    with le have "\<forall>m \<in> set vs. model_rank m \<le> model_rank ?best" by blast
    moreover have "filter (eligible req st) (list_models (fa_models st)) = us @ ?best # vs"
      using cands Cons split by metis
    ultimately have order: "\<exists>us vs. filter (eligible req st) (list_models (fa_models st)) = us @ ?best # vs \<and>
           (\<forall>m \<in> set us. model_rank m < model_rank ?best) \<and> (\<forall>m \<in> set vs. model_rank m \<le> model_rank ?best)"
      using below by blast
    show ?thesis
    proof (cases "check_call_quota t_check ''firm'' (rr_firm_id req) (fa_calls st)")
      case True
      then have out: "\<exists>reasons. outcome = Inr \<lparr>rd_model = ?best, rd_reasons = reasons\<rparr>"
        and st': "st' = st\<lparr>fa_calls := record_quota_call t_record ''firm'' (rr_firm_id req) (fa_calls st)\<rparr>"
        using sel by (auto simp: select_model_def rc Cons Let_def)
      from out obtain reasons where out: "outcome = Inr \<lparr>rd_model = ?best, rd_reasons = reasons\<rparr>" by blast
      show ?thesis using order best mem [of ?best] True ev by (simp add: out st')
    next
      case False
      then show ?thesis using sel ev some by (auto simp: select_model_def rc Cons)
    qed
  qed
qed

definition demo_model :: "pystr \<Rightarrow> pyfloat \<Rightarrow> pyfloat \<Rightarrow> model_descriptor" where
  "demo_model name quality cost =
    \<lparr>mo_name = name, mo_version = ''1'', mo_provider = ''openai'', mo_cost_per_1k_tokens_usd = cost,
     mo_avg_latency_ms = Fin 100, mo_max_context_tokens = 8000, mo_capabilities = {CA_TEXT_COMPLETION},
     mo_profiles = {MP_DRAFTING}, mo_availability = True, mo_quality_score = quality, mo_legal_score = quality,
     mo_drafting_score = quality, mo_research_score = quality, mo_reasoning_score = quality\<rparr>"

definition demo_fabric :: fabric_state where
  "demo_fabric = \<lparr>fa_models = register_model (demo_model ''b'' (Fin 1) (Fin 1))
       (register_model (demo_model ''a'' (Fin 1) (Fin 2)) []),
     fa_policies = [], fa_licenses = [], fa_calls = empty_call_store\<rparr>"

definition demo_routing :: routing_request where
  "demo_routing = \<lparr>rr_firm_id = ''firm'', rr_task_type = ''t'', rr_prompt = ''p'', rr_profile = Some MP_DRAFTING,
     rr_target_cost_usd = None, rr_max_latency_ms = None, rr_min_quality_score = Fin 0, rr_country = None,
     rr_data_type = None\<rparr>"

lemma demo_models: "list_models (fa_models demo_fabric) = [demo_model ''a'' (Fin 1) (Fin 2), demo_model ''b'' (Fin 1) (Fin 1)]"
  by (simp add: demo_fabric_def demo_model_def store_defs list_models_def)

lemma demo_finite: "finite_scores (fa_models demo_fabric)"
  by (simp add: finite_scores_def demo_models demo_model_def)

lemma demo_eligible: "eligible demo_routing demo_fabric (demo_model n q c)"
  by (simp add: eligible_def demo_routing_def demo_model_def governance_of_allowed demo_fabric_def
      policies_for_model_def flt_le_def)

lemma demo_route:
  "\<exists>reasons. fst (route 5 6 (Fin 1) demo_routing demo_fabric) =
     Inr \<lparr>rd_model = demo_model ''b'' (Fin 1) (Fin 1), rd_reasons = reasons\<rparr>"
proof -
  have "fst (route_candidates demo_routing demo_fabric) =
      [demo_model ''a'' (Fin 1) (Fin 2), demo_model ''b'' (Fin 1) (Fin 1)]"
    by (simp add: route_candidates_fst demo_models demo_eligible)
  moreover have "check_call_quota 5 ''firm'' ''firm'' (fa_calls demo_fabric)"
    by (simp add: check_call_quota_def demo_fabric_def empty_call_store_def store_defs)
  moreover have "ranks_above (demo_model ''b'' (Fin 1) (Fin 1)) (demo_model ''a'' (Fin 1) (Fin 2))"
    by (simp add: ranks_above_def demo_model_def)
  ultimately show ?thesis
    by (cases "route_candidates demo_routing demo_fabric")
       (simp add: route_def select_model_def Let_def demo_routing_def)
qed

theorem route_exact_witness:
  "\<exists>d st' events. route 5 6 (Fin 1) demo_routing demo_fabric = (Inr d, st', events) \<and> eligible demo_routing demo_fabric (rd_model d) \<and>
     fa_calls st' = record_quota_call 6 ''firm'' ''firm'' empty_call_store"
proof -
  obtain d st' events where run: "route 5 6 (Fin 1) demo_routing demo_fabric = (Inr d, st', events)"
    using demo_route by (cases "route 5 6 (Fin 1) demo_routing demo_fabric") auto
  note route_exact [OF demo_finite run]
  then show ?thesis using run by (simp add: demo_routing_def demo_fabric_def)
qed

text \<open>What a policy asks of a request, when no licence has the feature for reserved models.\<close>

definition model_policy_admits :: "pystr option \<Rightarrow> pystr option \<Rightarrow> model_policy \<Rightarrow> bool" where
  "model_policy_admits country data_type p =
     (case mp_type p of
        PY_MODEL_FORBIDDEN \<Rightarrow> False
      | PY_ENTERPRISE_ONLY \<Rightarrow> False
      | PY_COUNTRY_RESTRICTED \<Rightarrow> in_option country (mp_allowed_countries p)
      | PY_DATA_TYPE_RESTRICTED \<Rightarrow> in_option data_type (mp_allowed_data_types p))"

text \<open>
  Governance allows a model exactly when no active policy on it, or on all models, refuses; the
  reasons are the refusals in the order of the policies, and the decision is journaled exactly when
  asked. Over reachable licences a policy that reserves a model to the Enterprise plan refuses it to
  every firm, whatever its plan, since no plan carries the feature it asks for.
\<close>
theorem governance_exact:
  assumes "license_reachable mac lics"
    and "evaluate_governance i now firm name country data_type recorded ps lics ds = (d, ds')"
  shows "(gd_allowed d \<longleftrightarrow> (\<forall>p \<in> set (dict_values ps). mp_active p \<and> mp_model_name p \<in> {name, ''*''} \<longrightarrow> model_policy_admits country data_type p)) \<and>
    (\<not> gd_allowed d \<longrightarrow> gd_reasons d =
       concat (map (policy_refusals firm country data_type lics) (policies_for_model name ps))) \<and>
    ds' = (if recorded then ds @ [d] else ds)"
proof -
  have none: "\<not> license_has_feature firm ''enterprise_ai_models'' lics"
    using license_reachable_no_enterprise [OF assms(1)] .
  have "policy_refusals firm country data_type lics p = [] \<longleftrightarrow> model_policy_admits country data_type p" for p
    by (simp add: policy_refusals_def model_policy_admits_def none split: policy_type.split)
  then have admits: "concat (map (policy_refusals firm country data_type lics) (policies_for_model name ps)) = [] \<longleftrightarrow>
      (\<forall>p \<in> set (dict_values ps). mp_active p \<and> mp_model_name p \<in> {name, ''*''} \<longrightarrow> model_policy_admits country data_type p)"
    by (auto simp: policies_for_model_def)
  let ?r = "concat (map (policy_refusals firm country data_type lics) (policies_for_model name ps))"
  have d: "d = fst (evaluate_governance i now firm name country data_type recorded ps lics ds)"
    and ds': "ds' = snd (evaluate_governance i now firm name country data_type recorded ps lics ds)"
    using assms(2) by simp_all
  have allowed: "gd_allowed d \<longleftrightarrow> ?r = []" and reasons: "gd_reasons d = (if ?r = [] then [Aucune_politique] else ?r)"
    unfolding d evaluate_governance_eq Let_def fst_conv by (simp_all only: model_decision.simps)
  show ?thesis
  proof (intro conjI)
    show "gd_allowed d \<longleftrightarrow> (\<forall>p \<in> set (dict_values ps). mp_active p \<and> mp_model_name p \<in> {name, ''*''} \<longrightarrow>
        model_policy_admits country data_type p)"
      using allowed admits by (rule trans)
    show "\<not> gd_allowed d \<longrightarrow> gd_reasons d = ?r" using allowed reasons by presburger
    show "ds' = (if recorded then ds @ [d] else ds)"
      unfolding d ds' evaluate_governance_eq Let_def fst_conv snd_conv ..
  qed
qed

theorem governance_exact_witness:
  "\<not> gd_allowed (fst (evaluate_governance ''d'' 9 ''f'' ''m'' None None True
      [(''p'', \<lparr>mp_id = ''p'', mp_type = PY_ENTERPRISE_ONLY, mp_model_name = ''*'', mp_reason = ''r'',
          mp_allowed_countries = None, mp_allowed_data_types = None, mp_active = True\<rparr>)]
      (snd (issue_license (\<lambda>x. x) ''l'' 5 ''f'' PT_ENTERPRISE 365 [])) []))"
proof -
  let ?ps = "[(''p'', \<lparr>mp_id = ''p'', mp_type = PY_ENTERPRISE_ONLY, mp_model_name = ''*'', mp_reason = ''r'',
          mp_allowed_countries = None, mp_allowed_data_types = None, mp_active = True\<rparr>)]"
  let ?i = "issue_license (\<lambda>x. x) ''l'' 5 ''f'' PT_ENTERPRISE 365 []"
  have reach: "license_reachable (\<lambda>x. x) (snd ?i)"
    by (rule license_issued [OF no_license, of _ "''l''" 5 "''f''" PT_ENTERPRISE 365 "fst ?i"]) simp
  obtain d ds where run: "evaluate_governance ''d'' 9 ''f'' ''m'' None None True ?ps (snd ?i) [] = (d, ds)"
    by (cases "evaluate_governance ''d'' 9 ''f'' ''m'' None None True ?ps (snd ?i) []")
  from governance_exact [OF reach run] show ?thesis by (simp add: run model_policy_admits_def)
qed

section \<open>Quotas over runs of requests\<close>

lemma route_calls:
  "call_times (fa_calls (fst (snd (route t_check t_record duration req st)))) sc i =
     call_times (fa_calls st) sc i @
       (if (sc, i) = (''firm'', rr_firm_id req) \<and> (\<exists>d. fst (route t_check t_record duration req st) = Inr d)
        then [t_record] else [])"
  by (auto simp: route_def select_model_def Let_def split: prod.splits list.splits)

lemma route_frame:
  "fst (snd (route t_check t_record duration req st)) = st\<lparr>fa_calls := fa_calls (fst (snd (route t_check t_record duration req st)))\<rparr>"
  "call_store_get_quota (fa_calls (fst (snd (route t_check t_record duration req st)))) = call_store_get_quota (fa_calls st)"
  by (auto simp: route_def select_model_def Let_def fun_eq_iff split: prod.splits list.splits)

lemma route_checked:
  "fst (route t_check t_record duration req st) = Inr d \<Longrightarrow> check_call_quota t_check ''firm'' (rr_firm_id req) (fa_calls st)"
  by (auto simp: route_def select_model_def Let_def split: prod.splits list.splits if_splits)

text \<open>
  The quota of a firm is set to its limit, and in every window of thirty days the calls recorded
  after the given older ones respect it.
\<close>

definition quota_kept :: "pystr \<Rightarrow> int \<Rightarrow> datetime list \<Rightarrow> fabric_state \<Rightarrow> bool" where
  "quota_kept firm n old st \<longleftrightarrow>
     call_store_get_quota (fa_calls st) (''firm'', firm) =
       Some \<lparr>fq_scope = ''firm'', fq_scope_id = firm, fq_max_calls_per_period = n, fq_period_days = 30\<rparr> \<and>
     (\<exists>news. call_times (fa_calls st) ''firm'' firm = old @ news \<and> windows_bounded (days 30) n news)"

lemma route_keeps_quota:
  assumes "quota_kept firm n old st" and "t_check \<le> t_record"
  shows "quota_kept firm n old (fst (snd (route t_check t_record duration req st)))"
proof -
  obtain news where q: "call_store_get_quota (fa_calls st) (''firm'', firm) =
       Some \<lparr>fq_scope = ''firm'', fq_scope_id = firm, fq_max_calls_per_period = n, fq_period_days = 30\<rparr>"
    and news: "call_times (fa_calls st) ''firm'' firm = old @ news" and w: "windows_bounded (days 30) n news"
    using assms(1) by (auto simp: quota_kept_def)
  have "windows_bounded (days 30) n (news @ [t_record])"
    if "firm = rr_firm_id req" and "fst (route t_check t_record duration req st) = Inr d" for d
  proof (rule windows_bounded_snoc [OF w _ assms(2)])
    have "int (length (filter (\<lambda>t. t_check - days 30 \<le> t) (old @ news))) < n"
      using route_checked [OF that(2)] q unfolding news [symmetric]
      by (simp add: check_call_quota_def calls_in_period_def Let_def that(1))
    then show "int (length (filter (\<lambda>t. t_check - days 30 \<le> t) news)) < n" by simp
  qed
  then show ?thesis using q w by (auto simp: quota_kept_def route_frame(2) route_calls news)
qed

definition turns_ok :: "(sub_task \<times> datetime \<times> datetime \<times> pyfloat) list \<Rightarrow> bool" where
  "turns_ok turns \<longleftrightarrow> (\<forall>(sub, t_check, t_record, duration) \<in> set turns. t_check \<le> t_record)"

lemma plan_steps_keep_quota:
  "turns_ok turns \<Longrightarrow> quota_kept firm n old st \<Longrightarrow> quota_kept firm n old (snd (plan_steps f description turns st))"
proof (induction f description turns st rule: plan_steps.induct)
  case (2 f description sub t_check t_record duration turns st)
  have ok: "turns_ok turns" "t_check \<le> t_record" using "2.prems"(1) by (auto simp: turns_ok_def)
  show ?case
  proof (cases "sk_kind sub = SK_CRITIQUE")
    case True
    then show ?thesis using "2.IH"(1) [OF True ok(1) "2.prems"(2)] by (auto split: prod.split sum.split)
  next
    case False
    obtain r st' ev where run: "route t_check t_record duration (request_of_task f description sub) st = (r, st', ev)"
      by (metis surj_pair)
    have kept: "quota_kept firm n old st'"
      using route_keeps_quota [OF "2.prems"(2) ok(2), of duration "request_of_task f description sub"] by (simp add: run)
    then show ?thesis
    proof (cases r)
      case (Inr d)
      then show ?thesis
        using "2.IH"(2) [OF False run [symmetric] Inr refl ok(1) kept] False by (auto simp: run split: prod.split sum.split)
    qed (use False run in simp)
  qed
qed simp

lemma plan_task_keeps_quota:
  "turns_ok turns \<Longrightarrow> quota_kept firm n old st \<Longrightarrow> quota_kept firm n old (snd (plan_task f description turns st))"
  using plan_steps_keep_quota [of turns firm n old st f description]
  by (auto simp: plan_task_def split: prod.split sum.split)

text \<open>The requests that reach the router.\<close>

datatype fabric_op =
    Api_route datetime datetime datetime pyfloat routing_request
  | Api_plan pystr pystr "(sub_task \<times> datetime \<times> datetime \<times> pyfloat) list"

fun fabric_step :: "shop \<Rightarrow> fabric_op \<Rightarrow> fabric_state \<Rightarrow> fabric_state" where
  "fabric_step sh (Api_route t_gate t_check t_record duration req) st =
     snd (api_route t_gate t_check t_record duration req sh st)"
| "fabric_step sh (Api_plan firm description turns) st = snd (plan_task firm description turns st)"

fun op_clocks_ok :: "fabric_op \<Rightarrow> bool" where
  "op_clocks_ok (Api_route t_gate t_check t_record duration req) = (t_check \<le> t_record)"
| "op_clocks_ok (Api_plan firm description turns) = turns_ok turns"

lemma api_route_snd:
  "snd (api_route t_gate t_check t_record duration req sh st) =
     (case check_ai_calls t_gate (rr_firm_id req) sh (fa_calls st) of
        Inl (KeyError _) \<Rightarrow> fst (snd (route t_check t_record duration req st))
      | Inl e \<Rightarrow> st
      | Inr (allowed, calls') \<Rightarrow>
          if allowed then fst (snd (route t_check t_record duration req (st\<lparr>fa_calls := calls'\<rparr>)))
          else st\<lparr>fa_calls := calls'\<rparr>)"
  by (auto simp: api_route_def Let_def split: sum.split pyexn.split prod.split routing_error.split)

lemma check_ai_calls_Inr:
  assumes "check_ai_calls now f sh s = Inr (allowed, s')"
  shows "\<exists>n. limit_for f QD_AI_CALLS sh = Inr n \<and> s' = call_store_set_quota \<lparr>fq_scope = ''firm'', fq_scope_id = f,
      fq_max_calls_per_period = n, fq_period_days = 30\<rparr> s"
  using assms by (auto simp: check_ai_calls_def set_call_quota_def res_bind_Inr_iff Let_def)

text \<open>
  After a routed request of the firm its quota is its limit; the requests of others leave it.
\<close>

lemma api_route_keeps_quota:
  assumes lim: "limit_for firm QD_AI_CALLS sh = Inr n" and t: "t_check \<le> t_record"
    and w: "call_times (fa_calls st) ''firm'' firm = old @ news" "windows_bounded (days 30) n news"
    and q: "rr_firm_id req = firm \<or> quota_kept firm n old st"
  shows "quota_kept firm n old (snd (api_route t_gate t_check t_record duration req sh st))"
proof (cases "check_ai_calls t_gate (rr_firm_id req) sh (fa_calls st)")
  case (Inl e)
  have "rr_firm_id req \<noteq> firm"
    using Inl lim by (auto simp: check_ai_calls_def set_call_quota_def Let_def)
  then have "quota_kept firm n old st" using q by blast
  then show ?thesis
    using route_keeps_quota [OF _ t] by (auto simp: api_route_snd Inl split: pyexn.split)
next
  case (Inr x)
  obtain allowed s' where x: "x = (allowed, s')" by (cases x)
  obtain k where k: "limit_for (rr_firm_id req) QD_AI_CALLS sh = Inr k"
    and s': "s' = call_store_set_quota \<lparr>fq_scope = ''firm'', fq_scope_id = rr_firm_id req,
      fq_max_calls_per_period = k, fq_period_days = 30\<rparr> (fa_calls st)"
    using check_ai_calls_Inr Inr x by blast
  have "quota_kept firm n old (st\<lparr>fa_calls := s'\<rparr>)"
  proof (cases "rr_firm_id req = firm")
    case True
    then have "k = n" using k lim by simp
    then show ?thesis using True w by (simp add: quota_kept_def s' quota_rows.get_put)
  next
    case False
    then show ?thesis using q by (simp add: quota_kept_def s' quota_rows.get_put)
  qed
  then show ?thesis using route_keeps_quota [OF _ t] by (simp add: api_route_snd Inr x)
qed

lemma fabric_step_keeps_quota:
  assumes "limit_for firm QD_AI_CALLS sh = Inr n" and "op_clocks_ok op" and "quota_kept firm n old st"
  shows "quota_kept firm n old (fabric_step sh op st)"
proof (cases op)
  case (Api_route t_gate t_check t_record duration req)
  moreover obtain news where "call_times (fa_calls st) ''firm'' firm = old @ news" "windows_bounded (days 30) n news"
    using assms(3) by (auto simp: quota_kept_def)
  ultimately show ?thesis using api_route_keeps_quota [OF assms(1)] assms(2,3) by simp
next
  case (Api_plan f description turns)
  then show ?thesis using plan_task_keeps_quota assms(2,3) by simp
qed

lemma fabric_run_keeps_quota:
  "limit_for firm QD_AI_CALLS sh = Inr n \<Longrightarrow> list_all op_clocks_ok ops \<Longrightarrow> quota_kept firm n old st \<Longrightarrow>
     quota_kept firm n old (fold (fabric_step sh) ops st)"
  by (induction ops arbitrary: st) (simp_all add: fabric_step_keeps_quota)

text \<open>
  C8. The limit on AI calls holds over any run of requests of all firms: from the moment a request of
  a firm goes through the route of the API, whatever was called before it, every window of thirty
  days holds at most as many of the calls recorded for that firm from then on as its plan and
  override allow (as long as they stay the same), planned tasks included; a firm that had no call
  before has no window above its limit at all.
\<close>
theorem ai_calls_bounded:
  assumes lim: "limit_for firm QD_AI_CALLS sh = Inr n"
    and first: "rr_firm_id req = firm"
    and clocks: "list_all op_clocks_ok (Api_route t_gate t_check t_record duration req # ops)"
    and final: "st' = fold (fabric_step sh) (Api_route t_gate t_check t_record duration req # ops) st"
  shows "\<exists>news. call_times (fa_calls st') ''firm'' firm = call_times (fa_calls st) ''firm'' firm @ news \<and>
    (\<forall>a. calls_between a (a + days 30) news \<le> max 0 n)"
proof -
  have "quota_kept firm n (call_times (fa_calls st) ''firm'' firm) (snd (api_route t_gate t_check t_record duration req sh st))"
    using clocks by (intro api_route_keeps_quota [OF lim, where news = "[]"]) (simp_all add: first)
  then have "quota_kept firm n (call_times (fa_calls st) ''firm'' firm) st'"
    using fabric_run_keeps_quota [OF lim, of ops] clocks by (simp add: final)
  then show ?thesis by (simp add: quota_kept_def windows_bounded_def)
qed

lemma demo_shop_ai_limit: "limit_for ''firm'' QD_AI_CALLS demo_shop = Inr 1000"
  unfolding limit_for_def demo_shop_plan
  by (simp add: get_plan_def demo_catalog_basic base_limit_def demo_shop_def)

theorem ai_calls_bounded_witness:
  "calls_between 0 (days 30) (call_times (fa_calls (fabric_step demo_shop (Api_route 4 5 6 (Fin 1) demo_routing) demo_fabric))
      ''firm'' ''firm'') \<le> 1000"
proof -
  have "call_times (fa_calls demo_fabric) ''firm'' ''firm'' = []"
    by (simp add: demo_fabric_def empty_call_store_def call_times_def)
  with ai_calls_bounded [OF demo_shop_ai_limit, of demo_routing 4 5 6 "Fin 1" "[]" _ demo_fabric]
  show ?thesis by (auto simp: demo_routing_def dest: spec [of _ 0])
qed

lemma eligible_calls [simp]: "eligible req (st\<lparr>fa_calls := x\<rparr>) = eligible req st"
  by (simp add: eligible_def fun_eq_iff)

lemma route_succeeds:
  assumes "m \<in> set (list_models (fa_models st))" and "eligible req st m"
    and "check_call_quota t_check ''firm'' (rr_firm_id req) (fa_calls st)"
  shows "\<exists>d. fst (route t_check t_record duration req st) = Inr d"
proof -
  have "m \<in> set (fst (route_candidates req st))" using assms(1,2) by (simp add: route_candidates_fst)
  then obtain c cs reasons where "route_candidates req st = (c # cs, reasons)"
    by (cases "route_candidates req st"; cases "fst (route_candidates req st)") auto
  then show ?thesis using assms(3) by (simp add: route_def select_model_def Let_def)
qed

lemma calls_expired: "\<forall>t \<in> set (call_times s sc i). t + days period < now \<Longrightarrow> calls_in_period now sc i period s = 0"
  by (fastforce simp: calls_in_period_def Let_def filter_empty_conv)

text \<open>
  C33. A firm is never refused for good: once thirty days have passed since its last recorded call, a
  request for which a model is eligible is served, if the limit allows any call at all.
\<close>
theorem routing_resumes:
  assumes lim: "limit_for (rr_firm_id req) QD_AI_CALLS sh = Inr n" and pos: "0 < n"
    and old: "\<forall>t \<in> set (call_times (fa_calls st) ''firm'' (rr_firm_id req)). t + days 30 < t_gate"
    and t: "t_gate \<le> t_check"
    and m: "m \<in> set (list_models (fa_models st))" "eligible req st m"
  shows "\<exists>d st'. api_route t_gate t_check t_record duration req sh st = (Answered d, st')"
proof -
  let ?f = "rr_firm_id req"
  let ?q = "\<lparr>fq_scope = ''firm'', fq_scope_id = ?f, fq_max_calls_per_period = n, fq_period_days = 30\<rparr>"
  let ?s = "call_store_set_quota ?q (fa_calls st)"
  have quota: "call_store_get_quota ?s (''firm'', ?f) = Some ?q" by (simp add: quota_rows.get_put)
  have free: "check_call_quota now ''firm'' ?f ?s" if "t_gate \<le> now" for now
  proof -
    have "calls_in_period now ''firm'' ?f 30 ?s = 0"
      by (rule calls_expired) (use old that in fastforce)
    then show ?thesis using pos by (simp add: check_call_quota_def quota)
  qed
  have gate: "check_ai_calls t_gate ?f sh (fa_calls st) = Inr (True, ?s)"
    using free [of t_gate] by (simp add: check_ai_calls_def set_call_quota_def lim Let_def)
  obtain d where "fst (route t_check t_record duration req (st\<lparr>fa_calls := ?s\<rparr>)) = Inr d"
    using route_succeeds [of m "st\<lparr>fa_calls := ?s\<rparr>" req t_check t_record duration] free [OF t] m by auto
  then show ?thesis
    by (cases "route t_check t_record duration req (st\<lparr>fa_calls := ?s\<rparr>)") (simp add: api_route_def gate)
qed

theorem routing_resumes_witness:
  "\<exists>d st'. api_route (days 40) (days 40) (days 40) (Fin 1) demo_routing demo_shop
     (demo_fabric\<lparr>fa_calls := record_quota_call 0 ''firm'' ''firm'' empty_call_store\<rparr>) = (Answered d, st')"
proof (rule routing_resumes)
  show "limit_for (rr_firm_id demo_routing) QD_AI_CALLS demo_shop = Inr 1000"
    using demo_shop_ai_limit by (simp add: demo_routing_def)
  show "eligible demo_routing (demo_fabric\<lparr>fa_calls := record_quota_call 0 ''firm'' ''firm'' empty_call_store\<rparr>)
      (demo_model ''b'' (Fin 1) (Fin 1))"
    by (simp add: demo_eligible)
  show "demo_model ''b'' (Fin 1) (Fin 1) \<in> set (list_models (fa_models
      (demo_fabric\<lparr>fa_calls := record_quota_call 0 ''firm'' ''firm'' empty_call_store\<rparr>)))"
    using demo_models by simp
qed (simp_all add: demo_routing_def call_times_def empty_call_store_def
      record_quota_call_def store_defs)

section \<open>What a plan costs\<close>

abbreviation routed_turns :: "(sub_task \<times> datetime \<times> datetime \<times> pyfloat) list \<Rightarrow> nat" where
  "routed_turns turns \<equiv> length (filter (\<lambda>turn. sk_kind (fst turn) \<noteq> SK_CRITIQUE) turns)"

lemma route_no_quota:
  "call_store_get_quota (fa_calls st) (''firm'', rr_firm_id req) = None \<Longrightarrow>
     fst (route t_check t_record duration req st) \<noteq> Inl (QuotaExceededError f)"
  by (auto simp: route_def select_model_def check_call_quota_def Let_def split: prod.splits list.splits)

lemma plan_steps_spec:
  "\<exists>ts. (\<forall>sc i. call_times (fa_calls (snd (plan_steps f description turns st))) sc i =
        call_times (fa_calls st) sc i @ (if (sc, i) = (''firm'', f) then ts else [])) \<and>
     (case fst (plan_steps f description turns st) of
        Inr steps \<Rightarrow> map ps_sub_task steps = map fst turns \<and> length ts = routed_turns turns
      | Inl e \<Rightarrow> length ts < routed_turns turns \<and>
          (call_store_get_quota (fa_calls st) (''firm'', f) = None \<longrightarrow> (\<forall>x. e \<noteq> QuotaExceededError x)))"
proof (induction f description turns st rule: plan_steps.induct)
  case (2 f description sub t_check t_record duration turns st)
  show ?case
  proof (cases "sk_kind sub = SK_CRITIQUE")
    case True
    then show ?thesis using "2.IH"(1) [OF True] by (auto split: prod.splits sum.splits)
  next
    case False
    let ?req = "request_of_task f description sub"
    have firm: "rr_firm_id ?req = f" by (simp add: request_of_task_def)
    obtain r st' ev where run: "route t_check t_record duration ?req st = (r, st', ev)" by (metis surj_pair)
    note calls = route_calls [of t_check t_record duration ?req st, unfolded run firm fst_conv snd_conv]
    note quota = route_frame(2) [of t_check t_record duration ?req st, unfolded run fst_conv snd_conv]
    show ?thesis
    proof (cases r)
      case (Inl e)
      have "call_store_get_quota (fa_calls st) (''firm'', f) = None \<longrightarrow> (\<forall>x. e \<noteq> QuotaExceededError x)"
        using route_no_quota [of st ?req t_check t_record duration] by (auto simp: firm run Inl)
      then show ?thesis using False by (intro exI [of _ "[]"]) (simp add: run Inl calls)
    next
      case (Inr d)
      obtain ts where ts: "\<forall>sc i. call_times (fa_calls (snd (plan_steps f description turns st'))) sc i =
            call_times (fa_calls st') sc i @ (if (sc, i) = (''firm'', f) then ts else [])"
        and res: "case fst (plan_steps f description turns st') of
            Inr steps \<Rightarrow> map ps_sub_task steps = map fst turns \<and> length ts = routed_turns turns
          | Inl e \<Rightarrow> length ts < routed_turns turns \<and>
              (call_store_get_quota (fa_calls st') (''firm'', f) = None \<longrightarrow> (\<forall>x. e \<noteq> QuotaExceededError x))"
        using "2.IH"(2) [OF False run [symmetric] Inr refl] by blast
      obtain out st2 where rest: "plan_steps f description turns st' = (out, st2)" by (metis surj_pair)
      show ?thesis
        using False ts res by (intro exI [of _ "t_record # ts"]) (cases out; simp add: run rest Inr calls quota)
    qed
  qed
qed (auto intro: exI [of _ "[]"])

text \<open>
  Planning a task charges its firm one call for every step that is routed, the review step none,
  and no other firm. When a step fails the plan is lost but the calls of the steps before it stay
  charged. A firm whose quota was never set, because none of its requests went through the route of
  the API, is never refused for its quota.
\<close>
theorem plan_charges:
  assumes "plan_task firm description turns st = (outcome, st')"
  shows "\<exists>ts. (\<forall>sc i. call_times (fa_calls st') sc i =
        call_times (fa_calls st) sc i @ (if (sc, i) = (''firm'', firm) then ts else [])) \<and>
     (case outcome of
        Inr p \<Rightarrow> map ps_sub_task (ep_steps p) = map fst turns \<and> length ts = routed_turns turns
      | Inl e \<Rightarrow> length ts < routed_turns turns \<and>
          (call_store_get_quota (fa_calls st) (''firm'', firm) = None \<longrightarrow> (\<forall>x. e \<noteq> QuotaExceededError x)))"
proof -
  obtain out st2 where run: "plan_steps firm description turns st = (out, st2)" by (metis surj_pair)
  obtain ts where "(\<forall>sc i. call_times (fa_calls st2) sc i =
        call_times (fa_calls st) sc i @ (if (sc, i) = (''firm'', firm) then ts else [])) \<and>
     (case out of
        Inr steps \<Rightarrow> map ps_sub_task steps = map fst turns \<and> length ts = routed_turns turns
      | Inl e \<Rightarrow> length ts < routed_turns turns \<and>
          (call_store_get_quota (fa_calls st) (''firm'', firm) = None \<longrightarrow> (\<forall>x. e \<noteq> QuotaExceededError x)))"
    using plan_steps_spec [of firm description turns st] by (auto simp: run)
  then show ?thesis
    using assms by (intro exI [of _ ts]) (cases out; auto simp: plan_task_def run)
qed

theorem plan_charges_witness:
  "\<exists>ts st' p. plan_task ''firm'' ''d'' [(\<lparr>sk_name = ''s'', sk_kind = SK_ROUTE, sk_profile = Some MP_DRAFTING\<rparr>, 5, 6, Fin 1),
       (\<lparr>sk_name = ''c'', sk_kind = SK_CRITIQUE, sk_profile = None\<rparr>, 7, 8, Fin 1)] demo_fabric = (p, st') \<and>
     call_times (fa_calls st') ''firm'' ''firm'' = ts \<and> length ts \<le> 1"
proof -
  let ?turns = "[(\<lparr>sk_name = ''s'', sk_kind = SK_ROUTE, sk_profile = Some MP_DRAFTING\<rparr>, 5, 6, Fin 1),
       (\<lparr>sk_name = ''c'', sk_kind = SK_CRITIQUE, sk_profile = None\<rparr>, 7 :: datetime, 8 :: datetime, Fin 1)]"
  obtain p st' where run: "plan_task ''firm'' ''d'' ?turns demo_fabric = (p, st')" by (metis surj_pair)
  have none: "call_times (fa_calls demo_fabric) ''firm'' ''firm'' = []"
    by (simp add: demo_fabric_def empty_call_store_def call_times_def)
  obtain ts where calls: "\<forall>sc i. call_times (fa_calls st') sc i =
        call_times (fa_calls demo_fabric) sc i @ (if (sc, i) = (''firm'', ''firm'') then ts else [])"
    and "case p of
        Inr p \<Rightarrow> map ps_sub_task (ep_steps p) = map fst ?turns \<and> length ts = routed_turns ?turns
      | Inl e \<Rightarrow> length ts < routed_turns ?turns \<and>
          (call_store_get_quota (fa_calls demo_fabric) (''firm'', ''firm'') = None \<longrightarrow> (\<forall>x. e \<noteq> QuotaExceededError x))"
    using plan_charges [OF run] by blast
  then have "length ts \<le> 1" by (cases p) simp_all
  then show ?thesis using run calls none by (intro exI [of _ ts] exI [of _ st'] exI [of _ p]) simp
qed

section \<open>Fallback\<close>

definition serves :: "model_registry \<Rightarrow> pystr \<Rightarrow> bool" where
  "serves r name \<longleftrightarrow> (case get_model r name of None \<Rightarrow> False | Some m \<Rightarrow> mo_availability m)"

lemma walk_chain_Cons:
  "walk_chain r index (n # ns) fb =
     (if serves r n then (get_model r n, if 0 < index then fb\<lparr>fb_fallbacks := fb_fallbacks fb + 1\<rparr> else fb)
      else walk_chain r (Suc index) ns fb)"
  by (auto simp: serves_def split: option.splits)

lemma walk_chain_spec:
  "walk_chain r index names fb =
     (case dropWhile (\<lambda>n. \<not> serves r n) names of
        [] \<Rightarrow> (None, fb)
      | n # _ \<Rightarrow> (get_model r n,
          if 0 < index + length (takeWhile (\<lambda>n. \<not> serves r n) names)
          then fb\<lparr>fb_fallbacks := fb_fallbacks fb + 1\<rparr> else fb))"
  by (induction names arbitrary: index) (simp_all add: walk_chain_Cons del: walk_chain.simps(2) split: list.split)

text \<open>
  Resolution serves the first name of the chain that is registered and available, whatever comes
  after it, and fails exactly when none is, with the whole chain. Every resolution is counted, a
  fallback only when the primary was passed over, so the fallbacks never exceed the resolutions.
\<close>
theorem resolve_exact:
  assumes "resolve_model primary fallbacks r fb = (outcome, fb')"
  shows "(case outcome of
      Inr m \<Rightarrow> (\<exists>us name vs. primary # fallbacks = us @ name # vs \<and> get_model r name = Some m \<and> mo_availability m \<and>
        (\<forall>u \<in> set us. \<not> serves r u) \<and> fb_fallbacks fb' = fb_fallbacks fb + (if serves r primary then 0 else 1))
    | Inl names \<Rightarrow> names = primary # fallbacks \<and> (\<forall>u \<in> set names. \<not> serves r u) \<and> fb_fallbacks fb' = fb_fallbacks fb) \<and>
    fb_total fb' = fb_total fb + 1 \<and>
    (0 \<le> fb_fallbacks fb \<and> fb_fallbacks fb \<le> fb_total fb \<longrightarrow> 0 \<le> fb_fallbacks fb' \<and> fb_fallbacks fb' \<le> fb_total fb')"
proof (cases "dropWhile (\<lambda>n. \<not> serves r n) (primary # fallbacks)")
  case Nil
  then have "\<forall>u \<in> set (primary # fallbacks). \<not> serves r u" by (simp only: dropWhile_eq_Nil_conv)
  moreover have "outcome = Inl (primary # fallbacks)" and "fb' = fb\<lparr>fb_total := fb_total fb + 1\<rparr>"
    using assms by (simp_all add: resolve_model_def walk_chain_spec Nil Let_def del: dropWhile.simps walk_chain.simps)
  ultimately show ?thesis by simp
next
  case (Cons name vs)
  have name: "serves r name" using Cons hd_dropWhile [of "\<lambda>n. \<not> serves r n" "primary # fallbacks"] by simp
  then obtain m where m: "get_model r name = Some m" "mo_availability m" by (auto simp: serves_def split: option.splits)
  let ?us = "takeWhile (\<lambda>n. \<not> serves r n) (primary # fallbacks)"
  have chain: "primary # fallbacks = ?us @ name # vs" by (metis Cons takeWhile_dropWhile_id)
  have us: "\<forall>u \<in> set ?us. \<not> serves r u" by (blast dest: set_takeWhileD)
  have first: "?us = [] \<longleftrightarrow> serves r primary" by simp
  have out: "outcome = Inr m" and fb': "fb' = (if serves r primary then fb\<lparr>fb_total := fb_total fb + 1\<rparr>
      else fb\<lparr>fb_total := fb_total fb + 1, fb_fallbacks := fb_fallbacks fb + 1\<rparr>)"
    using assms by (simp_all add: resolve_model_def walk_chain_spec Cons m Let_def del: dropWhile.simps walk_chain.simps split: if_splits)
  have "\<exists>us name vs. primary # fallbacks = us @ name # vs \<and> get_model r name = Some m \<and> mo_availability m \<and>
      (\<forall>u \<in> set us. \<not> serves r u) \<and> fb_fallbacks fb' = fb_fallbacks fb + (if serves r primary then 0 else 1)"
    by (intro exI [of _ ?us] exI [of _ name] exI [of _ vs] conjI chain m us) (simp add: fb')
  moreover have "fb_total fb' = fb_total fb + 1" by (simp add: fb')
  moreover have "0 \<le> fb_fallbacks fb \<and> fb_fallbacks fb \<le> fb_total fb \<longrightarrow> 0 \<le> fb_fallbacks fb' \<and> fb_fallbacks fb' \<le> fb_total fb'"
    by (simp add: fb')
  ultimately show ?thesis unfolding out sum.case by blast
qed

theorem resolve_exact_witness:
  "\<exists>m. resolve_model ''x'' [''b''] (fa_models demo_fabric) \<lparr>fb_total = 0, fb_fallbacks = 0\<rparr> =
     (Inr m, \<lparr>fb_total = 1, fb_fallbacks = 1\<rparr>) \<and> mo_availability m"
proof -
  obtain m where run: "resolve_model ''x'' [''b''] (fa_models demo_fabric) \<lparr>fb_total = 0, fb_fallbacks = 0\<rparr> =
     (Inr m, \<lparr>fb_total = 1, fb_fallbacks = 1\<rparr>)"
    by (simp add: resolve_model_def demo_fabric_def store_defs demo_model_def Let_def)
  from resolve_exact [OF run] show ?thesis using run by auto
qed

end
