(* ===== verification/Lifecycles.thy ===== *)
theory Lifecycles
  imports Prelude
begin

text \<open>
  Objects that move through states along allowed transitions and keep the history of their moves: the
  manifests of plugins, the members of a workspace, incidents. What every such component relies on is
  stated once: a history is a path, it only grows, and a state without successors is final.
\<close>

section \<open>Paths\<close>

text \<open>The events lead from \<open>a\<close> to \<open>b\<close>, each from where the one before it ended, by an allowed transition.\<close>

fun lifecycle_path :: "('s \<Rightarrow> 's list) \<Rightarrow> ('e \<Rightarrow> 's) \<Rightarrow> ('e \<Rightarrow> 's) \<Rightarrow> 's \<Rightarrow> 'e list \<Rightarrow> 's \<Rightarrow> bool" where
  "lifecycle_path allowed from to a [] b = (a = b)"
| "lifecycle_path allowed from to a (e # es) b =
     (from e = a \<and> to e \<in> set (allowed a) \<and> lifecycle_path allowed from to (to e) es b)"

lemma lifecycle_path_append:
  "lifecycle_path allowed from to a (es @ fs) c \<longleftrightarrow>
     (\<exists>b. lifecycle_path allowed from to a es b \<and> lifecycle_path allowed from to b fs c)"
  by (induction es arbitrary: a) auto

lemma lifecycle_path_snoc:
  "lifecycle_path allowed from to a (es @ [e]) c \<longleftrightarrow>
     (\<exists>b. lifecycle_path allowed from to a es b \<and> from e = b \<and> to e \<in> set (allowed b) \<and> to e = c)"
  by (simp add: lifecycle_path_append)

text \<open>The last step of a path names the state before it, so a path to a late state ends in a fixed way.\<close>

lemma lifecycle_path_last:
  assumes "lifecycle_path allowed from to a es b" and "a \<noteq> b"
  obtains es' e where "es = es' @ [e]" and "to e = b"
    and "lifecycle_path allowed from to a es' (from e)" and "b \<in> set (allowed (from e))"
  using assms by (cases es rule: rev_cases) (auto simp: lifecycle_path_snoc)

section \<open>The contract of a lifecycle\<close>

text \<open>
  \<open>advance x y\<close>: the code moves an object from \<open>x\<close> to \<open>y\<close>. The law is what each component discharges for
  its own operations; \<open>reaches\<close> is any number of such moves.
\<close>

locale lifecycle =
  fixes allowed :: "'s \<Rightarrow> 's list"
    and ev_from :: "'e \<Rightarrow> 's"
    and ev_to :: "'e \<Rightarrow> 's"
    and start :: 's
    and status :: "'o \<Rightarrow> 's"
    and history :: "'o \<Rightarrow> 'e list"
    and advance :: "'o \<Rightarrow> 'o \<Rightarrow> bool"
  assumes advance_law: "advance x y \<Longrightarrow> status y \<in> set (allowed (status x)) \<and>
    (\<exists>e. history y = history x @ [e] \<and> ev_from e = status x \<and> ev_to e = status y)"
begin

definition path_ok :: "'o \<Rightarrow> bool" where
  "path_ok x \<longleftrightarrow> lifecycle_path allowed ev_from ev_to start (history x) (status x)"

lemma path_ok_advance: "path_ok x \<Longrightarrow> advance x y \<Longrightarrow> path_ok y"
  using advance_law [of x y] by (auto simp: path_ok_def lifecycle_path_snoc)

lemma final_stays: "allowed (status x) = [] \<Longrightarrow> \<not> advance x y"
  using advance_law [of x y] by auto

lemma path_ok_reaches: "advance\<^sup>*\<^sup>* x y \<Longrightarrow> path_ok x \<Longrightarrow> path_ok y"
  by (induction rule: rtranclp_induct) (auto intro: path_ok_advance)

lemma history_grows: "advance\<^sup>*\<^sup>* x y \<Longrightarrow> \<exists>tail. history y = history x @ tail"
proof (induction rule: rtranclp_induct)
  case (step y z)
  then show ?case using advance_law [of y z] by auto
qed simp

lemma reaches_path:
  "advance\<^sup>*\<^sup>* x y \<Longrightarrow> history y = history x @ tail \<Longrightarrow> lifecycle_path allowed ev_from ev_to (status x) tail (status y)"
proof (induction arbitrary: tail rule: rtranclp_induct)
  case (step y z)
  obtain e where e: "history z = history y @ [e]" "ev_from e = status y" "ev_to e = status z" "status z \<in> set (allowed (status y))"
    using advance_law [OF step.hyps(2)] by blast
  obtain tail' where t: "history y = history x @ tail'" using history_grows [OF step.hyps(1)] by blast
  then have "tail = tail' @ [e]" using step.prems e(1) by simp
  then show ?case using step.IH [OF t] e by (simp add: lifecycle_path_snoc)
qed simp

end

end
