(* ===== verification/Plugins.thy ===== *)
theory Plugins
  imports Licences Lifecycles
begin

text \<open>
  Plugins of \<^verbatim>\<open>platform_sdk\<close>: manifests and their registry, validation with the search for circular
  dependencies, and the publishing lifecycle. The French sentence of a validation issue is a value
  that carries what is formatted into it; a \<open>frozenset\<close> whose order shows is a list.
\<close>

section \<open>Manifests\<close>

datatype plugin_type = PG_AGENT | PG_CONNECTOR | PG_WORKFLOW | PG_DOCUMENT_TEMPLATE | PG_TOOL | PG_COPILOT

datatype publishing_status = PB_DEVELOPMENT | PB_VALIDATED | PB_SIGNED | PB_PUBLISHED | PB_RETIRED

record plugin_manifest =
  pm_id :: pystr
  pm_name :: pystr
  pm_version :: pystr
  pm_plugin_type :: plugin_type
  pm_author :: pystr
  pm_description :: pystr
  pm_license :: pystr
  pm_permissions :: "pystr list"
  pm_dependencies :: "pystr list"
  pm_compatibility :: pystr
  pm_signature :: "pystr option"
  pm_status :: publishing_status
  pm_created_at :: datetime

type_synonym plugin_registry = "(pystr, plugin_manifest) dict"

definition register_plugin :: "plugin_manifest \<Rightarrow> plugin_registry \<Rightarrow> plugin_registry" where
  [store_defs]: "register_plugin m r = dict_set (pm_id m) m r"

definition get_plugin :: "plugin_registry \<Rightarrow> pystr \<Rightarrow> plugin_manifest option" where
  [store_defs]: "get_plugin r plugin_id = dict_get r plugin_id"

definition list_plugins :: "plugin_registry \<Rightarrow> plugin_manifest list" where
  "list_plugins r = dict_values r"

definition plugins_by_type :: "plugin_type \<Rightarrow> plugin_registry \<Rightarrow> plugin_manifest list" where
  "plugins_by_type ty r = filter (\<lambda>m. pm_plugin_type m = ty) (dict_values r)"

interpretation plugin_rows: keyed_store pm_id register_plugin get_plugin "keyed pm_id"
  using keyed_store_dict [of pm_id] by (simp add: register_plugin_def [abs_def] get_plugin_def [abs_def])

section \<open>Permissions an extension may be granted\<close>

datatype extension_permission =
  XP_READ_CASES | XP_READ_DOCUMENTS | XP_CREATE_DRAFTS | XP_ACCESS_RESEARCH | XP_ACCESS_KNOWLEDGE | XP_MANAGE_USERS

fun extension_permission_value :: "extension_permission \<Rightarrow> pystr" where
  "extension_permission_value XP_READ_CASES = ''read_cases''"
| "extension_permission_value XP_READ_DOCUMENTS = ''read_documents''"
| "extension_permission_value XP_CREATE_DRAFTS = ''create_drafts''"
| "extension_permission_value XP_ACCESS_RESEARCH = ''access_research''"
| "extension_permission_value XP_ACCESS_KNOWLEDGE = ''access_knowledge''"
| "extension_permission_value XP_MANAGE_USERS = ''manage_users''"

definition extension_permissions :: "extension_permission list" where
  "extension_permissions =
     [XP_READ_CASES, XP_READ_DOCUMENTS, XP_CREATE_DRAFTS, XP_ACCESS_RESEARCH, XP_ACCESS_KNOWLEDGE, XP_MANAGE_USERS]"

text \<open>\<open>ExtensionPermission(s)\<close>, which raises \<open>ValueError\<close> for any other string.\<close>

definition extension_permission_of :: "pystr \<Rightarrow> extension_permission option" where
  "extension_permission_of s = List.find (\<lambda>p. extension_permission_value p = s) extension_permissions"

section \<open>Validation\<close>

definition sdk_version :: pystr where
  "sdk_version = ''1.0.0''"

datatype validation_issue =
    Identifiant_obligatoire
  | Nom_obligatoire
  | Version_obligatoire
  | Licence_obligatoire
  | Description_obligatoire
  | Permission_inconnue pystr
  | Incompatible_avec_sdk pystr
  | Dependance_vers_soi pystr
  | Dependance_introuvable pystr
  | Dependance_circulaire pystr
  | Signature_invalide

definition canonical_payload :: "plugin_manifest \<Rightarrow> pystr" where
  "canonical_payload m = pm_id m @ '':'' @ pm_version m @ '':'' @ pm_author m"

definition check_conformity :: "plugin_manifest \<Rightarrow> validation_issue list" where
  "check_conformity m =
     (if pm_id m = [] then [Identifiant_obligatoire] else []) @
     (if pm_name m = [] then [Nom_obligatoire] else []) @
     (if pm_version m = [] then [Version_obligatoire] else []) @
     (if pm_license m = [] then [Licence_obligatoire] else []) @
     (if pm_description m = [] then [Description_obligatoire] else [])"

definition check_permissions :: "plugin_manifest \<Rightarrow> validation_issue list" where
  "check_permissions m =
     map Permission_inconnue (filter (\<lambda>p. extension_permission_of p = None) (pm_permissions m))"

definition check_compatibility :: "plugin_manifest \<Rightarrow> validation_issue list" where
  "check_compatibility m =
     (if pm_compatibility m = ''*'' \<or> pm_compatibility m = sdk_version then []
      else [Incompatible_avec_sdk (pm_compatibility m)])"

text \<open>The first exception of a loop.\<close>

fun first_some :: "('a \<Rightarrow> 'b option) \<Rightarrow> 'a list \<Rightarrow> 'b option" where
  "first_some f [] = None"
| "first_some f (x # xs) = (case f x of Some y \<Rightarrow> Some y | None \<Rightarrow> first_some f xs)"

lemma first_some_cong [fundef_cong]:
  "xs = ys \<Longrightarrow> (\<And>x. x \<in> set ys \<Longrightarrow> f x = g x) \<Longrightarrow> first_some f xs = first_some g ys"
  by (induction ys arbitrary: xs) (auto split: option.split)

lemma first_some_None: "first_some f xs = None \<longleftrightarrow> (\<forall>x \<in> set xs. f x = None)"
  by (induction xs) (auto split: option.split)

text \<open>
  The search for a cycle: \<open>Some i\<close> is \<open>CircularDependencyError\<close> on \<open>i\<close>. Every call adds a registered
  plugin to those visited, so the search ends.
\<close>

function assert_no_cycle :: "plugin_registry \<Rightarrow> pystr \<Rightarrow> pystr \<Rightarrow> pystr list \<Rightarrow> pystr option" where
  "assert_no_cycle r root current visited =
     (if current \<in> set visited then Some current
      else (case get_plugin r current of
              None \<Rightarrow> None
            | Some m \<Rightarrow>
                first_some
                  (\<lambda>d. if d = root then Some root else assert_no_cycle r root d (current # visited))
                  (pm_dependencies m)))"
  by pat_completeness auto

termination
proof (relation "measure (\<lambda>(r, root, current, visited). card (fst ` set r - set visited))")
  fix r :: plugin_registry and root current visited m d
  assume new: "current \<notin> set visited" and "get_plugin r current = Some m"
  then have "current \<in> fst ` set r - set visited"
    by (metis DiffI get_plugin_def domI dom_map_of_conv_image_fst)
  then have "card (fst ` set r - set (current # visited)) < card (fst ` set r - set visited)"
    by (intro psubset_card_mono) auto
  then show "((r, root, d, current # visited), r, root, current, visited)
      \<in> measure (\<lambda>(r, root, current, visited). card (fst ` set r - set visited))"
    by simp
qed simp

declare assert_no_cycle.simps [simp del]

fun check_dependency_list :: "plugin_registry \<Rightarrow> pystr \<Rightarrow> pystr list \<Rightarrow> validation_issue list" where
  "check_dependency_list r root [] = []"
| "check_dependency_list r root (d # ds) =
     (if d = root then [Dependance_vers_soi d]
      else if get_plugin r d = None then [Dependance_introuvable d]
      else (case assert_no_cycle r root d [root] of None \<Rightarrow> [] | Some i \<Rightarrow> [Dependance_circulaire i])) @
     check_dependency_list r root ds"

definition check_dependencies :: "plugin_registry \<Rightarrow> plugin_manifest \<Rightarrow> validation_issue list" where
  "check_dependencies r m = check_dependency_list r (pm_id m) (pm_dependencies m)"

definition sign_plugin :: "(pystr \<Rightarrow> pystr) \<Rightarrow> plugin_manifest \<Rightarrow> pystr" where
  "sign_plugin mac m = sign_payload mac (canonical_payload m)"

definition verify_plugin_signature :: "(pystr \<Rightarrow> pystr) \<Rightarrow> plugin_manifest \<Rightarrow> bool result" where
  "verify_plugin_signature mac m =
     (case pm_signature m of
        None \<Rightarrow> Inr False
      | Some sig \<Rightarrow> res_bind (verify_key mac sig) (\<lambda>decoded. Inr (decoded = Some (canonical_payload m))))"

definition check_signature :: "(pystr \<Rightarrow> pystr) \<Rightarrow> plugin_manifest \<Rightarrow> validation_issue list result" where
  "check_signature mac m =
     res_bind (verify_plugin_signature mac m) (\<lambda>ok. Inr (if ok then [] else [Signature_invalide]))"

definition validate_plugin ::
    "(pystr \<Rightarrow> pystr) \<Rightarrow> plugin_registry \<Rightarrow> plugin_manifest \<Rightarrow> validation_issue list result" where
  "validate_plugin mac r m =
     (let issues = check_conformity m @ check_permissions m @ check_compatibility m @ check_dependencies r m
      in if pm_signature m \<noteq> None then res_bind (check_signature mac m) (\<lambda>more. Inr (issues @ more))
         else Inr issues)"

section \<open>Publishing\<close>

fun allowed_transitions :: "publishing_status \<Rightarrow> publishing_status list" where
  "allowed_transitions PB_DEVELOPMENT = [PB_VALIDATED]"
| "allowed_transitions PB_VALIDATED = [PB_SIGNED, PB_DEVELOPMENT]"
| "allowed_transitions PB_SIGNED = [PB_PUBLISHED, PB_DEVELOPMENT]"
| "allowed_transitions PB_PUBLISHED = [PB_RETIRED]"
| "allowed_transitions PB_RETIRED = []"

record publishing_event =
  pe_id :: pystr
  pe_plugin_id :: pystr
  pe_from_status :: publishing_status
  pe_to_status :: publishing_status
  pe_actor :: pystr
  pe_reason :: "pystr option"
  pe_created_at :: datetime

definition publishing_append :: "publishing_event \<Rightarrow> publishing_event list \<Rightarrow> publishing_event list" where
  [store_defs]: "publishing_append e es = es @ [e]"

definition publishing_history :: "publishing_event list \<Rightarrow> pystr \<Rightarrow> publishing_event list" where
  [store_defs]: "publishing_history es plugin_id = filter (\<lambda>e. pe_plugin_id e = plugin_id) es"

interpretation publishing_journal: journal publishing_append "\<lambda>es. es" pe_plugin_id publishing_history
  by unfold_locales (auto simp: store_defs)

record publishing_desk =
  pk_registry :: plugin_registry
  pk_events :: "publishing_event list"

datatype publishing_error =
    Unknown_plugin pystr
  | Validation_failed pystr "validation_issue list"
  | Invalid_transition publishing_status publishing_status
  | Publishing_raised pyexn

definition transition ::
    "pystr \<Rightarrow> datetime \<Rightarrow> plugin_manifest \<Rightarrow> publishing_status \<Rightarrow> pystr \<Rightarrow> pystr option \<Rightarrow> publishing_desk
       \<Rightarrow> (publishing_error + plugin_manifest) \<times> publishing_desk" where
  "transition new_id now m to_status actor reason k =
     (if to_status \<notin> set (allowed_transitions (pm_status m)) then (Inl (Invalid_transition (pm_status m) to_status), k)
      else let m' = m\<lparr>pm_status := to_status\<rparr>;
               e = \<lparr>pe_id = new_id, pe_plugin_id = pm_id m', pe_from_status = pm_status m, pe_to_status = to_status,
                    pe_actor = actor, pe_reason = reason, pe_created_at = now\<rparr>
           in (Inr m', k\<lparr>pk_registry := register_plugin m' (pk_registry k),
                         pk_events := publishing_append e (pk_events k)\<rparr>))"

definition validate_manifest ::
    "(pystr \<Rightarrow> pystr) \<Rightarrow> pystr \<Rightarrow> datetime \<Rightarrow> pystr \<Rightarrow> pystr \<Rightarrow> publishing_desk
       \<Rightarrow> (publishing_error + plugin_manifest) \<times> publishing_desk" where
  "validate_manifest mac new_id now plugin_id actor k =
     (case get_plugin (pk_registry k) plugin_id of
        None \<Rightarrow> (Inl (Unknown_plugin plugin_id), k)
      | Some m \<Rightarrow>
          (case validate_plugin mac (pk_registry k) m of
             Inl e \<Rightarrow> (Inl (Publishing_raised e), k)
           | Inr issues \<Rightarrow>
               if issues \<noteq> [] then (Inl (Validation_failed plugin_id issues), k)
               else transition new_id now m PB_VALIDATED actor None k))"

text \<open>The signature is written into the stored manifest before the transition is looked at.\<close>

definition sign_manifest ::
    "(pystr \<Rightarrow> pystr) \<Rightarrow> pystr \<Rightarrow> datetime \<Rightarrow> pystr \<Rightarrow> pystr \<Rightarrow> publishing_desk
       \<Rightarrow> (publishing_error + plugin_manifest) \<times> publishing_desk" where
  "sign_manifest mac new_id now plugin_id actor k =
     (case get_plugin (pk_registry k) plugin_id of
        None \<Rightarrow> (Inl (Unknown_plugin plugin_id), k)
      | Some m \<Rightarrow>
          let m' = m\<lparr>pm_signature := Some (sign_plugin mac m)\<rparr>
          in transition new_id now m' PB_SIGNED actor None
               (k\<lparr>pk_registry := register_plugin m' (pk_registry k)\<rparr>))"

definition move_manifest ::
    "publishing_status \<Rightarrow> pystr \<Rightarrow> datetime \<Rightarrow> pystr \<Rightarrow> pystr \<Rightarrow> pystr option \<Rightarrow> publishing_desk
       \<Rightarrow> (publishing_error + plugin_manifest) \<times> publishing_desk" where
  "move_manifest to_status new_id now plugin_id actor reason k =
     (case get_plugin (pk_registry k) plugin_id of
        None \<Rightarrow> (Inl (Unknown_plugin plugin_id), k)
      | Some m \<Rightarrow> transition new_id now m to_status actor reason k)"

definition publish_manifest ::
    "pystr \<Rightarrow> datetime \<Rightarrow> pystr \<Rightarrow> pystr \<Rightarrow> publishing_desk \<Rightarrow> (publishing_error + plugin_manifest) \<times> publishing_desk" where
  "publish_manifest new_id now plugin_id actor k = move_manifest PB_PUBLISHED new_id now plugin_id actor None k"

definition retire_manifest ::
    "pystr \<Rightarrow> datetime \<Rightarrow> pystr \<Rightarrow> pystr \<Rightarrow> pystr option \<Rightarrow> publishing_desk
       \<Rightarrow> (publishing_error + plugin_manifest) \<times> publishing_desk" where
  "retire_manifest = move_manifest PB_RETIRED"

definition send_back_to_development ::
    "pystr \<Rightarrow> datetime \<Rightarrow> pystr \<Rightarrow> pystr \<Rightarrow> pystr option \<Rightarrow> publishing_desk
       \<Rightarrow> (publishing_error + plugin_manifest) \<times> publishing_desk" where
  "send_back_to_development = move_manifest PB_DEVELOPMENT"

text \<open>
  The command \<open>publish-plugin\<close>: each stage runs when the manifest stands where it starts, so one call
  goes through all that are left. The exit status, or the exception that is not caught.
\<close>

definition publish_stage ::
    "publishing_status \<Rightarrow> (publishing_desk \<Rightarrow> (publishing_error + plugin_manifest) \<times> publishing_desk)
       \<Rightarrow> (publishing_error + plugin_manifest) \<times> publishing_desk \<Rightarrow> (publishing_error + plugin_manifest) \<times> publishing_desk" where
  "publish_stage from run r =
     (case r of (Inl e, k) \<Rightarrow> (Inl e, k) | (Inr m, k) \<Rightarrow> if pm_status m = from then run k else (Inr m, k))"

definition publish_command ::
    "(pystr \<Rightarrow> pystr) \<Rightarrow> pystr \<Rightarrow> pystr \<Rightarrow> pystr \<Rightarrow> datetime \<Rightarrow> datetime \<Rightarrow> datetime \<Rightarrow> pystr \<Rightarrow> pystr \<Rightarrow> publishing_desk
       \<Rightarrow> (publishing_error + int) \<times> publishing_desk" where
  "publish_command mac i1 i2 i3 t1 t2 t3 plugin_id actor k =
     (case get_plugin (pk_registry k) plugin_id of
        None \<Rightarrow> (Inr 1, k)
      | Some m \<Rightarrow>
          (case publish_stage PB_SIGNED (publish_manifest i3 t3 plugin_id actor)
                 (publish_stage PB_VALIDATED (sign_manifest mac i2 t2 plugin_id actor)
                   (publish_stage PB_DEVELOPMENT (validate_manifest mac i1 t1 plugin_id actor) (Inr m, k))) of
             (Inr _, k') \<Rightarrow> (Inr 0, k')
           | (Inl (Validation_failed _ _), k') \<Rightarrow> (Inr 1, k')
           | (Inl e, k') \<Rightarrow> (Inl e, k')))"

section \<open>Circular dependencies\<close>

definition depends :: "plugin_registry \<Rightarrow> pystr \<Rightarrow> pystr \<Rightarrow> bool" where
  "depends r a b \<longleftrightarrow> (case get_plugin r a of None \<Rightarrow> False | Some m \<Rightarrow> b \<in> set (pm_dependencies m))"

lemma depends_Some: "get_plugin r a = Some m \<Longrightarrow> depends r a b \<longleftrightarrow> b \<in> set (pm_dependencies m)"
  by (simp add: depends_def)

lemma depends_None: "get_plugin r a = None \<Longrightarrow> \<not> depends r a b"
  by (simp add: depends_def)

text \<open>The search succeeds exactly when no visited plugin and no cycle can be reached.\<close>

lemma assert_no_cycle_None:
  "root \<in> set visited \<Longrightarrow> assert_no_cycle r root current visited = None \<longleftrightarrow>
     (\<forall>x. (depends r)\<^sup>*\<^sup>* current x \<longrightarrow> x \<notin> set visited \<and> \<not> (depends r)\<^sup>+\<^sup>+ x x)"
proof (induction r root current visited rule: assert_no_cycle.induct)
  case (1 r root current visited)
  show ?case
  proof (cases "current \<in> set visited")
    case True
    then show ?thesis by (subst assert_no_cycle.simps) auto
  next
    case new: False
    show ?thesis
    proof (cases "get_plugin r current")
      case None
      have "x = current" if "(depends r)\<^sup>*\<^sup>* current x" for x
        using that depends_None [OF None] by (cases rule: converse_rtranclpE) auto
      moreover have "\<not> (depends r)\<^sup>+\<^sup>+ current current"
        using depends_None [OF None] by (meson tranclpD)
      ultimately show ?thesis using new None by (subst assert_no_cycle.simps) auto
    next
      case (Some m)
      note dep = depends_Some [OF Some]
      have IH: "assert_no_cycle r root d (current # visited) = None \<longleftrightarrow>
          (\<forall>x. (depends r)\<^sup>*\<^sup>* d x \<longrightarrow> x \<notin> set (current # visited) \<and> \<not> (depends r)\<^sup>+\<^sup>+ x x)"
        if "d \<in> set (pm_dependencies m)" and "d \<noteq> root" for d
        by (rule "1.IH" [OF new Some that]) (simp add: "1.prems")
      have step: "assert_no_cycle r root current visited = None \<longleftrightarrow>
          (\<forall>d \<in> set (pm_dependencies m). d \<noteq> root \<and>
             (\<forall>x. (depends r)\<^sup>*\<^sup>* d x \<longrightarrow> x \<notin> set (current # visited) \<and> \<not> (depends r)\<^sup>+\<^sup>+ x x))"
        using new Some IH by (subst assert_no_cycle.simps) (auto simp: first_some_None split: if_splits)
      show ?thesis
      proof
        assume "assert_no_cycle r root current visited = None"
        then have below: "x \<notin> set (current # visited) \<and> \<not> (depends r)\<^sup>+\<^sup>+ x x"
          if "depends r current d" and "(depends r)\<^sup>*\<^sup>* d x" for d x using that step dep by blast
        show "\<forall>x. (depends r)\<^sup>*\<^sup>* current x \<longrightarrow> x \<notin> set visited \<and> \<not> (depends r)\<^sup>+\<^sup>+ x x"
        proof (intro allI impI)
          fix x assume "(depends r)\<^sup>*\<^sup>* current x"
          then show "x \<notin> set visited \<and> \<not> (depends r)\<^sup>+\<^sup>+ x x"
          proof (cases rule: converse_rtranclpE)
            case base
            have "\<not> (depends r)\<^sup>+\<^sup>+ current current"
              using below by (metis list.set_intros(1) tranclpD)
            then show ?thesis using new base by simp
          next
            case (step d)
            then show ?thesis using below by simp
          qed
        qed
      next
        assume ok: "\<forall>x. (depends r)\<^sup>*\<^sup>* current x \<longrightarrow> x \<notin> set visited \<and> \<not> (depends r)\<^sup>+\<^sup>+ x x"
        have "d \<noteq> root \<and> (\<forall>x. (depends r)\<^sup>*\<^sup>* d x \<longrightarrow> x \<notin> set (current # visited) \<and> \<not> (depends r)\<^sup>+\<^sup>+ x x)"
          if "d \<in> set (pm_dependencies m)" for d
        proof (intro conjI allI impI)
          have d: "depends r current d" using that dep by simp
          then have "d \<notin> set visited" using ok by blast
          then show "d \<noteq> root" using "1.prems" by blast
          fix x assume x: "(depends r)\<^sup>*\<^sup>* d x"
          then have reach: "(depends r)\<^sup>*\<^sup>* current x" using d by (rule converse_rtranclp_into_rtranclp [rotated])
          then show "\<not> (depends r)\<^sup>+\<^sup>+ x x" using ok by blast
          have "x \<noteq> current" using ok d x by (metis rtranclp.rtrancl_refl rtranclp_into_tranclp2)
          then show "x \<notin> set (current # visited)" using ok reach by simp
        qed
        then show "assert_no_cycle r root current visited = None" using step by blast
      qed
    qed
  qed
qed

lemma check_dependency_list_Nil:
  "check_dependency_list r root ds = [] \<longleftrightarrow>
     (\<forall>d \<in> set ds. d \<noteq> root \<and> get_plugin r d \<noteq> None \<and> assert_no_cycle r root d [root] = None)"
  by (induction ds) (auto split: option.splits)

text \<open>
  C26. The check of the dependencies of a registered manifest ends for every registry, and finds nothing
  exactly when all dependencies are registered and no plugin that can be reached from the manifest
  depends on itself, directly or through others.
\<close>
theorem dependencies_exact:
  assumes m: "get_plugin r (pm_id m) = Some m"
  shows "check_dependencies r m = [] \<longleftrightarrow>
     (\<forall>d \<in> set (pm_dependencies m). get_plugin r d \<noteq> None) \<and>
     (\<forall>x. (depends r)\<^sup>*\<^sup>* (pm_id m) x \<longrightarrow> \<not> (depends r)\<^sup>+\<^sup>+ x x)"
proof -
  note dep = depends_Some [OF m]
  have "check_dependencies r m = [] \<longleftrightarrow> (\<forall>d \<in> set (pm_dependencies m). d \<noteq> pm_id m \<and> get_plugin r d \<noteq> None \<and>
      (\<forall>x. (depends r)\<^sup>*\<^sup>* d x \<longrightarrow> x \<noteq> pm_id m \<and> \<not> (depends r)\<^sup>+\<^sup>+ x x))"
    by (simp add: check_dependencies_def check_dependency_list_Nil assert_no_cycle_None)
  also have "\<dots> \<longleftrightarrow> (\<forall>d \<in> set (pm_dependencies m). get_plugin r d \<noteq> None) \<and>
     (\<forall>x. (depends r)\<^sup>*\<^sup>* (pm_id m) x \<longrightarrow> \<not> (depends r)\<^sup>+\<^sup>+ x x)" (is "?L \<longleftrightarrow> ?R")
  proof
    assume L: ?L
    have "\<not> (depends r)\<^sup>+\<^sup>+ x x" if "(depends r)\<^sup>*\<^sup>* (pm_id m) x" for x
      using that
    proof (cases rule: converse_rtranclpE)
      case base
      show ?thesis using L dep base by (metis tranclpD)
    next
      case (step d)
      then show ?thesis using L dep by blast
    qed
    then show ?R using L by blast
  next
    assume R: ?R
    then have self: "\<not> (depends r)\<^sup>+\<^sup>+ (pm_id m) (pm_id m)" by blast
    have "d \<noteq> pm_id m \<and> get_plugin r d \<noteq> None \<and> (\<forall>x. (depends r)\<^sup>*\<^sup>* d x \<longrightarrow> x \<noteq> pm_id m \<and> \<not> (depends r)\<^sup>+\<^sup>+ x x)"
      if "d \<in> set (pm_dependencies m)" for d
    proof -
      have d: "depends r (pm_id m) d" using that dep by simp
      then have "x \<noteq> pm_id m \<and> \<not> (depends r)\<^sup>+\<^sup>+ x x" if "(depends r)\<^sup>*\<^sup>* d x" for x
        using that self R by (metis converse_rtranclp_into_rtranclp rtranclp_into_tranclp2)
      moreover have "d \<noteq> pm_id m" using d self by blast
      ultimately show ?thesis using R that by blast
    qed
    then show ?L by blast
  qed
  finally show ?thesis .
qed

definition demo_manifest :: "pystr \<Rightarrow> pystr list \<Rightarrow> plugin_manifest" where
  "demo_manifest i deps = \<lparr>pm_id = i, pm_name = ''n'', pm_version = ''1'', pm_plugin_type = PG_TOOL, pm_author = ''a'',
     pm_description = ''d'', pm_license = ''l'', pm_permissions = [''read_cases''], pm_dependencies = deps,
     pm_compatibility = ''*'', pm_signature = None, pm_status = PB_DEVELOPMENT, pm_created_at = 0\<rparr>"

theorem dependencies_exact_witness:
  "\<exists>x. (depends [(''a'', demo_manifest ''a'' [''b'']), (''b'', demo_manifest ''b'' [''b''])])\<^sup>*\<^sup>* ''a'' x \<and>
     (depends [(''a'', demo_manifest ''a'' [''b'']), (''b'', demo_manifest ''b'' [''b''])])\<^sup>+\<^sup>+ x x"
proof -
  let ?r = "[(''a'', demo_manifest ''a'' [''b'']), (''b'', demo_manifest ''b'' [''b''])]"
  have "get_plugin ?r (pm_id (demo_manifest ''a'' [''b''])) = Some (demo_manifest ''a'' [''b''])"
    by (simp add: get_plugin_def demo_manifest_def)
  note exact = dependencies_exact [OF this]
  have "assert_no_cycle ?r ''a'' ''b'' [''a''] = Some ''b''"
    by (simp add: assert_no_cycle.simps [of _ _ _ "[_]"] assert_no_cycle.simps [of _ _ _ "[_, _]"]
        get_plugin_def demo_manifest_def)
  then have "check_dependencies ?r (demo_manifest ''a'' [''b'']) \<noteq> []"
    by (simp add: check_dependencies_def get_plugin_def demo_manifest_def)
  then show ?thesis
    using exact by (auto simp: get_plugin_def demo_manifest_def)
qed

section \<open>The lifecycle of a manifest\<close>

text \<open>
  The steps, each with the id it registers, if any. A manifest is registered in development, as
  every caller of \<open>register\<close> makes it, and under any id: \<open>publish_copilot_to_marketplace\<close> registers
  one over whatever manifest has the copilot's id, published or not.
\<close>

inductive publishing_step :: "(pystr \<Rightarrow> pystr) \<Rightarrow> publishing_desk \<Rightarrow> pystr list \<Rightarrow> publishing_desk \<Rightarrow> bool" for mac k where
  plugin_registered: "pm_status m = PB_DEVELOPMENT \<Longrightarrow>
    publishing_step mac k [pm_id m] (k\<lparr>pk_registry := register_plugin m (pk_registry k)\<rparr>)"
| plugin_validated: "validate_manifest mac i now p actor k = (out, k') \<Longrightarrow> publishing_step mac k [] k'"
| plugin_signed: "sign_manifest mac i now p actor k = (out, k') \<Longrightarrow> publishing_step mac k [] k'"
| plugin_published: "publish_manifest i now p actor k = (out, k') \<Longrightarrow> publishing_step mac k [] k'"
| plugin_retired: "retire_manifest i now p actor reason k = (out, k') \<Longrightarrow> publishing_step mac k [] k'"
| plugin_sent_back: "send_back_to_development i now p actor reason k = (out, k') \<Longrightarrow> publishing_step mac k [] k'"

definition empty_publishing_desk :: publishing_desk where
  "empty_publishing_desk = \<lparr>pk_registry = [], pk_events = []\<rparr>"

text \<open>Reachable desks, with the ids registered on the way, in order.\<close>

inductive publishing_reachable :: "(pystr \<Rightarrow> pystr) \<Rightarrow> pystr list \<Rightarrow> publishing_desk \<Rightarrow> bool" for mac where
  no_plugin: "publishing_reachable mac [] empty_publishing_desk"
| plugin_moved: "publishing_reachable mac ids k \<Longrightarrow> publishing_step mac k new k' \<Longrightarrow> publishing_reachable mac (ids @ new) k'"

text \<open>Every step leaves the desk alone, registers a manifest, or is a transition of the stored manifest.\<close>

lemma publishing_step_cases:
  assumes "publishing_step mac k new k'" and "keyed pm_id (pk_registry k)"
  obtains "new = []" and "k' = k"
  | m where "new = [pm_id m]" and "pm_status m = PB_DEVELOPMENT"
      and "k' = k\<lparr>pk_registry := register_plugin m (pk_registry k)\<rparr>"
  | i now m to_status actor reason out where "new = []" and "get_plugin (pk_registry k) (pm_id m) = Some m" and "to_status \<noteq> PB_SIGNED"
      and "transition i now m to_status actor reason k = (out, k')"
  | i now m m' actor out where "new = []" and "get_plugin (pk_registry k) (pm_id m) = Some m"
      and "m' = m\<lparr>pm_signature := Some (sign_plugin mac m)\<rparr>"
      and "transition i now m' PB_SIGNED actor None (k\<lparr>pk_registry := register_plugin m' (pk_registry k)\<rparr>) = (out, k')"
proof -
  have key: "get_plugin (pk_registry k) (pm_id m) = Some m" if "get_plugin (pk_registry k) p = Some m" for p m
    using plugin_rows.get_key [OF assms(2) that] that by simp
  note goals = that
  have move: thesis if run: "move_manifest to_status i now p actor reason k = (out, k')" and unsigned: "to_status \<noteq> PB_SIGNED"
      and none: "new = []"
    for to_status i now p actor reason out
  proof (cases "get_plugin (pk_registry k) p")
    case None
    then show thesis using run goals(1) none by (simp add: move_manifest_def)
  next
    case (Some m)
    show thesis by (rule goals(3) [OF none key [OF Some] unsigned]) (use run Some in \<open>simp add: move_manifest_def\<close>)
  qed
  show thesis
    using assms(1)
  proof cases
    case (plugin_registered m)
    then show thesis using that(2) by blast
  next
    case (plugin_validated i now p actor out)
    show thesis
    proof (cases "get_plugin (pk_registry k) p")
      case (Some m)
      show thesis
      proof (cases "validate_plugin mac (pk_registry k) m = Inr []")
        case True
        then have "transition i now m PB_VALIDATED actor None k = (out, k')"
          using plugin_validated Some by (simp add: validate_manifest_def)
        then show thesis using that(3) [OF plugin_validated(1) key [OF Some]] by blast
      next
        case False
        then show thesis
          using plugin_validated Some that(1) by (simp add: validate_manifest_def split: sum.splits if_splits)
      qed
    qed (use plugin_validated that(1) in \<open>simp add: validate_manifest_def\<close>)
  next
    case (plugin_signed i now p actor out)
    show thesis
    proof (cases "get_plugin (pk_registry k) p")
      case (Some m)
      show thesis
        by (rule that(4) [OF plugin_signed(1) key [OF Some] refl]) (use plugin_signed Some in \<open>simp add: sign_manifest_def Let_def\<close>)
    qed (use plugin_signed that(1) in \<open>simp add: sign_manifest_def\<close>)
  qed (auto simp: publish_manifest_def retire_manifest_def send_back_to_development_def intro: move)
qed

abbreviation status_path :: "publishing_status \<Rightarrow> publishing_event list \<Rightarrow> publishing_status \<Rightarrow> bool" where
  "status_path \<equiv> lifecycle_path allowed_transitions pe_from_status pe_to_status"

lemma sign_plugin_update [simp]:
  "sign_plugin mac (m\<lparr>pm_status := st\<rparr>) = sign_plugin mac m"
  "sign_plugin mac (m\<lparr>pm_signature := sg\<rparr>) = sign_plugin mac m"
  by (simp_all add: sign_plugin_def canonical_payload_def)

text \<open>
  A manifest registered \<open>n\<close> times under its id has a history of \<open>n\<close> stretches, each a path of allowed
  transitions from development, the last of which ends in its present status.
\<close>

definition registered_runs :: "nat \<Rightarrow> publishing_event list \<Rightarrow> publishing_status \<Rightarrow> bool" where
  "registered_runs n es st \<longleftrightarrow> (\<exists>runs path. es = concat runs @ path \<and> n = Suc (length runs) \<and>
     (\<forall>r \<in> set runs. \<exists>st'. status_path PB_DEVELOPMENT r st') \<and> status_path PB_DEVELOPMENT path st)"

lemma registered_runs_first: "registered_runs (Suc 0) [] PB_DEVELOPMENT"
  by (auto simp: registered_runs_def)

lemma registered_runs_again:
  assumes "registered_runs n es st"
  shows "registered_runs (Suc n) es PB_DEVELOPMENT"
proof -
  obtain runs path where "es = concat runs @ path" "n = Suc (length runs)"
      "\<forall>r \<in> set runs. \<exists>st'. status_path PB_DEVELOPMENT r st'" "status_path PB_DEVELOPMENT path st"
    using assms by (auto simp: registered_runs_def)
  then have "es = concat (runs @ [path]) @ [] \<and> Suc n = Suc (length (runs @ [path])) \<and>
      (\<forall>r \<in> set (runs @ [path]). \<exists>st'. status_path PB_DEVELOPMENT r st') \<and> status_path PB_DEVELOPMENT [] PB_DEVELOPMENT"
    by auto
  then show ?thesis unfolding registered_runs_def by blast
qed

lemma registered_runs_snoc:
  assumes "registered_runs n es st" and "pe_from_status e = st" and "pe_to_status e \<in> set (allowed_transitions st)"
  shows "registered_runs n (es @ [e]) (pe_to_status e)"
proof -
  obtain runs path where runs: "es = concat runs @ path" "n = Suc (length runs)"
      "\<forall>r \<in> set runs. \<exists>st'. status_path PB_DEVELOPMENT r st'" "status_path PB_DEVELOPMENT path st"
    using assms by (auto simp: registered_runs_def)
  then have "status_path PB_DEVELOPMENT (path @ [e]) (pe_to_status e)" using assms by (simp add: lifecycle_path_snoc)
  then have "es @ [e] = concat runs @ (path @ [e]) \<and> n = Suc (length runs) \<and>
      (\<forall>r \<in> set runs. \<exists>st'. status_path PB_DEVELOPMENT r st') \<and> status_path PB_DEVELOPMENT (path @ [e]) (pe_to_status e)"
    using runs by simp
  then show ?thesis unfolding registered_runs_def by blast
qed

definition manifest_ok :: "(pystr \<Rightarrow> pystr) \<Rightarrow> pystr list \<Rightarrow> publishing_event list \<Rightarrow> plugin_manifest \<Rightarrow> bool" where
  "manifest_ok mac ids es m \<longleftrightarrow>
     registered_runs (count_list ids (pm_id m)) (publishing_history es (pm_id m)) (pm_status m) \<and>
     (pm_status m \<in> {PB_SIGNED, PB_PUBLISHED, PB_RETIRED} \<longrightarrow> pm_signature m = Some (sign_plugin mac m))"

definition publishing_ok :: "(pystr \<Rightarrow> pystr) \<Rightarrow> pystr list \<Rightarrow> publishing_desk \<Rightarrow> bool" where
  "publishing_ok mac ids k \<longleftrightarrow> keyed pm_id (pk_registry k) \<and>
     (\<forall>i. get_plugin (pk_registry k) i = None \<longrightarrow> i \<notin> set ids) \<and>
     (\<forall>e \<in> set (pk_events k). get_plugin (pk_registry k) (pe_plugin_id e) \<noteq> None) \<and>
     (\<forall>i m. get_plugin (pk_registry k) i = Some m \<longrightarrow> manifest_ok mac ids (pk_events k) m)"

lemma publishing_ok_replace:
  assumes "publishing_ok mac ids k" and "manifest_ok mac ids (pk_events k) m" and "get_plugin (pk_registry k) (pm_id m) \<noteq> None"
  shows "publishing_ok mac ids (k\<lparr>pk_registry := register_plugin m (pk_registry k)\<rparr>)"
  using assms by (auto simp: publishing_ok_def plugin_rows.get_put intro: plugin_rows.wf_put)

lemma publishing_ok_register:
  assumes ok: "publishing_ok mac ids k" and m: "pm_status m = PB_DEVELOPMENT"
  shows "publishing_ok mac (ids @ [pm_id m]) (k\<lparr>pk_registry := register_plugin m (pk_registry k)\<rparr>)"
proof -
  have "registered_runs (Suc (count_list ids (pm_id m))) (publishing_history (pk_events k) (pm_id m)) PB_DEVELOPMENT"
  proof (cases "get_plugin (pk_registry k) (pm_id m)")
    case None
    then have "pm_id m \<notin> set ids" "publishing_history (pk_events k) (pm_id m) = []"
      using ok by (auto simp: publishing_ok_def publishing_history_def filter_empty_conv)
    then show ?thesis by (simp add: count_notin registered_runs_first)
  next
    case (Some old)
    then have "manifest_ok mac ids (pk_events k) old" "pm_id old = pm_id m"
      using ok plugin_rows.get_key by (auto simp: publishing_ok_def)
    then show ?thesis by (auto simp: manifest_ok_def intro: registered_runs_again)
  qed
  then have new: "manifest_ok mac (ids @ [pm_id m]) (pk_events k) m" using m by (simp add: manifest_ok_def)
  have "manifest_ok mac (ids @ [pm_id m]) (pk_events k) m2"
    if "get_plugin (pk_registry k) j = Some m2" "j \<noteq> pm_id m" for j m2
  proof -
    have "pm_id m2 = j" "manifest_ok mac ids (pk_events k) m2"
      using that(1) ok plugin_rows.get_key by (auto simp: publishing_ok_def)
    then show ?thesis using that(2) by (simp add: manifest_ok_def)
  qed
  then show ?thesis
    using ok new by (auto simp: publishing_ok_def plugin_rows.get_put intro: plugin_rows.wf_put)
qed

text \<open>A transition keeps the invariant when what it starts from is the stored manifest.\<close>

lemma transition_ok:
  assumes ok: "publishing_ok mac ids k" and m: "get_plugin (pk_registry k) (pm_id m) = Some m"
    and sig: "to_status = PB_SIGNED \<Longrightarrow> pm_signature m = Some (sign_plugin mac m)"
    and run: "transition i now m to_status actor reason k = (out, k')"
  shows "publishing_ok mac ids k'"
proof (cases "to_status \<in> set (allowed_transitions (pm_status m))")
  case True
  let ?m' = "m\<lparr>pm_status := to_status\<rparr>"
  let ?e = "\<lparr>pe_id = i, pe_plugin_id = pm_id m, pe_from_status = pm_status m, pe_to_status = to_status,
     pe_actor = actor, pe_reason = reason, pe_created_at = now\<rparr>"
  have k': "k' = k\<lparr>pk_registry := register_plugin ?m' (pk_registry k), pk_events := pk_events k @ [?e]\<rparr>"
    using run True by (auto simp: transition_def publishing_append_def Let_def)
  have old: "manifest_ok mac ids (pk_events k) m" using ok m by (simp add: publishing_ok_def)
  have hist: "publishing_history (pk_events k @ [?e]) j = publishing_history (pk_events k) j @ (if j = pm_id m then [?e] else [])" for j
    by (simp add: publishing_history_def)
  have "pm_signature m = Some (sign_plugin mac m)" if "to_status \<in> {PB_SIGNED, PB_PUBLISHED, PB_RETIRED}"
    using that True old sig by (cases "pm_status m") (auto simp: manifest_ok_def)
  moreover have "registered_runs (count_list ids (pm_id m)) (publishing_history (pk_events k) (pm_id m) @ [?e]) to_status"
    using registered_runs_snoc [of _ _ "pm_status m" ?e] old True by (simp add: manifest_ok_def)
  ultimately have new: "manifest_ok mac ids (pk_events k @ [?e]) ?m'" by (simp add: manifest_ok_def hist)
  have others: "manifest_ok mac ids (pk_events k @ [?e]) m2" if "get_plugin (pk_registry k) j = Some m2" and "j \<noteq> pm_id m" for j m2
  proof -
    have "pm_id m2 = j" using that(1) ok plugin_rows.get_key by (auto simp: publishing_ok_def)
    moreover have "manifest_ok mac ids (pk_events k) m2" using ok that(1) by (auto simp: publishing_ok_def)
    ultimately show ?thesis using that(2) by (simp add: manifest_ok_def hist)
  qed
  have "keyed pm_id (register_plugin ?m' (pk_registry k))"
    using ok by (intro plugin_rows.wf_put) (simp add: publishing_ok_def)
  then show ?thesis
    using ok m new others by (auto simp: publishing_ok_def k' plugin_rows.get_put)
qed (use assms in \<open>simp add: transition_def\<close>)

lemma stored_key: "publishing_ok mac ids k \<Longrightarrow> get_plugin (pk_registry k) p = Some m \<Longrightarrow> pm_id m = p"
  using plugin_rows.get_key by (auto simp: publishing_ok_def)

lemma publishing_step_ok:
  assumes ok: "publishing_ok mac ids k" and "publishing_step mac k new k'"
  shows "publishing_ok mac (ids @ new) k'"
proof -
  have keyed: "keyed pm_id (pk_registry k)" using ok by (simp add: publishing_ok_def)
  show ?thesis
    using assms(2) keyed
  proof (cases rule: publishing_step_cases)
    case 1
    then show ?thesis using ok by simp
  next
    case (2 m)
    then show ?thesis using publishing_ok_register [OF ok, of m] by simp
  next
    case (3 i now m to_status actor reason out)
    then show ?thesis using transition_ok [OF ok 3(2) _ 3(4)] by simp
  next
    case (4 i now m m' actor out)
    have "manifest_ok mac ids (pk_events k) m" using ok 4(2) by (auto simp: publishing_ok_def)
    then have "manifest_ok mac ids (pk_events k) m'" by (simp add: manifest_ok_def 4(3))
    then have "publishing_ok mac ids (k\<lparr>pk_registry := register_plugin m' (pk_registry k)\<rparr>)"
      using 4(2,3) by (intro publishing_ok_replace [OF ok]) simp_all
    from transition_ok [OF this _ _ 4(4)] show ?thesis by (simp add: plugin_rows.get_put 4(1,3))
  qed
qed

lemma publishing_ok_empty: "publishing_ok mac [] empty_publishing_desk"
  by (simp add: empty_publishing_desk_def publishing_ok_def get_plugin_def)

lemma publishing_reachable_ok: "publishing_reachable mac ids k \<Longrightarrow> publishing_ok mac ids k"
  by (induction rule: publishing_reachable.induct)
     (auto intro: publishing_step_ok simp: publishing_ok_empty)

text \<open>
  Publishing never changes what a stored manifest declares, and what was published stays published
  or retired, until a manifest is registered again under the id.
\<close>

lemma transition_keeps:
  assumes "transition i now m2 to_status actor reason k2 = (out, k')"
    and "pk_registry k2 = register_plugin m2 r \<or> pk_registry k2 = r" and "keyed pm_id r"
    and "get_plugin r (pm_id m2) = Some m0" and "pm_permissions m2 = pm_permissions m0" and "pm_status m2 = pm_status m0"
    and "get_plugin r p = Some m"
  shows "\<exists>m'. get_plugin (pk_registry k') p = Some m' \<and> pm_permissions m' = pm_permissions m \<and>
     (pm_status m \<in> {PB_PUBLISHED, PB_RETIRED} \<longrightarrow> pm_status m' \<in> {PB_PUBLISHED, PB_RETIRED})"
proof -
  have "to_status \<in> {PB_PUBLISHED, PB_RETIRED}"
    if "to_status \<in> set (allowed_transitions (pm_status m2))" and "pm_status m2 \<in> {PB_PUBLISHED, PB_RETIRED}"
    using that by auto
  then show ?thesis
    using assms by (auto simp: transition_def plugin_rows.get_put Let_def split: if_splits)
qed

lemma publishing_step_keeps:
  assumes "publishing_step mac k new k'" and keyed: "keyed pm_id (pk_registry k)" and m: "get_plugin (pk_registry k) p = Some m"
    and other: "p \<notin> set new"
  shows "\<exists>m'. get_plugin (pk_registry k') p = Some m' \<and> pm_permissions m' = pm_permissions m \<and>
     (pm_status m \<in> {PB_PUBLISHED, PB_RETIRED} \<longrightarrow> pm_status m' \<in> {PB_PUBLISHED, PB_RETIRED})"
  using assms(1,2)
proof (cases rule: publishing_step_cases)
  case 1
  then show ?thesis using m by simp
next
  case (2 m')
  then show ?thesis using m other by (auto simp: plugin_rows.get_put)
next
  case (3 i now m0 to_status actor reason out)
  show ?thesis by (rule transition_keeps [OF 3(4) _ keyed 3(2) refl refl m]) simp
next
  case (4 i now m0 m' actor out)
  show ?thesis by (rule transition_keeps [OF 4(4) _ keyed _ _ _ m]) (simp_all add: 4)
qed

lemma allowed_before:
  "PB_PUBLISHED \<in> set (allowed_transitions x) \<longleftrightarrow> x = PB_SIGNED"
  "PB_SIGNED \<in> set (allowed_transitions x) \<longleftrightarrow> x = PB_VALIDATED"
  "PB_VALIDATED \<in> set (allowed_transitions x) \<longleftrightarrow> x = PB_DEVELOPMENT"
  by (cases x; simp)+

lemma published_path:
  assumes "status_path PB_DEVELOPMENT es PB_PUBLISHED"
  shows "\<exists>es' e1 e2 e3. es = es' @ [e1, e2, e3] \<and> status_path PB_DEVELOPMENT es' PB_DEVELOPMENT \<and>
     map pe_to_status [e1, e2, e3] = [PB_VALIDATED, PB_SIGNED, PB_PUBLISHED]"
proof -
  obtain es3 e3 where 3: "es = es3 @ [e3]" "pe_to_status e3 = PB_PUBLISHED" "status_path PB_DEVELOPMENT es3 PB_SIGNED"
    using assms by (rule lifecycle_path_last) (auto simp: allowed_before)
  obtain es2 e2 where 2: "es3 = es2 @ [e2]" "pe_to_status e2 = PB_SIGNED" "status_path PB_DEVELOPMENT es2 PB_VALIDATED"
    using 3(3) by (rule lifecycle_path_last) (auto simp: allowed_before)
  obtain es1 e1 where 1: "es2 = es1 @ [e1]" "pe_to_status e1 = PB_VALIDATED" "status_path PB_DEVELOPMENT es1 PB_DEVELOPMENT"
    using 2(3) by (rule lifecycle_path_last) (auto simp: allowed_before)
  show ?thesis
    by (intro exI [of _ es1] exI [of _ e1] exI [of _ e2] exI [of _ e3]) (simp add: 1 2 3)
qed

lemma publishing_ok_verifies:
  assumes ascii: "\<forall>s. is_ascii (mac s)" and ok: "publishing_ok mac ids k" and m: "get_plugin (pk_registry k) p = Some m"
    and "pm_status m \<in> {PB_SIGNED, PB_PUBLISHED, PB_RETIRED}"
  shows "verify_plugin_signature mac m = Inr True"
proof -
  have "manifest_ok mac ids (pk_events k) m" using ok m by (simp add: publishing_ok_def)
  then have "pm_signature m = Some (sign_plugin mac m)" using assms(4) by (auto simp: manifest_ok_def)
  then show ?thesis using verify_sign [OF ascii] by (simp add: verify_plugin_signature_def sign_plugin_def)
qed


text \<open>A manifest taken through its whole life with the keyed hash replaced by the empty text.\<close>

abbreviation no_mac :: "pystr \<Rightarrow> pystr" where
  "no_mac \<equiv> \<lambda>_. []"

definition demo_published :: plugin_manifest where
  "demo_published = (demo_manifest ''a'' [])\<lparr>pm_signature := Some (sign_plugin no_mac (demo_manifest ''a'' [])), pm_status := PB_PUBLISHED\<rparr>"

definition demo_publishing_start :: publishing_desk where
  "demo_publishing_start = \<lparr>pk_registry = register_plugin (demo_manifest ''a'' []) [], pk_events = []\<rparr>"

lemma demo_validates: "validate_plugin no_mac (pk_registry demo_publishing_start) (demo_manifest ''a'' []) = Inr []"
proof -
  have "extension_permission_of ''read_cases'' = Some XP_READ_CASES"
    by (simp add: extension_permission_of_def extension_permissions_def)
  then show ?thesis
    by (simp add: validate_plugin_def check_conformity_def check_permissions_def check_compatibility_def
        check_dependencies_def demo_manifest_def)
qed

definition demo_publishing :: publishing_desk where
  "demo_publishing =
     snd (publish_manifest ''3'' 0 ''a'' ''u''
       (snd (sign_manifest no_mac ''2'' 0 ''a'' ''u''
         (snd (validate_manifest no_mac ''1'' 0 ''a'' ''u'' demo_publishing_start)))))"

lemma demo_publishing_facts:
  "publishing_reachable no_mac [''a''] demo_publishing"
  "get_plugin (pk_registry demo_publishing) ''a'' = Some demo_published"
proof -
  let ?m = "demo_manifest ''a'' []"
  let ?s = "?m\<lparr>pm_signature := Some (sign_plugin no_mac ?m)\<rparr>"
  note k1_def = demo_publishing_start_def
  define k2 where "k2 = snd (validate_manifest no_mac ''1'' 0 ''a'' ''u'' demo_publishing_start)"
  define k3 where "k3 = snd (sign_manifest no_mac ''2'' 0 ''a'' ''u'' k2)"
  have k4: "demo_publishing = snd (publish_manifest ''3'' 0 ''a'' ''u'' k3)"
    by (simp add: demo_publishing_def k2_def k3_def)
  have "get_plugin (pk_registry demo_publishing_start) ''a'' = Some ?m"
    by (simp add: demo_publishing_start_def plugin_rows.get_put demo_manifest_def)
  then have "get_plugin (pk_registry k2) ''a'' = Some (?m\<lparr>pm_status := PB_VALIDATED\<rparr>)"
    by (simp add: k2_def validate_manifest_def demo_validates transition_def plugin_rows.get_put Let_def)
       (simp add: demo_manifest_def)
  then have "get_plugin (pk_registry k3) ''a'' = Some (?s\<lparr>pm_status := PB_SIGNED\<rparr>)"
    by (simp add: k3_def sign_manifest_def transition_def plugin_rows.get_put Let_def) (simp add: demo_manifest_def)
  then show "get_plugin (pk_registry demo_publishing) ''a'' = Some demo_published"
    by (simp add: k4 publish_manifest_def move_manifest_def transition_def plugin_rows.get_put Let_def)
       (simp add: demo_manifest_def demo_published_def)
  have "publishing_reachable no_mac [''a''] demo_publishing_start"
    using plugin_moved [OF no_plugin plugin_registered, of ?m no_mac]
    by (simp add: k1_def demo_manifest_def get_plugin_def empty_publishing_desk_def)
  then have "publishing_reachable no_mac [''a''] k2"
    unfolding k2_def by (rule plugin_moved [where new = "[]", unfolded append_Nil2, OF _ plugin_validated]) (rule surjective_pairing)
  then have "publishing_reachable no_mac [''a''] k3"
    unfolding k3_def by (rule plugin_moved [where new = "[]", unfolded append_Nil2, OF _ plugin_signed]) (rule surjective_pairing)
  then show "publishing_reachable no_mac [''a''] demo_publishing"
    unfolding k4 by (rule plugin_moved [where new = "[]", unfolded append_Nil2, OF _ plugin_published]) (rule surjective_pairing)
qed


text \<open>What is signed is the identifier, the version and the author: any other field can change under a signature.\<close>

lemma signature_ignores_permissions:
  "verify_plugin_signature mac (m\<lparr>pm_permissions := ps, pm_dependencies := ds\<rparr>) = verify_plugin_signature mac m"
  by (simp add: verify_plugin_signature_def canonical_payload_def cong: option.case_cong)

section \<open>One command publishes a valid plugin\<close>

lemma transition_allowed:
  "to_status \<in> set (allowed_transitions (pm_status m)) \<Longrightarrow>
     \<exists>k'. transition i now m to_status actor reason k = (Inr (m\<lparr>pm_status := to_status\<rparr>), k') \<and>
       get_plugin (pk_registry k') (pm_id m) = Some (m\<lparr>pm_status := to_status\<rparr>)"
  by (simp add: transition_def Let_def plugin_rows.get_put)

lemma sign_stage:
  assumes "get_plugin (pk_registry k) p = Some m" and "pm_id m = p" and "pm_status m = PB_VALIDATED"
  shows "\<exists>k'. sign_manifest mac i now p actor k = (Inr (m\<lparr>pm_signature := Some (sign_plugin mac m), pm_status := PB_SIGNED\<rparr>), k') \<and>
     get_plugin (pk_registry k') p = Some (m\<lparr>pm_signature := Some (sign_plugin mac m), pm_status := PB_SIGNED\<rparr>)"
  using assms transition_allowed [of PB_SIGNED "m\<lparr>pm_signature := Some (sign_plugin mac m)\<rparr>"]
  by (simp add: sign_manifest_def Let_def)

lemma publish_stage_signed:
  assumes "get_plugin (pk_registry k) p = Some m" and "pm_id m = p" and "pm_status m = PB_SIGNED"
  shows "\<exists>k'. publish_manifest i now p actor k = (Inr (m\<lparr>pm_status := PB_PUBLISHED\<rparr>), k') \<and>
     get_plugin (pk_registry k') p = Some (m\<lparr>pm_status := PB_PUBLISHED\<rparr>)"
  using assms transition_allowed [of PB_PUBLISHED m] by (simp add: publish_manifest_def move_manifest_def)

lemma validate_stage:
  assumes "get_plugin (pk_registry k) p = Some m" and "pm_id m = p" and "pm_status m = PB_DEVELOPMENT"
    and "validate_plugin mac (pk_registry k) m = Inr []"
  shows "\<exists>k'. validate_manifest mac i now p actor k = (Inr (m\<lparr>pm_status := PB_VALIDATED\<rparr>), k') \<and>
     get_plugin (pk_registry k') p = Some (m\<lparr>pm_status := PB_VALIDATED\<rparr>)"
  using assms transition_allowed [of PB_VALIDATED m] by (simp add: validate_manifest_def)

text \<open>
  The command brings a registered plugin that validates, or is already past validation, to the
  published state in one call, with its declarations as they were; when validation finds an issue
  it exits with 1 and changes nothing.
\<close>
theorem publish_command_publishes:
  assumes m: "get_plugin (pk_registry k) p = Some m" and id: "pm_id m = p"
    and run: "publish_command mac i1 i2 i3 t1 t2 t3 p actor k = (out, k')"
  shows "(pm_status m \<in> {PB_VALIDATED, PB_SIGNED} \<or> pm_status m = PB_DEVELOPMENT \<and> validate_plugin mac (pk_registry k) m = Inr [] \<longrightarrow>
       out = Inr 0 \<and> (\<exists>m'. get_plugin (pk_registry k') p = Some m' \<and> pm_status m' = PB_PUBLISHED \<and>
         pm_permissions m' = pm_permissions m \<and> pm_signature m' \<in> {pm_signature m, Some (sign_plugin mac m)})) \<and>
     (pm_status m = PB_DEVELOPMENT \<and> validate_plugin mac (pk_registry k) m = Inr (issue # issues) \<longrightarrow> out = Inr 1 \<and> k' = k)"
proof -
  let ?publish = "publish_manifest i3 t3 p actor"
  have signed: "\<exists>k2. publish_stage PB_SIGNED ?publish (Inr m1, k1) = (Inr (m1\<lparr>pm_status := PB_PUBLISHED\<rparr>), k2) \<and>
      get_plugin (pk_registry k2) p = Some (m1\<lparr>pm_status := PB_PUBLISHED\<rparr>)"
    if "get_plugin (pk_registry k1) p = Some m1" "pm_id m1 = p" "pm_status m1 = PB_SIGNED" for m1 k1
    using publish_stage_signed [OF that] that by (auto simp: publish_stage_def)
  have validated: "\<exists>k2. publish_stage PB_SIGNED ?publish
        (publish_stage PB_VALIDATED (sign_manifest mac i2 t2 p actor) (Inr m1, k1)) =
        (Inr (m1\<lparr>pm_signature := Some (sign_plugin mac m1), pm_status := PB_PUBLISHED\<rparr>), k2) \<and>
      get_plugin (pk_registry k2) p = Some (m1\<lparr>pm_signature := Some (sign_plugin mac m1), pm_status := PB_PUBLISHED\<rparr>)"
    if m1: "get_plugin (pk_registry k1) p = Some m1" "pm_id m1 = p" "pm_status m1 = PB_VALIDATED" for m1 k1
  proof -
    obtain k2 where "sign_manifest mac i2 t2 p actor k1 = (Inr (m1\<lparr>pm_signature := Some (sign_plugin mac m1), pm_status := PB_SIGNED\<rparr>), k2)"
      and "get_plugin (pk_registry k2) p = Some (m1\<lparr>pm_signature := Some (sign_plugin mac m1), pm_status := PB_SIGNED\<rparr>)"
      using sign_stage [OF m1] by blast
    then show ?thesis using signed [of k2] m1 by (simp add: publish_stage_def [of PB_VALIDATED])
  qed
  have valid: "out = Inr 0 \<and> (\<exists>m'. get_plugin (pk_registry k') p = Some m' \<and> pm_status m' = PB_PUBLISHED \<and>
         pm_permissions m' = pm_permissions m \<and> pm_signature m' \<in> {pm_signature m, Some (sign_plugin mac m)})"
    if start: "pm_status m \<in> {PB_VALIDATED, PB_SIGNED} \<or> pm_status m = PB_DEVELOPMENT \<and> validate_plugin mac (pk_registry k) m = Inr []"
  proof -
    consider "pm_status m = PB_SIGNED" | "pm_status m = PB_VALIDATED"
      | "pm_status m = PB_DEVELOPMENT" "validate_plugin mac (pk_registry k) m = Inr []"
      using start by blast
    then show ?thesis
    proof cases
      case 1
      then show ?thesis
        using signed [OF m id] run m by (auto simp: publish_command_def publish_stage_def [of PB_DEVELOPMENT] publish_stage_def [of PB_VALIDATED])
    next
      case 2
      then show ?thesis
        using validated [OF m id] run m by (auto simp: publish_command_def publish_stage_def [of PB_DEVELOPMENT])
    next
      case 3
      obtain k1 where k1: "validate_manifest mac i1 t1 p actor k = (Inr (m\<lparr>pm_status := PB_VALIDATED\<rparr>), k1)"
          "get_plugin (pk_registry k1) p = Some (m\<lparr>pm_status := PB_VALIDATED\<rparr>)"
        using validate_stage [OF m id 3] by blast
      then show ?thesis
        using validated [OF k1(2)] id run m 3 by (auto simp: publish_command_def publish_stage_def [of PB_DEVELOPMENT])
    qed
  qed
  have "out = Inr 1 \<and> k' = k" if "pm_status m = PB_DEVELOPMENT \<and> validate_plugin mac (pk_registry k) m = Inr (issue # issues)"
    using that run m by (simp add: publish_command_def publish_stage_def validate_manifest_def)
  then show ?thesis using valid by blast
qed

theorem publish_command_publishes_witness:
  "fst (publish_command no_mac ''1'' ''2'' ''3'' 0 0 0 ''a'' ''u'' demo_publishing_start) = Inr 0"
proof -
  have m: "get_plugin (pk_registry demo_publishing_start) ''a'' = Some (demo_manifest ''a'' [])"
    by (simp add: demo_publishing_start_def register_plugin_def get_plugin_def demo_manifest_def)
  have "pm_status (demo_manifest ''a'' []) = PB_DEVELOPMENT" "pm_id (demo_manifest ''a'' []) = ''a''"
    by (simp_all add: demo_manifest_def)
  then show ?thesis
    using publish_command_publishes [OF m _ surjective_pairing] demo_validates by blast
qed

end
