(* ===== verification/Extensions.thy ===== *)
theory Extensions
  imports Plugins Billing Windows
begin

text \<open>
  Plugins at work: the permissions an extension holds for a firm, its installation, the marketplace
  and its reviews, the loader, the sandbox that runs a plugin under a call quota, and the paid
  subscriptions to extensions (\<^verbatim>\<open>platform_sdk\<close> and \<^verbatim>\<open>business_platform/marketplace_subscriptions\<close>).
\<close>

section \<open>Permissions\<close>

type_synonym permission_grants = "(pystr \<times> pystr, extension_permission set) dict"

definition grant_permissions ::
    "pystr \<Rightarrow> pystr \<Rightarrow> extension_permission set \<Rightarrow> permission_grants \<Rightarrow> permission_grants" where
  [store_defs]: "grant_permissions firm plugin_id ps g = dict_set (firm, plugin_id) ps g"

definition revoke_permissions :: "pystr \<Rightarrow> pystr \<Rightarrow> permission_grants \<Rightarrow> permission_grants" where
  [store_defs]: "revoke_permissions firm plugin_id g = dict_pop (firm, plugin_id) g"

definition granted_permissions :: "pystr \<Rightarrow> pystr \<Rightarrow> permission_grants \<Rightarrow> extension_permission set" where
  [store_defs]: "granted_permissions firm plugin_id g =
     (case dict_get g (firm, plugin_id) of None \<Rightarrow> {} | Some ps \<Rightarrow> ps)"

definition check_permission :: "pystr \<Rightarrow> pystr \<Rightarrow> extension_permission \<Rightarrow> permission_grants \<Rightarrow> bool" where
  "check_permission firm plugin_id p g \<longleftrightarrow> p \<in> granted_permissions firm plugin_id g"

text \<open>What a plugin is handed: \<open>ExtensionPermission(permission)\<close> raises for an unknown name.\<close>

definition scoped_has_permission :: "pystr \<Rightarrow> pystr \<Rightarrow> permission_grants \<Rightarrow> pystr \<Rightarrow> bool result" where
  "scoped_has_permission firm plugin_id g permission =
     (case extension_permission_of permission of
        None \<Rightarrow> Inl (ValueError (py_repr permission @ '' is not a valid ExtensionPermission''))
      | Some p \<Rightarrow> Inr (check_permission firm plugin_id p g))"

lemma granted_grant:
  "granted_permissions f p (grant_permissions firm plugin_id ps g) =
     (if (f, p) = (firm, plugin_id) then ps else granted_permissions f p g)"
  by (simp add: store_defs update_conv')

lemma granted_revoke:
  "granted_permissions f p (revoke_permissions firm plugin_id g) =
     (if (f, p) = (firm, plugin_id) then {} else granted_permissions f p g)"
  by (simp add: store_defs delete_conv')

section \<open>Installed extensions\<close>

datatype extension_status = XS_ACTIVE | XS_DISABLED | XS_UNINSTALLED

record extension_instance =
  xi_id :: pystr
  xi_firm_id :: pystr
  xi_plugin_id :: pystr
  xi_version :: pystr
  xi_granted_permissions :: "extension_permission set"
  xi_status :: extension_status
  xi_installed_at :: datetime
  xi_updated_at :: datetime

definition instance_key :: "extension_instance \<Rightarrow> pystr \<times> pystr" where
  "instance_key x = (xi_firm_id x, xi_plugin_id x)"

type_synonym extension_store = "(pystr \<times> pystr, extension_instance) dict"

definition extension_save :: "extension_instance \<Rightarrow> extension_store \<Rightarrow> extension_store" where
  [store_defs]: "extension_save x s = dict_set (instance_key x) x s"

definition extensions_for_firm :: "extension_store \<Rightarrow> pystr \<Rightarrow> extension_instance list" where
  [store_defs]: "extensions_for_firm s firm = rows_by_value xi_firm_id s firm"

definition all_extensions :: "extension_store \<Rightarrow> extension_instance list" where
  "all_extensions s = dict_values s"

interpretation extension_rows: tenant_store instance_key extension_save dict_get "keyed instance_key" extensions_for_firm
  using tenant_store_dict_value [of xi_firm_id instance_key]
  by (simp add: extension_save_def [abs_def] extensions_for_firm_def [abs_def] instance_key_def)

record marketplace =
  mk_desk :: publishing_desk
  mk_instances :: extension_store
  mk_grants :: permission_grants

datatype extension_error =
    Plugin_not_available pystr
  | Ungrantable_permission pystr "extension_permission set"
  | Unknown_permission pystr
  | Plugin_not_registered pystr
  | Not_installed pystr pystr
  | No_subscription pystr pystr
  | Engine_raised pyexn

text \<open>\<open>frozenset(ExtensionPermission(p) for p in manifest.permissions)\<close>.\<close>

fun declared_permissions :: "pystr list \<Rightarrow> extension_error + extension_permission set" where
  "declared_permissions [] = Inr {}"
| "declared_permissions (s # ss) =
     (case extension_permission_of s of
        None \<Rightarrow> Inl (Unknown_permission s)
      | Some p \<Rightarrow> (case declared_permissions ss of Inl e \<Rightarrow> Inl e | Inr ps \<Rightarrow> Inr (insert p ps)))"

definition install_extension ::
    "pystr \<Rightarrow> datetime \<Rightarrow> datetime \<Rightarrow> pystr \<Rightarrow> pystr \<Rightarrow> extension_permission set \<Rightarrow> marketplace
       \<Rightarrow> (extension_error + extension_instance) \<times> marketplace" where
  "install_extension new_id installed updated firm plugin_id requested mk =
     (case get_plugin (pk_registry (mk_desk mk)) plugin_id of
        None \<Rightarrow> (Inl (Plugin_not_available plugin_id), mk)
      | Some m \<Rightarrow>
          if pm_status m \<noteq> PB_PUBLISHED then (Inl (Plugin_not_available plugin_id), mk)
          else (case declared_permissions (pm_permissions m) of
                  Inl e \<Rightarrow> (Inl e, mk)
                | Inr declared \<Rightarrow>
                    if \<not> requested \<subseteq> declared then (Inl (Ungrantable_permission plugin_id declared), mk)
                    else let x = \<lparr>xi_id = new_id, xi_firm_id = firm, xi_plugin_id = plugin_id,
                                  xi_version = pm_version m, xi_granted_permissions = requested,
                                  xi_status = XS_ACTIVE, xi_installed_at = installed, xi_updated_at = updated\<rparr>
                         in (Inr x, mk\<lparr>mk_instances := extension_save x (mk_instances mk),
                                       mk_grants := grant_permissions firm plugin_id requested (mk_grants mk)\<rparr>)))"

definition set_extension_status ::
    "datetime \<Rightarrow> pystr \<Rightarrow> pystr \<Rightarrow> extension_status \<Rightarrow> marketplace
       \<Rightarrow> (extension_error + extension_instance) \<times> marketplace" where
  "set_extension_status now firm plugin_id status mk =
     (case dict_get (mk_instances mk) (firm, plugin_id) of
        None \<Rightarrow> (Inl (Not_installed firm plugin_id), mk)
      | Some x \<Rightarrow>
          let x' = x\<lparr>xi_status := status, xi_updated_at := now\<rparr>
          in (Inr x', mk\<lparr>mk_instances := extension_save x' (mk_instances mk)\<rparr>))"

definition enable_extension ::
    "datetime \<Rightarrow> pystr \<Rightarrow> pystr \<Rightarrow> marketplace \<Rightarrow> (extension_error + extension_instance) \<times> marketplace" where
  "enable_extension now firm plugin_id = set_extension_status now firm plugin_id XS_ACTIVE"

definition disable_extension ::
    "datetime \<Rightarrow> pystr \<Rightarrow> pystr \<Rightarrow> marketplace \<Rightarrow> (extension_error + extension_instance) \<times> marketplace" where
  "disable_extension now firm plugin_id = set_extension_status now firm plugin_id XS_DISABLED"

definition uninstall_extension ::
    "datetime \<Rightarrow> pystr \<Rightarrow> pystr \<Rightarrow> marketplace \<Rightarrow> (extension_error + extension_instance) \<times> marketplace" where
  "uninstall_extension now firm plugin_id mk =
     (case dict_get (mk_instances mk) (firm, plugin_id) of
        None \<Rightarrow> (Inl (Not_installed firm plugin_id), mk)
      | Some x \<Rightarrow>
          let x' = x\<lparr>xi_status := XS_UNINSTALLED, xi_updated_at := now\<rparr>
          in (Inr x', mk\<lparr>mk_instances := extension_save x' (mk_instances mk),
                        mk_grants := revoke_permissions firm plugin_id (mk_grants mk)\<rparr>))"

definition update_extension ::
    "datetime \<Rightarrow> pystr \<Rightarrow> pystr \<Rightarrow> marketplace \<Rightarrow> (extension_error + extension_instance) \<times> marketplace" where
  "update_extension now firm plugin_id mk =
     (case get_plugin (pk_registry (mk_desk mk)) plugin_id of
        None \<Rightarrow> (Inl (Plugin_not_registered plugin_id), mk)
      | Some m \<Rightarrow>
          (case dict_get (mk_instances mk) (firm, plugin_id) of
             None \<Rightarrow> (Inl (Not_installed firm plugin_id), mk)
           | Some x \<Rightarrow>
               let x' = x\<lparr>xi_version := pm_version m, xi_updated_at := now\<rparr>
               in (Inr x', mk\<lparr>mk_instances := extension_save x' (mk_instances mk)\<rparr>)))"

section \<open>The marketplace\<close>

definition search_plugins :: "pystr option \<Rightarrow> plugin_type option \<Rightarrow> plugin_registry \<Rightarrow> plugin_manifest list" where
  "search_plugins query ty r =
     (let listings = filter (\<lambda>m. pm_status m = PB_PUBLISHED) (list_plugins r);
          typed = (case ty of None \<Rightarrow> listings | Some t \<Rightarrow> filter (\<lambda>m. pm_plugin_type m = t) listings)
      in case query of
           None \<Rightarrow> typed
         | Some q \<Rightarrow>
             if q = [] then typed
             else (let needle = map latin1_lower q
                   in filter (\<lambda>m. text_within needle (map latin1_lower (pm_name m)) \<or>
                                  text_within needle (map latin1_lower (pm_description m))) typed))"

text \<open>The plugin types in the order of their values.\<close>

definition plugin_types :: "plugin_type list" where
  "plugin_types = [PG_AGENT, PG_CONNECTOR, PG_COPILOT, PG_DOCUMENT_TEMPLATE, PG_TOOL, PG_WORKFLOW]"

definition plugin_categories :: "plugin_registry \<Rightarrow> plugin_type list" where
  "plugin_categories r = filter (\<lambda>t. t \<in> pm_plugin_type ` set (search_plugins None None r)) plugin_types"

record review =
  rw_id :: pystr
  rw_plugin_id :: pystr
  rw_firm_id :: pystr
  rw_rating :: int
  rw_comment :: pystr
  rw_created_at :: datetime

definition review_save :: "review \<Rightarrow> review list \<Rightarrow> review list" where
  [store_defs]: "review_save w ws = ws @ [w]"

definition reviews_for :: "review list \<Rightarrow> pystr \<Rightarrow> review list" where
  [store_defs]: "reviews_for ws plugin_id = filter (\<lambda>w. rw_plugin_id w = plugin_id) ws"

interpretation review_log: journal review_save "\<lambda>ws. ws" rw_plugin_id reviews_for
  by unfold_locales (auto simp: store_defs)

text \<open>\<open>InvalidRatingError\<close> is \<open>None\<close>.\<close>

definition submit_review ::
    "pystr \<Rightarrow> datetime \<Rightarrow> pystr \<Rightarrow> pystr \<Rightarrow> int \<Rightarrow> pystr \<Rightarrow> review list \<Rightarrow> (review \<times> review list) option" where
  "submit_review new_id now plugin_id firm rating comment ws =
     (if 1 \<le> rating \<and> rating \<le> 5
      then let w = \<lparr>rw_id = new_id, rw_plugin_id = plugin_id, rw_firm_id = firm, rw_rating = rating,
                    rw_comment = comment, rw_created_at = now\<rparr>
           in Some (w, review_save w ws)
      else None)"

definition average_rating :: "pystr \<Rightarrow> review list \<Rightarrow> pyfloat result" where
  "average_rating plugin_id ws =
     (let rs = reviews_for ws plugin_id
      in if rs = [] then Inr (Fin 0) else int_truediv (sum_list (map rw_rating rs)) (int (length rs)))"

definition install_count :: "pystr \<Rightarrow> extension_store \<Rightarrow> int" where
  "install_count plugin_id s =
     int (length (filter (\<lambda>x. xi_plugin_id x = plugin_id \<and> xi_status x \<noteq> XS_UNINSTALLED) (all_extensions s)))"

section \<open>The loader and the sandbox\<close>

fun publishing_status_value :: "publishing_status \<Rightarrow> pystr" where
  "publishing_status_value PB_DEVELOPMENT = ''development''"
| "publishing_status_value PB_VALIDATED = ''validated''"
| "publishing_status_value PB_SIGNED = ''signed''"
| "publishing_status_value PB_PUBLISHED = ''published''"
| "publishing_status_value PB_RETIRED = ''retired''"

text \<open>
  The plugins themselves are not part of the program: \<open>impls\<close> is the registry of their factories,
  \<open>build\<close> what calling a factory gives or raises, and \<open>invoke\<close> what becomes of an invocation within
  \<open>max_execution_seconds\<close>. \<open>PluginNotPublishedError\<close> is \<open>Not_published\<close>; a missing implementation is a
  \<open>KeyError\<close> on the plugin.
\<close>

datatype loading_error = Not_published pystr publishing_status | Loading_raised pyexn

definition register_implementation :: "pystr \<Rightarrow> 'f \<Rightarrow> (pystr, 'f) dict \<Rightarrow> (pystr, 'f) dict" where
  "register_implementation plugin_id factory impls = dict_set plugin_id factory impls"

definition load_plugin ::
    "('f \<Rightarrow> 'p result) \<Rightarrow> (pystr, 'f) dict \<Rightarrow> plugin_registry \<Rightarrow> pystr \<Rightarrow> loading_error + 'p" where
  "load_plugin build impls r plugin_id =
     (case get_plugin r plugin_id of
        None \<Rightarrow> Inl (Loading_raised (KeyError plugin_id))
      | Some m \<Rightarrow>
          if pm_status m \<noteq> PB_PUBLISHED then Inl (Not_published plugin_id (pm_status m))
          else (case dict_get impls plugin_id of
                  None \<Rightarrow> Inl (Loading_raised (KeyError plugin_id))
                | Some factory \<Rightarrow> (case build factory of Inl e \<Rightarrow> Inl (Loading_raised e) | Inr p \<Rightarrow> Inr p)))"

datatype 'r invocation = Returned 'r | Timed_out | Failed pystr

record plugin_context =
  px_firm_id :: pystr
  px_actor_id :: pystr
  px_plugin_id :: pystr
  px_has_permission :: "pystr \<Rightarrow> bool result"

record 'r sandbox_result =
  xr_plugin_id :: pystr
  xr_success :: bool
  xr_result :: "'r option"
  xr_error :: "pystr option"

abbreviation sandbox_failed :: "pystr \<Rightarrow> pystr \<Rightarrow> 'r sandbox_result" where
  "sandbox_failed plugin_id why \<equiv>
     \<lparr>xr_plugin_id = plugin_id, xr_success = False, xr_result = None, xr_error = Some why\<rparr>"

text \<open>The times of the calls of each plugin for each firm, and the pops from the front of the list.\<close>

type_synonym sandbox_calls = "(pystr \<times> pystr, datetime list) dict"

definition calls_of :: "pystr \<times> pystr \<Rightarrow> sandbox_calls \<Rightarrow> datetime list" where
  [store_defs]: "calls_of k c = (case dict_get c k of None \<Rightarrow> [] | Some ts \<Rightarrow> ts)"

fun pop_before :: "datetime \<Rightarrow> datetime list \<Rightarrow> datetime list" where
  "pop_before cutoff [] = []"
| "pop_before cutoff (t # ts) = (if t < cutoff then pop_before cutoff ts else t # ts)"

definition sandbox_quota_exceeded ::
    "int \<Rightarrow> datetime \<Rightarrow> pystr \<Rightarrow> pystr \<Rightarrow> sandbox_calls \<Rightarrow> bool \<times> sandbox_calls" where
  "sandbox_quota_exceeded max_calls now firm plugin_id c =
     (let ts = pop_before (now - minutes 1) (calls_of (firm, plugin_id) c)
      in (max_calls \<le> int (length ts), dict_set (firm, plugin_id) ts c))"

definition record_sandbox_call :: "datetime \<Rightarrow> pystr \<Rightarrow> pystr \<Rightarrow> sandbox_calls \<Rightarrow> sandbox_calls" where
  "record_sandbox_call now firm plugin_id c =
     dict_set (firm, plugin_id) (calls_of (firm, plugin_id) c @ [now]) c"

text \<open>
  One execution. The third component is what was invoked, if anything: the plugin, with the context
  and the payload it was handed. A factory may raise an exception the sandbox does not catch.
\<close>

definition sandbox_execute ::
    "int \<Rightarrow> ('f \<Rightarrow> 'p result) \<Rightarrow> ('p \<Rightarrow> plugin_context \<Rightarrow> 'a \<Rightarrow> 'r invocation) \<Rightarrow> (pystr, 'f) dict \<Rightarrow> marketplace
       \<Rightarrow> datetime \<Rightarrow> datetime \<Rightarrow> pystr \<Rightarrow> pystr \<Rightarrow> pystr \<Rightarrow> 'a \<Rightarrow> extension_permission option \<Rightarrow> sandbox_calls
       \<Rightarrow> 'r sandbox_result result \<times> sandbox_calls \<times> ('p \<times> plugin_context \<times> 'a) option" where
  "sandbox_execute max_calls build invoke impls mk t_check t_record firm actor plugin_id payload required c =
     (if (case required of None \<Rightarrow> False | Some p \<Rightarrow> \<not> check_permission firm plugin_id p (mk_grants mk))
      then (Inr (sandbox_failed plugin_id (''permission refus'' @ [CHR 0xE9] @ ''e'')), c, None)
      else
        (let (exceeded, c1) = sandbox_quota_exceeded max_calls t_check firm plugin_id c
         in if exceeded
            then (Inr (sandbox_failed plugin_id (''quota d'' @ [CHR 0x27] @ ''appels d'' @ [CHR 0xE9] @ ''pass'' @ [CHR 0xE9])), c1, None)
            else
              (case load_plugin build impls (pk_registry (mk_desk mk)) plugin_id of
                 Inl (Not_published i st) \<Rightarrow>
                   (Inr (sandbox_failed plugin_id (i @ '' is '' @ publishing_status_value st @ '', expected published'')), c1, None)
               | Inl (Loading_raised (KeyError k)) \<Rightarrow> (Inr (sandbox_failed plugin_id (py_repr k)), c1, None)
               | Inl (Loading_raised e) \<Rightarrow> (Inl e, c1, None)
               | Inr p \<Rightarrow>
                   let ctx = \<lparr>px_firm_id = firm, px_actor_id = actor, px_plugin_id = plugin_id,
                              px_has_permission = scoped_has_permission firm plugin_id (mk_grants mk)\<rparr>;
                       c2 = record_sandbox_call t_record firm plugin_id c1
                   in (Inr (case invoke p ctx payload of
                              Returned res \<Rightarrow> \<lparr>xr_plugin_id = plugin_id, xr_success = True, xr_result = Some res, xr_error = None\<rparr>
                            | Timed_out \<Rightarrow> sandbox_failed plugin_id (''d'' @ [CHR 0xE9] @ ''lai d'' @ [CHR 0xE9] @ ''pass'' @ [CHR 0xE9])
                            | Failed why \<Rightarrow> sandbox_failed plugin_id why),
                       c2, Some (p, ctx, payload)))))"

section \<open>Paid subscriptions to extensions\<close>

datatype extension_subscription_status = EX_ACTIVE | EX_CANCELLED

record extension_subscription =
  es_id :: pystr
  es_firm_id :: pystr
  es_plugin_id :: pystr
  es_license_grant_id :: pystr
  es_monthly_price_usd :: pyfloat
  es_status :: extension_subscription_status
  es_subscribed_at :: datetime

definition subscription_pair :: "extension_subscription \<Rightarrow> pystr \<times> pystr" where
  "subscription_pair x = (es_firm_id x, es_plugin_id x)"

definition extension_subscription_save ::
    "extension_subscription \<Rightarrow> (pystr \<times> pystr, extension_subscription) dict \<Rightarrow> (pystr \<times> pystr, extension_subscription) dict" where
  [store_defs]: "extension_subscription_save x s = dict_set (subscription_pair x) x s"

definition extension_subscriptions_for_firm ::
    "(pystr \<times> pystr, extension_subscription) dict \<Rightarrow> pystr \<Rightarrow> extension_subscription list" where
  [store_defs]: "extension_subscriptions_for_firm s firm = rows_by_key s firm"

interpretation subscription_pairs: tenant_store subscription_pair extension_subscription_save dict_get
    "keyed subscription_pair" extension_subscriptions_for_firm
  using tenant_store_dict [of subscription_pair]
  by (simp add: extension_subscription_save_def [abs_def] extension_subscriptions_for_firm_def [abs_def])

record extension_shop =
  xs_market :: marketplace
  xs_licenses :: license_desk
  xs_ledger :: ledger
  xs_subscriptions :: "(pystr \<times> pystr, extension_subscription) dict"

text \<open>The new identifiers and the readings of the clock of one subscription, in the order they are taken.\<close>

record subscription_draw =
  dw_instance_id :: pystr
  dw_grant_id :: pystr
  dw_invoice_id :: pystr
  dw_line_id :: pystr
  dw_subscription_id :: pystr
  dw_installed_at :: datetime
  dw_updated_at :: datetime
  dw_granted_at :: datetime
  dw_invoiced_at :: datetime
  dw_issued_at :: datetime
  dw_subscribed_at :: datetime

definition bill_extension :: "subscription_draw \<Rightarrow> pystr \<Rightarrow> pystr \<Rightarrow> pyfloat \<Rightarrow> ledger \<Rightarrow> ledger result" where
  "bill_extension w firm plugin_id price g =
     (if flt_less (Fin 0) price
      then (let (v, g1) = create_invoice (dw_invoice_id w) (dw_invoiced_at w) firm firm None g;
                item = \<lparr>li_id = dw_line_id w,
                        li_description = ''Extension '' @ plugin_id @ '' (abonnement mensuel)'',
                        li_quantity = Fin 1, li_unit_price = price, li_fee_type = FT_FLAT_FEE,
                        li_discount_percent = Fin 0\<rparr>
            in res_bind (add_invoice_line (iv_id v) item g1) (\<lambda>(_, g2).
                 res_bind (issue_invoice (dw_issued_at w) (iv_id v) None g2) (\<lambda>(_, g3). Inr g3)))
      else Inr g)"

definition subscribe_extension ::
    "(pystr \<Rightarrow> pystr) \<Rightarrow> subscription_draw \<Rightarrow> pystr \<Rightarrow> pystr \<Rightarrow> extension_permission set \<Rightarrow> pyfloat \<Rightarrow> extension_shop
       \<Rightarrow> (extension_error + extension_subscription) \<times> extension_shop" where
  "subscribe_extension mac w firm plugin_id requested price s =
     (case install_extension (dw_instance_id w) (dw_installed_at w) (dw_updated_at w) firm plugin_id requested (xs_market s) of
        (Inl e, mk) \<Rightarrow> (Inl e, s\<lparr>xs_market := mk\<rparr>)
      | (Inr _, mk) \<Rightarrow>
          (let s1 = s\<lparr>xs_market := mk\<rparr>
           in case assign_license mac (dw_grant_id w) (dw_granted_at w) firm LT_API plugin_id 365 (xs_licenses s1) of
                Inl e \<Rightarrow> (Inl (Engine_raised e), s1)
              | Inr (g, d) \<Rightarrow>
                  (let s2 = s1\<lparr>xs_licenses := d\<rparr>
                   in case bill_extension w firm plugin_id price (xs_ledger s2) of
                        Inl e \<Rightarrow> (Inl (Engine_raised e), s2)
                      | Inr l \<Rightarrow>
                          let x = \<lparr>es_id = dw_subscription_id w, es_firm_id = firm, es_plugin_id = plugin_id,
                                   es_license_grant_id = lc_id g, es_monthly_price_usd = price,
                                   es_status = EX_ACTIVE, es_subscribed_at = dw_subscribed_at w\<rparr>
                          in (Inr x, s2\<lparr>xs_ledger := l,
                                        xs_subscriptions := extension_subscription_save x (xs_subscriptions s2)\<rparr>))))"

definition unsubscribe_extension ::
    "datetime \<Rightarrow> pystr \<Rightarrow> pystr \<Rightarrow> extension_shop \<Rightarrow> (extension_error + extension_subscription) \<times> extension_shop" where
  "unsubscribe_extension now firm plugin_id s =
     (case dict_get (xs_subscriptions s) (firm, plugin_id) of
        None \<Rightarrow> (Inl (No_subscription firm plugin_id), s)
      | Some x \<Rightarrow>
          (case uninstall_extension now firm plugin_id (xs_market s) of
             (Inl e, mk) \<Rightarrow> (Inl e, s\<lparr>xs_market := mk\<rparr>)
           | (Inr _, mk) \<Rightarrow>
               (let s1 = s\<lparr>xs_market := mk\<rparr>
                in case revoke_license firm (es_license_grant_id x) (xs_licenses s1) of
                     Inl e \<Rightarrow> (Inl (Engine_raised e), s1)
                   | Inr (_, d) \<Rightarrow>
                       let x' = x\<lparr>es_status := EX_CANCELLED\<rparr>
                       in (Inr x', s1\<lparr>xs_licenses := d,
                                     xs_subscriptions := extension_subscription_save x' (xs_subscriptions s1)\<rparr>))))"

definition update_subscription ::
    "datetime \<Rightarrow> pystr \<Rightarrow> pystr \<Rightarrow> extension_shop \<Rightarrow> (extension_error + extension_instance) \<times> extension_shop" where
  "update_subscription now firm plugin_id s =
     (let (out, mk) = update_extension now firm plugin_id (xs_market s) in (out, s\<lparr>xs_market := mk\<rparr>))"

section \<open>What installed extensions may do\<close>

lemma extension_permission_of_Some: "extension_permission_of s = Some p \<Longrightarrow> extension_permission_value p = s"
  by (auto simp: extension_permission_of_def find_Some_iff)

lemma declared_value:
  "declared_permissions ss = Inr declared \<Longrightarrow> p \<in> declared \<Longrightarrow> extension_permission_value p \<in> set ss"
  by (induction ss arbitrary: declared) (auto split: option.splits sum.splits dest: extension_permission_of_Some)

text \<open>
  The operations of the marketplace, each with what it did that matters here: an id registered (once
  more), a firm's installation or uninstallation of a plugin. An operation that raises does nothing.
\<close>

datatype market_event = Registered pystr | Installed pystr pystr | Uninstalled pystr pystr

inductive market_step :: "(pystr \<Rightarrow> pystr) \<Rightarrow> marketplace \<Rightarrow> market_event list \<Rightarrow> marketplace \<Rightarrow> bool" for mac mk where
  catalogue_moved: "publishing_step mac (mk_desk mk) ids k \<Longrightarrow> market_step mac mk (map Registered ids) (mk\<lparr>mk_desk := k\<rparr>)"
| extension_installed: "install_extension i t t' firm p ps mk = (Inr x, mk') \<Longrightarrow> market_step mac mk [Installed firm p] mk'"
| installation_refused: "install_extension i t t' firm p ps mk = (Inl e, mk') \<Longrightarrow> market_step mac mk [] mk'"
| extension_enabled: "enable_extension t firm p mk = (out, mk') \<Longrightarrow> market_step mac mk [] mk'"
| extension_disabled: "disable_extension t firm p mk = (out, mk') \<Longrightarrow> market_step mac mk [] mk'"
| extension_uninstalled: "uninstall_extension t firm p mk = (Inr x, mk') \<Longrightarrow> market_step mac mk [Uninstalled firm p] mk'"
| uninstallation_refused: "uninstall_extension t firm p mk = (Inl e, mk') \<Longrightarrow> market_step mac mk [] mk'"
| extension_updated: "update_extension t firm p mk = (out, mk') \<Longrightarrow> market_step mac mk [] mk'"

definition empty_marketplace :: marketplace where
  "empty_marketplace = \<lparr>mk_desk = empty_publishing_desk, mk_instances = [], mk_grants = []\<rparr>"

text \<open>A run of the marketplace from one state to another, with its events in order.\<close>

inductive market_trace :: "(pystr \<Rightarrow> pystr) \<Rightarrow> marketplace \<Rightarrow> market_event list \<Rightarrow> marketplace \<Rightarrow> bool" for mac mk0 where
  market_unmoved: "market_trace mac mk0 [] mk0"
| market_moved: "market_trace mac mk0 es mk \<Longrightarrow> market_step mac mk new mk' \<Longrightarrow> market_trace mac mk0 (es @ new) mk'"

text \<open>
  The present side of a grant: an instance of the firm that is not uninstalled and records it.
\<close>

definition grant_recorded :: "marketplace \<Rightarrow> pystr \<Rightarrow> pystr \<Rightarrow> bool" where
  "grant_recorded mk firm p \<longleftrightarrow> granted_permissions firm p (mk_grants mk) = {} \<or>
     (\<exists>x. dict_get (mk_instances mk) (firm, p) = Some x \<and> xi_status x \<noteq> XS_UNINSTALLED \<and>
        xi_granted_permissions x = granted_permissions firm p (mk_grants mk))"

definition market_ok :: "(pystr \<Rightarrow> pystr) \<Rightarrow> marketplace \<Rightarrow> bool" where
  "market_ok mac mk \<longleftrightarrow> (\<exists>ids. publishing_ok mac ids (mk_desk mk)) \<and> keyed instance_key (mk_instances mk) \<and>
     (\<forall>firm p. grant_recorded mk firm p)"

text \<open>The plugin as the catalogue has it: published, or since retired, declaring the permission.\<close>

definition plugin_declares :: "marketplace \<Rightarrow> pystr \<Rightarrow> extension_permission \<Rightarrow> bool" where
  "plugin_declares mk p permission \<longleftrightarrow> (\<exists>m. get_plugin (pk_registry (mk_desk mk)) p = Some m \<and>
     pm_status m \<in> {PB_PUBLISHED, PB_RETIRED} \<and> extension_permission_value permission \<in> set (pm_permissions m))"

lemma instance_at: "keyed instance_key s \<Longrightarrow> dict_get s (firm, p) = Some x \<Longrightarrow> instance_key x = (firm, p)"
  by (rule keyed_get)

lemma install_extension_cases:
  assumes "install_extension i t t' firm p ps mk = (out, mk')"
  obtains e where "out = Inl e" and "mk' = mk"
  | m declared x where "out = Inr x" and "get_plugin (pk_registry (mk_desk mk)) p = Some m" and "pm_status m = PB_PUBLISHED"
      and "declared_permissions (pm_permissions m) = Inr declared" and "ps \<subseteq> declared"
      and "instance_key x = (firm, p)" and "xi_status x = XS_ACTIVE" and "xi_granted_permissions x = ps"
      and "mk' = mk\<lparr>mk_instances := extension_save x (mk_instances mk), mk_grants := grant_permissions firm p ps (mk_grants mk)\<rparr>"
  using assms by (auto simp: install_extension_def instance_key_def Let_def split: option.splits sum.splits if_splits)

lemma uninstall_extension_cases:
  assumes "uninstall_extension t firm p mk = (out, mk')"
  obtains e where "out = Inl e" and "mk' = mk"
  | x where "out = Inr (x\<lparr>xi_status := XS_UNINSTALLED, xi_updated_at := t\<rparr>)" and "dict_get (mk_instances mk) (firm, p) = Some x"
      and "mk' = mk\<lparr>mk_instances := extension_save (x\<lparr>xi_status := XS_UNINSTALLED, xi_updated_at := t\<rparr>) (mk_instances mk),
                   mk_grants := revoke_permissions firm p (mk_grants mk)\<rparr>"
  using assms by (auto simp: uninstall_extension_def Let_def split: option.splits)

text \<open>Enabling, disabling and updating rewrite an instance without touching what it records of a grant.\<close>

lemma rewriting_cases:
  assumes "market_step mac mk new mk'"
  obtains ids k where "new = map Registered ids" and "publishing_step mac (mk_desk mk) ids k" and "mk' = mk\<lparr>mk_desk := k\<rparr>"
  | i t t' firm p ps x where "new = [Installed firm p]" and "install_extension i t t' firm p ps mk = (Inr x, mk')"
  | t firm p x where "new = [Uninstalled firm p]" and "uninstall_extension t firm p mk = (Inr x, mk')"
  | "new = []" and "mk' = mk"
  | firm p x x' where "new = []" and "dict_get (mk_instances mk) (firm, p) = Some x" and "instance_key x' = instance_key x"
      and "xi_granted_permissions x' = xi_granted_permissions x" and "xi_status x' = XS_UNINSTALLED \<Longrightarrow> xi_status x = XS_UNINSTALLED"
      and "mk' = mk\<lparr>mk_instances := extension_save x' (mk_instances mk)\<rparr>"
proof -
  have status: thesis if "new = []" "set_extension_status t firm p st mk = (out, mk')" "st \<noteq> XS_UNINSTALLED" for t firm p st out
  proof (cases "dict_get (mk_instances mk) (firm, p)")
    case None
    then have "mk' = mk" using that(2) by (simp add: set_extension_status_def)
    then show thesis using \<open>\<lbrakk>new = []; mk' = mk\<rbrakk> \<Longrightarrow> thesis\<close> that(1) by blast
  next
    case (Some x)
    then have "mk' = mk\<lparr>mk_instances := extension_save (x\<lparr>xi_status := st, xi_updated_at := t\<rparr>) (mk_instances mk)\<rparr>"
      using that(2) by (simp add: set_extension_status_def Let_def)
    with that(1,3) Some show thesis
      by (intro \<open>\<And>firm p x x'. \<lbrakk>new = []; dict_get (mk_instances mk) (firm, p) = Some x; instance_key x' = instance_key x;
            xi_granted_permissions x' = xi_granted_permissions x; xi_status x' = XS_UNINSTALLED \<Longrightarrow> xi_status x = XS_UNINSTALLED;
            mk' = mk\<lparr>mk_instances := extension_save x' (mk_instances mk)\<rparr>\<rbrakk> \<Longrightarrow> thesis\<close>
            [of firm p x "x\<lparr>xi_status := st, xi_updated_at := t\<rparr>"])
        (simp_all add: instance_key_def)
  qed
  show thesis
    using assms
  proof cases
    case (catalogue_moved ids k)
    then show thesis using that(1) by blast
  next
    case (extension_installed i t t' firm p ps x)
    then show thesis using that(2) by blast
  next
    case (installation_refused i t t' firm p ps e)
    from installation_refused(2) show thesis
      by (rule install_extension_cases) (use installation_refused(1) that(4) in simp_all)
  next
    case (extension_enabled t firm p out)
    then show thesis using status [of t firm p XS_ACTIVE out] by (simp add: enable_extension_def)
  next
    case (extension_disabled t firm p out)
    then show thesis using status [of t firm p XS_DISABLED out] by (simp add: disable_extension_def)
  next
    case (extension_uninstalled t firm p x)
    then show thesis using that(3) by blast
  next
    case (uninstallation_refused t firm p e)
    from uninstallation_refused(2) show thesis
      by (rule uninstall_extension_cases) (use uninstallation_refused(1) that(4) in simp_all)
  next
    case (extension_updated t firm p out)
    show thesis
    proof (cases "get_plugin (pk_registry (mk_desk mk)) p = None \<or> dict_get (mk_instances mk) (firm, p) = None")
      case True
      then have "mk' = mk" using extension_updated(2) by (auto simp: update_extension_def split: option.splits)
      then show thesis using extension_updated(1) that(4) by blast
    next
      case False
      then obtain m x where mx: "get_plugin (pk_registry (mk_desk mk)) p = Some m" "dict_get (mk_instances mk) (firm, p) = Some x" by auto
      then have "mk' = mk\<lparr>mk_instances := extension_save (x\<lparr>xi_version := pm_version m, xi_updated_at := t\<rparr>) (mk_instances mk)\<rparr>"
        using extension_updated(2) by (simp add: update_extension_def Let_def)
      with extension_updated(1) mx(2) show thesis
        by (intro that(5) [of firm p x "x\<lparr>xi_version := pm_version m, xi_updated_at := t\<rparr>"]) (simp_all add: instance_key_def)
    qed
  qed
qed

lemma market_step_ok:
  assumes ok: "market_ok mac mk" and "market_step mac mk new mk'"
  shows "market_ok mac mk'"
  using assms(2)
proof (cases rule: rewriting_cases)
  case (1 ids k)
  then show ?thesis using ok publishing_step_ok by (fastforce simp: market_ok_def grant_recorded_def)
next
  case (2 i t t' firm p ps x)
  from 2(2) show ?thesis
  proof (cases rule: install_extension_cases)
    case (2 m declared y)
    have "grant_recorded mk' f q" for f q
    proof -
      have "grant_recorded mk f q" using ok by (simp add: market_ok_def)
      then show ?thesis
        using 2(2-8) by (cases "(f, q) = (firm, p)") (auto simp: grant_recorded_def 2(9) extension_rows.get_put granted_grant)
    qed
    then show ?thesis using ok by (simp add: market_ok_def 2(9) extension_rows.wf_put)
  qed simp
next
  case (3 t firm p x)
  from 3(2) show ?thesis
  proof (cases rule: uninstall_extension_cases)
    case (2 y)
    let ?y = "y\<lparr>xi_status := XS_UNINSTALLED, xi_updated_at := t\<rparr>"
    have key: "instance_key ?y = (firm, p)"
      using instance_at [OF _ 2(2)] ok by (simp add: market_ok_def instance_key_def)
    have "grant_recorded mk' f q" for f q
    proof -
      have "grant_recorded mk f q" using ok by (simp add: market_ok_def)
      then show ?thesis
        by (cases "(f, q) = (firm, p)") (auto simp: grant_recorded_def 2(3) extension_rows.get_put key granted_revoke)
    qed
    then show ?thesis using ok by (simp add: market_ok_def 2(3) extension_rows.wf_put)
  qed simp
next
  case 4
  then show ?thesis using ok by simp
next
  case (5 firm p x x')
  have key: "instance_key x' = (firm, p)" using instance_at [OF _ 5(2)] ok 5(3) by (simp add: market_ok_def)
  have "grant_recorded mk' f q" for f q
  proof -
    have "grant_recorded mk f q" using ok by (simp add: market_ok_def)
    then show ?thesis
      using 5(2,4,5) by (cases "(f, q) = (firm, p)") (auto simp: grant_recorded_def 5(6) extension_rows.get_put key)
  qed
  then show ?thesis using ok by (simp add: market_ok_def 5(6) extension_rows.wf_put)
qed

lemma market_ok_empty: "market_ok mac empty_marketplace"
  using publishing_ok_empty [of mac]
  by (auto simp: market_ok_def empty_marketplace_def grant_recorded_def granted_permissions_def)

lemma market_trace_ok: "market_trace mac mk0 es mk \<Longrightarrow> market_ok mac mk0 \<Longrightarrow> market_ok mac mk"
  by (induction rule: market_trace.induct) (auto intro: market_step_ok)

text \<open>A step changes what a firm granted a plugin only by installing or uninstalling it.\<close>

lemma market_step_granted:
  assumes "market_step mac mk new mk'" and "Installed firm p \<notin> set new" and "Uninstalled firm p \<notin> set new"
  shows "granted_permissions firm p (mk_grants mk') = granted_permissions firm p (mk_grants mk)"
  using assms(1)
proof (cases rule: rewriting_cases)
  case (2 i t t' f q ps x)
  from 2(2) show ?thesis
    by (rule install_extension_cases) (use 2(1) assms(2) in \<open>auto simp: granted_grant\<close>)
next
  case (3 t f q x)
  from 3(2) show ?thesis
    by (rule uninstall_extension_cases) (use 3(1) assms(3) in \<open>auto simp: granted_revoke\<close>)
qed simp_all

lemma market_step_declares:
  assumes "market_step mac mk new mk'" and "market_ok mac mk" and "Registered p \<notin> set new" and "plugin_declares mk p permission"
  shows "plugin_declares mk' p permission"
  using assms(1)
proof (cases rule: rewriting_cases)
  case (1 ids k)
  have keyed: "keyed pm_id (pk_registry (mk_desk mk))" using assms(2) by (auto simp: market_ok_def publishing_ok_def)
  obtain m where m: "get_plugin (pk_registry (mk_desk mk)) p = Some m" "pm_status m \<in> {PB_PUBLISHED, PB_RETIRED}"
      "extension_permission_value permission \<in> set (pm_permissions m)"
    using assms(4) by (auto simp: plugin_declares_def)
  obtain m' where "get_plugin (pk_registry k) p = Some m'" "pm_permissions m' = pm_permissions m"
      "pm_status m \<in> {PB_PUBLISHED, PB_RETIRED} \<longrightarrow> pm_status m' \<in> {PB_PUBLISHED, PB_RETIRED}"
    using publishing_step_keeps [OF 1(2) keyed m(1)] assms(3) 1(1) by auto
  then show ?thesis using m by (auto simp: plugin_declares_def 1(3))
next
  case (2 i t t' f q ps x)
  from 2(2) show ?thesis by (rule install_extension_cases) (use assms(4) in \<open>auto simp: plugin_declares_def\<close>)
next
  case (3 t f q x)
  from 3(2) show ?thesis by (rule uninstall_extension_cases) (use assms(4) in \<open>auto simp: plugin_declares_def\<close>)
qed (use assms(4) in \<open>simp_all add: plugin_declares_def\<close>)

text \<open>Where a grant comes from: the last installation, before which and since when the run is split.\<close>

lemma grant_origin:
  assumes "market_trace mac empty_marketplace es mk" and "permission \<in> granted_permissions firm p (mk_grants mk)"
  shows "\<exists>before after mk0 mk1 i t t' ps x. es = before @ Installed firm p # after \<and>
     market_trace mac empty_marketplace before mk0 \<and> install_extension i t t' firm p ps mk0 = (Inr x, mk1) \<and>
     market_trace mac mk1 after mk \<and> Installed firm p \<notin> set after \<and> Uninstalled firm p \<notin> set after \<and> permission \<in> ps"
  using assms
proof (induction rule: market_trace.induct)
  case market_unmoved
  then show ?case by (simp add: empty_marketplace_def granted_permissions_def)
next
  case (market_moved es mk new mk')
  show ?case
  proof (cases "Installed firm p \<in> set new \<or> Uninstalled firm p \<in> set new")
    case True
    from market_moved.hyps(2) show ?thesis
    proof (cases rule: rewriting_cases)
      case (1 ids k)
      then show ?thesis using True by auto
    next
      case (2 i t t' f q ps x)
      then have fq: "f = firm" "q = p" using True by auto
      have perm: "permission \<in> ps"
        using 2(2) by (rule install_extension_cases) (use market_moved.prems in \<open>auto simp: fq granted_grant\<close>)
      show ?thesis
        by (intro exI [of _ es] exI [of _ "[]"] exI [of _ mk] exI [of _ mk'] exI [of _ i] exI [of _ t] exI [of _ t']
            exI [of _ ps] exI [of _ x] conjI)
          (use market_moved.hyps(1) 2 fq perm market_unmoved in simp_all)
    next
      case (3 t f q x)
      then have fq: "f = firm" "q = p" using True by auto
      have False
        using 3(2) by (rule uninstall_extension_cases) (use market_moved.prems in \<open>auto simp: fq granted_revoke\<close>)
      then show ?thesis ..
    qed (use True in simp_all)
  next
    case False
    then have "permission \<in> granted_permissions firm p (mk_grants mk)"
      using market_step_granted [OF market_moved.hyps(2)] market_moved.prems by simp
    then obtain before after mk0 mk1 i t t' ps x where o: "es = before @ Installed firm p # after"
        "market_trace mac empty_marketplace before mk0" "install_extension i t t' firm p ps mk0 = (Inr x, mk1)"
        "market_trace mac mk1 after mk" "Installed firm p \<notin> set after" "Uninstalled firm p \<notin> set after" "permission \<in> ps"
      using market_moved.IH by blast
    have "market_trace mac mk1 (after @ new) mk'" by (rule market_trace.market_moved [OF o(4) market_moved.hyps(2)])
    with o False show ?thesis
      by (intro exI [of _ before] exI [of _ "after @ new"] exI [of _ mk0] exI [of _ mk1] exI [of _ i] exI [of _ t]
          exI [of _ t'] exI [of _ ps] exI [of _ x]) simp
  qed
qed

lemma trace_declares:
  "market_trace mac mk1 es mk \<Longrightarrow> market_ok mac mk1 \<Longrightarrow> plugin_declares mk1 p permission \<Longrightarrow> Registered p \<notin> set es \<Longrightarrow>
     plugin_declares mk p permission"
  by (induction rule: market_trace.induct) (auto intro: market_step_declares market_trace_ok)


text \<open>The demonstration plugin, published and installed for a firm with its one permission.\<close>

definition demo_market :: marketplace where
  "demo_market =
     snd (install_extension ''x1'' 0 0 ''firm'' ''a'' {XP_READ_CASES}
       (empty_marketplace\<lparr>mk_desk := demo_publishing\<rparr>))"

lemma market_from_publishing:
  "publishing_reachable mac ids k \<Longrightarrow> market_trace mac empty_marketplace (map Registered ids) (empty_marketplace\<lparr>mk_desk := k\<rparr>)"
proof (induction rule: publishing_reachable.induct)
  case no_plugin
  then show ?case using market_unmoved [of mac empty_marketplace] by (simp add: empty_marketplace_def)
next
  case (plugin_moved ids k new k')
  have "market_step mac (empty_marketplace\<lparr>mk_desk := k\<rparr>) (map Registered new) ((empty_marketplace\<lparr>mk_desk := k\<rparr>)\<lparr>mk_desk := k'\<rparr>)"
    by (rule catalogue_moved) (simp add: plugin_moved)
  from market_moved [OF plugin_moved.IH this] show ?case by simp
qed

lemma demo_declared: "declared_permissions (pm_permissions demo_published) = Inr {XP_READ_CASES}"
  by (simp add: demo_published_def demo_manifest_def extension_permission_of_def extension_permissions_def)

lemma demo_published_status [simp]: "pm_status demo_published = PB_PUBLISHED"
  by (simp add: demo_published_def)

lemma demo_market_eq:
  "demo_market = (empty_marketplace\<lparr>mk_desk := demo_publishing\<rparr>)\<lparr>
     mk_instances := [((''firm'', ''a''), \<lparr>xi_id = ''x1'', xi_firm_id = ''firm'', xi_plugin_id = ''a'', xi_version = ''1'',
        xi_granted_permissions = {XP_READ_CASES}, xi_status = XS_ACTIVE, xi_installed_at = 0, xi_updated_at = 0\<rparr>)],
     mk_grants := [((''firm'', ''a''), {XP_READ_CASES})]\<rparr>"
  by (simp add: demo_market_def install_extension_def demo_publishing_facts demo_declared empty_marketplace_def
      extension_save_def instance_key_def grant_permissions_def Let_def)
     (simp add: demo_published_def demo_manifest_def)

lemma demo_market_trace: "market_trace no_mac empty_marketplace [Registered ''a'', Installed ''firm'' ''a''] demo_market"
proof -
  let ?mk = "empty_marketplace\<lparr>mk_desk := demo_publishing\<rparr>"
  obtain x mk' where run: "install_extension ''x1'' 0 0 ''firm'' ''a'' {XP_READ_CASES} ?mk = (Inr x, mk')"
    by (simp add: install_extension_def demo_publishing_facts demo_declared empty_marketplace_def Let_def)
  then have mk': "demo_market = mk'" by (simp add: demo_market_def)
  from market_moved [OF market_from_publishing [OF demo_publishing_facts(1)] extension_installed [OF run]]
  show ?thesis by (simp add: mk')
qed


section \<open>The call quota of the sandbox\<close>

lemma pop_before_split:
  "sorted ts \<Longrightarrow> \<exists>old. ts = old @ pop_before cutoff ts \<and> (\<forall>t \<in> set old. t < cutoff)"
proof (induction ts)
  case (Cons t ts)
  then obtain old where old: "ts = old @ pop_before cutoff ts" "\<forall>t \<in> set old. t < cutoff" by auto
  show ?case
  proof (cases "t < cutoff")
    case True
    then show ?thesis using old by (intro exI [of _ "t # old"]) simp
  next
    case False
    then show ?thesis by (intro exI [of _ "[]"]) simp
  qed
qed simp

lemma calls_of_set: "calls_of k (dict_set k' ts c) = (if k = k' then ts else calls_of k c)"
  by (simp add: calls_of_def update_conv')

text \<open>What one execution does to the list of calls: nothing, the pops, or the pops and a new call.\<close>

lemma sandbox_execute_calls:
  assumes "sandbox_execute n build invoke impls mk t_check t_record firm actor p payload required c = (out, c', called)"
  shows "(called = None \<and> (c' = c \<or> c' = snd (sandbox_quota_exceeded n t_check firm p c))) \<or>
     (called \<noteq> None \<and> \<not> fst (sandbox_quota_exceeded n t_check firm p c) \<and>
      c' = record_sandbox_call t_record firm p (snd (sandbox_quota_exceeded n t_check firm p c)))"
  using assms
  by (auto simp: sandbox_execute_def Let_def split: if_splits prod.splits sum.splits loading_error.splits pyexn.splits)

text \<open>
  The whole history of the calls of a plugin for a firm is what was popped, all of it older than a
  minute, followed by the list that is kept.
\<close>

definition sandbox_ok :: "int \<Rightarrow> pystr \<times> pystr \<Rightarrow> datetime \<Rightarrow> datetime list \<Rightarrow> sandbox_calls \<Rightarrow> bool" where
  "sandbox_ok n k now hist c \<longleftrightarrow> sorted hist \<and> (\<forall>t \<in> set hist. t \<le> now) \<and> windows_bounded (minutes 1) n hist \<and>
     (\<exists>old. hist = old @ calls_of k c \<and> (\<forall>t \<in> set old. t < now - minutes 1))"

lemma sandbox_ok_later: "sandbox_ok n k now hist c \<Longrightarrow> now \<le> t \<Longrightarrow> sandbox_ok n k t hist c"
  by (fastforce simp: sandbox_ok_def)

lemma sandbox_ok_pops:
  assumes ok: "sandbox_ok n k now hist c" and "now \<le> t_check"
  shows "sandbox_ok n k t_check hist (snd (sandbox_quota_exceeded m t_check firm p c))"
proof -
  have ok': "sandbox_ok n k t_check hist c" using assms by (rule sandbox_ok_later)
  then obtain old where old: "hist = old @ calls_of k c" "\<forall>t \<in> set old. t < t_check - minutes 1" "sorted (calls_of k c)"
    by (auto simp: sandbox_ok_def sorted_append)
  obtain more where "calls_of k c = more @ pop_before (t_check - minutes 1) (calls_of k c)"
      "\<forall>t \<in> set more. t < t_check - minutes 1"
    using pop_before_split [OF old(3)] by blast
  then have "\<exists>old'. hist = old' @ pop_before (t_check - minutes 1) (calls_of k c) \<and> (\<forall>t \<in> set old'. t < t_check - minutes 1)"
    using old by (intro exI [of _ "old @ more"]) auto
  then show ?thesis
    using ok' by (cases "k = (firm, p)") (simp_all add: sandbox_ok_def sandbox_quota_exceeded_def calls_of_set Let_def)
qed

lemma sandbox_ok_recorded:
  assumes ok: "sandbox_ok n (firm, p) now hist c" and "now \<le> t_check" and "t_check \<le> t_record"
    and free: "\<not> fst (sandbox_quota_exceeded n t_check firm p c)"
  shows "sandbox_ok n (firm, p) t_record (hist @ [t_record])
           (record_sandbox_call t_record firm p (snd (sandbox_quota_exceeded n t_check firm p c)))"
proof -
  let ?c = "snd (sandbox_quota_exceeded n t_check firm p c)"
  have ok': "sandbox_ok n (firm, p) t_check hist ?c" using ok assms(2) by (rule sandbox_ok_pops)
  then obtain old where old: "hist = old @ calls_of (firm, p) ?c" "\<forall>t \<in> set old. t < t_check - minutes 1"
    by (auto simp: sandbox_ok_def)
  have "filter (\<lambda>t. t_check - minutes 1 \<le> t) old = []"
    using old(2) by (auto simp: filter_empty_conv)
  then have "int (length (filter (\<lambda>t. t_check - minutes 1 \<le> t) hist)) \<le> int (length (calls_of (firm, p) ?c))"
    by (simp add: old(1))
  also have "int (length (calls_of (firm, p) ?c)) < n"
    using free by (simp add: sandbox_quota_exceeded_def calls_of_set Let_def)
  finally have "windows_bounded (minutes 1) n (hist @ [t_record])"
    using ok' assms(3) by (intro windows_bounded_snoc [where t_check = t_check]) (simp_all add: sandbox_ok_def)
  moreover have "\<forall>t \<in> set hist. t \<le> t_record" using ok' assms(3) by (fastforce simp: sandbox_ok_def)
  moreover have "\<forall>t \<in> set old. t < t_record - minutes 1" using old(2) assms(3) by fastforce
  ultimately show ?thesis
    using ok' old(1) by (auto simp: sandbox_ok_def sorted_append record_sandbox_call_def calls_of_set)
qed

lemma sandbox_ok_recorded_other:
  "k \<noteq> (firm, p) \<Longrightarrow> sandbox_ok n k now hist (record_sandbox_call t firm p c) = sandbox_ok n k now hist c"
  by (simp add: sandbox_ok_def record_sandbox_call_def calls_of_set)

text \<open>A run of the sandbox: requests with the state of the market when they arrive, and the times at which a plugin was invoked for a firm.\<close>

record 'a sandbox_request =
  sq_market :: marketplace
  sq_check :: datetime
  sq_record :: datetime
  sq_firm_id :: pystr
  sq_actor_id :: pystr
  sq_plugin_id :: pystr
  sq_payload :: 'a
  sq_required :: "extension_permission option"

fun invocation_times ::
    "int \<Rightarrow> ('f \<Rightarrow> 'p result) \<Rightarrow> ('p \<Rightarrow> plugin_context \<Rightarrow> 'a \<Rightarrow> 'r invocation) \<Rightarrow> (pystr, 'f) dict \<Rightarrow> pystr \<times> pystr
       \<Rightarrow> 'a sandbox_request list \<Rightarrow> sandbox_calls \<Rightarrow> datetime list" where
  "invocation_times n build invoke impls k [] c = []"
| "invocation_times n build invoke impls k (q # qs) c =
     (let (out, c', called) = sandbox_execute n build invoke impls (sq_market q) (sq_check q) (sq_record q) (sq_firm_id q)
            (sq_actor_id q) (sq_plugin_id q) (sq_payload q) (sq_required q) c
      in (if called \<noteq> None \<and> (sq_firm_id q, sq_plugin_id q) = k then [sq_record q] else []) @
         invocation_times n build invoke impls k qs c')"

definition request_clock :: "'a sandbox_request list \<Rightarrow> datetime list" where
  "request_clock qs = concat (map (\<lambda>q. [sq_check q, sq_record q]) qs)"

lemma invocation_windows:
  assumes "sandbox_ok n k now hist c" and "sorted (now # request_clock qs)"
  shows "windows_bounded (minutes 1) n (hist @ invocation_times n build invoke impls k qs c)"
  using assms
proof (induction qs arbitrary: now hist c)
  case Nil
  then show ?case by (simp add: sandbox_ok_def)
next
  case (Cons q qs)
  have le: "now \<le> sq_check q" "sq_check q \<le> sq_record q" and clock: "sorted (sq_record q # request_clock qs)"
    using Cons.prems(2) by (auto simp: request_clock_def)
  obtain out c' called where run: "sandbox_execute n build invoke impls (sq_market q) (sq_check q) (sq_record q) (sq_firm_id q)
      (sq_actor_id q) (sq_plugin_id q) (sq_payload q) (sq_required q) c = (out, c', called)"
    by (metis surj_pair)
  let ?new = "if called \<noteq> None \<and> (sq_firm_id q, sq_plugin_id q) = k then [sq_record q] else []"
  let ?pop = "sandbox_quota_exceeded n (sq_check q) (sq_firm_id q) (sq_plugin_id q) c"
  have popped: "sandbox_ok n k (sq_record q) hist (snd ?pop)"
    using sandbox_ok_pops [OF Cons.prems(1) le(1)] le(2) by (rule sandbox_ok_later)
  have kept: "sandbox_ok n k (sq_record q) hist c"
    using Cons.prems(1) by (rule sandbox_ok_later) (use le in simp)
  have "sandbox_ok n k (sq_record q) (hist @ ?new) c'"
  proof (cases "called = None")
    case True
    then show ?thesis using sandbox_execute_calls [OF run] popped kept by auto
  next
    case False
    then have free: "\<not> fst ?pop" and c': "c' = record_sandbox_call (sq_record q) (sq_firm_id q) (sq_plugin_id q) (snd ?pop)"
      using sandbox_execute_calls [OF run] by blast+
    show ?thesis
    proof (cases "(sq_firm_id q, sq_plugin_id q) = k")
      case True
      then show ?thesis
        using sandbox_ok_recorded [of n "sq_firm_id q" "sq_plugin_id q" now hist c, OF _ le free] Cons.prems(1) False c' by simp
    next
      case other: False
      then have "k \<noteq> (sq_firm_id q, sq_plugin_id q)" by blast
      then show ?thesis using popped other unfolding c' by (simp add: sandbox_ok_recorded_other)
    qed
  qed
  from Cons.IH [OF this clock] show ?case by (simp add: run)
qed

text \<open>
  C18. However requests are mixed, when the readings of the clock do not go back a plugin is invoked for
  a firm at most as often as the quota allows in any minute, whether the invocations succeed or fail.
\<close>
theorem sandbox_calls_bounded:
  assumes "sorted (request_clock qs)"
  shows "calls_between a (a + minutes 1) (invocation_times n build invoke impls (firm, p) qs []) \<le> max 0 n"
proof -
  have "sandbox_ok n (firm, p) now [] []" for now by (simp add: sandbox_ok_def calls_of_def)
  moreover have "\<exists>now. sorted (now # request_clock qs)"
    using assms by (cases "request_clock qs") (auto intro!: exI [of _ "hd (request_clock qs)"])
  ultimately have "windows_bounded (minutes 1) n (invocation_times n build invoke impls (firm, p) qs [])"
    using invocation_windows by fastforce
  then show ?thesis by (simp add: windows_bounded_def)
qed

definition demo_call :: "datetime \<Rightarrow> unit sandbox_request" where
  "demo_call t = \<lparr>sq_market = demo_market, sq_check = t, sq_record = t + 1, sq_firm_id = ''firm'', sq_actor_id = ''u'',
     sq_plugin_id = ''a'', sq_payload = (), sq_required = Some XP_READ_CASES\<rparr>"

theorem sandbox_calls_bounded_witness:
  "calls_between 0 (minutes 1) (invocation_times 1 Inr (\<lambda>_ _ _. Failed ''oops'') [(''a'', ())] (''firm'', ''a'')
      [demo_call 0, demo_call 5] []) \<le> 1 \<and>
   invocation_times 1 Inr (\<lambda>_ _ _. Failed ''oops'') [(''a'', ())] (''firm'', ''a'') [demo_call 0, demo_call 5] [] = [1]"
proof -
  have "sorted (request_clock [demo_call 0, demo_call 5])"
    by (simp add: request_clock_def demo_call_def)
  from sandbox_calls_bounded [OF this, where a = 0 and n = 1]
  have "calls_between 0 (minutes 1) (invocation_times 1 Inr (\<lambda>_ _ _. Failed ''oops'') [(''a'', ())] (''firm'', ''a'')
      [demo_call 0, demo_call 5] []) \<le> 1"
    by (metis add_0 max_0L zero_le_one max_def)
  moreover have "check_permission ''firm'' ''a'' XP_READ_CASES (mk_grants demo_market)"
    and "get_plugin (pk_registry (mk_desk demo_market)) ''a'' = Some demo_published"
    by (simp_all add: demo_market_eq check_permission_def granted_permissions_def demo_publishing_facts)
  then have "invocation_times 1 Inr (\<lambda>_ _ _. Failed ''oops'') [(''a'', ())] (''firm'', ''a'') [demo_call 0, demo_call 5] [] = [1]"
    by (simp add: demo_call_def sandbox_execute_def sandbox_quota_exceeded_def record_sandbox_call_def load_plugin_def
        calls_of_def)
  ultimately show ?thesis by simp
qed

section \<open>What the sandbox runs\<close>

text \<open>
  Provided no factory of the process raises anything but \<open>KeyError\<close>, an execution always ends with a
  result, whatever the plugin does; it succeeds exactly when the plugin was invoked and returned. A
  plugin is only invoked when its manifest is published at that moment, the required permission is
  granted, and it is the one registered under its identifier; it sees the permissions of its own firm.
\<close>
theorem sandbox_contains_plugins:
  assumes build: "\<And>f e. build f = Inl e \<Longrightarrow> \<exists>k. e = KeyError k"
    and run: "sandbox_execute n build invoke impls mk t_check t_record firm actor p payload required c = (out, c', called)"
  shows "\<exists>res. out = Inr res \<and> xr_plugin_id res = p \<and>
     (xr_success res \<longleftrightarrow> (\<exists>x ctx r. called = Some (x, ctx, payload) \<and> invoke x ctx payload = Returned r \<and> xr_result res = Some r)) \<and>
     (case called of None \<Rightarrow> True
      | Some (x, ctx, y) \<Rightarrow> y = payload \<and> px_firm_id ctx = firm \<and> px_actor_id ctx = actor \<and> px_plugin_id ctx = p \<and>
          px_has_permission ctx = scoped_has_permission firm p (mk_grants mk) \<and>
          (case required of None \<Rightarrow> True | Some q \<Rightarrow> check_permission firm p q (mk_grants mk)) \<and>
          (\<exists>m f. get_plugin (pk_registry (mk_desk mk)) p = Some m \<and> pm_status m = PB_PUBLISHED \<and>
             dict_get impls p = Some f \<and> build f = Inr x))"
proof (cases "\<exists>q. required = Some q \<and> \<not> check_permission firm p q (mk_grants mk)")
  case True
  then show ?thesis using run by (auto simp: sandbox_execute_def)
next
  case False
  then have may: "(case required of None \<Rightarrow> False | Some q \<Rightarrow> \<not> check_permission firm p q (mk_grants mk)) = False"
    by (auto split: option.splits)
  obtain full c1 where quota: "sandbox_quota_exceeded n t_check firm p c = (full, c1)" by (metis surj_pair)
  show ?thesis
  proof (cases "full")
    case True
    then show ?thesis using run by (auto simp: sandbox_execute_def may quota)
  next
    case open': False
    show ?thesis
    proof (cases "load_plugin build impls (pk_registry (mk_desk mk)) p")
      case (Inl e)
      show ?thesis
      proof (cases e)
        case (Not_published i st)
        then show ?thesis using run Inl open' by (auto simp: sandbox_execute_def may quota)
      next
        case (Loading_raised x)
        then obtain k where "x = KeyError k"
          using Inl build by (auto simp: load_plugin_def split: option.splits if_splits sum.splits)
        then show ?thesis using run Inl open' Loading_raised by (auto simp: sandbox_execute_def may quota)
      qed
    next
      case (Inr x)
      let ?ctx = "\<lparr>px_firm_id = firm, px_actor_id = actor, px_plugin_id = p,
          px_has_permission = scoped_has_permission firm p (mk_grants mk)\<rparr>"
      have called: "called = Some (x, ?ctx, payload)"
        using run Inr open' by (simp add: sandbox_execute_def may quota Let_def)
      have "\<exists>m f. get_plugin (pk_registry (mk_desk mk)) p = Some m \<and> pm_status m = PB_PUBLISHED \<and>
             dict_get impls p = Some f \<and> build f = Inr x"
        using Inr by (auto simp: load_plugin_def split: option.splits if_splits sum.splits)
      moreover have "\<exists>res. out = Inr res \<and> xr_plugin_id res = p \<and>
          (xr_success res \<longleftrightarrow> (\<exists>r. invoke x ?ctx payload = Returned r \<and> xr_result res = Some r))"
        using run Inr open' by (cases "invoke x ?ctx payload") (auto simp: sandbox_execute_def may quota Let_def)
      moreover have "case required of None \<Rightarrow> True | Some q \<Rightarrow> check_permission firm p q (mk_grants mk)"
        using False by (cases required) auto
      ultimately show ?thesis by (simp add: called)
    qed
  qed
qed

theorem sandbox_contains_plugins_witness:
  "\<exists>res. fst (sandbox_execute 1 Inr (\<lambda>_ _ _. Timed_out :: unit invocation) [(''a'', ())] demo_market 0 1 ''firm'' ''u'' ''a'' ()
       (Some XP_READ_CASES) []) = Inr res \<and> xr_plugin_id res = ''a''"
proof -
  have "\<exists>k. e = KeyError k" if "(Inr :: unit \<Rightarrow> unit result) f = Inl e" for f e using that by simp
  note contains = sandbox_contains_plugins [of "Inr :: unit \<Rightarrow> unit result", OF this]
  obtain out c' called where "sandbox_execute 1 Inr (\<lambda>_ _ _. Timed_out :: unit invocation) [(''a'', ())] demo_market 0 1
      ''firm'' ''u'' ''a'' () (Some XP_READ_CASES) [] = (out, c', called)"
    by (metis surj_pair)
  then show ?thesis using contains by fastforce
qed

text \<open>
  The status of an installed extension plays no part: disabling an extension changes nothing for any
  execution, and enabling one that was uninstalled makes it active again, without its permissions.
\<close>
theorem status_does_not_gate:
  assumes reach: "market_trace mac empty_marketplace es mk"
    and "uninstall_extension t firm p mk = (Inr x, mk1)" and "enable_extension t' firm p mk1 = (out, mk2)"
  shows "sandbox_execute n build invoke impls (snd (disable_extension t'' f q mk)) = sandbox_execute n build invoke impls mk \<and>
     (\<exists>y. out = Inr y \<and> xi_status y = XS_ACTIVE \<and> xi_granted_permissions y = xi_granted_permissions x) \<and>
     granted_permissions firm p (mk_grants mk2) = {}"
proof -
  have same: "mk_grants (snd (disable_extension t'' f q mk)) = mk_grants mk" "mk_desk (snd (disable_extension t'' f q mk)) = mk_desk mk"
    by (simp_all add: disable_extension_def set_extension_status_def Let_def split: option.splits)
  have "sandbox_execute n build invoke impls (snd (disable_extension t'' f q mk)) = sandbox_execute n build invoke impls mk"
    by (intro ext) (unfold sandbox_execute_def same, rule refl)
  moreover obtain x0 where x0: "dict_get (mk_instances mk) (firm, p) = Some x0"
      and x: "x = x0\<lparr>xi_status := XS_UNINSTALLED, xi_updated_at := t\<rparr>"
      and mk1: "mk1 = mk\<lparr>mk_instances := extension_save x (mk_instances mk), mk_grants := revoke_permissions firm p (mk_grants mk)\<rparr>"
    using assms(2) by (auto simp: uninstall_extension_def Let_def split: option.splits)
  moreover have "instance_key x = (firm, p)"
    using instance_at [OF _ x0] market_trace_ok [OF reach market_ok_empty] by (simp add: market_ok_def x instance_key_def)
  ultimately show ?thesis
    using assms(3) by (auto simp: enable_extension_def set_extension_status_def Let_def granted_revoke extension_rows.get_put)
qed

theorem status_does_not_gate_witness:
  "granted_permissions ''firm'' ''a'' (mk_grants demo_market) = {XP_READ_CASES} \<and>
   granted_permissions ''firm'' ''a'' (mk_grants (snd (enable_extension 2 ''firm'' ''a''
     (snd (uninstall_extension 1 ''firm'' ''a'' demo_market))))) = {}"
proof -
  obtain x where "uninstall_extension 1 ''firm'' ''a'' demo_market = (Inr x, snd (uninstall_extension 1 ''firm'' ''a'' demo_market))"
    by (simp add: uninstall_extension_def demo_market_eq Let_def)
  from status_does_not_gate [OF demo_market_trace this surjective_pairing]
  have "granted_permissions ''firm'' ''a'' (mk_grants (snd (enable_extension 2 ''firm'' ''a''
     (snd (uninstall_extension 1 ''firm'' ''a'' demo_market))))) = {}" by blast
  moreover have "granted_permissions ''firm'' ''a'' (mk_grants demo_market) = {XP_READ_CASES}"
    by (simp add: demo_market_eq granted_permissions_def)
  ultimately show ?thesis by simp
qed

section \<open>Subscriptions and their licences\<close>

text \<open>
  The operations on the shop, the licence desk it shares with the licence API included; each with the
  grants the desk was asked to revoke, check in or transfer.
\<close>

inductive shop_step :: "(pystr \<Rightarrow> pystr) \<Rightarrow> extension_shop \<Rightarrow> (pystr \<times> pystr) set \<Rightarrow> extension_shop \<Rightarrow> bool" for mac s where
  market_changed: "market_step mac (xs_market s) es mk \<Longrightarrow> shop_step mac s {} (s\<lparr>xs_market := mk\<rparr>)"
| ledger_changed: "ledger_trans (xs_ledger s) g \<Longrightarrow> shop_step mac s {} (s\<lparr>xs_ledger := g\<rparr>)"
| desk_worked: "desk_op_fresh op (xs_licenses s) \<Longrightarrow>
    shop_step mac s (desk_touches op) (s\<lparr>xs_licenses := desk_step mac now op (xs_licenses s)\<rparr>)"
| extension_subscribed: "dict_get (ld_grants (xs_licenses s)) (firm, dw_grant_id w) = None \<Longrightarrow>
    subscribe_extension mac w firm p ps price s = (out, s') \<Longrightarrow> shop_step mac s {} s'"
| extension_unsubscribed: "unsubscribe_extension now firm p s = (out, s') \<Longrightarrow> shop_step mac s {} s'"

definition empty_shop :: extension_shop where
  "empty_shop = \<lparr>xs_market = empty_marketplace, xs_licenses = empty_desk, xs_ledger = empty_ledger, xs_subscriptions = []\<rparr>"

text \<open>Reachable shops, with the grants touched at the desk so far.\<close>

inductive shop_reachable :: "(pystr \<Rightarrow> pystr) \<Rightarrow> (pystr \<times> pystr) set \<Rightarrow> extension_shop \<Rightarrow> bool" for mac where
  shop_opened: "shop_reachable mac {} empty_shop"
| shop_moved: "shop_reachable mac touched s \<Longrightarrow> shop_step mac s new s' \<Longrightarrow> shop_reachable mac (touched \<union> new) s'"

text \<open>
  Each subscription has a licence of its own, revoked once the subscription is cancelled, and before
  that only when it was touched at the desk.
\<close>

definition licence_matches :: "(pystr \<times> pystr) set \<Rightarrow> grant_store \<Rightarrow> extension_subscription \<Rightarrow> bool" where
  "licence_matches touched gs x \<longleftrightarrow> (\<exists>g. dict_get gs (es_firm_id x, es_license_grant_id x) = Some g \<and>
     lc_license_type g = LT_API \<and> lc_holder_id g = Some (es_plugin_id x) \<and>
     (es_status x = EX_CANCELLED \<longrightarrow> lc_revoked g) \<and>
     (lc_revoked g \<longrightarrow> es_status x = EX_CANCELLED \<or> (es_firm_id x, es_license_grant_id x) \<in> touched))"

lemma licence_matches_mono: "licence_matches touched gs x \<Longrightarrow> touched \<subseteq> touched' \<Longrightarrow> licence_matches touched' gs x"
  by (auto simp: licence_matches_def)

definition shop_ok :: "(pystr \<times> pystr) set \<Rightarrow> extension_shop \<Rightarrow> bool" where
  "shop_ok touched s \<longleftrightarrow> keyed subscription_pair (xs_subscriptions s) \<and> keyed grant_key (ld_grants (xs_licenses s)) \<and>
     (\<forall>k x. dict_get (xs_subscriptions s) k = Some x \<longrightarrow> licence_matches touched (ld_grants (xs_licenses s)) x) \<and>
     (\<forall>k x k' y. dict_get (xs_subscriptions s) k = Some x \<longrightarrow> dict_get (xs_subscriptions s) k' = Some y \<longrightarrow>
        es_firm_id x = es_firm_id y \<longrightarrow> es_license_grant_id x = es_license_grant_id y \<longrightarrow> k = k')"

lemma bill_extension_total: "\<exists>l. bill_extension w firm p price g = Inr l"
  by (simp add: bill_extension_def create_invoice_def add_invoice_line_def issue_invoice_def require_invoice_def
      Let_def invoice_rows.get_put)

lemma shop_matches: "shop_ok touched s \<Longrightarrow> dict_get (xs_subscriptions s) k = Some x \<Longrightarrow> licence_matches touched (ld_grants (xs_licenses s)) x"
  unfolding shop_ok_def by blast

lemma shop_unique:
  "shop_ok touched s \<Longrightarrow> dict_get (xs_subscriptions s) k = Some x \<Longrightarrow> dict_get (xs_subscriptions s) k' = Some y \<Longrightarrow>
     es_firm_id x = es_firm_id y \<Longrightarrow> es_license_grant_id x = es_license_grant_id y \<Longrightarrow> k = k'"
  unfolding shop_ok_def by blast

lemma shop_okI:
  assumes "keyed subscription_pair (xs_subscriptions s)" and "keyed grant_key (ld_grants (xs_licenses s))"
    and "\<And>k x. dict_get (xs_subscriptions s) k = Some x \<Longrightarrow> licence_matches touched (ld_grants (xs_licenses s)) x"
    and "\<And>k x k' y. dict_get (xs_subscriptions s) k = Some x \<Longrightarrow> dict_get (xs_subscriptions s) k' = Some y \<Longrightarrow>
      es_firm_id x = es_firm_id y \<Longrightarrow> es_license_grant_id x = es_license_grant_id y \<Longrightarrow> k = k'"
  shows "shop_ok touched s"
  unfolding shop_ok_def using assms by blast

lemma subscribe_cases:
  assumes "subscribe_extension mac w firm p ps price s = (out, s')"
  obtains e where "out = Inl e" and "xs_subscriptions s' = xs_subscriptions s" and "xs_licenses s' = xs_licenses s"
  | x g where "out = Inr x" and "subscription_pair x = (firm, p)" and "es_license_grant_id x = dw_grant_id w"
      and "es_status x = EX_ACTIVE" and "grant_key g = (firm, dw_grant_id w)" and "lc_license_type g = LT_API"
      and "lc_holder_id g = Some p" and "\<not> lc_revoked g" and "lc_expires_at g = dw_granted_at w + days 365"
      and "xs_licenses s' = save_grant g (xs_licenses s)"
      and "xs_subscriptions s' = extension_subscription_save x (xs_subscriptions s)"
proof (cases "install_extension (dw_instance_id w) (dw_installed_at w) (dw_updated_at w) firm p ps (xs_market s)")
  case (Pair r mk)
  show thesis
  proof (cases r)
    case (Inl e)
    then show thesis using assms Pair that(1) by (auto simp: subscribe_extension_def)
  next
    case (Inr x)
    obtain l where bill: "bill_extension w firm p price (xs_ledger s) = Inr l" using bill_extension_total by blast
    let ?x = "\<lparr>es_id = dw_subscription_id w, es_firm_id = firm, es_plugin_id = p, es_license_grant_id = dw_grant_id w,
       es_monthly_price_usd = price, es_status = EX_ACTIVE, es_subscribed_at = dw_subscribed_at w\<rparr>"
    let ?g = "\<lparr>lc_id = dw_grant_id w, lc_firm_id = firm, lc_license_type = LT_API, lc_holder_id = Some p,
       lc_key = sign_payload mac (encode_grant (dw_grant_id w) firm LT_API), lc_granted_at = dw_granted_at w,
       lc_expires_at = default_expiry 365 (dw_granted_at w), lc_revoked = False, lc_transferred_from = None\<rparr>"
    show thesis
      by (rule that(2) [of ?x ?g])
         (use assms Pair Inr bill in \<open>auto simp: subscribe_extension_def assign_license_def subscription_pair_def
            grant_key_def default_expiry_def Let_def\<close>)
  qed
qed

lemma subscribe_ok:
  assumes ok: "shop_ok touched s" and fresh: "dict_get (ld_grants (xs_licenses s)) (firm, dw_grant_id w) = None"
    and run: "subscribe_extension mac w firm p ps price s = (out, s')"
  shows "shop_ok touched s'"
  using run
proof (cases rule: subscribe_cases)
  case 1
  then show ?thesis using ok by (simp add: shop_ok_def)
next
  case (2 x g)
  have firm: "es_firm_id x = firm" "es_plugin_id x = p" using 2(2) by (simp_all add: subscription_pair_def)
  let ?gs = "ld_grants (xs_licenses s)"
  have gs': "ld_grants (xs_licenses s') = grant_store_save g ?gs" by (simp add: 2(10))
  have old: "(es_firm_id y, es_license_grant_id y) \<noteq> (firm, dw_grant_id w)"
    if "dict_get (xs_subscriptions s) k = Some y" for k y
  proof -
    have "licence_matches touched ?gs y" using ok that by (rule shop_matches)
    then show ?thesis using fresh by (auto simp: licence_matches_def)
  qed
  have "licence_matches touched (ld_grants (xs_licenses s')) y" if "dict_get (xs_subscriptions s') k = Some y" for k y
  proof (cases "k = (firm, p)")
    case True
    then have "y = x" using that by (simp add: 2(11) subscription_pairs.get_put 2(2))
    then show ?thesis using 2 firm by (simp add: licence_matches_def grant_rows.get_put)
  next
    case False
    then have y: "dict_get (xs_subscriptions s) k = Some y" using that by (simp add: 2(11) subscription_pairs.get_put 2(2))
    have "licence_matches touched ?gs y" using ok y by (rule shop_matches)
    then show ?thesis using old [OF y] 2(5) unfolding licence_matches_def gs' by (auto simp: grant_rows.get_put)
  qed
  moreover have "k = k'" if "dict_get (xs_subscriptions s') k = Some y" "dict_get (xs_subscriptions s') k' = Some z"
      "es_firm_id y = es_firm_id z" "es_license_grant_id y = es_license_grant_id z" for k y k' z
  proof -
    have xs': "dict_get (xs_subscriptions s') j = (if j = (firm, p) then Some x else dict_get (xs_subscriptions s) j)" for j
      by (simp add: 2(11) subscription_pairs.get_put 2(2))
    have new: False if "dict_get (xs_subscriptions s) j = Some v" "es_firm_id v = es_firm_id x"
        "es_license_grant_id v = es_license_grant_id x" for j v
      using old [OF that(1)] that(2,3) firm(1) 2(3) by simp
    show ?thesis
      using that new [of k y] new [of k' z] shop_unique [OF ok, of k y k' z] by (auto simp: xs' split: if_splits)
  qed
  moreover have "keyed subscription_pair (xs_subscriptions s')" "keyed grant_key (ld_grants (xs_licenses s'))"
    using ok by (simp_all add: shop_ok_def 2(11) gs' subscription_pairs.wf_put grant_rows.wf_put)
  ultimately show ?thesis by (intro shop_okI)
qed

lemma uninstall_revokes:
  "uninstall_extension now firm p mk = (Inr x, mk') \<Longrightarrow> granted_permissions firm p (mk_grants mk') = {}"
  by (auto simp: uninstall_extension_def granted_revoke Let_def split: option.splits)

lemma unsubscribe_cases:
  assumes "unsubscribe_extension now firm p s = (out, s')"
  obtains e where "out = Inl e" and "xs_subscriptions s' = xs_subscriptions s" and "xs_licenses s' = xs_licenses s"
  | x g i mk where "out = Inr (x\<lparr>es_status := EX_CANCELLED\<rparr>)" and "dict_get (xs_subscriptions s) (firm, p) = Some x"
      and "dict_get (ld_grants (xs_licenses s)) (firm, es_license_grant_id x) = Some g"
      and "uninstall_extension now firm p (xs_market s) = (Inr i, mk)" and "xs_market s' = mk"
      and "xs_licenses s' = save_grant (g\<lparr>lc_revoked := True\<rparr>) (xs_licenses s)"
      and "xs_subscriptions s' = extension_subscription_save (x\<lparr>es_status := EX_CANCELLED\<rparr>) (xs_subscriptions s)"
  using assms
  by (auto simp: unsubscribe_extension_def revoke_license_def require_grant_def Let_def
      split: option.splits prod.splits sum.splits)

lemma unsubscribe_ok:
  assumes ok: "shop_ok touched s" and run: "unsubscribe_extension now firm p s = (out, s')"
  shows "shop_ok touched s'"
  using run
proof (cases rule: unsubscribe_cases)
  case 1
  then show ?thesis using ok by (simp add: shop_ok_def)
next
  case (2 x g i mk)
  have pair: "subscription_pair x = (firm, p)" using subscription_pairs.get_key [OF _ 2(2)] ok by (simp add: shop_ok_def)
  have key: "grant_key g = (firm, es_license_grant_id x)" using grant_rows.get_key [OF _ 2(3)] ok by (simp add: shop_ok_def)
  have gs': "dict_get (ld_grants (xs_licenses s')) j =
      (if j = (firm, es_license_grant_id x) then Some (g\<lparr>lc_revoked := True\<rparr>) else dict_get (ld_grants (xs_licenses s)) j)" for j
    using key by (simp add: 2(6) grant_rows.get_put grant_key_def)
  have xs': "dict_get (xs_subscriptions s') j =
      (if j = (firm, p) then Some (x\<lparr>es_status := EX_CANCELLED\<rparr>) else dict_get (xs_subscriptions s) j)" for j
    using pair by (simp add: 2(7) subscription_pairs.get_put subscription_pair_def)
  note matches = shop_matches [OF ok] and unique = shop_unique [OF ok]
  have firm: "es_firm_id x = firm" using pair by (simp add: subscription_pair_def)
  have "licence_matches touched (ld_grants (xs_licenses s')) y" if "dict_get (xs_subscriptions s') k = Some y" for k y
  proof (cases "k = (firm, p)")
    case True
    then show ?thesis using that matches [OF 2(2)] 2(3) firm by (auto simp: licence_matches_def gs' xs')
  next
    case False
    then have y: "dict_get (xs_subscriptions s) k = Some y" using that by (simp add: xs')
    then have "(es_firm_id y, es_license_grant_id y) \<noteq> (firm, es_license_grant_id x)"
      using unique [OF y 2(2)] False firm by auto
    then show ?thesis using matches [OF y] by (auto simp: licence_matches_def gs')
  qed
  moreover have "k = k'" if "dict_get (xs_subscriptions s') k = Some y" "dict_get (xs_subscriptions s') k' = Some z"
      "es_firm_id y = es_firm_id z" "es_license_grant_id y = es_license_grant_id z" for k y k' z
    using that unique [OF 2(2), of k' z] unique [OF _ 2(2), of k y] unique [of k y k' z]
    by (auto simp: xs' split: if_splits)
  moreover have "keyed subscription_pair (xs_subscriptions s')" "keyed grant_key (ld_grants (xs_licenses s'))"
    using ok by (simp_all add: shop_ok_def 2(6,7) subscription_pairs.wf_put grant_rows.wf_put)
  ultimately show ?thesis by (intro shop_okI)
qed

lemma desk_worked_ok:
  assumes ok: "shop_ok touched s" and fresh: "desk_op_fresh op (xs_licenses s)"
  shows "shop_ok (touched \<union> desk_touches op) (s\<lparr>xs_licenses := desk_step mac now op (xs_licenses s)\<rparr>)" (is "shop_ok ?t ?s")
proof (rule shop_okI)
  have k: "keyed grant_key (ld_grants (xs_licenses s))" using ok by (simp add: shop_ok_def)
  then show "keyed grant_key (ld_grants (xs_licenses ?s))" using desk_step_seats [OF k fresh] by simp
  show "licence_matches ?t (ld_grants (xs_licenses ?s)) x" if "dict_get (xs_subscriptions ?s) j = Some x" for j x
  proof -
    have "licence_matches touched (ld_grants (xs_licenses s)) x" using shop_matches [OF ok] that by simp
    then obtain g where g: "dict_get (ld_grants (xs_licenses s)) (es_firm_id x, es_license_grant_id x) = Some g"
        "lc_license_type g = LT_API" "lc_holder_id g = Some (es_plugin_id x)" "es_status x = EX_CANCELLED \<longrightarrow> lc_revoked g"
        "lc_revoked g \<longrightarrow> es_status x = EX_CANCELLED \<or> (es_firm_id x, es_license_grant_id x) \<in> touched"
      unfolding licence_matches_def by blast
    obtain g' where g': "dict_get (ld_grants (desk_step mac now op (xs_licenses s))) (es_firm_id x, es_license_grant_id x) = Some g'"
        "g' = g\<lparr>lc_revoked := lc_revoked g'\<rparr>" "lc_revoked g \<longrightarrow> lc_revoked g'"
        "lc_revoked g' \<longrightarrow> lc_revoked g \<or> (es_firm_id x, es_license_grant_id x) \<in> desk_touches op"
      using desk_step_grant [OF k fresh g(1), of mac now] by blast
    have "lc_license_type g' = lc_license_type g" "lc_holder_id g' = lc_holder_id g" by (subst g'(2), simp)+
    with g g' show ?thesis by (auto simp: licence_matches_def)
  qed
  show "keyed subscription_pair (xs_subscriptions ?s)" using ok by (simp add: shop_ok_def)
  show "j = j'" if "dict_get (xs_subscriptions ?s) j = Some x" "dict_get (xs_subscriptions ?s) j' = Some y"
      "es_firm_id x = es_firm_id y" "es_license_grant_id x = es_license_grant_id y" for j x j' y
    using that shop_unique [OF ok, of j x j' y] by simp
qed

lemma shop_ok_mono: "shop_ok touched s \<Longrightarrow> touched \<subseteq> touched' \<Longrightarrow> shop_ok touched' s"
  unfolding shop_ok_def using licence_matches_mono by blast

lemma shop_reachable_ok: "shop_reachable mac touched s \<Longrightarrow> shop_ok touched s"
proof (induction rule: shop_reachable.induct)
  case shop_opened
  show ?case by (simp add: shop_ok_def empty_shop_def empty_desk_def)
next
  case (shop_moved touched s new s')
  from shop_moved.hyps(2) show ?case
  proof cases
    case (market_changed es mk)
    then show ?thesis using shop_moved.IH by (simp add: shop_ok_def)
  next
    case (ledger_changed g)
    then show ?thesis using shop_moved.IH by (simp add: shop_ok_def)
  next
    case (desk_worked op now)
    then show ?thesis using desk_worked_ok [OF shop_moved.IH, of op mac now] by simp
  qed (auto intro: subscribe_ok [OF shop_moved.IH] unsubscribe_ok [OF shop_moved.IH])
qed


text \<open>A shop in which the demonstration plugin was subscribed to.\<close>

definition demo_draw :: "pystr \<Rightarrow> subscription_draw" where
  "demo_draw i = \<lparr>dw_instance_id = i, dw_grant_id = i, dw_invoice_id = i, dw_line_id = i, dw_subscription_id = i,
     dw_installed_at = 0, dw_updated_at = 0, dw_granted_at = 0, dw_invoiced_at = 0, dw_issued_at = 0, dw_subscribed_at = 0\<rparr>"

definition demo_subscribed :: extension_shop where
  "demo_subscribed =
     snd (subscribe_extension no_mac (demo_draw ''1'') ''firm'' ''a'' {} (Fin 0)
       (empty_shop\<lparr>xs_market := empty_marketplace\<lparr>mk_desk := demo_publishing\<rparr>\<rparr>))"

lemma shop_from_market:
  "market_trace mac empty_marketplace es mk \<Longrightarrow> shop_reachable mac {} (empty_shop\<lparr>xs_market := mk\<rparr>)"
proof (induction rule: market_trace.induct)
  case market_unmoved
  then show ?case using shop_opened [of mac] by (simp add: empty_shop_def)
next
  case (market_moved es mk new mk')
  have "shop_step mac (empty_shop\<lparr>xs_market := mk\<rparr>) {} ((empty_shop\<lparr>xs_market := mk\<rparr>)\<lparr>xs_market := mk'\<rparr>)"
    by (rule market_changed) (use market_moved.hyps(2) in simp)
  from shop_moved [OF market_moved.IH this] show ?case by simp
qed

lemma demo_shop_reachable: "shop_reachable no_mac {} demo_subscribed"
proof -
  let ?s = "empty_shop\<lparr>xs_market := empty_marketplace\<lparr>mk_desk := demo_publishing\<rparr>\<rparr>"
  have "shop_reachable no_mac {} ?s"
    using shop_from_market market_from_publishing [OF demo_publishing_facts(1)] by blast
  moreover have "shop_step no_mac ?s {} demo_subscribed"
    unfolding demo_subscribed_def
    by (rule extension_subscribed [OF _ surjective_pairing]) (simp add: empty_shop_def empty_desk_def)
  ultimately show ?thesis using shop_moved by fastforce
qed


end
