(* ===== verification/FeatureFlags.thy ===== *)
theory FeatureFlags
  imports Licensing Plans
begin

text \<open>
  Feature flags, \<^verbatim>\<open>platform/feature_flags\<close> with the gates \<^verbatim>\<open>business_platform/feature_flags\<close> adds to
  them, and the settings of a firm, \<^verbatim>\<open>business_platform/tenant_settings\<close>. The first eight digits of
  the SHA-256 of a text, read as a number, are the parameter \<open>sha\<close>. The bounds of a window are aware
  times.
\<close>

section \<open>Flags\<close>

record feature_flag =
  ff_key :: pystr
  ff_description :: pystr
  ff_enabled :: bool
  ff_enabled_firm_ids :: "pystr set"
  ff_enabled_user_ids :: "pystr set"
  ff_enabled_plans :: "plan_tier set"
  ff_rollout_percentage :: pyfloat
  ff_metadata :: "(pystr, pystr) dict"

text \<open>\<open>__post_init__\<close>: what constructing a flag, or the extras of one, demands of a percentage.\<close>

definition percentage_ok :: "pyfloat \<Rightarrow> bool" where
  "percentage_ok x \<longleftrightarrow> flt_le (Fin 0) x \<and> flt_le x (Fin 100)"

definition make_flag :: "feature_flag \<Rightarrow> feature_flag result" where
  "make_flag f =
     (if percentage_ok (ff_rollout_percentage f) then Inr f
      else Inl (ValueError ''rollout_percentage must be between 0 and 100''))"

record flag_context =
  fc_firm_id :: "pystr option"
  fc_user_id :: "pystr option"
  fc_plan :: "plan_tier option"

definition set_flag :: "feature_flag \<Rightarrow> (pystr, feature_flag) dict \<Rightarrow> (pystr, feature_flag) dict" where
  [store_defs]: "set_flag f s = dict_set (ff_key f) f s"

interpretation flag_rows: keyed_store ff_key set_flag dict_get "keyed ff_key"
  using keyed_store_dict [of ff_key] by (simp add: set_flag_def [abs_def])

definition flag_bucket :: "(pystr \<Rightarrow> nat) \<Rightarrow> pystr \<Rightarrow> pystr \<Rightarrow> pyfloat" where
  "flag_bucket sha k subject = round64 (of_nat (sha (k @ '':'' @ subject) mod 10000) / 100)"

text \<open>\<open>user_id or firm_id\<close>: an empty user falls through to the firm.\<close>

definition flag_subject :: "pystr option \<Rightarrow> pystr option \<Rightarrow> pystr option" where
  "flag_subject user firm = (case user of Some u \<Rightarrow> if u \<noteq> [] then Some u else firm | None \<Rightarrow> firm)"

definition flag_enabled :: "(pystr \<Rightarrow> nat) \<Rightarrow> pystr \<Rightarrow> flag_context \<Rightarrow> (pystr, feature_flag) dict \<Rightarrow> bool" where
  "flag_enabled sha k ctx s =
     (case dict_get s k of
        None \<Rightarrow> False
      | Some f \<Rightarrow>
          if \<not> ff_enabled f then False
          else if (case fc_firm_id ctx of None \<Rightarrow> False | Some i \<Rightarrow> i \<in> ff_enabled_firm_ids f) then True
          else if (case fc_user_id ctx of None \<Rightarrow> False | Some i \<Rightarrow> i \<in> ff_enabled_user_ids f) then True
          else if (case fc_plan ctx of None \<Rightarrow> False | Some p \<Rightarrow> p \<in> ff_enabled_plans f) then True
          else if flt_le (ff_rollout_percentage f) (Fin 0) then False
          else (case flag_subject (fc_user_id ctx) (fc_firm_id ctx) of
                  None \<Rightarrow> False
                | Some subject \<Rightarrow> flt_less (flag_bucket sha k subject) (ff_rollout_percentage f)))"

section \<open>Business gates\<close>

datatype flag_environment = EV_DEVELOPMENT | EV_STAGING | EV_PRODUCTION

record flag_extras =
  fe_key :: pystr
  fe_enabled_environments :: "flag_environment set"
  fe_enabled_group_ids :: "pystr set"
  fe_enabled_plans :: "plan_name set"
  fe_window_start :: "datetime option"
  fe_window_end :: "datetime option"
  fe_experiment_key :: "pystr option"
  fe_experiment_rollout_percentage :: pyfloat

definition make_extras :: "flag_extras \<Rightarrow> flag_extras result" where
  "make_extras e =
     (if percentage_ok (fe_experiment_rollout_percentage e) then Inr e
      else Inl (ValueError ''experiment_rollout_percentage must be between 0 and 100''))"

record business_context =
  bc_firm_id :: "pystr option"
  bc_user_id :: "pystr option"
  bc_plan_name :: "plan_name option"
  bc_environment :: flag_environment
  bc_group_ids :: "pystr set"
  bc_now :: "datetime option"

definition set_extras :: "flag_extras \<Rightarrow> (pystr, flag_extras) dict \<Rightarrow> (pystr, flag_extras) dict" where
  [store_defs]: "set_extras e s = dict_set (fe_key e) e s"

interpretation extras_rows: keyed_store fe_key set_extras dict_get "keyed fe_key"
  using keyed_store_dict [of fe_key] by (simp add: set_extras_def [abs_def])

definition base_context :: "business_context \<Rightarrow> flag_context" where
  "base_context ctx = \<lparr>fc_firm_id = bc_firm_id ctx, fc_user_id = bc_user_id ctx, fc_plan = None\<rparr>"

definition business_flag_enabled ::
    "(pystr \<Rightarrow> nat) \<Rightarrow> datetime \<Rightarrow> pystr \<Rightarrow> business_context \<Rightarrow> (pystr, feature_flag) dict \<Rightarrow> (pystr, flag_extras) dict \<Rightarrow> bool" where
  "business_flag_enabled sha clock k ctx s es =
     (if \<not> flag_enabled sha k (base_context ctx) s then False
      else case dict_get es k of
        None \<Rightarrow> True
      | Some e \<Rightarrow>
          if fe_enabled_environments e \<noteq> {} \<and> bc_environment ctx \<notin> fe_enabled_environments e then False
          else if fe_enabled_group_ids e \<noteq> {} \<and> bc_group_ids ctx \<inter> fe_enabled_group_ids e = {} then False
          else if fe_enabled_plans e \<noteq> {} \<and> bc_plan_name ctx \<notin> Some ` fe_enabled_plans e then False
          else
            (let now = (case bc_now ctx of Some t \<Rightarrow> t | None \<Rightarrow> clock)
             in if (case fe_window_start e of None \<Rightarrow> False | Some t \<Rightarrow> now < t) then False
                else if (case fe_window_end e of None \<Rightarrow> False | Some t \<Rightarrow> t < now) then False
                else (case fe_experiment_key e of
                        None \<Rightarrow> True
                      | Some x \<Rightarrow>
                          (case flag_subject (bc_user_id ctx) (bc_firm_id ctx) of
                             None \<Rightarrow> False
                           | Some subject \<Rightarrow>
                               \<not> flt_le (fe_experiment_rollout_percentage e) (flag_bucket sha x subject)))))"

section \<open>The routes\<close>

text \<open>The only two contexts the program asks with: the evaluation route, and the gate of the quality of a knowledge object.\<close>

definition evaluation_context :: "pystr option \<Rightarrow> pystr option \<Rightarrow> flag_environment \<Rightarrow> business_context" where
  "evaluation_context firm user env =
     \<lparr>bc_firm_id = firm, bc_user_id = user, bc_plan_name = None, bc_environment = env, bc_group_ids = {}, bc_now = None\<rparr>"

fun flag_environment_of :: "pystr \<Rightarrow> flag_environment result" where
  "flag_environment_of s =
     (if s = ''development'' then Inr EV_DEVELOPMENT
      else if s = ''staging'' then Inr EV_STAGING
      else if s = ''production'' then Inr EV_PRODUCTION
      else Inl (ValueError (py_repr s @ '' is not a valid Environment'')))"

definition evaluate_flag_route ::
    "(pystr \<Rightarrow> nat) \<Rightarrow> datetime \<Rightarrow> pystr \<Rightarrow> pystr option \<Rightarrow> pystr option \<Rightarrow> pystr \<Rightarrow> (pystr, feature_flag) dict
       \<Rightarrow> (pystr, flag_extras) dict \<Rightarrow> bool result" where
  "evaluate_flag_route sha clock k firm user env s es =
     (case flag_environment_of env of
        Inl (ValueError m) \<Rightarrow> Inl (HTTPException 422 m)
      | Inl e \<Rightarrow> Inl e
      | Inr v \<Rightarrow> Inr (business_flag_enabled sha clock k (evaluation_context firm user v) s es))"

definition quality_flag_key :: pystr where
  "quality_flag_key = ''cabinet_knowledge.quality_evaluation''"

definition quality_flag_gate ::
    "(pystr \<Rightarrow> nat) \<Rightarrow> datetime \<Rightarrow> pystr \<Rightarrow> (pystr, feature_flag) dict \<Rightarrow> (pystr, flag_extras) dict \<Rightarrow> unit result" where
  "quality_flag_gate sha clock firm s es =
     (if \<not> business_flag_enabled sha clock quality_flag_key (evaluation_context (Some firm) None EV_PRODUCTION) s es
      then Inl (HTTPException 403 ''quality evaluation is disabled for this firm'') else Inr ())"

definition seeded_flags :: "(pystr, feature_flag) dict" where
  "seeded_flags = set_flag \<lparr>ff_key = quality_flag_key, ff_description = [], ff_enabled = True, ff_enabled_firm_ids = {},
     ff_enabled_user_ids = {}, ff_enabled_plans = {}, ff_rollout_percentage = Fin 100, ff_metadata = []\<rparr> []"

section \<open>Settings of a firm\<close>

datatype invoicing_language = IL_FR | IL_EN

record tenant_settings =
  tz_firm_id :: pystr
  tz_currency :: pystr
  tz_invoicing_language :: invoicing_language
  tz_invoicing_contact_email :: "pystr option"
  tz_auto_renew :: bool

definition settings_save :: "tenant_settings \<Rightarrow> (pystr, tenant_settings) dict \<Rightarrow> (pystr, tenant_settings) dict" where
  [store_defs]: "settings_save t s = dict_set (tz_firm_id t) t s"

interpretation settings_rows: keyed_store tz_firm_id settings_save dict_get "keyed tz_firm_id"
  using keyed_store_dict [of tz_firm_id] by (simp add: settings_save_def [abs_def])

definition settings_or_default ::
    "pystr \<Rightarrow> (pystr, tenant_settings) dict \<Rightarrow> tenant_settings \<times> (pystr, tenant_settings) dict" where
  "settings_or_default firm s =
     (case dict_get s firm of
        Some t \<Rightarrow> (t, s)
      | None \<Rightarrow>
          let t = \<lparr>tz_firm_id = firm, tz_currency = ''EUR'', tz_invoicing_language = IL_FR,
                   tz_invoicing_contact_email = None, tz_auto_renew = True\<rparr>
          in (t, settings_save t s))"

text \<open>An argument that is \<open>None\<close> leaves the field as it is, so a contact can be set but not taken away.\<close>

definition update_settings ::
    "pystr \<Rightarrow> pystr option \<Rightarrow> invoicing_language option \<Rightarrow> pystr option \<Rightarrow> bool option \<Rightarrow> (pystr, tenant_settings) dict
       \<Rightarrow> tenant_settings \<times> (pystr, tenant_settings) dict" where
  "update_settings firm currency lang email renew s =
     (let (t, s1) = settings_or_default firm s;
          t1 = (case currency of None \<Rightarrow> t | Some x \<Rightarrow> t\<lparr>tz_currency := x\<rparr>);
          t2 = (case lang of None \<Rightarrow> t1 | Some x \<Rightarrow> t1\<lparr>tz_invoicing_language := x\<rparr>);
          t3 = (case email of None \<Rightarrow> t2 | Some x \<Rightarrow> t2\<lparr>tz_invoicing_contact_email := Some x\<rparr>);
          t4 = (case renew of None \<Rightarrow> t3 | Some x \<Rightarrow> t3\<lparr>tz_auto_renew := x\<rparr>)
      in (t4, settings_save t4 s1))"

section \<open>Rollouts\<close>

text \<open>Every bucket is a number from 0 up to, but not including, 100.\<close>

lemma bucket_bounds: "flt_le (Fin 0) (flag_bucket sha k subject) \<and> flt_less (flag_bucket sha k subject) (Fin 100)"
proof -
  let ?q = "of_nat (sha (k @ '':'' @ subject) mod 10000) / 100 :: rat"
  have q: "0 \<le> ?q" by simp
  have "(of_nat (sha (k @ '':'' @ subject) mod 10000) :: rat) \<le> of_nat 9999"
    by (rule of_nat_mono) (use mod_less_divisor [of 10000 "sha (k @ '':'' @ subject)"] in linarith)
  then have "?q \<le> 9999 / 100" by simp
  then have le: "flt_le (round64 ?q) (round64 (9999 / 100))" by (rule round64_mono_nonneg [OF q])
  have top: "round64 (9999 / 100) = Fin (of_int 7036170730324623 * pow2 (6 - 52))"
    by (rule round64_normal) (simp_all add: pow2_def rne_def)
  have zero: "flt_le (round64 0) (round64 ?q)" by (rule round64_mono_nonneg [OF _ q]) simp
  show ?thesis
    using le zero by (cases "round64 ?q") (auto simp: flag_bucket_def top flt_le_def round64_def [of 0] pow2_def)
qed

lemma bucket_raise:
  "flt_less (flag_bucket sha k subject) p \<Longrightarrow> flt_le p q \<Longrightarrow> flt_less (flag_bucket sha k subject) q"
  by (cases "flag_bucket sha k subject"; cases p; cases q) (auto simp: flt_le_def)

lemma positive_raise: "flt_le p q \<Longrightarrow> \<not> flt_le p (Fin 0) \<Longrightarrow> \<not> flt_le q (Fin 0)"
  by (cases p; cases q) (auto simp: flt_le_def)

abbreviation raised :: "feature_flag \<Rightarrow> pyfloat \<Rightarrow> (pystr, feature_flag) dict \<Rightarrow> (pystr, feature_flag) dict" where
  "raised f q s \<equiv> set_flag (f\<lparr>ff_rollout_percentage := q\<rparr>) s"

text \<open>
  A progressive rollout never takes a feature away: whoever has it keeps it when the percentage is
  raised. At 100 percent a flag is on for everyone who can be told apart by a user or a firm, at 0
  for no one but those named; other flags are not touched.
\<close>
theorem rollout_monotone:
  assumes f: "dict_get s (ff_key f) = Some f" and le: "flt_le (ff_rollout_percentage f) q"
  shows "(flag_enabled sha (ff_key f) ctx s \<longrightarrow> flag_enabled sha (ff_key f) ctx (raised f q s)) \<and>
     (flag_subject (fc_user_id ctx) (fc_firm_id ctx) \<noteq> None \<longrightarrow>
        flag_enabled sha (ff_key f) ctx (raised f (Fin 100) s) = ff_enabled f) \<and>
     (flag_enabled sha (ff_key f) ctx (raised f (Fin 0) s) \<longrightarrow>
        (\<exists>i \<in> ff_enabled_firm_ids f. fc_firm_id ctx = Some i) \<or> (\<exists>i \<in> ff_enabled_user_ids f. fc_user_id ctx = Some i) \<or>
        (\<exists>p \<in> ff_enabled_plans f. fc_plan ctx = Some p)) \<and>
     (\<forall>k. k \<noteq> ff_key f \<longrightarrow> flag_enabled sha k ctx (raised f q s) = flag_enabled sha k ctx s)"
proof (intro conjI allI impI)
  show "flag_enabled sha (ff_key f) ctx (raised f q s)" if "flag_enabled sha (ff_key f) ctx s"
    using that bucket_raise [OF _ le] positive_raise [OF le]
    by (auto simp: flag_enabled_def flag_rows.get_put f split: if_splits option.splits)
  show "flag_enabled sha (ff_key f) ctx (raised f (Fin 100) s) = ff_enabled f"
    if "flag_subject (fc_user_id ctx) (fc_firm_id ctx) \<noteq> None"
    using that bucket_bounds [of sha "ff_key f"]
    by (auto simp: flag_enabled_def flag_rows.get_put flt_le_def [of "Fin 100"] split: option.splits)
  show "(\<exists>i \<in> ff_enabled_firm_ids f. fc_firm_id ctx = Some i) \<or> (\<exists>i \<in> ff_enabled_user_ids f. fc_user_id ctx = Some i) \<or>
      (\<exists>p \<in> ff_enabled_plans f. fc_plan ctx = Some p)" if "flag_enabled sha (ff_key f) ctx (raised f (Fin 0) s)"
    using that by (auto simp: flag_enabled_def flag_rows.get_put flt_le_def split: if_splits option.splits)
  show "flag_enabled sha k ctx (raised f q s) = flag_enabled sha k ctx s" if "k \<noteq> ff_key f" for k
    using that by (simp add: flag_enabled_def flag_rows.get_put)
qed

definition demo_flag :: feature_flag where
  "demo_flag = \<lparr>ff_key = ''beta'', ff_description = [], ff_enabled = True, ff_enabled_firm_ids = {}, ff_enabled_user_ids = {},
     ff_enabled_plans = {PT_SOLO}, ff_rollout_percentage = Fin 25, ff_metadata = []\<rparr>"

theorem rollout_monotone_witness:
  "flag_enabled (\<lambda>_. 2400) ''beta'' \<lparr>fc_firm_id = Some ''f'', fc_user_id = None, fc_plan = None\<rparr> (raised demo_flag (Fin 50) [(''beta'', demo_flag)])"
proof -
  have f: "dict_get [(''beta'', demo_flag)] (ff_key demo_flag) = Some demo_flag" by (simp add: demo_flag_def)
  have le: "flt_le (ff_rollout_percentage demo_flag) (Fin 50)" by (simp add: demo_flag_def flt_le_def)
  have "round64 24 = Fin 24" using round64_int [of 24] by simp
  then have "flag_enabled (\<lambda>_. 2400) (ff_key demo_flag) \<lparr>fc_firm_id = Some ''f'', fc_user_id = None, fc_plan = None\<rparr> [(''beta'', demo_flag)]"
    by (simp add: flag_enabled_def demo_flag_def flag_subject_def flag_bucket_def flt_le_def)
  then show ?thesis using rollout_monotone [OF f le] by (simp add: demo_flag_def)
qed

section \<open>Gates on plans\<close>

text \<open>
  The plans of a flag play no part in the business evaluation, which never passes a plan on; and no
  context the program builds names a plan, so extras that restrict a flag to some plans refuse every
  firm at both routes, whatever its plan.
\<close>
theorem plan_gates_dead:
  assumes "dict_get s (ff_key f) = Some f"
  shows "business_flag_enabled sha clock k ctx (set_flag (f\<lparr>ff_enabled_plans := ps\<rparr>) s) es = business_flag_enabled sha clock k ctx s es \<and>
     (\<forall>e env v. dict_get es k = Some e \<longrightarrow> fe_enabled_plans e \<noteq> {} \<longrightarrow> flag_environment_of env = Inr v \<longrightarrow>
        evaluate_flag_route sha clock k firm user env s es = Inr False) \<and>
     (\<forall>e. dict_get es quality_flag_key = Some e \<longrightarrow> fe_enabled_plans e \<noteq> {} \<longrightarrow>
        quality_flag_gate sha clock i s es = Inl (HTTPException 403 ''quality evaluation is disabled for this firm''))"
proof -
  have "flag_enabled sha k (base_context ctx) (set_flag (f\<lparr>ff_enabled_plans := ps\<rparr>) s) = flag_enabled sha k (base_context ctx) s"
    using assms by (cases "k = ff_key f") (simp_all add: flag_enabled_def base_context_def flag_rows.get_put cong: if_cong option.case_cong)
  then have "business_flag_enabled sha clock k ctx (set_flag (f\<lparr>ff_enabled_plans := ps\<rparr>) s) es = business_flag_enabled sha clock k ctx s es"
    by (simp add: business_flag_enabled_def)
  moreover have refused: "\<not> business_flag_enabled sha clock k' ctx' s es"
    if "dict_get es k' = Some e" "fe_enabled_plans e \<noteq> {}" "bc_plan_name ctx' = None" for k' e ctx'
    using that by (auto simp: business_flag_enabled_def split: if_splits)
  ultimately show ?thesis
    by (auto simp: evaluate_flag_route_def quality_flag_gate_def evaluation_context_def)
qed

theorem plan_gates_dead_witness:
  "quality_flag_gate (\<lambda>_. 0) 0 ''firm'' seeded_flags
     (set_extras \<lparr>fe_key = quality_flag_key, fe_enabled_environments = {}, fe_enabled_group_ids = {},
        fe_enabled_plans = {PN_ENTERPRISE}, fe_window_start = None, fe_window_end = None, fe_experiment_key = None,
        fe_experiment_rollout_percentage = Fin 0\<rparr> []) =
   Inl (HTTPException 403 ''quality evaluation is disabled for this firm'')"
proof -
  have flag: "dict_get seeded_flags (ff_key (snd (hd seeded_flags))) = Some (snd (hd seeded_flags))"
    by (simp add: seeded_flags_def set_flag_def)
  show ?thesis using plan_gates_dead [OF flag] by (simp add: set_extras_def)
qed

text \<open>The flag the program seeds keeps the quality route open to every firm.\<close>

lemma quality_gate_open: "quality_flag_gate sha clock firm seeded_flags [] = Inr ()"
  using bucket_bounds [of sha]
  by (simp add: quality_flag_gate_def business_flag_enabled_def flag_enabled_def seeded_flags_def set_flag_def
      base_context_def evaluation_context_def flag_subject_def flt_le_def [of "Fin 100"])

section \<open>What an update of the settings changes\<close>

text \<open>
  An update sets exactly the fields it names, starting from the defaults for a firm without settings,
  is what is read afterwards, and leaves other firms alone.
\<close>
theorem settings_update_exact:
  assumes keyed: "keyed tz_firm_id s" and run: "update_settings firm currency lang email renew s = (t', s')"
  shows "dict_get s' firm = Some t' \<and>
     (let t = fst (settings_or_default firm s)
      in t' = \<lparr>tz_firm_id = firm,
               tz_currency = (case currency of Some x \<Rightarrow> x | None \<Rightarrow> tz_currency t),
               tz_invoicing_language = (case lang of Some x \<Rightarrow> x | None \<Rightarrow> tz_invoicing_language t),
               tz_invoicing_contact_email = (case email of Some x \<Rightarrow> Some x | None \<Rightarrow> tz_invoicing_contact_email t),
               tz_auto_renew = (case renew of Some x \<Rightarrow> x | None \<Rightarrow> tz_auto_renew t)\<rparr>) \<and>
     (\<forall>other. other \<noteq> firm \<longrightarrow> dict_get s' other = dict_get s other)"
proof -
  obtain t s1 where t: "settings_or_default firm s = (t, s1)" by (metis surj_pair)
  have id: "tz_firm_id t = firm" and s1: "\<forall>other. other \<noteq> firm \<longrightarrow> dict_get s1 other = dict_get s other"
    using t settings_rows.get_key [OF keyed]
    by (auto simp: settings_or_default_def settings_rows.get_put Let_def split: option.splits)
  have "t' = \<lparr>tz_firm_id = firm,
               tz_currency = (case currency of Some x \<Rightarrow> x | None \<Rightarrow> tz_currency t),
               tz_invoicing_language = (case lang of Some x \<Rightarrow> x | None \<Rightarrow> tz_invoicing_language t),
               tz_invoicing_contact_email = (case email of Some x \<Rightarrow> Some x | None \<Rightarrow> tz_invoicing_contact_email t),
               tz_auto_renew = (case renew of Some x \<Rightarrow> x | None \<Rightarrow> tz_auto_renew t)\<rparr>" and s': "s' = settings_save t' s1"
    using run id by (auto simp: update_settings_def t Let_def split: option.splits)
  then show ?thesis using s1 by (simp add: t settings_rows.get_put)
qed

theorem settings_update_exact_witness:
  "tz_currency (fst (update_settings ''f'' (Some ''USD'') None None None [])) = ''USD''"
  using settings_update_exact [OF keyed_Nil surjective_pairing, of "''f''" "Some ''USD''" None None None]
  by (simp add: Let_def)

end
