(* ===== verification/Members.thy ===== *)
theory Members
  imports PyText Lifecycles
begin

text \<open>
  Who is in a workspace and what they may do: \<^verbatim>\<open>collaboration/members\<close> (invitation and the changes of
  status), \<^verbatim>\<open>collaboration/roles\<close> (one role per member and workspace) and
  \<^verbatim>\<open>collaboration/permissions\<close> (a matrix per role with grants and revocations per member).
\<close>

section \<open>Members\<close>

datatype member_status = MB_INVITED | MB_ACTIVE | MB_SUSPENDED | MB_DEACTIVATED

fun member_status_value :: "member_status \<Rightarrow> pystr" where
  "member_status_value MB_INVITED = ''invited''"
| "member_status_value MB_ACTIVE = ''active''"
| "member_status_value MB_SUSPENDED = ''suspended''"
| "member_status_value MB_DEACTIVATED = ''deactivated''"

text \<open>An f-string prints a member of a \<open>(str, Enum)\<close> class with its class and its name.\<close>

fun member_status_str :: "member_status \<Rightarrow> pystr" where
  "member_status_str MB_INVITED = ''MemberStatus.INVITED''"
| "member_status_str MB_ACTIVE = ''MemberStatus.ACTIVE''"
| "member_status_str MB_SUSPENDED = ''MemberStatus.SUSPENDED''"
| "member_status_str MB_DEACTIVATED = ''MemberStatus.DEACTIVATED''"

record member_event =
  mh_timestamp :: datetime
  mh_from_status :: "member_status option"
  mh_to_status :: member_status
  mh_actor_id :: "pystr option"

record ws_member =
  mb_id :: pystr
  mb_workspace_id :: pystr
  mb_email :: pystr
  mb_display_name :: pystr
  mb_status :: member_status
  mb_invited_at :: "datetime option"
  mb_activated_at :: "datetime option"
  mb_history :: "member_event list"

type_synonym member_store = "(pystr, ws_member) dict"

definition member_get :: "member_store \<Rightarrow> pystr \<Rightarrow> ws_member option" where
  [store_defs]: "member_get s member_id = dict_get s member_id"

definition member_save :: "ws_member \<Rightarrow> member_store \<Rightarrow> member_store" where
  [store_defs]: "member_save m s = dict_set (mb_id m) m s"

definition member_list_for_workspace :: "member_store \<Rightarrow> pystr \<Rightarrow> ws_member list" where
  "member_list_for_workspace s workspace_id = filter (\<lambda>m. mb_workspace_id m = workspace_id) (dict_values s)"

interpretation member_rows: keyed_store mb_id member_save member_get "keyed mb_id"
  unfolding store_defs by (rule keyed_store_dict)

fun member_transitions :: "member_status \<Rightarrow> member_status list" where
  "member_transitions MB_INVITED = [MB_ACTIVE, MB_DEACTIVATED]"
| "member_transitions MB_ACTIVE = [MB_SUSPENDED, MB_DEACTIVATED]"
| "member_transitions MB_SUSPENDED = [MB_ACTIVE, MB_DEACTIVATED]"
| "member_transitions MB_DEACTIVATED = []"

definition invite_member_row :: "pystr \<Rightarrow> datetime \<Rightarrow> pystr \<Rightarrow> pystr \<Rightarrow> pystr \<Rightarrow> ws_member" where
  "invite_member_row new_id now workspace_id email display_name =
     \<lparr>mb_id = new_id, mb_workspace_id = workspace_id, mb_email = email, mb_display_name = display_name,
      mb_status = MB_INVITED, mb_invited_at = Some now, mb_activated_at = None,
      mb_history = [\<lparr>mh_timestamp = now, mh_from_status = None, mh_to_status = MB_INVITED, mh_actor_id = None\<rparr>]\<rparr>"

definition member_invite ::
  "pystr \<Rightarrow> datetime \<Rightarrow> pystr \<Rightarrow> pystr \<Rightarrow> pystr \<Rightarrow> member_store \<Rightarrow> ws_member \<times> member_store" where
  "member_invite new_id now workspace_id email display_name s =
     (let m = invite_member_row new_id now workspace_id email display_name in (m, member_save m s))"

definition member_moved :: "datetime \<Rightarrow> member_status \<Rightarrow> pystr option \<Rightarrow> ws_member \<Rightarrow> ws_member" where
  "member_moved now to_status actor_id m =
     m\<lparr>mb_history := mb_history m @ [\<lparr>mh_timestamp = now, mh_from_status = Some (mb_status m),
          mh_to_status = to_status, mh_actor_id = actor_id\<rparr>],
       mb_status := to_status\<rparr>"

definition member_transition ::
  "datetime \<Rightarrow> pystr \<Rightarrow> member_status \<Rightarrow> pystr option \<Rightarrow> member_store \<Rightarrow> (ws_member \<times> member_store) result" where
  "member_transition now member_id to_status actor_id s =
     (case member_get s member_id of
        None \<Rightarrow> Inl (ValueError (''Unknown member '' @ py_repr member_id))
      | Some m \<Rightarrow>
          if to_status \<notin> set (member_transitions (mb_status m)) then
            Inl (ValueError (''Cannot transition member from '' @ member_status_str (mb_status m) @
                             '' to '' @ member_status_str to_status))
          else (let m' = member_moved now to_status actor_id m in Inr (m', member_save m' s)))"

text \<open>\<open>activate\<close> reads the clock a second time for the field \<open>activated_at\<close>.\<close>

definition member_activate ::
  "datetime \<Rightarrow> datetime \<Rightarrow> pystr \<Rightarrow> pystr option \<Rightarrow> member_store \<Rightarrow> (ws_member \<times> member_store) result" where
  "member_activate now now2 member_id actor_id s =
     res_bind (member_transition now member_id MB_ACTIVE actor_id s)
       (\<lambda>(m, s1). let m' = m\<lparr>mb_activated_at := Some now2\<rparr> in Inr (m', member_save m' s1))"

definition member_suspend ::
  "datetime \<Rightarrow> pystr \<Rightarrow> pystr option \<Rightarrow> member_store \<Rightarrow> (ws_member \<times> member_store) result" where
  "member_suspend now member_id actor_id s = member_transition now member_id MB_SUSPENDED actor_id s"

definition member_deactivate ::
  "datetime \<Rightarrow> pystr \<Rightarrow> pystr option \<Rightarrow> member_store \<Rightarrow> (ws_member \<times> member_store) result" where
  "member_deactivate now member_id actor_id s = member_transition now member_id MB_DEACTIVATED actor_id s"

definition member_reactivate ::
  "datetime \<Rightarrow> pystr \<Rightarrow> pystr option \<Rightarrow> member_store \<Rightarrow> (ws_member \<times> member_store) result" where
  "member_reactivate now member_id actor_id s = member_transition now member_id MB_ACTIVE actor_id s"

lemmas member_op_defs = member_activate_def member_suspend_def member_deactivate_def member_reactivate_def

subsection \<open>The lifecycle of one member\<close>

fun member_allowed :: "member_status option \<Rightarrow> member_status option list" where
  "member_allowed None = [Some MB_INVITED]"
| "member_allowed (Some st) = map Some (member_transitions st)"

text \<open>What one operation does to the member it is about, the activation date aside.\<close>

definition member_advance :: "ws_member \<Rightarrow> ws_member \<Rightarrow> bool" where
  "member_advance m m' \<longleftrightarrow> (\<exists>now to_status actor_id activated.
     to_status \<in> set (member_transitions (mb_status m)) \<and>
     m' = member_moved now to_status actor_id m\<lparr>mb_activated_at := activated\<rparr>)"

interpretation member_life: lifecycle member_allowed mh_from_status "\<lambda>e. Some (mh_to_status e)" None
    "\<lambda>m. Some (mb_status m)" mb_history member_advance
  by unfold_locales (auto simp: member_advance_def member_moved_def)

lemma member_transition_Inr:
  "member_transition now member_id to_status actor_id s = Inr (m', s') \<longleftrightarrow>
     (\<exists>m. member_get s member_id = Some m \<and> to_status \<in> set (member_transitions (mb_status m)) \<and>
          m' = member_moved now to_status actor_id m \<and> s' = member_save m' s)"
  by (auto simp: member_transition_def Let_def split: option.splits)

lemma member_moved_id [simp]: "mb_id (member_moved now to_status actor_id m) = mb_id m"
  by (simp add: member_moved_def)

text \<open>The operations of the service, as steps of its store.\<close>

inductive member_step :: "member_store \<Rightarrow> member_store \<Rightarrow> bool" where
  invite: "member_get s new_id = None \<Longrightarrow>
     member_invite new_id now workspace_id email display_name s = (m, s') \<Longrightarrow> member_step s s'"
| activate: "member_activate now now2 member_id actor_id s = Inr (m, s') \<Longrightarrow> member_step s s'"
| suspend: "member_suspend now member_id actor_id s = Inr (m, s') \<Longrightarrow> member_step s s'"
| deactivate: "member_deactivate now member_id actor_id s = Inr (m, s') \<Longrightarrow> member_step s s'"
| reactivate: "member_reactivate now member_id actor_id s = Inr (m, s') \<Longrightarrow> member_step s s'"

text \<open>A step files one member: a new invitation, or the next state of the one filed there.\<close>

lemma member_step_effect:
  assumes "member_step s s'" and wf: "keyed mb_id s"
  obtains m m' where "s' = member_save m' s" and "member_get s (mb_id m') = Some m" and "member_advance m m'"
        and "mb_id m = mb_id m'" and "mb_workspace_id m = mb_workspace_id m'"
    | new_id now workspace_id email display_name where
        "s' = member_save (invite_member_row new_id now workspace_id email display_name) s"
        and "member_get s new_id = None"
proof -
  note moved = that(1) and fresh = that(2)
  have go: thesis if t: "member_transition now member_id to_status actor_id s = Inr (m1, s1)"
      and s': "s' = member_save (m1\<lparr>mb_activated_at := activated\<rparr>) s" for now member_id to_status actor_id m1 s1 activated
  proof -
    obtain m where get: "member_get s member_id = Some m" and tr: "to_status \<in> set (member_transitions (mb_status m))"
      and m1: "m1 = member_moved now to_status actor_id m" using t by (auto simp: member_transition_Inr)
    have id: "mb_id m = member_id" using wf get by (rule member_rows.get_key)
    have adv: "member_advance m (m1\<lparr>mb_activated_at := activated\<rparr>)"
      unfolding member_advance_def m1 using tr by blast
    show thesis by (rule moved [OF s' _ adv]) (use get id in \<open>simp_all add: m1 member_moved_def\<close>)
  qed
  have go1: thesis if t: "member_transition now member_id to_status actor_id s = Inr (m1, s')" for now member_id to_status actor_id m1
    by (rule go [OF t, where activated = "mb_activated_at m1"]) (use t in \<open>auto simp: member_transition_Inr\<close>)
  from assms(1) show thesis
  proof cases
    case (invite new_id now workspace_id email display_name m)
    then show thesis by (intro fresh) (auto simp: member_invite_def Let_def)
  next
    case (activate now now2 member_id actor_id m)
    then obtain m1 s1 where t: "member_transition now member_id MB_ACTIVE actor_id s = Inr (m1, s1)"
      and s': "s' = member_save (m1\<lparr>mb_activated_at := Some now2\<rparr>) s1"
      by (auto simp: member_activate_def res_bind_Inr_iff Let_def)
    have "s1 = member_save m1 s" using t by (auto simp: member_transition_Inr)
    with s' have "s' = member_save (m1\<lparr>mb_activated_at := Some now2\<rparr>) s" by (simp add: member_save_def)
    with t show thesis by (rule go)
  qed (auto simp: member_op_defs intro: go1)
qed

text \<open>Along any operations: the store stays keyed, each history a path, and each member is moved only by its lifecycle.\<close>

lemma members_reachable:
  "member_step\<^sup>*\<^sup>* [] s \<Longrightarrow> keyed mb_id s \<and> (\<forall>k m. member_get s k = Some m \<longrightarrow> member_life.path_ok m)"
proof (induction rule: rtranclp_induct)
  case base
  show ?case by (simp add: member_get_def)
next
  case (step s s')
  then have wf: "keyed mb_id s" and ok: "member_get s k = Some m \<Longrightarrow> member_life.path_ok m" for k m by blast+
  from step.hyps(2) wf show ?case
  proof (cases rule: member_step_effect)
    case (1 m m')
    then have "member_life.path_ok m'" using ok member_life.path_ok_advance by blast
    then show ?thesis using 1(1) wf ok by (auto simp: member_rows.get_put intro: member_rows.wf_put split: if_splits)
  next
    case (2 new_id now workspace_id email display_name)
    have "member_life.path_ok (invite_member_row new_id now workspace_id email display_name)"
      by (simp add: member_life.path_ok_def invite_member_row_def)
    then show ?thesis using 2(1) wf ok by (auto simp: member_rows.get_put intro: member_rows.wf_put split: if_splits)
  qed
qed

lemma member_step_keyed: "member_step s s' \<Longrightarrow> keyed mb_id s \<Longrightarrow> keyed mb_id s'"
  by (erule member_step_effect) (auto intro: member_rows.wf_put)

lemma member_follow:
  assumes "member_step\<^sup>*\<^sup>* s s'" and "keyed mb_id s" and "member_get s member_id = Some m"
  shows "\<exists>m'. member_get s' member_id = Some m' \<and> member_advance\<^sup>*\<^sup>* m m' \<and> mb_workspace_id m' = mb_workspace_id m"
  using assms
proof (induction arbitrary: m rule: converse_rtranclp_induct)
  case (step s t)
  have "\<exists>n. member_get t member_id = Some n \<and> member_advance\<^sup>*\<^sup>* m n \<and> mb_workspace_id n = mb_workspace_id m"
    using step.hyps(1) step.prems(1)
  proof (cases rule: member_step_effect)
    case (1 x y)
    then show ?thesis using step.prems(2) by (cases "mb_id y = member_id") (auto simp: member_rows.get_put)
  next
    case (2 new_id now workspace_id email display_name)
    then show ?thesis using step.prems(2) by (auto simp: member_rows.get_put invite_member_row_def)
  qed
  then obtain n where "member_get t member_id = Some n" "member_advance\<^sup>*\<^sup>* m n" "mb_workspace_id n = mb_workspace_id m"
    by blast
  with step.IH [OF member_step_keyed [OF step.hyps(1) step.prems(1)]] show ?case by (metis rtranclp_trans)
qed auto

section \<open>Roles\<close>

datatype collab_role = CR_ADMINISTRATOR | CR_ASSOCIATE | CR_COLLABORATOR | CR_JURIST | CR_ASSISTANT | CR_CLIENT

fun collab_role_value :: "collab_role \<Rightarrow> pystr" where
  "collab_role_value CR_ADMINISTRATOR = ''administrator''"
| "collab_role_value CR_ASSOCIATE = ''associate''"
| "collab_role_value CR_COLLABORATOR = ''collaborator''"
| "collab_role_value CR_JURIST = ''jurist''"
| "collab_role_value CR_ASSISTANT = ''assistant''"
| "collab_role_value CR_CLIENT = ''client''"

record member_role =
  mr_workspace_id :: pystr
  mr_member_id :: pystr
  mr_role :: collab_role

type_synonym assignment_store = "(pystr \<times> pystr, member_role) dict"

definition collab_assign_role ::
  "pystr \<Rightarrow> pystr \<Rightarrow> collab_role \<Rightarrow> assignment_store \<Rightarrow> member_role \<times> assignment_store" where
  "collab_assign_role workspace_id member_id role s =
     (let a = \<lparr>mr_workspace_id = workspace_id, mr_member_id = member_id, mr_role = role\<rparr>
      in (a, dict_set (workspace_id, member_id) a s))"

definition collab_get_role :: "assignment_store \<Rightarrow> pystr \<Rightarrow> pystr \<Rightarrow> collab_role option" where
  "collab_get_role s workspace_id member_id = map_option mr_role (dict_get s (workspace_id, member_id))"

definition collab_list_by_role :: "assignment_store \<Rightarrow> pystr \<Rightarrow> collab_role \<Rightarrow> pystr list" where
  "collab_list_by_role s workspace_id role =
     map (snd \<circ> fst) (filter (\<lambda>((ws_id, member_id), a). ws_id = workspace_id \<and> mr_role a = role) s)"

section \<open>Permissions\<close>

datatype collab_permission =
    CP_WORKSPACE_MANAGE | CP_MEMBER_INVITE | CP_MEMBER_MANAGE | CP_ROLE_ASSIGN | CP_CASE_READ | CP_CASE_WRITE
  | CP_DOCUMENT_READ | CP_DOCUMENT_WRITE | CP_DOCUMENT_DELETE | CP_TASK_CREATE | CP_TASK_ASSIGN | CP_TASK_UPDATE
  | CP_COMMENT_WRITE | CP_APPROVAL_REQUEST | CP_APPROVAL_DECIDE | CP_SHARING_CREATE_LINK | CP_SHARING_REVOKE_LINK

definition collab_permissions :: "collab_permission list" where
  "collab_permissions = [CP_WORKSPACE_MANAGE, CP_MEMBER_INVITE, CP_MEMBER_MANAGE, CP_ROLE_ASSIGN, CP_CASE_READ,
     CP_CASE_WRITE, CP_DOCUMENT_READ, CP_DOCUMENT_WRITE, CP_DOCUMENT_DELETE, CP_TASK_CREATE, CP_TASK_ASSIGN,
     CP_TASK_UPDATE, CP_COMMENT_WRITE, CP_APPROVAL_REQUEST, CP_APPROVAL_DECIDE, CP_SHARING_CREATE_LINK,
     CP_SHARING_REVOKE_LINK]"

lemma collab_permissions_all: "p \<in> set collab_permissions"
  by (cases p) (simp_all add: collab_permissions_def)

type_synonym permission_matrix = "(collab_role, collab_permission set) dict"

definition default_permission_matrix :: permission_matrix where
  "default_permission_matrix =
     [(CR_ADMINISTRATOR, set collab_permissions),
      (CR_ASSOCIATE, set collab_permissions - {CP_WORKSPACE_MANAGE}),
      (CR_COLLABORATOR, {CP_CASE_READ, CP_CASE_WRITE, CP_DOCUMENT_READ, CP_DOCUMENT_WRITE, CP_TASK_CREATE,
         CP_TASK_ASSIGN, CP_TASK_UPDATE, CP_COMMENT_WRITE, CP_APPROVAL_REQUEST, CP_SHARING_CREATE_LINK}),
      (CR_JURIST, {CP_CASE_READ, CP_CASE_WRITE, CP_DOCUMENT_READ, CP_DOCUMENT_WRITE, CP_TASK_CREATE,
         CP_TASK_UPDATE, CP_COMMENT_WRITE, CP_APPROVAL_REQUEST}),
      (CR_ASSISTANT, {CP_CASE_READ, CP_DOCUMENT_READ, CP_TASK_UPDATE, CP_COMMENT_WRITE}),
      (CR_CLIENT, {CP_CASE_READ, CP_DOCUMENT_READ})]"

record permission_engine =
  pe_matrix :: permission_matrix
  pe_grants :: "(pystr \<times> pystr, collab_permission set) dict"
  pe_revokes :: "(pystr \<times> pystr, collab_permission set) dict"

text \<open>An empty matrix is falsy, so it stands for the default one.\<close>

definition permission_engine_init :: "permission_matrix option \<Rightarrow> permission_engine" where
  "permission_engine_init matrix =
     \<lparr>pe_matrix = (case matrix of None \<Rightarrow> default_permission_matrix
        | Some m \<Rightarrow> if m = [] then default_permission_matrix else m),
      pe_grants = [], pe_revokes = []\<rparr>"

definition set_of :: "('k, 'v set) dict \<Rightarrow> 'k \<Rightarrow> 'v set" where
  "set_of d k = (case dict_get d k of None \<Rightarrow> {} | Some vs \<Rightarrow> vs)"

definition engine_permits :: "permission_engine \<Rightarrow> pystr \<Rightarrow> pystr \<Rightarrow> collab_role \<Rightarrow> collab_permission \<Rightarrow> bool" where
  "engine_permits e workspace_id member_id role p =
     (let k = (workspace_id, member_id)
      in if p \<in> set_of (pe_revokes e) k then False
         else if p \<in> set_of (pe_grants e) k then True
         else p \<in> set_of (pe_matrix e) role)"

text \<open>\<open>d.get(k, set()).discard(v)\<close> changes the set stored under \<open>k\<close>, if there is one.\<close>

definition discard_from :: "('k, 'v set) dict \<Rightarrow> 'k \<Rightarrow> 'v \<Rightarrow> ('k, 'v set) dict" where
  "discard_from d k v = (case dict_get d k of None \<Rightarrow> d | Some vs \<Rightarrow> dict_set k (vs - {v}) d)"

definition grant_override :: "pystr \<Rightarrow> pystr \<Rightarrow> collab_permission \<Rightarrow> permission_engine \<Rightarrow> permission_engine" where
  "grant_override workspace_id member_id p e =
     (let k = (workspace_id, member_id)
      in e\<lparr>pe_grants := dict_set k (insert p (set_of (pe_grants e) k)) (pe_grants e),
           pe_revokes := discard_from (pe_revokes e) k p\<rparr>)"

definition revoke_override :: "pystr \<Rightarrow> pystr \<Rightarrow> collab_permission \<Rightarrow> permission_engine \<Rightarrow> permission_engine" where
  "revoke_override workspace_id member_id p e =
     (let k = (workspace_id, member_id)
      in e\<lparr>pe_revokes := dict_set k (insert p (set_of (pe_revokes e) k)) (pe_revokes e),
           pe_grants := discard_from (pe_grants e) k p\<rparr>)"

definition set_role_permissions :: "collab_role \<Rightarrow> collab_permission set \<Rightarrow> permission_engine \<Rightarrow> permission_engine" where
  "set_role_permissions role ps e = e\<lparr>pe_matrix := dict_set role ps (pe_matrix e)\<rparr>"

lemma set_of_simps [simp]:
  "set_of [] k = {}"
  "set_of (dict_set k' vs d) k = (if k = k' then vs else set_of d k)"
  by (simp_all add: set_of_def update_conv)

lemma set_of_discard [simp]: "set_of (discard_from d k' v) k = (if k = k' then set_of d k - {v} else set_of d k)"
  by (cases "dict_get d k'") (auto simp: discard_from_def set_of_def update_conv)

subsection \<open>The contract of the permission engine\<close>

text \<open>
  What the engine is for, without its three dictionaries: a permission of a member is what was last
  said about it for this member, and otherwise what was last said for the role.
\<close>

datatype permission_command =
    Cmd_grant pystr pystr collab_permission
  | Cmd_revoke pystr pystr collab_permission
  | Cmd_set_role collab_role "collab_permission set"

fun run_permission_command :: "permission_command \<Rightarrow> permission_engine \<Rightarrow> permission_engine" where
  "run_permission_command (Cmd_grant ws mb p) e = grant_override ws mb p e"
| "run_permission_command (Cmd_revoke ws mb p) e = revoke_override ws mb p e"
| "run_permission_command (Cmd_set_role role ps) e = set_role_permissions role ps e"

fun spoken_for_member :: "pystr \<Rightarrow> pystr \<Rightarrow> collab_permission \<Rightarrow> permission_command \<Rightarrow> bool option" where
  "spoken_for_member ws mb p (Cmd_grant ws' mb' p') = (if ws = ws' \<and> mb = mb' \<and> p = p' then Some True else None)"
| "spoken_for_member ws mb p (Cmd_revoke ws' mb' p') = (if ws = ws' \<and> mb = mb' \<and> p = p' then Some False else None)"
| "spoken_for_member ws mb p (Cmd_set_role role ps) = None"

fun spoken_for_role :: "collab_role \<Rightarrow> collab_permission \<Rightarrow> permission_command \<Rightarrow> bool option" where
  "spoken_for_role role p (Cmd_set_role role' ps) = (if role = role' then Some (p \<in> ps) else None)"
| "spoken_for_role role p _ = None"

definition last_word :: "('c \<Rightarrow> bool option) \<Rightarrow> 'c list \<Rightarrow> bool option" where
  "last_word says cs = fold (\<lambda>c acc. case says c of None \<Rightarrow> acc | Some b \<Rightarrow> Some b) cs None"

definition permission_spec ::
  "permission_matrix \<Rightarrow> permission_command list \<Rightarrow> pystr \<Rightarrow> pystr \<Rightarrow> collab_role \<Rightarrow> collab_permission \<Rightarrow> bool" where
  "permission_spec matrix cs ws mb role p =
     (case last_word (spoken_for_member ws mb p) cs of
        Some b \<Rightarrow> b
      | None \<Rightarrow> (case last_word (spoken_for_role role p) cs of Some b \<Rightarrow> b | None \<Rightarrow> p \<in> set_of matrix role))"

lemma last_word_snoc:
  "last_word says (cs @ [c]) = (case says c of None \<Rightarrow> last_word says cs | Some b \<Rightarrow> Some b)"
  by (cases "says c") (simp_all add: last_word_def)

lemma permission_engine_refines:
  "(let e = fold run_permission_command cs (permission_engine_init matrix) in
     (p \<in> set_of (pe_revokes e) (ws, mb)) = (last_word (spoken_for_member ws mb p) cs = Some False) \<and>
     (p \<in> set_of (pe_grants e) (ws, mb)) = (last_word (spoken_for_member ws mb p) cs = Some True) \<and>
     (p \<in> set_of (pe_matrix e) role) =
       (case last_word (spoken_for_role role p) cs of Some b \<Rightarrow> b
        | None \<Rightarrow> p \<in> set_of (pe_matrix (permission_engine_init matrix)) role))"
proof (induction cs rule: rev_induct)
  case Nil
  then show ?case by (simp add: last_word_def permission_engine_init_def)
next
  case (snoc c cs)
  then show ?case
    by (cases c) (auto simp: Let_def last_word_snoc grant_override_def revoke_override_def set_role_permissions_def
      split: option.splits)
qed

section \<open>Properties\<close>

text \<open>
  C23. The members of a workspace: starting from an empty store, whatever operations were called, the
  history of every member is an unbroken path of allowed transitions from its invitation to its
  present status, its identifier is the key it is filed under, and its entries are never rewritten
  by what follows: of two stores the later one extends each history by a path from the former status,
  keeps the workspace of every member, and leaves a deactivated member exactly as it was.
\<close>

theorem member_lifecycle:
  assumes "member_step\<^sup>*\<^sup>* [] s" and "member_step\<^sup>*\<^sup>* s s'" and "member_get s member_id = Some m"
  shows "mb_id m = member_id \<and>
     lifecycle_path member_allowed mh_from_status (\<lambda>e. Some (mh_to_status e)) None (mb_history m) (Some (mb_status m)) \<and>
     (\<exists>m' tail. member_get s' member_id = Some m' \<and> mb_history m' = mb_history m @ tail \<and>
        lifecycle_path member_allowed mh_from_status (\<lambda>e. Some (mh_to_status e)) (Some (mb_status m)) tail (Some (mb_status m')) \<and>
        mb_workspace_id m' = mb_workspace_id m \<and> (mb_status m = MB_DEACTIVATED \<longrightarrow> m' = m))"
proof -
  have inv: "keyed mb_id t \<and> (\<forall>k x. member_get t k = Some x \<longrightarrow> member_life.path_ok x)" if "member_step\<^sup>*\<^sup>* [] t" for t
    using that by (rule members_reachable)
  have s: "keyed mb_id s" and p: "member_life.path_ok m" using inv [OF assms(1)] assms(3) by auto
  obtain m' where get': "member_get s' member_id = Some m'" and adv: "member_advance\<^sup>*\<^sup>* m m'"
    and ws: "mb_workspace_id m' = mb_workspace_id m"
    using member_follow [OF assms(2) s assms(3)] by blast
  obtain tail where tail: "mb_history m' = mb_history m @ tail" using member_life.history_grows [OF adv] by blast
  have stay: "mb_status m = MB_DEACTIVATED \<longrightarrow> m' = m"
    using adv by (cases rule: converse_rtranclpE) (auto simp: member_advance_def)
  show ?thesis
    using member_rows.get_key [OF s assms(3)] p get' tail ws stay member_life.reaches_path [OF adv tail]
    by (auto simp: member_life.path_ok_def)
qed

lemma member_lifecycle_witness:
  "let s1 = snd (member_invite ''m1'' 5 ''w1'' ''a@b.fr'' ''Ana'' []) in
   \<exists>m s2. member_activate 7 8 ''m1'' (Some ''boss'') s1 = Inr (m, s2) \<and> mb_status m = MB_ACTIVE \<and>
     lifecycle_path member_allowed mh_from_status (\<lambda>e. Some (mh_to_status e)) None (mb_history m) (Some MB_ACTIVE)"
proof -
  let ?s1 = "snd (member_invite ''m1'' 5 ''w1'' ''a@b.fr'' ''Ana'' [])"
  have "\<exists>m s2. member_activate 7 8 ''m1'' (Some ''boss'') ?s1 = Inr (m, s2) \<and> member_get s2 ''m1'' = Some m \<and>
      mb_status m = MB_ACTIVE"
    by (simp add: member_invite_def invite_member_row_def member_activate_def member_transition_def member_moved_def
        store_defs Let_def)
  then obtain m s2 where a: "member_activate 7 8 ''m1'' (Some ''boss'') ?s1 = Inr (m, s2)"
      and get: "member_get s2 ''m1'' = Some m" and st: "mb_status m = MB_ACTIVE" by blast
  have 1: "member_step [] ?s1"
    by (rule member_step.invite [where new_id = "''m1''", OF _ surjective_pairing]) (simp add: member_get_def)
  have 2: "member_step ?s1 s2" using a by (rule member_step.activate)
  have r: "member_step\<^sup>*\<^sup>* [] s2" using 1 2 by (meson converse_rtranclp_into_rtranclp rtranclp.rtrancl_refl)
  show ?thesis using member_lifecycle [OF r rtranclp.rtrancl_refl get] a st by (auto simp: Let_def)
qed

text \<open>
  C27. The permission engine: after any sequence of grants, revocations and changes of a role, a member
  has a permission if the last command about this member and permission was a grant, has it not if
  it was a revocation, and has what the role was last given when there was none; commands about
  other members or other workspaces play no part. In particular a later grant lifts a revocation.
\<close>

theorem permission_last_word:
  "engine_permits (fold run_permission_command cs (permission_engine_init matrix)) ws mb role p =
     permission_spec (pe_matrix (permission_engine_init matrix)) cs ws mb role p"
  using permission_engine_refines [of cs matrix p ws mb role]
  by (auto simp: engine_permits_def permission_spec_def Let_def split: option.splits)

end
