(* ===== verification/Collaboration.thy ===== *)
theory Collaboration
  imports Members Journals
begin

text \<open>
  Two services a workspace is made of (\<^verbatim>\<open>collaboration\<close>): tasks with the workflow of their status
  (\<^verbatim>\<open>tasks\<close>, \<^verbatim>\<open>workflow\<close>), and comments with the mentions written in them (\<^verbatim>\<open>comments\<close>, \<^verbatim>\<open>mentions\<close>).
  \<open>Sharing\<close> and \<open>Feeds\<close> hold the others, \<open>Workspaces\<close> composes them.
\<close>

section \<open>The workflow of a task\<close>

datatype task_status = TK_TODO | TK_IN_PROGRESS | TK_IN_REVIEW | TK_TO_VALIDATE | TK_VALIDATED | TK_ARCHIVED

fun task_status_value :: "task_status \<Rightarrow> pystr" where
  "task_status_value TK_TODO = ''todo''"
| "task_status_value TK_IN_PROGRESS = ''in_progress''"
| "task_status_value TK_IN_REVIEW = ''in_review''"
| "task_status_value TK_TO_VALIDATE = ''to_validate''"
| "task_status_value TK_VALIDATED = ''validated''"
| "task_status_value TK_ARCHIVED = ''archived''"

fun task_status_str :: "task_status \<Rightarrow> pystr" where
  "task_status_str TK_TODO = ''WorkflowStatus.TODO''"
| "task_status_str TK_IN_PROGRESS = ''WorkflowStatus.IN_PROGRESS''"
| "task_status_str TK_IN_REVIEW = ''WorkflowStatus.IN_REVIEW''"
| "task_status_str TK_TO_VALIDATE = ''WorkflowStatus.TO_VALIDATE''"
| "task_status_str TK_VALIDATED = ''WorkflowStatus.VALIDATED''"
| "task_status_str TK_ARCHIVED = ''WorkflowStatus.ARCHIVED''"

type_synonym task_transitions = "(task_status, task_status set) dict"

definition default_task_transitions :: task_transitions where
  "default_task_transitions =
     [(TK_TODO, {TK_IN_PROGRESS, TK_ARCHIVED}),
      (TK_IN_PROGRESS, {TK_IN_REVIEW, TK_TODO, TK_ARCHIVED}),
      (TK_IN_REVIEW, {TK_TO_VALIDATE, TK_IN_PROGRESS, TK_ARCHIVED}),
      (TK_TO_VALIDATE, {TK_VALIDATED, TK_IN_REVIEW, TK_ARCHIVED}),
      (TK_VALIDATED, {TK_ARCHIVED}),
      (TK_ARCHIVED, {})]"

text \<open>An empty table is falsy, so it stands for the default one.\<close>

definition task_workflow_init :: "task_transitions option \<Rightarrow> task_transitions" where
  "task_workflow_init transitions =
     (case transitions of None \<Rightarrow> default_task_transitions
      | Some t \<Rightarrow> if t = [] then default_task_transitions else t)"

definition can_transition_task :: "task_transitions \<Rightarrow> task_status \<Rightarrow> task_status \<Rightarrow> bool" where
  "can_transition_task t current target \<longleftrightarrow> target \<in> set_of t current"

definition transition_task :: "task_transitions \<Rightarrow> task_status \<Rightarrow> task_status \<Rightarrow> task_status result" where
  "transition_task t current target =
     (if \<not> can_transition_task t current target
      then Inl (ValueError (''Cannot transition from '' @ task_status_str current @ '' to '' @ task_status_str target))
      else Inr target)"

section \<open>Tasks\<close>

datatype task_priority = TP_LOW | TP_MEDIUM | TP_HIGH | TP_URGENT

record ws_task =
  tk_id :: pystr
  tk_workspace_id :: pystr
  tk_title :: pystr
  tk_description :: pystr
  tk_case_id :: "pystr option"
  tk_assignee_id :: "pystr option"
  tk_priority :: task_priority
  tk_due_date :: "datetime option"
  tk_status :: task_status
  tk_document_ids :: "pystr set"
  tk_comment_ids :: "pystr set"
  tk_depends_on :: "pystr set"
  tk_created_at :: "datetime option"
  tk_updated_at :: "datetime option"

type_synonym task_store = "(pystr, ws_task) dict"

definition task_get :: "task_store \<Rightarrow> pystr \<Rightarrow> ws_task option" where
  [store_defs]: "task_get s task_id = dict_get s task_id"

definition task_save :: "ws_task \<Rightarrow> task_store \<Rightarrow> task_store" where
  [store_defs]: "task_save t s = dict_set (tk_id t) t s"

definition task_list_for_workspace :: "task_store \<Rightarrow> pystr \<Rightarrow> ws_task list" where
  "task_list_for_workspace s workspace_id = filter (\<lambda>t. tk_workspace_id t = workspace_id) (dict_values s)"

definition task_list_for_case :: "task_store \<Rightarrow> pystr \<Rightarrow> ws_task list" where
  "task_list_for_case s case_id = filter (\<lambda>t. tk_case_id t = Some case_id) (dict_values s)"

definition task_list_for_assignee :: "task_store \<Rightarrow> pystr \<Rightarrow> ws_task list" where
  "task_list_for_assignee s assignee_id = filter (\<lambda>t. tk_assignee_id t = Some assignee_id) (dict_values s)"

interpretation task_rows: keyed_store tk_id task_save task_get "keyed tk_id"
  unfolding store_defs by (rule keyed_store_dict)

definition task_create ::
  "pystr \<Rightarrow> datetime \<Rightarrow> pystr \<Rightarrow> pystr \<Rightarrow> pystr \<Rightarrow> pystr option \<Rightarrow> pystr option \<Rightarrow> task_priority \<Rightarrow> datetime option
     \<Rightarrow> pystr set option \<Rightarrow> task_store \<Rightarrow> ws_task \<times> task_store" where
  "task_create new_id now workspace_id title description case_id assignee_id priority due_date depends_on s =
     (let t = \<lparr>tk_id = new_id, tk_workspace_id = workspace_id, tk_title = title, tk_description = description,
               tk_case_id = case_id, tk_assignee_id = assignee_id, tk_priority = priority, tk_due_date = due_date,
               tk_status = TK_TODO, tk_document_ids = {}, tk_comment_ids = {},
               tk_depends_on = (case depends_on of None \<Rightarrow> {} | Some ids \<Rightarrow> ids),
               tk_created_at = Some now, tk_updated_at = Some now\<rparr>
      in (t, task_save t s))"

definition require_task :: "task_store \<Rightarrow> pystr \<Rightarrow> ws_task result" where
  "require_task s task_id =
     (case task_get s task_id of None \<Rightarrow> Inl (ValueError (''Unknown task '' @ py_repr task_id)) | Some t \<Rightarrow> Inr t)"

definition task_assign :: "datetime \<Rightarrow> pystr \<Rightarrow> pystr \<Rightarrow> task_store \<Rightarrow> (ws_task \<times> task_store) result" where
  "task_assign now task_id assignee_id s =
     res_bind (require_task s task_id)
       (\<lambda>t. let t' = t\<lparr>tk_assignee_id := Some assignee_id, tk_updated_at := Some now\<rparr> in Inr (t', task_save t' s))"

definition task_add_document :: "pystr \<Rightarrow> pystr \<Rightarrow> task_store \<Rightarrow> (ws_task \<times> task_store) result" where
  "task_add_document task_id document_id s =
     res_bind (require_task s task_id)
       (\<lambda>t. let t' = t\<lparr>tk_document_ids := insert document_id (tk_document_ids t)\<rparr> in Inr (t', task_save t' s))"

definition task_link_comment :: "pystr \<Rightarrow> pystr \<Rightarrow> task_store \<Rightarrow> (ws_task \<times> task_store) result" where
  "task_link_comment task_id comment_id s =
     res_bind (require_task s task_id)
       (\<lambda>t. let t' = t\<lparr>tk_comment_ids := insert comment_id (tk_comment_ids t)\<rparr> in Inr (t', task_save t' s))"

definition task_done :: "ws_task \<Rightarrow> bool" where
  "task_done t \<longleftrightarrow> tk_status t = TK_VALIDATED \<or> tk_status t = TK_ARCHIVED"

definition task_can_start :: "task_store \<Rightarrow> pystr \<Rightarrow> bool result" where
  "task_can_start s task_id =
     res_bind (require_task s task_id)
       (\<lambda>t. Inr (\<forall>d \<in> tk_depends_on t. case task_get s d of None \<Rightarrow> False | Some dep \<Rightarrow> task_done dep))"

definition task_update_status ::
  "task_transitions \<Rightarrow> datetime \<Rightarrow> pystr \<Rightarrow> task_status \<Rightarrow> task_store \<Rightarrow> (ws_task \<times> task_store) result" where
  "task_update_status tr now task_id target s =
     res_bind (require_task s task_id)
       (\<lambda>t. res_bind (transition_task tr (tk_status t) target)
         (\<lambda>st. let t' = t\<lparr>tk_status := st, tk_updated_at := Some now\<rparr> in Inr (t', task_save t' s)))"

section \<open>Comments\<close>

datatype comment_target = CT_CASE | CT_DOCUMENT | CT_SECTION | CT_PARAGRAPH | CT_TASK

fun comment_target_value :: "comment_target \<Rightarrow> pystr" where
  "comment_target_value CT_CASE = ''case''"
| "comment_target_value CT_DOCUMENT = ''document''"
| "comment_target_value CT_SECTION = ''section''"
| "comment_target_value CT_PARAGRAPH = ''paragraph''"
| "comment_target_value CT_TASK = ''task''"

record ws_comment =
  cm_id :: pystr
  cm_workspace_id :: pystr
  cm_target_type :: comment_target
  cm_target_id :: pystr
  cm_author_id :: pystr
  cm_text :: pystr
  cm_parent_id :: "pystr option"
  cm_attachment_ids :: "pystr list"
  cm_created_at :: "datetime option"

type_synonym comment_store = "(pystr, ws_comment) dict"

definition comment_save :: "ws_comment \<Rightarrow> comment_store \<Rightarrow> comment_store" where
  [store_defs]: "comment_save c s = dict_set (cm_id c) c s"

definition comment_list_for_target :: "comment_store \<Rightarrow> comment_target \<Rightarrow> pystr \<Rightarrow> ws_comment list" where
  "comment_list_for_target s ty target_id =
     filter (\<lambda>c. cm_target_type c = ty \<and> cm_target_id c = target_id) (dict_values s)"

definition comment_list_replies :: "comment_store \<Rightarrow> pystr \<Rightarrow> ws_comment list" where
  "comment_list_replies s parent_id = filter (\<lambda>c. cm_parent_id c = Some parent_id) (dict_values s)"

definition comment_list_for_workspace :: "comment_store \<Rightarrow> pystr \<Rightarrow> ws_comment list" where
  "comment_list_for_workspace s workspace_id = filter (\<lambda>c. cm_workspace_id c = workspace_id) (dict_values s)"

interpretation comment_rows: keyed_store cm_id comment_save dict_get "keyed cm_id"
  unfolding store_defs by (rule keyed_store_dict)

definition comment_add ::
  "pystr \<Rightarrow> datetime \<Rightarrow> pystr \<Rightarrow> comment_target \<Rightarrow> pystr \<Rightarrow> pystr \<Rightarrow> pystr \<Rightarrow> pystr list \<Rightarrow> comment_store
     \<Rightarrow> ws_comment \<times> comment_store" where
  "comment_add new_id now workspace_id ty target_id author_id body attachment_ids s =
     (let c = \<lparr>cm_id = new_id, cm_workspace_id = workspace_id, cm_target_type = ty, cm_target_id = target_id,
               cm_author_id = author_id, cm_text = body, cm_parent_id = None, cm_attachment_ids = attachment_ids,
               cm_created_at = Some now\<rparr>
      in (c, comment_save c s))"

definition comment_reply ::
  "pystr \<Rightarrow> datetime \<Rightarrow> pystr \<Rightarrow> pystr \<Rightarrow> pystr \<Rightarrow> comment_store \<Rightarrow> (ws_comment \<times> comment_store) result" where
  "comment_reply new_id now parent_id author_id body s =
     (case dict_get s parent_id of
        None \<Rightarrow> Inl (ValueError (''Unknown comment '' @ py_repr parent_id))
      | Some parent \<Rightarrow>
          (let c = \<lparr>cm_id = new_id, cm_workspace_id = cm_workspace_id parent, cm_target_type = cm_target_type parent,
                    cm_target_id = cm_target_id parent, cm_author_id = author_id, cm_text = body,
                    cm_parent_id = Some parent_id, cm_attachment_ids = [], cm_created_at = Some now\<rparr>
           in Inr (c, comment_save c s)))"

section \<open>Mentions\<close>

datatype mention_type = MT_USER | MT_TEAM | MT_FIRM

fun mention_type_value :: "mention_type \<Rightarrow> pystr" where
  "mention_type_value MT_USER = ''user''"
| "mention_type_value MT_TEAM = ''team''"
| "mention_type_value MT_FIRM = ''firm''"

text \<open>
  The class \<open>[\w\-]\<close> of the regular expression, on the characters below 256: \<open>str.isalnum\<close> (letters,
  digits, and the superscripts, fractions and ordinal signs of Latin-1), the underscore, the hyphen.
\<close>

definition is_alnum :: "char \<Rightarrow> bool" where
  "is_alnum c \<longleftrightarrow>
     (let n = code c in
      48 \<le> n \<and> n \<le> 57 \<or> 65 \<le> n \<and> n \<le> 90 \<or> 97 \<le> n \<and> n \<le> 122 \<or>
      n \<in> {170, 178, 179, 181, 185, 186, 188, 189, 190} \<or> 192 \<le> n \<and> n \<noteq> 215 \<and> n \<noteq> 247)"

definition mention_char :: "char \<Rightarrow> bool" where
  "mention_char c \<longleftrightarrow> is_alnum c \<or> c = CHR ''_'' \<or> c = CHR ''-''"

text \<open>The alternatives of the group are tried in order; \<open>strip_prefix p s\<close> is the rest of \<open>s\<close> after \<open>p\<close>.\<close>

fun strip_prefix :: "pystr \<Rightarrow> pystr \<Rightarrow> pystr option" where
  "strip_prefix [] s = Some s"
| "strip_prefix (c # cs) [] = None"
| "strip_prefix (c # cs) (d # ds) = (if c = d then strip_prefix cs ds else None)"

definition mention_start :: "mention_type \<Rightarrow> pystr" where
  "mention_start ty = ''@'' @ mention_type_value ty @ '':''"

fun match_alternatives :: "mention_type list \<Rightarrow> pystr \<Rightarrow> (mention_type \<times> pystr \<times> pystr) option" where
  "match_alternatives [] s = None"
| "match_alternatives (ty # tys) s =
     (case strip_prefix (mention_start ty) s of
        None \<Rightarrow> match_alternatives tys s
      | Some rest \<Rightarrow>
          (let target_id = takeWhile mention_char rest
           in if target_id = [] then match_alternatives tys s
              else Some (ty, target_id, dropWhile mention_char rest)))"

definition match_mention :: "pystr \<Rightarrow> (mention_type \<times> pystr \<times> pystr) option" where
  "match_mention s = match_alternatives [MT_USER, MT_TEAM, MT_FIRM] s"

lemma strip_prefix_Some: "strip_prefix p s = Some rest \<longleftrightarrow> s = p @ rest"
  by (induction p s rule: strip_prefix.induct) auto

lemma match_alternatives_Some:
  assumes "match_alternatives tys s = Some (ty, target_id, rest)"
  shows "s = mention_start ty @ target_id @ rest \<and> target_id \<noteq> [] \<and> ty \<in> set tys \<and>
     target_id = takeWhile mention_char (target_id @ rest) \<and> rest = dropWhile mention_char (target_id @ rest)"
  using assms by (induction tys) (auto simp: Let_def strip_prefix_Some split: option.splits if_splits)

lemma match_mention_shorter: "match_mention s = Some (ty, target_id, rest) \<Longrightarrow> length rest < length s"
  unfolding match_mention_def by (drule match_alternatives_Some) auto

text \<open>\<open>re.findall\<close>: from the left, the match at a position or else the next position.\<close>

function extract_mentions :: "pystr \<Rightarrow> (mention_type \<times> pystr) list" where
  "extract_mentions s =
     (case match_mention s of
        Some (ty, target_id, rest) \<Rightarrow> (ty, target_id) # extract_mentions rest
      | None \<Rightarrow> (case s of [] \<Rightarrow> [] | c # cs \<Rightarrow> extract_mentions cs))"
  by pat_completeness auto
termination
  by (relation "measure length") (auto dest: match_mention_shorter)

declare extract_mentions.simps [simp del]

record mention =
  mn_id :: pystr
  mn_comment_id :: pystr
  mn_type :: mention_type
  mn_target_id :: pystr

fun default_resolver :: "mention_type \<Rightarrow> pystr \<Rightarrow> pystr list" where
  "default_resolver MT_USER target_id = [target_id]"
| "default_resolver _ target_id = []"

record mention_engine =
  me_notifications :: notification_engine
  me_mentions :: "(pystr, mention list) dict"

text \<open>
  One mention after the other; \<open>draws\<close> supplies, for each, its identifier and the identifier and the
  clock reading of each notification sent for it, in the order of the recipients.
\<close>

fun notify_recipients ::
  "ws_comment \<Rightarrow> (pystr \<times> pystr \<times> datetime) list \<Rightarrow> notification_engine \<Rightarrow> notification_engine" where
  "notify_recipients c [] e = e"
| "notify_recipients c ((recipient_id, notification_id, now) # rs) e =
     notify_recipients c rs
       (snd (dispatch_notifications (cm_workspace_id c) recipient_id ''mention''
               [(''comment_id'', cm_id c), (''author_id'', cm_author_id c)] [(NC_IN_APP, notification_id, now)] e))"

fun process_mentions ::
  "(mention_type \<Rightarrow> pystr \<Rightarrow> pystr list) \<Rightarrow> (nat \<Rightarrow> pystr) \<Rightarrow> (nat \<Rightarrow> nat \<Rightarrow> pystr \<times> datetime) \<Rightarrow> nat \<Rightarrow> ws_comment
     \<Rightarrow> (mention_type \<times> pystr) list \<Rightarrow> notification_engine \<Rightarrow> mention list \<times> notification_engine" where
  "process_mentions resolve new_id draws i c [] e = ([], e)"
| "process_mentions resolve new_id draws i c ((ty, target_id) # ms) e =
     (let m = \<lparr>mn_id = new_id i, mn_comment_id = cm_id c, mn_type = ty, mn_target_id = target_id\<rparr>;
          e1 = notify_recipients c
                 (map (\<lambda>(j, r). (r, draws i j)) (List.enumerate 0 (resolve ty target_id))) e;
          (rest, e2) = process_mentions resolve new_id draws (Suc i) c ms e1
      in (m # rest, e2))"

definition mention_process ::
  "(mention_type \<Rightarrow> pystr \<Rightarrow> pystr list) \<Rightarrow> (nat \<Rightarrow> pystr) \<Rightarrow> (nat \<Rightarrow> nat \<Rightarrow> pystr \<times> datetime) \<Rightarrow> ws_comment
     \<Rightarrow> mention_engine \<Rightarrow> mention list \<times> mention_engine" where
  "mention_process resolve new_id draws c e =
     (let (ms, ne) = process_mentions resolve new_id draws 0 c (extract_mentions (cm_text c)) (me_notifications e)
      in (ms, e\<lparr>me_notifications := ne, me_mentions := dict_set (cm_id c) ms (me_mentions e)\<rparr>))"

definition mentions_for_comment :: "mention_engine \<Rightarrow> pystr \<Rightarrow> mention list" where
  "mentions_for_comment e comment_id = (case dict_get (me_mentions e) comment_id of None \<Rightarrow> [] | Some ms \<Rightarrow> ms)"

subsection \<open>What the scanner finds\<close>

lemma at_no_mention_char: "\<not> mention_char (CHR ''@'')"
  by (simp add: mention_char_def is_alnum_def code_def Let_def)

definition ends_mention :: "pystr \<Rightarrow> bool" where
  "ends_mention rest \<longleftrightarrow> rest = [] \<or> \<not> mention_char (hd rest)"

lemma takeWhile_ends: "(\<forall>c \<in> set xs. P c) \<Longrightarrow> rest = [] \<or> \<not> P (hd rest) \<Longrightarrow>
    takeWhile P (xs @ rest) = xs \<and> dropWhile P (xs @ rest) = rest"
  by (cases rest) auto

lemma mention_start_eq: "mention_start ty @ xs = mention_start ty' @ ys \<Longrightarrow> ty = ty' \<and> xs = ys"
  by (cases ty; cases ty'; simp add: mention_start_def)

lemma strip_prefix_mention:
  "strip_prefix (mention_start ty) (mention_start ty' @ xs) = (if ty = ty' then Some xs else None)"
  by (cases ty; cases ty'; simp add: mention_start_def)

lemma match_mention_iff:
  "match_mention s = Some (ty, target_id, rest) \<longleftrightarrow>
     s = mention_start ty @ target_id @ rest \<and> target_id \<noteq> [] \<and> (\<forall>c \<in> set target_id. mention_char c) \<and> ends_mention rest"
proof
  assume m: "match_mention s = Some (ty, target_id, rest)"
  note f = match_alternatives_Some [OF m [unfolded match_mention_def]]
  have "ends_mention rest" using f hd_dropWhile [of mention_char "target_id @ rest"] by (auto simp: ends_mention_def)
  moreover have "\<forall>c \<in> set target_id. mention_char c" using f by (metis set_takeWhileD)
  ultimately show "s = mention_start ty @ target_id @ rest \<and> target_id \<noteq> [] \<and> (\<forall>c \<in> set target_id. mention_char c) \<and> ends_mention rest"
    using f by blast
next
  assume r: "s = mention_start ty @ target_id @ rest \<and> target_id \<noteq> [] \<and> (\<forall>c \<in> set target_id. mention_char c) \<and> ends_mention rest"
  then have w: "takeWhile mention_char (target_id @ rest) = target_id \<and> dropWhile mention_char (target_id @ rest) = rest"
    unfolding ends_mention_def by (intro takeWhile_ends) auto
  from r have s: "s = mention_start ty @ (target_id @ rest)" and ne: "target_id \<noteq> []" by auto
  show "match_mention s = Some (ty, target_id, rest)"
    unfolding match_mention_def s using ne w by (cases ty) (simp_all add: strip_prefix_mention)
qed

lemma mention_text_no_at: "CHR ''@'' \<notin> set (tl (mention_start ty @ target_id))"
    if "\<forall>c \<in> set target_id. mention_char c"
  using that at_no_mention_char by (cases ty) (auto simp: mention_start_def)

text \<open>An \<^verbatim>\<open>@\<close> begins a new scan: what is before it can neither swallow it nor need what follows.\<close>

lemma match_mention_before_at:
  assumes "a \<noteq> []"
  shows "match_mention (a @ CHR ''@'' # b) = map_option (\<lambda>(ty, target_id, rest). (ty, target_id, rest @ CHR ''@'' # b)) (match_mention a)"
proof (cases "match_mention a")
  case (Some m)
  obtain ty target_id rest where m: "m = (ty, target_id, rest)" by (rule prod_cases3)
  have "ends_mention (rest @ CHR ''@'' # b)" if "ends_mention rest"
    using that at_no_mention_char by (cases rest) (auto simp: ends_mention_def)
  then have "match_mention (a @ CHR ''@'' # b) = Some (ty, target_id, rest @ CHR ''@'' # b)"
    using Some unfolding m by (simp add: match_mention_iff)
  with Some m show ?thesis by simp
next
  case None
  have "match_mention (a @ CHR ''@'' # b) = None"
  proof (rule ccontr)
    assume "match_mention (a @ CHR ''@'' # b) \<noteq> None"
    then obtain ty target_id rest where m: "match_mention (a @ CHR ''@'' # b) = Some (ty, target_id, rest)" by auto
    then have eq: "a @ CHR ''@'' # b = (mention_start ty @ target_id) @ rest" and ne: "target_id \<noteq> []"
      and cs: "\<forall>c \<in> set target_id. mention_char c" and e: "ends_mention rest" by (auto simp: match_mention_iff)
    from eq obtain us where "a = (mention_start ty @ target_id) @ us \<and> us @ CHR ''@'' # b = rest \<or>
        a @ us = mention_start ty @ target_id \<and> CHR ''@'' # b = us @ rest" unfolding append_eq_append_conv2 by blast
    then show False
    proof
      assume u: "a = (mention_start ty @ target_id) @ us \<and> us @ CHR ''@'' # b = rest"
      then have "ends_mention us" using e by (cases us) (auto simp: ends_mention_def)
      then have "match_mention a = Some (ty, target_id, us)" using u ne cs by (simp add: match_mention_iff)
      with None show False by simp
    next
      assume u: "a @ us = mention_start ty @ target_id \<and> CHR ''@'' # b = us @ rest"
      show False
      proof (cases us)
        case Nil
        then have "match_mention a = Some (ty, target_id, [])" using u ne cs by (simp add: match_mention_iff ends_mention_def)
        with None show False by simp
      next
        case (Cons c us')
        then have "c = CHR ''@''" using u by simp
        moreover have "c \<in> set (tl (mention_start ty @ target_id))"
          using u Cons assms by (metis in_set_conv_decomp tl_append2)
        ultimately show False using mention_text_no_at [OF cs] by simp
      qed
    qed
  qed
  with None show ?thesis by simp
qed

lemma extract_mentions_at: "extract_mentions (a @ CHR ''@'' # b) = extract_mentions a @ extract_mentions (CHR ''@'' # b)"
proof (induction a rule: extract_mentions.induct)
  case (1 a)
  show ?case
  proof (cases a)
    case Nil
    then show ?thesis by (simp add: extract_mentions.simps [of "[]"] match_mention_def mention_start_def)
  next
    case (Cons c cs)
    then have ne: "a \<noteq> []" by simp
    show ?thesis
    proof (cases "match_mention a")
      case None
      then have "extract_mentions (a @ CHR ''@'' # b) = extract_mentions (cs @ CHR ''@'' # b)"
        using match_mention_before_at [OF ne, of b] Cons by (subst extract_mentions.simps) simp
      also have "\<dots> = extract_mentions cs @ extract_mentions (CHR ''@'' # b)" using 1(1) [OF None Cons] .
      also have "extract_mentions cs = extract_mentions a" using None Cons by (subst (2) extract_mentions.simps) simp
      finally show ?thesis using Cons by simp
    next
      case (Some m)
      obtain ty target_id rest where m: "m = (ty, target_id, rest)" by (rule prod_cases3)
      then have "extract_mentions (a @ CHR ''@'' # b) = (ty, target_id) # extract_mentions (rest @ CHR ''@'' # b)"
        using match_mention_before_at [OF ne, of b] Some by (simp add: extract_mentions.simps [of "a @ _"])
      also have "\<dots> = (ty, target_id) # extract_mentions rest @ extract_mentions (CHR ''@'' # b)"
        using 1(2) [OF Some] m by simp
      finally show ?thesis using Some m by (simp add: extract_mentions.simps [of a])
    qed
  qed
qed

lemma extract_mentions_plain: "CHR ''@'' \<notin> set xs \<Longrightarrow> extract_mentions xs = []"
proof (induction xs)
  case Nil
  show ?case by (simp add: extract_mentions.simps [of "[]"] match_mention_def mention_start_def)
next
  case (Cons c cs)
  then have "match_mention (c # cs) = None"
    by (simp add: match_mention_def mention_start_def)
  with Cons show ?case by (simp add: extract_mentions.simps [of "c # cs"])
qed

definition render_mentions :: "pystr \<Rightarrow> (mention_type \<times> pystr \<times> pystr) list \<Rightarrow> pystr" where
  "render_mentions before ms = before @ concat (map (\<lambda>(ty, target_id, after). mention_start ty @ target_id @ after) ms)"

text \<open>
  C35. Written mentions are read back: a text in which each mention is \<^verbatim>\<open>@user:\<close>, \<^verbatim>\<open>@team:\<close> or \<^verbatim>\<open>@firm:\<close> and an
  identifier, followed by text that has no \<^verbatim>\<open>@\<close> and does not continue the identifier, gives exactly
  these mentions, in their order, whatever the text around them is.
\<close>

theorem mentions_roundtrip:
  assumes "CHR ''@'' \<notin> set before"
    and "\<forall>(ty, target_id, after) \<in> set ms. target_id \<noteq> [] \<and> (\<forall>c \<in> set target_id. mention_char c) \<and>
           CHR ''@'' \<notin> set after \<and> (after = [] \<or> \<not> mention_char (hd after))"
  shows "extract_mentions (render_mentions before ms) = map (\<lambda>(ty, target_id, after). (ty, target_id)) ms"
  using assms
proof (induction ms arbitrary: before)
  case Nil
  then show ?case by (simp add: render_mentions_def extract_mentions_plain)
next
  case (Cons m ms)
  obtain ty target_id after where m: "m = (ty, target_id, after)" by (rule prod_cases3)
  let ?rest = "render_mentions after ms"
  have head: "mention_start ty = CHR ''@'' # tl (mention_start ty)" by (simp add: mention_start_def)
  have tail: "ends_mention ?rest"
  proof (cases after)
    case Nil
    then show ?thesis using at_no_mention_char by (cases ms) (auto simp: ends_mention_def render_mentions_def mention_start_def)
  qed (use Cons.prems in \<open>simp add: m ends_mention_def render_mentions_def\<close>)
  have found: "match_mention (mention_start ty @ target_id @ ?rest) = Some (ty, target_id, ?rest)"
    unfolding match_mention_iff using tail Cons.prems(2) by (simp add: m)
  have eq: "render_mentions before (m # ms) = before @ mention_start ty @ target_id @ ?rest"
    by (simp add: m render_mentions_def)
  have "extract_mentions (render_mentions before (m # ms)) = extract_mentions (mention_start ty @ target_id @ ?rest)"
    unfolding eq using Cons.prems(1)
    by (subst (1 2) head) (simp add: extract_mentions_at extract_mentions_plain)
  also have "\<dots> = (ty, target_id) # extract_mentions ?rest"
    by (subst extract_mentions.simps) (simp add: found)
  also have "extract_mentions ?rest = map (\<lambda>(ty, target_id, after). (ty, target_id)) ms"
    by (rule Cons.IH) (use Cons.prems(2) in \<open>simp_all add: m\<close>)
  finally show ?case by (simp add: m)
qed

lemma mentions_roundtrip_witness:
  "extract_mentions ''Voir @user:ann-1, @firm:dupont.'' = [(MT_USER, ''ann-1''), (MT_FIRM, ''dupont'')]"
proof -
  have "extract_mentions (render_mentions ''Voir '' [(MT_USER, ''ann-1'', '', ''), (MT_FIRM, ''dupont'', ''.'')]) =
      [(MT_USER, ''ann-1''), (MT_FIRM, ''dupont'')]"
    by (subst mentions_roundtrip) (simp_all add: mention_char_def is_alnum_def code_def Let_def)
  then show ?thesis by (simp add: render_mentions_def mention_start_def)
qed

end
