(* ===== verification/Sharing.thy ===== *)
theory Sharing
  imports PyText
begin

text \<open>
  What members of a workspace grant each other (\<^verbatim>\<open>collaboration/approvals\<close>, \<^verbatim>\<open>collaboration/sharing\<close>,
  \<^verbatim>\<open>collaboration/presence\<close>): approvals of a target by named approvers, shares with a member and secret
  links for outsiders, and the presence list with its advisory edit locks.
\<close>

section \<open>Approvals\<close>

datatype approval_mode = AM_SINGLE | AM_MULTIPLE

datatype approval_status = AS_PENDING | AS_APPROVED | AS_REJECTED | AS_CHANGES_REQUESTED

fun approval_status_value :: "approval_status \<Rightarrow> pystr" where
  "approval_status_value AS_PENDING = ''pending''"
| "approval_status_value AS_APPROVED = ''approved''"
| "approval_status_value AS_REJECTED = ''rejected''"
| "approval_status_value AS_CHANGES_REQUESTED = ''changes_requested''"

datatype approval_choice = AD_APPROVE | AD_REJECT | AD_REQUEST_CHANGES

fun approval_choice_value :: "approval_choice \<Rightarrow> pystr" where
  "approval_choice_value AD_APPROVE = ''approve''"
| "approval_choice_value AD_REJECT = ''reject''"
| "approval_choice_value AD_REQUEST_CHANGES = ''request_changes''"

record approval_decision =
  av_approver_id :: pystr
  av_decision :: approval_choice
  av_comment :: "pystr option"
  av_decided_at :: datetime

record approval_request =
  ar_id :: pystr
  ar_workspace_id :: pystr
  ar_target_type :: pystr
  ar_target_id :: pystr
  ar_requested_by :: pystr
  ar_approver_ids :: "pystr list"
  ar_mode :: approval_mode
  ar_status :: approval_status
  ar_history :: "approval_decision list"
  ar_created_at :: "datetime option"

type_synonym approval_store = "(pystr, approval_request) dict"

definition approval_get :: "approval_store \<Rightarrow> pystr \<Rightarrow> approval_request option" where
  [store_defs]: "approval_get s approval_id = dict_get s approval_id"

definition approval_save :: "approval_request \<Rightarrow> approval_store \<Rightarrow> approval_store" where
  [store_defs]: "approval_save a s = dict_set (ar_id a) a s"

definition approval_list_for_workspace :: "approval_store \<Rightarrow> pystr \<Rightarrow> approval_request list" where
  "approval_list_for_workspace s workspace_id = filter (\<lambda>a. ar_workspace_id a = workspace_id) (dict_values s)"

definition approval_list_for_target :: "approval_store \<Rightarrow> pystr \<Rightarrow> pystr \<Rightarrow> approval_request list" where
  "approval_list_for_target s target_type target_id =
     filter (\<lambda>a. ar_target_type a = target_type \<and> ar_target_id a = target_id) (dict_values s)"

interpretation approval_rows: keyed_store ar_id approval_save approval_get "keyed ar_id"
  unfolding store_defs by (rule keyed_store_dict)

definition approval_row ::
  "pystr \<Rightarrow> datetime \<Rightarrow> pystr \<Rightarrow> pystr \<Rightarrow> pystr \<Rightarrow> pystr \<Rightarrow> pystr list \<Rightarrow> approval_mode \<Rightarrow> approval_request" where
  "approval_row new_id now workspace_id target_type target_id requested_by approver_ids mode =
     \<lparr>ar_id = new_id, ar_workspace_id = workspace_id, ar_target_type = target_type, ar_target_id = target_id,
      ar_requested_by = requested_by, ar_approver_ids = approver_ids, ar_mode = mode, ar_status = AS_PENDING,
      ar_history = [], ar_created_at = Some now\<rparr>"

definition approval_create ::
  "pystr \<Rightarrow> datetime \<Rightarrow> pystr \<Rightarrow> pystr \<Rightarrow> pystr \<Rightarrow> pystr \<Rightarrow> pystr list \<Rightarrow> approval_mode \<Rightarrow> approval_store
     \<Rightarrow> approval_request \<times> approval_store" where
  "approval_create new_id now workspace_id target_type target_id requested_by approver_ids mode s =
     (let a = approval_row new_id now workspace_id target_type target_id requested_by approver_ids mode
      in (a, approval_save a s))"

definition approval_require :: "approval_store \<Rightarrow> pystr \<Rightarrow> approval_request result" where
  "approval_require s approval_id =
     (case approval_get s approval_id of
        None \<Rightarrow> Inl (ValueError (''Unknown approval request '' @ py_repr approval_id))
      | Some a \<Rightarrow> Inr a)"

definition latest_decisions :: "approval_decision list \<Rightarrow> (pystr, approval_choice) dict" where
  "latest_decisions history = fold (\<lambda>e latest. dict_set (av_approver_id e) (av_decision e) latest) history []"

definition compute_approval_status :: "approval_request \<Rightarrow> approval_status" where
  "compute_approval_status a =
     (let latest = latest_decisions (ar_history a)
      in if \<exists>d \<in> set (dict_values latest). d = AD_REJECT then AS_REJECTED
         else if \<exists>d \<in> set (dict_values latest). d = AD_REQUEST_CHANGES then AS_CHANGES_REQUESTED
         else if ar_mode a = AM_SINGLE then
           (if \<exists>d \<in> set (dict_values latest). d = AD_APPROVE then AS_APPROVED else AS_PENDING)
         else if \<forall>approver \<in> set (ar_approver_ids a). dict_get latest approver = Some AD_APPROVE
         then AS_APPROVED else AS_PENDING)"

definition approval_decided :: "approval_decision \<Rightarrow> approval_request \<Rightarrow> approval_request" where
  "approval_decided d a =
     (let a1 = a\<lparr>ar_history := ar_history a @ [d]\<rparr> in a1\<lparr>ar_status := compute_approval_status a1\<rparr>)"

definition approval_decide ::
  "datetime \<Rightarrow> pystr \<Rightarrow> pystr \<Rightarrow> approval_choice \<Rightarrow> pystr option \<Rightarrow> approval_store
     \<Rightarrow> (approval_request \<times> approval_store) result" where
  "approval_decide now approval_id approver_id decision comment s =
     res_bind (approval_require s approval_id)
       (\<lambda>a. if approver_id \<notin> set (ar_approver_ids a)
            then Inl (ValueError (py_repr approver_id @ '' is not an approver for '' @ py_repr approval_id))
            else (let a' = approval_decided \<lparr>av_approver_id = approver_id, av_decision = decision,
                             av_comment = comment, av_decided_at = now\<rparr> a
                  in Inr (a', approval_save a' s)))"

subsection \<open>The last word of each approver\<close>

definition last_decision :: "approval_decision list \<Rightarrow> pystr \<Rightarrow> approval_choice option" where
  "last_decision history approver =
     map_option av_decision (find (\<lambda>e. av_approver_id e = approver) (rev history))"

lemma last_decision_snoc:
  "last_decision (h @ [e]) approver = (if av_approver_id e = approver then Some (av_decision e) else last_decision h approver)"
  by (simp add: last_decision_def)

lemma latest_decisions_facts:
  "distinct (map fst (latest_decisions h)) \<and> (\<forall>approver. dict_get (latest_decisions h) approver = last_decision h approver)"
proof (induction h rule: rev_induct)
  case (snoc e h)
  then show ?case
    by (auto simp: latest_decisions_def last_decision_snoc update_conv intro: distinct_update)
qed (simp add: latest_decisions_def last_decision_def)

lemma latest_has:
  "(\<exists>d \<in> set (dict_values (latest_decisions h)). d = c) \<longleftrightarrow> (\<exists>approver. last_decision h approver = Some c)"
proof -
  have dist: "distinct (map fst (latest_decisions h))" using latest_decisions_facts by blast
  have "(\<exists>d \<in> set (dict_values (latest_decisions h)). d = c) \<longleftrightarrow> (\<exists>k. (k, c) \<in> set (latest_decisions h))" by force
  also have "\<dots> \<longleftrightarrow> (\<exists>k. dict_get (latest_decisions h) k = Some c)" unfolding map_of_eq_Some_iff [OF dist] ..
  finally show ?thesis using latest_decisions_facts [of h] by simp
qed

text \<open>The verdict of the decisions, as the class comment states it.\<close>

definition approval_verdict :: "approval_request \<Rightarrow> approval_status" where
  "approval_verdict a =
     (let last = last_decision (ar_history a) in
      if ar_history a = [] then AS_PENDING
      else if \<exists>x. last x = Some AD_REJECT then AS_REJECTED
      else if \<exists>x. last x = Some AD_REQUEST_CHANGES then AS_CHANGES_REQUESTED
      else if ar_mode a = AM_MULTIPLE \<and> (\<exists>x \<in> set (ar_approver_ids a). last x = None) then AS_PENDING
      else AS_APPROVED)"

inductive approval_step :: "approval_store \<Rightarrow> approval_store \<Rightarrow> bool" where
  create: "approval_get s new_id = None \<Longrightarrow>
     approval_create new_id now ws target_type target_id requested_by approver_ids mode s = (a, s') \<Longrightarrow> approval_step s s'"
| decide: "approval_decide now approval_id approver_id decision comment s = Inr (a, s') \<Longrightarrow> approval_step s s'"

definition approval_ok :: "approval_request \<Rightarrow> bool" where
  "approval_ok a \<longleftrightarrow> ar_status a = approval_verdict a \<and> (\<forall>e \<in> set (ar_history a). av_approver_id e \<in> set (ar_approver_ids a))"

lemma some_last_decision: "h \<noteq> [] \<Longrightarrow> \<exists>x d. last_decision h x = Some d"
  by (cases h rule: rev_cases) (auto simp: last_decision_snoc)

lemma compute_is_verdict:
  assumes "ar_history a \<noteq> []"
  shows "compute_approval_status a = approval_verdict a"
proof -
  obtain x d where x: "last_decision (ar_history a) x = Some d" using some_last_decision [OF assms] by blast
  have approve: "last_decision (ar_history a) y = Some AD_APPROVE"
    if "\<nexists>z. last_decision (ar_history a) z = Some AD_REJECT" and "\<nexists>z. last_decision (ar_history a) z = Some AD_REQUEST_CHANGES"
      and "last_decision (ar_history a) y \<noteq> None" for y
    using that by (cases "last_decision (ar_history a) y") (metis approval_choice.exhaust option.distinct(1) option.sel)+
  have dict: "dict_get (latest_decisions (ar_history a)) = last_decision (ar_history a)"
    using latest_decisions_facts by blast
  show ?thesis
  proof (cases "(\<exists>z. last_decision (ar_history a) z = Some AD_REJECT) \<or> (\<exists>z. last_decision (ar_history a) z = Some AD_REQUEST_CHANGES)")
    case True
    then show ?thesis
      unfolding compute_approval_status_def approval_verdict_def Let_def dict latest_has using assms by auto
  next
    case False
    with approve have yes: "last_decision (ar_history a) y = Some AD_APPROVE \<longleftrightarrow> last_decision (ar_history a) y \<noteq> None" for y
      by auto
    from False x have "\<exists>z. last_decision (ar_history a) z \<noteq> None" by auto
    with False show ?thesis
      unfolding compute_approval_status_def approval_verdict_def Let_def dict latest_has using assms
      by (cases "ar_mode a") (auto simp: yes)
  qed
qed

lemma approval_reachable_ok:
  "approval_step\<^sup>*\<^sup>* [] s \<Longrightarrow> keyed ar_id s \<and> (\<forall>k a. approval_get s k = Some a \<longrightarrow> approval_ok a)"
proof (induction rule: rtranclp_induct)
  case base
  show ?case by (simp add: approval_get_def)
next
  case (step s s')
  then have wf: "keyed ar_id s" and ok: "approval_get s k = Some a \<Longrightarrow> approval_ok a" for k a by blast+
  from step.hyps(2) show ?case
  proof cases
    case (create new_id now ws target_type target_id requested_by approver_ids mode a)
    then have "s' = approval_save a s" and "approval_ok a"
      by (auto simp: approval_create_def approval_row_def approval_ok_def approval_verdict_def Let_def)
    then show ?thesis using wf ok by (auto simp: approval_rows.get_put intro: approval_rows.wf_put split: if_splits)
  next
    case (decide now approval_id approver_id decision comment a')
    then obtain a where get: "approval_get s approval_id = Some a" and app: "approver_id \<in> set (ar_approver_ids a)"
      and a': "a' = approval_decided \<lparr>av_approver_id = approver_id, av_decision = decision, av_comment = comment,
                     av_decided_at = now\<rparr> a"
      and s': "s' = approval_save a' s"
      by (auto simp: approval_decide_def approval_require_def res_bind_Inr_iff Let_def split: option.splits if_splits)
    have "approval_ok a'"
      using ok [OF get] app compute_is_verdict [of "a\<lparr>ar_history := ar_history a @ [\<lparr>av_approver_id = approver_id,
        av_decision = decision, av_comment = comment, av_decided_at = now\<rparr>]\<rparr>"]
      by (simp add: approval_ok_def a' approval_decided_def Let_def approval_verdict_def)
    then show ?thesis using wf ok s' by (auto simp: approval_rows.get_put intro: approval_rows.wf_put split: if_splits)
  qed
qed

section \<open>Shares and links\<close>

datatype share_permission = SP_READ | SP_COMMENT

record internal_share =
  ih_id :: pystr
  ih_workspace_id :: pystr
  ih_target_type :: pystr
  ih_target_id :: pystr
  ih_shared_with_member_id :: pystr
  ih_permission :: share_permission
  ih_created_by :: pystr
  ih_created_at :: datetime
  ih_revoked_at :: "datetime option"

record share_link =
  sl_id :: pystr
  sl_workspace_id :: pystr
  sl_target_type :: pystr
  sl_target_id :: pystr
  sl_token :: pystr
  sl_permission :: share_permission
  sl_created_by :: pystr
  sl_created_at :: datetime
  sl_expires_at :: "datetime option"
  sl_revoked_at :: "datetime option"

record sharing_store =
  so_shares :: "(pystr, internal_share) dict"
  so_links :: "(pystr, share_link) dict"

definition sharing_store_init :: sharing_store where
  "sharing_store_init = \<lparr>so_shares = [], so_links = []\<rparr>"

definition save_internal_share :: "internal_share \<Rightarrow> sharing_store \<Rightarrow> sharing_store" where
  "save_internal_share h s = s\<lparr>so_shares := dict_set (ih_id h) h (so_shares s)\<rparr>"

definition save_link :: "share_link \<Rightarrow> sharing_store \<Rightarrow> sharing_store" where
  "save_link l s = s\<lparr>so_links := dict_set (sl_token l) l (so_links s)\<rparr>"

definition get_link_by_token :: "sharing_store \<Rightarrow> pystr \<Rightarrow> share_link option" where
  "get_link_by_token s token = dict_get (so_links s) token"

definition shares_for_target :: "sharing_store \<Rightarrow> pystr \<Rightarrow> pystr \<Rightarrow> internal_share list" where
  "shares_for_target s target_type target_id =
     filter (\<lambda>h. ih_target_type h = target_type \<and> ih_target_id h = target_id) (dict_values (so_shares s))"

definition links_for_target :: "sharing_store \<Rightarrow> pystr \<Rightarrow> pystr \<Rightarrow> share_link list" where
  "links_for_target s target_type target_id =
     filter (\<lambda>l. sl_target_type l = target_type \<and> sl_target_id l = target_id) (dict_values (so_links s))"

text \<open>The links, under the token each carries.\<close>

definition links_keyed :: "sharing_store \<Rightarrow> bool" where
  "links_keyed s \<longleftrightarrow> keyed sl_token (so_links s)"

interpretation link_rows: keyed_store sl_token save_link get_link_by_token links_keyed
  by unfold_locales (auto simp: save_link_def get_link_by_token_def links_keyed_def update_conv dest: keyed_get)

definition share_internally ::
  "pystr \<Rightarrow> datetime \<Rightarrow> pystr \<Rightarrow> pystr \<Rightarrow> pystr \<Rightarrow> pystr \<Rightarrow> share_permission \<Rightarrow> pystr \<Rightarrow> sharing_store
     \<Rightarrow> internal_share \<times> sharing_store" where
  "share_internally new_id now workspace_id target_type target_id member_id p created_by s =
     (let h = \<lparr>ih_id = new_id, ih_workspace_id = workspace_id, ih_target_type = target_type, ih_target_id = target_id,
               ih_shared_with_member_id = member_id, ih_permission = p, ih_created_by = created_by,
               ih_created_at = now, ih_revoked_at = None\<rparr>
      in (h, save_internal_share h s))"

definition create_share_link ::
  "pystr \<Rightarrow> pystr \<Rightarrow> datetime \<Rightarrow> pystr \<Rightarrow> pystr \<Rightarrow> pystr \<Rightarrow> share_permission \<Rightarrow> pystr \<Rightarrow> int option \<Rightarrow> sharing_store
     \<Rightarrow> share_link \<times> sharing_store" where
  "create_share_link new_id token now workspace_id target_type target_id p created_by expires_in_seconds s =
     (let l = \<lparr>sl_id = new_id, sl_workspace_id = workspace_id, sl_target_type = target_type, sl_target_id = target_id,
               sl_token = token, sl_permission = p, sl_created_by = created_by, sl_created_at = now,
               sl_expires_at = (case expires_in_seconds of Some n \<Rightarrow> Some (now + seconds n) | None \<Rightarrow> None),
               sl_revoked_at = None\<rparr>
      in (l, save_link l s))"

definition revoke_link :: "datetime \<Rightarrow> pystr \<Rightarrow> sharing_store \<Rightarrow> (share_link \<times> sharing_store) result" where
  "revoke_link now token s =
     (case get_link_by_token s token of
        None \<Rightarrow> Inl (ValueError (''Unknown share link '' @ py_repr token))
      | Some l \<Rightarrow> (let l' = l\<lparr>sl_revoked_at := Some now\<rparr> in Inr (l', save_link l' s)))"

definition resolve_link :: "datetime \<Rightarrow> pystr \<Rightarrow> sharing_store \<Rightarrow> share_link option" where
  "resolve_link now token s =
     (case get_link_by_token s token of
        None \<Rightarrow> None
      | Some l \<Rightarrow>
          if sl_revoked_at l \<noteq> None then None
          else (case sl_expires_at l of
                  Some e \<Rightarrow> if e < now then None else Some l
                | None \<Rightarrow> Some l))"

text \<open>The operations, as steps of the store; a new token is one no link has.\<close>

inductive sharing_step :: "sharing_store \<Rightarrow> sharing_store \<Rightarrow> bool" where
  share: "share_internally new_id now ws target_type target_id member_id p created_by s = (h, s') \<Longrightarrow> sharing_step s s'"
| create: "get_link_by_token s token = None \<Longrightarrow>
     create_share_link new_id token now ws target_type target_id p created_by expires_in s = (l, s') \<Longrightarrow> sharing_step s s'"
| revoke: "revoke_link now token s = Inr (l, s') \<Longrightarrow> sharing_step s s'"

text \<open>Nothing but the date of revocation of a link ever changes, and that is never cleared.\<close>

definition link_follows :: "share_link \<Rightarrow> share_link \<Rightarrow> bool" where
  "link_follows l l' \<longleftrightarrow> l' = l\<lparr>sl_revoked_at := sl_revoked_at l'\<rparr> \<and> (sl_revoked_at l \<noteq> None \<longrightarrow> sl_revoked_at l' \<noteq> None)"

lemma link_follows_refl: "link_follows l l"
  by (simp add: link_follows_def)

lemma link_follows_trans: "link_follows l l' \<Longrightarrow> link_follows l' l'' \<Longrightarrow> link_follows l l''"
  unfolding link_follows_def by (cases l; cases l'; cases l'') auto

lemma sharing_step_links:
  assumes "sharing_step s s'" and wf: "links_keyed s"
  shows "links_keyed s' \<and> (\<forall>token l. get_link_by_token s token = Some l \<longrightarrow>
     (\<exists>l'. get_link_by_token s' token = Some l' \<and> link_follows l l'))"
  using assms(1)
proof cases
  case (share new_id now ws target_type target_id member_id p created_by h)
  then show ?thesis using wf
    by (auto simp: share_internally_def save_internal_share_def get_link_by_token_def links_keyed_def Let_def intro: link_follows_refl)
next
  case (create token new_id now ws target_type target_id p created_by expires_in l)
  then have s': "s' = save_link l s" and t: "sl_token l = token" by (auto simp: create_share_link_def Let_def)
  show ?thesis unfolding s' using wf create(1) t
    by (auto simp: link_rows.get_put intro: link_rows.wf_put link_follows_refl)
next
  case (revoke now token l)
  then obtain l0 where get: "get_link_by_token s token = Some l0" and s': "s' = save_link (l0\<lparr>sl_revoked_at := Some now\<rparr>) s"
    by (auto simp: revoke_link_def Let_def split: option.splits)
  have t: "sl_token l0 = token" using wf get by (rule link_rows.get_key)
  have f: "link_follows l0 (l0\<lparr>sl_revoked_at := Some now\<rparr>)" by (simp add: link_follows_def)
  show ?thesis unfolding s' using wf get t f
    by (auto simp: link_rows.get_put intro: link_rows.wf_put link_follows_refl)
qed

lemma sharing_steps_links:
  assumes "sharing_step\<^sup>*\<^sup>* s s'" and "links_keyed s"
  shows "links_keyed s' \<and> (\<forall>token l. get_link_by_token s token = Some l \<longrightarrow>
     (\<exists>l'. get_link_by_token s' token = Some l' \<and> link_follows l l'))"
  using assms
proof (induction rule: rtranclp_induct)
  case (step t u)
  then show ?case using sharing_step_links [OF step.hyps(2)] by (meson link_follows_trans)
qed (auto intro: link_follows_refl)

section \<open>Presence\<close>

datatype presence_status = PR_ONLINE | PR_IDLE | PR_OFFLINE

record presence_info =
  pi_workspace_id :: pystr
  pi_member_id :: pystr
  pi_status :: presence_status
  pi_target_type :: "pystr option"
  pi_target_id :: "pystr option"
  pi_last_seen_at :: datetime

type_synonym presence_tracker = "(pystr \<times> pystr, presence_info) dict"

definition heartbeat ::
  "datetime \<Rightarrow> pystr \<Rightarrow> pystr \<Rightarrow> presence_status \<Rightarrow> pystr option \<Rightarrow> pystr option \<Rightarrow> presence_tracker
     \<Rightarrow> presence_info \<times> presence_tracker" where
  "heartbeat now workspace_id member_id status target_type target_id s =
     (let info = \<lparr>pi_workspace_id = workspace_id, pi_member_id = member_id, pi_status = status,
                  pi_target_type = target_type, pi_target_id = target_id, pi_last_seen_at = now\<rparr>
      in (info, dict_set (workspace_id, member_id) info s))"

definition list_online :: "presence_tracker \<Rightarrow> pystr \<Rightarrow> presence_info list" where
  "list_online s workspace_id =
     filter (\<lambda>i. pi_workspace_id i = workspace_id \<and> pi_status i = PR_ONLINE) (dict_values s)"

definition viewers :: "presence_tracker \<Rightarrow> pystr \<Rightarrow> pystr \<Rightarrow> presence_info list" where
  "viewers s target_type target_id =
     filter (\<lambda>i. pi_target_type i = Some target_type \<and> pi_target_id i = Some target_id \<and> pi_status i \<noteq> PR_OFFLINE)
       (dict_values s)"

section \<open>Edit locks\<close>

record edit_lock =
  ol_target_type :: pystr
  ol_target_id :: pystr
  ol_locked_by :: pystr
  ol_acquired_at :: datetime
  ol_expires_at :: "datetime option"

type_synonym lock_table = "(pystr \<times> pystr, edit_lock) dict"

definition lock_live :: "datetime \<Rightarrow> edit_lock \<Rightarrow> bool" where
  "lock_live now l \<longleftrightarrow> (case ol_expires_at l of None \<Rightarrow> True | Some e \<Rightarrow> \<not> e < now)"

text \<open>\<open>current\<close> drops a lock it finds expired.\<close>

definition lock_current :: "datetime \<Rightarrow> pystr \<Rightarrow> pystr \<Rightarrow> lock_table \<Rightarrow> edit_lock option \<times> lock_table" where
  "lock_current now target_type target_id s =
     (case dict_get s (target_type, target_id) of
        None \<Rightarrow> (None, s)
      | Some l \<Rightarrow> if \<not> lock_live now l then (None, dict_pop (target_type, target_id) s) else (Some l, s))"

definition lock_acquire ::
  "datetime \<Rightarrow> datetime \<Rightarrow> pystr \<Rightarrow> pystr \<Rightarrow> pystr \<Rightarrow> int option \<Rightarrow> lock_table \<Rightarrow> edit_lock result \<times> lock_table" where
  "lock_acquire now now2 target_type target_id member_id ttl_seconds s =
     (let (existing, s1) = lock_current now target_type target_id s in
      case existing of
        Some l \<Rightarrow>
          if ol_locked_by l \<noteq> member_id
          then (Inl (ValueError (target_type @ '':'' @ target_id @ '' is already locked by '' @ py_repr (ol_locked_by l))), s1)
          else (let l' = \<lparr>ol_target_type = target_type, ol_target_id = target_id, ol_locked_by = member_id,
                          ol_acquired_at = now2,
                          ol_expires_at = (case ttl_seconds of Some n \<Rightarrow> Some (now2 + seconds n) | None \<Rightarrow> None)\<rparr>
                in (Inr l', dict_set (target_type, target_id) l' s1))
      | None \<Rightarrow>
          (let l' = \<lparr>ol_target_type = target_type, ol_target_id = target_id, ol_locked_by = member_id,
                     ol_acquired_at = now2,
                     ol_expires_at = (case ttl_seconds of Some n \<Rightarrow> Some (now2 + seconds n) | None \<Rightarrow> None)\<rparr>
           in (Inr l', dict_set (target_type, target_id) l' s1)))"

definition lock_release :: "pystr \<Rightarrow> pystr \<Rightarrow> pystr \<Rightarrow> lock_table \<Rightarrow> unit result \<times> lock_table" where
  "lock_release target_type target_id member_id s =
     (case dict_get s (target_type, target_id) of
        None \<Rightarrow> (Inr (), s)
      | Some l \<Rightarrow>
          if ol_locked_by l \<noteq> member_id
          then (Inl (ValueError (target_type @ '':'' @ target_id @ '' is locked by '' @ py_repr (ol_locked_by l) @
                                 '', not '' @ py_repr member_id)), s)
          else (Inr (), dict_pop (target_type, target_id) s))"

text \<open>The calls of the service; the table after a run of them.\<close>

datatype lock_call =
    Call_acquire datetime datetime pystr pystr pystr "int option"
  | Call_release pystr pystr pystr
  | Call_current datetime pystr pystr

fun run_lock_call :: "lock_call \<Rightarrow> lock_table \<Rightarrow> lock_table" where
  "run_lock_call (Call_acquire now now2 ty i who ttl) s = snd (lock_acquire now now2 ty i who ttl s)"
| "run_lock_call (Call_release ty i who) s = snd (lock_release ty i who s)"
| "run_lock_call (Call_current now ty i) s = snd (lock_current now ty i s)"

text \<open>A call that leaves a lock on the target alone: not the owner's, not after the expiry.\<close>

fun call_by_other :: "pystr \<times> pystr \<Rightarrow> edit_lock \<Rightarrow> lock_call \<Rightarrow> bool" where
  "call_by_other k l (Call_acquire now now2 ty i who ttl) = ((ty, i) = k \<longrightarrow> who \<noteq> ol_locked_by l \<and> lock_live now l)"
| "call_by_other k l (Call_release ty i who) = ((ty, i) = k \<longrightarrow> who \<noteq> ol_locked_by l)"
| "call_by_other k l (Call_current now ty i) = ((ty, i) = k \<longrightarrow> lock_live now l)"

lemma lock_call_other:
  assumes "dict_get s k = Some l" and "call_by_other k l c"
  shows "dict_get (run_lock_call c s) k = Some l"
  using assms
  by (cases c) (auto simp: lock_acquire_def lock_current_def lock_release_def Let_def update_conv delete_conv'
    split: option.splits if_splits)

lemma lock_calls_other:
  "dict_get s k = Some l \<Longrightarrow> \<forall>c \<in> set cs. call_by_other k l c \<Longrightarrow> dict_get (fold run_lock_call cs s) k = Some l"
  by (induction cs arbitrary: s) (auto simp: lock_call_other)

section \<open>Properties\<close>

text \<open>
  C24. Approvals: after any requests and decisions the status of an approval is the verdict of its
  decisions - pending before the first one, rejected as soon as the last word of some approver is a
  rejection, otherwise changes requested as soon as one last asked for them, otherwise pending only
  while a multiple approval lacks an approver, otherwise approved - and every decision is by one of
  its approvers. Deciding is possible in every status, exactly for them: it appends the decision,
  recomputes the verdict and touches no other approval.
\<close>

theorem approvals_exact:
  assumes "approval_step\<^sup>*\<^sup>* [] s" and "approval_get s approval_id = Some a"
  shows "ar_status a = approval_verdict a \<and> (\<forall>e \<in> set (ar_history a). av_approver_id e \<in> set (ar_approver_ids a)) \<and>
     (if approver_id \<in> set (ar_approver_ids a) then
        \<exists>a' s'. approval_decide now approval_id approver_id decision comment s = Inr (a', s') \<and>
          ar_history a' = ar_history a @ [\<lparr>av_approver_id = approver_id, av_decision = decision, av_comment = comment,
                                           av_decided_at = now\<rparr>] \<and>
          a' = a\<lparr>ar_history := ar_history a', ar_status := approval_verdict a'\<rparr> \<and>
          (\<forall>k. approval_get s' k = (if k = approval_id then Some a' else approval_get s k))
      else approval_decide now approval_id approver_id decision comment s =
        Inl (ValueError (py_repr approver_id @ '' is not an approver for '' @ py_repr approval_id)))"
proof -
  have wf: "keyed ar_id s" and ok: "approval_ok a" using approval_reachable_ok [OF assms(1)] assms(2) by blast+
  have id: "ar_id a = approval_id" using wf assms(2) by (rule approval_rows.get_key)
  let ?d = "\<lparr>av_approver_id = approver_id, av_decision = decision, av_comment = comment, av_decided_at = now\<rparr>"
  let ?a1 = "a\<lparr>ar_history := ar_history a @ [?d]\<rparr>"
  have v: "compute_approval_status ?a1 = approval_verdict ?a1" by (rule compute_is_verdict) simp
  have v': "approval_verdict (approval_decided ?d a) = approval_verdict ?a1"
    by (simp add: approval_decided_def approval_verdict_def Let_def)
  have h: "ar_history (approval_decided ?d a) = ar_history a @ [?d]" by (simp add: approval_decided_def Let_def)
  have eq: "approval_decided ?d a =
      a\<lparr>ar_history := ar_history (approval_decided ?d a), ar_status := approval_verdict (approval_decided ?d a)\<rparr>"
    unfolding v' h by (simp add: approval_decided_def Let_def v)
  have get: "approval_get (approval_save (approval_decided ?d a) s) k =
      (if k = approval_id then Some (approval_decided ?d a) else approval_get s k)" for k
    using id by (simp add: approval_rows.get_put approval_decided_def Let_def)
  have "\<exists>a' s'. approval_decide now approval_id approver_id decision comment s = Inr (a', s') \<and>
          ar_history a' = ar_history a @ [?d] \<and>
          a' = a\<lparr>ar_history := ar_history a', ar_status := approval_verdict a'\<rparr> \<and>
          (\<forall>k. approval_get s' k = (if k = approval_id then Some a' else approval_get s k))"
    if "approver_id \<in> set (ar_approver_ids a)"
    by (intro exI [of _ "approval_decided ?d a"] exI [of _ "approval_save (approval_decided ?d a) s"] conjI allI)
      (use that assms(2) h eq get in \<open>simp_all add: approval_decide_def approval_require_def Let_def\<close>)
  moreover have "approval_decide now approval_id approver_id decision comment s =
        Inl (ValueError (py_repr approver_id @ '' is not an approver for '' @ py_repr approval_id))"
    if "approver_id \<notin> set (ar_approver_ids a)"
    using that assms(2) by (simp add: approval_decide_def approval_require_def)
  ultimately show ?thesis using ok unfolding approval_ok_def by presburger
qed

lemma approvals_exact_witness:
  "let s = snd (approval_create ''a1'' 5 ''w1'' ''task'' ''t1'' ''ann'' [''bob''] AM_SINGLE []) in
   \<exists>a' s'. approval_decide 9 ''a1'' ''bob'' AD_REJECT None s = Inr (a', s') \<and> ar_status a' = AS_REJECTED"
proof -
  let ?a = "approval_row ''a1'' 5 ''w1'' ''task'' ''t1'' ''ann'' [''bob''] AM_SINGLE"
  let ?s = "snd (approval_create ''a1'' 5 ''w1'' ''task'' ''t1'' ''ann'' [''bob''] AM_SINGLE [])"
  have "approval_step [] ?s"
    by (rule approval_step.create [where new_id = "''a1''", OF _ surjective_pairing]) (simp add: approval_get_def)
  then have r: "approval_step\<^sup>*\<^sup>* [] ?s" by blast
  have get: "approval_get ?s ''a1'' = Some ?a" by (simp add: approval_create_def approval_row_def store_defs Let_def)
  obtain a' s' where d: "approval_decide 9 ''a1'' ''bob'' AD_REJECT None ?s = Inr (a', s')"
      and h: "ar_history a' = ar_history ?a @ [\<lparr>av_approver_id = ''bob'', av_decision = AD_REJECT, av_comment = None, av_decided_at = 9\<rparr>]"
      and a': "a' = ?a\<lparr>ar_history := ar_history a', ar_status := approval_verdict a'\<rparr>"
    using approvals_exact [OF r get, of "''bob''" 9 AD_REJECT None] by (auto simp: approval_row_def)
  have "last_decision (ar_history a') ''bob'' = Some AD_REJECT" unfolding h by (simp add: last_decision_snoc)
  then have "approval_verdict a' = AS_REJECTED" using h by (auto simp: approval_verdict_def Let_def)
  then have "ar_status a' = AS_REJECTED" by (subst a') simp
  with d show ?thesis by (simp add: Let_def)
qed

text \<open>
  C25. Links: a link resolves exactly while it carries no date of revocation and its expiry, where it
  has one, has not passed, and then to the link as it was created. Once revoked, or once its expiry
  has passed, its token never resolves again, at whatever later time and whatever was shared,
  created or revoked in between, and whatever still resolves is the link unchanged.
\<close>

theorem dead_links_stay_dead:
  assumes "links_keyed s" and "get_link_by_token s token = Some l" and "sharing_step\<^sup>*\<^sup>* s s'" and "t \<le> t'"
  shows "resolve_link t token s =
       (if sl_revoked_at l = None \<and> (\<forall>e. sl_expires_at l = Some e \<longrightarrow> t \<le> e) then Some l else None) \<and>
     (sl_revoked_at l \<noteq> None \<or> (\<exists>e. sl_expires_at l = Some e \<and> e < t) \<longrightarrow> resolve_link t' token s' = None) \<and>
     (resolve_link t' token s' \<noteq> None \<longrightarrow> resolve_link t' token s' = Some l) \<and>
     (\<exists>l' s''. revoke_link t token s = Inr (l', s'') \<and>
        (\<forall>s3. sharing_step\<^sup>*\<^sup>* s'' s3 \<longrightarrow> resolve_link t' token s3 = None))"
proof (intro conjI impI)
  obtain l' where get': "get_link_by_token s' token = Some l'" and f: "link_follows l l'"
    using sharing_steps_links [OF assms(3,1)] assms(2) by blast
  have same: "l' = l" if "sl_revoked_at l' = None"
    using f that unfolding link_follows_def by (cases l; cases l'; auto)
  have exp: "sl_expires_at l' = sl_expires_at l"
    using f unfolding link_follows_def by (cases l; cases l') auto
  show "resolve_link t token s =
       (if sl_revoked_at l = None \<and> (\<forall>e. sl_expires_at l = Some e \<longrightarrow> t \<le> e) then Some l else None)"
    using assms(2) by (auto simp: resolve_link_def split: option.splits)
  show "resolve_link t' token s' = None" if "sl_revoked_at l \<noteq> None \<or> (\<exists>e. sl_expires_at l = Some e \<and> e < t)"
    using that f assms(4) by (auto simp: resolve_link_def get' exp link_follows_def)
  show "resolve_link t' token s' = Some l" if "resolve_link t' token s' \<noteq> None"
  proof -
    have "sl_revoked_at l' = None" using that by (auto simp: resolve_link_def get' split: if_splits)
    from same [OF this] show ?thesis using that get' by (auto simp: resolve_link_def split: option.splits if_splits)
  qed
  let ?l = "l\<lparr>sl_revoked_at := Some t\<rparr>"
  have tok: "sl_token l = token" using assms(1,2) by (rule link_rows.get_key)
  have rev: "revoke_link t token s = Inr (?l, save_link ?l s)" using assms(2) by (simp add: revoke_link_def Let_def)
  have "resolve_link t' token s3 = None" if steps: "sharing_step\<^sup>*\<^sup>* (save_link ?l s) s3" for s3
  proof -
    have "get_link_by_token (save_link ?l s) token = Some ?l" using tok by (simp add: link_rows.get_put)
    then obtain l3 where "get_link_by_token s3 token = Some l3" and "link_follows ?l l3"
      using sharing_steps_links [OF steps link_rows.wf_put [OF assms(1)]] by blast
    then show ?thesis by (auto simp: resolve_link_def link_follows_def)
  qed
  with rev show "\<exists>l' s''. revoke_link t token s = Inr (l', s'') \<and>
      (\<forall>s3. sharing_step\<^sup>*\<^sup>* s'' s3 \<longrightarrow> resolve_link t' token s3 = None)" by blast
qed

lemma dead_links_stay_dead_witness:
  "let s = snd (create_share_link ''l1'' ''tok'' 0 ''w1'' ''document'' ''d1'' SP_READ ''ann'' (Some 60) sharing_store_init) in
   resolve_link (seconds 60) ''tok'' s \<noteq> None \<and> resolve_link (seconds 61) ''tok'' s = None \<and>
   (\<exists>l' s''. revoke_link 5 ''tok'' s = Inr (l', s'') \<and> resolve_link 6 ''tok'' s'' = None)"
proof -
  let ?s = "snd (create_share_link ''l1'' ''tok'' 0 ''w1'' ''document'' ''d1'' SP_READ ''ann'' (Some 60) sharing_store_init)"
  have "\<exists>l. get_link_by_token ?s ''tok'' = Some l \<and> sl_expires_at l = Some (seconds 60) \<and> sl_revoked_at l = None"
    by (simp add: create_share_link_def sharing_store_init_def save_link_def get_link_by_token_def Let_def)
  then obtain l where get: "get_link_by_token ?s ''tok'' = Some l" and e: "sl_expires_at l = Some (seconds 60)"
    and r: "sl_revoked_at l = None" by blast
  have k: "links_keyed ?s"
    by (simp add: create_share_link_def sharing_store_init_def save_link_def links_keyed_def keyed_def Let_def)
  have now: "resolve_link t ''tok'' ?s = (if t \<le> seconds 60 then Some l else None)" for t
    using conjunct1 [OF dead_links_stay_dead [OF k get rtranclp.rtrancl_refl order_refl, of t]] by (simp add: e r)
  have "\<exists>l' s''. revoke_link 5 ''tok'' ?s = Inr (l', s'') \<and> resolve_link 6 ''tok'' s'' = None"
    using dead_links_stay_dead [OF k get rtranclp.rtrancl_refl, of 5 6] by (meson numeral_le_iff rtranclp.rtrancl_refl semiring_norm)
  then show ?thesis unfolding Let_def now by simp
qed

text \<open>
  Edit locks: while a lock is live, whatever the calls of the other members on any target, it stays
  exactly as it was acquired, each attempt of another member to acquire or to release it raises, and
  its holder can release it, after which anyone can acquire the target.
\<close>

theorem lock_excludes_others:
  assumes "dict_get s (ty, i) = Some l" and "\<forall>c \<in> set cs. call_by_other (ty, i) l c" and "lock_live now l"
    and "who \<noteq> ol_locked_by l"
  shows "let s' = fold run_lock_call cs s in
     fst (lock_current now ty i s') = Some l \<and>
     fst (lock_acquire now now2 ty i who ttl s') =
       Inl (ValueError (ty @ '':'' @ i @ '' is already locked by '' @ py_repr (ol_locked_by l))) \<and>
     (\<exists>msg. lock_release ty i who s' = (Inl (ValueError msg), s')) \<and>
     (\<exists>s''. lock_release ty i (ol_locked_by l) s' = (Inr (), s'') \<and>
        (\<exists>l'. fst (lock_acquire now now2 ty i who ttl s'') = Inr l' \<and> ol_locked_by l' = who))"
  using lock_calls_other [OF assms(1,2)] assms(3,4)
  by (simp add: Let_def lock_current_def lock_acquire_def lock_release_def delete_conv')

lemma lock_excludes_others_witness:
  "let s = snd (lock_acquire 0 0 ''document'' ''d1'' ''ann'' (Some 30) []) in
   \<exists>msg. fst (lock_acquire (seconds 30) (seconds 30) ''document'' ''d1'' ''bob'' None (fold run_lock_call
            [Call_acquire (seconds 1) (seconds 1) ''document'' ''d1'' ''bob'' (Some 5), Call_release ''document'' ''d1'' ''bob''] s))
          = Inl (ValueError msg)"
proof -
  let ?l = "\<lparr>ol_target_type = ''document'', ol_target_id = ''d1'', ol_locked_by = ''ann'', ol_acquired_at = 0,
      ol_expires_at = Some (seconds 30)\<rparr>"
  let ?s = "snd (lock_acquire 0 0 ''document'' ''d1'' ''ann'' (Some 30) [])"
  have get: "dict_get ?s (''document'', ''d1'') = Some ?l" by (simp add: lock_acquire_def lock_current_def Let_def)
  show ?thesis
    using lock_excludes_others [OF get, of "[Call_acquire (seconds 1) (seconds 1) ''document'' ''d1'' ''bob'' (Some 5),
        Call_release ''document'' ''d1'' ''bob'']" "seconds 30" "''bob''" "seconds 30" None]
    by (auto simp: Let_def lock_live_def)
qed

end
