(* ===== verification/Feeds.thy ===== *)
theory Feeds
  imports Collaboration Sharing "HOL-Library.Multiset"
begin

text \<open>
  What a workspace remembers of itself: the activity feed (\<^verbatim>\<open>collaboration/activity\<close>), the audit trail
  (\<^verbatim>\<open>collaboration/audit\<close>), the timeline read from the feed (\<^verbatim>\<open>collaboration/timeline\<close>) and the counts of
  \<^verbatim>\<open>collaboration/evaluation\<close>.
\<close>

section \<open>The activity feed\<close>

datatype activity_type =
    AT_IMPORT | AT_MODIFICATION | AT_COMMENT | AT_APPROVAL | AT_TASK | AT_AI_RESEARCH | AT_AI_GENERATION
  | AT_MEMBER | AT_WORKSPACE | AT_SHARING

record activity_entry =
  af_id :: pystr
  af_workspace_id :: pystr
  af_actor_id :: pystr
  af_activity_type :: activity_type
  af_target_type :: pystr
  af_target_id :: pystr
  af_summary :: pystr
  af_occurred_at :: datetime
  af_metadata :: "(pystr, pystr) dict"

type_synonym activity_store = "activity_entry list"

definition activity_save :: "activity_entry \<Rightarrow> activity_store \<Rightarrow> activity_store" where
  [store_defs]: "activity_save e s = s @ [e]"

definition activity_list_for_workspace :: "activity_store \<Rightarrow> pystr \<Rightarrow> activity_entry list" where
  [store_defs]: "activity_list_for_workspace s workspace_id = filter (\<lambda>e. af_workspace_id e = workspace_id) s"

interpretation activity_log: journal activity_save id af_workspace_id activity_list_for_workspace
  by unfold_locales (simp_all add: store_defs)

definition activity_record ::
  "pystr \<Rightarrow> datetime \<Rightarrow> pystr \<Rightarrow> pystr \<Rightarrow> activity_type \<Rightarrow> pystr \<Rightarrow> pystr \<Rightarrow> pystr \<Rightarrow> (pystr, pystr) dict option
     \<Rightarrow> activity_store \<Rightarrow> activity_entry \<times> activity_store" where
  "activity_record new_id now workspace_id actor_id ty target_type target_id summary metadata s =
     (let e = \<lparr>af_id = new_id, af_workspace_id = workspace_id, af_actor_id = actor_id, af_activity_type = ty,
               af_target_type = target_type, af_target_id = target_id, af_summary = summary, af_occurred_at = now,
               af_metadata = (case metadata of None \<Rightarrow> [] | Some m \<Rightarrow> m)\<rparr>
      in (e, activity_save e s))"

definition keep_if :: "'b option \<Rightarrow> ('b \<Rightarrow> 'a \<Rightarrow> bool) \<Rightarrow> 'a list \<Rightarrow> 'a list" where
  "keep_if b p xs = (case b of None \<Rightarrow> xs | Some v \<Rightarrow> filter (p v) xs)"

definition activity_query ::
  "pystr \<Rightarrow> activity_type option \<Rightarrow> pystr option \<Rightarrow> pystr option \<Rightarrow> pystr option \<Rightarrow> datetime option \<Rightarrow> datetime option
     \<Rightarrow> activity_store \<Rightarrow> activity_entry list" where
  "activity_query workspace_id ty actor_id target_type target_id since until s =
     (let entries0 = activity_list_for_workspace s workspace_id;
          entries1 = keep_if ty (\<lambda>v e. af_activity_type e = v) entries0;
          entries2 = keep_if actor_id (\<lambda>v e. af_actor_id e = v) entries1;
          entries3 = keep_if target_type (\<lambda>v e. af_target_type e = v) entries2;
          entries4 = keep_if target_id (\<lambda>v e. af_target_id e = v) entries3;
          entries5 = keep_if since (\<lambda>v e. v \<le> af_occurred_at e) entries4;
          entries6 = keep_if until (\<lambda>v e. af_occurred_at e \<le> v) entries5
      in sort_key af_occurred_at entries6)"

definition activity_list_for_target :: "pystr \<Rightarrow> pystr \<Rightarrow> activity_store \<Rightarrow> activity_entry list" where
  "activity_list_for_target target_type target_id s =
     sort_key af_occurred_at (filter (\<lambda>e. af_target_type e = target_type \<and> af_target_id e = target_id) s)"

section \<open>The timeline\<close>

record timeline_entry =
  tl_activity_type :: activity_type
  tl_actor_id :: pystr
  tl_summary :: pystr
  tl_occurred_at :: datetime

definition timeline_entry_of :: "activity_entry \<Rightarrow> timeline_entry" where
  "timeline_entry_of e = \<lparr>tl_activity_type = af_activity_type e, tl_actor_id = af_actor_id e,
     tl_summary = af_summary e, tl_occurred_at = af_occurred_at e\<rparr>"

definition timeline_for_target :: "pystr \<Rightarrow> pystr \<Rightarrow> activity_store \<Rightarrow> timeline_entry list" where
  "timeline_for_target target_type target_id s = map timeline_entry_of (activity_list_for_target target_type target_id s)"

definition timeline_for_workspace :: "pystr \<Rightarrow> activity_store \<Rightarrow> timeline_entry list" where
  "timeline_for_workspace workspace_id s =
     map timeline_entry_of (activity_query workspace_id None None None None None None s)"

section \<open>The audit trail\<close>

record trail_entry =
  te_id :: pystr
  te_workspace_id :: pystr
  te_actor_id :: pystr
  te_action :: pystr
  te_target_type :: pystr
  te_target_id :: pystr
  te_ip_address :: "pystr option"
  te_old_state :: "(pystr, pystr) dict option"
  te_new_state :: "(pystr, pystr) dict option"
  te_occurred_at :: datetime
  te_metadata :: "(pystr, pystr) dict"

type_synonym trail_store = "trail_entry list"

definition trail_save :: "trail_entry \<Rightarrow> trail_store \<Rightarrow> trail_store" where
  [store_defs]: "trail_save e s = s @ [e]"

definition trail_list_for_workspace :: "trail_store \<Rightarrow> pystr \<Rightarrow> trail_entry list" where
  [store_defs]: "trail_list_for_workspace s workspace_id = filter (\<lambda>e. te_workspace_id e = workspace_id) s"

definition trail_list_for_target :: "trail_store \<Rightarrow> pystr \<Rightarrow> pystr \<Rightarrow> trail_entry list" where
  "trail_list_for_target s target_type target_id =
     filter (\<lambda>e. te_target_type e = target_type \<and> te_target_id e = target_id) s"

interpretation trail_log: journal trail_save id te_workspace_id trail_list_for_workspace
  by unfold_locales (simp_all add: store_defs)

text \<open>An empty state is falsy: it is recorded as no state.\<close>

definition state_or_none :: "(pystr, pystr) dict option \<Rightarrow> (pystr, pystr) dict option" where
  "state_or_none st = (case st of None \<Rightarrow> None | Some d \<Rightarrow> if d = [] then None else Some d)"

definition trail_record ::
  "pystr \<Rightarrow> datetime \<Rightarrow> pystr \<Rightarrow> pystr \<Rightarrow> pystr \<Rightarrow> pystr \<Rightarrow> pystr \<Rightarrow> (pystr, pystr) dict option
     \<Rightarrow> (pystr, pystr) dict option \<Rightarrow> pystr option \<Rightarrow> (pystr, pystr) dict option \<Rightarrow> trail_store
     \<Rightarrow> trail_entry \<times> trail_store" where
  "trail_record new_id now workspace_id actor_id action target_type target_id old_state new_state ip_address metadata s =
     (let e = \<lparr>te_id = new_id, te_workspace_id = workspace_id, te_actor_id = actor_id, te_action = action,
               te_target_type = target_type, te_target_id = target_id, te_ip_address = ip_address,
               te_old_state = state_or_none old_state, te_new_state = state_or_none new_state, te_occurred_at = now,
               te_metadata = (case metadata of None \<Rightarrow> [] | Some m \<Rightarrow> m)\<rparr>
      in (e, trail_save e s))"

section \<open>Metrics\<close>

record workspace_metrics =
  wm_workspace_id :: pystr
  wm_member_count :: nat
  wm_active_member_count :: nat
  wm_task_count :: nat
  wm_validated_task_count :: nat
  wm_comment_count :: nat
  wm_approval_count :: nat
  wm_pending_approval_count :: nat
  wm_notification_count :: nat
  wm_computed_at :: datetime

definition metrics_snapshot ::
  "datetime \<Rightarrow> member_store \<Rightarrow> task_store \<Rightarrow> comment_store \<Rightarrow> approval_store \<Rightarrow> notification_engine \<Rightarrow> pystr
     \<Rightarrow> workspace_metrics" where
  "metrics_snapshot now members tasks comments approvals notifications workspace_id =
     (let ms = member_list_for_workspace members workspace_id;
          ts = task_list_for_workspace tasks workspace_id;
          cs = comment_list_for_workspace comments workspace_id;
          aps = approval_list_for_workspace approvals workspace_id;
          ns = list_for_workspace workspace_id notifications
      in \<lparr>wm_workspace_id = workspace_id, wm_member_count = length ms,
          wm_active_member_count = length (filter (\<lambda>m. mb_status m = MB_ACTIVE) ms),
          wm_task_count = length ts,
          wm_validated_task_count = length (filter (\<lambda>t. tk_status t = TK_VALIDATED) ts),
          wm_comment_count = length cs, wm_approval_count = length aps,
          wm_pending_approval_count = length (filter (\<lambda>a. ar_status a = AS_PENDING) aps),
          wm_notification_count = length ns, wm_computed_at = now\<rparr>)"

section \<open>Reading the journals\<close>

lemma keep_if_filter: "keep_if b p xs = filter (\<lambda>x. case b of None \<Rightarrow> True | Some v \<Rightarrow> p v x) xs"
  by (cases b) (simp_all add: keep_if_def)

text \<open>
  A query of the feed returns exactly the entries of the workspace that satisfy every criterion given,
  each as often as it was recorded, in order of time and those of one instant in the order they were
  recorded; the timeline of the workspace shows all of them in the same order.
\<close>

theorem activity_query_exact:
  "let q = activity_query ws ty actor target_type target_id since until s;
       P = (\<lambda>e. af_workspace_id e = ws \<and> (ty = None \<or> ty = Some (af_activity_type e)) \<and>
              (actor = None \<or> actor = Some (af_actor_id e)) \<and> (target_type = None \<or> target_type = Some (af_target_type e)) \<and>
              (target_id = None \<or> target_id = Some (af_target_id e)) \<and>
              \<not> (\<exists>t. since = Some t \<and> af_occurred_at e < t) \<and> \<not> (\<exists>t. until = Some t \<and> t < af_occurred_at e))
   in sorted (map af_occurred_at q) \<and> mset q = mset (filter P s) \<and>
      filter (\<lambda>e. af_occurred_at e = t) q = filter (\<lambda>e. P e \<and> af_occurred_at e = t) s \<and>
      timeline_for_workspace ws s = map timeline_entry_of (sort_key af_occurred_at (activity_list_for_workspace s ws))"
proof -
  let ?P = "\<lambda>e. af_workspace_id e = ws \<and> (ty = None \<or> ty = Some (af_activity_type e)) \<and>
              (actor = None \<or> actor = Some (af_actor_id e)) \<and> (target_type = None \<or> target_type = Some (af_target_type e)) \<and>
              (target_id = None \<or> target_id = Some (af_target_id e)) \<and>
              \<not> (\<exists>t. since = Some t \<and> af_occurred_at e < t) \<and> \<not> (\<exists>t. until = Some t \<and> t < af_occurred_at e)"
  have q: "activity_query ws ty actor target_type target_id since until s = sort_key af_occurred_at (filter ?P s)"
    unfolding activity_query_def Let_def keep_if_filter activity_list_for_workspace_def filter_filter
    by (rule arg_cong [of _ _ "sort_key af_occurred_at"], rule filter_cong [OF refl]) (auto split: option.splits)
  show ?thesis
    unfolding Let_def q timeline_for_workspace_def
    by (simp add: sort_key_stable mset_sort activity_query_def keep_if_def Let_def conj_commute)
qed

end
