(* ===== verification/Workspaces.thy ===== *)
theory Workspaces
  imports Feeds
begin

text \<open>
  The workspace engine (\<^verbatim>\<open>collaboration/workspace\<close>): each operation calls one service of \<open>Members\<close>,
  \<open>Collaboration\<close> or \<open>Sharing\<close> and then records the result in the activity feed and the audit trail of
  \<open>Feeds\<close> and publishes an event. Nothing in the program subscribes to the collaboration event bus, so
  publishing is appending to its history.
\<close>

section \<open>Workspaces\<close>

record workspace_settings =
  wo_default_role :: pystr
  wo_allow_client_comments :: bool

definition default_workspace_settings :: workspace_settings where
  "default_workspace_settings = \<lparr>wo_default_role = ''collaborator'', wo_allow_client_comments = False\<rparr>"

record workspace =
  wp_id :: pystr
  wp_firm_id :: pystr
  wp_name :: pystr
  wp_settings :: workspace_settings
  wp_member_ids :: "pystr set"
  wp_case_ids :: "pystr set"
  wp_team_ids :: "pystr set"
  wp_document_ids :: "pystr set"
  wp_task_ids :: "pystr set"
  wp_created_at :: datetime

type_synonym workspace_store = "(pystr, workspace) dict"

definition workspace_get :: "workspace_store \<Rightarrow> pystr \<Rightarrow> workspace option" where
  [store_defs]: "workspace_get s workspace_id = dict_get s workspace_id"

definition workspace_save :: "workspace \<Rightarrow> workspace_store \<Rightarrow> workspace_store" where
  [store_defs]: "workspace_save w s = dict_set (wp_id w) w s"

definition workspace_list_for_firm :: "workspace_store \<Rightarrow> pystr \<Rightarrow> workspace list" where
  "workspace_list_for_firm s firm_id = filter (\<lambda>w. wp_firm_id w = firm_id) (dict_values s)"

definition workspace_list_ids :: "workspace_store \<Rightarrow> pystr list" where
  "workspace_list_ids s = dict_keys s"

interpretation workspace_rows: keyed_store wp_id workspace_save workspace_get "keyed wp_id"
  unfolding store_defs by (rule keyed_store_dict)

section \<open>Events\<close>

datatype collab_event =
    WorkspaceCreated
  | MemberInvited pystr
  | MemberStatusChanged pystr pystr pystr
  | RoleAssigned pystr pystr
  | TaskCreated pystr "pystr option"
  | TaskStatusChanged pystr pystr pystr
  | CommentAdded pystr pystr pystr
  | ApprovalRequested pystr pystr pystr
  | ApprovalDecided pystr pystr
  | ShareLinkCreated pystr pystr pystr
  | ShareLinkRevoked pystr

record published_event =
  vt_workspace_id :: pystr
  vt_event_id :: pystr
  vt_occurred_at :: datetime
  vt_event :: collab_event

section \<open>The engine\<close>

record workspace_engine =
  we_workspaces :: workspace_store
  we_members :: member_store
  we_roles :: assignment_store
  we_permissions :: permission_engine
  we_task_transitions :: task_transitions
  we_tasks :: task_store
  we_comments :: comment_store
  we_mentions :: mention_engine
  we_approvals :: approval_store
  we_sharing :: sharing_store
  we_activity :: activity_store
  we_trail :: trail_store
  we_events :: "published_event list"

definition workspace_engine_init :: workspace_engine where
  "workspace_engine_init =
     \<lparr>we_workspaces = [], we_members = [], we_roles = [], we_permissions = permission_engine_init None,
      we_task_transitions = task_workflow_init None, we_tasks = [], we_comments = [],
      we_mentions = \<lparr>me_notifications = notification_engine_init None, me_mentions = []\<rparr>,
      we_approvals = [], we_sharing = sharing_store_init, we_activity = [], we_trail = [], we_events = []\<rparr>"

text \<open>
  What an operation draws from the system: identifiers and clock readings, in the order the code asks
  for them (0 the object of the operation, 1 its activity, 2 its audit entry, 3 its event; activating a
  member reads the clock twice, at 0 and 4), and those of the mentions in a comment.
\<close>

record draws =
  dr_id :: "nat \<Rightarrow> pystr"
  dr_clock :: "nat \<Rightarrow> datetime"
  dr_mention_id :: "nat \<Rightarrow> pystr"
  dr_notification :: "nat \<Rightarrow> nat \<Rightarrow> pystr \<times> datetime"

definition record_activity ::
  "draws \<Rightarrow> pystr \<Rightarrow> pystr \<Rightarrow> activity_type \<Rightarrow> pystr \<Rightarrow> pystr \<Rightarrow> pystr \<Rightarrow> workspace_engine \<Rightarrow> workspace_engine" where
  "record_activity d workspace_id actor_id ty target_type target_id summary x =
     x\<lparr>we_activity := snd (activity_record (dr_id d 1) (dr_clock d 1) workspace_id actor_id ty target_type target_id
                             summary None (we_activity x))\<rparr>"

definition record_trail ::
  "draws \<Rightarrow> pystr \<Rightarrow> pystr \<Rightarrow> pystr \<Rightarrow> pystr \<Rightarrow> pystr \<Rightarrow> (pystr, pystr) dict option \<Rightarrow> (pystr, pystr) dict option
     \<Rightarrow> workspace_engine \<Rightarrow> workspace_engine" where
  "record_trail d workspace_id actor_id action target_type target_id old_state new_state x =
     x\<lparr>we_trail := snd (trail_record (dr_id d 2) (dr_clock d 2) workspace_id actor_id action target_type target_id
                          old_state new_state None None (we_trail x))\<rparr>"

definition publish_event :: "draws \<Rightarrow> pystr \<Rightarrow> collab_event \<Rightarrow> workspace_engine \<Rightarrow> workspace_engine" where
  "publish_event d workspace_id ev x =
     x\<lparr>we_events := we_events x @ [\<lparr>vt_workspace_id = workspace_id, vt_event_id = dr_id d 3,
                                     vt_occurred_at = dr_clock d 3, vt_event = ev\<rparr>]\<rparr>"

definition ws_create_workspace ::
  "draws \<Rightarrow> pystr \<Rightarrow> pystr \<Rightarrow> pystr \<Rightarrow> workspace_settings option \<Rightarrow> workspace_engine \<Rightarrow> workspace \<times> workspace_engine" where
  "ws_create_workspace d firm_id name actor_id settings x =
     (let w = \<lparr>wp_id = dr_id d 0, wp_firm_id = firm_id, wp_name = name,
               wp_settings = (case settings of None \<Rightarrow> default_workspace_settings | Some st \<Rightarrow> st),
               wp_member_ids = {}, wp_case_ids = {}, wp_team_ids = {}, wp_document_ids = {}, wp_task_ids = {},
               wp_created_at = dr_clock d 0\<rparr>;
          x1 = x\<lparr>we_workspaces := workspace_save w (we_workspaces x)\<rparr>;
          x2 = record_activity d (wp_id w) actor_id AT_WORKSPACE ''workspace'' (wp_id w)
                 (''Workspace '' @ py_repr name @ '' created'') x1;
          x3 = record_trail d (wp_id w) actor_id ''workspace.create'' ''workspace'' (wp_id w) None
                 (Some [(''name'', name), (''firm_id'', firm_id)]) x2
      in (w, publish_event d (wp_id w) WorkspaceCreated x3))"

definition ws_get_workspace :: "workspace_engine \<Rightarrow> pystr \<Rightarrow> workspace result" where
  "ws_get_workspace x workspace_id =
     (case workspace_get (we_workspaces x) workspace_id of
        None \<Rightarrow> Inl (ValueError (''Unknown workspace '' @ py_repr workspace_id))
      | Some w \<Rightarrow> Inr w)"

text \<open>The member, like the task of \<open>create_task\<close>, is saved before the workspace is looked up.\<close>

definition ws_invite_member ::
  "draws \<Rightarrow> pystr \<Rightarrow> pystr \<Rightarrow> pystr \<Rightarrow> pystr \<Rightarrow> workspace_engine \<Rightarrow> ws_member result \<times> workspace_engine" where
  "ws_invite_member d workspace_id email display_name actor_id x =
     (let (m, ms) = member_invite (dr_id d 0) (dr_clock d 0) workspace_id email display_name (we_members x);
          x1 = x\<lparr>we_members := ms\<rparr>
      in case ws_get_workspace x1 workspace_id of
           Inl e \<Rightarrow> (Inl e, x1)
         | Inr w \<Rightarrow>
             (let w' = w\<lparr>wp_member_ids := insert (mb_id m) (wp_member_ids w)\<rparr>;
                  x2 = x1\<lparr>we_workspaces := workspace_save w' (we_workspaces x1)\<rparr>;
                  x3 = record_activity d workspace_id actor_id AT_MEMBER ''member'' (mb_id m) (display_name @ '' invited'') x2;
                  x4 = record_trail d workspace_id actor_id ''member.invite'' ''member'' (mb_id m) None
                         (Some [(''email'', email), (''status'', member_status_value (mb_status m))]) x3
              in (Inr m, publish_event d workspace_id (MemberInvited (mb_id m)) x4)))"

definition optional_member_status :: "member_status option \<Rightarrow> pystr" where
  "optional_member_status st = (case st of None \<Rightarrow> [] | Some v \<Rightarrow> member_status_value v)"

text \<open>The status asked for selects the method of the member service; a text that names none is a \<open>KeyError\<close>.\<close>

definition member_status_method ::
  "draws \<Rightarrow> pystr \<Rightarrow> (pystr \<Rightarrow> pystr option \<Rightarrow> member_store \<Rightarrow> (ws_member \<times> member_store) result) result" where
  "member_status_method d target =
     (if target = ''active'' then Inr (member_activate (dr_clock d 0) (dr_clock d 4))
      else if target = ''suspended'' then Inr (member_suspend (dr_clock d 0))
      else if target = ''deactivated'' then Inr (member_deactivate (dr_clock d 0))
      else Inl (KeyError target))"

definition ws_change_member_status ::
  "draws \<Rightarrow> pystr \<Rightarrow> pystr \<Rightarrow> pystr \<Rightarrow> pystr \<Rightarrow> workspace_engine \<Rightarrow> ws_member result \<times> workspace_engine" where
  "ws_change_member_status d workspace_id member_id target actor_id x =
     (case res_bind (member_status_method d target) (\<lambda>f. f member_id (Some actor_id) (we_members x)) of
        Inl e \<Rightarrow> (Inl e, x)
      | Inr (m, ms) \<Rightarrow>
          (let x1 = x\<lparr>we_members := ms\<rparr>;
               from_status = optional_member_status (mh_from_status (last (mb_history m)));
               to_status = member_status_value (mb_status m);
               x2 = record_activity d workspace_id actor_id AT_MEMBER ''member'' member_id
                      (''Member status changed to '' @ to_status) x1;
               x3 = record_trail d workspace_id actor_id ''member.status_change'' ''member'' member_id
                      (Some [(''status'', from_status)]) (Some [(''status'', to_status)]) x2
           in (Inr m, publish_event d workspace_id (MemberStatusChanged member_id from_status to_status) x3)))"

definition ws_assign_role ::
  "draws \<Rightarrow> pystr \<Rightarrow> pystr \<Rightarrow> collab_role \<Rightarrow> pystr \<Rightarrow> workspace_engine \<Rightarrow> workspace_engine" where
  "ws_assign_role d workspace_id member_id role actor_id x =
     (let x1 = x\<lparr>we_roles := snd (collab_assign_role workspace_id member_id role (we_roles x))\<rparr>;
          x2 = record_activity d workspace_id actor_id AT_MEMBER ''member'' member_id
                 (''Role '' @ collab_role_value role @ '' assigned'') x1;
          x3 = record_trail d workspace_id actor_id ''role.assign'' ''member'' member_id None
                 (Some [(''role'', collab_role_value role)]) x2
      in publish_event d workspace_id (RoleAssigned member_id (collab_role_value role)) x3)"

definition ws_has_permission :: "workspace_engine \<Rightarrow> pystr \<Rightarrow> pystr \<Rightarrow> collab_permission \<Rightarrow> bool" where
  "ws_has_permission x workspace_id member_id p =
     (case collab_get_role (we_roles x) workspace_id member_id of
        None \<Rightarrow> False
      | Some role \<Rightarrow> engine_permits (we_permissions x) workspace_id member_id role p)"

definition ws_get_task :: "workspace_engine \<Rightarrow> pystr \<Rightarrow> ws_task result" where
  "ws_get_task x task_id =
     (case task_get (we_tasks x) task_id of
        None \<Rightarrow> Inl (ValueError (''Unknown task '' @ py_repr task_id)) | Some t \<Rightarrow> Inr t)"

definition ws_list_comments_for_target :: "workspace_engine \<Rightarrow> comment_target \<Rightarrow> pystr \<Rightarrow> ws_comment list" where
  "ws_list_comments_for_target x ty target_id = comment_list_for_target (we_comments x) ty target_id"

definition ws_get_approval :: "workspace_engine \<Rightarrow> pystr \<Rightarrow> approval_request result" where
  "ws_get_approval x approval_id = approval_require (we_approvals x) approval_id"

definition ws_create_task ::
  "draws \<Rightarrow> pystr \<Rightarrow> pystr \<Rightarrow> pystr \<Rightarrow> pystr \<Rightarrow> pystr option \<Rightarrow> pystr option \<Rightarrow> task_priority \<Rightarrow> datetime option
     \<Rightarrow> pystr set option \<Rightarrow> workspace_engine \<Rightarrow> ws_task result \<times> workspace_engine" where
  "ws_create_task d workspace_id title actor_id description case_id assignee_id priority due_date depends_on x =
     (let (t, ts) = task_create (dr_id d 0) (dr_clock d 0) workspace_id title description case_id assignee_id priority
                      due_date depends_on (we_tasks x);
          x1 = x\<lparr>we_tasks := ts\<rparr>
      in case ws_get_workspace x1 workspace_id of
           Inl e \<Rightarrow> (Inl e, x1)
         | Inr w \<Rightarrow>
             (let w' = w\<lparr>wp_task_ids := insert (tk_id t) (wp_task_ids w)\<rparr>;
                  x2 = x1\<lparr>we_workspaces := workspace_save w' (we_workspaces x1)\<rparr>;
                  x3 = record_activity d workspace_id actor_id AT_TASK ''task'' (tk_id t)
                         (''Task '' @ py_repr title @ '' created'') x2;
                  x4 = record_trail d workspace_id actor_id ''task.create'' ''task'' (tk_id t) None
                         (Some [(''title'', title), (''status'', task_status_value (tk_status t))]) x3
              in (Inr t, publish_event d workspace_id (TaskCreated (tk_id t) case_id) x4)))"

definition ws_update_task_status ::
  "draws \<Rightarrow> pystr \<Rightarrow> pystr \<Rightarrow> task_status \<Rightarrow> pystr \<Rightarrow> workspace_engine \<Rightarrow> ws_task result \<times> workspace_engine" where
  "ws_update_task_status d workspace_id task_id target actor_id x =
     (let from_status = (case task_get (we_tasks x) task_id of None \<Rightarrow> [] | Some t \<Rightarrow> task_status_value (tk_status t))
      in case task_update_status (we_task_transitions x) (dr_clock d 0) task_id target (we_tasks x) of
           Inl e \<Rightarrow> (Inl e, x)
         | Inr (t, ts) \<Rightarrow>
             (let x1 = x\<lparr>we_tasks := ts\<rparr>;
                  x2 = record_activity d workspace_id actor_id AT_TASK ''task'' task_id
                         (''Task status changed to '' @ task_status_value target) x1;
                  x3 = record_trail d workspace_id actor_id ''task.status_change'' ''task'' task_id
                         (Some [(''status'', from_status)]) (Some [(''status'', task_status_value target)]) x2
              in (Inr t, publish_event d workspace_id (TaskStatusChanged task_id from_status (task_status_value target)) x3)))"

definition ws_add_comment ::
  "draws \<Rightarrow> pystr \<Rightarrow> comment_target \<Rightarrow> pystr \<Rightarrow> pystr \<Rightarrow> pystr \<Rightarrow> pystr list \<Rightarrow> workspace_engine
     \<Rightarrow> ws_comment \<times> workspace_engine" where
  "ws_add_comment d workspace_id ty target_id author_id body attachment_ids x =
     (let (c, cs) = comment_add (dr_id d 0) (dr_clock d 0) workspace_id ty target_id author_id body attachment_ids (we_comments x);
          x1 = x\<lparr>we_comments := cs\<rparr>;
          x2 = x1\<lparr>we_mentions := snd (mention_process default_resolver (dr_mention_id d) (dr_notification d) c (we_mentions x1))\<rparr>;
          x3 = record_activity d workspace_id author_id AT_COMMENT (comment_target_value ty) target_id ''Comment added'' x2;
          x4 = record_trail d workspace_id author_id ''comment.add'' (comment_target_value ty) target_id None
                 (Some [(''comment_id'', cm_id c)]) x3
      in (c, publish_event d workspace_id (CommentAdded (cm_id c) (comment_target_value ty) target_id) x4))"

definition ws_request_approval ::
  "draws \<Rightarrow> pystr \<Rightarrow> pystr \<Rightarrow> pystr \<Rightarrow> pystr \<Rightarrow> pystr list \<Rightarrow> approval_mode \<Rightarrow> workspace_engine
     \<Rightarrow> approval_request \<times> workspace_engine" where
  "ws_request_approval d workspace_id target_type target_id requested_by approver_ids mode x =
     (let (a, aps) = approval_create (dr_id d 0) (dr_clock d 0) workspace_id target_type target_id requested_by
                       approver_ids mode (we_approvals x);
          x1 = x\<lparr>we_approvals := aps\<rparr>;
          x2 = record_activity d workspace_id requested_by AT_APPROVAL target_type target_id ''Approval requested'' x1;
          x3 = record_trail d workspace_id requested_by ''approval.request'' target_type target_id None
                 (Some [(''approval_id'', ar_id a), (''status'', approval_status_value (ar_status a))]) x2
      in (a, publish_event d workspace_id (ApprovalRequested (ar_id a) target_type target_id) x3))"

definition ws_decide_approval ::
  "draws \<Rightarrow> pystr \<Rightarrow> pystr \<Rightarrow> pystr \<Rightarrow> approval_choice \<Rightarrow> pystr \<Rightarrow> pystr option \<Rightarrow> workspace_engine
     \<Rightarrow> approval_request result \<times> workspace_engine" where
  "ws_decide_approval d workspace_id approval_id approver_id decision actor_id comment x =
     (case approval_decide (dr_clock d 0) approval_id approver_id decision comment (we_approvals x) of
        Inl e \<Rightarrow> (Inl e, x)
      | Inr (a, aps) \<Rightarrow>
          (let x1 = x\<lparr>we_approvals := aps\<rparr>;
               x2 = record_activity d workspace_id actor_id AT_APPROVAL (ar_target_type a) (ar_target_id a)
                      (''Approval decision: '' @ approval_choice_value decision) x1;
               x3 = record_trail d workspace_id actor_id ''approval.decide'' (ar_target_type a) (ar_target_id a) None
                      (Some [(''status'', approval_status_value (ar_status a))]) x2
           in (Inr a, publish_event d workspace_id (ApprovalDecided (ar_id a) (approval_status_value (ar_status a))) x3)))"

text \<open>The token of a new link is a draw of its own.\<close>

definition ws_create_share_link ::
  "draws \<Rightarrow> pystr \<Rightarrow> pystr \<Rightarrow> pystr \<Rightarrow> pystr \<Rightarrow> share_permission \<Rightarrow> pystr \<Rightarrow> int option \<Rightarrow> workspace_engine
     \<Rightarrow> share_link \<times> workspace_engine" where
  "ws_create_share_link d token workspace_id target_type target_id p actor_id expires_in_seconds x =
     (let (l, so) = create_share_link (dr_id d 0) token (dr_clock d 0) workspace_id target_type target_id p actor_id
                      expires_in_seconds (we_sharing x);
          x1 = x\<lparr>we_sharing := so\<rparr>;
          x2 = record_activity d workspace_id actor_id AT_SHARING target_type target_id ''Share link created'' x1;
          x3 = record_trail d workspace_id actor_id ''sharing.create_link'' target_type target_id None
                 (Some [(''share_id'', sl_id l)]) x2
      in (l, publish_event d workspace_id (ShareLinkCreated (sl_id l) target_type target_id) x3))"

definition ws_revoke_share_link ::
  "draws \<Rightarrow> pystr \<Rightarrow> pystr \<Rightarrow> pystr \<Rightarrow> workspace_engine \<Rightarrow> share_link result \<times> workspace_engine" where
  "ws_revoke_share_link d workspace_id token actor_id x =
     (case revoke_link (dr_clock d 0) token (we_sharing x) of
        Inl e \<Rightarrow> (Inl e, x)
      | Inr (l, so) \<Rightarrow>
          (let x1 = x\<lparr>we_sharing := so\<rparr>;
               x2 = record_activity d workspace_id actor_id AT_SHARING (sl_target_type l) (sl_target_id l) ''Share link revoked'' x1;
               x3 = record_trail d workspace_id actor_id ''sharing.revoke_link'' (sl_target_type l) (sl_target_id l)
                      (Some [(''revoked'', ''false'')]) (Some [(''revoked'', ''true'')]) x2
           in (Inr l, publish_event d workspace_id (ShareLinkRevoked (sl_id l)) x3)))"

definition ws_share_internally ::
  "draws \<Rightarrow> pystr \<Rightarrow> pystr \<Rightarrow> pystr \<Rightarrow> pystr \<Rightarrow> share_permission \<Rightarrow> pystr \<Rightarrow> workspace_engine
     \<Rightarrow> internal_share \<times> workspace_engine" where
  "ws_share_internally d workspace_id target_type target_id member_id p actor_id x =
     (let (h, so) = share_internally (dr_id d 0) (dr_clock d 0) workspace_id target_type target_id member_id p actor_id (we_sharing x)
      in (h, x\<lparr>we_sharing := so\<rparr>))"

section \<open>The operations as one step\<close>

text \<open>An operation with its arguments; running it gives the exception, if it raised, and the engine afterwards.\<close>

datatype ws_op =
    Op_create_workspace draws pystr pystr pystr "workspace_settings option"
  | Op_invite_member draws pystr pystr pystr pystr
  | Op_change_member_status draws pystr pystr pystr pystr
  | Op_assign_role draws pystr pystr collab_role pystr
  | Op_create_task draws pystr pystr pystr pystr "pystr option" "pystr option" task_priority "datetime option" "pystr set option"
  | Op_update_task_status draws pystr pystr task_status pystr
  | Op_add_comment draws pystr comment_target pystr pystr pystr "pystr list"
  | Op_request_approval draws pystr pystr pystr pystr "pystr list" approval_mode
  | Op_decide_approval draws pystr pystr pystr approval_choice pystr "pystr option"
  | Op_create_share_link draws pystr pystr pystr pystr share_permission pystr "int option"
  | Op_revoke_share_link draws pystr pystr pystr
  | Op_share_internally draws pystr pystr pystr pystr share_permission pystr

definition ws_outcome :: "'a result \<times> workspace_engine \<Rightarrow> pyexn option \<times> workspace_engine" where
  "ws_outcome r = (case fst r of Inl e \<Rightarrow> Some e | Inr _ \<Rightarrow> None, snd r)"

fun run_ws_op :: "ws_op \<Rightarrow> workspace_engine \<Rightarrow> pyexn option \<times> workspace_engine" where
  "run_ws_op (Op_create_workspace d firm_id name actor settings) x = (None, snd (ws_create_workspace d firm_id name actor settings x))"
| "run_ws_op (Op_invite_member d ws email name actor) x = ws_outcome (ws_invite_member d ws email name actor x)"
| "run_ws_op (Op_change_member_status d ws member target actor) x = ws_outcome (ws_change_member_status d ws member target actor x)"
| "run_ws_op (Op_assign_role d ws member role actor) x = (None, ws_assign_role d ws member role actor x)"
| "run_ws_op (Op_create_task d ws title actor descr case_id assignee prio due deps) x =
     ws_outcome (ws_create_task d ws title actor descr case_id assignee prio due deps x)"
| "run_ws_op (Op_update_task_status d ws task target actor) x = ws_outcome (ws_update_task_status d ws task target actor x)"
| "run_ws_op (Op_add_comment d ws ty target author body atts) x = (None, snd (ws_add_comment d ws ty target author body atts x))"
| "run_ws_op (Op_request_approval d ws ty target by approvers mode) x = (None, snd (ws_request_approval d ws ty target by approvers mode x))"
| "run_ws_op (Op_decide_approval d ws approval approver decision actor comment) x =
     ws_outcome (ws_decide_approval d ws approval approver decision actor comment x)"
| "run_ws_op (Op_create_share_link d token ws ty target p actor expires) x = (None, snd (ws_create_share_link d token ws ty target p actor expires x))"
| "run_ws_op (Op_revoke_share_link d ws token actor) x = ws_outcome (ws_revoke_share_link d ws token actor x)"
| "run_ws_op (Op_share_internally d ws ty target member p actor) x = (None, snd (ws_share_internally d ws ty target member p actor x))"

lemmas ws_op_defs = ws_create_workspace_def ws_invite_member_def ws_change_member_status_def ws_assign_role_def
  ws_create_task_def ws_update_task_status_def ws_add_comment_def ws_request_approval_def ws_decide_approval_def
  ws_create_share_link_def ws_revoke_share_link_def ws_share_internally_def ws_outcome_def ws_get_workspace_def

text \<open>The workspace and the actor an operation is called with; a new workspace names itself.\<close>

fun op_workspace :: "ws_op \<Rightarrow> pystr" where
  "op_workspace (Op_create_workspace d firm_id name actor settings) = dr_id d 0"
| "op_workspace (Op_invite_member d ws email name actor) = ws"
| "op_workspace (Op_change_member_status d ws member target actor) = ws"
| "op_workspace (Op_assign_role d ws member role actor) = ws"
| "op_workspace (Op_create_task d ws title actor descr case_id assignee prio due deps) = ws"
| "op_workspace (Op_update_task_status d ws task target actor) = ws"
| "op_workspace (Op_add_comment d ws ty target author body atts) = ws"
| "op_workspace (Op_request_approval d ws ty target by approvers mode) = ws"
| "op_workspace (Op_decide_approval d ws approval approver decision actor comment) = ws"
| "op_workspace (Op_create_share_link d token ws ty target p actor expires) = ws"
| "op_workspace (Op_revoke_share_link d ws token actor) = ws"
| "op_workspace (Op_share_internally d ws ty target member p actor) = ws"

fun op_actor :: "ws_op \<Rightarrow> pystr" where
  "op_actor (Op_create_workspace d firm_id name actor settings) = actor"
| "op_actor (Op_invite_member d ws email name actor) = actor"
| "op_actor (Op_change_member_status d ws member target actor) = actor"
| "op_actor (Op_assign_role d ws member role actor) = actor"
| "op_actor (Op_create_task d ws title actor descr case_id assignee prio due deps) = actor"
| "op_actor (Op_update_task_status d ws task target actor) = actor"
| "op_actor (Op_add_comment d ws ty target author body atts) = author"
| "op_actor (Op_request_approval d ws ty target by approvers mode) = by"
| "op_actor (Op_decide_approval d ws approval approver decision actor comment) = actor"
| "op_actor (Op_create_share_link d token ws ty target p actor expires) = actor"
| "op_actor (Op_revoke_share_link d ws token actor) = actor"
| "op_actor (Op_share_internally d ws ty target member p actor) = actor"

definition is_internal_share :: "ws_op \<Rightarrow> bool" where
  "is_internal_share op = (case op of Op_share_internally _ _ _ _ _ _ _ \<Rightarrow> True | _ \<Rightarrow> False)"

text \<open>One entry in each journal, about the same workspace, actor and target.\<close>

definition journaled_once :: "pystr \<Rightarrow> pystr \<Rightarrow> workspace_engine \<Rightarrow> workspace_engine \<Rightarrow> bool" where
  "journaled_once ws actor x x' \<longleftrightarrow> (\<exists>a t e.
     we_activity x' = we_activity x @ [a] \<and> we_trail x' = we_trail x @ [t] \<and> we_events x' = we_events x @ [e] \<and>
     af_workspace_id a = ws \<and> te_workspace_id t = ws \<and> vt_workspace_id e = ws \<and>
     af_actor_id a = actor \<and> te_actor_id t = actor \<and>
     te_target_type t = af_target_type a \<and> te_target_id t = af_target_id a)"

definition same_journals :: "workspace_engine \<Rightarrow> workspace_engine \<Rightarrow> bool" where
  "same_journals x x' \<longleftrightarrow> we_activity x' = we_activity x \<and> we_trail x' = we_trail x \<and> we_events x' = we_events x"

text \<open>Recording the three entries one after the other, on an engine whose journals are still those of \<open>x\<close>.\<close>

lemma journaled_onceI:
  assumes "same_journals x y"
  shows "journaled_once ws actor x (publish_event d ws ev (record_trail d ws actor action ty target old new
           (record_activity d ws actor aty ty target summary y)))"
  using assms
  by (simp add: journaled_once_def same_journals_def record_activity_def record_trail_def publish_event_def
      activity_record_def trail_record_def activity_save_def trail_save_def Let_def)

lemma same_journals_fields [simp]:
  "same_journals x x" "same_journals x (x\<lparr>we_workspaces := a\<rparr>)" "same_journals x (x\<lparr>we_members := b\<rparr>)"
  "same_journals x (x\<lparr>we_roles := c\<rparr>)" "same_journals x (x\<lparr>we_tasks := d\<rparr>)" "same_journals x (x\<lparr>we_comments := e\<rparr>)"
  "same_journals x (x\<lparr>we_comments := e, we_mentions := f\<rparr>)" "same_journals x (x\<lparr>we_approvals := g\<rparr>)"
  "same_journals x (x\<lparr>we_sharing := h\<rparr>)" "same_journals x (x\<lparr>we_members := b, we_workspaces := a\<rparr>)"
  "same_journals x (x\<lparr>we_tasks := d, we_workspaces := a\<rparr>)"
  by (simp_all add: same_journals_def)

text \<open>The journals of each operation, by cases of its services' results.\<close>

lemma run_ws_op_journals:
  assumes "run_ws_op op x = (r, x')"
  shows "if r = None \<and> \<not> is_internal_share op then journaled_once (op_workspace op) (op_actor op) x x' else same_journals x x'"
  using assms
  by (cases op)
     (auto simp: ws_op_defs Let_def is_internal_share_def split: prod.splits sum.splits option.splits
       intro!: journaled_onceI)

text \<open>What a raising operation leaves behind: nothing, or the member or task of an unknown workspace.\<close>

lemma run_ws_op_raises:
  assumes "run_ws_op op x = (Some e, x')"
  shows "x' = x \<or>
     (\<exists>d ws email name actor. op = Op_invite_member d ws email name actor \<and> workspace_get (we_workspaces x) ws = None \<and>
        x' = x\<lparr>we_members := snd (member_invite (dr_id d 0) (dr_clock d 0) ws email name (we_members x))\<rparr>) \<or>
     (\<exists>d ws title actor descr case_id assignee prio due deps.
        op = Op_create_task d ws title actor descr case_id assignee prio due deps \<and> workspace_get (we_workspaces x) ws = None \<and>
        x' = x\<lparr>we_tasks := snd (task_create (dr_id d 0) (dr_clock d 0) ws title descr case_id assignee prio due deps (we_tasks x))\<rparr>)"
  using assms
  by (cases op) (auto simp: ws_op_defs Let_def split: prod.splits sum.splits option.splits)

section \<open>The audit trail of a task\<close>

definition state_status :: "(pystr, pystr) dict option \<Rightarrow> pystr option" where
  "state_status st = (case st of None \<Rightarrow> None | Some d \<Rightarrow> dict_get d ''status'')"

definition is_task_entry :: "pystr \<Rightarrow> trail_entry \<Rightarrow> bool" where
  "is_task_entry task_id e \<longleftrightarrow> te_target_type e = ''task'' \<and> te_target_id e = task_id \<and>
     (te_action e = ''task.create'' \<or> te_action e = ''task.status_change'')"

definition task_trail :: "workspace_engine \<Rightarrow> pystr \<Rightarrow> trail_entry list" where
  "task_trail x task_id = filter (is_task_entry task_id) (we_trail x)"

definition task_statuses :: "task_status list" where
  "task_statuses = [TK_TODO, TK_IN_PROGRESS, TK_IN_REVIEW, TK_TO_VALIDATE, TK_VALIDATED, TK_ARCHIVED]"

lemma task_statuses_all: "st \<in> set task_statuses"
  by (cases st) (simp_all add: task_statuses_def)

lemma task_status_value_inj [simp]: "task_status_value a = task_status_value b \<longleftrightarrow> a = b"
  by (cases a; cases b; simp)

text \<open>The statuses the workflow allows next, as the trail writes them; a task begins in \<open>todo\<close>.\<close>

fun task_next :: "task_transitions \<Rightarrow> pystr option \<Rightarrow> pystr option list" where
  "task_next tr None = [Some ''todo'']"
| "task_next tr (Some v) = map (Some \<circ> task_status_value)
     (filter (\<lambda>b. \<exists>a \<in> set task_statuses. task_status_value a = v \<and> can_transition_task tr a b) task_statuses)"

lemma task_next_iff:
  "Some (task_status_value b) \<in> set (task_next tr (Some (task_status_value a))) \<longleftrightarrow> can_transition_task tr a b"
  using task_statuses_all by (auto simp: image_iff)

definition task_path :: "workspace_engine \<Rightarrow> pystr option \<Rightarrow> ws_task \<Rightarrow> bool" where
  "task_path x start t \<longleftrightarrow> lifecycle_path (task_next (we_task_transitions x)) (\<lambda>e. state_status (te_old_state e))
     (\<lambda>e. state_status (te_new_state e)) start (task_trail x (tk_id t)) (Some (task_status_value (tk_status t)))"

text \<open>A task some workspace lists; the others were created for a workspace that does not exist.\<close>

definition task_listed :: "workspace_engine \<Rightarrow> pystr \<Rightarrow> bool" where
  "task_listed x task_id \<longleftrightarrow> (\<exists>ws w. workspace_get (we_workspaces x) ws = Some w \<and> task_id \<in> wp_task_ids w)"

definition tasks_traced :: "workspace_engine \<Rightarrow> bool" where
  "tasks_traced x \<longleftrightarrow> keyed tk_id (we_tasks x) \<and> keyed wp_id (we_workspaces x) \<and>
     (\<forall>task_id. case task_get (we_tasks x) task_id of
        None \<Rightarrow> task_trail x task_id = [] \<and> \<not> task_listed x task_id
      | Some t \<Rightarrow> task_path x (if task_listed x task_id then None else Some ''todo'') t)"

text \<open>Identifiers are new where the code draws one for a task or a workspace.\<close>

fun op_fresh :: "ws_op \<Rightarrow> workspace_engine \<Rightarrow> bool" where
  "op_fresh (Op_create_workspace d _ _ _ _) x = (workspace_get (we_workspaces x) (dr_id d 0) = None)"
| "op_fresh (Op_create_task d _ _ _ _ _ _ _ _ _) x = (task_get (we_tasks x) (dr_id d 0) = None)"
| "op_fresh _ x = True"

definition trail_tail :: "workspace_engine \<Rightarrow> workspace_engine \<Rightarrow> trail_entry list \<Rightarrow> bool" where
  "trail_tail x x' tail \<longleftrightarrow> we_trail x' = we_trail x @ tail"

text \<open>Operations that are not about the status of a task leave all of this alone.\<close>

definition task_frame :: "workspace_engine \<Rightarrow> workspace_engine \<Rightarrow> bool" where
  "task_frame x x' \<longleftrightarrow> we_tasks x' = we_tasks x \<and> we_task_transitions x' = we_task_transitions x \<and>
     (keyed wp_id (we_workspaces x) \<longrightarrow> keyed wp_id (we_workspaces x')) \<and>
     (\<forall>task_id. task_trail x' task_id = task_trail x task_id \<and>
        (keyed wp_id (we_workspaces x) \<longrightarrow> task_listed x' task_id = task_listed x task_id))"

lemma task_frame_traced:
  assumes f: "task_frame x x'" and t: "tasks_traced x"
  shows "tasks_traced x'"
proof -
  have w: "keyed wp_id (we_workspaces x)" using t unfolding tasks_traced_def by blast
  have eqs: "we_tasks x' = we_tasks x" "we_task_transitions x' = we_task_transitions x" "task_trail x' = task_trail x"
    "task_listed x' = task_listed x" "keyed wp_id (we_workspaces x')"
    using f w unfolding task_frame_def by auto
  show ?thesis using t eqs(5) unfolding tasks_traced_def task_path_def eqs(1-4) by blast
qed

lemma trail_of_recorded:
  "task_trail (publish_event d ws ev (record_trail d ws actor action ty target old new
      (record_activity d ws actor aty ty target summary y))) task_id =
     task_trail y task_id @ (if ty = ''task'' \<and> target = task_id \<and> (action = ''task.create'' \<or> action = ''task.status_change'')
       then [\<lparr>te_id = dr_id d 2, te_workspace_id = ws, te_actor_id = actor, te_action = action, te_target_type = ty,
              te_target_id = target, te_ip_address = None, te_old_state = state_or_none old, te_new_state = state_or_none new,
              te_occurred_at = dr_clock d 2, te_metadata = []\<rparr>] else [])"
  by (simp add: task_trail_def is_task_entry_def record_activity_def record_trail_def publish_event_def
      activity_record_def trail_record_def trail_save_def Let_def)

lemma recorded_fields [simp]:
  "we_tasks (publish_event d ws ev y) = we_tasks y" "we_tasks (record_trail d ws actor action ty target old new y) = we_tasks y"
  "we_tasks (record_activity d ws actor aty ty target summary y) = we_tasks y"
  "we_workspaces (publish_event d ws ev y) = we_workspaces y"
  "we_workspaces (record_trail d ws actor action ty target old new y) = we_workspaces y"
  "we_workspaces (record_activity d ws actor aty ty target summary y) = we_workspaces y"
  "we_task_transitions (publish_event d ws ev y) = we_task_transitions y"
  "we_task_transitions (record_trail d ws actor action ty target old new y) = we_task_transitions y"
  "we_task_transitions (record_activity d ws actor aty ty target summary y) = we_task_transitions y"
  by (simp_all add: record_activity_def record_trail_def publish_event_def)

lemma task_trail_fields [simp]:
  "task_trail (x\<lparr>we_workspaces := a\<rparr>) = task_trail x" "task_trail (x\<lparr>we_members := b\<rparr>) = task_trail x"
  "task_trail (x\<lparr>we_roles := c\<rparr>) = task_trail x" "task_trail (x\<lparr>we_tasks := d\<rparr>) = task_trail x"
  "task_trail (x\<lparr>we_comments := e\<rparr>) = task_trail x" "task_trail (x\<lparr>we_mentions := f\<rparr>) = task_trail x"
  "task_trail (x\<lparr>we_approvals := g\<rparr>) = task_trail x" "task_trail (x\<lparr>we_sharing := h\<rparr>) = task_trail x"
  by (simp_all add: task_trail_def fun_eq_iff)

text \<open>Saving a workspace that lists the tasks its former version listed.\<close>

lemma task_listed_save:
  assumes "keyed wp_id s" and "wp_task_ids w = (case workspace_get s (wp_id w) of None \<Rightarrow> {} | Some v \<Rightarrow> wp_task_ids v) \<union> new"
  shows "(\<exists>ws v. workspace_get (workspace_save w s) ws = Some v \<and> task_id \<in> wp_task_ids v) \<longleftrightarrow>
     (\<exists>ws v. workspace_get s ws = Some v \<and> task_id \<in> wp_task_ids v) \<or> task_id \<in> new"
proof
  assume "\<exists>ws v. workspace_get (workspace_save w s) ws = Some v \<and> task_id \<in> wp_task_ids v"
  then obtain ws v where g: "workspace_get (workspace_save w s) ws = Some v" and t: "task_id \<in> wp_task_ids v" by blast
  show "(\<exists>ws v. workspace_get s ws = Some v \<and> task_id \<in> wp_task_ids v) \<or> task_id \<in> new"
  proof (cases "ws = wp_id w")
    case True
    then have "v = w" using g by (simp add: workspace_rows.get_put)
    then show ?thesis using t assms(2) by (cases "workspace_get s (wp_id w)") auto
  next
    case False
    then have "workspace_get s ws = Some v" using g by (simp add: workspace_rows.get_put)
    then show ?thesis using t by blast
  qed
next
  assume r: "(\<exists>ws v. workspace_get s ws = Some v \<and> task_id \<in> wp_task_ids v) \<or> task_id \<in> new"
  show "\<exists>ws v. workspace_get (workspace_save w s) ws = Some v \<and> task_id \<in> wp_task_ids v"
  proof (cases "task_id \<in> wp_task_ids w")
    case True
    then show ?thesis by (intro exI [of _ "wp_id w"] exI [of _ w]) (simp add: workspace_rows.get_put)
  next
    case False
    then obtain ws v where g: "workspace_get s ws = Some v" "task_id \<in> wp_task_ids v" using r assms(2) by auto
    then have "ws \<noteq> wp_id w" using False assms(2) by (cases "ws = wp_id w") auto
    then show ?thesis using g by (intro exI [of _ ws] exI [of _ v]) (simp add: workspace_rows.get_put)
  qed
qed

lemma task_listed_saved:
  assumes "keyed wp_id (we_workspaces x)" and "we_workspaces x' = workspace_save w (we_workspaces x)"
    and "wp_task_ids w = (case workspace_get (we_workspaces x) (wp_id w) of None \<Rightarrow> {} | Some v \<Rightarrow> wp_task_ids v) \<union> new"
  shows "task_listed x' task_id \<longleftrightarrow> task_listed x task_id \<or> task_id \<in> new"
  unfolding task_listed_def assms(2) by (rule task_listed_save [OF assms(1,3)])

definition about_task_status :: "ws_op \<Rightarrow> bool" where
  "about_task_status op = (case op of Op_create_task _ _ _ _ _ _ _ _ _ _ \<Rightarrow> True | Op_update_task_status _ _ _ _ _ \<Rightarrow> True | _ \<Rightarrow> False)"

lemma task_frame_same:
  assumes "we_tasks x' = we_tasks x" and "we_task_transitions x' = we_task_transitions x"
    and "we_workspaces x' = we_workspaces x" and "\<And>task_id. task_trail x' task_id = task_trail x task_id"
  shows "task_frame x x'"
  using assms by (simp add: task_frame_def task_listed_def)

lemma task_frame_save:
  assumes "we_tasks x' = we_tasks x" and "we_task_transitions x' = we_task_transitions x"
    and "we_workspaces x' = workspace_save w (we_workspaces x)" and "\<And>task_id. task_trail x' task_id = task_trail x task_id"
    and "keyed wp_id (we_workspaces x) \<Longrightarrow>
           wp_task_ids w = (case workspace_get (we_workspaces x) (wp_id w) of None \<Rightarrow> {} | Some v \<Rightarrow> wp_task_ids v)"
  shows "task_frame x x'"
  using assms task_listed_saved [OF _ assms(3), where new = "{}"]
  by (auto simp: task_frame_def intro: workspace_rows.wf_put)

lemma create_workspace_frame:
  assumes "workspace_get (we_workspaces x) (dr_id d 0) = None"
  shows "task_frame x (snd (ws_create_workspace d firm_id name actor settings x))"
  unfolding ws_create_workspace_def Let_def snd_conv
  by (rule task_frame_save, simp_all add: trail_of_recorded) (simp add: assms)

lemma invite_member_frame: "task_frame x (snd (ws_invite_member d ws email name actor x))"
proof (cases "workspace_get (we_workspaces x) ws")
  case None
  then show ?thesis
    by (auto simp: ws_invite_member_def ws_get_workspace_def member_invite_def Let_def intro: task_frame_same)
next
  case (Some w)
  obtain m ms where m: "member_invite (dr_id d 0) (dr_clock d 0) ws email name (we_members x) = (m, ms)" by (rule prod.exhaust)
  show ?thesis
    unfolding ws_invite_member_def m using Some
    by (simp add: ws_get_workspace_def Let_def)
      (rule task_frame_save, simp_all add: trail_of_recorded, simp add: workspace_rows.get_key)
qed

lemma run_ws_op_frame:
  assumes "op_fresh op x" and "\<not> about_task_status op"
  shows "task_frame x (snd (run_ws_op op x))"
proof -
  have service: "task_frame x (publish_event d ws ev (record_trail d ws actor action ty target old new
      (record_activity d ws actor aty ty target summary y)))"
    if "we_tasks y = we_tasks x" "we_task_transitions y = we_task_transitions x" "we_workspaces y = we_workspaces x"
      "we_trail y = we_trail x" "action \<noteq> ''task.create''" "action \<noteq> ''task.status_change''"
    for d ws ev actor action ty target old new aty summary y
    by (rule task_frame_same) (use that in \<open>simp_all add: trail_of_recorded, simp add: task_trail_def\<close>)
  have refl: "task_frame x x" by (rule task_frame_same) simp_all
  show ?thesis
  proof (cases op)
    case (Op_create_workspace d firm_id name actor settings)
    then show ?thesis using assms(1) by (simp add: create_workspace_frame)
  next
    case (Op_invite_member d ws email name actor)
    then show ?thesis by (simp add: ws_outcome_def invite_member_frame)
  next
    case (Op_change_member_status d ws member target actor)
    then show ?thesis
      by (auto simp: ws_outcome_def ws_change_member_status_def Let_def intro!: service refl split: sum.split prod.split)
  next
    case (Op_assign_role d ws member role actor)
    then show ?thesis by (auto simp: ws_assign_role_def Let_def intro!: service)
  next
    case (Op_add_comment d ws ty target author body atts)
    then show ?thesis by (auto simp: ws_add_comment_def Let_def intro!: service split: prod.split)
  next
    case (Op_request_approval d ws ty target requester approvers mode)
    then show ?thesis by (auto simp: ws_request_approval_def Let_def intro!: service split: prod.split)
  next
    case (Op_decide_approval d ws approval approver decision actor comment)
    then show ?thesis
      by (auto simp: ws_outcome_def ws_decide_approval_def Let_def intro!: service refl split: sum.split prod.split)
  next
    case (Op_create_share_link d token ws ty target p actor expires)
    then show ?thesis by (auto simp: ws_create_share_link_def Let_def intro!: service split: prod.split)
  next
    case (Op_revoke_share_link d ws token actor)
    then show ?thesis
      by (auto simp: ws_outcome_def ws_revoke_share_link_def Let_def intro!: service refl split: sum.split prod.split)
  next
    case (Op_share_internally d ws ty target member p actor)
    then show ?thesis
      by (auto simp: ws_share_internally_def intro!: task_frame_same split: prod.split)
  qed (use assms(2) in \<open>simp_all add: about_task_status_def\<close>)
qed

lemma tasks_tracedD:
  "tasks_traced x \<Longrightarrow> task_get (we_tasks x) task_id = Some t \<Longrightarrow>
     task_path x (if task_listed x task_id then None else Some ''todo'') t"
  "tasks_traced x \<Longrightarrow> task_get (we_tasks x) task_id = None \<Longrightarrow> task_trail x task_id = [] \<and> \<not> task_listed x task_id"
  "tasks_traced x \<Longrightarrow> keyed tk_id (we_tasks x)" "tasks_traced x \<Longrightarrow> keyed wp_id (we_workspaces x)"
  unfolding tasks_traced_def
  by (drule conjunct2, drule conjunct2, drule spec [of _ task_id], simp,
      drule conjunct2, drule conjunct2, drule spec [of _ task_id], simp, simp_all)

text \<open>One task is saved: the others keep their trail and their place, and the one saved has its path.\<close>

lemma tasks_traced_save:
  assumes x: "tasks_traced x" and t: "we_tasks x' = task_save t (we_tasks x)"
    and tr: "we_task_transitions x' = we_task_transitions x" and w: "keyed wp_id (we_workspaces x')"
    and others: "\<And>task_id. task_id \<noteq> tk_id t \<Longrightarrow> task_trail x' task_id = task_trail x task_id \<and> task_listed x' task_id = task_listed x task_id"
    and path: "task_path x' (if task_listed x' (tk_id t) then None else Some ''todo'') t"
  shows "tasks_traced x'"
  unfolding tasks_traced_def
proof (intro conjI allI)
  show "keyed tk_id (we_tasks x')" unfolding t by (rule task_rows.wf_put [OF tasks_tracedD(3) [OF x]])
  show "keyed wp_id (we_workspaces x')" by (rule w)
  show "case task_get (we_tasks x') task_id of None \<Rightarrow> task_trail x' task_id = [] \<and> \<not> task_listed x' task_id
      | Some t \<Rightarrow> task_path x' (if task_listed x' task_id then None else Some ''todo'') t" for task_id
  proof (cases "task_id = tk_id t")
    case True
    then show ?thesis using path by (simp add: t task_rows.get_put)
  next
    case False
    show ?thesis
    proof (cases "task_get (we_tasks x) task_id")
      case None
      then show ?thesis using False others tasks_tracedD(2) [OF x None] by (simp add: t task_rows.get_put)
    next
      case (Some u)
      have id: "tk_id u = task_id" using tasks_tracedD(3) [OF x] Some by (rule task_rows.get_key)
      have "task_path x' (if task_listed x' task_id then None else Some ''todo'') u"
        using tasks_tracedD(1) [OF x Some] others [OF False] unfolding task_path_def id tr by simp
      then show ?thesis using False Some by (simp add: t task_rows.get_put)
    qed
  qed
qed

lemma create_task_traced:
  assumes x: "tasks_traced x" and fresh: "task_get (we_tasks x) (dr_id d 0) = None"
  shows "tasks_traced (snd (ws_create_task d ws title actor descr case_id assignee prio due deps x))"
proof -
  obtain t where c: "task_create (dr_id d 0) (dr_clock d 0) ws title descr case_id assignee prio due deps (we_tasks x) = (t, task_save t (we_tasks x))"
    and id: "tk_id t = dr_id d 0" and st: "tk_status t = TK_TODO" by (auto simp: task_create_def Let_def)
  note none = tasks_tracedD(2) [OF x fresh] and wkeyed = tasks_tracedD(4) [OF x]
  show ?thesis
  proof (cases "workspace_get (we_workspaces x) ws")
    case None
    let ?x = "x\<lparr>we_tasks := task_save t (we_tasks x)\<rparr>"
    have e: "snd (ws_create_task d ws title actor descr case_id assignee prio due deps x) = ?x"
      using None by (simp add: ws_create_task_def c ws_get_workspace_def)
    have l: "task_listed ?x k = task_listed x k" for k by (simp add: task_listed_def)
    show ?thesis unfolding e
      by (rule tasks_traced_save [OF x, where t = t]) (use none wkeyed in \<open>simp_all add: l id st task_path_def\<close>)
  next
    case (Some w)
    let ?w = "w\<lparr>wp_task_ids := insert (tk_id t) (wp_task_ids w)\<rparr>"
    let ?y = "x\<lparr>we_tasks := task_save t (we_tasks x), we_workspaces := workspace_save ?w (we_workspaces x)\<rparr>"
    let ?x = "publish_event d ws (TaskCreated (tk_id t) case_id) (record_trail d ws actor ''task.create'' ''task'' (tk_id t) None
        (Some [(''title'', title), (''status'', task_status_value (tk_status t))])
        (record_activity d ws actor AT_TASK ''task'' (tk_id t) (''Task '' @ py_repr title @ '' created'') ?y))"
    have e: "snd (ws_create_task d ws title actor descr case_id assignee prio due deps x) = ?x"
      using Some by (simp add: ws_create_task_def c ws_get_workspace_def Let_def)
    have wid: "wp_id w = ws" using wkeyed Some by (rule workspace_rows.get_key)
    have l: "task_listed ?x k \<longleftrightarrow> task_listed x k \<or> k \<in> {tk_id t}" for k
      by (rule task_listed_saved [OF wkeyed, where w = ?w]) (use Some wid in simp_all)
    show ?thesis unfolding e
    proof (rule tasks_traced_save [OF x, where t = t])
      show "keyed wp_id (we_workspaces ?x)" using wkeyed by (simp add: workspace_rows.wf_put)
      show "task_trail ?x k = task_trail x k \<and> task_listed ?x k = task_listed x k" if "k \<noteq> tk_id t" for k
        using that l by (simp add: trail_of_recorded)
      show "task_path ?x (if task_listed ?x (tk_id t) then None else Some ''todo'') t"
        using l none id by (simp add: task_path_def trail_of_recorded state_status_def state_or_none_def st)
    qed simp_all
  qed
qed

lemma update_task_status_traced:
  assumes x: "tasks_traced x"
  shows "tasks_traced (snd (ws_update_task_status d ws task_id target actor x))"
proof (cases "task_update_status (we_task_transitions x) (dr_clock d 0) task_id target (we_tasks x)")
  case (Inl e)
  then show ?thesis using x by (simp add: ws_update_task_status_def)
next
  case (Inr r)
  obtain t where get: "task_get (we_tasks x) task_id = Some t" and can: "can_transition_task (we_task_transitions x) (tk_status t) target"
    and r: "r = (t\<lparr>tk_status := target, tk_updated_at := Some (dr_clock d 0)\<rparr>,
        task_save (t\<lparr>tk_status := target, tk_updated_at := Some (dr_clock d 0)\<rparr>) (we_tasks x))"
    using Inr by (auto simp: task_update_status_def require_task_def transition_task_def Let_def res_bind_Inr_iff
        split: option.splits if_splits)
  let ?t = "t\<lparr>tk_status := target, tk_updated_at := Some (dr_clock d 0)\<rparr>"
  let ?y = "x\<lparr>we_tasks := task_save ?t (we_tasks x)\<rparr>"
  let ?x = "publish_event d ws (TaskStatusChanged task_id (task_status_value (tk_status t)) (task_status_value target))
      (record_trail d ws actor ''task.status_change'' ''task'' task_id (Some [(''status'', task_status_value (tk_status t))])
        (Some [(''status'', task_status_value target)])
        (record_activity d ws actor AT_TASK ''task'' task_id (''Task status changed to '' @ task_status_value target) ?y))"
  have id: "tk_id t = task_id" using tasks_tracedD(3) [OF x] get by (rule task_rows.get_key)
  have e: "snd (ws_update_task_status d ws task_id target actor x) = ?x"
    by (simp add: ws_update_task_status_def Inr r get Let_def)
  have l: "task_listed ?x k = task_listed x k" for k by (simp add: task_listed_def)
  show ?thesis unfolding e
  proof (rule tasks_traced_save [OF x, where t = ?t])
    show "keyed wp_id (we_workspaces ?x)" using tasks_tracedD(4) [OF x] by simp
    show "task_trail ?x k = task_trail x k \<and> task_listed ?x k = task_listed x k" if "k \<noteq> tk_id ?t" for k
      using that l id by (simp add: trail_of_recorded)
    show "task_path ?x (if task_listed ?x (tk_id ?t) then None else Some ''todo'') ?t"
      using tasks_tracedD(1) [OF x get] can l
      by (simp add: task_path_def trail_of_recorded state_status_def state_or_none_def id lifecycle_path_snoc task_next_iff
          del: task_next.simps)
  qed simp_all
qed

inductive ws_step :: "workspace_engine \<Rightarrow> workspace_engine \<Rightarrow> bool" where
  "op_fresh op x \<Longrightarrow> run_ws_op op x = (r, x') \<Longrightarrow> ws_step x x'"

lemma ws_step_traced:
  assumes "ws_step x x'" and "tasks_traced x"
  shows "tasks_traced x'"
  using assms(1)
proof cases
  case (1 op r)
  then have x': "x' = snd (run_ws_op op x)" by simp
  show ?thesis
  proof (cases "about_task_status op")
    case True
    then show ?thesis using 1(1) assms(2)
      by (cases op) (simp_all add: x' about_task_status_def ws_outcome_def create_task_traced update_task_status_traced)
  next
    case False
    then show ?thesis unfolding x' using task_frame_traced [OF run_ws_op_frame [OF 1(1) False] assms(2)] by simp
  qed
qed

lemma ws_steps_traced: "ws_step\<^sup>*\<^sup>* x x' \<Longrightarrow> tasks_traced x \<Longrightarrow> tasks_traced x'"
  by (induction rule: rtranclp_induct) (auto intro: ws_step_traced)

lemma tasks_traced_init: "tasks_traced workspace_engine_init"
  by (simp add: tasks_traced_def workspace_engine_init_def task_get_def workspace_get_def task_trail_def task_listed_def)

section \<open>Properties\<close>


definition demo_draws :: draws where
  "demo_draws = \<lparr>dr_id = (\<lambda>n. [char_of (97 + n)]), dr_clock = (\<lambda>n. int n), dr_mention_id = (\<lambda>n. ''m''),
     dr_notification = (\<lambda>i j. (''n'', 0))\<rparr>"


text \<open>
  C21. The audit trail of a task: in every state the engine reaches, the status entries of each task form
  an unbroken path of transitions the workflow allows, each entry starting from the status the one
  before it wrote, and ending in the status the task has; the path starts with the creation exactly
  for the tasks a workspace lists, and in \<open>todo\<close> for those created in a workspace that does not exist.
\<close>

theorem task_trail_complete:
  assumes "ws_step\<^sup>*\<^sup>* workspace_engine_init x" and "task_get (we_tasks x) task_id = Some t"
  shows "lifecycle_path (task_next (we_task_transitions x)) (\<lambda>e. state_status (te_old_state e)) (\<lambda>e. state_status (te_new_state e))
     (if task_listed x task_id then None else Some ''todo'') (task_trail x task_id) (Some (task_status_value (tk_status t)))"
proof -
  have x: "tasks_traced x" by (rule ws_steps_traced [OF assms(1) tasks_traced_init])
  have "tk_id t = task_id" using tasks_tracedD(3) [OF x] assms(2) by (rule task_rows.get_key)
  then show ?thesis using tasks_tracedD(1) [OF x assms(2)] by (simp add: task_path_def)
qed

lemma task_trail_complete_witness:
  "let x = snd (run_ws_op (Op_create_task demo_draws ''nowhere'' ''T'' ''ann'' [] None None TP_LOW None None) workspace_engine_init) in
   lifecycle_path (task_next (we_task_transitions x)) (\<lambda>e. state_status (te_old_state e)) (\<lambda>e. state_status (te_new_state e))
     (if task_listed x (dr_id demo_draws 0) then None else Some ''todo'') (task_trail x (dr_id demo_draws 0)) (Some ''todo'')"
proof -
  let ?op = "Op_create_task demo_draws ''nowhere'' ''T'' ''ann'' [] None None TP_LOW None None"
  let ?x = "snd (run_ws_op ?op workspace_engine_init)"
  have "ws_step workspace_engine_init ?x"
    by (rule ws_step.intros [where op = ?op, OF _ surjective_pairing]) (simp add: workspace_engine_init_def task_get_def)
  then have r: "ws_step\<^sup>*\<^sup>* workspace_engine_init ?x" by blast
  have "\<exists>t. task_get (we_tasks ?x) (dr_id demo_draws 0) = Some t \<and> tk_status t = TK_TODO"
    by (simp add: ws_op_defs workspace_engine_init_def task_create_def task_save_def task_get_def workspace_get_def Let_def)
  then obtain t where get: "task_get (we_tasks ?x) (dr_id demo_draws 0) = Some t" and st: "tk_status t = TK_TODO" by blast
  show ?thesis using task_trail_complete [OF r get] unfolding Let_def st task_status_value.simps .
qed

text \<open>
  What the permissions are for: nothing. No operation of the engine depends on the matrix, the grants or
  the revocations, and none but the assignment of a role changes what a member is permitted; a member
  who is suspended or deactivated keeps every permission.
\<close>

theorem permissions_not_enforced:
  "run_ws_op op (x\<lparr>we_permissions := e\<rparr>) = map_prod id (\<lambda>y. y\<lparr>we_permissions := e\<rparr>) (run_ws_op op x) \<and>
   (ws_has_permission (snd (run_ws_op op x)) ws member p = ws_has_permission x ws member p \<or>
    (\<exists>d ws' member' role actor. op = Op_assign_role d ws' member' role actor))"
proof -
  have "run_ws_op op (x\<lparr>we_permissions := e\<rparr>) = map_prod id (\<lambda>y. y\<lparr>we_permissions := e\<rparr>) (run_ws_op op x)"
    by (cases op) (auto simp: ws_op_defs record_activity_def record_trail_def publish_event_def Let_def
      split: prod.split sum.split option.split)
  moreover have "we_roles (snd (run_ws_op op x)) = we_roles x \<and> we_permissions (snd (run_ws_op op x)) = we_permissions x"
    if "\<nexists>d ws' member' role actor. op = Op_assign_role d ws' member' role actor"
    using that by (cases op) (auto simp: ws_op_defs record_activity_def record_trail_def publish_event_def Let_def
      split: prod.split sum.split option.split)
  then have "ws_has_permission (snd (run_ws_op op x)) ws member p = ws_has_permission x ws member p"
    if "\<nexists>d ws' member' role actor. op = Op_assign_role d ws' member' role actor"
    unfolding ws_has_permission_def using that by (simp cong: option.case_cong)
  ultimately show ?thesis by blast
qed

end
