(* ===== verification/Resilience.thy ===== *)
theory Resilience
  imports RateLimits Windows
begin

text \<open>
  Two parts of \<^verbatim>\<open>cloud_operations\<close> that keep a state of their own: the circuit breaker of
  \<^verbatim>\<open>resilience\<close>, with the chaos scenarios that trip it, and the incidents of \<^verbatim>\<open>incident_management\<close>.
  \<open>CircuitOpenError\<close> and the error of a forbidden scenario are the \<open>RuntimeError\<close>s they extend,
  \<open>UnknownIncidentError\<close> the \<open>KeyError\<close>.
\<close>

section \<open>The circuit breaker\<close>

datatype circuit_state = CB_CLOSED | CB_OPEN | CB_HALF_OPEN

record circuit_config =
  cf_failure_threshold :: int
  cf_recovery_timeout_seconds :: pyfloat

definition default_circuit_config :: circuit_config where
  "default_circuit_config = \<lparr>cf_failure_threshold = 5, cf_recovery_timeout_seconds = Fin 30\<rparr>"

record circuit =
  cb_name :: pystr
  cb_state :: circuit_state
  cb_failure_count :: int
  cb_opened_at :: "datetime option"

type_synonym circuits = "(pystr, circuit) dict"

definition new_circuit :: "pystr \<Rightarrow> circuit" where
  "new_circuit name = \<lparr>cb_name = name, cb_state = CB_CLOSED, cb_failure_count = 0, cb_opened_at = None\<rparr>"

text \<open>\<open>setdefault\<close>: looking at a circuit creates it. Every operation then changes the circuit in place.\<close>

definition circuit_for :: "pystr \<Rightarrow> circuits \<Rightarrow> circuit \<times> circuits" where
  "circuit_for name s =
     (case dict_get s name of Some c \<Rightarrow> (c, s) | None \<Rightarrow> (new_circuit name, dict_set name (new_circuit name) s))"

definition timeout_passed :: "circuit_config \<Rightarrow> timedelta \<Rightarrow> bool" where
  "timeout_passed cfg d \<longleftrightarrow> flt_le (cf_recovery_timeout_seconds cfg) (total_seconds d)"

definition allow_request :: "circuit_config \<Rightarrow> datetime \<Rightarrow> pystr \<Rightarrow> circuits \<Rightarrow> bool result \<times> circuits" where
  "allow_request cfg now name s =
     (let (c, s1) = circuit_for name s in
      if cb_state c = CB_OPEN then
        (case cb_opened_at c of
           None \<Rightarrow> (Inl AssertionError, s1)
         | Some opened \<Rightarrow>
             if timeout_passed cfg (now - opened)
             then (Inr True, dict_set name (c\<lparr>cb_state := CB_HALF_OPEN\<rparr>) s1)
             else (Inr False, s1))
      else (Inr True, s1))"

definition force_open :: "circuit_config \<Rightarrow> datetime \<Rightarrow> pystr \<Rightarrow> circuits \<Rightarrow> circuit \<times> circuits" where
  "force_open cfg now name s =
     (let (c, s1) = circuit_for name s;
          c' = c\<lparr>cb_state := CB_OPEN, cb_failure_count := cf_failure_threshold cfg, cb_opened_at := Some now\<rparr>
      in (c', dict_set name c' s1))"

definition circuit_success :: "pystr \<Rightarrow> circuits \<Rightarrow> circuits" where
  "circuit_success name s =
     (let (c, s1) = circuit_for name s
      in dict_set name (c\<lparr>cb_state := CB_CLOSED, cb_failure_count := 0, cb_opened_at := None\<rparr>) s1)"

definition circuit_failure :: "circuit_config \<Rightarrow> datetime \<Rightarrow> pystr \<Rightarrow> circuits \<Rightarrow> circuits" where
  "circuit_failure cfg now name s =
     (let (c, s1) = circuit_for name s;
          c1 = c\<lparr>cb_failure_count := cb_failure_count c + 1\<rparr>;
          should_open = (cb_state c1 = CB_HALF_OPEN \<or> cf_failure_threshold cfg \<le> cb_failure_count c1)
      in dict_set name (if should_open then c1\<lparr>cb_state := CB_OPEN, cb_opened_at := Some now\<rparr> else c1) s1)"

text \<open>
  \<open>call\<close> up to the point where the operation is awaited, and from there: other calls run in between.
  \<open>operation\<close> is what awaiting the operation gives or raises; the clock is read for its failure.
\<close>

definition circuit_call_start :: "circuit_config \<Rightarrow> datetime \<Rightarrow> pystr \<Rightarrow> circuits \<Rightarrow> unit result \<times> circuits" where
  "circuit_call_start cfg now name s =
     (case allow_request cfg now name s of
        (Inl e, s1) \<Rightarrow> (Inl e, s1)
      | (Inr False, s1) \<Rightarrow> (Inl (RuntimeError name), s1)
      | (Inr True, s1) \<Rightarrow> (Inr (), s1))"

definition circuit_call_end ::
  "circuit_config \<Rightarrow> datetime \<Rightarrow> pystr \<Rightarrow> 'a result \<Rightarrow> circuits \<Rightarrow> 'a result \<times> circuits" where
  "circuit_call_end cfg now name operation s =
     (case operation of
        Inl e \<Rightarrow> (Inl e, circuit_failure cfg now name s)
      | Inr v \<Rightarrow> (Inr v, circuit_success name s))"

text \<open>\<open>call\<close> with nothing in between; the flag tells whether the operation was invoked.\<close>

definition circuit_call ::
  "circuit_config \<Rightarrow> datetime \<Rightarrow> datetime \<Rightarrow> pystr \<Rightarrow> 'a result \<Rightarrow> circuits \<Rightarrow> 'a result \<times> bool \<times> circuits" where
  "circuit_call cfg now now2 name operation s =
     (case circuit_call_start cfg now name s of
        (Inl e, s1) \<Rightarrow> (Inl e, False, s1)
      | (Inr _, s1) \<Rightarrow> (let (r, s2) = circuit_call_end cfg now2 name operation s1 in (r, True, s2)))"

section \<open>Chaos scenarios\<close>

datatype chaos_scenario = CH_AI_PROVIDER_OUTAGE | CH_DATABASE_UNAVAILABLE | CH_NETWORK_CUT | CH_QUEUE_SATURATION

fun chaos_scenario_value :: "chaos_scenario \<Rightarrow> pystr" where
  "chaos_scenario_value CH_AI_PROVIDER_OUTAGE = ''ai_provider_outage''"
| "chaos_scenario_value CH_DATABASE_UNAVAILABLE = ''database_unavailable''"
| "chaos_scenario_value CH_NETWORK_CUT = ''network_cut''"
| "chaos_scenario_value CH_QUEUE_SATURATION = ''queue_saturation''"

fun chaos_dependency :: "chaos_scenario \<Rightarrow> pystr" where
  "chaos_dependency CH_AI_PROVIDER_OUTAGE = ''ai_fabric.provider''"
| "chaos_dependency CH_DATABASE_UNAVAILABLE = ''platform.database''"
| "chaos_dependency CH_NETWORK_CUT = ''integration_hub.connector''"
| "chaos_dependency CH_QUEUE_SATURATION = ''cloud_operations.queue''"

definition ensure_chaos_authorized :: "pystr \<Rightarrow> bool \<Rightarrow> pystr \<Rightarrow> unit result" where
  "ensure_chaos_authorized environment authorized scenario_name =
     (if environment = ''production'' \<and> \<not> authorized then Inl (RuntimeError scenario_name) else Inr ())"

definition run_chaos_scenario ::
  "circuit_config \<Rightarrow> datetime \<Rightarrow> pystr \<Rightarrow> chaos_scenario \<Rightarrow> bool \<Rightarrow> circuits \<Rightarrow> pystr result \<times> circuits" where
  "run_chaos_scenario cfg now environment scenario authorized s =
     (case ensure_chaos_authorized environment authorized (chaos_scenario_value scenario) of
        Inl e \<Rightarrow> (Inl e, s)
      | Inr _ \<Rightarrow>
          (let dependency = chaos_dependency scenario;
               s1 = snd (force_open cfg now dependency s)
           in (Inr (''Forced circuit '' @ [CHR 0x27] @ dependency @ [CHR 0x27] @ '' open to simulate '' @
                    chaos_scenario_value scenario), s1)))"

section \<open>What a circuit can be\<close>

text \<open>The calls on the breaker, one at a time and in any order, as concurrent callers make them.\<close>

datatype circuit_op =
    Cb_allow datetime pystr
  | Cb_success pystr
  | Cb_failure datetime pystr
  | Cb_force datetime pystr
  | Cb_look pystr

fun run_circuit_op :: "circuit_config \<Rightarrow> circuit_op \<Rightarrow> circuits \<Rightarrow> circuits" where
  "run_circuit_op cfg (Cb_allow now name) s = snd (allow_request cfg now name s)"
| "run_circuit_op cfg (Cb_success name) s = circuit_success name s"
| "run_circuit_op cfg (Cb_failure now name) s = circuit_failure cfg now name s"
| "run_circuit_op cfg (Cb_force now name) s = snd (force_open cfg now name s)"
| "run_circuit_op cfg (Cb_look name) s = snd (circuit_for name s)"

definition circuit_ok :: "circuit_config \<Rightarrow> circuit \<Rightarrow> bool" where
  "circuit_ok cfg c \<longleftrightarrow>
     (cb_state c = CB_CLOSED \<longleftrightarrow> cb_opened_at c = None) \<and>
     (cb_state c = CB_CLOSED \<longrightarrow> cb_failure_count c = 0 \<or> cb_failure_count c < cf_failure_threshold cfg) \<and>
     0 \<le> cb_failure_count c"

definition circuits_ok :: "circuit_config \<Rightarrow> circuits \<Rightarrow> bool" where
  "circuits_ok cfg s \<longleftrightarrow> (\<forall>name c. dict_get s name = Some c \<longrightarrow> circuit_ok cfg c \<and> cb_name c = name)"

lemma circuits_ok_set: "circuits_ok cfg s \<Longrightarrow> circuit_ok cfg c \<Longrightarrow> cb_name c = name \<Longrightarrow> circuits_ok cfg (dict_set name c s)"
  by (auto simp: circuits_ok_def update_conv split: if_splits)

lemma circuit_for_ok:
  assumes "circuits_ok cfg s" and "circuit_for name s = (c, s1)"
  shows "circuit_ok cfg c \<and> cb_name c = name \<and> circuits_ok cfg s1 \<and> dict_get s1 name = Some c"
  using assms
proof (cases "dict_get s name")
  case None
  have "circuit_ok cfg (new_circuit name)" and "cb_name (new_circuit name) = name" by (simp_all add: new_circuit_def circuit_ok_def)
  moreover have "c = new_circuit name" and "s1 = dict_set name (new_circuit name) s" using None assms(2) by (auto simp: circuit_for_def)
  ultimately show ?thesis using circuits_ok_set [OF assms(1)] by (simp add: update_conv)
next
  case (Some c')
  then show ?thesis using assms by (auto simp: circuit_for_def circuits_ok_def)
qed

lemma run_circuit_op_ok:
  assumes s: "circuits_ok cfg s" and th: "0 \<le> cf_failure_threshold cfg"
  shows "circuits_ok cfg (run_circuit_op cfg op s)"
proof -
  have for1: "circuit_ok cfg c \<and> cb_name c = name \<and> circuits_ok cfg s1" if "circuit_for name s = (c, s1)" for name c s1
    using circuit_for_ok [OF s that] by blast
  have look: "circuits_ok cfg (snd (circuit_for name s))" for name by (rule prod.exhaust [of "circuit_for name s"]) (simp add: for1)
  show ?thesis
    using th
    by (cases op)
       (auto simp: look allow_request_def circuit_success_def circuit_failure_def force_open_def Let_def circuit_ok_def
         dest!: for1 intro!: circuits_ok_set split: prod.splits option.splits)
qed

lemma circuits_reachable_ok:
  "0 \<le> cf_failure_threshold cfg \<Longrightarrow> circuits_ok cfg s \<Longrightarrow> circuits_ok cfg (fold (run_circuit_op cfg) ops s)"
  by (induction ops arbitrary: s) (simp_all add: run_circuit_op_ok)

subsection \<open>Failing calls\<close>

lemma flt_le_trans: "flt_le x y \<Longrightarrow> flt_le y z \<Longrightarrow> flt_le x z"
  by (cases x; cases y; cases z) (auto simp: flt_le_def)

lemma timeout_passed_mono: "timeout_passed cfg d \<Longrightarrow> 0 \<le> d \<Longrightarrow> d \<le> d' \<Longrightarrow> timeout_passed cfg d'"
  unfolding timeout_passed_def total_seconds_def
  by (erule flt_le_trans, rule round64_mono_nonneg) (simp_all add: divide_right_mono)

text \<open>
  Calls on one circuit whose operation always fails, at most \<open>k\<close> of them awaiting at once, while the
  circuit may be forced open, looked at, and others used: the time, the breaker, the number of calls
  awaiting and the times at which the operation was invoked. Calls begun before may still be awaiting.
\<close>

fun op_circuit :: "circuit_op \<Rightarrow> pystr" where
  "op_circuit (Cb_allow now name) = name"
| "op_circuit (Cb_success name) = name"
| "op_circuit (Cb_failure now name) = name"
| "op_circuit (Cb_force now name) = name"
| "op_circuit (Cb_look name) = name"

inductive failing_run ::
  "circuit_config \<Rightarrow> pystr \<Rightarrow> nat \<Rightarrow> datetime \<Rightarrow> circuits \<Rightarrow> datetime \<Rightarrow> circuits \<Rightarrow> nat \<Rightarrow> datetime list \<Rightarrow> bool"
  for cfg name k t0 s0 where
  before: "n \<le> k \<Longrightarrow> failing_run cfg name k t0 s0 t0 s0 n []"
| invoked: "failing_run cfg name k t0 s0 now s n ts \<Longrightarrow> now \<le> now' \<Longrightarrow> n < k \<Longrightarrow>
    circuit_call_start cfg now' name s = (Inr (), s') \<Longrightarrow> failing_run cfg name k t0 s0 now' s' (Suc n) (ts @ [now'])"
| refused: "failing_run cfg name k t0 s0 now s n ts \<Longrightarrow> now \<le> now' \<Longrightarrow>
    circuit_call_start cfg now' name s = (Inl e, s') \<Longrightarrow> failing_run cfg name k t0 s0 now' s' n ts"
| failed: "failing_run cfg name k t0 s0 now s (Suc n) ts \<Longrightarrow> now \<le> now' \<Longrightarrow>
    circuit_call_end cfg now' name (Inl e :: unit result) s = (r, s') \<Longrightarrow> failing_run cfg name k t0 s0 now' s' n ts"
| forced: "failing_run cfg name k t0 s0 now s n ts \<Longrightarrow> now \<le> now' \<Longrightarrow>
    failing_run cfg name k t0 s0 now' (snd (force_open cfg now' name s)) n ts"
| looked: "failing_run cfg name k t0 s0 now s n ts \<Longrightarrow> failing_run cfg name k t0 s0 now (snd (circuit_for name s)) n ts"
| other: "failing_run cfg name k t0 s0 now s n ts \<Longrightarrow> op_circuit op \<noteq> name \<Longrightarrow>
    failing_run cfg name k t0 s0 now (run_circuit_op cfg op s) n ts"

text \<open>
  Where such a run can be: closed, with every invocation counted or still awaiting; open, no
  invocation since; or half open, every invocation of the last stretch still awaiting.
\<close>

definition failing_state :: "circuit_config \<Rightarrow> timedelta \<Rightarrow> datetime \<Rightarrow> nat \<Rightarrow> datetime list \<Rightarrow> circuit \<Rightarrow> bool" where
  "failing_state cfg width now n ts c \<longleftrightarrow> 0 \<le> cb_failure_count c \<and> (\<forall>t \<in> set ts. t \<le> now) \<and>
     (case cb_state c of
        CB_CLOSED \<Rightarrow> int (length ts) \<le> cb_failure_count c + int n \<and>
          (cb_failure_count c = 0 \<or> cb_failure_count c < cf_failure_threshold cfg)
      | CB_OPEN \<Rightarrow> \<exists>opened. cb_opened_at c = Some opened \<and> opened \<le> now \<and> (\<forall>t \<in> set ts. t \<le> opened)
      | CB_HALF_OPEN \<Rightarrow> length (filter (\<lambda>t. now - width \<le> t) ts) \<le> n)"

definition circuit_of :: "pystr \<Rightarrow> circuits \<Rightarrow> circuit" where
  "circuit_of name s = fst (circuit_for name s)"

lemma circuit_of_set [simp]: "circuit_of name (dict_set name c s) = c"
  by (simp add: circuit_of_def circuit_for_def update_conv)

lemma circuit_of_other [simp]: "other \<noteq> name \<Longrightarrow> circuit_of name (dict_set other c s) = circuit_of name s"
  by (simp add: circuit_of_def circuit_for_def update_conv split: option.splits)

lemma circuit_of_look [simp]: "circuit_of name (snd (circuit_for other s)) = circuit_of name s"
  by (auto simp: circuit_of_def circuit_for_def update_conv split: option.splits)

lemma circuit_for_elim:
  obtains c s1 where "circuit_for name s = (c, s1)" and "circuit_of name s = c"
    and "\<And>other. circuit_of other s1 = circuit_of other s"
proof (rule prod.exhaust [of "circuit_for name s"])
  fix c s1 assume eq: "circuit_for name s = (c, s1)"
  then have "circuit_of other s1 = circuit_of other s" for other
    using circuit_of_look [of other name s] by simp
  with eq show ?thesis by (intro that [of c s1]) (simp_all add: circuit_of_def)
qed

lemma circuit_of_failure:
  "circuit_of name (circuit_failure cfg now name s) =
     (let c = (circuit_of name s)\<lparr>cb_failure_count := cb_failure_count (circuit_of name s) + 1\<rparr>
      in if cb_state c = CB_HALF_OPEN \<or> cf_failure_threshold cfg \<le> cb_failure_count c
         then c\<lparr>cb_state := CB_OPEN, cb_opened_at := Some now\<rparr> else c)"
  by (rule circuit_for_elim [of name s]) (simp add: circuit_failure_def Let_def)

lemma circuit_of_force:
  "circuit_of name (snd (force_open cfg now name s)) =
     (circuit_of name s)\<lparr>cb_state := CB_OPEN, cb_failure_count := cf_failure_threshold cfg, cb_opened_at := Some now\<rparr>"
  by (rule circuit_for_elim [of name s]) (simp add: force_open_def Let_def)

lemma circuit_of_start:
  assumes "circuit_call_start cfg now name s = (r, s')"
  shows "circuit_of name s' =
     (if r = Inr () \<and> cb_state (circuit_of name s) = CB_OPEN then (circuit_of name s)\<lparr>cb_state := CB_HALF_OPEN\<rparr>
      else circuit_of name s) \<and>
     (r = Inr () \<longrightarrow> cb_state (circuit_of name s) = CB_OPEN \<longrightarrow>
        (\<forall>opened. cb_opened_at (circuit_of name s) = Some opened \<longrightarrow> timeout_passed cfg (now - opened)))"
  by (rule circuit_for_elim [of name s])
    (use assms in \<open>auto simp: circuit_call_start_def allow_request_def split: option.splits if_splits\<close>)

lemma circuit_of_run_other:
  assumes "op_circuit op \<noteq> name"
  shows "circuit_of name (run_circuit_op cfg op s) = circuit_of name s"
  by (rule circuit_for_elim [of "op_circuit op" s], cases op)
    (use assms in \<open>auto simp: allow_request_def circuit_success_def circuit_failure_def force_open_def Let_def
      split: option.splits\<close>)

lemma failing_state_later:
  assumes "failing_state cfg width now n ts c" and "now \<le> now'"
  shows "failing_state cfg width now' n ts c"
proof -
  have "length (filter (\<lambda>t. now' - width \<le> t) ts) \<le> length (filter (\<lambda>t. now - width \<le> t) ts)"
    by (rule length_filter_mono) (use assms(2) in linarith)
  then show ?thesis using assms unfolding failing_state_def by (cases "cb_state c") fastforce+
qed

lemma failing_run_step:
  assumes "failing_run cfg name k t0 s0 now s n ts"
    and width: "0 \<le> width" "\<not> timeout_passed cfg width" and th: "0 \<le> cf_failure_threshold cfg"
    and s0: "failing_state cfg width t0 0 [] (circuit_of name s0)"
  shows "n \<le> k \<and> failing_state cfg width now n ts (circuit_of name s) \<and>
     windows_bounded width (max 1 (cf_failure_threshold cfg) + int k - 1) ts"
  using assms(1)
proof induction
  case (before n)
  then show ?case using s0 by (auto simp: failing_state_def split: circuit_state.splits)
next
  case (invoked now s n ts now' s')
  let ?c = "circuit_of name s"
  from invoked.IH have st: "failing_state cfg width now' n ts ?c"
    and w: "windows_bounded width (max 1 (cf_failure_threshold cfg) + int k - 1) ts"
    using failing_state_later [OF _ invoked.hyps(2)] by blast+
  note start = circuit_of_start [OF invoked.hyps(4)]
  obtain m where m: "m = length (filter (\<lambda>t. now' - width \<le> t) ts)" and le: "m \<le> length ts"
    using length_filter_le [of "\<lambda>t. now' - width \<le> t" ts] by blast
  have few: "int m < max 1 (cf_failure_threshold cfg) + int k - 1 \<and>
      failing_state cfg width now' (Suc n) (ts @ [now']) (circuit_of name s')"
  proof (cases "cb_state ?c")
    case CB_CLOSED
    then show ?thesis using st start le invoked.hyps(3) by (auto simp: failing_state_def)
  next
    case CB_OPEN
    then obtain opened where o: "cb_opened_at ?c = Some opened" "opened \<le> now'" "\<forall>t \<in> set ts. t \<le> opened"
      using st by (auto simp: failing_state_def)
    with CB_OPEN start have "timeout_passed cfg (now' - opened)" by blast
    with timeout_passed_mono [of cfg "now' - opened" width] width o(2) have "width < now' - opened" by linarith
    with o(3) have none: "filter (\<lambda>t. now' - width \<le> t) ts = []" by (fastforce simp: filter_empty_conv)
    then show ?thesis using CB_OPEN st start invoked.hyps(3) by (auto simp: failing_state_def m)
  next
    case CB_HALF_OPEN
    then show ?thesis using st start invoked.hyps(3) by (auto simp: failing_state_def m)
  qed
  with w windows_bounded_snoc [of width _ ts now' now'] invoked.hyps(3) show ?case unfolding m by auto
next
  case (refused now s n ts now' e s')
  then show ?case using circuit_of_start [OF refused.hyps(3)] failing_state_later [OF _ refused.hyps(2)] by simp
next
  case (failed now s n ts now' e r s')
  then have s': "s' = circuit_failure cfg now' name s" by (simp add: circuit_call_end_def)
  from failed.IH have "failing_state cfg width now' (Suc n) ts (circuit_of name s)"
    using failing_state_later [OF _ failed.hyps(2)] by blast
  then have "failing_state cfg width now' n ts (circuit_of name s')"
    unfolding s' circuit_of_failure Let_def
    by (cases "cb_state (circuit_of name s)") (auto simp: failing_state_def)
  then show ?case using failed.IH by simp
next
  case (forced now s n ts now')
  have "failing_state cfg width now' n ts (circuit_of name s)"
    using forced.IH failing_state_later [OF _ forced.hyps(2)] by blast
  then have "failing_state cfg width now' n ts (circuit_of name (snd (force_open cfg now' name s)))"
    unfolding circuit_of_force using th by (simp add: failing_state_def)
  then show ?case using forced.IH by simp
next
  case (looked now s n ts)
  then show ?case by simp
next
  case (other now s n ts op)
  then show ?case by (simp add: circuit_of_run_other)
qed

text \<open>The bound is met: calls that fail one by one up to the threshold, less one, and then \<open>k\<close> at once.\<close>

lemma failing_run_one_by_one:
  "int m < cf_failure_threshold cfg \<Longrightarrow>
     \<exists>s. failing_run cfg name k 0 [] 0 s 0 (replicate m 0) \<and>
         circuit_of name s = (new_circuit name)\<lparr>cb_failure_count := int m\<rparr>" if "0 < k"
proof (induction m)
  case 0
  have "failing_run cfg name k 0 [] 0 [] 0 []" by (rule failing_run.before) simp
  then show ?case by (intro exI [of _ "[]"]) (simp add: circuit_of_def circuit_for_def new_circuit_def)
next
  case (Suc m)
  then obtain s where run: "failing_run cfg name k 0 [] 0 s 0 (replicate m 0)"
    and c: "circuit_of name s = (new_circuit name)\<lparr>cb_failure_count := int m\<rparr>" by auto
  obtain s1 where start: "circuit_call_start cfg 0 name s = (Inr (), s1)" and c1: "circuit_of name s1 = circuit_of name s"
    by (rule circuit_for_elim [of name s])
      (use c in \<open>auto simp: circuit_call_start_def allow_request_def new_circuit_def\<close>)
  have "failing_run cfg name k 0 [] 0 s1 (Suc 0) (replicate m 0 @ [0])"
    by (rule failing_run.invoked [OF run _ _ start]) (use \<open>0 < k\<close> in simp_all)
  then have "failing_run cfg name k 0 [] 0 (circuit_failure cfg 0 name s1) 0 (replicate m 0 @ [0])"
    by (rule failing_run.failed [where e = TimeoutError]) (simp_all add: circuit_call_end_def)
  moreover have "circuit_of name (circuit_failure cfg 0 name s1) = (new_circuit name)\<lparr>cb_failure_count := int (Suc m)\<rparr>"
    unfolding circuit_of_failure c1 c Let_def using Suc.prems by (simp add: new_circuit_def)
  ultimately show ?case by (intro exI [of _ "circuit_failure cfg 0 name s1"]) (simp add: replicate_append_same)
qed

lemma failing_run_at_once:
  assumes "failing_run cfg name k 0 [] 0 s 0 ts" and "cb_state (circuit_of name s) = CB_CLOSED"
  shows "n \<le> k \<Longrightarrow> \<exists>s'. failing_run cfg name k 0 [] 0 s' n (ts @ replicate n 0) \<and> circuit_of name s' = circuit_of name s"
proof (induction n)
  case 0
  then show ?case using assms(1) by (intro exI [of _ s]) simp
next
  case (Suc n)
  then obtain s' where run: "failing_run cfg name k 0 [] 0 s' n (ts @ replicate n 0)"
    and c: "circuit_of name s' = circuit_of name s" by auto
  obtain s1 where start: "circuit_call_start cfg 0 name s' = (Inr (), s1)" and c1: "circuit_of name s1 = circuit_of name s'"
    by (rule circuit_for_elim [of name s'])
      (use c assms(2) in \<open>auto simp: circuit_call_start_def allow_request_def\<close>)
  have "failing_run cfg name k 0 [] 0 s1 (Suc n) ((ts @ replicate n 0) @ [0])"
    by (rule failing_run.invoked [OF run _ _ start]) (use Suc.prems in simp_all)
  with c c1 show ?case by (intro exI [of _ s1]) (simp add: replicate_append_same)
qed

lemma failing_bound_met:
  assumes "1 \<le> cf_failure_threshold cfg" and "0 < k"
  shows "\<exists>s n ts. failing_run cfg name k 0 [] 0 s n ts \<and>
     calls_between 0 0 ts = cf_failure_threshold cfg + int k - 1"
proof -
  let ?m = "nat (cf_failure_threshold cfg - 1)"
  obtain s where run: "failing_run cfg name k 0 [] 0 s 0 (replicate ?m 0)"
    and c: "circuit_of name s = (new_circuit name)\<lparr>cb_failure_count := int ?m\<rparr>"
    using failing_run_one_by_one [OF assms(2), of ?m cfg name] assms(1) by auto
  have "cb_state (circuit_of name s) = CB_CLOSED" by (simp add: c new_circuit_def)
  from failing_run_at_once [OF run this order_refl]
  obtain s' where "failing_run cfg name k 0 [] 0 s' k (replicate ?m 0 @ replicate k 0)" by blast
  then show ?thesis
    using assms by (intro exI [of _ s'] exI [of _ k] exI [of _ "replicate ?m 0 @ replicate k 0"]) (simp add: calls_between_def)
qed

section \<open>Incidents\<close>

datatype incident_status = IC_OPEN | IC_INVESTIGATING | IC_RESOLVED | IC_POST_MORTEM | IC_CLOSED

datatype incident_severity = IS_LOW | IS_MEDIUM | IS_HIGH | IS_CRITICAL

record incident_update =
  iu_id :: pystr
  iu_incident_id :: pystr
  iu_message :: pystr
  iu_author :: pystr
  iu_created_at :: datetime

record incident =
  inc_id :: pystr
  inc_title :: pystr
  inc_description :: pystr
  inc_severity :: incident_severity
  inc_status :: incident_status
  inc_firm_id :: "pystr option"
  inc_opened_at :: datetime
  inc_resolved_at :: "datetime option"
  inc_post_mortem :: "pystr option"

record post_mortem_report =
  pm_incident_id :: pystr
  pm_title :: pystr
  pm_severity :: incident_severity
  pm_summary :: pystr
  pm_root_cause :: pystr
  pm_impact :: pystr
  pm_resolution :: pystr
  pm_action_items :: "pystr list"
  pm_duration_minutes :: pyfloat

record incident_desk =
  id_incidents :: "(pystr, incident) dict"
  id_updates :: "incident_update list"

definition incident_get :: "incident_desk \<Rightarrow> pystr \<Rightarrow> incident option" where
  "incident_get s incident_id = dict_get (id_incidents s) incident_id"

definition incident_save :: "incident \<Rightarrow> incident_desk \<Rightarrow> incident_desk" where
  "incident_save i s = s\<lparr>id_incidents := dict_set (inc_id i) i (id_incidents s)\<rparr>"

definition incidents_keyed :: "incident_desk \<Rightarrow> bool" where
  "incidents_keyed s \<longleftrightarrow> keyed inc_id (id_incidents s)"

interpretation incident_rows: keyed_store inc_id incident_save incident_get incidents_keyed
  by unfold_locales (auto simp: incident_save_def incident_get_def incidents_keyed_def update_conv dest: keyed_get)

definition incident_live :: "incident \<Rightarrow> bool" where
  "incident_live i \<longleftrightarrow> inc_status i \<noteq> IC_RESOLVED \<and> inc_status i \<noteq> IC_POST_MORTEM \<and> inc_status i \<noteq> IC_CLOSED"

definition list_open_incidents :: "pystr option \<Rightarrow> incident_desk \<Rightarrow> incident list" where
  "list_open_incidents firm s =
     filter (\<lambda>i. incident_live i \<and> (firm = None \<or> inc_firm_id i = firm)) (dict_values (id_incidents s))"

definition list_all_incidents :: "pystr option \<Rightarrow> incident_desk \<Rightarrow> incident list" where
  "list_all_incidents firm s = filter (\<lambda>i. firm = None \<or> inc_firm_id i = firm) (dict_values (id_incidents s))"

definition incident_timeline :: "pystr \<Rightarrow> incident_desk \<Rightarrow> incident_update list" where
  "incident_timeline incident_id s = filter (\<lambda>u. iu_incident_id u = incident_id) (id_updates s)"

definition open_incident ::
  "pystr \<Rightarrow> datetime \<Rightarrow> pystr \<Rightarrow> pystr \<Rightarrow> incident_severity \<Rightarrow> pystr option \<Rightarrow> incident_desk \<Rightarrow> incident \<times> incident_desk" where
  "open_incident new_id now title description severity firm s =
     (let i = \<lparr>inc_id = new_id, inc_title = title, inc_description = description, inc_severity = severity,
               inc_status = IC_OPEN, inc_firm_id = firm, inc_opened_at = now, inc_resolved_at = None, inc_post_mortem = None\<rparr>
      in (i, incident_save i s))"

definition require_incident :: "incident_desk \<Rightarrow> pystr \<Rightarrow> incident result" where
  "require_incident s incident_id = (case incident_get s incident_id of None \<Rightarrow> Inl (KeyError incident_id) | Some i \<Rightarrow> Inr i)"

definition track_incident ::
  "pystr \<Rightarrow> datetime \<Rightarrow> pystr \<Rightarrow> pystr \<Rightarrow> pystr \<Rightarrow> incident_desk \<Rightarrow> (incident_update \<times> incident_desk) result" where
  "track_incident new_id now incident_id message author s =
     res_bind (require_incident s incident_id)
       (\<lambda>i. let s1 = (if inc_status i = IC_OPEN then incident_save (i\<lparr>inc_status := IC_INVESTIGATING\<rparr>) s else s);
                u = \<lparr>iu_id = new_id, iu_incident_id = incident_id, iu_message = message, iu_author = author,
                     iu_created_at = now\<rparr>
            in Inr (u, s1\<lparr>id_updates := id_updates s1 @ [u]\<rparr>))"

definition resolve_incident :: "datetime \<Rightarrow> pystr \<Rightarrow> incident_desk \<Rightarrow> (incident \<times> incident_desk) result" where
  "resolve_incident now incident_id s =
     res_bind (require_incident s incident_id)
       (\<lambda>i. let i' = i\<lparr>inc_status := IC_RESOLVED, inc_resolved_at := Some now\<rparr> in Inr (i', incident_save i' s))"

definition record_post_mortem ::
  "datetime \<Rightarrow> pystr \<Rightarrow> pystr \<Rightarrow> pystr \<Rightarrow> pystr \<Rightarrow> pystr list \<Rightarrow> incident_desk
     \<Rightarrow> (post_mortem_report \<times> incident_desk) result" where
  "record_post_mortem now incident_id root_cause impact resolution action_items s =
     res_bind (require_incident s incident_id)
       (\<lambda>i. let i' = i\<lparr>inc_status := IC_POST_MORTEM, inc_post_mortem := Some root_cause\<rparr>;
                resolved_at = (case inc_resolved_at i' of None \<Rightarrow> now | Some t \<Rightarrow> t)
            in res_bind (flt_div (total_seconds (resolved_at - inc_opened_at i')) (Fin 60))
                 (\<lambda>mins. Inr (\<lparr>pm_incident_id = inc_id i', pm_title = inc_title i', pm_severity = inc_severity i',
                    pm_summary = inc_description i', pm_root_cause = root_cause, pm_impact = impact,
                    pm_resolution = resolution, pm_action_items = action_items, pm_duration_minutes = mins\<rparr>,
                    incident_save i' s)))"

definition close_incident :: "pystr \<Rightarrow> incident_desk \<Rightarrow> (incident \<times> incident_desk) result" where
  "close_incident incident_id s =
     res_bind (require_incident s incident_id)
       (\<lambda>i. let i' = i\<lparr>inc_status := IC_CLOSED\<rparr> in Inr (i', incident_save i' s))"

text \<open>The operations as steps; a new incident has a new identifier.\<close>

inductive incident_step :: "incident_desk \<Rightarrow> incident_desk \<Rightarrow> bool" where
  open_: "incident_get s new_id = None \<Longrightarrow> open_incident new_id now title description severity firm s = (i, s') \<Longrightarrow> incident_step s s'"
| track: "track_incident new_id now incident_id message author s = Inr (u, s') \<Longrightarrow> incident_step s s'"
| resolve: "resolve_incident now incident_id s = Inr (i, s') \<Longrightarrow> incident_step s s'"
| report: "record_post_mortem now incident_id root_cause impact resolution action_items s = Inr (rep, s') \<Longrightarrow> incident_step s s'"
| close: "close_incident incident_id s = Inr (i, s') \<Longrightarrow> incident_step s s'"

text \<open>What never changes of an incident, and that it never comes back to life.\<close>

definition incident_follows :: "incident \<Rightarrow> incident \<Rightarrow> bool" where
  "incident_follows i j \<longleftrightarrow> inc_id j = inc_id i \<and> inc_opened_at j = inc_opened_at i \<and> inc_firm_id j = inc_firm_id i \<and>
     inc_severity j = inc_severity i \<and> (incident_live j \<longrightarrow> incident_live i \<and> inc_resolved_at j = inc_resolved_at i) \<and>
     (inc_resolved_at i \<noteq> None \<longrightarrow> inc_resolved_at j \<noteq> None)"

lemma incident_follows_refl: "incident_follows i i"
  by (simp add: incident_follows_def)

lemma incident_follows_trans: "incident_follows i j \<Longrightarrow> incident_follows j k \<Longrightarrow> incident_follows i k"
  by (auto simp: incident_follows_def)

definition desk_follows :: "incident_desk \<Rightarrow> incident_desk \<Rightarrow> bool" where
  "desk_follows s s' \<longleftrightarrow> (\<forall>k i. incident_get s k = Some i \<longrightarrow> (\<exists>j. incident_get s' k = Some j \<and> incident_follows i j)) \<and>
     (\<exists>tail. id_updates s' = id_updates s @ tail)"

lemma desk_follows_save:
  assumes "incidents_keyed s" and "incident_get s (inc_id j) = Some i" and "incident_follows i j" and "id_updates s' = id_updates s @ tail"
    and "\<And>k. incident_get s' k = incident_get (incident_save j s) k"
  shows "desk_follows s s'"
  unfolding desk_follows_def
proof (intro conjI allI impI)
  fix k x assume k: "incident_get s k = Some x"
  show "\<exists>y. incident_get s' k = Some y \<and> incident_follows x y"
    using assms(2,3) k incident_follows_refl by (cases "k = inc_id j") (auto simp: assms(5) incident_rows.get_put)
qed (use assms(4) in blast)

lemma incident_step_follows:
  assumes "incident_step s s'" and wf: "incidents_keyed s"
  shows "incidents_keyed s' \<and> desk_follows s s'"
  using assms(1)
proof cases
  case (open_ new_id now title description severity firm i)
  then have s': "s' = incident_save i s" and id: "inc_id i = new_id" by (auto simp: open_incident_def Let_def)
  have "\<exists>j. incident_get s' k = Some j \<and> incident_follows x j" if "incident_get s k = Some x" for k x
    using that open_(1) id incident_follows_refl by (cases "k = new_id") (auto simp: s' incident_rows.get_put)
  moreover have "\<exists>tail. id_updates s' = id_updates s @ tail" by (simp add: s' incident_save_def)
  ultimately show ?thesis using incident_rows.wf_put [OF wf, of i] by (simp add: s' desk_follows_def)
next
  case (track new_id now incident_id message author u)
  then obtain i where get: "incident_get s incident_id = Some i"
    and s': "s' = (let s1 = (if inc_status i = IC_OPEN then incident_save (i\<lparr>inc_status := IC_INVESTIGATING\<rparr>) s else s) in s1\<lparr>id_updates := id_updates s1 @ [u]\<rparr>)"
    by (auto simp: track_incident_def require_incident_def Let_def split: option.splits)
  have id: "inc_id i = incident_id" using wf get by (rule incident_rows.get_key)
  let ?j = "if inc_status i = IC_OPEN then i\<lparr>inc_status := IC_INVESTIGATING\<rparr> else i"
  have f: "incident_follows i ?j" by (simp add: incident_follows_def incident_live_def)
  have g: "incident_get s' k = incident_get (incident_save ?j s) k" for k
    using get id by (auto simp: s' Let_def incident_get_def incident_save_def update_conv)
  have "desk_follows s s'"
    by (rule desk_follows_save [OF wf _ f _ g, where tail = "[u]"]) (use get id in \<open>simp_all add: s' Let_def incident_save_def\<close>)
  moreover have "incidents_keyed s'"
    using wf incident_rows.wf_put [OF wf, of ?j] by (auto simp: s' Let_def incidents_keyed_def split: if_splits)
  ultimately show ?thesis by blast
next
  case (resolve now incident_id i')
  then obtain i where get: "incident_get s incident_id = Some i" and i': "i' = i\<lparr>inc_status := IC_RESOLVED, inc_resolved_at := Some now\<rparr>"
    and s': "s' = incident_save i' s" by (auto simp: resolve_incident_def require_incident_def Let_def split: option.splits)
  have "inc_id i = incident_id" using wf get by (rule incident_rows.get_key)
  then have "desk_follows s s'"
    by (intro desk_follows_save [OF wf, where i = i and j = i' and tail = "[]"])
      (use get in \<open>simp_all add: s' i' incident_follows_def incident_live_def incident_save_def\<close>)
  then show ?thesis using incident_rows.wf_put [OF wf] s' by simp
next
  case (report now incident_id root_cause impact resolution action_items rep)
  then obtain i where get: "incident_get s incident_id = Some i"
    and s': "s' = incident_save (i\<lparr>inc_status := IC_POST_MORTEM, inc_post_mortem := Some root_cause\<rparr>) s"
    by (auto simp: record_post_mortem_def require_incident_def Let_def res_bind_Inr_iff split: option.splits)
  have "inc_id i = incident_id" using wf get by (rule incident_rows.get_key)
  then have "desk_follows s s'"
    by (intro desk_follows_save [OF wf, where i = i and j = "i\<lparr>inc_status := IC_POST_MORTEM, inc_post_mortem := Some root_cause\<rparr>" and tail = "[]"])
      (use get in \<open>simp_all add: s' incident_follows_def incident_live_def incident_save_def\<close>)
  then show ?thesis using incident_rows.wf_put [OF wf] s' by simp
next
  case (close incident_id i')
  then obtain i where get: "incident_get s incident_id = Some i" and i': "i' = i\<lparr>inc_status := IC_CLOSED\<rparr>"
    and s': "s' = incident_save i' s" by (auto simp: close_incident_def require_incident_def Let_def split: option.splits)
  have "inc_id i = incident_id" using wf get by (rule incident_rows.get_key)
  then have "desk_follows s s'"
    by (intro desk_follows_save [OF wf, where i = i and j = i' and tail = "[]"])
      (use get in \<open>simp_all add: s' i' incident_follows_def incident_live_def incident_save_def\<close>)
  then show ?thesis using incident_rows.wf_put [OF wf] s' by simp
qed

lemma desk_follows_trans:
  assumes "desk_follows s t" and "desk_follows t u"
  shows "desk_follows s u"
proof -
  obtain as bs where "id_updates t = id_updates s @ as" "id_updates u = id_updates t @ bs"
    using assms unfolding desk_follows_def by blast
  then have "id_updates u = id_updates s @ (as @ bs)" by simp
  moreover have "\<exists>j. incident_get u k = Some j \<and> incident_follows i j" if "incident_get s k = Some i" for k i
    using assms that unfolding desk_follows_def by (meson incident_follows_trans)
  ultimately show ?thesis unfolding desk_follows_def by blast
qed

lemma incident_steps_follow:
  assumes "incident_step\<^sup>*\<^sup>* s s'" and "incidents_keyed s"
  shows "incidents_keyed s' \<and> desk_follows s s'"
  using assms
proof (induction rule: rtranclp_induct)
  case base
  then show ?case by (auto simp: desk_follows_def intro: incident_follows_refl)
next
  case (step t u)
  then have t: "incidents_keyed t" "desk_follows s t" by blast+
  have "incidents_keyed u" and u: "desk_follows t u" using incident_step_follows [OF step.hyps(2) t(1)] by blast+
  moreover have "desk_follows s u"
    by (rule desk_follows_trans [OF t(2) u])
  ultimately show ?case by blast
qed

section \<open>Properties\<close>

text \<open>
  The breaker lets through exactly what it should: after any interleaving of requests, successes,
  failures, forced openings and looks, a call is refused, without invoking the operation and without
  any change, exactly when the circuit was opened less than the recovery timeout ago; otherwise the
  operation is invoked, and when it succeeds the circuit is as good as new.
\<close>

theorem breaker_lets_through:
  assumes "0 \<le> cf_failure_threshold cfg"
  shows "let s = fold (run_circuit_op cfg) ops [];
      (r, invoked, s') = circuit_call cfg now now2 name (Inr v) s in
    (if \<exists>c opened. dict_get s name = Some c \<and> cb_state c = CB_OPEN \<and> cb_opened_at c = Some opened \<and>
          \<not> timeout_passed cfg (now - opened)
     then r = Inl (RuntimeError name) \<and> \<not> invoked \<and> s' = s
     else r = Inr v \<and> invoked \<and> dict_get s' name = Some (new_circuit name))"
proof -
  let ?s = "fold (run_circuit_op cfg) ops []"
  have ok: "circuits_ok cfg ?s" by (rule circuits_reachable_ok [OF assms]) (simp add: circuits_ok_def)
  have good: "dict_get (circuit_success name t) name = Some (new_circuit name)" if "dict_get t name = Some c" "cb_name c = name" for t c
    using that by (cases c) (simp add: circuit_success_def circuit_for_def new_circuit_def update_conv)
  show ?thesis
  proof (cases "dict_get ?s name")
    case None
    then show ?thesis using good [of "dict_set name (new_circuit name) ?s" "new_circuit name"]
      by (simp add: circuit_call_def circuit_call_start_def circuit_call_end_def allow_request_def circuit_for_def new_circuit_def update_conv)
  next
    case (Some c)
    then have c: "circuit_ok cfg c" "cb_name c = name" using ok by (auto simp: circuits_ok_def)
    show ?thesis
    proof (cases "cb_state c = CB_OPEN")
      case False
      then show ?thesis using Some good [OF Some c(2)] by (simp add: circuit_call_def circuit_call_start_def circuit_call_end_def allow_request_def circuit_for_def)
    next
      case True
      then obtain opened where "cb_opened_at c = Some opened" using c(1) by (cases "cb_opened_at c") (auto simp: circuit_ok_def)
      then show ?thesis
        using Some True c(2) good [of "dict_set name (c\<lparr>cb_state := CB_HALF_OPEN\<rparr>) ?s" "c\<lparr>cb_state := CB_HALF_OPEN\<rparr>"]
        by (simp add: circuit_call_def circuit_call_start_def circuit_call_end_def allow_request_def circuit_for_def update_conv)
    qed
  qed
qed

lemma breaker_lets_through_witness:
  "circuit_call default_circuit_config 10 10 ''db'' (Inr True)
     (fold (run_circuit_op default_circuit_config) [Cb_force 0 ''db''] []) =
   (Inl (RuntimeError ''db''), False, fold (run_circuit_op default_circuit_config) [Cb_force 0 ''db''] [])"
proof -
  have t: "\<not> timeout_passed default_circuit_config 10"
    using round64_mono_nonneg [of "10 / 1000000" 1] round64_int [of 1]
    by (cases "round64 (10 / 1000000)") (auto simp: timeout_passed_def total_seconds_def default_circuit_config_def flt_le_def)
  have "0 \<le> cf_failure_threshold default_circuit_config" by (simp add: default_circuit_config_def)
  from breaker_lets_through [OF this, of "[Cb_force 0 ''db'']" 10 10 "''db''" True] t
  show ?thesis
    by (simp add: force_open_def circuit_for_def new_circuit_def default_circuit_config_def Let_def split: prod.splits)
qed



text \<open>
  Incidents: whatever operations follow, an incident keeps its identifier, its firm, its severity and the
  date it was opened, its timeline only grows, and once it was resolved, reported on or closed it is
  never listed as open again.
\<close>

theorem incidents_never_reopen:
  assumes "incidents_keyed s" and "incident_get s k = Some i" and "incident_step\<^sup>*\<^sup>* s s'"
  shows "\<exists>j. incident_get s' k = Some j \<and> inc_id j = inc_id i \<and> inc_opened_at j = inc_opened_at i \<and>
      inc_firm_id j = inc_firm_id i \<and> inc_severity j = inc_severity i \<and>
      (i \<notin> set (list_open_incidents None s) \<longrightarrow> j \<notin> set (list_open_incidents None s')) \<and>
      (\<exists>tail. incident_timeline k s' = incident_timeline k s @ tail)"
proof -
  have k: "incidents_keyed s'" and f: "desk_follows s s'" using incident_steps_follow [OF assms(3,1)] by blast+
  obtain j where j: "incident_get s' k = Some j" "incident_follows i j" using f assms(2) unfolding desk_follows_def by blast
  obtain tail where t: "id_updates s' = id_updates s @ tail" using f unfolding desk_follows_def by blast
  have listed: "x \<in> set (list_open_incidents None t) \<longleftrightarrow> incident_live x" if "incident_get t k = Some x" for x t
  proof -
    have "(k, x) \<in> set (id_incidents t)" using that unfolding incident_get_def by (rule map_of_SomeD)
    then have "x \<in> snd ` set (id_incidents t)" by force
    then show ?thesis by (simp add: list_open_incidents_def)
  qed
  have "\<exists>tail. incident_timeline k s' = incident_timeline k s @ tail" by (simp add: incident_timeline_def t)
  then show ?thesis
    using j listed [OF j(1)] listed [OF assms(2)] by (intro exI [of _ j]) (auto simp: incident_follows_def)
qed

lemma incidents_never_reopen_witness:
  "let s1 = snd (open_incident ''i1'' 5 ''Panne'' ''-'' IS_HIGH None \<lparr>id_incidents = [], id_updates = []\<rparr>) in
   \<exists>i s2 u s3 j. resolve_incident 9 ''i1'' s1 = Inr (i, s2) \<and> track_incident ''u1'' 10 ''i1'' ''?'' ''ann'' s2 = Inr (u, s3) \<and>
     incident_get s3 ''i1'' = Some j \<and> j \<notin> set (list_open_incidents None s3)"
proof -
  let ?s1 = "snd (open_incident ''i1'' 5 ''Panne'' ''-'' IS_HIGH None \<lparr>id_incidents = [], id_updates = []\<rparr>)"
  have k: "incidents_keyed ?s1" by (simp add: open_incident_def incident_save_def incidents_keyed_def keyed_def Let_def)
  have "\<exists>i s2. resolve_incident 9 ''i1'' ?s1 = Inr (i, s2) \<and> incident_get s2 ''i1'' = Some i \<and> inc_status i = IC_RESOLVED"
    by (simp add: open_incident_def incident_save_def incident_get_def resolve_incident_def require_incident_def Let_def)
  then obtain i s2 where r: "resolve_incident 9 ''i1'' ?s1 = Inr (i, s2)" and get: "incident_get s2 ''i1'' = Some i"
    and st: "inc_status i = IC_RESOLVED" by blast
  have k2: "incidents_keyed s2" using incident_step_follows [OF incident_step.resolve [OF r] k] by blast
  have "\<exists>u s3. track_incident ''u1'' 10 ''i1'' ''?'' ''ann'' s2 = Inr (u, s3)"
    using get by (simp add: track_incident_def require_incident_def Let_def)
  then obtain u s3 where t: "track_incident ''u1'' 10 ''i1'' ''?'' ''ann'' s2 = Inr (u, s3)" by blast
  have step: "incident_step\<^sup>*\<^sup>* s2 s3" using incident_step.track [OF t] by blast
  have "i \<notin> set (list_open_incidents None s2)" using st by (simp add: list_open_incidents_def incident_live_def)
  with incidents_never_reopen [OF k2 get step] r t show ?thesis unfolding Let_def by blast
qed

end
