(* ===== verification/RetriedWork.thy ===== *)
theory RetriedWork
  imports RateLimits "HOL-Library.Product_Lexorder"
begin

text \<open>
  What the queues of work that is retried have in common: those of the integration hub, of the AI team and
  of the runtime platform. Items have a number of attempts and a limit; starting one counts an attempt,
  a failure lets it run again only below the limit. The next item is the first in an order among those
  that may run.
\<close>

section \<open>The first in an order\<close>

text \<open>\<open>candidates.sort(key=...); candidates[0]\<close> of the candidates of a list; the sort is stable.\<close>

definition pick_first :: "('a \<Rightarrow> 'k::linorder) \<Rightarrow> ('a \<Rightarrow> bool) \<Rightarrow> 'a list \<Rightarrow> 'a option" where
  "pick_first k P xs = (let candidates = filter P xs in if candidates = [] then None else Some (hd (sort_key k candidates)))"

lemma pick_first_None: "pick_first k P xs = None \<longleftrightarrow> (\<forall>x \<in> set xs. \<not> P x)"
  by (simp add: pick_first_def Let_def filter_empty_conv)

lemma pick_first_Some:
  assumes "pick_first k P xs = Some x"
  shows "x \<in> set xs \<and> P x \<and> (\<forall>y \<in> set xs. P y \<longrightarrow> k x \<le> k y)"
proof -
  let ?c = "filter P xs"
  have x: "x = hd (sort_key k ?c)" and ne: "sort_key k ?c \<noteq> []"
    using assms by (auto simp: pick_first_def Let_def split: if_splits dest: arg_cong [of _ _ length])
  then obtain ys where ys: "sort_key k ?c = x # ys" by (cases "sort_key k ?c") auto
  have mem: "set (x # ys) = set ?c" using ys by (metis set_sort)
  have "sorted (map k (x # ys))" unfolding ys [symmetric] by simp
  then have "k x \<le> k y" if "y \<in> set (x # ys)" for y using that by auto
  then show ?thesis using mem by auto
qed

text \<open>The order of the queues: the highest priority first, then the earliest created.\<close>

lemma pick_priority:
  fixes priority :: "'a \<Rightarrow> int" and created :: "'a \<Rightarrow> datetime"
  assumes "pick_first (\<lambda>i. (- priority i, created i)) P xs = Some x"
  shows "x \<in> set xs \<and> P x \<and>
    (\<forall>y \<in> set xs. P y \<longrightarrow> priority y < priority x \<or> priority y = priority x \<and> created x \<le> created y)"
  using pick_first_Some [OF assms] by (fastforce simp: less_eq_prod_def)

section \<open>Retries\<close>

locale retried_work =
  fixes key :: "'i \<Rightarrow> pystr"
    and attempts :: "'i \<Rightarrow> int"
    and limit :: "'i \<Rightarrow> int"
    and runnable :: "'i \<Rightarrow> bool"
    and start :: "datetime \<Rightarrow> 'i \<Rightarrow> 'i"
    and fails :: "'e \<Rightarrow> 'i \<Rightarrow> 'i"
  assumes start_item: "key (start t i) = key i" "attempts (start t i) = attempts i + 1" "limit (start t i) = limit i"
      "\<not> runnable (start t i)"
    and fails_item: "key (fails e i) = key i" "attempts (fails e i) = attempts i" "limit (fails e i) = limit i"
    and fails_runnable: "runnable (fails e i) \<Longrightarrow> attempts i < limit i"
begin

definition fine :: "'i \<Rightarrow> bool" where
  "fine i \<longleftrightarrow> 0 \<le> attempts i \<and> attempts i \<le> limit i \<and> (runnable i \<longrightarrow> attempts i < limit i)"

definition all_fine :: "(pystr, 'i) dict \<Rightarrow> bool" where
  "all_fine q \<longleftrightarrow> keyed key q \<and> (\<forall>(k, i) \<in> set q. fine i)"

lemma fine_start: "fine i \<Longrightarrow> runnable i \<Longrightarrow> fine (start t i)"
  by (simp add: fine_def start_item)

lemma fine_fails: "fine i \<Longrightarrow> fine (fails e i)"
  using fails_runnable by (auto simp: fine_def fails_item)

lemma fine_settled: "fine i \<Longrightarrow> attempts j = attempts i \<Longrightarrow> limit j = limit i \<Longrightarrow> \<not> runnable j \<Longrightarrow> fine j"
  by (simp add: fine_def)

lemma all_fine_Nil: "all_fine []"
  by (simp add: all_fine_def)

lemma all_fine_get: "all_fine q \<Longrightarrow> dict_get q k = Some i \<Longrightarrow> fine i \<and> key i = k"
  by (auto simp: all_fine_def dest: map_of_SomeD keyed_member)

lemma all_fine_member: "all_fine q \<Longrightarrow> i \<in> set (dict_values q) \<Longrightarrow> dict_get q (key i) = Some i"
  by (auto simp: all_fine_def keyed_get_iff)

lemma all_fine_set:
  assumes "all_fine q" and "fine i" and "k = key i"
  shows "all_fine (dict_set k i q)"
  unfolding all_fine_def
proof
  show "keyed key (dict_set k i q)" using assms by (auto simp: all_fine_def)
  have "x \<in> set (dict_set k i q) \<Longrightarrow> x \<in> set q \<or> x = (k, i)" for x
    by (induction q) (auto split: if_splits)
  then show "\<forall>(l, j) \<in> set (dict_set k i q). fine j" using assms by (fastforce simp: all_fine_def)
qed

lemma all_fine_map:
  assumes "all_fine q" and "\<And>i. key (f i) = key i" and "\<And>i. fine i \<Longrightarrow> fine (f i)"
  shows "all_fine (map (\<lambda>(k, i). (k, f i)) q)"
  using assms by (fastforce simp: all_fine_def keyed_def comp_def case_prod_beta)

end

section \<open>Running out of time\<close>

text \<open>\<open>f"{x:.1f}"\<close> of a finite float: its exact value to one decimal, ties to even.\<close>

definition fixed1 :: "pyfloat \<Rightarrow> pystr" where
  "fixed1 x =
     (case x of
        Fin v \<Rightarrow> (let n = nat (rne (\<bar>v\<bar> * 10))
                 in (if v < 0 then ''-'' else []) @ dec_nat (n div 10) @ ''.'' @ dec_nat (n mod 10))
      | Inf negative \<Rightarrow> if negative then ''-inf'' else ''inf''
      | NaN \<Rightarrow> ''nan'')"

definition run_over :: "datetime \<Rightarrow> datetime option \<Rightarrow> pyfloat \<Rightarrow> bool" where
  "run_over now started timeout \<longleftrightarrow>
     (case started of None \<Rightarrow> False | Some s \<Rightarrow> \<not> flt_le (total_seconds (now - s)) timeout)"

definition run_time :: "datetime \<Rightarrow> datetime option \<Rightarrow> pyfloat" where
  "run_time now started = total_seconds (now - (case started of None \<Rightarrow> now | Some s \<Rightarrow> s))"

end
