(* ===== verification/Integration.thy ===== *)
theory Integration
  imports RetriedWork Validations Journals
begin

text \<open>
  The integration hub (\<^verbatim>\<open>integration_hub\<close>): the queue of synchronization runs, the mapping of fields, the
  resolution of conflicts - by hand through the validations of \<open>Validations\<close> - and the pull that uses
  them. Connectors, local look-ups and value transformations are code of others and parameters here.
\<close>

section \<open>The queue of runs\<close>

datatype queue_status = QI_PENDING | QI_RUNNING | QI_DONE | QI_FAILED | QI_RETRYING | QI_CANCELLED | QI_TIMED_OUT

record queue_item =
  qi_id :: pystr
  qi_firm_id :: pystr
  qi_job_id :: pystr
  qi_priority :: int
  qi_status :: queue_status
  qi_attempts :: int
  qi_max_attempts :: int
  qi_timeout_seconds :: pyfloat
  qi_created_at :: datetime
  qi_started_at :: "datetime option"
  qi_completed_at :: "datetime option"
  qi_detail :: "pystr option"
  qi_error :: "pystr option"

type_synonym sync_queue = "(pystr, queue_item) dict"

definition queue_get :: "sync_queue \<Rightarrow> pystr \<Rightarrow> queue_item option" where
  [store_defs]: "queue_get q item_id = dict_get q item_id"

definition enqueue_item :: "queue_item \<Rightarrow> sync_queue \<Rightarrow> sync_queue" where
  [store_defs]: "enqueue_item i q = dict_set (qi_id i) i q"

definition list_queue :: "sync_queue \<Rightarrow> queue_item list" where
  "list_queue q = dict_values q"

interpretation queue_rows: keyed_store qi_id enqueue_item queue_get "keyed qi_id"
  unfolding store_defs by (rule keyed_store_dict)

definition queue_runnable :: "queue_item \<Rightarrow> bool" where
  "queue_runnable i \<longleftrightarrow> qi_status i = QI_PENDING \<or> qi_status i = QI_RETRYING"

definition dequeue_next :: "sync_queue \<Rightarrow> queue_item option" where
  "dequeue_next q = pick_first (\<lambda>i. (- qi_priority i, qi_created_at i)) queue_runnable (dict_values q)"

text \<open>\<open>self._items[item_id]\<close>, changed in place.\<close>

definition change_item :: "pystr \<Rightarrow> (queue_item \<Rightarrow> queue_item) \<Rightarrow> sync_queue \<Rightarrow> (queue_item \<times> sync_queue) result" where
  "change_item item_id f q =
     (case queue_get q item_id of
        None \<Rightarrow> Inl (KeyError item_id)
      | Some i \<Rightarrow> Inr (f i, dict_set item_id (f i) q))"

definition started_item :: "datetime \<Rightarrow> queue_item \<Rightarrow> queue_item" where
  "started_item now i = i\<lparr>qi_status := QI_RUNNING, qi_attempts := qi_attempts i + 1, qi_started_at := Some now\<rparr>"

definition mark_running :: "datetime \<Rightarrow> pystr \<Rightarrow> sync_queue \<Rightarrow> (queue_item \<times> sync_queue) result" where
  "mark_running now item_id q = change_item item_id (started_item now) q"

definition mark_done :: "datetime \<Rightarrow> pystr \<Rightarrow> pystr \<Rightarrow> sync_queue \<Rightarrow> (queue_item \<times> sync_queue) result" where
  "mark_done now item_id detail q =
     change_item item_id (\<lambda>i. i\<lparr>qi_status := QI_DONE, qi_detail := Some detail, qi_completed_at := Some now\<rparr>) q"

definition failed_item :: "datetime \<Rightarrow> pystr \<Rightarrow> queue_item \<Rightarrow> queue_item" where
  "failed_item now err i =
     (let i1 = i\<lparr>qi_error := Some err\<rparr>
      in if qi_attempts i1 < qi_max_attempts i1 then i1\<lparr>qi_status := QI_RETRYING\<rparr>
         else i1\<lparr>qi_status := QI_FAILED, qi_completed_at := Some now\<rparr>)"

definition mark_failed :: "datetime \<Rightarrow> pystr \<Rightarrow> pystr \<Rightarrow> sync_queue \<Rightarrow> (queue_item \<times> sync_queue) result" where
  "mark_failed now item_id err q = change_item item_id (failed_item now err) q"

definition cancel_item :: "datetime \<Rightarrow> pystr \<Rightarrow> sync_queue \<Rightarrow> (queue_item \<times> sync_queue) result" where
  "cancel_item now item_id q =
     change_item item_id (\<lambda>i. i\<lparr>qi_status := QI_CANCELLED, qi_completed_at := Some now\<rparr>) q"

definition item_overdue :: "datetime \<Rightarrow> queue_item \<Rightarrow> bool" where
  "item_overdue now i \<longleftrightarrow> qi_status i = QI_RUNNING \<and> run_over now (qi_started_at i) (qi_timeout_seconds i)"

definition timed_out_item :: "datetime \<Rightarrow> datetime \<Rightarrow> queue_item \<Rightarrow> queue_item" where
  "timed_out_item now now2 i =
     (let i1 = failed_item now2 (''timed out after '' @ fixed1 (run_time now (qi_started_at i)) @ ''s'') i
      in if qi_status i1 = QI_FAILED then i1\<lparr>qi_status := QI_TIMED_OUT\<rparr> else i1)"

text \<open>The items are visited in the order they were queued; each failure reads the clock again.\<close>

definition check_timeouts :: "datetime \<Rightarrow> (pystr \<Rightarrow> datetime) \<Rightarrow> sync_queue \<Rightarrow> queue_item list \<times> sync_queue" where
  "check_timeouts now clock q =
     (map (\<lambda>i. timed_out_item now (clock (qi_id i)) i) (filter (item_overdue now) (dict_values q)),
      map (\<lambda>(k, i). (k, if item_overdue now i then timed_out_item now (clock (qi_id i)) i else i)) q)"

subsection \<open>Attempts\<close>

text \<open>
  The queue as its worker uses it: it starts what \<open>dequeue_next\<close> selects; results, cancellations and the
  check for timeouts may come at any moment, whatever the state of the item.
\<close>

inductive queue_step :: "sync_queue \<Rightarrow> sync_queue \<Rightarrow> bool" where
  put: "queue_get q (qi_id i) = None \<Longrightarrow> qi_status i = QI_PENDING \<Longrightarrow> qi_attempts i = 0 \<Longrightarrow> 0 < qi_max_attempts i \<Longrightarrow>
     queue_step q (enqueue_item i q)"
| start: "dequeue_next q = Some i \<Longrightarrow> mark_running now (qi_id i) q = Inr (j, q') \<Longrightarrow> queue_step q q'"
| finish: "mark_done now item_id detail q = Inr (j, q') \<Longrightarrow> queue_step q q'"
| fail: "mark_failed now item_id err q = Inr (j, q') \<Longrightarrow> queue_step q q'"
| cancel: "cancel_item now item_id q = Inr (j, q') \<Longrightarrow> queue_step q q'"
| timeouts: "check_timeouts now clock q = (js, q') \<Longrightarrow> queue_step q q'"

interpretation queue_work: retried_work qi_id qi_attempts qi_max_attempts queue_runnable started_item "\<lambda>(now, err). failed_item now err"
  by unfold_locales (auto simp: started_item_def failed_item_def queue_runnable_def Let_def split: if_splits)

lemma change_item_fine:
  assumes "queue_work.all_fine q" and "change_item item_id f q = Inr (j, q')"
    and "\<And>i. queue_get q item_id = Some i \<Longrightarrow> queue_work.fine (f i)" and "\<And>i. qi_id (f i) = qi_id i"
  shows "queue_work.all_fine q'"
proof -
  obtain i where i: "queue_get q item_id = Some i" and q': "q' = dict_set item_id (f i) q"
    using assms(2) by (auto simp: change_item_def split: option.splits)
  have "qi_id i = item_id" using queue_work.all_fine_get [OF assms(1)] i by (simp add: queue_get_def)
  then show ?thesis unfolding q' using assms(1,3,4) i by (intro queue_work.all_fine_set) auto
qed

lemma queue_step_fine:
  assumes "queue_step q q'" and ok: "queue_work.all_fine q"
  shows "queue_work.all_fine q'"
  using assms(1)
proof cases
  case (put i)
  then have "queue_work.fine i" by (simp add: queue_work.fine_def)
  then show ?thesis unfolding put(1) enqueue_item_def using ok by (intro queue_work.all_fine_set) auto
next
  case (start i now j)
  have r: "i \<in> set (dict_values q)" "queue_runnable i" using pick_first_Some [OF start(1) [unfolded dequeue_next_def]] by auto
  then have get: "queue_get q (qi_id i) = Some i" using queue_work.all_fine_member [OF ok] by (simp add: queue_get_def)
  then have "queue_work.fine i" using queue_work.all_fine_get [OF ok] by (simp add: queue_get_def)
  then have f: "queue_work.fine (started_item now i)" using r(2) by (rule queue_work.fine_start)
  show ?thesis
    by (rule change_item_fine [OF ok start(2) [unfolded mark_running_def]]) (use f get in \<open>auto simp: queue_work.start_item\<close>)
next
  case (finish now item_id detail j)
  show ?thesis
    by (rule change_item_fine [OF ok finish [unfolded mark_done_def]])
      (auto simp: queue_get_def queue_runnable_def dest!: queue_work.all_fine_get [OF ok] elim: queue_work.fine_settled)
next
  case (fail now item_id err j)
  show ?thesis
    by (rule change_item_fine [OF ok fail [unfolded mark_failed_def]])
      (use queue_work.all_fine_get [OF ok] queue_work.fine_fails [of _ "(now, err)"] queue_work.fails_item [of "(now, err)"] in
        \<open>auto simp: queue_get_def\<close>)
next
  case (cancel now item_id j)
  show ?thesis
    by (rule change_item_fine [OF ok cancel [unfolded cancel_item_def]])
      (auto simp: queue_get_def queue_runnable_def dest!: queue_work.all_fine_get [OF ok] elim: queue_work.fine_settled)
next
  case (timeouts now clock js)
  let ?f = "\<lambda>i. if item_overdue now i then timed_out_item now (clock (qi_id i)) i else i"
  have q': "q' = map (\<lambda>(k, i). (k, ?f i)) q" using timeouts by (simp add: check_timeouts_def)
  have failed: "queue_work.fine (failed_item t e i)" "qi_id (failed_item t e i) = qi_id i" if "queue_work.fine i" for t e i
    using queue_work.fine_fails [OF that, of "(t, e)"] queue_work.fails_item(1) [of "(t, e)" i] by simp_all
  have id: "qi_id (?f i) = qi_id i" for i
    using queue_work.fails_item(1) [of "(t, e)" i for t e] by (simp add: timed_out_item_def Let_def)
  have "queue_work.fine (timed_out_item now t i)" if "queue_work.fine i" for t i
    using failed(1) [OF that]
    by (simp add: timed_out_item_def Let_def) (auto simp: queue_runnable_def intro: queue_work.fine_settled [OF failed(1) [OF that]])
  then show ?thesis unfolding q' using ok id by (intro queue_work.all_fine_map) auto
qed

lemma queue_reachable_fine: "queue_step\<^sup>*\<^sup>* [] q \<Longrightarrow> queue_work.all_fine q"
  by (induction rule: rtranclp_induct) (auto simp: queue_work.all_fine_Nil intro: queue_step_fine)

text \<open>
  A run is never attempted more often than its limit, and one that may still be started has an attempt
  left, in every queue that can be reached. What the worker is given next is a run of the queue that
  may be started, and no other such run has a higher priority, or the same and an earlier creation;
  it is given nothing only when nothing may be started.
\<close>

theorem queue_attempts_bounded:
  assumes "queue_step\<^sup>*\<^sup>* [] q"
  shows "(\<forall>k i. queue_get q k = Some i \<longrightarrow>
       0 \<le> qi_attempts i \<and> qi_attempts i \<le> qi_max_attempts i \<and> (queue_runnable i \<longrightarrow> qi_attempts i < qi_max_attempts i)) \<and>
     (case dequeue_next q of
        None \<Rightarrow> \<forall>i \<in> set (list_queue q). \<not> queue_runnable i
      | Some i \<Rightarrow> queue_get q (qi_id i) = Some i \<and> queue_runnable i \<and>
          (\<forall>j \<in> set (list_queue q). queue_runnable j \<longrightarrow>
             qi_priority j < qi_priority i \<or> qi_priority j = qi_priority i \<and> qi_created_at i \<le> qi_created_at j))"
proof -
  have ok: "queue_work.all_fine q" using assms by (rule queue_reachable_fine)
  have mem: "queue_get q (qi_id i) = Some i" if "i \<in> set (dict_values q)" for i
    using queue_work.all_fine_member [OF ok that] by (simp add: queue_get_def)
  have first: "queue_get q (qi_id i) = Some i \<and> queue_runnable i \<and>
      (\<forall>j \<in> set (list_queue q). queue_runnable j \<longrightarrow>
         qi_priority j < qi_priority i \<or> qi_priority j = qi_priority i \<and> qi_created_at i \<le> qi_created_at j)"
    if "dequeue_next q = Some i" for i
    using pick_priority [OF that [unfolded dequeue_next_def]] mem unfolding list_queue_def by blast
  have none: "\<forall>i \<in> set (list_queue q). \<not> queue_runnable i" if "dequeue_next q = None"
    using that by (simp add: dequeue_next_def pick_first_None list_queue_def)
  show ?thesis
    using first none queue_work.all_fine_get [OF ok]
    by (auto simp: queue_work.fine_def queue_get_def split: option.split)
qed

definition demo_item :: "pystr \<Rightarrow> int \<Rightarrow> queue_item" where
  "demo_item k priority = \<lparr>qi_id = k, qi_firm_id = ''f1'', qi_job_id = ''j1'', qi_priority = priority, qi_status = QI_PENDING,
     qi_attempts = 0, qi_max_attempts = 1, qi_timeout_seconds = Fin 300, qi_created_at = 0, qi_started_at = None,
     qi_completed_at = None, qi_detail = None, qi_error = None\<rparr>"

lemma queue_attempts_bounded_witness:
  "let i = (demo_item ''b'' 9)\<lparr>qi_status := QI_RUNNING, qi_attempts := 1, qi_started_at := Some 5\<rparr>;
       q = enqueue_item i (enqueue_item (demo_item ''b'' 9) (enqueue_item (demo_item ''a'' 1) [])) in
   dequeue_next q = Some (demo_item ''a'' 1) \<and> qi_attempts i \<le> qi_max_attempts i"
proof -
  let ?q1 = "enqueue_item (demo_item ''a'' 1) []" and ?q2 = "enqueue_item (demo_item ''b'' 9) (enqueue_item (demo_item ''a'' 1) [])"
  let ?i = "(demo_item ''b'' 9)\<lparr>qi_status := QI_RUNNING, qi_attempts := 1, qi_started_at := Some 5\<rparr>"
  have "queue_step [] ?q1" by (rule queue_step.put) (simp_all add: demo_item_def queue_get_def)
  moreover have "queue_step ?q1 ?q2"
    by (rule queue_step.put) (simp_all add: demo_item_def queue_get_def enqueue_item_def)
  moreover have "queue_step ?q2 (enqueue_item ?i ?q2)"
    by (rule queue_step.start [of _ "demo_item ''b'' 9" 5 ?i])
      (simp_all add: demo_item_def dequeue_next_def pick_first_def started_item_def queue_runnable_def enqueue_item_def mark_running_def change_item_def
         queue_get_def insort_key.simps less_eq_prod_def)
  ultimately have r: "queue_step\<^sup>*\<^sup>* [] (enqueue_item ?i ?q2)"
    by (rule rtranclp.rtrancl_into_rtrancl [OF rtranclp.rtrancl_into_rtrancl [OF r_into_rtranclp]])
  have d: "dequeue_next (enqueue_item ?i ?q2) = Some (demo_item ''a'' 1)"
    by (simp add: demo_item_def dequeue_next_def pick_first_def queue_runnable_def enqueue_item_def)
  have g: "queue_get (enqueue_item ?i ?q2) ''b'' = Some ?i" by (simp add: queue_get_def enqueue_item_def demo_item_def)
  show ?thesis using queue_attempts_bounded [OF r] g d unfolding Let_def by blast
qed

section \<open>Records and their mapping\<close>

record connector_record =
  rd_external_id :: pystr
  rd_data :: "(pystr, pystr) dict"
  rd_updated_at :: "py_datetime option"

record field_mapping =
  fm_source_field :: pystr
  fm_target_field :: pystr
  fm_transform_id :: "pystr option"

record mapping_profile =
  mpr_id :: pystr
  mpr_connector_id :: pystr
  mpr_firm_id :: pystr
  mpr_entity_type :: pystr
  mpr_fields :: "field_mapping list"

type_synonym mapping_store = "(pystr \<times> pystr \<times> pystr, mapping_profile) dict"

definition save_mapping_profile :: "mapping_profile \<Rightarrow> mapping_store \<Rightarrow> mapping_store" where
  "save_mapping_profile p s = dict_set (mpr_firm_id p, mpr_connector_id p, mpr_entity_type p) p s"

definition get_mapping_profile :: "mapping_store \<Rightarrow> pystr \<Rightarrow> pystr \<Rightarrow> pystr \<Rightarrow> mapping_profile option" where
  "get_mapping_profile s firm connector_id entity_type = dict_get s (firm, connector_id, entity_type)"

text \<open>The fields in order; a field the record lacks is skipped, a transformation may raise.\<close>

fun map_fields ::
  "(pystr \<Rightarrow> pystr \<Rightarrow> pystr result) option \<Rightarrow> (pystr, pystr) dict \<Rightarrow> field_mapping list \<Rightarrow> (pystr, pystr) dict
     \<Rightarrow> (pystr, pystr) dict result" where
  "map_fields transformer data [] mapped = Inr mapped"
| "map_fields transformer data (f # fs) mapped =
     (case dict_get data (fm_source_field f) of
        None \<Rightarrow> map_fields transformer data fs mapped
      | Some v \<Rightarrow>
          (case (fm_transform_id f, transformer) of
             (Some t, Some apply_fn) \<Rightarrow>
               res_bind (apply_fn t v) (\<lambda>w. map_fields transformer data fs (dict_set (fm_target_field f) w mapped))
           | _ \<Rightarrow> map_fields transformer data fs (dict_set (fm_target_field f) v mapped)))"

definition map_record ::
  "(pystr \<Rightarrow> pystr \<Rightarrow> pystr result) option \<Rightarrow> mapping_store \<Rightarrow> pystr \<Rightarrow> pystr \<Rightarrow> connector_record \<Rightarrow> pystr
     \<Rightarrow> connector_record result" where
  "map_record transformer s connector_id firm r entity_type =
     (case get_mapping_profile s firm connector_id entity_type of
        None \<Rightarrow> Inr r
      | Some p \<Rightarrow> res_bind (map_fields transformer (rd_data r) (mpr_fields p) [])
          (\<lambda>mapped. Inr \<lparr>rd_external_id = rd_external_id r, rd_data = mapped, rd_updated_at = rd_updated_at r\<rparr>))"

section \<open>Conflicts\<close>

datatype conflict_strategy = KS_LOCAL_WINS | KS_REMOTE_WINS | KS_LAST_WRITE_WINS | KS_HUMAN_VALIDATION

fun conflict_strategy_value :: "conflict_strategy \<Rightarrow> pystr" where
  "conflict_strategy_value KS_LOCAL_WINS = ''local_wins''"
| "conflict_strategy_value KS_REMOTE_WINS = ''remote_wins''"
| "conflict_strategy_value KS_LAST_WRITE_WINS = ''last_write_wins''"
| "conflict_strategy_value KS_HUMAN_VALIDATION = ''human_validation''"

fun conflict_strategy_name :: "conflict_strategy \<Rightarrow> pystr" where
  "conflict_strategy_name KS_LOCAL_WINS = ''LOCAL_WINS''"
| "conflict_strategy_name KS_REMOTE_WINS = ''REMOTE_WINS''"
| "conflict_strategy_name KS_LAST_WRITE_WINS = ''LAST_WRITE_WINS''"
| "conflict_strategy_name KS_HUMAN_VALIDATION = ''HUMAN_VALIDATION''"

record conflict_context =
  kx_connector_id :: pystr
  kx_firm_id :: pystr
  kx_entity_type :: pystr
  kx_external_id :: pystr
  kx_local_record :: connector_record
  kx_remote_record :: connector_record

text \<open>The French text shown with a resolution is left out.\<close>

record conflict_resolution =
  kr_resolved_record :: "connector_record option"
  kr_strategy_used :: conflict_strategy
  kr_pending_human_validation :: bool

datatype strategy_impl = Local_wins | Remote_wins | Last_write_wins | Human_validation "pystr list"

fun impl_strategy :: "strategy_impl \<Rightarrow> conflict_strategy" where
  "impl_strategy Local_wins = KS_LOCAL_WINS"
| "impl_strategy Remote_wins = KS_REMOTE_WINS"
| "impl_strategy Last_write_wins = KS_LAST_WRITE_WINS"
| "impl_strategy (Human_validation _) = KS_HUMAN_VALIDATION"

definition resolved_as :: "connector_record \<Rightarrow> conflict_strategy \<Rightarrow> conflict_resolution" where
  "resolved_as r st = \<lparr>kr_resolved_record = Some r, kr_strategy_used = st, kr_pending_human_validation = False\<rparr>"

definition local_is_newer :: "py_datetime option \<Rightarrow> py_datetime option \<Rightarrow> bool result" where
  "local_is_newer local_ts remote_ts =
     (case local_ts of
        None \<Rightarrow> Inr False
      | Some l \<Rightarrow> (case remote_ts of None \<Rightarrow> Inr True | Some r \<Rightarrow> datetime_le r l))"

definition conflict_production :: "conflict_context \<Rightarrow> pystr" where
  "conflict_production k = kx_connector_id k @ '':'' @ kx_external_id k"

fun resolve_with ::
  "strategy_impl \<Rightarrow> pystr \<Rightarrow> datetime \<Rightarrow> conflict_context \<Rightarrow> validation_store \<Rightarrow> conflict_resolution result \<times> validation_store" where
  "resolve_with Local_wins new_id now k vs = (Inr (resolved_as (kx_local_record k) KS_LOCAL_WINS), vs)"
| "resolve_with Remote_wins new_id now k vs = (Inr (resolved_as (kx_remote_record k) KS_REMOTE_WINS), vs)"
| "resolve_with Last_write_wins new_id now k vs =
     (case local_is_newer (rd_updated_at (kx_local_record k)) (rd_updated_at (kx_remote_record k)) of
        Inl e \<Rightarrow> (Inl e, vs)
      | Inr True \<Rightarrow> (Inr (resolved_as (kx_local_record k) KS_LAST_WRITE_WINS), vs)
      | Inr False \<Rightarrow> (Inr (resolved_as (kx_remote_record k) KS_LAST_WRITE_WINS), vs))"
| "resolve_with (Human_validation approvers) new_id now k vs =
     (if is_validated (kx_firm_id k) (conflict_production k) vs
      then (Inr (resolved_as (kx_remote_record k) KS_HUMAN_VALIDATION), vs)
      else (Inr \<lparr>kr_resolved_record = None, kr_strategy_used = KS_HUMAN_VALIDATION, kr_pending_human_validation = True\<rparr>,
            if validation_history (kx_firm_id k) (conflict_production k) vs = []
            then snd (request_simple new_id now (kx_firm_id k) (conflict_production k) ''integration_hub'' approvers vs)
            else vs))"

type_synonym conflict_engine = "(conflict_strategy, strategy_impl) dict"

text \<open>No or an empty dictionary of strategies stands for the three that need no configuration.\<close>

definition conflict_engine_init :: "conflict_engine option \<Rightarrow> conflict_engine" where
  "conflict_engine_init strategies =
     (let default_set = map (\<lambda>i. (impl_strategy i, i)) [Local_wins, Remote_wins, Last_write_wins]
      in case strategies of None \<Rightarrow> default_set | Some s \<Rightarrow> if s = [] then default_set else s)"

definition register_strategy :: "strategy_impl \<Rightarrow> conflict_engine \<Rightarrow> conflict_engine" where
  "register_strategy i ce = dict_set (impl_strategy i) i ce"

text \<open>Of the error only its class and its text, the \<open>repr\<close> of the enum member, are ever read.\<close>

definition resolve_conflict ::
  "conflict_engine \<Rightarrow> pystr \<Rightarrow> datetime \<Rightarrow> conflict_context \<Rightarrow> conflict_strategy \<Rightarrow> validation_store
     \<Rightarrow> conflict_resolution result \<times> validation_store" where
  "resolve_conflict ce new_id now k st vs =
     (case dict_get ce st of
        None \<Rightarrow> (Inl (Foreign ''UnknownConflictStrategyError''
          (''<ConflictStrategy.'' @ conflict_strategy_name st @ '': '' @ py_repr (conflict_strategy_value st) @ ''>'')), vs)
      | Some i \<Rightarrow> resolve_with i new_id now k vs)"

section \<open>Synchronization\<close>

datatype sync_direction = SY_PULL | SY_PUSH | SY_BIDIRECTIONAL

datatype sync_mode = SM_FULL | SM_INCREMENTAL

record sync_job =
  sj_id :: pystr
  sj_connector_id :: pystr
  sj_firm_id :: pystr
  sj_entity_type :: pystr
  sj_direction :: sync_direction
  sj_mode :: sync_mode
  sj_conflict_strategy :: conflict_strategy
  sj_enabled :: bool
  sj_last_synced_at :: "datetime option"

type_synonym sync_job_store = "(pystr, sync_job) dict"

definition save_sync_job :: "sync_job \<Rightarrow> sync_job_store \<Rightarrow> sync_job_store" where
  "save_sync_job j s = dict_set (sj_id j) j s"

definition get_sync_job :: "sync_job_store \<Rightarrow> pystr \<Rightarrow> pystr \<Rightarrow> sync_job option" where
  "get_sync_job s firm job_id =
     (case dict_get s job_id of None \<Rightarrow> None | Some j \<Rightarrow> if sj_firm_id j \<noteq> firm then None else Some j)"

definition list_sync_jobs :: "sync_job_store \<Rightarrow> pystr \<Rightarrow> sync_job list" where
  "list_sync_jobs s firm = filter (\<lambda>j. sj_firm_id j = firm) (dict_values s)"

record sync_report =
  sr_job_id :: pystr
  sr_records_read :: nat
  sr_records_written :: nat
  sr_conflicts :: nat
  sr_conflicts_pending_validation :: nat

text \<open>The metric of one operation, without its duration and its date.\<close>

record operation_metric =
  om_connector_id :: pystr
  om_firm_id :: pystr
  om_operation :: pystr
  om_success :: bool
  om_record_count :: nat
  om_error :: "pystr option"

text \<open>What is plugged in: the connector's \<open>read\<close>, the mapper, the local look-up.\<close>

record sync_ports =
  sp_read :: "pystr option \<Rightarrow> connector_record list result"
  sp_mapper :: "(connector_record \<Rightarrow> pystr \<Rightarrow> connector_record result) option"
  sp_find :: "(pystr \<Rightarrow> pystr \<Rightarrow> pystr \<Rightarrow> connector_record option result) option"

record sync_hub =
  sh_conflict_engine :: conflict_engine
  sh_validations :: validation_store
  sh_metrics :: "operation_metric list"

definition safe_read ::
  "sync_ports \<Rightarrow> sync_job \<Rightarrow> pystr option \<Rightarrow> sync_hub \<Rightarrow> connector_record list result \<times> sync_hub" where
  "safe_read p job since h =
     (let metric = \<lparr>om_connector_id = sj_connector_id job, om_firm_id = sj_firm_id job, om_operation = ''read'',
                    om_success = True, om_record_count = 0, om_error = None\<rparr>
      in case sp_read p since of
           Inl e \<Rightarrow> (Inl e, h\<lparr>sh_metrics := sh_metrics h @ [metric\<lparr>om_success := False, om_error := Some (exn_str e)\<rparr>]\<rparr>)
         | Inr records \<Rightarrow> (Inr records, h\<lparr>sh_metrics := sh_metrics h @ [metric\<lparr>om_record_count := length records\<rparr>]\<rparr>))"

record connector_write_result =
  wr_success :: bool
  wr_external_id :: pystr
  wr_detail :: pystr

text \<open>A guarded write never raises; \<open>outcome\<close> is what awaiting the connector's \<open>write\<close> gives or raises.\<close>

definition safe_write ::
  "pystr \<Rightarrow> pystr \<Rightarrow> connector_record \<Rightarrow> connector_write_result result \<Rightarrow> sync_hub \<Rightarrow> connector_write_result \<times> sync_hub" where
  "safe_write connector_id firm r outcome h =
     (let metric = \<lparr>om_connector_id = connector_id, om_firm_id = firm, om_operation = ''write'',
                    om_success = True, om_record_count = 0, om_error = None\<rparr>
      in case outcome of
           Inl e \<Rightarrow>
             (\<lparr>wr_success = False, wr_external_id = rd_external_id r, wr_detail = exn_str e\<rparr>,
              h\<lparr>sh_metrics := sh_metrics h @ [metric\<lparr>om_success := False, om_error := Some (exn_str e)\<rparr>]\<rparr>)
         | Inr w \<Rightarrow>
             (w, h\<lparr>sh_metrics := sh_metrics h @ [metric\<lparr>om_success := wr_success w, om_record_count := 1\<rparr>]\<rparr>))"

text \<open>\<open>dict\<close>s are equal when they have the same keys with the same values, in whatever order.\<close>

definition dict_eq :: "(pystr, pystr) dict \<Rightarrow> (pystr, pystr) dict \<Rightarrow> bool" where
  "dict_eq a b \<longleftrightarrow> (\<forall>k \<in> set (dict_keys a @ dict_keys b). dict_get a k = dict_get b k)"

lemma dict_eq_iff: "dict_eq a b \<longleftrightarrow> (\<forall>k. dict_get a k = dict_get b k)"
proof -
  have "dict_get a k = dict_get b k" if "k \<notin> set (dict_keys a @ dict_keys b)" for k
    using that by (auto simp: map_of_eq_None_iff [THEN iffD2])
  then show ?thesis unfolding dict_eq_def by blast
qed

text \<open>The loop over the records; the counters are those written, in conflict and pending so far.\<close>

fun pull_records ::
  "sync_ports \<Rightarrow> sync_job \<Rightarrow> (nat \<Rightarrow> pystr) \<Rightarrow> (nat \<Rightarrow> datetime) \<Rightarrow> nat \<Rightarrow> connector_record list \<Rightarrow> nat \<times> nat \<times> nat
     \<Rightarrow> sync_hub \<Rightarrow> (nat \<times> nat \<times> nat) result \<times> sync_hub" where
  "pull_records p job new_id clock i [] counts h = (Inr counts, h)"
| "pull_records p job new_id clock i (r # rs) (written, conflicts, pending) h =
     (case (case sp_mapper p of None \<Rightarrow> Inr r | Some m \<Rightarrow> m r (sj_entity_type job)) of
        Inl e \<Rightarrow> (Inl e, h)
      | Inr mapped \<Rightarrow>
         (case (case sp_find p of None \<Rightarrow> Inr None
                | Some find_fn \<Rightarrow> find_fn (sj_firm_id job) (sj_entity_type job) (rd_external_id mapped)) of
            Inl e \<Rightarrow> (Inl e, h)
          | Inr None \<Rightarrow> pull_records p job new_id clock (Suc i) rs (Suc written, conflicts, pending) h
          | Inr (Some own) \<Rightarrow>
              if dict_eq (rd_data own) (rd_data mapped)
              then pull_records p job new_id clock (Suc i) rs (Suc written, conflicts, pending) h
              else
                (case resolve_conflict (sh_conflict_engine h) (new_id i) (clock i)
                        \<lparr>kx_connector_id = sj_connector_id job, kx_firm_id = sj_firm_id job,
                         kx_entity_type = sj_entity_type job, kx_external_id = rd_external_id mapped,
                         kx_local_record = own, kx_remote_record = mapped\<rparr>
                        (sj_conflict_strategy job) (sh_validations h) of
                   (Inl e, vs) \<Rightarrow> (Inl e, h\<lparr>sh_validations := vs\<rparr>)
                 | (Inr res, vs) \<Rightarrow>
                     if kr_pending_human_validation res
                     then pull_records p job new_id clock (Suc i) rs (written, Suc conflicts, Suc pending) (h\<lparr>sh_validations := vs\<rparr>)
                     else pull_records p job new_id clock (Suc i) rs (Suc written, Suc conflicts, pending) (h\<lparr>sh_validations := vs\<rparr>))))"

definition pull_since :: "sync_job \<Rightarrow> pystr option" where
  "pull_since job = (if sj_mode job = SM_INCREMENTAL then map_option isoformat_utc (sj_last_synced_at job) else None)"

definition run_pull_inner ::
  "sync_ports \<Rightarrow> (nat \<Rightarrow> pystr) \<Rightarrow> (nat \<Rightarrow> datetime) \<Rightarrow> datetime \<Rightarrow> sync_job \<Rightarrow> sync_hub \<Rightarrow> sync_report result \<times> sync_job \<times> sync_hub" where
  "run_pull_inner p new_id clock now job h =
     (case safe_read p job (pull_since job) h of
        (Inl e, h1) \<Rightarrow> (Inl e, job, h1)
      | (Inr records, h1) \<Rightarrow>
          (case pull_records p job new_id clock 0 records (0, 0, 0) h1 of
             (Inl e, h2) \<Rightarrow> (Inl e, job, h2)
           | (Inr (written, conflicts, pending), h2) \<Rightarrow>
               (Inr \<lparr>sr_job_id = sj_id job, sr_records_read = length records, sr_records_written = written,
                     sr_conflicts = conflicts, sr_conflicts_pending_validation = pending\<rparr>,
                job\<lparr>sj_last_synced_at := Some now\<rparr>, h2)))"

definition record_pull :: "bool \<Rightarrow> sync_job \<Rightarrow> nat \<Rightarrow> pystr option \<Rightarrow> sync_hub \<Rightarrow> sync_hub" where
  "record_pull monitored job count err h =
     (if \<not> monitored then h
      else h\<lparr>sh_metrics := sh_metrics h @ [\<lparr>om_connector_id = sj_connector_id job, om_firm_id = sj_firm_id job,
               om_operation = ''pull'', om_success = (err = None), om_record_count = count, om_error = err\<rparr>]\<rparr>)"

definition run_pull ::
  "bool \<Rightarrow> sync_ports \<Rightarrow> (nat \<Rightarrow> pystr) \<Rightarrow> (nat \<Rightarrow> datetime) \<Rightarrow> datetime \<Rightarrow> sync_job \<Rightarrow> sync_hub
     \<Rightarrow> sync_report result \<times> sync_job \<times> sync_hub" where
  "run_pull monitored p new_id clock now job h =
     (case run_pull_inner p new_id clock now job h of
        (Inl e, job1, h1) \<Rightarrow> (Inl e, job1, record_pull monitored job 0 (Some (exn_str e)) h1)
      | (Inr rep, job1, h1) \<Rightarrow> (Inr rep, job1, record_pull monitored job (sr_records_written rep) None h1))"

section \<open>What a pull reports\<close>

text \<open>One turn of the loop: it raises, or goes on with the record written, in conflict, or pending.\<close>

lemma pull_records_step:
  "(\<exists>e vs. pull_records p job new_id clock i (r # rs) (w, c, d) h = (Inl e, h\<lparr>sh_validations := vs\<rparr>)) \<or>
   (\<exists>counts vs. pull_records p job new_id clock i (r # rs) (w, c, d) h =
        pull_records p job new_id clock (Suc i) rs counts (h\<lparr>sh_validations := vs\<rparr>) \<and>
      (counts = (Suc w, c, d) \<or> sp_find p \<noteq> None \<and> (counts = (w, Suc c, Suc d) \<or> counts = (Suc w, Suc c, d))))"
proof -
  show ?thesis
  proof (cases "case sp_mapper p of None \<Rightarrow> Inr r | Some m \<Rightarrow> m r (sj_entity_type job)")
    case (Inl e)
    then have "pull_records p job new_id clock i (r # rs) (w, c, d) h = (Inl e, h\<lparr>sh_validations := sh_validations h\<rparr>)"
      by simp
    then show ?thesis by blast
  next
    case mapped: (Inr mapped)
    show ?thesis
    proof (cases "case sp_find p of None \<Rightarrow> Inr None
        | Some find_fn \<Rightarrow> find_fn (sj_firm_id job) (sj_entity_type job) (rd_external_id mapped)")
      case (Inl e)
      then have "pull_records p job new_id clock i (r # rs) (w, c, d) h = (Inl e, h\<lparr>sh_validations := sh_validations h\<rparr>)"
        by (simp add: mapped)
      then show ?thesis by blast
    next
      case own: (Inr found)
      show ?thesis
      proof (cases found)
        case None
        then have "pull_records p job new_id clock i (r # rs) (w, c, d) h =
            pull_records p job new_id clock (Suc i) rs (Suc w, c, d) (h\<lparr>sh_validations := sh_validations h\<rparr>)"
          by (simp add: mapped own)
        then show ?thesis by blast
      next
        case (Some l)
        then have found: "sp_find p \<noteq> None" using own by (auto split: option.splits)
        let ?k = "\<lparr>kx_connector_id = sj_connector_id job, kx_firm_id = sj_firm_id job,
                   kx_entity_type = sj_entity_type job, kx_external_id = rd_external_id mapped,
                   kx_local_record = l, kx_remote_record = mapped\<rparr>"
        obtain res vs where rc: "resolve_conflict (sh_conflict_engine h) (new_id i) (clock i) ?k
            (sj_conflict_strategy job) (sh_validations h) = (res, vs)" by (cases "resolve_conflict (sh_conflict_engine h) (new_id i) (clock i) ?k
            (sj_conflict_strategy job) (sh_validations h)")
        have run: "pull_records p job new_id clock i (r # rs) (w, c, d) h =
            (if dict_eq (rd_data l) (rd_data mapped) then pull_records p job new_id clock (Suc i) rs (Suc w, c, d) (h\<lparr>sh_validations := sh_validations h\<rparr>)
             else case res of Inl e \<Rightarrow> (Inl e, h\<lparr>sh_validations := vs\<rparr>)
               | Inr x \<Rightarrow> if kr_pending_human_validation x
                   then pull_records p job new_id clock (Suc i) rs (w, Suc c, Suc d) (h\<lparr>sh_validations := vs\<rparr>)
                   else pull_records p job new_id clock (Suc i) rs (Suc w, Suc c, d) (h\<lparr>sh_validations := vs\<rparr>))"
          by (cases res) (simp_all add: mapped own Some rc)
        have f: "sp_find p \<noteq> None" by (rule found)
        consider (eq) "dict_eq (rd_data l) (rd_data mapped)"
          | (err) e where "\<not> dict_eq (rd_data l) (rd_data mapped)" and "res = Inl e"
          | (pend) x where "\<not> dict_eq (rd_data l) (rd_data mapped)" and "res = Inr x" and "kr_pending_human_validation x"
          | (won) x where "\<not> dict_eq (rd_data l) (rd_data mapped)" and "res = Inr x" and "\<not> kr_pending_human_validation x"
          by (cases res) blast+
        then show ?thesis
        proof cases
          case eq
          have "pull_records p job new_id clock i (r # rs) (w, c, d) h =
              pull_records p job new_id clock (Suc i) rs (Suc w, c, d) (h\<lparr>sh_validations := sh_validations h\<rparr>)"
            unfolding run using eq by simp
          then show ?thesis by blast
        next
          case err
          have "pull_records p job new_id clock i (r # rs) (w, c, d) h = (Inl e, h\<lparr>sh_validations := vs\<rparr>)"
            unfolding run err(2) using err(1) by simp
          then show ?thesis by blast
        next
          case pend
          have "pull_records p job new_id clock i (r # rs) (w, c, d) h =
              pull_records p job new_id clock (Suc i) rs (w, Suc c, Suc d) (h\<lparr>sh_validations := vs\<rparr>)"
            unfolding run pend(2) using pend(1,3) by simp
          then show ?thesis using f by blast
        next
          case won
          have "pull_records p job new_id clock i (r # rs) (w, c, d) h =
              pull_records p job new_id clock (Suc i) rs (Suc w, Suc c, d) (h\<lparr>sh_validations := vs\<rparr>)"
            unfolding run won(2) using won(1,3) by simp
          then show ?thesis using f by blast
        qed
      qed
    qed
  qed
qed

definition counted :: "sync_ports \<Rightarrow> connector_record list \<Rightarrow> nat \<times> nat \<times> nat \<Rightarrow> nat \<times> nat \<times> nat \<Rightarrow> bool" where
  "counted p rs counts counts' \<longleftrightarrow> (case (counts, counts') of ((written, conflicts, pending), (w, c, d)) \<Rightarrow>
     w + d = written + pending + length rs \<and> conflicts \<le> c \<and> c \<le> conflicts + length rs \<and>
     (pending \<le> conflicts \<longrightarrow> d \<le> c) \<and> (sp_find p = None \<longrightarrow> c = conflicts \<and> d = pending))"

lemma pull_records_counts:
  "pull_records p job new_id clock i rs counts h = (res, h') \<Longrightarrow>
   sh_metrics h' = sh_metrics h \<and> (case res of Inl _ \<Rightarrow> True | Inr counts' \<Rightarrow> counted p rs counts counts')"
proof (induction rs arbitrary: i counts h)
  case Nil
  then show ?case by (cases counts) (auto simp: counted_def)
next
  case (Cons r rs)
  obtain w c d where counts: "counts = (w, c, d)" by (cases counts)
  from pull_records_step [of p job new_id clock i r rs w c d h] show ?case
  proof
    assume "\<exists>e vs. pull_records p job new_id clock i (r # rs) (w, c, d) h = (Inl e, h\<lparr>sh_validations := vs\<rparr>)"
    then show ?thesis using Cons.prems by (auto simp: counts)
  next
    assume "\<exists>counts vs. pull_records p job new_id clock i (r # rs) (w, c, d) h =
        pull_records p job new_id clock (Suc i) rs counts (h\<lparr>sh_validations := vs\<rparr>) \<and>
      (counts = (Suc w, c, d) \<or> sp_find p \<noteq> None \<and> (counts = (w, Suc c, Suc d) \<or> counts = (Suc w, Suc c, d)))"
    then obtain counts1 vs where run: "pull_records p job new_id clock i (r # rs) (w, c, d) h =
        pull_records p job new_id clock (Suc i) rs counts1 (h\<lparr>sh_validations := vs\<rparr>)"
      and c1: "counts1 = (Suc w, c, d) \<or> sp_find p \<noteq> None \<and> (counts1 = (w, Suc c, Suc d) \<or> counts1 = (Suc w, Suc c, d))"
      by blast
    have "pull_records p job new_id clock (Suc i) rs counts1 (h\<lparr>sh_validations := vs\<rparr>) = (res, h')"
      using Cons.prems run by (simp only: counts)
    from Cons.IH [OF this]
    have m: "sh_metrics h' = sh_metrics h" and ih: "case res of Inl _ \<Rightarrow> True | Inr x \<Rightarrow> counted p rs counts1 x" by simp_all
    have "counted p (r # rs) counts x" if "counted p rs counts1 x" for x
      using that c1 unfolding counts counted_def by (cases x) auto
    then show ?thesis using m ih by (cases res) auto
  qed
qed

lemma record_pull_metrics:
  "sh_metrics (record_pull True job n err h) = sh_metrics h @
     [\<lparr>om_connector_id = sj_connector_id job, om_firm_id = sj_firm_id job, om_operation = ''pull'',
       om_success = (err = None), om_record_count = n, om_error = err\<rparr>]"
  by (simp add: record_pull_def)

text \<open>
  A pull accounts for every record it read. When it succeeds, the records written and those left to a
  human validation are together the records read, the pending ones are among the conflicts, and
  without a local look-up there is no conflict; the job moves to the present, so that an incremental
  run goes on from there, whatever was left pending; and two metrics are recorded. When anything
  raises, the job keeps its date and the failure is the last metric.
\<close>

theorem sync_pull_exact:
  assumes "run_pull True p new_id clock now job h = (res, job', h')"
  shows "case res of
      Inl e \<Rightarrow> job' = job \<and> sh_metrics h' \<noteq> [] \<and> om_operation (last (sh_metrics h')) = ''pull'' \<and>
        om_error (last (sh_metrics h')) = Some (exn_str e)
    | Inr rep \<Rightarrow>
        (\<exists>records. sp_read p (pull_since job) = Inr records \<and> sr_records_read rep = length records \<and>
          map om_operation (sh_metrics h') = map om_operation (sh_metrics h) @ [''read'', ''pull''] \<and>
          map om_record_count (sh_metrics h') = map om_record_count (sh_metrics h) @ [length records, sr_records_written rep]) \<and>
        sr_records_written rep + sr_conflicts_pending_validation rep = sr_records_read rep \<and>
        sr_conflicts_pending_validation rep \<le> sr_conflicts rep \<and> sr_conflicts rep \<le> sr_records_read rep \<and>
        (sp_find p = None \<longrightarrow> sr_records_written rep = sr_records_read rep) \<and>
        job' = job\<lparr>sj_last_synced_at := Some now\<rparr> \<and>
        (sj_mode job = SM_INCREMENTAL \<longrightarrow> pull_since job' = Some (isoformat_utc now))"
proof (cases "sp_read p (pull_since job)")
  case (Inl e)
  have "run_pull_inner p new_id clock now job h = (Inl e, job, snd (safe_read p job (pull_since job) h))"
    by (simp add: run_pull_inner_def safe_read_def Inl Let_def)
  then show ?thesis using assms by (auto simp: run_pull_def record_pull_metrics)
next
  case (Inr records)
  define h1 where "h1 = snd (safe_read p job (pull_since job) h)"
  have read: "safe_read p job (pull_since job) h = (Inr records, h1)" by (simp add: h1_def safe_read_def Inr Let_def)
  have m1: "map om_operation (sh_metrics h1) = map om_operation (sh_metrics h) @ [''read'']"
    "map om_record_count (sh_metrics h1) = map om_record_count (sh_metrics h) @ [length records]"
    by (simp_all add: h1_def safe_read_def Inr Let_def)
  obtain r2 h2 where loop: "pull_records p job new_id clock 0 records (0, 0, 0) h1 = (r2, h2)"
    by (cases "pull_records p job new_id clock 0 records (0, 0, 0) h1")
  have m2: "sh_metrics h2 = sh_metrics h1" and counts: "case r2 of Inl _ \<Rightarrow> True | Inr x \<Rightarrow> counted p records (0, 0, 0) x"
    using pull_records_counts [OF loop] by simp_all
  show ?thesis
  proof (cases r2)
    case (Inl e)
    have "run_pull_inner p new_id clock now job h = (Inl e, job, h2)"
      using loop by (simp add: run_pull_inner_def read Inl)
    then show ?thesis using assms by (auto simp: run_pull_def record_pull_metrics)
  next
    case (Inr x)
    obtain w c d where x: "x = (w, c, d)" by (cases x)
    let ?rep = "\<lparr>sr_job_id = sj_id job, sr_records_read = length records, sr_records_written = w, sr_conflicts = c,
                 sr_conflicts_pending_validation = d\<rparr>"
    have "run_pull_inner p new_id clock now job h = (Inr ?rep, job\<lparr>sj_last_synced_at := Some now\<rparr>, h2)"
      using loop by (simp add: run_pull_inner_def read Inr x)
    then have res: "res = Inr ?rep" and job': "job' = job\<lparr>sj_last_synced_at := Some now\<rparr>"
      and h': "h' = record_pull True (job\<lparr>sj_last_synced_at := Some now\<rparr>) w None h2"
      using assms by (auto simp: run_pull_def record_pull_def)
    have "w + d = length records" "d \<le> c" "c \<le> length records" "sp_find p = None \<longrightarrow> w = length records"
      using counts by (auto simp: Inr x counted_def)
    then show ?thesis
      unfolding res sum.case job' h' record_pull_metrics map_append m2 m1 \<open>sp_read p (pull_since job) = Inr records\<close>
      by (simp add: pull_since_def)
  qed
qed

definition demo_sync_job :: sync_job where
  "demo_sync_job = \<lparr>sj_id = ''j1'', sj_connector_id = ''dms'', sj_firm_id = ''f1'', sj_entity_type = ''document'',
     sj_direction = SY_PULL, sj_mode = SM_INCREMENTAL, sj_conflict_strategy = KS_HUMAN_VALIDATION, sj_enabled = True,
     sj_last_synced_at = None\<rparr>"

definition demo_record :: "pystr \<Rightarrow> pystr \<Rightarrow> connector_record" where
  "demo_record k v = \<lparr>rd_external_id = k, rd_data = [(''title'', v)], rd_updated_at = None\<rparr>"

text \<open>Two records are read; one differs from the cabinet's own, and waits for a human.\<close>

lemma sync_pull_exact_witness:
  "let p = \<lparr>sp_read = (\<lambda>since. Inr [demo_record ''1'' ''a'', demo_record ''2'' ''b'']), sp_mapper = None,
            sp_find = Some (\<lambda>firm entity k. Inr (if k = ''2'' then Some (demo_record ''2'' ''other'') else None))\<rparr>;
       h = \<lparr>sh_conflict_engine = register_strategy (Human_validation [''ann'']) (conflict_engine_init None),
            sh_validations = [], sh_metrics = []\<rparr>;
       (res, job', h') = run_pull True p (\<lambda>i. ''v'' @ dec_nat i) (\<lambda>i. 0) 7 demo_sync_job h in
   (\<exists>rep. res = Inr rep \<and> sr_records_read rep = 2 \<and> sr_records_written rep = 1 \<and> sr_conflicts_pending_validation rep = 1) \<and>
   job' = demo_sync_job\<lparr>sj_last_synced_at := Some 7\<rparr> \<and> length (sh_validations h') = 1"
proof -
  let ?p = "\<lparr>sp_read = (\<lambda>since. Inr [demo_record ''1'' ''a'', demo_record ''2'' ''b'']), sp_mapper = None,
            sp_find = Some (\<lambda>firm entity k. Inr (if k = ''2'' then Some (demo_record ''2'' ''other'') else None))\<rparr>"
  let ?h = "\<lparr>sh_conflict_engine = register_strategy (Human_validation [''ann'']) (conflict_engine_init None),
            sh_validations = [], sh_metrics = []\<rparr>"
  obtain res job' h' where run: "run_pull True ?p (\<lambda>i. ''v'' @ dec_nat i) (\<lambda>i. 0) 7 demo_sync_job ?h = (res, job', h')"
    by (cases "run_pull True ?p (\<lambda>i. ''v'' @ dec_nat i) (\<lambda>i. 0) 7 demo_sync_job ?h")
  have "\<exists>rep. res = Inr rep \<and> sr_conflicts_pending_validation rep = 1 \<and> length (sh_validations h') = 1"
    using run by (auto simp: run_pull_def run_pull_inner_def safe_read_def demo_sync_job_def demo_record_def Let_def
        dict_eq_def resolve_conflict_def conflict_engine_init_def register_strategy_def is_validated_def
        validation_history_def validation_store_list_for_production_def conflict_production_def request_simple_def
        new_validation_request_def validation_store_save_def record_pull_def)
  then obtain rep where rep: "res = Inr rep" and d: "sr_conflicts_pending_validation rep = 1" and v: "length (sh_validations h') = 1"
    by blast
  from sync_pull_exact [OF run] have n: "sr_records_read rep = 2" and w: "sr_records_written rep + 1 = sr_records_read rep"
    and j: "job' = demo_sync_job\<lparr>sj_last_synced_at := Some 7\<rparr>"
    unfolding rep sum.case d by auto
  show ?thesis unfolding Let_def run prod.case using rep d n w j v by simp
qed

text \<open>
  A conflict left to people: the record of the connector is taken once a request about it was approved,
  and never before. Until then it is pending; the first time, exactly one request is opened, pending
  and addressed to the approvers of the strategy, and asking again opens no other one.
\<close>

theorem human_conflict_pending:
  assumes "dict_get ce KS_HUMAN_VALIDATION = Some (Human_validation approvers)" and "dict_get vs new_id = None"
    and "resolve_conflict ce new_id now k KS_HUMAN_VALIDATION vs = (res, vs')"
  shows "if is_validated (kx_firm_id k) (conflict_production k) vs
     then res = Inr (resolved_as (kx_remote_record k) KS_HUMAN_VALIDATION) \<and> vs' = vs
     else res = Inr \<lparr>kr_resolved_record = None, kr_strategy_used = KS_HUMAN_VALIDATION, kr_pending_human_validation = True\<rparr> \<and>
       \<not> is_validated (kx_firm_id k) (conflict_production k) vs' \<and>
       resolve_conflict ce id2 now2 k KS_HUMAN_VALIDATION vs' = (res, vs') \<and>
       (if validation_history (kx_firm_id k) (conflict_production k) vs \<noteq> [] then vs' = vs
        else \<exists>r. validation_history (kx_firm_id k) (conflict_production k) vs' = [r] \<and> vs' = vs @ [(new_id, r)] \<and>
               vr_status r = VS_PENDING \<and> vr_approver_tiers r = [approvers])"
proof (cases "is_validated (kx_firm_id k) (conflict_production k) vs")
  case True
  then show ?thesis using assms by (auto simp: resolve_conflict_def)
next
  case False
  let ?pending = "\<lparr>kr_resolved_record = None, kr_strategy_used = KS_HUMAN_VALIDATION, kr_pending_human_validation = True\<rparr>"
  show ?thesis
  proof (cases "validation_history (kx_firm_id k) (conflict_production k) vs = []")
    case hist: False
    then have "res = Inr ?pending" "vs' = vs" using assms False by (auto simp: resolve_conflict_def)
    then show ?thesis using False hist assms by (simp add: resolve_conflict_def)
  next
    case hist: True
    define r where "r = fst (request_simple new_id now (kx_firm_id k) (conflict_production k) ''integration_hub'' approvers vs)"
    have r: "vr_status r = VS_PENDING" "vr_approver_tiers r = [approvers]" "vr_firm_id r = kx_firm_id k"
      "vr_production_id r = conflict_production k" "vr_id r = new_id"
      by (simp_all add: r_def request_simple_def new_validation_request_def Let_def)
    have "snd (request_simple new_id now (kx_firm_id k) (conflict_production k) ''integration_hub'' approvers vs) =
        validation_store_save r vs"
      by (simp add: r_def request_simple_def new_validation_request_def Let_def)
    then have vs': "vs' = vs @ [(new_id, r)]" and res: "res = Inr ?pending"
      using assms False hist by (auto simp: resolve_conflict_def validation_store_save_def r dict_set_fresh)
    have h': "validation_history (kx_firm_id k) (conflict_production k) vs' = [r]"
      using hist by (simp add: vs' validation_history_def validation_store_list_for_production_def r)
    then have nv: "\<not> is_validated (kx_firm_id k) (conflict_production k) vs'" by (simp add: is_validated_def r)
    have again: "resolve_conflict ce id2 now2 k KS_HUMAN_VALIDATION vs' = (Inr ?pending, vs')"
      using assms(1) nv h' by (simp add: resolve_conflict_def)
    show ?thesis unfolding res again using False hist h' nv r vs' by simp
  qed
qed

lemma human_conflict_pending_witness:
  "let k = \<lparr>kx_connector_id = ''dms'', kx_firm_id = ''f1'', kx_entity_type = ''document'', kx_external_id = ''2'',
            kx_local_record = demo_record ''2'' ''a'', kx_remote_record = demo_record ''2'' ''b''\<rparr>;
       ce = register_strategy (Human_validation [''ann'']) (conflict_engine_init None);
       vs = snd (resolve_conflict ce ''v1'' 0 k KS_HUMAN_VALIDATION []) in
   length vs = 1 \<and> snd (resolve_conflict ce ''v2'' 1 k KS_HUMAN_VALIDATION vs) = vs"
proof -
  let ?k = "\<lparr>kx_connector_id = ''dms'', kx_firm_id = ''f1'', kx_entity_type = ''document'', kx_external_id = ''2'',
            kx_local_record = demo_record ''2'' ''a'', kx_remote_record = demo_record ''2'' ''b''\<rparr>"
  let ?ce = "register_strategy (Human_validation [''ann'']) (conflict_engine_init None)"
  obtain res vs where r: "resolve_conflict ?ce ''v1'' 0 ?k KS_HUMAN_VALIDATION [] = (res, vs)"
    by (cases "resolve_conflict ?ce ''v1'' 0 ?k KS_HUMAN_VALIDATION []")
  have ce: "dict_get ?ce KS_HUMAN_VALIDATION = Some (Human_validation [''ann''])"
    by (simp add: register_strategy_def update_conv)
  have none: "dict_get ([] :: validation_store) ''v1'' = None" and nv: "\<not> is_validated (kx_firm_id ?k) (conflict_production ?k) []"
    and nh: "validation_history (kx_firm_id ?k) (conflict_production ?k) [] = []"
    by (simp_all add: is_validated_def validation_history_def validation_store_list_for_production_def)
  from human_conflict_pending [OF ce none r, of "''v2''" 1]
  have "resolve_conflict ?ce ''v2'' 1 ?k KS_HUMAN_VALIDATION vs = (res, vs)" and "\<exists>x. vs = [] @ [(''v1'', x)]"
    unfolding if_not_P [OF nv] nh by auto
  then show ?thesis unfolding Let_def r by auto
qed

end
