(* ===== verification/AsyncWork.thy ===== *)
theory AsyncWork
  imports RetriedWork
begin

text \<open>
  The background jobs of the runtime platform (\<^verbatim>\<open>runtime_platform/async_processing\<close>): a queue with delays and
  a dead letter queue. A job of which the delay is over is ready; a failure sets a new delay that doubles
  with each attempt.
\<close>

section \<open>Delays\<close>

text \<open>
  \<open>timedelta(seconds=x)\<close> of a float: the whole seconds exactly, the fraction rounded to microseconds. Dates
  and durations have no limits here.
\<close>

definition delta_of_seconds :: "pyfloat \<Rightarrow> timedelta result" where
  "delta_of_seconds x =
     (case x of
        Fin v \<Rightarrow>
          (let whole = (if v < 0 then - \<lfloor>- v\<rfloor> else \<lfloor>v\<rfloor>)
           in case round64 ((v - of_int whole) * 1000000) of
                Fin u \<Rightarrow> Inr (seconds whole + rne u)
              | _ \<Rightarrow> Inl (OverflowError ''cannot convert float infinity to integer''))
      | Inf _ \<Rightarrow> Inl (OverflowError ''cannot convert float infinity to integer'')
      | NaN \<Rightarrow> Inl (ValueError ''cannot convert float NaN to integer''))"

section \<open>Jobs\<close>

datatype async_job_status =
    AJ_SCHEDULED | AJ_PENDING | AJ_RUNNING | AJ_DONE | AJ_RETRYING | AJ_FAILED | AJ_DEAD_LETTERED | AJ_CANCELLED | AJ_TIMED_OUT

record async_job =
  aj_id :: pystr
  aj_queue_name :: pystr
  aj_priority :: int
  aj_status :: async_job_status
  aj_attempts :: int
  aj_max_attempts :: int
  aj_timeout_seconds :: pyfloat
  aj_run_at :: "datetime option"
  aj_created_at :: datetime
  aj_started_at :: "datetime option"
  aj_completed_at :: "datetime option"
  aj_error :: "pystr option"
  aj_dead_letter_reason :: "pystr option"

type_synonym job_store = "(pystr, async_job) dict"

definition save_job :: "async_job \<Rightarrow> job_store \<Rightarrow> job_store" where
  "save_job j s = dict_set (aj_id j) j s"

definition get_job :: "job_store \<Rightarrow> pystr \<Rightarrow> async_job option" where
  "get_job s job_id = dict_get s job_id"

definition all_jobs :: "job_store \<Rightarrow> async_job list" where
  "all_jobs s = dict_values s"

section \<open>Operations\<close>

definition enqueue_job :: "datetime \<Rightarrow> pyfloat \<Rightarrow> async_job \<Rightarrow> job_store \<Rightarrow> (async_job \<times> job_store) result" where
  "enqueue_job now delay_seconds j s =
     (if flt_less (Fin 0) delay_seconds
      then res_bind (delta_of_seconds delay_seconds)
             (\<lambda>d. let j' = j\<lparr>aj_run_at := Some (now + d), aj_status := AJ_SCHEDULED\<rparr> in Inr (j', save_job j' s))
      else Inr (j, save_job j s))"

definition job_ready :: "datetime \<Rightarrow> async_job \<Rightarrow> bool" where
  "job_ready now j \<longleftrightarrow>
     (if aj_status j \<in> {AJ_PENDING, AJ_RETRYING} then True
      else aj_status j = AJ_SCHEDULED \<and> (case aj_run_at j of None \<Rightarrow> False | Some t \<Rightarrow> t \<le> now))"

definition dequeue_ready :: "datetime \<Rightarrow> job_store \<Rightarrow> async_job option" where
  "dequeue_ready now s = pick_first (\<lambda>j. (- aj_priority j, aj_created_at j)) (job_ready now) (all_jobs s)"

definition require_job :: "job_store \<Rightarrow> pystr \<Rightarrow> async_job result" where
  "require_job s job_id = (case get_job s job_id of None \<Rightarrow> Inl (KeyError job_id) | Some j \<Rightarrow> Inr j)"

definition started_job :: "datetime \<Rightarrow> async_job \<Rightarrow> async_job" where
  "started_job now j = j\<lparr>aj_status := AJ_RUNNING, aj_attempts := aj_attempts j + 1, aj_started_at := Some now\<rparr>"

definition job_running :: "datetime \<Rightarrow> pystr \<Rightarrow> job_store \<Rightarrow> job_store result" where
  "job_running now job_id s = res_bind (require_job s job_id) (\<lambda>j. Inr (save_job (started_job now j) s))"

definition job_done :: "datetime \<Rightarrow> pystr \<Rightarrow> job_store \<Rightarrow> job_store result" where
  "job_done now job_id s =
     res_bind (require_job s job_id) (\<lambda>j. Inr (save_job (j\<lparr>aj_status := AJ_DONE, aj_completed_at := Some now\<rparr>) s))"

definition job_cancel :: "datetime \<Rightarrow> pystr \<Rightarrow> job_store \<Rightarrow> job_store result" where
  "job_cancel now job_id s =
     res_bind (require_job s job_id) (\<lambda>j. Inr (save_job (j\<lparr>aj_status := AJ_CANCELLED, aj_completed_at := Some now\<rparr>) s))"

text \<open>The delay after a failure; \<open>2 ** attempts\<close> of a negative count is a fraction.\<close>

definition backoff_delay :: "pyfloat \<Rightarrow> int \<Rightarrow> timedelta result" where
  "backoff_delay base attempts =
     (if 0 \<le> attempts then res_bind (flt_of_int (2 ^ nat attempts)) (\<lambda>p. delta_of_seconds (flt_mul base p))
      else delta_of_seconds (flt_mul base (round64 (1 / 2 ^ nat (- attempts)))))"

text \<open>
  A failure changes the job in place: its error and its status are changed before the delay is computed,
  which raises when it is too long. The job is returned as it then is, with what was raised, if anything.
\<close>

definition failed_job :: "pyfloat \<Rightarrow> datetime \<Rightarrow> pystr \<Rightarrow> async_job \<Rightarrow> unit result \<times> async_job" where
  "failed_job base now err j =
     (let j1 = j\<lparr>aj_error := Some err\<rparr>
      in if aj_attempts j1 < aj_max_attempts j1
         then let j2 = j1\<lparr>aj_status := AJ_RETRYING\<rparr>
              in case backoff_delay base (aj_attempts j2) of
                   Inl e \<Rightarrow> (Inl e, j2)
                 | Inr d \<Rightarrow> (Inr (), j2\<lparr>aj_run_at := Some (now + d)\<rparr>)
         else (Inr (), j1\<lparr>aj_status := AJ_DEAD_LETTERED, aj_dead_letter_reason := Some err, aj_completed_at := Some now\<rparr>))"

definition job_failed :: "pyfloat \<Rightarrow> datetime \<Rightarrow> pystr \<Rightarrow> pystr \<Rightarrow> job_store \<Rightarrow> async_job result \<times> job_store" where
  "job_failed base now job_id err s =
     (case require_job s job_id of
        Inl e \<Rightarrow> (Inl e, s)
      | Inr j \<Rightarrow>
          (case failed_job base now err j of
             (Inl e, j') \<Rightarrow> (Inl e, save_job j' s)
           | (Inr _, j') \<Rightarrow> (Inr j', save_job j' s)))"

definition job_overdue :: "datetime \<Rightarrow> async_job \<Rightarrow> bool" where
  "job_overdue now j \<longleftrightarrow> aj_status j = AJ_RUNNING \<and> run_over now (aj_started_at j) (aj_timeout_seconds j)"

definition timeout_message :: "async_job \<Rightarrow> pystr" where
  "timeout_message j = ''timed out after '' @ fixed1 (aj_timeout_seconds j) @ ''s''"

text \<open>The jobs are visited one by one; the first one whose delay cannot be computed ends the visit.\<close>

fun time_out_jobs ::
  "pyfloat \<Rightarrow> datetime \<Rightarrow> (pystr \<Rightarrow> datetime) \<Rightarrow> async_job list \<Rightarrow> job_store \<Rightarrow> async_job list result \<times> job_store" where
  "time_out_jobs base now clock [] s = (Inr [], s)"
| "time_out_jobs base now clock (j # js) s =
     (if \<not> job_overdue now j then time_out_jobs base now clock js s
      else
        (case job_failed base (clock (aj_id j)) (aj_id j) (timeout_message j) s of
           (Inl e, s1) \<Rightarrow> (Inl e, s1)
         | (Inr f, s1) \<Rightarrow>
             (let f' = (if aj_status f = AJ_DEAD_LETTERED then f\<lparr>aj_dead_letter_reason := Some ''timeout''\<rparr> else f)
              in case time_out_jobs base now clock js (save_job f' s1) of
                   (Inl e, s2) \<Rightarrow> (Inl e, s2)
                 | (Inr fs, s2) \<Rightarrow> (Inr (f' # fs), s2))))"

definition job_timeouts ::
  "pyfloat \<Rightarrow> datetime \<Rightarrow> (pystr \<Rightarrow> datetime) \<Rightarrow> job_store \<Rightarrow> async_job list result \<times> job_store" where
  "job_timeouts base now clock s = time_out_jobs base now clock (all_jobs s) s"

definition dead_letters :: "pystr option \<Rightarrow> job_store \<Rightarrow> async_job list" where
  "dead_letters queue_name s =
     (let jobs = filter (\<lambda>j. aj_status j = AJ_DEAD_LETTERED) (all_jobs s)
      in case queue_name of None \<Rightarrow> jobs | Some n \<Rightarrow> filter (\<lambda>j. aj_queue_name j = n) jobs)"

section \<open>Attempts and dead letters\<close>

definition job_waiting :: "async_job \<Rightarrow> bool" where
  "job_waiting j \<longleftrightarrow> aj_status j \<in> {AJ_PENDING, AJ_RETRYING, AJ_SCHEDULED}"

interpretation job_work: retried_work aj_id aj_attempts aj_max_attempts job_waiting started_job
    "\<lambda>(base, now, err) j. snd (failed_job base now err j)"
  by unfold_locales
    (auto simp: started_job_def failed_job_def job_waiting_def Let_def split: if_splits sum.splits)

lemma job_ready_waiting: "job_ready now j \<Longrightarrow> job_waiting j"
  by (auto simp: job_ready_def job_waiting_def split: if_splits)

text \<open>A job in the dead letter queue used up its attempts and carries a reason.\<close>

definition letter_ok :: "async_job \<Rightarrow> bool" where
  "letter_ok j \<longleftrightarrow> (aj_status j = AJ_DEAD_LETTERED \<longrightarrow>
     aj_attempts j = aj_max_attempts j \<and> aj_dead_letter_reason j \<noteq> None \<and> aj_error j \<noteq> None)"

definition jobs_ok :: "job_store \<Rightarrow> bool" where
  "jobs_ok s \<longleftrightarrow> job_work.all_fine s \<and> (\<forall>(k, j) \<in> set s. letter_ok j)"

lemma jobs_ok_get:
  assumes "jobs_ok s" and "get_job s k = Some j"
  shows "job_work.fine j \<and> letter_ok j \<and> aj_id j = k"
  using assms job_work.all_fine_get [of s k j] by (auto simp: jobs_ok_def get_job_def dest: map_of_SomeD)

lemma jobs_ok_save:
  assumes "jobs_ok s" and "job_work.fine j" and "letter_ok j"
  shows "jobs_ok (save_job j s)"
proof -
  have "x \<in> set (dict_set k j s) \<Longrightarrow> x \<in> set s \<or> x = (k, j)" for x k
    by (induction s) (auto split: if_splits)
  then show ?thesis using assms by (fastforce simp: jobs_ok_def save_job_def intro: job_work.all_fine_set)
qed

lemma failed_job_ok:
  assumes "job_work.fine j"
  shows "job_work.fine (snd (failed_job base now err j)) \<and> letter_ok (snd (failed_job base now err j))"
  using job_work.fine_fails [OF assms, of "(base, now, err)"] assms
  by (auto simp: letter_ok_def failed_job_def job_work.fine_def Let_def split: sum.splits)

lemma job_failed_ok:
  assumes "jobs_ok s" and "job_failed base now job_id err s = (r, s')"
  shows "jobs_ok s' \<and> (\<forall>f. r = Inr f \<longrightarrow> job_work.fine f \<and> letter_ok f)"
proof (cases "get_job s job_id")
  case None
  then show ?thesis using assms by (auto simp: job_failed_def require_job_def)
next
  case (Some j)
  have j: "job_work.fine j" using jobs_ok_get [OF assms(1) Some] by blast
  obtain x j' where f: "failed_job base now err j = (x, j')" by (cases "failed_job base now err j")
  have ok: "job_work.fine j'" "letter_ok j'" using failed_job_ok [OF j, of base now err] by (simp_all add: f)
  then show ?thesis using assms jobs_ok_save [OF assms(1) ok]
    by (cases x) (auto simp: job_failed_def require_job_def Some f)
qed

lemma time_out_jobs_ok: "time_out_jobs base now clock js s = (r, s') \<Longrightarrow> jobs_ok s \<Longrightarrow> jobs_ok s'"
proof (induction js arbitrary: s r s')
  case (Cons j js)
  show ?case
  proof (cases "job_overdue now j")
    case True
    obtain x s1 where f: "job_failed base (clock (aj_id j)) (aj_id j) (timeout_message j) s = (x, s1)"
      by (metis surj_pair)
    have s1: "jobs_ok s1" and x: "x = Inr a \<Longrightarrow> job_work.fine a \<and> letter_ok a" for a
      using job_failed_ok [OF Cons.prems(2) f] by auto
    show ?thesis
    proof (cases x)
      case (Inl e)
      then show ?thesis using Cons.prems(1) True s1 by (simp add: f)
    next
      case (Inr a)
      let ?a = "if aj_status a = AJ_DEAD_LETTERED then a\<lparr>aj_dead_letter_reason := Some ''timeout''\<rparr> else a"
      have "job_work.fine ?a" "letter_ok ?a"
        using x [OF Inr] by (auto simp: letter_ok_def job_work.fine_def job_waiting_def)
      then have ok: "jobs_ok (save_job ?a s1)" by (rule jobs_ok_save [OF s1])
      obtain y s2 where go: "time_out_jobs base now clock js (save_job ?a s1) = (y, s2)" by (metis surj_pair)
      have "jobs_ok s2" using Cons.IH [OF go ok] .
      then show ?thesis using Cons.prems(1) True by (cases y) (auto simp: f Inr go Let_def)
    qed
  qed (use Cons in simp)
qed simp

text \<open>A worker starts what \<open>dequeue_ready\<close> gives it; everything else may come at any moment.\<close>

inductive job_step :: "pyfloat \<Rightarrow> job_store \<Rightarrow> job_store \<Rightarrow> bool" for base where
  enqueue: "get_job s (aj_id j) = None \<Longrightarrow> aj_status j = AJ_PENDING \<Longrightarrow> aj_attempts j = 0 \<Longrightarrow> 0 < aj_max_attempts j \<Longrightarrow>
     enqueue_job now delay_seconds j s = Inr (j', s') \<Longrightarrow> job_step base s s'"
| start: "dequeue_ready now s = Some j \<Longrightarrow> job_running now2 (aj_id j) s = Inr s' \<Longrightarrow> job_step base s s'"
| finish: "job_done now job_id s = Inr s' \<Longrightarrow> job_step base s s'"
| fail: "job_failed base now job_id err s = (r, s') \<Longrightarrow> job_step base s s'"
| cancel: "job_cancel now job_id s = Inr s' \<Longrightarrow> job_step base s s'"
| timeouts: "job_timeouts base now clock s = (rs, s') \<Longrightarrow> job_step base s s'"

lemma settled_ok:
  assumes "jobs_ok s" and "get_job s k = Some j" and "aj_status j' \<in> {AJ_DONE, AJ_CANCELLED}"
    and "aj_attempts j' = aj_attempts j" and "aj_max_attempts j' = aj_max_attempts j"
  shows "jobs_ok (save_job j' s)"
  using jobs_ok_get [OF assms(1,2)] assms(3-5)
  by (intro jobs_ok_save [OF assms(1)]) (auto simp: letter_ok_def job_waiting_def intro: job_work.fine_settled)

lemma job_step_ok:
  assumes "job_step base s s'" and ok: "jobs_ok s"
  shows "jobs_ok s'"
  using assms(1)
proof cases
  case (enqueue j now delay_seconds j')
  then have "aj_status j' \<in> {AJ_PENDING, AJ_SCHEDULED}" "aj_attempts j' = 0" "aj_max_attempts j' = aj_max_attempts j" "s' = save_job j' s"
    by (auto simp: enqueue_job_def res_bind_Inr_iff Let_def split: if_splits sum.splits)
  then show ?thesis using enqueue(4) by (auto simp: job_work.fine_def letter_ok_def intro: jobs_ok_save [OF ok])
next
  case (start now j now2)
  have r: "j \<in> set (dict_values s)" "job_waiting j"
    using pick_first_Some [OF start(1) [unfolded dequeue_ready_def]] job_ready_waiting by (auto simp: all_jobs_def)
  have "job_work.all_fine s" using ok by (simp add: jobs_ok_def)
  from job_work.all_fine_member [OF this r(1)] have get: "get_job s (aj_id j) = Some j" by (simp add: get_job_def)
  have "job_work.fine (started_job now2 j)" using jobs_ok_get [OF ok get] r(2) by (intro job_work.fine_start) auto
  then have "jobs_ok (save_job (started_job now2 j) s)"
    by (rule jobs_ok_save [OF ok]) (simp add: letter_ok_def started_job_def)
  then show ?thesis using start(2) by (simp add: job_running_def require_job_def get)
next
  case (finish now job_id)
  then obtain j where "get_job s job_id = Some j" and "s' = save_job (j\<lparr>aj_status := AJ_DONE, aj_completed_at := Some now\<rparr>) s"
    by (auto simp: job_done_def require_job_def split: option.splits)
  then show ?thesis by (auto intro: settled_ok [OF ok])
next
  case (fail now job_id err r)
  then show ?thesis using job_failed_ok [OF ok] by blast
next
  case (cancel now job_id)
  then obtain j where "get_job s job_id = Some j" and "s' = save_job (j\<lparr>aj_status := AJ_CANCELLED, aj_completed_at := Some now\<rparr>) s"
    by (auto simp: job_cancel_def require_job_def split: option.splits)
  then show ?thesis by (auto intro: settled_ok [OF ok])
next
  case (timeouts now clock rs)
  then show ?thesis using time_out_jobs_ok [OF _ ok] by (simp add: job_timeouts_def)
qed

lemma jobs_reachable_ok: "(job_step base)\<^sup>*\<^sup>* [] s \<Longrightarrow> jobs_ok s"
proof (induction rule: rtranclp_induct)
  case base
  show ?case by (simp add: jobs_ok_def job_work.all_fine_Nil)
qed (rule job_step_ok)

section \<open>Properties\<close>

text \<open>
  In every queue that can be reached, no job was attempted more often than its limit, a job that waits to be
  run has an attempt left, and the dead letter queue holds exactly jobs that used up their attempts,
  with an error and a reason. What a worker is given is a ready job of the highest priority, the
  earliest created of these, and never one from the dead letter queue.
\<close>

theorem async_jobs_bounded:
  assumes "(job_step base)\<^sup>*\<^sup>* [] s"
  shows "(\<forall>j \<in> set (all_jobs s). 0 \<le> aj_attempts j \<and> aj_attempts j \<le> aj_max_attempts j \<and>
       (job_waiting j \<longrightarrow> aj_attempts j < aj_max_attempts j)) \<and>
     (\<forall>j \<in> set (dead_letters None s). aj_attempts j = aj_max_attempts j \<and> aj_dead_letter_reason j \<noteq> None \<and> aj_error j \<noteq> None) \<and>
     (case dequeue_ready now s of
        None \<Rightarrow> \<forall>j \<in> set (all_jobs s). \<not> job_ready now j
      | Some j \<Rightarrow> get_job s (aj_id j) = Some j \<and> job_ready now j \<and> j \<notin> set (dead_letters None s) \<and>
          (\<forall>i \<in> set (all_jobs s). job_ready now i \<longrightarrow>
             aj_priority i < aj_priority j \<or> aj_priority i = aj_priority j \<and> aj_created_at j \<le> aj_created_at i))"
proof -
  have ok: "jobs_ok s" using assms by (rule jobs_reachable_ok)
  have mem: "get_job s (aj_id j) = Some j" if "j \<in> set (all_jobs s)" for j
    using that ok job_work.all_fine_member [of s j] by (simp add: jobs_ok_def get_job_def all_jobs_def)
  have fine: "job_work.fine j \<and> letter_ok j" if "j \<in> set (all_jobs s)" for j
    using jobs_ok_get [OF ok mem [OF that]] by blast
  have some: "get_job s (aj_id j) = Some j \<and> job_ready now j \<and> j \<notin> set (dead_letters None s) \<and>
      (\<forall>i \<in> set (all_jobs s). job_ready now i \<longrightarrow>
         aj_priority i < aj_priority j \<or> aj_priority i = aj_priority j \<and> aj_created_at j \<le> aj_created_at i)"
    if "dequeue_ready now s = Some j" for j
    using pick_priority [OF that [unfolded dequeue_ready_def]] mem job_ready_waiting [of now j]
    by (auto simp: dead_letters_def job_waiting_def)
  have none: "\<forall>j \<in> set (all_jobs s). \<not> job_ready now j" if "dequeue_ready now s = None"
    using that by (simp add: dequeue_ready_def pick_first_None)
  have letters: "\<forall>j \<in> set (dead_letters None s). aj_attempts j = aj_max_attempts j \<and> aj_dead_letter_reason j \<noteq> None \<and> aj_error j \<noteq> None"
    using fine by (auto simp: dead_letters_def letter_ok_def)
  have attempts: "\<forall>j \<in> set (all_jobs s). 0 \<le> aj_attempts j \<and> aj_attempts j \<le> aj_max_attempts j \<and>
      (job_waiting j \<longrightarrow> aj_attempts j < aj_max_attempts j)"
    using fine by (simp add: job_work.fine_def)
  show ?thesis using attempts letters some none by (cases "dequeue_ready now s") simp_all
qed

definition demo_job :: "pystr \<Rightarrow> async_job" where
  "demo_job k = \<lparr>aj_id = k, aj_queue_name = ''mail'', aj_priority = 0, aj_status = AJ_PENDING, aj_attempts = 0,
     aj_max_attempts = 1, aj_timeout_seconds = Fin 30, aj_run_at = None, aj_created_at = 0, aj_started_at = None,
     aj_completed_at = None, aj_error = None, aj_dead_letter_reason = None\<rparr>"

lemma async_jobs_bounded_witness:
  "\<exists>s j. dead_letters None s = [j] \<and> aj_attempts j = 1 \<and> dequeue_ready 9 s = None \<and> aj_dead_letter_reason j \<noteq> None"
proof -
  let ?s1 = "save_job (demo_job ''a'') []" and ?s2 = "save_job (started_job 1 (demo_job ''a'')) []"
  let ?j = "snd (failed_job (Fin 1) 2 ''x'' (started_job 1 (demo_job ''a'')))"
  have "job_step (Fin 1) [] ?s1"
    by (rule job_step.enqueue [of _ "demo_job ''a''" 0 "Fin 0"]) (simp_all add: demo_job_def get_job_def enqueue_job_def)
  moreover have "job_step (Fin 1) ?s1 ?s2"
    by (rule job_step.start [of 1 _ "demo_job ''a''" 1])
      (simp_all add: demo_job_def dequeue_ready_def pick_first_def all_jobs_def job_ready_def save_job_def job_running_def
         require_job_def get_job_def started_job_def)
  moreover have "job_step (Fin 1) ?s2 (save_job ?j [])"
    by (rule job_step.fail [of _ 2 "''a''" "''x''"])
      (simp add: demo_job_def save_job_def job_failed_def require_job_def get_job_def started_job_def failed_job_def)
  ultimately have r: "(job_step (Fin 1))\<^sup>*\<^sup>* [] (save_job ?j [])"
    by (rule rtranclp.rtrancl_into_rtrancl [OF rtranclp.rtrancl_into_rtrancl [OF r_into_rtranclp]])
  have "dead_letters None (save_job ?j []) = [?j]" and "aj_attempts ?j = 1" and "dequeue_ready 9 (save_job ?j []) = None"
    by (simp_all add: dead_letters_def all_jobs_def save_job_def demo_job_def started_job_def failed_job_def
        dequeue_ready_def pick_first_def job_ready_def)
  then show ?thesis using async_jobs_bounded [OF r, of 9] by (intro exI [of _ "save_job ?j []"] exI [of _ ?j]) simp
qed

text \<open>
  The delay after a failure is computed and stored, but delays nothing: a failed job that has an attempt left
  is ready at every moment, before its delay is over as well. Only a job that was scheduled waits.
\<close>

theorem retry_delay_ignored:
  assumes "get_job s k = Some j" and "aj_attempts j < aj_max_attempts j" and "backoff_delay base (aj_attempts j) = Inr d"
    and "aj_id j = k"
  shows "\<exists>f s'. job_failed base now k err s = (Inr f, s') \<and> get_job s' k = Some f \<and> aj_run_at f = Some (now + d) \<and>
    job_ready t f \<and> (job_ready t (f\<lparr>aj_status := AJ_SCHEDULED\<rparr>) \<longleftrightarrow> now + d \<le> t)"
proof -
  let ?f = "j\<lparr>aj_error := Some err, aj_status := AJ_RETRYING, aj_run_at := Some (now + d)\<rparr>"
  have "failed_job base now err j = (Inr (), ?f)" using assms(2,3) by (simp add: failed_job_def)
  then have "job_failed base now k err s = (Inr ?f, save_job ?f s)" using assms(1) by (simp add: job_failed_def require_job_def)
  moreover have "get_job (save_job ?f s) k = Some ?f" using assms(4) by (simp add: get_job_def save_job_def update_conv)
  ultimately show ?thesis by (intro exI [of _ ?f] exI [of _ "save_job ?f s"]) (simp add: job_ready_def)
qed

lemma retry_delay_ignored_witness:
  "\<exists>f s'. job_failed (Fin 1) 0 ''a'' ''x'' (save_job ((demo_job ''a'')\<lparr>aj_max_attempts := 3, aj_attempts := 1\<rparr>) []) = (Inr f, s') \<and>
    aj_run_at f = Some 2000000 \<and> job_ready 1 f"
proof -
  let ?j = "(demo_job ''a'')\<lparr>aj_max_attempts := 3, aj_attempts := 1\<rparr>"
  have get: "get_job (save_job ?j []) ''a'' = Some ?j" by (simp add: get_job_def save_job_def demo_job_def)
  have two: "round64 (2 :: rat) = Fin 2" using round64_int [of 2] by simp
  have zero: "round64 (0 :: rat) = Fin 0" using round64_int [of 0] by simp
  have rz: "rne 0 = 0" using rne_of_int [of 0] by simp
  have d: "backoff_delay (Fin 1) (aj_attempts ?j) = Inr 2000000"
    by (simp add: backoff_delay_def demo_job_def flt_of_int_def two delta_of_seconds_def zero rz)
  show ?thesis using retry_delay_ignored [OF get _ d, of 0 "''x''" 1] by (auto simp: demo_job_def)
qed

end
