(* ===== verification/Teams.thy ===== *)
theory Teams
  imports PyFloat
begin

text \<open>
  Planning in the AI team (\<^verbatim>\<open>ai_team/capabilities\<close>, \<^verbatim>\<open>planner\<close>, \<^verbatim>\<open>registry\<close>, \<^verbatim>\<open>teams\<close>, \<^verbatim>\<open>delegation\<close>): the templates
  of missions, the plan made of one, the team that is built for it and the agent a step of the plan is
  given to. The French names and descriptions are left out.
\<close>

section \<open>Capabilities\<close>

datatype legal_domain = LD_GENERAL | LD_CIVIL | LD_COMMERCIAL | LD_SOCIAL | LD_FISCAL | LD_DATA_PROTECTION | LD_PENAL

datatype mission_task = MT_DOCUMENT_ANALYSIS | MT_LEGAL_RESEARCH | MT_JURISPRUDENCE_RESEARCH | MT_RISK_ANALYSIS | MT_REASONING
  | MT_DRAFTING | MT_VERIFICATION | MT_QUALITY_CONTROL | MT_COORDINATION | MT_CRITIQUE

fun mission_task_value :: "mission_task \<Rightarrow> pystr" where
  "mission_task_value MT_DOCUMENT_ANALYSIS = ''document_analysis''"
| "mission_task_value MT_LEGAL_RESEARCH = ''legal_research''"
| "mission_task_value MT_JURISPRUDENCE_RESEARCH = ''jurisprudence_research''"
| "mission_task_value MT_RISK_ANALYSIS = ''risk_analysis''"
| "mission_task_value MT_REASONING = ''reasoning''"
| "mission_task_value MT_DRAFTING = ''drafting''"
| "mission_task_value MT_VERIFICATION = ''verification''"
| "mission_task_value MT_QUALITY_CONTROL = ''quality_control''"
| "mission_task_value MT_COORDINATION = ''coordination''"
| "mission_task_value MT_CRITIQUE = ''critique''"

datatype agent_role = AR_COORDINATOR | AR_DOCUMENT_ANALYST | AR_LEGAL_RESEARCHER | AR_JURISPRUDENCE_EXPERT | AR_DRAFTER
  | AR_VERIFIER | AR_QUALITY_CONTROLLER | AR_GDPR_EXPERT | AR_TAX_EXPERT | AR_SOCIAL_LAW_EXPERT | AR_CRITIC

fun agent_role_value :: "agent_role \<Rightarrow> pystr" where
  "agent_role_value AR_COORDINATOR = ''coordinator''"
| "agent_role_value AR_DOCUMENT_ANALYST = ''document_analyst''"
| "agent_role_value AR_LEGAL_RESEARCHER = ''legal_researcher''"
| "agent_role_value AR_JURISPRUDENCE_EXPERT = ''jurisprudence_expert''"
| "agent_role_value AR_DRAFTER = ''drafter''"
| "agent_role_value AR_VERIFIER = ''verifier''"
| "agent_role_value AR_QUALITY_CONTROLLER = ''quality_controller''"
| "agent_role_value AR_GDPR_EXPERT = ''gdpr_expert''"
| "agent_role_value AR_TAX_EXPERT = ''tax_expert''"
| "agent_role_value AR_SOCIAL_LAW_EXPERT = ''social_law_expert''"
| "agent_role_value AR_CRITIC = ''critic''"

fun domain_expert_role :: "legal_domain \<Rightarrow> agent_role option" where
  "domain_expert_role LD_DATA_PROTECTION = Some AR_GDPR_EXPERT"
| "domain_expert_role LD_FISCAL = Some AR_TAX_EXPERT"
| "domain_expert_role LD_SOCIAL = Some AR_SOCIAL_LAW_EXPERT"
| "domain_expert_role _ = None"

type_synonym mission_step = "mission_task \<times> agent_role"

definition quick_review :: "mission_step list" where
  "quick_review = [(MT_VERIFICATION, AR_VERIFIER), (MT_QUALITY_CONTROL, AR_QUALITY_CONTROLLER)]"

definition drafting_only :: "mission_step list" where
  "drafting_only = [(MT_DRAFTING, AR_DRAFTER), (MT_VERIFICATION, AR_VERIFIER)]"

definition standard_analysis :: "mission_step list" where
  "standard_analysis = [(MT_DOCUMENT_ANALYSIS, AR_DOCUMENT_ANALYST), (MT_LEGAL_RESEARCH, AR_LEGAL_RESEARCHER),
     (MT_VERIFICATION, AR_VERIFIER), (MT_QUALITY_CONTROL, AR_QUALITY_CONTROLLER)]"

definition full_case_analysis :: "mission_step list" where
  "full_case_analysis = [(MT_DOCUMENT_ANALYSIS, AR_DOCUMENT_ANALYST), (MT_LEGAL_RESEARCH, AR_LEGAL_RESEARCHER),
     (MT_JURISPRUDENCE_RESEARCH, AR_JURISPRUDENCE_EXPERT), (MT_REASONING, AR_DRAFTER), (MT_DRAFTING, AR_DRAFTER),
     (MT_VERIFICATION, AR_VERIFIER), (MT_QUALITY_CONTROL, AR_QUALITY_CONTROLLER)]"

definition mission_templates :: "(pystr, mission_step list) dict" where
  "mission_templates = [(''quick_review'', quick_review), (''drafting_only'', drafting_only),
     (''standard_analysis'', standard_analysis), (''full_case_analysis'', full_case_analysis)]"

definition template_for :: "pystr \<Rightarrow> mission_step list" where
  "template_for case_type =
     (case dict_get mission_templates case_type of Some t \<Rightarrow> t | None \<Rightarrow> full_case_analysis)"

fun seen_roles :: "mission_step list \<Rightarrow> agent_role list \<Rightarrow> agent_role list" where
  "seen_roles [] seen = seen"
| "seen_roles ((_, r) # steps) seen = seen_roles steps (if r \<in> set seen then seen else seen @ [r])"

definition roles_for_case_type :: "pystr \<Rightarrow> agent_role list" where
  "roles_for_case_type case_type = seen_roles (template_for case_type) []"

section \<open>Plans\<close>

record subtask =
  sk_id :: pystr
  sk_task_type :: mission_task
  sk_assigned_role :: agent_role
  sk_depends_on :: "pystr list"

definition is_research :: "mission_task \<Rightarrow> bool" where
  "is_research t \<longleftrightarrow> t = MT_JURISPRUDENCE_RESEARCH \<or> t = MT_LEGAL_RESEARCH"

text \<open>The loop over the steps: the sub-tasks so far, the previous identifier and that of the last research.\<close>

fun plan_steps_from ::
  "(nat \<Rightarrow> pystr) \<Rightarrow> nat \<Rightarrow> mission_step list \<Rightarrow> subtask list \<Rightarrow> pystr option \<Rightarrow> pystr option \<Rightarrow> subtask list \<times> pystr option" where
  "plan_steps_from new_id n [] sub_tasks previous_id last_research = (sub_tasks, last_research)"
| "plan_steps_from new_id n ((t, r) # steps) sub_tasks previous_id last_research =
     plan_steps_from new_id (Suc n) steps
       (sub_tasks @ [\<lparr>sk_id = new_id n, sk_task_type = t, sk_assigned_role = r,
                      sk_depends_on = (case previous_id of None \<Rightarrow> [] | Some p \<Rightarrow> if p = '''' then [] else [p])\<rparr>])
       (Some (new_id n)) (if is_research t then Some (new_id n) else last_research)"

definition splice_after :: "pystr \<Rightarrow> subtask \<Rightarrow> subtask list \<Rightarrow> subtask list" where
  "splice_after after_id new_sub_task sub_tasks =
     concat (map (\<lambda>st.
        let st' = (if after_id \<in> set (sk_depends_on st) \<and> sk_id st \<noteq> sk_id new_sub_task
                   then st\<lparr>sk_depends_on := map (\<lambda>dep. if dep = after_id then sk_id new_sub_task else dep) (sk_depends_on st)\<rparr>
                   else st)
        in st' # (if sk_id st' = after_id then [new_sub_task] else [])) sub_tasks)"

definition decompose :: "(nat \<Rightarrow> pystr) \<Rightarrow> legal_domain \<Rightarrow> pystr \<Rightarrow> subtask list" where
  "decompose new_id domain case_type =
     (case plan_steps_from new_id 0 (template_for case_type) [] None None of
        (sub_tasks, last_research) \<Rightarrow>
          (case (domain_expert_role domain, last_research) of
             (Some expert, Some after_id) \<Rightarrow>
               splice_after after_id
                 \<lparr>sk_id = new_id (length (template_for case_type)), sk_task_type = MT_RISK_ANALYSIS, sk_assigned_role = expert,
                  sk_depends_on = [after_id]\<rparr> sub_tasks
           | _ \<Rightarrow> sub_tasks))"

section \<open>The registry of agents\<close>

record agent_descriptor =
  ad_id :: pystr
  ad_role :: agent_role
  ad_skills :: "pystr set"
  ad_estimated_cost_usd :: pyfloat
  ad_average_duration_seconds :: pyfloat
  ad_quality_score :: pyfloat

type_synonym agent_registry = "(pystr, agent_descriptor) dict"

definition register_agent :: "agent_descriptor \<Rightarrow> agent_registry \<Rightarrow> agent_registry" where
  "register_agent d reg = dict_set (ad_id d) d reg"

definition get_agent :: "agent_registry \<Rightarrow> pystr \<Rightarrow> agent_descriptor option" where
  "get_agent reg agent_id = dict_get reg agent_id"

definition agents_by_role :: "agent_role \<Rightarrow> agent_registry \<Rightarrow> agent_descriptor list" where
  "agents_by_role r reg = filter (\<lambda>d. ad_role d = r) (dict_values reg)"

definition agents_by_skill :: "pystr \<Rightarrow> agent_registry \<Rightarrow> agent_descriptor list" where
  "agents_by_skill skill reg = filter (\<lambda>d. skill \<in> ad_skills d) (dict_values reg)"

definition role_definition :: "pystr \<Rightarrow> agent_role \<Rightarrow> pystr set \<Rightarrow> agent_descriptor" where
  "role_definition agent_id r skills =
     \<lparr>ad_id = agent_id, ad_role = r, ad_skills = skills, ad_estimated_cost_usd = round64 (1 / 100),
      ad_average_duration_seconds = Fin 5, ad_quality_score = round64 (8 / 10)\<rparr>"

definition default_descriptors :: "agent_descriptor list" where
  "default_descriptors =
     [role_definition ''agent-document-analyst'' AR_DOCUMENT_ANALYST {''document_analysis''},
      role_definition ''agent-legal-researcher'' AR_LEGAL_RESEARCHER {''legal_research''},
      role_definition ''agent-jurisprudence-expert'' AR_JURISPRUDENCE_EXPERT {''jurisprudence_research''},
      role_definition ''agent-drafter'' AR_DRAFTER {''drafting''},
      role_definition ''agent-verifier'' AR_VERIFIER {''verification''},
      role_definition ''agent-quality-controller'' AR_QUALITY_CONTROLLER {''quality_control''},
      role_definition ''agent-gdpr-expert'' AR_GDPR_EXPERT {''gdpr'', ''risk_analysis''},
      role_definition ''agent-tax-expert'' AR_TAX_EXPERT {''tax_law'', ''risk_analysis''},
      role_definition ''agent-social-law-expert'' AR_SOCIAL_LAW_EXPERT {''social_law'', ''risk_analysis''},
      role_definition ''agent-critic'' AR_CRITIC {''critique''}]"

definition default_agent_registry :: agent_registry where
  "default_agent_registry = fold register_agent default_descriptors []"

section \<open>Teams\<close>

datatype mission_complexity = MC_LOW | MC_MEDIUM | MC_HIGH

record agent_team =
  at_id :: pystr
  at_member_agent_ids :: "pystr list"
  at_domain :: legal_domain
  at_is_custom :: bool

definition resolve_role :: "agent_registry \<Rightarrow> agent_role \<Rightarrow> pystr option" where
  "resolve_role reg r = (case agents_by_role r reg of [] \<Rightarrow> None | d # _ \<Rightarrow> Some (ad_id d))"

definition over_target :: "pyfloat option \<Rightarrow> pyfloat \<Rightarrow> bool" where
  "over_target target x \<longleftrightarrow> (case target of None \<Rightarrow> False | Some t \<Rightarrow> flt_less t x)"

fun keep_in_budget ::
  "agent_registry \<Rightarrow> pyfloat option \<Rightarrow> pyfloat option \<Rightarrow> pystr list \<Rightarrow> pystr list \<Rightarrow> pyfloat \<Rightarrow> pyfloat \<Rightarrow> pystr list" where
  "keep_in_budget reg cost delay [] kept total_cost total_time = kept"
| "keep_in_budget reg cost delay (a # agents) kept total_cost total_time =
     (case get_agent reg a of
        None \<Rightarrow> keep_in_budget reg cost delay agents kept total_cost total_time
      | Some d \<Rightarrow>
          (let next_cost = flt_add total_cost (ad_estimated_cost_usd d);
               next_time = flt_add total_time (ad_average_duration_seconds d)
           in if kept \<noteq> [] \<and> (over_target cost next_cost \<or> over_target delay next_time)
              then keep_in_budget reg cost delay agents kept total_cost total_time
              else keep_in_budget reg cost delay agents (kept @ [a]) next_cost next_time))"

definition apply_budget ::
  "agent_registry \<Rightarrow> pystr list \<Rightarrow> pyfloat option \<Rightarrow> pyfloat option \<Rightarrow> pystr list" where
  "apply_budget reg agents cost delay =
     (if cost = None \<and> delay = None then agents else keep_in_budget reg cost delay agents [] (Fin 0) (Fin 0))"

type_synonym agent_team_store = "(pystr, agent_team) dict"

definition save_team :: "agent_team \<Rightarrow> agent_team_store \<Rightarrow> agent_team_store" where
  "save_team t s = dict_set (at_id t) t s"

definition get_agent_team :: "agent_team_store \<Rightarrow> pystr \<Rightarrow> agent_team option" where
  "get_agent_team s team_id = dict_get s team_id"

definition team_agents ::
  "agent_registry \<Rightarrow> legal_domain \<Rightarrow> mission_complexity \<Rightarrow> pystr \<Rightarrow> pyfloat option \<Rightarrow> pyfloat option \<Rightarrow> pystr list" where
  "team_agents reg domain complexity case_type cost delay =
     (let roles = roles_for_case_type case_type;
          template_roles = (case domain_expert_role domain of
              Some expert \<Rightarrow> if complexity \<noteq> MC_LOW then roles @ [expert] else roles
            | None \<Rightarrow> roles);
          agent_ids = filter (\<lambda>a. a \<noteq> '''') (List.map_filter (resolve_role reg) template_roles)
      in apply_budget reg agent_ids cost delay)"

definition build_team ::
  "pystr \<Rightarrow> agent_registry \<Rightarrow> legal_domain \<Rightarrow> mission_complexity \<Rightarrow> pystr \<Rightarrow> pyfloat option \<Rightarrow> pyfloat option \<Rightarrow> agent_team_store
     \<Rightarrow> agent_team \<times> agent_team_store" where
  "build_team new_id reg domain complexity case_type cost delay s =
     (let t = \<lparr>at_id = new_id, at_member_agent_ids = team_agents reg domain complexity case_type cost delay,
               at_domain = domain, at_is_custom = False\<rparr>
      in (t, save_team t s))"

definition build_custom_team :: "pystr \<Rightarrow> pystr list \<Rightarrow> agent_team_store \<Rightarrow> agent_team \<times> agent_team_store" where
  "build_custom_team new_id agent_ids s =
     (let t = \<lparr>at_id = new_id, at_member_agent_ids = agent_ids, at_domain = LD_GENERAL, at_is_custom = True\<rparr>
      in (t, save_team t s))"

section \<open>Delegation\<close>

text \<open>The dictionary of the members found has the order of their first mention.\<close>

definition agent_for :: "agent_registry \<Rightarrow> agent_team \<Rightarrow> agent_role \<Rightarrow> pystr option" where
  "agent_for reg team r =
     (let found = fold (\<lambda>a. case get_agent reg a of None \<Rightarrow> id | Some d \<Rightarrow> dict_set (ad_id d) d) (at_member_agent_ids team) [];
          matching = map fst (filter (\<lambda>(a, d). ad_role d = r) found)
      in case matching of [] \<Rightarrow> None | a # _ \<Rightarrow> Some a)"

record delegation_record =
  dr_mission_id :: pystr
  dr_sub_task_id :: pystr
  dr_agent_id :: "pystr option"

definition assign_agent ::
  "agent_registry \<Rightarrow> pystr \<Rightarrow> subtask \<Rightarrow> agent_team \<Rightarrow> delegation_record list \<Rightarrow> pystr option \<times> delegation_record list" where
  "assign_agent reg mission_id st team records =
     (let a = agent_for reg team (sk_assigned_role st)
      in (a, records @ [\<lparr>dr_mission_id = mission_id, dr_sub_task_id = sk_id st, dr_agent_id = a\<rparr>]))"

section \<open>Plans are chains\<close>

fun depends_chain :: "pystr list \<Rightarrow> subtask list \<Rightarrow> bool" where
  "depends_chain previous [] = True"
| "depends_chain previous (st # sts) = (sk_depends_on st = previous \<and> depends_chain [sk_id st] sts)"

text \<open>What the steps of a plan should be: those of the template, the expert right after the last research.\<close>

definition with_expert :: "agent_role option \<Rightarrow> mission_step list \<Rightarrow> mission_step list" where
  "with_expert expert steps =
     (let after = takeWhile (\<lambda>s. \<not> is_research (fst s)) (rev steps);
          before = dropWhile (\<lambda>s. \<not> is_research (fst s)) (rev steps)
      in case expert of
           Some e \<Rightarrow> if before = [] then steps else rev before @ (MT_RISK_ANALYSIS, e) # rev after
         | None \<Rightarrow> steps)"

lemma template_cases:
  "template_for case_type \<in> {quick_review, drafting_only, standard_analysis, full_case_analysis}"
  by (auto simp: template_for_def mission_templates_def split: option.split if_splits)

lemmas template_defs = quick_review_def drafting_only_def standard_analysis_def full_case_analysis_def

definition plan_of_steps :: "(nat \<Rightarrow> pystr) \<Rightarrow> agent_role option \<Rightarrow> mission_step list \<Rightarrow> subtask list" where
  "plan_of_steps new_id expert steps =
     (case plan_steps_from new_id 0 steps [] None None of
        (sub_tasks, last_research) \<Rightarrow>
          (case (expert, last_research) of
             (Some expert, Some after_id) \<Rightarrow>
               splice_after after_id
                 \<lparr>sk_id = new_id (length steps), sk_task_type = MT_RISK_ANALYSIS, sk_assigned_role = expert,
                  sk_depends_on = [after_id]\<rparr> sub_tasks
           | _ \<Rightarrow> sub_tasks))"

lemma decompose_steps: "decompose new_id domain case_type = plan_of_steps new_id (domain_expert_role domain) (template_for case_type)"
  by (simp add: decompose_def plan_of_steps_def)

lemma plan_is_chain_steps:
  assumes "inj new_id" and "\<forall>n. new_id n \<noteq> ''''"
  shows "depends_chain [] (decompose new_id domain case_type) \<and> distinct (map sk_id (decompose new_id domain case_type)) \<and>
    map (\<lambda>st. (sk_task_type st, sk_assigned_role st)) (decompose new_id domain case_type) =
      with_expert (domain_expert_role domain) (template_for case_type) \<and>
    set (map sk_id (decompose new_id domain case_type)) \<subseteq> range new_id"
proof -
  have id: "new_id i = new_id j \<longleftrightarrow> i = j" for i j using assms(1) by (simp add: inj_eq)
  have ne: "new_id n \<noteq> ''''" for n using assms(2) by blast
  let ?goal = "\<lambda>expert t. let sts = plan_of_steps new_id expert t in
     depends_chain [] sts \<and> distinct (map sk_id sts) \<and>
     map (\<lambda>st. (sk_task_type st, sk_assigned_role st)) sts = with_expert expert t \<and> set (map sk_id sts) \<subseteq> range new_id"
  have "?goal expert quick_review" "?goal expert drafting_only" "?goal expert standard_analysis" for expert
    by (cases expert; simp add: plan_of_steps_def template_defs is_research_def with_expert_def splice_after_def id ne)+
  moreover have "?goal expert full_case_analysis" for expert
    by (cases expert) (simp_all add: plan_of_steps_def template_defs is_research_def with_expert_def splice_after_def id ne)
  ultimately have "?goal (domain_expert_role domain) (template_for case_type)"
    using template_cases [of case_type] by (elim insertE) (simp_all only: empty_iff)
  then show ?thesis unfolding decompose_steps Let_def .
qed

text \<open>
  The plan of a mission is a chain: its sub-tasks have different identifiers, the first depends on
  nothing and each other one exactly on the one before it. Their tasks and roles are those of the
  template of the case type, with the expert of the domain, if there is one and the template has
  any research, right after the last research.
\<close>

theorem plan_is_chain:
  assumes "inj new_id" and "\<forall>n. new_id n \<noteq> ''''"
  shows "depends_chain [] (decompose new_id domain case_type) \<and> distinct (map sk_id (decompose new_id domain case_type)) \<and>
    map (\<lambda>st. (sk_task_type st, sk_assigned_role st)) (decompose new_id domain case_type) =
      with_expert (domain_expert_role domain) (template_for case_type) \<and>
    set (map sk_id (decompose new_id domain case_type)) \<subseteq> range new_id"
  by (rule plan_is_chain_steps [OF assms])

lemma plan_is_chain_witness:
  "let plan = decompose (\<lambda>n. dec_nat n) LD_FISCAL ''standard_analysis'' in
   map sk_assigned_role plan = [AR_DOCUMENT_ANALYST, AR_LEGAL_RESEARCHER, AR_TAX_EXPERT, AR_VERIFIER, AR_QUALITY_CONTROLLER] \<and>
   depends_chain [] plan"
proof -
  have t: "template_for ''standard_analysis'' = standard_analysis" by (simp add: template_for_def mission_templates_def)
  let ?plan = "decompose (\<lambda>n. dec_nat n) LD_FISCAL ''standard_analysis''"
  have i: "inj (\<lambda>n. dec_nat n)" "\<forall>n. dec_nat n \<noteq> ''''" by (auto simp: inj_def)
  from plan_is_chain [OF i, of LD_FISCAL "''standard_analysis''"] have c: "depends_chain [] ?plan"
    and m: "map (\<lambda>st. (sk_task_type st, sk_assigned_role st)) ?plan = with_expert (domain_expert_role LD_FISCAL) standard_analysis"
    unfolding t by blast+
  have "map sk_assigned_role ?plan = map snd (map (\<lambda>st. (sk_task_type st, sk_assigned_role st)) ?plan)" by simp
  also have "\<dots> = [AR_DOCUMENT_ANALYST, AR_LEGAL_RESEARCHER, AR_TAX_EXPERT, AR_VERIFIER, AR_QUALITY_CONTROLLER]"
    unfolding m by (simp add: with_expert_def standard_analysis_def is_research_def)
  finally show ?thesis using c unfolding Let_def by blast
qed

section \<open>Who can do a plan\<close>

lemma get_agent_id: "keyed ad_id reg \<Longrightarrow> get_agent reg a = Some d \<Longrightarrow> ad_id d = a"
  by (auto simp: get_agent_def dest: keyed_get)

definition team_found :: "agent_registry \<Rightarrow> pystr list \<Rightarrow> (pystr, agent_descriptor) dict" where
  "team_found reg as = fold (\<lambda>a. case get_agent reg a of None \<Rightarrow> id | Some d \<Rightarrow> dict_set (ad_id d) d) as []"

lemma team_found_iff:
  assumes "keyed ad_id reg"
  shows "(a, d) \<in> set (team_found reg as) \<longleftrightarrow> a \<in> set as \<and> get_agent reg a = Some d"
proof -
  let ?add = "\<lambda>a. case get_agent reg a of None \<Rightarrow> id | Some d \<Rightarrow> dict_set (ad_id d) d"
  have found: "dict_get (fold ?add as m) k = (if k \<in> set as \<and> get_agent reg k \<noteq> None then get_agent reg k else dict_get m k)" for m k
    by (induction as arbitrary: m) (auto simp: update_conv get_agent_id [OF assms] split: option.splits)
  have dist: "distinct (map fst m) \<Longrightarrow> distinct (map fst (fold ?add as m))" for m
    by (induction as arbitrary: m) (auto split: option.splits intro: distinct_update)
  have "(a, d) \<in> set (team_found reg as) \<longleftrightarrow> dict_get (team_found reg as) a = Some d"
    unfolding team_found_def by (simp add: map_of_eq_Some_iff [OF dist])
  also have "\<dots> \<longleftrightarrow> a \<in> set as \<and> get_agent reg a = Some d" unfolding team_found_def found by (auto split: if_splits)
  finally show ?thesis .
qed

lemma agent_for_Some:
  assumes "keyed ad_id reg" and "agent_for reg team r = Some a"
  shows "a \<in> set (at_member_agent_ids team) \<and> (\<exists>d. get_agent reg a = Some d \<and> ad_role d = r)"
proof -
  have "a \<in> fst ` set (filter (\<lambda>(a, d). ad_role d = r) (team_found reg (at_member_agent_ids team)))"
    using assms(2) unfolding agent_for_def team_found_def [symmetric] Let_def
    by (cases "filter (\<lambda>(a, d). ad_role d = r) (team_found reg (at_member_agent_ids team))") auto
  then show ?thesis using team_found_iff [OF assms(1)] by fastforce
qed

lemma agent_for_None:
  assumes "keyed ad_id reg"
  shows "agent_for reg team r = None \<longleftrightarrow>
    (\<forall>a \<in> set (at_member_agent_ids team). \<forall>d. get_agent reg a = Some d \<longrightarrow> ad_role d \<noteq> r)"
proof -
  have "agent_for reg team r = None \<longleftrightarrow>
      filter (\<lambda>(a, d). ad_role d = r) (team_found reg (at_member_agent_ids team)) = []"
    unfolding agent_for_def team_found_def [symmetric] Let_def by (auto split: list.splits)
  then show ?thesis using team_found_iff [OF assms] by (fastforce simp: filter_empty_conv)
qed

definition serves_roles :: "agent_registry \<Rightarrow> bool" where
  "serves_roles reg \<longleftrightarrow> keyed ad_id reg \<and> get_agent reg '''' = None \<and>
     (\<forall>r. r = AR_COORDINATOR \<or> agents_by_role r reg \<noteq> [])"

lemma resolve_role_Some:
  assumes "serves_roles reg" and "resolve_role reg r = Some a"
  shows "a \<noteq> '''' \<and> (\<exists>d. get_agent reg a = Some d \<and> ad_role d = r)"
proof -
  obtain d ds where d: "agents_by_role r reg = d # ds" and a: "a = ad_id d"
    using assms(2) by (auto simp: resolve_role_def split: list.splits)
  then have "d \<in> set (agents_by_role r reg)" by simp
  then have "d \<in> snd ` set reg" and r: "ad_role d = r" by (auto simp: agents_by_role_def)
  then have "get_agent reg a = Some d" using assms(1) keyed_get_iff [of ad_id reg d] by (simp add: serves_roles_def get_agent_def a)
  then show ?thesis using assms(1) r by (auto simp: serves_roles_def)
qed

lemma seen_roles_set: "set (seen_roles steps seen) = set seen \<union> snd ` set steps"
  by (induction steps seen rule: seen_roles.induct) auto

lemma template_roles:
  "r \<in> snd ` set (template_for case_type) \<Longrightarrow> r \<notin> {AR_COORDINATOR, AR_GDPR_EXPERT, AR_TAX_EXPERT, AR_SOCIAL_LAW_EXPERT}"
  using template_cases [of case_type] by (auto simp: template_defs)

lemma expert_not_coordinator:
  "domain_expert_role domain = Some e \<Longrightarrow> e \<in> {AR_GDPR_EXPERT, AR_TAX_EXPERT, AR_SOCIAL_LAW_EXPERT}"
  by (cases domain) auto

lemma set_dropWhile_subset: "set (dropWhile P xs) \<subseteq> set xs"
  by (induction xs) auto

lemma with_expert_roles: "r \<in> snd ` set (with_expert expert steps) \<Longrightarrow> r \<in> snd ` set steps \<or> expert = Some r"
  by (force simp: with_expert_def Let_def split: option.splits if_splits
      dest!: set_takeWhileD [THEN conjunct1] subsetD [OF set_dropWhile_subset])

lemma member_map_filter: "a \<in> set (List.map_filter f xs) \<longleftrightarrow> (\<exists>x \<in> set xs. f x = Some a)"
  by (induction xs) (auto simp: List.map_filter_simps split: option.splits)

text \<open>
  C37. A team built without a budget for a domain and a case type, from a registry that has an agent for every
  role, has an agent for every sub-task of the plan of a mission of that domain and case type - but
  for the one of the expert when the complexity was given as low: the team leaves the expert out,
  the plan does not.
\<close>

theorem team_covers_plan:
  assumes reg: "serves_roles reg" and team: "build_team new_id reg domain complexity case_type None None s = (team, s')"
    and st: "st \<in> set (decompose ids domain case_type)" and ids: "inj ids" "\<forall>n. ids n \<noteq> ''''"
  shows "if complexity = MC_LOW \<and> domain_expert_role domain = Some (sk_assigned_role st)
     then agent_for reg team (sk_assigned_role st) = None
     else \<exists>a d. agent_for reg team (sk_assigned_role st) = Some a \<and> get_agent reg a = Some d \<and> ad_role d = sk_assigned_role st"
proof -
  let ?roles = "case domain_expert_role domain of
      Some expert \<Rightarrow> if complexity \<noteq> MC_LOW then roles_for_case_type case_type @ [expert] else roles_for_case_type case_type
    | None \<Rightarrow> roles_for_case_type case_type"
  have key: "keyed ad_id reg" using reg by (simp add: serves_roles_def)
  have members: "at_member_agent_ids team = filter (\<lambda>a. a \<noteq> '''') (List.map_filter (resolve_role reg) ?roles)"
    using team by (auto simp: build_team_def team_agents_def apply_budget_def Let_def)
  have mem: "a \<in> set (at_member_agent_ids team) \<longleftrightarrow> (\<exists>r \<in> set ?roles. resolve_role reg r = Some a)" for a
    unfolding members set_filter mem_Collect_eq member_map_filter using resolve_role_Some [OF reg] by blast
  have role: "ad_role d = r" if "resolve_role reg r = Some a" "get_agent reg a = Some d" for r a d
    using resolve_role_Some [OF reg] that by fastforce
  have plan: "sk_assigned_role st \<in> snd ` set (template_for case_type) \<or> domain_expert_role domain = Some (sk_assigned_role st)"
  proof -
    have "map (\<lambda>st. (sk_task_type st, sk_assigned_role st)) (decompose ids domain case_type) =
        with_expert (domain_expert_role domain) (template_for case_type)"
      using plan_is_chain_steps [OF ids] by blast
    from arg_cong [OF this, of set] have "(sk_task_type st, sk_assigned_role st) \<in> set (with_expert (domain_expert_role domain) (template_for case_type))"
      using st by auto
    from with_expert_roles [OF imageI [OF this, of snd]] show ?thesis by auto
  qed
  have in_roles: "sk_assigned_role st \<in> set ?roles \<longleftrightarrow> \<not> (complexity = MC_LOW \<and> domain_expert_role domain = Some (sk_assigned_role st))"
    using plan template_roles [of "sk_assigned_role st" case_type] expert_not_coordinator [of domain "sk_assigned_role st"]
    by (auto simp: roles_for_case_type_def seen_roles_set split: option.splits)
  have served: "\<exists>a. resolve_role reg (sk_assigned_role st) = Some a"
  proof -
    have "sk_assigned_role st \<noteq> AR_COORDINATOR"
      using plan template_roles [of "sk_assigned_role st" case_type] expert_not_coordinator [of domain] by fastforce
    then have "agents_by_role (sk_assigned_role st) reg \<noteq> []" using reg by (auto simp: serves_roles_def)
    then show ?thesis by (auto simp: resolve_role_def split: list.splits)
  qed
  show ?thesis
  proof (cases "complexity = MC_LOW \<and> domain_expert_role domain = Some (sk_assigned_role st)")
    case True
    then have "agent_for reg team (sk_assigned_role st) = None"
      unfolding agent_for_None [OF key] using in_roles mem role by metis
    then show ?thesis using True by simp
  next
    case False
    then have "agent_for reg team (sk_assigned_role st) \<noteq> None"
      unfolding agent_for_None [OF key] using in_roles mem served resolve_role_Some [OF reg] by metis
    then show ?thesis using False agent_for_Some [OF key] by auto
  qed
qed

lemma default_registry_serves: "serves_roles default_agent_registry"
proof -
  have "default_agent_registry = map (\<lambda>d. (ad_id d, d)) default_descriptors"
    by (simp add: default_agent_registry_def default_descriptors_def register_agent_def role_definition_def)
  moreover have "keyed ad_id (map (\<lambda>d. (ad_id d, d)) default_descriptors)"
    by (simp add: keyed_def default_descriptors_def role_definition_def)
  moreover have "get_agent (map (\<lambda>d. (ad_id d, d)) default_descriptors) '''' = None"
    by (simp add: get_agent_def default_descriptors_def role_definition_def)
  moreover have "agents_by_role r (map (\<lambda>d. (ad_id d, d)) default_descriptors) \<noteq> []" if "r \<noteq> AR_COORDINATOR" for r
    using that by (cases r) (simp_all add: agents_by_role_def default_descriptors_def role_definition_def)
  ultimately show ?thesis by (auto simp: serves_roles_def)
qed

text \<open>A tax case announced as simple: the plan has a step for the tax expert, the team has none.\<close>

lemma team_covers_plan_witness:
  "let team = fst (build_team ''t'' default_agent_registry LD_FISCAL MC_LOW ''standard_analysis'' None None []) in
   agent_for default_agent_registry team AR_TAX_EXPERT = None"
proof -
  let ?plan = "decompose (\<lambda>n. dec_nat n) LD_FISCAL ''standard_analysis''"
  have i: "inj (\<lambda>n. dec_nat n)" "\<forall>n. dec_nat n \<noteq> ''''" by (auto simp: inj_def)
  have t: "template_for ''standard_analysis'' = standard_analysis" by (simp add: template_for_def mission_templates_def)
  have "map (\<lambda>st. (sk_task_type st, sk_assigned_role st)) ?plan = with_expert (Some AR_TAX_EXPERT) standard_analysis"
    using plan_is_chain_steps [OF i, of LD_FISCAL "''standard_analysis''"] unfolding t by simp
  then have "(MT_RISK_ANALYSIS, AR_TAX_EXPERT) \<in> set (map (\<lambda>st. (sk_task_type st, sk_assigned_role st)) ?plan)"
    by (simp add: with_expert_def standard_analysis_def is_research_def)
  then obtain st where st: "st \<in> set ?plan" and r: "sk_assigned_role st = AR_TAX_EXPERT" by auto
  obtain team s' where b: "build_team ''t'' default_agent_registry LD_FISCAL MC_LOW ''standard_analysis'' None None [] = (team, s')"
    by (metis surj_pair)
  show ?thesis using team_covers_plan [OF default_registry_serves b st i] unfolding Let_def b by (simp add: r)
qed

end
