(* ===== verification/Missions.thy ===== *)
theory Missions
  imports RetriedWork Teams
begin

text \<open>
  The coordinator of the AI team (\<^verbatim>\<open>ai_team/coordinator\<close>), over its work queue (\<^verbatim>\<open>work_queue\<close>), the context
  each agent is given (\<^verbatim>\<open>context\<close>), the metrics and the decisions of people (\<^verbatim>\<open>human_loop\<close>). An agent is a
  parameter: what it answers may depend on everything that happened before. Texts are the only values
  of a result; durations, the trace of contexts and the counters of the platform are left out.
\<close>

section \<open>The work queue\<close>

record agent_output =
  ao_result :: "(pystr, pystr) dict"

datatype work_status = WI_PENDING | WI_RUNNING | WI_DONE | WI_FAILED | WI_RETRYING | WI_CANCELLED | WI_TIMED_OUT

record work_item =
  wi_id :: pystr
  wi_sub_task_id :: pystr
  wi_agent_id :: pystr
  wi_priority :: int
  wi_status :: work_status
  wi_attempts :: int
  wi_max_attempts :: int
  wi_timeout_seconds :: pyfloat
  wi_created_at :: datetime
  wi_started_at :: "datetime option"
  wi_completed_at :: "datetime option"
  wi_result :: "agent_output option"
  wi_error :: "pystr option"

type_synonym work_queue = "(pystr, work_item) dict"

definition enqueue_work :: "work_item \<Rightarrow> work_queue \<Rightarrow> work_queue" where
  "enqueue_work i q = dict_set (wi_id i) i q"

definition work_get :: "work_queue \<Rightarrow> pystr \<Rightarrow> work_item option" where
  "work_get q item_id = dict_get q item_id"

definition list_work :: "work_queue \<Rightarrow> work_item list" where
  "list_work q = dict_values q"

definition work_runnable :: "work_item \<Rightarrow> bool" where
  "work_runnable i \<longleftrightarrow> wi_status i = WI_PENDING \<or> wi_status i = WI_RETRYING"

definition dequeue_work :: "work_queue \<Rightarrow> work_item option" where
  "dequeue_work q = pick_first (\<lambda>i. (- wi_priority i, wi_created_at i)) work_runnable (dict_values q)"

definition change_work :: "pystr \<Rightarrow> (work_item \<Rightarrow> work_item) \<Rightarrow> work_queue \<Rightarrow> (work_item \<times> work_queue) result" where
  "change_work item_id f q =
     (case work_get q item_id of
        None \<Rightarrow> Inl (KeyError item_id)
      | Some i \<Rightarrow> Inr (f i, dict_set item_id (f i) q))"

definition started_work :: "datetime \<Rightarrow> work_item \<Rightarrow> work_item" where
  "started_work now i = i\<lparr>wi_status := WI_RUNNING, wi_attempts := wi_attempts i + 1, wi_started_at := Some now\<rparr>"

definition done_work :: "datetime \<Rightarrow> agent_output \<Rightarrow> work_item \<Rightarrow> work_item" where
  "done_work now output i = i\<lparr>wi_status := WI_DONE, wi_result := Some output, wi_completed_at := Some now\<rparr>"

definition failed_work :: "datetime \<Rightarrow> pystr \<Rightarrow> work_item \<Rightarrow> work_item" where
  "failed_work now err i =
     (let i1 = i\<lparr>wi_error := Some err\<rparr>
      in if wi_attempts i1 < wi_max_attempts i1 then i1\<lparr>wi_status := WI_RETRYING\<rparr>
         else i1\<lparr>wi_status := WI_FAILED, wi_completed_at := Some now\<rparr>)"

definition work_running :: "datetime \<Rightarrow> pystr \<Rightarrow> work_queue \<Rightarrow> (work_item \<times> work_queue) result" where
  "work_running now item_id q = change_work item_id (started_work now) q"

definition work_done :: "datetime \<Rightarrow> pystr \<Rightarrow> agent_output \<Rightarrow> work_queue \<Rightarrow> (work_item \<times> work_queue) result" where
  "work_done now item_id output q = change_work item_id (done_work now output) q"

definition work_failed :: "datetime \<Rightarrow> pystr \<Rightarrow> pystr \<Rightarrow> work_queue \<Rightarrow> (work_item \<times> work_queue) result" where
  "work_failed now item_id err q = change_work item_id (failed_work now err) q"

definition work_cancel :: "datetime \<Rightarrow> pystr \<Rightarrow> work_queue \<Rightarrow> (work_item \<times> work_queue) result" where
  "work_cancel now item_id q =
     change_work item_id (\<lambda>i. i\<lparr>wi_status := WI_CANCELLED, wi_completed_at := Some now\<rparr>) q"

definition work_overdue :: "datetime \<Rightarrow> work_item \<Rightarrow> bool" where
  "work_overdue now i \<longleftrightarrow> wi_status i = WI_RUNNING \<and> run_over now (wi_started_at i) (wi_timeout_seconds i)"

definition timed_out_work :: "datetime \<Rightarrow> datetime \<Rightarrow> work_item \<Rightarrow> work_item" where
  "timed_out_work now now2 i =
     (let i1 = failed_work now2 (''timed out after '' @ fixed1 (run_time now (wi_started_at i)) @ ''s'') i
      in if wi_status i1 = WI_FAILED then i1\<lparr>wi_status := WI_TIMED_OUT\<rparr> else i1)"

definition work_timeouts :: "datetime \<Rightarrow> (pystr \<Rightarrow> datetime) \<Rightarrow> work_queue \<Rightarrow> work_item list \<times> work_queue" where
  "work_timeouts now clock q =
     (map (\<lambda>i. timed_out_work now (clock (wi_id i)) i) (filter (work_overdue now) (dict_values q)),
      map (\<lambda>(k, i). (k, if work_overdue now i then timed_out_work now (clock (wi_id i)) i else i)) q)"

interpretation team_work: retried_work wi_id wi_attempts wi_max_attempts work_runnable started_work "\<lambda>(now, err). failed_work now err"
  by unfold_locales (auto simp: started_work_def failed_work_def work_runnable_def Let_def split: if_splits)

section \<open>Context\<close>

text \<open>The keys an agent of a role is shown; no prefix means everything.\<close>

fun relevant_prefixes :: "agent_role \<Rightarrow> pystr list" where
  "relevant_prefixes AR_DOCUMENT_ANALYST = [''case_'']"
| "relevant_prefixes AR_LEGAL_RESEARCHER = [''case_'', ''document_analysis_'']"
| "relevant_prefixes AR_JURISPRUDENCE_EXPERT = [''case_'', ''legal_research_'']"
| "relevant_prefixes AR_GDPR_EXPERT = [''case_'', ''document_analysis_'', ''legal_research_'']"
| "relevant_prefixes AR_TAX_EXPERT = [''case_'', ''document_analysis_'', ''legal_research_'']"
| "relevant_prefixes AR_SOCIAL_LAW_EXPERT = [''case_'', ''document_analysis_'', ''legal_research_'']"
| "relevant_prefixes AR_DRAFTER =
     [''case_'', ''document_analysis_'', ''legal_research_'', ''jurisprudence_research_'', ''risk_analysis_'']"
| "relevant_prefixes AR_VERIFIER = [''case_'', ''drafting_'', ''reasoning_'']"
| "relevant_prefixes AR_QUALITY_CONTROLLER = []"
| "relevant_prefixes AR_CRITIC = []"
| "relevant_prefixes AR_COORDINATOR = []"

type_synonym mission_context = "(pystr, pystr) dict"

definition context_for :: "agent_role \<Rightarrow> mission_context \<Rightarrow> mission_context" where
  "context_for r ctx =
     (let prefixes = relevant_prefixes r
      in if prefixes = [] then ctx
         else filter (\<lambda>(k, v). \<exists>p \<in> set prefixes. take (length p) k = p) ctx)"

section \<open>Missions\<close>

datatype mission_status = MS_CREATED | MS_RUNNING | MS_AWAITING_HUMAN_REVIEW | MS_COMPLETED | MS_FAILED | MS_CANCELLED

record mission =
  mi_id :: pystr
  mi_firm_id :: pystr
  mi_request_description :: pystr
  mi_domain :: legal_domain
  mi_team_id :: pystr
  mi_plan :: "subtask list"
  mi_status :: mission_status
  mi_work_item_ids :: "pystr list"
  mi_results :: "(pystr, agent_output) dict"
  mi_synthesis :: "pystr option"
  mi_created_at :: datetime
  mi_completed_at :: "datetime option"

text \<open>The lines the coordinator logs about its agents.\<close>

datatype mission_log =
    ML_agent_missing pystr agent_role
  | ML_agent_started pystr pystr int
  | ML_agent_failed pystr pystr pystr bool
  | ML_agent_finished pystr pystr

record agent_run =
  ru_mission_id :: pystr
  ru_sub_task_id :: pystr
  ru_agent_id :: pystr
  ru_cost_usd :: pyfloat
  ru_quality_score :: pyfloat

text \<open>The state of the coordinator; identifiers and dates are drawn from sequences, counted here.\<close>

record coordinator =
  co_queue :: work_queue
  co_missions :: "(pystr, mission) dict"
  co_registry :: agent_registry
  co_delegations :: "delegation_record list"
  co_runs :: "agent_run list"
  co_revisions :: "(pystr, int) dict"
  co_validations :: "(pystr, int) dict"
  co_log :: "mission_log list"
  co_drawn :: nat
  co_ticks :: nat

type_synonym team_agents_run = "pystr \<Rightarrow> (mission_log list \<Rightarrow> mission_context \<Rightarrow> agent_output result) option"

record new_draws =
  nd_id :: "nat \<Rightarrow> pystr"
  nd_time :: "nat \<Rightarrow> datetime"

definition save_mission :: "mission \<Rightarrow> coordinator \<Rightarrow> coordinator" where
  "save_mission m c = c\<lparr>co_missions := dict_set (mi_id m) m (co_missions c)\<rparr>"

definition get_mission :: "coordinator \<Rightarrow> pystr \<Rightarrow> mission option" where
  "get_mission c mission_id = dict_get (co_missions c) mission_id"

definition missions_of_firm :: "coordinator \<Rightarrow> pystr \<Rightarrow> mission list" where
  "missions_of_firm c firm = filter (\<lambda>m. mi_firm_id m = firm) (dict_values (co_missions c))"

text \<open>A work item for a sub-task: its agent is assigned, its identifier and date are drawn.\<close>

definition put_work :: "new_draws \<Rightarrow> agent_team \<Rightarrow> subtask \<Rightarrow> int \<Rightarrow> mission \<Rightarrow> coordinator \<Rightarrow> mission \<times> coordinator" where
  "put_work w team st priority m c =
     (case assign_agent (co_registry c) (mi_id m) st team (co_delegations c) of
        (agent_id, records) \<Rightarrow>
          (let item_id = nd_id w (co_drawn c);
               i = \<lparr>wi_id = item_id, wi_sub_task_id = sk_id st, wi_agent_id = (case agent_id of None \<Rightarrow> '''' | Some a \<Rightarrow> a),
                    wi_priority = priority, wi_status = WI_PENDING, wi_attempts = 0, wi_max_attempts = 3,
                    wi_timeout_seconds = Fin 60, wi_created_at = nd_time w (co_ticks c), wi_started_at = None,
                    wi_completed_at = None, wi_result = None, wi_error = None\<rparr>
           in (m\<lparr>mi_work_item_ids := mi_work_item_ids m @ [item_id]\<rparr>,
               c\<lparr>co_queue := enqueue_work i (co_queue c), co_delegations := records,
                 co_drawn := Suc (co_drawn c), co_ticks := Suc (co_ticks c)\<rparr>)))"

definition work_items_of :: "mission \<Rightarrow> coordinator \<Rightarrow> work_item list" where
  "work_items_of m c = List.map_filter (work_get (co_queue c)) (mi_work_item_ids m)"

definition subtask_ready :: "mission \<Rightarrow> subtask \<Rightarrow> bool" where
  "subtask_ready m st \<longleftrightarrow> (\<forall>dep \<in> set (sk_depends_on st). dict_get (mi_results m) dep \<noteq> None)"

definition position_of :: "'a \<Rightarrow> 'a list \<Rightarrow> nat" where
  "position_of x xs = length (takeWhile (\<lambda>y. y \<noteq> x) xs)"

fun enqueue_subtasks ::
  "new_draws \<Rightarrow> agent_team \<Rightarrow> pystr set \<Rightarrow> subtask list \<Rightarrow> mission \<Rightarrow> coordinator \<Rightarrow> mission \<times> coordinator" where
  "enqueue_subtasks w team enqueued [] m c = (m, c)"
| "enqueue_subtasks w team enqueued (st # sts) m c =
     (if sk_id st \<in> enqueued \<or> \<not> subtask_ready m st then enqueue_subtasks w team enqueued sts m c
      else (case put_work w team st (int (length (mi_plan m)) - int (position_of st (mi_plan m))) m c of
              (m', c') \<Rightarrow> enqueue_subtasks w team enqueued sts m' c'))"

definition enqueue_ready :: "new_draws \<Rightarrow> agent_team \<Rightarrow> mission \<Rightarrow> coordinator \<Rightarrow> mission \<times> coordinator" where
  "enqueue_ready w team m c =
     enqueue_subtasks w team (set (map wi_sub_task_id (work_items_of m c))) (mi_plan m) m c"

definition launch_mission ::
  "new_draws \<Rightarrow> pystr \<Rightarrow> pystr \<Rightarrow> agent_team \<Rightarrow> pystr \<Rightarrow> coordinator \<Rightarrow> mission \<times> coordinator" where
  "launch_mission w firm description team case_type c =
     (let plan = decompose (\<lambda>n. nd_id w (co_drawn c + n)) (at_domain team) case_type;
          drawn = co_drawn c + length plan;
          m = \<lparr>mi_id = nd_id w drawn, mi_firm_id = firm, mi_request_description = description, mi_domain = at_domain team,
               mi_team_id = at_id team, mi_plan = plan, mi_status = MS_CREATED, mi_work_item_ids = [], mi_results = [],
               mi_synthesis = None, mi_created_at = nd_time w (co_ticks c), mi_completed_at = None\<rparr>
      in case enqueue_ready w team m (c\<lparr>co_drawn := Suc drawn, co_ticks := Suc (co_ticks c)\<rparr>) of
           (m', c') \<Rightarrow> (m', save_mission m' c'))"

section \<open>Running a mission\<close>

definition next_runnable_item :: "mission \<Rightarrow> coordinator \<Rightarrow> work_item option" where
  "next_runnable_item m c = pick_first (\<lambda>i. (- wi_priority i, wi_created_at i)) work_runnable (work_items_of m c)"

definition subtask_by_id :: "subtask list \<Rightarrow> pystr \<Rightarrow> subtask option" where
  "subtask_by_id plan k = dict_get (fold (\<lambda>st. dict_set (sk_id st) st) plan []) k"

definition set_queue :: "work_queue \<Rightarrow> coordinator \<Rightarrow> coordinator" where
  "set_queue q c = c\<lparr>co_queue := q, co_ticks := Suc (co_ticks c)\<rparr>"

definition log_line :: "mission_log \<Rightarrow> coordinator \<Rightarrow> coordinator" where
  "log_line l c = c\<lparr>co_log := co_log c @ [l]\<rparr>"

definition record_agent_run :: "mission \<Rightarrow> work_item \<Rightarrow> coordinator \<Rightarrow> coordinator" where
  "record_agent_run m i c =
     (let d = get_agent (co_registry c) (wi_agent_id i)
      in c\<lparr>co_runs := co_runs c @ [\<lparr>ru_mission_id = mi_id m, ru_sub_task_id = wi_sub_task_id i, ru_agent_id = wi_agent_id i,
             ru_cost_usd = (case d of None \<Rightarrow> Fin 0 | Some x \<Rightarrow> ad_estimated_cost_usd x),
             ru_quality_score = (case d of None \<Rightarrow> Fin 0 | Some x \<Rightarrow> ad_quality_score x)\<rparr>]\<rparr>)"

definition output_text :: "agent_output \<Rightarrow> pystr" where
  "output_text x = (case dict_get (ao_result x) ''text'' of None \<Rightarrow> '''' | Some t \<Rightarrow> t)"

definition missing_message :: "subtask \<Rightarrow> pystr" where
  "missing_message st = ''no agent available for '' @ agent_role_value (sk_assigned_role st)"

text \<open>One turn of the loop with the item selected; what it changed stays, whether it raises or not.\<close>

definition mission_turn ::
  "new_draws \<Rightarrow> team_agents_run \<Rightarrow> agent_team \<Rightarrow> work_item \<Rightarrow> mission \<times> mission_context \<times> coordinator
     \<Rightarrow> unit result \<times> mission \<times> mission_context \<times> coordinator" where
  "mission_turn w agents team item = (\<lambda>(m, ctx, c).
     (case subtask_by_id (mi_plan m) (wi_sub_task_id item) of
        None \<Rightarrow> (Inl (KeyError (wi_sub_task_id item)), m, ctx, c)
      | Some st \<Rightarrow>
          (case work_running (nd_time w (co_ticks c)) (wi_id item) (co_queue c) of
             Inl e \<Rightarrow> (Inl e, m, ctx, c)
           | Inr (i, q) \<Rightarrow>
               (let c1 = set_queue q c;
                    agent = (if wi_agent_id i = '''' then None else agents (wi_agent_id i))
                in case agent of
                     None \<Rightarrow>
                       (case work_failed (nd_time w (co_ticks c1)) (wi_id i)
                               (missing_message st) (co_queue c1) of
                          Inl e \<Rightarrow> (Inl e, m, ctx, c1)
                        | Inr (_, q2) \<Rightarrow>
                            (Inr (), m, ctx, log_line (ML_agent_missing (sk_id st) (sk_assigned_role st)) (set_queue q2 c1)))
                   | Some run \<Rightarrow>
                       (let c2 = log_line (ML_agent_started (sk_id st) (wi_agent_id i) (wi_attempts i)) c1
                        in case run (co_log c2) (context_for (sk_assigned_role st) ctx) of
                             Inl e \<Rightarrow>
                               (case work_failed (nd_time w (co_ticks c2)) (wi_id i) (exn_str e) (co_queue c2) of
                                  Inl e2 \<Rightarrow> (Inl e2, m, ctx, c2)
                                | Inr (f, q2) \<Rightarrow>
                                    (Inr (), m, ctx,
                                     log_line (ML_agent_failed (sk_id st) (wi_agent_id i) (exn_str e) (wi_status f = WI_RETRYING))
                                       (set_queue q2 c2)))
                           | Inr x \<Rightarrow>
                               (case work_done (nd_time w (co_ticks c2)) (wi_id i) x (co_queue c2) of
                                  Inl e2 \<Rightarrow> (Inl e2, m, ctx, c2)
                                | Inr (i3, q2) \<Rightarrow>
                                    (let m1 = m\<lparr>mi_results := dict_set (sk_id st) x (mi_results m)\<rparr>;
                                         ctx1 = dict_set (mission_task_value (sk_task_type st) @ ''_result'') (output_text x) ctx;
                                         c3 = log_line (ML_agent_finished (sk_id st) (wi_agent_id i3))
                                                (record_agent_run m1 i3 (set_queue q2 c2))
                                     in case enqueue_ready w team m1 c3 of
                                          (m2, c4) \<Rightarrow> (Inr (), m2, ctx1, c4))))))))"

text \<open>The loop with a bound on its turns; \<open>None\<close> when the bound is not enough.\<close>

fun mission_loop ::
  "nat \<Rightarrow> new_draws \<Rightarrow> team_agents_run \<Rightarrow> agent_team \<Rightarrow> mission \<times> mission_context \<times> coordinator
     \<Rightarrow> (unit result \<times> mission \<times> mission_context \<times> coordinator) option" where
  "mission_loop 0 w agents team s = None"
| "mission_loop (Suc fuel) w agents team s =
     (case next_runnable_item (fst s) (snd (snd s)) of
        None \<Rightarrow> Some (Inr (), s)
      | Some item \<Rightarrow>
          (case mission_turn w agents team item s of
             (Inl e, s') \<Rightarrow> Some (Inl e, s')
           | (Inr _, s') \<Rightarrow> mission_loop fuel w agents team s'))"

fun join_sections :: "pystr list \<Rightarrow> pystr" where
  "join_sections [] = ''''"
| "join_sections [x] = x"
| "join_sections (x # xs) = x @ [CHR 0x0A, CHR 0x0A] @ join_sections xs"

definition build_synthesis :: "mission \<Rightarrow> pystr" where
  "build_synthesis m =
     join_sections (List.map_filter (\<lambda>st. map_option
       (\<lambda>x. ''## '' @ mission_task_value (sk_task_type st) @ [CHR 0x0A] @ output_text x) (dict_get (mi_results m) (sk_id st)))
       (mi_plan m))"

definition run_mission ::
  "nat \<Rightarrow> new_draws \<Rightarrow> team_agents_run \<Rightarrow> agent_team \<Rightarrow> pystr \<Rightarrow> coordinator \<Rightarrow> (mission result \<times> coordinator) option" where
  "run_mission fuel w agents team mission_id c =
     (case get_mission c mission_id of
        None \<Rightarrow> Some (Inl (ValueError (''mission '' @ mission_id @ '' not found'')), c)
      | Some m \<Rightarrow>
          (case mission_loop fuel w agents team
                  (m\<lparr>mi_status := MS_RUNNING\<rparr>, [(''case_summary'', mi_request_description m)], c) of
             None \<Rightarrow> None
           | Some (Inl e, m1, _, c1) \<Rightarrow> Some (Inl e, save_mission m1 c1)
           | Some (Inr _, m1, _, c1) \<Rightarrow>
               (let m2 = m1\<lparr>mi_completed_at := Some (nd_time w (co_ticks c1))\<rparr>;
                    m3 = (if length (mi_results m2) = length (mi_plan m2)
                          then m2\<lparr>mi_synthesis := Some (build_synthesis m2), mi_status := MS_COMPLETED\<rparr>
                          else m2\<lparr>mi_status := MS_FAILED\<rparr>)
                in Some (Inr m3, save_mission m3 (c1\<lparr>co_ticks := Suc (co_ticks c1)\<rparr>)))))"

section \<open>Decisions of people\<close>

datatype human_decision =
    HD_approve | HD_request_new_analysis pystr | HD_exclude_agent pystr | HD_add_agent pystr | HD_modify_plan pystr
  | HD_rerun_steps "pystr list"

fun rerun_subtasks :: "new_draws \<Rightarrow> agent_team \<Rightarrow> pystr list \<Rightarrow> mission \<Rightarrow> coordinator \<Rightarrow> mission \<times> coordinator" where
  "rerun_subtasks w team [] m c = (m, c)"
| "rerun_subtasks w team (k # ks) m c =
     (case subtask_by_id (mi_plan m) k of
        None \<Rightarrow> rerun_subtasks w team ks m c
      | Some st \<Rightarrow>
          (case put_work w team st 0 (m\<lparr>mi_results := dict_pop k (mi_results m)\<rparr>) c of
             (m', c') \<Rightarrow> rerun_subtasks w team ks m' c'))"

definition bump :: "pystr \<Rightarrow> (pystr, int) dict \<Rightarrow> (pystr, int) dict" where
  "bump k d = dict_set k ((case dict_get d k of None \<Rightarrow> 0 | Some n \<Rightarrow> n) + 1) d"

text \<open>
  The ids of steps to run again go through a text joined by commas: they are here what splitting it
  gives, the ids themselves when none contains a comma.
\<close>

definition apply_human_decision ::
  "new_draws \<Rightarrow> pystr \<Rightarrow> agent_team \<Rightarrow> human_decision \<Rightarrow> coordinator \<Rightarrow> (mission \<times> agent_team) result \<times> coordinator" where
  "apply_human_decision w mission_id team decision c =
     (case get_mission c mission_id of
        None \<Rightarrow> (Inl (ValueError (''mission '' @ mission_id @ '' not found'')), c)
      | Some m \<Rightarrow>
          (let c1 = c\<lparr>co_validations := bump mission_id (co_validations c)\<rparr>;
               rerun = (\<lambda>ks. case rerun_subtasks w team ks m (c1\<lparr>co_revisions := bump mission_id (co_revisions c1)\<rparr>) of
                    (m', c') \<Rightarrow> let m'' = m'\<lparr>mi_status := MS_RUNNING\<rparr> in (Inr (m'', team), save_mission m'' c'))
           in case decision of
                HD_exclude_agent a \<Rightarrow>
                  (Inr (m, team\<lparr>at_member_agent_ids := filter (\<lambda>b. b \<noteq> a) (at_member_agent_ids team)\<rparr>), save_mission m c1)
              | HD_add_agent a \<Rightarrow>
                  (Inr (m, if a \<in> set (at_member_agent_ids team) then team
                           else team\<lparr>at_member_agent_ids := at_member_agent_ids team @ [a]\<rparr>), save_mission m c1)
              | HD_request_new_analysis k \<Rightarrow> rerun [k]
              | HD_rerun_steps ks \<Rightarrow> rerun ks
              | HD_approve \<Rightarrow> (Inr (m, team), save_mission m c1)
              | HD_modify_plan note \<Rightarrow> (Inr (m, team), save_mission m c1)))"

section \<open>What running a mission amounts to\<close>

text \<open>One attempt at a sub-task: the log after it, and the output when the agent gave one.\<close>

definition attempt_subtask ::
  "team_agents_run \<Rightarrow> (subtask \<Rightarrow> pystr) \<Rightarrow> subtask \<Rightarrow> int \<Rightarrow> mission_context \<Rightarrow> mission_log list
     \<Rightarrow> agent_output option \<times> mission_log list" where
  "attempt_subtask agents assigned st attempt ctx l =
     (case if assigned st = '''' then None else agents (assigned st) of
        None \<Rightarrow> (None, l @ [ML_agent_missing (sk_id st) (sk_assigned_role st)])
      | Some run \<Rightarrow>
          (let l1 = l @ [ML_agent_started (sk_id st) (assigned st) attempt]
           in case run l1 (context_for (sk_assigned_role st) ctx) of
                Inl e \<Rightarrow> (None, l1 @ [ML_agent_failed (sk_id st) (assigned st) (exn_str e) (attempt < 3)])
              | Inr x \<Rightarrow> (Some x, l1 @ [ML_agent_finished (sk_id st) (assigned st)])))"

text \<open>The sub-tasks one after the other, each tried at most three times, up to the first that never succeeds.\<close>

fun follow_plan ::
  "team_agents_run \<Rightarrow> (subtask \<Rightarrow> pystr) \<Rightarrow> nat \<Rightarrow> subtask \<Rightarrow> subtask list \<Rightarrow> mission_context \<Rightarrow> (pystr, agent_output) dict
     \<Rightarrow> mission_log list \<Rightarrow> (pystr, agent_output) dict \<times> mission_log list" where
  "follow_plan agents assigned 0 st sts ctx results l = (results, l)"
| "follow_plan agents assigned (Suc n) st sts ctx results l =
     (case attempt_subtask agents assigned st (3 - int n) ctx l of
        (None, l') \<Rightarrow> follow_plan agents assigned n st sts ctx results l'
      | (Some x, l') \<Rightarrow>
          (case sts of
             [] \<Rightarrow> (results @ [(sk_id st, x)], l')
           | nxt # rest \<Rightarrow>
               follow_plan agents assigned 3 nxt rest
                 (dict_set (mission_task_value (sk_task_type st) @ ''_result'') (output_text x) ctx)
                 (results @ [(sk_id st, x)]) l'))"

definition assigned_agent :: "agent_registry \<Rightarrow> agent_team \<Rightarrow> subtask \<Rightarrow> pystr" where
  "assigned_agent reg team st = (case agent_for reg team (sk_assigned_role st) of None \<Rightarrow> '''' | Some a \<Rightarrow> a)"

subsection \<open>The state between two turns\<close>

definition fresh_draws :: "new_draws \<Rightarrow> coordinator \<Rightarrow> bool" where
  "fresh_draws w c \<longleftrightarrow> inj (nd_id w) \<and> (\<forall>n \<ge> co_drawn c. work_get (co_queue c) (nd_id w n) = None)"

text \<open>The sub-tasks \<open>done\<close> have results, in order, and items that are done; \<open>cur\<close> has an item that may run.\<close>

definition done_item :: "coordinator \<Rightarrow> subtask \<Rightarrow> pystr \<Rightarrow> bool" where
  "done_item c st k \<longleftrightarrow> (\<exists>i. work_get (co_queue c) k = Some i \<and> wi_sub_task_id i = sk_id st \<and> wi_status i = WI_DONE)"

definition current_item :: "agent_team \<Rightarrow> coordinator \<Rightarrow> subtask \<Rightarrow> int \<Rightarrow> pystr \<Rightarrow> work_item \<Rightarrow> bool" where
  "current_item team c st attempts k i \<longleftrightarrow> work_get (co_queue c) k = Some i \<and> wi_id i = k \<and> wi_sub_task_id i = sk_id st \<and>
     wi_agent_id i = assigned_agent (co_registry c) team st \<and> wi_max_attempts i = 3 \<and> wi_attempts i = attempts"

definition at_subtask ::
  "new_draws \<Rightarrow> agent_team \<Rightarrow> subtask list \<Rightarrow> subtask \<Rightarrow> subtask list \<Rightarrow> pystr list \<Rightarrow> pystr \<Rightarrow> work_item \<Rightarrow> int
     \<Rightarrow> mission \<Rightarrow> coordinator \<Rightarrow> bool" where
  "at_subtask w team past cur rest ks k i attempts m c \<longleftrightarrow>
     mi_plan m = past @ cur # rest \<and> dict_keys (mi_results m) = map sk_id past \<and>
     mi_work_item_ids m = ks @ [k] \<and> list_all2 (done_item c) past ks \<and> k \<notin> set ks \<and>
     current_item team c cur attempts k i \<and> fresh_draws w c"

lemma work_items_at:
  assumes "at_subtask w team past cur rest ks k i attempts m c"
  shows "\<exists>is. work_items_of m c = is @ [i] \<and> map wi_sub_task_id is = map sk_id past \<and> (\<forall>j \<in> set is. wi_status j = WI_DONE)"
proof -
  have "\<exists>is. List.map_filter (work_get (co_queue c)) ks = is \<and> map wi_sub_task_id is = map sk_id past \<and> (\<forall>j \<in> set is. wi_status j = WI_DONE)"
    if "list_all2 (done_item c) past ks" for past ks
    using that by (induction rule: list_all2_induct) (auto simp: done_item_def List.map_filter_simps)
  then show ?thesis using assms
    by (auto simp: at_subtask_def work_items_of_def current_item_def List.map_filter_def)
qed

lemma next_item_at:
  assumes "at_subtask w team past cur rest ks k i attempts m c"
  shows "next_runnable_item m c = (if work_runnable i then Some i else None)"
proof -
  obtain is' where "work_items_of m c = is' @ [i]" and "\<forall>j \<in> set is'. wi_status j = WI_DONE" using work_items_at [OF assms] by blast
  moreover from this have "filter work_runnable is' = []" by (auto simp: filter_empty_conv work_runnable_def)
  ultimately show ?thesis by (simp add: next_runnable_item_def pick_first_def)
qed

lemma subtask_by_id_plan:
  assumes "distinct (map sk_id plan)" and "st \<in> set plan"
  shows "subtask_by_id plan (sk_id st) = Some st"
proof -
  have "distinct (map sk_id sts) \<Longrightarrow> dict_get (fold (\<lambda>st. dict_set (sk_id st) st) sts d) k =
      (case find (\<lambda>st. sk_id st = k) sts of Some st \<Rightarrow> Some st | None \<Rightarrow> dict_get d k)" for sts d k
  proof (induction sts arbitrary: d)
    case (Cons a sts)
    then show ?case
      by (auto simp: update_conv split: option.splits dest!: find_Some_iff [THEN iffD1])
  qed simp
  note all = this [OF assms(1), of "[]" "sk_id st"]
  have "find (\<lambda>x. sk_id x = sk_id st) plan = Some st"
    using assms by (induction plan) auto
  then show ?thesis unfolding subtask_by_id_def all by simp
qed

lemma at_subtask_items: "at_subtask w team past cur rest ks k i attempts m c \<Longrightarrow>
    at_subtask w team past cur rest ks k i attempts (m\<lparr>mi_status := s\<rparr>) c"
  by (simp add: at_subtask_def)

text \<open>Only the current item changed.\<close>

lemma at_subtask_update:
  assumes "at_subtask w team past cur rest ks k i attempts m c"
    and "co_queue c' = dict_set k j (co_queue c)" and "co_registry c' = co_registry c" and "co_drawn c' = co_drawn c"
    and "wi_id j = wi_id i" "wi_sub_task_id j = wi_sub_task_id i" "wi_agent_id j = wi_agent_id i" "wi_max_attempts j = wi_max_attempts i"
  shows "at_subtask w team past cur rest ks k j (wi_attempts j) m c'"
proof -
  have get: "work_get (co_queue c') k' = (if k' = k then Some j else work_get (co_queue c) k')" for k'
    using assms(2) by (simp add: work_get_def update_conv)
  have i: "current_item team c cur attempts k i" using assms(1) by (simp add: at_subtask_def)
  have "list_all2 (done_item c') past ks"
    using assms(1) by (auto simp: at_subtask_def done_item_def get list_all2_conv_all_nth)
  moreover have "current_item team c' cur (wi_attempts j) k j"
    using i assms(3,5-8) by (simp add: current_item_def get)
  moreover have "fresh_draws w c'"
    using assms(1,4) i by (auto simp: at_subtask_def fresh_draws_def get current_item_def)
  ultimately show ?thesis using assms(1) by (simp add: at_subtask_def)
qed

lemma started_running:
  assumes "work_get q k = Some i"
  shows "work_running now k q = Inr (started_work now i, dict_set k (started_work now i) q)"
    and "work_failed now2 k err (dict_set k (started_work now i) q) =
      Inr (failed_work now2 err (started_work now i), dict_set k (failed_work now2 err (started_work now i)) q)"
    and "work_done now2 k x (dict_set k (started_work now i) q) =
      Inr (done_work now2 x (started_work now i), dict_set k (done_work now2 x (started_work now i)) q)"
  using assms by (simp_all add: work_running_def work_failed_def work_done_def change_work_def work_get_def update_conv)

lemma failing_turn:
  assumes "at_subtask w team past cur rest ks k i attempts m c" and "distinct (map sk_id (mi_plan m))"
    and "attempt_subtask agents (assigned_agent (co_registry c) team) cur (attempts + 1) ctx (co_log c) = (None, l')"
  shows "\<exists>c' j. mission_turn w agents team i (m, ctx, c) = (Inr (), m, ctx, c') \<and>
    at_subtask w team past cur rest ks k j (attempts + 1) m c' \<and> (work_runnable j \<longleftrightarrow> attempts + 1 < 3) \<and>
    co_log c' = l' \<and> co_registry c' = co_registry c"
proof -
  have i: "work_get (co_queue c) k = Some i" "wi_id i = k" "wi_sub_task_id i = sk_id cur" "wi_max_attempts i = 3"
      "wi_attempts i = attempts" "wi_agent_id i = assigned_agent (co_registry c) team cur"
    and plan: "mi_plan m = past @ cur # rest"
    using assms(1) by (auto simp: at_subtask_def current_item_def)
  have st: "subtask_by_id (mi_plan m) (sk_id cur) = Some cur" by (rule subtask_by_id_plan [OF assms(2)]) (simp add: plan)
  let ?s = "started_work (nd_time w (co_ticks c)) i" and ?c1 = "set_queue (dict_set k (started_work (nd_time w (co_ticks c)) i) (co_queue c)) c"
  note q = started_running [OF i(1)]
  have agent: "wi_agent_id ?s = assigned_agent (co_registry c) team cur" "wi_id ?s = k" "wi_attempts ?s = attempts + 1"
    using i by (simp_all add: started_work_def)
  have fin: "at_subtask w team past cur rest ks k (failed_work t err ?s) (attempts + 1) m c'"
      "work_runnable (failed_work t err ?s) \<longleftrightarrow> attempts + 1 < 3" "wi_status (failed_work t err ?s) = WI_RETRYING \<longleftrightarrow> attempts + 1 < 3"
    if "co_queue c' = dict_set k (failed_work t err ?s) (co_queue c)" "co_registry c' = co_registry c" "co_drawn c' = co_drawn c" for c' t err
  proof -
    let ?f = "failed_work t err ?s"
    have f: "wi_id ?f = wi_id i" "wi_sub_task_id ?f = wi_sub_task_id i" "wi_agent_id ?f = wi_agent_id i"
        "wi_max_attempts ?f = wi_max_attempts i" "wi_attempts ?f = attempts + 1"
      using i(5) by (simp_all add: failed_work_def started_work_def Let_def)
    show "at_subtask w team past cur rest ks k ?f (attempts + 1) m c'"
      using at_subtask_update [OF assms(1) that f(1-4)] unfolding f(5) .
    show "work_runnable ?f \<longleftrightarrow> attempts + 1 < 3" "wi_status ?f = WI_RETRYING \<longleftrightarrow> attempts + 1 < 3"
      using i by (simp_all add: failed_work_def started_work_def Let_def work_runnable_def)
  qed
  show ?thesis
  proof (cases "if assigned_agent (co_registry c) team cur = '''' then None else agents (assigned_agent (co_registry c) team cur)")
    case None
    let ?l = "ML_agent_missing (sk_id cur) (sk_assigned_role cur)"
    let ?f = "failed_work (nd_time w (co_ticks ?c1)) (missing_message cur) ?s"
    let ?c' = "log_line ?l (set_queue (dict_set k ?f (co_queue c)) ?c1)"
    have "mission_turn w agents team i (m, ctx, c) = (Inr (), m, ctx, ?c')"
      by (simp add: mission_turn_def i st q agent None Let_def set_queue_def split del: if_split cong: if_cong)
    moreover have "co_queue ?c' = dict_set k ?f (co_queue c)" "co_registry ?c' = co_registry c" "co_drawn ?c' = co_drawn c"
      by (simp_all add: log_line_def set_queue_def)
    note f = fin [OF this]
    moreover have "co_log ?c' = l'" using assms(3) None unfolding attempt_subtask_def by (simp add: log_line_def set_queue_def)
    ultimately show ?thesis by (intro exI [of _ ?c'] exI [of _ ?f]) (simp add: log_line_def set_queue_def)
  next
    case (Some run)
    let ?l1 = "ML_agent_started (sk_id cur) (assigned_agent (co_registry c) team cur) (attempts + 1)"
    obtain e where run: "run (co_log c @ [?l1]) (context_for (sk_assigned_role cur) ctx) = Inl e"
      and l': "l' = co_log c @ [?l1, ML_agent_failed (sk_id cur) (assigned_agent (co_registry c) team cur) (exn_str e) (attempts + 1 < 3)]"
      using assms(3) Some unfolding attempt_subtask_def by (auto simp: Let_def split: sum.splits)
    let ?c2 = "log_line ?l1 ?c1"
    let ?f = "failed_work (nd_time w (co_ticks ?c2)) (exn_str e) ?s"
    let ?c' = "log_line (ML_agent_failed (sk_id cur) (assigned_agent (co_registry c) team cur) (exn_str e) (wi_status ?f = WI_RETRYING))
        (set_queue (dict_set k ?f (co_queue c)) ?c2)"
    have "mission_turn w agents team i (m, ctx, c) = (Inr (), m, ctx, ?c')"
      by (simp add: mission_turn_def i st q agent Some run Let_def set_queue_def log_line_def split del: if_split cong: if_cong)
    moreover have "co_queue ?c' = dict_set k ?f (co_queue c)" "co_registry ?c' = co_registry c" "co_drawn ?c' = co_drawn c"
      by (simp_all add: log_line_def set_queue_def)
    note f = fin [OF this]
    moreover have "co_log ?c' = l'" using f(3) by (simp add: l' log_line_def set_queue_def)
    ultimately show ?thesis by (intro exI [of _ ?c'] exI [of _ ?f]) (simp add: log_line_def set_queue_def)
  qed
qed

subsection \<open>Enqueueing along a chain\<close>

lemma depends_chain_split:
  "depends_chain previous (past @ nxt # rest) \<Longrightarrow>
    (sk_depends_on nxt = previous \<and> past = [] \<or> (\<exists>p \<in> set past. sk_depends_on nxt = [sk_id p])) \<and> depends_chain [sk_id nxt] rest"
  by (induction past arbitrary: previous) auto

lemma depends_chain_later:
  "depends_chain [sk_id a] sts \<Longrightarrow> st \<in> set sts \<Longrightarrow> \<exists>p \<in> set (a # sts). sk_depends_on st = [sk_id p]"
  by (induction sts arbitrary: a) auto

lemma enqueue_skips:
  "\<forall>st \<in> set sts. sk_id st \<in> E \<or> \<not> subtask_ready m st \<Longrightarrow> enqueue_subtasks w team E (sts @ others) m c = enqueue_subtasks w team E others m c"
  by (induction sts) auto

lemma put_work_results: "put_work w team st p m c = (m', c') \<Longrightarrow> mi_results m' = mi_results m"
  by (auto simp: put_work_def Let_def split: prod.splits)

lemma enqueue_first:
  assumes plan: "mi_plan m = past @ rest" and dist: "distinct (map sk_id (mi_plan m))" and chain: "depends_chain [] (mi_plan m)"
    and keys: "dict_keys (mi_results m) = map sk_id past"
  shows "enqueue_subtasks w team (set (map sk_id past)) (mi_plan m) m c =
    (case rest of [] \<Rightarrow> (m, c)
     | nxt # later \<Rightarrow> put_work w team nxt (int (length (mi_plan m)) - int (position_of nxt (mi_plan m))) m c)"
proof -
  have res: "dict_get (mi_results x) k \<noteq> None \<longleftrightarrow> k \<in> set (map sk_id past)" if "mi_results x = mi_results m" for x k
    using that keys by (metis domIff dom_map_of_conv_image_fst set_map)
  have skip: "enqueue_subtasks w team (set (map sk_id past)) (past @ others) m c = enqueue_subtasks w team (set (map sk_id past)) others m c" for others
    by (rule enqueue_skips) simp
  show ?thesis
  proof (cases rest)
    case Nil
    then show ?thesis using skip [of "[]"] by (simp add: plan)
  next
    case (Cons nxt later)
    have c: "sk_depends_on nxt = [] \<and> past = [] \<or> (\<exists>p \<in> set past. sk_depends_on nxt = [sk_id p])" "depends_chain [sk_id nxt] later"
      using depends_chain_split chain unfolding plan Cons by blast+
    have ready: "subtask_ready m nxt" using c(1) res [of m] by (auto simp: subtask_ready_def)
    have new: "sk_id nxt \<notin> set (map sk_id past)" using dist by (auto simp: plan Cons)
    have late: "\<not> subtask_ready x st" if "st \<in> set later" "mi_results x = mi_results m" for x st
    proof -
      have "\<exists>p \<in> set (nxt # later). sk_depends_on st = [sk_id p]" using c(2) that(1) by (rule depends_chain_later)
      then obtain p where p: "p \<in> set (nxt # later)" "sk_depends_on st = [sk_id p]" by blast
      have "sk_id p \<notin> set (map sk_id past)" using dist p(1) by (auto simp: plan Cons)
      then have "dict_get (mi_results x) (sk_id p) = None" using res [OF that(2), of "sk_id p"] by blast
      then show ?thesis by (simp add: subtask_ready_def p(2))
    qed
    obtain m1 c1 where put: "put_work w team nxt (int (length (mi_plan m)) - int (position_of nxt (mi_plan m))) m c = (m1, c1)"
      by (metis surj_pair)
    have "enqueue_subtasks w team (set (map sk_id past)) (later @ []) m1 c1 = enqueue_subtasks w team (set (map sk_id past)) [] m1 c1"
      by (rule enqueue_skips) (use late put_work_results [OF put] in blast)
    then have "enqueue_subtasks w team (set (map sk_id past)) (past @ nxt # later) m c = (m1, c1)"
      unfolding skip using ready new put by simp
    then show ?thesis using put by (simp add: plan Cons)
  qed
qed

lemma put_work_at:
  assumes "mi_plan m = past @ nxt # later" and "dict_keys (mi_results m) = map sk_id past"
    and "list_all2 (done_item c) past (mi_work_item_ids m)" and "fresh_draws w c" and "put_work w team nxt p m c = (m', c')"
  shows "\<exists>ks k i. at_subtask w team past nxt later ks k i 0 m' c' \<and> work_runnable i"
    and "mi_results m' = mi_results m" and "mi_plan m' = mi_plan m" and "mi_id m' = mi_id m" and "mi_request_description m' = mi_request_description m"
    and "co_log c' = co_log c" and "co_registry c' = co_registry c" and "co_missions c' = co_missions c"
proof -
  let ?k = "nd_id w (co_drawn c)"
  define i where "i = \<lparr>wi_id = ?k, wi_sub_task_id = sk_id nxt,
      wi_agent_id = assigned_agent (co_registry c) team nxt, wi_priority = p, wi_status = WI_PENDING, wi_attempts = 0,
      wi_max_attempts = 3, wi_timeout_seconds = Fin 60, wi_created_at = nd_time w (co_ticks c), wi_started_at = None,
      wi_completed_at = None, wi_result = None, wi_error = None\<rparr>"
  have m': "m' = m\<lparr>mi_work_item_ids := mi_work_item_ids m @ [?k]\<rparr>"
    and c': "co_queue c' = dict_set ?k i (co_queue c)" "co_registry c' = co_registry c" "co_log c' = co_log c"
      "co_drawn c' = Suc (co_drawn c)" "co_missions c' = co_missions c"
    using assms(5) by (auto simp: put_work_def assign_agent_def assigned_agent_def enqueue_work_def i_def Let_def)
  show "mi_results m' = mi_results m" "mi_plan m' = mi_plan m" "mi_id m' = mi_id m" "mi_request_description m' = mi_request_description m"
    "co_log c' = co_log c" "co_registry c' = co_registry c" "co_missions c' = co_missions c"
    using c' by (simp_all add: m')
  have get: "work_get (co_queue c') k' = (if k' = ?k then Some i else work_get (co_queue c) k')" for k'
    by (simp add: work_get_def c' update_conv)
  have free: "work_get (co_queue c) ?k = None" using assms(4) by (simp add: fresh_draws_def)
  then have new: "?k \<notin> set (mi_work_item_ids m)"
    using assms(3) by (force simp: list_all2_conv_all_nth done_item_def in_set_conv_nth)
  have past: "list_all2 (done_item c') past (mi_work_item_ids m)"
    using assms(3) new by (auto simp: list_all2_conv_all_nth done_item_def get in_set_conv_nth)
  have cur: "current_item team c' nxt 0 ?k i" by (simp add: current_item_def get) (simp add: i_def c')
  have "fresh_draws w c'" using assms(4) unfolding fresh_draws_def get c'(4) by (auto dest: injD)
  then have "at_subtask w team past nxt later (mi_work_item_ids m) ?k i 0 m' c'"
    using assms(1,2) new past cur by (simp add: at_subtask_def m')
  moreover have "work_runnable i" by (simp add: i_def work_runnable_def)
  ultimately show "\<exists>ks k i. at_subtask w team past nxt later ks k i 0 m' c' \<and> work_runnable i" by blast
qed

subsection \<open>A successful turn\<close>

lemma succeeding_turn:
  assumes inv: "at_subtask w team past cur rest ks k i attempts m c" and dist: "distinct (map sk_id (mi_plan m))"
    and chain: "depends_chain [] (mi_plan m)"
    and tried: "attempt_subtask agents (assigned_agent (co_registry c) team) cur (attempts + 1) ctx (co_log c) = (Some x, l')"
  shows "\<exists>m' c'. mission_turn w agents team i (m, ctx, c) =
      (Inr (), m', dict_set (mission_task_value (sk_task_type cur) @ ''_result'') (output_text x) ctx, c') \<and>
    mi_results m' = mi_results m @ [(sk_id cur, x)] \<and> mi_plan m' = mi_plan m \<and> mi_id m' = mi_id m \<and>
    co_log c' = l' \<and> co_registry c' = co_registry c \<and>
    (case rest of
       [] \<Rightarrow> next_runnable_item m' c' = None
     | nxt # later \<Rightarrow> \<exists>ks' k' i'. at_subtask w team (past @ [cur]) nxt later ks' k' i' 0 m' c' \<and> work_runnable i')"
proof -
  have i: "work_get (co_queue c) k = Some i" "wi_id i = k" "wi_sub_task_id i = sk_id cur" "wi_max_attempts i = 3"
      "wi_attempts i = attempts" "wi_agent_id i = assigned_agent (co_registry c) team cur"
    and plan: "mi_plan m = past @ cur # rest" and keys: "dict_keys (mi_results m) = map sk_id past"
    using inv by (auto simp: at_subtask_def current_item_def)
  have st: "subtask_by_id (mi_plan m) (sk_id cur) = Some cur" by (rule subtask_by_id_plan [OF dist]) (simp add: plan)
  have new: "sk_id cur \<notin> set (dict_keys (mi_results m))" using dist by (auto simp: plan keys)
  then have res: "dict_set (sk_id cur) x (mi_results m) = mi_results m @ [(sk_id cur, x)]"
    by (intro dict_set_fresh) (auto simp: map_of_eq_None_iff)
  let ?s = "started_work (nd_time w (co_ticks c)) i" and ?c1 = "set_queue (dict_set k (started_work (nd_time w (co_ticks c)) i) (co_queue c)) c"
  let ?agent = "assigned_agent (co_registry c) team cur"
  note q = started_running [OF i(1)]
  have agent: "wi_agent_id ?s = ?agent" "wi_id ?s = k" "wi_attempts ?s = attempts + 1"
    using i by (simp_all add: started_work_def)
  let ?l1 = "ML_agent_started (sk_id cur) ?agent (attempts + 1)"
  have "\<exists>run. (if ?agent = '''' then None else agents ?agent) = Some run \<and>
      run (co_log c @ [?l1]) (context_for (sk_assigned_role cur) ctx) = Inr x \<and> l' = co_log c @ [?l1, ML_agent_finished (sk_id cur) ?agent]"
    using tried unfolding attempt_subtask_def by (auto simp: Let_def split: sum.splits option.splits)
  then obtain run where found: "(if ?agent = '''' then None else agents ?agent) = Some run"
    and run: "run (co_log c @ [?l1]) (context_for (sk_assigned_role cur) ctx) = Inr x"
    and l': "l' = co_log c @ [?l1, ML_agent_finished (sk_id cur) ?agent]" by blast
  define j where "j = done_work (nd_time w (Suc (co_ticks c))) x ?s"
  define m1 where "m1 = m\<lparr>mi_results := mi_results m @ [(sk_id cur, x)]\<rparr>"
  define c3 where "c3 = log_line (ML_agent_finished (sk_id cur) ?agent)
      (record_agent_run m1 j (set_queue (dict_set k j (co_queue c)) (log_line ?l1 ?c1)))"
  have j: "wi_id j = wi_id i" "wi_sub_task_id j = wi_sub_task_id i" "wi_agent_id j = wi_agent_id i" "wi_max_attempts j = wi_max_attempts i"
      "wi_status j = WI_DONE"
    by (simp_all add: j_def done_work_def started_work_def)
  have c3: "co_queue c3 = dict_set k j (co_queue c)" "co_registry c3 = co_registry c" "co_drawn c3 = co_drawn c" "co_log c3 = l'"
    by (simp_all add: c3_def log_line_def record_agent_run_def set_queue_def l' Let_def)
  obtain m2 c4 where enq: "enqueue_ready w team m1 c3 = (m2, c4)" by (metis surj_pair)
  have turn: "mission_turn w agents team i (m, ctx, c) =
      (Inr (), m2, dict_set (mission_task_value (sk_task_type cur) @ ''_result'') (output_text x) ctx, c4)"
    using enq unfolding c3_def m1_def j_def
    by (simp add: mission_turn_def i st q agent found run res j [unfolded j_def] Let_def set_queue_def log_line_def split del: if_split cong: if_cong)
  have at3: "at_subtask w team past cur rest ks k j (wi_attempts j) m c3"
    by (rule at_subtask_update [OF inv c3(1-3) j(1-4)])
  have "work_items_of m1 c3 = work_items_of m c3" by (simp add: work_items_of_def m1_def)
  then obtain is' where items: "work_items_of m1 c3 = is' @ [j]" and sub: "map wi_sub_task_id is' = map sk_id past"
    and idle: "\<forall>y \<in> set is'. wi_status y = WI_DONE" using work_items_at [OF at3] by auto
  have "map wi_sub_task_id (work_items_of m1 c3) = map sk_id (past @ [cur])" by (simp add: items sub j i)
  then have enq1: "enqueue_ready w team m1 c3 = enqueue_subtasks w team (set (map sk_id (past @ [cur]))) (mi_plan m1) m1 c3"
    unfolding enqueue_ready_def by (simp only:)
  have m1: "mi_plan m1 = (past @ [cur]) @ rest" "dict_keys (mi_results m1) = map sk_id (past @ [cur])" "mi_id m1 = mi_id m"
    "mi_plan m1 = mi_plan m"
    by (simp_all add: m1_def plan keys)
  have first: "(m2, c4) = (case rest of [] \<Rightarrow> (m1, c3)
      | nxt # later \<Rightarrow> put_work w team nxt (int (length (mi_plan m1)) - int (position_of nxt (mi_plan m1))) m1 c3)"
    unfolding enq [symmetric] enq1 using enqueue_first [OF m1(1) _ _ m1(2)] dist chain by (simp add: m1(4))
  show ?thesis
  proof (cases rest)
    case Nil
    then have "m2 = m1" "c4 = c3" using first by simp_all
    moreover have "next_runnable_item m1 c3 = None"
      using idle by (auto simp: next_runnable_item_def pick_first_None items j work_runnable_def)
    ultimately show ?thesis using turn m1 c3 Nil by (intro exI [of _ m1] exI [of _ c3]) (simp add: m1_def)
  next
    case (Cons nxt later)
    have put: "put_work w team nxt (int (length (mi_plan m1)) - int (position_of nxt (mi_plan m1))) m1 c3 = (m2, c4)"
      using first Cons by simp
    have "list_all2 (done_item c3) (past @ [cur]) (mi_work_item_ids m1)"
      using at3 j(5) by (auto simp: at_subtask_def m1_def current_item_def done_item_def intro!: list_all2_appendI)
    note at = put_work_at [OF m1(1) [unfolded Cons] m1(2) this _ put]
    have fresh: "fresh_draws w c3" using at3 by (simp add: at_subtask_def)
    show ?thesis using turn at [OF fresh] m1 c3 Cons
      by (intro exI [of _ m2] exI [of _ c4]) (simp add: m1_def)
  qed
qed

section \<open>Properties\<close>

lemma loop_follows:
  assumes "at_subtask w team past cur rest ks k i (3 - int n) m c" and "work_runnable i \<longleftrightarrow> 0 < n"
    and "distinct (map sk_id (mi_plan m))" and "depends_chain [] (mi_plan m)" and "n + 3 * length rest < fuel"
    and "assigned = assigned_agent (co_registry c) team" and "results = mi_results m" and "l = co_log c"
  shows "\<exists>m' ctx' c'. mission_loop fuel w agents team (m, ctx, c) = Some (Inr (), m', ctx', c') \<and>
    (mi_results m', co_log c') = follow_plan agents assigned n cur rest ctx results l \<and> mi_plan m' = mi_plan m \<and> mi_id m' = mi_id m"
  using assms
proof (induction agents assigned n cur rest ctx results l arbitrary: past ks k i m c fuel rule: follow_plan.induct)
  case (1 agents assigned cur rest ctx results l)
  obtain f where f: "fuel = Suc f" using 1(5) by (cases fuel) auto
  have "next_runnable_item m c = None" using next_item_at [OF 1(1)] 1(2) by simp
  then show ?case using 1(7,8) by (simp add: f)
next
  case (2 agents assigned n cur rest ctx results l)
  obtain f where f: "fuel = Suc f" using 2(7) by (cases fuel) auto
  have nxt: "next_runnable_item m c = Some i" using next_item_at [OF 2(3)] 2(4) by simp
  have inv: "at_subtask w team past cur rest ks k i (2 - int n) m c" using 2(3) by simp
  have att: "2 - int n + 1 = 3 - int n" by simp
  obtain r l' where a: "attempt_subtask agents (assigned_agent (co_registry c) team) cur (2 - int n + 1) ctx (co_log c) = (r, l')" by (metis surj_pair)
  have a': "attempt_subtask agents assigned cur (3 - int n) ctx l = (r, l')" using a unfolding att 2(8,10) .
  show ?case
  proof (cases r)
    case None
    from failing_turn [OF inv 2(5) a [unfolded None]] obtain c' j where
      turn: "mission_turn w agents team i (m, ctx, c) = (Inr (), m, ctx, c')" and
      at': "at_subtask w team past cur rest ks k j (2 - int n + 1) m c'" and run: "work_runnable j \<longleftrightarrow> 2 - int n + 1 < 3" and
      c': "co_log c' = l'" "co_registry c' = co_registry c" by blast
    have "\<exists>m' ctx' c''. mission_loop f w agents team (m, ctx, c') = Some (Inr (), m', ctx', c'') \<and>
        (mi_results m', co_log c'') = follow_plan agents assigned n cur rest ctx results l' \<and> mi_plan m' = mi_plan m \<and> mi_id m' = mi_id m"
      by (rule 2(1) [OF a' [symmetric, unfolded None] refl at' [unfolded att]]) (use run 2(5-9) c' f in auto)
    then show ?thesis by (simp add: f nxt turn a' None)
  next
    case (Some x)
    from succeeding_turn [OF inv 2(5,6) a [unfolded Some]] obtain m1 c1 where
      turn: "mission_turn w agents team i (m, ctx, c) =
        (Inr (), m1, dict_set (mission_task_value (sk_task_type cur) @ ''_result'') (output_text x) ctx, c1)" and
      m1: "mi_results m1 = mi_results m @ [(sk_id cur, x)]" "mi_plan m1 = mi_plan m" "mi_id m1 = mi_id m" and
      c1: "co_log c1 = l'" "co_registry c1 = co_registry c" and
      next_at: "case rest of [] \<Rightarrow> next_runnable_item m1 c1 = None
         | nxt # later \<Rightarrow> \<exists>ks' k' i'. at_subtask w team (past @ [cur]) nxt later ks' k' i' 0 m1 c1 \<and> work_runnable i'" by blast
    show ?thesis
    proof (cases rest)
      case Nil
      obtain f' where "f = Suc f'" using 2(7) f by (cases f) auto
      then show ?thesis using next_at m1 c1 2(9) by (simp add: f nxt turn a' Some Nil)
    next
      case (Cons st later)
      then obtain ks' k' i' where at': "at_subtask w team (past @ [cur]) st later ks' k' i' 0 m1 c1" and run: "work_runnable i'"
        using next_at by auto
      have zero: "(0::int) = 3 - int 3" by simp
      have "\<exists>m' ctx' c'. mission_loop f w agents team (m1, dict_set (mission_task_value (sk_task_type cur) @ ''_result'') (output_text x) ctx, c1) =
            Some (Inr (), m', ctx', c') \<and>
          (mi_results m', co_log c') = follow_plan agents assigned 3 st later
            (dict_set (mission_task_value (sk_task_type cur) @ ''_result'') (output_text x) ctx) (results @ [(sk_id cur, x)]) l' \<and>
          mi_plan m' = mi_plan m1 \<and> mi_id m' = mi_id m1"
        by (rule 2(2) [OF a' [symmetric, unfolded Some] refl Cons at' [unfolded zero]]) (use run 2(5-9) m1 c1 f Cons in auto)
      then show ?thesis using m1 by (simp add: f nxt turn a' Some Cons)
    qed
  qed
qed

lemma follow_plan_keys:
  "\<exists>j. dict_keys (fst (follow_plan agents assigned n cur rest ctx results l)) = dict_keys results @ take j (map sk_id (cur # rest))"
proof (induction agents assigned n cur rest ctx results l rule: follow_plan.induct)
  case (1 agents assigned cur rest ctx results l)
  then show ?case by (intro exI [of _ 0]) simp
next
  case (2 agents assigned n cur rest ctx results l)
  obtain r l' where a: "attempt_subtask agents assigned cur (3 - int n) ctx l = (r, l')" by (metis surj_pair)
  show ?case
  proof (cases r)
    case None
    then show ?thesis using 2(1) [OF a [symmetric]] by (simp add: a)
  next
    case (Some x)
    show ?thesis
    proof (cases rest)
      case Nil
      then show ?thesis by (intro exI [of _ 1]) (simp add: a Some)
    next
      case (Cons st later)
      obtain j where "dict_keys (fst (follow_plan agents assigned 3 st later
          (dict_set (mission_task_value (sk_task_type cur) @ ''_result'') (output_text x) ctx) (results @ [(sk_id cur, x)]) l')) =
          dict_keys (results @ [(sk_id cur, x)]) @ take j (map sk_id (st # later))"
        using 2(2) [OF a [symmetric] Some Cons] by blast
      then show ?thesis by (intro exI [of _ "Suc j"]) (simp add: a Some Cons)
    qed
  qed
qed

definition never_fails :: "team_agents_run \<Rightarrow> pystr \<Rightarrow> bool" where
  "never_fails agents a \<longleftrightarrow> a \<noteq> '''' \<and> (\<exists>run. agents a = Some run \<and> (\<forall>l ctx. \<exists>x. run l ctx = Inr x))"

lemma attempt_never_fails:
  assumes "never_fails agents (assigned st)"
  shows "\<exists>x l'. attempt_subtask agents assigned st attempt ctx l = (Some x, l')"
proof -
  obtain run where run: "assigned st \<noteq> ''''" "agents (assigned st) = Some run" and all: "\<And>l ctx. \<exists>x. run l ctx = Inr x"
    using assms unfolding never_fails_def by blast
  obtain x where "run (l @ [ML_agent_started (sk_id st) (assigned st) attempt]) (context_for (sk_assigned_role st) ctx) = Inr x"
    using all by blast
  then show ?thesis by (simp add: attempt_subtask_def run Let_def)
qed

lemma follow_plan_all:
  assumes "\<forall>st \<in> set (cur # rest). never_fails agents (assigned st)"
  shows "dict_keys (fst (follow_plan agents assigned (Suc n) cur rest ctx results l)) = dict_keys results @ map sk_id (cur # rest)"
  using assms
proof (induction rest arbitrary: cur n ctx results l)
  case Nil
  then obtain x l' where "attempt_subtask agents assigned cur (3 - int n) ctx l = (Some x, l')"
    using attempt_never_fails [of agents assigned cur] by fastforce
  then show ?case by simp
next
  case (Cons st rest)
  then obtain x l' where a: "attempt_subtask agents assigned cur (3 - int n) ctx l = (Some x, l')"
    using attempt_never_fails [of agents assigned cur] by fastforce
  have "dict_keys (fst (follow_plan agents assigned (Suc 2) st rest
        (dict_set (mission_task_value (sk_task_type cur) @ ''_result'') (output_text x) ctx) (results @ [(sk_id cur, x)]) l')) =
      dict_keys (results @ [(sk_id cur, x)]) @ map sk_id (st # rest)"
    using Cons.prems by (intro Cons.IH) simp
  then show ?case by (simp add: a numeral_3_eq_3 numeral_2_eq_2)
qed

text \<open>A mission that was just launched has its first sub-task, and nothing else, queued.\<close>

lemma launched_first:
  assumes "inj (nd_id w)" and "\<forall>n. nd_id w n \<noteq> ''''" and "\<forall>n \<ge> co_drawn c. work_get (co_queue c) (nd_id w n) = None"
    and launch: "launch_mission w firm description team case_type c = (m, c1)"
  shows "\<exists>cur rest ks k i c2. mi_plan m = cur # rest \<and> at_subtask w team [] cur rest ks k i 0 m c2 \<and> work_runnable i \<and>
    c1 = save_mission m c2 \<and> co_log c2 = co_log c \<and> co_registry c2 = co_registry c \<and> mi_results m = [] \<and>
    mi_request_description m = description \<and> depends_chain [] (mi_plan m) \<and> distinct (map sk_id (mi_plan m))"
proof -
  let ?ids = "\<lambda>n. nd_id w (co_drawn c + n)"
  define plan where "plan = decompose ?ids (at_domain team) case_type"
  have ids: "inj ?ids" "\<forall>n. ?ids n \<noteq> ''''" using assms(2) by (auto intro!: injI dest!: injD [OF assms(1)])
  note facts = plan_is_chain_steps [OF ids, of "at_domain team" case_type, folded plan_def]
  have chain: "depends_chain [] plan" and dist: "distinct (map sk_id plan)" using facts by blast+
  have "plan \<noteq> []"
  proof
    assume "plan = []"
    then have "with_expert (domain_expert_role (at_domain team)) (template_for case_type) = []" using facts by simp
    then have "template_for case_type = []" by (auto simp: with_expert_def Let_def split: option.splits if_splits)
    then show False using template_cases [of case_type] by (auto simp: template_defs)
  qed
  then obtain cur rest where plan: "plan = cur # rest" by (cases plan) auto
  define m0 where "m0 = \<lparr>mi_id = nd_id w (co_drawn c + length plan), mi_firm_id = firm, mi_request_description = description,
      mi_domain = at_domain team, mi_team_id = at_id team, mi_plan = plan, mi_status = MS_CREATED, mi_work_item_ids = [],
      mi_results = [], mi_synthesis = None, mi_created_at = nd_time w (co_ticks c), mi_completed_at = None\<rparr>"
  define c0 where "c0 = c\<lparr>co_drawn := Suc (co_drawn c + length plan), co_ticks := Suc (co_ticks c)\<rparr>"
  have m0: "mi_plan m0 = [] @ cur # rest" "dict_keys (mi_results m0) = map sk_id ([] :: subtask list)" "mi_work_item_ids m0 = []" "mi_plan m0 = plan"
    by (simp_all add: m0_def plan)
  obtain m1 c2 where enq: "enqueue_ready w team m0 c0 = (m1, c2)" by (metis surj_pair)
  have m: "m = m1" "c1 = save_mission m1 c2"
    using launch enq by (auto simp: launch_mission_def plan_def [symmetric] m0_def [symmetric] c0_def [symmetric] Let_def)
  have "enqueue_ready w team m0 c0 = enqueue_subtasks w team (set (map sk_id ([] :: subtask list))) (mi_plan m0) m0 c0"
    by (simp add: enqueue_ready_def work_items_of_def m0(3) List.map_filter_simps)
  also have "\<dots> = put_work w team cur (int (length (mi_plan m0)) - int (position_of cur (mi_plan m0))) m0 c0"
    using enqueue_first [OF m0(1) _ _ m0(2)] dist chain by (simp add: m0(4))
  finally have put: "put_work w team cur (int (length (mi_plan m0)) - int (position_of cur (mi_plan m0))) m0 c0 = (m1, c2)" using enq by simp
  have "fresh_draws w c0" using assms(1,3) by (auto simp: fresh_draws_def c0_def)
  note at = put_work_at [OF m0(1,2) _ this put]
  have none: "list_all2 (done_item c0) [] (mi_work_item_ids m0)" by (simp add: m0)
  obtain ks k i where inv: "at_subtask w team [] cur rest ks k i 0 m1 c2" and run: "work_runnable i" using at(1) [OF none] by blast
  have m1: "mi_results m1 = []" "mi_plan m1 = plan" "mi_request_description m1 = description"
    using at(2-8) [OF none] by (simp_all add: m0_def)
  have c2: "co_log c2 = co_log c" "co_registry c2 = co_registry c" using at(2-8) [OF none] by (simp_all add: c0_def)
  show ?thesis
    by (intro exI [of _ cur] exI [of _ rest] exI [of _ ks] exI [of _ k] exI [of _ i] exI [of _ c2] conjI)
      (use inv run m m1 c2 chain dist plan in simp_all)
qed

text \<open>What a run makes of a mission is its plan followed from the first sub-task, and the verdict on what it led to.\<close>

lemma run_follows:
  assumes inv: "at_subtask w team [] cur rest ks k i 0 m c2" and run: "work_runnable i"
    and plan: "mi_plan m = cur # rest" "mi_results m = []" "depends_chain [] (mi_plan m)" "distinct (map sk_id (mi_plan m))"
    and fuel: "3 * length (mi_plan m) < fuel"
  shows "\<exists>m' c'. run_mission fuel w agents team (mi_id m) (save_mission m c2) = Some (Inr m', c') \<and>
    (mi_results m', co_log c') = follow_plan agents (assigned_agent (co_registry c2) team) 3 cur rest
      [(''case_summary'', mi_request_description m)] [] (co_log c2) \<and>
    mi_status m' = (if length (mi_results m') = length (mi_plan m) then MS_COMPLETED else MS_FAILED) \<and>
    get_mission c' (mi_id m) = Some m'"
proof -
  let ?m = "m\<lparr>mi_status := MS_RUNNING\<rparr>" and ?c = "save_mission m c2"
    and ?ctx = "[(''case_summary'', mi_request_description m)]" and ?assigned = "assigned_agent (co_registry c2) team"
  have "at_subtask w team [] cur rest ks k i 0 ?m c2" by (rule at_subtask_items [OF inv])
  then have inv': "at_subtask w team [] cur rest ks k i (3 - int 3) ?m ?c"
    by (simp add: at_subtask_def save_mission_def current_item_def fresh_draws_def)
  have "\<exists>m' ctx' c'. mission_loop fuel w agents team (?m, ?ctx, ?c) = Some (Inr (), m', ctx', c') \<and>
      (mi_results m', co_log c') = follow_plan agents ?assigned 3 cur rest ?ctx [] (co_log c2) \<and> mi_plan m' = mi_plan ?m \<and> mi_id m' = mi_id ?m"
    by (rule loop_follows [OF inv']) (use run plan fuel in \<open>auto simp: save_mission_def\<close>)
  then obtain m' ctx' c' where loop: "mission_loop fuel w agents team (?m, ?ctx, ?c) = Some (Inr (), m', ctx', c')"
    and follow: "(mi_results m', co_log c') = follow_plan agents ?assigned 3 cur rest ?ctx [] (co_log c2)"
    and m': "mi_plan m' = mi_plan m" "mi_id m' = mi_id m" by auto
  let ?finished = "m'\<lparr>mi_completed_at := Some (nd_time w (co_ticks c'))\<rparr>"
  define m3 where "m3 = (if length (mi_results ?finished) = length (mi_plan ?finished)
      then ?finished\<lparr>mi_synthesis := Some (build_synthesis ?finished), mi_status := MS_COMPLETED\<rparr>
      else ?finished\<lparr>mi_status := MS_FAILED\<rparr>)"
  have m3: "mi_results m3 = mi_results m'" "mi_id m3 = mi_id m"
      "mi_status m3 = (if length (mi_results m') = length (mi_plan m) then MS_COMPLETED else MS_FAILED)"
    by (simp_all add: m3_def m')
  let ?final = "save_mission m3 (c'\<lparr>co_ticks := Suc (co_ticks c')\<rparr>)"
  have "get_mission ?c (mi_id m) = Some m" by (simp add: get_mission_def save_mission_def update_conv)
  then have result: "run_mission fuel w agents team (mi_id m) ?c = Some (Inr m3, ?final)"
    using loop by (simp add: run_mission_def m3_def Let_def)
  have got: "get_mission ?final (mi_id m) = Some m3" by (simp add: m3 get_mission_def save_mission_def update_conv)
  have "co_log ?final = co_log c'" by (simp add: save_mission_def)
  then show ?thesis by (intro exI [of _ m3] exI [of _ ?final] conjI) (use result follow m3 got in simp_all)
qed

text \<open>
  C2. Running a mission that was just launched comes to an end, within three turns for each sub-task of its
  plan, and amounts to following the plan: the sub-tasks run one after the other in the order of the
  plan, each by the agent of the team that has its role, in the context of the results before it, and
  is tried up to three times; after the first that never succeeds nothing else runs. The mission is
  completed exactly when every sub-task has a result, and otherwise failed; it is completed when the
  agents exist and never fail.
\<close>

theorem mission_follows_plan:
  assumes "inj (nd_id w)" and "\<forall>n. nd_id w n \<noteq> ''''" and "\<forall>n \<ge> co_drawn c. work_get (co_queue c) (nd_id w n) = None"
    and launch: "launch_mission w firm description team case_type c = (m, c1)" and "3 * length (mi_plan m) < fuel"
  shows "\<exists>cur rest m' c'. mi_plan m = cur # rest \<and> run_mission fuel w agents team (mi_id m) c1 = Some (Inr m', c') \<and>
    (mi_results m', co_log c') =
      follow_plan agents (assigned_agent (co_registry c) team) 3 cur rest [(''case_summary'', description)] [] (co_log c) \<and>
    (\<exists>j. dict_keys (mi_results m') = take j (map sk_id (mi_plan m))) \<and>
    mi_status m' = (if dict_keys (mi_results m') = map sk_id (mi_plan m) then MS_COMPLETED else MS_FAILED) \<and>
    ((\<forall>st \<in> set (mi_plan m). never_fails agents (assigned_agent (co_registry c) team st)) \<longrightarrow> mi_status m' = MS_COMPLETED) \<and>
    get_mission c' (mi_id m) = Some m'"
proof -
  obtain cur rest ks k i c2 where plan: "mi_plan m = cur # rest" "mi_results m = []" "depends_chain [] (mi_plan m)"
      "distinct (map sk_id (mi_plan m))" and inv: "at_subtask w team [] cur rest ks k i 0 m c2" and run: "work_runnable i"
    and c1: "c1 = save_mission m c2" "co_log c2 = co_log c" "co_registry c2 = co_registry c" "mi_request_description m = description"
    using launched_first [OF assms(1-3) launch] by blast
  let ?assigned = "assigned_agent (co_registry c) team" and ?ctx = "[(''case_summary'', description)]"
  obtain m' c' where run': "run_mission fuel w agents team (mi_id m) c1 = Some (Inr m', c')"
    and follow: "(mi_results m', co_log c') = follow_plan agents ?assigned 3 cur rest ?ctx [] (co_log c)"
    and status: "mi_status m' = (if length (mi_results m') = length (mi_plan m) then MS_COMPLETED else MS_FAILED)"
    and got: "get_mission c' (mi_id m) = Some m'"
    using run_follows [OF inv run plan assms(5), of agents] unfolding c1 by blast
  obtain j where j: "dict_keys (mi_results m') = take j (map sk_id (mi_plan m))"
    using follow_plan_keys [of agents ?assigned 3 cur rest ?ctx "[]" "co_log c"] unfolding follow [symmetric] plan(1) by auto
  have len: "length (mi_results m') = length (mi_plan m) \<longleftrightarrow> dict_keys (mi_results m') = map sk_id (mi_plan m)"
    by (metis j length_map take_all order_refl length_take min.cobounded2 min_def take_all_iff)
  have all: "mi_status m' = MS_COMPLETED" if "\<forall>st \<in> set (mi_plan m). never_fails agents (?assigned st)"
  proof -
    have "\<forall>st \<in> set (cur # rest). never_fails agents (?assigned st)" using that by (simp add: plan(1))
    from follow_plan_all [OF this, of 2 ?ctx "[]" "co_log c"] have "dict_keys (mi_results m') = map sk_id (mi_plan m)"
      using follow by (metis append_Nil fst_conv list.simps(8) numeral_2_eq_2 numeral_3_eq_3 plan(1))
    then show ?thesis using len status by simp
  qed
  show ?thesis
    by (intro exI [of _ cur] exI [of _ rest] exI [of _ m'] exI [of _ c'] conjI) (use plan run' follow j status len all got in auto)
qed

lemma enqueue_plan: "enqueue_subtasks w team E sts x y = (x', y') \<Longrightarrow> mi_plan x' = mi_plan x"
  by (induction w team E sts x y rule: enqueue_subtasks.induct)
    (auto simp: put_work_def assign_agent_def Let_def split: prod.splits if_splits)

lemma launch_plan:
  "launch_mission w firm description team case_type c = (m, c1) \<Longrightarrow>
     mi_plan m = decompose (\<lambda>n. nd_id w (co_drawn c + n)) (at_domain team) case_type"
  by (auto simp: launch_mission_def enqueue_ready_def Let_def split: prod.splits dest!: enqueue_plan)

definition demo_coordinator :: coordinator where
  "demo_coordinator = \<lparr>co_queue = [], co_missions = [], co_registry = default_agent_registry, co_delegations = [], co_runs = [],
     co_revisions = [], co_validations = [], co_log = [], co_drawn = 0, co_ticks = 0\<rparr>"

definition demo_team :: agent_team where
  "demo_team = \<lparr>at_id = ''t'', at_member_agent_ids = [''agent-drafter'', ''agent-verifier''], at_domain = LD_GENERAL, at_is_custom = True\<rparr>"

lemma mission_follows_plan_witness:
  "\<exists>m c1 m' c'. launch_mission \<lparr>nd_id = dec_nat, nd_time = int\<rparr> ''f1'' ''case'' demo_team ''drafting_only'' demo_coordinator = (m, c1) \<and>
     run_mission 7 \<lparr>nd_id = dec_nat, nd_time = int\<rparr> (\<lambda>a. Some (\<lambda>l ctx. Inr \<lparr>ao_result = [(''text'', a)]\<rparr>)) demo_team (mi_id m) c1 =
       Some (Inr m', c') \<and> mi_status m' = MS_COMPLETED \<and> length (mi_results m') = 2"
proof -
  let ?w = "\<lparr>nd_id = dec_nat, nd_time = int\<rparr>" and ?agents = "\<lambda>a. Some (\<lambda>l ctx. Inr \<lparr>ao_result = [(''text'', a)]\<rparr>)"
  obtain m c1 where launch: "launch_mission ?w ''f1'' ''case'' demo_team ''drafting_only'' demo_coordinator = (m, c1)"
    by (metis surj_pair)
  have ids: "inj (nd_id ?w)" "\<forall>n. nd_id ?w n \<noteq> ''''" by (auto intro: injI)
  have fresh: "\<forall>n \<ge> co_drawn demo_coordinator. work_get (co_queue demo_coordinator) (nd_id ?w n) = None"
    by (simp add: demo_coordinator_def work_get_def)
  have plan: "mi_plan m = [\<lparr>sk_id = dec_nat 0, sk_task_type = MT_DRAFTING, sk_assigned_role = AR_DRAFTER, sk_depends_on = []\<rparr>,
      \<lparr>sk_id = dec_nat 1, sk_task_type = MT_VERIFICATION, sk_assigned_role = AR_VERIFIER, sk_depends_on = [dec_nat 0]\<rparr>]"
  proof -
    have "mi_plan m = decompose (\<lambda>n. nd_id ?w (co_drawn demo_coordinator + n)) (at_domain demo_team) ''drafting_only''"
      by (rule launch_plan [OF launch])
    also have "\<dots> = [\<lparr>sk_id = dec_nat 0, sk_task_type = MT_DRAFTING, sk_assigned_role = AR_DRAFTER, sk_depends_on = []\<rparr>,
      \<lparr>sk_id = dec_nat 1, sk_task_type = MT_VERIFICATION, sk_assigned_role = AR_VERIFIER, sk_depends_on = [dec_nat 0]\<rparr>]"
      by (simp add: decompose_def template_for_def mission_templates_def drafting_only_def is_research_def demo_coordinator_def demo_team_def)
    finally show ?thesis .
  qed
  have reg: "default_agent_registry = map (\<lambda>d. (ad_id d, d)) default_descriptors"
    by (simp add: default_agent_registry_def default_descriptors_def register_agent_def role_definition_def)
  have agent: "agent_for default_agent_registry demo_team AR_DRAFTER = Some ''agent-drafter''"
      "agent_for default_agent_registry demo_team AR_VERIFIER = Some ''agent-verifier''"
    unfolding reg by (simp_all add: agent_for_def demo_team_def get_agent_def default_descriptors_def role_definition_def)
  have never: "\<forall>st \<in> set (mi_plan m). never_fails ?agents (assigned_agent (co_registry demo_coordinator) demo_team st)"
    unfolding plan by (simp add: never_fails_def assigned_agent_def demo_coordinator_def agent)
  have "3 * length (mi_plan m) < 7" by (simp add: plan)
  from mission_follows_plan [OF ids fresh launch this, of ?agents] never obtain m' c' where
    run: "run_mission 7 ?w ?agents demo_team (mi_id m) c1 = Some (Inr m', c')" and fin: "mi_status m' = MS_COMPLETED"
    and st: "mi_status m' = (if dict_keys (mi_results m') = map sk_id (mi_plan m) then MS_COMPLETED else MS_FAILED)" by blast
  have "dict_keys (mi_results m') = map sk_id (mi_plan m)" using fin st by (metis mission_status.distinct)
  from arg_cong [OF this, of length] have "length (mi_results m') = 2" by (simp add: plan)
  then show ?thesis using launch run fin by blast
qed

end
