(* ===== verification/Streams.thy ===== *)
theory Streams
  imports Prelude
begin

text \<open>
  The event store of the runtime platform (\<^verbatim>\<open>runtime_platform/event_store\<close>): append-only streams, snapshots of
  the state they lead to and the replay of what came after; and event streaming (\<^verbatim>\<open>event_streaming\<close>), which
  numbers the events published on a bus, drops those whose idempotency key was seen and archives.
  Payloads, states and events are whatever the caller has.
\<close>

section \<open>The event store\<close>

record 'p stored_event =
  se_stream_id :: pystr
  se_sequence :: nat
  se_event_type :: pystr
  se_payload :: 'p
  se_recorded_at :: datetime

record 's stream_snapshot =
  ss_stream_id :: pystr
  ss_version :: nat
  ss_state :: 's
  ss_recorded_at :: datetime

record ('p, 's) event_store =
  es_streams :: "(pystr, 'p stored_event list) dict"
  es_snapshots :: "(pystr, 's stream_snapshot list) dict"
  es_archived :: "pystr set"
  es_counters :: "(pystr, nat) dict"

definition event_store_init :: "('p, 's) event_store" where
  "event_store_init = \<lparr>es_streams = [], es_snapshots = [], es_archived = {}, es_counters = []\<rparr>"

definition stream_events :: "('p, 's) event_store \<Rightarrow> pystr \<Rightarrow> 'p stored_event list" where
  "stream_events s k = (case dict_get (es_streams s) k of None \<Rightarrow> [] | Some xs \<Rightarrow> xs)"

definition read_stream :: "('p, 's) event_store \<Rightarrow> pystr \<Rightarrow> nat \<Rightarrow> 'p stored_event list" where
  "read_stream s k from_sequence = filter (\<lambda>e. from_sequence < se_sequence e) (stream_events s k)"

definition stream_ids :: "('p, 's) event_store \<Rightarrow> pystr list" where
  "stream_ids s = dict_keys (es_streams s)"

definition stream_snapshots :: "('p, 's) event_store \<Rightarrow> pystr \<Rightarrow> 's stream_snapshot list" where
  "stream_snapshots s k = (case dict_get (es_snapshots s) k of None \<Rightarrow> [] | Some xs \<Rightarrow> xs)"

text \<open>\<open>max(..., key=version)\<close>: of equal versions the first.\<close>

fun latest_of :: "'s stream_snapshot \<Rightarrow> 's stream_snapshot list \<Rightarrow> 's stream_snapshot" where
  "latest_of best [] = best"
| "latest_of best (x # xs) = latest_of (if ss_version best < ss_version x then x else best) xs"

definition latest_snapshot :: "('p, 's) event_store \<Rightarrow> pystr \<Rightarrow> 's stream_snapshot option" where
  "latest_snapshot s k = (case stream_snapshots s k of [] \<Rightarrow> None | x # xs \<Rightarrow> Some (latest_of x xs))"

definition stream_counter :: "('p, 's) event_store \<Rightarrow> pystr \<Rightarrow> nat" where
  "stream_counter s k = (case dict_get (es_counters s) k of None \<Rightarrow> 0 | Some n \<Rightarrow> n)"

definition append_event ::
  "datetime \<Rightarrow> pystr \<Rightarrow> pystr \<Rightarrow> 'p \<Rightarrow> ('p, 's) event_store \<Rightarrow> ('p stored_event \<times> ('p, 's) event_store) result" where
  "append_event now k event_type payload s =
     (if k \<in> es_archived s then Inl (RuntimeError (''stream '' @ k @ '' is archived; restore() first''))
      else
        let sequence = stream_counter s k + 1;
            e = \<lparr>se_stream_id = k, se_sequence = sequence, se_event_type = event_type, se_payload = payload, se_recorded_at = now\<rparr>
        in Inr (e, s\<lparr>es_counters := dict_set k sequence (es_counters s),
                      es_streams := dict_set k (stream_events s k @ [e]) (es_streams s)\<rparr>))"

definition take_snapshot :: "datetime \<Rightarrow> pystr \<Rightarrow> 's \<Rightarrow> ('p, 's) event_store \<Rightarrow> 's stream_snapshot \<times> ('p, 's) event_store" where
  "take_snapshot now k state s =
     (let x = \<lparr>ss_stream_id = k, ss_version = stream_counter s k, ss_state = state, ss_recorded_at = now\<rparr>
      in (x, s\<lparr>es_snapshots := dict_set k (stream_snapshots s k @ [x]) (es_snapshots s)\<rparr>))"

definition replay_stream :: "('p, 's) event_store \<Rightarrow> pystr \<Rightarrow> 'p stored_event list" where
  "replay_stream s k =
     read_stream s k (case latest_snapshot s k of None \<Rightarrow> 0 | Some x \<Rightarrow> ss_version x)"

definition archive_stream :: "pystr \<Rightarrow> ('p, 's) event_store \<Rightarrow> ('p, 's) event_store" where
  "archive_stream k s = s\<lparr>es_archived := insert k (es_archived s)\<rparr>"

definition restore_stream :: "pystr \<Rightarrow> ('p, 's) event_store \<Rightarrow> ('p, 's) event_store" where
  "restore_stream k s = s\<lparr>es_archived := es_archived s - {k}\<rparr>"

subsection \<open>Rebuilding the state\<close>

definition rebuild :: "('p stored_event \<Rightarrow> 's \<Rightarrow> 's) \<Rightarrow> 's \<Rightarrow> 'p stored_event list \<Rightarrow> 's" where
  "rebuild apply_event initial es = fold apply_event es initial"

text \<open>
  The operations as steps, for a caller that takes snapshots of the state the events so far lead to.
\<close>

inductive store_step :: "('p stored_event \<Rightarrow> 's \<Rightarrow> 's) \<Rightarrow> 's \<Rightarrow> ('p, 's) event_store \<Rightarrow> ('p, 's) event_store \<Rightarrow> bool"
  for apply_event initial where
  append: "append_event now k event_type payload s = Inr (e, s') \<Longrightarrow> store_step apply_event initial s s'"
| snapshot: "take_snapshot now k (rebuild apply_event initial (read_stream s k 0)) s = (x, s') \<Longrightarrow> store_step apply_event initial s s'"
| archive: "store_step apply_event initial s (archive_stream k s)"
| restore: "store_step apply_event initial s (restore_stream k s)"

definition stream_ok :: "('p stored_event \<Rightarrow> 's \<Rightarrow> 's) \<Rightarrow> 's \<Rightarrow> ('p, 's) event_store \<Rightarrow> pystr \<Rightarrow> bool" where
  "stream_ok apply_event initial s k \<longleftrightarrow>
     map se_sequence (stream_events s k) = [1..<Suc (stream_counter s k)] \<and>
     (\<forall>x \<in> set (stream_snapshots s k). ss_version x \<le> stream_counter s k \<and>
        ss_state x = rebuild apply_event initial (take (ss_version x) (stream_events s k)))"

lemma sequences_filter:
  assumes "map se_sequence es = [1..<Suc n]"
  shows "filter (\<lambda>e. v < se_sequence e) es = drop v es"
  using assms
proof (induction es arbitrary: n rule: rev_induct)
  case (snoc e es)
  have n: "n = Suc (length es)" using arg_cong [OF snoc.prems, of length] by simp
  then have "map se_sequence es = [1..<Suc (length es)]" and e: "se_sequence e = Suc (length es)" using snoc.prems by simp_all
  then show ?case using snoc.IH by auto
qed simp

lemma stream_ok_read: "stream_ok f i s k \<Longrightarrow> read_stream s k v = drop v (stream_events s k)"
  by (simp add: read_stream_def stream_ok_def sequences_filter)

lemma stream_ok_length: "stream_ok f i s k \<Longrightarrow> length (stream_events s k) = stream_counter s k"
  using length_map [of se_sequence "stream_events s k"] by (simp add: stream_ok_def del: upt_Suc)

lemma store_step_ok:
  assumes "store_step f i s s'" and ok: "\<And>k. stream_ok f i s k"
  shows "stream_ok f i s' k"
  using assms(1)
proof cases
  case (append now k' event_type payload e)
  then have s': "stream_events s' k = (if k = k' then stream_events s k @ [e] else stream_events s k)"
    "stream_counter s' k = (if k = k' then Suc (stream_counter s k) else stream_counter s k)"
    "stream_snapshots s' k = stream_snapshots s k" "se_sequence e = Suc (stream_counter s k')"
    by (auto simp: append_event_def stream_events_def stream_counter_def stream_snapshots_def update_conv Let_def split: if_splits)
  have len: "length (stream_events s j) = stream_counter s j" for j by (rule stream_ok_length [OF ok])
  show ?thesis using ok [of k] unfolding stream_ok_def s'
    by (auto simp: len s'(4) upt_Suc_append simp del: upt_Suc)
next
  case (snapshot now k' x)
  then have s': "stream_events s' k = stream_events s k" "stream_counter s' k = stream_counter s k"
    "stream_snapshots s' k = (if k = k' then stream_snapshots s k @ [x] else stream_snapshots s k)"
    "ss_version x = stream_counter s k'" "ss_state x = rebuild f i (read_stream s k' 0)"
    by (auto simp: take_snapshot_def stream_events_def stream_counter_def stream_snapshots_def update_conv Let_def)
  show ?thesis using ok [of k] stream_ok_length [OF ok, of k] stream_ok_read [OF ok, of k 0]
    unfolding stream_ok_def s' by (auto simp: s'(4,5))
next
  case (archive k')
  then show ?thesis using ok [of k]
    by (simp add: stream_ok_def archive_stream_def stream_events_def stream_counter_def stream_snapshots_def)
next
  case (restore k')
  then show ?thesis using ok [of k]
    by (simp add: stream_ok_def restore_stream_def stream_events_def stream_counter_def stream_snapshots_def)
qed

lemma store_reachable_ok: "(store_step f i)\<^sup>*\<^sup>* event_store_init s \<Longrightarrow> stream_ok f i s k"
proof (induction arbitrary: k rule: rtranclp_induct)
  case base
  show ?case by (simp add: stream_ok_def event_store_init_def stream_events_def stream_counter_def stream_snapshots_def)
qed (rule store_step_ok)

lemma latest_of_member: "latest_of x xs \<in> set (x # xs)"
proof (induction xs arbitrary: x)
  case (Cons a xs)
  then show ?case using Cons.IH [of x] Cons.IH [of a] by auto
qed simp

section \<open>Event streaming\<close>

record 'e envelope =
  ev_sequence :: nat
  ev_event :: 'e
  ev_event_type :: pystr
  ev_version :: int
  ev_idempotency_key :: "pystr option"
  ev_recorded_at :: datetime
  ev_archived :: bool

record 'e streaming =
  sm_schema_version :: int
  sm_envelopes :: "'e envelope list"
  sm_seen :: "pystr set"
  sm_next_sequence :: nat

definition streaming_init :: "int \<Rightarrow> 'e streaming" where
  "streaming_init schema_version =
     \<lparr>sm_schema_version = schema_version, sm_envelopes = [], sm_seen = {}, sm_next_sequence = 1\<rparr>"

text \<open>
  A publication has two parts, between which the bus delivers and others may run: the key is looked up
  before, the envelope and the key are recorded after.
\<close>

definition key_seen :: "pystr option \<Rightarrow> 'e streaming \<Rightarrow> bool" where
  "key_seen key s \<longleftrightarrow> (case key of None \<Rightarrow> False | Some k \<Rightarrow> k \<in> sm_seen s)"

definition record_envelope ::
  "('e \<Rightarrow> pystr) \<Rightarrow> datetime \<Rightarrow> 'e \<Rightarrow> pystr option \<Rightarrow> 'e streaming \<Rightarrow> 'e envelope \<times> 'e streaming" where
  "record_envelope type_name now e key s =
     (let v = \<lparr>ev_sequence = sm_next_sequence s, ev_event = e, ev_event_type = type_name e, ev_version = sm_schema_version s,
               ev_idempotency_key = key, ev_recorded_at = now, ev_archived = False\<rparr>
      in (v, s\<lparr>sm_next_sequence := sm_next_sequence s + 1, sm_envelopes := sm_envelopes s @ [v],
               sm_seen := (case key of None \<Rightarrow> sm_seen s | Some k \<Rightarrow> insert k (sm_seen s))\<rparr>))"

text \<open>A publication on its own; \<open>bus\<close> is what awaiting the bus gives or raises.\<close>

definition publish_once ::
  "('e \<Rightarrow> pystr) \<Rightarrow> unit result \<Rightarrow> datetime \<Rightarrow> 'e \<Rightarrow> pystr option \<Rightarrow> 'e streaming \<Rightarrow> 'e envelope option result \<times> 'e streaming" where
  "publish_once type_name bus now e key s =
     (if key_seen key s then (Inr None, s)
      else (case bus of
              Inl x \<Rightarrow> (Inl x, s)
            | Inr _ \<Rightarrow> (case record_envelope type_name now e key s of (v, s') \<Rightarrow> (Inr (Some v), s'))))"

definition replay_envelopes :: "nat \<Rightarrow> 'e streaming \<Rightarrow> 'e envelope list" where
  "replay_envelopes from_sequence s = filter (\<lambda>v. from_sequence < ev_sequence v \<and> \<not> ev_archived v) (sm_envelopes s)"

definition archive_before :: "nat \<Rightarrow> 'e streaming \<Rightarrow> nat \<times> 'e streaming" where
  "archive_before before_sequence s =
     (let hit = (\<lambda>v. ev_sequence v < before_sequence \<and> \<not> ev_archived v)
      in (length (filter hit (sm_envelopes s)),
          s\<lparr>sm_envelopes := map (\<lambda>v. if hit v then v\<lparr>ev_archived := True\<rparr> else v) (sm_envelopes s)\<rparr>))"

definition archived_envelopes :: "'e streaming \<Rightarrow> 'e envelope list" where
  "archived_envelopes s = filter ev_archived (sm_envelopes s)"

inductive stream_step :: "('e \<Rightarrow> pystr) \<Rightarrow> 'e streaming \<Rightarrow> 'e streaming \<Rightarrow> bool" for type_name where
  publish: "publish_once type_name bus now e key s = (r, s') \<Longrightarrow> stream_step type_name s s'"
| archive: "archive_before n s = (count, s') \<Longrightarrow> stream_step type_name s s'"

definition stream_keys :: "'e streaming \<Rightarrow> pystr list" where
  "stream_keys s = List.map_filter ev_idempotency_key (sm_envelopes s)"

definition streaming_ok :: "'e streaming \<Rightarrow> bool" where
  "streaming_ok s \<longleftrightarrow> map ev_sequence (sm_envelopes s) = [1..<sm_next_sequence s] \<and> 0 < sm_next_sequence s \<and>
     distinct (stream_keys s) \<and> set (stream_keys s) = sm_seen s"

lemma map_filter_snoc: "List.map_filter f (xs @ [x]) = List.map_filter f xs @ (case f x of None \<Rightarrow> [] | Some y \<Rightarrow> [y])"
  by (simp add: List.map_filter_def split: option.split)

lemma map_filter_map: "(\<And>x. f (g x) = f x) \<Longrightarrow> List.map_filter f (map g xs) = List.map_filter f xs"
  by (induction xs) (simp_all add: List.map_filter_simps split: option.split)

lemma stream_step_ok:
  assumes "stream_step type_name s s'" and ok: "streaming_ok s"
  shows "streaming_ok s'"
  using assms(1)
proof cases
  case (publish bus now e key r)
  then have "s' = s \<or> \<not> key_seen key s \<and> s' = snd (record_envelope type_name now e key s)"
    by (auto simp: publish_once_def split: if_splits sum.splits prod.splits)
  moreover have "streaming_ok (snd (record_envelope type_name now e key s))" if "\<not> key_seen key s"
    using ok that
    by (cases key) (auto simp: streaming_ok_def stream_keys_def record_envelope_def key_seen_def map_filter_snoc Let_def)
  ultimately show ?thesis using ok by auto
next
  case (archive n count)
  let ?f = "\<lambda>v. if ev_sequence v < n \<and> \<not> ev_archived v then v\<lparr>ev_archived := True\<rparr> else v"
  have s': "sm_envelopes s' = map ?f (sm_envelopes s)" "sm_next_sequence s' = sm_next_sequence s" "sm_seen s' = sm_seen s"
    using archive by (auto simp: archive_before_def Let_def)
  have "stream_keys s' = stream_keys s" unfolding stream_keys_def s' by (rule map_filter_map) simp
  moreover have "map ev_sequence (sm_envelopes s') = map ev_sequence (sm_envelopes s)" unfolding s' by simp
  ultimately show ?thesis using ok s'(2,3) by (simp only: streaming_ok_def)
qed

lemma stream_reachable_ok: "(stream_step type_name)\<^sup>*\<^sup>* (streaming_init v) s \<Longrightarrow> streaming_ok s"
proof (induction rule: rtranclp_induct)
  case base
  show ?case by (simp add: streaming_ok_def streaming_init_def stream_keys_def List.map_filter_simps)
qed (rule stream_step_ok)

section \<open>Properties\<close>

text \<open>
  C38. Replaying is as good as the whole history: for a caller that snapshots the state the events lead to, the
  latest snapshot with the events replayed after it gives exactly the state that all events give, in
  every state that can be reached by appending, taking snapshots, archiving and restoring. The events
  of a stream are numbered 1, 2, 3 and so on, and an archived stream takes no event.
\<close>

theorem replay_rebuilds:
  assumes "(store_step f initial)\<^sup>*\<^sup>* event_store_init s"
  shows "rebuild f (case latest_snapshot s k of None \<Rightarrow> initial | Some x \<Rightarrow> ss_state x) (replay_stream s k) =
      rebuild f initial (read_stream s k 0) \<and>
    map se_sequence (read_stream s k 0) = [1..<Suc (length (read_stream s k 0))] \<and>
    ((\<exists>e s'. append_event now k event_type payload s = Inr (e, s') \<and> read_stream s' k 0 = read_stream s k 0 @ [e]) \<longleftrightarrow>
      k \<notin> es_archived s)"
proof -
  have ok: "stream_ok f initial s k" using assms by (rule store_reachable_ok)
  have len: "length (stream_events s k) = stream_counter s k" by (rule stream_ok_length [OF ok])
  have read: "read_stream s k v = drop v (stream_events s k)" for v by (rule stream_ok_read [OF ok])
  have seq: "map se_sequence (read_stream s k 0) = [1..<Suc (length (read_stream s k 0))]"
    using ok by (simp add: read len stream_ok_def del: upt_Suc)
  have replay: "rebuild f (case latest_snapshot s k of None \<Rightarrow> initial | Some x \<Rightarrow> ss_state x) (replay_stream s k) =
      rebuild f initial (read_stream s k 0)"
  proof (cases "stream_snapshots s k")
    case Nil
    then show ?thesis by (simp add: latest_snapshot_def replay_stream_def)
  next
    case (Cons a xs)
    have "latest_of a xs \<in> set (stream_snapshots s k)" unfolding Cons by (rule latest_of_member)
    then have "ss_state (latest_of a xs) = rebuild f initial (take (ss_version (latest_of a xs)) (stream_events s k))"
      using ok by (auto simp: stream_ok_def)
    moreover have "rebuild f (rebuild f initial (take v es)) (drop v es) = rebuild f initial es" for v es
      using fold_append [of f "take v es" "drop v es"] by (simp add: rebuild_def)
    ultimately show ?thesis by (simp add: latest_snapshot_def replay_stream_def Cons read)
  qed
  have "append_event now k event_type payload s = Inr (e, s') \<Longrightarrow> read_stream s' k 0 = read_stream s k 0 @ [e]" for e s'
    by (auto simp: append_event_def read_stream_def stream_events_def update_conv Let_def split: if_splits)
  then have append: "(\<exists>e s'. append_event now k event_type payload s = Inr (e, s') \<and> read_stream s' k 0 = read_stream s k 0 @ [e]) \<longleftrightarrow>
      k \<notin> es_archived s"
    by (auto simp: append_event_def Let_def)
  show ?thesis using replay seq append by blast
qed

text \<open>A counter: two events, a snapshot, one more event.\<close>

lemma replay_rebuilds_witness:
  "\<exists>s. map se_payload (replay_stream s ''acc'') = [5 :: int] \<and>
     map_option ss_state (latest_snapshot s ''acc'') = Some (3 :: int) \<and>
     rebuild (\<lambda>e x. x + se_payload e) 3 (replay_stream s ''acc'') = rebuild (\<lambda>e x. x + se_payload e) 0 (read_stream s ''acc'' 0)"
proof -
  let ?f = "\<lambda>e x. (x :: int) + se_payload e"
  let ?e = "\<lambda>n (p :: int). \<lparr>se_stream_id = ''acc'', se_sequence = n, se_event_type = ''add'', se_payload = p, se_recorded_at = 0\<rparr>"
  let ?s = "\<lambda>es snaps n. \<lparr>es_streams = [(''acc'', es)], es_snapshots = snaps, es_archived = {}, es_counters = [(''acc'', n)]\<rparr>"
  let ?x = "\<lparr>ss_stream_id = ''acc'', ss_version = 2, ss_state = 3 :: int, ss_recorded_at = 0\<rparr>"
  let ?final = "?s [?e 1 1, ?e 2 2, ?e 3 5] [(''acc'', [?x])] 3"
  have 1: "store_step ?f (0::int) event_store_init (?s [?e 1 1] [] 1)"
    by (rule store_step.append [of 0 "''acc''" "''add''" 1 _ "?e 1 1"])
      (simp add: append_event_def event_store_init_def stream_counter_def stream_events_def Let_def)
  have 2: "store_step ?f 0 (?s [?e 1 1] [] 1) (?s [?e 1 1, ?e 2 2] [] 2)"
    by (rule store_step.append [of 0 "''acc''" "''add''" 2 _ "?e 2 2"])
      (simp add: append_event_def stream_counter_def stream_events_def Let_def)
  have 3: "store_step ?f 0 (?s [?e 1 1, ?e 2 2] [] 2) (?s [?e 1 1, ?e 2 2] [(''acc'', [?x])] 2)"
    by (rule store_step.snapshot [of 0 "''acc''" _ _ _ ?x])
      (simp add: take_snapshot_def stream_counter_def stream_events_def stream_snapshots_def read_stream_def rebuild_def Let_def)
  have 4: "store_step ?f 0 (?s [?e 1 1, ?e 2 2] [(''acc'', [?x])] 2) ?final"
    by (rule store_step.append [of 0 "''acc''" "''add''" 5 _ "?e 3 5"])
      (simp add: append_event_def stream_counter_def stream_events_def Let_def)
  have r: "(store_step ?f 0)\<^sup>*\<^sup>* event_store_init ?final"
    using 1 2 3 4 by (blast intro: converse_rtranclp_into_rtranclp)
  have l: "latest_snapshot ?final ''acc'' = Some ?x" by (simp add: latest_snapshot_def stream_snapshots_def)
  have "map se_payload (replay_stream ?final ''acc'') = [5]"
    unfolding replay_stream_def l by (simp add: read_stream_def stream_events_def)
  moreover have "map_option ss_state (latest_snapshot ?final ''acc'') = Some 3" unfolding l by simp
  moreover have "rebuild ?f 3 (replay_stream ?final ''acc'') = rebuild ?f 0 (read_stream ?final ''acc'' 0)"
    using replay_rebuilds [OF r, of "''acc''"] unfolding l option.case stream_snapshot.select_convs by blast
  ultimately show ?thesis by (intro exI [of _ ?final] conjI)
qed

text \<open>
  Publications made one after the other are never repeated: in every state that can be reached the recorded
  envelopes are numbered 1, 2, 3 and so on, no idempotency key occurs twice, and publishing with a key
  that occurs is without effect; what is replayed are the envelopes after a number that are not
  archived, in the order of their numbers.
\<close>

theorem published_once:
  assumes "(stream_step type_name)\<^sup>*\<^sup>* (streaming_init v) s"
  shows "map ev_sequence (sm_envelopes s) = [1..<Suc (length (sm_envelopes s))] \<and> distinct (stream_keys s) \<and>
    (k \<in> set (stream_keys s) \<longleftrightarrow> publish_once type_name bus now e (Some k) s = (Inr None, s)) \<and>
    sorted_wrt (\<lambda>a b. ev_sequence a < ev_sequence b) (replay_envelopes n s)"
proof -
  have ok: "streaming_ok s" using assms by (rule stream_reachable_ok)
  then have seq: "map ev_sequence (sm_envelopes s) = [1..<sm_next_sequence s]" and pos: "0 < sm_next_sequence s"
    by (simp_all add: streaming_ok_def)
  have "sm_next_sequence s = Suc (length (sm_envelopes s))" using arg_cong [OF seq, of length] pos by simp
  then have numbers: "map ev_sequence (sm_envelopes s) = [1..<Suc (length (sm_envelopes s))]" using seq by (simp del: upt_Suc)
  have keys: "k \<in> set (stream_keys s) \<longleftrightarrow> key_seen (Some k) s" using ok by (simp add: streaming_ok_def key_seen_def)
  have "\<not> key_seen (Some k) s \<Longrightarrow> publish_once type_name bus now e (Some k) s \<noteq> (Inr None, s)"
    by (auto simp: publish_once_def split: sum.splits prod.splits)
  then have once: "k \<in> set (stream_keys s) \<longleftrightarrow> publish_once type_name bus now e (Some k) s = (Inr None, s)"
    unfolding keys by (auto simp: publish_once_def)
  have "sorted_wrt (<) (map ev_sequence (sm_envelopes s))" unfolding seq by simp
  then have "sorted_wrt (\<lambda>a b. ev_sequence a < ev_sequence b) (sm_envelopes s)" by (simp add: sorted_wrt_map)
  then have "sorted_wrt (\<lambda>a b. ev_sequence a < ev_sequence b) (replay_envelopes n s)"
    unfolding replay_envelopes_def by (rule sorted_wrt_filter)
  then show ?thesis using numbers ok once by (simp add: streaming_ok_def del: upt_Suc)
qed

lemma published_once_witness:
  "let s = snd (publish_once (\<lambda>e. ''Paid'') (Inr ()) 0 (7::int) (Some ''k'') (streaming_init 1)) in
   publish_once (\<lambda>e. ''Paid'') (Inr ()) 1 7 (Some ''k'') s = (Inr None, s) \<and> length (sm_envelopes s) = 1"
proof -
  let ?s = "snd (publish_once (\<lambda>e. ''Paid'') (Inr ()) 0 (7::int) (Some ''k'') (streaming_init 1))"
  have "stream_step (\<lambda>e. ''Paid'') (streaming_init 1) ?s" by (rule stream_step.publish [OF prod.collapse [symmetric]])
  then have r: "(stream_step (\<lambda>e. ''Paid''))\<^sup>*\<^sup>* (streaming_init 1) ?s" by blast
  have "''k'' \<in> set (stream_keys ?s)" and "length (sm_envelopes ?s) = 1"
    by (simp_all add: publish_once_def key_seen_def streaming_init_def record_envelope_def stream_keys_def List.map_filter_simps Let_def)
  then show ?thesis using published_once [OF r, of "''k''" "Inr ()" 1 7] unfolding Let_def by blast
qed

text \<open>
  Two publications of one key at the same time are both recorded: each looks the key up before the other
  records it.
\<close>

theorem concurrent_publications_twice:
  "let s = streaming_init v;
       s1 = snd (record_envelope type_name now e (Some k) s); s2 = snd (record_envelope type_name now2 e (Some k) s1) in
   \<not> key_seen (Some k) s \<and> stream_keys s2 = [k, k]"
  by (simp add: streaming_init_def key_seen_def record_envelope_def stream_keys_def List.map_filter_simps Let_def)

end
