(* ===== verification/Orchestrator.thy ===== *)
theory Orchestrator
  imports RetriedWork
begin

text \<open>
  The runtime orchestrator (\<^verbatim>\<open>runtime_platform/runtime_orchestrator\<close>): tasks with dependencies and priorities,
  run by coroutines that share a semaphore, cancelled and resumed. A coroutine is a number; its steps
  are those between two points where it awaits something, and the steps of all coroutines interleave.
\<close>

section \<open>Tasks\<close>

datatype runtime_status = RT_PENDING | RT_RUNNING | RT_DONE | RT_FAILED | RT_CANCELLED

record runtime_task =
  rt_id :: pystr
  rt_name :: pystr
  rt_priority :: int
  rt_depends_on :: "pystr set"
  rt_status :: runtime_status
  rt_checkpoint :: int
  rt_firm_id :: "pystr option"
  rt_created_at :: datetime
  rt_started_at :: "datetime option"
  rt_completed_at :: "datetime option"
  rt_error :: "pystr option"

text \<open>
  Tasks are objects that a coroutine keeps a reference to while it waits and while it runs, and that the
  store may replace meanwhile by another of the same id: \<open>or_heap\<close> are the objects made so far, an object
  is its position there, and the store maps an id to an object.

  \<open>or_waiting\<close> are the coroutines of \<open>run\<close> that wait for the semaphore, in order; \<open>or_holding\<close> those that
  have entered it, each with its task; \<open>or_running\<close> the dictionary of the asyncio tasks that can be
  cancelled, by the id of the task, and \<open>or_cancelling\<close> the coroutines whose asyncio task was told to stop.
\<close>

record orchestrator =
  or_heap :: "runtime_task list"
  or_tasks :: "(pystr, nat) dict"
  or_free :: nat
  or_waiting :: "(nat \<times> nat) list"
  or_holding :: "(nat \<times> nat) list"
  or_running :: "(pystr, nat) dict"
  or_cancelling :: "nat set"

definition orchestrator_init :: "nat \<Rightarrow> orchestrator" where
  "orchestrator_init max_parallelism = \<lparr>or_heap = [], or_tasks = [], or_free = max_parallelism, or_waiting = [],
     or_holding = [], or_running = [], or_cancelling = {}\<rparr>"

definition task_at :: "orchestrator \<Rightarrow> nat \<Rightarrow> runtime_task" where
  "task_at s a = or_heap s ! a"

definition set_task :: "nat \<Rightarrow> runtime_task \<Rightarrow> orchestrator \<Rightarrow> orchestrator" where
  "set_task a t s = s\<lparr>or_heap := (or_heap s)[a := t]\<rparr>"

definition save_runtime_task :: "nat \<Rightarrow> orchestrator \<Rightarrow> orchestrator" where
  "save_runtime_task a s = s\<lparr>or_tasks := dict_set (rt_id (task_at s a)) a (or_tasks s)\<rparr>"

definition find_runtime_task :: "orchestrator \<Rightarrow> pystr \<Rightarrow> nat option" where
  "find_runtime_task s k = dict_get (or_tasks s) k"

definition get_runtime_task :: "orchestrator \<Rightarrow> pystr \<Rightarrow> runtime_task option" where
  "get_runtime_task s k = map_option (task_at s) (find_runtime_task s k)"

definition all_runtime_tasks :: "orchestrator \<Rightarrow> runtime_task list" where
  "all_runtime_tasks s = map (task_at s) (dict_values (or_tasks s))"

definition submit_task :: "nat \<Rightarrow> orchestrator \<Rightarrow> orchestrator" where
  "submit_task a s = save_runtime_task a s"

text \<open>The route makes a new task of the id it is given, whatever is stored under it, and submits it.\<close>

definition submit_new :: "runtime_task \<Rightarrow> orchestrator \<Rightarrow> orchestrator" where
  "submit_new t s = submit_task (length (or_heap s)) (s\<lparr>or_heap := or_heap s @ [t]\<rparr>)"

definition done_ids :: "orchestrator \<Rightarrow> pystr set" where
  "done_ids s = set (map rt_id (filter (\<lambda>t. rt_status t = RT_DONE) (all_runtime_tasks s)))"

definition ready_tasks :: "orchestrator \<Rightarrow> runtime_task list" where
  "ready_tasks s =
     sort_key (\<lambda>t. (- rt_priority t, rt_created_at t))
       (filter (\<lambda>t. rt_status t = RT_PENDING \<and> rt_depends_on t \<subseteq> done_ids s) (all_runtime_tasks s))"

section \<open>The coroutine of a run\<close>

text \<open>Up to the semaphore: the task is looked up now, and kept.\<close>

definition run_begin :: "nat \<Rightarrow> pystr \<Rightarrow> orchestrator \<Rightarrow> orchestrator result" where
  "run_begin co k s =
     (case find_runtime_task s k of
        None \<Rightarrow> Inl (KeyError k)
      | Some a \<Rightarrow> Inr (s\<lparr>or_waiting := or_waiting s @ [(co, a)]\<rparr>))"

text \<open>
  The first in the queue enters when the semaphore is free; the result is the checkpoint that the runner
  starts from.
\<close>

definition run_enter :: "datetime \<Rightarrow> orchestrator \<Rightarrow> (int \<times> orchestrator) option" where
  "run_enter now s =
     (case or_waiting s of
        [] \<Rightarrow> None
      | (co, a) # later \<Rightarrow>
          if or_free s = 0 then None
          else
            (let t = task_at s a;
                 s1 = s\<lparr>or_free := or_free s - 1, or_waiting := later, or_holding := or_holding s @ [(co, a)]\<rparr>;
                 s2 = save_runtime_task a (set_task a (t\<lparr>rt_status := RT_RUNNING, rt_started_at := Some now\<rparr>) s1)
             in Some (rt_checkpoint t, s2\<lparr>or_running := dict_set (rt_id t) co (or_running s2)\<rparr>)))"

datatype runner_outcome = Ran | Was_cancelled | Runner_raised pyexn

definition ended_task :: "datetime \<Rightarrow> runner_outcome \<Rightarrow> runtime_task \<Rightarrow> runtime_task" where
  "ended_task now r t =
     (case r of
        Ran \<Rightarrow> t\<lparr>rt_status := RT_DONE, rt_completed_at := Some now\<rparr>
      | Was_cancelled \<Rightarrow> t\<lparr>rt_status := RT_CANCELLED, rt_completed_at := Some now\<rparr>
      | Runner_raised e \<Rightarrow> t\<lparr>rt_status := RT_FAILED, rt_error := Some (exn_str e), rt_completed_at := Some now\<rparr>)"

definition run_finish :: "datetime \<Rightarrow> nat \<Rightarrow> nat \<Rightarrow> runner_outcome \<Rightarrow> orchestrator \<Rightarrow> orchestrator" where
  "run_finish now co a r s =
     (let t = task_at s a;
          s1 = set_task a (ended_task now r t) s;
          s2 = save_runtime_task a (s1\<lparr>or_running := dict_pop (rt_id t) (or_running s1)\<rparr>)
      in s2\<lparr>or_free := or_free s2 + 1, or_holding := remove1 (co, a) (or_holding s2)\<rparr>)"

definition cancel_task :: "datetime \<Rightarrow> pystr \<Rightarrow> orchestrator \<Rightarrow> bool \<times> orchestrator" where
  "cancel_task now k s =
     (case dict_get (or_running s) k of
        Some co \<Rightarrow> (True, s\<lparr>or_cancelling := insert co (or_cancelling s)\<rparr>)
      | None \<Rightarrow>
          (case find_runtime_task s k of
             None \<Rightarrow> (False, s)
           | Some a \<Rightarrow>
               if rt_status (task_at s a) = RT_PENDING
               then (True, save_runtime_task a
                       (set_task a ((task_at s a)\<lparr>rt_status := RT_CANCELLED, rt_completed_at := Some now\<rparr>) s))
               else (False, s)))"

definition checkpoint_task :: "pystr \<Rightarrow> int \<Rightarrow> orchestrator \<Rightarrow> orchestrator result" where
  "checkpoint_task k progress s =
     (case find_runtime_task s k of
        None \<Rightarrow> Inl (KeyError k)
      | Some a \<Rightarrow> Inr (save_runtime_task a (set_task a ((task_at s a)\<lparr>rt_checkpoint := progress\<rparr>) s)))"

definition resume_begin :: "nat \<Rightarrow> pystr \<Rightarrow> orchestrator \<Rightarrow> orchestrator result" where
  "resume_begin co k s =
     (case find_runtime_task s k of
        None \<Rightarrow> Inl (KeyError k)
      | Some a \<Rightarrow> run_begin co k (save_runtime_task a (set_task a ((task_at s a)\<lparr>rt_status := RT_PENDING\<rparr>) s)))"

section \<open>Interleavings\<close>

inductive orchestrator_step :: "orchestrator \<Rightarrow> orchestrator \<Rightarrow> bool" where
  submit: "rt_status t = RT_PENDING \<Longrightarrow> orchestrator_step s (submit_new t s)"
| submit_again: "a < length (or_heap s) \<Longrightarrow> orchestrator_step s (submit_task a s)"
| begin_run: "run_begin co k s = Inr s' \<Longrightarrow> orchestrator_step s s'"
| enter: "run_enter now s = Some (progress, s') \<Longrightarrow> orchestrator_step s s'"
| finish: "(co, a) \<in> set (or_holding s) \<Longrightarrow> orchestrator_step s (run_finish now co a r s)"
| cancel: "cancel_task now k s = (b, s') \<Longrightarrow> orchestrator_step s s'"
| checkpoint: "checkpoint_task k progress s = Inr s' \<Longrightarrow> orchestrator_step s s'"
| resume: "resume_begin co k s = Inr s' \<Longrightarrow> orchestrator_step s s'"

text \<open>A task that is marked as running is held by a coroutine; whatever is held, awaited or stored exists.\<close>

definition orchestrator_ok :: "nat \<Rightarrow> orchestrator \<Rightarrow> bool" where
  "orchestrator_ok n s \<longleftrightarrow>
     distinct (dict_keys (or_tasks s)) \<and>
     (\<forall>k a. dict_get (or_tasks s) k = Some a \<longrightarrow> a < length (or_heap s) \<and> rt_id (task_at s a) = k) \<and>
     or_free s + length (or_holding s) = n \<and>
     (\<forall>a < length (or_heap s). rt_status (task_at s a) = RT_RUNNING \<longrightarrow> a \<in> snd ` set (or_holding s)) \<and>
     (\<forall>a \<in> snd ` (set (or_holding s) \<union> set (or_waiting s)). a < length (or_heap s))"

lemmas orch_simps = task_at_def set_task_def find_runtime_task_def get_runtime_task_def

lemma task_at_set: "a < length (or_heap s) \<Longrightarrow> task_at (set_task a t s) b = (if b = a then t else task_at s b)"
  by (simp add: orch_simps nth_list_update)

lemma heap_ops [simp]:
  "or_heap (save_runtime_task a s) = or_heap s" "length (or_heap (set_task a t s)) = length (or_heap s)"
  "task_at (save_runtime_task a s) b = task_at s b"
  "task_at (s\<lparr>or_free := f\<rparr>) b = task_at s b" "task_at (s\<lparr>or_waiting := w\<rparr>) b = task_at s b"
  "task_at (s\<lparr>or_holding := w\<rparr>) b = task_at s b" "task_at (s\<lparr>or_running := r\<rparr>) b = task_at s b"
  "task_at (s\<lparr>or_cancelling := c\<rparr>) b = task_at s b" "task_at (s\<lparr>or_tasks := d\<rparr>) b = task_at s b"
  by (simp_all add: save_runtime_task_def orch_simps)

lemma other_fields [simp]:
  "or_free (save_runtime_task a s) = or_free s" "or_waiting (save_runtime_task a s) = or_waiting s"
  "or_holding (save_runtime_task a s) = or_holding s" "or_running (save_runtime_task a s) = or_running s"
  "or_free (set_task a t s) = or_free s" "or_waiting (set_task a t s) = or_waiting s"
  "or_holding (set_task a t s) = or_holding s" "or_running (set_task a t s) = or_running s"
  "or_tasks (set_task a t s) = or_tasks s" "or_tasks (save_runtime_task a s) = dict_set (rt_id (task_at s a)) a (or_tasks s)"
  by (simp_all add: save_runtime_task_def set_task_def)

lemma running_ok [simp]:
  "orchestrator_ok n (s\<lparr>or_running := r\<rparr>) = orchestrator_ok n s"
  "orchestrator_ok n (s\<lparr>or_cancelling := c\<rparr>) = orchestrator_ok n s"
  by (simp_all add: orchestrator_ok_def)

lemma distinct_keys_set: "distinct (dict_keys d) \<Longrightarrow> distinct (dict_keys (dict_set k v d))"
  by (rule distinct_update)

lemma save_ok: "orchestrator_ok n s \<Longrightarrow> a < length (or_heap s) \<Longrightarrow> orchestrator_ok n (save_runtime_task a s)"
  by (auto simp: orchestrator_ok_def update_conv distinct_keys_set split: if_splits)

text \<open>A change of one task, which keeps its id and does not make it run, keeps the invariant.\<close>

lemma set_task_ok:
  assumes "orchestrator_ok n s" and "a < length (or_heap s)" and "rt_id t = rt_id (task_at s a)"
    and "rt_status t = RT_RUNNING \<Longrightarrow> a \<in> snd ` set (or_holding s)"
  shows "orchestrator_ok n (set_task a t s)"
  using assms by (auto simp: orchestrator_ok_def task_at_set)

lemma change_ok:
  assumes "orchestrator_ok n s" and "a < length (or_heap s)" and "rt_id t = rt_id (task_at s a)"
    and "rt_status t = RT_RUNNING \<Longrightarrow> a \<in> snd ` set (or_holding s)"
  shows "orchestrator_ok n (save_runtime_task a (set_task a t s))"
  by (rule save_ok [OF set_task_ok [OF assms]]) (simp_all add: assms(2))

lemma find_in_heap: "orchestrator_ok n s \<Longrightarrow> find_runtime_task s k = Some a \<Longrightarrow> a < length (or_heap s)"
  by (auto simp: orchestrator_ok_def find_runtime_task_def)

lemma run_begin_ok:
  assumes "orchestrator_ok n s" and "run_begin co k s = Inr s'"
  shows "orchestrator_ok n s'"
proof -
  obtain a where "find_runtime_task s k = Some a" "s' = s\<lparr>or_waiting := or_waiting s @ [(co, a)]\<rparr>"
    using assms(2) by (auto simp: run_begin_def split: option.splits)
  then show ?thesis using assms(1) find_in_heap [OF assms(1)]
    by (simp add: orchestrator_ok_def image_Un ball_Un)
qed

lemma submit_new_ok:
  assumes ok: "orchestrator_ok n s" and t: "rt_status t \<noteq> RT_RUNNING"
  shows "orchestrator_ok n (submit_new t s)"
proof -
  let ?s = "s\<lparr>or_heap := or_heap s @ [t]\<rparr>"
  have at: "task_at ?s a = (if a < length (or_heap s) then task_at s a else t)" if "a \<le> length (or_heap s)" for a
    using that by (simp add: task_at_def nth_append)
  have "orchestrator_ok n ?s" unfolding orchestrator_ok_def
  proof (intro conjI allI impI ballI)
    fix k a assume "dict_get (or_tasks ?s) k = Some a"
    then have "a < length (or_heap s) \<and> rt_id (task_at s a) = k" using ok by (simp add: orchestrator_ok_def)
    then show "a < length (or_heap ?s)" and "rt_id (task_at ?s a) = k" by (simp_all add: at)
  next
    fix a assume "a < length (or_heap ?s)" and "rt_status (task_at ?s a) = RT_RUNNING"
    then show "a \<in> snd ` set (or_holding ?s)" using ok t by (auto simp: at orchestrator_ok_def split: if_splits)
  next
    fix a assume "a \<in> snd ` (set (or_holding ?s) \<union> set (or_waiting ?s))"
    then have "a \<in> snd ` (set (or_holding s) \<union> set (or_waiting s))" by simp
    then have "a < length (or_heap s)" using ok unfolding orchestrator_ok_def by blast
    then show "a < length (or_heap ?s)" by simp
  qed (use ok in \<open>simp_all add: orchestrator_ok_def\<close>)
  then show ?thesis unfolding submit_new_def submit_task_def by (rule save_ok) simp
qed

lemma orchestrator_step_ok:
  assumes "orchestrator_step s s'" and ok: "orchestrator_ok n s"
  shows "orchestrator_ok n s'"
  using assms(1)
proof cases
  case (submit t)
  then show ?thesis using submit_new_ok [OF ok] by simp
next
  case (submit_again a)
  then show ?thesis using save_ok [OF ok] by (simp add: submit_task_def)
next
  case (begin_run co k)
  then show ?thesis using run_begin_ok [OF ok] by blast
next
  case (enter now progress)
  obtain co a later where w: "or_waiting s = (co, a) # later" using enter by (auto simp: run_enter_def split: list.splits)
  then have free: "0 < or_free s" using enter by (auto simp: run_enter_def split: if_splits)
  have a: "a < length (or_heap s)" using ok w by (simp add: orchestrator_ok_def)
  let ?s1 = "s\<lparr>or_free := or_free s - 1, or_waiting := later, or_holding := or_holding s @ [(co, a)]\<rparr>"
  let ?s2 = "save_runtime_task a (set_task a ((task_at s a)\<lparr>rt_status := RT_RUNNING, rt_started_at := Some now\<rparr>) ?s1)"
  have "orchestrator_ok n ?s1" using ok w free a by (auto simp: orchestrator_ok_def)
  then have "orchestrator_ok n ?s2" by (rule change_ok) (simp_all add: a)
  moreover have "s' = ?s2\<lparr>or_running := dict_set (rt_id (task_at s a)) co (or_running s)\<rparr>"
    using enter free by (simp add: run_enter_def w Let_def)
  ultimately show ?thesis by (simp only: running_ok)
next
  case (finish co a now r)
  have "a \<in> snd ` (set (or_holding s) \<union> set (or_waiting s))" using finish(2) by (simp add: image_Un rev_image_eqI)
  then have a: "a < length (or_heap s)" using ok unfolding orchestrator_ok_def by blast
  let ?t = "ended_task now r (task_at s a)"
  have t: "rt_id ?t = rt_id (task_at s a)" "rt_status ?t \<noteq> RT_RUNNING"
    by (simp_all add: ended_task_def split: runner_outcome.split)
  let ?s1 = "save_runtime_task a (set_task a ?t s)"
  have ok1: "orchestrator_ok n ?s1" by (rule change_ok [OF ok a]) (simp_all add: t)
  have idle: "rt_status (task_at ?s1 a) \<noteq> RT_RUNNING" using t by (simp add: task_at_set a)
  have s': "s' = ?s1\<lparr>or_running := dict_pop (rt_id (task_at s a)) (or_running s), or_free := or_free s + 1,
      or_holding := remove1 (co, a) (or_holding s)\<rparr>"
    unfolding finish(1) run_finish_def Let_def save_runtime_task_def by simp
  have len: "Suc (length (remove1 (co, a) (or_holding s))) = length (or_holding s)"
    using finish(2) by (simp add: length_remove1) (metis Suc_pred length_pos_if_in_set)
  have other: "b \<in> snd ` set (remove1 (co, a) (or_holding s))" if "b \<in> snd ` set (or_holding s)" "b \<noteq> a" for b
  proof -
    have "\<exists>c. (c, b) \<in> set (or_holding s)" using that(1) by force
    then obtain c where "(c, b) \<in> set (or_holding s)" ..
    then have "(c, b) \<in> set (remove1 (co, a) (or_holding s))" using that(2) by (simp add: in_set_remove1)
    then show ?thesis by force
  qed
  have sub: "set (remove1 (co, a) (or_holding s)) \<subseteq> set (or_holding s)" by (rule set_remove1_subset)
  have run: "b \<in> snd ` set (remove1 (co, a) (or_holding s))"
    if "b < length (or_heap ?s1)" "rt_status (task_at ?s1 b) = RT_RUNNING" for b
  proof (rule other)
    have "b \<in> snd ` set (or_holding ?s1)" using ok1 that unfolding orchestrator_ok_def by blast
    then show "b \<in> snd ` set (or_holding s)" by simp
    show "b \<noteq> a" using that(2) idle by metis
  qed
  have awaited: "b < length (or_heap ?s1)"
    if "b \<in> snd ` (set (remove1 (co, a) (or_holding s)) \<union> set (or_waiting ?s1))" for b
  proof -
    have "b \<in> snd ` (set (or_holding ?s1) \<union> set (or_waiting ?s1))" using that sub by auto
    then show ?thesis using ok1 unfolding orchestrator_ok_def by blast
  qed
  have "or_free s + length (or_holding s) = n" using ok by (simp add: orchestrator_ok_def)
  then have places: "or_free s + 1 + length (remove1 (co, a) (or_holding s)) = n" using len by linarith
  have "distinct (dict_keys (or_tasks ?s1))"
    and "\<forall>k b. dict_get (or_tasks ?s1) k = Some b \<longrightarrow> b < length (or_heap ?s1) \<and> rt_id (task_at ?s1 b) = k"
    using ok1 unfolding orchestrator_ok_def by blast+
  then show ?thesis unfolding s' orchestrator_ok_def
    by (intro conjI allI ballI impI) (use places run awaited in simp_all)
next
  case (cancel now k b)
  show ?thesis
  proof (cases "s' = s \<or> (\<exists>co. s' = s\<lparr>or_cancelling := insert co (or_cancelling s)\<rparr>)")
    case True
    then show ?thesis using ok by (elim disjE exE) simp_all
  next
    case False
    then obtain a where "find_runtime_task s k = Some a"
      and s': "s' = save_runtime_task a (set_task a ((task_at s a)\<lparr>rt_status := RT_CANCELLED, rt_completed_at := Some now\<rparr>) s)"
      using cancel by (auto simp: cancel_task_def split: option.splits if_splits)
    then show ?thesis unfolding s' using find_in_heap [OF ok] by (intro change_ok [OF ok]) simp_all
  qed
next
  case (checkpoint k progress)
  then obtain a where f: "find_runtime_task s k = Some a"
    and s': "s' = save_runtime_task a (set_task a ((task_at s a)\<lparr>rt_checkpoint := progress\<rparr>) s)"
    by (auto simp: checkpoint_task_def split: option.splits)
  show ?thesis unfolding s' by (rule change_ok [OF ok find_in_heap [OF ok f]])
    (use ok find_in_heap [OF ok f] in \<open>simp_all add: orchestrator_ok_def\<close>)
next
  case (resume co k)
  then obtain a where f: "find_runtime_task s k = Some a"
    and r: "run_begin co k (save_runtime_task a (set_task a ((task_at s a)\<lparr>rt_status := RT_PENDING\<rparr>) s)) = Inr s'"
    by (auto simp: resume_begin_def split: option.splits)
  have "orchestrator_ok n (save_runtime_task a (set_task a ((task_at s a)\<lparr>rt_status := RT_PENDING\<rparr>) s))"
    by (rule change_ok [OF ok find_in_heap [OF ok f]]) simp_all
  then show ?thesis using r by (rule run_begin_ok)
qed

lemma orchestrator_reachable_ok: "orchestrator_step\<^sup>*\<^sup>* (orchestrator_init n) s \<Longrightarrow> orchestrator_ok n s"
proof (induction rule: rtranclp_induct)
  case base
  show ?case by (simp add: orchestrator_ok_def orchestrator_init_def)
qed (rule orchestrator_step_ok)

lemma running_few:
  assumes ok: "orchestrator_ok n s" and d: "distinct as" and sub: "\<And>a. a \<in> set as \<Longrightarrow> a < length (or_heap s)"
  shows "length (filter (\<lambda>t. rt_status t = RT_RUNNING) (map (task_at s) as)) \<le> n"
proof -
  let ?run = "filter (\<lambda>a. rt_status (task_at s a) = RT_RUNNING) as"
  have "length (filter (\<lambda>t. rt_status t = RT_RUNNING) (map (task_at s) as)) = length ?run"
    by (simp add: filter_map comp_def)
  also have "\<dots> = card (set ?run)" using d by (intro distinct_card [symmetric]) simp
  also have "\<dots> \<le> card (snd ` set (or_holding s))"
    by (rule card_mono) (use ok sub in \<open>auto simp: orchestrator_ok_def\<close>)
  also have "\<dots> \<le> length (or_holding s)" by (metis card_length length_map set_map)
  finally show ?thesis using ok by (simp add: orchestrator_ok_def)
qed

section \<open>Properties\<close>

text \<open>
  C39. However submissions, runs, ends, cancellations, checkpoints and resumptions interleave, at most as many
  runners are active as the parallelism allows, and at most so many tasks are marked as running, of
  those stored as of all that were ever made, each of them by a coroutine that is really in its
  runner; a run that waits enters as soon as fewer are active.
\<close>

theorem parallelism_bounded:
  assumes "orchestrator_step\<^sup>*\<^sup>* (orchestrator_init n) s"
  shows "length (or_holding s) \<le> n \<and>
    length (filter (\<lambda>t. rt_status t = RT_RUNNING) (or_heap s)) \<le> n \<and>
    length (filter (\<lambda>t. rt_status t = RT_RUNNING) (all_runtime_tasks s)) \<le> n \<and>
    (\<forall>t \<in> set (all_runtime_tasks s). t \<in> set (or_heap s)) \<and>
    (\<forall>a < length (or_heap s). rt_status (or_heap s ! a) = RT_RUNNING \<longrightarrow> (\<exists>co. (co, a) \<in> set (or_holding s))) \<and>
    (or_waiting s \<noteq> [] \<longrightarrow> length (or_holding s) < n \<longrightarrow> (\<exists>progress s'. run_enter now s = Some (progress, s')))"
proof (intro conjI)
  have ok: "orchestrator_ok n s" using assms by (rule orchestrator_reachable_ok)
  have keys: "distinct (dict_keys (or_tasks s))"
    and stored: "\<And>k a. dict_get (or_tasks s) k = Some a \<Longrightarrow> a < length (or_heap s) \<and> rt_id (task_at s a) = k"
    and free: "or_free s + length (or_holding s) = n"
    and held: "\<And>a. a < length (or_heap s) \<Longrightarrow> rt_status (task_at s a) = RT_RUNNING \<Longrightarrow> a \<in> snd ` set (or_holding s)"
    using ok by (auto simp: orchestrator_ok_def)
  show "length (or_holding s) \<le> n" using free by simp
  have "map (task_at s) [0..<length (or_heap s)] = or_heap s" by (rule nth_equalityI) (simp_all add: task_at_def)
  then show "length (filter (\<lambda>t. rt_status t = RT_RUNNING) (or_heap s)) \<le> n"
    using running_few [OF ok, of "[0..<length (or_heap s)]"] by simp
  have entry: "a < length (or_heap s) \<and> rt_id (task_at s a) = k" if "(k, a) \<in> set (or_tasks s)" for k a
    using stored map_of_is_SomeI [OF keys that] by blast
  then have dist: "distinct (dict_values (or_tasks s))"
    using keys by (auto simp: distinct_map inj_on_def) (metis prod.inject)
  have sub: "a < length (or_heap s)" if "a \<in> set (dict_values (or_tasks s))" for a using that entry by auto
  show "length (filter (\<lambda>t. rt_status t = RT_RUNNING) (all_runtime_tasks s)) \<le> n"
    unfolding all_runtime_tasks_def by (rule running_few [OF ok dist sub])
  show "\<forall>t \<in> set (all_runtime_tasks s). t \<in> set (or_heap s)" using sub by (auto simp: all_runtime_tasks_def task_at_def)
  show "\<forall>a < length (or_heap s). rt_status (or_heap s ! a) = RT_RUNNING \<longrightarrow> (\<exists>co. (co, a) \<in> set (or_holding s))"
    using held by (fastforce simp: task_at_def)
  show "or_waiting s \<noteq> [] \<longrightarrow> length (or_holding s) < n \<longrightarrow> (\<exists>progress s'. run_enter now s = Some (progress, s'))"
    using free by (cases "or_waiting s") (auto simp: run_enter_def Let_def)
qed

text \<open>
  What may be run next: exactly the pending tasks all of whose dependencies are done, those of a higher
  priority first, and of the same priority those created earlier.
\<close>

theorem ready_tasks_exact:
  "set (ready_tasks s) = {t \<in> set (all_runtime_tasks s). rt_status t = RT_PENDING \<and>
      (\<forall>d \<in> rt_depends_on t. \<exists>u \<in> set (all_runtime_tasks s). rt_id u = d \<and> rt_status u = RT_DONE)} \<and>
   sorted_wrt (\<lambda>a b. rt_priority b < rt_priority a \<or> rt_priority a = rt_priority b \<and> rt_created_at a \<le> rt_created_at b) (ready_tasks s)"
proof
  show "set (ready_tasks s) = {t \<in> set (all_runtime_tasks s). rt_status t = RT_PENDING \<and>
      (\<forall>d \<in> rt_depends_on t. \<exists>u \<in> set (all_runtime_tasks s). rt_id u = d \<and> rt_status u = RT_DONE)}"
    by (fastforce simp: ready_tasks_def done_ids_def)
  let ?k = "\<lambda>t. (- rt_priority t, rt_created_at t)"
  have "sorted (map ?k (ready_tasks s))" unfolding ready_tasks_def by (rule sorted_sort_key)
  then have "sorted_wrt (\<lambda>a b. ?k a \<le> ?k b) (ready_tasks s)" by (simp add: sorted_map)
  then show "sorted_wrt (\<lambda>a b. rt_priority b < rt_priority a \<or> rt_priority a = rt_priority b \<and> rt_created_at a \<le> rt_created_at b) (ready_tasks s)"
    by (rule sorted_wrt_mono_rel [rotated]) (auto simp: less_eq_prod_def)
qed

definition demo_task :: "pystr \<Rightarrow> runtime_task" where
  "demo_task k = \<lparr>rt_id = k, rt_name = k, rt_priority = 0, rt_depends_on = {''other''}, rt_status = RT_PENDING, rt_checkpoint = 0,
     rt_firm_id = None, rt_created_at = 0, rt_started_at = None, rt_completed_at = None, rt_error = None\<rparr>"

text \<open>
  A run that waits is not stopped by a cancellation, and no run looks at the dependencies: a task that
  depends on an unknown one, whose cancellation was confirmed, is started all the same.
\<close>

theorem cancelled_task_starts:
  "\<exists>s1 s2 s3. run_begin 0 ''a'' (submit_new (demo_task ''a'') (orchestrator_init 1)) = Inr s1 \<and>
     cancel_task 5 ''a'' s1 = (True, s2) \<and> map_option rt_status (get_runtime_task s2 ''a'') = Some RT_CANCELLED \<and>
     run_enter 6 s2 = Some (0, s3) \<and> map_option rt_status (get_runtime_task s3 ''a'') = Some RT_RUNNING"
  by (simp add: run_begin_def submit_new_def submit_task_def save_runtime_task_def orch_simps orchestrator_init_def demo_task_def cancel_task_def run_enter_def Let_def)

lemma parallelism_bounded_witness:
  "\<exists>s. or_waiting s \<noteq> [] \<and> length (or_holding s) \<le> 1 \<and> run_enter 0 s = None"
proof -
  let ?s0 = "submit_new (demo_task ''a'') (orchestrator_init 1)"
  have "\<exists>s1 s2 p s3. run_begin 0 ''a'' ?s0 = Inr s1 \<and> run_begin 1 ''a'' s1 = Inr s2 \<and> run_enter 0 s2 = Some (p, s3) \<and>
      or_waiting s3 \<noteq> [] \<and> run_enter 0 s3 = None"
    by (simp add: run_begin_def submit_new_def submit_task_def save_runtime_task_def orch_simps orchestrator_init_def demo_task_def run_enter_def Let_def)
  then obtain s1 s2 p s3 where 1: "run_begin 0 ''a'' ?s0 = Inr s1" and 2: "run_begin 1 ''a'' s1 = Inr s2"
    and 3: "run_enter 0 s2 = Some (p, s3)" and e: "or_waiting s3 \<noteq> []" "run_enter 0 s3 = None" by blast
  have "orchestrator_step (orchestrator_init 1) ?s0"
    by (rule orchestrator_step.submit) (simp add: demo_task_def)
  then have r: "orchestrator_step\<^sup>*\<^sup>* (orchestrator_init 1) s3"
    using orchestrator_step.begin_run [OF 1] orchestrator_step.begin_run [OF 2] orchestrator_step.enter [OF 3]
    by (meson r_into_rtranclp rtranclp_trans)
  show ?thesis using parallelism_bounded [OF r] e by blast
qed

end
