(* ===== verification/Knowledge.thy ===== *)
theory Knowledge
  imports Authorization PyFloat
begin

text \<open>
  The knowledge of a firm (\<^verbatim>\<open>cabinet_knowledge\<close>): the objects of a firm (\<^verbatim>\<open>knowledge\<close>), the lifecycle of
  their status (\<^verbatim>\<open>governance\<close>), the requests by which people validate them (\<^verbatim>\<open>validation\<close>), their
  publication (\<^verbatim>\<open>approval\<close>), feedback and the revisions made of it (\<^verbatim>\<open>feedback\<close>), and where they come
  from (\<^verbatim>\<open>lineage\<close>). The content of an object is whatever the caller has.
\<close>

section \<open>Knowledge objects\<close>

datatype knowledge_type =
    KT_PLAYBOOK | KT_CLAUSE | KT_TEMPLATE | KT_REASONING_PATTERN | KT_WRITING_STYLE | KT_BEST_PRACTICE
  | KT_LESSON_LEARNED | KT_NOTE | KT_CHECKLIST | KT_GUIDE | KT_INTERNAL_RULE | KT_JURISPRUDENCE_NOTE
  | KT_COMMENT | KT_DECISION | KT_CONTRACT

datatype knowledge_status = KS_DRAFT | KS_IN_REVIEW | KS_VALIDATED | KS_OBSOLETE | KS_ARCHIVED

fun knowledge_status_value :: "knowledge_status \<Rightarrow> pystr" where
  "knowledge_status_value KS_DRAFT = ''draft''"
| "knowledge_status_value KS_IN_REVIEW = ''in_review''"
| "knowledge_status_value KS_VALIDATED = ''validated''"
| "knowledge_status_value KS_OBSOLETE = ''obsolete''"
| "knowledge_status_value KS_ARCHIVED = ''archived''"

record 'c knowledge_object =
  ko_id :: pystr
  ko_firm_id :: pystr
  ko_type :: knowledge_type
  ko_title :: pystr
  ko_content :: 'c
  ko_author :: pystr
  ko_created_at :: datetime
  ko_updated_at :: datetime
  ko_version :: int
  ko_status :: knowledge_status
  ko_quality_score :: pyfloat
  ko_tags :: "pystr set"
  ko_relations :: "pystr list"
  ko_is_published :: bool
  ko_usage_count :: int

type_synonym 'c knowledge_space = "(pystr, 'c knowledge_object) dict"

definition knowledge_save :: "'c knowledge_object \<Rightarrow> 'c knowledge_space \<Rightarrow> 'c knowledge_space" where
  "knowledge_save x s = dict_set (ko_id x) x s"

definition create_knowledge ::
  "pystr \<Rightarrow> datetime \<Rightarrow> datetime \<Rightarrow> pystr \<Rightarrow> knowledge_type \<Rightarrow> pystr \<Rightarrow> 'c \<Rightarrow> pystr \<Rightarrow> pystr set
     \<Rightarrow> 'c knowledge_space \<Rightarrow> 'c knowledge_object \<times> 'c knowledge_space" where
  "create_knowledge new_id created updated firm ty title content author tags s =
     (let x = \<lparr>ko_id = new_id, ko_firm_id = firm, ko_type = ty, ko_title = title, ko_content = content, ko_author = author,
               ko_created_at = created, ko_updated_at = updated, ko_version = 1, ko_status = KS_DRAFT, ko_quality_score = Fin 0,
               ko_tags = tags, ko_relations = [], ko_is_published = False, ko_usage_count = 0\<rparr>
      in (x, knowledge_save x s))"

text \<open>Asking for an object of another firm raises, asking for none gives \<open>None\<close>.\<close>

definition knowledge_get :: "pystr \<Rightarrow> pystr \<Rightarrow> 'c knowledge_space \<Rightarrow> 'c knowledge_object option result" where
  "knowledge_get firm k s =
     (case dict_get s k of
        None \<Rightarrow> Inr None
      | Some x \<Rightarrow> res_bind (require_same_firm \<lparr>tn_firm_id = firm, tn_actor_id = ''system''\<rparr> (ko_firm_id x)) (\<lambda>_. Inr (Some x)))"

text \<open>What every operation begins with.\<close>

definition known_object :: "pystr \<Rightarrow> pystr \<Rightarrow> 'c knowledge_space \<Rightarrow> 'c knowledge_object result" where
  "known_object firm k s =
     res_bind (knowledge_get firm k s) (\<lambda>found. case found of None \<Rightarrow> Inl (KeyError k) | Some x \<Rightarrow> Inr x)"

definition list_knowledge ::
  "pystr \<Rightarrow> knowledge_type option \<Rightarrow> knowledge_status option \<Rightarrow> 'c knowledge_space \<Rightarrow> 'c knowledge_object list" where
  "list_knowledge firm ty status s =
     (let objects = filter (\<lambda>x. ko_firm_id x = firm \<and> (case ty of None \<Rightarrow> True | Some t \<Rightarrow> ko_type x = t)) (dict_values s)
      in case status of None \<Rightarrow> objects | Some st \<Rightarrow> filter (\<lambda>x. ko_status x = st) objects)"

definition change_object ::
  "pystr \<Rightarrow> pystr \<Rightarrow> ('c knowledge_object \<Rightarrow> 'c knowledge_object) \<Rightarrow> 'c knowledge_space
     \<Rightarrow> ('c knowledge_object \<times> 'c knowledge_space) result" where
  "change_object firm k f s = res_bind (known_object firm k s) (\<lambda>x. Inr (f x, knowledge_save (f x) s))"

definition update_content ::
  "datetime \<Rightarrow> pystr \<Rightarrow> pystr \<Rightarrow> 'c \<Rightarrow> 'c knowledge_space \<Rightarrow> ('c knowledge_object \<times> 'c knowledge_space) result" where
  "update_content now firm k content s =
     change_object firm k (\<lambda>x. x\<lparr>ko_content := content, ko_version := ko_version x + 1, ko_status := KS_DRAFT,
       ko_is_published := False, ko_updated_at := now\<rparr>) s"

definition add_tags ::
  "datetime \<Rightarrow> pystr \<Rightarrow> pystr \<Rightarrow> pystr set \<Rightarrow> 'c knowledge_space \<Rightarrow> ('c knowledge_object \<times> 'c knowledge_space) result" where
  "add_tags now firm k tags s = change_object firm k (\<lambda>x. x\<lparr>ko_tags := ko_tags x \<union> tags, ko_updated_at := now\<rparr>) s"

definition set_quality_score ::
  "pystr \<Rightarrow> pystr \<Rightarrow> pyfloat \<Rightarrow> 'c knowledge_space \<Rightarrow> ('c knowledge_object \<times> 'c knowledge_space) result" where
  "set_quality_score firm k score s = change_object firm k (\<lambda>x. x\<lparr>ko_quality_score := score\<rparr>) s"

definition set_knowledge_status ::
  "datetime \<Rightarrow> pystr \<Rightarrow> pystr \<Rightarrow> knowledge_status \<Rightarrow> 'c knowledge_space \<Rightarrow> ('c knowledge_object \<times> 'c knowledge_space) result" where
  "set_knowledge_status now firm k status s =
     change_object firm k (\<lambda>x. x\<lparr>ko_status := status,
       ko_is_published := (if status \<noteq> KS_VALIDATED then False else ko_is_published x), ko_updated_at := now\<rparr>) s"

definition record_knowledge_usage ::
  "pystr \<Rightarrow> pystr \<Rightarrow> 'c knowledge_space \<Rightarrow> ('c knowledge_object \<times> 'c knowledge_space) result" where
  "record_knowledge_usage firm k s = change_object firm k (\<lambda>x. x\<lparr>ko_usage_count := ko_usage_count x + 1\<rparr>) s"

section \<open>Governance\<close>

fun knowledge_transitions :: "knowledge_status \<Rightarrow> knowledge_status list" where
  "knowledge_transitions KS_DRAFT = [KS_IN_REVIEW]"
| "knowledge_transitions KS_IN_REVIEW = [KS_VALIDATED, KS_DRAFT]"
| "knowledge_transitions KS_VALIDATED = [KS_OBSOLETE, KS_ARCHIVED]"
| "knowledge_transitions KS_OBSOLETE = [KS_ARCHIVED, KS_VALIDATED]"
| "knowledge_transitions KS_ARCHIVED = []"

record governance_event =
  gv_id :: pystr
  gv_firm_id :: pystr
  gv_knowledge_object_id :: pystr
  gv_from_status :: knowledge_status
  gv_to_status :: knowledge_status
  gv_actor :: pystr
  gv_reason :: "pystr option"
  gv_created_at :: datetime

datatype knowledge_decision = KD_APPROVE | KD_REJECT | KD_REQUEST_CHANGES

datatype knowledge_request_status = KR_PENDING | KR_APPROVED | KR_REJECTED | KR_CHANGES_REQUESTED

record knowledge_request =
  kq_id :: pystr
  kq_firm_id :: pystr
  kq_knowledge_object_id :: pystr
  kq_requested_by :: pystr
  kq_requested_at :: datetime
  kq_status :: knowledge_request_status
  kq_reviewer :: "pystr option"
  kq_decided_at :: "datetime option"
  kq_comment :: "pystr option"

record approval_record =
  pu_id :: pystr
  pu_firm_id :: pystr
  pu_knowledge_object_id :: pystr
  pu_approver :: pystr
  pu_created_at :: datetime

datatype feedback_action = FB_ACCEPT | FB_MODIFY | FB_REJECT | FB_ANNOTATE | FB_EXPLAIN

record knowledge_feedback =
  fb_id :: pystr
  fb_firm_id :: pystr
  fb_knowledge_object_id :: pystr
  fb_action :: feedback_action
  fb_author :: pystr
  fb_comment :: pystr
  fb_created_at :: datetime

record lineage_record =
  ln_id :: pystr
  ln_firm_id :: pystr
  ln_knowledge_object_id :: pystr
  ln_source_refs :: "pystr list"
  ln_actor :: pystr
  ln_revised_from_id :: "pystr option"
  ln_created_at :: datetime

text \<open>The stores of the engines together.\<close>

record 'c knowledge_base =
  kb_objects :: "'c knowledge_space"
  kb_events :: "governance_event list"
  kb_requests :: "(pystr, knowledge_request) dict"
  kb_approvals :: "approval_record list"
  kb_feedback :: "knowledge_feedback list"
  kb_lineage :: "lineage_record list"

definition knowledge_base_init :: "'c knowledge_base" where
  "knowledge_base_init = \<lparr>kb_objects = [], kb_events = [], kb_requests = [], kb_approvals = [], kb_feedback = [], kb_lineage = []\<rparr>"

text \<open>The identifiers and clock readings an operation draws, each with its number.\<close>

record knowledge_draws =
  kd_id :: "nat \<Rightarrow> pystr"
  kd_time :: "nat \<Rightarrow> datetime"

definition transition_knowledge ::
  "knowledge_draws \<Rightarrow> pystr \<Rightarrow> pystr \<Rightarrow> knowledge_status \<Rightarrow> pystr \<Rightarrow> pystr option \<Rightarrow> 'c knowledge_base
     \<Rightarrow> ('c knowledge_object \<times> 'c knowledge_base) result" where
  "transition_knowledge d firm k target actor reason kb =
     res_bind (known_object firm k (kb_objects kb)) (\<lambda>x.
       if target \<notin> set (knowledge_transitions (ko_status x))
       then Inl (ValueError (''Cannot transition from '' @ knowledge_status_value (ko_status x) @ '' to '' @ knowledge_status_value target))
       else res_bind (set_knowledge_status (kd_time d 0) firm k target (kb_objects kb)) (\<lambda>(y, objects).
         Inr (y, kb\<lparr>kb_objects := objects, kb_events := kb_events kb @
           [\<lparr>gv_id = kd_id d 0, gv_firm_id = firm, gv_knowledge_object_id = k, gv_from_status = ko_status x, gv_to_status = target,
             gv_actor = actor, gv_reason = reason, gv_created_at = kd_time d 1\<rparr>]\<rparr>)))"

definition governance_history :: "pystr \<Rightarrow> pystr \<Rightarrow> 'c knowledge_base \<Rightarrow> governance_event list" where
  "governance_history firm k kb = filter (\<lambda>e. gv_firm_id e = firm \<and> gv_knowledge_object_id e = k) (kb_events kb)"

section \<open>Validation\<close>

definition submit_for_validation ::
  "knowledge_draws \<Rightarrow> pystr \<Rightarrow> pystr \<Rightarrow> pystr \<Rightarrow> 'c knowledge_base \<Rightarrow> (knowledge_request \<times> 'c knowledge_base) result" where
  "submit_for_validation d firm k requested_by kb =
     res_bind (transition_knowledge d firm k KS_IN_REVIEW requested_by (Some ''soumis pour validation'') kb) (\<lambda>(_, kb1).
       let r = \<lparr>kq_id = kd_id d 1, kq_firm_id = firm, kq_knowledge_object_id = k, kq_requested_by = requested_by,
                kq_requested_at = kd_time d 2, kq_status = KR_PENDING, kq_reviewer = None, kq_decided_at = None, kq_comment = None\<rparr>
       in Inr (r, kb1\<lparr>kb_requests := dict_set (kq_id r) r (kb_requests kb1)\<rparr>))"

fun decision_target :: "knowledge_decision \<Rightarrow> knowledge_status" where
  "decision_target KD_APPROVE = KS_VALIDATED"
| "decision_target KD_REJECT = KS_DRAFT"
| "decision_target KD_REQUEST_CHANGES = KS_DRAFT"

fun decision_status :: "knowledge_decision \<Rightarrow> knowledge_request_status" where
  "decision_status KD_APPROVE = KR_APPROVED"
| "decision_status KD_REJECT = KR_REJECTED"
| "decision_status KD_REQUEST_CHANGES = KR_CHANGES_REQUESTED"

definition decide_knowledge ::
  "knowledge_draws \<Rightarrow> pystr \<Rightarrow> pystr \<Rightarrow> knowledge_decision \<Rightarrow> pystr \<Rightarrow> pystr option \<Rightarrow> 'c knowledge_base
     \<Rightarrow> (knowledge_request \<times> 'c knowledge_base) result" where
  "decide_knowledge d firm request_id decision reviewer comment kb =
     (case dict_get (kb_requests kb) request_id of
        None \<Rightarrow> Inl (KeyError request_id)
      | Some r \<Rightarrow>
          if kq_firm_id r \<noteq> firm then Inl (KeyError request_id)
          else if kq_status r \<noteq> KR_PENDING then Inl (ValueError (''Validation request '' @ request_id @ '' already decided''))
          else res_bind (transition_knowledge d firm (kq_knowledge_object_id r) (decision_target decision) reviewer comment kb) (\<lambda>(_, kb1).
            let r' = r\<lparr>kq_status := decision_status decision, kq_reviewer := Some reviewer, kq_comment := comment,
                       kq_decided_at := Some (kd_time d 2)\<rparr>
            in Inr (r', kb1\<lparr>kb_requests := dict_set (kq_id r') r' (kb_requests kb1)\<rparr>)))"

definition pending_requests :: "pystr \<Rightarrow> 'c knowledge_base \<Rightarrow> knowledge_request list" where
  "pending_requests firm kb = filter (\<lambda>r. kq_firm_id r = firm \<and> kq_status r = KR_PENDING) (dict_values (kb_requests kb))"

section \<open>Publication\<close>

definition is_publishable :: "pystr \<Rightarrow> pystr \<Rightarrow> 'c knowledge_base \<Rightarrow> bool result" where
  "is_publishable firm k kb =
     res_bind (knowledge_get firm k (kb_objects kb)) (\<lambda>found.
       Inr (case found of None \<Rightarrow> False | Some x \<Rightarrow> ko_status x = KS_VALIDATED))"

definition publish_knowledge ::
  "knowledge_draws \<Rightarrow> pystr \<Rightarrow> pystr \<Rightarrow> pystr \<Rightarrow> 'c knowledge_base \<Rightarrow> ('c knowledge_object \<times> 'c knowledge_base) result" where
  "publish_knowledge d firm k approver kb =
     res_bind (known_object firm k (kb_objects kb)) (\<lambda>x.
       if ko_status x \<noteq> KS_VALIDATED
       then Inl (ValueError (k @ '' is '' @ knowledge_status_value (ko_status x) @ '', expected validated''))
       else let x' = x\<lparr>ko_is_published := True\<rparr>
            in Inr (x', kb\<lparr>kb_objects := knowledge_save x' (kb_objects kb), kb_approvals := kb_approvals kb @
                 [\<lparr>pu_id = kd_id d 0, pu_firm_id = firm, pu_knowledge_object_id = k, pu_approver = approver,
                   pu_created_at = kd_time d 0\<rparr>]\<rparr>))"

definition unpublish_knowledge ::
  "pystr \<Rightarrow> pystr \<Rightarrow> 'c knowledge_base \<Rightarrow> ('c knowledge_object \<times> 'c knowledge_base) result" where
  "unpublish_knowledge firm k kb =
     res_bind (change_object firm k (\<lambda>x. x\<lparr>ko_is_published := False\<rparr>) (kb_objects kb)) (\<lambda>(x, objects).
       Inr (x, kb\<lparr>kb_objects := objects\<rparr>))"

definition approval_history :: "pystr \<Rightarrow> pystr \<Rightarrow> 'c knowledge_base \<Rightarrow> approval_record list" where
  "approval_history firm k kb = filter (\<lambda>a. pu_firm_id a = firm \<and> pu_knowledge_object_id a = k) (kb_approvals kb)"

section \<open>Feedback\<close>

definition submit_feedback ::
  "knowledge_draws \<Rightarrow> pystr \<Rightarrow> pystr \<Rightarrow> feedback_action \<Rightarrow> pystr \<Rightarrow> pystr \<Rightarrow> 'c knowledge_base
     \<Rightarrow> (knowledge_feedback \<times> 'c knowledge_base) result" where
  "submit_feedback d firm k action author comment kb =
     res_bind (known_object firm k (kb_objects kb)) (\<lambda>_.
       let f = \<lparr>fb_id = kd_id d 0, fb_firm_id = firm, fb_knowledge_object_id = k, fb_action = action, fb_author = author,
                fb_comment = comment, fb_created_at = kd_time d 0\<rparr>
       in Inr (f, kb\<lparr>kb_feedback := kb_feedback kb @ [f]\<rparr>))"

definition feedback_for :: "pystr \<Rightarrow> pystr \<Rightarrow> 'c knowledge_base \<Rightarrow> knowledge_feedback list" where
  "feedback_for firm k kb = filter (\<lambda>f. fb_firm_id f = firm \<and> fb_knowledge_object_id f = k) (kb_feedback kb)"

definition acceptance_rate :: "pystr \<Rightarrow> pystr \<Rightarrow> 'c knowledge_base \<Rightarrow> pyfloat result" where
  "acceptance_rate firm k kb =
     (let history = feedback_for firm k kb in
      if history = [] then Inr (Fin 1)
      else int_truediv (int (length (filter (\<lambda>f. fb_action f = FB_ACCEPT) history))) (int (length history)))"

text \<open>The content is changed before the object is submitted again: an exception of the latter would leave it changed.\<close>

definition apply_feedback_as_revision ::
  "knowledge_draws \<Rightarrow> datetime \<Rightarrow> pystr \<Rightarrow> pystr \<Rightarrow> 'c \<Rightarrow> pystr \<Rightarrow> 'c knowledge_base
     \<Rightarrow> knowledge_request result \<times> 'c knowledge_base" where
  "apply_feedback_as_revision d now firm feedback_id content reviewer kb =
     (case List.find (\<lambda>f. fb_id f = feedback_id) (kb_feedback kb) of
        None \<Rightarrow> (Inl (KeyError feedback_id), kb)
      | Some f \<Rightarrow>
          if fb_firm_id f \<noteq> firm then (Inl (KeyError feedback_id), kb)
          else if fb_action f \<noteq> FB_MODIFY then (Inl (ValueError ''Only MODIFY feedback can be turned into a revision''), kb)
          else
            (case update_content now firm (fb_knowledge_object_id f) content (kb_objects kb) of
               Inl e \<Rightarrow> (Inl e, kb)
             | Inr (_, objects) \<Rightarrow>
                 let kb1 = kb\<lparr>kb_objects := objects\<rparr> in
                 (case submit_for_validation d firm (fb_knowledge_object_id f) reviewer kb1 of
                    Inl e \<Rightarrow> (Inl e, kb1)
                  | Inr (r, kb2) \<Rightarrow> (Inr r, kb2))))"

section \<open>Lineage\<close>

definition record_origin ::
  "knowledge_draws \<Rightarrow> pystr \<Rightarrow> pystr \<Rightarrow> pystr list \<Rightarrow> pystr \<Rightarrow> pystr option \<Rightarrow> 'c knowledge_base
     \<Rightarrow> (lineage_record \<times> 'c knowledge_base) result" where
  "record_origin d firm k source_refs actor revised_from kb =
     res_bind (known_object firm k (kb_objects kb)) (\<lambda>_.
       let l = \<lparr>ln_id = kd_id d 0, ln_firm_id = firm, ln_knowledge_object_id = k, ln_source_refs = source_refs, ln_actor = actor,
                ln_revised_from_id = revised_from, ln_created_at = kd_time d 0\<rparr>
       in Inr (l, kb\<lparr>kb_lineage := kb_lineage kb @ [l]\<rparr>))"

record lineage_explanation =
  le_knowledge_object_id :: pystr
  le_current_version :: int
  le_origin_records :: "lineage_record list"
  le_governance_events :: "governance_event list"

definition explain_lineage :: "pystr \<Rightarrow> pystr \<Rightarrow> 'c knowledge_base \<Rightarrow> lineage_explanation result" where
  "explain_lineage firm k kb =
     res_bind (known_object firm k (kb_objects kb)) (\<lambda>x.
       Inr \<lparr>le_knowledge_object_id = k, le_current_version = ko_version x,
            le_origin_records = filter (\<lambda>l. ln_firm_id l = firm \<and> ln_knowledge_object_id l = k) (kb_lineage kb),
            le_governance_events = governance_history firm k kb\<rparr>)"

section \<open>Everything that can happen to the knowledge of the firms\<close>

text \<open>
  The operations the engines and routes use; whoever calls them, \<open>GovernanceEngine.transition\<close> and
  \<open>set_status\<close> are called by the validation engine only. An operation that raises leaves the stores as they are.
\<close>

datatype 'c knowledge_op =
    KCreate pystr knowledge_type pystr 'c pystr "pystr set"
  | KUpdate pystr pystr 'c
  | KTag pystr pystr "pystr set"
  | KScore pystr pystr pyfloat
  | KUse pystr pystr
  | KSubmit pystr pystr pystr
  | KDecide pystr pystr knowledge_decision pystr "pystr option"
  | KPublish pystr pystr pystr
  | KUnpublish pystr pystr
  | KFeedback pystr pystr feedback_action pystr pystr
  | KRevise pystr pystr 'c pystr
  | KOrigin pystr pystr "pystr list" pystr "pystr option"

fun knowledge_op_firm :: "'c knowledge_op \<Rightarrow> pystr" where
  "knowledge_op_firm (KCreate firm _ _ _ _ _) = firm"
| "knowledge_op_firm (KUpdate firm _ _) = firm"
| "knowledge_op_firm (KTag firm _ _) = firm"
| "knowledge_op_firm (KScore firm _ _) = firm"
| "knowledge_op_firm (KUse firm _) = firm"
| "knowledge_op_firm (KSubmit firm _ _) = firm"
| "knowledge_op_firm (KDecide firm _ _ _ _) = firm"
| "knowledge_op_firm (KPublish firm _ _) = firm"
| "knowledge_op_firm (KUnpublish firm _) = firm"
| "knowledge_op_firm (KFeedback firm _ _ _ _) = firm"
| "knowledge_op_firm (KRevise firm _ _ _) = firm"
| "knowledge_op_firm (KOrigin firm _ _ _ _) = firm"

definition with_objects :: "('c knowledge_object \<times> 'c knowledge_space) result \<Rightarrow> 'c knowledge_base \<Rightarrow> 'c knowledge_base" where
  "with_objects r kb = (case r of Inl _ \<Rightarrow> kb | Inr (_, objects) \<Rightarrow> kb\<lparr>kb_objects := objects\<rparr>)"

definition or_unchanged :: "('a \<times> 's) result \<Rightarrow> 's \<Rightarrow> 's" where
  "or_unchanged r s = (case r of Inl _ \<Rightarrow> s | Inr (_, s') \<Rightarrow> s')"

fun run_knowledge_op :: "knowledge_draws \<Rightarrow> 'c knowledge_op \<Rightarrow> 'c knowledge_base \<Rightarrow> 'c knowledge_base" where
  "run_knowledge_op d (KCreate firm ty title content author tags) kb =
     kb\<lparr>kb_objects := snd (create_knowledge (kd_id d 0) (kd_time d 0) (kd_time d 1) firm ty title content author tags (kb_objects kb))\<rparr>"
| "run_knowledge_op d (KUpdate firm k content) kb = with_objects (update_content (kd_time d 0) firm k content (kb_objects kb)) kb"
| "run_knowledge_op d (KTag firm k tags) kb = with_objects (add_tags (kd_time d 0) firm k tags (kb_objects kb)) kb"
| "run_knowledge_op d (KScore firm k score) kb = with_objects (set_quality_score firm k score (kb_objects kb)) kb"
| "run_knowledge_op d (KUse firm k) kb = with_objects (record_knowledge_usage firm k (kb_objects kb)) kb"
| "run_knowledge_op d (KSubmit firm k by) kb = or_unchanged (submit_for_validation d firm k by kb) kb"
| "run_knowledge_op d (KDecide firm req decision reviewer comment) kb =
     or_unchanged (decide_knowledge d firm req decision reviewer comment kb) kb"
| "run_knowledge_op d (KPublish firm k approver) kb = or_unchanged (publish_knowledge d firm k approver kb) kb"
| "run_knowledge_op d (KUnpublish firm k) kb = or_unchanged (unpublish_knowledge firm k kb) kb"
| "run_knowledge_op d (KFeedback firm k action author comment) kb = or_unchanged (submit_feedback d firm k action author comment kb) kb"
| "run_knowledge_op d (KRevise firm f content reviewer) kb =
     snd (apply_feedback_as_revision d (kd_time d 3) firm f content reviewer kb)"
| "run_knowledge_op d (KOrigin firm k refs actor from_id) kb = or_unchanged (record_origin d firm k refs actor from_id kb) kb"

text \<open>The identifiers of new objects and requests are new.\<close>

fun fresh_knowledge_draws :: "knowledge_draws \<Rightarrow> 'c knowledge_op \<Rightarrow> 'c knowledge_base \<Rightarrow> bool" where
  "fresh_knowledge_draws d (KCreate _ _ _ _ _ _) kb \<longleftrightarrow> dict_get (kb_objects kb) (kd_id d 0) = None"
| "fresh_knowledge_draws d (KSubmit _ _ _) kb \<longleftrightarrow> dict_get (kb_requests kb) (kd_id d 1) = None"
| "fresh_knowledge_draws d (KRevise _ _ _ _) kb \<longleftrightarrow> dict_get (kb_requests kb) (kd_id d 1) = None"
| "fresh_knowledge_draws d _ kb \<longleftrightarrow> True"

inductive knowledge_trace :: "(knowledge_draws \<times> 'c knowledge_op) list \<Rightarrow> 'c knowledge_base \<Rightarrow> bool" where
  start: "knowledge_trace [] knowledge_base_init"
| op: "knowledge_trace ops kb \<Longrightarrow> fresh_knowledge_draws d x kb \<Longrightarrow> knowledge_trace (ops @ [(d, x)]) (run_knowledge_op d x kb)"

definition knowledge_ok :: "'c knowledge_base \<Rightarrow> bool" where
  "knowledge_ok kb \<longleftrightarrow> keyed ko_id (kb_objects kb) \<and> keyed kq_id (kb_requests kb) \<and>
     (\<forall>k x. dict_get (kb_objects kb) k = Some x \<longrightarrow> ko_status x \<in> {KS_DRAFT, KS_IN_REVIEW, KS_VALIDATED} \<and>
        (ko_is_published x \<longrightarrow> ko_status x = KS_VALIDATED))"

subsection \<open>What an operation does to an object\<close>

lemma known_object_Inr: "known_object firm k s = Inr x \<longleftrightarrow> dict_get s k = Some x \<and> ko_firm_id x = firm"
  by (auto simp: known_object_def knowledge_get_def require_same_firm_def res_bind_Inr_iff split: option.splits if_splits)

lemma change_object_Inr:
  "change_object firm k f s = Inr (y, s') \<longleftrightarrow>
     (\<exists>x. dict_get s k = Some x \<and> ko_firm_id x = firm \<and> y = f x \<and> s' = knowledge_save (f x) s)"
  by (auto simp: change_object_def res_bind_Inr_iff known_object_Inr)

text \<open>
  The changes of one object, with the events they record: a change of what surrounds the content, a publication,
  a demotion, a submission and a decision.
\<close>

inductive object_step ::
  "'c knowledge_base \<Rightarrow> 'c knowledge_op \<Rightarrow> 'c knowledge_object \<Rightarrow> 'c knowledge_object \<Rightarrow> governance_event list \<Rightarrow> bool" for kb where
  edit: "ko_content y = ko_content x \<Longrightarrow> ko_version y = ko_version x \<Longrightarrow> ko_status y = ko_status x \<Longrightarrow>
    (ko_is_published y \<longrightarrow> ko_is_published x) \<Longrightarrow> object_step kb op x y []"
| publish: "ko_status x = KS_VALIDATED \<Longrightarrow>
    object_step kb (KPublish (ko_firm_id x) (ko_id x) approver) x (x\<lparr>ko_is_published := True\<rparr>) []"
| demote: "ko_status y = KS_DRAFT \<Longrightarrow> \<not> ko_is_published y \<Longrightarrow> object_step kb op x y []"
| review: "ko_status y = KS_IN_REVIEW \<Longrightarrow> \<not> ko_is_published y \<Longrightarrow> gv_from_status e = KS_DRAFT \<Longrightarrow>
    gv_to_status e = KS_IN_REVIEW \<Longrightarrow> object_step kb op x y [e]"
| decide: "dict_get (kb_requests kb) req = Some r \<Longrightarrow> kq_firm_id r = ko_firm_id x \<Longrightarrow> kq_status r = KR_PENDING \<Longrightarrow>
    kq_knowledge_object_id r = ko_id x \<Longrightarrow> ko_content y = ko_content x \<Longrightarrow> ko_version y = ko_version x \<Longrightarrow>
    ko_status y = decision_target decision \<Longrightarrow> decision_target decision \<in> set (knowledge_transitions (ko_status x)) \<Longrightarrow>
    (ko_is_published y \<longrightarrow> ko_is_published x \<and> ko_status y = KS_VALIDATED) \<Longrightarrow> gv_from_status e = ko_status x \<Longrightarrow>
    gv_to_status e = ko_status y \<Longrightarrow> object_step kb (KDecide (ko_firm_id x) req decision reviewer comment) x y [e]"

definition knowledge_effect :: "'c knowledge_op \<Rightarrow> 'c knowledge_base \<Rightarrow> 'c knowledge_base \<Rightarrow> bool" where
  "knowledge_effect op kb kb' \<longleftrightarrow>
     (kb_objects kb' = kb_objects kb \<and> kb_events kb' = kb_events kb) \<or>
     (\<exists>y. dict_get (kb_objects kb) (ko_id y) = None \<and> ko_status y = KS_DRAFT \<and> \<not> ko_is_published y \<and>
        kb_objects kb' = knowledge_save y (kb_objects kb) \<and> kb_events kb' = kb_events kb) \<or>
     (\<exists>x y es. dict_get (kb_objects kb) (ko_id x) = Some x \<and> ko_id y = ko_id x \<and> ko_firm_id y = ko_firm_id x \<and>
        ko_firm_id x = knowledge_op_firm op \<and> kb_objects kb' = knowledge_save y (kb_objects kb) \<and> kb_events kb' = kb_events kb @ es \<and>
        (\<forall>e \<in> set es. gv_knowledge_object_id e = ko_id x \<and> gv_firm_id e = ko_firm_id x) \<and> object_step kb op x y es)"

lemma effect_none: "kb_objects kb' = kb_objects kb \<Longrightarrow> kb_events kb' = kb_events kb \<Longrightarrow> knowledge_effect op kb kb'"
  by (simp add: knowledge_effect_def)

lemma effect_change:
  assumes "dict_get (kb_objects kb) (ko_id x) = Some x" "ko_id y = ko_id x" "ko_firm_id y = ko_firm_id x"
    "ko_firm_id x = knowledge_op_firm op" "kb_objects kb' = knowledge_save y (kb_objects kb)" "kb_events kb' = kb_events kb @ es"
    "\<And>e. e \<in> set es \<Longrightarrow> gv_knowledge_object_id e = ko_id x \<and> gv_firm_id e = ko_firm_id x" "object_step kb op x y es"
  shows "knowledge_effect op kb kb'"
  unfolding knowledge_effect_def using assms by blast

lemma knowledge_ok_id: "knowledge_ok kb \<Longrightarrow> dict_get (kb_objects kb) k = Some x \<Longrightarrow> ko_id x = k"
  by (auto simp: knowledge_ok_def dest: keyed_get)

text \<open>A change of the object that records nothing.\<close>

lemma effect_with_objects:
  assumes ok: "knowledge_ok kb" and f: "\<And>x. ko_id (f x) = ko_id x \<and> ko_firm_id (f x) = ko_firm_id x"
    and step: "\<And>x. object_step kb op x (f x) []"
  shows "knowledge_effect op kb (with_objects (change_object (knowledge_op_firm op) k f (kb_objects kb)) kb)"
proof (cases "change_object (knowledge_op_firm op) k f (kb_objects kb)")
  case (Inr p)
  then obtain x where x: "dict_get (kb_objects kb) k = Some x" "ko_firm_id x = knowledge_op_firm op"
      "p = (f x, knowledge_save (f x) (kb_objects kb))"
    by (cases p) (auto simp: change_object_Inr)
  show ?thesis
    by (rule effect_change [of kb x "f x" op _ "[]"])
      (use x f step knowledge_ok_id [OF ok x(1)] Inr in \<open>simp_all add: with_objects_def\<close>)
qed (simp add: with_objects_def effect_none)

lemma transition_knowledge_Inr:
  assumes "transition_knowledge d firm k target actor reason kb = Inr (y, kb')"
  obtains x e where "dict_get (kb_objects kb) k = Some x" and "ko_firm_id x = firm" and "target \<in> set (knowledge_transitions (ko_status x))"
    and "y = x\<lparr>ko_status := target, ko_is_published := (if target \<noteq> KS_VALIDATED then False else ko_is_published x), ko_updated_at := kd_time d 0\<rparr>"
    and "kb' = kb\<lparr>kb_objects := knowledge_save y (kb_objects kb), kb_events := kb_events kb @ [e]\<rparr>"
    and "gv_firm_id e = firm" and "gv_knowledge_object_id e = k" and "gv_from_status e = ko_status x" and "gv_to_status e = target"
proof -
  from assms obtain x where x: "dict_get (kb_objects kb) k = Some x" "ko_firm_id x = firm" and t: "target \<in> set (knowledge_transitions (ko_status x))"
    by (auto simp: transition_knowledge_def res_bind_Inr_iff known_object_Inr split: if_splits)
  let ?y = "x\<lparr>ko_status := target, ko_is_published := (if target \<noteq> KS_VALIDATED then False else ko_is_published x), ko_updated_at := kd_time d 0\<rparr>"
  have set: "set_knowledge_status (kd_time d 0) firm k target (kb_objects kb) = Inr (?y, knowledge_save ?y (kb_objects kb))"
    unfolding set_knowledge_status_def change_object_Inr using x by blast
  have "known_object firm k (kb_objects kb) = Inr x" unfolding known_object_Inr using x by blast
  then have "y = ?y \<and> kb' = kb\<lparr>kb_objects := knowledge_save ?y (kb_objects kb), kb_events := kb_events kb @
      [\<lparr>gv_id = kd_id d 0, gv_firm_id = firm, gv_knowledge_object_id = k, gv_from_status = ko_status x, gv_to_status = target,
        gv_actor = actor, gv_reason = reason, gv_created_at = kd_time d 1\<rparr>]\<rparr>"
    using assms t unfolding transition_knowledge_def by (clarsimp simp: set split del: if_split)
  then show thesis using that [OF x t] by simp
qed

lemma submit_Inr:
  assumes "submit_for_validation d firm k by kb = Inr (r, kb')"
  obtains x y e where "dict_get (kb_objects kb) k = Some x" and "ko_firm_id x = firm" and "ko_status x = KS_DRAFT"
    and "y = x\<lparr>ko_status := KS_IN_REVIEW, ko_is_published := False, ko_updated_at := kd_time d 0\<rparr>"
    and "kb_objects kb' = knowledge_save y (kb_objects kb)" and "kb_events kb' = kb_events kb @ [e]"
    and "kb_requests kb' = dict_set (kd_id d 1) r (kb_requests kb)" and "kq_id r = kd_id d 1"
    and "gv_firm_id e = firm" and "gv_knowledge_object_id e = k" and "gv_from_status e = KS_DRAFT" and "gv_to_status e = KS_IN_REVIEW"
proof -
  from assms obtain y kb1 where t: "transition_knowledge d firm k KS_IN_REVIEW by (Some ''soumis pour validation'') kb = Inr (y, kb1)"
    and r: "kq_id r = kd_id d 1" "kb' = kb1\<lparr>kb_requests := dict_set (kd_id d 1) r (kb_requests kb1)\<rparr>"
    by (auto simp: submit_for_validation_def res_bind_Inr_iff Let_def)
  from t obtain x e where x: "dict_get (kb_objects kb) k = Some x" "ko_firm_id x = firm" "KS_IN_REVIEW \<in> set (knowledge_transitions (ko_status x))"
      "y = x\<lparr>ko_status := KS_IN_REVIEW, ko_is_published := False, ko_updated_at := kd_time d 0\<rparr>"
      "kb1 = kb\<lparr>kb_objects := knowledge_save y (kb_objects kb), kb_events := kb_events kb @ [e]\<rparr>"
      "gv_firm_id e = firm" "gv_knowledge_object_id e = k" "gv_from_status e = ko_status x" "gv_to_status e = KS_IN_REVIEW"
    by (rule transition_knowledge_Inr) simp
  have "ko_status x = KS_DRAFT" using x(3) by (cases "ko_status x") simp_all
  then show thesis using that x r by simp
qed

lemma decide_effect:
  assumes ok: "knowledge_ok kb" and "decide_knowledge d firm req decision reviewer comment kb = Inr (r', kb')"
  shows "knowledge_effect (KDecide firm req decision reviewer comment) kb kb' \<and> (\<exists>r. kb_requests kb' = dict_set (kq_id r) r (kb_requests kb))"
proof -
  from assms(2) obtain r y kb1 where r: "dict_get (kb_requests kb) req = Some r" "kq_firm_id r = firm" "kq_status r = KR_PENDING"
    and t: "transition_knowledge d firm (kq_knowledge_object_id r) (decision_target decision) reviewer comment kb = Inr (y, kb1)"
    and kb': "kb' = kb1\<lparr>kb_requests := dict_set (kq_id r') r' (kb_requests kb1)\<rparr>"
    by (auto simp: decide_knowledge_def res_bind_Inr_iff Let_def split: option.splits if_splits)
  from t obtain x e where x: "dict_get (kb_objects kb) (kq_knowledge_object_id r) = Some x" "ko_firm_id x = firm"
      "decision_target decision \<in> set (knowledge_transitions (ko_status x))"
      "y = x\<lparr>ko_status := decision_target decision,
        ko_is_published := (if decision_target decision \<noteq> KS_VALIDATED then False else ko_is_published x), ko_updated_at := kd_time d 0\<rparr>"
      "kb1 = kb\<lparr>kb_objects := knowledge_save y (kb_objects kb), kb_events := kb_events kb @ [e]\<rparr>"
    and e: "gv_firm_id e = firm" "gv_knowledge_object_id e = kq_knowledge_object_id r" "gv_from_status e = ko_status x"
      "gv_to_status e = decision_target decision"
    by (rule transition_knowledge_Inr)
  have id: "ko_id x = kq_knowledge_object_id r" by (rule knowledge_ok_id [OF ok x(1)])
  have step: "object_step kb (KDecide (ko_firm_id x) req decision reviewer comment) x y [e]"
    by (rule object_step.decide [OF r(1)]) (use r(2-3) x(2-4) e id in auto)
  have "knowledge_effect (KDecide firm req decision reviewer comment) kb kb'"
    by (rule effect_change [of kb x y _ _ "[e]"]) (use x e id kb' step in auto)
  then show ?thesis using kb' x(5) by auto
qed

lemma submit_effect:
  assumes ok: "knowledge_ok kb" and "submit_for_validation d firm k by kb = Inr (r, kb')" and "knowledge_op_firm op = firm"
  shows "knowledge_effect op kb kb' \<and> (\<exists>r. kb_requests kb' = dict_set (kq_id r) r (kb_requests kb))"
proof -
  from assms(2) obtain x y e where x: "dict_get (kb_objects kb) k = Some x" "ko_firm_id x = firm" "ko_status x = KS_DRAFT"
      "y = x\<lparr>ko_status := KS_IN_REVIEW, ko_is_published := False, ko_updated_at := kd_time d 0\<rparr>"
      "kb_objects kb' = knowledge_save y (kb_objects kb)" "kb_events kb' = kb_events kb @ [e]"
      "kb_requests kb' = dict_set (kd_id d 1) r (kb_requests kb)" "kq_id r = kd_id d 1"
    and e: "gv_firm_id e = firm" "gv_knowledge_object_id e = k" "gv_from_status e = KS_DRAFT" "gv_to_status e = KS_IN_REVIEW"
    by (rule submit_Inr)
  have id: "ko_id x = k" by (rule knowledge_ok_id [OF ok x(1)])
  have step: "object_step kb op x y [e]" by (rule object_step.review) (simp_all add: x e)
  have "knowledge_effect op kb kb'" by (rule effect_change [of kb x y _ _ "[e]"]) (use x e id step assms(3) in auto)
  then show ?thesis using x(7,8) by metis
qed

text \<open>A revision is an update and a submission of the same object.\<close>

lemma knowledge_save_twice: "ko_id y = ko_id z \<Longrightarrow> knowledge_save z (knowledge_save y s) = knowledge_save z s"
  by (simp add: knowledge_save_def)

lemma knowledge_get_save: "dict_get (knowledge_save y s) k = (if k = ko_id y then Some y else dict_get s k)"
  by (simp add: knowledge_save_def update_conv)

lemma revise_effect:
  assumes ok: "knowledge_ok kb"
  shows "knowledge_effect (KRevise firm f content reviewer) kb (snd (apply_feedback_as_revision d now firm f content reviewer kb)) \<and>
    (kb_requests (snd (apply_feedback_as_revision d now firm f content reviewer kb)) = kb_requests kb \<or>
     (\<exists>r. kb_requests (snd (apply_feedback_as_revision d now firm f content reviewer kb)) = dict_set (kq_id r) r (kb_requests kb)))"
    (is "knowledge_effect ?op kb ?kb' \<and> ?req")
proof (cases "\<exists>g x s. List.find (\<lambda>g. fb_id g = f) (kb_feedback kb) = Some g \<and> fb_firm_id g = firm \<and> fb_action g = FB_MODIFY \<and>
    update_content now firm (fb_knowledge_object_id g) content (kb_objects kb) = Inr (x, s)")
  case False
  then have "?kb' = kb" by (auto simp: apply_feedback_as_revision_def split: option.splits sum.splits)
  then show ?thesis by (simp add: effect_none)
next
  case True
  then obtain g y s where g: "List.find (\<lambda>g. fb_id g = f) (kb_feedback kb) = Some g" "fb_firm_id g = firm" "fb_action g = FB_MODIFY"
      and u: "update_content now firm (fb_knowledge_object_id g) content (kb_objects kb) = Inr (y, s)" by blast
  let ?k = "fb_knowledge_object_id g"
  obtain x where x: "dict_get (kb_objects kb) ?k = Some x" "ko_firm_id x = firm" "s = knowledge_save y (kb_objects kb)"
      "y = x\<lparr>ko_content := content, ko_version := ko_version x + 1, ko_status := KS_DRAFT, ko_is_published := False, ko_updated_at := now\<rparr>"
    using u by (auto simp: update_content_def change_object_Inr)
  have id: "ko_id x = ?k" by (rule knowledge_ok_id [OF ok x(1)])
  let ?kb1 = "kb\<lparr>kb_objects := s\<rparr>"
  have y: "dict_get s ?k = Some y" "ko_firm_id y = firm" "ko_status y = KS_DRAFT" "ko_id y = ?k" "\<not> ko_is_published y"
    using x id by (simp_all add: knowledge_get_save)
  show ?thesis
  proof (cases "submit_for_validation d firm ?k reviewer ?kb1")
    case (Inl e)
    then have kb': "?kb' = ?kb1" using g u by (simp add: apply_feedback_as_revision_def)
    have "object_step kb ?op x y []" by (rule object_step.demote) (simp_all add: y)
    then have "knowledge_effect ?op kb ?kb1"
      by (intro effect_change [of kb x y _ _ "[]"]) (use x y id in simp_all)
    then show ?thesis unfolding kb' by simp
  next
    case (Inr p)
    obtain r kb2 where sub: "submit_for_validation d firm ?k reviewer ?kb1 = Inr (r, kb2)" using Inr by (cases p) simp
    then have kb': "?kb' = kb2" using g u by (simp add: apply_feedback_as_revision_def)
    from sub obtain x' z e where z: "dict_get (kb_objects ?kb1) ?k = Some x'" "ko_firm_id x' = firm" "ko_status x' = KS_DRAFT"
        "z = x'\<lparr>ko_status := KS_IN_REVIEW, ko_is_published := False, ko_updated_at := kd_time d 0\<rparr>"
        "kb_objects kb2 = knowledge_save z (kb_objects ?kb1)" "kb_events kb2 = kb_events ?kb1 @ [e]"
        "kb_requests kb2 = dict_set (kd_id d 1) r (kb_requests ?kb1)" "kq_id r = kd_id d 1"
      and e: "gv_firm_id e = firm" "gv_knowledge_object_id e = ?k" "gv_from_status e = KS_DRAFT" "gv_to_status e = KS_IN_REVIEW"
      by (rule submit_Inr)
    have "x' = y" using z(1) y(1) by simp
    then have zid: "ko_id z = ?k" "ko_firm_id z = firm" using z(4) y by simp_all
    have "kb_objects kb2 = knowledge_save z (kb_objects kb)" using z(5) x(3) zid(1) y(4) by (simp add: knowledge_save_twice)
    moreover have "object_step kb ?op x z [e]" by (rule object_step.review) (simp_all add: z(4) e)
    ultimately have "knowledge_effect ?op kb kb2"
      by (intro effect_change [of kb x z _ _ "[e]"]) (use x z(6) zid id e in auto)
    then show ?thesis unfolding kb' using z(7,8) by (intro conjI disjI2 exI [of _ r]) simp_all
  qed
qed

lemma publish_effect:
  assumes ok: "knowledge_ok kb" and "publish_knowledge d firm k approver kb = Inr (y, kb')"
  shows "knowledge_effect (KPublish firm k approver) kb kb' \<and> kb_requests kb' = kb_requests kb"
proof -
  from assms(2) obtain x where x: "dict_get (kb_objects kb) k = Some x" "ko_firm_id x = firm" "ko_status x = KS_VALIDATED"
      "kb_objects kb' = knowledge_save (x\<lparr>ko_is_published := True\<rparr>) (kb_objects kb)" "kb_events kb' = kb_events kb" "kb_requests kb' = kb_requests kb"
    by (auto simp: publish_knowledge_def res_bind_Inr_iff known_object_Inr Let_def split: if_splits)
  have id: "ko_id x = k" by (rule knowledge_ok_id [OF ok x(1)])
  have "object_step kb (KPublish (ko_firm_id x) (ko_id x) approver) x (x\<lparr>ko_is_published := True\<rparr>) []"
    by (rule object_step.publish [OF x(3)])
  then have "knowledge_effect (KPublish firm k approver) kb kb'"
    by (intro effect_change [of kb x "x\<lparr>ko_is_published := True\<rparr>" _ _ "[]"]) (use x id in simp_all)
  then show ?thesis using x(6) by simp
qed

definition requests_kept :: "'c knowledge_base \<Rightarrow> 'c knowledge_base \<Rightarrow> bool" where
  "requests_kept kb kb' \<longleftrightarrow> kb_requests kb' = kb_requests kb \<or> (\<exists>r. kb_requests kb' = dict_set (kq_id r) r (kb_requests kb))"

lemma effect_or_unchanged:
  assumes "\<And>x kb'. r = Inr (x, kb') \<Longrightarrow> knowledge_effect op kb kb' \<and> requests_kept kb kb'"
  shows "knowledge_effect op kb (or_unchanged r kb) \<and> requests_kept kb (or_unchanged r kb)"
  using assms by (auto simp: or_unchanged_def requests_kept_def intro: effect_none split: sum.split prod.split)

lemma run_knowledge_effect:
  assumes ok: "knowledge_ok kb" and fresh: "fresh_knowledge_draws d op kb"
  shows "knowledge_effect op kb (run_knowledge_op d op kb) \<and> requests_kept kb (run_knowledge_op d op kb)"
proof (cases op)
  case (KCreate firm ty title content author tags)
  let ?x = "fst (create_knowledge (kd_id d 0) (kd_time d 0) (kd_time d 1) firm ty title content author tags (kb_objects kb))"
  have "knowledge_effect op kb (run_knowledge_op d op kb)"
    unfolding knowledge_effect_def
    by (intro disjI2 disjI1 exI [of _ ?x]) (use fresh in \<open>simp add: KCreate create_knowledge_def Let_def\<close>)
  then show ?thesis by (simp add: KCreate requests_kept_def)
next
  case (KUpdate firm k content)
  have "knowledge_effect op kb (run_knowledge_op d op kb)"
    using effect_with_objects [OF ok, of "\<lambda>x. x\<lparr>ko_content := content, ko_version := ko_version x + 1, ko_status := KS_DRAFT,
       ko_is_published := False, ko_updated_at := kd_time d 0\<rparr>" op k]
    by (simp add: KUpdate update_content_def object_step.demote)
  then show ?thesis by (simp add: KUpdate requests_kept_def with_objects_def split: sum.split prod.split)
next
  case (KTag firm k tags)
  have "knowledge_effect op kb (run_knowledge_op d op kb)"
    using effect_with_objects [OF ok, of "\<lambda>x. x\<lparr>ko_tags := ko_tags x \<union> tags, ko_updated_at := kd_time d 0\<rparr>" op k]
    by (simp add: KTag add_tags_def object_step.edit)
  then show ?thesis by (simp add: KTag requests_kept_def with_objects_def split: sum.split prod.split)
next
  case (KScore firm k score)
  have "knowledge_effect op kb (run_knowledge_op d op kb)"
    using effect_with_objects [OF ok, of "\<lambda>x. x\<lparr>ko_quality_score := score\<rparr>" op k]
    by (simp add: KScore set_quality_score_def object_step.edit)
  then show ?thesis by (simp add: KScore requests_kept_def with_objects_def split: sum.split prod.split)
next
  case (KUse firm k)
  have "knowledge_effect op kb (run_knowledge_op d op kb)"
    using effect_with_objects [OF ok, of "\<lambda>x. x\<lparr>ko_usage_count := ko_usage_count x + 1\<rparr>" op k]
    by (simp add: KUse record_knowledge_usage_def object_step.edit)
  then show ?thesis by (simp add: KUse requests_kept_def with_objects_def split: sum.split prod.split)
next
  case (KSubmit firm k requester)
  have "knowledge_effect op kb kb' \<and> requests_kept kb kb'" if "submit_for_validation d firm k requester kb = Inr (x, kb')" for x kb'
    using submit_effect [OF ok that, of op] by (simp add: KSubmit requests_kept_def)
  then show ?thesis unfolding KSubmit run_knowledge_op.simps by (rule effect_or_unchanged)
next
  case (KDecide firm req decision reviewer comment)
  have "knowledge_effect op kb kb' \<and> requests_kept kb kb'"
    if "decide_knowledge d firm req decision reviewer comment kb = Inr (x, kb')" for x kb'
    using decide_effect [OF ok that] by (simp add: KDecide requests_kept_def)
  then show ?thesis unfolding KDecide run_knowledge_op.simps by (rule effect_or_unchanged)
next
  case (KPublish firm k approver)
  have "knowledge_effect op kb kb' \<and> requests_kept kb kb'" if "publish_knowledge d firm k approver kb = Inr (x, kb')" for x kb'
    using publish_effect [OF ok that] by (simp add: KPublish requests_kept_def)
  then show ?thesis unfolding KPublish run_knowledge_op.simps by (rule effect_or_unchanged)
next
  case (KUnpublish firm k)
  have "run_knowledge_op d op kb = with_objects (change_object (knowledge_op_firm op) k (\<lambda>x. x\<lparr>ko_is_published := False\<rparr>) (kb_objects kb)) kb"
    by (simp add: KUnpublish unpublish_knowledge_def or_unchanged_def with_objects_def split: sum.split)
  moreover have "knowledge_effect op kb (with_objects (change_object (knowledge_op_firm op) k (\<lambda>x. x\<lparr>ko_is_published := False\<rparr>) (kb_objects kb)) kb)"
    by (rule effect_with_objects [OF ok]) (simp_all add: object_step.edit)
  ultimately show ?thesis by (simp add: requests_kept_def with_objects_def split: sum.split prod.split)
next
  case (KFeedback firm k action author comment)
  have "knowledge_effect op kb kb' \<and> requests_kept kb kb'" if "submit_feedback d firm k action author comment kb = Inr (x, kb')" for x kb'
    using that by (auto simp: submit_feedback_def res_bind_Inr_iff Let_def requests_kept_def intro: effect_none)
  then show ?thesis unfolding KFeedback run_knowledge_op.simps by (rule effect_or_unchanged)
next
  case (KRevise firm f content reviewer)
  then show ?thesis using revise_effect [OF ok, of firm f content reviewer d "kd_time d 3"] by (simp add: requests_kept_def)
next
  case (KOrigin firm k refs actor from_id)
  have "knowledge_effect op kb kb' \<and> requests_kept kb kb'" if "record_origin d firm k refs actor from_id kb = Inr (x, kb')" for x kb'
    using that by (auto simp: record_origin_def res_bind_Inr_iff Let_def requests_kept_def intro: effect_none)
  then show ?thesis unfolding KOrigin run_knowledge_op.simps by (rule effect_or_unchanged)
qed

subsection \<open>Reachable states\<close>

definition sound_object :: "'c knowledge_object \<Rightarrow> bool" where
  "sound_object x \<longleftrightarrow> ko_status x \<in> {KS_DRAFT, KS_IN_REVIEW, KS_VALIDATED} \<and> (ko_is_published x \<longrightarrow> ko_status x = KS_VALIDATED)"

lemma knowledge_ok_sound: "knowledge_ok kb \<Longrightarrow> dict_get (kb_objects kb) k = Some x \<Longrightarrow> sound_object x"
  unfolding knowledge_ok_def sound_object_def by blast

lemma object_step_sound: "object_step kb op x y es \<Longrightarrow> sound_object x \<Longrightarrow> sound_object y"
proof (induction rule: object_step.induct)
  case (decide req r x y decision e reviewer comment)
  then show ?case by (cases decision) (auto simp: sound_object_def)
qed (auto simp: sound_object_def)

lemma run_knowledge_ok:
  assumes ok: "knowledge_ok kb" and fresh: "fresh_knowledge_draws d op kb"
  shows "knowledge_ok (run_knowledge_op d op kb)"
proof -
  let ?kb' = "run_knowledge_op d op kb"
  have effect: "knowledge_effect op kb ?kb'" and req: "requests_kept kb ?kb'" using run_knowledge_effect [OF ok fresh] by blast+
  have "\<exists>y. kb_objects ?kb' = kb_objects kb \<or> kb_objects ?kb' = knowledge_save y (kb_objects kb) \<and> sound_object y"
    using effect unfolding knowledge_effect_def
  proof (elim disjE)
    assume "\<exists>x y es. dict_get (kb_objects kb) (ko_id x) = Some x \<and> ko_id y = ko_id x \<and> ko_firm_id y = ko_firm_id x \<and>
        ko_firm_id x = knowledge_op_firm op \<and> kb_objects ?kb' = knowledge_save y (kb_objects kb) \<and> kb_events ?kb' = kb_events kb @ es \<and>
        (\<forall>e \<in> set es. gv_knowledge_object_id e = ko_id x \<and> gv_firm_id e = ko_firm_id x) \<and> object_step kb op x y es"
    then show ?thesis using object_step_sound knowledge_ok_sound [OF ok] by blast
  qed (auto simp: sound_object_def)
  then obtain y where y: "kb_objects ?kb' = kb_objects kb \<or> kb_objects ?kb' = knowledge_save y (kb_objects kb) \<and> sound_object y" by blast
  have "keyed kq_id (kb_requests ?kb')" using ok req by (auto simp: knowledge_ok_def requests_kept_def)
  moreover have "keyed ko_id (kb_objects ?kb')" using ok y by (auto simp: knowledge_ok_def knowledge_save_def)
  moreover have "sound_object x" if "dict_get (kb_objects ?kb') k = Some x" for k x
    using that y knowledge_ok_sound [OF ok, of k x] by (auto simp: knowledge_get_save split: if_splits)
  ultimately show ?thesis unfolding knowledge_ok_def sound_object_def by blast
qed

lemma knowledge_trace_ok: "knowledge_trace ops kb \<Longrightarrow> knowledge_ok kb"
proof (induction rule: knowledge_trace.induct)
  case start
  show ?case by (simp add: knowledge_ok_def knowledge_base_init_def)
qed (rule run_knowledge_ok)

text \<open>Where an object that is found after an operation comes from.\<close>

lemma object_origin:
  assumes ok: "knowledge_ok kb" and fresh: "fresh_knowledge_draws d op kb"
    and get: "dict_get (kb_objects (run_knowledge_op d op kb)) k = Some y"
  obtains (same) "dict_get (kb_objects kb) k = Some y"
      "\<exists>es. kb_events (run_knowledge_op d op kb) = kb_events kb @ es \<and> (\<forall>e \<in> set es. gv_knowledge_object_id e \<noteq> k)"
    | (new) "dict_get (kb_objects kb) k = None" "ko_status y = KS_DRAFT" "kb_events (run_knowledge_op d op kb) = kb_events kb"
    | (change) x es where "dict_get (kb_objects kb) k = Some x" "ko_id x = k" "ko_firm_id y = ko_firm_id x"
        "ko_firm_id x = knowledge_op_firm op" "object_step kb op x y es" "kb_events (run_knowledge_op d op kb) = kb_events kb @ es"
        "\<forall>e \<in> set es. gv_knowledge_object_id e = k \<and> gv_firm_id e = ko_firm_id x"
proof -
  let ?kb' = "run_knowledge_op d op kb"
  have "knowledge_effect op kb ?kb'" using run_knowledge_effect [OF ok fresh] by blast
  then consider (none) "kb_objects ?kb' = kb_objects kb" "kb_events ?kb' = kb_events kb"
    | (created) z where "dict_get (kb_objects kb) (ko_id z) = None" "ko_status z = KS_DRAFT"
        "kb_objects ?kb' = knowledge_save z (kb_objects kb)" "kb_events ?kb' = kb_events kb"
    | (changed) x z es where "dict_get (kb_objects kb) (ko_id x) = Some x" "ko_id z = ko_id x" "ko_firm_id z = ko_firm_id x"
        "ko_firm_id x = knowledge_op_firm op" "kb_objects ?kb' = knowledge_save z (kb_objects kb)" "kb_events ?kb' = kb_events kb @ es"
        "\<forall>e \<in> set es. gv_knowledge_object_id e = ko_id x \<and> gv_firm_id e = ko_firm_id x" "object_step kb op x z es"
    unfolding knowledge_effect_def by blast
  then show thesis
  proof cases
    case none
    then show thesis using get by (intro same) auto
  next
    case (created z)
    show thesis
    proof (cases "k = ko_id z")
      case True
      then show thesis using created get by (intro new) (simp_all add: knowledge_get_save)
    next
      case False
      then show thesis using created get by (intro same) (simp_all add: knowledge_get_save)
    qed
  next
    case (changed x z es)
    show thesis
    proof (cases "k = ko_id z")
      case True
      then have "y = z" using changed(5) get by (simp add: knowledge_get_save)
      then show thesis using changed True by (intro change [of x es]) simp_all
    next
      case False
      then show thesis using changed get by (intro same) (auto simp: knowledge_get_save)
    qed
  qed
qed

lemma object_survives:
  assumes "knowledge_ok kb" and "fresh_knowledge_draws d op kb" and "dict_get (kb_objects kb) k = Some x"
  shows "\<exists>y. dict_get (kb_objects (run_knowledge_op d op kb)) k = Some y"
  using run_knowledge_effect [OF assms(1,2)] assms(3) unfolding knowledge_effect_def by (auto simp: knowledge_get_save)

section \<open>The gate\<close>

text \<open>
  What stands behind a validated object: a decision of a person on a pending request for it, made while the object
  was in review with the very content and version it has now; and, when it is published, a publication after that.
\<close>

definition validated_by_person :: "(knowledge_draws \<times> 'c knowledge_op) list \<Rightarrow> pystr \<Rightarrow> 'c knowledge_object \<Rightarrow> bool" where
  "validated_by_person ops k x \<longleftrightarrow>
     (\<exists>pre d req reviewer comment post kb0 r x0.
        ops = pre @ (d, KDecide (ko_firm_id x) req KD_APPROVE reviewer comment) # post \<and> knowledge_trace pre kb0 \<and>
        dict_get (kb_requests kb0) req = Some r \<and> kq_knowledge_object_id r = k \<and> kq_firm_id r = ko_firm_id x \<and>
        kq_status r = KR_PENDING \<and> dict_get (kb_objects kb0) k = Some x0 \<and> ko_status x0 = KS_IN_REVIEW \<and>
        ko_content x0 = ko_content x \<and> ko_version x0 = ko_version x \<and>
        (ko_is_published x \<longrightarrow> (\<exists>d' approver. (d', KPublish (ko_firm_id x) k approver) \<in> set post)))"

lemma validated_later:
  assumes "validated_by_person ops k x" and "ko_firm_id y = ko_firm_id x" "ko_content y = ko_content x" "ko_version y = ko_version x"
    and pub: "ko_is_published y \<longrightarrow> ko_is_published x \<or> (\<exists>approver. op = KPublish (ko_firm_id x) k approver)"
  shows "validated_by_person (ops @ [(d, op)]) k y"
proof -
  obtain pre d0 req reviewer comment post kb0 r x0 where
      "ops = pre @ (d0, KDecide (ko_firm_id x) req KD_APPROVE reviewer comment) # post" "knowledge_trace pre kb0"
      "dict_get (kb_requests kb0) req = Some r" "kq_knowledge_object_id r = k" "kq_firm_id r = ko_firm_id x"
      "kq_status r = KR_PENDING" "dict_get (kb_objects kb0) k = Some x0" "ko_status x0 = KS_IN_REVIEW"
      "ko_content x0 = ko_content x" "ko_version x0 = ko_version x"
      "ko_is_published x \<longrightarrow> (\<exists>d' approver. (d', KPublish (ko_firm_id x) k approver) \<in> set post)"
    using assms(1) unfolding validated_by_person_def by blast
  note facts = this
  show ?thesis
    unfolding validated_by_person_def
    by (intro exI [of _ pre] exI [of _ d0] exI [of _ req] exI [of _ reviewer] exI [of _ comment] exI [of _ "post @ [(d, op)]"]
        exI [of _ kb0] exI [of _ r] exI [of _ x0] conjI)
      (use facts assms(2-4) pub in auto)
qed

lemma validated_reachable:
  "knowledge_trace ops kb \<Longrightarrow> dict_get (kb_objects kb) k = Some y \<Longrightarrow> ko_status y = KS_VALIDATED \<Longrightarrow> validated_by_person ops k y"
proof (induction arbitrary: y rule: knowledge_trace.induct)
  case start
  then show ?case by (simp add: knowledge_base_init_def)
next
  case (op ops kb d p)
  have ok: "knowledge_ok kb" by (rule knowledge_trace_ok [OF op.hyps(1)])
  show ?case
  proof (rule object_origin [OF ok op.hyps(2) op.prems(1)])
    assume "dict_get (kb_objects kb) k = Some y"
    then show ?thesis using op.IH op.prems(2) by (intro validated_later) auto
  next
    assume "ko_status y = KS_DRAFT"
    then show ?thesis using op.prems(2) by simp
  next
    fix x es
    assume x: "dict_get (kb_objects kb) k = Some x" "ko_id x = k" "ko_firm_id y = ko_firm_id x" and step: "object_step kb p x y es"
    have sound: "sound_object x" by (rule knowledge_ok_sound [OF ok x(1)])
    from step show ?thesis
    proof cases
      case edit
      then show ?thesis using op.IH [OF x(1)] op.prems(2) x(3) by (intro validated_later [of ops k x]) auto
    next
      case (publish approver)
      then show ?thesis using op.IH [OF x(1)] x(2,3) by (intro validated_later [of ops k x]) auto
    next
      case (decide req r decision e reviewer comment)
      then have dec: "decision = KD_APPROVE" using op.prems(2) by (cases decision) auto
      then have st: "ko_status x = KS_IN_REVIEW" using decide sound by (auto simp: sound_object_def)
      then have "\<not> ko_is_published y" using decide sound by (auto simp: sound_object_def)
      then show ?thesis
        unfolding validated_by_person_def
        by (intro exI [of _ ops] exI [of _ d] exI [of _ req] exI [of _ reviewer] exI [of _ comment] exI [of _ "[]"]
            exI [of _ kb] exI [of _ r] exI [of _ x] conjI)
          (use decide dec st x op.hyps(1) in auto)
    qed (use op.prems(2) in auto)
  qed
qed

text \<open>A history in which every event is an allowed transition that starts where the one before ended, or at the draft.\<close>

fun governed :: "knowledge_status \<Rightarrow> governance_event list \<Rightarrow> knowledge_status \<Rightarrow> bool" where
  "governed a [] b \<longleftrightarrow> b = a \<or> b = KS_DRAFT"
| "governed a (e # es) b \<longleftrightarrow> (gv_from_status e = a \<or> gv_from_status e = KS_DRAFT) \<and>
     gv_to_status e \<in> set (knowledge_transitions (gv_from_status e)) \<and> governed (gv_to_status e) es b"

lemma governed_snoc:
  "governed a (es @ [e]) b \<longleftrightarrow> governed a es (gv_from_status e) \<and> gv_to_status e \<in> set (knowledge_transitions (gv_from_status e)) \<and>
     (b = gv_to_status e \<or> b = KS_DRAFT)"
  by (induction es arbitrary: a) auto

lemma governed_demoted: "governed a es b \<Longrightarrow> governed a es KS_DRAFT"
  by (induction es arbitrary: a) auto

lemma governed_step:
  assumes "object_step kb op x y es" and "governed KS_DRAFT hist (ko_status x)"
  shows "governed KS_DRAFT (hist @ es) (ko_status y)"
  using assms(1)
proof cases
  case demote
  then show ?thesis using governed_demoted [OF assms(2)] by simp
next
  case (review e)
  then show ?thesis using governed_demoted [OF assms(2)] by (simp add: governed_snoc)
next
  case (decide req r decision e reviewer comment)
  then show ?thesis using assms(2) by (simp add: governed_snoc)
qed (use assms(2) in auto)

text \<open>Every event is of an object that exists, and of its firm.\<close>

lemma governed_reachable:
  "knowledge_trace ops kb \<Longrightarrow>
     (\<forall>e \<in> set (kb_events kb). \<exists>x. dict_get (kb_objects kb) (gv_knowledge_object_id e) = Some x \<and> ko_firm_id x = gv_firm_id e) \<and>
     (\<forall>k x. dict_get (kb_objects kb) k = Some x \<longrightarrow>
        governed KS_DRAFT (filter (\<lambda>e. gv_knowledge_object_id e = k) (kb_events kb)) (ko_status x))"
proof (induction rule: knowledge_trace.induct)
  case start
  show ?case by (simp add: knowledge_base_init_def)
next
  case (op ops kb d p)
  let ?kb' = "run_knowledge_op d p kb"
  have ok: "knowledge_ok kb" by (rule knowledge_trace_ok [OF op.hyps(1)])
  have known: "\<exists>x. dict_get (kb_objects kb) (gv_knowledge_object_id e) = Some x \<and> ko_firm_id x = gv_firm_id e" if "e \<in> set (kb_events kb)" for e
    using op.IH that by blast
  have "governed KS_DRAFT (filter (\<lambda>e. gv_knowledge_object_id e = k) (kb_events ?kb')) (ko_status y)"
    if get: "dict_get (kb_objects ?kb') k = Some y" for k y
  proof (rule object_origin [OF ok op.hyps(2) get])
    assume y: "dict_get (kb_objects kb) k = Some y"
      and "\<exists>es. kb_events ?kb' = kb_events kb @ es \<and> (\<forall>e \<in> set es. gv_knowledge_object_id e \<noteq> k)"
    then obtain es where "kb_events ?kb' = kb_events kb @ es" "filter (\<lambda>e. gv_knowledge_object_id e = k) es = []"
      by (metis (mono_tags, lifting) filter_False)
    then show ?thesis using op.IH y by simp
  next
    assume y: "dict_get (kb_objects kb) k = None" "ko_status y = KS_DRAFT" "kb_events ?kb' = kb_events kb"
    then have "filter (\<lambda>e. gv_knowledge_object_id e = k) (kb_events kb) = []" using known by (fastforce simp: filter_empty_conv)
    then show ?thesis using y by simp
  next
    fix x es assume x: "dict_get (kb_objects kb) k = Some x" "object_step kb p x y es" "kb_events ?kb' = kb_events kb @ es"
      "\<forall>e \<in> set es. gv_knowledge_object_id e = k \<and> gv_firm_id e = ko_firm_id x"
    then have "filter (\<lambda>e. gv_knowledge_object_id e = k) es = es" by simp
    then show ?thesis using governed_step [OF x(2)] op.IH x(1,3) by simp
  qed
  moreover have "\<exists>x. dict_get (kb_objects ?kb') (gv_knowledge_object_id e) = Some x \<and> ko_firm_id x = gv_firm_id e"
    if e: "e \<in> set (kb_events ?kb')" for e
    using run_knowledge_effect [OF ok op.hyps(2)] e known [of e] unfolding knowledge_effect_def
    by (auto simp: knowledge_get_save)
  ultimately show ?case by blast
qed

section \<open>An example\<close>

fun run_knowledge_ops :: "(knowledge_draws \<times> 'c knowledge_op) list \<Rightarrow> 'c knowledge_base \<Rightarrow> 'c knowledge_base" where
  "run_knowledge_ops [] kb = kb"
| "run_knowledge_ops ((d, x) # ops) kb = run_knowledge_ops ops (run_knowledge_op d x kb)"

fun fresh_knowledge_ops :: "(knowledge_draws \<times> 'c knowledge_op) list \<Rightarrow> 'c knowledge_base \<Rightarrow> bool" where
  "fresh_knowledge_ops [] kb \<longleftrightarrow> True"
| "fresh_knowledge_ops ((d, x) # ops) kb \<longleftrightarrow> fresh_knowledge_draws d x kb \<and> fresh_knowledge_ops ops (run_knowledge_op d x kb)"

lemma knowledge_trace_run:
  "knowledge_trace pre kb \<Longrightarrow> fresh_knowledge_ops ops kb \<Longrightarrow> knowledge_trace (pre @ ops) (run_knowledge_ops ops kb)"
proof (induction ops arbitrary: pre kb)
  case (Cons p ops)
  then show ?case using Cons.IH [of "pre @ [p]" "run_knowledge_op (fst p) (snd p) kb"] by (cases p) (simp add: knowledge_trace.op)
qed simp

text \<open>Ana submits a note, changes it, and submits it again; the first request is approved.\<close>

definition demo_knowledge_draws :: "pystr \<Rightarrow> knowledge_draws" where
  "demo_knowledge_draws s = \<lparr>kd_id = (\<lambda>n. if n = 0 then s else s @ ''r''), kd_time = (\<lambda>n. 0)\<rparr>"

definition demo_note_ops :: "(knowledge_draws \<times> int knowledge_op) list" where
  "demo_note_ops =
     [(demo_knowledge_draws ''a'', KCreate ''f'' KT_NOTE ''note'' 1 ''ana'' {}), (demo_knowledge_draws ''b'', KSubmit ''f'' ''a'' ''ana''),
      (demo_knowledge_draws ''c'', KUpdate ''f'' ''a'' 2), (demo_knowledge_draws ''d'', KSubmit ''f'' ''a'' ''ana''),
      (demo_knowledge_draws ''e'', KDecide ''f'' ''br'' KD_APPROVE ''eve'' None), (demo_knowledge_draws ''g'', KPublish ''f'' ''a'' ''eve'')]"

lemmas knowledge_op_defs =
  create_knowledge_def knowledge_save_def update_content_def change_object_def known_object_def knowledge_get_def
  require_same_firm_def with_objects_def or_unchanged_def submit_for_validation_def transition_knowledge_def
  set_knowledge_status_def decide_knowledge_def publish_knowledge_def knowledge_base_init_def demo_knowledge_draws_def Let_def

definition demo_note_base :: "int knowledge_base" where
  "demo_note_base = run_knowledge_ops demo_note_ops knowledge_base_init"

lemma demo_note_trace: "knowledge_trace demo_note_ops demo_note_base"
proof -
  have "fresh_knowledge_ops demo_note_ops knowledge_base_init"
    by (simp add: demo_note_ops_def knowledge_op_defs)
  then show ?thesis using knowledge_trace_run [OF knowledge_trace.start] unfolding demo_note_base_def by fastforce
qed

section \<open>Properties\<close>

text \<open>
  C1. No knowledge without a person: in every state that the operations can reach, a validated object was approved by
  someone deciding a pending request for it, at a time when it was in review with exactly the content and the version it
  has now, and a published object is validated and was published by someone after that approval.
\<close>

theorem knowledge_gate:
  assumes "knowledge_trace ops kb" and "dict_get (kb_objects kb) k = Some x"
  shows "(ko_status x = KS_VALIDATED \<longrightarrow>
     (\<exists>pre d req reviewer comment post kb0 r x0.
        ops = pre @ (d, KDecide (ko_firm_id x) req KD_APPROVE reviewer comment) # post \<and> knowledge_trace pre kb0 \<and>
        dict_get (kb_requests kb0) req = Some r \<and> kq_knowledge_object_id r = k \<and> kq_firm_id r = ko_firm_id x \<and>
        kq_status r = KR_PENDING \<and> dict_get (kb_objects kb0) k = Some x0 \<and> ko_status x0 = KS_IN_REVIEW \<and>
        ko_content x0 = ko_content x \<and> ko_version x0 = ko_version x \<and>
        (ko_is_published x \<longrightarrow> (\<exists>d' approver. (d', KPublish (ko_firm_id x) k approver) \<in> set post)))) \<and>
    (ko_is_published x \<longrightarrow> ko_status x = KS_VALIDATED) \<and> ko_status x \<noteq> KS_OBSOLETE \<and> ko_status x \<noteq> KS_ARCHIVED"
proof -
  have "sound_object x" by (rule knowledge_ok_sound [OF knowledge_trace_ok [OF assms(1)] assms(2)])
  then have "(ko_is_published x \<longrightarrow> ko_status x = KS_VALIDATED) \<and> ko_status x \<noteq> KS_OBSOLETE \<and> ko_status x \<noteq> KS_ARCHIVED"
    by (auto simp: sound_object_def)
  then show ?thesis using validated_reachable [OF assms, unfolded validated_by_person_def] by (intro conjI impI) simp_all
qed

lemma knowledge_gate_witness:
  "\<exists>x pre d req reviewer comment post. dict_get (kb_objects demo_note_base) ''a'' = Some x \<and> ko_content x = 2 \<and> ko_is_published x \<and>
     demo_note_ops = pre @ (d, KDecide ''f'' req KD_APPROVE reviewer comment) # post"
proof -
  have "\<exists>x. dict_get (kb_objects demo_note_base) ''a'' = Some x \<and> ko_content x = 2 \<and> ko_is_published x \<and> ko_status x = KS_VALIDATED \<and> ko_firm_id x = ''f''"
    by (simp add: demo_note_base_def demo_note_ops_def knowledge_op_defs)
  then obtain x where x: "dict_get (kb_objects demo_note_base) ''a'' = Some x" "ko_content x = 2" "ko_is_published x"
      "ko_status x = KS_VALIDATED" "ko_firm_id x = ''f''" by blast
  from knowledge_gate [OF demo_note_trace x(1), THEN conjunct1, THEN mp, OF x(4)]
  obtain pre d req reviewer comment post where
    "demo_note_ops = pre @ (d, KDecide (ko_firm_id x) req KD_APPROVE reviewer comment) # post"
    by (elim exE conjE) (rule that)
  then show ?thesis using x
    by (intro exI [of _ x] exI [of _ pre] exI [of _ d] exI [of _ req] exI [of _ reviewer] exI [of _ comment] exI [of _ post]) simp
qed

text \<open>
  The gate looks at the object, not at what was asked: a request names no version. A request made for one content is
  approved and validates the content that replaced it, and the request made for the latter can never be decided.
\<close>

theorem stale_request_validates:
  "knowledge_trace demo_note_ops demo_note_base \<and>
   (\<exists>x. dict_get (kb_objects demo_note_base) ''a'' = Some x \<and> ko_status x = KS_VALIDATED \<and> ko_content x = 2) \<and>
   map_option ko_content (dict_get (kb_objects (run_knowledge_ops (take 2 demo_note_ops) knowledge_base_init)) ''a'') = Some 1 \<and>
   map_option kq_status (dict_get (kb_requests (run_knowledge_ops (take 2 demo_note_ops) knowledge_base_init)) ''br'') = Some KR_PENDING \<and>
   map_option kq_status (dict_get (kb_requests demo_note_base) ''br'') = Some KR_APPROVED \<and>
   map_option kq_status (dict_get (kb_requests demo_note_base) ''dr'') = Some KR_PENDING \<and>
   (\<exists>e. decide_knowledge d ''f'' ''dr'' decision reviewer comment demo_note_base = Inl e)"
proof (intro conjI)
  show "knowledge_trace demo_note_ops demo_note_base" by (rule demo_note_trace)
  show "\<exists>e. decide_knowledge d ''f'' ''dr'' decision reviewer comment demo_note_base = Inl e"
    by (cases decision) (simp_all add: demo_note_base_def demo_note_ops_def knowledge_op_defs)
qed (simp_all add: demo_note_base_def demo_note_ops_def knowledge_op_defs)

text \<open>
  What the governance history of an object tells: each event is an allowed transition, and it starts where the one before
  ended or at the draft. A change of the content demotes the object without an event, so the history may have gaps,
  but all of them lead to the draft; the status of the object is that of its last event, or draft.
\<close>

theorem governance_has_gaps:
  assumes "knowledge_trace ops kb" and "dict_get (kb_objects kb) k = Some x"
  shows "governed KS_DRAFT (governance_history (ko_firm_id x) k kb) (ko_status x)"
proof -
  have "gv_firm_id e = ko_firm_id x" if "e \<in> set (kb_events kb)" "gv_knowledge_object_id e = k" for e
    using governed_reachable [OF assms(1)] assms(2) that by force
  then have "governance_history (ko_firm_id x) k kb = filter (\<lambda>e. gv_knowledge_object_id e = k) (kb_events kb)"
    unfolding governance_history_def by (intro filter_cong) auto
  then show ?thesis using governed_reachable [OF assms(1)] assms(2) by simp
qed

lemma governance_has_gaps_witness:
  "\<exists>x. dict_get (kb_objects demo_note_base) ''a'' = Some x \<and> governed KS_DRAFT (governance_history ''f'' ''a'' demo_note_base) (ko_status x) \<and>
     map (\<lambda>e. (gv_from_status e, gv_to_status e)) (governance_history ''f'' ''a'' demo_note_base) =
       [(KS_DRAFT, KS_IN_REVIEW), (KS_DRAFT, KS_IN_REVIEW), (KS_IN_REVIEW, KS_VALIDATED)]"
proof -
  have "\<exists>x. dict_get (kb_objects demo_note_base) ''a'' = Some x \<and> ko_firm_id x = ''f''"
    by (simp add: demo_note_base_def demo_note_ops_def knowledge_op_defs)
  then obtain x where x: "dict_get (kb_objects demo_note_base) ''a'' = Some x" "ko_firm_id x = ''f''" by blast
  have "map (\<lambda>e. (gv_from_status e, gv_to_status e)) (governance_history ''f'' ''a'' demo_note_base) =
       [(KS_DRAFT, KS_IN_REVIEW), (KS_DRAFT, KS_IN_REVIEW), (KS_IN_REVIEW, KS_VALIDATED)]"
    by (simp add: demo_note_base_def demo_note_ops_def governance_history_def knowledge_op_defs)
  then show ?thesis using governance_has_gaps [OF demo_note_trace x(1)] x by (intro exI [of _ x]) simp
qed

text \<open>No operation of one firm touches an object of another, nor its history.\<close>

theorem knowledge_isolated:
  assumes "knowledge_trace ops kb" and "dict_get (kb_objects kb) k = Some x" and "fresh_knowledge_draws d op kb"
    and "knowledge_op_firm op \<noteq> ko_firm_id x"
  shows "dict_get (kb_objects (run_knowledge_op d op kb)) k = Some x \<and>
    governance_history (ko_firm_id x) k (run_knowledge_op d op kb) = governance_history (ko_firm_id x) k kb"
proof -
  have ok: "knowledge_ok kb" by (rule knowledge_trace_ok [OF assms(1)])
  obtain y where y: "dict_get (kb_objects (run_knowledge_op d op kb)) k = Some y" using object_survives [OF ok assms(3,2)] by blast
  show ?thesis
  proof (rule object_origin [OF ok assms(3) y])
    assume "dict_get (kb_objects kb) k = Some y"
      "\<exists>es. kb_events (run_knowledge_op d op kb) = kb_events kb @ es \<and> (\<forall>e \<in> set es. gv_knowledge_object_id e \<noteq> k)"
    then show ?thesis using y assms(2) by (auto simp: governance_history_def filter_empty_conv)
  qed (use assms in auto)
qed

lemma knowledge_isolated_witness:
  "\<exists>x. dict_get (kb_objects demo_note_base) ''a'' = Some x \<and>
     dict_get (kb_objects (run_knowledge_op (demo_knowledge_draws ''h'') (KUpdate ''other'' ''a'' 3) demo_note_base)) ''a'' = Some x"
proof -
  have "\<exists>x. dict_get (kb_objects demo_note_base) ''a'' = Some x \<and> ko_firm_id x = ''f''"
    by (simp add: demo_note_base_def demo_note_ops_def knowledge_op_defs)
  then obtain x where x: "dict_get (kb_objects demo_note_base) ''a'' = Some x" "ko_firm_id x = ''f''" by blast
  then show ?thesis using knowledge_isolated [OF demo_note_trace x(1), of "demo_knowledge_draws ''h''" "KUpdate ''other'' ''a'' 3"] by auto
qed

end
