(* ===== verification/KnowledgeUse.thy ===== *)
theory KnowledgeUse
  imports Knowledge
begin

text \<open>
  What the knowledge of a firm is used for (\<^verbatim>\<open>cabinet_knowledge\<close>): its quality (\<^verbatim>\<open>quality\<close>), search and
  recommendations (\<^verbatim>\<open>search\<close>, \<^verbatim>\<open>recommendations\<close>), and playbooks (\<^verbatim>\<open>playbooks\<close>), whose content is kept as JSON.
\<close>

section \<open>Quality\<close>

record quality_breakdown =
  qb_knowledge_object_id :: pystr
  qb_freshness :: pyfloat
  qb_completeness :: pyfloat
  qb_usage :: pyfloat
  qb_human_validation :: pyfloat
  qb_coherence :: pyfloat

text \<open>The whole days of a \<open>timedelta\<close>, rounded down; \<open>max(0.0, x)\<close> and \<open>min(1.0, x)\<close> give the first of equals.\<close>

definition quality_freshness :: "timedelta \<Rightarrow> pyfloat result" where
  "quality_freshness age =
     res_bind (int_truediv (age div days 1) 365) (\<lambda>q.
       let x = flt_sub (Fin 1) q in Inr (if flt_less (Fin 0) x then x else Fin 0))"

definition quality_usage :: "int \<Rightarrow> pyfloat result" where
  "quality_usage n = res_bind (int_truediv n 10) (\<lambda>q. Inr (if flt_less q (Fin 1) then q else Fin 1))"

fun status_validation :: "knowledge_status \<Rightarrow> pyfloat" where
  "status_validation KS_VALIDATED = Fin 1"
| "status_validation KS_OBSOLETE = Fin 1"
| "status_validation KS_IN_REVIEW = Fin (1 / 2)"
| "status_validation KS_DRAFT = Fin 0"
| "status_validation KS_ARCHIVED = Fin 0"

text \<open>\<open>truthy\<close> is \<open>bool(content)\<close>.\<close>

definition quality_completeness :: "('c \<Rightarrow> bool) \<Rightarrow> 'c knowledge_object \<Rightarrow> pyfloat result" where
  "quality_completeness truthy x =
     int_truediv (int (length (filter id [ko_title x \<noteq> [], truthy (ko_content x), ko_tags x \<noteq> {}]))) 3"

definition evaluate_quality ::
  "('c \<Rightarrow> bool) \<Rightarrow> datetime \<Rightarrow> pystr \<Rightarrow> 'c knowledge_object \<Rightarrow> 'c knowledge_base \<Rightarrow> quality_breakdown result" where
  "evaluate_quality truthy now firm x kb =
     res_bind (quality_freshness (now - ko_updated_at x)) (\<lambda>fresh.
     res_bind (quality_completeness truthy x) (\<lambda>complete.
     res_bind (quality_usage (ko_usage_count x)) (\<lambda>use.
     res_bind (acceptance_rate firm (ko_id x) kb) (\<lambda>coherent.
       Inr \<lparr>qb_knowledge_object_id = ko_id x, qb_freshness = fresh, qb_completeness = complete, qb_usage = use,
            qb_human_validation = status_validation (ko_status x), qb_coherence = coherent\<rparr>))))"

definition overall_quality :: "quality_breakdown \<Rightarrow> pyfloat result" where
  "overall_quality b =
     flt_div (flt_add (flt_add (flt_add (flt_add (qb_freshness b) (qb_completeness b)) (qb_usage b)) (qb_human_validation b)) (qb_coherence b))
       (Fin 5)"

definition evaluate_and_store ::
  "('c \<Rightarrow> bool) \<Rightarrow> datetime \<Rightarrow> pystr \<Rightarrow> pystr \<Rightarrow> 'c knowledge_base \<Rightarrow> (quality_breakdown \<times> 'c knowledge_base) result" where
  "evaluate_and_store truthy now firm k kb =
     res_bind (known_object firm k (kb_objects kb)) (\<lambda>x.
     res_bind (evaluate_quality truthy now firm x kb) (\<lambda>b.
     res_bind (overall_quality b) (\<lambda>score.
     res_bind (set_quality_score firm k score (kb_objects kb)) (\<lambda>(_, objects).
       Inr (b, kb\<lparr>kb_objects := objects\<rparr>)))))"

definition unit_float :: "pyfloat \<Rightarrow> bool" where
  "unit_float v \<longleftrightarrow> (\<exists>r. v = Fin r \<and> 0 \<le> r \<and> r \<le> 1)"

lemma unit_truediv:
  assumes "0 \<le> a" and "a \<le> b" and "0 < b"
  shows "\<exists>v. int_truediv a b = Inr v \<and> unit_float v"
proof -
  have "of_int a / of_int b \<le> (1 :: rat)" "0 \<le> of_int a / (of_int b :: rat)" using assms by simp_all
  then show ?thesis using round64_upto [of "of_int a / of_int b" 1] assms(3) by (auto simp: int_truediv_def unit_float_def)
qed

lemma nonneg_truediv:
  assumes "0 \<le> a" and "a \<le> 2 ^ 53" and "0 < b"
  shows "\<exists>r. int_truediv a b = Inr (Fin r) \<and> 0 \<le> r \<and> (b \<le> a \<longrightarrow> 1 \<le> r)"
proof -
  have pos: "0 \<le> of_int a / (of_int b :: rat)" using assms by simp
  have "of_int a / (of_int b :: rat) \<le> of_int a" using assms by (simp add: divide_le_eq mult_le_cancel_left1)
  then obtain r where r: "round64 (of_int a / of_int b) = Fin r" "0 \<le> r" using round64_upto [OF pos _ assms(2)] by blast
  have "1 \<le> r" if "b \<le> a"
  proof -
    have "(1 :: rat) \<le> of_int a / of_int b" using that assms by simp
    then have "flt_le (round64 1) (round64 (of_int a / of_int b))" by (intro round64_mono_nonneg) simp_all
    then show ?thesis using r(1) round64_int [of 1] by (simp add: flt_le_def) linarith
  qed
  then show ?thesis using r assms(3) by (auto simp: int_truediv_def)
qed

lemma quality_freshness_unit:
  assumes "0 \<le> age" and "age div days 1 \<le> 2 ^ 53"
  shows "\<exists>v. quality_freshness age = Inr v \<and> unit_float v \<and> (days 365 \<le> age \<longrightarrow> v = Fin 0)"
proof -
  have day: "0 \<le> age div days 1" using assms(1) by (simp add: pos_imp_zdiv_nonneg_iff)
  obtain r where r: "int_truediv (age div days 1) 365 = Inr (Fin r)" "0 \<le> r" "365 \<le> age div days 1 \<longrightarrow> 1 \<le> r"
    using nonneg_truediv [OF day assms(2), of 365] by auto
  have year: "365 \<le> age div days 1" if "days 365 \<le> age" using zdiv_mono1 [OF that, of "days 1"] by simp
  show ?thesis
  proof (cases "r < 1")
    case True
    then obtain s where "round64 (1 - r) = Fin s" "0 \<le> s" "s \<le> 1" using round64_upto [of "1 - r" 1] r(2) by auto
    moreover have "\<not> days 365 \<le> age" using r(3) True year by linarith
    ultimately show ?thesis using r(1) by (auto simp: quality_freshness_def flt_sub_def unit_float_def)
  next
    case False
    have "\<not> flt_less (Fin 0) (round64 (1 - r))"
      using False round_pos_nonneg [of "r - 1"] by (cases "r = 1") (auto simp: round64_def Let_def)
    then show ?thesis using r(1) by (simp add: quality_freshness_def flt_sub_def unit_float_def)
  qed
qed

lemma quality_usage_unit:
  assumes "0 \<le> n" and "n \<le> 2 ^ 53"
  shows "\<exists>v. quality_usage n = Inr v \<and> unit_float v"
proof -
  obtain r where "int_truediv n 10 = Inr (Fin r)" "0 \<le> r" using nonneg_truediv [OF assms, of 10] by auto
  then show ?thesis by (auto simp: quality_usage_def unit_float_def)
qed

lemma bounded_add:
  assumes "0 \<le> a" "a \<le> of_int m" "0 \<le> b" "b \<le> 1" "m < 2 ^ 53"
  shows "\<exists>c. flt_add (Fin a) (Fin b) = Fin c \<and> 0 \<le> c \<and> c \<le> of_int (m + 1)"
  using round64_upto [of "a + b" "m + 1"] assms by simp

lemma overall_quality_unit:
  assumes "unit_float (qb_freshness b)" "unit_float (qb_completeness b)" "unit_float (qb_usage b)"
    "unit_float (qb_human_validation b)" "unit_float (qb_coherence b)"
  shows "\<exists>v. overall_quality b = Inr v \<and> unit_float v"
proof -
  obtain f c u h q where b: "qb_freshness b = Fin f" "0 \<le> f" "f \<le> 1" "qb_completeness b = Fin c" "0 \<le> c" "c \<le> 1"
      "qb_usage b = Fin u" "0 \<le> u" "u \<le> 1" "qb_human_validation b = Fin h" "0 \<le> h" "h \<le> 1" "qb_coherence b = Fin q" "0 \<le> q" "q \<le> 1"
    using assms unfolding unit_float_def by blast
  obtain a1 where 1: "flt_add (Fin f) (Fin c) = Fin a1" "0 \<le> a1" "a1 \<le> 2" using bounded_add [of f 1 c] b by auto
  obtain a2 where 2: "flt_add (Fin a1) (Fin u) = Fin a2" "0 \<le> a2" "a2 \<le> 3" using bounded_add [of a1 2 u] b 1 by auto
  obtain a3 where 3: "flt_add (Fin a2) (Fin h) = Fin a3" "0 \<le> a3" "a3 \<le> 4" using bounded_add [of a2 3 h] b 2 by auto
  obtain a4 where 4: "flt_add (Fin a3) (Fin q) = Fin a4" "0 \<le> a4" "a4 \<le> 5" using bounded_add [of a3 4 q] b 3 by auto
  have "overall_quality b = flt_div (Fin a4) (Fin 5)" by (simp only: overall_quality_def b 1 2 3 4)
  then show ?thesis using round64_upto [of "a4 / 5" 1] 4 by (auto simp: flt_div_def unit_float_def)
qed

text \<open>
  The marks of an object are numbers between 0 and 1, and so is the stored score, in the floating-point arithmetic of the
  code: none of the divisions fails or leaves the interval. An object untouched for a year has no freshness left.
\<close>

theorem quality_in_unit:
  assumes get: "dict_get (kb_objects kb) k = Some x" "ko_firm_id x = firm" "ko_id x = k"
    and time: "ko_updated_at x \<le> now" "now - ko_updated_at x \<le> 2 ^ 53" and uses: "0 \<le> ko_usage_count x" "ko_usage_count x \<le> 2 ^ 53"
  shows "\<exists>b kb' v. evaluate_and_store truthy now firm k kb = Inr (b, kb') \<and> unit_float (qb_freshness b) \<and>
    unit_float (qb_completeness b) \<and> unit_float (qb_usage b) \<and> unit_float (qb_human_validation b) \<and> unit_float (qb_coherence b) \<and>
    (days 365 \<le> now - ko_updated_at x \<longrightarrow> qb_freshness b = Fin 0) \<and> unit_float v \<and>
    kb' = kb\<lparr>kb_objects := knowledge_save (x\<lparr>ko_quality_score := v\<rparr>) (kb_objects kb)\<rparr>"
proof -
  have "(now - ko_updated_at x) div days 1 \<le> now - ko_updated_at x" using time(1) zdiv_mono2 [of "now - ko_updated_at x" 1 "days 1"] by simp
  then obtain f where f: "quality_freshness (now - ko_updated_at x) = Inr f" "unit_float f" "days 365 \<le> now - ko_updated_at x \<longrightarrow> f = Fin 0"
    using quality_freshness_unit [of "now - ko_updated_at x"] time by auto
  have signals: "int (length (filter id bs)) \<le> 3" if "length bs = 3" for bs using that length_filter_le [of id bs] by simp
  have "\<exists>c. quality_completeness truthy x = Inr c \<and> unit_float c"
    unfolding quality_completeness_def by (rule unit_truediv [OF _ signals]) simp_all
  then obtain c where c: "quality_completeness truthy x = Inr c" "unit_float c" by blast
  obtain u where u: "quality_usage (ko_usage_count x) = Inr u" "unit_float u" using quality_usage_unit [OF uses] by blast
  obtain a where a: "acceptance_rate firm (ko_id x) kb = Inr a" "unit_float a"
  proof (cases "feedback_for firm (ko_id x) kb = []")
    case True
    then show thesis using that [of "Fin 1"] by (simp add: acceptance_rate_def unit_float_def)
  next
    case False
    then show thesis
      using unit_truediv [of "int (length (filter (\<lambda>f. fb_action f = FB_ACCEPT) (feedback_for firm (ko_id x) kb)))"
          "int (length (feedback_for firm (ko_id x) kb))"] that
      by (auto simp: acceptance_rate_def Let_def)
  qed
  have h: "unit_float (status_validation (ko_status x))" unfolding unit_float_def
    by (cases "ko_status x") (simp_all, intro exI [of _ "1 / 2"], simp)
  let ?b = "\<lparr>qb_knowledge_object_id = ko_id x, qb_freshness = f, qb_completeness = c, qb_usage = u,
      qb_human_validation = status_validation (ko_status x), qb_coherence = a\<rparr>"
  have b: "evaluate_quality truthy now firm x kb = Inr ?b" by (simp add: evaluate_quality_def f c u a)
  obtain v where v: "overall_quality ?b = Inr v" "unit_float v" using overall_quality_unit [of ?b] f c u a h by auto
  have known: "known_object firm k (kb_objects kb) = Inr x" using get(1,2) by (simp only: known_object_Inr)
  then have "set_quality_score firm k v (kb_objects kb) = Inr (x\<lparr>ko_quality_score := v\<rparr>, knowledge_save (x\<lparr>ko_quality_score := v\<rparr>) (kb_objects kb))"
    by (simp add: set_quality_score_def change_object_def)
  then have "evaluate_and_store truthy now firm k kb =
      Inr (?b, kb\<lparr>kb_objects := knowledge_save (x\<lparr>ko_quality_score := v\<rparr>) (kb_objects kb)\<rparr>)"
    by (simp add: evaluate_and_store_def known b v(1))
  then show ?thesis using f c u a h v(2)
    by (intro exI [of _ ?b] exI [of _ "kb\<lparr>kb_objects := knowledge_save (x\<lparr>ko_quality_score := v\<rparr>) (kb_objects kb)\<rparr>"] exI [of _ v] conjI) simp_all
qed

lemma quality_in_unit_witness:
  "\<exists>b kb'. evaluate_and_store (\<lambda>c. c \<noteq> (0 :: int)) (days 400) ''f'' ''a'' demo_note_base = Inr (b, kb') \<and> qb_freshness b = Fin 0"
proof -
  have "\<exists>x. dict_get (kb_objects demo_note_base) ''a'' = Some x \<and> ko_firm_id x = ''f'' \<and> ko_id x = ''a'' \<and> ko_updated_at x = 0 \<and> ko_usage_count x = 0"
    by (simp add: demo_note_base_def demo_note_ops_def knowledge_op_defs)
  then obtain x where x: "dict_get (kb_objects demo_note_base) ''a'' = Some x" "ko_firm_id x = ''f''" "ko_id x = ''a''"
    "ko_updated_at x = 0" "ko_usage_count x = 0" by blast
  show ?thesis using quality_in_unit [OF x(1-3), of "days 400" "\<lambda>c. c \<noteq> 0"] x(4,5) by auto
qed

section \<open>Search and recommendations\<close>

record search_query =
  sq_type :: "knowledge_type option"
  sq_status :: "knowledge_status option"
  sq_tag :: "pystr option"
  sq_keyword :: "pystr option"
  sq_published_only :: bool

text \<open>\<open>text_of\<close> is \<open>str(content)\<close>; texts are Latin-1.\<close>

definition search_knowledge ::
  "('c \<Rightarrow> pystr) \<Rightarrow> pystr \<Rightarrow> search_query \<Rightarrow> 'c knowledge_space \<Rightarrow> 'c knowledge_object list" where
  "search_knowledge text_of firm q s =
     (let objects = list_knowledge firm (sq_type q) (sq_status q) s;
          tagged = (case sq_tag q of None \<Rightarrow> objects | Some t \<Rightarrow> filter (\<lambda>x. t \<in> ko_tags x) objects);
          published = (if sq_published_only q then filter ko_is_published tagged else tagged)
      in case sq_keyword q of
           None \<Rightarrow> published
         | Some keyword \<Rightarrow>
             (let needle = map latin1_lower keyword
              in filter (\<lambda>x. text_within needle (map latin1_lower (ko_title x)) \<or>
                             text_within needle (map latin1_lower (text_of (ko_content x)))) published))"

record knowledge_recommendation =
  kc_knowledge_object_id :: pystr
  kc_object_type :: knowledge_type
  kc_title :: pystr
  kc_score :: pyfloat

text \<open>
  The score of a candidate, or none when there are keywords and it has none of them; \<open>kws\<close> is a set in
  lower case. The sentence that explains the score is left out.
\<close>

definition matched_keywords :: "('c \<Rightarrow> pystr) \<Rightarrow> pystr list \<Rightarrow> 'c knowledge_object \<Rightarrow> pystr list" where
  "matched_keywords text_of kws x =
     (let haystack = map latin1_lower (ko_title x @ '' '' @ text_of (ko_content x))
      in filter (\<lambda>kw. text_within kw haystack) kws)"

definition recommendation_for ::
  "('c \<Rightarrow> pystr) \<Rightarrow> pystr list \<Rightarrow> 'c knowledge_object \<Rightarrow> knowledge_recommendation option result" where
  "recommendation_for text_of kws x =
     (let matched = matched_keywords text_of kws x in
      res_bind (if kws \<noteq> [] then int_truediv (int (length matched)) (int (length kws)) else Inr (Fin 0)) (\<lambda>keyword_score.
        if kws \<noteq> [] \<and> matched = [] then Inr None
        else Inr (Some \<lparr>kc_knowledge_object_id = ko_id x, kc_object_type = ko_type x, kc_title = ko_title x,
          kc_score = flt_add (flt_mul keyword_score (Fin (1 / 2))) (flt_mul (ko_quality_score x) (Fin (1 / 2)))\<rparr>)))"

fun recommendations_for ::
  "('c \<Rightarrow> pystr) \<Rightarrow> pystr list \<Rightarrow> 'c knowledge_object list \<Rightarrow> knowledge_recommendation list result" where
  "recommendations_for text_of kws [] = Inr []"
| "recommendations_for text_of kws (x # xs) =
     res_bind (recommendation_for text_of kws x) (\<lambda>r.
     res_bind (recommendations_for text_of kws xs) (\<lambda>rs. Inr (case r of None \<Rightarrow> rs | Some y \<Rightarrow> y # rs)))"

text \<open>\<open>scored.sort(key=score, reverse=True)\<close> keeps the order of equal scores.\<close>

fun insort_score :: "knowledge_recommendation \<Rightarrow> knowledge_recommendation list \<Rightarrow> knowledge_recommendation list" where
  "insort_score r [] = [r]"
| "insort_score r (x # xs) = (if flt_less (kc_score r) (kc_score x) then x # insort_score r xs else r # x # xs)"

definition sort_scores :: "knowledge_recommendation list \<Rightarrow> knowledge_recommendation list" where
  "sort_scores rs = foldr insort_score rs []"

fun use_recommended :: "pystr \<Rightarrow> knowledge_recommendation list \<Rightarrow> 'c knowledge_space \<Rightarrow> 'c knowledge_space result" where
  "use_recommended firm [] s = Inr s"
| "use_recommended firm (r # rs) s =
     res_bind (record_knowledge_usage firm (kc_knowledge_object_id r) s) (\<lambda>(_, s'). use_recommended firm rs s')"

text \<open>\<open>xs[:limit]\<close>: a negative limit leaves so many off the end.\<close>

definition slice_to :: "int \<Rightarrow> 'a list \<Rightarrow> 'a list" where
  "slice_to limit xs = take (if 0 \<le> limit then nat limit else length xs - nat (- limit)) xs"

definition recommend_knowledge ::
  "('c \<Rightarrow> pystr) \<Rightarrow> pystr \<Rightarrow> pystr option \<Rightarrow> pystr list \<Rightarrow> int \<Rightarrow> 'c knowledge_space
     \<Rightarrow> (knowledge_recommendation list \<times> 'c knowledge_space) result" where
  "recommend_knowledge text_of firm domain_tag context_keywords limit s =
     (let candidates = search_knowledge text_of firm
            \<lparr>sq_type = None, sq_status = None, sq_tag = domain_tag, sq_keyword = None, sq_published_only = True\<rparr> s;
          kws = remdups (map (map latin1_lower) context_keywords)
      in res_bind (recommendations_for text_of kws candidates) (\<lambda>scored.
           let top = slice_to limit (sort_scores scored)
           in res_bind (use_recommended firm top s) (\<lambda>s'. Inr (top, s'))))"

text \<open>What is found and what is sorted.\<close>

lemma candidate_iff:
  "x \<in> set (search_knowledge text_of firm \<lparr>sq_type = None, sq_status = None, sq_tag = t, sq_keyword = None, sq_published_only = True\<rparr> s) \<longleftrightarrow>
     x \<in> set (dict_values s) \<and> ko_firm_id x = firm \<and> ko_is_published x \<and> (case t of None \<Rightarrow> True | Some tag \<Rightarrow> tag \<in> ko_tags x)"
  by (auto simp: search_knowledge_def list_knowledge_def split: option.splits)

lemma set_insort_score: "set (insort_score r xs) = insert r (set xs)"
  by (induction xs) auto

lemma set_sort_scores: "set (sort_scores rs) = set rs"
  unfolding sort_scores_def by (induction rs) (auto simp: set_insort_score)

lemma length_insort_score: "length (insort_score r xs) = Suc (length xs)"
  by (induction xs) auto

lemma length_sort_scores: "length (sort_scores rs) = length rs"
  unfolding sort_scores_def by (induction rs) (auto simp: length_insort_score)

definition finite_score :: "knowledge_recommendation \<Rightarrow> bool" where
  "finite_score r \<longleftrightarrow> (\<exists>q. kc_score r = Fin q)"

lemma insort_score_sorted:
  assumes "sorted_wrt (\<lambda>a b. \<not> flt_less (kc_score a) (kc_score b)) xs" and "\<forall>x \<in> set (r # xs). finite_score x"
  shows "sorted_wrt (\<lambda>a b. \<not> flt_less (kc_score a) (kc_score b)) (insort_score r xs)"
  using assms
proof (induction xs)
  case (Cons x xs)
  then obtain p q where r: "kc_score r = Fin p" "kc_score x = Fin q" by (auto simp: finite_score_def)
  have "\<not> flt_less (Fin p) (kc_score y)" if le: "\<not> p < q" and y: "y \<in> set xs" for y
  proof -
    obtain z where "kc_score y = Fin z" using Cons.prems(2) y by (auto simp: finite_score_def)
    then show ?thesis using Cons.prems(1) le y r by force
  qed
  then show ?case using Cons r by (auto simp: set_insort_score)
qed simp

lemma sort_scores_sorted:
  "\<forall>x \<in> set rs. finite_score x \<Longrightarrow> sorted_wrt (\<lambda>a b. \<not> flt_less (kc_score a) (kc_score b)) (sort_scores rs)"
proof (induction rs)
  case (Cons r rs)
  then have "sorted_wrt (\<lambda>a b. \<not> flt_less (kc_score a) (kc_score b)) (insort_score r (sort_scores rs))"
    by (intro insort_score_sorted) (auto simp: set_sort_scores)
  then show ?case by (simp add: sort_scores_def)
qed (simp add: sort_scores_def)

definition relevant_object :: "('c \<Rightarrow> pystr) \<Rightarrow> pystr list \<Rightarrow> 'c knowledge_object \<Rightarrow> bool" where
  "relevant_object text_of kws x \<longleftrightarrow> kws = [] \<or> matched_keywords text_of kws x \<noteq> []"

lemma recommendation_for_total:
  assumes "unit_float (ko_quality_score x)"
  shows "\<exists>r. recommendation_for text_of kws x = Inr r \<and> (r = None \<longleftrightarrow> \<not> relevant_object text_of kws x) \<and>
    (\<forall>y. r = Some y \<longrightarrow> finite_score y \<and> kc_knowledge_object_id y = ko_id x)"
proof -
  obtain q where q: "ko_quality_score x = Fin q" "0 \<le> q" "q \<le> 1" using assms unfolding unit_float_def by blast
  let ?matched = "matched_keywords text_of kws x"
  have "length ?matched \<le> length kws" by (simp add: matched_keywords_def Let_def)
  then have "\<exists>p. (if kws \<noteq> [] then int_truediv (int (length ?matched)) (int (length kws)) else Inr (Fin 0)) = Inr (Fin p) \<and> 0 \<le> p \<and> p \<le> 1"
    using unit_truediv [of "int (length ?matched)" "int (length kws)"] by (auto simp: unit_float_def)
  then obtain p where p: "(if kws \<noteq> [] then int_truediv (int (length ?matched)) (int (length kws)) else Inr (Fin 0)) = Inr (Fin p)"
      "0 \<le> p" "p \<le> 1" by blast
  obtain a where a: "round64 (p / 2) = Fin a" "0 \<le> a" "a \<le> 1" using round64_upto [of "p / 2" 1] p by auto
  obtain b where b: "round64 (q / 2) = Fin b" "0 \<le> b" "b \<le> 1" using round64_upto [of "q / 2" 1] q by auto
  obtain c where c: "round64 (a + b) = Fin c" using round64_upto [of "a + b" 2] a b by auto
  have score: "flt_add (flt_mul (Fin p) (Fin (1 / 2))) (flt_mul (ko_quality_score x) (Fin (1 / 2))) = Fin c" by (simp add: q a b c)
  have "recommendation_for text_of kws x =
      (if kws \<noteq> [] \<and> ?matched = [] then Inr None
       else Inr (Some \<lparr>kc_knowledge_object_id = ko_id x, kc_object_type = ko_type x, kc_title = ko_title x, kc_score = Fin c\<rparr>))"
    unfolding recommendation_for_def Let_def p(1) res_bind.simps score ..
  then show ?thesis by (cases "kws \<noteq> [] \<and> ?matched = []") (auto simp: relevant_object_def finite_score_def)
qed

lemma recommendations_for_total:
  assumes "\<forall>x \<in> set xs. unit_float (ko_quality_score x)"
  shows "\<exists>rs. recommendations_for text_of kws xs = Inr rs \<and> (\<forall>r \<in> set rs. finite_score r) \<and>
    map kc_knowledge_object_id rs = map ko_id (filter (relevant_object text_of kws) xs)"
  using assms
proof (induction xs)
  case (Cons x xs)
  then obtain rs where rs: "recommendations_for text_of kws xs = Inr rs" "\<forall>r \<in> set rs. finite_score r"
      "map kc_knowledge_object_id rs = map ko_id (filter (relevant_object text_of kws) xs)" by auto
  obtain r where r: "recommendation_for text_of kws x = Inr r" "r = None \<longleftrightarrow> \<not> relevant_object text_of kws x"
      "\<forall>y. r = Some y \<longrightarrow> finite_score y \<and> kc_knowledge_object_id y = ko_id x"
    using recommendation_for_total [where x = x and text_of = text_of and kws = kws] Cons.prems by auto
  show ?case using rs r by (cases r) auto
qed simp

text \<open>Counting the uses.\<close>

lemma use_recommended_total:
  assumes "distinct (map kc_knowledge_object_id rs)"
    and "\<forall>r \<in> set rs. \<exists>x. dict_get s (kc_knowledge_object_id r) = Some x \<and> ko_firm_id x = firm \<and> ko_id x = kc_knowledge_object_id r"
  shows "\<exists>s'. use_recommended firm rs s = Inr s' \<and>
    (\<forall>k. dict_get s' k = (if k \<in> kc_knowledge_object_id ` set rs
       then map_option (\<lambda>x. x\<lparr>ko_usage_count := ko_usage_count x + 1\<rparr>) (dict_get s k) else dict_get s k))"
  using assms
proof (induction rs arbitrary: s)
  case (Cons r rs)
  then obtain x where x: "dict_get s (kc_knowledge_object_id r) = Some x" "ko_firm_id x = firm" "ko_id x = kc_knowledge_object_id r" by auto
  let ?s = "knowledge_save (x\<lparr>ko_usage_count := ko_usage_count x + 1\<rparr>) s"
  have use: "record_knowledge_usage firm (kc_knowledge_object_id r) s = Inr (x\<lparr>ko_usage_count := ko_usage_count x + 1\<rparr>, ?s)"
    unfolding record_knowledge_usage_def change_object_Inr using x by blast
  have get: "dict_get ?s k = (if k = kc_knowledge_object_id r then Some (x\<lparr>ko_usage_count := ko_usage_count x + 1\<rparr>) else dict_get s k)" for k
    by (simp add: knowledge_get_save x(3))
  have "\<forall>r' \<in> set rs. \<exists>x. dict_get ?s (kc_knowledge_object_id r') = Some x \<and> ko_firm_id x = firm \<and> ko_id x = kc_knowledge_object_id r'"
    using Cons.prems by (auto simp: get image_iff)
  then have "\<exists>s'. use_recommended firm rs ?s = Inr s' \<and> (\<forall>k. dict_get s' k = (if k \<in> kc_knowledge_object_id ` set rs
       then map_option (\<lambda>x. x\<lparr>ko_usage_count := ko_usage_count x + 1\<rparr>) (dict_get ?s k) else dict_get ?s k))"
    using Cons.prems(1) by (intro Cons.IH) simp_all
  then obtain s' where s': "use_recommended firm rs ?s = Inr s'" "\<forall>k. dict_get s' k = (if k \<in> kc_knowledge_object_id ` set rs
       then map_option (\<lambda>x. x\<lparr>ko_usage_count := ko_usage_count x + 1\<rparr>) (dict_get ?s k) else dict_get ?s k)" by blast
  have "kc_knowledge_object_id r \<notin> kc_knowledge_object_id ` set rs" using Cons.prems(1) by simp
  then have "dict_get s' k = (if k \<in> kc_knowledge_object_id ` set (r # rs)
       then map_option (\<lambda>x. x\<lparr>ko_usage_count := ko_usage_count x + 1\<rparr>) (dict_get s k) else dict_get s k)" for k
    using s'(2) x(1) by (cases "k = kc_knowledge_object_id r") (simp_all add: get)
  then show ?case using use s'(1) by (intro exI [of _ s']) simp
qed simp

lemma distinct_sort_scores: "distinct (map kc_knowledge_object_id rs) \<Longrightarrow> distinct (map kc_knowledge_object_id (sort_scores rs))"
proof -
  have "distinct (map kc_knowledge_object_id (insort_score r xs)) \<longleftrightarrow> distinct (map kc_knowledge_object_id (r # xs))" for r xs
    by (induction xs) (auto simp: set_insort_score)
  moreover assume "distinct (map kc_knowledge_object_id rs)"
  ultimately show ?thesis
    unfolding sort_scores_def by (induction rs) (auto simp: set_sort_scores [unfolded sort_scores_def])
qed

text \<open>
  C40. What is recommended: a recommendation made to a firm is a published object of its own, hence one that a person validated
  with its present content. The recommendations are in the order of their scores, at most as many as asked for (a negative
  limit is Python's: it leaves the last ones out); when nothing
  in particular is asked for and the limit allows, every published object of the firm is among them. Each counts as
  one use, and nothing else changes.
\<close>

theorem recommendations_validated:
  assumes trace: "knowledge_trace ops kb" and scores: "\<forall>x \<in> set (dict_values (kb_objects kb)). unit_float (ko_quality_score x)"
  shows "\<exists>top s'. recommend_knowledge text_of firm tag context_keywords limit (kb_objects kb) = Inr (top, s') \<and>
    (0 \<le> limit \<longrightarrow> int (length top) \<le> limit) \<and>
    sorted_wrt (\<lambda>a b. \<not> flt_less (kc_score a) (kc_score b)) top \<and>
    (\<forall>r \<in> set top. \<exists>x. dict_get (kb_objects kb) (kc_knowledge_object_id r) = Some x \<and> ko_firm_id x = firm \<and>
       ko_is_published x \<and> ko_status x = KS_VALIDATED \<and> validated_by_person ops (kc_knowledge_object_id r) x) \<and>
    (\<forall>x \<in> set (dict_values (kb_objects kb)). ko_firm_id x = firm \<and> ko_is_published x \<and> tag = None \<and> context_keywords = [] \<and>
       int (length (kb_objects kb)) \<le> limit \<longrightarrow> ko_id x \<in> kc_knowledge_object_id ` set top) \<and>
    (\<forall>k. dict_get s' k = (if k \<in> kc_knowledge_object_id ` set top
       then map_option (\<lambda>x. x\<lparr>ko_usage_count := ko_usage_count x + 1\<rparr>) (dict_get (kb_objects kb) k) else dict_get (kb_objects kb) k))"
proof -
  let ?q = "\<lparr>sq_type = None, sq_status = None, sq_tag = tag, sq_keyword = None, sq_published_only = True\<rparr>"
  let ?cs = "search_knowledge text_of firm ?q (kb_objects kb)" and ?kws = "remdups (map (map latin1_lower) context_keywords)"
  have ok: "knowledge_ok kb" by (rule knowledge_trace_ok [OF trace])
  then have key: "keyed ko_id (kb_objects kb)" by (simp add: knowledge_ok_def)
  have get: "dict_get (kb_objects kb) (ko_id x) = Some x" if "x \<in> set (dict_values (kb_objects kb))" for x
    using that keyed_get_iff [OF key] by simp
  have cand: "\<forall>x \<in> set ?cs. unit_float (ko_quality_score x)"
  proof
    fix x assume "x \<in> set ?cs"
    then have "x \<in> set (dict_values (kb_objects kb))" by (simp only: candidate_iff)
    then show "unit_float (ko_quality_score x)" using scores by blast
  qed
  obtain rs where rs: "recommendations_for text_of ?kws ?cs = Inr rs" "\<forall>r \<in> set rs. finite_score r"
      "map kc_knowledge_object_id rs = map ko_id (filter (relevant_object text_of ?kws) ?cs)"
    using recommendations_for_total [OF cand] by blast
  let ?m = "if 0 \<le> limit then nat limit else length (sort_scores rs) - nat (- limit)"
  let ?top = "take ?m (sort_scores rs)"
  have found: "\<exists>x. x \<in> set ?cs \<and> kc_knowledge_object_id r = ko_id x" if "r \<in> set rs" for r
  proof -
    have "kc_knowledge_object_id r \<in> set (map kc_knowledge_object_id rs)" using that by simp
    then show ?thesis unfolding rs(3) by auto
  qed
  have top: "set ?top \<subseteq> set rs" using set_take_subset [of ?m "sort_scores rs"] by (simp add: set_sort_scores)
  have valid: "\<exists>x. dict_get (kb_objects kb) (kc_knowledge_object_id r) = Some x \<and> ko_firm_id x = firm \<and> ko_id x = kc_knowledge_object_id r \<and>
       ko_is_published x \<and> ko_status x = KS_VALIDATED \<and> validated_by_person ops (kc_knowledge_object_id r) x" if r: "r \<in> set ?top" for r
  proof -
    obtain x where x: "x \<in> set ?cs" "kc_knowledge_object_id r = ko_id x" using found top r by blast
    then have "x \<in> set (dict_values (kb_objects kb))" and own: "ko_firm_id x = firm" "ko_is_published x" by (simp_all only: candidate_iff)
    then have g: "dict_get (kb_objects kb) (ko_id x) = Some x" by (intro get)
    then have "ko_status x = KS_VALIDATED" using knowledge_ok_sound [OF ok g] own by (simp add: sound_object_def)
    then show ?thesis using g x own validated_reachable [OF trace g] by auto
  qed
  have "distinct (map ko_id (dict_values (kb_objects kb)))"
    using key by (auto simp: keyed_def comp_def split_beta cong: map_cong)
  then have "distinct (map ko_id ?cs)"
    unfolding search_knowledge_def list_knowledge_def Let_def
    by (auto simp del: map_map intro!: distinct_map_filter split: option.split)
  then have "distinct (map kc_knowledge_object_id rs)" unfolding rs(3) by (rule distinct_map_filter)
  then have dist: "distinct (map kc_knowledge_object_id ?top)"
    using distinct_sort_scores by (simp add: take_map [symmetric])
  obtain s' where s': "use_recommended firm ?top (kb_objects kb) = Inr s'"
      "\<forall>k. dict_get s' k = (if k \<in> kc_knowledge_object_id ` set ?top
       then map_option (\<lambda>x. x\<lparr>ko_usage_count := ko_usage_count x + 1\<rparr>) (dict_get (kb_objects kb) k) else dict_get (kb_objects kb) k)"
    using use_recommended_total [OF dist, of "kb_objects kb" firm] valid by blast
  have "recommend_knowledge text_of firm tag context_keywords limit (kb_objects kb) = Inr (?top, s')"
    by (simp only: recommend_knowledge_def slice_to_def rs(1) s'(1) Let_def res_bind.simps)
  note result = this
  have sorted: "sorted_wrt (\<lambda>a b. \<not> flt_less (kc_score a) (kc_score b)) ?top"
    by (rule sorted_wrt_take [OF sort_scores_sorted [OF rs(2)]])
  have every: "ko_id x \<in> kc_knowledge_object_id ` set ?top"
    if x: "x \<in> set (dict_values (kb_objects kb))" "ko_firm_id x = firm" "ko_is_published x" "tag = None" "context_keywords = []"
      "int (length (kb_objects kb)) \<le> limit" for x
  proof -
    have all: "filter (relevant_object text_of ?kws) ?cs = ?cs" using x(5) by (simp add: relevant_object_def)
    have "length rs = length ?cs" using arg_cong [OF rs(3), of length] unfolding all by simp
    also have "\<dots> \<le> length (kb_objects kb)"
      using x(4) by (auto simp: search_knowledge_def list_knowledge_def intro!: order_trans [OF length_filter_le])
    finally have "set ?top = set rs" using x(6) by (simp add: length_sort_scores set_sort_scores)
    moreover have "x \<in> set ?cs" using x by (simp only: candidate_iff option.case simp_thms)
    then have "ko_id x \<in> set (map kc_knowledge_object_id rs)" unfolding rs(3) all by simp
    ultimately show ?thesis by simp
  qed
  have valid': "\<exists>x. dict_get (kb_objects kb) (kc_knowledge_object_id r) = Some x \<and> ko_firm_id x = firm \<and>
       ko_is_published x \<and> ko_status x = KS_VALIDATED \<and> validated_by_person ops (kc_knowledge_object_id r) x" if "r \<in> set ?top" for r
    using valid [OF that] by blast
  have few: "int (length ?top) \<le> limit" if "0 \<le> limit" using that by simp
  show ?thesis
    by (intro exI [of _ ?top] exI [of _ s'] conjI ballI impI) (use few result sorted every valid' s'(2) in \<open>blast | simp\<close>)+
qed

lemma recommendations_validated_witness:
  "\<exists>top s'. recommend_knowledge (\<lambda>c. ''text'') ''f'' None [] 5 (kb_objects demo_note_base) = Inr (top, s') \<and>
     ''a'' \<in> kc_knowledge_object_id ` set top"
proof -
  have "\<exists>x. x \<in> set (dict_values (kb_objects demo_note_base)) \<and> ko_firm_id x = ''f'' \<and> ko_is_published x \<and> ko_id x = ''a'' \<and>
      int (length (kb_objects demo_note_base)) \<le> 5"
    by (simp add: demo_note_base_def demo_note_ops_def knowledge_op_defs)
  then obtain x where x: "x \<in> set (dict_values (kb_objects demo_note_base))" "ko_firm_id x = ''f''" "ko_is_published x" "ko_id x = ''a''"
      "int (length (kb_objects demo_note_base)) \<le> 5" by blast
  have scores: "\<forall>x \<in> set (dict_values (kb_objects demo_note_base)). unit_float (ko_quality_score x)"
    by (simp add: demo_note_base_def demo_note_ops_def knowledge_op_defs unit_float_def)
  obtain top s' where top: "recommend_knowledge (\<lambda>c. ''text'') ''f'' None [] 5 (kb_objects demo_note_base) = Inr (top, s')"
    and all: "\<forall>x \<in> set (dict_values (kb_objects demo_note_base)). ko_firm_id x = ''f'' \<and> ko_is_published x \<and> (None :: pystr option) = None \<and>
       ([] :: pystr list) = [] \<and> int (length (kb_objects demo_note_base)) \<le> 5 \<longrightarrow> ko_id x \<in> kc_knowledge_object_id ` set top"
    using recommendations_validated [OF demo_note_trace scores, of "\<lambda>c. ''text''" "''f''" None "[]" 5]
    by (elim exE conjE) (rule that)
  have "''a'' \<in> kc_knowledge_object_id ` set top" using bspec [OF all x(1)] x by simp
  then show ?thesis using top by blast
qed

section \<open>Playbooks\<close>

text \<open>Content that comes from and goes to JSON; a tuple made of a list has its elements.\<close>

datatype json =
    JNull
  | JBool bool
  | JInt int
  | JFloat pyfloat
  | JStr pystr
  | JList "json list"
  | JDict "(pystr \<times> json) list"

fun json_type_name :: "json \<Rightarrow> pystr" where
  "json_type_name JNull = ''NoneType''"
| "json_type_name (JBool _) = ''bool''"
| "json_type_name (JInt _) = ''int''"
| "json_type_name (JFloat _) = ''float''"
| "json_type_name (JStr _) = ''str''"
| "json_type_name (JList _) = ''list''"
| "json_type_name (JDict _) = ''dict''"

text \<open>\<open>for x in v\<close> and \<open>tuple(v)\<close>; \<open>v["key"]\<close>; \<open>v.get("key", ())\<close> of a dictionary.\<close>

fun json_items :: "json \<Rightarrow> json list result" where
  "json_items (JList xs) = Inr xs"
| "json_items (JStr s) = Inr (map (\<lambda>c. JStr [c]) s)"
| "json_items (JDict d) = Inr (map (\<lambda>(k, _). JStr k) d)"
| "json_items v = Inl (TypeError ([CHR 0x27] @ json_type_name v @ [CHR 0x27] @ '' object is not iterable''))"

fun json_at :: "json \<Rightarrow> pystr \<Rightarrow> json result" where
  "json_at (JDict d) k = (case dict_get d k of None \<Rightarrow> Inl (KeyError k) | Some v \<Rightarrow> Inr v)"
| "json_at (JStr _) k = Inl (TypeError ''string indices must be integers'')"
| "json_at (JList _) k = Inl (TypeError ''list indices must be integers or slices, not str'')"
| "json_at v k = Inl (TypeError ([CHR 0x27] @ json_type_name v @ [CHR 0x27] @ '' object is not subscriptable''))"

fun json_items_at :: "json \<Rightarrow> pystr \<Rightarrow> json list result" where
  "json_items_at (JDict d) k = (case dict_get d k of None \<Rightarrow> Inr [] | Some v \<Rightarrow> json_items v)"
| "json_items_at v k = Inl (Foreign ''AttributeError'' ([CHR 0x27] @ json_type_name v @ [CHR 0x27] @ '' object has no attribute '' @
     [CHR 0x27] @ ''get'' @ [CHR 0x27]))"

record playbook_step =
  ps_order :: json
  ps_title :: json
  ps_description :: json
  ps_documents :: "json list"
  ps_risks :: "json list"
  ps_vigilance_points :: "json list"

record playbook =
  pk_id :: pystr
  pk_case_type :: json
  pk_title :: pystr
  pk_steps :: "playbook_step list"
  pk_checklist :: "json list"

definition step_to_content :: "playbook_step \<Rightarrow> json" where
  "step_to_content st = JDict [(''order'', ps_order st), (''title'', ps_title st), (''description'', ps_description st),
     (''documents'', JList (ps_documents st)), (''risks'', JList (ps_risks st)), (''vigilance_points'', JList (ps_vigilance_points st))]"

definition playbook_to_content :: "playbook \<Rightarrow> json" where
  "playbook_to_content p = JDict [(''case_type'', pk_case_type p), (''steps'', JList (map step_to_content (pk_steps p))),
     (''checklist'', JList (pk_checklist p))]"

definition step_from_content :: "json \<Rightarrow> playbook_step result" where
  "step_from_content v =
     res_bind (json_at v ''order'') (\<lambda>order. res_bind (json_at v ''title'') (\<lambda>title.
     res_bind (json_at v ''description'') (\<lambda>description. res_bind (json_items_at v ''documents'') (\<lambda>documents.
     res_bind (json_items_at v ''risks'') (\<lambda>risks. res_bind (json_items_at v ''vigilance_points'') (\<lambda>points.
       Inr \<lparr>ps_order = order, ps_title = title, ps_description = description, ps_documents = documents, ps_risks = risks,
            ps_vigilance_points = points\<rparr>))))))"

fun steps_from_content :: "json list \<Rightarrow> playbook_step list result" where
  "steps_from_content [] = Inr []"
| "steps_from_content (v # vs) =
     res_bind (step_from_content v) (\<lambda>st. res_bind (steps_from_content vs) (\<lambda>sts. Inr (st # sts)))"

fun knowledge_type_value :: "knowledge_type \<Rightarrow> pystr" where
  "knowledge_type_value KT_PLAYBOOK = ''playbook''"
| "knowledge_type_value KT_CLAUSE = ''clause''"
| "knowledge_type_value KT_TEMPLATE = ''template''"
| "knowledge_type_value KT_REASONING_PATTERN = ''reasoning_pattern''"
| "knowledge_type_value KT_WRITING_STYLE = ''writing_style''"
| "knowledge_type_value KT_BEST_PRACTICE = ''best_practice''"
| "knowledge_type_value KT_LESSON_LEARNED = ''lesson_learned''"
| "knowledge_type_value KT_NOTE = ''note''"
| "knowledge_type_value KT_CHECKLIST = ''checklist''"
| "knowledge_type_value KT_GUIDE = ''guide''"
| "knowledge_type_value KT_INTERNAL_RULE = ''internal_rule''"
| "knowledge_type_value KT_JURISPRUDENCE_NOTE = ''jurisprudence_note''"
| "knowledge_type_value KT_COMMENT = ''comment''"
| "knowledge_type_value KT_DECISION = ''decision''"
| "knowledge_type_value KT_CONTRACT = ''contract''"

definition playbook_from_knowledge_object :: "json knowledge_object \<Rightarrow> playbook result" where
  "playbook_from_knowledge_object x =
     (if ko_type x \<noteq> KT_PLAYBOOK
      then Inl (ValueError (ko_id x @ '' is not a playbook (type='' @ knowledge_type_value (ko_type x) @ '')''))
      else
        res_bind (json_at (ko_content x) ''steps'') (\<lambda>v. res_bind (json_items v) (\<lambda>vs. res_bind (steps_from_content vs) (\<lambda>steps.
        res_bind (json_at (ko_content x) ''case_type'') (\<lambda>case_type. res_bind (json_items_at (ko_content x) ''checklist'') (\<lambda>checklist.
          Inr \<lparr>pk_id = ko_id x, pk_case_type = case_type, pk_title = ko_title x, pk_steps = steps, pk_checklist = checklist\<rparr>))))))"

subsection \<open>Instances\<close>

record playbook_instance =
  pn_id :: pystr
  pn_firm_id :: pystr
  pn_playbook_id :: pystr
  pn_case_reference :: "pystr option"
  pn_started_at :: datetime
  pn_completed_step_orders :: "int set"
  pn_completed_at :: "datetime option"

type_synonym playbook_instances = "(pystr, playbook_instance) dict"

definition get_playbook :: "pystr \<Rightarrow> pystr \<Rightarrow> json knowledge_space \<Rightarrow> playbook result" where
  "get_playbook firm k s = res_bind (known_object firm k s) playbook_from_knowledge_object"

definition start_instance ::
  "pystr \<Rightarrow> datetime \<Rightarrow> pystr \<Rightarrow> pystr \<Rightarrow> pystr option \<Rightarrow> json knowledge_space \<times> playbook_instances
     \<Rightarrow> (playbook_instance \<times> json knowledge_space \<times> playbook_instances) result" where
  "start_instance new_id now firm k case_reference st =
     (case st of (s, ins) \<Rightarrow>
        res_bind (known_object firm k s) (\<lambda>x.
          if ko_status x \<noteq> KS_VALIDATED
          then Inl (ValueError (''Playbook '' @ k @ '' is '' @ knowledge_status_value (ko_status x) @ '', expected validated''))
          else res_bind (record_knowledge_usage firm k s) (\<lambda>(_, s').
            let i = \<lparr>pn_id = new_id, pn_firm_id = firm, pn_playbook_id = k, pn_case_reference = case_reference, pn_started_at = now,
                     pn_completed_step_orders = {}, pn_completed_at = None\<rparr>
            in Inr (i, s', dict_set (pn_id i) i ins))))"

text \<open>\<open>n in {s.order for s in steps}\<close>: numbers and booleans are compared by value; a list or a dictionary cannot be in a set.\<close>

fun json_equals_int :: "int \<Rightarrow> json \<Rightarrow> bool" where
  "json_equals_int n (JInt m) \<longleftrightarrow> m = n"
| "json_equals_int n (JBool b) \<longleftrightarrow> n = (if b then 1 else 0)"
| "json_equals_int n (JFloat x) \<longleftrightarrow> x = Fin (of_int n)"
| "json_equals_int n _ \<longleftrightarrow> False"

fun hashable_json :: "json \<Rightarrow> bool" where
  "hashable_json (JList _) \<longleftrightarrow> False"
| "hashable_json (JDict _) \<longleftrightarrow> False"
| "hashable_json _ \<longleftrightarrow> True"

definition order_known :: "int \<Rightarrow> playbook \<Rightarrow> bool result" where
  "order_known n p =
     (case List.find (\<lambda>st. \<not> hashable_json (ps_order st)) (pk_steps p) of
        Some st \<Rightarrow> Inl (TypeError (''unhashable type: '' @ [CHR 0x27] @ json_type_name (ps_order st) @ [CHR 0x27]))
      | None \<Rightarrow> Inr (\<exists>st \<in> set (pk_steps p). json_equals_int n (ps_order st)))"

definition find_instance :: "pystr \<Rightarrow> pystr \<Rightarrow> playbook_instances \<Rightarrow> playbook_instance result" where
  "find_instance firm instance_id ins =
     (case dict_get ins instance_id of
        None \<Rightarrow> Inl (KeyError instance_id)
      | Some i \<Rightarrow> if pn_firm_id i \<noteq> firm then Inl (KeyError instance_id) else Inr i)"

definition complete_step ::
  "datetime \<Rightarrow> pystr \<Rightarrow> pystr \<Rightarrow> int \<Rightarrow> json knowledge_space \<times> playbook_instances
     \<Rightarrow> (playbook_instance \<times> json knowledge_space \<times> playbook_instances) result" where
  "complete_step now firm instance_id n st =
     (case st of (s, ins) \<Rightarrow>
        res_bind (find_instance firm instance_id ins) (\<lambda>i.
        res_bind (get_playbook firm (pn_playbook_id i) s) (\<lambda>p.
        res_bind (order_known n p) (\<lambda>known.
          if \<not> known then Inl (ValueError (''Unknown step order '' @ dec_int n @ '' for playbook '' @ pk_id p))
          else let completed = insert n (pn_completed_step_orders i);
                   i' = i\<lparr>pn_completed_step_orders := completed,
                          pn_completed_at := (if card completed = length (pk_steps p) then Some now else pn_completed_at i)\<rparr>
               in Inr (i', s, dict_set (pn_id i') i' ins)))))"

definition playbook_progress :: "pystr \<Rightarrow> pystr \<Rightarrow> json knowledge_space \<times> playbook_instances \<Rightarrow> pyfloat result" where
  "playbook_progress firm instance_id st =
     (case st of (s, ins) \<Rightarrow>
        res_bind (find_instance firm instance_id ins) (\<lambda>i.
        res_bind (get_playbook firm (pn_playbook_id i) s) (\<lambda>p.
          if pk_steps p = [] then Inr (Fin 1)
          else int_truediv (int (card (pn_completed_step_orders i))) (int (length (pk_steps p))))))"

lemma step_roundtrip: "step_from_content (step_to_content st) = Inr st"
  by (simp add: step_to_content_def step_from_content_def)

lemma steps_roundtrip: "steps_from_content (map step_to_content sts) = Inr sts"
  by (induction sts) (simp_all add: step_roundtrip)

lemma playbook_read:
  assumes "ko_type x = KT_PLAYBOOK" and "ko_content x = playbook_to_content p"
  shows "playbook_from_knowledge_object x = Inr (p\<lparr>pk_id := ko_id x, pk_title := ko_title x\<rparr>)"
  using assms by (simp add: playbook_from_knowledge_object_def playbook_to_content_def steps_roundtrip)

text \<open>
  A playbook written into an object is read back exactly, with the identifier and the title of the object, whatever values
  its fields have; an object of another type is refused, and so is a content without steps.
\<close>

theorem playbook_roundtrip:
  "(ko_type x = KT_PLAYBOOK \<and> ko_content x = playbook_to_content p \<longrightarrow>
      playbook_from_knowledge_object x = Inr (p\<lparr>pk_id := ko_id x, pk_title := ko_title x\<rparr>)) \<and>
   (ko_type x \<noteq> KT_PLAYBOOK \<longrightarrow> (\<exists>m. playbook_from_knowledge_object x = Inl (ValueError m))) \<and>
   (ko_type x = KT_PLAYBOOK \<and> ko_content x = JDict d \<and> dict_get d ''steps'' = None \<longrightarrow>
      playbook_from_knowledge_object x = Inl (KeyError ''steps''))"
  using playbook_read by (auto simp: playbook_from_knowledge_object_def)

definition demo_playbook_step :: "int \<Rightarrow> playbook_step" where
  "demo_playbook_step n = \<lparr>ps_order = JInt n, ps_title = JStr ''t'', ps_description = JNull, ps_documents = [], ps_risks = [JStr ''r''],
     ps_vigilance_points = []\<rparr>"

definition demo_playbook :: "int list \<Rightarrow> playbook" where
  "demo_playbook ns = \<lparr>pk_id = ''p'', pk_case_type = JStr ''social'', pk_title = ''book'', pk_steps = map demo_playbook_step ns, pk_checklist = []\<rparr>"

definition demo_playbook_object :: "int list \<Rightarrow> json knowledge_object" where
  "demo_playbook_object ns = fst (create_knowledge ''p'' 0 0 ''f'' KT_PLAYBOOK ''book'' (playbook_to_content (demo_playbook ns)) ''ana'' {} [])"

lemma demo_playbook_object_fields:
  "ko_type (demo_playbook_object ns) = KT_PLAYBOOK" "ko_content (demo_playbook_object ns) = playbook_to_content (demo_playbook ns)"
  "ko_id (demo_playbook_object ns) = ''p''" "ko_title (demo_playbook_object ns) = ''book''" "ko_firm_id (demo_playbook_object ns) = ''f''"
  by (simp_all add: demo_playbook_object_def create_knowledge_def Let_def)

lemma playbook_roundtrip_witness:
  "playbook_from_knowledge_object (demo_playbook_object [1, 2]) = Inr (demo_playbook [1, 2])"
proof -
  have "demo_playbook [1, 2]\<lparr>pk_id := ''p'', pk_title := ''book''\<rparr> = demo_playbook [1, 2]" by (simp add: demo_playbook_def)
  then show ?thesis
    using conjunct1 [OF playbook_roundtrip, of "demo_playbook_object [1, 2]" "demo_playbook [1, 2]"] by (simp add: demo_playbook_object_fields)
qed

text \<open>The steps of an instance, when the orders of the playbook are different numbers.\<close>

lemma order_known_numbers:
  assumes "map ps_order (pk_steps p) = map JInt ns"
  shows "order_known n p = Inr (n \<in> set ns)"
proof -
  have orders: "ps_order ` set (pk_steps p) = JInt ` set ns" by (metis assms list.set_map)
  have "List.find (\<lambda>st. \<not> hashable_json (ps_order st)) (pk_steps p) = None"
    unfolding find_None_iff using orders by (metis hashable_json.simps(5) imageE imageI)
  moreover have "(\<exists>st \<in> set (pk_steps p). json_equals_int n (ps_order st)) \<longleftrightarrow> (\<exists>v \<in> JInt ` set ns. json_equals_int n v)"
    unfolding orders [symmetric] by simp
  ultimately show ?thesis by (auto simp: order_known_def)
qed

text \<open>
  Progress on a playbook whose steps have different numbers: a step of the playbook can be completed, any other number is
  refused; the instance is complete exactly when all steps are, and progress is a number between 0 and 1 that is
  1 exactly then.
\<close>

theorem playbook_completion:
  assumes inst: "dict_get ins i_id = Some i" "pn_firm_id i = firm" "pn_id i = i_id"
    and book: "get_playbook firm (pn_playbook_id i) s = Inr p" "map ps_order (pk_steps p) = map JInt ns" "distinct ns"
    and so_far: "pn_completed_step_orders i \<subset> set ns" "pn_completed_at i = None"
  shows "(n \<notin> set ns \<longrightarrow> (\<exists>m. complete_step now firm i_id n (s, ins) = Inl (ValueError m))) \<and>
    (n \<in> set ns \<longrightarrow> (\<exists>i' ins'. complete_step now firm i_id n (s, ins) = Inr (i', s, ins') \<and> dict_get ins' i_id = Some i' \<and>
       pn_completed_step_orders i' = insert n (pn_completed_step_orders i) \<and> pn_completed_step_orders i' \<subseteq> set ns \<and>
       (pn_completed_at i' \<noteq> None \<longleftrightarrow> pn_completed_step_orders i' = set ns) \<and>
       (\<exists>v. playbook_progress firm i_id (s, ins') = Inr v \<and> unit_float v) \<and>
       (pn_completed_step_orders i' = set ns \<longrightarrow> playbook_progress firm i_id (s, ins') = Inr (Fin 1))))"
proof -
  have found: "find_instance firm i_id ins = Inr i" using inst by (simp add: find_instance_def)
  have known: "order_known n p = Inr (n \<in> set ns)" by (rule order_known_numbers [OF book(2)])
  have len: "length (pk_steps p) = length ns" by (metis book(2) length_map)
  have card: "card (set ns) = length ns" by (rule distinct_card [OF book(3)])
  let ?done = "insert n (pn_completed_step_orders i)"
  let ?i = "i\<lparr>pn_completed_step_orders := ?done, pn_completed_at := (if card ?done = length (pk_steps p) then Some now else pn_completed_at i)\<rparr>"
  let ?ins = "dict_set i_id ?i ins"
  have refused: "\<exists>m. complete_step now firm i_id n (s, ins) = Inl (ValueError m)" if "n \<notin> set ns"
    using that by (simp add: complete_step_def found book(1) known)
  have step: "complete_step now firm i_id n (s, ins) = Inr (?i, s, ?ins)" and sub: "?done \<subseteq> set ns" if "n \<in> set ns"
    using that so_far(1) inst(3) by (auto simp: complete_step_def found book(1) known Let_def split del: if_split)
  have complete: "card ?done = length ns \<longleftrightarrow> ?done = set ns" if "n \<in> set ns"
    using card_subset_eq [OF _ sub [OF that]] card by auto
  have progress: "playbook_progress firm i_id (s, ?ins) =
      (if pk_steps p = [] then Inr (Fin 1) else int_truediv (int (card ?done)) (int (length ns)))"
    using inst(2) book(1) by (simp add: playbook_progress_def find_instance_def update_conv len cong: if_cong split del: if_split)
  have unit: "\<exists>v. playbook_progress firm i_id (s, ?ins) = Inr v \<and> unit_float v" if "n \<in> set ns"
  proof -
    have "card ?done \<le> length ns" using card_mono [OF _ sub [OF that]] card by simp
    moreover have "0 < length ns" using that by (cases ns) auto
    ultimately show ?thesis unfolding progress using unit_truediv [of "int (card ?done)" "int (length ns)"] len by auto
  qed
  have one: "playbook_progress firm i_id (s, ?ins) = Inr (Fin 1)" if "n \<in> set ns" "?done = set ns"
  proof -
    have "0 < length ns" using that(1) by (cases ns) auto
    then have "int_truediv (int (length ns)) (int (length ns)) = Inr (Fin 1)"
      using round64_int [of 1] by (simp add: int_truediv_def)
    then show ?thesis unfolding progress using that(2) card by simp
  qed
  have "\<exists>i' ins'. complete_step now firm i_id n (s, ins) = Inr (i', s, ins') \<and> dict_get ins' i_id = Some i' \<and>
       pn_completed_step_orders i' = ?done \<and> pn_completed_step_orders i' \<subseteq> set ns \<and>
       (pn_completed_at i' \<noteq> None \<longleftrightarrow> pn_completed_step_orders i' = set ns) \<and>
       (\<exists>v. playbook_progress firm i_id (s, ins') = Inr v \<and> unit_float v) \<and>
       (pn_completed_step_orders i' = set ns \<longrightarrow> playbook_progress firm i_id (s, ins') = Inr (Fin 1))" if n: "n \<in> set ns"
    by (intro exI [of _ ?i] exI [of _ ?ins] conjI)
      (use step [OF n] sub [OF n] complete [OF n] unit [OF n] one [OF n] len so_far(2) in \<open>simp_all add: update_conv\<close>)
  then show ?thesis using refused by blast
qed

lemma playbook_completion_witness:
  "\<exists>i' ins'. complete_step 9 ''f'' ''i'' 2 ([(''p'', demo_playbook_object [1, 2])],
      [(''i'', \<lparr>pn_id = ''i'', pn_firm_id = ''f'', pn_playbook_id = ''p'', pn_case_reference = None, pn_started_at = 0,
         pn_completed_step_orders = {1}, pn_completed_at = None\<rparr>)]) = Inr (i', [(''p'', demo_playbook_object [1, 2])], ins') \<and>
     pn_completed_at i' \<noteq> None"
proof -
  let ?i = "\<lparr>pn_id = ''i'', pn_firm_id = ''f'', pn_playbook_id = ''p'', pn_case_reference = None, pn_started_at = 0,
         pn_completed_step_orders = {1}, pn_completed_at = None\<rparr>"
  have book: "get_playbook ''f'' (pn_playbook_id ?i) [(''p'', demo_playbook_object [1, 2])] = Inr (demo_playbook [1, 2])"
    using playbook_read [of "demo_playbook_object [1, 2]" "demo_playbook [1, 2]"]
    by (simp add: get_playbook_def known_object_def knowledge_get_def require_same_firm_def demo_playbook_object_fields demo_playbook_def)
  have orders: "map ps_order (pk_steps (demo_playbook [1, 2])) = map JInt [1, 2]" by (simp add: demo_playbook_def demo_playbook_step_def)
  have "insert 2 (pn_completed_step_orders ?i) = set [1, 2]" by auto
  moreover have "pn_completed_step_orders ?i \<subset> set [1, 2]" by auto
  ultimately show ?thesis
    using playbook_completion [of "[(''i'', ?i)]" "''i''" ?i "''f''", OF _ _ _ book orders, of 2 9] by auto
qed

text \<open>
  Two steps with one number: the playbook is validated content like any other, but an instance of it never comes to an end, and
  its progress stays at one half.
\<close>

theorem repeated_orders_never_complete:
  "let s = [(''p'', demo_playbook_object [1, 1])];
       i = \<lparr>pn_id = ''i'', pn_firm_id = ''f'', pn_playbook_id = ''p'', pn_case_reference = None, pn_started_at = 0,
            pn_completed_step_orders = {1}, pn_completed_at = None\<rparr> in
   complete_step now ''f'' ''i'' n (s, [(''i'', i)]) = (if n = 1 then Inr (i, s, [(''i'', i)]) else
     Inl (ValueError (''Unknown step order '' @ dec_int n @ '' for playbook p''))) \<and>
   playbook_progress ''f'' ''i'' (s, [(''i'', i)]) = int_truediv 1 2"
proof -
  have book: "get_playbook ''f'' ''p'' [(''p'', demo_playbook_object [1, 1])] = Inr (demo_playbook [1, 1])"
    using playbook_read [of "demo_playbook_object [1, 1]" "demo_playbook [1, 1]"]
    by (simp add: get_playbook_def known_object_def knowledge_get_def require_same_firm_def demo_playbook_object_fields demo_playbook_def)
  have known: "order_known n (demo_playbook [1, 1]) = Inr (n = 1)" for n
    using order_known_numbers [of "demo_playbook [1, 1]" "[1, 1]" n] by (simp add: demo_playbook_def demo_playbook_step_def)
  show ?thesis
    by (simp add: Let_def complete_step_def playbook_progress_def find_instance_def book known) (simp add: demo_playbook_def)
qed

end
