(* ===== verification/Spec2Isabelle.thy ===== *)
theory Spec2Isabelle
  imports Rules Triggers Actions Workflows Templates Executions Simulations Validations Journals Plans Billing
    Licences Authorization Tenants Sessions RateLimits Credentials PublicApi SecurityAudit Quotas Fabric Plugins Extensions
    FeatureFlags Workspaces
    Resilience Integration AsyncWork Missions Streams Orchestrator KnowledgeUse
begin

text \<open>
  Verification of the backend of TMIS, the Python package \<^verbatim>\<open>src/backend/src/tmis\<close>.

  \<^bold>\<open>The program.\<close> TMIS is a platform for law firms, divided into bounded contexts, each built in the
  same way: \<^verbatim>\<open>schemas.py\<close> holds dataclasses and enums, \<^verbatim>\<open>store.py\<close> an in-memory store behind a port,
  \<^verbatim>\<open>engine.py\<close> the operations, and \<^verbatim>\<open>api/\<close> the HTTP routes. Every object belongs to a firm (the
  tenant), and the stores list it by firm. This development models the engines and stores of the
  contexts that carry the platform's own rules: workflow automation and human validation, the
  commercial side (plans, subscriptions, billing, licences, quotas, feature flags), the identity
  platform, the routing of AI models, the plug-in platform, the collaborative workspaces, the
  missions of the AI team, the integration hub, and the runtime platform with its operations.

  \<^bold>\<open>Conventions.\<close> A dataclass is a record, an enum a datatype, a \<open>dict\<close> an insertion-ordered
  association list, a \<open>set\<close> or \<open>frozenset\<close> a set or a list without repetition, an exception a value
  of \<open>pyexn\<close>; an operation that may raise returns \<open>pyexn + 'a\<close>. An engine's operation takes its
  stores and returns them changed; an object fetched from a store, mutated and saved is written
  back under its own key. Clock readings, \<open>uuid4\<close> identifiers and random secrets are arguments; where
  a property needs an identifier to be new, that is a named hypothesis. A \<open>datetime\<close> is a number of
  microseconds, like a reading of \<open>time.monotonic()\<close>; a string a list of characters below 256, an
  \<open>int\<close> unbounded, a \<open>float\<close> an IEEE 754 binary64 number. A French sentence that only explains a
  decision is a value that names the sentence and carries what is formatted into it.

  \<^bold>\<open>Foundations.\<close>
  \<^item> \<open>Prelude\<close>: exceptions, results, dictionaries, and three interfaces as locales: \<open>keyed_store\<close> (an
    object is filed under the key it carries), \<open>tenant_store\<close> (with the listing of a firm's objects)
    and \<open>journal\<close> (append-only). Each component interprets them on its own stores, and its
    properties rest on their lemmas (what a lookup returns after a save, that other keys and other
    firms are unaffected, how many objects of a kind a firm has after a save).
  \<^item> \<open>PyText\<close>, \<open>PyFloat\<close>, \<open>PyDate\<close>: what the code uses of \<open>str\<close>, \<open>int()\<close>, \<open>repr\<close>, \<open>float\<close> arithmetic and
    \<open>date.fromisoformat\<close>.
  \<^item> \<open>Windows\<close>: the sliding window behind every limiter that looks back; \<open>Lifecycles\<close>: histories that are
    paths of allowed transitions; \<open>RetriedWork\<close>: queues of work with a limit of attempts, with the
    selection of the next item. The components that share these arguments instantiate them.

  \<^bold>\<open>Workflow automation\<close> (\<^verbatim>\<open>workflow_automation/\<close>).
  \<^item> \<open>Conditions\<close> (\<^verbatim>\<open>condition_engine\<close>): evaluation of condition trees with named references. The
    argument \<open>depth\<close> is the interpreter's remaining recursion depth; with acyclic references a
    computable depth is enough and larger ones change nothing, with cyclic ones none is.
  \<^item> \<open>Rules\<close> (\<^verbatim>\<open>rule_engine\<close>), \<open>Triggers\<close> (\<^verbatim>\<open>event_bus\<close>, \<^verbatim>\<open>trigger_engine\<close>, \<^verbatim>\<open>scheduler\<close>), \<open>Actions\<close>
    (\<^verbatim>\<open>action_engine\<close>, \<^verbatim>\<open>rollback\<close>, \<^verbatim>\<open>retry\<close>, \<^verbatim>\<open>integrations\<close>): the pieces a workflow is made of. Handlers are
    plug-ins, functions of a state of their own that may raise.
  \<^item> \<open>Workflows\<close> (\<^verbatim>\<open>workflow_engine\<close>): versions, numbered and at most one active, as an invariant of
    the reachable stores. \<open>Templates\<close> (\<^verbatim>\<open>template_library\<close>, \<^verbatim>\<open>workflow_designer\<close>) builds and draws them.
  \<^item> \<open>Executions\<close> (\<^verbatim>\<open>execution_engine\<close>, \<^verbatim>\<open>metrics\<close>): starting and resuming a workflow with retries,
    time-outs and parallel groups under an arbitrary schedule. \<open>Simulations\<close> (\<^verbatim>\<open>simulation\<close>): the dry
    run, shown to predict the execution.
  \<^item> \<open>Validations\<close> (\<^verbatim>\<open>ai_governance/human_validation\<close>, \<^verbatim>\<open>approval_gateway\<close>): what an approved request
    means. \<open>Journals\<close> (\<^verbatim>\<open>audit\<close>, \<^verbatim>\<open>collaboration/notifications\<close>, \<^verbatim>\<open>notifications\<close>): the audit journal and
    its CSV form, which reads back exactly.

  \<^bold>\<open>The commercial side\<close> (\<^verbatim>\<open>business_platform/\<close>, \<^verbatim>\<open>cabinet_os/billing\<close>, \<^verbatim>\<open>platform/\<close>).
  \<^item> \<open>Plans\<close> (\<^verbatim>\<open>plans\<close>, \<^verbatim>\<open>subscriptions\<close>, \<^verbatim>\<open>trial\<close>, \<^verbatim>\<open>pricing\<close>): sold plans are permanent, every reachable
    subscription resolves.
  \<^item> \<open>Billing\<close> (\<^verbatim>\<open>cabinet_os/billing\<close>, \<^verbatim>\<open>billing\<close>, \<^verbatim>\<open>invoicing\<close>, \<^verbatim>\<open>payments\<close>): the ledger's consistency, the
    effect of a payment, the billing cycle.
  \<^item> \<open>Licences\<close> (\<^verbatim>\<open>licenses\<close>, \<^verbatim>\<open>platform/licensing/signing.py\<close>): signed keys, with base64 and UTF-8
    modelled, and the floating pool. \<open>Licensing\<close> (\<^verbatim>\<open>platform/licensing\<close>): the licence a firm is served by.
  \<^item> \<open>Quotas\<close> (\<^verbatim>\<open>quotas\<close>, \<^verbatim>\<open>metering\<close>, \<^verbatim>\<open>usage\<close>, \<^verbatim>\<open>modules\<close>, \<^verbatim>\<open>ai_fabric/quotas\<close>,
    \<^verbatim>\<open>platform/cost_control\<close>): what a firm may consume, and the gate before a workflow starts.
  \<^item> \<open>FeatureFlags\<close> (\<^verbatim>\<open>platform/feature_flags\<close>, \<^verbatim>\<open>feature_flags\<close>, \<^verbatim>\<open>tenant_settings\<close>): progressive rollouts
    never take a feature away.

  \<^bold>\<open>The identity platform\<close> (\<^verbatim>\<open>identity_platform/\<close>, with \<^verbatim>\<open>platform/rate_limiting\<close> and
  \<^verbatim>\<open>cabinet_os/public_api\<close>).
  \<^item> \<open>Authorization\<close> (\<^verbatim>\<open>roles\<close>, \<^verbatim>\<open>permissions\<close>, \<^verbatim>\<open>rbac\<close>, \<^verbatim>\<open>abac\<close>, \<^verbatim>\<open>policy_engine\<close>, \<^verbatim>\<open>identity_context\<close>,
    \<^verbatim>\<open>authorization\<close>, \<^verbatim>\<open>api/guard.py\<close>): the decision characterised exactly, that each layer only
    restricts, and the guard every other context calls.
  \<^item> \<open>Tenants\<close> (\<^verbatim>\<open>organization\<close>, \<^verbatim>\<open>departments\<close>, \<^verbatim>\<open>teams\<close>, \<^verbatim>\<open>users\<close>, \<^verbatim>\<open>tenant_context\<close>,
    \<^verbatim>\<open>tenant_management\<close>): the hierarchy of a firm and its onboarding.
  \<^item> \<open>Sessions\<close> (\<^verbatim>\<open>session_manager\<close>, \<^verbatim>\<open>device_trust\<close>, \<^verbatim>\<open>delegation\<close>, \<^verbatim>\<open>impersonation\<close>): invariants over
    arbitrary sequences of operations.
  \<^item> \<open>RateLimits\<close> (\<^verbatim>\<open>platform/rate_limiting\<close>, \<^verbatim>\<open>cabinet_os/public_api/rate_limiter.py\<close>,
    \<^verbatim>\<open>risk_engine\<close>): bounds on what a limiter lets through, the lockout, the login risk.
  \<^item> \<open>Credentials\<close> (\<^verbatim>\<open>oauth2\<close>, \<^verbatim>\<open>openid_connect\<close>, \<^verbatim>\<open>passwordless\<close>, \<^verbatim>\<open>magic_links\<close>, \<^verbatim>\<open>mfa\<close>, \<^verbatim>\<open>webauthn\<close>,
    \<^verbatim>\<open>passkeys\<close>) and \<open>PublicApi\<close> (\<^verbatim>\<open>cabinet_os/public_api\<close>): single use, replay protection and
    revocation. SHA-256, HMAC and the JWT library are arguments.
  \<^item> \<open>SecurityAudit\<close> (\<^verbatim>\<open>security_events\<close>, \<^verbatim>\<open>audit\<close>, \<^verbatim>\<open>monitoring\<close>): the audit trail as a refinement of
    the event history, and the dashboard.

  \<^bold>\<open>Models and plug-ins\<close> (\<^verbatim>\<open>ai_fabric/\<close>, \<^verbatim>\<open>platform_sdk/\<close>).
  \<^item> \<open>Fabric\<close> (\<^verbatim>\<open>model_registry\<close>, \<^verbatim>\<open>governance\<close>, \<^verbatim>\<open>router\<close>, \<^verbatim>\<open>planner\<close>, \<^verbatim>\<open>fallback\<close> and the optimisers): which
    model is chosen, and that no firm exceeds its calls in any thirty days.
  \<^item> \<open>Plugins\<close> (\<^verbatim>\<open>plugin_system\<close>, \<^verbatim>\<open>plugin_registry\<close>, \<^verbatim>\<open>validation\<close>, \<^verbatim>\<open>publishing\<close>): the lifecycle of a
    manifest and the search for circular dependencies. \<open>Extensions\<close> (\<^verbatim>\<open>permissions\<close>, \<^verbatim>\<open>extensions\<close>,
    \<^verbatim>\<open>marketplace\<close>, \<^verbatim>\<open>plugin_loader\<close>, \<^verbatim>\<open>sandbox\<close>, \<^verbatim>\<open>business_platform/marketplace_subscriptions\<close>): what an
    installed plug-in may do and how often, and what a subscription to it leaves behind.

  \<^bold>\<open>Collaboration\<close> (\<^verbatim>\<open>collaboration/\<close>).
  \<^item> \<open>Members\<close> (\<^verbatim>\<open>members\<close>, \<^verbatim>\<open>roles\<close>, \<^verbatim>\<open>permissions\<close>), \<open>Collaboration\<close> (\<^verbatim>\<open>tasks\<close>, \<^verbatim>\<open>workflow\<close>, \<^verbatim>\<open>comments\<close>,
    \<^verbatim>\<open>mentions\<close>), \<open>Sharing\<close> (\<^verbatim>\<open>approvals\<close>, \<^verbatim>\<open>sharing\<close>, \<^verbatim>\<open>presence\<close>) and \<open>Feeds\<close> (\<^verbatim>\<open>activity\<close>, \<^verbatim>\<open>audit\<close>,
    \<^verbatim>\<open>timeline\<close>, \<^verbatim>\<open>evaluation\<close>): the services of a workspace.
  \<^item> \<open>Workspaces\<close> (\<^verbatim>\<open>workspace\<close>): the engine that composes them; every operation that returns is
    journaled, and the audit trail of a task tells its whole history.

  \<^bold>\<open>Work that others do\<close> (\<^verbatim>\<open>ai_team/\<close>, \<^verbatim>\<open>integration_hub/\<close>, \<^verbatim>\<open>runtime_platform/\<close>, \<^verbatim>\<open>cloud_operations/\<close>).
  \<^item> \<open>Teams\<close> (\<^verbatim>\<open>planner\<close>, \<^verbatim>\<open>teams\<close>, \<^verbatim>\<open>registry\<close>, \<^verbatim>\<open>delegation\<close>) plans a mission and chooses its agents;
    \<open>Missions\<close> (\<^verbatim>\<open>coordinator\<close>, \<^verbatim>\<open>work_queue\<close>, \<^verbatim>\<open>context\<close>, \<^verbatim>\<open>human_loop\<close>) runs it. The agents are a
    parameter that may depend on everything that happened before.
  \<^item> \<open>Integration\<close> (\<^verbatim>\<open>queue\<close>, \<^verbatim>\<open>synchronization\<close>, \<^verbatim>\<open>mapping\<close>, \<^verbatim>\<open>conflict_resolution\<close>): what a pull from
    another system does with each record. Connectors and transformations are parameters.
  \<^item> \<open>AsyncWork\<close> (\<^verbatim>\<open>async_processing\<close>), \<open>Streams\<close> (\<^verbatim>\<open>event_store\<close>, \<^verbatim>\<open>event_streaming\<close>), \<open>Orchestrator\<close>
    (\<^verbatim>\<open>runtime_orchestrator\<close>): background jobs, replay of an event stream from its snapshots, and
    coroutines that share a semaphore, interleaved in any way.
  \<^item> \<open>Resilience\<close> (\<^verbatim>\<open>resilience\<close>, \<^verbatim>\<open>chaos_testing\<close>, \<^verbatim>\<open>incident_management\<close>): the circuit breaker bounds
    failing calls; incidents.

  \<^bold>\<open>How the parts interact.\<close> An event or a due schedule selects triggers, whose workflows the
  execution engine runs over the condition and action engines, journaling each action; critical
  actions are meant to pass the approval gateway, that is a validation request, and so are the
  conflicts of a synchronization and the revisions of a mission. Before a workflow starts, and
  before a model is routed, the quota that follows from plan and subscription is asked. The billing cycle
  reads subscriptions, plans and prices and writes the ledger, as do paid extensions, which also
  issue licences; the governance of models asks the platform licence. The guard reads the identity
  contexts and calls the authorization engine, which asks the three layers in order; the risk
  engine composes devices and the lockout; the dashboard counts over sessions, enrolments,
  devices, delegations, policies and events. The workspace engine calls one service and then the
  two journals and the bus.

  \<^bold>\<open>Bounds and fuel.\<close> \<open>depth\<close> in \<open>Conditions\<close> is discussed there. \<open>run_mission\<close> takes fuel for its loop;
  more than three turns per sub-task of the plan are enough for a mission just launched, and that is proved. The loops of the
  scheduler of parallel steps take a list of rounds, the search for circular plug-in dependencies a
  measure on the plug-ins not yet visited. Everything else recurses on its data.

  \<^bold>\<open>Where the code departs from its intent.\<close> Several statements describe behaviour the code's own
  documentation does not expect; each says so in its text. In workflows: a cancelled execution is never closed
  nor counted, a start whose condition raises leaves a running execution for ever, a one-shot
  schedule stays due, any approver approves in simple mode. In commerce: a transferred licence revives, a
  firm is served by its oldest licence, the number of workflows a plan allows is used up for life, a
  plan that cannot be routed is charged, a module outlives a downgrade, the feature that enterprise
  models need is in no plan, a second subscription to an extension loses a licence, the plan gates of
  feature flags are never consulted. In identity: a naive end date disables a firm's delegations, the
  dashboard counts revoked sessions, the \<open>effect\<close> of a policy is never read. Among plug-ins: the
  signature ignores the permissions, a disabled extension goes on running. In collaboration: no
  permission is enforced, a revocation gives way to a later grant, a refused invitation leaves a
  member behind. In running work: the delay before a retry is ignored, a team of low complexity lacks
  the expert its plan needs, a pull moves its date although records are pending, a cancelled task that
  waits is started, concurrent publications of one key are both delivered.

  \<^bold>\<open>Not modelled.\<close> The contexts that wrap language models, document parsing, search and other external
  services, the HTTP routes and their data-transfer objects, the SQL repositories, and the
  composition roots beyond what the models quote. Of the contexts above: the secret manager,
  configuration, compliance and the authentication dispatch of the identity platform; the reports,
  exports and portal of the business platform; the validation of a licence key a client presents (it parses any ISO
  8601 time); the text comparisons, caches and telemetry of the AI fabric and of the AI team; connectors, web hooks and the
  sandbox of the hub; the registries of the runtime and operations contexts that only record. Durations
  and platform counters are left out, and the search for plug-in dependencies does not model the
  interpreter's stack. Asynchronous code is modelled as run to completion, except for parallel groups of steps, where
  the schedule is an argument, and the runtime orchestrator, whose steps interleave. Python's set order is not fixed; the
  models that use a set depend on its members only.
\<close>

end
